(* ===== verification/Prelude.thy ===== *)
theory Prelude
  imports Main "HOL-Library.Code_Target_Numeral"
begin

text \<open>
  Shared vocabulary of the development: database tables as lists of rows with the row-wise
  reading of SQL statements (an \<open>UPDATE ... WHERE\<close> is a conditional map, its
  \<open>RowsAffected\<close> the number of matching rows), transactions that roll back on an error, and
  the generic facts about them that every component uses.
\<close>

named_theorems sql_simps \<open>row-wise reading of the SQL statements\<close>
named_theorems op_defs \<open>definitions of the model's operations\<close>

section \<open>Results\<close>

fun is_ok :: "'e + 'a \<Rightarrow> bool" where
  "is_ok (Inl _) = False"
| "is_ok (Inr _) = True"

lemma is_ok_iff: "is_ok r \<longleftrightarrow> (\<exists>x. r = Inr x)"
  by (cases r) auto

text \<open>The early returns of the code: go on with the value, or return the error.\<close>

definition and_then :: "'e + 'a \<Rightarrow> ('a \<Rightarrow> 'e + 'b) \<Rightarrow> 'e + 'b" where
  "and_then r k = (case r of Inl e \<Rightarrow> Inl e | Inr x \<Rightarrow> k x)"

definition require :: "bool \<Rightarrow> 'e \<Rightarrow> 'e + unit" where
  "require c e = (if c then Inr () else Inl e)"

lemma and_then_simps [simp]: "and_then (Inl e) k = Inl e" "and_then (Inr x) k = k x"
  by (simp_all add: and_then_def)

lemma and_then_Inr [simp]: "and_then r k = Inr y \<longleftrightarrow> (\<exists>x. r = Inr x \<and> k x = Inr y)"
  by (cases r) auto

lemma and_then_Inl: "and_then r k = Inl e \<longleftrightarrow> r = Inl e \<or> (\<exists>x. r = Inr x \<and> k x = Inl e)"
  by (cases r) auto

lemma require_Inr [simp]: "require c e = Inr u \<longleftrightarrow> c"
  by (simp add: require_def)

lemma require_True [simp]: "require True e = Inr ()"
  by (simp add: require_def)

lemma require_False [simp]: "require False e = Inl e"
  by (simp add: require_def)

definition map_error :: "('e \<Rightarrow> 'f) \<Rightarrow> 'e + 'a \<Rightarrow> 'f + 'a" where
  "map_error g r = (case r of Inl e \<Rightarrow> Inl (g e) | Inr x \<Rightarrow> Inr x)"

lemma map_error_simps [simp]: "map_error g (Inl e) = Inl (g e)" "map_error g (Inr x) = Inr x"
  by (simp_all add: map_error_def)

lemma map_error_Inr [simp]: "map_error g r = Inr x \<longleftrightarrow> r = Inr x"
  by (cases r) auto

definition from_option :: "'e \<Rightarrow> 'a option \<Rightarrow> 'e + 'a" where
  "from_option e x = (case x of None \<Rightarrow> Inl e | Some y \<Rightarrow> Inr y)"

lemma from_option_Inr [simp]: "from_option e x = Inr y \<longleftrightarrow> x = Some y"
  by (auto simp: from_option_def split: option.splits)

lemma from_option_simps [simp]: "from_option e None = Inl e" "from_option e (Some y) = Inr y"
  by (simp_all add: from_option_def)

section \<open>Tables as lists of rows\<close>

definition sql_update :: "('r \<Rightarrow> bool) \<Rightarrow> ('r \<Rightarrow> 'r) \<Rightarrow> 'r list \<Rightarrow> 'r list" where
  "sql_update c f rs = map (\<lambda>r. if c r then f r else r) rs"

definition rows_affected :: "('r \<Rightarrow> bool) \<Rightarrow> 'r list \<Rightarrow> nat" where
  "rows_affected c rs = length (filter c rs)"

definition sql_delete :: "('r \<Rightarrow> bool) \<Rightarrow> 'r list \<Rightarrow> 'r list" where
  "sql_delete c rs = filter (\<lambda>r. \<not> c r) rs"

definition sql_exists :: "('r \<Rightarrow> bool) \<Rightarrow> 'r list \<Rightarrow> bool" where
  "sql_exists c rs \<longleftrightarrow> list_ex c rs"

definition sql_sum :: "('r \<Rightarrow> int) \<Rightarrow> 'r list \<Rightarrow> int" where
  "sql_sum w rs = sum_list (map w rs)"

text \<open>A stable sort of the selected rows, as \<open>ORDER BY\<close> on a key.\<close>

definition order_by :: "('r \<Rightarrow> 'k::linorder) \<Rightarrow> 'r list \<Rightarrow> 'r list" where
  "order_by k rs = sort_key k rs"

lemma order_by_nonempty: "x \<in> set rs \<Longrightarrow> order_by k rs \<noteq> []"
  by (cases rs) (auto simp: order_by_def simp flip: length_0_conv)

lemma order_by_set: "set (order_by k rs) = set rs" "order_by k [] = []"
  by (simp_all add: order_by_def)

lemma sql_update_Nil [simp]: "sql_update c f [] = []"
  by (simp add: sql_update_def)

lemma sql_update_Cons [simp]:
  "sql_update c f (r # rs) = (if c r then f r else r) # sql_update c f rs"
  by (simp add: sql_update_def)

lemma sql_update_append [simp]: "sql_update c f (rs @ ss) = sql_update c f rs @ sql_update c f ss"
  by (simp add: sql_update_def)

lemma length_sql_update [simp]: "length (sql_update c f rs) = length rs"
  by (simp add: sql_update_def)

lemma set_sql_update: "set (sql_update c f rs) = (\<lambda>r. if c r then f r else r) ` set rs"
  by (simp add: sql_update_def)

lemma sql_update_memE [elim]:
  assumes "x \<in> set (sql_update c f rs)"
  obtains r where "r \<in> set rs" "c r" "x = f r" | "x \<in> set rs" "\<not> c x"
  using assms by (auto simp: set_sql_update split: if_splits)

lemma sql_update_memI1: "r \<in> set rs \<Longrightarrow> c r \<Longrightarrow> f r \<in> set (sql_update c f rs)"
  by (auto simp: set_sql_update intro!: image_eqI [of _ _ r])

lemma sql_update_memI2: "r \<in> set rs \<Longrightarrow> \<not> c r \<Longrightarrow> r \<in> set (sql_update c f rs)"
  by (auto simp: set_sql_update intro!: image_eqI [of _ _ r])

lemma sql_update_none: "\<forall>r\<in>set rs. \<not> c r \<Longrightarrow> sql_update c f rs = rs"
  by (induction rs) auto

lemma map_key_sql_update [simp]:
  "(\<And>r. k (f r) = k r) \<Longrightarrow> map k (sql_update c f rs) = map k rs"
  by (induction rs) auto

lemma rows_affected_0 [simp]: "rows_affected c rs = 0 \<longleftrightarrow> (\<forall>r\<in>set rs. \<not> c r)"
  by (simp add: rows_affected_def filter_empty_conv)

lemma rows_affected_pos: "0 < rows_affected c rs \<longleftrightarrow> (\<exists>r\<in>set rs. c r)"
  using rows_affected_0 [of c rs] by (auto simp del: rows_affected_0)

lemma rows_affected_1D: "rows_affected c rs = Suc 0 \<Longrightarrow> \<exists>r\<in>set rs. c r"
  using rows_affected_pos [of c rs] by simp

lemma rows_affected_le_1:
  assumes "distinct (map k rs)" and "\<And>r s. c r \<Longrightarrow> c s \<Longrightarrow> k r = k s"
  shows "rows_affected c rs \<le> 1"
  using assms(1)
proof (induction rs)
  case Nil
  then show ?case by (simp add: rows_affected_def)
next
  case (Cons r rs)
  show ?case
  proof (cases "c r")
    case True
    have "\<not> c s" if "s \<in> set rs" for s
      using Cons.prems that assms(2) [OF True, of s] by auto
    then have "filter c rs = []"
      by (simp add: filter_empty_conv)
    then show ?thesis using True by (simp add: rows_affected_def)
  next
    case False
    with Cons show ?thesis by (simp add: rows_affected_def)
  qed
qed

lemma sql_delete_mem [simp]: "r \<in> set (sql_delete c rs) \<longleftrightarrow> r \<in> set rs \<and> \<not> c r"
  by (simp add: sql_delete_def)

lemma distinct_map_sql_delete: "distinct (map k rs) \<Longrightarrow> distinct (map k (sql_delete c rs))"
  by (simp add: sql_delete_def distinct_map_filter)

lemma sql_exists_iff: "sql_exists c rs \<longleftrightarrow> (\<exists>r\<in>set rs. c r)"
  by (auto simp: sql_exists_def list_ex_iff)

subsection \<open>Single-row lookups\<close>

lemma find_SomeD: "find c rs = Some r \<Longrightarrow> r \<in> set rs \<and> c r"
  by (induction rs) (auto split: if_splits)

lemma find_NoneD: "find c rs = None \<Longrightarrow> \<forall>r\<in>set rs. \<not> c r"
  by (induction rs) (auto split: if_splits)

lemma distinct_map_eq:
  "distinct (map k rs) \<Longrightarrow> r \<in> set rs \<Longrightarrow> s \<in> set rs \<Longrightarrow> k r = k s \<Longrightarrow> r = s"
  by (auto simp: distinct_map inj_on_def)

lemma find_distinct:
  assumes "distinct (map k rs)" and "r \<in> set rs" and "k r = v"
  shows "find (\<lambda>x. k x = v) rs = Some r"
proof (cases "find (\<lambda>x. k x = v) rs")
  case None
  with assms show ?thesis by (auto simp: find_None_iff)
next
  case (Some s)
  then have "s \<in> set rs" "k s = v" by (auto dest: find_SomeD)
  with assms Some show ?thesis by (metis distinct_map_eq)
qed

subsection \<open>Sums over a table\<close>

lemma sql_sum_Nil [simp]: "sql_sum w [] = 0"
  by (simp add: sql_sum_def)

lemma sql_sum_Cons [simp]: "sql_sum w (r # rs) = w r + sql_sum w rs"
  by (simp add: sql_sum_def)

lemma sql_sum_append [simp]: "sql_sum w (rs @ ss) = sql_sum w rs + sql_sum w ss"
  by (simp add: sql_sum_def)

lemma sql_sum_nonneg: "(\<And>r. r \<in> set rs \<Longrightarrow> 0 \<le> w r) \<Longrightarrow> 0 \<le> sql_sum w rs"
  by (induction rs) auto

lemma sql_sum_cong: "(\<And>r. r \<in> set rs \<Longrightarrow> w r = v r) \<Longrightarrow> sql_sum w rs = sql_sum v rs"
  by (induction rs) auto

lemma sql_sum_0: "(\<And>r. r \<in> set rs \<Longrightarrow> w r = 0) \<Longrightarrow> sql_sum w rs = 0"
  by (induction rs) auto

lemma sql_sum_member_le:
  "r \<in> set rs \<Longrightarrow> (\<And>x. x \<in> set rs \<Longrightarrow> 0 \<le> w x) \<Longrightarrow> w r \<le> sql_sum w rs"
proof (induction rs)
  case (Cons a rs)
  have a: "0 \<le> w a" and "0 \<le> sql_sum w rs"
    using Cons.prems(2) by (auto intro: sql_sum_nonneg)
  then show ?case using Cons by fastforce
qed simp

text \<open>The effect of an update on a sum: the sum of the changes of the rows it touches.\<close>

lemma sql_sum_update:
  "sql_sum w (sql_update c f rs)
   = sql_sum w rs + sql_sum (\<lambda>r. if c r then w (f r) - w r else 0) rs"
  by (induction rs) auto

lemma sql_sum_update_same:
  "(\<And>r. r \<in> set rs \<Longrightarrow> c r \<Longrightarrow> w (f r) = w r) \<Longrightarrow> sql_sum w (sql_update c f rs) = sql_sum w rs"
  by (induction rs) auto

lemma sql_sum_single:
  assumes "distinct (map k rs)" and "r \<in> set rs" and "\<And>s. s \<in> set rs \<Longrightarrow> k s \<noteq> k r \<Longrightarrow> v s = 0"
  shows "sql_sum v rs = v r"
  using assms
proof (induction rs)
  case (Cons a rs)
  show ?case
  proof (cases "a = r")
    case True
    then have "sql_sum v rs = 0"
    proof (intro sql_sum_0)
      fix s assume "s \<in> set rs"
      moreover from this have "k s \<in> k ` set rs" by simp
      then have "k s \<noteq> k r" using Cons.prems(1) True by force
      ultimately show "v s = 0" using Cons.prems(3) [of s] by simp
    qed
    with True show ?thesis by simp
  next
    case False
    with Cons.prems(1,2) have "k a \<noteq> k r" by (auto simp: image_iff)
    then have "v a = 0" using Cons.prems(3) by simp
    with False Cons show ?thesis by simp
  qed
qed simp

lemma sql_sum_update_one:
  assumes "distinct (map k rs)" and "r \<in> set rs" and "c r"
    and "\<And>s. s \<in> set rs \<Longrightarrow> c s \<Longrightarrow> k s = k r"
  shows "sql_sum w (sql_update c f rs) = sql_sum w rs - w r + w (f r)"
proof -
  let ?v = "\<lambda>s. if c s then w (f s) - w s else 0"
  have "?v s = 0" if "s \<in> set rs" "k s \<noteq> k r" for s
    using that assms(4) by fastforce
  then have "sql_sum ?v rs = ?v r"
    by (rule sql_sum_single [OF assms(1,2)])
  with assms(3) show ?thesis by (simp add: sql_sum_update)
qed

section \<open>Transactions\<close>

text \<open>
  A transaction body returns an error or a value with the new database. On an error everything
  the body wrote is rolled back: the database of the result is the one the transaction began
  with.
\<close>

definition transaction :: "('d \<Rightarrow> 'e + ('a \<times> 'd)) \<Rightarrow> 'd \<Rightarrow> ('e + 'a) \<times> 'd" where
  "transaction work db =
     (case work db of Inl e \<Rightarrow> (Inl e, db) | Inr (a, db') \<Rightarrow> (Inr a, db'))"

lemma transaction_Inl: "transaction work db = (Inl e, db') \<Longrightarrow> db' = db \<and> work db = Inl e"
  by (auto simp: transaction_def split: sum.splits prod.splits)

lemma transaction_Inr: "transaction work db = (Inr a, db') \<Longrightarrow> work db = Inr (a, db')"
  by (auto simp: transaction_def split: sum.splits prod.splits)

text \<open>An invariant the body keeps whenever it succeeds is kept by the transaction.\<close>

lemma transaction_inv:
  assumes "I db" and "\<And>a db'. work db = Inr (a, db') \<Longrightarrow> I db'"
  shows "I (snd (transaction work db))"
  using assms by (auto simp: transaction_def split: sum.splits prod.splits)

lemma snd_transaction_cases:
  obtains "snd (transaction work db) = db" | a where "work db = Inr (a, snd (transaction work db))"
  by (cases "work db") (auto simp: transaction_def)

section \<open>Association lists and finite enumerations\<close>

lemma filter_singleton_key:
  assumes "distinct (map k rs)" and "r \<in> set rs"
  shows "filter (\<lambda>x. k x = k r) rs = [r]"
  using assms
proof (induction rs)
  case (Cons a rs)
  show ?case
  proof (cases "a = r")
    case True
    with Cons.prems have "filter (\<lambda>x. k x = k r) rs = []"
      by (auto simp: filter_empty_conv image_iff)
    with True show ?thesis by simp
  next
    case False
    with Cons.prems have "k a \<noteq> k r" by (auto simp: image_iff)
    with False Cons show ?thesis by auto
  qed
qed simp

end
