(* ===== verification/Go_Lib.thy ===== *)
theory Go_Lib
  imports Prelude
begin

text \<open>
  The parts of Go's standard library that the sources call on strings: a Go string is a list of
  bytes (type \<open>string\<close>), a rune is a natural number. \<open>strings.TrimSpace\<close>, UTF-8 decoding,
  \<open>strconv.ParseInt\<close> and \<open>ParseBool\<close>, \<open>strings.Split\<close>, \<open>filepath.Ext\<close>, the hexadecimal and
  base64 codecs. Instants are integers counting nanoseconds from Go's zero time, durations are
  64-bit signed nanosecond counts.
\<close>

section \<open>Instants and durations\<close>

type_synonym instant = int
type_synonym duration = int

definition is_zero_time :: "instant \<Rightarrow> bool" where
  "is_zero_time t \<longleftrightarrow> t = 0"

abbreviation (input) nanosecond :: duration where "nanosecond \<equiv> 1"

definition microsecond :: duration where "microsecond = 1000"
definition millisecond :: duration where "millisecond = 1000000"
definition second :: duration where "second = 1000000000"
definition minute :: duration where "minute = 60000000000"
definition hour :: duration where "hour = 3600000000000"

lemmas duration_units = microsecond_def millisecond_def second_def minute_def hour_def

text \<open>\<open>Time.Truncate\<close> rounds down to a multiple of the unit since the zero time.\<close>

definition truncate_time :: "instant \<Rightarrow> duration \<Rightarrow> instant" where
  "truncate_time t d = (if d \<le> 0 then t else t - t mod d)"

text \<open>Two's complement reading of a 64-bit product, for duration arithmetic that may wrap.\<close>

definition wrap64 :: "int \<Rightarrow> int" where
  "wrap64 x = (x + 9223372036854775808) mod 18446744073709551616 - 9223372036854775808"

lemma wrap64_id: "- 9223372036854775808 \<le> x \<Longrightarrow> x \<le> 9223372036854775807 \<Longrightarrow> wrap64 x = x"
  by (simp add: wrap64_def)

section \<open>Bytes, prefixes and substrings\<close>

definition byte_of :: "char \<Rightarrow> nat" where
  "byte_of c = of_char c"

definition has_prefix :: "string \<Rightarrow> string \<Rightarrow> bool" where
  "has_prefix p s \<longleftrightarrow> take (length p) s = p"

fun contains_sub :: "string \<Rightarrow> string \<Rightarrow> bool" where
  "contains_sub p [] = (p = [])"
| "contains_sub p (c # s) = (has_prefix p (c # s) \<or> contains_sub p s)"

lemma has_prefix_append [simp]: "has_prefix p (p @ s)"
  by (simp add: has_prefix_def)

lemma has_prefixD: "has_prefix p s \<Longrightarrow> \<exists>t. s = p @ t"
  by (metis append_take_drop_id has_prefix_def)

lemma has_prefix_length: "has_prefix p s \<Longrightarrow> length p \<le> length s"
  by (auto dest: has_prefixD)

section \<open>strings.TrimSpace\<close>

text \<open>
  The UTF-8 encodings of the code points that \<open>unicode.IsSpace\<close> accepts. The encodings are
  self-synchronising, so stripping an encoding from either end of the bytes is stripping a rune.
\<close>

definition space_encodings :: "string list" where
  "space_encodings = map (map char_of)
     ([[9], [10], [11], [12], [13], [32], [194, 133], [194, 160], [225, 154, 128],
       [226, 128, 168], [226, 128, 169], [226, 128, 175], [226, 129, 159], [227, 128, 128]]
      @ map (\<lambda>k. [226, 128, k]) [128..<139 :: nat])"

function trim_with :: "string list \<Rightarrow> string \<Rightarrow> string" where
  "trim_with encs s =
     (case find (\<lambda>e. e \<noteq> [] \<and> has_prefix e s) encs of
        None \<Rightarrow> s
      | Some e \<Rightarrow> trim_with encs (drop (length e) s))"
  by pat_completeness auto
termination
proof (relation "measure (\<lambda>(_, s). length s)")
  fix encs :: "string list" and s e :: string
  assume "find (\<lambda>e. e \<noteq> [] \<and> has_prefix e s) encs = Some e"
  then have "e \<noteq> []" and "has_prefix e s" by (auto dest: find_SomeD)
  then have "0 < length e" and "length e \<le> length s" by (auto dest: has_prefix_length)
  then have "length s - length e < length s" by arith
  then show "((encs, drop (length e) s), (encs, s)) \<in> measure (\<lambda>(_, s). length s)" by simp
qed simp

declare trim_with.simps [simp del]

definition trim_left :: "string \<Rightarrow> string" where
  "trim_left s = trim_with space_encodings s"

definition trim_right :: "string \<Rightarrow> string" where
  "trim_right s = rev (trim_with (map rev space_encodings) (rev s))"

definition trim_space :: "string \<Rightarrow> string" where
  "trim_space s = trim_right (trim_left s)"

lemma trim_with_no_space:
  "find (\<lambda>e. e \<noteq> [] \<and> has_prefix e (trim_with encs s)) encs = None"
proof (induction encs s rule: trim_with.induct)
  case (1 encs s)
  show ?case
  proof (cases "find (\<lambda>e. e \<noteq> [] \<and> has_prefix e s) encs")
    case None
    then show ?thesis by (simp add: trim_with.simps [of encs s])
  next
    case (Some e)
    with "1.IH" show ?thesis by (simp add: trim_with.simps [of encs s])
  qed
qed

lemma length_trim_with: "length (trim_with encs s) \<le> length s"
proof (induction encs s rule: trim_with.induct)
  case (1 encs s)
  then show ?case by (subst trim_with.simps) (fastforce split: option.splits)
qed

section \<open>UTF-8\<close>

definition cont_byte :: "nat \<Rightarrow> bool" where
  "cont_byte b \<longleftrightarrow> 128 \<le> b \<and> b \<le> 191"

text \<open>
  \<open>utf8.DecodeRune\<close>: the rune at the front of the bytes and the number of bytes it takes;
  \<open>None\<close> for an invalid encoding (overlong forms, surrogates and values above 10FFFF included).
\<close>

fun decode_rune :: "nat list \<Rightarrow> (nat \<times> nat) option" where
  "decode_rune [] = None"
| "decode_rune (a # bs) =
     (if a < 128 then Some (a, 1)
      else if 194 \<le> a \<and> a \<le> 223 then
        (case bs of
           b # _ \<Rightarrow> if cont_byte b then Some ((a - 192) * 64 + (b - 128), 2) else None
         | _ \<Rightarrow> None)
      else if 224 \<le> a \<and> a \<le> 239 then
        (case bs of
           b # c # _ \<Rightarrow>
             if (if a = 224 then 160 else 128) \<le> b \<and> b \<le> (if a = 237 then 159 else 191) \<and> cont_byte c
             then Some ((a - 224) * 4096 + (b - 128) * 64 + (c - 128), 3) else None
         | _ \<Rightarrow> None)
      else if 240 \<le> a \<and> a \<le> 244 then
        (case bs of
           b # c # d # _ \<Rightarrow>
             if (if a = 240 then 144 else 128) \<le> b \<and> b \<le> (if a = 244 then 143 else 191)
                \<and> cont_byte c \<and> cont_byte d
             then Some ((a - 240) * 262144 + (b - 128) * 4096 + (c - 128) * 64 + (d - 128), 4)
             else None
         | _ \<Rightarrow> None)
      else None)"

lemma decode_rune_width: "decode_rune bs = Some (r, n) \<Longrightarrow> 0 < n \<and> n \<le> length bs"
  by (cases bs rule: decode_rune.cases) (auto split: if_splits list.splits)

text \<open>\<open>utf8.ValidString\<close>, and the runes a \<open>range\<close> loop visits (U+FFFD for an invalid byte).\<close>

function valid_utf8 :: "nat list \<Rightarrow> bool" where
  "valid_utf8 bs =
     (if bs = [] then True
      else (case decode_rune bs of None \<Rightarrow> False | Some (_, n) \<Rightarrow> valid_utf8 (drop n bs)))"
  by pat_completeness auto
termination by (relation "measure length") (auto dest: decode_rune_width)

function runes_of :: "nat list \<Rightarrow> nat list" where
  "runes_of bs =
     (if bs = [] then []
      else (case decode_rune bs of
              None \<Rightarrow> 65533 # runes_of (drop 1 bs)
            | Some (r, n) \<Rightarrow> r # runes_of (drop n bs)))"
  by pat_completeness auto
termination by (relation "measure length") (auto dest: decode_rune_width)

declare valid_utf8.simps [simp del] runes_of.simps [simp del]

definition valid_string :: "string \<Rightarrow> bool" where
  "valid_string s = valid_utf8 (map byte_of s)"

definition string_runes :: "string \<Rightarrow> nat list" where
  "string_runes s = runes_of (map byte_of s)"

section \<open>Numbers and booleans in text\<close>

definition digit_value :: "char \<Rightarrow> nat option" where
  "digit_value c = (if 48 \<le> byte_of c \<and> byte_of c \<le> 57 then Some (byte_of c - 48) else None)"

fun parse_digits :: "nat \<Rightarrow> string \<Rightarrow> nat option" where
  "parse_digits acc [] = Some acc"
| "parse_digits acc (c # s) =
     (case digit_value c of None \<Rightarrow> None | Some d \<Rightarrow> parse_digits (acc * 10 + d) s)"

text \<open>
  \<open>strconv.ParseInt(s, 10, 64)\<close>: an optional sign, at least one digit, nothing else; \<open>None\<close> for a
  syntax error and for a value outside the 64-bit signed range.
\<close>

definition parse_int64 :: "string \<Rightarrow> int option" where
  "parse_int64 s =
     (let neg = (case s of c # _ \<Rightarrow> c = CHR ''-'' | [] \<Rightarrow> False);
          body = (case s of c # t \<Rightarrow> if c = CHR ''-'' \<or> c = CHR ''+'' then t else s | [] \<Rightarrow> s)
      in if body = [] then None
         else (case parse_digits 0 body of
                 None \<Rightarrow> None
               | Some n \<Rightarrow>
                   if neg then (if int n \<le> 9223372036854775808 then Some (- int n) else None)
                   else (if int n \<le> 9223372036854775807 then Some (int n) else None)))"

lemma parse_int64_range:
  "parse_int64 s = Some n \<Longrightarrow> - 9223372036854775808 \<le> n \<and> n \<le> 9223372036854775807"
  by (auto simp: parse_int64_def Let_def split: list.splits if_splits option.splits)

definition parse_bool :: "string \<Rightarrow> bool option" where
  "parse_bool s =
     (if s \<in> set [''1'', ''t'', ''T'', ''true'', ''TRUE'', ''True''] then Some True
      else if s \<in> set [''0'', ''f'', ''F'', ''false'', ''FALSE'', ''False''] then Some False
      else None)"

text \<open>\<open>strconv.FormatInt(n, 10)\<close>.\<close>

function digits_of :: "nat \<Rightarrow> string" where
  "digits_of n = (if n < 10 then [char_of (48 + n)] else digits_of (n div 10) @ [char_of (48 + n mod 10)])"
  by pat_completeness auto
termination by (relation "measure id") auto

declare digits_of.simps [simp del]

definition format_int :: "int \<Rightarrow> string" where
  "format_int n = (if n < 0 then ''-'' @ digits_of (nat (- n)) else digits_of (nat n))"

section \<open>Splitting and joining\<close>

fun split_on :: "char \<Rightarrow> string \<Rightarrow> string list" where
  "split_on sep [] = [[]]"
| "split_on sep (c # s) =
     (if c = sep then [] # split_on sep s
      else (case split_on sep s of [] \<Rightarrow> [[c]] | w # ws \<Rightarrow> (c # w) # ws))"

fun join_with :: "string \<Rightarrow> string list \<Rightarrow> string" where
  "join_with sep [] = []"
| "join_with sep [w] = w"
| "join_with sep (w # ws) = w @ sep @ join_with sep ws"

text \<open>
  \<open>filepath.Ext\<close>: the suffix from the last dot of the last path element, or nothing.
\<close>

fun ext_rev :: "string \<Rightarrow> string \<Rightarrow> string" where
  "ext_rev acc [] = []"
| "ext_rev acc (c # s) =
     (if c = CHR ''/'' then [] else if c = CHR ''.'' then c # acc else ext_rev (c # acc) s)"

definition path_ext :: "string \<Rightarrow> string" where
  "path_ext s = ext_rev [] (rev s)"

text \<open>
  \<open>strings.ToLower\<close> on the ASCII letters. No other rune lowers to one of the letters of
  \<open>jpg\<close>, \<open>jpeg\<close> or \<open>png\<close>, the only strings the result is compared with.
\<close>

definition lower_char :: "char \<Rightarrow> char" where
  "lower_char c = (if 65 \<le> byte_of c \<and> byte_of c \<le> 90 then char_of (byte_of c + 32) else c)"

definition to_lower :: "string \<Rightarrow> string" where
  "to_lower s = map lower_char s"

definition trim_prefix :: "string \<Rightarrow> string \<Rightarrow> string" where
  "trim_prefix p s = (if has_prefix p s then drop (length p) s else s)"

section \<open>Hexadecimal and base64\<close>

definition hex_digit :: "nat \<Rightarrow> char" where
  "hex_digit n = (if n < 10 then char_of (48 + n) else char_of (87 + n))"

definition hex_value :: "char \<Rightarrow> nat option" where
  "hex_value c =
     (let b = byte_of c in
      if 48 \<le> b \<and> b \<le> 57 then Some (b - 48)
      else if 97 \<le> b \<and> b \<le> 102 then Some (b - 87)
      else if 65 \<le> b \<and> b \<le> 70 then Some (b - 55)
      else None)"

fun hex_encode :: "nat list \<Rightarrow> string" where
  "hex_encode [] = []"
| "hex_encode (b # bs) = hex_digit (b div 16) # hex_digit (b mod 16) # hex_encode bs"

fun hex_decode :: "string \<Rightarrow> nat list option" where
  "hex_decode [] = Some []"
| "hex_decode [c] = None"
| "hex_decode (c # d # s) =
     (case (hex_value c, hex_value d) of
        (Some h, Some l) \<Rightarrow> map_option (\<lambda>bs. (h * 16 + l) # bs) (hex_decode s)
      | _ \<Rightarrow> None)"

definition base64_digit :: "nat \<Rightarrow> char" where
  "base64_digit n =
     (if n < 26 then char_of (65 + n)
      else if n < 52 then char_of (71 + n)
      else if n < 62 then char_of (n - 4)
      else if n = 62 then CHR ''+'' else CHR ''/'')"

fun base64_encode :: "nat list \<Rightarrow> string" where
  "base64_encode [] = []"
| "base64_encode [a] = [base64_digit (a div 4), base64_digit (a mod 4 * 16), CHR ''='', CHR ''='']"
| "base64_encode [a, b] =
     [base64_digit (a div 4), base64_digit (a mod 4 * 16 + b div 16), base64_digit (b mod 16 * 4), CHR ''='']"
| "base64_encode (a # b # c # bs) =
     base64_digit (a div 4) # base64_digit (a mod 4 * 16 + b div 16)
     # base64_digit (b mod 16 * 4 + c div 64) # base64_digit (c mod 64) # base64_encode bs"

definition is_byte_list :: "nat list \<Rightarrow> bool" where
  "is_byte_list bs \<longleftrightarrow> (\<forall>b\<in>set bs. b < 256)"

lemma is_byte_list_simps [simp]:
  "is_byte_list []" "is_byte_list (b # bs) \<longleftrightarrow> b < 256 \<and> is_byte_list bs"
  by (auto simp: is_byte_list_def)

lemma byte_of_char_of [simp]: "n < 256 \<Longrightarrow> byte_of (char_of n) = n"
  by (simp add: byte_of_def)

lemma byte_of_bound [simp]: "byte_of c < 256"
  by (simp add: byte_of_def)

lemma byte_of_inj: "byte_of c = byte_of d \<Longrightarrow> c = d"
  by (simp add: byte_of_def)

lemma hex_value_digit [simp]: "n < 16 \<Longrightarrow> hex_value (hex_digit n) = Some n"
  by (auto simp: hex_value_def hex_digit_def Let_def)

text \<open>Decoding an encoded digest gives the digest back.\<close>

lemma hex_decode_encode: "is_byte_list bs \<Longrightarrow> hex_decode (hex_encode bs) = Some bs"
  by (induction bs) auto

lemma length_hex_encode [simp]: "length (hex_encode bs) = 2 * length bs"
  by (induction bs) auto

section \<open>The encodings are injective\<close>

lemma digit_value_digit [simp]: "n < 10 \<Longrightarrow> digit_value (char_of (48 + n)) = Some n"
  by (simp add: digit_value_def)

lemma parse_digits_append:
  "parse_digits acc (s @ t) = (case parse_digits acc s of None \<Rightarrow> None | Some a \<Rightarrow> parse_digits a t)"
  by (induction acc s rule: parse_digits.induct) (auto split: option.splits)

lemma parse_digits_of: "parse_digits 0 (digits_of n) = Some n"
proof (induction n rule: digits_of.induct)
  case (1 n)
  then show ?case by (simp add: digits_of.simps [of n] parse_digits_append)
qed

lemma digits_of_chars: "c \<in> set (digits_of n) \<Longrightarrow> digit_value c \<noteq> None"
proof (induction n rule: digits_of.induct)
  case (1 n)
  then show ?case by (auto simp: digits_of.simps [of n] split: if_splits)
qed

lemma digits_of_inj: "digits_of m = digits_of n \<Longrightarrow> m = n"
  by (metis parse_digits_of option.inject)

lemma digit_value_minus: "digit_value CHR ''-'' = None"
  by (simp add: digit_value_def byte_of_def)

lemma format_int_inj: "format_int m = format_int n \<Longrightarrow> m = n"
proof -
  have nm: "digits_of k \<noteq> CHR ''-'' # t" for k t
    using digits_of_chars [of "CHR ''-''" k] digit_value_minus by auto
  assume "format_int m = format_int n"
  then show ?thesis
    using nm nm [symmetric] by (auto simp: format_int_def split: if_splits dest!: digits_of_inj)
qed

lemma byte_of_base64_chars: "byte_of CHR ''+'' = 43" "byte_of CHR ''/'' = 47" "byte_of CHR ''='' = 61"
  "byte_of CHR ''|'' = 124"
  by (simp_all add: byte_of_def)

lemma byte_of_base64_digit:
  "n < 64 \<Longrightarrow> byte_of (base64_digit n) =
     (if n < 26 then 65 + n else if n < 52 then 71 + n else if n < 62 then n - 4 else if n = 62 then 43 else 47)"
  by (simp add: base64_digit_def byte_of_base64_chars)

definition sextet_byte :: "nat \<Rightarrow> nat" where
  "sextet_byte n = (if n < 26 then 65 + n else if n < 52 then 71 + n else if n < 62 then n - 4
     else if n = 62 then 43 else 47)"

lemma sextet_byte_inj:
  assumes "m < 64" "n < 64" "sextet_byte m = sextet_byte n"
  shows "m = n"
proof -
  have "distinct (map sextet_byte [0..<64])" by code_simp
  then show ?thesis using assms by (auto simp: distinct_map inj_on_def)
qed

lemma base64_digit_inj: "m < 64 \<Longrightarrow> n < 64 \<Longrightarrow> base64_digit m = base64_digit n \<longleftrightarrow> m = n"
  by (metis byte_of_base64_digit sextet_byte_def sextet_byte_inj)

lemma base64_digit_other:
  assumes "n < 64"
  shows "base64_digit n \<noteq> CHR ''=''" "base64_digit n \<noteq> CHR ''|''"
    "CHR ''='' \<noteq> base64_digit n" "CHR ''|'' \<noteq> base64_digit n"
proof -
  have "byte_of (base64_digit n) \<noteq> 61" "byte_of (base64_digit n) \<noteq> 124"
    using assms by (simp_all add: byte_of_base64_digit) arith+
  then show "base64_digit n \<noteq> CHR ''=''" "base64_digit n \<noteq> CHR ''|''"
    "CHR ''='' \<noteq> base64_digit n" "CHR ''|'' \<noteq> base64_digit n"
    using byte_of_base64_chars(3,4) by metis+
qed

lemma sextets:
  "a < 256 \<Longrightarrow> a div 4 < (64 :: nat)"
  "b < 256 \<Longrightarrow> a mod 4 * 16 + b div 16 < (64 :: nat)" "a mod 4 * 16 < (64 :: nat)"
  "c < 256 \<Longrightarrow> b mod 16 * 4 + c div 64 < (64 :: nat)" "b mod 16 * 4 < (64 :: nat)" "c mod 64 < (64 :: nat)"
  by auto

lemma radix_split:
  fixes n :: nat
  assumes "r < n" "r' < n" "x * n + r = x' * n + r'"
  shows "x = x' \<and> r = r'"
proof -
  have "(x * n + r) div n = x" "(x' * n + r') div n = x'" using assms(1,2) by auto
  then show ?thesis using assms(3) by auto
qed

lemma sextets_split2: "(b :: nat) < 256 \<Longrightarrow> b' < 256 \<Longrightarrow> a mod 4 * 16 + b div 16 = a' mod 4 * 16 + b' div 16
    \<Longrightarrow> a mod 4 = a' mod 4 \<and> b div 16 = b' div 16"
  by (rule radix_split) auto

lemma sextets_split3: "(c :: nat) < 256 \<Longrightarrow> c' < 256 \<Longrightarrow> b mod 16 * 4 + c div 64 = b' mod 16 * 4 + c' div 64
    \<Longrightarrow> b mod 16 = b' mod 16 \<and> c div 64 = c' div 64"
  by (rule radix_split) auto

lemma div_mod_eqI: "(a :: nat) div n = b div n \<Longrightarrow> a mod n = b mod n \<Longrightarrow> a = b"
  by (metis div_mult_mod_eq)

lemma base64_encode_no_bar: "is_byte_list bs \<Longrightarrow> CHR ''|'' \<notin> set (base64_encode bs)"
  by (induction bs rule: base64_encode.induct)
    (auto simp: sextets base64_digit_other)

lemma base64_encode_inj:
  "is_byte_list bs \<Longrightarrow> is_byte_list cs \<Longrightarrow> base64_encode bs = base64_encode cs \<Longrightarrow> bs = cs"
proof (induction bs arbitrary: cs rule: base64_encode.induct)
  case 1
  then show ?case by (cases cs rule: base64_encode.cases) auto
next
  case (2 a)
  then show ?case
    by (cases cs rule: base64_encode.cases)
      (auto simp: base64_digit_inj sextets base64_digit_other intro: div_mod_eqI)
next
  case (3 a b)
  then show ?case
    by (cases cs rule: base64_encode.cases)
      (auto simp: base64_digit_inj sextets base64_digit_other intro: div_mod_eqI dest!: sextets_split2 [rotated 2])
next
  case (4 a b c bs)
  then show ?case
    by (cases cs rule: base64_encode.cases)
      (auto simp: base64_digit_inj sextets base64_digit_other intro: div_mod_eqI
        dest!: sextets_split2 [rotated 2] sextets_split3 [rotated 2])
qed

section \<open>Trimming\<close>

lemma has_prefix_trans: "has_prefix e t \<Longrightarrow> has_prefix e (t @ u)"
  by (auto dest!: has_prefixD)

lemma trim_with_suffix: "\<exists>u. s = u @ trim_with encs s"
proof (induction encs s rule: trim_with.induct)
  case (1 encs s)
  show ?case
  proof (cases "find (\<lambda>e. e \<noteq> [] \<and> has_prefix e s) encs")
    case None
    then show ?thesis by (simp add: trim_with.simps [of encs s])
  next
    case (Some e)
    then obtain t where s: "s = e @ t" by (auto dest!: find_SomeD has_prefixD)
    from "1.IH" [OF Some] obtain u where u: "drop (length e) s = u @ trim_with encs (drop (length e) s)"
      by blast
    have "trim_with encs s = trim_with encs (drop (length e) s)"
      using Some by (subst trim_with.simps) simp
    with s u have "s = (e @ u) @ trim_with encs s" by simp
    then show ?thesis by blast
  qed
qed

lemma trim_with_fixed: "find (\<lambda>e. e \<noteq> [] \<and> has_prefix e s) encs = None \<Longrightarrow> trim_with encs s = s"
  by (simp add: trim_with.simps [of encs s])

lemma trim_right_prefix: "\<exists>u. s = trim_right s @ u"
proof -
  obtain u where "rev s = u @ trim_with (map rev space_encodings) (rev s)"
    using trim_with_suffix by blast
  then have "s = rev (trim_with (map rev space_encodings) (rev s)) @ rev u"
    by (metis rev_append rev_rev_ident)
  then show ?thesis by (auto simp: trim_right_def)
qed

lemma trim_right_idem: "trim_right (trim_right s) = trim_right s"
proof -
  let ?t = "trim_with (map rev space_encodings) (rev s)"
  have "trim_with (map rev space_encodings) ?t = ?t"
    by (rule trim_with_fixed [OF trim_with_no_space])
  then show ?thesis by (simp add: trim_right_def)
qed

text \<open>Trimming is idempotent: cutting at the end uncovers no space at the front.\<close>

lemma trim_space_idem: "trim_space (trim_space s) = trim_space s"
proof -
  let ?l = "trim_left s"
  obtain u where u: "?l = trim_right ?l @ u" using trim_right_prefix by blast
  have "\<forall>e\<in>set space_encodings. \<not> (e \<noteq> [] \<and> has_prefix e ?l)"
    using trim_with_no_space [of space_encodings s] by (auto simp: trim_left_def dest: find_NoneD)
  then have "\<forall>e\<in>set space_encodings. \<not> (e \<noteq> [] \<and> has_prefix e (trim_right ?l))"
    by (metis u has_prefix_trans)
  then have "find (\<lambda>e. e \<noteq> [] \<and> has_prefix e (trim_right ?l)) space_encodings = None"
    by (simp add: find_None_iff)
  then have "trim_left (trim_right ?l) = trim_right ?l"
    by (simp add: trim_left_def trim_with_fixed)
  then show ?thesis by (simp add: trim_space_def trim_right_idem)
qed

end
