(* ===== verification/Media_Domain.thy ===== *)
theory Media_Domain
  imports Go_Lib
begin

text \<open>
  \<open>internal/domain/media.go\<close>: content types, the states of upload sessions, versions and jobs,
  the output manifest, object keys, and the values exchanged with object storage. Content types
  and output kinds are Go string types that requests fill freely, so they stay strings here;
  states that only the service writes (and the schema checks) are datatypes.
\<close>

section \<open>Content types and states\<close>

type_synonym media_content_type = string

definition MediaContentTypeJPEG :: media_content_type where
  "MediaContentTypeJPEG = ''image/jpeg''"

definition MediaContentTypePNG :: media_content_type where
  "MediaContentTypePNG = ''image/png''"

definition FileExtension :: "media_content_type \<Rightarrow> string option" where
  "FileExtension ct =
     (if ct = MediaContentTypeJPEG then Some ''jpg''
      else if ct = MediaContentTypePNG then Some ''png''
      else None)"

datatype upload_session_state =
  UploadSessionCreated | UploadSessionCommitted | UploadSessionExpired
  | UploadSessionCancelled | UploadSessionFailed

definition IsTerminal :: "upload_session_state \<Rightarrow> bool" where
  "IsTerminal st \<longleftrightarrow> st \<noteq> UploadSessionCreated"

definition IsPublished :: "upload_session_state \<Rightarrow> bool" where
  "IsPublished st \<longleftrightarrow> st = UploadSessionCreated \<or> st = UploadSessionCommitted"

datatype media_version_status =
  MediaVersionPending | MediaVersionProcessing | MediaVersionCompleted | MediaVersionFailed

datatype processing_job_status =
  ProcessingJobQueued | ProcessingJobProcessing | ProcessingJobCompleted | ProcessingJobFailed

datatype processing_stage = ProcessingStageValidating | ProcessingStageTransforming

type_synonym media_output_kind = string

definition MediaOutputThumbnail :: media_output_kind where
  "MediaOutputThumbnail = ''thumbnail''"

definition MediaOutputWeb :: media_output_kind where
  "MediaOutputWeb = ''web''"

record media_processing_policy =
  policy_kind :: media_output_kind
  policy_bounding_box :: int

definition MediaOutputManifest :: "media_processing_policy list" where
  "MediaOutputManifest =
     [\<lparr>policy_kind = MediaOutputThumbnail, policy_bounding_box = 256\<rparr>,
      \<lparr>policy_kind = MediaOutputWeb, policy_bounding_box = 1080\<rparr>]"

definition MinUploadSizeBytes :: int where "MinUploadSizeBytes = 1"
definition MaxUploadSizeBytes :: int where "MaxUploadSizeBytes = 50000000"
definition ChecksumByteLength :: nat where "ChecksumByteLength = 32"

lemmas media_constants =
  MediaContentTypeJPEG_def MediaContentTypePNG_def MediaOutputThumbnail_def MediaOutputWeb_def
  MinUploadSizeBytes_def MaxUploadSizeBytes_def ChecksumByteLength_def

lemma media_strings_distinct [simp]:
  "MediaContentTypeJPEG \<noteq> MediaContentTypePNG" "MediaContentTypePNG \<noteq> MediaContentTypeJPEG"
  "MediaOutputThumbnail \<noteq> MediaOutputWeb" "MediaOutputWeb \<noteq> MediaOutputThumbnail"
  by (simp_all add: media_constants)

lemma FileExtension_simps [simp]:
  "FileExtension MediaContentTypeJPEG = Some ''jpg''"
  "FileExtension MediaContentTypePNG = Some ''png''"
  by (simp_all add: FileExtension_def)

section \<open>Errors of the media domain and of its repositories\<close>

datatype (plugins only: size code) media_error =
    ErrUnsupportedMediaType | ErrUnknownOutputKind | ErrObjectNotFound | ErrObjectAlreadyExists
  | ErrRawKeyNotPresignable
  | ErrInvalidMediaFilename | ErrInvalidMediaSize | ErrInvalidMediaChecksum
  | ErrQuotaExceeded | ErrUploadInProgress | ErrUploadNotFound | ErrIdempotencyConflict
  | ErrUploadStateConflict | ErrUploadSessionExpired | ErrAssetNotAvailable | ErrMediaObjectMismatch
  | ErrJobNotFound | ErrJobTerminal | ErrJobIsolated | ErrJobLeased | ErrJobNotDue
  | ErrJobExhausted | ErrLeaseNotHeld | ErrJobNotClaimed
  | ErrIncompleteOutputSet | ErrVersionNotPending | ErrVersionNotFound
  | ErrNotificationMismatch | ErrInvalidMediaReconciliation | ErrMediaStatusNotFound
  | ErrReplayOperatorUnknown | ErrNotIsolated
  | ErrMissingIdentifier | ErrInvalidIdentifier | ErrRecordTooLarge | ErrMalformed | ErrUnknownVersion | ErrMissingField | ErrInvalidField
  | ErrLeaseLost | ErrJobSettled | ErrJobUnavailable
  | ErrProcessorRejected string | ErrProcessorFailed | ErrArtifactOutsideScratch
  | ErrRecordNotFound | ErrConstraint string | ErrOther string

section \<open>Object keys\<close>

type_synonym object_key = string

definition rawKeyPrefix :: string where "rawKeyPrefix = ''raw/''"
definition processedKeyPrefix :: string where "processedKeyPrefix = ''processed/''"

definition IsRaw :: "object_key \<Rightarrow> bool" where
  "IsRaw key \<longleftrightarrow> length rawKeyPrefix \<le> length key \<and> take (length rawKeyPrefix) key = rawKeyPrefix"

definition RawObjectKey ::
  "string \<Rightarrow> string \<Rightarrow> string \<Rightarrow> media_content_type \<Rightarrow> media_error + object_key" where
  "RawObjectKey orgID assetID uploadID ct =
     (case FileExtension ct of
        None \<Rightarrow> Inl ErrUnsupportedMediaType
      | Some ext \<Rightarrow>
          Inr (rawKeyPrefix @ orgID @ ''/'' @ assetID @ ''/'' @ uploadID @ ''/original.'' @ ext))"

definition processedObjectName :: "media_output_kind \<Rightarrow> string option" where
  "processedObjectName kind =
     (if kind = MediaOutputThumbnail then Some ''thumbnail-256''
      else if kind = MediaOutputWeb then Some ''web-1080''
      else None)"

definition ProcessedObjectKey ::
  "string \<Rightarrow> string \<Rightarrow> string \<Rightarrow> media_output_kind \<Rightarrow> media_content_type \<Rightarrow> media_error + object_key"
where
  "ProcessedObjectKey orgID assetID versionID kind ct =
     (case FileExtension ct of
        None \<Rightarrow> Inl ErrUnsupportedMediaType
      | Some ext \<Rightarrow>
         (case processedObjectName kind of
            None \<Rightarrow> Inl ErrUnknownOutputKind
          | Some name \<Rightarrow>
              Inr (processedKeyPrefix @ orgID @ ''/'' @ assetID @ ''/'' @ versionID @ ''/''
                   @ name @ ''.'' @ ext)))"

lemma IsRaw_RawObjectKey: "RawObjectKey o' a u ct = Inr key \<Longrightarrow> IsRaw key"
  by (auto simp: RawObjectKey_def IsRaw_def rawKeyPrefix_def split: option.splits)

lemma not_IsRaw_ProcessedObjectKey: "ProcessedObjectKey o' a v kind ct = Inr key \<Longrightarrow> \<not> IsRaw key"
  by (auto simp: ProcessedObjectKey_def IsRaw_def rawKeyPrefix_def processedKeyPrefix_def
           split: option.splits)

section \<open>Splitting a joined key\<close>

text \<open>
  Identifiers are UUID texts and hold no slash, so a key determines the identifiers it was
  derived from: the first slash after the prefix ends the organization, and so on.
\<close>

definition no_slash :: "string \<Rightarrow> bool" where
  "no_slash s \<longleftrightarrow> CHR ''/'' \<notin> set s"

lemma append_sep_inj:
  "c \<notin> set s \<Longrightarrow> c \<notin> set s' \<Longrightarrow> s @ c # t = s' @ c # t' \<Longrightarrow> s = s' \<and> t = t'"
proof (induction s arbitrary: s')
  case Nil
  then show ?case by (cases s') auto
next
  case (Cons x s)
  then show ?case by (cases s') auto
qed

lemma RawObjectKey_inj:
  assumes "RawObjectKey o1 a1 u1 ct1 = Inr key" "RawObjectKey o2 a2 u2 ct2 = Inr key"
    and "no_slash o1" "no_slash o2" "no_slash a1" "no_slash a2" "no_slash u1" "no_slash u2"
  shows "o1 = o2 \<and> a1 = a2 \<and> u1 = u2 \<and> ct1 = ct2"
proof -
  obtain e1 where e1: "FileExtension ct1 = Some e1"
    and k1: "key = rawKeyPrefix @ o1 @ ''/'' @ a1 @ ''/'' @ u1 @ ''/original.'' @ e1"
    using assms(1) by (auto simp: RawObjectKey_def split: option.splits)
  obtain e2 where e2: "FileExtension ct2 = Some e2"
    and k2: "key = rawKeyPrefix @ o2 @ ''/'' @ a2 @ ''/'' @ u2 @ ''/original.'' @ e2"
    using assms(2) by (auto simp: RawObjectKey_def split: option.splits)
  have eq: "o1 @ CHR ''/'' # a1 @ CHR ''/'' # u1 @ CHR ''/'' # ''original.'' @ e1
          = o2 @ CHR ''/'' # a2 @ CHR ''/'' # u2 @ CHR ''/'' # ''original.'' @ e2"
    using k1 k2 by simp
  have ns: "CHR ''/'' \<notin> set o1" "CHR ''/'' \<notin> set o2" "CHR ''/'' \<notin> set a1" "CHR ''/'' \<notin> set a2"
    "CHR ''/'' \<notin> set u1" "CHR ''/'' \<notin> set u2"
    using assms(3-8) by (auto simp: no_slash_def)
  note p1 = append_sep_inj [OF ns(1,2) eq]
  note p2 = append_sep_inj [OF ns(3,4) p1 [THEN conjunct2]]
  note p3 = append_sep_inj [OF ns(5,6) p2 [THEN conjunct2]]
  have "e1 = e2" using p3 by simp
  then have "ct1 = ct2" using e1 e2 by (auto simp: FileExtension_def split: if_splits)
  with p1 p2 p3 show ?thesis by simp
qed

section \<open>Storage values\<close>

record upload_descriptor =
  desc_protocol :: string
  desc_method :: string
  desc_url :: string
  desc_headers :: "(string \<times> string) list"
  desc_credential_expires_at :: instant

record put_authority =
  auth_key :: object_key
  auth_content_type :: media_content_type
  auth_expected_size :: int
  auth_checksum :: "nat list"
  auth_expires_in :: duration

record download_descriptor =
  down_url :: string
  down_expires_at :: instant

record put_attributes =
  put_content_type :: media_content_type
  put_checksum :: "nat list"

record object_attributes =
  attr_size :: int
  attr_content_type :: string
  attr_checksum :: "nat list"
  attr_etag :: string

record job_lease =
  lease_holder :: string
  lease_until :: instant

definition JobLease_IsZero :: "job_lease \<Rightarrow> bool" where
  "JobLease_IsZero l \<longleftrightarrow> lease_holder l = [] \<or> is_zero_time (lease_until l)"

definition MediaProcessingRequestedEventType :: string where
  "MediaProcessingRequestedEventType = ''media.processing.requested''"

end
