(* ===== verification/Event_Envelope.thy ===== *)
theory Event_Envelope
  imports Media_Domain
begin

text \<open>
  \<open>internal/eventing/event\<close> (the shared envelope and its trace context),
  \<open>internal/eventing/media\<close> (the four identifiers the media events add) and the traceparent
  functions of \<open>internal/requestcontext\<close>.

  A decoded JSON document is a tree; \<open>encoding/json\<close>'s rules for filling a struct (names match
  case-insensitively, the last of repeated members wins, \<open>null\<close> leaves a field alone, a member
  of the wrong kind is an error) are written out on trees. The text syntax of JSON, the RFC 3339
  syntax of times and the UUID parser are the fields of a \<open>codec\<close>, an argument of the functions
  that use them. Go iterates the maps of required fields in a random order; where two fields are
  wrong the model reports the one that is first in the source.
\<close>

section \<open>JSON trees and the decoding of struct fields\<close>

datatype (plugins only: size code) json =
    JNull | JBool bool | JNum string | JStr string | JArr "json list" | JObj "(string \<times> json) list"

record codec =
  json_text :: "json \<Rightarrow> string"
  json_parse :: "string \<Rightarrow> json option"
  time_text :: "instant \<Rightarrow> string option"
  time_parse :: "string \<Rightarrow> instant option"
  uuid_valid :: "string \<Rightarrow> bool"

text \<open>The name folding of \<open>encoding/json\<close>: ASCII case, and the two non-ASCII letters that fold
  to ASCII ones (the Kelvin sign and the long s, here as their UTF-8 bytes).\<close>

function fold_name :: "string \<Rightarrow> string" where
  "fold_name s =
     (case s of [] \<Rightarrow> []
      | c # cs \<Rightarrow>
         if byte_of c = 226 \<and> map byte_of (take 2 cs) = [132, 170] then CHR ''k'' # fold_name (drop 2 cs)
         else if byte_of c = 197 \<and> map byte_of (take 1 cs) = [191] then CHR ''s'' # fold_name (drop 1 cs)
         else lower_char c # fold_name cs)"
  by pat_completeness auto
termination by (relation "measure length") auto

declare fold_name.simps [simp del]

fun string_field :: "string \<Rightarrow> (string \<times> json) list \<Rightarrow> string \<Rightarrow> string option" where
  "string_field name [] acc = Some acc"
| "string_field name ((k, v) # fs) acc =
     (if fold_name k \<noteq> fold_name name then string_field name fs acc
      else (case v of JNull \<Rightarrow> string_field name fs acc
                    | JStr s \<Rightarrow> string_field name fs s
                    | _ \<Rightarrow> None))"

fun int_field :: "string \<Rightarrow> (string \<times> json) list \<Rightarrow> int \<Rightarrow> int option" where
  "int_field name [] acc = Some acc"
| "int_field name ((k, v) # fs) acc =
     (if fold_name k \<noteq> fold_name name then int_field name fs acc
      else (case v of JNull \<Rightarrow> int_field name fs acc
                    | JNum lit \<Rightarrow> (case parse_int64 lit of None \<Rightarrow> None | Some n \<Rightarrow> int_field name fs n)
                    | _ \<Rightarrow> None))"

fun time_field :: "codec \<Rightarrow> string \<Rightarrow> (string \<times> json) list \<Rightarrow> instant \<Rightarrow> instant option" where
  "time_field cd name [] acc = Some acc"
| "time_field cd name ((k, v) # fs) acc =
     (if fold_name k \<noteq> fold_name name then time_field cd name fs acc
      else (case v of JNull \<Rightarrow> time_field cd name fs acc
                    | JStr s \<Rightarrow> (case time_parse cd s of None \<Rightarrow> None | Some t \<Rightarrow> time_field cd name fs t)
                    | _ \<Rightarrow> None))"

text \<open>The members of a document decoded into a struct: an object, or \<open>null\<close> which sets nothing.\<close>

definition document_fields :: "codec \<Rightarrow> string \<Rightarrow> (string \<times> json) list option" where
  "document_fields cd value =
     (case json_parse cd value of
        Some (JObj fs) \<Rightarrow> Some fs | Some JNull \<Rightarrow> Some [] | _ \<Rightarrow> None)"

section \<open>The envelope\<close>

record envelope =
  EventID :: string
  EventType :: string
  SchemaVersion :: int
  Source :: string
  OccurredAt :: instant
  env_OrgID :: string
  env_Traceparent :: string
  env_Raw :: string

definition decode_envelope :: "codec \<Rightarrow> string \<Rightarrow> envelope option" where
  "decode_envelope cd value =
     (case document_fields cd value of
        None \<Rightarrow> None
      | Some fs \<Rightarrow>
         (case (string_field ''eventId'' fs [], string_field ''eventType'' fs [],
                int_field ''schemaVersion'' fs 0, string_field ''source'' fs [],
                time_field cd ''occurredAt'' fs 0, string_field ''orgId'' fs [],
                string_field ''traceparent'' fs []) of
            (Some i, Some ty, Some v, Some src, Some t, Some og, Some tp) \<Rightarrow>
              Some \<lparr>EventID = i, EventType = ty, SchemaVersion = v, Source = src, OccurredAt = t,
                     env_OrgID = og, env_Traceparent = tp, env_Raw = value\<rparr>
          | _ \<Rightarrow> None))"

definition isKnownVersion :: "int \<Rightarrow> int list \<Rightarrow> bool" where
  "isKnownVersion version knownVersions \<longleftrightarrow> list_ex (\<lambda>known. known = version) knownVersions"

definition Envelope_Parse :: "codec \<Rightarrow> string \<Rightarrow> int list \<Rightarrow> media_error + envelope" where
  "Envelope_Parse cd value knownVersions =
     (case decode_envelope cd value of
        None \<Rightarrow> Inl ErrMalformed
      | Some env \<Rightarrow>
         if \<not> isKnownVersion (SchemaVersion env) knownVersions then Inl ErrUnknownVersion
         else if EventID env = [] \<or> EventType env = [] \<or> Source env = [] \<or> env_OrgID env = []
           then Inl ErrMissingField
         else if is_zero_time (OccurredAt env) then Inl ErrMissingField
         else if \<not> uuid_valid cd (EventID env) \<or> \<not> uuid_valid cd (env_OrgID env) then Inl ErrInvalidField
         else Inr env)"

section \<open>Media events\<close>

definition MediaSchemaVersion :: int where "MediaSchemaVersion = 1"
definition MediaSource :: string where "MediaSource = ''asset-core''"
definition MaxRecordBytes :: nat where "MaxRecordBytes = 2048"

record payload =
  pl_asset :: string
  pl_upload :: string
  pl_version :: string
  pl_job :: string

fun validate_identifiers :: "codec \<Rightarrow> string list \<Rightarrow> media_error option" where
  "validate_identifiers cd [] = None"
| "validate_identifiers cd (value # vs) =
     (if value = [] then Some ErrMissingIdentifier
      else if \<not> uuid_valid cd value then Some ErrInvalidIdentifier
      else validate_identifiers cd vs)"

definition payload_validate :: "codec \<Rightarrow> payload \<Rightarrow> media_error option" where
  "payload_validate cd p = validate_identifiers cd [pl_asset p, pl_upload p, pl_version p, pl_job p]"

text \<open>The members of a marshalled record, in the order of the struct fields.\<close>

definition record_members :: "envelope \<Rightarrow> payload \<Rightarrow> string \<Rightarrow> (string \<times> json) list" where
  "record_members env p occurred =
     [(''eventId'', JStr (EventID env)), (''eventType'', JStr (EventType env)),
      (''schemaVersion'', JNum (format_int (SchemaVersion env))), (''source'', JStr (Source env)),
      (''occurredAt'', JStr occurred), (''orgId'', JStr (env_OrgID env))]
     @ (if env_Traceparent env = [] then [] else [(''traceparent'', JStr (env_Traceparent env))])
     @ [(''assetId'', JStr (pl_asset p)), (''uploadId'', JStr (pl_upload p)),
        (''versionId'', JStr (pl_version p)), (''jobId'', JStr (pl_job p))]"

definition stamp_envelope :: "envelope \<Rightarrow> envelope" where
  "stamp_envelope env =
     env\<lparr>EventType := MediaProcessingRequestedEventType, SchemaVersion := MediaSchemaVersion,
         Source := MediaSource\<rparr>"

definition Media_Marshal :: "codec \<Rightarrow> envelope \<Rightarrow> payload \<Rightarrow> media_error + json" where
  "Media_Marshal cd env p =
     (if is_zero_time (OccurredAt env) then Inl ErrMissingIdentifier
      else (case payload_validate cd p of
        Some e \<Rightarrow> Inl e
      | None \<Rightarrow>
         (case time_text cd (OccurredAt env) of
            None \<Rightarrow> Inl (ErrOther ''time out of range'')
          | Some occurred \<Rightarrow>
             let doc = JObj (record_members (stamp_envelope env) p occurred) in
             if MaxRecordBytes < length (json_text cd doc) then Inl ErrRecordTooLarge
             else Inr doc)))"

definition Media_Parse :: "codec \<Rightarrow> envelope \<Rightarrow> media_error + payload" where
  "Media_Parse cd env =
     (case document_fields cd (env_Raw env) of
        None \<Rightarrow> Inl ErrMalformed
      | Some fs \<Rightarrow>
         (case (string_field ''assetId'' fs [], string_field ''uploadId'' fs [],
                string_field ''versionId'' fs [], string_field ''jobId'' fs []) of
            (Some a, Some u, Some v, Some j) \<Rightarrow>
              let p = \<lparr>pl_asset = a, pl_upload = u, pl_version = v, pl_job = j\<rparr> in
              (case payload_validate cd p of Some e \<Rightarrow> Inl e | None \<Rightarrow> Inr p)
          | _ \<Rightarrow> Inl ErrMalformed))"

lemma payload_validate_None:
  "payload_validate cd p = None \<longleftrightarrow>
     (\<forall>i \<in> {pl_asset p, pl_upload p, pl_version p, pl_job p}. i \<noteq> [] \<and> uuid_valid cd i)"
  by (auto simp: payload_validate_def split: if_splits)

lemma fold_name_members:
  "fold_name ''eventId'' = ''eventid''" "fold_name ''eventType'' = ''eventtype''"
  "fold_name ''schemaVersion'' = ''schemaversion''" "fold_name ''source'' = ''source''"
  "fold_name ''occurredAt'' = ''occurredat''" "fold_name ''orgId'' = ''orgid''"
  "fold_name ''traceparent'' = ''traceparent''" "fold_name ''assetId'' = ''assetid''"
  "fold_name ''uploadId'' = ''uploadid''" "fold_name ''versionId'' = ''versionid''"
  "fold_name ''jobId'' = ''jobid''"
  by code_simp+

lemma parse_format_1: "parse_int64 (format_int MediaSchemaVersion) = Some MediaSchemaVersion"
  by code_simp

lemma Marshal_InrD:
  assumes "Media_Marshal cd env p = Inr doc"
  shows "\<not> is_zero_time (OccurredAt env)" and "payload_validate cd p = None"
    and "\<exists>occ. time_text cd (OccurredAt env) = Some occ
           \<and> doc = JObj (record_members (stamp_envelope env) p occ)"
    and "length (json_text cd doc) \<le> MaxRecordBytes"
  using assms by (auto simp: Media_Marshal_def Let_def split: if_splits option.splits)

text \<open>C37: A media event that was marshalled is read back as the same event: parsing its text gives the
  envelope it was built from (with the type, version and source the media package stamps on it) and
  the same four identifiers, provided the text syntaxes of JSON and of times round trip on it and
  its event and organization identifiers are UUIDs (the marshaller does not check those two).
\<close>
theorem media_event_roundtrip:
  assumes "Media_Marshal cd env p = Inr doc"
    and "json_parse cd (json_text cd doc) = Some doc"
    and "\<forall>s. time_text cd (OccurredAt env) = Some s \<longrightarrow> time_parse cd s = Some (OccurredAt env)"
    and "EventID env \<noteq> []" "uuid_valid cd (EventID env)"
    and "env_OrgID env \<noteq> []" "uuid_valid cd (env_OrgID env)"
  shows "Envelope_Parse cd (json_text cd doc) [MediaSchemaVersion]
           = Inr ((stamp_envelope env)\<lparr>env_Raw := json_text cd doc\<rparr>)
     \<and> Media_Parse cd ((stamp_envelope env)\<lparr>env_Raw := json_text cd doc\<rparr>) = Inr p"
proof -
  note m = Marshal_InrD [OF assms(1)]
  obtain occ where occ: "time_text cd (OccurredAt env) = Some occ"
    and doc: "doc = JObj (record_members (stamp_envelope env) p occ)"
    using m(3) by blast
  have tp: "time_parse cd occ = Some (OccurredAt env)" using assms(3) occ by blast
  have fields: "document_fields cd (json_text cd doc) = Some (record_members (stamp_envelope env) p occ)"
    using assms(2) doc by (simp add: document_fields_def)
  have dec: "decode_envelope cd (json_text cd doc) = Some ((stamp_envelope env)\<lparr>env_Raw := json_text cd doc\<rparr>)"
    using tp by (simp add: decode_envelope_def fields record_members_def fold_name_members
        stamp_envelope_def parse_format_1)
  have "Envelope_Parse cd (json_text cd doc) [MediaSchemaVersion]
      = Inr ((stamp_envelope env)\<lparr>env_Raw := json_text cd doc\<rparr>)"
    using m(1) assms(4-)
    by (simp add: Envelope_Parse_def dec isKnownVersion_def stamp_envelope_def
        MediaProcessingRequestedEventType_def MediaSource_def)
  moreover have "Media_Parse cd ((stamp_envelope env)\<lparr>env_Raw := json_text cd doc\<rparr>) = Inr p"
    using m(2) by (cases p) (simp add: Media_Parse_def fields record_members_def fold_name_members Let_def)
  ultimately show ?thesis by blast
qed

definition demo_codec :: "json \<Rightarrow> codec" where
  "demo_codec doc =
     \<lparr>json_text = (\<lambda>_. ''doc''), json_parse = (\<lambda>s. if s = ''doc'' then Some doc else None),
      time_text = (\<lambda>t. Some (format_int t)), time_parse = parse_int64, uuid_valid = (\<lambda>s. s \<noteq> [])\<rparr>"

definition demo_envelope :: envelope where
  "demo_envelope = \<lparr>EventID = ''e'', EventType = [], SchemaVersion = 0, Source = [], OccurredAt = 7,
     env_OrgID = ''o'', env_Traceparent = [], env_Raw = []\<rparr>"

definition demo_payload :: payload where
  "demo_payload = \<lparr>pl_asset = ''a'', pl_upload = ''u'', pl_version = ''v'', pl_job = ''j''\<rparr>"

definition demo_doc :: json where
  "demo_doc = JObj (record_members (stamp_envelope demo_envelope) demo_payload ''7'')"

theorem media_event_roundtrip_witness:
  "Media_Parse (demo_codec demo_doc) ((stamp_envelope demo_envelope)\<lparr>env_Raw := ''doc''\<rparr>) = Inr demo_payload"
proof -
  let ?c = "demo_codec demo_doc"
  have f7: "format_int 7 = ''7''" "parse_int64 ''7'' = Some 7" by code_simp+
  have a: "Media_Marshal ?c demo_envelope demo_payload = Inr demo_doc"
    by (simp add: Media_Marshal_def demo_codec_def demo_envelope_def demo_payload_def is_zero_time_def
        payload_validate_def f7 demo_doc_def MaxRecordBytes_def)
  have b: "json_parse ?c (json_text ?c demo_doc) = Some demo_doc" by (simp add: demo_codec_def)
  have c: "\<forall>s. time_text ?c (OccurredAt demo_envelope) = Some s \<longrightarrow> time_parse ?c s = Some (OccurredAt demo_envelope)"
    by (simp add: demo_codec_def demo_envelope_def f7)
  have d: "EventID demo_envelope \<noteq> []" "uuid_valid ?c (EventID demo_envelope)"
    "env_OrgID demo_envelope \<noteq> []" "uuid_valid ?c (env_OrgID demo_envelope)"
    by (simp_all add: demo_codec_def demo_envelope_def)
  have t: "json_text ?c demo_doc = ''doc''" by (simp add: demo_codec_def)
  show ?thesis using media_event_roundtrip [OF a b c d] t by simp
qed

section \<open>Trace context\<close>

definition all_zero :: "string \<Rightarrow> bool" where
  "all_zero s \<longleftrightarrow> list_all (\<lambda>c. c = CHR ''0'') s"

definition ParseTraceparent :: "string \<Rightarrow> string option" where
  "ParseTraceparent value =
     (let parts = split_on CHR ''-'' (trim_space value) in
      if length parts < 4 \<or> length (parts ! 0) \<noteq> 2 \<or> length (parts ! 1) \<noteq> 32
         \<or> length (parts ! 2) \<noteq> 16 \<or> length (parts ! 3) \<noteq> 2 then None
      else if to_lower (parts ! 0) = ''ff'' \<or> (to_lower (parts ! 0) = ''00'' \<and> length parts \<noteq> 4)
         \<or> all_zero (parts ! 1) \<or> all_zero (parts ! 2) then None
      else if \<not> list_all (\<lambda>part. hex_decode part \<noteq> None) (take 4 parts) then None
      else if \<not> list_all (\<lambda>part. part \<noteq> []) (drop 4 parts) then None
      else Some (to_lower (parts ! 1)))"

text \<open>The random bytes are an argument.\<close>

definition NewTraceparent :: "string \<Rightarrow> nat list \<Rightarrow> string" where
  "NewTraceparent traceID random = ''00-'' @ traceID @ ''-'' @ hex_encode random @ ''-01''"

definition ParseTraceID :: "string \<Rightarrow> string" where
  "ParseTraceID traceparent = (case ParseTraceparent traceparent of Some t \<Rightarrow> t | None \<Rightarrow> [])"

text \<open>The correlation of a request is its trace identifier, or nothing.\<close>

definition Traceparent :: "string option \<Rightarrow> nat list \<Rightarrow> string" where
  "Traceparent correlation random =
     (case correlation of
        None \<Rightarrow> []
      | Some traceID \<Rightarrow>
         if traceID = [] then []
         else let tp = NewTraceparent traceID random in if ParseTraceID tp = [] then [] else tp)"

lemma hex_decode_chars: "hex_decode s = Some bs \<Longrightarrow> c \<in> set s \<Longrightarrow> hex_value c \<noteq> None"
  by (induction s arbitrary: bs rule: hex_decode.induct) (auto split: option.splits)

lemma hex_chars_decode: "even (length s) \<Longrightarrow> \<forall>c\<in>set s. hex_value c \<noteq> None \<Longrightarrow> hex_decode s \<noteq> None"
  by (induction s rule: hex_decode.induct) auto

lemma byte_of_dash_zero: "byte_of CHR ''-'' = 45" "byte_of CHR ''0'' = 48"
  by (simp_all add: byte_of_def)

lemma hex_value_not_dash: "hex_value c \<noteq> None \<Longrightarrow> c \<noteq> CHR ''-''"
  by (auto simp: hex_value_def byte_of_dash_zero)

lemma byte_of_lower: "byte_of (lower_char c) = (if 65 \<le> byte_of c \<and> byte_of c \<le> 90 then byte_of c + 32 else byte_of c)"
  by (simp add: lower_char_def)

lemma hex_value_lower: "hex_value c \<noteq> None \<Longrightarrow> hex_value (lower_char c) \<noteq> None"
  by (auto simp: hex_value_def byte_of_lower Let_def split: if_splits)

lemma lower_char_idem [simp]: "lower_char (lower_char c) = lower_char c"
  using byte_of_lower [of c] byte_of_lower [of "lower_char c"]
  by (intro byte_of_inj) (auto split: if_splits)

lemma lower_char_zero: "lower_char c = CHR ''0'' \<longleftrightarrow> c = CHR ''0''"
proof
  assume "lower_char c = CHR ''0''"
  then have "byte_of (lower_char c) = 48" by (simp add: byte_of_dash_zero)
  then have "byte_of c = byte_of CHR ''0''" by (simp add: byte_of_lower byte_of_dash_zero split: if_splits)
  then show "c = CHR ''0''" by (rule byte_of_inj)
qed (simp add: lower_char_def byte_of_dash_zero)

lemma to_lower_facts [simp]:
  "length (to_lower s) = length s" "to_lower (to_lower s) = to_lower s" "all_zero (to_lower s) = all_zero s"
  by (simp_all add: to_lower_def all_zero_def list_all_iff lower_char_zero)

lemma split_on_word: "sep \<notin> set w \<Longrightarrow> split_on sep w = [w]"
  by (induction w) auto

lemma split_on_append: "sep \<notin> set w \<Longrightarrow> split_on sep (w @ sep # s) = w # split_on sep s"
  by (induction w) auto

lemma space_ends:
  "list_all (\<lambda>e. e \<noteq> [] \<and> hd e \<noteq> CHR ''0'' \<and> last e \<noteq> CHR ''1'') space_encodings"
  by code_simp

lemma trim_space_clean: "trim_space (CHR ''0'' # s @ [CHR ''1'']) = CHR ''0'' # s @ [CHR ''1'']"
proof -
  have p: "\<not> has_prefix e (CHR ''0'' # t)" "\<not> has_prefix (rev e) (CHR ''1'' # t)"
    if "e \<in> set space_encodings" for e t
  proof -
    have e: "e \<noteq> []" "hd e \<noteq> CHR ''0''" "last e \<noteq> CHR ''1''"
      using space_ends that by (auto simp: list_all_iff)
    then show "\<not> has_prefix e (CHR ''0'' # t)" by (cases e) (auto dest!: has_prefixD)
    from e have "rev e \<noteq> []" "hd (rev e) \<noteq> CHR ''1''" by (auto simp: hd_rev)
    then show "\<not> has_prefix (rev e) (CHR ''1'' # t)" by (cases "rev e") (auto dest!: has_prefixD)
  qed
  have f1: "find (\<lambda>e. e \<noteq> [] \<and> has_prefix e (CHR ''0'' # t)) space_encodings = None" for t
    using p(1) by (auto simp: find_None_iff)
  have f2: "find (\<lambda>e. e \<noteq> [] \<and> has_prefix e (CHR ''1'' # t)) (map rev space_encodings) = None" for t
    using p(2) by (auto simp: find_None_iff)
  show ?thesis
    by (simp add: trim_space_def trim_left_def trim_right_def
        trim_with.simps [of space_encodings "CHR ''0'' # s @ [CHR ''1'']"]
        trim_with.simps [of "map rev space_encodings" "CHR ''1'' # rev s @ [CHR ''0'']"] f1 f2)
qed

lemma hex_encode_chars: "is_byte_list bs \<Longrightarrow> \<forall>c\<in>set (hex_encode bs). hex_value c \<noteq> None"
  by (induction bs) auto

lemma ParseTraceparent_SomeD:
  assumes "ParseTraceparent v = Some traceID"
  shows "length traceID = 32" "\<forall>c\<in>set traceID. hex_value c \<noteq> None" "\<not> all_zero traceID"
    "to_lower traceID = traceID"
proof -
  let ?parts = "split_on CHR ''-'' (trim_space v)"
  have a: "4 \<le> length ?parts" "length (?parts ! 1) = 32" "\<not> all_zero (?parts ! 1)"
    "list_all (\<lambda>part. hex_decode part \<noteq> None) (take 4 ?parts)" "traceID = to_lower (?parts ! 1)"
    using assms by (auto simp: ParseTraceparent_def Let_def not_less split: if_splits)
  have "?parts ! 1 \<in> set (take 4 ?parts)" using a(1) by (auto simp: in_set_conv_nth intro!: exI [of _ 1])
  then have "hex_decode (?parts ! 1) \<noteq> None" using a(4) by (auto simp: list_all_iff)
  then have "\<forall>c\<in>set (?parts ! 1). hex_value c \<noteq> None" using hex_decode_chars by blast
  then show "\<forall>c\<in>set traceID. hex_value c \<noteq> None"
    using hex_value_lower by (auto simp: a(5) to_lower_def)
  show "length traceID = 32" "\<not> all_zero traceID" "to_lower traceID = traceID" using a by simp_all
qed

text \<open>A trace identifier taken from an accepted traceparent survives being put on an event: the
  traceparent built from it is accepted again and yields the same identifier, so the event carries
  it, for any eight random bytes that are not all zero (for all-zero bytes the parent field is
  invalid and the event carries no trace).
\<close>
theorem traceparent_survives:
  assumes "ParseTraceparent v = Some traceID"
    and "length random = 8" and "is_byte_list random" and "\<not> all_zero (hex_encode random)"
  shows "ParseTraceparent (NewTraceparent traceID random) = Some traceID
    \<and> Traceparent (Some traceID) random = NewTraceparent traceID random"
proof -
  note t = ParseTraceparent_SomeD [OF assms(1)]
  have nd: "CHR ''-'' \<notin> set traceID" "CHR ''-'' \<notin> set (hex_encode random)"
    using t(2) hex_encode_chars [OF assms(3)] hex_value_not_dash by blast+
  have tp: "NewTraceparent traceID random
    = CHR ''0'' # (''0-'' @ traceID @ ''-'' @ hex_encode random @ ''-0'') @ [CHR ''1'']"
    by (simp add: NewTraceparent_def)
  have "split_on CHR ''-'' (NewTraceparent traceID random)
     = [''00'', traceID, hex_encode random, ''01'']"
    using split_on_append [OF nd(1)] split_on_append [OF nd(2), of "''01''"]
    by (simp add: NewTraceparent_def)
  moreover have "trim_space (NewTraceparent traceID random) = NewTraceparent traceID random"
    unfolding tp by (rule trim_space_clean)
  moreover have "hex_decode traceID \<noteq> None"
    by (rule hex_chars_decode) (use t in simp_all)
  moreover have "hex_decode (hex_encode random) \<noteq> None" by (simp add: hex_decode_encode assms(3))
  moreover have "hex_decode ''00'' \<noteq> None" "hex_decode ''01'' \<noteq> None" "to_lower ''00'' \<noteq> ''ff''"
    by code_simp+
  ultimately have "ParseTraceparent (NewTraceparent traceID random) = Some traceID"
    using t assms(2,4) by (simp add: ParseTraceparent_def)
  with t(1) show ?thesis by (auto simp: Traceparent_def ParseTraceID_def Let_def)
qed

definition demo_traceparent :: string where
  "demo_traceparent = ''00-AAaaaaaaaaaaaaaaaaaaaaaaaaaaaaa1-bbbbbbbbbbbbbbbb-01''"

theorem traceparent_survives_witness:
  "\<exists>traceID. ParseTraceparent (NewTraceparent traceID [1, 2, 3, 4, 5, 6, 7, 8]) = Some traceID"
proof -
  have a: "ParseTraceparent demo_traceparent = Some ''aaaaaaaaaaaaaaaaaaaaaaaaaaaaaaa1''" by code_simp
  have b: "length [1, 2, 3, 4, 5, 6, 7, 8 :: nat] = 8" "is_byte_list [1, 2, 3, 4, 5, 6, 7, 8]"
    "\<not> all_zero (hex_encode [1, 2, 3, 4, 5, 6, 7, 8])"
    by (simp, simp, code_simp)
  show ?thesis using traceparent_survives [OF a b] by blast
qed

end
