(* ===== verification/Event_Consumer.thy ===== *)
theory Event_Consumer
  imports Event_Envelope Prelude
begin

text \<open>
  \<open>internal/eventing/consume\<close> (what the consumer does with one record) and the delivery loop of
  \<open>internal/eventing/kafka/reader.go\<close>. The effect and the quarantine are arguments that change a
  state; the reader is stated over any way of delivering a record, with a locale for the contract
  that its deliveries keep. Fetching, committing and signals are observations given as arguments.
\<close>

section \<open>Records, outcomes and options\<close>

record kafka_record =
  kr_topic :: string
  kr_partition :: int
  kr_offset :: int
  kr_key :: string
  kr_value :: string

datatype outcome = LeaveUncommitted | CommitOffset

record consumer_options =
  co_max_bytes :: int
  co_known_versions :: "int list"
  co_routable_types :: "string list"
  co_aggregate_field :: string

record quarantined_record =
  q_source_topic :: string
  q_source_partition :: int
  q_source_offset :: int
  q_id :: string
  q_event :: string
  q_aggregate :: string
  q_observed_at :: instant
  q_reason :: string
  q_payload_sha256 :: string

text \<open>How an effect fails: already applied, poison with a reason, or anything else.\<close>

datatype effect_error = ErrAlreadyApplied | Poison string | Transient media_error

definition PoisonReason :: "effect_error \<Rightarrow> string option" where
  "PoisonReason e = (case e of Poison reason \<Rightarrow> if reason = [] then None else Some reason | _ \<Rightarrow> None)"

fun error_of :: "effect_error \<Rightarrow> media_error" where
  "error_of (Transient e) = e"
| "error_of ErrAlreadyApplied = ErrOther ''event already applied''"
| "error_of (Poison reason) = ErrOther (''poison event: '' @ reason)"

section \<open>Identity of a record\<close>

text \<open>A member of a document decoded into a map: the last one with exactly that name.\<close>

definition raw_member :: "(string \<times> json) list \<Rightarrow> string \<Rightarrow> json option" where
  "raw_member fs name = map_of (rev fs) name"

text \<open>A raw member decoded into a string: \<open>null\<close> leaves it empty.\<close>

definition string_of_raw :: "json \<Rightarrow> string option" where
  "string_of_raw v = (case v of JStr s \<Rightarrow> Some s | JNull \<Rightarrow> Some [] | _ \<Rightarrow> None)"

definition aggregateID :: "codec \<Rightarrow> consumer_options \<Rightarrow> envelope \<Rightarrow> string option" where
  "aggregateID cd opts env =
     (if co_aggregate_field opts = [] \<or> env_Raw env = [] then None
      else (case document_fields cd (env_Raw env) of
        None \<Rightarrow> None
      | Some fs \<Rightarrow>
         (case raw_member fs (co_aggregate_field opts) of
            None \<Rightarrow> None
          | Some raw \<Rightarrow>
             (case string_of_raw raw of
                None \<Rightarrow> None
              | Some s \<Rightarrow> if uuid_valid cd s then Some s else None))))"

definition empty_envelope :: envelope where
  "empty_envelope = \<lparr>EventID = [], EventType = [], SchemaVersion = 0, Source = [], OccurredAt = 0,
     env_OrgID = [], env_Traceparent = [], env_Raw = []\<rparr>"

definition salvageIdentity :: "codec \<Rightarrow> kafka_record \<Rightarrow> envelope" where
  "salvageIdentity cd r =
     (case document_fields cd (kr_value r) of
        None \<Rightarrow> empty_envelope
      | Some fs \<Rightarrow>
          let identity = empty_envelope\<lparr>env_Raw := kr_value r\<rparr> in
          (case raw_member fs ''eventId'' of
             None \<Rightarrow> identity
           | Some raw \<Rightarrow>
              (case string_of_raw raw of
                 None \<Rightarrow> identity
               | Some s \<Rightarrow> if uuid_valid cd s then identity\<lparr>EventID := s\<rparr> else identity)))"

definition digest :: "(string \<Rightarrow> nat list) \<Rightarrow> string \<Rightarrow> string" where
  "digest sha256 value = hex_encode (sha256 value)"

definition quarantine_text :: "kafka_record \<Rightarrow> string \<Rightarrow> string" where
  "quarantine_text r reason =
     kr_topic r @ CHR 0x00 # format_int (kr_partition r) @ CHR 0x00 # format_int (kr_offset r)
     @ CHR 0x00 # reason"

definition quarantineID :: "(string \<Rightarrow> nat list) \<Rightarrow> kafka_record \<Rightarrow> string \<Rightarrow> string" where
  "quarantineID sha256 r reason = digest sha256 (quarantine_text r reason)"

fun parse_reason :: "media_error \<Rightarrow> string" where
  "parse_reason ErrUnknownVersion = ''UNSUPPORTED_SCHEMA_VERSION''"
| "parse_reason ErrMissingField = ''INCOMPLETE_ENVELOPE''"
| "parse_reason ErrInvalidField = ''INVALID_ENVELOPE_FIELD''"
| "parse_reason _ = ''MALFORMED_ENVELOPE''"

section \<open>Delivering a record\<close>

definition routable :: "consumer_options \<Rightarrow> string \<Rightarrow> bool" where
  "routable opts ty \<longleftrightarrow> co_routable_types opts = [] \<or> list_ex (\<lambda>t. t = ty) (co_routable_types opts)"

definition classify_record :: "codec \<Rightarrow> consumer_options \<Rightarrow> kafka_record \<Rightarrow> envelope \<Rightarrow> string option" where
  "classify_record cd opts r env =
     (if \<not> routable opts (EventType env) then Some ''UNROUTABLE_EVENT_TYPE''
      else if co_aggregate_field opts = [] then None
      else (case aggregateID cd opts env of
              None \<Rightarrow> Some ''MISSING_AGGREGATE_ID''
            | Some a \<Rightarrow> if kr_key r \<noteq> a then Some ''KEY_AGGREGATE_MISMATCH'' else None))"

definition quarantined_of ::
  "codec \<Rightarrow> (string \<Rightarrow> nat list) \<Rightarrow> consumer_options \<Rightarrow> instant \<Rightarrow> kafka_record \<Rightarrow> string \<Rightarrow> envelope \<Rightarrow> quarantined_record"
where
  "quarantined_of cd sha256 opts now r reason identity =
     \<lparr>q_source_topic = kr_topic r, q_source_partition = kr_partition r, q_source_offset = kr_offset r,
      q_id = quarantineID sha256 r reason, q_event = EventID identity,
      q_aggregate = (case aggregateID cd opts identity of None \<Rightarrow> [] | Some a \<Rightarrow> a),
      q_observed_at = now, q_reason = reason, q_payload_sha256 = digest sha256 (kr_value r)\<rparr>"

definition isolate_record ::
  "codec \<Rightarrow> (string \<Rightarrow> nat list) \<Rightarrow> consumer_options \<Rightarrow> (quarantined_record \<Rightarrow> 's \<Rightarrow> (media_error + unit) \<times> 's)
   \<Rightarrow> instant \<Rightarrow> kafka_record \<Rightarrow> string \<Rightarrow> envelope \<Rightarrow> 's \<Rightarrow> (outcome \<times> media_error option) \<times> 's"
where
  "isolate_record cd sha256 opts quarantine now r reason identity s =
     (case quarantine (quarantined_of cd sha256 opts now r reason identity) s of
        (Inl e, s') \<Rightarrow> ((LeaveUncommitted, Some e), s')
      | (Inr _, s') \<Rightarrow> ((CommitOffset, None), s'))"

definition Deliver ::
  "codec \<Rightarrow> (string \<Rightarrow> nat list) \<Rightarrow> consumer_options \<Rightarrow> (envelope \<Rightarrow> 's \<Rightarrow> (effect_error + unit) \<times> 's)
   \<Rightarrow> (quarantined_record \<Rightarrow> 's \<Rightarrow> (media_error + unit) \<times> 's) \<Rightarrow> instant \<Rightarrow> kafka_record \<Rightarrow> 's
   \<Rightarrow> (outcome \<times> media_error option) \<times> 's"
where
  "Deliver cd sha256 opts effect quarantine now r s =
     (if 0 < co_max_bytes opts \<and> co_max_bytes opts < int (length (kr_value r))
      then isolate_record cd sha256 opts quarantine now r ''OVERSIZED_RECORD'' empty_envelope s
      else (case Envelope_Parse cd (kr_value r) (co_known_versions opts) of
        Inl e \<Rightarrow> isolate_record cd sha256 opts quarantine now r (parse_reason e) (salvageIdentity cd r) s
      | Inr env \<Rightarrow>
         (case classify_record cd opts r env of
            Some reason \<Rightarrow> isolate_record cd sha256 opts quarantine now r reason env s
          | None \<Rightarrow>
             (case effect env s of
                (Inr _, s') \<Rightarrow> ((CommitOffset, None), s')
              | (Inl e, s') \<Rightarrow>
                 if e = ErrAlreadyApplied then ((CommitOffset, None), s')
                 else (case PoisonReason e of
                         Some reason \<Rightarrow> isolate_record cd sha256 opts quarantine now r reason env s'
                       | None \<Rightarrow> ((LeaveUncommitted, Some (error_of e)), s'))))))"

section \<open>The reader\<close>

record reader_options =
  rd_brokers :: "string list"
  rd_topic :: string
  rd_group :: string
  rd_min_bytes :: int
  rd_max_bytes :: int
  rd_max_wait :: duration
  rd_max_attempts :: int
  rd_retry_backoff :: duration
  rd_drain_timeout :: duration

text \<open>\<open>secured\<close>: the security settings give a dialer and the client accepts the configuration.\<close>

definition NewReader :: "bool \<Rightarrow> reader_options \<Rightarrow> media_error + reader_options" where
  "NewReader secured o' =
     (if rd_brokers o' = [] then Inl (ErrOther ''at least one Kafka broker is required'')
      else if list_ex (\<lambda>b. trim_space b = []) (rd_brokers o')
        then Inl (ErrOther ''Kafka broker address must not be empty'')
      else if trim_space (rd_topic o') = [] then Inl (ErrOther ''Kafka topic is required'')
      else if trim_space (rd_group o') = [] then Inl (ErrOther ''Kafka consumer group ID is required'')
      else if \<not> secured then Inl (ErrOther ''configuring Kafka consumer security'')
      else Inr (o'\<lparr>rd_min_bytes := (if rd_min_bytes o' \<le> 0 then 1 else rd_min_bytes o'),
                 rd_max_bytes := (if rd_max_bytes o' \<le> 0 then 1048576 else rd_max_bytes o'),
                 rd_max_wait := (if rd_max_wait o' \<le> 0 then second else rd_max_wait o'),
                 rd_max_attempts := (if rd_max_attempts o' \<le> 0 then 5 else rd_max_attempts o'),
                 rd_retry_backoff := (if rd_retry_backoff o' \<le> 0 then 500 * millisecond else rd_retry_backoff o'),
                 rd_drain_timeout := (if rd_drain_timeout o' \<le> 0 then 95 * second else rd_drain_timeout o')\<rparr>))"

text \<open>What ends the pause between two attempts, and what ends the loop.\<close>

datatype pause = Elapsed | DeliveryExpired | StopSignalled

datatype delivery_verdict = Committable | Stopped | DeadlinePassed | ErrDeliveryStalled "media_error option"

function deliverUntilCommittable ::
  "(int \<Rightarrow> kafka_record \<Rightarrow> 's \<Rightarrow> (outcome \<times> media_error option) \<times> 's) \<Rightarrow> int \<Rightarrow> (int \<Rightarrow> bool) \<Rightarrow> (int \<Rightarrow> pause)
   \<Rightarrow> kafka_record \<Rightarrow> int \<Rightarrow> 's \<Rightarrow> delivery_verdict \<times> 's"
where
  "deliverUntilCommittable deliver maxAttempts stopped paused r attempt s =
     (case deliver attempt r s of
        ((CommitOffset, _), s') \<Rightarrow> (Committable, s')
      | ((LeaveUncommitted, e), s') \<Rightarrow>
          if stopped attempt then (Stopped, s')
          else if maxAttempts \<le> attempt then (ErrDeliveryStalled e, s')
          else (case paused attempt of
                  DeliveryExpired \<Rightarrow> (DeadlinePassed, s')
                | StopSignalled \<Rightarrow> (Stopped, s')
                | Elapsed \<Rightarrow> deliverUntilCommittable deliver maxAttempts stopped paused r (attempt + 1) s'))"
  by pat_completeness auto
termination
  by (relation "measure (\<lambda>(deliver, maxAttempts, stopped, paused, r, attempt, s). nat (maxAttempts - attempt))") auto

declare deliverUntilCommittable.simps [simp del]

text \<open>
  The observations around one fetched message: whether the reader is stopping at each point, and
  whether the broker accepts the commit. The trace pairs each committed message with the state at
  its commit; the run ends with an error, or without one when it was stopped or fetches nothing more.
\<close>

record 's delivery_env =
  de_deliver :: "int \<Rightarrow> kafka_record \<Rightarrow> 's \<Rightarrow> (outcome \<times> media_error option) \<times> 's"
  de_stopped :: "int \<Rightarrow> bool"
  de_paused :: "int \<Rightarrow> pause"
  de_stopping_after :: bool
  de_commit_ok :: bool

datatype 's fetch = Fetched kafka_record "'s delivery_env" | FetchFailed bool

datatype reader_error = FetchError | DeliveryError delivery_verdict | CommitError

fun Run ::
  "int \<Rightarrow> 's fetch list \<Rightarrow> (kafka_record \<times> 's) list \<Rightarrow> 's
   \<Rightarrow> (reader_error option \<times> (kafka_record \<times> 's) list) \<times> 's"
where
  "Run maxAttempts [] committed s = ((None, committed), s)"
| "Run maxAttempts (FetchFailed stopping # fs) committed s =
     ((if stopping then None else Some FetchError, committed), s)"
| "Run maxAttempts (Fetched m env # fs) committed s =
     (case deliverUntilCommittable (de_deliver env) maxAttempts (de_stopped env) (de_paused env) m 1 s of
        (Committable, s') \<Rightarrow>
          if de_commit_ok env then Run maxAttempts fs (committed @ [(m, s')]) s'
          else ((if de_stopping_after env then None else Some CommitError, committed), s')
      | (verdict, s') \<Rightarrow>
          ((if de_stopping_after env then None else Some (DeliveryError verdict), committed), s'))"

fun fetched_records :: "'s fetch list \<Rightarrow> kafka_record list" where
  "fetched_records [] = []"
| "fetched_records (FetchFailed stopping # fs) = []"
| "fetched_records (Fetched m env # fs) = m # fetched_records fs"

definition all_honest :: "((int \<Rightarrow> kafka_record \<Rightarrow> 's \<Rightarrow> (outcome \<times> media_error option) \<times> 's) \<Rightarrow> bool) \<Rightarrow> 's fetch list \<Rightarrow> bool" where
  "all_honest honest fs \<longleftrightarrow> list_all (\<lambda>f. case f of Fetched m env \<Rightarrow> honest (de_deliver env) | FetchFailed _ \<Rightarrow> True) fs"

section \<open>The contract of deliveries\<close>

text \<open>
  \<open>good\<close> is an invariant of the state, \<open>settled r s\<close> says that the work record \<open>r\<close> stands for is
  taken care of in \<open>s\<close>. A delivery keeps the invariant and asks for a commit only when the record
  is settled.
\<close>

locale delivery_contract =
  fixes good :: "'s \<Rightarrow> bool"
    and settled :: "kafka_record \<Rightarrow> 's \<Rightarrow> bool"
    and honest :: "(int \<Rightarrow> kafka_record \<Rightarrow> 's \<Rightarrow> (outcome \<times> media_error option) \<times> 's) \<Rightarrow> bool"
  assumes keeps: "honest deliver \<Longrightarrow> good s \<Longrightarrow> good (snd (deliver i r s))"
    and commits_settled: "honest deliver \<Longrightarrow> good s \<Longrightarrow> deliver i r s = ((CommitOffset, e), s') \<Longrightarrow> settled r s'"
begin

lemma deliver_step:
  "honest deliver \<Longrightarrow> good s \<Longrightarrow>
     deliverUntilCommittable deliver maxAttempts stopped paused r attempt s = (verdict, s') \<Longrightarrow>
     good s' \<and> (verdict = Committable \<longrightarrow> settled r s')"
proof (induction deliver maxAttempts stopped paused r attempt s
       arbitrary: verdict s' rule: deliverUntilCommittable.induct)
  case (1 deliver maxAttempts stopped paused r attempt s)
  obtain oc e s1 where d: "deliver attempt r s = ((oc, e), s1)" by (metis prod.exhaust)
  have i1: "good s1" using keeps [OF "1.prems"(1,2), of attempt r] d by simp
  note eq = "1.prems"(3) [unfolded deliverUntilCommittable.simps [of deliver maxAttempts stopped paused r attempt s] d]
  show ?case
  proof (cases oc)
    case CommitOffset
    then show ?thesis using eq i1 commits_settled [OF "1.prems"(1,2), of attempt r e s1] d by auto
  next
    case LeaveUncommitted
    show ?thesis
    proof (cases "\<not> stopped attempt \<and> attempt < maxAttempts \<and> paused attempt = Elapsed")
      case True
      then have "deliverUntilCommittable deliver maxAttempts stopped paused r (attempt + 1) s1 = (verdict, s')"
        using eq LeaveUncommitted by simp
      then show ?thesis
        using "1.IH" [OF d [symmetric] refl] LeaveUncommitted True "1.prems"(1) i1 by auto
    next
      case False
      then show ?thesis using eq LeaveUncommitted i1 by (auto split: if_splits pause.splits)
    qed
  qed
qed

lemma run_steps:
  "all_honest honest fs \<Longrightarrow> good s \<Longrightarrow> Run maxAttempts fs committed s = ((err, committed'), s') \<Longrightarrow>
     good s' \<and> (\<exists>new. committed' = committed @ new \<and> map fst new = take (length new) (fetched_records fs)
       \<and> (\<forall>(r, t)\<in>set new. settled r t))"
proof (induction maxAttempts fs committed s arbitrary: err committed' s' rule: Run.induct)
  case (3 maxAttempts m env fs committed s)
  obtain verdict s1 where d: "deliverUntilCommittable (de_deliver env) maxAttempts (de_stopped env) (de_paused env) m 1 s
      = (verdict, s1)" by (metis prod.exhaust)
  have h: "honest (de_deliver env)" "all_honest honest fs" using "3.prems"(1) by (auto simp: all_honest_def)
  note st = deliver_step [OF h(1) "3.prems"(2) d]
  show ?case
  proof (cases "verdict = Committable \<and> de_commit_ok env")
    case True
    then have "Run maxAttempts fs (committed @ [(m, s1)]) s1 = ((err, committed'), s')"
      using "3.prems"(3) d by simp
    from "3.IH" [OF d [symmetric] _ _ h(2) _ this] True st obtain new where
      "good s'" "committed' = (committed @ [(m, s1)]) @ new" "map fst new = take (length new) (fetched_records fs)"
      "\<forall>(r, t)\<in>set new. settled r t" by auto
    then show ?thesis using True st by (intro conjI exI [of _ "(m, s1) # new"]) auto
  next
    case False
    then show ?thesis using "3.prems"(3) d st by (cases verdict) auto
  qed
qed auto

end

section \<open>Lemmas on a delivery\<close>

text \<open>Every way a delivery can ask for a commit.\<close>

lemma isolate_CommitD:
  "isolate_record cd sha256 opts quarantine now r reason identity s = ((CommitOffset, e), s') \<Longrightarrow>
     quarantine (quarantined_of cd sha256 opts now r reason identity) s = (Inr (), s')"
  by (auto simp: isolate_record_def split: prod.splits sum.splits)

lemma Deliver_CommitE:
  assumes "Deliver cd sha256 opts effect quarantine now r s = ((CommitOffset, e), s')"
  obtains (applied) env t where "Envelope_Parse cd (kr_value r) (co_known_versions opts) = Inr env"
      "classify_record cd opts r env = None" "effect env s = (t, s')" "t = Inr () \<or> t = Inl ErrAlreadyApplied"
    | (isolated) reason identity where
      "quarantine (quarantined_of cd sha256 opts now r reason identity) s = (Inr (), s')"
    | (poisoned) env f s1 reason where "effect env s = (f, s1)"
      "quarantine (quarantined_of cd sha256 opts now r reason env) s1 = (Inr (), s')"
proof (cases "0 < co_max_bytes opts \<and> co_max_bytes opts < int (length (kr_value r))")
  case True
  then show ?thesis using assms isolated by (auto simp: Deliver_def dest: isolate_CommitD)
next
  case small: False
  show ?thesis
  proof (cases "Envelope_Parse cd (kr_value r) (co_known_versions opts)")
    case (Inl x)
    then show ?thesis using assms small isolated by (auto simp: Deliver_def dest: isolate_CommitD)
  next
    case (Inr env)
    show ?thesis
    proof (cases "classify_record cd opts r env")
      case (Some reason)
      then show ?thesis using assms small Inr isolated by (auto simp: Deliver_def dest: isolate_CommitD)
    next
      case None
      obtain t s1 where eff: "effect env s = (t, s1)" by (cases "effect env s")
      consider "t = Inr ()" | "t = Inl ErrAlreadyApplied" | x where "t = Inl x" "x \<noteq> ErrAlreadyApplied"
        by (cases t) auto
      then show ?thesis
      proof cases
        case (3 x)
        then obtain reason where "PoisonReason x = Some reason"
          using assms small Inr None eff by (auto simp: Deliver_def split: option.splits)
        then show ?thesis
          using 3 assms small Inr None eff poisoned by (auto simp: Deliver_def dest: isolate_CommitD)
      qed (use assms small Inr None eff applied in \<open>auto simp: Deliver_def\<close>)
    qed
  qed
qed

lemma Deliver_inv:
  assumes "good s" and "\<And>env. good (snd (effect env s))"
    and "\<And>q t. good t \<Longrightarrow> good (snd (quarantine q t))"
  shows "good (snd (Deliver cd sha256 opts effect quarantine now r s))"
proof -
  have iso: "good (snd (isolate_record cd sha256 opts quarantine now r reason identity t))" if "good t" for reason identity t
    using assms(3) [OF that, of "quarantined_of cd sha256 opts now r reason identity"]
    by (auto simp: isolate_record_def split: prod.splits sum.splits)
  have eff: "good s'" if "effect env s = (f, s')" for env f s' using assms(2) [of env] that by simp
  show ?thesis
    using assms(1) iso eff
    by (auto simp: Deliver_def split: if_splits sum.splits option.splits prod.splits)
qed


section \<open>Quarantine identities\<close>

lemma format_int_no_nul: "CHR 0x00 \<notin> set (format_int n)"
proof -
  have d: "digit_value (CHR 0x00) = None" by (simp add: digit_value_def byte_of_def)
  have "CHR 0x00 \<notin> set (digits_of m)" for m using digits_of_chars [of "CHR 0x00" m] d by metis
  then show ?thesis by (auto simp: format_int_def)
qed

lemma hex_encode_inj: "is_byte_list a \<Longrightarrow> is_byte_list b \<Longrightarrow> hex_encode a = hex_encode b \<Longrightarrow> a = b"
  by (metis hex_decode_encode option.inject)

lemma quarantine_text_inj:
  assumes "quarantine_text r x = quarantine_text r' x'" and "CHR 0x00 \<notin> set (kr_topic r)" "CHR 0x00 \<notin> set (kr_topic r')"
  shows "kr_topic r = kr_topic r' \<and> kr_partition r = kr_partition r' \<and> kr_offset r = kr_offset r' \<and> x = x'"
proof -
  note a = append_sep_inj [OF assms(2,3) assms(1) [unfolded quarantine_text_def]]
  note b = append_sep_inj [OF format_int_no_nul format_int_no_nul a [THEN conjunct2]]
  note c = append_sep_inj [OF format_int_no_nul format_int_no_nul b [THEN conjunct2]]
  show ?thesis using a b c format_int_inj by blast
qed

text \<open>A quarantine identity names one record and one reason: when two of them are equal, the records
  have the same topic, partition and offset and the reasons are the same, so a redelivered record
  gets the identity it had, and two different records never share one (topic names hold no NUL,
  and SHA-256 does not collide on the two texts).\<close>

theorem quarantine_identity_is_unique:
  assumes "quarantineID sha256 r reason = quarantineID sha256 r' reason'"
    and "sha256 (quarantine_text r reason) = sha256 (quarantine_text r' reason')
          \<longrightarrow> quarantine_text r reason = quarantine_text r' reason'"
    and "\<And>x. is_byte_list (sha256 x)"
    and "CHR 0x00 \<notin> set (kr_topic r)" "CHR 0x00 \<notin> set (kr_topic r')"
  shows "kr_topic r = kr_topic r' \<and> kr_partition r = kr_partition r' \<and> kr_offset r = kr_offset r' \<and> reason = reason'"
proof -
  have "sha256 (quarantine_text r reason) = sha256 (quarantine_text r' reason')"
    using assms(1,3) hex_encode_inj by (simp add: quarantineID_def digest_def)
  with assms(2) have "quarantine_text r reason = quarantine_text r' reason'" by simp
  then show ?thesis using assms(4,5) by (rule quarantine_text_inj)
qed

definition demo_record :: "int \<Rightarrow> kafka_record" where
  "demo_record off = \<lparr>kr_topic = ''media'', kr_partition = 0, kr_offset = off, kr_key = ''j1'', kr_value = ''{}''\<rparr>"

theorem quarantine_identity_is_unique_witness:
  "let sha256 = map byte_of in
     quarantineID sha256 (demo_record 7) ''X'' = quarantineID sha256 (demo_record 7) ''X''
     \<and> kr_offset (demo_record 7) = kr_offset (demo_record 7)
     \<and> quarantineID sha256 (demo_record 7) ''X'' \<noteq> quarantineID sha256 (demo_record 8) ''X''"
proof -
  have inj: "map byte_of a = map byte_of b \<longrightarrow> a = b" for a b
    by (metis byte_of_inj list.inj_map_strong)
  have bytes: "is_byte_list (map byte_of x)" for x by (simp add: is_byte_list_def)
  have t: "CHR 0x00 \<notin> set (kr_topic (demo_record n))" for n by (simp add: demo_record_def)
  have u: "kr_offset (demo_record m) = kr_offset (demo_record n)"
    if "quarantineID (map byte_of) (demo_record m) ''X'' = quarantineID (map byte_of) (demo_record n) ''X''" for m n
    using quarantine_identity_is_unique [OF that inj bytes t t] by blast
  have "kr_offset (demo_record 7) \<noteq> kr_offset (demo_record 8)" by (simp add: demo_record_def)
  then show ?thesis using u [of 7 8] by (auto simp: Let_def)
qed

end
