(* ===== verification/Asset_Tables.thy ===== *)
theory Asset_Tables
  imports Event_Envelope Prelude
begin

text \<open>
  The tables of the asset database that the media subsystem works on
  (\<open>infra/db/asset/migrations\<close>, mapped to structs in \<open>internal/domain/media.go\<close>): one record
  per row, one list of rows per table, and the inserts and updates with the constraints the
  migrations declare. A violated constraint is the error \<open>ErrConstraint\<close> with the kind of the
  message PostgreSQL reports. The \<open>updated_at\<close> columns, which triggers maintain and nothing
  reads, are left out, and so are the columns of folders and items that no media statement uses.
\<close>

section \<open>Rows\<close>

record usage_row =
  us_org :: string
  us_quota :: int
  us_reserved :: int
  us_stored :: int

definition AvailableBytes :: "usage_row \<Rightarrow> int" where
  "AvailableBytes u = us_quota u - us_reserved u - us_stored u"

record folder_row =
  f_id :: string
  f_org :: string
  f_deleted_at :: "instant option"

record asset_row =
  a_id :: string
  a_folder :: string
  a_active :: "string option"
  a_pending :: "string option"
  a_deleted_at :: "instant option"

record session_row =
  s_id :: string
  s_org :: string
  s_asset :: string
  s_requested_by :: string
  s_idempotency_key :: string
  s_fingerprint :: "nat list"
  s_state :: upload_session_state
  s_filename :: string
  s_content_type :: media_content_type
  s_extension :: string
  s_size :: int
  s_checksum :: "nat list"
  s_raw_key :: object_key
  s_credential_expires :: instant
  s_session_expires :: instant
  s_committed_at :: "instant option"
  s_expired_at :: "instant option"
  s_cancelled_at :: "instant option"
  s_purged_at :: "instant option"
  s_created_at :: instant

record version_row =
  v_id :: string
  v_org :: string
  v_asset :: string
  v_upload :: string
  v_requested_by :: string
  v_status :: media_version_status
  v_raw_key :: object_key
  v_raw_retained :: bool
  v_declared :: media_content_type
  v_detected :: "media_content_type option"
  v_size :: int
  v_sha256 :: "nat list option"
  v_width :: "int option"
  v_height :: "int option"
  v_failure_code :: "string option"
  v_processing_started :: "instant option"
  v_completed_at :: "instant option"
  v_failed_at :: "instant option"
  v_activated_at :: "instant option"
  v_created_at :: instant

record output_row =
  m_id :: string
  m_version :: string
  m_kind :: media_output_kind
  m_key :: object_key
  m_content_type :: media_content_type
  m_width :: int
  m_height :: int
  m_size :: int
  m_sha256 :: "nat list"
  m_created_at :: instant

record job_row =
  j_id :: string
  j_org :: string
  j_asset :: string
  j_version :: string
  j_status :: processing_job_status
  j_stage :: "processing_stage option"
  j_attempts :: int
  j_next_attempt :: instant
  j_lease_owner :: "string option"
  j_lease_expires :: "instant option"
  j_last_error :: "string option"
  j_isolated_at :: "instant option"
  j_queued_at :: instant
  j_started_at :: "instant option"
  j_completed_at :: "instant option"
  j_failed_at :: "instant option"
  j_created_at :: instant

datatype outbox_status = OutboxPending | OutboxPublishing | OutboxPublished

record outbox_row =
  x_id :: string
  x_job :: string
  x_event_type :: string
  x_schema_version :: int
  x_payload :: json
  x_status :: outbox_status
  x_attempts :: int
  x_next_attempt :: instant
  x_lease_owner :: "string option"
  x_lease_expires :: "instant option"
  x_last_error :: "string option"
  x_published_at :: "instant option"
  x_created_at :: instant

record db =
  organizations :: "string list"
  users :: "string list"
  usage :: "usage_row list"
  folders :: "folder_row list"
  assets :: "asset_row list"
  sessions :: "session_row list"
  versions :: "version_row list"
  outputs :: "output_row list"
  jobs :: "job_row list"
  outbox :: "outbox_row list"

type_synonym 'a result = "media_error + 'a"

section \<open>Constraints\<close>

definition unique_violation :: media_error where
  "unique_violation = ErrConstraint ''duplicate key value violates unique constraint''"

definition check_violation :: media_error where
  "check_violation = ErrConstraint ''new row violates check constraint''"

definition foreign_key_violation :: media_error where
  "foreign_key_violation = ErrConstraint ''insert violates foreign key constraint''"

definition usage_check :: "usage_row \<Rightarrow> bool" where
  "usage_check u \<longleftrightarrow> 0 < us_quota u \<and> 0 \<le> us_reserved u \<and> 0 \<le> us_stored u
     \<and> us_reserved u + us_stored u \<le> us_quota u"

definition session_check :: "session_row \<Rightarrow> bool" where
  "session_check s \<longleftrightarrow>
     length (s_fingerprint s) = 32 \<and> length (s_checksum s) = 32
     \<and> 1 \<le> s_size s \<and> s_size s \<le> 50000000
     \<and> ((s_content_type s = MediaContentTypeJPEG \<and> s_extension s = ''jpg'')
        \<or> (s_content_type s = MediaContentTypePNG \<and> s_extension s = ''png''))
     \<and> s_filename s \<noteq> []"

definition version_check :: "version_row \<Rightarrow> bool" where
  "version_check v \<longleftrightarrow>
     (case v_sha256 v of None \<Rightarrow> True | Some d \<Rightarrow> length d = 32)
     \<and> (case v_detected v of None \<Rightarrow> True | Some t \<Rightarrow> t = MediaContentTypeJPEG \<or> t = MediaContentTypePNG)
     \<and> (case (v_width v, v_height v) of
          (None, None) \<Rightarrow> True | (Some w, Some h) \<Rightarrow> 0 < w \<and> 0 < h | _ \<Rightarrow> False)
     \<and> 0 < v_size v"

definition output_check :: "output_row \<Rightarrow> bool" where
  "output_check m \<longleftrightarrow>
     (m_content_type m = MediaContentTypeJPEG \<or> m_content_type m = MediaContentTypePNG)
     \<and> 0 < m_width m \<and> 0 < m_height m \<and> 0 < m_size m \<and> length (m_sha256 m) = 32
     \<and> ((m_kind m = MediaOutputThumbnail \<and> m_width m \<le> 256 \<and> m_height m \<le> 256)
        \<or> (m_kind m = MediaOutputWeb \<and> m_width m \<le> 1080 \<and> m_height m \<le> 1080))"

definition isolatedCode :: string where
  "isolatedCode = ''MEDIA_NOTIFICATION_ISOLATED''"

definition job_check :: "job_row \<Rightarrow> bool" where
  "job_check j \<longleftrightarrow> 0 \<le> j_attempts j \<and> j_attempts j \<le> 3
     \<and> (j_isolated_at j \<noteq> None \<longrightarrow> j_status j = ProcessingJobFailed \<and> j_last_error j = Some isolatedCode)"

definition outbox_check :: "outbox_row \<Rightarrow> bool" where
  "outbox_check x \<longleftrightarrow> 0 \<le> x_attempts x \<and> 0 < x_schema_version x"

definition unpublished :: "outbox_row \<Rightarrow> bool" where
  "unpublished x \<longleftrightarrow> x_status x \<noteq> OutboxPublished"

text \<open>The unique indexes of each table: a row that may be added beside the others.\<close>

definition session_conflict :: "session_row \<Rightarrow> session_row \<Rightarrow> bool" where
  "session_conflict s t \<longleftrightarrow> s_id s = s_id t \<or> s_raw_key s = s_raw_key t
     \<or> (s_org s = s_org t \<and> s_asset s = s_asset t \<and> s_requested_by s = s_requested_by t
        \<and> s_idempotency_key s = s_idempotency_key t)
     \<or> (s_asset s = s_asset t \<and> s_state s = UploadSessionCreated \<and> s_state t = UploadSessionCreated)"

definition version_conflict :: "version_row \<Rightarrow> version_row \<Rightarrow> bool" where
  "version_conflict v w \<longleftrightarrow> v_id v = v_id w \<or> v_upload v = v_upload w \<or> v_raw_key v = v_raw_key w"

definition output_conflict :: "output_row \<Rightarrow> output_row \<Rightarrow> bool" where
  "output_conflict m n \<longleftrightarrow> m_id m = m_id n \<or> m_key m = m_key n
     \<or> (m_version m = m_version n \<and> m_kind m = m_kind n)"

definition job_conflict :: "job_row \<Rightarrow> job_row \<Rightarrow> bool" where
  "job_conflict j k \<longleftrightarrow> j_id j = j_id k \<or> j_version j = j_version k"

definition outbox_conflict :: "outbox_row \<Rightarrow> outbox_row \<Rightarrow> bool" where
  "outbox_conflict x y \<longleftrightarrow> x_id x = x_id y \<or> (x_job x = x_job y \<and> unpublished x \<and> unpublished y)"

section \<open>Inserts\<close>

definition insert_row :: "('r \<Rightarrow> bool) \<Rightarrow> ('r \<Rightarrow> 'r \<Rightarrow> bool) \<Rightarrow> bool \<Rightarrow> 'r \<Rightarrow> 'r list \<Rightarrow> 'r list result" where
  "insert_row check conflict references r rs =
     (if \<not> check r then Inl check_violation
      else if sql_exists (conflict r) rs then Inl unique_violation
      else if \<not> references then Inl foreign_key_violation
      else Inr (rs @ [r]))"

lemma insert_row_InrD:
  "insert_row c k ref r rs = Inr rs' \<Longrightarrow> rs' = rs @ [r] \<and> c r \<and> (\<forall>s\<in>set rs. \<not> k r s) \<and> ref"
  by (auto simp: insert_row_def sql_exists_iff split: if_splits)

definition asset_ids :: "db \<Rightarrow> string list" where
  "asset_ids db = map a_id (assets db)"

definition insert_session :: "session_row \<Rightarrow> db \<Rightarrow> db result" where
  "insert_session s db =
     (case insert_row session_check session_conflict
             (s_org s \<in> set (organizations db) \<and> s_requested_by s \<in> set (users db)
              \<and> s_asset s \<in> set (asset_ids db)) s (sessions db) of
        Inl e \<Rightarrow> Inl e | Inr rs \<Rightarrow> Inr (db\<lparr>sessions := rs\<rparr>))"

definition insert_version :: "version_row \<Rightarrow> db \<Rightarrow> db result" where
  "insert_version v db =
     (case insert_row version_check version_conflict
             (v_org v \<in> set (organizations db) \<and> v_requested_by v \<in> set (users db)
              \<and> v_asset v \<in> set (asset_ids db) \<and> v_upload v \<in> set (map s_id (sessions db))) v (versions db) of
        Inl e \<Rightarrow> Inl e | Inr rs \<Rightarrow> Inr (db\<lparr>versions := rs\<rparr>))"

definition insert_job :: "job_row \<Rightarrow> db \<Rightarrow> db result" where
  "insert_job j db =
     (case insert_row job_check job_conflict
             (j_org j \<in> set (organizations db) \<and> j_asset j \<in> set (asset_ids db)
              \<and> j_version j \<in> set (map v_id (versions db))) j (jobs db) of
        Inl e \<Rightarrow> Inl e | Inr rs \<Rightarrow> Inr (db\<lparr>jobs := rs\<rparr>))"

definition insert_output :: "output_row \<Rightarrow> db \<Rightarrow> db result" where
  "insert_output m db =
     (case insert_row output_check output_conflict (m_version m \<in> set (map v_id (versions db))) m (outputs db) of
        Inl e \<Rightarrow> Inl e | Inr rs \<Rightarrow> Inr (db\<lparr>outputs := rs\<rparr>))"

definition insert_outbox :: "outbox_row \<Rightarrow> db \<Rightarrow> db result" where
  "insert_outbox x db =
     (case insert_row outbox_check outbox_conflict (x_job x \<in> set (map j_id (jobs db))) x (outbox db) of
        Inl e \<Rightarrow> Inl e | Inr rs \<Rightarrow> Inr (db\<lparr>outbox := rs\<rparr>))"

text \<open>An update of the ledger: the statement fails when a row it writes breaks the check.\<close>

definition update_usage :: "(usage_row \<Rightarrow> bool) \<Rightarrow> (usage_row \<Rightarrow> usage_row) \<Rightarrow> db \<Rightarrow> db result" where
  "update_usage c f db =
     (if list_all (\<lambda>u. c u \<longrightarrow> usage_check (f u)) (usage db)
      then Inr (db\<lparr>usage := sql_update c f (usage db)\<rparr>)
      else Inl check_violation)"

text \<open>
  An update of one row selected by its key, with the check of the row and, for the pointer
  columns, the index that keeps a pending version on one asset.
\<close>

definition update_assets :: "(asset_row \<Rightarrow> bool) \<Rightarrow> (asset_row \<Rightarrow> asset_row) \<Rightarrow> db \<Rightarrow> db result" where
  "update_assets c f db =
     (let rs = sql_update c f (assets db) in
      if list_ex (\<lambda>a. a_active a \<noteq> None \<and> a_active a = a_pending a) rs then Inl check_violation
      else if \<not> distinct (map a_pending (filter (\<lambda>a. a_pending a \<noteq> None) rs)) then Inl unique_violation
      else Inr (db\<lparr>assets := rs\<rparr>))"

lemma insert_session_InrD:
  "insert_session s db = Inr db' \<Longrightarrow>
     db' = db\<lparr>sessions := sessions db @ [s]\<rparr> \<and> session_check s
     \<and> (\<forall>t\<in>set (sessions db). \<not> session_conflict s t)
     \<and> s_org s \<in> set (organizations db) \<and> s_asset s \<in> set (asset_ids db)"
  by (auto simp: insert_session_def split: sum.splits dest: insert_row_InrD)

lemma insert_version_InrD:
  "insert_version v db = Inr db' \<Longrightarrow>
     db' = db\<lparr>versions := versions db @ [v]\<rparr> \<and> version_check v
     \<and> (\<forall>t\<in>set (versions db). \<not> version_conflict v t)
     \<and> v_asset v \<in> set (asset_ids db) \<and> v_upload v \<in> set (map s_id (sessions db))"
  by (auto simp: insert_version_def split: sum.splits dest: insert_row_InrD)

lemma insert_job_InrD:
  "insert_job j db = Inr db' \<Longrightarrow>
     db' = db\<lparr>jobs := jobs db @ [j]\<rparr> \<and> job_check j
     \<and> (\<forall>t\<in>set (jobs db). \<not> job_conflict j t) \<and> j_version j \<in> set (map v_id (versions db))"
  by (auto simp: insert_job_def split: sum.splits dest: insert_row_InrD)

lemma insert_output_InrD:
  "insert_output m db = Inr db' \<Longrightarrow>
     db' = db\<lparr>outputs := outputs db @ [m]\<rparr> \<and> output_check m
     \<and> (\<forall>t\<in>set (outputs db). \<not> output_conflict m t) \<and> m_version m \<in> set (map v_id (versions db))"
  by (auto simp: insert_output_def split: sum.splits dest: insert_row_InrD)

lemma insert_outbox_InrD:
  "insert_outbox x db = Inr db' \<Longrightarrow>
     db' = db\<lparr>outbox := outbox db @ [x]\<rparr> \<and> outbox_check x
     \<and> (\<forall>t\<in>set (outbox db). \<not> outbox_conflict x t) \<and> x_job x \<in> set (map j_id (jobs db))"
  by (auto simp: insert_outbox_def split: sum.splits dest: insert_row_InrD)

lemma update_usage_InrD:
  "update_usage c f db = Inr db' \<Longrightarrow>
     db' = db\<lparr>usage := sql_update c f (usage db)\<rparr> \<and> (\<forall>u\<in>set (usage db). c u \<longrightarrow> usage_check (f u))"
  by (auto simp: update_usage_def list_all_iff split: if_splits)

lemma update_assets_InrD:
  "update_assets c f db = Inr db' \<Longrightarrow>
     db' = db\<lparr>assets := sql_update c f (assets db)\<rparr>
     \<and> distinct (map a_pending (filter (\<lambda>a. a_pending a \<noteq> None) (assets db')))"
  by (auto simp: update_assets_def Let_def split: if_splits)

lemmas insert_InrDs =
  insert_session_InrD insert_version_InrD insert_job_InrD insert_output_InrD insert_outbox_InrD

section \<open>The quota ledger\<close>

text \<open>What an organization's sessions have reserved, and what its retained originals occupy.\<close>

definition reserved_weight :: "string \<Rightarrow> session_row \<Rightarrow> int" where
  "reserved_weight og s = (if s_org s = og \<and> s_state s = UploadSessionCreated then s_size s else 0)"

definition stored_weight :: "string \<Rightarrow> version_row \<Rightarrow> int" where
  "stored_weight og v = (if v_org v = og \<and> v_raw_retained v then v_size v else 0)"

definition reserved_total :: "string \<Rightarrow> db \<Rightarrow> int" where
  "reserved_total og db = sql_sum (reserved_weight og) (sessions db)"

definition stored_total :: "string \<Rightarrow> db \<Rightarrow> int" where
  "stored_total og db = sql_sum (stored_weight og) (versions db)"

definition ledger_ok :: "db \<Rightarrow> bool" where
  "ledger_ok db \<longleftrightarrow>
     distinct (map us_org (usage db))
     \<and> (\<forall>u\<in>set (usage db). usage_check u \<and> us_reserved u = reserved_total (us_org u) db
          \<and> us_stored u = stored_total (us_org u) db)
     \<and> (\<forall>s\<in>set (sessions db). s_org s \<in> us_org ` set (usage db))
     \<and> (\<forall>v\<in>set (versions db). v_org v \<in> us_org ` set (usage db))"

section \<open>What the constraints keep true of every table\<close>

definition no_conflict :: "('r \<Rightarrow> 'r \<Rightarrow> bool) \<Rightarrow> 'r list \<Rightarrow> bool" where
  "no_conflict k rs \<longleftrightarrow> sorted_wrt (\<lambda>r s. \<not> k r s) rs"

lemma no_conflict_snoc:
  "no_conflict k rs \<Longrightarrow> \<forall>s\<in>set rs. \<not> k r s \<Longrightarrow> (\<And>a b. k a b \<longleftrightarrow> k b a) \<Longrightarrow> no_conflict k (rs @ [r])"
  by (auto simp: no_conflict_def sorted_wrt_append)

lemma no_conflict_update:
  assumes "no_conflict k rs"
    and "\<And>r s. r \<in> set rs \<Longrightarrow> s \<in> set rs \<Longrightarrow>
       k (if c r then f r else r) (if c s then f s else s) \<Longrightarrow> k r s"
  shows "no_conflict k (sql_update c f rs)"
  using assms unfolding no_conflict_def sql_update_def sorted_wrt_map
  by (blast intro: sorted_wrt_mono_rel [rotated])

lemma no_conflict_distinct:
  "no_conflict k rs \<Longrightarrow> (\<And>r s. key r = key s \<Longrightarrow> k r s) \<Longrightarrow> distinct (map key rs)"
proof (induction rs)
  case (Cons r rs)
  have "key r \<noteq> key s" if "s \<in> set rs" for s
    using Cons.prems(1) Cons.prems(2) [of r s] that by (auto simp: no_conflict_def)
  then show ?case using Cons by (auto simp: no_conflict_def)
qed simp

lemma no_conflict_unique:
  assumes "no_conflict k rs" and "r \<in> set rs" "s \<in> set rs" "k r s" and "\<And>a b. k a b \<longleftrightarrow> k b a"
  shows "r = s"
  using assms(1-4)
proof (induction rs)
  case (Cons a rs)
  then show ?case using assms(5) by (auto simp: no_conflict_def)
qed simp

definition tables_ok :: "db \<Rightarrow> bool" where
  "tables_ok db \<longleftrightarrow>
     no_conflict session_conflict (sessions db) \<and> list_all session_check (sessions db)
     \<and> no_conflict version_conflict (versions db) \<and> list_all version_check (versions db)
     \<and> no_conflict output_conflict (outputs db) \<and> list_all output_check (outputs db)
     \<and> no_conflict job_conflict (jobs db) \<and> list_all job_check (jobs db)
     \<and> no_conflict outbox_conflict (outbox db) \<and> list_all outbox_check (outbox db)
     \<and> distinct (map f_id (folders db)) \<and> distinct (map a_id (assets db))"

lemma conflict_sym:
  "session_conflict s t \<longleftrightarrow> session_conflict t s"
  "version_conflict v w \<longleftrightarrow> version_conflict w v"
  "output_conflict m n \<longleftrightarrow> output_conflict n m"
  "job_conflict j k \<longleftrightarrow> job_conflict k j"
  "outbox_conflict x y \<longleftrightarrow> outbox_conflict y x"
  by (auto simp: session_conflict_def version_conflict_def output_conflict_def job_conflict_def
      outbox_conflict_def)

lemma tables_ok_distinct:
  assumes "tables_ok db"
  shows "distinct (map s_id (sessions db))" "distinct (map v_id (versions db))"
    "distinct (map v_upload (versions db))" "distinct (map j_id (jobs db))"
    "distinct (map j_version (jobs db))" "distinct (map m_id (outputs db))"
    "distinct (map x_id (outbox db))" "distinct (map f_id (folders db))" "distinct (map a_id (assets db))"
  using assms unfolding tables_ok_def
  by (auto intro: no_conflict_distinct
      simp: session_conflict_def version_conflict_def output_conflict_def job_conflict_def outbox_conflict_def)

lemma tables_ok_checks:
  assumes "tables_ok db"
  shows "s \<in> set (sessions db) \<Longrightarrow> session_check s" "v \<in> set (versions db) \<Longrightarrow> version_check v"
    "m \<in> set (outputs db) \<Longrightarrow> output_check m" "j \<in> set (jobs db) \<Longrightarrow> job_check j"
    "x \<in> set (outbox db) \<Longrightarrow> outbox_check x"
  using assms by (auto simp: tables_ok_def list_all_iff)

lemma tables_ok_insert:
  assumes "tables_ok db"
  shows "insert_session s db = Inr db' \<Longrightarrow> tables_ok db'" "insert_version v db = Inr db' \<Longrightarrow> tables_ok db'"
    "insert_output m db = Inr db' \<Longrightarrow> tables_ok db'" "insert_job j db = Inr db' \<Longrightarrow> tables_ok db'"
    "insert_outbox x db = Inr db' \<Longrightarrow> tables_ok db'"
  using assms by (auto dest!: insert_InrDs simp: tables_ok_def conflict_sym intro!: no_conflict_snoc)

lemma list_all_sql_update:
  "list_all P rs \<Longrightarrow> (\<And>r. r \<in> set rs \<Longrightarrow> P r \<Longrightarrow> c r \<Longrightarrow> P (f r)) \<Longrightarrow> list_all P (sql_update c f rs)"
  by (auto simp: list_all_iff)

lemma tables_ok_usage [simp]: "tables_ok (db\<lparr>usage := us\<rparr>) = tables_ok db"
  by (simp add: tables_ok_def)

text \<open>An update of sessions keeps the indexes and checks when it keeps keys and opens no session.\<close>

lemma tables_ok_update_sessions:
  assumes "tables_ok db"
    and "\<And>s. s_id (f s) = s_id s" "\<And>s. s_raw_key (f s) = s_raw_key s" "\<And>s. s_org (f s) = s_org s"
      "\<And>s. s_asset (f s) = s_asset s" "\<And>s. s_requested_by (f s) = s_requested_by s"
      "\<And>s. s_idempotency_key (f s) = s_idempotency_key s"
      "\<And>s. s_state (f s) = UploadSessionCreated \<Longrightarrow> s_state s = UploadSessionCreated"
      "\<And>s. session_check (f s) = session_check s"
  shows "tables_ok (db\<lparr>sessions := sql_update c f (sessions db)\<rparr>)"
proof -
  have "no_conflict session_conflict (sql_update c f (sessions db))"
    using assms(1) by (intro no_conflict_update)
      (auto simp: tables_ok_def session_conflict_def assms(2-7) split: if_splits dest: assms(8))
  moreover have "list_all session_check (sql_update c f (sessions db))"
    using assms(1,9) by (intro list_all_sql_update) (auto simp: tables_ok_def)
  ultimately show ?thesis using assms(1) by (simp add: tables_ok_def)
qed

lemma tables_ok_update_assets:
  assumes "tables_ok db" and "\<And>a. a_id (f a) = a_id a"
  shows "tables_ok (db\<lparr>assets := sql_update c f (assets db)\<rparr>)"
  using assms by (simp add: tables_ok_def)

lemma tables_ok_update_outbox:
  assumes "tables_ok db"
    and "\<And>x. x_id (f x) = x_id x" "\<And>x. x_job (f x) = x_job x"
      "\<And>x. unpublished (f x) \<Longrightarrow> unpublished x" "\<And>x. outbox_check x \<Longrightarrow> outbox_check (f x)"
  shows "tables_ok (db\<lparr>outbox := sql_update c f (outbox db)\<rparr>)"
proof -
  have "no_conflict outbox_conflict (sql_update c f (outbox db))"
    using assms(1) by (intro no_conflict_update)
      (auto simp: tables_ok_def outbox_conflict_def assms(2,3) split: if_splits dest: assms(4))
  moreover have "list_all outbox_check (sql_update c f (outbox db))"
    using assms(1,5) by (intro list_all_sql_update) (auto simp: tables_ok_def)
  ultimately show ?thesis using assms(1) by (simp add: tables_ok_def)
qed

section \<open>Ledger steps\<close>

lemma reserved_weight_nonneg: "session_check s \<Longrightarrow> 0 \<le> reserved_weight og s"
  by (simp add: reserved_weight_def session_check_def)

lemma stored_weight_nonneg: "version_check v \<Longrightarrow> 0 \<le> stored_weight og v"
  by (simp add: stored_weight_def version_check_def)

lemma reserved_total_cong: "sessions db' = sessions db \<Longrightarrow> reserved_total og db' = reserved_total og db"
  by (simp add: reserved_total_def)

lemma stored_total_cong: "versions db' = versions db \<Longrightarrow> stored_total og db' = stored_total og db"
  by (simp add: stored_total_def)

text \<open>Only the ledger, the sessions and the versions matter.\<close>

lemma ledger_ok_cong:
  "usage db' = usage db \<Longrightarrow> sessions db' = sessions db \<Longrightarrow> versions db' = versions db
   \<Longrightarrow> ledger_ok db' = ledger_ok db"
  by (simp add: ledger_ok_def reserved_total_def stored_total_def)

lemma ledger_step:
  assumes "ledger_ok db" and "usage db' = sql_update c f (usage db)"
    and "\<And>u. us_org (f u) = us_org u" and "\<And>u. u \<in> set (usage db) \<Longrightarrow> c u \<Longrightarrow> usage_check (f u)"
    and "\<And>u. u \<in> set (usage db) \<Longrightarrow> c u \<Longrightarrow> us_reserved (f u) = reserved_total (us_org u) db'
           \<and> us_stored (f u) = stored_total (us_org u) db'"
    and "\<And>u. u \<in> set (usage db) \<Longrightarrow> \<not> c u \<Longrightarrow> reserved_total (us_org u) db' = reserved_total (us_org u) db
           \<and> stored_total (us_org u) db' = stored_total (us_org u) db"
    and "s_org ` set (sessions db') \<subseteq> us_org ` set (usage db)"
    and "v_org ` set (versions db') \<subseteq> us_org ` set (usage db)"
  shows "ledger_ok db'"
proof -
  have org: "map us_org (usage db') = map us_org (usage db)" using assms(2,3) by simp
  then have orgs: "us_org ` set (usage db') = us_org ` set (usage db)" by (metis list.set_map)
  have "usage_check u \<and> us_reserved u = reserved_total (us_org u) db' \<and> us_stored u = stored_total (us_org u) db'"
    if "u \<in> set (usage db')" for u
    using that unfolding assms(2)
  proof (rule sql_update_memE)
    fix r assume "r \<in> set (usage db)" "c r" "u = f r"
    then show ?thesis using assms(3-5) by simp
  next
    assume "u \<in> set (usage db)" "\<not> c u"
    then show ?thesis using assms(1,6) by (simp add: ledger_ok_def)
  qed
  then show ?thesis using assms(1,7,8) org orgs unfolding ledger_ok_def by (metis image_subset_iff)
qed

end
