(* ===== verification/Upload_Repository.thy ===== *)
theory Upload_Repository
  imports Asset_Tables
begin

text \<open>
  \<open>internal/repository/media_repository.go\<close>: upload sessions, the organization quota ledger and
  the commit that turns a session into a version, a processing job and an outbox event. Each
  operation is one transaction on the tables (\<open>CommitUpload\<close> is a read followed by one), so the row
  locks of the code become the atomicity of the step. The clock readings, the new identifiers, the
  request's trace context and the SHA-256 function are arguments.
\<close>

section \<open>Requests and results\<close>

record create_session_request =
  req_org :: string
  req_asset :: string
  req_requested_by :: string
  req_idempotency_key :: string
  req_filename :: string
  req_content_type :: media_content_type
  req_size :: int
  req_checksum :: "nat list"

record create_session_options =
  opt_upload_id :: string
  opt_raw_key :: object_key
  opt_default_quota :: int
  opt_credential_expires :: instant
  opt_session_expires :: instant

record session_scope =
  sc_org :: string
  sc_asset :: string
  sc_upload :: string
  sc_requested_by :: string

record commit_request =
  cr_org :: string
  cr_asset :: string
  cr_requested_by :: string
  cr_upload :: string

record commit_ids =
  new_version :: string
  new_job :: string
  new_outbox :: string

record commit_acceptance =
  acc_version :: string
  acc_job :: string
  acc_status :: processing_job_status
  acc_at :: instant

record asset_media_pointers =
  ptr_id :: string
  ptr_org :: string
  ptr_folder :: string
  ptr_active :: "string option"
  ptr_pending :: "string option"

definition hasPendingVersion :: "asset_media_pointers \<Rightarrow> bool" where
  "hasPendingVersion p \<longleftrightarrow> ptr_pending p \<noteq> None"

section \<open>Locked reads\<close>

definition new_usage_row :: "string \<Rightarrow> int \<Rightarrow> usage_row" where
  "new_usage_row og quota = \<lparr>us_org = og, us_quota = quota, us_reserved = 0, us_stored = 0\<rparr>"

definition lockOrganizationUsageRow :: "string \<Rightarrow> int \<Rightarrow> db \<Rightarrow> (usage_row \<times> db) result" where
  "lockOrganizationUsageRow og quota db =
     (let row = new_usage_row og quota in
      if \<not> usage_check row then Inl check_violation
      else
        and_then
          (if sql_exists (\<lambda>u. us_org u = og) (usage db) then Inr db
           else if og \<notin> set (organizations db) then Inl foreign_key_violation
           else Inr (db\<lparr>usage := usage db @ [row]\<rparr>))
          (\<lambda>db'. and_then (from_option ErrRecordNotFound (find (\<lambda>u. us_org u = og) (usage db')))
             (\<lambda>u. Inr (u, db'))))"

definition in_active_folder :: "string \<Rightarrow> asset_row \<Rightarrow> db \<Rightarrow> bool" where
  "in_active_folder og a db \<longleftrightarrow>
     sql_exists (\<lambda>f. f_id f = a_folder a \<and> f_org f = og \<and> f_deleted_at f = None) (folders db)"

definition lockActiveAsset :: "string \<Rightarrow> string \<Rightarrow> db \<Rightarrow> asset_media_pointers result" where
  "lockActiveAsset og asset db =
     (case find (\<lambda>a. a_id a = asset \<and> a_deleted_at a = None \<and> in_active_folder og a db) (assets db) of
        None \<Rightarrow> Inl ErrAssetNotAvailable
      | Some a \<Rightarrow> Inr \<lparr>ptr_id = a_id a, ptr_org = og, ptr_folder = a_folder a,
                        ptr_active = a_active a, ptr_pending = a_pending a\<rparr>)"

definition session_in_scope :: "session_scope \<Rightarrow> session_row \<Rightarrow> bool" where
  "session_in_scope scope s \<longleftrightarrow>
     s_id s = sc_upload scope \<and> s_org s = sc_org scope \<and> s_asset s = sc_asset scope
     \<and> (sc_requested_by scope \<noteq> [] \<longrightarrow> s_requested_by s = sc_requested_by scope)"

definition lockUploadSessionRow :: "session_scope \<Rightarrow> db \<Rightarrow> session_row result" where
  "lockUploadSessionRow scope db = from_option ErrUploadNotFound (find (session_in_scope scope) (sessions db))"

section \<open>The quota ledger\<close>

definition reserveQuota :: "string \<Rightarrow> int \<Rightarrow> db \<Rightarrow> db result" where
  "reserveQuota og bytes db =
     (let c = (\<lambda>u. us_org u = og \<and> us_reserved u + us_stored u + bytes \<le> us_quota u) in
      and_then (update_usage c (\<lambda>u. u\<lparr>us_reserved := us_reserved u + bytes\<rparr>) db)
        (\<lambda>db'. if rows_affected c (usage db) = 0 then Inl ErrQuotaExceeded else Inr db'))"

definition releaseReservation :: "string \<Rightarrow> int \<Rightarrow> db \<Rightarrow> db result" where
  "releaseReservation og bytes db =
     update_usage (\<lambda>u. us_org u = og) (\<lambda>u. u\<lparr>us_reserved := max (us_reserved u - bytes) 0\<rparr>) db"

definition convertReservationToStored :: "string \<Rightarrow> int \<Rightarrow> int \<Rightarrow> db \<Rightarrow> db result" where
  "convertReservationToStored og reservedBytes actualBytes db =
     update_usage (\<lambda>u. us_org u = og)
       (\<lambda>u. u\<lparr>us_reserved := max (us_reserved u - reservedBytes) 0, us_stored := us_stored u + actualBytes\<rparr>) db"

definition releaseStoredBytes :: "string \<Rightarrow> int \<Rightarrow> db \<Rightarrow> db result" where
  "releaseStoredBytes og bytes db =
     update_usage (\<lambda>u. us_org u = og) (\<lambda>u. u\<lparr>us_stored := max (us_stored u - bytes) 0\<rparr>) db"

definition reclaimable :: "string \<Rightarrow> string \<Rightarrow> instant \<Rightarrow> session_row \<Rightarrow> bool" where
  "reclaimable og asset now s \<longleftrightarrow>
     s_asset s = asset \<and> s_org s = og \<and> s_state s = UploadSessionCreated \<and> s_session_expires s \<le> now"

definition reclaimExpiredSessions :: "string \<Rightarrow> string \<Rightarrow> instant \<Rightarrow> db \<Rightarrow> db result" where
  "reclaimExpiredSessions og asset now db =
     (let c = reclaimable og asset now;
          total = sql_sum s_size (filter c (sessions db));
          db' = db\<lparr>sessions := sql_update c
                   (\<lambda>s. s\<lparr>s_state := UploadSessionExpired, s_expired_at := Some now\<rparr>) (sessions db)\<rparr> in
      if total = 0 then Inr db' else releaseReservation og total db')"

section \<open>Media pointers\<close>

definition setPendingMediaVersion :: "string \<Rightarrow> string \<Rightarrow> string \<Rightarrow> db \<Rightarrow> db result" where
  "setPendingMediaVersion og asset version db =
     (let c = (\<lambda>a. a_id a = asset
                \<and> sql_exists (\<lambda>f. f_id f = a_folder a \<and> f_org f = og) (folders db)
                \<and> a_deleted_at a = None \<and> a_pending a = None) in
      and_then (update_assets c (\<lambda>a. a\<lparr>a_pending := Some version\<rparr>) db)
        (\<lambda>db'. if rows_affected c (assets db) = 0 then Inl ErrUploadInProgress else Inr db'))"

definition clearPendingMediaVersion :: "string \<Rightarrow> string \<Rightarrow> db \<Rightarrow> db" where
  "clearPendingMediaVersion asset version db =
     db\<lparr>assets := sql_update (\<lambda>a. a_id a = asset \<and> a_pending a = Some version)
                   (\<lambda>a. a\<lparr>a_pending := None\<rparr>) (assets db)\<rparr>"

definition sessionIsCommittable :: "session_row \<Rightarrow> instant \<Rightarrow> unit result" where
  "sessionIsCommittable s now =
     (if s_state s = UploadSessionCommitted then Inr ()
      else if s_state s \<noteq> UploadSessionCreated then Inl ErrUploadStateConflict
      else if \<not> now < s_session_expires s then Inl ErrUploadSessionExpired
      else Inr ())"

section \<open>Opening a session\<close>

definition fingerprint_text :: "create_session_request \<Rightarrow> string" where
  "fingerprint_text r =
     join_with ''|'' [req_asset r, req_filename r, req_content_type r, format_int (req_size r),
                      base64_encode (req_checksum r)]"

definition uploadRequestFingerprint :: "(string \<Rightarrow> nat list) \<Rightarrow> create_session_request \<Rightarrow> nat list" where
  "uploadRequestFingerprint sha256 r = sha256 (fingerprint_text r)"

fun isUniqueViolation :: "media_error \<Rightarrow> bool" where
  "isUniqueViolation (ErrConstraint m) \<longleftrightarrow>
     contains_sub ''duplicate key'' (to_lower m) \<or> contains_sub ''SQLSTATE 23505'' m"
| "isUniqueViolation _ \<longleftrightarrow> False"

definition same_operation :: "create_session_request \<Rightarrow> session_row \<Rightarrow> bool" where
  "same_operation r s \<longleftrightarrow> s_org s = req_org r \<and> s_asset s = req_asset r
     \<and> s_requested_by s = req_requested_by r \<and> s_idempotency_key s = req_idempotency_key r"

definition new_session ::
  "(string \<Rightarrow> nat list) \<Rightarrow> create_session_request \<Rightarrow> create_session_options \<Rightarrow> string \<Rightarrow> instant \<Rightarrow> session_row"
where
  "new_session sha256 r opt extension now =
     \<lparr>s_id = opt_upload_id opt, s_org = req_org r, s_asset = req_asset r,
      s_requested_by = req_requested_by r, s_idempotency_key = req_idempotency_key r,
      s_fingerprint = uploadRequestFingerprint sha256 r, s_state = UploadSessionCreated,
      s_filename = req_filename r, s_content_type = req_content_type r, s_extension = extension,
      s_size = req_size r, s_checksum = req_checksum r, s_raw_key = opt_raw_key opt,
      s_credential_expires = opt_credential_expires opt, s_session_expires = opt_session_expires opt,
      s_committed_at = None, s_expired_at = None, s_cancelled_at = None, s_purged_at = None,
      s_created_at = now\<rparr>"

text \<open>The body of the transaction, from the replay check on.\<close>

definition replay_session :: "(string \<Rightarrow> nat list) \<Rightarrow> create_session_request \<Rightarrow> session_row \<Rightarrow> session_row result"
where
  "replay_session sha256 r existing =
     (if s_fingerprint existing \<noteq> uploadRequestFingerprint sha256 r then Inl ErrIdempotencyConflict
      else if \<not> IsPublished (s_state existing) then Inl ErrIdempotencyConflict
      else Inr existing)"

definition open_session ::
  "(string \<Rightarrow> nat list) \<Rightarrow> create_session_request \<Rightarrow> create_session_options \<Rightarrow> string
   \<Rightarrow> instant \<Rightarrow> instant \<Rightarrow> asset_media_pointers \<Rightarrow> db \<Rightarrow> (session_row \<times> db) result"
where
  "open_session sha256 r opt extension now1 now2 asset db =
     (if hasPendingVersion asset then Inl ErrUploadInProgress
      else and_then (reclaimExpiredSessions (req_org r) (req_asset r) now1 db) (\<lambda>db1.
        if rows_affected (\<lambda>s. s_asset s = req_asset r \<and> s_state s = UploadSessionCreated) (sessions db1) \<noteq> 0
        then Inl ErrUploadInProgress
        else and_then (reserveQuota (req_org r) (req_size r) db1) (\<lambda>db2.
          let s = new_session sha256 r opt extension now2 in
          and_then (map_error (\<lambda>e. if isUniqueViolation e then ErrUploadInProgress else e) (insert_session s db2))
            (\<lambda>db3. Inr (s, db3)))))"

definition create_session_work ::
  "(string \<Rightarrow> nat list) \<Rightarrow> create_session_request \<Rightarrow> create_session_options \<Rightarrow> string
   \<Rightarrow> instant \<Rightarrow> instant \<Rightarrow> db \<Rightarrow> ((session_row \<times> bool) \<times> db) result"
where
  "create_session_work sha256 r opt extension now1 now2 db =
     and_then (lockOrganizationUsageRow (req_org r) (opt_default_quota opt) db) (\<lambda>(_, db1).
     and_then (lockActiveAsset (req_org r) (req_asset r) db1) (\<lambda>asset.
       case find (same_operation r) (sessions db1) of
         Some existing \<Rightarrow>
           and_then (replay_session sha256 r existing) (\<lambda>s. Inr ((s, True), db1))
       | None \<Rightarrow>
           and_then (open_session sha256 r opt extension now1 now2 asset db1)
             (\<lambda>(s, db2). Inr ((s, False), db2))))"

definition CreateUploadSession ::
  "(string \<Rightarrow> nat list) \<Rightarrow> create_session_request \<Rightarrow> create_session_options \<Rightarrow> instant \<Rightarrow> instant
   \<Rightarrow> db \<Rightarrow> (session_row \<times> bool) result \<times> db"
where
  "CreateUploadSession sha256 r opt now1 now2 db =
     (case FileExtension (req_content_type r) of
        None \<Rightarrow> (Inl ErrUnsupportedMediaType, db)
      | Some extension \<Rightarrow>
         if opt_default_quota opt \<le> 0
         then (Inl (ErrOther ''default media quota must be positive''), db)
         else transaction (create_session_work sha256 r opt extension now1 now2) db)"

section \<open>Reading, refreshing and closing a session\<close>

definition GetUploadSession :: "session_scope \<Rightarrow> instant \<Rightarrow> db \<Rightarrow> session_row result" where
  "GetUploadSession scope now db =
     and_then (lockActiveAsset (sc_org scope) (sc_asset scope) db) (\<lambda>_.
     and_then (lockUploadSessionRow scope db) (\<lambda>s.
       if s_state s = UploadSessionCreated \<and> \<not> now < s_session_expires s
       then Inl ErrUploadSessionExpired else Inr s))"

definition open_with_id :: "string \<Rightarrow> session_row \<Rightarrow> bool" where
  "open_with_id i s \<longleftrightarrow> s_id s = i \<and> s_state s = UploadSessionCreated"

definition refresh_work :: "session_scope \<Rightarrow> instant \<Rightarrow> instant \<Rightarrow> db \<Rightarrow> (session_row \<times> db) result" where
  "refresh_work scope credentialExpiresAt now db =
     and_then (lockActiveAsset (sc_org scope) (sc_asset scope) db) (\<lambda>_.
     and_then (lockUploadSessionRow scope db) (\<lambda>s.
       if s_state s \<noteq> UploadSessionCreated then Inl ErrUploadStateConflict
       else if \<not> now < s_session_expires s then Inl ErrUploadSessionExpired
       else if \<not> now < credentialExpiresAt \<or> s_session_expires s < credentialExpiresAt
         then Inl ErrUploadSessionExpired
       else if rows_affected (open_with_id (s_id s)) (sessions db) \<noteq> 1 then Inl ErrUploadStateConflict
       else Inr (s\<lparr>s_credential_expires := credentialExpiresAt\<rparr>,
                 db\<lparr>sessions := sql_update (open_with_id (s_id s))
                    (\<lambda>r. r\<lparr>s_credential_expires := credentialExpiresAt\<rparr>) (sessions db)\<rparr>)))"

definition RefreshUploadSession :: "session_scope \<Rightarrow> instant \<Rightarrow> instant \<Rightarrow> db \<Rightarrow> session_row result \<times> db" where
  "RefreshUploadSession scope credentialExpiresAt now db =
     transaction (refresh_work scope credentialExpiresAt now) db"

definition close_session :: "upload_session_state \<Rightarrow> instant \<Rightarrow> session_row \<Rightarrow> session_row" where
  "close_session target now s =
     (if target = UploadSessionCancelled
      then s\<lparr>s_state := target, s_cancelled_at := Some now\<rparr>
      else s\<lparr>s_state := target, s_expired_at := Some now\<rparr>)"

definition transition_work :: "session_scope \<Rightarrow> upload_session_state \<Rightarrow> instant \<Rightarrow> db \<Rightarrow> (unit \<times> db) result" where
  "transition_work scope target now db =
     (if \<not> sql_exists (\<lambda>u. us_org u = sc_org scope) (usage db) then Inl ErrUploadNotFound
      else and_then (lockUploadSessionRow scope db) (\<lambda>s.
        if s_state s \<in> {UploadSessionCancelled, UploadSessionExpired, UploadSessionFailed} then Inr ((), db)
        else if s_state s = UploadSessionCommitted
          then (if target = UploadSessionCancelled then Inl ErrUploadStateConflict else Inr ((), db))
        else if target = UploadSessionExpired \<and> now < s_session_expires s then Inr ((), db)
        else and_then (releaseReservation (s_org s) (s_size s) db) (\<lambda>db1.
          if rows_affected (open_with_id (s_id s)) (sessions db1) \<noteq> 1 then Inl ErrUploadStateConflict
          else Inr ((), db1\<lparr>sessions := sql_update (open_with_id (s_id s)) (close_session target now)
                             (sessions db1)\<rparr>))))"

definition transitionOpenUploadSession ::
  "session_scope \<Rightarrow> upload_session_state \<Rightarrow> instant \<Rightarrow> db \<Rightarrow> unit result \<times> db"
where
  "transitionOpenUploadSession scope target now db =
     (if target \<noteq> UploadSessionCancelled \<and> target \<noteq> UploadSessionExpired
      then (Inl ErrUploadStateConflict, db)
      else transaction (transition_work scope target now) db)"

definition CancelUploadSession :: "session_scope \<Rightarrow> instant \<Rightarrow> db \<Rightarrow> unit result \<times> db" where
  "CancelUploadSession scope now db = transitionOpenUploadSession scope UploadSessionCancelled now db"

definition ExpireUploadSession :: "session_scope \<Rightarrow> instant \<Rightarrow> db \<Rightarrow> unit result \<times> db" where
  "ExpireUploadSession scope now db = transitionOpenUploadSession scope UploadSessionExpired now db"

section \<open>Committing an upload\<close>

definition verifyStoredObject :: "session_row \<Rightarrow> object_attributes \<Rightarrow> unit result" where
  "verifyStoredObject s attributes =
     (if attr_size attributes \<noteq> s_size s \<or> attr_content_type attributes \<noteq> s_content_type s
      then Inl ErrMediaObjectMismatch
      else if length (attr_checksum attributes) \<noteq> ChecksumByteLength
              \<or> attr_checksum attributes \<noteq> s_checksum s
      then Inl ErrMediaObjectMismatch
      else Inr ())"

definition commit_scope :: "commit_request \<Rightarrow> session_scope" where
  "commit_scope r = \<lparr>sc_org = cr_org r, sc_asset = cr_asset r, sc_upload = cr_upload r,
                     sc_requested_by = cr_requested_by r\<rparr>"

definition commit_precheck :: "commit_request \<Rightarrow> object_attributes \<Rightarrow> instant \<Rightarrow> db \<Rightarrow> unit result" where
  "commit_precheck r attributes now db =
     and_then (GetUploadSession (commit_scope r) now db) (\<lambda>s.
       if s_state s \<noteq> UploadSessionCommitted then verifyStoredObject s attributes else Inr ())"

definition insertOutboxJSON :: "outbox_row \<Rightarrow> db \<Rightarrow> db result" where
  "insertOutboxJSON record db =
     (if x_event_type record = [] then Inl (ErrOther ''outbox record has no event type'')
      else insert_outbox (record\<lparr>x_attempts := 0, x_lease_owner := None, x_lease_expires := None,
                                x_last_error := None, x_published_at := None\<rparr>) db)"

definition new_version_row :: "session_row \<Rightarrow> object_attributes \<Rightarrow> string \<Rightarrow> instant \<Rightarrow> version_row" where
  "new_version_row s attributes i now =
     \<lparr>v_id = i, v_org = s_org s, v_asset = s_asset s, v_upload = s_id s, v_requested_by = s_requested_by s,
      v_status = MediaVersionPending, v_raw_key = s_raw_key s, v_raw_retained = True,
      v_declared = s_content_type s, v_detected = None, v_size = attr_size attributes,
      v_sha256 = None, v_width = None, v_height = None, v_failure_code = None,
      v_processing_started = None, v_completed_at = None, v_failed_at = None, v_activated_at = None,
      v_created_at = now\<rparr>"

definition new_job_row :: "session_row \<Rightarrow> string \<Rightarrow> string \<Rightarrow> instant \<Rightarrow> job_row" where
  "new_job_row s version i now =
     \<lparr>j_id = i, j_org = s_org s, j_asset = s_asset s, j_version = version, j_status = ProcessingJobQueued,
      j_stage = None, j_attempts = 0, j_next_attempt = now, j_lease_owner = None, j_lease_expires = None,
      j_last_error = None, j_isolated_at = None, j_queued_at = now, j_started_at = None,
      j_completed_at = None, j_failed_at = None, j_created_at = now\<rparr>"

definition pending_outbox :: "string \<Rightarrow> string \<Rightarrow> json \<Rightarrow> instant \<Rightarrow> instant \<Rightarrow> outbox_row" where
  "pending_outbox i job doc due now =
     \<lparr>x_id = i, x_job = job, x_event_type = MediaProcessingRequestedEventType, x_schema_version = 1,
      x_payload = doc, x_status = OutboxPending, x_attempts = 0, x_next_attempt = due,
      x_lease_owner = None, x_lease_expires = None, x_last_error = None, x_published_at = None,
      x_created_at = now\<rparr>"

definition new_envelope :: "string \<Rightarrow> instant \<Rightarrow> string \<Rightarrow> string \<Rightarrow> envelope" where
  "new_envelope i now og tp = \<lparr>EventID = i, EventType = [], SchemaVersion = 0, Source = [],
     OccurredAt = now, env_OrgID = og, env_Traceparent = tp, env_Raw = []\<rparr>"

text \<open>A commit of a session that is already committed answers from the rows of the first one.\<close>

definition commit_replay :: "session_row \<Rightarrow> db \<Rightarrow> commit_acceptance result" where
  "commit_replay s db =
     and_then (from_option ErrRecordNotFound (find (\<lambda>v. v_upload v = s_id s) (versions db))) (\<lambda>version.
     and_then (from_option ErrRecordNotFound (find (\<lambda>j. j_version j = v_id version) (jobs db))) (\<lambda>job.
       Inr \<lparr>acc_version = v_id version, acc_job = j_id job, acc_status = ProcessingJobQueued,
            acc_at = v_created_at version\<rparr>))"

definition commit_rows ::
  "codec \<Rightarrow> session_row \<Rightarrow> object_attributes \<Rightarrow> commit_ids \<Rightarrow> string \<Rightarrow> instant \<Rightarrow> db \<Rightarrow> db result"
where
  "commit_rows cd s attributes ids tp now db =
     and_then (insert_version (new_version_row s attributes (new_version ids) now) db) (\<lambda>db1.
     and_then (insert_job (new_job_row s (new_version ids) (new_job ids) now) db1) (\<lambda>db2.
     and_then (setPendingMediaVersion (s_org s) (s_asset s) (new_version ids) db2) (\<lambda>db3.
     and_then (convertReservationToStored (s_org s) (s_size s) (attr_size attributes) db3) (\<lambda>db4.
       let db5 = db4\<lparr>sessions := sql_update (open_with_id (s_id s))
                    (\<lambda>r. r\<lparr>s_state := UploadSessionCommitted, s_committed_at := Some now\<rparr>) (sessions db4)\<rparr> in
     and_then (Media_Marshal cd (new_envelope (new_outbox ids) now (s_org s) tp)
                 \<lparr>pl_asset = s_asset s, pl_upload = s_id s, pl_version = new_version ids, pl_job = new_job ids\<rparr>)
       (\<lambda>doc. insertOutboxJSON (pending_outbox (new_outbox ids) (new_job ids) doc now now) db5)))))"

definition commit_work ::
  "codec \<Rightarrow> commit_request \<Rightarrow> object_attributes \<Rightarrow> commit_ids \<Rightarrow> string \<Rightarrow> instant \<Rightarrow> instant
   \<Rightarrow> db \<Rightarrow> ((commit_acceptance \<times> bool) \<times> db) result"
where
  "commit_work cd r attributes ids tp now1 now2 db =
     and_then (require (sql_exists (\<lambda>u. us_org u = cr_org r) (usage db)) ErrRecordNotFound) (\<lambda>_.
     and_then (lockActiveAsset (cr_org r) (cr_asset r) db) (\<lambda>asset.
     and_then (lockUploadSessionRow (commit_scope r) db) (\<lambda>locked.
       if s_state locked = UploadSessionCommitted
       then and_then (commit_replay locked db) (\<lambda>acc. Inr ((acc, True), db))
       else and_then (sessionIsCommittable locked now1) (\<lambda>_.
            and_then (verifyStoredObject locked attributes) (\<lambda>_.
              if hasPendingVersion asset then Inl ErrUploadInProgress
              else and_then (commit_rows cd locked attributes ids tp now2 db) (\<lambda>db'.
                Inr ((\<lparr>acc_version = new_version ids, acc_job = new_job ids,
                       acc_status = ProcessingJobQueued, acc_at = now2\<rparr>, False), db')))))))"

text \<open>The transaction of a commit, and the whole call: the read that precedes it, then the transaction.\<close>

definition commit_transaction ::
  "codec \<Rightarrow> commit_request \<Rightarrow> object_attributes \<Rightarrow> commit_ids \<Rightarrow> string \<Rightarrow> instant \<Rightarrow> instant
   \<Rightarrow> db \<Rightarrow> (commit_acceptance \<times> bool) result \<times> db"
where
  "commit_transaction cd r attributes ids tp now1 now2 db =
     transaction (commit_work cd r attributes ids tp now1 now2) db"

definition CommitUpload ::
  "codec \<Rightarrow> commit_request \<Rightarrow> object_attributes \<Rightarrow> commit_ids \<Rightarrow> string \<Rightarrow> instant \<Rightarrow> instant \<Rightarrow> instant
   \<Rightarrow> db \<Rightarrow> (commit_acceptance \<times> bool) result \<times> db"
where
  "CommitUpload cd r attributes ids tp now0 now1 now2 db =
     (case commit_precheck r attributes now0 db of
        Inl e \<Rightarrow> (Inl e, db)
      | Inr _ \<Rightarrow> commit_transaction cd r attributes ids tp now1 now2 db)"

section \<open>What each operation writes\<close>

lemma lockOrganizationUsageRow_InrD:
  assumes "lockOrganizationUsageRow og quota db = Inr (u, db')"
  shows "u \<in> set (usage db') \<and> us_org u = og \<and> 0 < quota \<and>
    (db' = db \<or> db' = db\<lparr>usage := usage db @ [new_usage_row og quota]\<rparr>
      \<and> (\<forall>r\<in>set (usage db). us_org r \<noteq> og))"
  using assms
  by (auto simp: lockOrganizationUsageRow_def Let_def sql_exists_iff usage_check_def new_usage_row_def
      split: if_splits dest!: find_SomeD)

lemma lockActiveAsset_InrD:
  "lockActiveAsset og asset db = Inr p \<Longrightarrow>
     \<exists>a. a \<in> set (assets db) \<and> a_id a = asset \<and> a_deleted_at a = None \<and> in_active_folder og a db
       \<and> ptr_pending p = a_pending a \<and> ptr_active p = a_active a \<and> ptr_folder p = a_folder a"
  by (auto simp: lockActiveAsset_def split: option.splits dest!: find_SomeD)

lemma lockUploadSessionRow_InrD:
  "lockUploadSessionRow scope db = Inr s \<Longrightarrow> s \<in> set (sessions db) \<and> session_in_scope scope s"
  by (auto simp: lockUploadSessionRow_def dest: find_SomeD)

lemma open_session_InrD:
  assumes "open_session sha256 r opt ext now1 now2 asset db = Inr (s, db')"
  shows "\<exists>db1 db2. ptr_pending asset = None
    \<and> reclaimExpiredSessions (req_org r) (req_asset r) now1 db = Inr db1
    \<and> (\<forall>t\<in>set (sessions db1). \<not> (s_asset t = req_asset r \<and> s_state t = UploadSessionCreated))
    \<and> reserveQuota (req_org r) (req_size r) db1 = Inr db2
    \<and> insert_session s db2 = Inr db' \<and> s = new_session sha256 r opt ext now2"
  using assms
  by (auto simp: open_session_def hasPendingVersion_def Let_def split: if_splits sum.splits)

lemma create_session_work_InrD:
  assumes "create_session_work sha256 r opt ext now1 now2 db = Inr ((s, replayed), db')"
  obtains u asset db1 where
    "lockOrganizationUsageRow (req_org r) (opt_default_quota opt) db = Inr (u, db1)"
    "lockActiveAsset (req_org r) (req_asset r) db1 = Inr asset"
    "replayed" "find (same_operation r) (sessions db1) = Some s" "replay_session sha256 r s = Inr s" "db' = db1"
  | u asset db1 where
    "lockOrganizationUsageRow (req_org r) (opt_default_quota opt) db = Inr (u, db1)"
    "lockActiveAsset (req_org r) (req_asset r) db1 = Inr asset"
    "\<not> replayed" "find (same_operation r) (sessions db1) = None"
    "open_session sha256 r opt ext now1 now2 asset db1 = Inr (s, db')"
proof -
  obtain u db1 asset where l: "lockOrganizationUsageRow (req_org r) (opt_default_quota opt) db = Inr (u, db1)"
    "lockActiveAsset (req_org r) (req_asset r) db1 = Inr asset"
    using assms(1) by (auto simp: create_session_work_def)
  show thesis
  proof (cases "find (same_operation r) (sessions db1)")
    case None
    then have "\<not> replayed" "open_session sha256 r opt ext now1 now2 asset db1 = Inr (s, db')"
      using assms(1) l by (auto simp: create_session_work_def)
    with l None that(2) show thesis by blast
  next
    case (Some e)
    then have e: "replayed" "db' = db1" "replay_session sha256 r e = Inr s"
      using assms(1) l by (auto simp: create_session_work_def)
    then have "e = s" by (auto simp: replay_session_def split: if_splits)
    with l Some e that(1) show thesis by blast
  qed
qed

lemma transition_work_InrD:
  assumes "transition_work scope target now db = Inr (x, db')"
  shows "db' = db \<or> (\<exists>s db1. s \<in> set (sessions db) \<and> s_state s = UploadSessionCreated
    \<and> releaseReservation (s_org s) (s_size s) db = Inr db1
    \<and> db' = db1\<lparr>sessions := sql_update (open_with_id (s_id s)) (close_session target now) (sessions db1)\<rparr>)"
proof -
  have st: "s_state s = UploadSessionCreated"
    if "s_state s \<notin> {UploadSessionCancelled, UploadSessionExpired, UploadSessionFailed}"
      "s_state s \<noteq> UploadSessionCommitted" for s
    using that by (cases "s_state s") auto
  show ?thesis using assms st
    by (auto simp: transition_work_def split: if_splits dest!: lockUploadSessionRow_InrD)
qed

lemma commit_rows_InrD:
  assumes "commit_rows cd s attributes ids tp now db = Inr db'"
  shows "\<exists>db1 db2 db3 db4 doc.
      insert_version (new_version_row s attributes (new_version ids) now) db = Inr db1
    \<and> insert_job (new_job_row s (new_version ids) (new_job ids) now) db1 = Inr db2
    \<and> setPendingMediaVersion (s_org s) (s_asset s) (new_version ids) db2 = Inr db3
    \<and> convertReservationToStored (s_org s) (s_size s) (attr_size attributes) db3 = Inr db4
    \<and> insert_outbox (pending_outbox (new_outbox ids) (new_job ids) doc now now)
        (db4\<lparr>sessions := sql_update (open_with_id (s_id s))
             (\<lambda>r. r\<lparr>s_state := UploadSessionCommitted, s_committed_at := Some now\<rparr>) (sessions db4)\<rparr>) = Inr db'"
  using assms
  by (auto simp: commit_rows_def Let_def insertOutboxJSON_def pending_outbox_def split: if_splits)

lemma commit_work_InrD:
  assumes "commit_work cd r attributes ids tp now1 now2 db = Inr ((acc, replayed), db')"
  obtains s where "replayed" "db' = db" "s \<in> set (sessions db)" "session_in_scope (commit_scope r) s"
      "s_state s = UploadSessionCommitted" "commit_replay s db = Inr acc"
  | s where "\<not> replayed" "s \<in> set (sessions db)" "session_in_scope (commit_scope r) s"
      "s_state s = UploadSessionCreated" "now1 < s_session_expires s"
      "verifyStoredObject s attributes = Inr ()" "commit_rows cd s attributes ids tp now2 db = Inr db'"
      "acc = \<lparr>acc_version = new_version ids, acc_job = new_job ids,
              acc_status = ProcessingJobQueued, acc_at = now2\<rparr>"
  using assms
  by (auto simp: commit_work_def sessionIsCommittable_def split: if_splits
      dest!: lockUploadSessionRow_InrD)

lemma verifyStoredObject_Inr:
  "verifyStoredObject s attributes = Inr () \<longleftrightarrow>
     attr_size attributes = s_size s \<and> attr_content_type attributes = s_content_type s
     \<and> length (attr_checksum attributes) = ChecksumByteLength \<and> attr_checksum attributes = s_checksum s"
  by (auto simp: verifyStoredObject_def)

lemma reserveQuota_InrD:
  "reserveQuota og bytes db = Inr db' \<Longrightarrow>
     db' = db\<lparr>usage := sql_update (\<lambda>u. us_org u = og \<and> us_reserved u + us_stored u + bytes \<le> us_quota u)
                     (\<lambda>u. u\<lparr>us_reserved := us_reserved u + bytes\<rparr>) (usage db)\<rparr>
     \<and> (\<exists>u\<in>set (usage db). us_org u = og \<and> us_reserved u + us_stored u + bytes \<le> us_quota u)"
  by (auto simp: reserveQuota_def Let_def split: if_splits dest!: update_usage_InrD)

lemma setPendingMediaVersion_InrD:
  "setPendingMediaVersion og asset version db = Inr db' \<Longrightarrow>
     \<exists>c. db' = db\<lparr>assets := sql_update c (\<lambda>a. a\<lparr>a_pending := Some version\<rparr>) (assets db)\<rparr>
      \<and> (\<forall>a. c a \<longrightarrow> a_id a = asset \<and> a_pending a = None) \<and> (\<exists>a\<in>set (assets db). c a)"
  by (auto simp: setPendingMediaVersion_def Let_def split: if_splits dest!: update_assets_InrD)

section \<open>The tables stay well formed\<close>

lemma tables_ok_reclaim:
  "tables_ok db \<Longrightarrow> reclaimExpiredSessions og asset now db = Inr db' \<Longrightarrow> tables_ok db'"
  by (auto simp: reclaimExpiredSessions_def Let_def releaseReservation_def session_check_def
      split: if_splits dest!: update_usage_InrD intro!: tables_ok_update_sessions)

lemma tables_ok_create:
  assumes "tables_ok db" and "create_session_work sha256 r opt ext now1 now2 db = Inr ((s, replayed), db')"
  shows "tables_ok db'"
  using assms(2)
proof (cases rule: create_session_work_InrD)
  case (1 u asset db1)
  then show ?thesis using assms(1) by (auto dest!: lockOrganizationUsageRow_InrD)
next
  case (2 u asset db1)
  then have "tables_ok db1" using assms(1) by (auto dest!: lockOrganizationUsageRow_InrD)
  obtain db2 db3 where o: "reclaimExpiredSessions (req_org r) (req_asset r) now1 db1 = Inr db2"
    "reserveQuota (req_org r) (req_size r) db2 = Inr db3" "insert_session s db3 = Inr db'"
    using open_session_InrD [OF 2(5)] by blast
  then have "tables_ok db2" using tables_ok_reclaim [OF \<open>tables_ok db1\<close>] by blast
  then have "tables_ok db3" using reserveQuota_InrD [OF o(2)] by auto
  then show ?thesis using o(3) by (rule tables_ok_insert(1))
qed

lemma tables_ok_refresh:
  "tables_ok db \<Longrightarrow> refresh_work scope c now db = Inr (s, db') \<Longrightarrow> tables_ok db'"
  by (auto simp: refresh_work_def session_check_def split: if_splits intro!: tables_ok_update_sessions)

lemma tables_ok_transition:
  assumes "tables_ok db" "transition_work scope target now db = Inr (x, db')"
    and "target = UploadSessionCancelled \<or> target = UploadSessionExpired"
  shows "tables_ok db'"
  using transition_work_InrD [OF assms(2)] assms(1,3)
  by (auto simp: releaseReservation_def close_session_def session_check_def
      dest!: update_usage_InrD intro!: tables_ok_update_sessions)

lemma tables_ok_commit_rows:
  assumes "tables_ok db" "commit_rows cd s attributes ids tp now db = Inr db'"
  shows "tables_ok db'"
proof -
  obtain db1 db2 db3 db4 doc where
    i: "insert_version (new_version_row s attributes (new_version ids) now) db = Inr db1"
       "insert_job (new_job_row s (new_version ids) (new_job ids) now) db1 = Inr db2"
    and p: "setPendingMediaVersion (s_org s) (s_asset s) (new_version ids) db2 = Inr db3"
    and c: "convertReservationToStored (s_org s) (s_size s) (attr_size attributes) db3 = Inr db4"
    and o: "insert_outbox (pending_outbox (new_outbox ids) (new_job ids) doc now now)
        (db4\<lparr>sessions := sql_update (open_with_id (s_id s))
             (\<lambda>r. r\<lparr>s_state := UploadSessionCommitted, s_committed_at := Some now\<rparr>) (sessions db4)\<rparr>) = Inr db'"
    using commit_rows_InrD [OF assms(2)] by blast
  have "tables_ok db2" using assms(1) i by (blast intro: tables_ok_insert)
  then have "tables_ok db3" using setPendingMediaVersion_InrD [OF p] by (auto intro: tables_ok_update_assets)
  then have "tables_ok db4"
    using c by (auto simp: convertReservationToStored_def dest!: update_usage_InrD)
  then have "tables_ok (db4\<lparr>sessions := sql_update (open_with_id (s_id s))
             (\<lambda>r. r\<lparr>s_state := UploadSessionCommitted, s_committed_at := Some now\<rparr>) (sessions db4)\<rparr>)"
    by (intro tables_ok_update_sessions) (auto simp: session_check_def)
  then show ?thesis using o by (rule tables_ok_insert(5))
qed

section \<open>The ledger stays balanced\<close>

lemma ledger_nonneg: "tables_ok db \<Longrightarrow> 0 \<le> reserved_total og db"
  unfolding reserved_total_def
  by (intro sql_sum_nonneg) (auto dest: tables_ok_checks(1) intro: reserved_weight_nonneg)

lemma ledger_new_org:
  assumes "ledger_ok db" and "\<forall>r\<in>set (usage db). us_org r \<noteq> og" and "0 < quota"
  shows "ledger_ok (db\<lparr>usage := usage db @ [new_usage_row og quota]\<rparr>)"
proof -
  have "reserved_total og db = 0" "stored_total og db = 0"
    using assms(1,2) unfolding reserved_total_def stored_total_def ledger_ok_def
    by (auto intro!: sql_sum_0 simp: reserved_weight_def stored_weight_def)
  then show ?thesis using assms
    by (auto simp: ledger_ok_def new_usage_row_def usage_check_def reserved_total_def stored_total_def)
qed

lemma ledger_lock_usage:
  "ledger_ok db \<Longrightarrow> lockOrganizationUsageRow og quota db = Inr (u, db') \<Longrightarrow> ledger_ok db'"
  using ledger_new_org by (auto dest!: lockOrganizationUsageRow_InrD)

lemma reclaim_weight:
  "sql_sum (reserved_weight og') (sql_update (reclaimable og asset now)
       (\<lambda>s. s\<lparr>s_state := UploadSessionExpired, s_expired_at := Some now\<rparr>) rs)
   = sql_sum (reserved_weight og') rs
     - (if og' = og then sql_sum s_size (filter (reclaimable og asset now) rs) else 0)"
  by (induction rs) (auto simp: reserved_weight_def reclaimable_def)

text \<open>The release of bytes that were reserved never meets the floor at zero.\<close>

lemma ledger_release:
  assumes "ledger_ok db" and "tables_ok db'" and "0 \<le> bytes"
    and "releaseReservation og bytes (db\<lparr>sessions := ss\<rparr>) = Inr db'"
    and "\<And>og'. sql_sum (reserved_weight og') ss = reserved_total og' db - (if og' = og then bytes else 0)"
    and "s_org ` set ss \<subseteq> s_org ` set (sessions db)"
  shows "ledger_ok db'"
proof (rule ledger_step [OF assms(1)])
  have db': "db' = db\<lparr>sessions := ss, usage := sql_update (\<lambda>u. us_org u = og)
      (\<lambda>u. u\<lparr>us_reserved := max (us_reserved u - bytes) 0\<rparr>) (usage db)\<rparr>"
    and ck: "\<And>u. u \<in> set (usage db) \<Longrightarrow> us_org u = og
        \<Longrightarrow> usage_check (u\<lparr>us_reserved := max (us_reserved u - bytes) 0\<rparr>)"
    using assms(4) by (auto simp: releaseReservation_def dest!: update_usage_InrD)
  have tot: "reserved_total og' db' = reserved_total og' db - (if og' = og then bytes else 0)"
    "stored_total og' db' = stored_total og' db" for og'
    using assms(5) by (simp_all add: db' reserved_total_def stored_total_def)
  have nn: "0 \<le> reserved_total og db - bytes"
    using ledger_nonneg [OF assms(2), of og] tot(1) [of og] by simp
  show "usage db' = sql_update (\<lambda>u. us_org u = og)
      (\<lambda>u. u\<lparr>us_reserved := max (us_reserved u - bytes) 0\<rparr>) (usage db)" by (simp add: db')
  show "us_org (u\<lparr>us_reserved := max (us_reserved u - bytes) 0\<rparr>) = us_org u" for u by simp
  show "usage_check (u\<lparr>us_reserved := max (us_reserved u - bytes) 0\<rparr>)" if "u \<in> set (usage db)" "us_org u = og" for u
    using ck that by blast
  show "us_reserved (u\<lparr>us_reserved := max (us_reserved u - bytes) 0\<rparr>) = reserved_total (us_org u) db'
    \<and> us_stored (u\<lparr>us_reserved := max (us_reserved u - bytes) 0\<rparr>) = stored_total (us_org u) db'"
    if "u \<in> set (usage db)" "us_org u = og" for u
    using assms(1) that nn tot by (auto simp: ledger_ok_def)
  show "reserved_total (us_org u) db' = reserved_total (us_org u) db
    \<and> stored_total (us_org u) db' = stored_total (us_org u) db" if "\<not> us_org u = og" for u
    using that tot by simp
  show "s_org ` set (sessions db') \<subseteq> us_org ` set (usage db)" "v_org ` set (versions db') \<subseteq> us_org ` set (usage db)"
    using assms(1,6) by (auto simp: db' ledger_ok_def)
qed

lemma orgs_sql_update: "(\<And>s. k (f s) = k s) \<Longrightarrow> k ` set (sql_update c f rs) = k ` set rs"
  by (metis list.set_map map_key_sql_update)

lemma ledger_reclaim:
  assumes "ledger_ok db" "tables_ok db" "reclaimExpiredSessions og asset now db = Inr db'"
  shows "ledger_ok db'"
proof -
  let ?ss = "sql_update (reclaimable og asset now)
     (\<lambda>s. s\<lparr>s_state := UploadSessionExpired, s_expired_at := Some now\<rparr>) (sessions db)"
  let ?total = "sql_sum s_size (filter (reclaimable og asset now) (sessions db))"
  have w: "sql_sum (reserved_weight og') ?ss = reserved_total og' db - (if og' = og then ?total else 0)" for og'
    by (simp add: reserved_total_def reclaim_weight)
  have orgs: "s_org ` set ?ss = s_org ` set (sessions db)" by (rule orgs_sql_update) simp
  show ?thesis
  proof (cases "?total = 0")
    case True
    then have db': "db' = db\<lparr>sessions := ?ss\<rparr>" using assms(3) by (simp add: reclaimExpiredSessions_def Let_def)
    have "reserved_total og' db' = reserved_total og' db" "stored_total og' db' = stored_total og' db" for og'
      using w [of og'] True by (simp_all add: db' reserved_total_def stored_total_def)
    moreover have "\<forall>s\<in>set (sessions db'). s_org s \<in> us_org ` set (usage db)"
      using assms(1) orgs by (auto simp: db' ledger_ok_def)
    ultimately show ?thesis using assms(1) by (simp add: ledger_ok_def db')
  next
    case False
    then have r: "releaseReservation og ?total (db\<lparr>sessions := ?ss\<rparr>) = Inr db'"
      using assms(3) by (simp add: reclaimExpiredSessions_def Let_def)
    have "0 \<le> ?total"
      using tables_ok_checks(1) [OF assms(2)] by (intro sql_sum_nonneg) (fastforce simp: session_check_def)
    from ledger_release [OF assms(1) tables_ok_reclaim [OF assms(2,3)] this r w] orgs show ?thesis by simp
  qed
qed

lemma close_one_weight:
  assumes "tables_ok db" and "s \<in> set (sessions db)" and "s_state s = UploadSessionCreated"
    and "s_state (f s) \<noteq> UploadSessionCreated"
  shows "sql_sum (reserved_weight og) (sql_update (open_with_id (s_id s)) f (sessions db))
    = reserved_total og db - (if og = s_org s then s_size s else 0)"
  using sql_sum_update_one [OF tables_ok_distinct(1) [OF assms(1)] assms(2),
      of "open_with_id (s_id s)" "reserved_weight og" f] assms(3,4)
  by (simp add: open_with_id_def reserved_total_def reserved_weight_def)

lemma ledger_transition:
  assumes "ledger_ok db" "tables_ok db" "transition_work scope target now db = Inr (x, db')"
    and "target = UploadSessionCancelled \<or> target = UploadSessionExpired"
  shows "ledger_ok db'"
  using transition_work_InrD [OF assms(3)]
proof
  assume "\<exists>s db1. s \<in> set (sessions db) \<and> s_state s = UploadSessionCreated
    \<and> releaseReservation (s_org s) (s_size s) db = Inr db1
    \<and> db' = db1\<lparr>sessions := sql_update (open_with_id (s_id s)) (close_session target now) (sessions db1)\<rparr>"
  then obtain s db1 where s: "s \<in> set (sessions db)" "s_state s = UploadSessionCreated"
    and rel: "releaseReservation (s_org s) (s_size s) db = Inr db1"
    and db': "db' = db1\<lparr>sessions := sql_update (open_with_id (s_id s)) (close_session target now) (sessions db1)\<rparr>"
    by blast
  let ?ss = "sql_update (open_with_id (s_id s)) (close_session target now) (sessions db)"
  have st: "s_state (close_session target now s) \<noteq> UploadSessionCreated"
    using assms(4) by (auto simp: close_session_def)
  have "releaseReservation (s_org s) (s_size s) (db\<lparr>sessions := ?ss\<rparr>) = Inr db'"
    using rel by (auto simp: db' releaseReservation_def update_usage_def split: if_splits)
  moreover have "0 \<le> s_size s" using tables_ok_checks(1) [OF assms(2) s(1)] by (simp add: session_check_def)
  moreover have "s_org ` set ?ss = s_org ` set (sessions db)"
    by (rule orgs_sql_update) (simp add: close_session_def)
  ultimately show ?thesis
    using ledger_release [OF assms(1) tables_ok_transition [OF assms(2-4)], of "s_size s" "s_org s" ?ss]
      close_one_weight [OF assms(2) s, where f = "close_session target now"] st
    by simp
qed (use assms(1) in simp)

lemma ledger_open:
  assumes "ledger_ok db" "reserveQuota (s_org s) (s_size s) db = Inr db1" "insert_session s db1 = Inr db'"
    and "s_state s = UploadSessionCreated"
  shows "ledger_ok db'"
proof (rule ledger_step [OF assms(1)])
  let ?c = "\<lambda>u. us_org u = s_org s \<and> us_reserved u + us_stored u + s_size s \<le> us_quota u"
  let ?f = "\<lambda>u. u\<lparr>us_reserved := us_reserved u + s_size s\<rparr>"
  have db1: "db1 = db\<lparr>usage := sql_update ?c ?f (usage db)\<rparr>" and ex: "\<exists>u\<in>set (usage db). ?c u"
    using reserveQuota_InrD [OF assms(2)] by auto
  have db': "db' = db1\<lparr>sessions := sessions db1 @ [s]\<rparr>" and ck: "session_check s"
    using insert_session_InrD [OF assms(3)] by auto
  have tot: "reserved_total og db' = reserved_total og db + (if og = s_org s then s_size s else 0)"
    "stored_total og db' = stored_total og db" for og
    using assms(4) by (auto simp: db' db1 reserved_total_def stored_total_def reserved_weight_def)
  show "usage db' = sql_update ?c ?f (usage db)" by (simp add: db' db1)
  show "us_org (?f u) = us_org u" for u by simp
  show "usage_check (?f u)" if "u \<in> set (usage db)" "?c u" for u
    using assms(1) that ck by (auto simp: ledger_ok_def usage_check_def session_check_def)
  show "us_reserved (?f u) = reserved_total (us_org u) db' \<and> us_stored (?f u) = stored_total (us_org u) db'"
    if "u \<in> set (usage db)" "?c u" for u
    using assms(1) that tot by (auto simp: ledger_ok_def)
  show "reserved_total (us_org u) db' = reserved_total (us_org u) db
    \<and> stored_total (us_org u) db' = stored_total (us_org u) db" if "u \<in> set (usage db)" "\<not> ?c u" for u
  proof -
    have "us_org u \<noteq> s_org s"
      using ex that assms(1) by (auto simp: ledger_ok_def dest: distinct_map_eq)
    then show ?thesis using tot by simp
  qed
  show "s_org ` set (sessions db') \<subseteq> us_org ` set (usage db)" "v_org ` set (versions db') \<subseteq> us_org ` set (usage db)"
    using assms(1) ex by (auto simp: db' db1 ledger_ok_def) (metis image_eqI)
qed

lemma ledger_create:
  assumes "ledger_ok db" "tables_ok db"
    and "create_session_work sha256 r opt ext now1 now2 db = Inr ((s, replayed), db')"
  shows "ledger_ok db'"
  using assms(3)
proof (cases rule: create_session_work_InrD)
  case (1 u asset db1)
  then show ?thesis using ledger_lock_usage [OF assms(1)] by blast
next
  case (2 u asset db1)
  have ok1: "ledger_ok db1" "tables_ok db1"
    using ledger_lock_usage [OF assms(1) 2(1)] lockOrganizationUsageRow_InrD [OF 2(1)] assms(2) by auto
  obtain db2 db3 where o: "reclaimExpiredSessions (req_org r) (req_asset r) now1 db1 = Inr db2"
    "reserveQuota (req_org r) (req_size r) db2 = Inr db3" "insert_session s db3 = Inr db'"
    and s: "s = new_session sha256 r opt ext now2"
    using open_session_InrD [OF 2(5)] by blast
  have "s_org s = req_org r" "s_size s = req_size r" "s_state s = UploadSessionCreated"
    by (simp_all add: s new_session_def)
  with ledger_open [OF ledger_reclaim [OF ok1 o(1)], of s db3 db'] o(2,3) show ?thesis by simp
qed

lemma ledger_commit_rows:
  assumes "ledger_ok db" "tables_ok db" and "s \<in> set (sessions db)" "s_state s = UploadSessionCreated"
    and "verifyStoredObject s attributes = Inr ()" "commit_rows cd s attributes ids tp now db = Inr db'"
  shows "ledger_ok db'"
proof -
  let ?n = "attr_size attributes"
  have n: "?n = s_size s" using assms(5) by (simp add: verifyStoredObject_Inr)
  let ?close = "\<lambda>r. r\<lparr>s_state := UploadSessionCommitted, s_committed_at := Some now\<rparr>"
  let ?ss = "sql_update (open_with_id (s_id s)) ?close (sessions db)"
  let ?f = "\<lambda>u. u\<lparr>us_reserved := max (us_reserved u - s_size s) 0, us_stored := us_stored u + ?n\<rparr>"
  obtain db1 db2 db3 db4 doc where
    i: "insert_version (new_version_row s attributes (new_version ids) now) db = Inr db1"
       "insert_job (new_job_row s (new_version ids) (new_job ids) now) db1 = Inr db2"
    and p: "setPendingMediaVersion (s_org s) (s_asset s) (new_version ids) db2 = Inr db3"
    and c: "convertReservationToStored (s_org s) (s_size s) ?n db3 = Inr db4"
    and o: "insert_outbox (pending_outbox (new_outbox ids) (new_job ids) doc now now)
        (db4\<lparr>sessions := sql_update (open_with_id (s_id s)) ?close (sessions db4)\<rparr>) = Inr db'"
    using commit_rows_InrD [OF assms(6)] by blast
  have v: "versions db' = versions db @ [new_version_row s attributes (new_version ids) now]"
    and ss: "sessions db' = ?ss"
    and us: "usage db' = sql_update (\<lambda>u. us_org u = s_org s) ?f (usage db)"
    and ck: "\<And>u. u \<in> set (usage db) \<Longrightarrow> us_org u = s_org s \<Longrightarrow> usage_check (?f u)"
    using insert_version_InrD [OF i(1)] insert_job_InrD [OF i(2)] setPendingMediaVersion_InrD [OF p]
      c insert_outbox_InrD [OF o]
    by (auto simp: convertReservationToStored_def dest!: update_usage_InrD)
  have w: "sql_sum (reserved_weight og) ?ss = reserved_total og db - (if og = s_org s then s_size s else 0)" for og
    by (rule close_one_weight [OF assms(2-4)]) simp
  have tot: "reserved_total og db' = reserved_total og db - (if og = s_org s then s_size s else 0)"
    "stored_total og db' = stored_total og db + (if og = s_org s then s_size s else 0)" for og
    using w [of og] by (simp_all add: reserved_total_def stored_total_def ss v stored_weight_def new_version_row_def n)
  have nn: "0 \<le> reserved_total (s_org s) db - s_size s"
    using ledger_nonneg [OF tables_ok_commit_rows [OF assms(2,6)], of "s_org s"] tot(1) [of "s_org s"] by simp
  show ?thesis
  proof (rule ledger_step [OF assms(1) us])
    show "us_reserved (?f u) = reserved_total (us_org u) db' \<and> us_stored (?f u) = stored_total (us_org u) db'"
      if "u \<in> set (usage db)" "us_org u = s_org s" for u
      using assms(1) that nn tot by (auto simp: ledger_ok_def n)
    have "s_org ` set ?ss = s_org ` set (sessions db)" by (rule orgs_sql_update) simp
    then show "s_org ` set (sessions db') \<subseteq> us_org ` set (usage db)"
      using assms(1) by (auto simp: ss ledger_ok_def)
    show "v_org ` set (versions db') \<subseteq> us_org ` set (usage db)"
      using assms(1,3) by (auto simp: v ledger_ok_def new_version_row_def)
  qed (use ck tot in auto)
qed

section \<open>Replays\<close>

lemma find_unique:
  assumes "distinct (map k rs)" "r \<in> set rs" "P r" "\<And>x. x \<in> set rs \<Longrightarrow> P x \<Longrightarrow> k x = k r"
  shows "find P rs = Some r"
proof (cases "find P rs")
  case None
  then show ?thesis using assms(2,3) by (auto dest: find_NoneD)
next
  case (Some x)
  with assms show ?thesis by (auto dest!: find_SomeD intro: distinct_map_eq)
qed

lemma sql_exists_key: "sql_exists (\<lambda>r. k r = v) rs \<longleftrightarrow> v \<in> k ` set rs"
  by (auto simp: sql_exists_iff)

lemma find_ex: "r \<in> set rs \<Longrightarrow> P r \<Longrightarrow> \<exists>x. find P rs = Some x"
  by (induction rs) auto

lemma find_snoc: "find P rs = None \<Longrightarrow> find P (rs @ [r]) = (if P r then Some r else None)"
  by (induction rs) (auto split: if_splits)

lemma lockActiveAsset_ok:
  "a \<in> set (assets db) \<Longrightarrow> a_id a = asset \<Longrightarrow> a_deleted_at a = None \<Longrightarrow> in_active_folder og a db
   \<Longrightarrow> \<exists>p. lockActiveAsset og asset db = Inr p"
  using find_ex [of a "assets db" "\<lambda>a. a_id a = asset \<and> a_deleted_at a = None \<and> in_active_folder og a db"]
  by (auto simp: lockActiveAsset_def)

lemma lockActiveAsset_cong:
  "assets db' = assets db \<Longrightarrow> folders db' = folders db \<Longrightarrow> lockActiveAsset og asset db' = lockActiveAsset og asset db"
  by (simp add: lockActiveAsset_def in_active_folder_def)

lemma lock_existing_usage:
  "u \<in> set (usage db) \<Longrightarrow> us_org u = og \<Longrightarrow> 0 < quota \<Longrightarrow>
     \<exists>w. lockOrganizationUsageRow og quota db = Inr (w, db)"
  by (auto simp: lockOrganizationUsageRow_def Let_def usage_check_def new_usage_row_def sql_exists_iff
      from_option_def split: option.splits dest: find_NoneD)

lemma reclaim_frame:
  assumes "reclaimExpiredSessions og asset now db = Inr db'"
  shows "assets db' = assets db" "folders db' = folders db" "map us_org (usage db') = map us_org (usage db)"
    "sessions db' = sql_update (reclaimable og asset now)
       (\<lambda>s. s\<lparr>s_state := UploadSessionExpired, s_expired_at := Some now\<rparr>) (sessions db)"
  using assms
  by (auto simp: reclaimExpiredSessions_def Let_def releaseReservation_def split: if_splits
      dest!: update_usage_InrD)

text \<open>C28: Opening a session is idempotent: after a request opened a session, repeating the request, with
  whatever new identifier, object key, expiry and clock, returns that same session marked as
  replayed and changes nothing, so a client retry never opens a second session or reserves quota
  twice.
\<close>
theorem create_session_idempotent:
  assumes "CreateUploadSession sha256 r opt now1 now2 db = (Inr (s, False), db')"
    and "0 < opt_default_quota opt'"
  shows "CreateUploadSession sha256 r opt' now3 now4 db' = (Inr (s, True), db')"
proof -
  obtain ext where ext: "FileExtension (req_content_type r) = Some ext"
    and w: "create_session_work sha256 r opt ext now1 now2 db = Inr ((s, False), db')"
    using assms(1) by (auto simp: CreateUploadSession_def split: option.splits if_splits dest: transaction_Inr)
  obtain u asset db1 where
    l: "lockOrganizationUsageRow (req_org r) (opt_default_quota opt) db = Inr (u, db1)"
    and a: "lockActiveAsset (req_org r) (req_asset r) db1 = Inr asset"
    and f: "find (same_operation r) (sessions db1) = None"
    and o: "open_session sha256 r opt ext now1 now2 asset db1 = Inr (s, db')"
    using w by (cases rule: create_session_work_InrD) auto
  obtain db2 db3 where o1: "reclaimExpiredSessions (req_org r) (req_asset r) now1 db1 = Inr db2"
    and o2: "reserveQuota (req_org r) (req_size r) db2 = Inr db3" and o3: "insert_session s db3 = Inr db'"
    and s: "s = new_session sha256 r opt ext now2"
    using open_session_InrD [OF o] by blast
  note fr = reclaim_frame [OF o1] and rq = reserveQuota_InrD [OF o2] and ins = insert_session_InrD [OF o3]
  have ss: "sessions db' = sessions db2 @ [s]" using rq ins by simp
  have none: "find (same_operation r) (sessions db2) = None"
    using find_NoneD [OF f] by (auto simp: find_None_iff fr(4) same_operation_def)
  have fs: "find (same_operation r) (sessions db') = Some s"
    using none by (simp add: ss find_snoc s same_operation_def new_session_def)
  have "map us_org (usage db') = map us_org (usage db1)" using fr(3) rq ins by simp
  then have "us_org ` set (usage db') = us_org ` set (usage db1)" by (metis list.set_map)
  then have "req_org r \<in> us_org ` set (usage db')" using lockOrganizationUsageRow_InrD [OF l] by force
  then obtain w where lk: "lockOrganizationUsageRow (req_org r) (opt_default_quota opt') db' = Inr (w, db')"
    using lock_existing_usage [OF _ _ assms(2)] by force
  have "assets db' = assets db1" "folders db' = folders db1" using fr rq ins by auto
  then have "lockActiveAsset (req_org r) (req_asset r) db' = Inr asset" using a lockActiveAsset_cong by metis
  moreover have "replay_session sha256 r s = Inr s"
    by (simp add: replay_session_def s new_session_def IsPublished_def)
  ultimately show ?thesis
    using assms(2) by (simp add: CreateUploadSession_def ext transaction_def create_session_work_def lk fs)
qed

lemma commit_frame:
  assumes "commit_rows cd s attributes ids tp now db = Inr db'"
  shows "folders db' = folders db" "map us_org (usage db') = map us_org (usage db)"
    "sessions db' = sql_update (open_with_id (s_id s))
       (\<lambda>r. r\<lparr>s_state := UploadSessionCommitted, s_committed_at := Some now\<rparr>) (sessions db)"
    "versions db' = versions db @ [new_version_row s attributes (new_version ids) now]"
    "jobs db' = jobs db @ [new_job_row s (new_version ids) (new_job ids) now]"
    "\<exists>c. assets db' = sql_update c (\<lambda>a. a\<lparr>a_pending := Some (new_version ids)\<rparr>) (assets db)
       \<and> (\<forall>a. c a \<longrightarrow> a_id a = s_asset s \<and> a_pending a = None) \<and> (\<exists>a\<in>set (assets db). c a)"
    "\<exists>doc. outbox db' = outbox db @ [pending_outbox (new_outbox ids) (new_job ids) doc now now]"
    "outputs db' = outputs db"
proof -
  let ?close = "\<lambda>r. r\<lparr>s_state := UploadSessionCommitted, s_committed_at := Some now\<rparr>"
  obtain db1 db2 db3 db4 doc where
    i: "insert_version (new_version_row s attributes (new_version ids) now) db = Inr db1"
       "insert_job (new_job_row s (new_version ids) (new_job ids) now) db1 = Inr db2"
    and p: "setPendingMediaVersion (s_org s) (s_asset s) (new_version ids) db2 = Inr db3"
    and c: "convertReservationToStored (s_org s) (s_size s) (attr_size attributes) db3 = Inr db4"
    and o: "insert_outbox (pending_outbox (new_outbox ids) (new_job ids) doc now now)
        (db4\<lparr>sessions := sql_update (open_with_id (s_id s)) ?close (sessions db4)\<rparr>) = Inr db'"
    using commit_rows_InrD [OF assms] by blast
  note e = insert_version_InrD [OF i(1)] insert_job_InrD [OF i(2)] insert_outbox_InrD [OF o]
  obtain g where g: "db3 = db2\<lparr>assets := sql_update g (\<lambda>a. a\<lparr>a_pending := Some (new_version ids)\<rparr>) (assets db2)\<rparr>"
    "\<forall>a. g a \<longrightarrow> a_id a = s_asset s \<and> a_pending a = None" "\<exists>a\<in>set (assets db2). g a"
    using setPendingMediaVersion_InrD [OF p] by blast
  have u: "db4 = db3\<lparr>usage := sql_update (\<lambda>u. us_org u = s_org s)
      (\<lambda>u. u\<lparr>us_reserved := max (us_reserved u - s_size s) 0, us_stored := us_stored u + attr_size attributes\<rparr>)
      (usage db3)\<rparr>"
    using c by (auto simp: convertReservationToStored_def dest!: update_usage_InrD)
  show "folders db' = folders db" "map us_org (usage db') = map us_org (usage db)"
    "sessions db' = sql_update (open_with_id (s_id s)) ?close (sessions db)"
    "versions db' = versions db @ [new_version_row s attributes (new_version ids) now]"
    "jobs db' = jobs db @ [new_job_row s (new_version ids) (new_job ids) now]"
    "outputs db' = outputs db"
    using e g(1) u by simp_all
  show "\<exists>c. assets db' = sql_update c (\<lambda>a. a\<lparr>a_pending := Some (new_version ids)\<rparr>) (assets db)
       \<and> (\<forall>a. c a \<longrightarrow> a_id a = s_asset s \<and> a_pending a = None) \<and> (\<exists>a\<in>set (assets db). c a)"
    using e g u by (intro exI [of _ g]) simp
  show "\<exists>doc. outbox db' = outbox db @ [pending_outbox (new_outbox ids) (new_job ids) doc now now]"
    using e g(1) u by (intro exI [of _ doc]) simp
qed

lemma lockUploadSessionRow_eq:
  assumes "distinct (map s_id (sessions db))" "s \<in> set (sessions db)" "session_in_scope scope s"
  shows "lockUploadSessionRow scope db = Inr s"
  unfolding lockUploadSessionRow_def
  using find_unique [OF assms(1,2), of "session_in_scope scope"] assms(3)
  by (simp add: session_in_scope_def)

lemma commit_transaction_InrD:
  assumes "commit_transaction cd r attributes ids tp now1 now2 db = (Inr (acc, False), db')"
  obtains s where "s \<in> set (sessions db)" "session_in_scope (commit_scope r) s"
      "s_state s = UploadSessionCreated" "now1 < s_session_expires s"
      "verifyStoredObject s attributes = Inr ()" "commit_rows cd s attributes ids tp now2 db = Inr db'"
      "acc = \<lparr>acc_version = new_version ids, acc_job = new_job ids,
              acc_status = ProcessingJobQueued, acc_at = now2\<rparr>"
      "\<exists>p. lockActiveAsset (cr_org r) (cr_asset r) db = Inr p" "cr_org r \<in> us_org ` set (usage db)"
proof -
  have w: "commit_work cd r attributes ids tp now1 now2 db = Inr ((acc, False), db')"
    using transaction_Inr assms by (fastforce simp: commit_transaction_def)
  have "\<exists>p. lockActiveAsset (cr_org r) (cr_asset r) db = Inr p" "cr_org r \<in> us_org ` set (usage db)"
    using w by (auto simp: commit_work_def sql_exists_key)
  with w that show thesis by (cases rule: commit_work_InrD [OF w]) auto
qed

text \<open>C29: Committing is idempotent: after a commit accepted an upload, committing the same upload again,
  whatever object attributes, new identifiers and clocks the retry brings, returns the version and
  job of the first acceptance with its acceptance time, marked as replayed, and changes nothing.
\<close>
theorem commit_idempotent:
  assumes "tables_ok db"
    and "commit_transaction cd r attributes ids tp now1 now2 db = (Inr (acc, False), db')"
  shows "CommitUpload cd r attributes' ids' tp' t0 t1 t2 db' = (Inr (acc, True), db')"
proof -
  obtain s where s: "s \<in> set (sessions db)" "session_in_scope (commit_scope r) s"
      "s_state s = UploadSessionCreated"
    and cr: "commit_rows cd s attributes ids tp now2 db = Inr db'"
    and acc: "acc = \<lparr>acc_version = new_version ids, acc_job = new_job ids,
              acc_status = ProcessingJobQueued, acc_at = now2\<rparr>"
    and la: "\<exists>p. lockActiveAsset (cr_org r) (cr_asset r) db = Inr p"
    and us: "cr_org r \<in> us_org ` set (usage db)"
    using assms(2) by (elim commit_transaction_InrD)
  note fr = commit_frame [OF cr] and ok' = tables_ok_commit_rows [OF assms(1) cr]
  let ?s = "s\<lparr>s_state := UploadSessionCommitted, s_committed_at := Some now2\<rparr>"
  have "?s \<in> set (sessions db')"
    using sql_update_memI1 [OF s(1), of "open_with_id (s_id s)"] s(3) by (simp add: fr(3) open_with_id_def)
  then have lk: "lockUploadSessionRow (commit_scope r) db' = Inr ?s"
    using lockUploadSessionRow_eq [OF tables_ok_distinct(1) [OF ok']] s(2) by (simp add: session_in_scope_def)
  obtain p a where a: "a \<in> set (assets db)" "a_id a = cr_asset r" "a_deleted_at a = None"
      "in_active_folder (cr_org r) a db"
    using la lockActiveAsset_InrD by blast
  obtain c where "assets db' = sql_update c (\<lambda>a. a\<lparr>a_pending := Some (new_version ids)\<rparr>) (assets db)"
    using fr(6) by blast
  then have "(if c a then a\<lparr>a_pending := Some (new_version ids)\<rparr> else a) \<in> set (assets db')"
    using a(1) by (simp add: set_sql_update)
  then obtain p' where p': "lockActiveAsset (cr_org r) (cr_asset r) db' = Inr p'"
    using a lockActiveAsset_ok [where asset = "cr_asset r" and og = "cr_org r" and db = db']
    by (fastforce simp: in_active_folder_def fr(1) split: if_splits)
  have "us_org ` set (usage db') = us_org ` set (usage db)" using fr(2) by (metis list.set_map)
  then have ue: "sql_exists (\<lambda>u. us_org u = cr_org r) (usage db')" using us by (simp add: sql_exists_key)
  have fv: "find (\<lambda>v. v_upload v = s_id s) (versions db') = Some (new_version_row s attributes (new_version ids) now2)"
    by (rule find_distinct [OF tables_ok_distinct(3) [OF ok']]) (simp_all add: fr(4) new_version_row_def)
  have fj: "find (\<lambda>j. j_version j = new_version ids) (jobs db') = Some (new_job_row s (new_version ids) (new_job ids) now2)"
    by (rule find_distinct [OF tables_ok_distinct(5) [OF ok']]) (simp_all add: fr(5) new_job_row_def)
  have rep: "commit_replay ?s db' = Inr acc"
    using fv fj by (simp add: commit_replay_def acc new_version_row_def new_job_row_def)
  have pre: "commit_precheck r attributes' t0 db' = Inr ()"
    using p' lk by (simp add: commit_precheck_def GetUploadSession_def commit_scope_def)
  show ?thesis
    using ue p' lk rep by (simp add: CommitUpload_def pre commit_transaction_def transaction_def commit_work_def)
qed

text \<open>The invariant of the upload operations, one operation at a time.\<close>

definition balanced :: "db \<Rightarrow> bool" where
  "balanced db \<longleftrightarrow> tables_ok db \<and> ledger_ok db"

lemma balanced_CreateUploadSession:
  assumes "balanced db"
  shows "balanced (snd (CreateUploadSession sha256 r opt t1 t2 db))"
proof -
  have "balanced (snd (transaction (create_session_work sha256 r opt ext t1 t2) db))" for ext
  proof (rule transaction_inv [where I = balanced, OF assms])
    fix a db' assume "create_session_work sha256 r opt ext t1 t2 db = Inr (a, db')"
    then show "balanced db'"
      using tables_ok_create ledger_create assms by (cases a) (auto simp: balanced_def)
  qed
  with assms show ?thesis by (simp add: CreateUploadSession_def split: option.split)
qed

lemma balanced_RefreshUploadSession:
  assumes "balanced db"
  shows "balanced (snd (RefreshUploadSession scope ce t1 db))"
  unfolding RefreshUploadSession_def
proof (rule transaction_inv [where I = balanced, OF assms])
  fix a db' assume w: "refresh_work scope ce t1 db = Inr (a, db')"
  have ok: "tables_ok db" "ledger_ok db" using assms by (simp_all add: balanced_def)
  obtain c where "db' = db\<lparr>sessions := sql_update c (\<lambda>r. r\<lparr>s_credential_expires := ce\<rparr>) (sessions db)\<rparr>"
    using w by (auto simp: refresh_work_def split: if_splits)
  moreover have "reserved_total og db' = reserved_total og db" for og
    unfolding calculation reserved_total_def by (simp add: sql_sum_update_same reserved_weight_def)
  moreover have "s_org ` set (sessions db') = s_org ` set (sessions db)"
    unfolding calculation(1) by (simp add: orgs_sql_update)
  then have "s_org ` set (sessions db') \<subseteq> us_org ` set (usage db)"
    using ok(2) by (simp add: ledger_ok_def image_subset_iff)
  then have "\<forall>s\<in>set (sessions db'). s_org s \<in> us_org ` set (usage db)" by blast
  ultimately show "balanced db'" using ok tables_ok_refresh [OF ok(1) w]
    by (simp add: balanced_def ledger_ok_def stored_total_def)
qed

lemma balanced_transition:
  assumes "balanced db"
  shows "balanced (snd (transitionOpenUploadSession scope tg t1 db))"
proof (cases "tg = UploadSessionCancelled \<or> tg = UploadSessionExpired")
  case True
  have ok: "tables_ok db" "ledger_ok db" using assms by (simp_all add: balanced_def)
  have "balanced (snd (transaction (transition_work scope tg t1) db))"
    using tables_ok_transition [OF ok(1) _ True] ledger_transition [OF ok(2,1) _ True]
    by (intro transaction_inv [where I = balanced, OF assms]) (simp add: balanced_def)
  with assms show ?thesis by (simp add: transitionOpenUploadSession_def)
qed (use assms in \<open>simp add: transitionOpenUploadSession_def\<close>)

lemma balanced_commit_transaction:
  assumes "balanced db"
  shows "balanced (snd (commit_transaction cd cr attributes ids tp t1 t2 db))"
  unfolding commit_transaction_def
proof (rule transaction_inv [where I = balanced, OF assms])
  fix a db' assume w: "commit_work cd cr attributes ids tp t1 t2 db = Inr (a, db')"
  then obtain acc replayed where a: "a = (acc, replayed)" by (cases a)
  have ok: "tables_ok db" "ledger_ok db" using assms by (simp_all add: balanced_def)
  show "balanced db'"
    using w unfolding a
    by (cases rule: commit_work_InrD) (use ok tables_ok_commit_rows ledger_commit_rows balanced_def in blast)+
qed

lemmas balanced_operations =
  balanced_CreateUploadSession balanced_RefreshUploadSession balanced_transition balanced_commit_transaction

text \<open>C3: Quota accounting is exact under every upload operation: opening, refreshing, cancelling,
  expiring and committing keep each organization's reserved bytes equal to the total size of its open
  sessions and its stored bytes equal to the total size of its retained originals, with their sum
  within the quota, and they keep every unique index and check of the tables.
\<close>
theorem upload_operations_keep_ledger:
  assumes "tables_ok db" and "ledger_ok db"
  shows "(let db' = snd (CreateUploadSession sha256 r opt t1 t2 db) in tables_ok db' \<and> ledger_ok db')
    \<and> (let db' = snd (RefreshUploadSession scope ce t1 db) in tables_ok db' \<and> ledger_ok db')
    \<and> (let db' = snd (CancelUploadSession scope t1 db) in tables_ok db' \<and> ledger_ok db')
    \<and> (let db' = snd (ExpireUploadSession scope t1 db) in tables_ok db' \<and> ledger_ok db')
    \<and> (let db' = snd (commit_transaction cd cr attributes ids tp t1 t2 db) in tables_ok db' \<and> ledger_ok db')"
  using assms balanced_operations [of db]
  by (simp add: balanced_def CancelUploadSession_def ExpireUploadSession_def Let_def)

text \<open>C30: An accepted commit does exactly this: the session was open, unexpired and matched the stored
  object in size, type and checksum; it becomes committed; one pending version, one queued job and
  one pending event are added with the given identifiers; and the asset, which had no pending
  version, now points at the new one. Nothing else is written beside the ledger.
\<close>
theorem commit_effect:
  assumes "commit_transaction cd r attributes ids tp now1 now2 db = (Inr (acc, False), db')"
  shows "\<exists>s\<in>set (sessions db). session_in_scope (commit_scope r) s
      \<and> s_state s = UploadSessionCreated \<and> now1 < s_session_expires s
      \<and> attr_size attributes = s_size s \<and> attr_content_type attributes = s_content_type s
      \<and> attr_checksum attributes = s_checksum s
      \<and> sessions db' = sql_update (open_with_id (s_id s))
          (\<lambda>t. t\<lparr>s_state := UploadSessionCommitted, s_committed_at := Some now2\<rparr>) (sessions db)
      \<and> versions db' = versions db @ [new_version_row s attributes (new_version ids) now2]
      \<and> jobs db' = jobs db @ [new_job_row s (new_version ids) (new_job ids) now2]
      \<and> (\<exists>doc. outbox db' = outbox db @ [pending_outbox (new_outbox ids) (new_job ids) doc now2 now2])
      \<and> outputs db' = outputs db \<and> folders db' = folders db
      \<and> (\<exists>a\<in>set (assets db). a_id a = s_asset s \<and> a_pending a = None
           \<and> a\<lparr>a_pending := Some (new_version ids)\<rparr> \<in> set (assets db'))
      \<and> acc_version acc = new_version ids \<and> acc_job acc = new_job ids"
proof -
  obtain s where s: "s \<in> set (sessions db)" "session_in_scope (commit_scope r) s"
      "s_state s = UploadSessionCreated" "now1 < s_session_expires s"
      "verifyStoredObject s attributes = Inr ()"
    and cr: "commit_rows cd s attributes ids tp now2 db = Inr db'"
    and acc: "acc = \<lparr>acc_version = new_version ids, acc_job = new_job ids,
              acc_status = ProcessingJobQueued, acc_at = now2\<rparr>"
    using assms by (elim commit_transaction_InrD)
  note fr = commit_frame [OF cr]
  obtain c a where c: "assets db' = sql_update c (\<lambda>a. a\<lparr>a_pending := Some (new_version ids)\<rparr>) (assets db)"
    "\<forall>a. c a \<longrightarrow> a_id a = s_asset s \<and> a_pending a = None" "a \<in> set (assets db)" "c a"
    using fr(6) by blast
  then have "a_id a = s_asset s \<and> a_pending a = None \<and> a\<lparr>a_pending := Some (new_version ids)\<rparr> \<in> set (assets db')"
    by (auto intro: sql_update_memI1)
  then show ?thesis using s c(3) fr acc
    by (intro bexI [OF _ s(1)]) (auto simp: verifyStoredObject_Inr)
qed

section \<open>The request fingerprint\<close>

lemma append_sep_inj_right:
  "c \<notin> set t \<Longrightarrow> c \<notin> set t' \<Longrightarrow> s @ c # t = s' @ c # t' \<Longrightarrow> s = s' \<and> t = t'"
  using append_sep_inj [of c "rev t" "rev t'" "rev s" "rev s'"]
  by (metis append.assoc append_Cons append_Nil rev.simps(2) rev_append rev_rev_ident set_rev)

lemma format_int_no_bar: "CHR ''|'' \<notin> set (format_int n)"
proof -
  have "digit_value CHR ''|'' = None" by (simp add: digit_value_def byte_of_def)
  then have "CHR ''|'' \<notin> set (digits_of k)" for k using digits_of_chars by blast
  then show ?thesis by (simp add: format_int_def)
qed

text \<open>The fingerprint that guards a retry key identifies the request: two admissible requests with
  equal fingerprints have the same asset, filename, content type, size and checksum, although the
  filename may itself contain the separator, provided SHA-256 does not collide on their two texts.
\<close>
theorem fingerprint_identifies_request:
  assumes "uploadRequestFingerprint sha256 r = uploadRequestFingerprint sha256 q"
    and "sha256 (fingerprint_text r) = sha256 (fingerprint_text q) \<longrightarrow> fingerprint_text r = fingerprint_text q"
    and "FileExtension (req_content_type r) \<noteq> None" "FileExtension (req_content_type q) \<noteq> None"
    and "CHR ''|'' \<notin> set (req_asset r)" "CHR ''|'' \<notin> set (req_asset q)"
    and "is_byte_list (req_checksum r)" "is_byte_list (req_checksum q)"
  shows "req_asset r = req_asset q \<and> req_filename r = req_filename q
    \<and> req_content_type r = req_content_type q \<and> req_size r = req_size q \<and> req_checksum r = req_checksum q"
proof -
  let ?b = "CHR ''|''"
  let ?body = "\<lambda>x. req_asset x @ ?b # req_filename x @ ?b # req_content_type x @ ?b # format_int (req_size x)"
  have t: "fingerprint_text x = ?body x @ ?b # base64_encode (req_checksum x)" for x
    by (simp add: fingerprint_text_def)
  have eq: "fingerprint_text r = fingerprint_text q" using assms(1,2) by (simp add: uploadRequestFingerprint_def)
  have ct: "?b \<notin> set (req_content_type r)" "?b \<notin> set (req_content_type q)"
    using assms(3,4) by (auto simp: FileExtension_def media_constants split: if_splits)
  have 1: "?body r = ?body q" "base64_encode (req_checksum r) = base64_encode (req_checksum q)"
    using append_sep_inj_right [OF base64_encode_no_bar [OF assms(7)] base64_encode_no_bar [OF assms(8)]] eq
    unfolding t by blast+
  let ?mid = "\<lambda>x. req_asset x @ ?b # req_filename x @ ?b # req_content_type x"
  have b: "?body x = ?mid x @ ?b # format_int (req_size x)" for x by simp
  have 2: "?mid r = ?mid q" "format_int (req_size r) = format_int (req_size q)"
    using append_sep_inj_right [OF format_int_no_bar format_int_no_bar 1(1) [unfolded b]] by blast+
  have m: "?mid x = (req_asset x @ ?b # req_filename x) @ ?b # req_content_type x" for x by simp
  have 3: "req_asset r @ ?b # req_filename r = req_asset q @ ?b # req_filename q"
    "req_content_type r = req_content_type q"
    using append_sep_inj_right [OF ct 2(1) [unfolded m]] by blast+
  have "req_asset r = req_asset q \<and> req_filename r = req_filename q"
    by (rule append_sep_inj [OF assms(5,6) 3(1)])
  with 1(2) 2(2) 3(2) show ?thesis
    using base64_encode_inj [OF assms(7,8)] format_int_inj by blast
qed

section \<open>A concrete run\<close>

definition demo_db :: db where
  "demo_db = \<lparr>organizations = [''o''], users = [''u''], usage = [],
     folders = [\<lparr>f_id = ''f'', f_org = ''o'', f_deleted_at = None\<rparr>],
     assets = [\<lparr>a_id = ''a'', a_folder = ''f'', a_active = None, a_pending = None, a_deleted_at = None\<rparr>],
     sessions = [], versions = [], outputs = [], jobs = [], outbox = []\<rparr>"

definition demo_digest :: "nat list" where
  "demo_digest = replicate 32 7"

definition demo_request :: create_session_request where
  "demo_request = \<lparr>req_org = ''o'', req_asset = ''a'', req_requested_by = ''u'', req_idempotency_key = ''k'',
     req_filename = ''x.png'', req_content_type = ''image/png'', req_size = 10, req_checksum = demo_digest\<rparr>"

definition demo_options :: create_session_options where
  "demo_options = \<lparr>opt_upload_id = ''s'', opt_raw_key = ''raw/o/a/s/original.png'', opt_default_quota = 100,
     opt_credential_expires = 50, opt_session_expires = 60\<rparr>"

definition demo_open :: "(session_row \<times> bool) result \<times> db" where
  "demo_open = CreateUploadSession (\<lambda>_. demo_digest) demo_request demo_options 5 6 demo_db"

definition demo_opened_db :: db where
  "demo_opened_db = snd demo_open"

definition demo_commit_request :: commit_request where
  "demo_commit_request = \<lparr>cr_org = ''o'', cr_asset = ''a'', cr_requested_by = ''u'', cr_upload = ''s''\<rparr>"

definition demo_attributes :: object_attributes where
  "demo_attributes = \<lparr>attr_size = 10, attr_content_type = ''image/png'', attr_checksum = demo_digest, attr_etag = ''e''\<rparr>"

definition demo_ids :: commit_ids where
  "demo_ids = \<lparr>new_version = ''v'', new_job = ''j'', new_outbox = ''x''\<rparr>"

definition demo_commit :: "(commit_acceptance \<times> bool) result \<times> db" where
  "demo_commit = commit_transaction (demo_codec JNull) demo_commit_request demo_attributes demo_ids [] 10 11
     demo_opened_db"

definition demo_committed_db :: db where
  "demo_committed_db = snd demo_commit"

lemma demo_ok: "tables_ok demo_db" "ledger_ok demo_db"
  by (simp_all add: tables_ok_def ledger_ok_def demo_db_def no_conflict_def)

lemma demo_open_new: "case demo_open of (Inr (s, b), _) \<Rightarrow> \<not> b | _ \<Rightarrow> False"
  by code_simp

lemma demo_commit_new: "case demo_commit of (Inr (acc, b), _) \<Rightarrow> \<not> b | _ \<Rightarrow> False"
  by code_simp

theorem create_session_idempotent_witness:
  "\<exists>s. CreateUploadSession (\<lambda>_. demo_digest) demo_request demo_options 7 8 demo_opened_db
     = (Inr (s, True), demo_opened_db)"
proof -
  obtain s where "CreateUploadSession (\<lambda>_. demo_digest) demo_request demo_options 5 6 demo_db
      = (Inr (s, False), demo_opened_db)"
    using demo_open_new by (cases demo_open) (auto simp: demo_open_def demo_opened_db_def split: sum.splits prod.splits)
  from create_session_idempotent [OF this, of demo_options] show ?thesis by (auto simp: demo_options_def)
qed

theorem upload_operations_keep_ledger_witness:
  "tables_ok demo_opened_db \<and> ledger_ok demo_opened_db"
  using upload_operations_keep_ledger [OF demo_ok] unfolding demo_opened_db_def demo_open_def Let_def by blast

lemma demo_opened_ok: "tables_ok demo_opened_db" "ledger_ok demo_opened_db"
proof -
  obtain s b where "create_session_work (\<lambda>_. demo_digest) demo_request demo_options ''png'' 5 6 demo_db
      = Inr ((s, b), demo_opened_db)"
    using demo_open_new
    by (cases demo_open)
      (auto simp: demo_open_def demo_opened_db_def CreateUploadSession_def demo_request_def demo_options_def
        FileExtension_def media_constants transaction_def split: sum.splits prod.splits)
  then show "tables_ok demo_opened_db" "ledger_ok demo_opened_db"
    using tables_ok_create [OF demo_ok(1)] ledger_create [OF demo_ok(2,1)] by blast+
qed

lemma demo_commit_eq:
  obtains acc where "commit_transaction (demo_codec JNull) demo_commit_request demo_attributes demo_ids [] 10 11
    demo_opened_db = (Inr (acc, False), demo_committed_db)"
  using demo_commit_new that
  by (cases demo_commit) (auto simp: demo_commit_def demo_committed_db_def split: sum.splits prod.splits)

theorem commit_idempotent_witness:
  "\<exists>acc. CommitUpload (demo_codec JNull) demo_commit_request demo_attributes demo_ids [] 20 21 22 demo_committed_db
     = (Inr (acc, True), demo_committed_db)"
  by (rule demo_commit_eq) (blast intro: commit_idempotent [OF demo_opened_ok(1)])

theorem commit_effect_witness:
  "\<exists>s\<in>set (sessions demo_opened_db). s_state s = UploadSessionCreated
     \<and> versions demo_committed_db = versions demo_opened_db @ [new_version_row s demo_attributes ''v'' 11]"
  by (rule demo_commit_eq) (drule commit_effect, auto simp: demo_ids_def)

theorem fingerprint_identifies_request_witness:
  "uploadRequestFingerprint (map byte_of) demo_request \<noteq> uploadRequestFingerprint (map byte_of) (demo_request\<lparr>req_size := 11\<rparr>)"
proof
  let ?q = "demo_request\<lparr>req_size := 11\<rparr>"
  assume a: "uploadRequestFingerprint (map byte_of) demo_request = uploadRequestFingerprint (map byte_of) ?q"
  have i: "map byte_of x = map byte_of y \<longrightarrow> x = y" for x y
    by (auto dest: map_injective simp: inj_def byte_of_inj)
  have e: "FileExtension (req_content_type demo_request) \<noteq> None" "FileExtension (req_content_type ?q) \<noteq> None"
    "CHR ''|'' \<notin> set (req_asset demo_request)" "CHR ''|'' \<notin> set (req_asset ?q)"
    "is_byte_list (req_checksum demo_request)" "is_byte_list (req_checksum ?q)"
    by (simp_all add: demo_request_def FileExtension_def media_constants is_byte_list_def demo_digest_def)
  from fingerprint_identifies_request [OF a i e] show False by (simp add: demo_request_def)
qed

end
