(* ===== verification/Job_Store.thy ===== *)
theory Job_Store
  imports Upload_Repository "HOL-Library.List_Lexorder" "HOL-Library.Char_ord" "HOL-Library.Product_Lexorder"
begin

text \<open>
  The processing-job store of \<open>internal/repository\<close>: claims and leases (\<open>media_job_store.go\<close>),
  completion and failure (\<open>media_promotion.go\<close>), notification isolation and replay
  (\<open>media_dead_letter.go\<close>), reconciliation (\<open>media_reconciliation.go\<close>), verification of notifications
  against the database (\<open>media_notification.go\<close>), the source of a run
  (\<open>media_processing_source.go\<close>), expiry and purging (\<open>media_purge.go\<close>) and the status read
  (\<open>media_status.go\<close>). The values of \<open>statement_timestamp()\<close> are arguments, one per statement that
  reads it.
\<close>

section \<open>Checked updates\<close>

definition update_jobs :: "(job_row \<Rightarrow> bool) \<Rightarrow> (job_row \<Rightarrow> job_row) \<Rightarrow> db \<Rightarrow> db result" where
  "update_jobs c f db =
     (if list_all (\<lambda>j. c j \<longrightarrow> job_check (f j)) (jobs db)
      then Inr (db\<lparr>jobs := sql_update c f (jobs db)\<rparr>) else Inl check_violation)"

definition update_versions :: "(version_row \<Rightarrow> bool) \<Rightarrow> (version_row \<Rightarrow> version_row) \<Rightarrow> db \<Rightarrow> db result" where
  "update_versions c f db =
     (if list_all (\<lambda>v. c v \<longrightarrow> version_check (f v)) (versions db)
      then Inr (db\<lparr>versions := sql_update c f (versions db)\<rparr>) else Inl check_violation)"

lemma update_jobs_InrD:
  "update_jobs c f db = Inr db' \<Longrightarrow>
     db' = db\<lparr>jobs := sql_update c f (jobs db)\<rparr> \<and> (\<forall>j\<in>set (jobs db). c j \<longrightarrow> job_check (f j))"
  by (auto simp: update_jobs_def list_all_iff split: if_splits)

lemma update_versions_InrD:
  "update_versions c f db = Inr db' \<Longrightarrow>
     db' = db\<lparr>versions := sql_update c f (versions db)\<rparr> \<and> (\<forall>v\<in>set (versions db). c v \<longrightarrow> version_check (f v))"
  by (auto simp: update_versions_def list_all_iff split: if_splits)

section \<open>Claiming a job\<close>

record job_store =
  js_expiry :: duration
  js_delays :: "duration list"

definition js_attempts :: "job_store \<Rightarrow> int" where
  "js_attempts st = int (length (js_delays st)) + 1"

definition mediaProcessingFailedCode :: string where
  "mediaProcessingFailedCode = ''MEDIA_PROCESSING_FAILED''"

definition active_status :: "job_row \<Rightarrow> bool" where
  "active_status j \<longleftrightarrow> j_status j = ProcessingJobQueued \<or> j_status j = ProcessingJobProcessing"

definition asset_visible :: "string \<Rightarrow> db \<Rightarrow> bool" where
  "asset_visible asset db \<longleftrightarrow> sql_exists (\<lambda>a. a_id a = asset \<and> a_deleted_at a = None) (assets db)"

definition lease_free :: "instant \<Rightarrow> job_row \<Rightarrow> bool" where
  "lease_free now j \<longleftrightarrow> (case j_lease_expires j of None \<Rightarrow> True | Some t \<Rightarrow> t \<le> now)"

definition claimable :: "job_store \<Rightarrow> string \<Rightarrow> instant \<Rightarrow> db \<Rightarrow> job_row \<Rightarrow> bool" where
  "claimable st jid now db j \<longleftrightarrow>
     j_id j = jid \<and> active_status j \<and> asset_visible (j_asset j) db \<and> j_next_attempt j \<le> now
     \<and> j_isolated_at j = None \<and> j_attempts j < js_attempts st \<and> lease_free now j"

definition claim_row :: "job_store \<Rightarrow> string \<Rightarrow> instant \<Rightarrow> job_row \<Rightarrow> job_row" where
  "claim_row st owner now j =
     j\<lparr>j_status := ProcessingJobProcessing, j_stage := Some ProcessingStageValidating,
       j_attempts := j_attempts j + 1, j_lease_owner := Some owner,
       j_lease_expires := Some (now + js_expiry st),
       j_started_at := (case j_started_at j of None \<Rightarrow> Some now | t \<Rightarrow> t)\<rparr>"

record claimed_job =
  cl_job :: job_row
  cl_recovered :: bool
  cl_latency :: duration

definition claimed_of :: "instant \<Rightarrow> job_row \<Rightarrow> job_row \<Rightarrow> claimed_job" where
  "claimed_of now j j' =
     (case (j_status j = ProcessingJobProcessing, j_lease_expires j) of
        (True, Some t) \<Rightarrow> \<lparr>cl_job = j', cl_recovered = True, cl_latency = now - t\<rparr>
      | _ \<Rightarrow> \<lparr>cl_job = j', cl_recovered = False, cl_latency = 0\<rparr>)"

record media_failure =
  fl_job :: string
  fl_version :: string
  fl_org :: string
  fl_asset :: string
  fl_code :: string

definition fail_version_row :: "string \<Rightarrow> instant \<Rightarrow> version_row \<Rightarrow> version_row" where
  "fail_version_row code t v =
     v\<lparr>v_status := MediaVersionFailed, v_failure_code := Some code, v_failed_at := Some t\<rparr>"

definition fail_job_row :: "string \<Rightarrow> instant \<Rightarrow> job_row \<Rightarrow> job_row" where
  "fail_job_row code t j =
     j\<lparr>j_status := ProcessingJobFailed, j_stage := None, j_failed_at := Some t, j_last_error := Some code,
       j_lease_owner := None, j_lease_expires := None\<rparr>"

definition failMediaVersion :: "media_failure \<Rightarrow> instant \<Rightarrow> instant \<Rightarrow> db \<Rightarrow> db result" where
  "failMediaVersion fl t1 t2 db =
     and_then (update_versions (\<lambda>v. v_id v = fl_version fl \<and> v_org v = fl_org fl)
                 (fail_version_row (fl_code fl) t1) db) (\<lambda>db1.
     update_jobs (\<lambda>j. j_id j = fl_job fl) (fail_job_row (fl_code fl) t2)
       (clearPendingMediaVersion (fl_asset fl) (fl_version fl) db1))"

definition failExhaustedMediaJob :: "job_row \<Rightarrow> instant \<Rightarrow> instant \<Rightarrow> db \<Rightarrow> db result" where
  "failExhaustedMediaJob j t1 t2 db =
     failMediaVersion \<lparr>fl_job = j_id j, fl_version = j_version j, fl_org = j_org j, fl_asset = j_asset j,
                       fl_code = mediaProcessingFailedCode\<rparr> t1 t2 db"

definition exhausted :: "job_store \<Rightarrow> string \<Rightarrow> instant \<Rightarrow> job_row \<Rightarrow> bool" where
  "exhausted st jid now j \<longleftrightarrow> j_id j = jid \<and> j_status j = ProcessingJobProcessing
     \<and> j_isolated_at j = None \<and> js_attempts st \<le> j_attempts j \<and> lease_free now j"

text \<open>The result says whether a row was settled.\<close>

definition settleExpiredExhaustedClaim ::
  "job_store \<Rightarrow> string \<Rightarrow> string \<Rightarrow> instant \<Rightarrow> instant \<Rightarrow> instant \<Rightarrow> db \<Rightarrow> (bool \<times> db) result"
where
  "settleExpiredExhaustedClaim st jid owner now t1 t2 db =
     (case find (exhausted st jid now) (jobs db) of
        None \<Rightarrow> Inr (False, db)
      | Some j \<Rightarrow>
          and_then (update_jobs (exhausted st jid now)
              (\<lambda>r. r\<lparr>j_lease_owner := Some owner, j_lease_expires := Some (now + js_expiry st)\<rparr>) db) (\<lambda>db1.
          and_then (failExhaustedMediaJob j t1 t2 db1) (\<lambda>db2. Inr (True, db2))))"

definition explainRefusal :: "job_store \<Rightarrow> string \<Rightarrow> instant \<Rightarrow> db \<Rightarrow> media_error" where
  "explainRefusal st jid now db =
     (case find (\<lambda>j. j_id j = jid) (jobs db) of
        None \<Rightarrow> ErrJobNotFound
      | Some j \<Rightarrow>
         if j_isolated_at j \<noteq> None then ErrJobIsolated
         else if j_status j = ProcessingJobCompleted \<or> j_status j = ProcessingJobFailed then ErrJobTerminal
         else if \<not> lease_free now j then ErrJobLeased
         else if js_attempts st \<le> j_attempts j then ErrJobExhausted
         else if now < j_next_attempt j then ErrJobNotDue
         else ErrJobNotClaimed)"

text \<open>\<open>None\<close>: the expired last attempt was settled as a failure instead of being claimed.\<close>

definition claim_work ::
  "job_store \<Rightarrow> string \<Rightarrow> string \<Rightarrow> instant \<Rightarrow> instant \<Rightarrow> instant \<Rightarrow> instant \<Rightarrow> instant \<Rightarrow> db
   \<Rightarrow> (claimed_job option \<times> db) result"
where
  "claim_work st jid owner now now2 t1 t2 now3 db =
     (case find (claimable st jid now db) (jobs db) of
        Some j \<Rightarrow>
          and_then (update_jobs (claimable st jid now db) (claim_row st owner now) db)
            (\<lambda>db1. Inr (Some (claimed_of now j (claim_row st owner now j)), db1))
      | None \<Rightarrow>
          and_then (settleExpiredExhaustedClaim st jid owner now2 t1 t2 db)
            (\<lambda>(settled, db1). if settled then Inr (None, db1) else Inl (explainRefusal st jid now3 db1)))"

definition lease_of :: "string \<Rightarrow> job_row \<Rightarrow> job_lease" where
  "lease_of owner j = \<lparr>lease_holder = owner,
     lease_until = (case j_lease_expires j of Some t \<Rightarrow> t | None \<Rightarrow> 0)\<rparr>"

definition ClaimJob ::
  "job_store \<Rightarrow> string \<Rightarrow> string \<Rightarrow> instant \<Rightarrow> instant \<Rightarrow> instant \<Rightarrow> instant \<Rightarrow> instant \<Rightarrow> db
   \<Rightarrow> (claimed_job \<times> job_lease) result \<times> db"
where
  "ClaimJob st jid owner now now2 t1 t2 now3 db =
     (if owner = [] then (Inl (ErrOther ''media job claim requires a lease owner''), db)
      else (case transaction (claim_work st jid owner now now2 t1 t2 now3) db of
              (Inl e, db') \<Rightarrow> (Inl e, db')
            | (Inr None, db') \<Rightarrow> (Inl ErrJobTerminal, db')
            | (Inr (Some c), db') \<Rightarrow> (Inr (c, lease_of owner (cl_job c)), db')))"

section \<open>Leases\<close>

definition holds_lease :: "string \<Rightarrow> job_lease \<Rightarrow> instant \<Rightarrow> job_row \<Rightarrow> bool" where
  "holds_lease jid held now j \<longleftrightarrow> j_id j = jid \<and> j_status j = ProcessingJobProcessing
     \<and> j_lease_owner j = Some (lease_holder held) \<and> j_lease_expires j = Some (lease_until held)
     \<and> now < lease_until held"

definition RenewLease ::
  "job_store \<Rightarrow> string \<Rightarrow> job_lease \<Rightarrow> instant \<Rightarrow> db \<Rightarrow> job_lease result \<times> db"
where
  "RenewLease st jid held now db =
     (case update_jobs (holds_lease jid held now) (\<lambda>j. j\<lparr>j_lease_expires := Some (now + js_expiry st)\<rparr>) db of
        Inl e \<Rightarrow> (Inl e, db)
      | Inr db' \<Rightarrow>
          if rows_affected (holds_lease jid held now) (jobs db) = 0 then (Inl ErrLeaseNotHeld, db')
          else (Inr \<lparr>lease_holder = lease_holder held, lease_until = now + js_expiry st\<rparr>, db'))"

definition lockLeasedJob :: "string \<Rightarrow> job_lease \<Rightarrow> instant \<Rightarrow> db \<Rightarrow> job_row option" where
  "lockLeasedJob jid held now db = find (holds_lease jid held now) (jobs db)"

section \<open>Settling a failed execution\<close>

definition retry_job_row :: "instant \<Rightarrow> job_row \<Rightarrow> job_row" where
  "retry_job_row due j =
     j\<lparr>j_status := ProcessingJobQueued, j_stage := None, j_next_attempt := due,
       j_last_error := Some mediaProcessingFailedCode, j_lease_owner := None, j_lease_expires := None\<rparr>"

definition insertMediaRetryOutbox ::
  "codec \<Rightarrow> string \<Rightarrow> string \<Rightarrow> job_row \<Rightarrow> instant \<Rightarrow> instant \<Rightarrow> db \<Rightarrow> db result"
where
  "insertMediaRetryOutbox cd outboxID tp j occurredAt nextAttemptAt db =
     (case find (\<lambda>v. v_id v = j_version j \<and> v_org v = j_org j \<and> v_asset v = j_asset j) (versions db) of
        None \<Rightarrow> Inl ErrVersionNotFound
      | Some v \<Rightarrow>
          if v_upload v = [] then Inl ErrVersionNotFound
          else and_then (Media_Marshal cd (new_envelope outboxID occurredAt (j_org j) tp)
                 \<lparr>pl_asset = j_asset j, pl_upload = v_upload v, pl_version = j_version j, pl_job = j_id j\<rparr>)
               (\<lambda>doc. insertOutboxJSON (pending_outbox outboxID (j_id j) doc nextAttemptAt occurredAt) db))"

definition settle_work ::
  "job_store \<Rightarrow> codec \<Rightarrow> string \<Rightarrow> string \<Rightarrow> job_row \<Rightarrow> job_lease
   \<Rightarrow> instant \<Rightarrow> instant \<Rightarrow> instant \<Rightarrow> db \<Rightarrow> (bool \<times> db) result"
where
  "settle_work st cd outboxID tp job held now t1 t2 db =
     (case lockLeasedJob (j_id job) held now db of
        None \<Rightarrow> Inr (False, db)
      | Some current \<Rightarrow>
         if j_org current \<noteq> j_org job \<or> j_asset current \<noteq> j_asset job
            \<or> j_version current \<noteq> j_version job \<or> j_attempts current \<noteq> j_attempts job
         then Inl ErrJobNotClaimed
         else if js_attempts st \<le> j_attempts current then
           and_then (failExhaustedMediaJob current t1 t2 db) (\<lambda>db1. Inr (True, db1))
         else if j_attempts current - 1 < 0 \<or> int (length (js_delays st)) \<le> j_attempts current - 1
           then Inl (ErrOther ''no configured retry delay'')
         else
           let nextAttemptAt = t1 + js_delays st ! nat (j_attempts current - 1) in
           and_then (update_jobs (\<lambda>j. j_id j = j_id current) (retry_job_row nextAttemptAt) db) (\<lambda>db1.
             if rows_affected (\<lambda>j. j_id j = j_id current) (jobs db) \<noteq> 1 then Inl ErrJobNotClaimed
             else and_then (insertMediaRetryOutbox cd outboxID tp current t1 nextAttemptAt db1)
                    (\<lambda>db2. Inr (True, db2))))"

definition SettleExecutionFailure ::
  "job_store \<Rightarrow> codec \<Rightarrow> string \<Rightarrow> string \<Rightarrow> job_row \<Rightarrow> job_lease
   \<Rightarrow> instant \<Rightarrow> instant \<Rightarrow> instant \<Rightarrow> db \<Rightarrow> bool result \<times> db"
where
  "SettleExecutionFailure st cd outboxID tp job held now t1 t2 db =
     transaction (settle_work st cd outboxID tp job held now t1 t2) db"

section \<open>Completion and failure\<close>

record media_completion =
  cm_job :: string
  cm_version :: string
  cm_org :: string
  cm_asset :: string
  cm_detected :: media_content_type
  cm_width :: int
  cm_height :: int
  cm_sha256 :: "nat list"
  cm_outputs :: "output_row list"

fun duplicated_kind :: "media_output_kind list \<Rightarrow> media_output_kind list \<Rightarrow> bool" where
  "duplicated_kind seen [] = False"
| "duplicated_kind seen (k # ks) = (k \<in> set seen \<or> duplicated_kind (k # seen) ks)"

definition requireCompleteOutputSet :: "output_row list \<Rightarrow> unit result" where
  "requireCompleteOutputSet ms =
     (if duplicated_kind [] (map m_kind ms) then Inl ErrIncompleteOutputSet
      else if list_ex (\<lambda>policy. policy_kind policy \<notin> set (map m_kind ms)) MediaOutputManifest then Inl ErrIncompleteOutputSet
      else Inr ())"

text \<open>\<open>ON CONFLICT (version_id, kind) DO NOTHING\<close> passes over that index only.\<close>

definition insertOutput :: "output_row \<Rightarrow> db \<Rightarrow> db result" where
  "insertOutput m db =
     (if output_check m \<and> sql_exists (\<lambda>n. m_version n = m_version m \<and> m_kind n = m_kind m) (outputs db)
      then Inr db else insert_output m db)"

fun insert_outputs :: "output_row list \<Rightarrow> db \<Rightarrow> db result" where
  "insert_outputs [] db = Inr db"
| "insert_outputs (m # ms) db = and_then (insertOutput m db) (insert_outputs ms)"

definition requireTwoStoredOutputs :: "string \<Rightarrow> db \<Rightarrow> unit result" where
  "requireTwoStoredOutputs version db =
     require (length (remdups (map m_kind (filter (\<lambda>m. m_version m = version) (outputs db))))
              = length MediaOutputManifest) ErrIncompleteOutputSet"

definition promotable :: "media_completion \<Rightarrow> asset_row \<Rightarrow> bool" where
  "promotable cm a \<longleftrightarrow> a_id a = cm_asset cm \<and> a_pending a = Some (cm_version cm) \<and> a_deleted_at a = None"

definition promoteActiveVersion :: "media_completion \<Rightarrow> db \<Rightarrow> db result" where
  "promoteActiveVersion cm db =
     and_then (update_assets (promotable cm)
         (\<lambda>a. a\<lparr>a_active := Some (cm_version cm), a_pending := None\<rparr>) db)
       (\<lambda>db'. if rows_affected (promotable cm) (assets db) \<noteq> 1 then Inl ErrVersionNotPending else Inr db')"

definition complete_version_row :: "media_completion \<Rightarrow> instant \<Rightarrow> version_row \<Rightarrow> version_row" where
  "complete_version_row cm t v =
     v\<lparr>v_status := MediaVersionCompleted, v_detected := Some (cm_detected cm), v_width := Some (cm_width cm),
       v_height := Some (cm_height cm), v_sha256 := Some (cm_sha256 cm), v_completed_at := Some t,
       v_activated_at := Some t\<rparr>"

definition complete_job_row :: "instant \<Rightarrow> job_row \<Rightarrow> job_row" where
  "complete_job_row t j =
     j\<lparr>j_status := ProcessingJobCompleted, j_stage := None, j_completed_at := Some t,
       j_lease_owner := None, j_lease_expires := None\<rparr>"

definition open_version :: "version_row \<Rightarrow> bool" where
  "open_version v \<longleftrightarrow> v_status v = MediaVersionPending \<or> v_status v = MediaVersionProcessing"

definition complete_work ::
  "media_completion \<Rightarrow> job_lease \<Rightarrow> instant \<Rightarrow> instant \<Rightarrow> instant \<Rightarrow> db \<Rightarrow> (bool \<times> db) result"
where
  "complete_work cm held now t1 t2 db =
     (case lockLeasedJob (cm_job cm) held now db of
        None \<Rightarrow> Inr (False, db)
      | Some _ \<Rightarrow>
          and_then (insert_outputs (cm_outputs cm) db) (\<lambda>db1.
          and_then (requireTwoStoredOutputs (cm_version cm) db1) (\<lambda>_.
          and_then (update_versions
              (\<lambda>v. v_id v = cm_version cm \<and> v_org v = cm_org cm \<and> open_version v \<and> asset_visible (v_asset v) db1)
              (complete_version_row cm t1) db1) (\<lambda>db2.
          and_then (promoteActiveVersion cm db2) (\<lambda>db3.
          and_then (update_jobs (\<lambda>j. j_id j = cm_job cm) (complete_job_row t2) db3)
            (\<lambda>db4. Inr (True, db4)))))))"

definition CompleteAndPromote ::
  "media_completion \<Rightarrow> job_lease \<Rightarrow> instant \<Rightarrow> instant \<Rightarrow> instant \<Rightarrow> db \<Rightarrow> bool result \<times> db"
where
  "CompleteAndPromote cm held now t1 t2 db =
     (case requireCompleteOutputSet (cm_outputs cm) of
        Inl e \<Rightarrow> (Inl e, db)
      | Inr _ \<Rightarrow> transaction (complete_work cm held now t1 t2) db)"

definition fail_work :: "media_failure \<Rightarrow> job_lease \<Rightarrow> instant \<Rightarrow> instant \<Rightarrow> instant \<Rightarrow> db \<Rightarrow> (bool \<times> db) result"
where
  "fail_work fl held now t1 t2 db =
     (case lockLeasedJob (fl_job fl) held now db of
        None \<Rightarrow> Inr (False, db)
      | Some _ \<Rightarrow> and_then (failMediaVersion fl t1 t2 db) (\<lambda>db1. Inr (True, db1)))"

definition FailVersion ::
  "media_failure \<Rightarrow> job_lease \<Rightarrow> instant \<Rightarrow> instant \<Rightarrow> instant \<Rightarrow> db \<Rightarrow> bool result \<times> db"
where
  "FailVersion fl held now t1 t2 db = transaction (fail_work fl held now t1 t2) db"

section \<open>Notifications against the database\<close>

definition VerifyNotification :: "string \<Rightarrow> payload \<Rightarrow> db \<Rightarrow> unit result" where
  "VerifyNotification og p db =
     (case find (\<lambda>j. j_id j = pl_job p) (jobs db) of
        None \<Rightarrow> Inl ErrJobNotFound
      | Some j \<Rightarrow>
         (case find (\<lambda>v. v_id v = j_version j) (versions db) of
            None \<Rightarrow> Inl ErrJobNotFound
          | Some v \<Rightarrow>
             if j_org j = [] then Inl ErrJobNotFound
             else if j_org j \<noteq> og \<or> j_asset j \<noteq> pl_asset p \<or> j_version j \<noteq> pl_version p
                  \<or> v_upload v \<noteq> pl_upload p
             then Inl ErrNotificationMismatch
             else Inr ()))"

definition isolatable :: "string \<Rightarrow> job_row \<Rightarrow> bool" where
  "isolatable jid j \<longleftrightarrow> j_id j = jid \<and> active_status j \<and> j_isolated_at j = None"

definition isolate_row :: "instant \<Rightarrow> job_row \<Rightarrow> job_row" where
  "isolate_row now j =
     j\<lparr>j_status := ProcessingJobFailed, j_stage := None, j_lease_owner := None, j_lease_expires := None,
       j_last_error := Some isolatedCode, j_isolated_at := Some now,
       j_failed_at := (case j_failed_at j of None \<Rightarrow> Some now | t \<Rightarrow> t)\<rparr>"

definition IsolateNotification :: "string \<Rightarrow> instant \<Rightarrow> db \<Rightarrow> unit result \<times> db" where
  "IsolateNotification jid now db =
     (case update_jobs (isolatable jid) (isolate_row now) db of
        Inl e \<Rightarrow> (Inl e, db) | Inr db' \<Rightarrow> (Inr (), db'))"

definition isolated_job :: "job_row \<Rightarrow> bool" where
  "isolated_job j \<longleftrightarrow> j_isolated_at j \<noteq> None \<and> j_last_error j = Some isolatedCode"

definition restore_row :: "instant \<Rightarrow> job_row \<Rightarrow> job_row" where
  "restore_row now j =
     j\<lparr>j_status := ProcessingJobQueued, j_stage := None, j_lease_owner := None, j_lease_expires := None,
       j_next_attempt := now, j_last_error := None, j_isolated_at := None, j_failed_at := None,
       j_queued_at := now\<rparr>"

text \<open>
  The UUID texts of the job and the operator are already canonical. The audit column
  \<open>updated_by\<close> of the asset is not modelled; that the asset row exists is.
\<close>

definition replay_work ::
  "codec \<Rightarrow> string \<Rightarrow> string \<Rightarrow> string \<Rightarrow> instant \<Rightarrow> db \<Rightarrow> (unit \<times> db) result"
where
  "replay_work cd jid operator eventID now db =
     and_then (from_option ErrNotIsolated (find (\<lambda>j. j_id j = jid) (jobs db))) (\<lambda>job.
       if \<not> isolated_job job then Inl ErrNotIsolated
       else if operator \<notin> set (users db) then Inl ErrReplayOperatorUnknown
       else
     and_then (from_option ErrRecordNotFound
       (find (\<lambda>v. v_id v = j_version job \<and> v_org v = j_org job \<and> v_asset v = j_asset job) (versions db))) (\<lambda>version.
     and_then (Media_Marshal cd (new_envelope eventID now (j_org job) [])
        \<lparr>pl_asset = j_asset job, pl_upload = v_upload version, pl_version = j_version job, pl_job = j_id job\<rparr>) (\<lambda>doc.
     and_then (update_jobs (\<lambda>j. j_id j = j_id job \<and> isolated_job j) (restore_row now) db) (\<lambda>db1.
       if rows_affected (\<lambda>j. j_id j = j_id job \<and> isolated_job j) (jobs db) \<noteq> 1 then Inl ErrNotIsolated
       else if rows_affected (\<lambda>a. a_id a = j_asset job) (assets db1) \<noteq> 1 then Inl (ErrOther ''asset not found'')
       else and_then (insertOutboxJSON (pending_outbox eventID (j_id job) doc now now) db1) (\<lambda>db2.
            Inr ((), db2))))))"

definition RebuildAndEnqueue ::
  "codec \<Rightarrow> string \<Rightarrow> string \<Rightarrow> string \<Rightarrow> instant \<Rightarrow> db \<Rightarrow> string result \<times> db"
where
  "RebuildAndEnqueue cd jid operator eventID now db =
     (if \<not> uuid_valid cd jid then (Inl (ErrOther ''invalid replay job identity''), db)
      else if \<not> uuid_valid cd operator then (Inl (ErrOther ''invalid replay operator identity''), db)
      else (case transaction (replay_work cd jid operator eventID now) db of
              (Inl e, db') \<Rightarrow> (Inl e, db') | (Inr _, db') \<Rightarrow> (Inr eventID, db')))"

section \<open>Reconciliation of lost notifications\<close>

definition last_published :: "string \<Rightarrow> db \<Rightarrow> instant option" where
  "last_published jid db =
     (let ts = map (the \<circ> x_published_at)
        (filter (\<lambda>x. x_job x = jid \<and> x_status x = OutboxPublished \<and> x_published_at x \<noteq> None) (outbox db)) in
      if ts = [] then None else Some (foldl max (hd ts) (tl ts)))"

definition stale_dispatch :: "duration \<Rightarrow> instant \<Rightarrow> db \<Rightarrow> job_row \<Rightarrow> bool" where
  "stale_dispatch staleAfter now db j \<longleftrightarrow>
     j_isolated_at j = None
     \<and> ((j_status j = ProcessingJobQueued \<and> j_next_attempt j \<le> now)
        \<or> (j_status j = ProcessingJobProcessing
           \<and> (case j_lease_expires j of None \<Rightarrow> False | Some t \<Rightarrow> t \<le> now)))
     \<and> (case last_published (j_id j) db of None \<Rightarrow> False | Some t \<Rightarrow> t \<le> now - staleAfter)
     \<and> \<not> sql_exists (\<lambda>x. x_job x = j_id j \<and> unpublished x) (outbox db)
     \<and> sql_exists (\<lambda>v. v_id v = j_version j) (versions db)"

text \<open>\<open>SKIP LOCKED\<close> is the predicate of the jobs some other transaction holds at that moment.\<close>

definition stale_dispatches :: "(string \<Rightarrow> bool) \<Rightarrow> nat \<Rightarrow> duration \<Rightarrow> instant \<Rightarrow> db \<Rightarrow> job_row list" where
  "stale_dispatches locked limit staleAfter now db =
     take limit (order_by (\<lambda>j. (the (last_published (j_id j) db), j_id j))
       (filter (\<lambda>j. stale_dispatch staleAfter now db j \<and> \<not> locked (j_id j)) (jobs db)))"

definition insertReconciliationOutbox :: "outbox_row \<Rightarrow> db \<Rightarrow> (bool \<times> db) result" where
  "insertReconciliationOutbox x db =
     (if \<not> outbox_check x then Inl check_violation
      else if sql_exists (outbox_conflict x) (outbox db) then Inr (False, db)
      else and_then (insert_outbox x db) (\<lambda>db'. Inr (True, db')))"

fun reconcile_all ::
  "codec \<Rightarrow> instant \<Rightarrow> (job_row \<times> string) list \<Rightarrow> nat \<Rightarrow> db \<Rightarrow> (nat \<times> db) result"
where
  "reconcile_all cd now [] inserted db = Inr (inserted, db)"
| "reconcile_all cd now ((j, eventID) # cs) inserted db =
     and_then (from_option ErrRecordNotFound (find (\<lambda>v. v_id v = j_version j) (versions db))) (\<lambda>v.
     and_then (Media_Marshal cd (new_envelope eventID now (j_org j) [])
        \<lparr>pl_asset = j_asset j, pl_upload = v_upload v, pl_version = j_version j, pl_job = j_id j\<rparr>) (\<lambda>doc.
     and_then (insertReconciliationOutbox (pending_outbox eventID (j_id j) doc now now) db) (\<lambda>(created, db').
       reconcile_all cd now cs (if created then inserted + 1 else inserted) db')))"

text \<open>The new event identifiers are a function of the candidate's position.\<close>

definition ReconcileStaleDispatches ::
  "codec \<Rightarrow> (string \<Rightarrow> bool) \<Rightarrow> int \<Rightarrow> duration \<Rightarrow> (nat \<Rightarrow> string) \<Rightarrow> instant \<Rightarrow> db \<Rightarrow> nat result \<times> db"
where
  "ReconcileStaleDispatches cd locked batchSize staleAfter eventIDs now db =
     (if batchSize \<le> 0 \<or> staleAfter \<le> 0 then (Inl ErrInvalidMediaReconciliation, db)
      else let js = stale_dispatches locked (nat batchSize) staleAfter now db in
           transaction (reconcile_all cd now (zip js (map eventIDs [0..<length js])) 0) db)"

section \<open>The source of a run\<close>

record processing_source =
  src_org :: string
  src_asset :: string
  src_version :: string
  src_upload :: string
  src_raw_key :: object_key
  src_declared :: media_content_type
  src_admitted_sha256 :: "nat list"
  src_size :: int

definition LoadProcessingSource :: "string \<Rightarrow> db \<Rightarrow> processing_source result" where
  "LoadProcessingSource version db =
     (case find (\<lambda>v. v_id v = version \<and> sql_exists (\<lambda>s. s_id s = v_upload v) (sessions db)) (versions db) of
        None \<Rightarrow> Inl ErrVersionNotFound
      | Some v \<Rightarrow>
         (case find (\<lambda>s. s_id s = v_upload v) (sessions db) of
            None \<Rightarrow> Inl ErrVersionNotFound
          | Some s \<Rightarrow>
             Inr \<lparr>src_org = v_org v, src_asset = v_asset v, src_version = v_id v, src_upload = v_upload v,
                  src_raw_key = v_raw_key v, src_declared = v_declared v,
                  src_admitted_sha256 = s_checksum s, src_size = v_size v\<rparr>))"

section \<open>Expiry and purging\<close>

text \<open>
  The order of expiry candidates reads the trigger-maintained \<open>updated_at\<close>, which is not a column of
  the model; it is an argument, and deferring a candidate updates it.
\<close>

definition expirable :: "instant \<Rightarrow> session_row \<Rightarrow> bool" where
  "expirable now s \<longleftrightarrow> s_state s = UploadSessionCreated \<and> s_session_expires s \<le> now"

definition expiry_candidates :: "(string \<Rightarrow> instant) \<Rightarrow> nat \<Rightarrow> instant \<Rightarrow> db \<Rightarrow> session_row list" where
  "expiry_candidates updatedAt limit now db =
     take limit (order_by (\<lambda>s. (updatedAt (s_id s), s_session_expires s, s_id s))
       (filter (expirable now) (sessions db)))"

definition expire_one_work :: "session_row \<Rightarrow> instant \<Rightarrow> db \<Rightarrow> (bool \<times> db) result" where
  "expire_one_work candidate now db =
     (if \<not> sql_exists (\<lambda>u. us_org u = s_org candidate) (usage db) then Inl ErrRecordNotFound
      else let c = (\<lambda>s. s_id s = s_id candidate \<and> s_org s = s_org candidate \<and> expirable now s);
               db1 = db\<lparr>sessions := sql_update c
                      (\<lambda>s. s\<lparr>s_state := UploadSessionExpired, s_expired_at := Some now\<rparr>) (sessions db)\<rparr> in
           if rows_affected c (sessions db) = 0 then Inr (False, db)
           else and_then (releaseReservation (s_org candidate) (s_size candidate) db1) (\<lambda>db2. Inr (True, db2)))"

definition expire_one :: "session_row \<Rightarrow> instant \<Rightarrow> db \<Rightarrow> bool result \<times> db" where
  "expire_one candidate now db = transaction (expire_one_work candidate now) db"

definition deferExpiryCandidate :: "session_row \<Rightarrow> instant \<Rightarrow> (string \<Rightarrow> instant) \<Rightarrow> db \<Rightarrow> (string \<Rightarrow> instant)" where
  "deferExpiryCandidate candidate now updatedAt db =
     (if sql_exists (\<lambda>s. s_id s = s_id candidate \<and> s_org s = s_org candidate \<and> expirable now s) (sessions db)
      then updatedAt(s_id candidate := now) else updatedAt)"

text \<open>The loop over the candidates: the number expired, the failures, and the touched timestamps.\<close>

fun expire_all ::
  "(session_row \<times> instant) list \<Rightarrow> nat \<Rightarrow> media_error list \<Rightarrow> (string \<Rightarrow> instant) \<Rightarrow> db
   \<Rightarrow> (nat \<times> media_error list) \<times> (string \<Rightarrow> instant) \<times> db"
where
  "expire_all [] expired failures updatedAt db = ((expired, failures), updatedAt, db)"
| "expire_all ((s, now) # cs) expired failures updatedAt db =
     (case expire_one s now db of
        (Inl e, db') \<Rightarrow> expire_all cs expired (failures @ [e]) (deferExpiryCandidate s now updatedAt db') db'
      | (Inr transitioned, db') \<Rightarrow>
          expire_all cs (if transitioned then expired + 1 else expired) failures updatedAt db')"

text \<open>The statement times of the candidates are a function of their position.\<close>

definition ExpireUploadSessions ::
  "int \<Rightarrow> instant \<Rightarrow> (nat \<Rightarrow> instant) \<Rightarrow> (string \<Rightarrow> instant) \<Rightarrow> db
   \<Rightarrow> (nat \<times> media_error list) \<times> (string \<Rightarrow> instant) \<times> db"
where
  "ExpireUploadSessions limit now at updatedAt db =
     (if limit \<le> 0 then ((0, []), updatedAt, db)
      else let cs = expiry_candidates updatedAt (nat limit) now db in
           expire_all (zip cs (map at [0..<length cs])) 0 [] updatedAt db)"

record purgeable =
  pg_upload :: string
  pg_version :: string
  pg_org :: string
  pg_raw_key :: object_key
  pg_processed_keys :: "object_key list"
  pg_stored :: int

definition version_of_session :: "session_row \<Rightarrow> db \<Rightarrow> version_row option" where
  "version_of_session s db = find (\<lambda>v. v_upload v = s_id s) (versions db)"

definition coalesce :: "'a option \<Rightarrow> 'a option \<Rightarrow> 'a option" where
  "coalesce x y = (case x of None \<Rightarrow> y | Some _ \<Rightarrow> x)"

definition at_or_before :: "instant option \<Rightarrow> instant \<Rightarrow> bool" where
  "at_or_before t bound \<longleftrightarrow> (case t of None \<Rightarrow> False | Some u \<Rightarrow> u \<le> bound)"

definition purge_due :: "duration \<Rightarrow> instant \<Rightarrow> db \<Rightarrow> session_row \<Rightarrow> bool" where
  "purge_due quarantine now db s \<longleftrightarrow> s_purged_at s = None
     \<and> (case version_of_session s db of
          None \<Rightarrow> s_state s \<in> {UploadSessionExpired, UploadSessionCancelled, UploadSessionFailed}
                  \<and> at_or_before (coalesce (s_cancelled_at s) (s_expired_at s)) (now - quarantine)
        | Some v \<Rightarrow> v_status v = MediaVersionFailed \<and> at_or_before (v_failed_at v) (now - quarantine))"

definition purge_order :: "db \<Rightarrow> session_row \<Rightarrow> instant" where
  "purge_order db s =
     (case coalesce (coalesce (s_cancelled_at s) (s_expired_at s))
             (case version_of_session s db of None \<Rightarrow> None | Some v \<Rightarrow> v_failed_at v) of
        Some t \<Rightarrow> t | None \<Rightarrow> 0)"

fun processed_keys :: "string \<Rightarrow> string \<Rightarrow> string \<Rightarrow> media_content_type \<Rightarrow> media_processing_policy list \<Rightarrow> object_key list result"
where
  "processed_keys og asset version ct [] = Inr []"
| "processed_keys og asset version ct (policy # ps) =
     and_then (ProcessedObjectKey og asset version (policy_kind policy) ct) (\<lambda>key.
     and_then (processed_keys og asset version ct ps) (\<lambda>keys. Inr (key # keys)))"

definition purge_batch :: "db \<Rightarrow> session_row \<Rightarrow> purgeable result" where
  "purge_batch db s =
     (case version_of_session s db of
        None \<Rightarrow> Inr \<lparr>pg_upload = s_id s, pg_version = [], pg_org = s_org s, pg_raw_key = s_raw_key s,
                     pg_processed_keys = [], pg_stored = 0\<rparr>
      | Some v \<Rightarrow>
          and_then (processed_keys (s_org s) (s_asset s) (v_id v) (v_declared v) MediaOutputManifest) (\<lambda>keys.
          Inr \<lparr>pg_upload = s_id s, pg_version = v_id v, pg_org = s_org s, pg_raw_key = s_raw_key s,
               pg_processed_keys = keys, pg_stored = v_size v\<rparr>))"

fun collect :: "('a \<Rightarrow> 'b result) \<Rightarrow> 'a list \<Rightarrow> 'b list result" where
  "collect f [] = Inr []"
| "collect f (x # xs) = and_then (f x) (\<lambda>y. and_then (collect f xs) (\<lambda>ys. Inr (y # ys)))"

definition ClaimPurgeableMediaObjects :: "duration \<Rightarrow> int \<Rightarrow> instant \<Rightarrow> db \<Rightarrow> purgeable list result" where
  "ClaimPurgeableMediaObjects quarantine limit now db =
     (if limit \<le> 0 then Inr []
      else collect (purge_batch db)
             (take (nat limit) (order_by (purge_order db) (filter (purge_due quarantine now db) (sessions db)))))"

definition mark_purged_work :: "purgeable \<Rightarrow> instant \<Rightarrow> db \<Rightarrow> (unit \<times> db) result" where
  "mark_purged_work b now db =
     (if 0 < pg_stored b \<and> \<not> sql_exists (\<lambda>u. us_org u = pg_org b) (usage db) then Inl ErrRecordNotFound
      else
        let c = (\<lambda>s. s_id s = pg_upload b \<and> s_org s = pg_org b \<and> s_purged_at s = None);
            db1 = db\<lparr>sessions := sql_update c (\<lambda>s. s\<lparr>s_purged_at := Some now\<rparr>) (sessions db)\<rparr> in
        if rows_affected c (sessions db) = 0 then Inr ((), db)
        else if pg_version b = [] then Inr ((), db1)
        else
          let db2 = db1\<lparr>outputs := sql_delete (\<lambda>m. m_version m = pg_version b) (outputs db1),
                        versions := sql_update (\<lambda>v. v_id v = pg_version b) (\<lambda>v. v\<lparr>v_raw_retained := False\<rparr>)
                                      (versions db1)\<rparr> in
          if 0 < pg_stored b
          then and_then (releaseStoredBytes (pg_org b) (pg_stored b) db2) (\<lambda>db3. Inr ((), db3))
          else Inr ((), db2))"

definition MarkMediaObjectsPurged :: "purgeable \<Rightarrow> instant \<Rightarrow> db \<Rightarrow> unit result \<times> db" where
  "MarkMediaObjectsPurged b now db = transaction (mark_purged_work b now) db"

section \<open>The status of an asset's media\<close>

record media_status_record =
  st_job :: job_row
  st_version :: version_row
  st_session :: session_row
  st_outputs :: "output_row list"

definition latest_job :: "string \<Rightarrow> string \<Rightarrow> db \<Rightarrow> job_row option" where
  "latest_job og asset db =
     (let js = filter (\<lambda>j. j_org j = og \<and> j_asset j = asset
                 \<and> sql_exists (\<lambda>a. a_id a = asset \<and> a_deleted_at a = None \<and> in_active_folder og a db) (assets db))
               (jobs db) in
      if js = [] then None else Some (last (order_by (\<lambda>j. (j_created_at j, j_id j)) js)))"

definition GetLatestMediaStatus :: "string \<Rightarrow> string \<Rightarrow> db \<Rightarrow> media_status_record result" where
  "GetLatestMediaStatus og asset db =
     and_then (from_option ErrMediaStatusNotFound (latest_job og asset db)) (\<lambda>job.
     and_then (from_option ErrMediaStatusNotFound
        (find (\<lambda>v. v_id v = j_version job \<and> v_org v = og \<and> v_asset v = asset) (versions db))) (\<lambda>version.
     and_then (from_option ErrMediaStatusNotFound
        (find (\<lambda>s. s_id s = v_upload version \<and> s_org s = og \<and> s_asset s = asset) (sessions db))) (\<lambda>session.
       Inr \<lparr>st_job = job, st_version = version, st_session = session,
            st_outputs = order_by m_kind (filter (\<lambda>m. m_version m = v_id version) (outputs db))\<rparr>)))"

section \<open>Exclusive claims\<close>

lemma claim_work_InrD:
  assumes "claim_work st jid owner now now2 t1 t2 now3 db = Inr (r, db')"
  obtains j where "j \<in> set (jobs db)" "claimable st jid now db j"
      "update_jobs (claimable st jid now db) (claim_row st owner now) db = Inr db'"
      "r = Some (claimed_of now j (claim_row st owner now j))"
  | j db1 where "r = None" "j \<in> set (jobs db)" "exhausted st jid now2 j"
      "update_jobs (exhausted st jid now2)
          (\<lambda>r. r\<lparr>j_lease_owner := Some owner, j_lease_expires := Some (now2 + js_expiry st)\<rparr>) db = Inr db1"
      "failExhaustedMediaJob j t1 t2 db1 = Inr db'"
  using assms
  by (auto simp: claim_work_def settleExpiredExhaustedClaim_def split: option.splits if_splits prod.splits
      dest!: find_SomeD)

lemma ClaimJob_InrD:
  assumes "ClaimJob st jid owner now now2 t1 t2 now3 db = (Inr (c, held), db')"
  obtains j where "j \<in> set (jobs db)" "claimable st jid now db j" "owner \<noteq> []"
      "update_jobs (claimable st jid now db) (claim_row st owner now) db = Inr db'"
      "c = claimed_of now j (claim_row st owner now j)"
      "held = \<lparr>lease_holder = owner, lease_until = now + js_expiry st\<rparr>"
proof -
  have o: "owner \<noteq> []" and w: "claim_work st jid owner now now2 t1 t2 now3 db = Inr (Some c, db')"
    and h: "held = lease_of owner (cl_job c)"
    using assms by (auto simp: ClaimJob_def split: if_splits prod.splits sum.splits option.splits dest: transaction_Inr)
  from w show thesis
  proof (cases rule: claim_work_InrD)
    case (1 j)
    have "cl_job c = claim_row st owner now j" using 1(4) by (auto simp: claimed_of_def split: option.splits bool.splits)
    then have "held = \<lparr>lease_holder = owner, lease_until = now + js_expiry st\<rparr>"
      using h by (simp add: lease_of_def claim_row_def)
    with 1 o that show thesis by blast
  qed simp
qed

lemma job_id_unique:
  "tables_ok db \<Longrightarrow> j \<in> set (jobs db) \<Longrightarrow> k \<in> set (jobs db) \<Longrightarrow> j_id j = j_id k \<Longrightarrow> j = k"
  using tables_ok_distinct(4) distinct_map_eq by metis

lemma find_job:
  "tables_ok db \<Longrightarrow> j \<in> set (jobs db) \<Longrightarrow> P j \<Longrightarrow> (\<And>k. P k \<Longrightarrow> j_id k = j_id j) \<Longrightarrow> find P (jobs db) = Some j"
  using find_unique [OF tables_ok_distinct(4)] by blast

text \<open>A claim is refused, and nothing is written, when no row is claimable and none is exhausted.\<close>

lemma ClaimJob_refused:
  assumes "\<And>k. k \<in> set (jobs db) \<Longrightarrow> \<not> claimable st jid now db k \<and> \<not> exhausted st jid now2 k" and "owner \<noteq> []"
  shows "ClaimJob st jid owner now now2 t1 t2 now3 db = (Inl (explainRefusal st jid now3 db), db)"
proof -
  have "find (claimable st jid now db) (jobs db) = None" "find (exhausted st jid now2) (jobs db) = None"
    using assms(1) by (auto simp: find_None_iff)
  then show ?thesis
    using assms(2) by (simp add: ClaimJob_def transaction_def claim_work_def settleExpiredExhaustedClaim_def)
qed

text \<open>C5: A claim is exclusive while its lease lasts: after a worker claimed a job, every other claim of
  that job (and every repeated claim by the same worker) whose database clock readings fall before
  the lease expires is refused as leased and changes nothing.
\<close>
theorem claim_is_exclusive:
  assumes "tables_ok db" and "ClaimJob st jid owner t u1 u2 u3 u4 db = (Inr (c, held), db')"
    and "other \<noteq> []" and "t1 < lease_until held" "t2 < lease_until held" "t3 < lease_until held"
  shows "ClaimJob st jid other t1 t2 v1 v2 t3 db' = (Inl ErrJobLeased, db')"
proof -
  obtain j where j: "j \<in> set (jobs db)" "claimable st jid t db j"
    and up: "update_jobs (claimable st jid t db) (claim_row st owner t) db = Inr db'"
    and h: "lease_until held = t + js_expiry st"
    using assms(2) by (elim ClaimJob_InrD) auto
  let ?r = "claim_row st owner t j"
  have db': "db' = db\<lparr>jobs := sql_update (claimable st jid t db) (claim_row st owner t) (jobs db)\<rparr>"
    using update_jobs_InrD [OF up] by blast
  have id: "j_id j = jid" using j(2) by (simp add: claimable_def)
  have rin: "?r \<in> set (jobs db')" using j by (auto simp: db' intro: sql_update_memI1)
  have d: "distinct (map j_id (jobs db'))"
    using tables_ok_distinct(4) [OF assms(1)] by (simp add: db' claim_row_def)
  have fi: "find (\<lambda>k. j_id k = jid) (jobs db') = Some ?r"
    by (rule find_distinct [OF d rin]) (simp add: claim_row_def id)
  have only: "k = ?r" if "k \<in> set (jobs db')" "j_id k = jid" for k
    using distinct_map_eq [OF d that(1) rin] that(2) id by (simp add: claim_row_def)
  have "\<not> lease_free t1 ?r" "\<not> lease_free t2 ?r" and nf: "\<not> lease_free t3 ?r"
    using assms(4-6) h by (simp_all add: lease_free_def claim_row_def)
  then have "\<not> claimable st jid t1 db' k \<and> \<not> exhausted st jid t2 k" if "k \<in> set (jobs db')" for k
    using only [OF that] by (auto simp: claimable_def exhausted_def)
  then have "ClaimJob st jid other t1 t2 v1 v2 t3 db' = (Inl (explainRefusal st jid t3 db'), db')"
    using assms(3) by (intro ClaimJob_refused) auto
  moreover have "j_isolated_at ?r = None" "j_status ?r = ProcessingJobProcessing"
    using j(2) by (simp_all add: claim_row_def claimable_def)
  ultimately show ?thesis using fi nf by (simp add: explainRefusal_def)
qed

text \<open>C31: Leases fence every terminal write: with a lease the job row does not carry (it was renewed,
  lost to another claim, settled, or has expired by the database clock), renewing, completing,
  failing and settling all change nothing, and report that they did not apply.
\<close>
theorem stale_lease_writes_nothing:
  assumes "\<And>j. j \<in> set (jobs db) \<Longrightarrow> \<not> holds_lease jid held now j"
  shows "RenewLease st jid held now db = (Inl ErrLeaseNotHeld, db)
    \<and> (j_id job = jid \<longrightarrow> SettleExecutionFailure st cd e tp job held now t1 t2 db = (Inr False, db))
    \<and> (fl_job fl = jid \<longrightarrow> FailVersion fl held now t1 t2 db = (Inr False, db))
    \<and> (cm_job cm = jid \<longrightarrow> snd (CompleteAndPromote cm held now t1 t2 db) = db
          \<and> fst (CompleteAndPromote cm held now t1 t2 db) \<in> {Inr False, Inl ErrIncompleteOutputSet})"
proof -
  have none: "find (holds_lease jid held now) (jobs db) = None" using assms by (auto simp: find_None_iff)
  have upd: "sql_update (holds_lease jid held now) f (jobs db) = jobs db" for f
    using assms by (intro sql_update_none) auto
  have "list_all (\<lambda>j. holds_lease jid held now j \<longrightarrow> P j) (jobs db)" for P
    using assms by (auto simp: list_all_iff)
  then have "RenewLease st jid held now db = (Inl ErrLeaseNotHeld, db)"
    using assms by (simp add: RenewLease_def update_jobs_def upd)
  moreover have "requireCompleteOutputSet (cm_outputs cm) = Inr ()
      \<or> requireCompleteOutputSet (cm_outputs cm) = Inl ErrIncompleteOutputSet"
    by (simp add: requireCompleteOutputSet_def)
  then have "cm_job cm = jid \<longrightarrow> snd (CompleteAndPromote cm held now t1 t2 db) = db
          \<and> fst (CompleteAndPromote cm held now t1 t2 db) \<in> {Inr False, Inl ErrIncompleteOutputSet}"
    using none by (auto simp: CompleteAndPromote_def transaction_def complete_work_def lockLeasedJob_def
        split: sum.splits)
  ultimately show ?thesis using none
    by (simp add: SettleExecutionFailure_def FailVersion_def transaction_def settle_work_def fail_work_def
        lockLeasedJob_def)
qed

section \<open>Completion\<close>

lemma insert_outputs_InrD:
  "insert_outputs ms db = Inr db' \<Longrightarrow>
     (\<exists>ns. db' = db\<lparr>outputs := outputs db @ ns\<rparr>) \<and> (tables_ok db \<longrightarrow> tables_ok db')"
proof (induction ms arbitrary: db)
  case Nil
  then show ?case by (auto intro: exI [of _ "[]"])
next
  case (Cons m ms)
  then obtain db1 where m: "insertOutput m db = Inr db1" and r: "insert_outputs ms db1 = Inr db'" by auto
  have "(\<exists>ns. db1 = db\<lparr>outputs := outputs db @ ns\<rparr>) \<and> (tables_ok db \<longrightarrow> tables_ok db1)"
  proof (cases "db1 = db")
    case True
    then show ?thesis by (auto intro: exI [of _ "[]"])
  next
    case False
    then have "insert_output m db = Inr db1" using m by (auto simp: insertOutput_def split: if_splits)
    then show ?thesis using tables_ok_insert(3) insert_output_InrD by blast
  qed
  with Cons.IH [OF r] show ?case by (auto intro: exI [of _ "_ @ _"])
qed

lemma promoteActiveVersion_InrD:
  "promoteActiveVersion cm db = Inr db' \<Longrightarrow>
     db' = db\<lparr>assets := sql_update (promotable cm) (\<lambda>a. a\<lparr>a_active := Some (cm_version cm), a_pending := None\<rparr>)
                     (assets db)\<rparr> \<and> (\<exists>a\<in>set (assets db). promotable cm a)"
  by (auto simp: promoteActiveVersion_def split: if_splits dest!: update_assets_InrD dest: rows_affected_1D)

lemma complete_work_InrD:
  assumes "complete_work cm held now t1 t2 db = Inr (True, db')"
  obtains j ns db1 db2 db3 where
    "j \<in> set (jobs db)" "holds_lease (cm_job cm) held now j"
    "insert_outputs (cm_outputs cm) db = Inr db1" "db1 = db\<lparr>outputs := outputs db @ ns\<rparr>"
    "requireTwoStoredOutputs (cm_version cm) db1 = Inr ()"
    "update_versions
      (\<lambda>v. v_id v = cm_version cm \<and> v_org v = cm_org cm \<and> open_version v \<and> asset_visible (v_asset v) db1)
      (complete_version_row cm t1) db1 = Inr db2"
    "promoteActiveVersion cm db2 = Inr db3"
    "update_jobs (\<lambda>j. j_id j = cm_job cm) (complete_job_row t2) db3 = Inr db'"
proof -
  obtain j db1 db2 db3 where a: "lockLeasedJob (cm_job cm) held now db = Some j"
    "insert_outputs (cm_outputs cm) db = Inr db1" "requireTwoStoredOutputs (cm_version cm) db1 = Inr ()"
    "update_versions
      (\<lambda>v. v_id v = cm_version cm \<and> v_org v = cm_org cm \<and> open_version v \<and> asset_visible (v_asset v) db1)
      (complete_version_row cm t1) db1 = Inr db2"
    "promoteActiveVersion cm db2 = Inr db3"
    "update_jobs (\<lambda>j. j_id j = cm_job cm) (complete_job_row t2) db3 = Inr db'"
    using assms by (auto simp: complete_work_def split: option.splits)
  obtain ns where "db1 = db\<lparr>outputs := outputs db @ ns\<rparr>" using insert_outputs_InrD [OF a(2)] by blast
  with a that show thesis by (auto simp: lockLeasedJob_def dest!: find_SomeD)
qed

lemma stored_kinds:
  assumes "tables_ok db" and "requireTwoStoredOutputs version db = Inr ()"
    and "k = MediaOutputThumbnail \<or> k = MediaOutputWeb"
  shows "\<exists>m\<in>set (outputs db). m_version m = version \<and> m_kind m = k"
proof -
  let ?ks = "map m_kind (filter (\<lambda>m. m_version m = version) (outputs db))"
  have sub: "set ?ks \<subseteq> {MediaOutputThumbnail, MediaOutputWeb}"
    using tables_ok_checks(3) [OF assms(1)] by (auto simp: output_check_def)
  have "card (set ?ks) = 2"
    using assms(2) by (simp add: requireTwoStoredOutputs_def MediaOutputManifest_def length_remdups_card_conv)
  moreover have "card {MediaOutputThumbnail, MediaOutputWeb} = 2" by simp
  ultimately have "set ?ks = {MediaOutputThumbnail, MediaOutputWeb}"
    using card_subset_eq [OF _ sub] by simp
  then have "k \<in> set ?ks" using assms(3) by auto
  then show ?thesis by auto
qed

lemma tables_ok_update_jobs:
  assumes "tables_ok db" "update_jobs c f db = Inr db'"
    and "\<And>j. j_id (f j) = j_id j" "\<And>j. j_version (f j) = j_version j"
  shows "tables_ok db'"
proof -
  have u: "db' = db\<lparr>jobs := sql_update c f (jobs db)\<rparr>" "\<forall>j\<in>set (jobs db). c j \<longrightarrow> job_check (f j)"
    using update_jobs_InrD [OF assms(2)] by auto
  have "no_conflict job_conflict (sql_update c f (jobs db))"
    using assms(1) by (intro no_conflict_update) (auto simp: tables_ok_def job_conflict_def assms(3,4) split: if_splits)
  moreover have "list_all job_check (sql_update c f (jobs db))"
    using assms(1) u(2) by (intro list_all_sql_update) (auto simp: tables_ok_def)
  ultimately show ?thesis using assms(1) by (simp add: u tables_ok_def)
qed

lemma tables_ok_update_versions:
  assumes "tables_ok db" "update_versions c f db = Inr db'"
    and "\<And>v. v_id (f v) = v_id v" "\<And>v. v_upload (f v) = v_upload v" "\<And>v. v_raw_key (f v) = v_raw_key v"
  shows "tables_ok db'"
proof -
  have u: "db' = db\<lparr>versions := sql_update c f (versions db)\<rparr>" "\<forall>v\<in>set (versions db). c v \<longrightarrow> version_check (f v)"
    using update_versions_InrD [OF assms(2)] by auto
  have "no_conflict version_conflict (sql_update c f (versions db))"
    using assms(1) by (intro no_conflict_update)
      (auto simp: tables_ok_def version_conflict_def assms(3-5) split: if_splits)
  moreover have "list_all version_check (sql_update c f (versions db))"
    using assms(1) u(2) by (intro list_all_sql_update) (auto simp: tables_ok_def)
  ultimately show ?thesis using assms(1) by (simp add: u tables_ok_def)
qed

lemma tables_ok_complete:
  assumes "tables_ok db" and "complete_work cm held now t1 t2 db = Inr (True, db')"
  shows "tables_ok db'"
proof -
  obtain j ns db1 db2 db3 where c:
    "j \<in> set (jobs db)" "holds_lease (cm_job cm) held now j"
    "insert_outputs (cm_outputs cm) db = Inr db1" "db1 = db\<lparr>outputs := outputs db @ ns\<rparr>"
    "requireTwoStoredOutputs (cm_version cm) db1 = Inr ()"
    "update_versions
      (\<lambda>v. v_id v = cm_version cm \<and> v_org v = cm_org cm \<and> open_version v \<and> asset_visible (v_asset v) db1)
      (complete_version_row cm t1) db1 = Inr db2"
    "promoteActiveVersion cm db2 = Inr db3"
    "update_jobs (\<lambda>j. j_id j = cm_job cm) (complete_job_row t2) db3 = Inr db'"
    by (rule complete_work_InrD [OF assms(2)])
  have "tables_ok db1" using insert_outputs_InrD [OF c(3)] assms(1) by blast
  then have "tables_ok db2" using c(6)
    by (rule tables_ok_update_versions) (simp_all add: complete_version_row_def)
  then have "tables_ok db3" using promoteActiveVersion_InrD [OF c(7)] tables_ok_update_assets by auto
  then show ?thesis using c(8) by (rule tables_ok_update_jobs) (simp_all add: complete_job_row_def)
qed

text \<open>C4: A completion that applied was made under a live lease and promoted the asset's own pending
  version: that version's row is completed with the detected type, dimensions and digest, the asset,
  which is not deleted, now has it active and nothing pending, the job is completed and unleased, and
  exactly the two outputs of the manifest are stored for it, each inside its bounding box.
\<close>
theorem completion_promotes:
  assumes "tables_ok db" and "CompleteAndPromote cm held now t1 t2 db = (Inr True, db')"
    and "v \<in> set (versions db)" "v_id v = cm_version cm" "v_org v = cm_org cm" "v_asset v = cm_asset cm" "open_version v"
  shows "(\<exists>j\<in>set (jobs db). holds_lease (cm_job cm) held now j \<and> complete_job_row t2 j \<in> set (jobs db'))
    \<and> complete_version_row cm t1 v \<in> set (versions db')
    \<and> (\<exists>a\<in>set (assets db). a_id a = cm_asset cm \<and> a_pending a = Some (cm_version cm) \<and> a_deleted_at a = None
         \<and> a\<lparr>a_active := Some (cm_version cm), a_pending := None\<rparr> \<in> set (assets db'))
    \<and> (\<exists>m\<in>set (outputs db'). m_version m = cm_version cm \<and> m_kind m = MediaOutputThumbnail
         \<and> 0 < m_width m \<and> m_width m \<le> 256 \<and> 0 < m_height m \<and> m_height m \<le> 256)
    \<and> (\<exists>m\<in>set (outputs db'). m_version m = cm_version cm \<and> m_kind m = MediaOutputWeb
         \<and> 0 < m_width m \<and> m_width m \<le> 1080 \<and> 0 < m_height m \<and> m_height m \<le> 1080)
    \<and> (\<forall>m\<in>set (outputs db'). m_version m = cm_version cm \<longrightarrow> m_kind m \<in> {MediaOutputThumbnail, MediaOutputWeb})"
proof -
  have w: "complete_work cm held now t1 t2 db = Inr (True, db')"
    using assms(2) by (auto simp: CompleteAndPromote_def split: sum.splits dest: transaction_Inr)
  obtain j ns db1 db2 db3 where j: "j \<in> set (jobs db)" "holds_lease (cm_job cm) held now j" and c:
    "insert_outputs (cm_outputs cm) db = Inr db1" "db1 = db\<lparr>outputs := outputs db @ ns\<rparr>"
    "requireTwoStoredOutputs (cm_version cm) db1 = Inr ()"
    "update_versions
      (\<lambda>v. v_id v = cm_version cm \<and> v_org v = cm_org cm \<and> open_version v \<and> asset_visible (v_asset v) db1)
      (complete_version_row cm t1) db1 = Inr db2"
    "promoteActiveVersion cm db2 = Inr db3"
    "update_jobs (\<lambda>j. j_id j = cm_job cm) (complete_job_row t2) db3 = Inr db'"
    by (rule complete_work_InrD [OF w])
  note u2 = update_versions_InrD [OF c(4)] and u3 = promoteActiveVersion_InrD [OF c(5)]
    and u4 = update_jobs_InrD [OF c(6)]
  have ok1: "tables_ok db1" using insert_outputs_InrD [OF c(1)] assms(1) by blast
  obtain a where a: "a \<in> set (assets db)" "promotable cm a" using u2 u3 c(2) by auto
  then have vis: "asset_visible (v_asset v) db1"
    using assms(6) c(2) by (auto simp: asset_visible_def sql_exists_iff promotable_def)
  have jr: "complete_job_row t2 j \<in> set (jobs db')"
    using j u2 u3 u4 c(2) by (auto simp: holds_lease_def intro!: sql_update_memI1)
  have vr: "complete_version_row cm t1 v \<in> set (versions db')"
    using assms(3-7) vis u2 u3 u4 c(2) by (auto intro!: sql_update_memI1)
  have ar: "a\<lparr>a_active := Some (cm_version cm), a_pending := None\<rparr> \<in> set (assets db')"
    using a u2 u3 u4 c(2) sql_update_memI1 [of a "assets db" "promotable cm"] by simp
  have o: "outputs db' = outputs db1" using u2 u3 u4 by simp
  have oc: "output_check m" if "m \<in> set (outputs db')" for m
    using tables_ok_checks(3) [OF ok1] that o by simp
  obtain m1 where m1: "m1 \<in> set (outputs db')" "m_version m1 = cm_version cm" "m_kind m1 = MediaOutputThumbnail"
    using stored_kinds [OF ok1 c(3), of MediaOutputThumbnail] o by auto
  obtain m2 where m2: "m2 \<in> set (outputs db')" "m_version m2 = cm_version cm" "m_kind m2 = MediaOutputWeb"
    using stored_kinds [OF ok1 c(3), of MediaOutputWeb] o by auto
  have b1: "0 < m_width m1 \<and> m_width m1 \<le> 256 \<and> 0 < m_height m1 \<and> m_height m1 \<le> 256"
    using oc [OF m1(1)] m1(3) by (simp add: output_check_def)
  have b2: "0 < m_width m2 \<and> m_width m2 \<le> 1080 \<and> 0 < m_height m2 \<and> m_height m2 \<le> 1080"
    using oc [OF m2(1)] m2(3) by (simp add: output_check_def)
  have k: "\<forall>m\<in>set (outputs db'). m_version m = cm_version cm \<longrightarrow> m_kind m \<in> {MediaOutputThumbnail, MediaOutputWeb}"
    using oc by (auto simp: output_check_def)
  have p: "a_id a = cm_asset cm \<and> a_pending a = Some (cm_version cm) \<and> a_deleted_at a = None"
    using a(2) by (simp add: promotable_def)
  show ?thesis
    using j(1) j(2) jr vr ar a(1) p m1 b1 m2 b2 k by blast
qed

section \<open>Settling a failed execution\<close>

lemma failMediaVersion_InrD:
  assumes "failMediaVersion fl t1 t2 db = Inr db'"
  shows "db' = db\<lparr>versions := sql_update (\<lambda>v. v_id v = fl_version fl \<and> v_org v = fl_org fl)
                     (fail_version_row (fl_code fl) t1) (versions db),
                   assets := sql_update (\<lambda>a. a_id a = fl_asset fl \<and> a_pending a = Some (fl_version fl))
                     (\<lambda>a. a\<lparr>a_pending := None\<rparr>) (assets db),
                   jobs := sql_update (\<lambda>j. j_id j = fl_job fl) (fail_job_row (fl_code fl) t2) (jobs db)\<rparr>
    \<and> (\<forall>j\<in>set (jobs db). j_id j = fl_job fl \<longrightarrow> job_check (fail_job_row (fl_code fl) t2 j))"
  using assms
  by (auto simp: failMediaVersion_def clearPendingMediaVersion_def dest!: update_versions_InrD update_jobs_InrD)

lemma insertOutboxJSON_InrD:
  "insertOutboxJSON (pending_outbox e jid doc due now) db = Inr db' \<Longrightarrow>
     insert_outbox (pending_outbox e jid doc due now) db = Inr db'"
  by (simp add: insertOutboxJSON_def pending_outbox_def split: if_splits)

lemma settle_work_InrD:
  assumes "settle_work st cd e tp job held now t1 t2 db = Inr (True, db')"
  obtains current where "current \<in> set (jobs db)" "holds_lease (j_id job) held now current"
      "j_attempts current = j_attempts job" "js_attempts st \<le> j_attempts current"
      "failExhaustedMediaJob current t1 t2 db = Inr db'"
  | current doc db1 where "current \<in> set (jobs db)" "holds_lease (j_id job) held now current"
      "j_attempts current = j_attempts job" "j_attempts current < js_attempts st" "1 \<le> j_attempts current"
      "update_jobs (\<lambda>j. j_id j = j_id current)
         (retry_job_row (t1 + js_delays st ! nat (j_attempts current - 1))) db = Inr db1"
      "insert_outbox (pending_outbox e (j_id current) doc
         (t1 + js_delays st ! nat (j_attempts current - 1)) t1) db1 = Inr db'"
proof -
  obtain cur where l: "lockLeasedJob (j_id job) held now db = Some cur"
    using assms by (auto simp: settle_work_def split: option.splits)
  have c: "cur \<in> set (jobs db)" "holds_lease (j_id job) held now cur"
    using l by (auto simp: lockLeasedJob_def dest: find_SomeD)
  have at: "j_attempts cur = j_attempts job"
    using assms l by (auto simp: settle_work_def split: if_splits)
  show thesis
  proof (cases "js_attempts st \<le> j_attempts cur")
    case True
    then show thesis using assms l that(1) [OF c at] by (auto simp: settle_work_def split: if_splits)
  next
    case False
    let ?due = "t1 + js_delays st ! nat (j_attempts cur - 1)"
    obtain db1 where u: "update_jobs (\<lambda>j. j_id j = j_id cur) (retry_job_row ?due) db = Inr db1"
      and i: "insertMediaRetryOutbox cd e tp cur t1 ?due db1 = Inr db'" and ge: "1 \<le> j_attempts cur"
      using assms l False by (auto simp: settle_work_def Let_def split: if_splits)
    obtain doc where "insert_outbox (pending_outbox e (j_id cur) doc ?due t1) db1 = Inr db'"
      using i by (auto simp: insertMediaRetryOutbox_def split: option.splits if_splits dest: insertOutboxJSON_InrD)
    with that(2) [OF c at _ ge u] False show thesis by auto
  qed
qed

text \<open>A failed execution that was settled ends in exactly one of two ways. On the last permitted
  attempt the job and its version are failed with the processing-failure code, the asset's pending
  pointer to that version is cleared and no event is written. Before that, the job is queued again,
  unleased, due after the delay configured for its attempt, and one pending event due at the same
  moment is added for it; version and asset are left alone.
\<close>
theorem settle_retries_then_fails:
  assumes "SettleExecutionFailure st cd e tp job held now t1 t2 db = (Inr True, db')"
  shows "\<exists>cur\<in>set (jobs db). holds_lease (j_id job) held now cur \<and> j_attempts cur = j_attempts job
    \<and> (if js_attempts st \<le> j_attempts cur
       then fail_job_row mediaProcessingFailedCode t2 cur \<in> set (jobs db') \<and> outbox db' = outbox db
         \<and> (\<forall>v\<in>set (versions db). v_id v = j_version cur \<and> v_org v = j_org cur \<longrightarrow>
              fail_version_row mediaProcessingFailedCode t1 v \<in> set (versions db'))
         \<and> (\<forall>a\<in>set (assets db'). a_id a = j_asset cur \<longrightarrow> a_pending a \<noteq> Some (j_version cur))
       else let due = t1 + js_delays st ! nat (j_attempts cur - 1) in
         retry_job_row due cur \<in> set (jobs db') \<and> versions db' = versions db \<and> assets db' = assets db
         \<and> (\<exists>doc. outbox db' = outbox db @ [pending_outbox e (j_id cur) doc due t1]))"
proof -
  have w: "settle_work st cd e tp job held now t1 t2 db = Inr (True, db')"
    using assms by (auto simp: SettleExecutionFailure_def dest: transaction_Inr)
  then show ?thesis
  proof (cases rule: settle_work_InrD)
    case (1 cur)
    note f = failMediaVersion_InrD [OF 1(5) [unfolded failExhaustedMediaJob_def]]
    have "fail_job_row mediaProcessingFailedCode t2 cur \<in> set (jobs db')"
      using 1(1) f by (auto intro: sql_update_memI1)
    moreover have "fail_version_row mediaProcessingFailedCode t1 v \<in> set (versions db')"
      if "v \<in> set (versions db)" "v_id v = j_version cur" "v_org v = j_org cur" for v
      using that f by (auto intro: sql_update_memI1)
    moreover have "a_pending a \<noteq> Some (j_version cur)" if "a \<in> set (assets db')" "a_id a = j_asset cur" for a
      using that f by (auto elim!: sql_update_memE)
    moreover have "outbox db' = outbox db" using f by simp
    ultimately show ?thesis using 1 by (intro bexI [of _ cur]) auto
  next
    case (2 cur doc db1)
    note u = update_jobs_InrD [OF 2(6)] and o = insert_outbox_InrD [OF 2(7)]
    have "retry_job_row (t1 + js_delays st ! nat (j_attempts cur - 1)) cur \<in> set (jobs db')"
      using 2(1) u o by (auto intro: sql_update_memI1)
    then show ?thesis using 2 u o by (intro bexI [of _ cur]) (auto simp: Let_def)
  qed
qed

text \<open>A retry cannot be settled while the event that triggered the run is still unpublished in the
  outbox (the broker has it, but the relay has not marked it yet): the new event breaks the index of
  one unpublished event per job, the settlement fails with an error and everything is rolled back, so
  the job stays leased until its lease expires.
\<close>
theorem settlement_blocked_by_unpublished_event:
  assumes "cur \<in> set (jobs db)" "holds_lease (j_id job) held now cur" "tables_ok db"
    and "j_attempts cur < js_attempts st" and "x \<in> set (outbox db)" "x_job x = j_id job" "unpublished x"
  shows "snd (SettleExecutionFailure st cd e tp job held now t1 t2 db) = db
    \<and> \<not> is_ok (fst (SettleExecutionFailure st cd e tp job held now t1 t2 db))"
proof (cases "settle_work st cd e tp job held now t1 t2 db")
  case (Inl err)
  then show ?thesis by (simp add: SettleExecutionFailure_def transaction_def)
next
  case (Inr r)
  then obtain b db' where r: "settle_work st cd e tp job held now t1 t2 db = Inr (b, db')" by (cases r) auto
  have fnd: "lockLeasedJob (j_id job) held now db = Some cur"
    unfolding lockLeasedJob_def
    by (rule find_job [OF assms(3,1)]) (use assms(2) in \<open>simp_all add: holds_lease_def\<close>)
  have b using r fnd assms(4) by (auto simp: settle_work_def Let_def split: if_splits)
  then have "settle_work st cd e tp job held now t1 t2 db = Inr (True, db')" using r by simp
  then have False
  proof (cases rule: settle_work_InrD)
    case (1 c)
    then have "c = cur" using job_id_unique [OF assms(3) _ assms(1)] assms(2) by (simp add: holds_lease_def)
    with 1 assms(4) show False by simp
  next
    case (2 c doc db1)
    have "outbox_conflict (pending_outbox e (j_id c) doc (t1 + js_delays st ! nat (j_attempts c - 1)) t1) x"
      using 2(2) assms(6,7) by (simp add: outbox_conflict_def pending_outbox_def holds_lease_def unpublished_def)
    then show False using insert_outbox_InrD [OF 2(7)] update_jobs_InrD [OF 2(6)] assms(5) by auto
  qed
  then show ?thesis ..
qed

section \<open>Isolation and replay\<close>

lemma RebuildAndEnqueue_InrD:
  assumes "RebuildAndEnqueue cd jid operator e now db = (Inr ev, db')"
  obtains job doc where "job \<in> set (jobs db)" "j_id job = jid" "isolated_job job"
    "db' = db\<lparr>jobs := sql_update (\<lambda>j. j_id j = jid \<and> isolated_job j) (restore_row now) (jobs db),
             outbox := outbox db @ [pending_outbox e jid doc now now]\<rparr>"
    "operator \<in> set (users db)"
    "\<forall>j\<in>set (jobs db). j_id j = jid \<and> isolated_job j \<longrightarrow> job_check (restore_row now j)"
    "\<forall>y\<in>set (outbox db). \<not> outbox_conflict (pending_outbox e jid doc now now) y"
proof -
  have w: "replay_work cd jid operator e now db = Inr ((), db')"
    using assms by (auto simp: RebuildAndEnqueue_def split: if_splits prod.splits sum.splits dest: transaction_Inr)
  obtain job doc db1 where a: "find (\<lambda>j. j_id j = jid) (jobs db) = Some job" "isolated_job job"
    "operator \<in> set (users db)"
    "update_jobs (\<lambda>j. j_id j = j_id job \<and> isolated_job j) (restore_row now) db = Inr db1"
    "insertOutboxJSON (pending_outbox e (j_id job) doc now now) db1 = Inr db'"
    using w by (auto simp: replay_work_def split: if_splits)
  have j: "job \<in> set (jobs db)" "j_id job = jid" using a(1) by (auto dest: find_SomeD)
  note u = update_jobs_InrD [OF a(4)] and o = insert_outbox_InrD [OF insertOutboxJSON_InrD [OF a(5)]]
  show thesis by (rule that [of job doc]) (use j a u o in auto)
qed

text \<open>Replaying an isolated job that had used all its attempts strands it: the replay queues the job
  and its event without resetting the attempt count, so every later claim, at any time and by any
  worker, is refused as exhausted and writes nothing; the job is neither run nor failed again.
\<close>
theorem replay_of_exhausted_job_strands_it:
  assumes "tables_ok db" and "RebuildAndEnqueue cd jid operator e now db = (Inr ev, db')"
    and "j \<in> set (jobs db)" "j_id j = jid" "js_attempts st \<le> j_attempts j" and "owner \<noteq> []"
  shows "ClaimJob st jid owner t1 t2 u1 u2 t3 db' = (Inl ErrJobExhausted, db')
    \<and> (\<exists>k\<in>set (jobs db'). j_id k = jid \<and> j_status k = ProcessingJobQueued)"
proof -
  obtain job doc where job: "job \<in> set (jobs db)" "j_id job = jid" "isolated_job job"
    and db': "db' = db\<lparr>jobs := sql_update (\<lambda>j. j_id j = jid \<and> isolated_job j) (restore_row now) (jobs db),
             outbox := outbox db @ [pending_outbox e jid doc now now]\<rparr>"
    using assms(2) by (rule RebuildAndEnqueue_InrD)
  have "j = job" using job_id_unique [OF assms(1,3) job(1)] assms(4) job(2) by simp
  let ?r = "restore_row now job"
  have rin: "?r \<in> set (jobs db')" using job by (auto simp: db' intro: sql_update_memI1)
  have d: "distinct (map j_id (jobs db'))"
    using tables_ok_distinct(4) [OF assms(1)] by (simp add: db' restore_row_def)
  have fi: "find (\<lambda>k. j_id k = jid) (jobs db') = Some ?r"
    by (rule find_distinct [OF d rin]) (simp add: restore_row_def job(2))
  have only: "k = ?r" if "k \<in> set (jobs db')" "j_id k = jid" for k
    using distinct_map_eq [OF d that(1) rin] that(2) job(2) by (simp add: restore_row_def)
  have at: "js_attempts st \<le> j_attempts ?r" using assms(5) \<open>j = job\<close> by (simp add: restore_row_def)
  have q: "j_status ?r = ProcessingJobQueued" "j_isolated_at ?r = None" "lease_free t ?r" for t
    by (simp_all add: restore_row_def lease_free_def)
  have "\<not> claimable st jid t1 db' k \<and> \<not> exhausted st jid t2 k" if "k \<in> set (jobs db')" for k
    using only [OF that] at q by (auto simp: claimable_def exhausted_def)
  then have "ClaimJob st jid owner t1 t2 u1 u2 t3 db' = (Inl (explainRefusal st jid t3 db'), db')"
    using assms(6) by (intro ClaimJob_refused) auto
  then show ?thesis using fi at q rin job(2)
    by (auto simp: explainRefusal_def restore_row_def intro!: bexI [OF _ rin])
qed

section \<open>A concrete run\<close>

definition demo_store :: job_store where
  "demo_store = \<lparr>js_expiry = 30, js_delays = [5, 25]\<rparr>"

definition demo_claim :: "(claimed_job \<times> job_lease) result \<times> db" where
  "demo_claim = ClaimJob demo_store ''j'' ''w'' 20 20 20 20 20 demo_committed_db"

definition demo_claimed_db :: db where
  "demo_claimed_db = snd demo_claim"

definition demo_lease :: job_lease where
  "demo_lease = \<lparr>lease_holder = ''w'', lease_until = 50\<rparr>"

lemma demo_committed_ok: "tables_ok demo_committed_db" "ledger_ok demo_committed_db"
proof -
  obtain acc where "commit_work (demo_codec JNull) demo_commit_request demo_attributes demo_ids [] 10 11 demo_opened_db
      = Inr ((acc, False), demo_committed_db)"
    using demo_commit_new
    by (cases demo_commit) (auto simp: demo_commit_def demo_committed_db_def commit_transaction_def
        split: sum.splits prod.splits dest: transaction_Inr)
  then show "tables_ok demo_committed_db" "ledger_ok demo_committed_db"
    using tables_ok_commit_rows [OF demo_opened_ok(1)] ledger_commit_rows [OF demo_opened_ok(2,1)]
    by (auto elim!: commit_work_InrD)
qed

lemma demo_claim_ok:
  "case demo_claim of (Inr (c, l), _) \<Rightarrow> lease_holder l = ''w'' \<and> lease_until l = 50 \<and> j_attempts (cl_job c) = 1 | _ \<Rightarrow> False"
  by code_simp

lemma demo_claim_eq:
  obtains c where "ClaimJob demo_store ''j'' ''w'' 20 20 20 20 20 demo_committed_db = (Inr (c, demo_lease), demo_claimed_db)"
  using demo_claim_ok that
  by (cases demo_claim) (auto simp: demo_claim_def demo_claimed_db_def demo_lease_def split: sum.splits prod.splits)

theorem claim_is_exclusive_witness:
  "ClaimJob demo_store ''j'' ''other'' 30 30 0 0 30 demo_claimed_db = (Inl ErrJobLeased, demo_claimed_db)"
  by (rule demo_claim_eq)
    (rule claim_is_exclusive [OF demo_committed_ok(1)], assumption, simp_all add: demo_lease_def)

theorem stale_lease_writes_nothing_witness:
  "RenewLease demo_store ''j'' (demo_lease\<lparr>lease_until := 40\<rparr>) 30 demo_claimed_db = (Inl ErrLeaseNotHeld, demo_claimed_db)"
proof -
  have l: "list_all (\<lambda>j. \<not> holds_lease ''j'' (demo_lease\<lparr>lease_until := 40\<rparr>) 30 j) (jobs demo_claimed_db)"
    by code_simp
  have h: "\<And>j. j \<in> set (jobs demo_claimed_db) \<Longrightarrow> \<not> holds_lease ''j'' (demo_lease\<lparr>lease_until := 40\<rparr>) 30 j"
    using l by (simp add: list_all_iff)
  from stale_lease_writes_nothing [OF h] show ?thesis by blast
qed

lemma demo_claimed_ok: "tables_ok demo_claimed_db"
proof (rule demo_claim_eq)
  fix c assume "ClaimJob demo_store ''j'' ''w'' 20 20 20 20 20 demo_committed_db = (Inr (c, demo_lease), demo_claimed_db)"
  then show ?thesis
    by (elim ClaimJob_InrD) (rule tables_ok_update_jobs [OF demo_committed_ok(1)], assumption, simp_all add: claim_row_def)
qed

text \<open>The relay marks the first event published; then the job completes, or fails and is retried.\<close>

definition demo_running_db :: db where
  "demo_running_db = demo_claimed_db\<lparr>outbox := map (\<lambda>x. x\<lparr>x_status := OutboxPublished, x_published_at := Some 15\<rparr>)
     (outbox demo_claimed_db)\<rparr>"

lemma demo_running_ok: "tables_ok demo_running_db"
proof -
  have "demo_running_db = demo_claimed_db\<lparr>outbox := sql_update (\<lambda>_. True)
      (\<lambda>x. x\<lparr>x_status := OutboxPublished, x_published_at := Some 15\<rparr>) (outbox demo_claimed_db)\<rparr>"
    by (simp add: demo_running_db_def sql_update_def)
  moreover have "tables_ok (demo_claimed_db\<lparr>outbox := sql_update (\<lambda>_. True)
      (\<lambda>x. x\<lparr>x_status := OutboxPublished, x_published_at := Some 15\<rparr>) (outbox demo_claimed_db)\<rparr>)"
    by (rule tables_ok_update_outbox [OF demo_claimed_ok]) (simp_all add: unpublished_def outbox_check_def)
  ultimately show ?thesis by simp
qed

definition demo_job :: job_row where
  "demo_job = hd (jobs demo_claimed_db)"

definition demo_output :: "string \<Rightarrow> media_output_kind \<Rightarrow> output_row" where
  "demo_output i kind = \<lparr>m_id = i, m_version = ''v'', m_kind = kind, m_key = i, m_content_type = ''image/png'',
     m_width = 10, m_height = 20, m_size = 30, m_sha256 = demo_digest, m_created_at = 30\<rparr>"

definition demo_completion :: media_completion where
  "demo_completion = \<lparr>cm_job = ''j'', cm_version = ''v'', cm_org = ''o'', cm_asset = ''a'', cm_detected = ''image/png'',
     cm_width = 10, cm_height = 20, cm_sha256 = demo_digest,
     cm_outputs = [demo_output ''m1'' ''thumbnail'', demo_output ''m2'' ''web'']\<rparr>"

theorem completion_promotes_witness:
  "\<exists>a\<in>set (assets demo_running_db). a_pending a = Some ''v''
     \<and> a\<lparr>a_active := Some ''v'', a_pending := None\<rparr>
         \<in> set (assets (snd (CompleteAndPromote demo_completion demo_lease 30 31 32 demo_running_db)))"
proof -
  let ?r = "CompleteAndPromote demo_completion demo_lease 30 31 32 demo_running_db"
  have "case fst ?r of Inr b \<Rightarrow> b | _ \<Rightarrow> False" by code_simp
  then have r: "?r = (Inr True, snd ?r)" by (cases ?r) (auto split: sum.splits)
  have "list_ex (\<lambda>v. v_id v = ''v'' \<and> v_org v = ''o'' \<and> v_asset v = ''a'' \<and> v_status v = MediaVersionPending)
      (versions demo_running_db)"
    by code_simp
  then obtain v where v: "v \<in> set (versions demo_running_db)" "v_id v = cm_version demo_completion"
    "v_org v = cm_org demo_completion" "v_asset v = cm_asset demo_completion" "open_version v"
    by (auto simp: list_ex_iff demo_completion_def open_version_def)
  from completion_promotes [OF demo_running_ok r v] show ?thesis by (auto simp: demo_completion_def)
qed

theorem settle_retries_then_fails_witness:
  "\<exists>doc. outbox (snd (SettleExecutionFailure demo_store (demo_codec JNull) ''y'' [] demo_job demo_lease 30 31 32 demo_running_db))
     = outbox demo_running_db @ [pending_outbox ''y'' ''j'' doc 36 31]"
proof -
  let ?r = "SettleExecutionFailure demo_store (demo_codec JNull) ''y'' [] demo_job demo_lease 30 31 32 demo_running_db"
  have "case fst ?r of Inr b \<Rightarrow> b | _ \<Rightarrow> False" by code_simp
  then have r: "?r = (Inr True, snd ?r)" by (cases ?r) (auto split: sum.splits)
  have j: "j_id demo_job = ''j''" "j_attempts demo_job = 1" by code_simp+
  from settle_retries_then_fails [OF r] show ?thesis
    by (auto simp: j holds_lease_def demo_store_def js_attempts_def Let_def)
qed

theorem settlement_blocked_by_unpublished_event_witness:
  "snd (SettleExecutionFailure demo_store (demo_codec JNull) ''y'' [] demo_job demo_lease 30 31 32 demo_claimed_db)
     = demo_claimed_db"
proof -
  have "list_ex (\<lambda>j. holds_lease (j_id demo_job) demo_lease 30 j \<and> j_attempts j < js_attempts demo_store) (jobs demo_claimed_db)"
    "list_ex (\<lambda>x. x_job x = j_id demo_job \<and> unpublished x) (outbox demo_claimed_db)"
    by code_simp+
  then obtain j x where "j \<in> set (jobs demo_claimed_db)" "holds_lease (j_id demo_job) demo_lease 30 j"
    "j_attempts j < js_attempts demo_store" "x \<in> set (outbox demo_claimed_db)" "x_job x = j_id demo_job" "unpublished x"
    by (auto simp: list_ex_iff)
  from settlement_blocked_by_unpublished_event [OF this(1,2) demo_claimed_ok this(3-6)] show ?thesis by blast
qed

text \<open>The third attempt is isolated while it runs, then replayed.\<close>

definition demo_isolated_db :: db where
  "demo_isolated_db = snd (IsolateNotification ''j'' 40
     (demo_running_db\<lparr>jobs := map (\<lambda>j. j\<lparr>j_attempts := 3\<rparr>) (jobs demo_running_db)\<rparr>))"

definition demo_replay :: "string result \<times> db" where
  "demo_replay = RebuildAndEnqueue (demo_codec JNull) ''j'' ''u'' ''z'' 60 demo_isolated_db"

lemma demo_isolated_ok: "tables_ok demo_isolated_db"
proof -
  have "tables_ok (demo_running_db\<lparr>jobs := sql_update (\<lambda>_. True) (\<lambda>j. j\<lparr>j_attempts := 3\<rparr>) (jobs demo_running_db)\<rparr>)"
  proof (rule tables_ok_update_jobs [OF demo_running_ok])
    have "list_all (\<lambda>j. job_check (j\<lparr>j_attempts := 3\<rparr>)) (jobs demo_running_db)" by code_simp
    then show "update_jobs (\<lambda>_. True) (\<lambda>j. j\<lparr>j_attempts := 3\<rparr>) demo_running_db
       = Inr (demo_running_db\<lparr>jobs := sql_update (\<lambda>_. True) (\<lambda>j. j\<lparr>j_attempts := 3\<rparr>) (jobs demo_running_db)\<rparr>)"
      by (simp add: update_jobs_def)
  qed simp_all
  then have "tables_ok (demo_running_db\<lparr>jobs := map (\<lambda>j. j\<lparr>j_attempts := 3\<rparr>) (jobs demo_running_db)\<rparr>)"
    by (simp add: sql_update_def)
  then show ?thesis
    unfolding demo_isolated_db_def IsolateNotification_def
    by (auto split: sum.split dest: tables_ok_update_jobs simp: isolate_row_def)
qed

theorem replay_of_exhausted_job_strands_it_witness:
  "ClaimJob demo_store ''j'' ''w'' 99 99 99 99 99 (snd demo_replay) = (Inl ErrJobExhausted, snd demo_replay)"
proof -
  have "case fst demo_replay of Inr _ \<Rightarrow> True | _ \<Rightarrow> False" by code_simp
  then obtain ev where r: "RebuildAndEnqueue (demo_codec JNull) ''j'' ''u'' ''z'' 60 demo_isolated_db = (Inr ev, snd demo_replay)"
    by (cases demo_replay) (auto simp: demo_replay_def split: sum.splits)
  have "list_ex (\<lambda>j. j_id j = ''j'' \<and> js_attempts demo_store \<le> j_attempts j) (jobs demo_isolated_db)" by code_simp
  then obtain j where "j \<in> set (jobs demo_isolated_db)" "j_id j = ''j''" "js_attempts demo_store \<le> j_attempts j"
    by (auto simp: list_ex_iff)
  from replay_of_exhausted_job_strands_it [OF demo_isolated_ok r this, of "''w''" 99 99 99 99 99] show ?thesis by simp
qed

end
