(* ===== verification/Image_Validation.thy ===== *)
theory Image_Validation
  imports Media_Domain "HOL-Library.Word"
begin

unbundle bit_operations_syntax

text \<open>
  \<open>internal/media/validation\<close>: admission of uploaded image bytes. \<open>png.go\<close> walks the chunks of a
  PNG stream and checks every CRC, \<open>jpeg.go\<close> walks the marker segments of a JPEG stream, and
  \<open>validation.go\<close> compares the detected type with the declared one and bounds the dimensions.
  A slice or index out of range, which panics in Go, is the error \<open>Panic\<close>. The header decoder
  (\<open>image.DecodeConfig\<close> with the registered JPEG and PNG decoders) is a parameter.
\<close>

type_synonym byte = "8 word"

datatype validation_error =
    ErrNotAnImage | ErrTypeMismatch | ErrDimensionsExceeded | ErrCorruptContainer
  | ErrTrailingContent | ErrUnsupportedFeature | Panic

section \<open>Slices and big-endian integers\<close>

definition slice :: "'a list \<Rightarrow> nat \<Rightarrow> nat \<Rightarrow> 'a list option" where
  "slice data i j = (if i \<le> j \<and> j \<le> length data then Some (take (j - i) (drop i data)) else None)"

definition index_at :: "'a list \<Rightarrow> nat \<Rightarrow> 'a option" where
  "index_at data i = (if i < length data then Some (data ! i) else None)"

fun be_nat :: "byte list \<Rightarrow> nat" where
  "be_nat [] = 0"
| "be_nat (b # bs) = unat b * 256 ^ length bs + be_nat bs"

lemma unat_byte: "unat (b :: byte) < 256"
  using unsigned_less [where ?'a = nat and w = b] by simp

lemma be_nat_bound: "be_nat bs < 256 ^ length bs"
proof (induction bs)
  case (Cons b bs)
  have "unat b * 256 ^ length bs + be_nat bs < (unat b + 1) * 256 ^ length bs" using Cons by simp
  also have "\<dots> \<le> 256 * 256 ^ length bs"
    using unat_byte [of b] by (intro mult_right_mono) auto
  finally show ?case by simp
qed simp

section \<open>CRC-32 (IEEE)\<close>

definition crc_bit :: "32 word \<Rightarrow> 32 word" where
  "crc_bit x = (if x AND 1 = 1 then drop_bit 1 x XOR 0xEDB88320 else drop_bit 1 x)"

definition crc_byte :: "32 word \<Rightarrow> byte \<Rightarrow> 32 word" where
  "crc_byte c b =
     crc_bit (crc_bit (crc_bit (crc_bit (crc_bit (crc_bit (crc_bit (crc_bit (c XOR ucast b))))))))"

definition crc32 :: "byte list \<Rightarrow> nat" where
  "crc32 bs = unat (foldl crc_byte 0xFFFFFFFF bs XOR 0xFFFFFFFF)"

section \<open>PNG\<close>

definition pngChunkHeaderBytes :: nat where "pngChunkHeaderBytes = 8"
definition pngChunkCRCBytes :: nat where "pngChunkCRCBytes = 4"

definition pngSignature :: "byte list" where
  "pngSignature = [0x89, 0x50, 0x4E, 0x47, 0x0D, 0x0A, 0x1A, 0x0A]"

definition jpegSignature :: "byte list" where
  "jpegSignature = [0xFF, 0xD8, 0xFF]"

definition IHDR :: "byte list" where "IHDR = [0x49, 0x48, 0x44, 0x52]"
definition IEND :: "byte list" where "IEND = [0x49, 0x45, 0x4E, 0x44]"
definition acTL :: "byte list" where "acTL = [0x61, 0x63, 0x54, 0x4C]"
definition fcTL :: "byte list" where "fcTL = [0x66, 0x63, 0x54, 0x4C]"
definition fdAT :: "byte list" where "fdAT = [0x66, 0x64, 0x41, 0x54]"

lemmas png_types = IHDR_def IEND_def acTL_def fcTL_def fdAT_def

definition bytes_have_prefix :: "byte list \<Rightarrow> byte list \<Rightarrow> bool" where
  "bytes_have_prefix p s \<longleftrightarrow> take (length p) s = p"

text \<open>The chunk type decides: an error, or the new header and terminator flags.\<close>

definition png_switch ::
  "byte list \<Rightarrow> nat \<Rightarrow> bool \<Rightarrow> validation_error + (bool \<times> bool)" where
  "png_switch chunkType offset sawHeader =
     (if chunkType = IHDR then
        (if sawHeader \<or> offset \<noteq> length pngSignature then Inl ErrCorruptContainer else Inr (True, False))
      else if chunkType = acTL \<or> chunkType = fcTL \<or> chunkType = fdAT then Inl ErrUnsupportedFeature
      else if chunkType = IEND then Inr (sawHeader, True)
      else if \<not> sawHeader then Inl ErrCorruptContainer
      else Inr (sawHeader, False))"

text \<open>One iteration of the loop: the flags after the chunk and the offset of the next one.\<close>

definition png_chunk :: "byte list \<Rightarrow> nat \<Rightarrow> bool \<Rightarrow> validation_error + (bool \<times> bool \<times> nat)" where
  "png_chunk data offset sawHeader =
     (if length data - offset < pngChunkHeaderBytes then Inl ErrCorruptContainer
      else (case slice data offset (offset + 4) of
        None \<Rightarrow> Inl Panic
      | Some lengthField \<Rightarrow>
         let declaredLength = be_nat lengthField in
         if length data - offset < declaredLength then Inl ErrCorruptContainer
         else (case slice data (offset + 4) (offset + pngChunkHeaderBytes) of
           None \<Rightarrow> Inl Panic
         | Some chunkType \<Rightarrow>
            let payloadEnd = offset + pngChunkHeaderBytes + declaredLength;
                chunkEnd = payloadEnd + pngChunkCRCBytes in
            if length data < chunkEnd then Inl ErrCorruptContainer
            else (case (slice data (offset + 4) payloadEnd, slice data payloadEnd chunkEnd) of
                (Some covered, Some crcField) \<Rightarrow>
                  if crc32 covered \<noteq> be_nat crcField then Inl ErrCorruptContainer
                  else (case png_switch chunkType offset sawHeader of
                          Inl e \<Rightarrow> Inl e
                        | Inr (h, t) \<Rightarrow> Inr (h, t, chunkEnd))
              | _ \<Rightarrow> Inl Panic))))"

lemma png_chunk_progress: "png_chunk data offset h = Inr (h', t', next) \<Longrightarrow> offset + 12 \<le> next \<and> next \<le> length data"
  by (auto simp: png_chunk_def pngChunkHeaderBytes_def pngChunkCRCBytes_def Let_def
           split: if_splits option.splits sum.splits prod.splits)

function png_loop :: "byte list \<Rightarrow> nat \<Rightarrow> bool \<Rightarrow> bool \<Rightarrow> validation_error + (nat \<times> bool \<times> bool)" where
  "png_loop data offset sawHeader sawTerminator =
     (if offset < length data \<and> \<not> sawTerminator then
        (case png_chunk data offset sawHeader of
           Inl e \<Rightarrow> Inl e
         | Inr (h, t, next) \<Rightarrow> png_loop data next h t)
      else Inr (offset, sawHeader, sawTerminator))"
  by pat_completeness auto
termination
  by (relation "measure (\<lambda>(data, offset, _, _). length data - offset)")
    (auto dest: png_chunk_progress)

declare png_loop.simps [simp del]

definition scanPNG :: "byte list \<Rightarrow> validation_error + unit" where
  "scanPNG data =
     (if \<not> bytes_have_prefix pngSignature data then Inl ErrNotAnImage
      else (case png_loop data (length pngSignature) False False of
              Inl e \<Rightarrow> Inl e
            | Inr (offset, sawHeader, sawTerminator) \<Rightarrow>
                if \<not> sawHeader \<or> \<not> sawTerminator then Inl ErrCorruptContainer
                else if offset \<noteq> length data then Inl ErrTrailingContent
                else Inr ()))"

section \<open>JPEG\<close>

definition jpegMarkerPrefix :: byte where "jpegMarkerPrefix = 0xFF"
definition jpegStartOfImage :: byte where "jpegStartOfImage = 0xD8"
definition jpegEndOfImage :: byte where "jpegEndOfImage = 0xD9"
definition jpegStartOfScan :: byte where "jpegStartOfScan = 0xDA"
definition jpegTemporary :: byte where "jpegTemporary = 0x01"
definition jpegRestartFirst :: byte where "jpegRestartFirst = 0xD0"
definition jpegRestartLast :: byte where "jpegRestartLast = 0xD7"
definition jpegStuffedByte :: byte where "jpegStuffedByte = 0x00"
definition jpegSegmentMinimum :: nat where "jpegSegmentMinimum = 2"

lemmas jpeg_constants =
  jpegMarkerPrefix_def jpegStartOfImage_def jpegEndOfImage_def jpegStartOfScan_def
  jpegTemporary_def jpegRestartFirst_def jpegRestartLast_def jpegStuffedByte_def

text \<open>The inner loop of \<open>readMarker\<close>: skip prefix bytes. Every index is checked as Go checks it.\<close>

function skip_prefix :: "byte list \<Rightarrow> nat \<Rightarrow> validation_error + nat" where
  "skip_prefix data offset =
     (if offset < length data then
        (case index_at data offset of
           None \<Rightarrow> Inl Panic
         | Some b \<Rightarrow> if b = jpegMarkerPrefix then skip_prefix data (offset + 1) else Inr offset)
      else Inr offset)"
  by pat_completeness auto
termination by (relation "measure (\<lambda>(data, offset). length data - offset)") auto

declare skip_prefix.simps [simp del]

definition readMarker :: "byte list \<Rightarrow> nat \<Rightarrow> validation_error + (byte \<times> nat)" where
  "readMarker data offset =
     (if length data \<le> offset then Inl ErrCorruptContainer
      else (case index_at data offset of
        None \<Rightarrow> Inl Panic
      | Some b \<Rightarrow>
         if b \<noteq> jpegMarkerPrefix then Inl ErrCorruptContainer
         else (case skip_prefix data offset of
             Inl e \<Rightarrow> Inl e
           | Inr offset' \<Rightarrow>
              if length data \<le> offset' then Inl ErrCorruptContainer
              else (case index_at data offset' of
                      None \<Rightarrow> Inl Panic
                    | Some m \<Rightarrow> Inr (m, offset' + 1)))))"

definition segmentEnd :: "byte list \<Rightarrow> nat \<Rightarrow> byte \<Rightarrow> validation_error + nat" where
  "segmentEnd data offset marker =
     (if length data < offset + 2 then Inl ErrCorruptContainer
      else (case slice data offset (offset + 2) of
        None \<Rightarrow> Inl Panic
      | Some field \<Rightarrow>
         if be_nat field < jpegSegmentMinimum then Inl ErrCorruptContainer
         else if length data < offset + be_nat field then Inl ErrCorruptContainer
         else Inr (offset + be_nat field)))"

function skipEntropyCodedData :: "byte list \<Rightarrow> nat \<Rightarrow> validation_error + nat" where
  "skipEntropyCodedData data offset =
     (if offset + 1 < length data then
        (case index_at data offset of
           None \<Rightarrow> Inl Panic
         | Some b \<Rightarrow>
            if b \<noteq> jpegMarkerPrefix then skipEntropyCodedData data (offset + 1)
            else (case index_at data (offset + 1) of
                None \<Rightarrow> Inl Panic
              | Some following \<Rightarrow>
                 if following = jpegStuffedByte then skipEntropyCodedData data (offset + 2)
                 else if jpegRestartFirst \<le> following \<and> following \<le> jpegRestartLast
                   then skipEntropyCodedData data (offset + 2)
                 else if following = jpegMarkerPrefix then skipEntropyCodedData data (offset + 1)
                 else Inr offset))
      else Inl ErrCorruptContainer)"
  by pat_completeness auto
termination by (relation "measure (\<lambda>(data, offset). length data - offset)") auto

declare skipEntropyCodedData.simps [simp del]

text \<open>One iteration of the marker loop: the scan is over, or goes on at a later offset.\<close>

definition jpeg_step :: "byte list \<Rightarrow> nat \<Rightarrow> validation_error + nat option" where
  "jpeg_step data offset =
     (case readMarker data offset of
        Inl e \<Rightarrow> Inl e
      | Inr (marker, next) \<Rightarrow>
         if marker = jpegStartOfImage then Inl ErrTrailingContent
         else if marker = jpegEndOfImage then
           (if next \<noteq> length data then Inl ErrTrailingContent else Inr None)
         else if marker = jpegTemporary \<or> (jpegRestartFirst \<le> marker \<and> marker \<le> jpegRestartLast)
           then Inr (Some next)
         else (case segmentEnd data next marker of
                 Inl e \<Rightarrow> Inl e
               | Inr e \<Rightarrow>
                  if marker = jpegStartOfScan then
                    (case skipEntropyCodedData data e of Inl err \<Rightarrow> Inl err | Inr off \<Rightarrow> Inr (Some off))
                  else Inr (Some e)))"

lemma index_at_None: "index_at data i = None \<longleftrightarrow> length data \<le> i"
  by (simp add: index_at_def not_less)

lemma index_at_Some: "index_at data i = Some b \<longleftrightarrow> i < length data \<and> data ! i = b"
  by (simp add: index_at_def)

lemma skip_prefix_ge: "skip_prefix data offset = Inr off' \<Longrightarrow> offset \<le> off'"
proof (induction data offset rule: skip_prefix.induct)
  case (1 data offset)
  then show ?case
    by (auto simp: skip_prefix.simps [of data offset] index_at_def split: if_splits)
qed

lemma readMarker_progress: "readMarker data offset = Inr (m, next) \<Longrightarrow> offset < next \<and> next \<le> length data"
  by (auto simp: readMarker_def index_at_def split: if_splits option.splits sum.splits dest: skip_prefix_ge)

lemma segmentEnd_progress: "segmentEnd data offset m = Inr e \<Longrightarrow> offset < e \<and> e \<le> length data"
  by (auto simp: segmentEnd_def jpegSegmentMinimum_def split: if_splits option.splits)

lemma skipEntropy_ge: "skipEntropyCodedData data offset = Inr e \<Longrightarrow> offset \<le> e \<and> e < length data"
proof (induction data offset rule: skipEntropyCodedData.induct)
  case (1 data offset)
  then show ?case
    by (auto simp: skipEntropyCodedData.simps [of data offset] index_at_def split: if_splits; force)
qed

lemma jpeg_step_progress: "jpeg_step data offset = Inr (Some next) \<Longrightarrow> offset < next \<and> next \<le> length data"
  by (auto simp: jpeg_step_def split: sum.splits prod.splits if_splits
           dest!: readMarker_progress segmentEnd_progress skipEntropy_ge)

function jpeg_loop :: "byte list \<Rightarrow> nat \<Rightarrow> validation_error + unit" where
  "jpeg_loop data offset =
     (case jpeg_step data offset of
        Inl e \<Rightarrow> Inl e
      | Inr None \<Rightarrow> Inr ()
      | Inr (Some next) \<Rightarrow> jpeg_loop data next)"
  by pat_completeness auto
termination
proof (relation "measure (\<lambda>(data, offset). length data - offset)")
  fix data offset y x
  assume "jpeg_step data offset = Inr y" "y = Some x"
  then show "((data, x), (data, offset)) \<in> measure (\<lambda>(data, offset). length data - offset)"
    using jpeg_step_progress [of data offset x] by auto
qed simp

declare jpeg_loop.simps [simp del]

definition scanJPEG :: "byte list \<Rightarrow> validation_error + unit" where
  "scanJPEG data =
     (if length data < 2 then Inl ErrNotAnImage
      else (case index_at data 0 of
          None \<Rightarrow> Inl Panic
        | Some b0 \<Rightarrow>
           if b0 \<noteq> jpegMarkerPrefix then Inl ErrNotAnImage
           else (case index_at data 1 of
               None \<Rightarrow> Inl Panic
             | Some b1 \<Rightarrow> if b1 \<noteq> jpegStartOfImage then Inl ErrNotAnImage else jpeg_loop data 2)))"

section \<open>Admission\<close>

record image_limits =
  MaxSidePx :: int
  MaxPixels :: int

record report =
  DetectedType :: media_content_type
  report_Width :: int
  report_Height :: int

definition limits_admit :: "image_limits \<Rightarrow> int \<Rightarrow> int \<Rightarrow> validation_error + unit" where
  "limits_admit limits width height =
     (if width \<le> 0 \<or> height \<le> 0 then Inl ErrNotAnImage
      else if MaxSidePx limits < width \<or> MaxSidePx limits < height then Inl ErrDimensionsExceeded
      else if MaxPixels limits < wrap64 (width * height) then Inl ErrDimensionsExceeded
      else Inr ())"

definition detectType :: "byte list \<Rightarrow> validation_error + media_content_type" where
  "detectType data =
     (if bytes_have_prefix jpegSignature data then Inr MediaContentTypeJPEG
      else if bytes_have_prefix pngSignature data then Inr MediaContentTypePNG
      else Inl ErrNotAnImage)"

definition scanContainer :: "byte list \<Rightarrow> media_content_type \<Rightarrow> validation_error + unit" where
  "scanContainer data detected =
     (if detected = MediaContentTypeJPEG then scanJPEG data
      else if detected = MediaContentTypePNG then scanPNG data
      else Inl ErrNotAnImage)"

definition Admit ::
  "(byte list \<Rightarrow> (int \<times> int) option) \<Rightarrow> byte list \<Rightarrow> media_content_type \<Rightarrow> image_limits
   \<Rightarrow> validation_error + report" where
  "Admit decodeConfig data declared limits =
     (case detectType data of
        Inl e \<Rightarrow> Inl e
      | Inr detected \<Rightarrow>
         if detected \<noteq> declared then Inl ErrTypeMismatch
         else (case scanContainer data detected of
           Inl e \<Rightarrow> Inl e
         | Inr _ \<Rightarrow>
            (case decodeConfig data of
               None \<Rightarrow> Inl ErrNotAnImage
             | Some (width, height) \<Rightarrow>
                (case limits_admit limits width height of
                   Inl e \<Rightarrow> Inl e
                 | Inr _ \<Rightarrow>
                     Inr \<lparr>DetectedType = detected, report_Width = width, report_Height = height\<rparr>))))"

section \<open>The PNG scanner against a grammar of PNG streams\<close>

text \<open>
  A chunk is a length field, a type, a payload and a checksum field. A stream is the signature, an
  \<open>IHDR\<close> chunk, chunks of other types, and an \<open>IEND\<close> chunk, with nothing after it.
\<close>

type_synonym png_chunk_data = "byte list \<times> byte list \<times> byte list \<times> byte list"

fun chunk_bytes :: "png_chunk_data \<Rightarrow> byte list" where
  "chunk_bytes (lf, ty, p, cf) = lf @ ty @ p @ cf"

fun chunk_type :: "png_chunk_data \<Rightarrow> byte list" where
  "chunk_type (lf, ty, p, cf) = ty"

fun chunk_ok :: "png_chunk_data \<Rightarrow> bool" where
  "chunk_ok (lf, ty, p, cf) \<longleftrightarrow>
     length lf = 4 \<and> length ty = 4 \<and> length cf = 4
     \<and> be_nat lf = length p \<and> be_nat cf = crc32 (ty @ p)"

definition ordinary_type :: "byte list \<Rightarrow> bool" where
  "ordinary_type ty \<longleftrightarrow> ty \<notin> {IHDR, IEND, acTL, fcTL, fdAT}"

definition png_stream :: "byte list \<Rightarrow> bool" where
  "png_stream data \<longleftrightarrow>
     (\<exists>h mids t. data = pngSignature @ concat (map chunk_bytes (h # mids @ [t]))
        \<and> list_all chunk_ok (h # mids @ [t])
        \<and> chunk_type h = IHDR \<and> chunk_type t = IEND
        \<and> list_all (\<lambda>c. ordinary_type (chunk_type c)) mids)"

lemma slice_SomeD: "slice data i j = Some b \<Longrightarrow> drop i data = b @ drop j data \<and> i + length b = j \<and> j \<le> length data"
  by (auto simp: slice_def split: if_splits)
    (metis add.commute append_take_drop_id drop_drop le_add_diff_inverse2)

lemma slice_append: "data = a @ b @ c \<Longrightarrow> i = length a \<Longrightarrow> j = length a + length b \<Longrightarrow> slice data i j = Some b"
  by (simp add: slice_def)

lemma chunk_bytes_pos: "chunk_ok c \<Longrightarrow> 12 \<le> length (chunk_bytes c)"
  by (cases c) auto

lemma png_chunk_accepts:
  assumes "png_chunk data offset h = Inr (h', t', next)"
  shows "\<exists>c. chunk_ok c \<and> drop offset data = chunk_bytes c @ drop next data
           \<and> next = offset + length (chunk_bytes c) \<and> next \<le> length data
           \<and> png_switch (chunk_type c) offset h = Inr (h', t')"
proof -
  obtain lf ty cov cf where
    lf: "slice data offset (offset + 4) = Some lf"
    and ty: "slice data (offset + 4) (offset + 8) = Some ty"
    and cov: "slice data (offset + 4) (offset + 8 + be_nat lf) = Some cov"
    and cf: "slice data (offset + 8 + be_nat lf) (offset + 8 + be_nat lf + 4) = Some cf"
    and crc: "crc32 cov = be_nat cf"
    and sw: "png_switch ty offset h = Inr (h', t')"
    and nx: "next = offset + 8 + be_nat lf + 4" "next \<le> length data"
    using assms
    by (auto simp: png_chunk_def Let_def pngChunkHeaderBytes_def pngChunkCRCBytes_def
             split: if_splits option.splits sum.splits prod.splits)
  note d = slice_SomeD [OF lf] slice_SomeD [OF ty] slice_SomeD [OF cov] slice_SomeD [OF cf]
  define p where "p = drop 4 cov"
  have len: "length lf = 4" "length ty = 4" "length cov = 4 + be_nat lf" "length cf = 4"
    using d by auto
  have "ty @ drop (offset + 8) data = cov @ drop (offset + 8 + be_nat lf) data"
    using d(2,3) by simp
  then have "take 4 (ty @ drop (offset + 8) data) = take 4 (cov @ drop (offset + 8 + be_nat lf) data)"
    by simp
  then have "ty = take 4 cov" using len by simp
  then have cov_eq: "cov = ty @ p" by (simp add: p_def)
  have "chunk_ok (lf, ty, p, cf)" using len crc cov_eq by simp
  moreover have "drop offset data = chunk_bytes (lf, ty, p, cf) @ drop next data"
    using d nx(1) cov_eq by (simp add: add.assoc)
  moreover have "next = offset + length (chunk_bytes (lf, ty, p, cf))"
    using len nx(1) cov_eq by simp
  ultimately show ?thesis using sw nx(2) by (intro exI [of _ "(lf, ty, p, cf)"]) simp
qed

lemma png_chunk_complete:
  assumes ok: "chunk_ok c" and data: "data = pre @ chunk_bytes c @ rest" and off: "offset = length pre"
    and sw: "png_switch (chunk_type c) offset h = Inr (h', t')"
  shows "png_chunk data offset h = Inr (h', t', offset + length (chunk_bytes c))"
proof -
  obtain lf ty p cf where c: "c = (lf, ty, p, cf)" by (cases c)
  have len: "length lf = 4" "length ty = 4" "length cf = 4" "be_nat lf = length p"
    "be_nat cf = crc32 (ty @ p)"
    using ok c by auto
  have d: "data = pre @ lf @ ty @ p @ cf @ rest" using data c by simp
  have s1: "slice data offset (offset + 4) = Some lf"
    by (rule slice_append [of _ pre _ "ty @ p @ cf @ rest"]) (simp_all add: d off len)
  have s2: "slice data (offset + 4) (offset + 8) = Some ty"
    by (rule slice_append [of _ "pre @ lf" _ "p @ cf @ rest"]) (simp_all add: d off len)
  have s3: "slice data (offset + 4) (offset + 8 + length p) = Some (ty @ p)"
    by (rule slice_append [of _ "pre @ lf" _ "cf @ rest"]) (simp_all add: d off len)
  have s4: "slice data (offset + 8 + length p) (offset + 8 + length p + 4) = Some cf"
    by (rule slice_append [of _ "pre @ lf @ ty @ p" _ rest]) (simp_all add: d off len)
  have l: "length data = offset + 12 + length p + length rest" by (simp add: d off len)
  show ?thesis
    using sw c l s1 s2 s3 s4 len
    by (simp add: png_chunk_def pngChunkHeaderBytes_def pngChunkCRCBytes_def Let_def)
qed

lemma png_switch_start: "png_switch ty (length pngSignature) False = Inr (h, t) \<Longrightarrow>
    (ty = IHDR \<and> h \<and> \<not> t) \<or> (ty = IEND \<and> \<not> h \<and> t)"
  by (auto simp: png_switch_def split: if_splits)

lemma png_switch_later: "length pngSignature < offset \<Longrightarrow> png_switch ty offset True = Inr (h, t) \<longleftrightarrow>
    h \<and> (if t then ty = IEND else ordinary_type ty)"
  by (auto simp: png_switch_def ordinary_type_def png_types)

text \<open>After the header the loop accepts exactly ordinary chunks up to the first \<open>IEND\<close>.\<close>

lemma png_loop_sound:
  assumes "png_loop data offset True False = Inr (next, h, t)" and "t" and "length pngSignature < offset"
    and "offset \<le> length data"
  shows "h \<and> (\<exists>mids c. drop offset data = concat (map chunk_bytes (mids @ [c])) @ drop next data
      \<and> next \<le> length data
      \<and> list_all chunk_ok (mids @ [c]) \<and> chunk_type c = IEND
      \<and> list_all (\<lambda>c. ordinary_type (chunk_type c)) mids)"
  using assms
proof (induction "length data - offset" arbitrary: offset rule: less_induct)
  case less
  then have lt: "offset < length data"
    by (auto simp: png_loop.simps [of data offset True False] split: if_splits)
  with less.prems obtain h1 t1 n1 where
    pc: "png_chunk data offset True = Inr (h1, t1, n1)" and
    rec: "png_loop data n1 h1 t1 = Inr (next, h, t)"
    by (auto simp: png_loop.simps [of data offset True False] split: sum.splits)
  obtain c where c: "chunk_ok c" "drop offset data = chunk_bytes c @ drop n1 data"
    "n1 = offset + length (chunk_bytes c)" "n1 \<le> length data"
    "png_switch (chunk_type c) offset True = Inr (h1, t1)"
    using png_chunk_accepts [OF pc] by blast
  have sw: "h1 \<and> (if t1 then chunk_type c = IEND else ordinary_type (chunk_type c))"
    using c(5) png_switch_later [OF less.prems(3)] by blast
  show ?case
  proof (cases t1)
    case True
    with sw have hh: "h1" by simp
    have "png_loop data n1 h1 t1 = Inr (n1, h1, t1)"
      unfolding png_loop.simps [of data n1 h1 t1] using True by simp
    then have "next = n1" "h" using rec hh by simp_all
    then show ?thesis using True c sw
      by (intro conjI exI [of _ "[]"] exI [of _ c]) simp_all
  next
    case False
    have "12 \<le> length (chunk_bytes c)" by (rule chunk_bytes_pos [OF c(1)])
    then have "length data - n1 < length data - offset" and "length pngSignature < n1"
      using c(3) less.prems(3) lt by auto
    moreover have "png_loop data n1 True False = Inr (next, h, t)" using rec False sw by simp
    ultimately obtain mids d where
      "h" "drop n1 data = concat (map chunk_bytes (mids @ [d])) @ drop next data" "next \<le> length data"
      "list_all chunk_ok (mids @ [d])" "chunk_type d = IEND"
      "list_all (\<lambda>c. ordinary_type (chunk_type c)) mids"
      using less.hyps [of n1] less.prems(2) c(4) by blast
    then show ?thesis using c False sw
      by (intro conjI exI [of _ "c # mids"] exI [of _ d]) simp_all
  qed
qed

lemma png_loop_complete:
  assumes "data = pre @ concat (map chunk_bytes (mids @ [t])) @ rest"
    and "list_all chunk_ok (mids @ [t])" and "chunk_type t = IEND"
    and "list_all (\<lambda>c. ordinary_type (chunk_type c)) mids" and "length pngSignature < length pre"
  shows "png_loop data (length pre) True False
         = Inr (length pre + length (concat (map chunk_bytes (mids @ [t]))), True, True)"
  using assms
proof (induction mids arbitrary: pre)
  case Nil
  have sw: "png_switch (chunk_type t) (length pre) True = Inr (True, True)"
    using Nil.prems(3,5) by (simp add: png_switch_later)
  have pc: "png_chunk data (length pre) True = Inr (True, True, length pre + length (chunk_bytes t))"
    by (rule png_chunk_complete [OF _ _ refl sw, of _ rest]) (use Nil.prems in auto)
  have "12 \<le> length (chunk_bytes t)" using Nil.prems(2) chunk_bytes_pos by simp
  moreover have "length data = length pre + length (chunk_bytes t) + length rest" using Nil.prems(1) by simp
  ultimately have "length pre < length data" by linarith
  with pc show ?case
    by (simp add: png_loop.simps [of data "length pre"]
        png_loop.simps [of data "length pre + length (chunk_bytes t)" True True])
next
  case (Cons c mids)
  have sw: "png_switch (chunk_type c) (length pre) True = Inr (True, False)"
    using Cons.prems(4,5) by (simp add: png_switch_later)
  have pc: "png_chunk data (length pre) True = Inr (True, False, length pre + length (chunk_bytes c))"
    by (rule png_chunk_complete [OF _ _ refl sw, of _ "concat (map chunk_bytes (mids @ [t])) @ rest"])
      (use Cons.prems in auto)
  have "12 \<le> length (chunk_bytes c)" using Cons.prems(2) chunk_bytes_pos by simp
  moreover have "length data = length pre + length (chunk_bytes c)
      + length (concat (map chunk_bytes (mids @ [t])) @ rest)" using Cons.prems(1) by simp
  ultimately have lt: "length pre < length data" by linarith
  have IH: "png_loop data (length (pre @ chunk_bytes c)) True False
         = Inr (length (pre @ chunk_bytes c) + length (concat (map chunk_bytes (mids @ [t]))), True, True)"
    by (rule Cons.IH) (use Cons.prems in auto)
  show ?case using pc lt IH
    by (simp add: png_loop.simps [of data "length pre"] add.assoc)
qed

text \<open>C32: The PNG scanner decides the grammar: it accepts exactly the byte sequences that are the PNG
  signature, one \<open>IHDR\<close> chunk, chunks that are neither headers, terminators nor animation chunks,
  and one \<open>IEND\<close> chunk, every chunk with a correct length and CRC, and no byte after the terminator.
\<close>
theorem scanPNG_decides_png_stream: "scanPNG data = Inr () \<longleftrightarrow> png_stream data"
proof
  assume acc: "scanPNG data = Inr ()"
  then have pfx: "take (length pngSignature) data = pngSignature"
    and lp: "png_loop data (length pngSignature) False False = Inr (length data, True, True)"
    by (auto simp: scanPNG_def bytes_have_prefix_def split: if_splits sum.splits)
  let ?o = "length pngSignature"
  have lt: "?o < length data"
    using lp by (auto simp: png_loop.simps [of data ?o] split: if_splits)
  with lp obtain h1 t1 n1 where pc: "png_chunk data ?o False = Inr (h1, t1, n1)"
    and rec: "png_loop data n1 h1 t1 = Inr (length data, True, True)"
    by (auto simp: png_loop.simps [of data ?o False] split: sum.splits)
  obtain c where c: "chunk_ok c" "drop ?o data = chunk_bytes c @ drop n1 data"
    "n1 = ?o + length (chunk_bytes c)" "n1 \<le> length data"
    "png_switch (chunk_type c) ?o False = Inr (h1, t1)"
    using png_chunk_accepts [OF pc] by blast
  have "\<not> t1"
    using png_switch_start [OF c(5)] rec by (auto simp: png_loop.simps [of data n1 h1 t1])
  with png_switch_start [OF c(5)] have hd: "chunk_type c = IHDR" "h1" by auto
  have "?o < n1" using chunk_bytes_pos [OF c(1)] c(3) by linarith
  then obtain mids d where
    "drop n1 data = concat (map chunk_bytes (mids @ [d])) @ drop (length data) data"
    "list_all chunk_ok (mids @ [d])" "chunk_type d = IEND"
    "list_all (\<lambda>c. ordinary_type (chunk_type c)) mids"
    using png_loop_sound [of data n1 "length data" True True] rec hd(2) \<open>\<not> t1\<close> c(4) by auto
  moreover have "data = pngSignature @ drop ?o data"
    by (metis pfx append_take_drop_id)
  ultimately have "data = pngSignature @ concat (map chunk_bytes (c # mids @ [d]))"
    using c(2) by simp
  then show "png_stream data"
    using \<open>list_all chunk_ok (mids @ [d])\<close> \<open>chunk_type d = IEND\<close>
      \<open>list_all (\<lambda>c. ordinary_type (chunk_type c)) mids\<close> c(1) hd(1)
    unfolding png_stream_def
    by (intro exI [of _ c] exI [of _ mids] exI [of _ d]) simp
next
  assume "png_stream data"
  then obtain h mids t where d: "data = pngSignature @ concat (map chunk_bytes (h # mids @ [t]))"
    and ok: "list_all chunk_ok (h # mids @ [t])" and ty: "chunk_type h = IHDR" "chunk_type t = IEND"
    and mids: "list_all (\<lambda>c. ordinary_type (chunk_type c)) mids"
    unfolding png_stream_def by blast
  let ?o = "length pngSignature" and ?pre = "pngSignature @ chunk_bytes h"
  have sw: "png_switch (chunk_type h) ?o False = Inr (True, False)" using ty by (simp add: png_switch_def)
  have pc: "png_chunk data ?o False = Inr (True, False, ?o + length (chunk_bytes h))"
    by (rule png_chunk_complete [OF _ _ refl sw, of _ "concat (map chunk_bytes (mids @ [t]))"])
      (use d ok in auto)
  have "12 \<le> length (chunk_bytes h)" using ok chunk_bytes_pos by simp
  moreover have "length data = ?o + length (chunk_bytes h) + length (concat (map chunk_bytes (mids @ [t])))"
    using d by simp
  moreover have "length ?pre = ?o + length (chunk_bytes h)" by simp
  ultimately have lt: "?o < length data" and lpre: "?o < length ?pre" by linarith+
  have len: "length data = length ?pre + length (concat (map chunk_bytes (mids @ [t])))" using d by simp
  have "png_loop data (length ?pre) True False = Inr (length data, True, True)"
    unfolding len
    by (rule png_loop_complete [of _ _ _ _ "[]"]) (use d ok ty mids lpre in auto)
  moreover have "png_loop data ?o False False = png_loop data (?o + length (chunk_bytes h)) True False"
    unfolding png_loop.simps [of data ?o False False] using pc lt by simp
  ultimately have "png_loop data ?o False False = Inr (length data, True, True)" by simp
  moreover have "bytes_have_prefix pngSignature data" using d by (simp add: bytes_have_prefix_def)
  ultimately show "scanPNG data = Inr ()" by (simp add: scanPNG_def)
qed

section \<open>No read out of range\<close>

lemma slice_None: "slice data i j = None \<longleftrightarrow> \<not> (i \<le> j \<and> j \<le> length data)"
  by (simp add: slice_def)

lemma png_switch_no_panic: "png_switch ty offset h \<noteq> Inl Panic"
  by (simp add: png_switch_def)

lemma png_chunk_no_panic: "png_chunk data offset h \<noteq> Inl Panic"
  using png_switch_no_panic
  by (auto simp: png_chunk_def Let_def slice_None pngChunkHeaderBytes_def
        pngChunkCRCBytes_def split: option.splits sum.splits)

lemma png_loop_no_panic: "png_loop data offset h t \<noteq> Inl Panic"
proof (induction data offset h t rule: png_loop.induct)
  case (1 data offset h t)
  then show ?case using png_chunk_no_panic [of data offset h]
    by (auto simp: png_loop.simps [of data offset h t] split: sum.splits)
qed

lemma skip_prefix_no_panic: "skip_prefix data offset \<noteq> Inl Panic"
proof (induction data offset rule: skip_prefix.induct)
  case (1 data offset)
  then show ?case by (auto simp: skip_prefix.simps [of data offset] index_at_def)
qed

lemma readMarker_no_panic: "readMarker data offset \<noteq> Inl Panic"
  using skip_prefix_no_panic [of data offset]
  by (auto simp: readMarker_def index_at_def split: option.splits if_splits sum.splits)

lemma segmentEnd_no_panic: "segmentEnd data offset m \<noteq> Inl Panic"
  by (auto simp: segmentEnd_def slice_def split: option.splits if_splits)

lemma skipEntropy_no_panic: "skipEntropyCodedData data offset \<noteq> Inl Panic"
proof (induction data offset rule: skipEntropyCodedData.induct)
  case (1 data offset)
  then show ?case by (auto simp: skipEntropyCodedData.simps [of data offset] index_at_def)
qed

lemma jpeg_step_no_panic: "jpeg_step data offset \<noteq> Inl Panic"
  using readMarker_no_panic [of data offset] segmentEnd_no_panic skipEntropy_no_panic
  by (auto simp: jpeg_step_def split: sum.splits prod.splits)

lemma jpeg_loop_no_panic: "jpeg_loop data offset \<noteq> Inl Panic"
proof (induction data offset rule: jpeg_loop.induct)
  case (1 data offset)
  then show ?case using jpeg_step_no_panic [of data offset]
    by (auto simp: jpeg_loop.simps [of data offset] split: sum.splits option.splits)
qed

text \<open>C33: Neither scanner ever slices or indexes outside the uploaded bytes, whatever they are: no
  hostile file makes the container scan panic.
\<close>
theorem scanners_never_panic: "scanPNG data \<noteq> Inl Panic \<and> scanJPEG data \<noteq> Inl Panic"
  using png_loop_no_panic [of data "length pngSignature" False False] jpeg_loop_no_panic [of data 2]
  by (auto simp: scanPNG_def scanJPEG_def index_at_None split: sum.splits option.splits)

section \<open>The JPEG scanner rejects anything around the image\<close>

lemma skip_prefix_before:
  "skip_prefix data offset = Inr off' \<Longrightarrow> offset < off' \<Longrightarrow> data ! (off' - 1) = jpegMarkerPrefix"
proof (induction data offset rule: skip_prefix.induct)
  case (1 data offset)
  show ?case
  proof (cases "offset < length data \<and> data ! offset = jpegMarkerPrefix")
    case True
    then have n: "skip_prefix data (offset + 1) = Inr off'" "index_at data offset = Some jpegMarkerPrefix"
      using "1.prems" by (simp_all add: skip_prefix.simps [of data offset] index_at_def)
    then show ?thesis
      using "1.IH" [OF _ n(2) refl n(1)] True skip_prefix_ge [OF n(1)]
      by (cases "offset + 1 < off'") (auto dest: le_antisym simp: not_less)
  next
    case False
    then show ?thesis using "1.prems" by (auto simp: skip_prefix.simps [of data offset] index_at_def split: if_splits)
  qed
qed

lemma readMarker_InrD:
  assumes "readMarker data offset = Inr (m, next)"
  shows "offset + 2 \<le> next \<and> next \<le> length data \<and> data ! (next - 1) = m
    \<and> data ! (next - 2) = jpegMarkerPrefix"
proof -
  obtain o' where a: "offset < length data" "data ! offset = jpegMarkerPrefix" "skip_prefix data offset = Inr o'"
    "o' < length data" "m = data ! o'" "next = o' + 1"
    using assms by (auto simp: readMarker_def index_at_def split: if_splits sum.splits)
  have "skip_prefix data (offset + 1) = Inr o'"
    using a(1-3) by (simp add: skip_prefix.simps [of data offset] index_at_def)
  then have "offset < o'" using skip_prefix_ge by fastforce
  with a skip_prefix_before [OF a(3)] show ?thesis by simp
qed

lemma jpeg_loop_envelope:
  "jpeg_loop data offset = Inr () \<Longrightarrow>
     offset + 2 \<le> length data \<and> data ! (length data - 2) = jpegMarkerPrefix
     \<and> data ! (length data - 1) = jpegEndOfImage"
proof (induction data offset rule: jpeg_loop.induct)
  case (1 data offset)
  show ?case
  proof (cases "jpeg_step data offset")
    case (Inl e)
    with "1.prems" show ?thesis by (simp add: jpeg_loop.simps [of data offset])
  next
    case (Inr r)
    show ?thesis
    proof (cases r)
      case None
      with Inr obtain nx where rm: "readMarker data offset = Inr (jpegEndOfImage, nx)"
        and "nx = length data"
        by (auto simp: jpeg_step_def split: sum.splits prod.splits if_splits)
      with readMarker_InrD [OF rm] show ?thesis by simp
    next
      case (Some nx)
      with "1.prems" Inr have "jpeg_loop data nx = Inr ()" by (simp add: jpeg_loop.simps [of data offset])
      with "1.IH" [OF Inr Some] jpeg_step_progress [of data offset nx] Inr Some show ?thesis by auto
    qed
  qed
qed

text \<open>An accepted JPEG begins with the start-of-image marker and ends with the end-of-image marker:
  no payload is appended after the image, and the two markers do not overlap.
\<close>
theorem scanJPEG_envelope:
  assumes "scanJPEG data = Inr ()"
  shows "\<exists>mid. data = [jpegMarkerPrefix, jpegStartOfImage] @ mid @ [jpegMarkerPrefix, jpegEndOfImage]"
proof -
  have st: "2 \<le> length data" "data ! 0 = jpegMarkerPrefix" "data ! 1 = jpegStartOfImage"
    and lp: "jpeg_loop data 2 = Inr ()"
    using assms by (auto simp: scanJPEG_def index_at_def split: if_splits)
  note e = jpeg_loop_envelope [OF lp]
  obtain a b rest where d: "data = a # b # rest"
    using st(1) by (cases data; cases "tl data") auto
  have n: "2 \<le> length rest" using e d by simp
  have tk: "rest = take (length rest - 2) rest @ drop (length rest - 2) rest" by simp
  have "drop (length rest - 2) rest = [rest ! (length rest - 2), rest ! (length rest - 1)]"
    using n by (intro nth_equalityI) (auto simp: less_2_cases_iff)
  moreover have "rest ! (length rest - 2) = jpegMarkerPrefix" "rest ! (length rest - 1) = jpegEndOfImage"
  proof -
    have i: "length data - 2 = Suc (Suc (length rest - 2))" "length data - 1 = Suc (Suc (length rest - 1))"
      using d n by auto
    show "rest ! (length rest - 2) = jpegMarkerPrefix" "rest ! (length rest - 1) = jpegEndOfImage"
      using e unfolding i by (simp_all add: d)
  qed
  ultimately have "data = [jpegMarkerPrefix, jpegStartOfImage] @ take (length rest - 2) rest
      @ [jpegMarkerPrefix, jpegEndOfImage]"
    using d st tk by simp
  then show ?thesis by blast
qed

theorem scanJPEG_envelope_witness:
  "scanJPEG [0xFF, 0xD8, 0xFF, 0xD9] = Inr ()
   \<and> (\<exists>mid. [0xFF, 0xD8, 0xFF, 0xD9] = [jpegMarkerPrefix, jpegStartOfImage] @ mid @ [jpegMarkerPrefix, jpegEndOfImage])"
proof -
  have h: "scanJPEG [0xFF, 0xD8, 0xFF, 0xD9] = Inr ()" by code_simp
  show ?thesis using h scanJPEG_envelope [OF h] by blast
qed

section \<open>Admission\<close>

lemma Admit_facts:
  assumes "Admit dec data declared limits = Inr r"
  shows "DetectedType r = declared" "detectType data = Inr declared" "scanContainer data declared = Inr ()"
    "dec data = Some (report_Width r, report_Height r)"
    "0 < report_Width r" "0 < report_Height r"
    "report_Width r \<le> MaxSidePx limits" "report_Height r \<le> MaxSidePx limits"
    "wrap64 (report_Width r * report_Height r) \<le> MaxPixels limits"
  using assms by (auto simp: Admit_def limits_admit_def split: sum.splits option.splits if_splits)

text \<open>An admitted image has the declared type, passed the container scan of that type, and its
  dimensions are positive, within the side limit and, as an exact product, within the pixel limit,
  provided the configured side limit is at most 2 to the 31 (the product of two sides then fits in
  64 bits).
\<close>
theorem Admit_sound:
  assumes "Admit dec data declared limits = Inr r" and "MaxSidePx limits \<le> 2147483648"
  shows "DetectedType r = declared \<and> scanContainer data declared = Inr ()
    \<and> dec data = Some (report_Width r, report_Height r)
    \<and> 0 < report_Width r \<and> 0 < report_Height r
    \<and> report_Width r \<le> MaxSidePx limits \<and> report_Height r \<le> MaxSidePx limits
    \<and> report_Width r * report_Height r \<le> MaxPixels limits"
proof -
  note f = Admit_facts [OF assms(1)]
  have "report_Width r * report_Height r \<le> 2147483648 * 2147483648"
    using f assms(2) by (intro mult_mono) auto
  moreover have "0 < report_Width r * report_Height r" using f by simp
  ultimately have "wrap64 (report_Width r * report_Height r) = report_Width r * report_Height r"
    by (intro wrap64_id) auto
  with f show ?thesis by simp
qed

theorem Admit_sound_witness:
  "Admit (\<lambda>_. Some (4, 5)) [0xFF, 0xD8, 0xFF, 0xD9] ''image/jpeg'' \<lparr>MaxSidePx = 10, MaxPixels = 20\<rparr>
     = Inr \<lparr>DetectedType = ''image/jpeg'', report_Width = 4, report_Height = 5\<rparr>
   \<and> (4 :: int) * 5 \<le> 20"
proof -
  have h: "Admit (\<lambda>_. Some (4, 5)) [0xFF, 0xD8, 0xFF, 0xD9] ''image/jpeg'' \<lparr>MaxSidePx = 10, MaxPixels = 20\<rparr>
     = Inr \<lparr>DetectedType = ''image/jpeg'', report_Width = 4, report_Height = 5\<rparr>"
  proof -
    have "scanJPEG [0xFF, 0xD8, 0xFF, 0xD9] = Inr ()" by code_simp
    then show ?thesis
      by (simp add: Admit_def detectType_def scanContainer_def bytes_have_prefix_def jpegSignature_def
          MediaContentTypeJPEG_def limits_admit_def wrap64_id)
  qed
  have "MaxSidePx \<lparr>MaxSidePx = 10, MaxPixels = 20\<rparr> \<le> 2147483648" by simp
  note a = Admit_sound [OF h this]
  have "(4 :: int) * 5 \<le> 20" using a unfolding report.simps image_limits.simps by blast
  with h show ?thesis by (rule conjI)
qed

end
