(* ===== verification/Rendition.thy ===== *)
theory Rendition
  imports Image_Validation Complex_Main
begin

text \<open>
  \<open>internal/media/rendition\<close>: the derivatives of an admitted image. The geometry (\<open>fitInside\<close>) is
  computed in 64-bit floating point; it is modelled with its roundings: every operation is the exact
  rational result rounded to 53 significant bits, ties to even, with the subnormal spacing at the
  bottom. Sides are below 2 to the 53, where integers convert exactly. Decoding, scaling and
  encoding images and the SHA-256 function are arguments.
\<close>

section \<open>64-bit floating point, for positive values below 2 to the 53\<close>

definition round_half_even :: "rat \<Rightarrow> int" where
  "round_half_even m =
     (let f = \<lfloor>m\<rfloor>; d = m - of_int f in
      if d < 1/2 then f else if 1/2 < d then f + 1 else if even f then f else f + 1)"

text \<open>Shift left until 53 bits stand before the point, at most as far as subnormals allow.\<close>

fun normalize :: "nat \<Rightarrow> rat \<Rightarrow> nat \<Rightarrow> rat \<times> nat" where
  "normalize 0 m k = (m, k)"
| "normalize (Suc n) m k = (if 2 ^ 52 \<le> m then (m, k) else normalize n (2 * m) (Suc k))"

definition round64 :: "rat \<Rightarrow> rat" where
  "round64 q = (let (m, k) = normalize 1074 q 0 in of_int (round_half_even m) / 2 ^ k)"

definition math_round :: "rat \<Rightarrow> int" where
  "math_round x = \<lfloor>x + 1/2\<rfloor>"

section \<open>Geometry\<close>

definition atLeastOnePixel :: "int \<Rightarrow> rat \<Rightarrow> int" where
  "atLeastOnePixel side scale =
     (let scaled = math_round (round64 (of_int side * scale)) in if scaled < 1 then 1 else scaled)"

definition fitInside :: "int \<Rightarrow> int \<Rightarrow> int \<Rightarrow> int \<times> int" where
  "fitInside width height boundingBox =
     (let longestSide = (if width < height then height else width) in
      if longestSide \<le> boundingBox then (width, height)
      else let scale = round64 (of_int boundingBox / of_int longestSide) in
           (atLeastOnePixel width scale, atLeastOnePixel height scale))"

section \<open>Rendering\<close>

datatype render_error = ErrDecodeFailed | ErrUnsupportedType | ErrFormatNotPreserved | ErrEncode

record ('img, 'px) image_codec =
  img_decode :: "byte list \<Rightarrow> ('img \<times> string) option"
  img_bounds :: "'img \<Rightarrow> int \<times> int"
  img_scale :: "'img \<Rightarrow> int \<Rightarrow> int \<Rightarrow> 'px"
  img_jpeg :: "'px \<Rightarrow> int \<Rightarrow> byte list option"
  img_png :: "'px \<Rightarrow> byte list option"

record artifact =
  art_kind :: media_output_kind
  art_content_type :: media_content_type
  art_width :: int
  art_height :: int
  art_bytes :: "byte list"
  art_sha256 :: "nat list"

definition webJPEGQuality :: int where "webJPEGQuality = 85"
definition thumbnailJPEGQuality :: int where "thumbnailJPEGQuality = 80"

definition jpegQualityFor :: "media_output_kind \<Rightarrow> int" where
  "jpegQualityFor kind = (if kind = MediaOutputThumbnail then thumbnailJPEGQuality else webJPEGQuality)"

definition encode ::
  "('img, 'px) image_codec \<Rightarrow> 'px \<Rightarrow> media_content_type \<Rightarrow> media_output_kind \<Rightarrow> render_error + byte list"
where
  "encode cdc px ct kind =
     (if ct = MediaContentTypeJPEG then from_option ErrEncode (img_jpeg cdc px (jpegQualityFor kind))
      else if ct = MediaContentTypePNG then from_option ErrEncode (img_png cdc px)
      else Inl ErrUnsupportedType)"

definition requireFormat :: "string \<Rightarrow> media_content_type \<Rightarrow> render_error + unit" where
  "requireFormat decodedFormat ct =
     (let expected = (if ct = MediaContentTypeJPEG then ''jpeg''
                      else if ct = MediaContentTypePNG then ''png'' else []) in
      if expected = [] then Inl ErrUnsupportedType
      else if decodedFormat \<noteq> expected then Inl ErrFormatNotPreserved
      else Inr ())"

definition renderOne ::
  "('img, 'px) image_codec \<Rightarrow> (byte list \<Rightarrow> nat list) \<Rightarrow> 'img \<Rightarrow> media_content_type \<Rightarrow> media_processing_policy
   \<Rightarrow> render_error + artifact"
where
  "renderOne cdc sha256 source ct policy =
     (let (width, height) = fitInside (fst (img_bounds cdc source)) (snd (img_bounds cdc source))
                              (policy_bounding_box policy) in
      and_then (encode cdc (img_scale cdc source width height) ct (policy_kind policy)) (\<lambda>bytes.
        Inr \<lparr>art_kind = policy_kind policy, art_content_type = ct, art_width = width, art_height = height,
             art_bytes = bytes, art_sha256 = sha256 bytes\<rparr>))"

fun render_all ::
  "('img, 'px) image_codec \<Rightarrow> (byte list \<Rightarrow> nat list) \<Rightarrow> 'img \<Rightarrow> media_content_type
   \<Rightarrow> media_processing_policy list \<Rightarrow> render_error + artifact list"
where
  "render_all cdc sha256 source ct [] = Inr []"
| "render_all cdc sha256 source ct (policy # ps) =
     and_then (renderOne cdc sha256 source ct policy) (\<lambda>a.
     and_then (render_all cdc sha256 source ct ps) (\<lambda>as. Inr (a # as)))"

definition Render ::
  "('img, 'px) image_codec \<Rightarrow> (byte list \<Rightarrow> nat list) \<Rightarrow> byte list \<Rightarrow> media_content_type
   \<Rightarrow> media_processing_policy list \<Rightarrow> render_error + artifact list"
where
  "Render cdc sha256 data ct policies =
     (case img_decode cdc data of
        None \<Rightarrow> Inl ErrDecodeFailed
      | Some (source, decodedFormat) \<Rightarrow>
          and_then (requireFormat decodedFormat ct) (\<lambda>_. render_all cdc sha256 source ct policies))"

section \<open>The error of the floating-point geometry\<close>

lemma round_half_even_error: "\<bar>of_int (round_half_even m) - m\<bar> \<le> 1/2"
proof -
  have "of_int \<lfloor>m\<rfloor> \<le> m" "m < of_int \<lfloor>m\<rfloor> + 1" by linarith+
  then show ?thesis by (auto simp: round_half_even_def Let_def abs_le_iff)
qed

lemma normalize_spec:
  "2 ^ 52 \<le> m * 2 ^ n \<Longrightarrow> normalize n m k = (m', k') \<Longrightarrow> 2 ^ 52 \<le> m' \<and> m' / 2 ^ k' = m / 2 ^ k"
proof (induction n arbitrary: m k)
  case (Suc n)
  show ?case
  proof (cases "2 ^ 52 \<le> m")
    case False
    have "2 ^ 52 \<le> 2 * m * 2 ^ n" using Suc.prems(1) by (simp add: mult.assoc mult.left_commute)
    moreover have "normalize n (2 * m) (Suc k) = (m', k')" using Suc.prems(2) False by simp
    ultimately have "2 ^ 52 \<le> m' \<and> m' / 2 ^ k' = 2 * m / 2 ^ Suc k" by (rule Suc.IH)
    then show ?thesis by simp
  qed (use Suc.prems in auto)
qed simp

text \<open>Relative error at most one part in 2 to the 53 for values that are not subnormal.\<close>

lemma round64_error:
  assumes "2 ^ 52 \<le> q * 2 ^ 1074"
  shows "\<bar>round64 q - q\<bar> \<le> q / 2 ^ 53"
proof -
  obtain m k where n: "normalize 1074 q 0 = (m, k)" by (cases "normalize 1074 q 0")
  have s: "2 ^ 52 \<le> m" "m / 2 ^ k = q" using normalize_spec [OF assms n] by auto
  have f: "round64 q = of_int (round_half_even m) / 2 ^ k" by (simp add: round64_def n)
  have "round64 q - q = (of_int (round_half_even m) - m) / 2 ^ k"
    unfolding f using s(2) by (simp add: diff_divide_distrib)
  then have "\<bar>round64 q - q\<bar> = \<bar>of_int (round_half_even m) - m\<bar> / 2 ^ k" by simp
  also have "\<dots> \<le> (1/2) / 2 ^ k" by (intro divide_right_mono round_half_even_error) simp
  also have "\<dots> \<le> (m / 2 ^ 53) / 2 ^ k" using s(1) by (intro divide_right_mono) simp_all
  also have "\<dots> = q / 2 ^ 53" using s(2) by (simp add: field_simps)
  finally show ?thesis .
qed


lemma round64_close:
  assumes "1 / 2 ^ 60 \<le> q"
  shows "\<bar>round64 q - q\<bar> \<le> q / 2 ^ 53"
proof (rule round64_error)
  have "(2::rat) ^ 52 \<le> (1 / 2 ^ 60) * 2 ^ 112" by simp
  also have "\<dots> \<le> (1 / 2 ^ 60) * 2 ^ 1074" by (intro mult_left_mono power_increasing) simp_all
  also have "\<dots> \<le> q * 2 ^ 1074" using assms by (intro mult_right_mono) simp_all
  finally show "2 ^ 52 \<le> q * 2 ^ 1074" .
qed

definition scaled_side :: "int \<Rightarrow> int \<Rightarrow> int \<Rightarrow> rat" where
  "scaled_side side box longest = round64 (of_int side * round64 (of_int box / of_int longest))"

lemma scaled_side_close:
  assumes "1 \<le> box" "box \<le> 2 ^ 20" "1 \<le> side" "side \<le> longest" "longest < 2 ^ 53"
  defines "r \<equiv> (of_int side * of_int box / of_int longest :: rat)"
  shows "\<bar>scaled_side side box longest - r\<bar> < 1 / 4" "0 < r" "r \<le> of_int box"
proof -
  define e :: rat where "e = 1 / 2 ^ 53"
  define b :: rat where "b = of_int box / of_int longest"
  define s where "s = round64 b"
  have L: "(0::rat) < of_int longest" using assms by simp
  have L53: "(of_int longest :: rat) \<le> 2 ^ 53" using assms(5) of_int_le_iff [of longest "2^53", where 'a=rat] by simp
  have side: "(1::rat) \<le> of_int side" "(of_int side :: rat) \<le> of_int longest" using assms by simp_all
  have box: "(1::rat) \<le> of_int box" "(of_int box :: rat) \<le> 2 ^ 20"
    using assms(1,2) of_int_le_iff [of box "2^20", where 'a=rat] by simp_all
  have r: "r = of_int side * b" by (simp add: r_def b_def)
  have bpos: "1 / 2 ^ 53 \<le> b"
  proof -
    have "1 / 2 ^ 53 \<le> 1 / (of_int longest :: rat)" using L L53 by (intro divide_left_mono) simp_all
    also have "\<dots> \<le> b" unfolding b_def using L box by (intro divide_right_mono) simp_all
    finally show ?thesis .
  qed
  show rpos: "0 < r" unfolding r using bpos side by (intro mult_pos_pos) simp_all
  show rbox: "r \<le> of_int box"
    unfolding r_def using L side box by (simp add: pos_divide_le_eq mult.commute mult_right_mono)
  have e1: "\<bar>s - b\<bar> \<le> b * e" unfolding s_def e_def using round64_close [of b] bpos by simp
  have "\<bar>of_int side * s - r\<bar> = of_int side * \<bar>s - b\<bar>"
    unfolding r using side by (simp add: abs_mult flip: right_diff_distrib)
  also have "\<dots> \<le> of_int side * (b * e)" using e1 side by (intro mult_left_mono) simp_all
  finally have e2: "\<bar>of_int side * s - r\<bar> \<le> r * e" unfolding r by simp
  have sb: "1 / 2 ^ 60 \<le> of_int side * s"
  proof -
    have "b * e \<le> b / 2" using bpos by (simp add: e_def)
    then have "b / 2 \<le> s" using e1 unfolding abs_le_iff by linarith
    then have "1 / 2 ^ 60 \<le> s" using bpos by simp
    also have "s \<le> of_int side * s" using side calculation mult_right_mono [of 1 "of_int side" s] by simp
    finally show ?thesis .
  qed
  have "\<bar>round64 (of_int side * s) - of_int side * s\<bar> \<le> of_int side * s * e"
    using round64_close [OF sb] by (simp add: e_def)
  also have "\<dots> \<le> (2 * r) * e"
  proof (rule mult_right_mono)
    have "r * e \<le> r" using rpos by (simp add: e_def)
    then show "of_int side * s \<le> 2 * r" using e2 by (simp add: abs_le_iff)
  qed (simp add: e_def)
  finally have "\<bar>round64 (of_int side * s) - r\<bar> \<le> 3 * (r * e)" using e2 by (simp add: abs_le_iff)
  also have "\<dots> \<le> 3 * (2 ^ 20 * e)"
    using rbox box by (intro mult_left_mono mult_right_mono) (simp_all add: e_def)
  also have "\<dots> < 1 / 4" by (simp add: e_def)
  finally show "\<bar>scaled_side side box longest - r\<bar> < 1 / 4" by (simp add: scaled_side_def s_def b_def)
qed

lemma atLeastOnePixel_close:
  assumes "1 \<le> box" "box \<le> 2 ^ 20" "1 \<le> side" "side \<le> longest" "longest < 2 ^ 53"
  defines "p \<equiv> atLeastOnePixel side (round64 (of_int box / of_int longest))"
  shows "1 \<le> p" "p \<le> box" "\<bar>of_int p - of_int side * of_int box / of_int longest\<bar> < (1 :: rat)"
    "side = longest \<Longrightarrow> p = box"
proof -
  define r :: rat where "r = of_int side * of_int box / of_int longest"
  define x where "x = scaled_side side box longest"
  note c = scaled_side_close [OF assms(1-5), folded r_def x_def]
  have p: "p = (if \<lfloor>x + 1/2\<rfloor> < 1 then 1 else \<lfloor>x + 1/2\<rfloor>)"
    by (simp add: p_def atLeastOnePixel_def x_def scaled_side_def math_round_def Let_def)
  have f: "of_int \<lfloor>x + 1/2\<rfloor> \<le> x + 1/2" "x + 1/2 < of_int \<lfloor>x + 1/2\<rfloor> + 1" by linarith+
  have le: "\<lfloor>x + 1/2\<rfloor> \<le> box"
    unfolding floor_le_iff using c unfolding abs_less_iff by linarith
  show "1 \<le> p" by (simp add: p)
  show "p \<le> box" using le assms(1) by (simp add: p)
  show "\<bar>of_int p - r\<bar> < 1"
  proof (cases "\<lfloor>x + 1/2\<rfloor> < 1")
    case True
    then have "x < 1/2" by (simp add: floor_less_iff)
    then have "r < 1" using c(1) unfolding abs_less_iff by linarith
    then show ?thesis using True c(2) by (simp add: p)
  next
    case False
    then have "of_int p = (of_int \<lfloor>x + 1/2\<rfloor> :: rat)" by (simp add: p)
    then show ?thesis using f c(1) unfolding abs_less_iff by linarith
  qed
  show "p = box" if "side = longest"
  proof -
    have "r = of_int box" using that assms(3) by (simp add: r_def)
    then have "of_int box \<le> x + 1/2" using c(1) unfolding abs_less_iff by linarith
    then have "box \<le> \<lfloor>x + 1/2\<rfloor>" by (simp add: le_floor_iff)
    then show ?thesis using le assms(1) by (simp add: p)
  qed
qed

lemma fitInside_facts:
  assumes "1 \<le> box" "box \<le> 2 ^ 20"
    and "1 \<le> w" "w < 2 ^ 53" "1 \<le> h" "h < 2 ^ 53"
  shows "case fitInside w h box of (w', h') \<Rightarrow>
           1 \<le> w' \<and> w' \<le> box \<and> 1 \<le> h' \<and> h' \<le> box \<and>
           (if max w h \<le> box then w' = w \<and> h' = h
            else max w' h' = box \<and>
                 \<bar>of_int w' - of_int w * of_int box / of_int (max w h)\<bar> < (1 :: rat) \<and>
                 \<bar>of_int h' - of_int h * of_int box / of_int (max w h)\<bar> < (1 :: rat))"
proof (cases "max w h \<le> box")
  case True
  then show ?thesis using assms by (auto simp: fitInside_def)
next
  case False
  have L: "(if w < h then h else w) = max w h" by auto
  have m: "max w h < 2 ^ 53" using assms by simp
  note cw = atLeastOnePixel_close [OF assms(1,2,3) max.cobounded1 [of w h] m]
  note ch = atLeastOnePixel_close [OF assms(1,2,5) max.cobounded2 [of h w] m]
  define M where "M = max w h"
  define w' where "w' = atLeastOnePixel w (round64 (of_int box / of_int M))"
  define h' where "h' = atLeastOnePixel h (round64 (of_int box / of_int M))"
  have fit: "fitInside w h box = (w', h')"
    unfolding fitInside_def L Let_def M_def [symmetric] w'_def h'_def
    using False by (simp only: M_def if_False)
  have "w = M \<or> h = M" by (auto simp: M_def max_def)
  then have "max w' h' = box"
    using cw(2,4) ch(2,4) unfolding w'_def h'_def M_def by (auto simp: max_def max.commute [of h w])
  moreover have "\<not> M \<le> box" using False by (simp add: M_def)
  ultimately show ?thesis
    using cw(1-3) ch(1-3) unfolding fit M_def [symmetric] w'_def [symmetric] h'_def [symmetric]
      max.commute [of h w] by simp
qed

text \<open>C34: A rendition fits its bounding box. For sides from one pixel up to 2 to the 53 and a box
  of at most a million pixels, the floating-point computation of \<open>fitInside\<close> never yields a side
  below one or above the box when it scales, puts the longest side exactly on the box, keeps each
  side within one pixel of the exact proportion, and leaves an image inside the box untouched.\<close>

theorem fitInside_fits_box:
  assumes "1 \<le> box" "box \<le> 2 ^ 20"
    and "1 \<le> w" "w < 2 ^ 53" "1 \<le> h" "h < 2 ^ 53"
  shows "case fitInside w h box of (w', h') \<Rightarrow>
           1 \<le> w' \<and> w' \<le> box \<and> 1 \<le> h' \<and> h' \<le> box \<and>
           (if max w h \<le> box then w' = w \<and> h' = h
            else max w' h' = box \<and>
                 \<bar>of_int w' - of_int w * of_int box / of_int (max w h)\<bar> < (1 :: rat) \<and>
                 \<bar>of_int h' - of_int h * of_int box / of_int (max w h)\<bar> < (1 :: rat))"
  using assms by (rule fitInside_facts)

theorem fitInside_fits_box_witness:
  "case fitInside 4000 3000 1080 of (w', h') \<Rightarrow>
     max w' h' = 1080 \<and> 1 \<le> h' \<and> \<bar>of_int h' - (810 :: rat)\<bar> < 1"
  using fitInside_fits_box [of 1080 4000 3000] by (simp split: prod.splits)

end
