(* ===== verification/Media_Processor.thy ===== *)
theory Media_Processor
  imports Rendition Prelude
begin

text \<open>
  The decoder process and its supervisor: \<open>cmd/media-processor/main.go\<close> (what the child does with
  one request) and \<open>internal/media/processing\<close> (the line protocol, the supervisor that reads it
  under stage budgets, and the verdict it reaches). The child's files are a map from paths to
  contents; what the supervisor observes is a list of events in the order its select picks them.
\<close>

section \<open>Lexical paths\<close>

text \<open>\<open>filepath.Clean\<close> and \<open>filepath.Join\<close> on slash-separated paths.\<close>

fun clean_elements :: "bool \<Rightarrow> string list \<Rightarrow> string list \<Rightarrow> string list" where
  "clean_elements rooted st [] = rev st"
| "clean_elements rooted st (c # cs) =
     (if c = [] \<or> c = ''.'' then clean_elements rooted st cs
      else if c = ''..'' then
        (case st of
           [] \<Rightarrow> clean_elements rooted (if rooted then [] else [c]) cs
         | t # ts \<Rightarrow> if t = ''..'' then clean_elements rooted (c # st) cs
                   else clean_elements rooted ts cs)
      else clean_elements rooted (c # st) cs)"

definition path_clean :: "string \<Rightarrow> string" where
  "path_clean p =
     (let rooted = has_prefix ''/'' p;
          r = (if rooted then ''/'' else []) @ join_with ''/'' (clean_elements rooted [] (split_on CHR ''/'' p)) in
      if r = [] then ''.'' else r)"

definition path_join :: "string list \<Rightarrow> string" where
  "path_join elements =
     (case filter (\<lambda>e. e \<noteq> []) elements of [] \<Rightarrow> [] | es \<Rightarrow> path_clean (join_with ''/'' es))"

section \<open>The protocol\<close>

definition StageValidated :: string where "StageValidated = ''validated''"
definition StageCompleted :: string where "StageCompleted = ''completed''"
definition StageRejected :: string where "StageRejected = ''rejected''"

lemmas stage_defs = StageValidated_def StageCompleted_def StageRejected_def

lemma stages_distinct [simp]:
  "StageValidated \<noteq> StageCompleted" "StageCompleted \<noteq> StageValidated"
  "StageValidated \<noteq> StageRejected" "StageRejected \<noteq> StageValidated"
  "StageCompleted \<noteq> StageRejected" "StageRejected \<noteq> StageCompleted"
  by (simp_all add: stage_defs)

record proc_request =
  rq_source :: string
  rq_scratch :: string
  rq_declared :: media_content_type
  rq_max_side :: int
  rq_max_pixels :: int
  rq_outputs :: "media_processing_policy list"

record proc_artifact =
  pa_kind :: media_output_kind
  pa_path :: string
  pa_content_type :: media_content_type
  pa_width :: int
  pa_height :: int
  pa_size :: int
  pa_sha256 :: string

record message =
  ms_stage :: string
  ms_detected :: media_content_type
  ms_width :: int
  ms_height :: int
  ms_source_sha256 :: string
  ms_artifacts :: "proc_artifact list"
  ms_reason :: string

definition empty_message :: "string \<Rightarrow> message" where
  "empty_message stage = \<lparr>ms_stage = stage, ms_detected = [], ms_width = 0, ms_height = 0,
     ms_source_sha256 = [], ms_artifacts = [], ms_reason = []\<rparr>"

record proc_outcome =
  po_detected :: media_content_type
  po_width :: int
  po_height :: int
  po_source_sha256 :: "nat list"
  po_artifacts :: "proc_artifact list"

definition empty_outcome :: proc_outcome where
  "empty_outcome = \<lparr>po_detected = [], po_width = 0, po_height = 0, po_source_sha256 = [], po_artifacts = []\<rparr>"

definition ExitSuccess :: int where "ExitSuccess = 0"
definition ExitRejected :: int where "ExitRejected = 1"
definition ExitInternal :: int where "ExitInternal = 2"

section \<open>The child\<close>

datatype child_error = Admission validation_error | Rendering render_error

fun reasonFor :: "child_error \<Rightarrow> string" where
  "reasonFor (Admission e) =
     (if e = ErrDimensionsExceeded then ''IMAGE_DIMENSIONS_EXCEEDED''
      else if e = ErrTypeMismatch then ''MEDIA_TYPE_UNSUPPORTED''
      else if e \<in> {ErrNotAnImage, ErrCorruptContainer, ErrTrailingContent, ErrUnsupportedFeature} then ''INVALID_IMAGE''
      else ''MEDIA_PROCESSING_FAILED'')"
| "reasonFor (Rendering e) = ''MEDIA_PROCESSING_FAILED''"

type_synonym file_system = "string \<Rightarrow> byte list option"

definition artifact_path :: "string \<Rightarrow> artifact \<Rightarrow> string \<Rightarrow> string" where
  "artifact_path scratchDir a extension = path_join [scratchDir, art_kind a @ ''.'' @ extension]"

definition written_artifact :: "string \<Rightarrow> artifact \<Rightarrow> proc_artifact" where
  "written_artifact path a =
     \<lparr>pa_kind = art_kind a, pa_path = path, pa_content_type = art_content_type a,
      pa_width = art_width a, pa_height = art_height a, pa_size = int (length (art_bytes a)),
      pa_sha256 = hex_encode (art_sha256 a)\<rparr>"

text \<open>\<open>writable\<close> tells whether writing a file at a path succeeds; \<open>None\<close> is the error return.\<close>

fun writeArtifacts ::
  "(string \<Rightarrow> bool) \<Rightarrow> string \<Rightarrow> artifact list \<Rightarrow> file_system \<Rightarrow> proc_artifact list option \<times> file_system"
where
  "writeArtifacts writable scratchDir [] fs = (Some [], fs)"
| "writeArtifacts writable scratchDir (a # as) fs =
     (case FileExtension (art_content_type a) of
        None \<Rightarrow> (None, fs)
      | Some extension \<Rightarrow>
          let path = artifact_path scratchDir a extension in
          if \<not> writable path then (None, fs)
          else (case writeArtifacts writable scratchDir as (fs(path \<mapsto> art_bytes a)) of
                  (Some ws, fs') \<Rightarrow> (Some (written_artifact path a # ws), fs')
                | (None, fs') \<Rightarrow> (None, fs')))"

text \<open>
  The exit code, the messages in the order they are printed, and the files. \<open>None\<close> as request is
  one that does not decode. A panic of the admission would end the process with code 2.
\<close>

definition run ::
  "('img, 'px) image_codec \<Rightarrow> (byte list \<Rightarrow> (int \<times> int) option) \<Rightarrow> (byte list \<Rightarrow> nat list) \<Rightarrow> (string \<Rightarrow> bool)
   \<Rightarrow> proc_request option \<Rightarrow> file_system \<Rightarrow> (int \<times> message list) \<times> file_system"
where
  "run img decodeConfig sha256 writable request fs =
     (case request of
        None \<Rightarrow> ((ExitInternal, []), fs)
      | Some r \<Rightarrow>
     (case fs (rq_source r) of
        None \<Rightarrow> ((ExitInternal, []), fs)
      | Some source \<Rightarrow>
     (case Admit decodeConfig source (rq_declared r) \<lparr>MaxSidePx = rq_max_side r, MaxPixels = rq_max_pixels r\<rparr> of
        Inl Panic \<Rightarrow> ((2, []), fs)
      | Inl e \<Rightarrow> ((ExitRejected, [(empty_message StageRejected)\<lparr>ms_reason := reasonFor (Admission e)\<rparr>]), fs)
      | Inr rep \<Rightarrow>
          let validated = (empty_message StageValidated)\<lparr>ms_detected := DetectedType rep,
                ms_width := report_Width rep, ms_height := report_Height rep,
                ms_source_sha256 := hex_encode (sha256 source)\<rparr> in
          (case Render img sha256 source (DetectedType rep) (rq_outputs r) of
             Inl e \<Rightarrow> ((ExitRejected,
                 [validated, (empty_message StageRejected)\<lparr>ms_reason := reasonFor (Rendering e)\<rparr>]), fs)
           | Inr artifacts \<Rightarrow>
              (case writeArtifacts writable (rq_scratch r) artifacts fs of
                 (None, fs') \<Rightarrow> ((ExitInternal, [validated]), fs')
               | (Some written, fs') \<Rightarrow>
                   ((ExitSuccess, [validated, (empty_message StageCompleted)\<lparr>ms_artifacts := written\<rparr>]), fs'))))))"

section \<open>The supervisor\<close>

datatype child_event = StageTimer | ScanFailed | Received message | OutputClosed

datatype read_error =
  ValidationTimeout | TransformTimeout | NoTerminalMessage | UnusableMessage | ReadRejected string

definition maxReasonCodeLength :: nat where "maxReasonCodeLength = 64"

definition safeReasonCode :: "string \<Rightarrow> string" where
  "safeReasonCode code =
     (if maxReasonCodeLength < length code then take maxReasonCodeLength code
      else if code = [] then ''MEDIA_PROCESSING_FAILED'' else code)"

text \<open>
  The read loop. The stage timer is always armed, so an observation that ends without a verdict
  (\<open>None\<close>) is one that has not seen the timer yet.
\<close>

fun read_events :: "proc_outcome \<Rightarrow> bool \<Rightarrow> child_event list \<Rightarrow> (read_error + proc_outcome) option" where
  "read_events out validated [] = None"
| "read_events out validated (StageTimer # es) =
     Some (Inl (if validated then TransformTimeout else ValidationTimeout))"
| "read_events out validated (ScanFailed # es) = Some (Inl UnusableMessage)"
| "read_events out validated (OutputClosed # es) = Some (Inl NoTerminalMessage)"
| "read_events out validated (Received m # es) =
     (if ms_stage m = StageValidated then
        (case hex_decode (ms_source_sha256 m) of
           None \<Rightarrow> Some (Inl UnusableMessage)
         | Some digest \<Rightarrow>
             read_events (out\<lparr>po_detected := ms_detected m, po_width := ms_width m, po_height := ms_height m,
                              po_source_sha256 := digest\<rparr>) True es)
      else if ms_stage m = StageCompleted then Some (Inr (out\<lparr>po_artifacts := ms_artifacts m\<rparr>))
      else if ms_stage m = StageRejected then Some (Inl (ReadRejected (safeReasonCode (ms_reason m))))
      else Some (Inl UnusableMessage))"

definition readUntilTerminal :: "child_event list \<Rightarrow> (read_error + proc_outcome) option" where
  "readUntilTerminal es = read_events empty_outcome False es"

text \<open>How the child ended, when not with code 0.\<close>

datatype wait_error = ExitedWith int | WaitFailed

datatype process_error = Rejection string | ErrProcessorFailed | ErrProcessorIsolation

definition exitedRejecting :: "wait_error \<Rightarrow> bool" where
  "exitedRejecting w \<longleftrightarrow> w = ExitedWith ExitRejected"

definition classify :: "read_error + proc_outcome \<Rightarrow> wait_error option \<Rightarrow> process_error + proc_outcome" where
  "classify read waited =
     (case (read, waited) of
        (Inr out, None) \<Rightarrow> Inr out
      | (Inl ValidationTimeout, _) \<Rightarrow> Inl (Rejection ''MEDIA_PROCESSING_TIMEOUT'')
      | (Inl TransformTimeout, _) \<Rightarrow> Inl (Rejection ''MEDIA_PROCESSING_TIMEOUT'')
      | (Inl (ReadRejected code), _) \<Rightarrow> Inl (Rejection code)
      | (Inl _, _) \<Rightarrow> Inl ErrProcessorFailed
      | (Inr _, Some w) \<Rightarrow>
          if exitedRejecting w then Inl (Rejection ''MEDIA_PROCESSING_FAILED'') else Inl ErrProcessorFailed)"

record process_identity =
  pi_uid :: int
  pi_gid :: int

text \<open>\<open>chown\<close> tells for each path whether changing its owner succeeds.\<close>

definition prepareIdentity ::
  "process_identity option \<Rightarrow> int \<Rightarrow> (string \<Rightarrow> bool) \<Rightarrow> proc_request \<Rightarrow> process_error + unit"
where
  "prepareIdentity identity euid chown r =
     (case identity of
        None \<Rightarrow> Inr ()
      | Some i \<Rightarrow>
          if euid \<noteq> 0 \<or> pi_uid i = 0 \<or> pi_gid i = 0 \<or> pi_uid i = euid then Inl ErrProcessorIsolation
          else if \<not> chown (rq_scratch r) then Inl ErrProcessorIsolation
          else if \<not> chown (rq_source r) then Inl ErrProcessorIsolation
          else Inr ())"

text \<open>\<open>started\<close>: the pipes opened and the process started; then the events and the exit are observed.\<close>

definition Process ::
  "process_identity option \<Rightarrow> int \<Rightarrow> (string \<Rightarrow> bool) \<Rightarrow> bool \<Rightarrow> child_event list \<Rightarrow> wait_error option
   \<Rightarrow> proc_request \<Rightarrow> (process_error + proc_outcome) option"
where
  "Process identity euid chown started events waited r =
     (case prepareIdentity identity euid chown r of
        Inl e \<Rightarrow> Some (Inl e)
      | Inr _ \<Rightarrow>
          if \<not> started then Some (Inl ErrProcessorFailed)
          else map_option (\<lambda>read. classify read waited) (readUntilTerminal events))"

fun ReasonCode :: "process_error \<Rightarrow> string" where
  "ReasonCode (Rejection code) = code"
| "ReasonCode _ = []"


section \<open>Paths of artifacts\<close>

definition plain_name :: "string \<Rightarrow> bool" where
  "plain_name n \<longleftrightarrow> CHR ''/'' \<notin> set n \<and> n \<noteq> [] \<and> n \<noteq> ''.'' \<and> n \<noteq> ''..''"

lemma clean_elements_snoc:
  "plain_name n \<Longrightarrow> clean_elements rooted st (cs @ [n]) = clean_elements rooted st cs @ [n]"
  by (induction rooted st cs rule: clean_elements.induct) (auto simp: plain_name_def split: list.splits)

lemma split_on_no_sep: "c \<notin> set n \<Longrightarrow> split_on c n = [n]"
  by (induction n) auto

lemma split_on_not_Nil [simp]: "split_on c s \<noteq> []"
  by (cases s) (auto split: list.splits)

lemma split_on_snoc: "c \<notin> set n \<Longrightarrow> split_on c (d @ c # n) = split_on c d @ [n]"
  by (induction d) (auto simp: split_on_no_sep split: list.splits)

lemma join_with_snoc: "ws \<noteq> [] \<Longrightarrow> join_with sep (ws @ [w]) = join_with sep ws @ sep @ w"
  by (induction sep ws rule: join_with.induct) auto

lemma path_clean_snoc:
  assumes "plain_name n" and "split_on CHR ''/'' p = cs @ [n]"
  shows "\<exists>pre. path_clean p = pre @ n"
proof -
  let ?es = "clean_elements (has_prefix ''/'' p) [] cs"
  have n: "n \<noteq> []" using assms(1) by (simp add: plain_name_def)
  show ?thesis
  proof (cases "?es = []")
    case True
    then show ?thesis using n by (auto simp: path_clean_def Let_def assms(2) clean_elements_snoc [OF assms(1)])
  next
    case False
    then show ?thesis
      using n by (auto simp: path_clean_def Let_def assms(2) clean_elements_snoc [OF assms(1)] join_with_snoc)
  qed
qed

lemma path_join_ends_with:
  assumes "plain_name n"
  shows "\<exists>pre. path_join [d, n] = pre @ n"
proof -
  have c: "CHR ''/'' \<notin> set n" "n \<noteq> []" using assms by (auto simp: plain_name_def)
  show ?thesis
  proof (cases "d = []")
    case True
    then show ?thesis using path_clean_snoc [OF assms, of n "[]"] c by (simp add: path_join_def split_on_no_sep)
  next
    case False
    then show ?thesis
      using path_clean_snoc [OF assms, of "d @ CHR ''/'' # n" "split_on CHR ''/'' d"] c
      by (simp add: path_join_def split_on_snoc)
  qed
qed

lemma plain_artifact_names:
  "plain_name (''thumbnail.'' @ e)" "plain_name (''web.'' @ e)" if "FileExtension ct = Some e"
  using that by (auto simp: FileExtension_def plain_name_def split: if_splits)

lemma artifact_paths_differ:
  assumes "FileExtension ct = Some e"
  shows "path_join [d, ''thumbnail.'' @ e] \<noteq> path_join [d, ''web.'' @ e]"
proof
  assume eq: "path_join [d, ''thumbnail.'' @ e] = path_join [d, ''web.'' @ e]"
  obtain p q where "path_join [d, ''thumbnail.'' @ e] = p @ ''thumbnail.'' @ e"
    and "path_join [d, ''web.'' @ e] = q @ ''web.'' @ e"
    using path_join_ends_with plain_artifact_names [OF assms] by metis
  with eq have "rev (p @ ''thumbnail.'' @ e) = rev (q @ ''web.'' @ e)" by simp
  then have "rev (p @ ''thumbnail.'') = rev (q @ ''web.'')" by simp
  then show False by simp
qed

section \<open>What an accepted run of the child amounts to\<close>

lemma renderOne_InrD:
  assumes "renderOne cdc sha256 source ct policy = Inr a"
  shows "art_kind a = policy_kind policy" "art_content_type a = ct" "art_sha256 a = sha256 (art_bytes a)"
    "(art_width a, art_height a)
       = fitInside (fst (img_bounds cdc source)) (snd (img_bounds cdc source)) (policy_bounding_box policy)"
  using assms by (auto simp: renderOne_def Let_def split: prod.splits)

lemma Render_manifest_InrD:
  assumes "Render cdc sha256 data ct MediaOutputManifest = Inr as"
  obtains source fmt a b where "img_decode cdc data = Some (source, fmt)" "as = [a, b]"
    "renderOne cdc sha256 source ct \<lparr>policy_kind = MediaOutputThumbnail, policy_bounding_box = 256\<rparr> = Inr a"
    "renderOne cdc sha256 source ct \<lparr>policy_kind = MediaOutputWeb, policy_bounding_box = 1080\<rparr> = Inr b"
  using assms by (auto simp: Render_def MediaOutputManifest_def split: option.splits)

text \<open>An artifact as the database will accept it, whose file holds what its digest says.\<close>

definition artifact_holds :: "(byte list \<Rightarrow> nat list) \<Rightarrow> file_system \<Rightarrow> media_content_type \<Rightarrow> int \<Rightarrow> proc_artifact \<Rightarrow> bool" where
  "artifact_holds sha256 fs ct box a \<longleftrightarrow>
     pa_content_type a = ct \<and> 1 \<le> pa_width a \<and> pa_width a \<le> box \<and> 1 \<le> pa_height a \<and> pa_height a \<le> box
     \<and> (case fs (pa_path a) of
          None \<Rightarrow> False
        | Some bytes \<Rightarrow> pa_size a = int (length bytes) \<and> hex_decode (pa_sha256 a) = Some (sha256 bytes))"

lemma artifact_holdsI:
  assumes "renderOne cdc sha256 source ct \<lparr>policy_kind = k, policy_bounding_box = box\<rparr> = Inr a"
    and "1 \<le> box" "box \<le> 2 ^ 20" and "img_bounds cdc source = (w, h)" "1 \<le> w" "w < 2 ^ 53" "1 \<le> h" "h < 2 ^ 53"
    and "fs path = Some (art_bytes a)" "is_byte_list (sha256 (art_bytes a))"
  shows "artifact_holds sha256 fs ct box (written_artifact path a)"
proof -
  note r = renderOne_InrD [OF assms(1)]
  have "fitInside w h box = (art_width a, art_height a)" using r(4) assms(4) by simp
  then have "1 \<le> art_width a \<and> art_width a \<le> box \<and> 1 \<le> art_height a \<and> art_height a \<le> box"
    using fitInside_facts [OF assms(2,3,5,6,7,8)] by simp
  then show ?thesis
    using assms(9,10) r(2,3) by (simp add: artifact_holds_def written_artifact_def hex_decode_encode)
qed

lemma writeArtifacts_two:
  assumes "writeArtifacts writable d [a, b] fs = (Some ws, fs')" and "art_content_type a = ct" "art_content_type b = ct"
  obtains e where "FileExtension ct = Some e"
    "ws = [written_artifact (artifact_path d a e) a, written_artifact (artifact_path d b e) b]"
    "fs' = fs(artifact_path d a e \<mapsto> art_bytes a, artifact_path d b e \<mapsto> art_bytes b)"
  using assms by (auto simp: Let_def split: option.splits if_splits prod.splits)

text \<open>What the supervisor reads of a child that ended with code 0, and what its files hold then.\<close>

lemma child_run_read:
  assumes "run img decodeConfig sha256 writable (Some r) fs = ((ExitSuccess, msgs), fs')"
    and "rq_outputs r = MediaOutputManifest" "rq_max_side r < 2 ^ 53"
    and "\<forall>data im fmt. img_decode img data = Some (im, fmt) \<longrightarrow> decodeConfig data = Some (img_bounds img im)"
    and "\<forall>data. is_byte_list (sha256 data)"
  shows "\<exists>source out thumb web. fs (rq_source r) = Some source
    \<and> readUntilTerminal (map Received msgs @ [OutputClosed]) = Some (Inr out)
    \<and> po_detected out = rq_declared r \<and> po_source_sha256 out = sha256 source
    \<and> decodeConfig source = Some (po_width out, po_height out)
    \<and> po_artifacts out = [thumb, web] \<and> pa_kind thumb = MediaOutputThumbnail \<and> pa_kind web = MediaOutputWeb
    \<and> artifact_holds sha256 fs' (rq_declared r) 256 thumb \<and> artifact_holds sha256 fs' (rq_declared r) 1080 web"
proof -
  obtain source rep as ws where src: "fs (rq_source r) = Some source"
    and adm: "Admit decodeConfig source (rq_declared r) \<lparr>MaxSidePx = rq_max_side r, MaxPixels = rq_max_pixels r\<rparr> = Inr rep"
    and ren: "Render img sha256 source (DetectedType rep) MediaOutputManifest = Inr as"
    and wr: "writeArtifacts writable (rq_scratch r) as fs = (Some ws, fs')"
    and msgs: "msgs = [(empty_message StageValidated)\<lparr>ms_detected := DetectedType rep,
                ms_width := report_Width rep, ms_height := report_Height rep,
                ms_source_sha256 := hex_encode (sha256 source)\<rparr>,
              (empty_message StageCompleted)\<lparr>ms_artifacts := ws\<rparr>]"
    using assms(1,2)
    by (auto simp: run_def Let_def ExitSuccess_def ExitRejected_def ExitInternal_def
             split: option.splits sum.splits prod.splits validation_error.splits)
  note a = Admit_facts [OF adm]
  obtain im fmt t w where im: "img_decode img source = Some (im, fmt)" and as: "as = [t, w]"
    and t: "renderOne img sha256 im (rq_declared r) \<lparr>policy_kind = MediaOutputThumbnail, policy_bounding_box = 256\<rparr> = Inr t"
    and w: "renderOne img sha256 im (rq_declared r) \<lparr>policy_kind = MediaOutputWeb, policy_bounding_box = 1080\<rparr> = Inr w"
    using Render_manifest_InrD [OF ren] a(1) by metis
  have b: "img_bounds img im = (report_Width rep, report_Height rep)" using assms(4) im a(4) by fastforce
  note tk = renderOne_InrD [OF t] and wk = renderOne_InrD [OF w]
  obtain e where e: "FileExtension (rq_declared r) = Some e"
    and ws: "ws = [written_artifact (artifact_path (rq_scratch r) t e) t, written_artifact (artifact_path (rq_scratch r) w e) w]"
    and fs': "fs' = fs(artifact_path (rq_scratch r) t e \<mapsto> art_bytes t, artifact_path (rq_scratch r) w e \<mapsto> art_bytes w)"
    using writeArtifacts_two [OF wr [unfolded as] tk(2) wk(2)] by blast
  have "artifact_path (rq_scratch r) t e \<noteq> artifact_path (rq_scratch r) w e"
    using artifact_paths_differ [OF e] tk(1) wk(1)
    by (simp add: artifact_path_def MediaOutputThumbnail_def MediaOutputWeb_def)
  then have files: "fs' (artifact_path (rq_scratch r) t e) = Some (art_bytes t)"
    "fs' (artifact_path (rq_scratch r) w e) = Some (art_bytes w)" by (simp_all add: fs')
  have box: "1 \<le> (256 :: int)" "(256 :: int) \<le> 2 ^ 20" "1 \<le> (1080 :: int)" "(1080 :: int) \<le> 2 ^ 20" by simp_all
  have dims: "1 \<le> report_Width rep" "report_Width rep < 2 ^ 53" "1 \<le> report_Height rep" "report_Height rep < 2 ^ 53"
    using a(5-8) assms(3) by simp_all
  have th: "artifact_holds sha256 fs' (rq_declared r) 256 (written_artifact (artifact_path (rq_scratch r) t e) t)"
    by (rule artifact_holdsI [OF t box(1,2) b dims]) (rule files(1) assms(5) [rule_format])+
  have wh: "artifact_holds sha256 fs' (rq_declared r) 1080 (written_artifact (artifact_path (rq_scratch r) w e) w)"
    by (rule artifact_holdsI [OF w box(3,4) b dims]) (rule files(2) assms(5) [rule_format])+
  have "readUntilTerminal (map Received msgs @ [OutputClosed])
      = Some (Inr \<lparr>po_detected = rq_declared r, po_width = report_Width rep, po_height = report_Height rep,
                   po_source_sha256 = sha256 source, po_artifacts = ws\<rparr>)"
    using a(1) assms(5)
    by (simp add: readUntilTerminal_def msgs empty_message_def empty_outcome_def hex_decode_encode)
  then show ?thesis
    using src a(4) th wh ws tk(1) wk(1) by (intro exI [of _ source] exI conjI) (assumption | simp add: written_artifact_def)+
qed

text \<open>C35: The child and its supervisor agree end to end: when the child finishes a request for the
  output manifest with code 0, the supervisor that reads its messages and then its end of output
  returns an outcome with the declared type, the admitted dimensions, the digest of the very bytes the
  child read, and one artifact per policy, of that type, inside its bounding box, whose file holds
  exactly the bytes that its size and digest describe. The image library is assumed to decode
  an image to the dimensions its header announces, and SHA-256 to yield bytes.\<close>

theorem child_and_supervisor_agree:
  assumes "run img decodeConfig sha256 writable (Some r) fs = ((ExitSuccess, msgs), fs')"
    and "rq_outputs r = MediaOutputManifest" "rq_max_side r < 2 ^ 53"
    and "\<And>data im fmt. img_decode img data = Some (im, fmt) \<Longrightarrow> decodeConfig data = Some (img_bounds img im)"
    and "\<And>data. is_byte_list (sha256 data)"
  shows "\<exists>source out thumb web. fs (rq_source r) = Some source
    \<and> Process None euid chown True (map Received msgs @ [OutputClosed]) None r = Some (Inr out)
    \<and> po_detected out = rq_declared r \<and> po_source_sha256 out = sha256 source
    \<and> decodeConfig source = Some (po_width out, po_height out)
    \<and> po_artifacts out = [thumb, web] \<and> pa_kind thumb = MediaOutputThumbnail \<and> pa_kind web = MediaOutputWeb
    \<and> artifact_holds sha256 fs' (rq_declared r) 256 thumb \<and> artifact_holds sha256 fs' (rq_declared r) 1080 web"
proof -
  obtain source out thumb web where "fs (rq_source r) = Some source"
    and o: "readUntilTerminal (map Received msgs @ [OutputClosed]) = Some (Inr out)"
    and "po_detected out = rq_declared r" "po_source_sha256 out = sha256 source"
    "decodeConfig source = Some (po_width out, po_height out)"
    "po_artifacts out = [thumb, web]" "pa_kind thumb = MediaOutputThumbnail" "pa_kind web = MediaOutputWeb"
    "artifact_holds sha256 fs' (rq_declared r) 256 thumb" "artifact_holds sha256 fs' (rq_declared r) 1080 web"
    using child_run_read [OF assms(1-3)] assms(4,5) by blast
  moreover have "Process None euid chown True (map Received msgs @ [OutputClosed]) None r = Some (Inr out)"
    using o by (simp add: Process_def prepareIdentity_def classify_def)
  ultimately show ?thesis by blast
qed

definition demo_image_codec :: "(unit, unit) image_codec" where
  "demo_image_codec = \<lparr>img_decode = (\<lambda>_. Some ((), ''jpeg'')), img_bounds = (\<lambda>_. (4, 5)),
     img_scale = (\<lambda>_ _ _. ()), img_jpeg = (\<lambda>_ q. Some [word_of_int q]), img_png = (\<lambda>_. None)\<rparr>"

definition demo_sha256 :: "byte list \<Rightarrow> nat list" where
  "demo_sha256 data = replicate 32 (length data mod 256)"

definition demo_proc_request :: proc_request where
  "demo_proc_request = \<lparr>rq_source = ''/s/original'', rq_scratch = ''/s'', rq_declared = ''image/jpeg'',
     rq_max_side = 100, rq_max_pixels = 1000, rq_outputs = MediaOutputManifest\<rparr>"

definition demo_child_run :: "(int \<times> message list) \<times> file_system" where
  "demo_child_run = run demo_image_codec (\<lambda>_. Some (4, 5)) demo_sha256 (\<lambda>_. True) (Some demo_proc_request)
     [''/s/original'' \<mapsto> [0xFF, 0xD8, 0xFF, 0xD9]]"

lemma demo_child_exit: "fst (fst demo_child_run) = ExitSuccess" by code_simp

theorem child_and_supervisor_agree_witness:
  "\<exists>out thumb web. Process None 1000 (\<lambda>_. True) True
       (map Received (snd (fst demo_child_run)) @ [OutputClosed]) None demo_proc_request = Some (Inr out)
     \<and> po_artifacts out = [thumb, web] \<and> artifact_holds demo_sha256 (snd demo_child_run) ''image/jpeg'' 256 thumb"
proof -
  have r: "run demo_image_codec (\<lambda>_. Some (4, 5)) demo_sha256 (\<lambda>_. True) (Some demo_proc_request)
     [''/s/original'' \<mapsto> [0xFF, 0xD8, 0xFF, 0xD9]] = ((ExitSuccess, snd (fst demo_child_run)), snd demo_child_run)"
    using demo_child_exit by (metis demo_child_run_def prod.collapse)
  have "rq_outputs demo_proc_request = MediaOutputManifest" "rq_max_side demo_proc_request < 2 ^ 53"
    by (simp_all add: demo_proc_request_def)
  moreover have "\<And>data im fmt. img_decode demo_image_codec data = Some (im, fmt) \<Longrightarrow>
      Some (4, 5) = Some (img_bounds demo_image_codec im)"
    by (simp add: demo_image_codec_def)
  moreover have "\<And>data. is_byte_list (demo_sha256 data)" by (simp add: demo_sha256_def is_byte_list_def)
  ultimately obtain source out thumb web where
    "Process None 1000 (\<lambda>_. True) True (map Received (snd (fst demo_child_run)) @ [OutputClosed]) None demo_proc_request
       = Some (Inr out)"
    "po_artifacts out = [thumb, web]" "artifact_holds demo_sha256 (snd demo_child_run) (rq_declared demo_proc_request) 256 thumb"
    using child_and_supervisor_agree [OF r, where euid = 1000 and chown = "\<lambda>_. True"] by blast
  then show ?thesis by (auto simp: demo_proc_request_def)
qed

lemma read_events_cases:
  "read_events out validated es = Some (Inl (ReadRejected code)) \<Longrightarrow> code \<noteq> [] \<and> length code \<le> 64"
  by (induction out validated es rule: read_events.induct)
    (auto simp: safeReasonCode_def maxReasonCodeLength_def split: if_splits option.splits)

lemma classify_Rejection:
  "classify read waited = Inl (Rejection code) \<Longrightarrow>
     code \<in> {''MEDIA_PROCESSING_TIMEOUT'', ''MEDIA_PROCESSING_FAILED''} \<or> read = Inl (ReadRejected code)"
  by (cases read; cases waited)
    (auto simp: classify_def split: read_error.splits if_splits)

lemma Process_Rejection:
  "Process identity euid chown started events waited r = Some (Inl (Rejection code)) \<Longrightarrow>
     \<exists>read. readUntilTerminal events = Some read \<and> classify read waited = Inl (Rejection code)"
  by (auto simp: Process_def prepareIdentity_def split: sum.splits option.splits if_splits)

lemma classify_Inr: "classify read waited = Inr out \<Longrightarrow> read = Inr out \<and> waited = None"
  by (cases read; cases waited) (auto simp: classify_def split: read_error.splits if_splits)

lemma Process_InrD:
  "Process identity euid chown started events waited r = Some (Inr out) \<Longrightarrow>
     started \<and> waited = None \<and> readUntilTerminal events = Some (Inr out)"
  by (auto simp: Process_def split: sum.splits if_splits dest: classify_Inr)

lemma read_events_InrD:
  "read_events out validated es = Some (Inr r) \<Longrightarrow>
     \<exists>ms m rest. es = map Received (ms @ [m]) @ rest \<and> ms_stage m = StageCompleted \<and> po_artifacts r = ms_artifacts m
       \<and> (\<forall>v\<in>set ms. ms_stage v = StageValidated \<and> hex_decode (ms_source_sha256 v) \<noteq> None)"
proof (induction out validated es rule: read_events.induct)
  case (5 out validated m es)
  consider (validated) "ms_stage m = StageValidated" | (completed) "ms_stage m = StageCompleted"
    using "5.prems" by (auto split: if_splits)
  then show ?case
  proof cases
    case validated
    then obtain d where d: "hex_decode (ms_source_sha256 m) = Some d"
      and "read_events (out\<lparr>po_detected := ms_detected m, po_width := ms_width m, po_height := ms_height m,
                            po_source_sha256 := d\<rparr>) True es = Some (Inr r)"
      using "5.prems" by (auto split: option.splits)
    from "5.IH" [OF validated this] obtain ms m' rest where
      "es = map Received (ms @ [m']) @ rest" "ms_stage m' = StageCompleted" "po_artifacts r = ms_artifacts m'"
      "\<forall>v\<in>set ms. ms_stage v = StageValidated \<and> hex_decode (ms_source_sha256 v) \<noteq> None" by blast
    then show ?thesis using validated d by (intro exI [of _ "m # ms"] exI [of _ m'] exI [of _ rest]) simp
  next
    case completed
    then show ?thesis using "5.prems" by (intro exI [of _ "[]"] exI [of _ m] exI [of _ es]) auto
  qed
qed auto

text \<open>A verdict of the supervisor can be stored: whatever the child prints and however it ends, a
  rejection carries a code that is not empty and fits the 64 characters of the failure-code column,
  and an accepted outcome means the child ended with code 0 and its last message read was the
  completion, preceded only by well-formed validation messages.\<close>

theorem supervisor_verdicts:
  assumes "Process identity euid chown started events waited r = Some verdict"
  shows "case verdict of
      Inl e \<Rightarrow> (case e of Rejection code \<Rightarrow> code \<noteq> [] \<and> length code \<le> 64 | _ \<Rightarrow> True)
    | Inr out \<Rightarrow> started \<and> waited = None
        \<and> (\<exists>ms m rest. events = map Received (ms @ [m]) @ rest \<and> ms_stage m = StageCompleted
             \<and> po_artifacts out = ms_artifacts m
             \<and> (\<forall>v\<in>set ms. ms_stage v = StageValidated \<and> hex_decode (ms_source_sha256 v) \<noteq> None))"
proof (cases verdict)
  case (Inl e)
  show ?thesis
  proof (cases e)
    case (Rejection code)
    then obtain read where "readUntilTerminal events = Some read" "classify read waited = Inl (Rejection code)"
      using Process_Rejection assms Inl by blast
    then have "code \<noteq> [] \<and> length code \<le> 64"
      using classify_Rejection [of read waited code] read_events_cases [of empty_outcome False events code]
      by (auto simp: readUntilTerminal_def)
    then show ?thesis using Inl Rejection by simp
  qed (use Inl in auto)
next
  case (Inr out)
  have "started \<and> waited = None \<and> readUntilTerminal events = Some (Inr out)"
    using assms unfolding Inr by (rule Process_InrD)
  then show ?thesis using Inr read_events_InrD [of empty_outcome False events out]
    by (simp only: readUntilTerminal_def sum.case)
qed

theorem supervisor_verdicts_witness:
  "case Process None 1000 (\<lambda>_. True) True [Received (empty_message StageRejected)] (Some (ExitedWith 1)) demo_proc_request of
     Some (Inl (Rejection code)) \<Rightarrow> code = ''MEDIA_PROCESSING_FAILED'' \<and> code \<noteq> [] \<and> length code \<le> 64 | _ \<Rightarrow> False"
proof -
  have p: "Process None 1000 (\<lambda>_. True) True [Received (empty_message StageRejected)] (Some (ExitedWith 1)) demo_proc_request
    = Some (Inl (Rejection ''MEDIA_PROCESSING_FAILED''))" by code_simp
  show ?thesis using supervisor_verdicts [OF p] by (simp add: p)
qed

end
