(* ===== verification/Object_Storage.thy ===== *)
theory Object_Storage
  imports Image_Validation Prelude
begin

text \<open>
  \<open>internal/storage/minio_storage.go\<close>: the object storage of the service over an S3 client. The
  client, the URL signer and the URL parser are third-party code; they are the fields of a record
  that the operations take as an argument. The adapter's own decisions (which requests it makes, what
  it refuses, how it reads errors) are modelled. The contract that the rest of the service relies on
  is a locale; the adapter satisfies it over every client that keeps the documented behaviour of S3.
\<close>

section \<open>Escaping and base64\<close>

text \<open>\<open>url.PathEscape\<close> on bytes.\<close>

definition path_safe :: "char \<Rightarrow> bool" where
  "path_safe c \<longleftrightarrow>
     (let b = byte_of c in (48 \<le> b \<and> b \<le> 57) \<or> (65 \<le> b \<and> b \<le> 90) \<or> (97 \<le> b \<and> b \<le> 122))
     \<or> c \<in> set ''-_.~$&+=:@''"

definition upper_hex :: "nat \<Rightarrow> char" where
  "upper_hex n = (if n < 10 then char_of (48 + n) else char_of (55 + n))"

definition path_escape :: "string \<Rightarrow> string" where
  "path_escape s =
     concat (map (\<lambda>c. if path_safe c then [c]
       else [CHR ''%'', upper_hex (byte_of c div 16), upper_hex (byte_of c mod 16)]) s)"

definition escapeObjectKey :: "string \<Rightarrow> string" where
  "escapeObjectKey key = join_with ''/'' (map path_escape (split_on CHR ''/'' key))"

text \<open>\<open>base64.StdEncoding.DecodeString\<close>: padded, line ends ignored, trailing bits not checked.\<close>

definition base64_value :: "char \<Rightarrow> nat option" where
  "base64_value c =
     (let b = byte_of c in
      if 65 \<le> b \<and> b \<le> 90 then Some (b - 65)
      else if 97 \<le> b \<and> b \<le> 122 then Some (b - 71)
      else if 48 \<le> b \<and> b \<le> 57 then Some (b + 4)
      else if b = 43 then Some 62 else if b = 47 then Some 63 else None)"

fun base64_groups :: "string \<Rightarrow> nat list option" where
  "base64_groups [] = Some []"
| "base64_groups (a # b # c # d # r) =
     (case (base64_value a, base64_value b) of
        (Some x, Some y) \<Rightarrow>
          if r = [] \<and> c = CHR ''='' \<and> d = CHR ''='' then Some [x * 4 + y div 16]
          else (case base64_value c of
             None \<Rightarrow> None
           | Some z \<Rightarrow>
               if r = [] \<and> d = CHR ''='' then Some [x * 4 + y div 16, (y mod 16) * 16 + z div 4]
               else (case base64_value d of
                  None \<Rightarrow> None
                | Some w \<Rightarrow>
                    map_option (\<lambda>bs. [x * 4 + y div 16, (y mod 16) * 16 + z div 4, (z mod 4) * 64 + w] @ bs)
                      (base64_groups r)))
      | _ \<Rightarrow> None)"
| "base64_groups _ = None"

definition base64_decode :: "string \<Rightarrow> nat list option" where
  "base64_decode s = base64_groups (filter (\<lambda>c. byte_of c \<noteq> 10 \<and> byte_of c \<noteq> 13) s)"

section \<open>Configuration\<close>

record minio_config =
  mc_internal_endpoint :: string
  mc_public_endpoint :: string
  mc_region :: string
  mc_access_key :: string
  mc_secret_key :: string
  mc_bucket :: string
  mc_checksum_supported :: bool

text \<open>\<open>parseURL\<close> gives the scheme and the host of a URL that parses.\<close>

definition validateMinIOConfig :: "(string \<Rightarrow> (string \<times> string) option) \<Rightarrow> minio_config \<Rightarrow> bool" where
  "validateMinIOConfig parseURL c \<longleftrightarrow>
     list_all (\<lambda>v. trim_space v \<noteq> [])
       [mc_internal_endpoint c, mc_public_endpoint c, mc_region c, mc_access_key c, mc_secret_key c, mc_bucket c]
     \<and> list_all (\<lambda>e. case parseURL e of None \<Rightarrow> False | Some (scheme, host) \<Rightarrow> scheme \<noteq> [] \<and> host \<noteq> [])
       [mc_internal_endpoint c, mc_public_endpoint c]"

definition trim_right_slashes :: "string \<Rightarrow> string" where
  "trim_right_slashes s = rev (dropWhile (\<lambda>c. c = CHR ''/'') (rev s))"

section \<open>The client\<close>

datatype s3_error = ApiError string | OtherS3Error

record s3_head =
  sh_length :: "int option"
  sh_content_type :: "string option"
  sh_checksum :: "string option"
  sh_etag :: "string option"

text \<open>An upload request as the signer receives it, and a conditional put as the client sends it.\<close>

record signed_request =
  sr_url :: string
  sr_length :: int
  sr_headers :: "(string \<times> string) list"
  sr_expires_seconds :: int

record s3_put =
  sp_key :: object_key
  sp_body :: "byte list"
  sp_content_type :: media_content_type
  sp_if_none_match :: string
  sp_checksum :: "string option"

record 's s3_client =
  c_put :: "s3_put \<Rightarrow> 's \<Rightarrow> s3_error option \<times> 's"
  c_head :: "object_key \<Rightarrow> bool \<Rightarrow> 's \<Rightarrow> s3_error + s3_head"
  c_get :: "object_key \<Rightarrow> 's \<Rightarrow> s3_error + byte list"
  c_delete :: "object_key \<Rightarrow> 's \<Rightarrow> s3_error option \<times> 's"
  c_sign_put :: "signed_request \<Rightarrow> instant \<Rightarrow> (string \<times> (string \<times> string) list) option"
  c_sign_get :: "object_key \<Rightarrow> duration \<Rightarrow> string option"

fun mapObjectError :: "s3_error \<Rightarrow> media_error" where
  "mapObjectError (ApiError code) =
     (if code = ''NoSuchKey'' \<or> code = ''NotFound'' then ErrObjectNotFound
      else if code = ''PreconditionFailed'' \<or> code = ''ConditionalRequestConflict'' then ErrObjectAlreadyExists
      else ErrOther ''object storage request'')"
| "mapObjectError OtherS3Error = ErrOther ''object storage request''"

section \<open>The operations\<close>

definition put_request_of :: "minio_config \<Rightarrow> put_authority \<Rightarrow> signed_request" where
  "put_request_of c a =
     \<lparr>sr_url = trim_right_slashes (mc_public_endpoint c) @ ''/'' @ path_escape (mc_bucket c) @ ''/''
        @ escapeObjectKey (auth_key a),
      sr_length = auth_expected_size a,
      sr_headers = [(''Content-Type'', auth_content_type a), (''If-None-Match'', ''*'')]
        @ (if mc_checksum_supported c
           then [(''X-Amz-Checksum-Sha256'', base64_encode (auth_checksum a))] else []),
      sr_expires_seconds = auth_expires_in a div second\<rparr>"

definition PresignPut ::
  "'s s3_client \<Rightarrow> minio_config \<Rightarrow> put_authority \<Rightarrow> instant \<Rightarrow> media_error + upload_descriptor"
where
  "PresignPut cl c a signedAt =
     (if auth_key a = [] then Inl (ErrOther ''presigned PUT key is required'')
      else if auth_expires_in a div second < 1 then Inl (ErrOther ''presigned PUT expiry must be at least one second'')
      else if auth_expected_size a < MinUploadSizeBytes \<or> MaxUploadSizeBytes < auth_expected_size a
        then Inl (ErrOther ''presigned PUT size is outside admission bounds'')
      else if length (auth_checksum a) \<noteq> ChecksumByteLength
        then Inl (ErrOther ''presigned PUT requires a 32-byte SHA-256'')
      else if FileExtension (auth_content_type a) = None then Inl ErrUnsupportedMediaType
      else (case c_sign_put cl (put_request_of c a) signedAt of
              None \<Rightarrow> Inl (ErrOther ''presign PUT'')
            | Some (url, headers) \<Rightarrow>
                Inr \<lparr>desc_protocol = ''HTTP'', desc_method = ''PUT'', desc_url = url,
                     desc_headers = filter (\<lambda>(name, _). to_lower name \<noteq> ''host'') headers,
                     desc_credential_expires_at = signedAt + auth_expires_in a div second * second\<rparr>))"

definition PresignGet ::
  "'s s3_client \<Rightarrow> object_key \<Rightarrow> duration \<Rightarrow> instant \<Rightarrow> media_error + download_descriptor"
where
  "PresignGet cl key ttl now =
     (if IsRaw key then Inl ErrRawKeyNotPresignable
      else if \<not> has_prefix ''processed/'' key then Inl (ErrOther ''only processed object keys can be signed for read'')
      else if ttl \<le> 0 then Inl (ErrOther ''presigned GET expiry must be positive'')
      else (case c_sign_get cl key ttl of
              None \<Rightarrow> Inl (ErrOther ''presign GET'')
            | Some url \<Rightarrow> Inr \<lparr>down_url = url, down_expires_at = now + ttl\<rparr>))"

definition strip_quotes :: "string \<Rightarrow> string" where
  "strip_quotes s =
     rev (dropWhile (\<lambda>c. c = CHR 0x22) (rev (dropWhile (\<lambda>c. c = CHR 0x22) s)))"

definition or_empty :: "string option \<Rightarrow> string" where
  "or_empty s = (case s of None \<Rightarrow> [] | Some t \<Rightarrow> t)"

definition Head :: "'s s3_client \<Rightarrow> minio_config \<Rightarrow> object_key \<Rightarrow> 's \<Rightarrow> media_error + object_attributes" where
  "Head cl c key s =
     (case c_head cl key (mc_checksum_supported c) s of
        Inl e \<Rightarrow> Inl (mapObjectError e)
      | Inr h \<Rightarrow>
         (case (if or_empty (sh_checksum h) = [] then Some [] else base64_decode (or_empty (sh_checksum h))) of
            None \<Rightarrow> Inl (ErrOther ''decode storage SHA-256'')
          | Some checksum \<Rightarrow>
              Inr \<lparr>attr_size = (case sh_length h of None \<Rightarrow> 0 | Some n \<Rightarrow> n),
                   attr_content_type = or_empty (sh_content_type h), attr_checksum = checksum,
                   attr_etag = strip_quotes (or_empty (sh_etag h))\<rparr>))"

definition Put ::
  "'s s3_client \<Rightarrow> minio_config \<Rightarrow> object_key \<Rightarrow> byte list \<Rightarrow> put_attributes \<Rightarrow> 's \<Rightarrow> (media_error + unit) \<times> 's"
where
  "Put cl c key body a s =
     (if length (put_checksum a) \<noteq> ChecksumByteLength
      then (Inl (ErrOther ''server-side PUT requires a 32-byte SHA-256''), s)
      else if FileExtension (put_content_type a) = None then (Inl ErrUnsupportedMediaType, s)
      else (case c_put cl \<lparr>sp_key = key, sp_body = body, sp_content_type = put_content_type a,
                           sp_if_none_match = ''*'',
                           sp_checksum = (if mc_checksum_supported c
                                          then Some (base64_encode (put_checksum a)) else None)\<rparr> s of
              (Some e, s') \<Rightarrow> (Inl (mapObjectError e), s')
            | (None, s') \<Rightarrow> (Inr (), s')))"

definition Get :: "'s s3_client \<Rightarrow> object_key \<Rightarrow> 's \<Rightarrow> media_error + byte list" where
  "Get cl key s = map_error mapObjectError (c_get cl key s)"

definition Delete :: "'s s3_client \<Rightarrow> object_key \<Rightarrow> 's \<Rightarrow> (media_error + unit) \<times> 's" where
  "Delete cl key s =
     (case c_delete cl key s of (Some e, s') \<Rightarrow> (Inl (mapObjectError e), s') | (None, s') \<Rightarrow> (Inr (), s'))"


section \<open>The interface of the workers, and its contract\<close>

record 's object_store =
  ob_get :: "object_key \<Rightarrow> 's \<Rightarrow> media_error + byte list"
  ob_head :: "object_key \<Rightarrow> 's \<Rightarrow> media_error + object_attributes"
  ob_put :: "object_key \<Rightarrow> byte list \<Rightarrow> put_attributes \<Rightarrow> 's \<Rightarrow> (media_error + unit) \<times> 's"
  ob_delete :: "object_key \<Rightarrow> 's \<Rightarrow> (media_error + unit) \<times> 's"

definition minio_store :: "'s s3_client \<Rightarrow> minio_config \<Rightarrow> 's object_store" where
  "minio_store cl c = \<lparr>ob_get = Get cl, ob_head = Head cl c, ob_put = Put cl c, ob_delete = Delete cl\<rparr>"

lemma minio_store_simps [simp]:
  "ob_get (minio_store cl c) = Get cl" "ob_head (minio_store cl c) = Head cl c"
  "ob_put (minio_store cl c) = Put cl c" "ob_delete (minio_store cl c) = Delete cl"
  by (simp_all add: minio_store_def)

type_synonym bucket = "object_key \<Rightarrow> (byte list \<times> string) option"

text \<open>
  A store never overwrites: a put succeeds only on an absent key, and a failed one leaves the bucket
  alone or has stored the object all the same. What is read back is what is stored.
\<close>

locale object_storage =
  fixes st :: "'s object_store"
    and contents :: "'s \<Rightarrow> bucket"
    and sha256 :: "byte list \<Rightarrow> nat list"
  assumes put_ok: "ob_put st k b a s = (Inr (), s') \<Longrightarrow>
      contents s k = None \<and> contents s' = (contents s)(k \<mapsto> (b, put_content_type a))"
    and put_exists: "ob_put st k b a s = (Inl ErrObjectAlreadyExists, s') \<Longrightarrow> contents s' = contents s"
    and put_failed: "ob_put st k b a s = (Inl e, s') \<Longrightarrow>
      contents s' = contents s \<or> (contents s k = None \<and> contents s' = (contents s)(k \<mapsto> (b, put_content_type a)))"
    and head_ok: "ob_head st k s = Inr at \<Longrightarrow>
      \<exists>b t. contents s k = Some (b, t) \<and> attr_size at = int (length b) \<and> attr_content_type at = t
        \<and> (attr_checksum at = [] \<or> attr_checksum at = sha256 b)"
    and get_ok: "ob_get st k s = Inr b \<Longrightarrow> \<exists>t. contents s k = Some (b, t)"
    and delete_ok: "ob_delete st k s = (Inr (), s') \<Longrightarrow> contents s' = (contents s)(k := None)"
    and delete_failed: "ob_delete st k s = (Inl e, s') \<Longrightarrow>
      contents s' = contents s \<or> contents s' = (contents s)(k := None)"
begin

text \<open>A put never changes an object that is there.\<close>

lemma put_keeps: "ob_put st k b a s = (r, s') \<Longrightarrow> contents s q = Some x \<Longrightarrow> contents s' q = Some x"
  using put_ok [of k b a s s'] put_failed [of k b a s _ s'] by (cases r) (auto split: if_splits)

lemma delete_other: "ob_delete st k s = (r, s') \<Longrightarrow> q \<noteq> k \<Longrightarrow> contents s' q = contents s q"
  using delete_ok [of k s s'] delete_failed [of k s _ s'] by (cases r) auto

end

text \<open>The documented behaviour of the S3 client that the adapter rests on.\<close>

locale s3_bucket =
  fixes cl :: "'s s3_client"
    and c :: minio_config
    and contents :: "'s \<Rightarrow> bucket"
    and sha256 :: "byte list \<Rightarrow> nat list"
  assumes s3_put_ok: "c_put cl p s = (None, s') \<Longrightarrow> sp_if_none_match p = ''*'' \<Longrightarrow>
      contents s (sp_key p) = None \<and> contents s' = (contents s)(sp_key p \<mapsto> (sp_body p, sp_content_type p))"
    and s3_put_refused: "c_put cl p s = (Some (ApiError code), s') \<Longrightarrow>
      code \<in> {''PreconditionFailed'', ''ConditionalRequestConflict''} \<Longrightarrow> contents s' = contents s"
    and s3_put_failed: "c_put cl p s = (Some e, s') \<Longrightarrow> sp_if_none_match p = ''*'' \<Longrightarrow>
      contents s' = contents s
      \<or> (contents s (sp_key p) = None \<and> contents s' = (contents s)(sp_key p \<mapsto> (sp_body p, sp_content_type p)))"
    and s3_head_ok: "c_head cl k b s = Inr h \<Longrightarrow>
      \<exists>body t. contents s k = Some (body, t) \<and> sh_length h = Some (int (length body)) \<and> sh_content_type h = Some t
        \<and> (or_empty (sh_checksum h) = [] \<or> sh_checksum h = Some (base64_encode (sha256 body)))"
    and s3_get_ok: "c_get cl k s = Inr body \<Longrightarrow> \<exists>t. contents s k = Some (body, t)"
    and s3_delete_ok: "c_delete cl k s = (None, s') \<Longrightarrow> contents s' = (contents s)(k := None)"
    and s3_delete_failed: "c_delete cl k s = (Some e, s') \<Longrightarrow>
      contents s' = contents s \<or> contents s' = (contents s)(k := None)"
    and sha256_bytes: "is_byte_list (sha256 body)"

lemma base64_value_digit: "n < 64 \<Longrightarrow> base64_value (base64_digit n) = Some n"
  by (simp add: base64_value_def byte_of_base64_digit Let_def) arith

lemma nibble_join:
  assumes "b < (256 :: nat)"
  shows "b div 16 div 16 = 0" "b div 16 mod 16 * 16 + b mod 16 = b"
proof -
  have "b div 16 < 16" using assms by simp
  then show "b div 16 div 16 = 0" "b div 16 mod 16 * 16 + b mod 16 = b" by (simp_all only: div_less mod_less div_mult_mod_eq)
qed

lemma pair_join:
  assumes "c < (256 :: nat)"
  shows "c div 64 div 4 = 0" "c div 64 mod 4 * 64 + c mod 64 = c"
proof -
  have "c div 64 < 4" using assms by simp
  then show "c div 64 div 4 = 0" "c div 64 mod 4 * 64 + c mod 64 = c" by (simp_all only: div_less mod_less div_mult_mod_eq)
qed

lemma base64_groups_encode: "is_byte_list bs \<Longrightarrow> base64_groups (base64_encode bs) = Some bs"
  by (induction bs rule: base64_encode.induct)
    (simp_all add: base64_value_digit sextets base64_digit_other nibble_join pair_join)

lemma base64_chars: "is_byte_list bs \<Longrightarrow> c \<in> set (base64_encode bs) \<Longrightarrow> byte_of c \<noteq> 10 \<and> byte_of c \<noteq> 13"
proof (induction bs rule: base64_encode.induct)
  have d: "n < 64 \<Longrightarrow> byte_of (base64_digit n) \<noteq> 10 \<and> byte_of (base64_digit n) \<noteq> 13" for n
    by (simp add: byte_of_base64_digit) arith
  {
    case 1
    then show ?case by simp
  next
    case (2 a)
    then show ?case by (auto simp: d sextets byte_of_base64_chars)
  next
    case (3 a b)
    then show ?case by (auto simp: d sextets byte_of_base64_chars)
  next
    case (4 a b c' bs)
    then show ?case by (auto simp: d sextets byte_of_base64_chars)
  }
qed

lemma base64_decode_encode: "is_byte_list bs \<Longrightarrow> base64_decode (base64_encode bs) = Some bs"
  using base64_chars [of bs] by (simp add: base64_decode_def base64_groups_encode filter_True)

text \<open>The adapter keeps the store's contract over every client that behaves as documented.\<close>

lemma mapObjectError_exists:
  "mapObjectError e = ErrObjectAlreadyExists \<Longrightarrow>
     \<exists>code. e = ApiError code \<and> code \<in> {''PreconditionFailed'', ''ConditionalRequestConflict''}"
  by (cases e) (auto split: if_splits)

context s3_bucket
begin

lemma s3_put_conflict:
  "c_put cl p s = (Some e, s') \<Longrightarrow> mapObjectError e = ErrObjectAlreadyExists \<Longrightarrow> contents s' = contents s"
  using s3_put_refused mapObjectError_exists by blast

end

sublocale s3_bucket \<subseteq> minio: object_storage "minio_store cl c" contents sha256
proof
  fix k b a s s'
  assume "ob_put (minio_store cl c) k b a s = (Inr (), s')"
  then show "contents s k = None \<and> contents s' = (contents s)(k \<mapsto> (b, put_content_type a))"
    by (auto simp: Put_def split: if_splits option.splits prod.splits dest!: s3_put_ok)
next
  fix k b a s s'
  assume "ob_put (minio_store cl c) k b a s = (Inl ErrObjectAlreadyExists, s')"
  then show "contents s' = contents s"
    by (auto simp: Put_def split: if_splits option.splits prod.splits
             dest: s3_put_conflict)
next
  fix k b a s e s'
  assume "ob_put (minio_store cl c) k b a s = (Inl e, s')"
  then show "contents s' = contents s
      \<or> (contents s k = None \<and> contents s' = (contents s)(k \<mapsto> (b, put_content_type a)))"
    by (auto simp: Put_def split: if_splits option.splits prod.splits dest!: s3_put_failed)
next
  fix k s at
  assume "ob_head (minio_store cl c) k s = Inr at"
  then show "\<exists>b t. contents s k = Some (b, t) \<and> attr_size at = int (length b) \<and> attr_content_type at = t
      \<and> (attr_checksum at = [] \<or> attr_checksum at = sha256 b)"
    by (auto simp: Head_def or_empty_def base64_decode_encode sha256_bytes
             split: if_splits option.splits sum.splits dest!: s3_head_ok)
next
  fix k s b
  assume "ob_get (minio_store cl c) k s = Inr b"
  then show "\<exists>t. contents s k = Some (b, t)" by (auto simp: Get_def dest: s3_get_ok)
next
  fix k s s'
  assume "ob_delete (minio_store cl c) k s = (Inr (), s')"
  then show "contents s' = (contents s)(k := None)"
    by (auto simp: Delete_def split: option.splits prod.splits dest: s3_delete_ok)
next
  fix k s e s'
  assume "ob_delete (minio_store cl c) k s = (Inl e, s')"
  then show "contents s' = contents s \<or> contents s' = (contents s)(k := None)"
    by (auto simp: Delete_def split: option.splits prod.splits dest: s3_delete_failed)
qed


section \<open>An in-memory bucket\<close>

text \<open>A bucket that keeps its objects in a map and never fails: the documented behaviour is possible.\<close>

definition memory_client :: "(byte list \<Rightarrow> nat list) \<Rightarrow> bucket s3_client" where
  "memory_client sha256 =
     \<lparr>c_put = (\<lambda>p s. if s (sp_key p) = None then (None, s(sp_key p \<mapsto> (sp_body p, sp_content_type p)))
                     else (Some (ApiError ''PreconditionFailed''), s)),
      c_head = (\<lambda>k b s. case s k of
          None \<Rightarrow> Inl (ApiError ''NotFound'')
        | Some (body, t) \<Rightarrow> Inr \<lparr>sh_length = Some (int (length body)), sh_content_type = Some t,
             sh_checksum = (if b then Some (base64_encode (sha256 body)) else None), sh_etag = None\<rparr>),
      c_get = (\<lambda>k s. case s k of None \<Rightarrow> Inl (ApiError ''NoSuchKey'') | Some (body, t) \<Rightarrow> Inr body),
      c_delete = (\<lambda>k s. (None, s(k := None))),
      c_sign_put = (\<lambda>r t. Some (sr_url r, (''Host'', ''h'') # sr_headers r)),
      c_sign_get = (\<lambda>k t. Some k)\<rparr>"

definition demo_minio :: minio_config where
  "demo_minio = \<lparr>mc_internal_endpoint = ''http://m'', mc_public_endpoint = ''http://p/'', mc_region = ''r'',
     mc_access_key = ''a'', mc_secret_key = ''s'', mc_bucket = ''media'', mc_checksum_supported = True\<rparr>"

definition short_digest :: "byte list \<Rightarrow> nat list" where
  "short_digest data = replicate 32 ((length data + 253) mod 256)"

interpretation memory: s3_bucket "memory_client short_digest" demo_minio id short_digest
  by unfold_locales
    (auto simp: memory_client_def or_empty_def short_digest_def is_byte_list_def
          split: if_splits option.splits prod.splits)

section \<open>Signed URLs\<close>

text \<open>Raw originals are never readable by URL: a read is signed only for a key under the processed
  prefix, and it lasts exactly the requested positive time.\<close>

theorem presigned_read_is_processed:
  assumes "PresignGet cl key ttl now = Inr d"
  shows "\<not> IsRaw key \<and> has_prefix ''processed/'' key \<and> 0 < ttl \<and> down_expires_at d = now + ttl
    \<and> (\<forall>og asset upload ct. RawObjectKey og asset upload ct \<noteq> Inr key)"
proof -
  have "\<not> IsRaw key" "has_prefix ''processed/'' key" "0 < ttl" "down_expires_at d = now + ttl"
    using assms by (auto simp: PresignGet_def split: if_splits option.splits)
  then show ?thesis using IsRaw_RawObjectKey by blast
qed

theorem presigned_read_is_processed_witness:
  "case PresignGet (memory_client short_digest) ''processed/o/a/v/web-1080.jpg'' minute 5 of
     Inr d \<Rightarrow> down_expires_at d = 5 + minute | Inl _ \<Rightarrow> False"
proof -
  obtain d where d: "PresignGet (memory_client short_digest) ''processed/o/a/v/web-1080.jpg'' minute 5 = Inr d"
    by (simp add: PresignGet_def IsRaw_def rawKeyPrefix_def has_prefix_def duration_units memory_client_def)
  show ?thesis using presigned_read_is_processed [OF d] d by simp
qed

text \<open>An upload authority grants one conditional create and nothing more: the signed request names the
  session's key, carries the exact size and content type (and the checksum where storage checks it) and
  the condition that no object exists, its size is inside the admission bounds, and it expires after
  at least one whole second and never later than the granted time.\<close>

theorem upload_authority_is_one_create:
  assumes "PresignPut cl c a signedAt = Inr d"
  shows "\<exists>req url headers. req = put_request_of c a \<and> c_sign_put cl req signedAt = Some (url, headers) \<and> desc_url d = url
    \<and> sr_length req = auth_expected_size a \<and> MinUploadSizeBytes \<le> sr_length req \<and> sr_length req \<le> MaxUploadSizeBytes
    \<and> map_of (sr_headers req) ''If-None-Match'' = Some ''*''
    \<and> map_of (sr_headers req) ''Content-Type'' = Some (auth_content_type a)
    \<and> (mc_checksum_supported c \<longrightarrow>
         map_of (sr_headers req) ''X-Amz-Checksum-Sha256'' = Some (base64_encode (auth_checksum a)))
    \<and> 1 \<le> sr_expires_seconds req
    \<and> signedAt + second \<le> desc_credential_expires_at d
    \<and> desc_credential_expires_at d \<le> signedAt + auth_expires_in a"
proof -
  let ?n = "auth_expires_in a div second"
  have g: "1 \<le> ?n" "MinUploadSizeBytes \<le> auth_expected_size a" "auth_expected_size a \<le> MaxUploadSizeBytes"
    using assms by (auto simp: PresignPut_def split: if_splits)
  obtain url headers where u: "c_sign_put cl (put_request_of c a) signedAt = Some (url, headers)" "desc_url d = url"
    and e: "desc_credential_expires_at d = signedAt + ?n * second"
    using assms by (auto simp: PresignPut_def split: if_splits option.splits)
  have s: "0 < second" by (simp add: duration_units)
  have "?n * second \<le> auth_expires_in a"
    using s pos_mod_sign [of second "auth_expires_in a"] div_mult_mod_eq [of "auth_expires_in a" second] by linarith
  moreover have "second \<le> ?n * second" using g(1) s mult_right_mono [of 1 ?n second] by simp
  ultimately have "signedAt + second \<le> desc_credential_expires_at d"
    "desc_credential_expires_at d \<le> signedAt + auth_expires_in a" using e by simp_all
  then show ?thesis using u g by (auto simp: put_request_of_def)
qed

definition demo_authority :: put_authority where
  "demo_authority = \<lparr>auth_key = ''raw/o/a/u/original.jpg'', auth_content_type = ''image/jpeg'',
     auth_expected_size = 10, auth_checksum = replicate 32 7, auth_expires_in = 90 * second + 5\<rparr>"

theorem upload_authority_is_one_create_witness:
  "case PresignPut (memory_client short_digest) demo_minio demo_authority 0 of
     Inr d \<Rightarrow> desc_url d = ''http://p/media/raw/o/a/u/original.jpg''
       \<and> desc_credential_expires_at d \<le> 90 * second + 5
   | Inl _ \<Rightarrow> False"
proof -
  let ?r = "PresignPut (memory_client short_digest) demo_minio demo_authority 0"
  have "case ?r of Inr d \<Rightarrow> desc_url d = ''http://p/media/raw/o/a/u/original.jpg'' | Inl _ \<Rightarrow> False" by code_simp
  then obtain d where d: "?r = Inr d" "desc_url d = ''http://p/media/raw/o/a/u/original.jpg''" by (cases ?r) auto
  then show ?thesis using upload_authority_is_one_create [OF d(1)] by (simp add: demo_authority_def)
qed

end
