(* ===== verification/Rendition_Executor.thy ===== *)
theory Rendition_Executor
  imports Job_Store Media_Processor Object_Storage
begin

text \<open>
  \<open>internal/usecase/media_rendition.go\<close>: one run of a claimed job, from its source row to the
  promotion of its version. The state is the database together with the object store and the
  published dead letters (\<open>world\<close>); what the processor reports, what the file system resolves, the
  lease as it stands when it is read, and what other workers do between two steps are arguments.
\<close>

section \<open>The world of the workers\<close>

record dead_letter =
  dl_topic :: string
  dl_key :: string
  dl_payload :: json

record 's world =
  w_db :: db
  w_store :: 's
  w_dead_letters :: "dead_letter list"

definition on_db :: "(db \<Rightarrow> 'r \<times> db) \<Rightarrow> 's world \<Rightarrow> 'r \<times> 's world" where
  "on_db f w = (case f (w_db w) of (r, d) \<Rightarrow> (r, w\<lparr>w_db := d\<rparr>))"

definition on_store :: "('s \<Rightarrow> 'r \<times> 's) \<Rightarrow> 's world \<Rightarrow> 'r \<times> 's world" where
  "on_store f w = (case f (w_store w) of (r, s) \<Rightarrow> (r, w\<lparr>w_store := s\<rparr>))"

section \<open>Steps of a run\<close>

record 's run_env =
  re_scratch :: "string option"
  re_create_ok :: bool
  re_process :: "proc_request \<Rightarrow> byte list \<Rightarrow> (process_error + proc_outcome) \<times> file_system"
  re_resolve :: "string \<Rightarrow> string option"
  re_between :: "nat \<Rightarrow> 's world \<Rightarrow> 's world"
  re_lease :: job_lease
  re_now :: instant
  re_t1 :: instant
  re_t2 :: instant
  re_output_id :: "nat \<Rightarrow> string"

definition checksumMismatchCode :: string where
  "checksumMismatchCode = ''MEDIA_CHECKSUM_MISMATCH''"

text \<open>The limited copy: at most one byte more than admitted, and an error unless the size is exact.\<close>

definition downloadRaw ::
  "'s object_store \<Rightarrow> processing_source \<Rightarrow> bool \<Rightarrow> string \<Rightarrow> 's world \<Rightarrow> (string \<times> byte list) result"
where
  "downloadRaw st src create_ok scratch w =
     (case ob_get st (src_raw_key src) (w_store w) of
        Inl e \<Rightarrow> Inl e
      | Inr body \<Rightarrow>
          if \<not> create_ok then Inl (ErrOther ''creating the scratch source file'')
          else let data = take (nat (src_size src + 1)) body in
               if int (length data) \<noteq> src_size src then Inl (ErrOther ''raw object has another size than admitted'')
               else Inr (path_join [scratch, ''original''], data))"

definition requestFor :: "processing_source \<Rightarrow> int \<Rightarrow> int \<Rightarrow> string \<Rightarrow> string \<Rightarrow> proc_request" where
  "requestFor src maxSide maxPixels sourcePath scratch =
     \<lparr>rq_source = sourcePath, rq_scratch = scratch, rq_declared = src_declared src,
      rq_max_side = maxSide, rq_max_pixels = maxPixels, rq_outputs = MediaOutputManifest\<rparr>"

definition confinedToScratch :: "(string \<Rightarrow> string option) \<Rightarrow> string \<Rightarrow> string \<Rightarrow> string result" where
  "confinedToScratch resolve scratch candidate =
     (case resolve scratch of
        None \<Rightarrow> Inl (ErrOther ''resolving the scratch directory'')
      | Some base \<Rightarrow>
         (case resolve (path_clean candidate) of
            None \<Rightarrow> Inl ErrArtifactOutsideScratch
          | Some resolved \<Rightarrow>
              if has_prefix (base @ ''/'') resolved then Inr resolved else Inl ErrArtifactOutsideScratch))"

definition verifyExistingArtifact ::
  "'s object_store \<Rightarrow> (byte list \<Rightarrow> nat list) \<Rightarrow> object_key \<Rightarrow> proc_artifact \<Rightarrow> nat list \<Rightarrow> 's \<Rightarrow> unit result"
where
  "verifyExistingArtifact st sha256 key a dg s =
     (case ob_head st key s of
        Inl e \<Rightarrow> Inl e
      | Inr atts \<Rightarrow>
          if attr_size atts \<noteq> pa_size a \<or> attr_content_type atts \<noteq> pa_content_type a
          then Inl (ErrOther ''existing derivative metadata does not match'')
          else if attr_checksum atts \<noteq> []
          then (if attr_checksum atts \<noteq> dg then Inl (ErrOther ''existing derivative checksum does not match'') else Inr ())
          else (case ob_get st key s of
             Inl e \<Rightarrow> Inl e
           | Inr body \<Rightarrow>
               let data = take (nat (pa_size a + 1)) body in
               if int (length data) \<noteq> pa_size a \<or> sha256 data \<noteq> dg
               then Inl (ErrOther ''existing derivative bytes do not match'') else Inr ()))"

text \<open>The result tells whether this call created the object.\<close>

definition putArtifact ::
  "'s object_store \<Rightarrow> (byte list \<Rightarrow> nat list) \<Rightarrow> file_system \<Rightarrow> object_key \<Rightarrow> proc_artifact \<Rightarrow> string \<Rightarrow> nat list \<Rightarrow> 's
   \<Rightarrow> bool result \<times> 's"
where
  "putArtifact st sha256 files key a path dg s =
     (case files path of
        None \<Rightarrow> (Inl (ErrOther ''opening the derivative''), s)
      | Some bytes \<Rightarrow>
         (case ob_put st key bytes \<lparr>put_content_type = pa_content_type a, put_checksum = dg\<rparr> s of
            (Inr _, s') \<Rightarrow> (Inr True, s')
          | (Inl e, s') \<Rightarrow>
              if e = ErrObjectAlreadyExists
              then (case verifyExistingArtifact st sha256 key a dg s' of
                      Inl e' \<Rightarrow> (Inl e', s') | Inr _ \<Rightarrow> (Inr False, s'))
              else (Inl e, s')))"

definition output_of :: "processing_source \<Rightarrow> proc_artifact \<Rightarrow> object_key \<Rightarrow> nat list \<Rightarrow> string \<Rightarrow> instant \<Rightarrow> output_row" where
  "output_of src a key dg i t =
     \<lparr>m_id = i, m_version = src_version src, m_kind = pa_kind a, m_key = key, m_content_type = pa_content_type a,
      m_width = pa_width a, m_height = pa_height a, m_size = pa_size a, m_sha256 = dg, m_created_at = t\<rparr>"

text \<open>The loop over the artifacts: the output rows or an error, and the keys this run created.\<close>

fun uploadArtifacts ::
  "'s object_store \<Rightarrow> (byte list \<Rightarrow> nat list) \<Rightarrow> processing_source \<Rightarrow> string \<Rightarrow> file_system \<Rightarrow> 's run_env \<Rightarrow> nat
   \<Rightarrow> proc_artifact list \<Rightarrow> output_row list \<Rightarrow> object_key list \<Rightarrow> 's world
   \<Rightarrow> (output_row list result \<times> object_key list) \<times> 's world"
where
  "uploadArtifacts st sha256 src scratch files env i [] outs uploaded w = ((Inr outs, uploaded), w)"
| "uploadArtifacts st sha256 src scratch files env i (a # as) outs uploaded w =
     (case ProcessedObjectKey (src_org src) (src_asset src) (src_version src) (pa_kind a) (pa_content_type a) of
        Inl e \<Rightarrow> ((Inl e, uploaded), w)
      | Inr key \<Rightarrow>
     (case hex_decode (pa_sha256 a) of
        None \<Rightarrow> ((Inl (ErrOther ''unusable digest''), uploaded), w)
      | Some dg \<Rightarrow>
     (case confinedToScratch (re_resolve env) scratch (pa_path a) of
        Inl e \<Rightarrow> ((Inl e, uploaded), w)
      | Inr path \<Rightarrow>
     (case on_store (putArtifact st sha256 files key a path dg) (re_between env (3 + i) w) of
        (Inl e, w') \<Rightarrow> ((Inl e, uploaded), w')
      | (Inr created, w') \<Rightarrow>
          uploadArtifacts st sha256 src scratch files env (Suc i) as
            (outs @ [output_of src a key dg (re_output_id env i) (re_t1 env)])
            (if created then uploaded @ [key] else uploaded) w'))))"

fun discard :: "'s object_store \<Rightarrow> object_key list \<Rightarrow> 's \<Rightarrow> 's" where
  "discard st [] s = s"
| "discard st (k # ks) s = discard st ks (snd (ob_delete st k s))"

definition discard_world :: "'s object_store \<Rightarrow> object_key list \<Rightarrow> 's world \<Rightarrow> 's world" where
  "discard_world st ks w = w\<lparr>w_store := discard st ks (w_store w)\<rparr>"

definition fail_run :: "processing_source \<Rightarrow> job_row \<Rightarrow> 's run_env \<Rightarrow> string \<Rightarrow> 's world \<Rightarrow> unit result \<times> 's world" where
  "fail_run src job env code w =
     (case on_db (FailVersion \<lparr>fl_job = j_id job, fl_version = src_version src, fl_org = src_org src,
                              fl_asset = src_asset src, fl_code = code\<rparr>
                    (re_lease env) (re_now env) (re_t1 env) (re_t2 env)) w of
        (Inl e, w') \<Rightarrow> (Inl e, w')
      | (Inr applied, w') \<Rightarrow> if \<not> applied then (Inl ErrLeaseLost, w') else (Inr (), w'))"

definition completion_of :: "processing_source \<Rightarrow> job_row \<Rightarrow> proc_outcome \<Rightarrow> nat list \<Rightarrow> output_row list \<Rightarrow> media_completion" where
  "completion_of src job out dg outs =
     \<lparr>cm_job = j_id job, cm_version = src_version src, cm_org = src_org src, cm_asset = src_asset src,
      cm_detected = po_detected out, cm_width = po_width out, cm_height = po_height out,
      cm_sha256 = dg, cm_outputs = outs\<rparr>"

text \<open>From the uploads on.\<close>

definition finish_run ::
  "'s object_store \<Rightarrow> (byte list \<Rightarrow> nat list) \<Rightarrow> processing_source \<Rightarrow> job_row \<Rightarrow> 's run_env \<Rightarrow> string \<Rightarrow> nat list
   \<Rightarrow> proc_outcome \<Rightarrow> file_system \<Rightarrow> 's world \<Rightarrow> unit result \<times> 's world"
where
  "finish_run st sha256 src job env scratch dg out files w =
     (case uploadArtifacts st sha256 src scratch files env 0 (po_artifacts out) [] [] w of
        ((Inl e, uploaded), w1) \<Rightarrow> (Inl e, discard_world st uploaded w1)
      | ((Inr outs, uploaded), w1) \<Rightarrow>
         (case on_db (CompleteAndPromote (completion_of src job out dg outs) (re_lease env)
                        (re_now env) (re_t1 env) (re_t2 env)) (re_between env 2 w1) of
            (Inl e, w2) \<Rightarrow> (Inl e, discard_world st uploaded w2)
          | (Inr applied, w2) \<Rightarrow> if \<not> applied then (Inl ErrLeaseLost, w2) else (Inr (), w2)))"

definition Execute ::
  "'s object_store \<Rightarrow> (byte list \<Rightarrow> nat list) \<Rightarrow> int \<Rightarrow> int \<Rightarrow> job_row \<Rightarrow> 's run_env \<Rightarrow> 's world \<Rightarrow> unit result \<times> 's world"
where
  "Execute st sha256 maxSide maxPixels job env w =
     (case LoadProcessingSource (j_version job) (w_db w) of
        Inl e \<Rightarrow> (Inl e, w)
      | Inr src \<Rightarrow>
     (case re_scratch env of
        None \<Rightarrow> (Inl (ErrOther ''creating a scratch directory''), w)
      | Some scratch \<Rightarrow>
          let w0 = re_between env 0 w in
     (case downloadRaw st src (re_create_ok env) scratch w0 of
        Inl e \<Rightarrow> (Inl e, w0)
      | Inr (sourcePath, data) \<Rightarrow>
          let dg = sha256 data in
          if dg \<noteq> src_admitted_sha256 src then fail_run src job env checksumMismatchCode w0
          else
            let w1 = re_between env 1 w0 in
            (case re_process env (requestFor src maxSide maxPixels sourcePath scratch) data of
               (Inl (Rejection code), _) \<Rightarrow> fail_run src job env code w1
             | (Inl _, _) \<Rightarrow> (Inl (ErrOther ''media processor failed''), w1)
             | (Inr out, files) \<Rightarrow>
                 if po_source_sha256 out \<noteq> dg
                 then (Inl (ErrOther ''processor read different bytes than were downloaded''), w1)
                 else finish_run st sha256 src job env scratch dg out files w1))))"


section \<open>Outputs that are stored\<close>

definition stored_output :: "('s \<Rightarrow> bucket) \<Rightarrow> (byte list \<Rightarrow> nat list) \<Rightarrow> 's \<Rightarrow> output_row \<Rightarrow> bool" where
  "stored_output contents sha256 s m \<longleftrightarrow>
     (\<exists>b. contents s (m_key m) = Some (b, m_content_type m) \<and> m_size m = int (length b) \<and> m_sha256 m = sha256 b)"

text \<open>The keys the renditions of a version have, and a world in which its output rows are all stored.\<close>

definition rendition_of :: "string \<Rightarrow> db \<Rightarrow> object_key \<Rightarrow> bool" where
  "rendition_of version db k \<longleftrightarrow> (\<exists>src kind ct. LoadProcessingSource version db = Inr src
     \<and> ProcessedObjectKey (src_org src) (src_asset src) (src_version src) kind ct = Inr k)"

definition outputs_stored :: "('s \<Rightarrow> bucket) \<Rightarrow> (byte list \<Rightarrow> nat list) \<Rightarrow> string \<Rightarrow> 's world \<Rightarrow> bool" where
  "outputs_stored contents sha256 version w \<longleftrightarrow>
     (\<forall>m\<in>set (outputs (w_db w)). m_version m = version \<longrightarrow> stored_output contents sha256 (w_store w) m)"

text \<open>
  A step that neither removes nor changes an object under one of the keys, and adds no output row of
  the version without its object. It may store objects under the keys, and do anything elsewhere.
\<close>

definition leaves_renditions ::
  "('s \<Rightarrow> bucket) \<Rightarrow> (byte list \<Rightarrow> nat list) \<Rightarrow> (object_key \<Rightarrow> bool) \<Rightarrow> string \<Rightarrow> 's world \<Rightarrow> 's world \<Rightarrow> bool"
where
  "leaves_renditions contents sha256 K version w w' \<longleftrightarrow>
     (\<forall>k x. K k \<and> contents (w_store w) k = Some x \<longrightarrow> contents (w_store w') k = Some x)
     \<and> (outputs_stored contents sha256 version w \<longrightarrow> outputs_stored contents sha256 version w')"

definition faithful_artifact :: "(byte list \<Rightarrow> nat list) \<Rightarrow> (string \<Rightarrow> string option) \<Rightarrow> file_system \<Rightarrow> proc_artifact \<Rightarrow> bool" where
  "faithful_artifact sha256 resolve files a \<longleftrightarrow>
     (\<forall>p bytes. resolve (path_clean (pa_path a)) = Some p \<and> files p = Some bytes \<longrightarrow>
        pa_size a = int (length bytes) \<and> hex_decode (pa_sha256 a) = Some (sha256 bytes))"

lemma leaves_renditions_refl [simp]: "leaves_renditions contents sha256 K version w w"
  by (simp add: leaves_renditions_def)

lemma leaves_renditions_trans [trans]:
  "leaves_renditions contents sha256 K version u v \<Longrightarrow> leaves_renditions contents sha256 K version v w
     \<Longrightarrow> leaves_renditions contents sha256 K version u w"
  by (simp add: leaves_renditions_def)

lemma stored_output_kept:
  "stored_output contents sha256 (w_store w) m \<Longrightarrow> K (m_key m) \<Longrightarrow> leaves_renditions contents sha256 K version w w'
     \<Longrightarrow> stored_output contents sha256 (w_store w') m"
  by (auto simp: stored_output_def leaves_renditions_def)

section \<open>The processor behind a run\<close>

text \<open>
  What a run knows of its processor: every outcome it accepts is what the supervisor made of the
  messages and the exit of a child that ran on this request with the downloaded bytes as its source,
  and an artifact opened through its resolved path is the file the child left.
\<close>

definition child_behind ::
  "('img, 'px) image_codec \<Rightarrow> (byte list \<Rightarrow> (int \<times> int) option) \<Rightarrow> (byte list \<Rightarrow> nat list) \<Rightarrow> 's run_env \<Rightarrow> bool"
where
  "child_behind img decodeConfig sha256 env \<longleftrightarrow>
     (\<forall>rq data out files. re_process env rq data = (Inr out, files) \<longrightarrow>
       (\<exists>writable fs code msgs identity euid chown.
          Media_Processor.run img decodeConfig sha256 writable (Some rq) fs = ((code, msgs), files)
          \<and> fs (rq_source rq) = Some data
          \<and> Process identity euid chown True (map Received msgs @ [OutputClosed])
               (if code = ExitSuccess then None else Some (ExitedWith code)) rq = Some (Inr out)
          \<and> (\<forall>a\<in>set (po_artifacts out). \<forall>p. re_resolve env (path_clean (pa_path a)) = Some p
               \<longrightarrow> files p = files (pa_path a))))"

lemma child_behind_faithful:
  assumes "child_behind img decodeConfig sha256 env"
    and law: "\<forall>data im fmt. img_decode img data = Some (im, fmt) \<longrightarrow> decodeConfig data = Some (img_bounds img im)"
      "\<forall>data. is_byte_list (sha256 data)"
    and p: "re_process env rq data = (Inr out, files)" and rq: "rq_outputs rq = MediaOutputManifest" "rq_max_side rq < 2 ^ 53"
    and a: "a \<in> set (po_artifacts out)"
  shows "faithful_artifact sha256 (re_resolve env) files a"
proof -
  obtain writable fs code msgs identity euid chown where
    r: "Media_Processor.run img decodeConfig sha256 writable (Some rq) fs = ((code, msgs), files)"
    and s: "Process identity euid chown True (map Received msgs @ [OutputClosed])
        (if code = ExitSuccess then None else Some (ExitedWith code)) rq = Some (Inr out)"
    and res: "\<forall>a\<in>set (po_artifacts out). \<forall>p. re_resolve env (path_clean (pa_path a)) = Some p \<longrightarrow> files p = files (pa_path a)"
    using assms(1) p unfolding child_behind_def by blast
  have c: "code = ExitSuccess" and o: "readUntilTerminal (map Received msgs @ [OutputClosed]) = Some (Inr out)"
    using Process_InrD [OF s] by (auto split: if_splits)
  obtain thumb web where "po_artifacts out = [thumb, web]"
    "artifact_holds sha256 files (rq_declared rq) 256 thumb" "artifact_holds sha256 files (rq_declared rq) 1080 web"
    using child_run_read [OF r [unfolded c] rq law] o by auto
  then have "artifact_holds sha256 files (rq_declared rq) 256 a \<or> artifact_holds sha256 files (rq_declared rq) 1080 a"
    using a by auto
  then show ?thesis using res a by (auto simp: artifact_holds_def faithful_artifact_def split: option.splits)
qed

lemma limited_copy_exact:
  "int (length (take (nat (n + 1)) body)) = n \<Longrightarrow> int (length body) = n \<and> take (nat (n + 1)) body = body"
  by (cases "length body \<le> nat (n + 1)") (auto simp: min_def split: if_splits)

section \<open>What the final statements do\<close>

lemma insertOutput_InrD:
  "insertOutput m db = Inr db' \<Longrightarrow>
     set (outputs db') \<subseteq> set (outputs db) \<union> {m} \<and> set (outputs db) \<subseteq> set (outputs db')
     \<and> (\<exists>n\<in>set (outputs db'). m_version n = m_version m \<and> m_kind n = m_kind m)"
  by (auto simp: insertOutput_def insert_output_def sql_exists_iff
           split: if_splits sum.splits dest!: insert_row_InrD)

lemma insert_outputs_rows:
  "insert_outputs ms db = Inr db' \<Longrightarrow>
     set (outputs db') \<subseteq> set (outputs db) \<union> set ms \<and> set (outputs db) \<subseteq> set (outputs db')
     \<and> (\<forall>m\<in>set ms. \<exists>n\<in>set (outputs db'). m_version n = m_version m \<and> m_kind n = m_kind m)"
proof (induction ms arbitrary: db)
  case (Cons m ms)
  then obtain db1 where a: "insertOutput m db = Inr db1" "insert_outputs ms db1 = Inr db'" by auto
  show ?case using insertOutput_InrD [OF a(1)] Cons.IH [OF a(2)] by auto
qed simp

lemma CompleteAndPromote_InrD:
  assumes "CompleteAndPromote cm held now t1 t2 db = (Inr True, db')"
  shows "(\<exists>j\<in>set (jobs db'). j_id j = cm_job cm \<and> j_status j = ProcessingJobCompleted)"
    "set (outputs db') \<subseteq> set (outputs db) \<union> set (cm_outputs cm)"
    "\<forall>m\<in>set (cm_outputs cm). \<exists>n\<in>set (outputs db'). m_version n = m_version m \<and> m_kind n = m_kind m"
    "MediaOutputThumbnail \<in> set (map m_kind (cm_outputs cm))" "MediaOutputWeb \<in> set (map m_kind (cm_outputs cm))"
proof -
  have q: "requireCompleteOutputSet (cm_outputs cm) = Inr ()"
    and w: "complete_work cm held now t1 t2 db = Inr (True, db')"
    using assms by (auto simp: CompleteAndPromote_def split: sum.splits dest: transaction_Inr)
  obtain j ns db1 db2 db3 where j: "j \<in> set (jobs db)" "holds_lease (cm_job cm) held now j"
    and a: "insert_outputs (cm_outputs cm) db = Inr db1" "db1 = db\<lparr>outputs := outputs db @ ns\<rparr>"
    "requireTwoStoredOutputs (cm_version cm) db1 = Inr ()"
    "update_versions
      (\<lambda>v. v_id v = cm_version cm \<and> v_org v = cm_org cm \<and> open_version v \<and> asset_visible (v_asset v) db1)
      (complete_version_row cm t1) db1 = Inr db2"
    "promoteActiveVersion cm db2 = Inr db3"
    "update_jobs (\<lambda>j. j_id j = cm_job cm) (complete_job_row t2) db3 = Inr db'"
    by (rule complete_work_InrD [OF w])
  have d2: "jobs db2 = jobs db" "outputs db2 = outputs db1" using update_versions_InrD [OF a(4)] a(2) by auto
  have d3: "jobs db3 = jobs db2" "outputs db3 = outputs db2"
    using a(5) by (auto simp: promoteActiveVersion_def update_assets_def Let_def split: if_splits)
  note u = update_jobs_InrD [OF a(6)]
  have id: "j_id j = cm_job cm" using j(2) by (simp add: holds_lease_def)
  have "complete_job_row t2 j \<in> set (jobs db')"
    using u j(1) d2 d3 id sql_update_memI1 [of j "jobs db" "\<lambda>j. j_id j = cm_job cm" "complete_job_row t2"] by simp
  then show "\<exists>j\<in>set (jobs db'). j_id j = cm_job cm \<and> j_status j = ProcessingJobCompleted"
    using id by (intro bexI) (auto simp: complete_job_row_def)
  have "outputs db' = outputs db1" using u d2 d3 by simp
  then show "set (outputs db') \<subseteq> set (outputs db) \<union> set (cm_outputs cm)"
    "\<forall>m\<in>set (cm_outputs cm). \<exists>n\<in>set (outputs db'). m_version n = m_version m \<and> m_kind n = m_kind m"
    using insert_outputs_rows [OF a(1)] by auto
  show "MediaOutputThumbnail \<in> set (map m_kind (cm_outputs cm))" "MediaOutputWeb \<in> set (map m_kind (cm_outputs cm))"
    using q by (auto simp: requireCompleteOutputSet_def MediaOutputManifest_def split: if_splits)
qed

lemma FailVersion_InrD:
  assumes "FailVersion fl held now t1 t2 db = (Inr True, db')"
  shows "\<exists>j\<in>set (jobs db'). j_id j = fl_job fl \<and> j_status j = ProcessingJobFailed"
proof -
  obtain j where j: "j \<in> set (jobs db)" "j_id j = fl_job fl" and f: "failMediaVersion fl t1 t2 db = Inr db'"
    using assms
    by (auto simp: FailVersion_def fail_work_def lockLeasedJob_def holds_lease_def
             split: option.splits dest!: transaction_Inr find_SomeD)
  have "jobs db' = sql_update (\<lambda>j. j_id j = fl_job fl) (fail_job_row (fl_code fl) t2) (jobs db)"
    using failMediaVersion_InrD [OF f] by simp
  then have "fail_job_row (fl_code fl) t2 j \<in> set (jobs db')" using j by (auto intro: sql_update_memI1)
  then show ?thesis using j(2) by (intro bexI) (auto simp: fail_job_row_def)
qed

lemma uploadArtifacts_db:
  assumes "\<And>j u. P (w_db u) \<Longrightarrow> P (w_db (re_between env j u))" and "P (w_db w)"
    and "uploadArtifacts st sha256 src scratch files env i as outs uploaded w = (r, w')"
  shows "P (w_db w')"
  using assms(2,3)
proof (induction as arbitrary: i outs uploaded w)
  case (Cons a as)
  have st: "w_db (snd (on_store f u)) = w_db u" for f and u :: "'a world"
    by (simp add: on_store_def split: prod.splits)
  have p: "P (w_db w1)" if "on_store f (re_between env (3 + i) w) = (x, w1)" for f x w1
    using st [of f "re_between env (3 + i) w"] that assms(1) Cons.prems(1) by simp
  show ?case using Cons.prems p
    by (auto split: sum.splits option.splits prod.splits intro: Cons.IH p)
qed simp

context object_storage
begin

lemma verify_sound:
  assumes "verifyExistingArtifact st sha256 key a dg s = Inr ()"
  shows "\<exists>b. contents s key = Some (b, pa_content_type a) \<and> pa_size a = int (length b) \<and> dg = sha256 b"
proof -
  obtain atts where h: "ob_head st key s = Inr atts" and m: "attr_size atts = pa_size a"
    "attr_content_type atts = pa_content_type a"
    using assms by (auto simp: verifyExistingArtifact_def split: sum.splits if_splits)
  obtain b t where b: "contents s key = Some (b, t)" "attr_size atts = int (length b)" "attr_content_type atts = t"
    "attr_checksum atts = [] \<or> attr_checksum atts = sha256 b" using head_ok [OF h] by blast
  show ?thesis
  proof (cases "attr_checksum atts = []")
    case False
    then show ?thesis using assms h m b by (auto simp: verifyExistingArtifact_def split: if_splits)
  next
    case True
    obtain body where g: "ob_get st key s = Inr body"
      and e: "int (length (take (nat (pa_size a + 1)) body)) = pa_size a" "sha256 (take (nat (pa_size a + 1)) body) = dg"
      using assms h m True by (auto simp: verifyExistingArtifact_def Let_def split: sum.splits if_splits)
    have "body = b" using get_ok [OF g] b(1) by simp
    then show ?thesis using limited_copy_exact [OF e(1)] e(2) b m by auto
  qed
qed

lemma putArtifact_stores:
  assumes "putArtifact st sha256 files key a path dg s = (Inr created, s')"
    and "\<And>bytes. files path = Some bytes \<Longrightarrow> pa_size a = int (length bytes) \<and> dg = sha256 bytes"
  shows "\<exists>b. contents s' key = Some (b, pa_content_type a) \<and> pa_size a = int (length b) \<and> dg = sha256 b"
proof -
  obtain bytes where f: "files path = Some bytes" using assms(1) by (auto simp: putArtifact_def split: option.splits)
  obtain r s1 where p: "ob_put st key bytes \<lparr>put_content_type = pa_content_type a, put_checksum = dg\<rparr> s = (r, s1)"
    by (metis prod.exhaust)
  show ?thesis
  proof (cases r)
    case (Inr u)
    then show ?thesis using assms f p put_ok [of key bytes _ s s1] by (auto simp: putArtifact_def)
  next
    case (Inl e)
    then have "s' = s1" "verifyExistingArtifact st sha256 key a dg s1 = Inr ()"
      using assms(1) f p by (auto simp: putArtifact_def split: if_splits sum.splits)
    then show ?thesis using verify_sound by simp
  qed
qed

lemma putArtifact_keeps:
  "putArtifact st sha256 files key a path dg s = (r, s') \<Longrightarrow> contents s q = Some x \<Longrightarrow> contents s' q = Some x"
  by (auto simp: putArtifact_def split: option.splits sum.splits prod.splits if_splits dest: put_keeps)

lemma leaves_renditions_put:
  assumes "on_store (putArtifact st sha256 files key a path dg) w = (r, w')"
  shows "leaves_renditions contents sha256 K version w w'"
proof -
  obtain s where p: "putArtifact st sha256 files key a path dg (w_store w) = (r, s)" and w': "w' = w\<lparr>w_store := s\<rparr>"
    using assms by (auto simp: on_store_def split: prod.splits)
  have "contents (w_store w') k = Some x" if "contents (w_store w) k = Some x" for k x
    using putArtifact_keeps [OF p that] w' by simp
  then show ?thesis
    by (fastforce simp: leaves_renditions_def outputs_stored_def stored_output_def w')
qed

lemma uploadArtifacts_stores:
  assumes "uploadArtifacts st sha256 src scratch files env i as outs uploaded w = ((Inr outs', uploaded'), w')"
    and "\<And>j u. leaves_renditions contents sha256 K version u (re_between env j u)"
    and "\<And>kind ct k. ProcessedObjectKey (src_org src) (src_asset src) (src_version src) kind ct = Inr k \<Longrightarrow> K k"
    and "\<forall>a\<in>set as. faithful_artifact sha256 (re_resolve env) files a"
    and "\<forall>m\<in>set outs. m_version m = src_version src \<and> K (m_key m) \<and> stored_output contents sha256 (w_store w) m"
  shows "(\<forall>m\<in>set outs'. m_version m = src_version src \<and> K (m_key m) \<and> stored_output contents sha256 (w_store w') m)
    \<and> leaves_renditions contents sha256 K version w w'"
  using assms(1,4,5)
proof (induction as arbitrary: i outs uploaded w)
  case (Cons a as)
  obtain key dg path created w1 where k:
    "ProcessedObjectKey (src_org src) (src_asset src) (src_version src) (pa_kind a) (pa_content_type a) = Inr key"
    "hex_decode (pa_sha256 a) = Some dg" "confinedToScratch (re_resolve env) scratch (pa_path a) = Inr path"
    "on_store (putArtifact st sha256 files key a path dg) (re_between env (3 + i) w) = (Inr created, w1)"
    and r: "uploadArtifacts st sha256 src scratch files env (Suc i) as
            (outs @ [output_of src a key dg (re_output_id env i) (re_t1 env)])
            (if created then uploaded @ [key] else uploaded) w1 = ((Inr outs', uploaded'), w')"
    using Cons.prems(1) by (auto split: sum.splits option.splits prod.splits)
  obtain s1 where p: "putArtifact st sha256 files key a path dg (w_store (re_between env (3 + i) w)) = (Inr created, s1)"
    and w1: "w_store w1 = s1"
    using k(4) by (auto simp: on_store_def split: prod.splits)
  have "re_resolve env (path_clean (pa_path a)) = Some path"
    using k(3) by (auto simp: confinedToScratch_def split: option.splits if_splits)
  then have "pa_size a = int (length bytes) \<and> dg = sha256 bytes" if "files path = Some bytes" for bytes
    using Cons.prems(2) k(2) that by (auto simp: faithful_artifact_def)
  note new = putArtifact_stores [OF p this]
  have kept: "leaves_renditions contents sha256 K version w w1"
    by (rule leaves_renditions_trans [OF assms(2) leaves_renditions_put [OF k(4)]])
  have faith: "\<forall>a\<in>set as. faithful_artifact sha256 (re_resolve env) files a" using Cons.prems(2) by simp
  have "\<forall>m\<in>set (outs @ [output_of src a key dg (re_output_id env i) (re_t1 env)]).
      m_version m = src_version src \<and> K (m_key m) \<and> stored_output contents sha256 (w_store w1) m"
    using Cons.prems(3) stored_output_kept [OF _ _ kept] new w1 assms(3) [OF k(1)]
    by (auto simp: output_of_def stored_output_def)
  note Cons.IH [OF r faith this]
  then show ?case using kept leaves_renditions_trans by blast
qed simp

lemma finish_run_stores:
  assumes "finish_run st sha256 src job env scratch dg out files w = (Inr (), w')"
    and kept: "\<And>j u. leaves_renditions contents sha256 K (src_version src) u (re_between env j u)"
    and keys: "\<And>kind ct k. ProcessedObjectKey (src_org src) (src_asset src) (src_version src) kind ct = Inr k \<Longrightarrow> K k"
    and "outputs_stored contents sha256 (src_version src) w"
    and "\<forall>a\<in>set (po_artifacts out). faithful_artifact sha256 (re_resolve env) files a"
  shows "(\<exists>j\<in>set (jobs (w_db w')). j_id j = j_id job \<and> j_status j = ProcessingJobCompleted)
    \<and> outputs_stored contents sha256 (src_version src) w'
    \<and> (\<exists>m\<in>set (outputs (w_db w')). m_version m = src_version src \<and> m_kind m = MediaOutputThumbnail)
    \<and> (\<exists>m\<in>set (outputs (w_db w')). m_version m = src_version src \<and> m_kind m = MediaOutputWeb)"
proof -
  obtain outs uploaded w1 where up:
    "uploadArtifacts st sha256 src scratch files env 0 (po_artifacts out) [] [] w = ((Inr outs, uploaded), w1)"
    and c0: "on_db (CompleteAndPromote (completion_of src job out dg outs) (re_lease env)
                (re_now env) (re_t1 env) (re_t2 env)) (re_between env 2 w1) = (Inr True, w')"
    using assms(1) by (auto simp: finish_run_def split: prod.splits sum.splits if_splits)
  let ?w2 = "re_between env 2 w1"
  have c: "CompleteAndPromote (completion_of src job out dg outs) (re_lease env)
      (re_now env) (re_t1 env) (re_t2 env) (w_db ?w2) = (Inr True, w_db w')" and sw: "w_store w' = w_store ?w2"
    using c0 by (auto simp: on_db_def split: prod.splits)
  note f = CompleteAndPromote_InrD [OF c]
  note us = uploadArtifacts_stores [OF up kept keys assms(5)]
  have u: "\<forall>m\<in>set outs. m_version m = src_version src \<and> K (m_key m) \<and> stored_output contents sha256 (w_store w1) m"
    using us by simp
  then have s2: "\<forall>m\<in>set outs. stored_output contents sha256 (w_store w') m"
    using stored_output_kept [OF _ _ kept [of w1 2]] sw by simp
  have "leaves_renditions contents sha256 K (src_version src) w ?w2"
    using us leaves_renditions_trans [OF _ kept [of w1 2]] by simp
  then have o2: "outputs_stored contents sha256 (src_version src) ?w2"
    using assms(4) by (simp add: leaves_renditions_def)
  have outs: "cm_outputs (completion_of src job out dg outs) = outs" "cm_job (completion_of src job out dg outs) = j_id job"
    by (simp_all add: completion_of_def)
  have k: "\<exists>m\<in>set (outputs (w_db w')). m_version m = src_version src \<and> m_kind m = kind"
    if "kind \<in> set (map m_kind outs)" for kind
    using that f(3) u unfolding outs by auto
  have "outputs_stored contents sha256 (src_version src) w'"
    using f(2) o2 s2 unfolding outs outputs_stored_def sw by blast
  then show ?thesis using f(1) [unfolded outs] k [OF f(4) [unfolded outs]] k [OF f(5) [unfolded outs]] by blast
qed

lemma Execute_stores:
  assumes "Execute st sha256 maxSide maxPixels job env w = (Inr (), w')"
    and kept: "\<And>j u. leaves_renditions contents sha256 (rendition_of (j_version job) (w_db w)) (j_version job)
          u (re_between env j u)"
    and "outputs_stored contents sha256 (j_version job) w"
    and faith: "\<And>rq data out files a. re_process env rq data = (Inr out, files) \<Longrightarrow>
          rq_outputs rq = MediaOutputManifest \<Longrightarrow> rq_max_side rq = maxSide \<Longrightarrow> a \<in> set (po_artifacts out) \<Longrightarrow>
          faithful_artifact sha256 (re_resolve env) files a"
  shows "(\<exists>j\<in>set (jobs (w_db w')). j_id j = j_id job \<and> j_status j = ProcessingJobFailed)
    \<or> ((\<exists>j\<in>set (jobs (w_db w')). j_id j = j_id job \<and> j_status j = ProcessingJobCompleted)
       \<and> outputs_stored contents sha256 (j_version job) w'
       \<and> (\<exists>m\<in>set (outputs (w_db w')). m_version m = j_version job \<and> m_kind m = MediaOutputThumbnail)
       \<and> (\<exists>m\<in>set (outputs (w_db w')). m_version m = j_version job \<and> m_kind m = MediaOutputWeb))"
  (is "?failed \<or> ?done")
proof -
  have failed: ?failed if "fail_run src job env code u = (Inr (), w')" for src code u
    using that
    by (auto simp: fail_run_def on_db_def split: prod.splits sum.splits if_splits dest!: FailVersion_InrD)
  obtain src scratch sourcePath data where l: "LoadProcessingSource (j_version job) (w_db w) = Inr src"
    and d: "downloadRaw st src (re_create_ok env) scratch (re_between env 0 w) = Inr (sourcePath, data)"
    and sc: "re_scratch env = Some scratch"
    using assms(1) by (auto simp: Execute_def Let_def split: sum.splits option.splits)
  have v: "src_version src = j_version job"
    using l by (auto simp: LoadProcessingSource_def split: option.splits dest!: find_SomeD)
  have keys: "rendition_of (j_version job) (w_db w) k"
    if "ProcessedObjectKey (src_org src) (src_asset src) (src_version src) kind ct = Inr k" for kind ct k
    using l that unfolding rendition_of_def by blast
  let ?w1 = "re_between env 1 (re_between env 0 w)"
  obtain pr files where p: "re_process env (requestFor src maxSide maxPixels sourcePath scratch) data = (pr, files)"
    by (metis prod.exhaust)
  show ?thesis
  proof (cases "sha256 data = src_admitted_sha256 src \<and> (\<exists>out. pr = Inr out)")
    case False
    then show ?thesis using assms(1) l d sc p failed
      by (auto simp: Execute_def Let_def split: sum.splits process_error.splits if_splits)
  next
    case True
    then obtain out where out: "pr = Inr out" by blast
    then have f: "finish_run st sha256 src job env scratch (sha256 data) out files ?w1 = (Inr (), w')"
      using assms(1) l d sc p True by (auto simp: Execute_def Let_def split: if_splits)
    have "leaves_renditions contents sha256 (rendition_of (j_version job) (w_db w)) (j_version job) w ?w1"
      by (rule leaves_renditions_trans [OF kept kept])
    then have "outputs_stored contents sha256 (j_version job) ?w1" using assms(3) by (simp add: leaves_renditions_def)
    moreover have "\<forall>a\<in>set (po_artifacts out). faithful_artifact sha256 (re_resolve env) files a"
      using faith p out by (simp add: requestFor_def)
    ultimately show ?thesis using finish_run_stores [OF f kept [folded v] keys [folded v]] v by simp
  qed
qed

lemma discard_removes:
  assumes "\<And>k s. fst (ob_delete st k s) = Inr ()"
  shows "contents (discard st ks s) k = (if k \<in> set ks then None else contents s k)"
proof (induction ks arbitrary: s)
  case (Cons q ks)
  have "contents (snd (ob_delete st q s)) = (contents s)(q := None)"
    using assms [of q s] delete_ok [of q s] by (metis prod.collapse)
  then show ?case using Cons.IH by simp
qed simp

lemma finish_run_discards:
  assumes "\<And>k s. fst (ob_delete st k s) = Inr ()"
    and "uploadArtifacts st sha256 src scratch files env 0 (po_artifacts out) [] [] w = ((Inl e, uploaded), w1)"
    and "m_key m \<in> set uploaded"
  shows "\<not> stored_output contents sha256
    (w_store (snd (finish_run st sha256 src job env scratch dg out files w))) m"
  using assms by (simp add: finish_run_def discard_world_def stored_output_def discard_removes)

end

context s3_bucket
begin

lemma minio_storage: "object_storage (minio_store cl c) contents sha256"
  by unfold_locales

end

text \<open>C7: A run that ends without an error has settled its job, and a completed one has its renditions:
  over every object store with the documented S3 behaviour, after such a run the job is failed, or it
  is completed and each output row of its version names an object that is stored, of the stated type,
  size and digest, for both kinds. The outcome the run accepts comes from the modelled child, read by
  the modelled supervisor, on the bytes it downloaded. Other processes may do anything between two
  steps, under three conditions: nobody removes or changes an object under a rendition key of this
  version, nobody adds an output row of the version without its object, and the rows the version has
  at the start, if any, have theirs. As for C35, the image library decodes an image to the dimensions
  its header announces, SHA-256 yields bytes, and no side of an admitted image exceeds the integers
  that binary floating point represents. The first condition is needed: see the next property.\<close>

theorem completed_run_stores_outputs:
  assumes "s3_bucket cl contents sha256"
    and "Execute (minio_store cl c) sha256 maxSide maxPixels job env w = (Inr (), w')"
    and "\<And>j u. leaves_renditions contents sha256 (rendition_of (j_version job) (w_db w)) (j_version job)
          u (re_between env j u)"
    and "outputs_stored contents sha256 (j_version job) w"
    and "child_behind img decodeConfig sha256 env"
    and "\<forall>data im fmt. img_decode img data = Some (im, fmt) \<longrightarrow> decodeConfig data = Some (img_bounds img im)"
    and "\<forall>data. is_byte_list (sha256 data)" and "maxSide < 2 ^ 53"
  shows "(\<exists>j\<in>set (jobs (w_db w')). j_id j = j_id job \<and> j_status j = ProcessingJobFailed)
    \<or> ((\<exists>j\<in>set (jobs (w_db w')). j_id j = j_id job \<and> j_status j = ProcessingJobCompleted)
       \<and> (\<forall>m\<in>set (outputs (w_db w')). m_version m = j_version job \<longrightarrow> stored_output contents sha256 (w_store w') m)
       \<and> (\<exists>m\<in>set (outputs (w_db w')). m_version m = j_version job \<and> m_kind m = MediaOutputThumbnail)
       \<and> (\<exists>m\<in>set (outputs (w_db w')). m_version m = j_version job \<and> m_kind m = MediaOutputWeb))"
proof -
  have "faithful_artifact sha256 (re_resolve env) files a"
    if "re_process env rq data = (Inr out, files)" "rq_outputs rq = MediaOutputManifest" "rq_max_side rq = maxSide"
      "a \<in> set (po_artifacts out)" for rq data out files a
    by (rule child_behind_faithful [OF assms(5-7) that(1,2) _ that(4)]) (use that(3) assms(8) in simp)
  note faithful = this
  show ?thesis
    unfolding outputs_stored_def [symmetric]
    by (rule object_storage.Execute_stores [OF s3_bucket.minio_storage [OF assms(1)] assms(2-4)]) (rule faithful)
qed

text \<open>A run on the committed demonstration upload.\<close>

definition demo_raw :: "byte list" where "demo_raw = replicate 10 1"

definition demo_artifact :: "string \<Rightarrow> media_output_kind \<Rightarrow> proc_artifact" where
  "demo_artifact path kind = \<lparr>pa_kind = kind, pa_path = path, pa_content_type = ''image/png'', pa_width = 4,
     pa_height = 5, pa_size = 3, pa_sha256 = hex_encode (short_digest [1, 2, 3])\<rparr>"

definition demo_processed :: "(process_error + proc_outcome) \<times> file_system" where
  "demo_processed =
     (Inr \<lparr>po_detected = ''image/png'', po_width = 4, po_height = 5, po_source_sha256 = demo_digest,
           po_artifacts = [demo_artifact ''/s/t.png'' ''thumbnail'', demo_artifact ''/s/w.png'' ''web'']\<rparr>,
      [''/s/t.png'' \<mapsto> [1, 2, 3], ''/s/w.png'' \<mapsto> [1, 2, 3]])"

definition demo_env :: "bucket run_env" where
  "demo_env = \<lparr>re_scratch = Some ''/s'', re_create_ok = True, re_process = (\<lambda>_ _. demo_processed), re_resolve = Some,
     re_between = (\<lambda>_ w. w), re_lease = demo_lease, re_now = 30, re_t1 = 31, re_t2 = 32,
     re_output_id = (\<lambda>i. if i = 0 then ''m1'' else ''m2'')\<rparr>"

definition demo_world :: "bucket world" where
  "demo_world = \<lparr>w_db = demo_running_db, w_store = [''raw/o/a/s/original.png'' \<mapsto> (demo_raw, ''image/png'')],
     w_dead_letters = []\<rparr>"

text \<open>
  A run whose processor is the child itself, on a JPEG of ten bytes, while another process publishes a
  dead letter at the start and has stored the thumbnail before this run puts it.
\<close>

definition demo_jpeg :: "byte list" where
  "demo_jpeg = [0xFF, 0xD8] @ replicate 7 0xFF @ [0xD9]"

definition demo_child_process :: "proc_request \<Rightarrow> byte list \<Rightarrow> (process_error + proc_outcome) \<times> file_system" where
  "demo_child_process rq data =
     (if rq = demo_proc_request \<and> data = demo_jpeg then
        (case Media_Processor.run demo_image_codec (\<lambda>_. Some (4, 5)) short_digest (\<lambda>_. True) (Some rq) [rq_source rq \<mapsto> data] of
           ((code, msgs), files) \<Rightarrow>
             (case Process None 1000 (\<lambda>_. True) True (map Received msgs @ [OutputClosed])
                     (if code = ExitSuccess then None else Some (ExitedWith code)) rq of
                None \<Rightarrow> (Inl ErrProcessorFailed, files) | Some verdict \<Rightarrow> (verdict, files)))
      else (Inl ErrProcessorFailed, Map.empty))"

definition demo_thumb_key :: object_key where
  "demo_thumb_key = ''processed/o/a/v/thumbnail-256.jpg''"

definition demo_busy :: "nat \<Rightarrow> bucket world \<Rightarrow> bucket world" where
  "demo_busy i w =
     (if i = 0 then w\<lparr>w_dead_letters := w_dead_letters w @ [\<lparr>dl_topic = ''d'', dl_key = ''k'', dl_payload = JNull\<rparr>]\<rparr>
      else if i = 3 \<and> w_store w demo_thumb_key = None
        then w\<lparr>w_store := (w_store w)(demo_thumb_key \<mapsto> ([word_of_int 85], ''image/jpeg''))\<rparr>
      else w)"

definition demo_child_env :: "bucket run_env" where
  "demo_child_env = demo_env\<lparr>re_process := demo_child_process, re_between := demo_busy\<rparr>"

definition demo_jpeg_world :: "bucket world" where
  "demo_jpeg_world = \<lparr>w_db = demo_running_db\<lparr>versions := map (\<lambda>v. v\<lparr>v_declared := ''image/jpeg''\<rparr>) (versions demo_running_db)\<rparr>,
     w_store = [''raw/o/a/s/original.png'' \<mapsto> (demo_jpeg, ''image/jpeg'')], w_dead_letters = []\<rparr>"

definition demo_run :: "unit result \<times> bucket world" where
  "demo_run = Execute (minio_store (memory_client short_digest) demo_minio) short_digest 100 1000 demo_job demo_child_env
     demo_jpeg_world"

lemma demo_run_ok: "is_ok (fst demo_run)" "list_all (\<lambda>j. j_status j = ProcessingJobCompleted) (jobs (w_db (snd demo_run)))"
proof -
  have "case demo_run of (r, w) \<Rightarrow> is_ok r \<and> list_all (\<lambda>j. j_status j = ProcessingJobCompleted) (jobs (w_db w))"
    by code_simp
  then show "is_ok (fst demo_run)" "list_all (\<lambda>j. j_status j = ProcessingJobCompleted) (jobs (w_db (snd demo_run)))"
    by (simp_all only: case_prod_beta)
qed

lemma demo_child_behind: "child_behind demo_image_codec (\<lambda>_. Some (4, 5)) short_digest demo_child_env"
  unfolding child_behind_def
proof (intro allI impI)
  fix rq data out files
  assume "re_process demo_child_env rq data = (Inr out, files)"
  then have p: "demo_child_process rq data = (Inr out, files)" by (simp add: demo_child_env_def)
  then have rq: "rq = demo_proc_request" "data = demo_jpeg" by (auto simp: demo_child_process_def split: if_splits)
  obtain code msgs fs' where r: "Media_Processor.run demo_image_codec (\<lambda>_. Some (4, 5)) short_digest (\<lambda>_. True) (Some rq)
      [rq_source rq \<mapsto> data] = ((code, msgs), fs')" by (metis prod.exhaust)
  have s: "Process None 1000 (\<lambda>_. True) True (map Received msgs @ [OutputClosed])
      (if code = ExitSuccess then None else Some (ExitedWith code)) rq = Some (Inr out)" "fs' = files"
    using p r rq by (auto simp: demo_child_process_def split: option.splits)
  have "case demo_child_process demo_proc_request demo_jpeg of
      (Inr out, _) \<Rightarrow> list_all (\<lambda>a. path_clean (pa_path a) = pa_path a) (po_artifacts out) | _ \<Rightarrow> True"
    by code_simp
  then have c: "\<forall>a\<in>set (po_artifacts out). path_clean (pa_path a) = pa_path a" using p rq by (simp add: list_all_iff)
  have e: "re_resolve demo_child_env = Some" by (simp add: demo_child_env_def demo_env_def)
  show "\<exists>writable fs code msgs identity euid chown.
      Media_Processor.run demo_image_codec (\<lambda>_. Some (4, 5)) short_digest writable (Some rq) fs = ((code, msgs), files)
      \<and> fs (rq_source rq) = Some data
      \<and> Process identity euid chown True (map Received msgs @ [OutputClosed])
          (if code = ExitSuccess then None else Some (ExitedWith code)) rq = Some (Inr out)
      \<and> (\<forall>a\<in>set (po_artifacts out). \<forall>p. re_resolve demo_child_env (path_clean (pa_path a)) = Some p \<longrightarrow> files p = files (pa_path a))"
    using r [unfolded s(2)] s(1) c e
    by (intro exI [of _ "\<lambda>_. True"] exI [of _ "[rq_source rq \<mapsto> data]"] exI [of _ code] exI [of _ msgs]
        exI [of _ None] exI [of _ 1000]) auto
qed

lemma demo_busy_leaves: "leaves_renditions id short_digest K ''v'' u (re_between demo_child_env j u)"
  by (fastforce simp: leaves_renditions_def outputs_stored_def stored_output_def demo_child_env_def demo_busy_def)

theorem completed_run_stores_outputs_witness:
  "\<exists>m\<in>set (outputs (w_db (snd demo_run))). m_version m = ''v'' \<and> m_kind m = MediaOutputWeb
     \<and> stored_output id short_digest (w_store (snd demo_run)) m"
proof -
  have r: "Execute (minio_store (memory_client short_digest) demo_minio) short_digest 100 1000 demo_job demo_child_env
      demo_jpeg_world = (Inr (), snd demo_run)"
    using demo_run_ok(1) by (cases demo_run) (auto simp: demo_run_def is_ok_iff)
  have v: "j_version demo_job = ''v''" by code_simp
  have "outputs (w_db demo_jpeg_world) = []" unfolding demo_jpeg_world_def by code_simp
  then have o: "outputs_stored id short_digest (j_version demo_job) demo_jpeg_world" by (simp add: outputs_stored_def)
  have l: "\<forall>data im fmt. img_decode demo_image_codec data = Some (im, fmt) \<longrightarrow> Some (4, 5) = Some (img_bounds demo_image_codec im)"
    "\<forall>data. is_byte_list (short_digest data)"
    by (simp_all add: demo_image_codec_def short_digest_def is_byte_list_def)
  have nf: "\<not> (\<exists>j\<in>set (jobs (w_db (snd demo_run))). j_id j = j_id demo_job \<and> j_status j = ProcessingJobFailed)"
    using demo_run_ok(2) by (auto simp: list_all_iff)
  have b: "leaves_renditions id short_digest (rendition_of (j_version demo_job) (w_db demo_jpeg_world)) (j_version demo_job)
      u (re_between demo_child_env j u)" for j u
    unfolding v by (rule demo_busy_leaves)
  have "(\<exists>j\<in>set (jobs (w_db (snd demo_run))). j_id j = j_id demo_job \<and> j_status j = ProcessingJobFailed)
    \<or> ((\<exists>j\<in>set (jobs (w_db (snd demo_run))). j_id j = j_id demo_job \<and> j_status j = ProcessingJobCompleted)
       \<and> (\<forall>m\<in>set (outputs (w_db (snd demo_run))). m_version m = j_version demo_job \<longrightarrow>
             stored_output id short_digest (w_store (snd demo_run)) m)
       \<and> (\<exists>m\<in>set (outputs (w_db (snd demo_run))). m_version m = j_version demo_job \<and> m_kind m = MediaOutputThumbnail)
       \<and> (\<exists>m\<in>set (outputs (w_db (snd demo_run))). m_version m = j_version demo_job \<and> m_kind m = MediaOutputWeb))"
    by (rule completed_run_stores_outputs [OF memory.s3_bucket_axioms r b o demo_child_behind l]) simp
  then show ?thesis using nf unfolding v by blast
qed

section \<open>A run that fails after another worker has promoted\<close>

text \<open>C39: Discarding is not fenced by the lease: when the uploads of a run fail, every object the run had
  created is removed and the database is left as it is, so an output row that another worker has
  meanwhile promoted for one of those keys no longer has its object. Deletes are taken to succeed.\<close>

theorem discard_is_not_fenced:
  assumes "s3_bucket cl contents sha256" and "\<And>k s. fst (c_delete cl k s) = None"
    and "uploadArtifacts (minio_store cl c) sha256 src scratch files env 0 (po_artifacts out) [] [] w
           = ((Inl e, uploaded), w1)"
    and "finish_run (minio_store cl c) sha256 src job env scratch dg out files w = (r, w')"
  shows "r = Inl e \<and> w_db w' = w_db w1
    \<and> (\<forall>m\<in>set (outputs (w_db w1)). m_key m \<in> set uploaded \<longrightarrow> \<not> stored_output contents sha256 (w_store w') m)"
proof -
  have d: "fst (ob_delete (minio_store cl c) k s) = Inr ()" for k s
    using assms(2) [of k s] by (auto simp: minio_store_def Delete_def split: prod.splits option.splits)
  have "r = Inl e" "w_db w' = w_db w1" using assms(3,4) by (auto simp: finish_run_def discard_world_def)
  moreover have "w' = snd (finish_run (minio_store cl c) sha256 src job env scratch dg out files w)"
    using assms(4) by simp
  ultimately show ?thesis
    using object_storage.finish_run_discards [OF s3_bucket.minio_storage [OF assms(1)] d assms(3)] by blast
qed

text \<open>
  The lease of the first worker runs out while it uploads; before its second put another worker claims
  the job, finds the first rendition stored, stores the second and promotes. The first worker cannot
  open its second artifact.
\<close>

definition demo_other_worker :: "bucket world \<Rightarrow> bucket world" where
  "demo_other_worker w =
     (case on_db (ClaimJob demo_store ''j'' ''other'' 60 60 60 60 60) w of
        (Inl _, w') \<Rightarrow> w'
      | (Inr (cl, lease), w') \<Rightarrow>
          snd (Execute (minio_store (memory_client short_digest) demo_minio) short_digest 100 1000 (cl_job cl)
            (demo_env\<lparr>re_lease := lease, re_now := 65, re_t1 := 66, re_t2 := 67\<rparr>) w'))"

definition demo_late_env :: "bucket run_env" where
  "demo_late_env = demo_env\<lparr>re_between := (\<lambda>i w. if i = 4 then demo_other_worker w else w)\<rparr>"

definition demo_source :: processing_source where
  "demo_source = (case LoadProcessingSource ''v'' demo_running_db of Inr src \<Rightarrow> src)"

definition demo_late_files :: file_system where
  "demo_late_files = [''/s/t.png'' \<mapsto> [1, 2, 3]]"

definition demo_late_out :: proc_outcome where
  "demo_late_out = (case fst demo_processed of Inr out \<Rightarrow> out)"

definition demo_late_uploads :: "(output_row list result \<times> object_key list) \<times> bucket world" where
  "demo_late_uploads = uploadArtifacts (minio_store (memory_client short_digest) demo_minio) short_digest
     demo_source ''/s'' demo_late_files demo_late_env 0 (po_artifacts demo_late_out) [] [] demo_world"

definition demo_late_run :: "unit result \<times> bucket world" where
  "demo_late_run = finish_run (minio_store (memory_client short_digest) demo_minio) short_digest
     demo_source demo_job demo_late_env ''/s'' demo_digest demo_late_out demo_late_files demo_world"

lemma demo_late_uploads_ok:
  "case fst demo_late_uploads of (Inl e, [k]) \<Rightarrow>
     list_ex (\<lambda>m. m_key m = k \<and> m_version m = ''v'') (outputs (w_db (snd demo_late_uploads)))
     \<and> list_ex (\<lambda>a. a_active a = Some ''v'') (assets (w_db (snd demo_late_uploads))) | _ \<Rightarrow> False"
proof -
  have "case demo_late_uploads of (r, w) \<Rightarrow>
     (case r of (Inl e, [k]) \<Rightarrow>
        list_ex (\<lambda>m. m_key m = k \<and> m_version m = ''v'') (outputs (w_db w))
        \<and> list_ex (\<lambda>a. a_active a = Some ''v'') (assets (w_db w)) | _ \<Rightarrow> False)"
    by code_simp
  then show ?thesis by (simp only: case_prod_beta)
qed

theorem discard_is_not_fenced_witness:
  "(\<exists>a\<in>set (assets (w_db (snd demo_late_run))). a_active a = Some ''v'')
   \<and> (\<exists>m\<in>set (outputs (w_db (snd demo_late_run))). m_version m = ''v''
        \<and> \<not> stored_output id short_digest (w_store (snd demo_late_run)) m)"
proof -
  obtain e k where f: "fst demo_late_uploads = (Inl e, [k])"
    and m: "\<exists>m\<in>set (outputs (w_db (snd demo_late_uploads))). m_key m = k \<and> m_version m = ''v''"
    and a: "\<exists>a\<in>set (assets (w_db (snd demo_late_uploads))). a_active a = Some ''v''"
    using demo_late_uploads_ok by (auto simp: list_ex_iff split: prod.splits sum.splits list.splits)
  have u: "demo_late_uploads = ((Inl e, [k]), snd demo_late_uploads)" by (metis f prod.collapse)
  have d: "fst (c_delete (memory_client short_digest) k s) = None" for k s by (simp add: memory_client_def)
  have r: "demo_late_run = (fst demo_late_run, snd demo_late_run)" by simp
  show ?thesis
    using discard_is_not_fenced [OF memory.s3_bucket_axioms d u [unfolded demo_late_uploads_def]
        r [unfolded demo_late_run_def]] m a
    by (metis (no_types) demo_late_run_def demo_late_uploads_def list.set_intros(1))
qed

end
