(* ===== verification/Job_Invariant.thy ===== *)
theory Job_Invariant
  imports Job_Store
begin

text \<open>
  Every operation of the processing-job store keeps the constraints of the tables, collected under
  \<open>job_store_keeps\<close>, and what a settled job is: the facts the worker and the system theories rest on.
\<close>

section \<open>The constraints survive every operation\<close>

lemma tables_ok_failMediaVersion:
  assumes "tables_ok db" and "failMediaVersion fl t1 t2 db = Inr db'"
  shows "tables_ok db'"
proof -
  obtain db1 where a: "update_versions (\<lambda>v. v_id v = fl_version fl \<and> v_org v = fl_org fl)
        (fail_version_row (fl_code fl) t1) db = Inr db1"
    and b: "update_jobs (\<lambda>j. j_id j = fl_job fl) (fail_job_row (fl_code fl) t2)
        (clearPendingMediaVersion (fl_asset fl) (fl_version fl) db1) = Inr db'"
    using assms(2) by (auto simp: failMediaVersion_def)
  have "tables_ok db1" by (rule tables_ok_update_versions [OF assms(1) a]) (simp_all add: fail_version_row_def)
  then have "tables_ok (clearPendingMediaVersion (fl_asset fl) (fl_version fl) db1)"
    unfolding clearPendingMediaVersion_def by (rule tables_ok_update_assets) simp
  then show ?thesis using b by (rule tables_ok_update_jobs) (simp_all add: fail_job_row_def)
qed

lemma tables_ok_ClaimJob:
  assumes "tables_ok db"
  shows "tables_ok (snd (ClaimJob st jid owner now now2 t1 t2 now3 db))"
proof -
  have "tables_ok (snd (transaction (claim_work st jid owner now now2 t1 t2 now3) db))"
  proof (rule transaction_inv [where I = tables_ok, OF assms])
    fix r db' assume "claim_work st jid owner now now2 t1 t2 now3 db = Inr (r, db')"
    then show "tables_ok db'"
    proof (cases rule: claim_work_InrD)
      case (1 j)
      show ?thesis by (rule tables_ok_update_jobs [OF assms 1(3)]) (simp_all add: claim_row_def)
    next
      case (2 j db1)
      have "tables_ok db1" by (rule tables_ok_update_jobs [OF assms 2(4)]) simp_all
      then show ?thesis using 2(5) unfolding failExhaustedMediaJob_def by (rule tables_ok_failMediaVersion)
    qed
  qed
  then show ?thesis using assms
    by (auto simp: ClaimJob_def split: prod.splits sum.splits option.splits)
qed

lemma tables_ok_RenewLease:
  assumes "tables_ok db"
  shows "tables_ok (snd (RenewLease st jid held now db))"
proof (cases "update_jobs (holds_lease jid held now) (\<lambda>j. j\<lparr>j_lease_expires := Some (now + js_expiry st)\<rparr>) db")
  case (Inr db')
  have "tables_ok db'" by (rule tables_ok_update_jobs [OF assms Inr]) simp_all
  then show ?thesis using Inr by (simp add: RenewLease_def)
qed (simp add: RenewLease_def assms)

lemma settle_work_False:
  "settle_work st cd e tp job held now t1 t2 db = Inr (False, db') \<Longrightarrow> db' = db"
  by (auto simp: settle_work_def Let_def split: option.splits if_splits)

lemma tables_ok_SettleExecutionFailure:
  assumes "tables_ok db"
  shows "tables_ok (snd (SettleExecutionFailure st cd e tp job held now t1 t2 db))"
  unfolding SettleExecutionFailure_def
proof (rule transaction_inv [where I = tables_ok, OF assms])
  fix b db' assume w: "settle_work st cd e tp job held now t1 t2 db = Inr (b, db')"
  show "tables_ok db'"
  proof (cases b)
    case True
    then have "settle_work st cd e tp job held now t1 t2 db = Inr (True, db')" using w by simp
    then show ?thesis
    proof (cases rule: settle_work_InrD)
      case (1 cur)
      show ?thesis using 1(5) unfolding failExhaustedMediaJob_def by (rule tables_ok_failMediaVersion [OF assms])
    next
      case (2 cur doc db1)
      have "tables_ok db1" by (rule tables_ok_update_jobs [OF assms 2(6)]) (simp_all add: retry_job_row_def)
      then show ?thesis using 2(7) by (rule tables_ok_insert)
    qed
  next
    case False
    then have "db' = db" using w settle_work_False by simp
    then show ?thesis using assms by simp
  qed
qed

lemma complete_work_False: "complete_work cm held now t1 t2 db = Inr (False, db') \<Longrightarrow> db' = db"
  by (auto simp: complete_work_def split: option.splits)

lemma tables_ok_CompleteAndPromote:
  assumes "tables_ok db"
  shows "tables_ok (snd (CompleteAndPromote cm held now t1 t2 db))"
proof -
  have "tables_ok (snd (transaction (complete_work cm held now t1 t2) db))"
  proof (rule transaction_inv [where I = tables_ok, OF assms])
    fix b db' assume w: "complete_work cm held now t1 t2 db = Inr (b, db')"
    show "tables_ok db'"
    proof (cases b)
      case True
      then show ?thesis using w tables_ok_complete [OF assms] by simp
    next
      case False
      then have "db' = db" using w complete_work_False by simp
      then show ?thesis using assms by simp
    qed
  qed
  then show ?thesis using assms by (auto simp: CompleteAndPromote_def split: sum.splits)
qed

lemma tables_ok_FailVersion:
  assumes "tables_ok db"
  shows "tables_ok (snd (FailVersion fl held now t1 t2 db))"
  unfolding FailVersion_def
  by (rule transaction_inv [where I = tables_ok, OF assms])
    (auto simp: fail_work_def assms split: option.splits intro: tables_ok_failMediaVersion [OF assms])

lemma tables_ok_IsolateNotification:
  assumes "tables_ok db"
  shows "tables_ok (snd (IsolateNotification jid now db))"
proof (cases "update_jobs (isolatable jid) (isolate_row now) db")
  case (Inr db')
  have "tables_ok db'" by (rule tables_ok_update_jobs [OF assms Inr]) (simp_all add: isolate_row_def)
  then show ?thesis using Inr by (simp add: IsolateNotification_def)
qed (simp add: IsolateNotification_def assms)

lemma tables_ok_RebuildAndEnqueue:
  assumes "tables_ok db"
  shows "tables_ok (snd (RebuildAndEnqueue cd jid operator e now db))"
proof (cases "is_ok (fst (RebuildAndEnqueue cd jid operator e now db))")
  case True
  then obtain ev db' where r: "RebuildAndEnqueue cd jid operator e now db = (Inr ev, db')"
    by (metis is_ok_iff prod.collapse)
  then obtain job doc where d: "db' = db\<lparr>jobs := sql_update (\<lambda>j. j_id j = jid \<and> isolated_job j) (restore_row now) (jobs db),
             outbox := outbox db @ [pending_outbox e jid doc now now]\<rparr>"
    and j: "job \<in> set (jobs db)" "j_id job = jid"
    and c: "\<forall>j\<in>set (jobs db). j_id j = jid \<and> isolated_job j \<longrightarrow> job_check (restore_row now j)"
    and n: "\<forall>y\<in>set (outbox db). \<not> outbox_conflict (pending_outbox e jid doc now now) y"
    by (rule RebuildAndEnqueue_InrD)
  let ?c = "\<lambda>j. j_id j = jid \<and> isolated_job j"
  let ?db1 = "db\<lparr>jobs := sql_update ?c (restore_row now) (jobs db)\<rparr>"
  have "update_jobs ?c (restore_row now) db = Inr ?db1" using c by (auto simp: update_jobs_def list_all_iff)
  then have ok1: "tables_ok ?db1" by (rule tables_ok_update_jobs [OF assms]) (simp_all add: restore_row_def)
  have "no_conflict outbox_conflict (outbox db @ [pending_outbox e jid doc now now])"
    using assms n by (intro no_conflict_snoc) (auto simp: tables_ok_def conflict_sym)
  moreover have "list_all outbox_check (outbox db @ [pending_outbox e jid doc now now])"
    using assms by (simp add: tables_ok_def outbox_check_def pending_outbox_def MediaSchemaVersion_def)
  ultimately show ?thesis using ok1 r by (simp add: d tables_ok_def)
next
  case False
  then show ?thesis using assms
    by (auto simp: RebuildAndEnqueue_def transaction_def split: if_splits sum.splits prod.splits)
qed

lemma insertReconciliationOutbox_keeps:
  "insertReconciliationOutbox x db = Inr (b, db') \<Longrightarrow> tables_ok db \<Longrightarrow> tables_ok db'"
  by (auto simp: insertReconciliationOutbox_def split: if_splits dest: tables_ok_insert)

lemma reconcile_all_keeps:
  "reconcile_all cd now cs n db = Inr (m, db') \<Longrightarrow> tables_ok db \<Longrightarrow> tables_ok db'"
  by (induction cd now cs n db rule: reconcile_all.induct) (auto dest: insertReconciliationOutbox_keeps)

lemma tables_ok_ReconcileStaleDispatches:
  assumes "tables_ok db"
  shows "tables_ok (snd (ReconcileStaleDispatches cd locked n age ids now db))"
proof -
  have "tables_ok (snd (transaction (reconcile_all cd now cs 0) db))" for cs
    by (rule transaction_inv [where I = tables_ok, OF assms]) (rule reconcile_all_keeps [OF _ assms])
  then show ?thesis using assms by (simp add: ReconcileStaleDispatches_def Let_def)
qed

lemma mark_purged_work_InrD:
  assumes "mark_purged_work b now db = Inr (u, db')"
  obtains (gone) "db' = db"
  | (marked) "sessions db' = sql_update (\<lambda>s. s_id s = pg_upload b \<and> s_org s = pg_org b \<and> s_purged_at s = None)
        (\<lambda>s. s\<lparr>s_purged_at := Some now\<rparr>) (sessions db)"
    "\<exists>s\<in>set (sessions db). s_id s = pg_upload b \<and> s_org s = pg_org b \<and> s_purged_at s = None"
    "pg_version b = [] \<and> outputs db' = outputs db \<and> versions db' = versions db \<and> usage db' = usage db \<or>
     pg_version b \<noteq> [] \<and> outputs db' = sql_delete (\<lambda>m. m_version m = pg_version b) (outputs db)
       \<and> versions db' = sql_update (\<lambda>v. v_id v = pg_version b) (\<lambda>v. v\<lparr>v_raw_retained := False\<rparr>) (versions db)
       \<and> (if 0 < pg_stored b
          then usage db' = sql_update (\<lambda>u. us_org u = pg_org b) (\<lambda>u. u\<lparr>us_stored := max (us_stored u - pg_stored b) 0\<rparr>) (usage db)
             \<and> (\<forall>u\<in>set (usage db). us_org u = pg_org b \<longrightarrow> usage_check (u\<lparr>us_stored := max (us_stored u - pg_stored b) 0\<rparr>))
          else usage db' = usage db)"
    "jobs db' = jobs db" "outbox db' = outbox db" "assets db' = assets db" "folders db' = folders db"
proof (cases "db' = db")
  case False
  show thesis
    by (rule marked)
      (use assms False in \<open>auto simp: mark_purged_work_def Let_def releaseStoredBytes_def split: if_splits
        dest!: update_usage_InrD\<close>)
qed (rule gone)

lemma no_conflict_filter: "no_conflict k rs \<Longrightarrow> no_conflict k (filter P rs)"
  by (simp add: no_conflict_def sorted_wrt_filter)

lemma tables_ok_MarkMediaObjectsPurged:
  assumes "tables_ok db"
  shows "tables_ok (snd (MarkMediaObjectsPurged b now db))"
  unfolding MarkMediaObjectsPurged_def
proof (rule transaction_inv [where I = tables_ok, OF assms])
  fix u db' assume "mark_purged_work b now db = Inr (u, db')"
  then show "tables_ok db'"
  proof (cases rule: mark_purged_work_InrD)
    case marked
    have ok1: "tables_ok (db\<lparr>sessions := sessions db'\<rparr>)" unfolding marked(1)
      by (rule tables_ok_update_sessions [OF assms]) (simp_all add: session_check_def)
    have os: "no_conflict output_conflict (outputs db')" "list_all output_check (outputs db')"
      using marked(3) assms by (auto simp: tables_ok_def sql_delete_def list_all_iff intro: no_conflict_filter)
    have "update_versions (\<lambda>v. v_id v = pg_version b) (\<lambda>v. v\<lparr>v_raw_retained := False\<rparr>) db
      = Inr (db\<lparr>versions := sql_update (\<lambda>v. v_id v = pg_version b) (\<lambda>v. v\<lparr>v_raw_retained := False\<rparr>) (versions db)\<rparr>)"
      using assms by (auto simp: update_versions_def version_check_def list_all_iff tables_ok_def)
    then have "tables_ok (db\<lparr>versions := sql_update (\<lambda>v. v_id v = pg_version b) (\<lambda>v. v\<lparr>v_raw_retained := False\<rparr>) (versions db)\<rparr>)"
      by (rule tables_ok_update_versions [OF assms]) simp_all
    then have vs: "no_conflict version_conflict (versions db')" "list_all version_check (versions db')"
      using marked(3) assms by (auto simp: tables_ok_def)
    show ?thesis using ok1 os vs marked(4-7) by (simp add: tables_ok_def)
  qed (use assms in simp)
qed

lemmas job_store_keeps =
  tables_ok_ClaimJob tables_ok_RenewLease tables_ok_SettleExecutionFailure tables_ok_CompleteAndPromote
  tables_ok_FailVersion tables_ok_IsolateNotification tables_ok_RebuildAndEnqueue
  tables_ok_ReconcileStaleDispatches tables_ok_MarkMediaObjectsPurged

section \<open>Settled jobs\<close>

text \<open>The job has its verdict, or it is queued and an event for it is still to be published.\<close>

definition job_settled :: "string \<Rightarrow> db \<Rightarrow> bool" where
  "job_settled jid db \<longleftrightarrow>
     (\<exists>j\<in>set (jobs db). j_id j = jid
        \<and> (j_status j = ProcessingJobCompleted \<or> j_status j = ProcessingJobFailed
           \<or> (j_status j = ProcessingJobQueued \<and> (\<exists>x\<in>set (outbox db). x_job x = jid \<and> unpublished x))))"

lemma failMediaVersion_settles:
  assumes "failMediaVersion fl t1 t2 db = Inr db'" and "j \<in> set (jobs db)" "j_id j = fl_job fl"
  shows "job_settled (fl_job fl) db'"
proof -
  have "jobs db' = sql_update (\<lambda>j. j_id j = fl_job fl) (fail_job_row (fl_code fl) t2) (jobs db)"
    using failMediaVersion_InrD [OF assms(1)] by simp
  then have "fail_job_row (fl_code fl) t2 j \<in> set (jobs db')" using assms(2,3) by (auto intro: sql_update_memI1)
  then show ?thesis using assms(3) unfolding job_settled_def
    by (intro bexI [of _ "fail_job_row (fl_code fl) t2 j"]) (simp_all add: fail_job_row_def)
qed

lemma SettleExecutionFailure_settles:
  assumes "SettleExecutionFailure st cd e tp job held now t1 t2 db = (Inr True, db')"
  shows "job_settled (j_id job) db'"
proof -
  have "settle_work st cd e tp job held now t1 t2 db = Inr (True, db')"
    using assms by (auto simp: SettleExecutionFailure_def dest: transaction_Inr)
  then show ?thesis
  proof (cases rule: settle_work_InrD)
    case (1 cur)
    have "j_id cur = j_id job" using 1(2) by (simp add: holds_lease_def)
    then show ?thesis using failMediaVersion_settles [OF 1(5) [unfolded failExhaustedMediaJob_def] 1(1)] by simp
  next
    case (2 cur doc db1)
    let ?due = "t1 + js_delays st ! nat (j_attempts cur - 1)"
    have id: "j_id cur = j_id job" using 2(2) by (simp add: holds_lease_def)
    have "retry_job_row ?due cur \<in> set (jobs db1)"
      using update_jobs_InrD [OF 2(6)] 2(1) by (auto intro: sql_update_memI1)
    moreover have "jobs db' = jobs db1" "pending_outbox e (j_id cur) doc ?due t1 \<in> set (outbox db')"
      using insert_outbox_InrD [OF 2(7)] by auto
    moreover have "x_job (pending_outbox e (j_id cur) doc ?due t1) = j_id cur"
      "unpublished (pending_outbox e (j_id cur) doc ?due t1)"
      by (simp_all add: pending_outbox_def unpublished_def)
    ultimately show ?thesis using id unfolding job_settled_def
      by (intro bexI [of _ "retry_job_row ?due cur"]) (auto simp: retry_job_row_def)
  qed
qed

text \<open>The errors of a claim.\<close>

lemma update_errors:
  "update_jobs c f db = Inl e \<Longrightarrow> e = check_violation"
  "update_versions c' f' db = Inl e \<Longrightarrow> e = check_violation"
  by (auto simp: update_jobs_def update_versions_def split: if_splits)

lemma failMediaVersion_errors: "failMediaVersion fl t1 t2 db = Inl e \<Longrightarrow> e = check_violation"
  by (auto simp: failMediaVersion_def and_then_Inl dest: update_errors)

lemma settleExpired_errors: "settleExpiredExhaustedClaim st jid owner now t1 t2 db = Inl e \<Longrightarrow> e = check_violation"
  by (auto simp: settleExpiredExhaustedClaim_def failExhaustedMediaJob_def and_then_Inl
      split: option.splits dest: update_errors failMediaVersion_errors)

lemma settleExpired_False: "settleExpiredExhaustedClaim st jid owner now t1 t2 db = Inr (False, db') \<Longrightarrow> db' = db"
  by (auto simp: settleExpiredExhaustedClaim_def split: option.splits)

lemma claim_work_errors:
  assumes "claim_work st jid owner now now2 t1 t2 now3 db = Inl e"
  shows "e = check_violation \<or> e = explainRefusal st jid now3 db"
proof (cases "find (claimable st jid now db) (jobs db)")
  case (Some j)
  then show ?thesis using assms by (auto simp: claim_work_def and_then_Inl dest: update_errors)
next
  case None
  then show ?thesis using assms
    by (auto simp: claim_work_def and_then_Inl split: if_splits prod.splits
        dest: settleExpired_errors settleExpired_False)
qed

lemma ClaimJob_errors:
  assumes "ClaimJob st jid owner now now2 t1 t2 now3 db = (Inl e, db')"
  shows "e = ErrOther ''media job claim requires a lease owner'' \<or> e = check_violation
    \<or> e = ErrJobTerminal \<or> e = explainRefusal st jid now3 db"
  using assms claim_work_errors [of st jid owner now now2 t1 t2 now3 db]
  by (auto simp: ClaimJob_def transaction_def split: if_splits sum.splits prod.splits option.splits)

lemma explainRefusal_cases:
  "explainRefusal st jid now db \<in> {ErrJobNotFound, ErrJobIsolated, ErrJobTerminal, ErrJobLeased, ErrJobExhausted,
     ErrJobNotDue, ErrJobNotClaimed}"
  by (auto simp: explainRefusal_def split: option.split)

lemma insert_errors:
  "insert_outbox x db = Inl e \<Longrightarrow> e \<in> {check_violation, unique_violation, foreign_key_violation}"
  by (auto simp: insert_outbox_def insert_row_def split: sum.splits if_splits)

lemma Media_Marshal_errors:
  "Media_Marshal cd env p = Inl e \<Longrightarrow>
     e \<in> {ErrMissingIdentifier, ErrInvalidIdentifier, ErrOther ''time out of range'', ErrRecordTooLarge}"
  by (auto simp: Media_Marshal_def payload_validate_def Let_def split: if_splits option.splits)

lemma SettleExecutionFailure_errors:
  "SettleExecutionFailure st cd e tp job held now t1 t2 db \<noteq> (Inl ErrJobSettled, db')"
proof
  assume "SettleExecutionFailure st cd e tp job held now t1 t2 db = (Inl ErrJobSettled, db')"
  then have "settle_work st cd e tp job held now t1 t2 db = Inl ErrJobSettled"
    by (auto simp: SettleExecutionFailure_def dest: transaction_Inl)
  then show False
    by (auto simp: settle_work_def Let_def failExhaustedMediaJob_def insertMediaRetryOutbox_def insertOutboxJSON_def
        and_then_Inl check_violation_def unique_violation_def foreign_key_violation_def
        split: option.splits if_splits
        dest!: update_errors failMediaVersion_errors insert_errors Media_Marshal_errors)
qed

text \<open>A claim refused as terminal or isolated found the job settled, or settled it itself.\<close>

lemma ClaimJob_terminal_settled:
  assumes "tables_ok db" and "ClaimJob st jid owner now now2 t1 t2 now3 db = (Inl e, db')"
    and "e = ErrJobTerminal \<or> e = ErrJobIsolated"
  shows "job_settled jid db'"
proof -
  have ex: "job_settled jid db1" if "explainRefusal st jid now3 db1 = e" "tables_ok db1" for db1
  proof -
    from that(1) assms(3) obtain j where j: "find (\<lambda>j. j_id j = jid) (jobs db1) = Some j"
      by (auto simp: explainRefusal_def split: option.splits)
    have m: "j \<in> set (jobs db1)" "j_id j = jid" using find_SomeD [OF j] by auto
    have "j_isolated_at j \<noteq> None \<Longrightarrow> j_status j = ProcessingJobFailed"
      using tables_ok_checks(4) [OF that(2) m(1)] by (simp add: job_check_def)
    then have "j_status j = ProcessingJobCompleted \<or> j_status j = ProcessingJobFailed"
      using that(1) assms(3) j by (auto simp: explainRefusal_def split: if_splits)
    then show ?thesis using m by (auto simp: job_settled_def)
  qed
  show ?thesis
  proof (cases "claim_work st jid owner now now2 t1 t2 now3 db")
    case (Inl f)
    have d: "db' = db" "e = f" using assms(2,3) Inl by (auto simp: ClaimJob_def transaction_def split: if_splits)
    have "explainRefusal st jid now3 db = e"
      using claim_work_errors [OF Inl] d(2) assms(3) by (auto simp: check_violation_def)
    then show ?thesis using ex assms(1) d(1) by blast
  next
    case (Inr r)
    then obtain c where c: "claim_work st jid owner now now2 t1 t2 now3 db = Inr (c, db')"
      using assms(2,3) by (cases r) (auto simp: ClaimJob_def transaction_def split: if_splits option.splits)
    then have "c = None" using assms(2,3) by (auto simp: ClaimJob_def transaction_def split: if_splits option.splits)
    from c [unfolded this] show ?thesis
    proof (cases rule: claim_work_InrD)
      case (2 j db1)
      have "j_id j = jid" using 2(3) by (simp add: exhausted_def)
      moreover have "\<exists>k\<in>set (jobs db1). j_id k = j_id j"
        using update_jobs_InrD [OF 2(4)] 2(2,3)
        by (intro bexI [of _ "j\<lparr>j_lease_owner := Some owner, j_lease_expires := Some (now2 + js_expiry st)\<rparr>"])
          (auto intro: sql_update_memI1)
      ultimately show ?thesis
        using failMediaVersion_settles [OF 2(5) [unfolded failExhaustedMediaJob_def]] by auto
    qed simp
  qed
qed

end
