(* ===== verification/Media_Worker.thy ===== *)
theory Media_Worker
  imports Event_Consumer Rendition_Executor Job_Invariant
begin

text \<open>
  The worker process: \<open>internal/usecase/media_worker.go\<close> and \<open>media_lease.go\<close> (one job under a lease),
  \<open>cmd/media-worker/effect.go\<close> (what a notification makes happen) and
  \<open>internal/eventing/media/dead_letter.go\<close> (where a poisonous one goes). Deliveries of the worker are
  put into the reader's loop through the contract of \<open>Event_Consumer\<close>: an offset is committed only
  when the record is settled.
\<close>

section \<open>Renewing a lease\<close>

text \<open>
  The renewal goroutine as a sequence of ticks: what other processes do before it, the clock of the
  statement, and whether the context is done when it fails. The end of the sequence is the stop
  signal or the end of the context. The result is the lease as \<open>Current\<close> returns it from then on,
  and whether the run was cancelled with \<open>ErrLeaseLost\<close>.
\<close>

record renewal_tick =
  rt_before :: "db \<Rightarrow> db"
  rt_now :: instant
  rt_ctx_done :: bool

fun renewUntilLost ::
  "job_store \<Rightarrow> string \<Rightarrow> renewal_tick list \<Rightarrow> job_lease \<Rightarrow> db \<Rightarrow> (job_lease \<times> bool) \<times> db"
where
  "renewUntilLost st jid [] lease db = ((lease, False), db)"
| "renewUntilLost st jid (t # ts) lease db =
     (case RenewLease st jid lease (rt_now t) (rt_before t db) of
        (Inr renewed, db') \<Rightarrow> renewUntilLost st jid ts renewed db'
      | (Inl _, db') \<Rightarrow> ((lease, \<not> rt_ctx_done t), db'))"

section \<open>Running a job\<close>

definition classifyClaimFailure :: "media_error \<Rightarrow> media_error" where
  "classifyClaimFailure e =
     (if e = ErrJobTerminal \<or> e = ErrJobIsolated then ErrJobSettled
      else if e = ErrJobLeased \<or> e = ErrJobNotDue then ErrJobUnavailable
      else e)"

text \<open>
  What one delivery observes: the clock readings of its statements, the execution (with whatever
  other processes do during it), whether the lease was reported lost, and the lease and the fresh
  event identifier at the settlement.
\<close>

record 's worker_env =
  we_claim_now :: instant
  we_exhausted_now :: instant
  we_fail_version_at :: instant
  we_fail_job_at :: instant
  we_explain_now :: instant
  we_execute :: "job_row \<Rightarrow> job_lease \<Rightarrow> 's world \<Rightarrow> unit result \<times> 's world"
  we_lost :: bool
  we_lease :: job_lease
  we_event :: string
  we_traceparent :: string
  we_settle_now :: instant
  we_t1 :: instant
  we_t2 :: instant

definition RunJob ::
  "job_store \<Rightarrow> codec \<Rightarrow> string \<Rightarrow> 's worker_env \<Rightarrow> string \<Rightarrow> 's world \<Rightarrow> unit result \<times> 's world"
where
  "RunJob st cd owner env jid w =
     (case on_db (ClaimJob st jid owner (we_claim_now env) (we_exhausted_now env) (we_fail_version_at env)
                    (we_fail_job_at env) (we_explain_now env)) w of
        (Inl e, w1) \<Rightarrow> (Inl (classifyClaimFailure e), w1)
      | (Inr (c, lease), w1) \<Rightarrow>
         (case we_execute env (cl_job c) lease w1 of
            (executed, w2) \<Rightarrow>
              if we_lost env then (Inl ErrLeaseLost, w2)
              else (case executed of
                 Inr _ \<Rightarrow> (Inr (), w2)
               | Inl _ \<Rightarrow>
                  (case on_db (SettleExecutionFailure st cd (we_event env) (we_traceparent env) (cl_job c)
                          (we_lease env) (we_settle_now env) (we_t1 env) (we_t2 env)) w2 of
                     (Inl e, w3) \<Rightarrow> (Inl e, w3)
                   | (Inr settled, w3) \<Rightarrow> if \<not> settled then (Inl ErrLeaseLost, w3) else (Inr (), w3)))))"

section \<open>The effect of a notification\<close>

definition notification_apply ::
  "codec \<Rightarrow> (string \<Rightarrow> payload \<Rightarrow> db \<Rightarrow> unit result) option \<Rightarrow> (string \<Rightarrow> 's world \<Rightarrow> unit result \<times> 's world)
   \<Rightarrow> envelope \<Rightarrow> 's world \<Rightarrow> (effect_error + unit) \<times> 's world"
where
  "notification_apply cd verifier run_job env w =
     (case Media_Parse cd env of
        Inl _ \<Rightarrow> (Inl (Poison ''INVALID_MEDIA_PAYLOAD''), w)
      | Inr p \<Rightarrow>
         (case (case verifier of None \<Rightarrow> Inr () | Some verify \<Rightarrow> verify (env_OrgID env) p (w_db w)) of
            Inl e \<Rightarrow>
              (Inl (if e = ErrJobNotFound then Poison ''MEDIA_JOB_NOT_FOUND''
                    else if e = ErrNotificationMismatch then Poison ''MEDIA_NOTIFICATION_MISMATCH''
                    else Transient e), w)
          | Inr _ \<Rightarrow>
             (case run_job (pl_job p) w of
                (Inr _, w') \<Rightarrow> (Inr (), w')
              | (Inl e, w') \<Rightarrow>
                  (Inl (if e = ErrJobSettled then ErrAlreadyApplied
                        else if e = ErrJobNotFound then Poison ''MEDIA_JOB_NOT_FOUND''
                        else Transient e), w'))))"

section \<open>Dead letters\<close>

definition MaxDeadLetterBytes :: nat where "MaxDeadLetterBytes = 1024"

text \<open>\<open>uuid.Parse\<close> accepts more than one text of an identifier; \<open>canonical\<close> is the text it prints.\<close>

definition validatedDeadLetterUUID :: "codec \<Rightarrow> (string \<Rightarrow> string) \<Rightarrow> string \<Rightarrow> string" where
  "validatedDeadLetterUUID cd canonical v = (if uuid_valid cd v then canonical v else [])"

definition omit_empty :: "string \<Rightarrow> string \<Rightarrow> (string \<times> json) list" where
  "omit_empty name v = (if v = [] then [] else [(name, JStr v)])"

definition deadLetterRecord :: "quarantined_record \<Rightarrow> string \<Rightarrow> string \<Rightarrow> string \<Rightarrow> json" where
  "deadLetterRecord q event job observed =
     JObj ([(''sourceTopic'', JStr (q_source_topic q)),
            (''sourcePartition'', JNum (format_int (q_source_partition q))),
            (''sourceOffset'', JNum (format_int (q_source_offset q))),
            (''quarantineId'', JStr (q_id q))]
           @ omit_empty ''eventId'' event @ omit_empty ''jobId'' job
           @ [(''observedAt'', JStr observed), (''reasonCode'', JStr (q_reason q)),
              (''payloadSha256'', JStr (q_payload_sha256 q))])"

record isolation_env =
  ie_topic :: string
  ie_canonical :: "string \<Rightarrow> string"
  ie_now :: instant
  ie_seconds :: "instant \<Rightarrow> string"
  ie_stored :: "media_error option"
  ie_delivered :: bool
  ie_acknowledged :: bool

text \<open>
  \<open>ie_stored\<close> is a failure of the statement itself (the connection), \<open>ie_delivered\<close> and
  \<open>ie_acknowledged\<close> what becomes of the publication; \<open>ie_seconds\<close> formats a time in UTC.
\<close>

definition DeadLetter_Isolate ::
  "codec \<Rightarrow> isolation_env \<Rightarrow> quarantined_record \<Rightarrow> 's world \<Rightarrow> unit result \<times> 's world"
where
  "DeadLetter_Isolate cd env q w =
     (let event = validatedDeadLetterUUID cd (ie_canonical env) (q_event q);
          job = validatedDeadLetterUUID cd (ie_canonical env) (q_aggregate q) in
      case (if job = [] then (Inr (), w)
            else case ie_stored env of
                   Some e \<Rightarrow> (Inl e, w)
                 | None \<Rightarrow> on_db (IsolateNotification job (ie_now env)) w) of
        (Inl e, w1) \<Rightarrow> (Inl e, w1)
      | (Inr _, w1) \<Rightarrow>
          let doc = deadLetterRecord q event job (ie_seconds env (q_observed_at q)) in
          if MaxDeadLetterBytes < length (json_text cd doc)
          then (Inl (ErrOther ''media dead-letter record is too large''), w1)
          else
            let w2 = (if ie_delivered env \<or> ie_acknowledged env
                      then w1\<lparr>w_dead_letters := w_dead_letters w1
                                 @ [\<lparr>dl_topic = ie_topic env, dl_key = q_id q, dl_payload = doc\<rparr>]\<rparr>
                      else w1) in
            if ie_acknowledged env then (Inr (), w2)
            else (Inl (ErrOther ''publishing media dead-letter record''), w2))"

section \<open>A delivery of the worker\<close>

definition worker_options :: consumer_options where
  "worker_options = \<lparr>co_max_bytes = int MaxRecordBytes, co_known_versions = [MediaSchemaVersion],
     co_routable_types = [MediaProcessingRequestedEventType], co_aggregate_field = ''jobId''\<rparr>"

definition worker_deliver ::
  "job_store \<Rightarrow> codec \<Rightarrow> (string \<Rightarrow> nat list) \<Rightarrow> string \<Rightarrow> (int \<Rightarrow> 's worker_env) \<Rightarrow> (int \<Rightarrow> isolation_env) \<Rightarrow> (int \<Rightarrow> instant)
   \<Rightarrow> int \<Rightarrow> kafka_record \<Rightarrow> 's world \<Rightarrow> (outcome \<times> media_error option) \<times> 's world"
where
  "worker_deliver st cd sha256 owner envs isolations clock i r w =
     Deliver cd sha256 worker_options
       (notification_apply cd (Some VerifyNotification) (RunJob st cd owner (envs i)))
       (DeadLetter_Isolate cd (isolations i)) (clock i) r w"

section \<open>Runs and deliveries keep the constraints\<close>

lemma on_db_simps [simp]:
  "w_db (snd (on_db f w)) = snd (f (w_db w))" "fst (on_db f w) = fst (f (w_db w))"
  "w_dead_letters (snd (on_db f w)) = w_dead_letters w"
  by (simp_all add: on_db_def split: prod.splits)

lemma on_db_eqD: "on_db f w = (r, w') \<Longrightarrow> f (w_db w) = (r, w_db w') \<and> w_dead_letters w' = w_dead_letters w"
  by (auto simp: on_db_def split: prod.splits)

lemma discard_world_db [simp]: "w_db (discard_world st ks w) = w_db w"
  by (simp add: discard_world_def)

text \<open>What other processes do during a run keeps the constraints, as every operation does.\<close>

definition polite_run :: "'s run_env \<Rightarrow> bool" where
  "polite_run env \<longleftrightarrow> (\<forall>i u. tables_ok (w_db u) \<longrightarrow> tables_ok (w_db (re_between env i u)))"

lemma fail_run_keeps:
  assumes "tables_ok (w_db w)"
  shows "tables_ok (w_db (snd (fail_run src job env code w)))"
proof -
  let ?f = "FailVersion \<lparr>fl_job = j_id job, fl_version = src_version src, fl_org = src_org src,
      fl_asset = src_asset src, fl_code = code\<rparr> (re_lease env) (re_now env) (re_t1 env) (re_t2 env)"
  have "snd (fail_run src job env code w) = snd (on_db ?f w)"
    by (simp add: fail_run_def split: prod.splits sum.splits)
  then show ?thesis using tables_ok_FailVersion [OF assms] by simp
qed

lemma uploadArtifacts_keeps:
  assumes "uploadArtifacts st sha256 src scratch files env i as outs uploaded w = (r, w')"
    and "polite_run env" "tables_ok (w_db w)"
  shows "tables_ok (w_db w')"
  by (rule uploadArtifacts_db [where P = tables_ok, OF _ assms(3,1)]) (use assms(2) in \<open>simp add: polite_run_def\<close>)

lemma finish_run_keeps:
  assumes "polite_run env" "tables_ok (w_db w)"
  shows "tables_ok (w_db (snd (finish_run st sha256 src job env scratch dg out files w)))"
proof -
  obtain o' uploaded w1 where u: "uploadArtifacts st sha256 src scratch files env 0 (po_artifacts out) [] [] w
      = ((o', uploaded), w1)" by (metis prod.exhaust)
  have ok1: "tables_ok (w_db w1)" by (rule uploadArtifacts_keeps [OF u assms])
  then have ok2: "tables_ok (w_db (re_between env 2 w1))" using assms(1) by (simp add: polite_run_def)
  have "tables_ok (w_db w2)" if "on_db (CompleteAndPromote cm held now t1 t2) (re_between env 2 w1) = (x, w2)"
    for cm held now t1 t2 x w2
    using on_db_eqD [OF that] tables_ok_CompleteAndPromote [OF ok2, of cm held now t1 t2] by simp
  then show ?thesis using u ok1 by (auto simp: finish_run_def split: sum.splits prod.splits)
qed

lemma Execute_keeps:
  assumes "polite_run env" "tables_ok (w_db w)"
  shows "tables_ok (w_db (snd (Execute st sha256 maxSide maxPixels job env w)))"
proof -
  have b: "tables_ok (w_db (re_between env 0 w))" "tables_ok (w_db (re_between env 1 (re_between env 0 w)))"
    using assms by (simp_all add: polite_run_def)
  show ?thesis
    using assms(2) b(1) b(2) fail_run_keeps [OF b(1)] fail_run_keeps [OF b(2)] finish_run_keeps [OF assms(1) b(2)]
    by (auto simp: Execute_def Let_def split: sum.split option.split prod.split process_error.split)
qed

section \<open>A run or delivery that is done leaves the job settled\<close>

lemma Execute_settles:
  assumes "Execute st sha256 maxSide maxPixels job env w = (Inr (), w')"
  shows "job_settled (j_id job) (w_db w')"
proof -
  have failed: "job_settled (j_id job) (w_db w')" if "fail_run src job env code u = (Inr (), w')" for src code u
    using that
    by (auto simp: fail_run_def job_settled_def split: prod.splits sum.splits if_splits
        dest!: on_db_eqD FailVersion_InrD)
  have finished: "job_settled (j_id job) (w_db w')"
    if "finish_run st sha256 src job env scratch dg out files u = (Inr (), w')" for src scratch dg out files u
    using that
    by (auto simp: finish_run_def job_settled_def completion_of_def split: prod.splits sum.splits if_splits
        dest!: on_db_eqD CompleteAndPromote_InrD(1))
  show ?thesis using assms failed finished
    by (auto simp: Execute_def Let_def split: sum.splits option.splits prod.splits process_error.splits if_splits)
qed

text \<open>The executions a worker of the program makes.\<close>

definition program_execution ::
  "(job_row \<Rightarrow> job_lease \<Rightarrow> 's world \<Rightarrow> unit result \<times> 's world) \<Rightarrow> bool"
where
  "program_execution ex \<longleftrightarrow>
     (\<exists>st sha256 maxSide maxPixels env. (\<forall>j l. polite_run (env j l))
        \<and> ex = (\<lambda>j l. Execute st sha256 maxSide maxPixels j (env j l)))"

lemma program_execution_facts:
  assumes "program_execution ex"
  shows "tables_ok (w_db w) \<Longrightarrow> tables_ok (w_db (snd (ex j l w)))"
    "ex j l w = (Inr (), w') \<Longrightarrow> job_settled (j_id j) (w_db w')"
  using assms by (auto simp: program_execution_def intro: Execute_keeps Execute_settles)

lemma RunJob_keeps:
  assumes "tables_ok (w_db w)" and "program_execution (we_execute env)"
  shows "tables_ok (w_db (snd (RunJob st cd owner env jid w)))"
proof -
  obtain r w1 where c: "on_db (ClaimJob st jid owner (we_claim_now env) (we_exhausted_now env) (we_fail_version_at env)
        (we_fail_job_at env) (we_explain_now env)) w = (r, w1)" by (metis prod.exhaust)
  have ok1: "tables_ok (w_db w1)" using on_db_eqD [OF c] tables_ok_ClaimJob [OF assms(1)] by (metis snd_conv)
  show ?thesis
  proof (cases r)
    case (Inl e)
    then show ?thesis using c ok1 by (simp add: RunJob_def)
  next
    case (Inr x)
    obtain cl lease where x: "x = (cl, lease)" by (cases x)
    obtain res w2 where e: "we_execute env (cl_job cl) lease w1 = (res, w2)" by (metis prod.exhaust)
    have ok2: "tables_ok (w_db w2)" using program_execution_facts(1) [OF assms(2) ok1] e by (metis snd_conv)
    have "tables_ok (w_db w3)"
      if "on_db (SettleExecutionFailure st cd a b k h n t1 t2) w2 = (y, w3)" for a b k h n t1 t2 y w3
      using on_db_eqD [OF that] tables_ok_SettleExecutionFailure [OF ok2] by (metis snd_conv)
    then show ?thesis using c Inr x e ok2 by (auto simp: RunJob_def split: sum.split prod.split)
  qed
qed

lemma claimed_job_id:
  assumes "ClaimJob st jid owner now now2 t1 t2 now3 db = (Inr (c, held), db')"
  shows "j_id (cl_job c) = jid"
  using assms
  by (elim ClaimJob_InrD) (auto simp: claimed_of_def claim_row_def claimable_def split: option.splits bool.splits)

lemma RunJob_settles:
  assumes "tables_ok (w_db w)" and "program_execution (we_execute env)"
    and "RunJob st cd owner env jid w = (r, w')" and "r = Inr () \<or> r = Inl ErrJobSettled"
  shows "job_settled jid (w_db w')"
proof -
  let ?t = "ClaimJob st jid owner (we_claim_now env) (we_exhausted_now env) (we_fail_version_at env)
        (we_fail_job_at env) (we_explain_now env)"
  obtain q w1 where c: "on_db ?t w = (q, w1)" by (metis prod.exhaust)
  note cd = on_db_eqD [OF c, THEN conjunct1]
  show ?thesis
  proof (cases q)
    case (Inl e)
    then have "w' = w1" "r = Inl (classifyClaimFailure e)" using c assms(3) by (auto simp: RunJob_def)
    then have "e = ErrJobTerminal \<or> e = ErrJobIsolated \<or> e = ErrJobSettled"
      using assms(4) by (auto simp: classifyClaimFailure_def split: if_splits)
    moreover have "e \<noteq> ErrJobSettled"
      using ClaimJob_errors [OF cd [unfolded Inl]] explainRefusal_cases [of st jid "we_explain_now env" "w_db w"]
      by (auto simp: check_violation_def)
    ultimately show ?thesis
      using ClaimJob_terminal_settled [OF assms(1) cd [unfolded Inl]] \<open>w' = w1\<close> by blast
  next
    case q: (Inr x)
    obtain cl lease where x: "x = (cl, lease)" by (cases x)
    have id: "j_id (cl_job cl) = jid" by (rule claimed_job_id [OF cd [unfolded q x]])
    obtain res w2 where e: "we_execute env (cl_job cl) lease w1 = (res, w2)" by (metis prod.exhaust)
    show ?thesis
    proof (cases res)
      case (Inl f)
      obtain y w3 where z: "on_db (SettleExecutionFailure st cd (we_event env) (we_traceparent env) (cl_job cl)
          (we_lease env) (we_settle_now env) (we_t1 env) (we_t2 env)) w2 = (y, w3)" by (metis prod.exhaust)
      have lost: "\<not> we_lost env" using assms(3,4) c q x e by (auto simp: RunJob_def)
      then have run: "RunJob st cd owner env jid w
          = (case y of Inl g \<Rightarrow> (Inl g, w3) | Inr settled \<Rightarrow> if \<not> settled then (Inl ErrLeaseLost, w3) else (Inr (), w3))"
        using c q x e z Inl by (simp add: RunJob_def split: sum.splits)
      have "y = Inr True \<and> w' = w3"
      proof (cases y)
        case (Inl g)
        then have "r = Inl g" using run assms(3) by simp
        then have "g = ErrJobSettled" using assms(4) by simp
        then show ?thesis using SettleExecutionFailure_errors on_db_eqD [OF z] Inl by blast
      next
        case (Inr settled)
        then show ?thesis using run assms(3,4) by (auto split: if_splits)
      qed
      then show ?thesis using SettleExecutionFailure_settles on_db_eqD [OF z] id by metis
    next
      case (Inr u)
      then show ?thesis using assms(3,4) c q x e id program_execution_facts(2) [OF assms(2)]
        by (auto simp: RunJob_def split: if_splits)
    qed
  qed
qed

section \<open>Offsets are committed for settled records only\<close>

text \<open>
  A record is settled when a dead letter with its identity is published, or when the job it names has
  its verdict or waits for another event.
\<close>

definition record_settled :: "codec \<Rightarrow> (string \<Rightarrow> nat list) \<Rightarrow> kafka_record \<Rightarrow> 's world \<Rightarrow> bool" where
  "record_settled cd sha256 r w \<longleftrightarrow>
     (\<exists>d\<in>set (w_dead_letters w). \<exists>reason. dl_key d = quarantineID sha256 r reason)
     \<or> (\<exists>env p. Envelope_Parse cd (kr_value r) [MediaSchemaVersion] = Inr env \<and> Media_Parse cd env = Inr p
          \<and> job_settled (pl_job p) (w_db w))"

text \<open>The deliveries of the program: the worker's own runs and isolations.\<close>

definition worker_honest ::
  "codec \<Rightarrow> (string \<Rightarrow> nat list) \<Rightarrow> (int \<Rightarrow> kafka_record \<Rightarrow> 's world \<Rightarrow> (outcome \<times> media_error option) \<times> 's world) \<Rightarrow> bool"
where
  "worker_honest cd sha256 deliver \<longleftrightarrow>
     (\<exists>st owner envs isolations clock. (\<forall>i. program_execution (we_execute (envs i)))
        \<and> deliver = worker_deliver st cd sha256 owner envs isolations clock)"

lemma notification_apply_keeps:
  assumes "tables_ok (w_db w)" and "program_execution (we_execute wenv)"
  shows "tables_ok (w_db (snd (notification_apply cd verifier (RunJob st cd owner wenv) env w)))"
  using assms(1) RunJob_keeps [OF assms]
  by (auto simp: notification_apply_def split: sum.split prod.split) (metis snd_conv)+

lemma DeadLetter_Isolate_keeps:
  assumes "tables_ok (w_db w)"
  shows "tables_ok (w_db (snd (DeadLetter_Isolate cd ienv q w)))"
proof -
  have i: "tables_ok (w_db w1)" if "on_db (IsolateNotification jid now) w = (x, w1)" for jid now x w1
    using on_db_eqD [OF that] tables_ok_IsolateNotification [OF assms] by (metis snd_conv)
  show ?thesis using assms i
    by (auto simp: DeadLetter_Isolate_def Let_def split: sum.split prod.split option.split)
qed

lemma DeadLetter_Isolate_InrD:
  assumes "DeadLetter_Isolate cd ienv q w = (Inr u, w')"
  shows "\<exists>d\<in>set (w_dead_letters w'). dl_key d = q_id q"
  using assms by (auto simp: DeadLetter_Isolate_def Let_def split: sum.splits prod.splits option.splits if_splits)

lemma notification_apply_settles:
  assumes "tables_ok (w_db w)" and "program_execution (we_execute wenv)"
    and "notification_apply cd verifier (RunJob st cd owner wenv) env w = (t, w')"
    and "t = Inr () \<or> t = Inl ErrAlreadyApplied"
  shows "\<exists>p. Media_Parse cd env = Inr p \<and> job_settled (pl_job p) (w_db w')"
proof (cases "Media_Parse cd env")
  case (Inl e)
  then show ?thesis using assms(3,4) by (auto simp: notification_apply_def)
next
  case (Inr p)
  obtain r w1 where r: "RunJob st cd owner wenv (pl_job p) w = (r, w1)" by (metis prod.exhaust)
  have "w' = w1 \<and> (r = Inr () \<or> r = Inl ErrJobSettled)"
    using assms(3,4) Inr r by (auto simp: notification_apply_def split: sum.splits if_splits)
  then show ?thesis using RunJob_settles [OF assms(1,2) r] Inr by blast
qed

interpretation worker: delivery_contract "\<lambda>w. tables_ok (w_db w)" "record_settled cd sha256" "worker_honest cd sha256"
  for cd sha256
proof
  fix deliver :: "int \<Rightarrow> kafka_record \<Rightarrow> 'a world \<Rightarrow> (outcome \<times> media_error option) \<times> 'a world" and s :: "'a world" and i r
  assume h: "worker_honest cd sha256 deliver" and ok: "tables_ok (w_db s)"
  then obtain st owner envs isolations clock where exs: "\<forall>i. program_execution (we_execute (envs i))"
    and d: "deliver = worker_deliver st cd sha256 owner envs isolations clock" unfolding worker_honest_def by blast
  then have ex: "program_execution (we_execute (envs i))" by blast
  show "tables_ok (w_db (snd (deliver i r s)))"
    unfolding d worker_deliver_def
    by (rule Deliver_inv [where good = "\<lambda>w. tables_ok (w_db w)"])
      (simp_all add: ok notification_apply_keeps [OF ok ex] DeadLetter_Isolate_keeps)
  fix e s'
  assume c: "deliver i r s = ((CommitOffset, e), s')"
  have q: "q_id (quarantined_of cd sha256 worker_options (clock i) r reason identity) = quarantineID sha256 r reason"
    for reason identity by (simp add: quarantined_of_def)
  from c show "record_settled cd sha256 r s'" unfolding d worker_deliver_def
  proof (cases rule: Deliver_CommitE)
    case (applied env t)
    then show ?thesis using notification_apply_settles [OF ok ex applied(3,4)]
      by (auto simp: record_settled_def worker_options_def)
  next
    case (isolated reason identity)
    then show ?thesis using DeadLetter_Isolate_InrD [OF isolated] q by (auto simp: record_settled_def)
  next
    case (poisoned env f s1 reason)
    then show ?thesis using DeadLetter_Isolate_InrD [OF poisoned(2)] q by (auto simp: record_settled_def)
  qed
qed

text \<open>C8: The worker commits offsets in order and only for settled records: whatever the fetches, the other
  processes and the broker do, the records whose offsets are committed are the first ones fetched, in
  their order, and when each is committed either a dead letter with its identity is published, or the
  job it names is completed or failed, or that job is queued with an event still to be published. The
  constraints of the tables hold at the end.\<close>

theorem offsets_follow_settlement:
  assumes "Run maxAttempts fs [] w = ((err, committed), w')" and "tables_ok (w_db w)"
    and "all_honest (worker_honest cd sha256) fs"
  shows "tables_ok (w_db w') \<and> map fst committed = take (length committed) (fetched_records fs)
    \<and> (\<forall>(r, t)\<in>set committed. record_settled cd sha256 r t)"
  using worker.run_steps [OF assms(3,2,1)] by auto

section \<open>How often a record is delivered\<close>

definition counted ::
  "(int \<Rightarrow> kafka_record \<Rightarrow> 's \<Rightarrow> (outcome \<times> media_error option) \<times> 's)
   \<Rightarrow> int \<Rightarrow> kafka_record \<Rightarrow> 's \<times> int \<Rightarrow> (outcome \<times> media_error option) \<times> ('s \<times> int)"
where
  "counted deliver i r sn = (case deliver i r (fst sn) of (x, s') \<Rightarrow> (x, (s', snd sn + 1)))"

lemma deliver_counted:
  "deliverUntilCommittable deliver maxAttempts stopped paused r attempt s = (verdict, s') \<Longrightarrow>
     1 \<le> attempt \<Longrightarrow> attempt \<le> max 1 maxAttempts \<Longrightarrow>
     \<exists>k. deliverUntilCommittable (counted deliver) maxAttempts stopped paused r attempt (s, n) = (verdict, (s', k))
       \<and> n + 1 \<le> k \<and> k \<le> n + 1 + (max 1 maxAttempts - attempt)
       \<and> (\<forall>e. verdict = ErrDeliveryStalled e \<longrightarrow> k = n + 1 + (max 1 maxAttempts - attempt))"
proof (induction deliver maxAttempts stopped paused r attempt s arbitrary: n rule: deliverUntilCommittable.induct)
  case (1 deliver maxAttempts stopped paused r attempt s)
  obtain oc e s1 where d: "deliver attempt r s = ((oc, e), s1)" by (metis prod.exhaust)
  have dc: "counted deliver attempt r (s, n) = ((oc, e), (s1, n + 1))" using d by (simp add: counted_def)
  note eq = deliverUntilCommittable.simps [of deliver maxAttempts stopped paused r attempt s]
    deliverUntilCommittable.simps [of "counted deliver" maxAttempts stopped paused r attempt "(s, n)"]
  show ?case
  proof (cases "oc = LeaveUncommitted \<and> \<not> stopped attempt \<and> attempt < maxAttempts \<and> paused attempt = Elapsed")
    case True
    then have "deliverUntilCommittable deliver maxAttempts stopped paused r (attempt + 1) s1 = (verdict, s')"
      using "1.prems"(1) d eq(1) by simp
    moreover have "1 \<le> attempt + 1" "attempt + 1 \<le> max 1 maxAttempts" using True "1.prems"(2) by auto
    ultimately
    obtain k where "deliverUntilCommittable (counted deliver) maxAttempts stopped paused r (attempt + 1) (s1, n + 1)
        = (verdict, (s', k))" "n + 1 + 1 \<le> k" "k \<le> n + 1 + 1 + (max 1 maxAttempts - (attempt + 1))"
      "\<forall>e. verdict = ErrDeliveryStalled e \<longrightarrow> k = n + 1 + 1 + (max 1 maxAttempts - (attempt + 1))"
      using "1.IH" [OF d [symmetric] refl, of "n + 1"] True by auto
    then show ?thesis using True dc eq(2) by (intro exI [of _ k]) auto
  next
    case False
    then show ?thesis using "1.prems" d dc eq
      by (intro exI [of _ "n + 1"]) (auto split: outcome.splits if_splits pause.splits)
  qed
qed

text \<open>The redelivery of a record ends: the reader delivers a fetched record at least once and at most as
  often as its limit says, and it gives up on it as stalled only after exactly that many attempts.\<close>

theorem delivery_attempts_bounded:
  assumes "1 \<le> maxAttempts"
  shows "\<exists>verdict s' k. deliverUntilCommittable (counted deliver) maxAttempts stopped paused r 1 (s, 0) = (verdict, (s', k))
    \<and> deliverUntilCommittable deliver maxAttempts stopped paused r 1 s = (verdict, s')
    \<and> 1 \<le> k \<and> k \<le> maxAttempts \<and> (\<forall>e. verdict = ErrDeliveryStalled e \<longrightarrow> k = maxAttempts)"
proof -
  obtain verdict s' where d: "deliverUntilCommittable deliver maxAttempts stopped paused r 1 s = (verdict, s')"
    by (metis prod.exhaust)
  show ?thesis using deliver_counted [OF d, of 0] d assms by auto
qed

section \<open>Records the reader can never commit\<close>

lemma always_uncommitted_stalls:
  assumes "\<And>i. attempt \<le> i \<Longrightarrow> deliver i r s = ((LeaveUncommitted, e), s)"
    and "\<And>i. \<not> stopped i" "\<And>i. paused i = Elapsed"
  shows "deliverUntilCommittable deliver maxAttempts stopped paused r attempt s = (ErrDeliveryStalled e, s)"
  using assms
proof (induction deliver maxAttempts stopped paused r attempt s rule: deliverUntilCommittable.induct)
  case (1 deliver maxAttempts stopped paused r attempt s)
  have d: "deliver attempt r s = ((LeaveUncommitted, e), s)" using "1.prems"(1) by simp
  show ?case
  proof (cases "attempt < maxAttempts")
    case True
    then have "deliverUntilCommittable deliver maxAttempts stopped paused r (attempt + 1) s = (ErrDeliveryStalled e, s)"
      by (intro "1.IH" [OF d [symmetric] refl refl]) (use True "1.prems" in auto)
    then show ?thesis using True d "1.prems"(2,3) [of attempt] deliverUntilCommittable.simps [of deliver maxAttempts stopped paused r attempt s]
      by simp
  next
    case False
    then show ?thesis using d "1.prems"(2,3) [of attempt] deliverUntilCommittable.simps [of deliver maxAttempts stopped paused r attempt s]
      by simp
  qed
qed

lemma refused_claim_uncommitted:
  assumes "ClaimJob st (pl_job p) owner (we_claim_now wenv) (we_exhausted_now wenv) (we_fail_version_at wenv)
      (we_fail_job_at wenv) (we_explain_now wenv) (w_db w) = (Inl e, w_db w)"
    and "classifyClaimFailure e \<noteq> ErrJobSettled" "classifyClaimFailure e \<noteq> ErrJobNotFound"
    and "Media_Parse cd env = Inr p" "VerifyNotification (env_OrgID env) p (w_db w) = Inr ()"
    and "int (length (kr_value r)) \<le> int MaxRecordBytes"
    and "Envelope_Parse cd (kr_value r) [MediaSchemaVersion] = Inr env" "classify_record cd worker_options r env = None"
  shows "Deliver cd sha256 worker_options (notification_apply cd (Some VerifyNotification) (RunJob st cd owner wenv))
      quarantine now r w = ((LeaveUncommitted, Some (classifyClaimFailure e)), w)"
proof -
  have "RunJob st cd owner wenv (pl_job p) w = (Inl (classifyClaimFailure e), w)"
    using assms(1) by (simp add: RunJob_def on_db_def)
  then have "notification_apply cd (Some VerifyNotification) (RunJob st cd owner wenv) env w
      = (Inl (Transient (classifyClaimFailure e)), w)"
    using assms(2-5) by (simp add: notification_apply_def)
  then show ?thesis using assms(6-8)
    by (simp add: Deliver_def worker_options_def PoisonReason_def)
qed

text \<open>C38: A soft-deleted asset stops the consumer: when the asset of a queued job is deleted, nothing settles
  the job, every claim for its notification is refused for no stated reason, the worker treats that
  as transient, and after its last attempt the reader ends with an error without committing the
  offset and without having changed anything; a restarted worker fetches the same record first.\<close>

theorem deleted_asset_stalls_the_reader:
  assumes "tables_ok (w_db w)" and "j \<in> set (jobs (w_db w))" "j_id j = pl_job p" "j_status j = ProcessingJobQueued"
      "j_lease_expires j = None" "j_attempts j < js_attempts st" "\<not> asset_visible (j_asset j) (w_db w)"
    and "int (length (kr_value r)) \<le> int MaxRecordBytes"
      "Envelope_Parse cd (kr_value r) [MediaSchemaVersion] = Inr env" "classify_record cd worker_options r env = None"
      "Media_Parse cd env = Inr p" "VerifyNotification (env_OrgID env) p (w_db w) = Inr ()"
    and "owner \<noteq> []" "\<And>i. j_next_attempt j \<le> we_explain_now (envs i)"
    and "de_deliver denv = worker_deliver st cd sha256 owner envs isolations clock"
      "\<And>i. \<not> de_stopped denv i" "\<And>i. de_paused denv i = Elapsed" "\<not> de_stopping_after denv"
  shows "Run maxAttempts (Fetched r denv # fs) committed w
     = ((Some (DeliveryError (ErrDeliveryStalled (Some ErrJobNotClaimed))), committed), w)"
proof -
  have only: "k = j" if "k \<in> set (jobs (w_db w))" "j_id k = pl_job p" for k
    using job_id_unique [OF assms(1) that(1) assms(2)] that(2) assms(3) by simp
  have fi: "find (\<lambda>k. j_id k = pl_job p) (jobs (w_db w)) = Some j"
    by (rule find_job [OF assms(1,2)]) (use assms(3) in simp_all)
  have iso: "j_isolated_at j = None"
    using tables_ok_checks(4) [OF assms(1,2)] assms(4) by (auto simp: job_check_def)
  have nc: "\<not> claimable st (pl_job p) t (w_db w) k \<and> \<not> exhausted st (pl_job p) u k" if "k \<in> set (jobs (w_db w))" for t u k
    using only [OF that] assms(4,7) by (auto simp: claimable_def exhausted_def)
  have "explainRefusal st (pl_job p) (we_explain_now (envs i)) (w_db w) = ErrJobNotClaimed" for i
    using fi iso assms(4-6) assms(14) [of i] by (simp add: explainRefusal_def lease_free_def)
  then have c: "ClaimJob st (pl_job p) owner (we_claim_now (envs i)) (we_exhausted_now (envs i)) (we_fail_version_at (envs i))
      (we_fail_job_at (envs i)) (we_explain_now (envs i)) (w_db w) = (Inl ErrJobNotClaimed, w_db w)" for i
    using ClaimJob_refused [OF nc assms(13)] by simp
  have cc: "classifyClaimFailure ErrJobNotClaimed = ErrJobNotClaimed" by (simp add: classifyClaimFailure_def)
  have "de_deliver denv i r w = ((LeaveUncommitted, Some ErrJobNotClaimed), w)" for i
    using refused_claim_uncommitted [OF c, unfolded cc, OF _ _ assms(11,12,8-10)]
    by (simp add: assms(15) worker_deliver_def)
  then have "deliverUntilCommittable (de_deliver denv) maxAttempts (de_stopped denv) (de_paused denv) r 1 w
      = (ErrDeliveryStalled (Some ErrJobNotClaimed), w)"
    using assms(16,17) by (intro always_uncommitted_stalls) simp_all
  then show ?thesis using assms(18) by simp
qed

section \<open>Concrete deliveries\<close>

text \<open>The committed demonstration upload: its notification, a worker, and a run that fails once.\<close>

definition demo_event :: envelope where
  "demo_event = \<lparr>EventID = ''e'', EventType = MediaProcessingRequestedEventType, SchemaVersion = 1, Source = ''asset-core'',
     OccurredAt = 7, env_OrgID = ''o'', env_Traceparent = [], env_Raw = ''doc''\<rparr>"

definition demo_event_codec :: codec where
  "demo_event_codec = demo_codec (JObj (record_members demo_event
     \<lparr>pl_asset = ''a'', pl_upload = ''s'', pl_version = ''v'', pl_job = ''j''\<rparr> ''7''))"

definition demo_notification :: kafka_record where
  "demo_notification = \<lparr>kr_topic = ''media'', kr_partition = 0, kr_offset = 4, kr_key = ''j'', kr_value = ''doc''\<rparr>"

definition short_text_digest :: "string \<Rightarrow> nat list" where
  "short_text_digest s = [length s mod 256]"

definition demo_quiet_env :: "bucket run_env" where
  "demo_quiet_env = demo_env\<lparr>re_lease := \<lparr>lease_holder = ''w'', lease_until = 50\<rparr>\<rparr>"

definition demo_worker_env :: "bucket worker_env" where
  "demo_worker_env = \<lparr>we_claim_now = 20, we_exhausted_now = 20, we_fail_version_at = 20, we_fail_job_at = 20,
     we_explain_now = 20,
     we_execute = (\<lambda>j l. Execute (minio_store (memory_client short_digest) demo_minio) short_digest 100 1000 j demo_quiet_env),
     we_lost = False, we_lease = demo_lease, we_event = ''x2'', we_traceparent = [],
     we_settle_now = 33, we_t1 = 34, we_t2 = 35\<rparr>"

definition demo_isolation :: isolation_env where
  "demo_isolation = \<lparr>ie_topic = ''dlq'', ie_canonical = (\<lambda>s. s), ie_now = 20, ie_seconds = format_int,
     ie_stored = None, ie_delivered = True, ie_acknowledged = True\<rparr>"

definition demo_published :: "db \<Rightarrow> db" where
  "demo_published d = d\<lparr>outbox := map (\<lambda>x. x\<lparr>x_status := OutboxPublished, x_published_at := Some 15\<rparr>) (outbox d)\<rparr>"

definition demo_queue_world :: "bucket world" where
  "demo_queue_world = demo_world\<lparr>w_db := demo_published demo_committed_db\<rparr>"

definition demo_deliver :: "int \<Rightarrow> kafka_record \<Rightarrow> bucket world \<Rightarrow> (outcome \<times> media_error option) \<times> bucket world" where
  "demo_deliver = worker_deliver demo_store demo_event_codec short_text_digest ''w'' (\<lambda>_. demo_worker_env)
     (\<lambda>_. demo_isolation) (\<lambda>_. 20)"

definition demo_delivery_env :: "bucket world delivery_env" where
  "demo_delivery_env = \<lparr>de_deliver = demo_deliver, de_stopped = (\<lambda>_. False), de_paused = (\<lambda>_. Elapsed),
     de_stopping_after = False, de_commit_ok = True\<rparr>"

definition demo_reading :: "(reader_error option \<times> (kafka_record \<times> bucket world) list) \<times> bucket world" where
  "demo_reading = Run 5 [Fetched demo_notification demo_delivery_env] [] demo_queue_world"

lemma demo_reading_ok:
  "case fst demo_reading of (err, committed) \<Rightarrow> map fst committed = [demo_notification]
     \<and> list_all (\<lambda>j. j_status j = ProcessingJobCompleted) (jobs (w_db (snd demo_reading)))"
proof -
  have "case demo_reading of (r, w) \<Rightarrow> (case r of (err, committed) \<Rightarrow> map fst committed = [demo_notification]
     \<and> list_all (\<lambda>j. j_status j = ProcessingJobCompleted) (jobs (w_db w)))"
    by code_simp
  then show ?thesis by (simp only: case_prod_beta)
qed

lemma tables_ok_demo_published:
  assumes "tables_ok d"
  shows "tables_ok (demo_published d)"
proof -
  have "demo_published d = d\<lparr>outbox := sql_update (\<lambda>_. True)
      (\<lambda>x. x\<lparr>x_status := OutboxPublished, x_published_at := Some 15\<rparr>) (outbox d)\<rparr>"
    by (simp add: demo_published_def sql_update_def)
  moreover have "tables_ok (d\<lparr>outbox := sql_update (\<lambda>_. True)
      (\<lambda>x. x\<lparr>x_status := OutboxPublished, x_published_at := Some 15\<rparr>) (outbox d)\<rparr>)"
    by (rule tables_ok_update_outbox [OF assms]) (simp_all add: unpublished_def outbox_check_def)
  ultimately show ?thesis by simp
qed

lemma demo_honest: "all_honest (worker_honest demo_event_codec short_text_digest) [Fetched demo_notification demo_delivery_env]"
proof -
  have "program_execution (we_execute demo_worker_env)"
    unfolding program_execution_def demo_worker_env_def
    by (intro exI [of _ "minio_store (memory_client short_digest) demo_minio"] exI [of _ short_digest] exI [of _ 100]
        exI [of _ 1000] exI [of _ "\<lambda>_ _. demo_quiet_env"])
      (simp add: polite_run_def demo_quiet_env_def demo_env_def)
  then have "worker_honest demo_event_codec short_text_digest demo_deliver"
    unfolding worker_honest_def demo_deliver_def
    by (intro exI [of _ demo_store] exI [of _ "''w''"] exI [of _ "\<lambda>_. demo_worker_env"]
        exI [of _ "\<lambda>_. demo_isolation"] exI [of _ "\<lambda>_. 20"]) simp
  then show ?thesis by (simp add: all_honest_def demo_delivery_env_def)
qed

theorem offsets_follow_settlement_witness:
  "\<exists>t. snd (fst demo_reading) = [(demo_notification, t)] \<and> record_settled demo_event_codec short_text_digest demo_notification t"
proof -
  have r: "Run 5 [Fetched demo_notification demo_delivery_env] [] demo_queue_world
      = ((fst (fst demo_reading), snd (fst demo_reading)), snd demo_reading)"
    by (simp add: demo_reading_def)
  have ok: "tables_ok (w_db demo_queue_world)"
    by (simp add: demo_queue_world_def tables_ok_demo_published demo_committed_ok(1))
  have "map fst (snd (fst demo_reading)) = [demo_notification]"
    using demo_reading_ok by (auto split: prod.splits)
  then obtain t where "snd (fst demo_reading) = [(demo_notification, t)]" by (auto simp: map_eq_Cons_conv)
  then show ?thesis using offsets_follow_settlement [OF r ok demo_honest] by auto
qed

theorem delivery_attempts_bounded_witness:
  "\<exists>verdict s' k. deliverUntilCommittable (counted demo_deliver) 5 (\<lambda>_. False) (\<lambda>_. Elapsed) demo_notification 1
       (demo_queue_world, 0) = (verdict, (s', k)) \<and> 1 \<le> k \<and> k \<le> 5"
  using delivery_attempts_bounded [of 5 demo_deliver "\<lambda>_. False" "\<lambda>_. Elapsed" demo_notification demo_queue_world]
  by (metis (no_types, lifting) one_le_numeral)

text \<open>The same notification after the asset was deleted.\<close>

definition demo_deleted_world :: "bucket world" where
  "demo_deleted_world = demo_queue_world\<lparr>w_db := (w_db demo_queue_world)\<lparr>assets :=
     sql_update (\<lambda>_. True) (\<lambda>a. a\<lparr>a_deleted_at := Some 16\<rparr>) (assets (w_db demo_queue_world))\<rparr>\<rparr>"

lemma demo_deleted_facts:
  "list_ex (\<lambda>j. j_id j = ''j'' \<and> j_status j = ProcessingJobQueued \<and> j_lease_expires j = None \<and> j_attempts j < js_attempts demo_store
     \<and> \<not> asset_visible (j_asset j) (w_db demo_deleted_world) \<and> j_next_attempt j \<le> 20) (jobs (w_db demo_deleted_world))"
  "case Envelope_Parse demo_event_codec ''doc'' [MediaSchemaVersion] of Inl _ \<Rightarrow> False | Inr env \<Rightarrow>
     classify_record demo_event_codec worker_options demo_notification env = None
     \<and> (case Media_Parse demo_event_codec env of Inl _ \<Rightarrow> False | Inr p \<Rightarrow>
          pl_job p = ''j'' \<and> is_ok (VerifyNotification (env_OrgID env) p (w_db demo_deleted_world)))"
  by code_simp+

theorem deleted_asset_stalls_the_reader_witness:
  "Run 5 [Fetched demo_notification demo_delivery_env] [] demo_deleted_world
     = ((Some (DeliveryError (ErrDeliveryStalled (Some ErrJobNotClaimed))), []), demo_deleted_world)"
proof -
  have ok: "tables_ok (w_db demo_deleted_world)"
    using tables_ok_update_assets [OF tables_ok_demo_published [OF demo_committed_ok(1)]]
    by (simp add: demo_deleted_world_def demo_queue_world_def)
  obtain env p where e: "Envelope_Parse demo_event_codec ''doc'' [MediaSchemaVersion] = Inr env"
    "classify_record demo_event_codec worker_options demo_notification env = None"
    "Media_Parse demo_event_codec env = Inr p" "pl_job p = ''j''"
    "VerifyNotification (env_OrgID env) p (w_db demo_deleted_world) = Inr ()"
    using demo_deleted_facts(2) by (auto simp: is_ok_iff split: sum.splits)
  obtain j where j: "j \<in> set (jobs (w_db demo_deleted_world))" "j_id j = pl_job p" "j_status j = ProcessingJobQueued"
    "j_lease_expires j = None" "j_attempts j < js_attempts demo_store" "\<not> asset_visible (j_asset j) (w_db demo_deleted_world)"
    "j_next_attempt j \<le> 20"
    using demo_deleted_facts(1) e(4) by (auto simp: list_ex_iff)
  have v: "kr_value demo_notification = ''doc''" "de_deliver demo_delivery_env = demo_deliver"
    "we_explain_now demo_worker_env = 20"
    by (simp_all add: demo_notification_def demo_delivery_env_def demo_worker_env_def)
  show ?thesis
    by (rule deleted_asset_stalls_the_reader [OF ok j(1-6), where env = env and cd = demo_event_codec and owner = "''w''"
          and envs = "\<lambda>_. demo_worker_env" and isolations = "\<lambda>_. demo_isolation" and clock = "\<lambda>_. 20"])
      (use e j v in \<open>simp_all add: MaxRecordBytes_def demo_deliver_def demo_delivery_env_def\<close>)
qed

end
