(* ===== verification/Catalog_Tables.thy ===== *)
theory Catalog_Tables
  imports Go_Lib "HOL-Library.Sublist" "HOL-Library.List_Lexorder" "HOL-Library.Char_ord" "HOL-Library.Product_Lexorder"
begin

text \<open>
  The tables of the asset database behind folders, metadata items and their recycle bin
  (\<open>internal/domain/asset.go\<close>, \<open>lifecycle.go\<close>, \<open>folder_deletion.go\<close>, \<open>internal/repository/visibility.go\<close> and
  \<open>deletion_fence.go\<close>, with the constraints of the migrations V1, V5 to V8, V11 and V12). An \<open>ltree\<close> path is its
  list of labels. Every statement that writes goes through \<open>commit_write\<close>, which fails when the new tables break a
  constraint. The \<open>updated_at\<close> columns other than that of items, which search orders by, are left out, and so are
  the columns of lifecycle jobs that no code writes (trace and preview token).
\<close>

section \<open>Rows\<close>

type_synonym ltree = "string list"

datatype catalog_error =
    ErrFolderNotFound | ErrFolderConflict | ErrFolderNotEmpty | ErrFolderNotDeleted | ErrFolderParentDeleted
  | ErrCycleDetected | ErrMetadataNotFound | ErrMetadataNotDeleted | ErrMetadataFolderDeleted
  | ErrMetadataConflict | ErrCursorInvalid | ErrInvalidInput | ErrDeletionPreviewStale
  | ErrFolderDeletionInProgress | ErrDeletionJobNotFound | ErrDeletionJobNotCancellable
  | ErrRestoreParentDeleted | ErrLifecycleUnitNotFound | ErrLifecycleUnitNotRestorable
  | ErrLifecycleJobNotFound
  | ErrNoRecord | ErrUniqueViolation | ErrCheckViolation | ErrForeignKeyViolation | ErrMessage string

type_synonym 'a reply = "catalog_error + 'a"

datatype resource_type = LifecycleResourceFolder | LifecycleResourceMetadata

datatype unit_state =
    LifecycleDeleteQueued | LifecycleDeleting | LifecycleDeleted | LifecycleRestoreQueued | LifecycleRestoring
  | LifecycleRestored | LifecyclePurgeQueued | LifecyclePurging | LifecycleFailed | LifecyclePurged

datatype lifecycle_operation = LifecycleJobDelete | LifecycleJobRestore | LifecycleJobPurge

datatype lifecycle_status =
    LifecycleJobPreviewed | LifecycleJobQueued | LifecycleJobRunning | LifecycleJobSucceeded | LifecycleJobFailed
  | LifecycleJobSuppressed

datatype initiator_type = LifecycleJobInitiatorUser | LifecycleJobInitiatorSystem

datatype deletion_status =
    FolderDeletionPreviewed | FolderDeletionQueued | FolderDeletionRunning | FolderDeletionSucceeded
  | FolderDeletionFailed | FolderDeletionCancelled

record folder =
  fd_id :: string
  fd_org :: string
  fd_path :: ltree
  fd_name :: string
  fd_description :: "string option"
  fd_created_by :: string
  fd_updated_by :: "string option"
  fd_deleted_at :: "instant option"
  fd_unit :: "string option"

record item =
  it_id :: string
  it_folder :: string
  it_title :: string
  it_description :: "string option"
  it_labels :: "string list"
  it_category :: "string option"
  it_external_source :: "string option"
  it_external_id :: "string option"
  it_source_url :: "string option"
  it_thumbnail_url :: "string option"
  it_license :: "string option"
  it_author :: "string option"
  it_json :: "string"
  it_notes :: "string option"
  it_created_by :: string
  it_updated_by :: "string option"
  it_created_at :: instant
  it_updated_at :: instant
  it_deleted_at :: "instant option"
  it_unit :: "string option"

record unit_row =
  lu_id :: string
  lu_org :: string
  lu_type :: resource_type
  lu_root :: string
  lu_path :: ltree
  lu_parent_path :: "ltree option"
  lu_folder :: "string option"
  lu_state :: unit_state
  lu_requested_by :: string
  lu_delete_completed_at :: "instant option"
  lu_retention_until :: "instant option"
  lu_created_at :: instant

text \<open>The JSON objects stored as checkpoints: absent fields read as zero, as \<open>json.Unmarshal\<close> leaves them.\<close>

record checkpoint =
  cp_root_closed :: bool
  cp_metadata_batches :: int
  cp_metadata_rows :: int
  cp_folder_batches :: int
  cp_folder_rows :: int

definition empty_checkpoint :: checkpoint where
  "empty_checkpoint = \<lparr>cp_root_closed = False, cp_metadata_batches = 0, cp_metadata_rows = 0,
     cp_folder_batches = 0, cp_folder_rows = 0\<rparr>"

record lifecycle_job =
  lj_id :: string
  lj_org :: string
  lj_unit :: "string option"
  lj_legacy :: "string option"
  lj_type :: resource_type
  lj_root :: string
  lj_root_folder :: string
  lj_path :: ltree
  lj_initiator :: initiator_type
  lj_requested_by :: "string option"
  lj_operation :: lifecycle_operation
  lj_status :: lifecycle_status
  lj_checkpoint :: checkpoint
  lj_attempts :: int
  lj_next_run :: "instant option"
  lj_lease_owner :: "string option"
  lj_lease_expires :: "instant option"
  lj_failure_code :: "string option"
  lj_queued_at :: "instant option"
  lj_started_at :: "instant option"
  lj_completed_at :: "instant option"
  lj_created_at :: instant

record deletion_job =
  dj_id :: string
  dj_org :: string
  dj_root :: string
  dj_path :: ltree
  dj_requested_by :: string
  dj_status :: deletion_status
  dj_token_hash :: "nat list option"
  dj_preview_expires :: "instant option"
  dj_active_folders :: int
  dj_active_metadata :: int
  dj_tombstone_folders :: int
  dj_tombstone_metadata :: int
  dj_deleted_folders :: int
  dj_deleted_metadata :: int
  dj_attempts :: int
  dj_manual_retries :: int
  dj_next_run :: "instant option"
  dj_lease_owner :: "string option"
  dj_lease_expires :: "instant option"
  dj_last_error :: "string option"
  dj_queued_at :: "instant option"
  dj_started_at :: "instant option"
  dj_completed_at :: "instant option"
  dj_cancelled_at :: "instant option"
  dj_created_at :: instant

definition TotalRows :: "deletion_job \<Rightarrow> int" where
  "TotalRows j = dj_active_folders j + dj_active_metadata j + dj_tombstone_folders j + dj_tombstone_metadata j"

record catalog =
  c_orgs :: "string list"
  c_users :: "string list"
  c_folders :: "folder list"
  c_items :: "item list"
  c_units :: "unit_row list"
  c_jobs :: "lifecycle_job list"
  c_djobs :: "deletion_job list"

definition FolderDeletionMetadataBatchSize :: nat where "FolderDeletionMetadataBatchSize = 1000"
definition FolderDeletionFolderBatchSize :: nat where "FolderDeletionFolderBatchSize = 100"
definition FolderDeletionLeaseDuration :: duration where "FolderDeletionLeaseDuration = 30 * second"
definition FolderDeletionPreviewTTL :: duration where "FolderDeletionPreviewTTL = 15 * minute"
definition FolderDeletionMaxAttempts :: int where "FolderDeletionMaxAttempts = 4"

section \<open>Constraints\<close>

text \<open>\<open>btrim\<close> removes spaces only.\<close>

definition nonblank :: "string \<Rightarrow> bool" where
  "nonblank s \<longleftrightarrow> list_ex (\<lambda>c. c \<noteq> CHR '' '') s"

text \<open>A \<open>varchar(n)\<close> column holds at most \<open>n\<close> characters.\<close>

definition varchar :: "nat \<Rightarrow> string \<Rightarrow> bool" where
  "varchar n s \<longleftrightarrow> length (string_runes s) \<le> n"

definition varchar_opt :: "nat \<Rightarrow> string option \<Rightarrow> bool" where
  "varchar_opt n x \<longleftrightarrow> (case x of None \<Rightarrow> True | Some s \<Rightarrow> varchar n s)"

definition folder_active :: "folder \<Rightarrow> bool" where
  "folder_active f \<longleftrightarrow> fd_deleted_at f = None"

definition item_active :: "item \<Rightarrow> bool" where
  "item_active x \<longleftrightarrow> it_deleted_at x = None"

definition folder_check :: "folder \<Rightarrow> bool" where
  "folder_check f \<longleftrightarrow> nonblank (fd_name f) \<and> varchar 255 (fd_name f)"

definition folder_conflict :: "folder \<Rightarrow> folder \<Rightarrow> bool" where
  "folder_conflict f g \<longleftrightarrow> fd_id f = fd_id g
     \<or> (folder_active f \<and> folder_active g \<and> fd_org f = fd_org g
        \<and> (fd_path f = fd_path g \<or> (butlast (fd_path f) = butlast (fd_path g) \<and> fd_name f = fd_name g)))"

definition item_check :: "item \<Rightarrow> bool" where
  "item_check x \<longleftrightarrow> nonblank (it_title x) \<and> varchar 255 (it_title x)
     \<and> (it_external_source x = None \<longleftrightarrow> it_external_id x = None)
     \<and> varchar_opt 100 (it_category x) \<and> varchar_opt 100 (it_external_source x) \<and> varchar_opt 255 (it_external_id x)
     \<and> varchar_opt 255 (it_license x) \<and> varchar_opt 255 (it_author x)"

definition item_conflict :: "item \<Rightarrow> item \<Rightarrow> bool" where
  "item_conflict x y \<longleftrightarrow> it_id x = it_id y
     \<or> (item_active x \<and> item_active y \<and> it_external_source x \<noteq> None \<and> it_external_id x \<noteq> None
        \<and> it_external_source x = it_external_source y \<and> it_external_id x = it_external_id y)"

definition unit_live :: "unit_row \<Rightarrow> bool" where
  "unit_live u \<longleftrightarrow> lu_state u \<noteq> LifecycleRestored \<and> lu_state u \<noteq> LifecyclePurged"

definition unit_check :: "unit_row \<Rightarrow> bool" where
  "unit_check u \<longleftrightarrow> (lu_type u = LifecycleResourceFolder \<longleftrightarrow> lu_folder u = None)"

definition unit_conflict :: "unit_row \<Rightarrow> unit_row \<Rightarrow> bool" where
  "unit_conflict u v \<longleftrightarrow> lu_id u = lu_id v
     \<or> (unit_live u \<and> unit_live v \<and> lu_org u = lu_org v \<and> lu_type u = lu_type v \<and> lu_root u = lu_root v)"

definition job_open :: "lifecycle_job \<Rightarrow> bool" where
  "job_open j \<longleftrightarrow> lj_status j = LifecycleJobQueued \<or> lj_status j = LifecycleJobRunning"

text \<open>A previewed job needs a token hash, and nothing writes one, so no row of this table is previewed.\<close>

definition lifecycle_job_check :: "lifecycle_job \<Rightarrow> bool" where
  "lifecycle_job_check j \<longleftrightarrow> 0 \<le> lj_attempts j \<and> lj_status j \<noteq> LifecycleJobPreviewed \<and> lj_unit j \<noteq> None
     \<and> (lj_lease_owner j \<noteq> None \<longleftrightarrow> lj_status j = LifecycleJobRunning)
     \<and> (lj_lease_expires j \<noteq> None \<longleftrightarrow> lj_status j = LifecycleJobRunning)
     \<and> (lj_initiator j = LifecycleJobInitiatorUser \<longleftrightarrow> lj_requested_by j \<noteq> None)"

definition lifecycle_job_conflict :: "lifecycle_job \<Rightarrow> lifecycle_job \<Rightarrow> bool" where
  "lifecycle_job_conflict j k \<longleftrightarrow> lj_id j = lj_id k
     \<or> (job_open j \<and> job_open k \<and> lj_unit j \<noteq> None \<and> lj_unit j = lj_unit k)
     \<or> (lj_legacy j \<noteq> None \<and> lj_legacy j = lj_legacy k)"

definition deletion_job_check :: "deletion_job \<Rightarrow> bool" where
  "deletion_job_check j \<longleftrightarrow> 0 \<le> dj_active_folders j \<and> 0 \<le> dj_active_metadata j \<and> 0 \<le> dj_tombstone_folders j
     \<and> 0 \<le> dj_tombstone_metadata j \<and> 0 \<le> dj_deleted_folders j \<and> 0 \<le> dj_deleted_metadata j
     \<and> 0 \<le> dj_attempts j \<and> 0 \<le> dj_manual_retries j"

definition deletion_job_conflict :: "deletion_job \<Rightarrow> deletion_job \<Rightarrow> bool" where
  "deletion_job_conflict j k \<longleftrightarrow> dj_id j = dj_id k"

definition rows_unique :: "('r \<Rightarrow> 'r \<Rightarrow> bool) \<Rightarrow> 'r list \<Rightarrow> bool" where
  "rows_unique k rs \<longleftrightarrow> sorted_wrt (\<lambda>r s. \<not> k r s) rs"

definition in_opt :: "'a option \<Rightarrow> 'a list \<Rightarrow> bool" where
  "in_opt x xs \<longleftrightarrow> (case x of None \<Rightarrow> True | Some y \<Rightarrow> y \<in> set xs)"

definition unique_ok :: "catalog \<Rightarrow> bool" where
  "unique_ok d \<longleftrightarrow> rows_unique folder_conflict (c_folders d) \<and> rows_unique item_conflict (c_items d)
     \<and> rows_unique unit_conflict (c_units d) \<and> rows_unique lifecycle_job_conflict (c_jobs d)
     \<and> rows_unique deletion_job_conflict (c_djobs d)"

definition checks_ok :: "catalog \<Rightarrow> bool" where
  "checks_ok d \<longleftrightarrow> list_all folder_check (c_folders d) \<and> list_all item_check (c_items d)
     \<and> list_all unit_check (c_units d) \<and> list_all lifecycle_job_check (c_jobs d)
     \<and> list_all deletion_job_check (c_djobs d)"

definition folder_refs :: "catalog \<Rightarrow> folder \<Rightarrow> bool" where
  "folder_refs d f \<longleftrightarrow> fd_org f \<in> set (c_orgs d) \<and> fd_created_by f \<in> set (c_users d)
     \<and> in_opt (fd_updated_by f) (c_users d) \<and> in_opt (fd_unit f) (map lu_id (c_units d))"

definition item_refs :: "catalog \<Rightarrow> item \<Rightarrow> bool" where
  "item_refs d x \<longleftrightarrow> it_folder x \<in> set (map fd_id (c_folders d)) \<and> it_created_by x \<in> set (c_users d)
     \<and> in_opt (it_updated_by x) (c_users d) \<and> in_opt (it_unit x) (map lu_id (c_units d))"

definition unit_refs :: "catalog \<Rightarrow> unit_row \<Rightarrow> bool" where
  "unit_refs d u \<longleftrightarrow> lu_org u \<in> set (c_orgs d) \<and> lu_requested_by u \<in> set (c_users d)"

definition lifecycle_job_refs :: "catalog \<Rightarrow> lifecycle_job \<Rightarrow> bool" where
  "lifecycle_job_refs d j \<longleftrightarrow> lj_org j \<in> set (c_orgs d) \<and> in_opt (lj_requested_by j) (c_users d)
     \<and> in_opt (lj_legacy j) (map dj_id (c_djobs d))
     \<and> (case lj_unit j of None \<Rightarrow> True | Some u \<Rightarrow> (u, lj_org j) \<in> set (map (\<lambda>r. (lu_id r, lu_org r)) (c_units d)))"

definition deletion_job_refs :: "catalog \<Rightarrow> deletion_job \<Rightarrow> bool" where
  "deletion_job_refs d j \<longleftrightarrow> dj_org j \<in> set (c_orgs d) \<and> dj_requested_by j \<in> set (c_users d)"

definition references_ok :: "catalog \<Rightarrow> bool" where
  "references_ok d \<longleftrightarrow> list_all (folder_refs d) (c_folders d) \<and> list_all (item_refs d) (c_items d)
     \<and> list_all (unit_refs d) (c_units d) \<and> list_all (lifecycle_job_refs d) (c_jobs d)
     \<and> list_all (deletion_job_refs d) (c_djobs d)"

definition catalog_ok :: "catalog \<Rightarrow> bool" where
  "catalog_ok d \<longleftrightarrow> unique_ok d \<and> checks_ok d \<and> references_ok d"

definition commit_write :: "catalog \<Rightarrow> catalog reply" where
  "commit_write d =
     (if \<not> checks_ok d then Inl ErrCheckViolation
      else if \<not> unique_ok d then Inl ErrUniqueViolation
      else if \<not> references_ok d then Inl ErrForeignKeyViolation
      else Inr d)"

lemma commit_write_Inr [simp]: "commit_write d = Inr d' \<longleftrightarrow> d' = d \<and> catalog_ok d"
  by (auto simp: commit_write_def catalog_ok_def)

lemma commit_write_ok: "catalog_ok d \<Longrightarrow> commit_write d = Inr d"
  by (simp add: commit_write_def catalog_ok_def)

section \<open>Statements\<close>

definition on_folders :: "(folder list \<Rightarrow> folder list) \<Rightarrow> catalog \<Rightarrow> catalog reply" where
  "on_folders f d = commit_write (d\<lparr>c_folders := f (c_folders d)\<rparr>)"

definition on_items :: "(item list \<Rightarrow> item list) \<Rightarrow> catalog \<Rightarrow> catalog reply" where
  "on_items f d = commit_write (d\<lparr>c_items := f (c_items d)\<rparr>)"

definition on_units :: "(unit_row list \<Rightarrow> unit_row list) \<Rightarrow> catalog \<Rightarrow> catalog reply" where
  "on_units f d = commit_write (d\<lparr>c_units := f (c_units d)\<rparr>)"

definition on_jobs :: "(lifecycle_job list \<Rightarrow> lifecycle_job list) \<Rightarrow> catalog \<Rightarrow> catalog reply" where
  "on_jobs f d = commit_write (d\<lparr>c_jobs := f (c_jobs d)\<rparr>)"

definition on_djobs :: "(deletion_job list \<Rightarrow> deletion_job list) \<Rightarrow> catalog \<Rightarrow> catalog reply" where
  "on_djobs f d = commit_write (d\<lparr>c_djobs := f (c_djobs d)\<rparr>)"

text \<open>\<open>tx.Save\<close> writes every column of the row with the primary key.\<close>

definition save_job :: "lifecycle_job \<Rightarrow> catalog \<Rightarrow> catalog reply" where
  "save_job j d = on_jobs (sql_update (\<lambda>r. lj_id r = lj_id j) (\<lambda>_. j)) d"

definition save_djob :: "deletion_job \<Rightarrow> catalog \<Rightarrow> catalog reply" where
  "save_djob j d = on_djobs (sql_update (\<lambda>r. dj_id r = dj_id j) (\<lambda>_. j)) d"

text \<open>\<open>INSERT ... ON CONFLICT DO NOTHING\<close> into the shadow tables.\<close>

definition ensure_user :: "string \<Rightarrow> catalog \<Rightarrow> catalog" where
  "ensure_user u d = (if u \<in> set (c_users d) then d else d\<lparr>c_users := c_users d @ [u]\<rparr>)"

definition ensure_org :: "string \<Rightarrow> catalog \<Rightarrow> catalog" where
  "ensure_org g d = (if g \<in> set (c_orgs d) then d else d\<lparr>c_orgs := c_orgs d @ [g]\<rparr>)"

definition EnsureRefs :: "string \<Rightarrow> string \<Rightarrow> catalog \<Rightarrow> catalog" where
  "EnsureRefs user org d = ensure_org org (ensure_user user d)"

section \<open>Visibility\<close>

text \<open>\<open>path <@ root\<close>: the path is the root or below it.\<close>

definition below :: "ltree \<Rightarrow> ltree \<Rightarrow> bool" where
  "below p root \<longleftrightarrow> prefix root p"

definition deleted_ancestor :: "folder list \<Rightarrow> folder \<Rightarrow> bool" where
  "deleted_ancestor fs f \<longleftrightarrow> list_ex (\<lambda>a. fd_org a = fd_org f \<and> \<not> folder_active a \<and> below (fd_path f) (fd_path a)) fs"

definition visible_folder :: "catalog \<Rightarrow> folder \<Rightarrow> bool" where
  "visible_folder d f \<longleftrightarrow> folder_active f \<and> \<not> deleted_ancestor (c_folders d) f"

text \<open>The join of an item with its folder.\<close>

definition folder_of :: "catalog \<Rightarrow> item \<Rightarrow> folder option" where
  "folder_of d x = find (\<lambda>f. fd_id f = it_folder x) (c_folders d)"

definition visible_item :: "catalog \<Rightarrow> item \<Rightarrow> bool" where
  "visible_item d x \<longleftrightarrow> item_active x \<and> (case folder_of d x of None \<Rightarrow> False | Some f \<Rightarrow> visible_folder d f)"

definition item_below :: "catalog \<Rightarrow> string \<Rightarrow> ltree \<Rightarrow> item \<Rightarrow> bool" where
  "item_below d org root x \<longleftrightarrow> (case folder_of d x of None \<Rightarrow> False | Some f \<Rightarrow> fd_org f = org \<and> below (fd_path f) root)"

definition item_in_org :: "catalog \<Rightarrow> string \<Rightarrow> item \<Rightarrow> bool" where
  "item_in_org d org x \<longleftrightarrow> (case folder_of d x of None \<Rightarrow> False | Some f \<Rightarrow> fd_org f = org)"

definition find_visible_folder :: "string \<Rightarrow> string \<Rightarrow> catalog \<Rightarrow> folder option" where
  "find_visible_folder org fid d = find (\<lambda>f. fd_id f = fid \<and> fd_org f = org \<and> visible_folder d f) (c_folders d)"

definition find_visible_path :: "string \<Rightarrow> ltree \<Rightarrow> catalog \<Rightarrow> folder option" where
  "find_visible_path org p d = find (\<lambda>f. fd_org f = org \<and> fd_path f = p \<and> visible_folder d f) (c_folders d)"

definition find_visible_item :: "string \<Rightarrow> string \<Rightarrow> catalog \<Rightarrow> item option" where
  "find_visible_item org i d = find (\<lambda>x. it_id x = i \<and> item_in_org d org x \<and> visible_item d x) (c_items d)"

text \<open>The fence of an active deletion: no overlap with its subtree in either direction.\<close>

definition deletion_active :: "deletion_job \<Rightarrow> bool" where
  "deletion_active j \<longleftrightarrow> dj_status j \<in> {FolderDeletionQueued, FolderDeletionRunning, FolderDeletionFailed}"

definition deletion_overlaps :: "string \<Rightarrow> ltree \<Rightarrow> deletion_job \<Rightarrow> bool" where
  "deletion_overlaps org p j \<longleftrightarrow> dj_org j = org \<and> deletion_active j \<and> (below p (dj_path j) \<or> below (dj_path j) p)"

fun ensureNoActiveDeletionForPaths :: "string \<Rightarrow> ltree list \<Rightarrow> catalog \<Rightarrow> unit reply" where
  "ensureNoActiveDeletionForPaths org [] d = Inr ()"
| "ensureNoActiveDeletionForPaths org (p # ps) d =
     (if p = [] then ensureNoActiveDeletionForPaths org ps d
      else if sql_exists (deletion_overlaps org p) (c_djobs d) then Inl ErrFolderDeletionInProgress
      else ensureNoActiveDeletionForPaths org ps d)"

section \<open>Lifecycle units\<close>

definition lifecycleRetentionDays :: int where "lifecycleRetentionDays = 30"

definition retention_from :: "instant \<Rightarrow> instant" where
  "retention_from now = now + lifecycleRetentionDays * 24 * hour"

definition lifecycleParentPath :: "ltree \<Rightarrow> ltree option" where
  "lifecycleParentPath p = (if length p \<le> 1 then None else Some (butlast p))"

definition createDeletedLifecycleUnit ::
  "string \<Rightarrow> string \<Rightarrow> string \<Rightarrow> resource_type \<Rightarrow> string \<Rightarrow> ltree \<Rightarrow> ltree option \<Rightarrow> string option \<Rightarrow> instant \<Rightarrow> instant
   \<Rightarrow> catalog \<Rightarrow> catalog reply" where
  "createDeletedLifecycleUnit uid org user ty res path parent folder now tnow d =
     on_units (\<lambda>us. us @ [\<lparr>lu_id = uid, lu_org = org, lu_type = ty, lu_root = res, lu_path = path,
         lu_parent_path = parent, lu_folder = folder, lu_state = LifecycleDeleted, lu_requested_by = user,
         lu_delete_completed_at = Some now, lu_retention_until = Some (retention_from now), lu_created_at = tnow\<rparr>]) d"

definition createDeletingLifecycleUnit ::
  "string \<Rightarrow> string \<Rightarrow> string \<Rightarrow> string \<Rightarrow> ltree \<Rightarrow> ltree option \<Rightarrow> instant \<Rightarrow> catalog \<Rightarrow> catalog reply" where
  "createDeletingLifecycleUnit uid org user res path parent tnow d =
     on_units (\<lambda>us. us @ [\<lparr>lu_id = uid, lu_org = org, lu_type = LifecycleResourceFolder, lu_root = res,
         lu_path = path, lu_parent_path = parent, lu_folder = None, lu_state = LifecycleDeleting,
         lu_requested_by = user, lu_delete_completed_at = None, lu_retention_until = None, lu_created_at = tnow\<rparr>]) d"

definition deleting_unit :: "string \<Rightarrow> string \<Rightarrow> unit_row \<Rightarrow> bool" where
  "deleting_unit org res u \<longleftrightarrow> lu_org u = org \<and> lu_type u = LifecycleResourceFolder \<and> lu_root u = res
     \<and> lu_state u = LifecycleDeleting"

definition completeDeletingLifecycleUnit :: "string \<Rightarrow> string \<Rightarrow> instant \<Rightarrow> catalog \<Rightarrow> catalog reply" where
  "completeDeletingLifecycleUnit org res now d =
     (if rows_affected (deleting_unit org res) (c_units d) \<noteq> 1 then Inl (ErrMessage ''missing deleting lifecycle unit'')
      else on_units (sql_update (deleting_unit org res)
             (\<lambda>u. u\<lparr>lu_state := LifecycleDeleted, lu_delete_completed_at := Some now,
                    lu_retention_until := Some (retention_from now)\<rparr>)) d)"

definition completeLifecycleRestore :: "string \<Rightarrow> resource_type \<Rightarrow> string \<Rightarrow> catalog \<Rightarrow> catalog reply" where
  "completeLifecycleRestore org ty res d =
     on_units (sql_update (\<lambda>u. lu_org u = org \<and> lu_type u = ty \<and> lu_root u = res \<and> lu_state u = LifecycleDeleted)
         (\<lambda>u. u\<lparr>lu_state := LifecycleRestored\<rparr>)) d"

end
