(* ===== verification/Catalog_Facts.thy ===== *)
theory Catalog_Facts
  imports Catalog_Tables
begin

text \<open>
  Facts about the catalogue tables that its operations share: what a successful statement wrote, which updates keep the
  constraints, and how visibility depends on the tombstones.
\<close>

named_theorems row_simps \<open>columns that an update of a row leaves alone\<close>

section \<open>Unique indexes\<close>

lemma rows_unique_simps [simp]:
  "rows_unique k []" "rows_unique k (r # rs) \<longleftrightarrow> (\<forall>s\<in>set rs. \<not> k r s) \<and> rows_unique k rs"
  by (simp_all add: rows_unique_def)

lemma rows_unique_append:
  "rows_unique k (rs @ ss) \<longleftrightarrow> rows_unique k rs \<and> rows_unique k ss \<and> (\<forall>r\<in>set rs. \<forall>s\<in>set ss. \<not> k r s)"
  by (auto simp: rows_unique_def sorted_wrt_append)

lemma rows_unique_map:
  assumes "rows_unique k rs" and "\<And>r s. r \<in> set rs \<Longrightarrow> s \<in> set rs \<Longrightarrow> k (g r) (g s) \<Longrightarrow> k r s"
  shows "rows_unique k (map g rs)"
  using assms by (induction rs) (auto simp del: not_Some_eq)

lemma rows_unique_filter: "rows_unique k rs \<Longrightarrow> rows_unique k (filter c rs)"
  by (induction rs) auto

lemma rows_unique_update:
  assumes "rows_unique k rs"
    and "\<And>r s. r \<in> set rs \<Longrightarrow> s \<in> set rs \<Longrightarrow>
           k (if c r then g r else r) (if c s then g s else s) \<Longrightarrow> k r s"
  shows "rows_unique k (sql_update c g rs)"
  unfolding sql_update_def using assms by (rule rows_unique_map)

lemma rows_unique_distinct:
  "rows_unique k rs \<Longrightarrow> (\<And>r s. key r = key s \<Longrightarrow> k r s) \<Longrightarrow> distinct (map key rs)"
  by (induction rs) (auto simp: image_iff)

lemma rows_unique_pair:
  assumes "rows_unique k rs" "r \<in> set rs" "s \<in> set rs" "r \<noteq> s"
  shows "\<not> k r s \<or> \<not> k s r"
  using assms by (induction rs) auto

lemma catalog_conflict_sym:
  "folder_conflict f g \<longleftrightarrow> folder_conflict g f" "item_conflict x y \<longleftrightarrow> item_conflict y x"
  "unit_conflict u v \<longleftrightarrow> unit_conflict v u" "lifecycle_job_conflict j l \<longleftrightarrow> lifecycle_job_conflict l j"
  unfolding folder_conflict_def item_conflict_def unit_conflict_def lifecycle_job_conflict_def by metis+

lemma folder_conflict_free:
  "rows_unique folder_conflict fs \<Longrightarrow> f \<in> set fs \<Longrightarrow> g \<in> set fs \<Longrightarrow> f \<noteq> g \<Longrightarrow> \<not> folder_conflict f g"
  using rows_unique_pair [of folder_conflict fs f g] by (simp add: catalog_conflict_sym(1) [of g f])

lemma item_conflict_free:
  "rows_unique item_conflict xs \<Longrightarrow> x \<in> set xs \<Longrightarrow> y \<in> set xs \<Longrightarrow> x \<noteq> y \<Longrightarrow> \<not> item_conflict x y"
  using rows_unique_pair [of item_conflict xs x y] by (simp add: catalog_conflict_sym(2) [of y x])

lemma unit_conflict_free:
  "rows_unique unit_conflict us \<Longrightarrow> u \<in> set us \<Longrightarrow> v \<in> set us \<Longrightarrow> u \<noteq> v \<Longrightarrow> \<not> unit_conflict u v"
  using rows_unique_pair [of unit_conflict us u v] by (simp add: catalog_conflict_sym(3) [of v u])

lemma job_conflict_free:
  "rows_unique lifecycle_job_conflict js \<Longrightarrow> j \<in> set js \<Longrightarrow> l \<in> set js \<Longrightarrow> j \<noteq> l \<Longrightarrow> \<not> lifecycle_job_conflict j l"
  using rows_unique_pair [of lifecycle_job_conflict js j l] by (simp add: catalog_conflict_sym(4) [of l j])

section \<open>What the constraints give\<close>

lemma catalog_okD:
  assumes "catalog_ok d"
  shows "rows_unique folder_conflict (c_folders d)" "rows_unique item_conflict (c_items d)"
    "rows_unique unit_conflict (c_units d)" "rows_unique lifecycle_job_conflict (c_jobs d)"
    "rows_unique deletion_job_conflict (c_djobs d)"
  using assms by (auto simp: catalog_ok_def unique_ok_def)

lemma catalog_ok_checks:
  assumes "catalog_ok d"
  shows "f \<in> set (c_folders d) \<Longrightarrow> folder_check f" "x \<in> set (c_items d) \<Longrightarrow> item_check x"
    "u \<in> set (c_units d) \<Longrightarrow> unit_check u" "j \<in> set (c_jobs d) \<Longrightarrow> lifecycle_job_check j"
    "k \<in> set (c_djobs d) \<Longrightarrow> deletion_job_check k"
  using assms by (auto simp: catalog_ok_def checks_ok_def list_all_iff)

lemma catalog_ok_refs:
  assumes "catalog_ok d"
  shows "f \<in> set (c_folders d) \<Longrightarrow> folder_refs d f" "x \<in> set (c_items d) \<Longrightarrow> item_refs d x"
    "u \<in> set (c_units d) \<Longrightarrow> unit_refs d u" "j \<in> set (c_jobs d) \<Longrightarrow> lifecycle_job_refs d j"
    "k \<in> set (c_djobs d) \<Longrightarrow> deletion_job_refs d k"
  using assms by (auto simp: catalog_ok_def references_ok_def list_all_iff)

lemma distinct_ids:
  assumes "catalog_ok d"
  shows "distinct (map fd_id (c_folders d))" "distinct (map it_id (c_items d))" "distinct (map lu_id (c_units d))"
    "distinct (map lj_id (c_jobs d))" "distinct (map dj_id (c_djobs d))"
  using catalog_okD [OF assms]
  by (auto elim!: rows_unique_distinct simp: folder_conflict_def item_conflict_def unit_conflict_def
      lifecycle_job_conflict_def deletion_job_conflict_def)

lemma same_row:
  assumes "catalog_ok d"
  shows "f \<in> set (c_folders d) \<Longrightarrow> g \<in> set (c_folders d) \<Longrightarrow> fd_id f = fd_id g \<Longrightarrow> f = g"
    "x \<in> set (c_items d) \<Longrightarrow> y \<in> set (c_items d) \<Longrightarrow> it_id x = it_id y \<Longrightarrow> x = y"
    "u \<in> set (c_units d) \<Longrightarrow> v \<in> set (c_units d) \<Longrightarrow> lu_id u = lu_id v \<Longrightarrow> u = v"
    "j \<in> set (c_jobs d) \<Longrightarrow> l \<in> set (c_jobs d) \<Longrightarrow> lj_id j = lj_id l \<Longrightarrow> j = l"
    "k \<in> set (c_djobs d) \<Longrightarrow> m \<in> set (c_djobs d) \<Longrightarrow> dj_id k = dj_id m \<Longrightarrow> k = m"
  using distinct_ids [OF assms] by (auto dest: distinct_map_eq)

lemma one_deleting_unit:
  assumes "catalog_ok d" "u \<in> set (c_units d)" "v \<in> set (c_units d)" "deleting_unit org r u" "deleting_unit org r v"
  shows "u = v"
  using unit_conflict_free [OF catalog_okD(3) [OF assms(1)] assms(2,3)] assms(4,5)
  by (auto simp: unit_conflict_def deleting_unit_def unit_live_def)

lemma folder_of_eq:
  assumes "catalog_ok d" "f \<in> set (c_folders d)" "fd_id f = it_folder x"
  shows "folder_of d x = Some f"
  unfolding folder_of_def using distinct_ids(1) [OF assms(1)] assms(2,3) by (rule find_distinct)

lemma folder_of_SomeD: "folder_of d x = Some f \<Longrightarrow> f \<in> set (c_folders d) \<and> fd_id f = it_folder x"
  unfolding folder_of_def by (auto dest: find_SomeD)

lemma item_has_folder:
  assumes "catalog_ok d" "x \<in> set (c_items d)"
  obtains f where "folder_of d x = Some f" "f \<in> set (c_folders d)" "fd_id f = it_folder x"
proof -
  have "it_folder x \<in> set (map fd_id (c_folders d))"
    using catalog_ok_refs(2) [OF assms] by (simp add: item_refs_def)
  then obtain f where "f \<in> set (c_folders d)" "fd_id f = it_folder x" by auto
  with that folder_of_eq [OF assms(1)] show ?thesis by blast
qed

section \<open>Statements that keep the constraints\<close>

lemma on_table_Inr [simp]:
  "on_folders f d = Inr d' \<longleftrightarrow> d' = d\<lparr>c_folders := f (c_folders d)\<rparr> \<and> catalog_ok d'"
  "on_items g d = Inr d' \<longleftrightarrow> d' = d\<lparr>c_items := g (c_items d)\<rparr> \<and> catalog_ok d'"
  "on_units h d = Inr d' \<longleftrightarrow> d' = d\<lparr>c_units := h (c_units d)\<rparr> \<and> catalog_ok d'"
  "on_jobs l d = Inr d' \<longleftrightarrow> d' = d\<lparr>c_jobs := l (c_jobs d)\<rparr> \<and> catalog_ok d'"
  "on_djobs m d = Inr d' \<longleftrightarrow> d' = d\<lparr>c_djobs := m (c_djobs d)\<rparr> \<and> catalog_ok d'"
  by (auto simp: on_folders_def on_items_def on_units_def on_jobs_def on_djobs_def)

lemma on_table_ok:
  "catalog_ok (d\<lparr>c_folders := f (c_folders d)\<rparr>) \<Longrightarrow> on_folders f d = Inr (d\<lparr>c_folders := f (c_folders d)\<rparr>)"
  "catalog_ok (d\<lparr>c_items := g (c_items d)\<rparr>) \<Longrightarrow> on_items g d = Inr (d\<lparr>c_items := g (c_items d)\<rparr>)"
  "catalog_ok (d\<lparr>c_units := h (c_units d)\<rparr>) \<Longrightarrow> on_units h d = Inr (d\<lparr>c_units := h (c_units d)\<rparr>)"
  "catalog_ok (d\<lparr>c_jobs := l (c_jobs d)\<rparr>) \<Longrightarrow> on_jobs l d = Inr (d\<lparr>c_jobs := l (c_jobs d)\<rparr>)"
  "catalog_ok (d\<lparr>c_djobs := m (c_djobs d)\<rparr>) \<Longrightarrow> on_djobs m d = Inr (d\<lparr>c_djobs := m (c_djobs d)\<rparr>)"
  by simp_all

lemma ok_folders:
  assumes "catalog_ok d" "map fd_id fs = map fd_id (c_folders d)" "rows_unique folder_conflict fs"
    and "\<And>f. f \<in> set fs \<Longrightarrow> folder_check f \<and> folder_refs d f"
  shows "catalog_ok (d\<lparr>c_folders := fs\<rparr>)"
proof -
  have ids: "fd_id ` set fs = fd_id ` set (c_folders d)" using assms(2) by (metis list.set_map)
  show ?thesis using assms(1,3,4)
    by (auto simp: catalog_ok_def unique_ok_def checks_ok_def references_ok_def list_all_iff
        folder_refs_def item_refs_def unit_refs_def lifecycle_job_refs_def deletion_job_refs_def ids cong: option.case_cong)
qed

lemma ok_items:
  assumes "catalog_ok d" "rows_unique item_conflict xs"
    and "\<And>x. x \<in> set xs \<Longrightarrow> item_check x \<and> item_refs d x"
  shows "catalog_ok (d\<lparr>c_items := xs\<rparr>)"
  using assms
  by (auto simp: catalog_ok_def unique_ok_def checks_ok_def references_ok_def list_all_iff
      folder_refs_def item_refs_def unit_refs_def lifecycle_job_refs_def deletion_job_refs_def cong: option.case_cong)

lemma ok_units:
  assumes "catalog_ok d" "map (\<lambda>u. (lu_id u, lu_org u)) us = map (\<lambda>u. (lu_id u, lu_org u)) (c_units d) @ new"
    and "rows_unique unit_conflict us"
    and "\<And>u. u \<in> set us \<Longrightarrow> unit_check u \<and> unit_refs d u"
  shows "catalog_ok (d\<lparr>c_units := us\<rparr>)"
proof -
  have "set (map (\<lambda>u. (lu_id u, lu_org u)) us) = set (map (\<lambda>u. (lu_id u, lu_org u)) (c_units d) @ new)"
    using assms(2) by simp
  then have pairs: "(\<lambda>u. (lu_id u, lu_org u)) ` set (c_units d) \<subseteq> (\<lambda>u. (lu_id u, lu_org u)) ` set us" by auto
  have ids: "lu_id ` set (c_units d) \<subseteq> lu_id ` set us"
  proof
    fix i assume "i \<in> lu_id ` set (c_units d)"
    then obtain u where "u \<in> set (c_units d)" "i = lu_id u" by blast
    with pairs show "i \<in> lu_id ` set us" by (force simp: image_iff)
  qed
  have folders: "list_all (folder_refs (d\<lparr>c_units := us\<rparr>)) (c_folders d)"
    using catalog_ok_refs(1) [OF assms(1)] ids
    by (fastforce simp: list_all_iff folder_refs_def in_opt_def split: option.splits)
  have items: "list_all (item_refs (d\<lparr>c_units := us\<rparr>)) (c_items d)"
    using catalog_ok_refs(2) [OF assms(1)] ids
    by (fastforce simp: list_all_iff item_refs_def in_opt_def split: option.splits)
  have jobs: "list_all (lifecycle_job_refs (d\<lparr>c_units := us\<rparr>)) (c_jobs d)"
    unfolding list_all_iff
  proof
    fix j assume "j \<in> set (c_jobs d)"
    then have "lifecycle_job_refs d j" using catalog_ok_refs(4) [OF assms(1)] by blast
    with pairs show "lifecycle_job_refs (d\<lparr>c_units := us\<rparr>) j"
      by (auto simp: lifecycle_job_refs_def split: option.splits)
  qed
  have djobs: "list_all (deletion_job_refs (d\<lparr>c_units := us\<rparr>)) (c_djobs d)"
    using catalog_ok_refs(5) [OF assms(1)] by (auto simp: list_all_iff deletion_job_refs_def)
  show ?thesis using assms(1,3,4) folders items jobs djobs
    by (auto simp: catalog_ok_def unique_ok_def checks_ok_def references_ok_def list_all_iff unit_refs_def)
qed

lemma ok_jobs:
  assumes "catalog_ok d" "rows_unique lifecycle_job_conflict js"
    and "\<And>j. j \<in> set js \<Longrightarrow> lifecycle_job_check j \<and> lifecycle_job_refs d j"
  shows "catalog_ok (d\<lparr>c_jobs := js\<rparr>)"
  using assms
  by (auto simp: catalog_ok_def unique_ok_def checks_ok_def references_ok_def list_all_iff
      folder_refs_def item_refs_def unit_refs_def lifecycle_job_refs_def deletion_job_refs_def cong: option.case_cong)

lemma ok_djobs:
  assumes "catalog_ok d" "map dj_id ks = map dj_id (c_djobs d)"
    and "rows_unique deletion_job_conflict ks"
    and "\<And>k. k \<in> set ks \<Longrightarrow> deletion_job_check k \<and> deletion_job_refs d k"
  shows "catalog_ok (d\<lparr>c_djobs := ks\<rparr>)"
proof -
  show ?thesis using assms(1,3,4)
    by (simp add: catalog_ok_def unique_ok_def checks_ok_def references_ok_def list_all_iff
        folder_refs_def item_refs_def unit_refs_def lifecycle_job_refs_def deletion_job_refs_def assms(2) cong: option.case_cong)
qed

definition shrinks_job :: "lifecycle_job \<Rightarrow> lifecycle_job \<Rightarrow> bool" where
  "shrinks_job j0 j \<longleftrightarrow> lj_id j = lj_id j0 \<and> lj_unit j = lj_unit j0 \<and> lj_legacy j = lj_legacy j0
     \<and> (job_open j \<longrightarrow> job_open j0)"

lemma job_conflict_mono:
  "shrinks_job r0 r \<Longrightarrow> shrinks_job s0 s \<Longrightarrow> lifecycle_job_conflict r s \<Longrightarrow> lifecycle_job_conflict r0 s0"
  unfolding shrinks_job_def lifecycle_job_conflict_def by metis

text \<open>Saving a job that keeps its identity and does not become open.\<close>

lemma save_job_ok:
  assumes "catalog_ok d" "j0 \<in> set (c_jobs d)"
    and "lj_id j = lj_id j0" "lj_unit j = lj_unit j0" "lj_legacy j = lj_legacy j0" "lj_org j = lj_org j0"
    and "lj_requested_by j = lj_requested_by j0" "job_open j \<Longrightarrow> job_open j0" "lifecycle_job_check j"
  shows "save_job j d = Inr (d\<lparr>c_jobs := sql_update (\<lambda>r. lj_id r = lj_id j) (\<lambda>_. j) (c_jobs d)\<rparr>)"
proof -
  have one: "r = j0" if "r \<in> set (c_jobs d)" "lj_id r = lj_id j" for r
    using same_row(4) [OF assms(1) that(1) assms(2)] that(2) assms(3) by simp
  have shr: "shrinks_job r (if lj_id r = lj_id j then j else r)" if "r \<in> set (c_jobs d)" for r
    using one [OF that] assms(3-5,8) by (auto simp: shrinks_job_def)
  have "catalog_ok (d\<lparr>c_jobs := sql_update (\<lambda>r. lj_id r = lj_id j) (\<lambda>_. j) (c_jobs d)\<rparr>)"
  proof (rule ok_jobs [OF assms(1)])
    show "rows_unique lifecycle_job_conflict (sql_update (\<lambda>r. lj_id r = lj_id j) (\<lambda>_. j) (c_jobs d))"
      using catalog_okD(4) [OF assms(1)]
    proof (rule rows_unique_update)
      fix r s assume rs: "r \<in> set (c_jobs d)" "s \<in> set (c_jobs d)"
        and c: "lifecycle_job_conflict (if lj_id r = lj_id j then j else r) (if lj_id s = lj_id j then j else s)"
      show "lifecycle_job_conflict r s"
        by (rule job_conflict_mono [OF shr [OF rs(1)] shr [OF rs(2)] c])
    qed
  next
    fix r assume "r \<in> set (sql_update (\<lambda>r. lj_id r = lj_id j) (\<lambda>_. j) (c_jobs d))"
    then consider "r = j" | "r \<in> set (c_jobs d)" by auto
    then show "lifecycle_job_check r \<and> lifecycle_job_refs d r"
    proof cases
      case 1
      have "lifecycle_job_refs d j0" using catalog_ok_refs(4) [OF assms(1,2)] .
      with 1 assms(4-7,9) show ?thesis by (simp add: lifecycle_job_refs_def cong: option.case_cong)
    next
      case 2
      then show ?thesis using catalog_ok_refs(4) [OF assms(1)] catalog_ok_checks(4) [OF assms(1)] by blast
    qed
  qed
  then show ?thesis by (simp add: save_job_def)
qed

lemma save_djob_ok:
  assumes "catalog_ok d" "k0 \<in> set (c_djobs d)"
    and "dj_id k = dj_id k0" "dj_org k = dj_org k0" "dj_requested_by k = dj_requested_by k0" "deletion_job_check k"
  shows "save_djob k d = Inr (d\<lparr>c_djobs := sql_update (\<lambda>r. dj_id r = dj_id k) (\<lambda>_. k) (c_djobs d)\<rparr>)"
proof -
  have ids: "map dj_id (sql_update (\<lambda>r. dj_id r = dj_id k) (\<lambda>_. k) rs) = map dj_id rs" for rs
    by (induction rs) auto
  have "catalog_ok (d\<lparr>c_djobs := sql_update (\<lambda>r. dj_id r = dj_id k) (\<lambda>_. k) (c_djobs d)\<rparr>)"
  proof (rule ok_djobs [OF assms(1)])
    show "rows_unique deletion_job_conflict (sql_update (\<lambda>r. dj_id r = dj_id k) (\<lambda>_. k) (c_djobs d))"
      using catalog_okD(5) [OF assms(1)]
      by (rule rows_unique_update) (auto simp: deletion_job_conflict_def split: if_splits)
  next
    fix r assume "r \<in> set (sql_update (\<lambda>r. dj_id r = dj_id k) (\<lambda>_. k) (c_djobs d))"
    then consider "r = k" | "r \<in> set (c_djobs d)" by auto
    then show "deletion_job_check r \<and> deletion_job_refs d r"
    proof cases
      case 1
      have "deletion_job_refs d k0" using catalog_ok_refs(5) [OF assms(1,2)] .
      with 1 assms(4-6) show ?thesis by (simp add: deletion_job_refs_def)
    next
      case 2
      then show ?thesis using catalog_ok_refs(5) [OF assms(1)] catalog_ok_checks(5) [OF assms(1)] by blast
    qed
  qed (rule ids)
  then show ?thesis by (simp add: save_djob_def)
qed

lemma save_Inr [simp]:
  "save_job j d = Inr d' \<longleftrightarrow>
     d' = d\<lparr>c_jobs := sql_update (\<lambda>r. lj_id r = lj_id j) (\<lambda>_. j) (c_jobs d)\<rparr> \<and> catalog_ok d'"
  "save_djob k d = Inr d' \<longleftrightarrow>
     d' = d\<lparr>c_djobs := sql_update (\<lambda>r. dj_id r = dj_id k) (\<lambda>_. k) (c_djobs d)\<rparr> \<and> catalog_ok d'"
  by (simp_all add: save_job_def save_djob_def)


section \<open>Visibility\<close>

lemma below_refl [simp]: "below p p"
  by (simp add: below_def)

lemma below_trans: "below p q \<Longrightarrow> below q r \<Longrightarrow> below p r"
  by (auto simp: below_def dest: prefix_order.trans)

lemma deleted_ancestor_iff:
  "deleted_ancestor fs f \<longleftrightarrow>
     (\<exists>a\<in>set fs. fd_org a = fd_org f \<and> \<not> folder_active a \<and> below (fd_path f) (fd_path a))"
  by (auto simp: deleted_ancestor_def list_ex_iff)

lemma below_tombstone_invisible:
  assumes "r \<in> set (c_folders d)" "\<not> folder_active r" "fd_org f = fd_org r" "below (fd_path f) (fd_path r)"
  shows "\<not> visible_folder d f"
  using assms by (auto simp: visible_folder_def deleted_ancestor_iff)

text \<open>
  A map on the folders that keeps the tree and changes tombstones only below a root that is a tombstone before and
  after: nothing becomes visible, and nothing visible disappears.
\<close>

definition tree_map :: "(folder \<Rightarrow> folder) \<Rightarrow> bool" where
  "tree_map g \<longleftrightarrow> (\<forall>f. fd_id (g f) = fd_id f \<and> fd_org (g f) = fd_org f \<and> fd_path (g f) = fd_path f)"

lemma tree_mapD: "tree_map g \<Longrightarrow> fd_id (g f) = fd_id f" "tree_map g \<Longrightarrow> fd_org (g f) = fd_org f"
  "tree_map g \<Longrightarrow> fd_path (g f) = fd_path f"
  by (simp_all add: tree_map_def)

definition changes_below :: "folder \<Rightarrow> (folder \<Rightarrow> folder) \<Rightarrow> folder list \<Rightarrow> bool" where
  "changes_below r g fs \<longleftrightarrow>
     (\<forall>f\<in>set fs. folder_active (g f) \<noteq> folder_active f \<longrightarrow> fd_org f = fd_org r \<and> below (fd_path f) (fd_path r))"

lemma hidden_change_invisible:
  assumes g: "tree_map g" and r: "r \<in> set (c_folders d)" "\<not> folder_active r" "\<not> folder_active (g r)"
    and ch: "changes_below r g (c_folders d)" and f: "f \<in> set (c_folders d)"
    and d': "c_folders d' = map g (c_folders d)"
  shows "visible_folder d' (g f) \<longleftrightarrow> visible_folder d f"
proof (cases "fd_org f = fd_org r \<and> below (fd_path f) (fd_path r)")
  case True
  have "g r \<in> set (c_folders d')" using r(1) d' by simp
  then have "\<not> visible_folder d' (g f)"
    using below_tombstone_invisible [of "g r" d' "g f"] True r(3) by (simp add: tree_mapD [OF g])
  moreover have "\<not> visible_folder d f" using below_tombstone_invisible [OF r(1,2)] True by blast
  ultimately show ?thesis by simp
next
  case False
  have act: "folder_active (g f) = folder_active f" using ch f False by (auto simp: changes_below_def)
  have anc: "folder_active (g a) = folder_active a"
    if "a \<in> set (c_folders d)" "fd_org a = fd_org f" "below (fd_path f) (fd_path a)" for a
    using ch that False by (auto simp: changes_below_def dest: below_trans)
  have "deleted_ancestor (c_folders d') (g f) \<longleftrightarrow> deleted_ancestor (c_folders d) f"
    using anc by (auto simp: deleted_ancestor_iff d' tree_mapD [OF g])
  with act show ?thesis by (simp add: visible_folder_def)
qed

lemma folder_of_map:
  assumes "tree_map g" "c_folders d' = map g (c_folders d)" "it_folder y = it_folder x"
  shows "folder_of d' y = map_option g (folder_of d x)"
proof -
  have "find (\<lambda>f. fd_id f = it_folder x) (map g fs) = map_option g (find (\<lambda>f. fd_id f = it_folder x) fs)" for fs
    by (induction fs) (auto simp: tree_mapD [OF assms(1)])
  with assms(2,3) show ?thesis by (simp add: folder_of_def)
qed

lemma item_below_map:
  assumes "tree_map g" "c_folders d' = map g (c_folders d)" "it_folder y = it_folder x"
  shows "item_below d' org p y = item_below d org p x" "item_in_org d' org y = item_in_org d org x"
  using folder_of_map [OF assms] by (auto simp: item_below_def item_in_org_def tree_mapD [OF assms(1)] split: option.splits)

text \<open>The same for the items: those whose tombstone changes are below the hidden root.\<close>

lemma hidden_item_change_invisible:
  assumes g: "tree_map g" and r: "r \<in> set (c_folders d)" "\<not> folder_active r" "\<not> folder_active (g r)"
    and ch: "changes_below r g (c_folders d)" and d': "c_folders d' = map g (c_folders d)"
    and y: "it_folder y = it_folder x" "item_active y \<noteq> item_active x \<Longrightarrow> item_below d (fd_org r) (fd_path r) x"
  shows "visible_item d' y \<longleftrightarrow> visible_item d x"
proof (cases "folder_of d x")
  case None
  then show ?thesis using folder_of_map [OF g d' y(1)] by (simp add: visible_item_def)
next
  case (Some f)
  then have f: "f \<in> set (c_folders d)" by (simp add: folder_of_SomeD)
  have fo: "folder_of d' y = Some (g f)" using folder_of_map [OF g d' y(1)] Some by simp
  have v: "visible_folder d' (g f) \<longleftrightarrow> visible_folder d f" by (rule hidden_change_invisible [OF g r ch f d'])
  show ?thesis
  proof (cases "item_active y = item_active x")
    case True
    with v fo Some show ?thesis by (simp add: visible_item_def)
  next
    case False
    then have "fd_org f = fd_org r" "below (fd_path f) (fd_path r)"
      using y(2) Some by (simp_all add: item_below_def)
    then have "\<not> visible_folder d f" using below_tombstone_invisible [OF r(1,2)] by blast
    with v fo Some show ?thesis by (simp add: visible_item_def)
  qed
qed

lemma sql_update_as_map: "sql_update c g rs = map (\<lambda>r. if c r then g r else r) rs"
  by (simp add: sql_update_def)

end
