(* ===== verification/Asset_Repository.thy ===== *)
theory Asset_Repository
  imports Catalog_Facts
begin

text \<open>
  Folders and metadata items as normal requests read and write them (\<open>internal/repository/asset_repository.go\<close>):
  the folder tree, creation, renaming, move and deletion of a folder, the life of a metadata item, search with offset
  and keyset pages, and the pages of the recycle bin. Identifiers and clocks are arguments (\<open>now\<close> of the service,
  \<open>tnow\<close> of the database transaction). The events published after a commit are left out. A limit is positive, as the
  use cases guarantee.
\<close>

section \<open>Paths as text\<close>

text \<open>
  PostgreSQL 16 reads an \<open>ltree\<close> as labels of at most 1000 letters, digits, underscores and hyphens, separated by dots
  (letters outside ASCII, which no stored path has, are refused here); the empty text is the empty path.
\<close>

definition ltree_char :: "char \<Rightarrow> bool" where
  "ltree_char c \<longleftrightarrow> (let b = byte_of c in
     (48 \<le> b \<and> b \<le> 57) \<or> (65 \<le> b \<and> b \<le> 90) \<or> (97 \<le> b \<and> b \<le> 122) \<or> b = 95 \<or> b = 45)"

definition ltree_label :: "string \<Rightarrow> bool" where
  "ltree_label l \<longleftrightarrow> l \<noteq> [] \<and> length l \<le> 1000 \<and> list_all ltree_char l"

definition ltree_of :: "string \<Rightarrow> ltree reply" where
  "ltree_of s =
     (if s = [] then Inr []
      else let ls = split_on (CHR ''.'') s in
           if list_all ltree_label ls \<and> length ls \<le> 65535 then Inr ls else Inl (ErrMessage ''ltree syntax error''))"

text \<open>\<open>strings.ReplaceAll(id, "-", "")\<close>: the path label of a folder.\<close>

definition segment_of :: "string \<Rightarrow> string" where
  "segment_of fid = filter (\<lambda>c. c \<noteq> CHR ''-'') fid"

section \<open>Reading the tree\<close>

text \<open>An \<open>ltree\<close> sorts label by label; names sort by bytes, as in the C locale of the database image.\<close>

definition GetFolderTree :: "string \<Rightarrow> string \<Rightarrow> catalog \<Rightarrow> folder list reply" where
  "GetFolderTree org rootPath d =
     and_then (ltree_of rootPath) (\<lambda>root.
     Inr (order_by fd_path (filter (\<lambda>f. fd_org f = org \<and> visible_folder d f \<and> (rootPath \<noteq> [] \<longrightarrow> below (fd_path f) root))
       (c_folders d))))"

definition GetFolderByID :: "string \<Rightarrow> string \<Rightarrow> catalog \<Rightarrow> folder reply" where
  "GetFolderByID org fid d = from_option ErrNoRecord (find_visible_folder org fid d)"

definition GetFoldersByIDs :: "string \<Rightarrow> string list \<Rightarrow> catalog \<Rightarrow> folder list" where
  "GetFoldersByIDs org ids d =
     (if ids = [] then []
      else filter (\<lambda>f. fd_org f = org \<and> fd_id f \<in> set ids \<and> visible_folder d f) (c_folders d))"

definition GetFolderChildren :: "string \<Rightarrow> string \<Rightarrow> catalog \<Rightarrow> folder list reply" where
  "GetFolderChildren org parentPath d =
     and_then (ltree_of parentPath) (\<lambda>p.
     Inr (order_by fd_name (filter (\<lambda>f. fd_org f = org \<and> below (fd_path f) p \<and> length (fd_path f) = length p + 1
       \<and> visible_folder d f) (c_folders d))))"

definition GetRootFolders :: "string \<Rightarrow> catalog \<Rightarrow> folder list" where
  "GetRootFolders org d =
     order_by fd_name (filter (\<lambda>f. fd_org f = org \<and> length (fd_path f) = 1 \<and> visible_folder d f) (c_folders d))"

section \<open>The recycle bin\<close>

record bin_entry =
  be_unit :: string
  be_type :: resource_type
  be_resource :: string
  be_name :: string
  be_path :: ltree
  be_deleted_at :: instant

record bin_filter =
  bf_limit :: int
  bf_after_deleted :: "instant option"
  bf_after_unit :: "string option"

definition bin_root_folder :: "unit_row \<Rightarrow> catalog \<Rightarrow> folder option" where
  "bin_root_folder u d =
     (if lu_type u = LifecycleResourceFolder
      then find (\<lambda>f. fd_id f = lu_root u \<and> fd_org f = lu_org u) (c_folders d) else None)"

definition bin_root_item :: "unit_row \<Rightarrow> catalog \<Rightarrow> (item \<times> folder option) option" where
  "bin_root_item u d =
     (if lu_type u = LifecycleResourceMetadata
      then map_option (\<lambda>x. (x, find (\<lambda>f. fd_id f = it_folder x \<and> fd_org f = lu_org u) (c_folders d)))
             (find (\<lambda>x. it_id x = lu_root u) (c_items d))
      else None)"

text \<open>A unit is a candidate when its root row is still a tombstone; its path is the current one of that row.\<close>

definition recycleBinCandidate :: "string \<Rightarrow> catalog \<Rightarrow> unit_row \<Rightarrow> bin_entry option" where
  "recycleBinCandidate org d u =
     (if lu_org u \<noteq> org \<or> lu_state u \<noteq> LifecycleDeleted then None
      else (case lu_delete_completed_at u of
          None \<Rightarrow> None
        | Some t \<Rightarrow>
            (let entry = (\<lambda>name p. \<lparr>be_unit = lu_id u, be_type = lu_type u, be_resource = lu_root u, be_name = name,
                be_path = p, be_deleted_at = t\<rparr>) in
             case (bin_root_folder u d, bin_root_item u d) of
               (Some f, _) \<Rightarrow> if folder_active f then None else Some (entry (fd_name f) (fd_path f))
             | (None, Some (x, Some f)) \<Rightarrow> if item_active x then None else Some (entry (it_title x) (fd_path f))
             | _ \<Rightarrow> None)))"

definition bin_candidates :: "string \<Rightarrow> catalog \<Rightarrow> bin_entry list" where
  "bin_candidates org d = List.map_filter (recycleBinCandidate org d) (c_units d)"

definition bin_order :: "bin_entry \<Rightarrow> int \<times> string" where
  "bin_order b = (- be_deleted_at b, be_unit b)"

definition ListRecycleBinEntries :: "string \<Rightarrow> bin_filter \<Rightarrow> catalog \<Rightarrow> bin_entry list reply" where
  "ListRecycleBinEntries org flt d =
     (case (bf_after_deleted flt, bf_after_unit flt) of
        (Some t, Some uid) \<Rightarrow>
          (if \<not> sql_exists (\<lambda>u. lu_id u = uid \<and> lu_org u = org \<and> lu_state u = LifecycleDeleted
                 \<and> lu_delete_completed_at u = Some t) (c_units d)
           then Inl ErrCursorInvalid
           else
             let same = filter (\<lambda>b. be_deleted_at b = t \<and> uid < be_unit b) (bin_candidates org d);
                 earlier = filter (\<lambda>b. be_deleted_at b < t) (bin_candidates org d)
             in Inr (take (nat (bf_limit flt)) (order_by bin_order (same @ earlier))))
      | _ \<Rightarrow> Inr (take (nat (bf_limit flt)) (order_by bin_order (bin_candidates org d))))"

section \<open>Writing folders\<close>

record create_folder_input =
  cf_parent_path :: "string option"
  cf_name :: string
  cf_description :: "string option"

text \<open>A unique violation at an insert or update becomes the given error.\<close>

definition on_conflict :: "catalog_error \<Rightarrow> 'a reply \<Rightarrow> 'a reply" where
  "on_conflict err = map_error (\<lambda>e. if e = ErrUniqueViolation then err else e)"

text \<open>The count of active siblings of a name; the empty path stands for the top level.\<close>

definition sibling_named :: "string \<Rightarrow> ltree \<Rightarrow> string \<Rightarrow> folder \<Rightarrow> bool" where
  "sibling_named org parent name f \<longleftrightarrow> folder_active f \<and> fd_org f = org \<and> fd_name f = name
     \<and> (if parent = [] then length (fd_path f) = 1 else below (fd_path f) parent \<and> length (fd_path f) = length parent + 1)"

definition new_folder_row :: "string \<Rightarrow> string \<Rightarrow> string \<Rightarrow> ltree \<Rightarrow> create_folder_input \<Rightarrow> folder" where
  "new_folder_row fid org user parent inp =
     \<lparr>fd_id = fid, fd_org = org, fd_path = parent @ [segment_of fid], fd_name = cf_name inp,
      fd_description = cf_description inp, fd_created_by = user, fd_updated_by = None, fd_deleted_at = None,
      fd_unit = None\<rparr>"

definition CreateFolder :: "string \<Rightarrow> string \<Rightarrow> string \<Rightarrow> create_folder_input \<Rightarrow> catalog \<Rightarrow> folder reply \<times> catalog" where
  "CreateFolder fid org user inp =
     transaction (\<lambda>d0. let d = EnsureRefs user org d0 in
       and_then (ltree_of (case cf_parent_path inp of None \<Rightarrow> [] | Some p \<Rightarrow> p)) (\<lambda>parent.
       and_then (if parent = [] then Inr ()
                 else and_then (from_option ErrFolderNotFound (find_visible_path org parent d)) (\<lambda>_. Inr ())) (\<lambda>_.
       and_then (ensureNoActiveDeletionForPaths org [parent] d) (\<lambda>_.
       if sql_exists (sibling_named org parent (cf_name inp)) (c_folders d) then Inl ErrFolderConflict
       else
         let f = new_folder_row fid org user parent inp in
         and_then (on_conflict ErrFolderConflict (on_folders (\<lambda>fs. fs @ [f]) d)) (\<lambda>d1. Inr (f, d1))))))"

record update_folder_input =
  uf_name :: "string option"
  uf_name_set :: bool
  uf_description :: "string option"
  uf_description_set :: bool

text \<open>A missing name that is marked as set would be dereferenced: a panic, which rolls the transaction back.\<close>

definition new_name :: "update_folder_input \<Rightarrow> folder \<Rightarrow> string reply" where
  "new_name inp f =
     (if \<not> uf_name_set inp then Inr (fd_name f)
      else from_option (ErrMessage ''nil pointer dereference'') (uf_name inp))"

definition renamed_folder :: "string \<Rightarrow> string \<Rightarrow> update_folder_input \<Rightarrow> folder \<Rightarrow> folder" where
  "renamed_folder user name inp f =
     f\<lparr>fd_name := name, fd_description := (if uf_description_set inp then uf_description inp else fd_description f),
       fd_updated_by := Some user\<rparr>"

text \<open>\<open>tx.Save\<close> of a folder writes every column but the lifecycle unit, which the struct does not have.\<close>

definition save_folder :: "folder \<Rightarrow> catalog \<Rightarrow> catalog reply" where
  "save_folder f = on_folders (sql_update (\<lambda>g. fd_id g = fd_id f \<and> folder_active g) (\<lambda>g. f\<lparr>fd_unit := fd_unit g\<rparr>))"

definition UpdateFolder ::
  "string \<Rightarrow> string \<Rightarrow> string \<Rightarrow> update_folder_input \<Rightarrow> catalog \<Rightarrow> folder reply \<times> catalog" where
  "UpdateFolder org user fid inp =
     transaction (\<lambda>d0. let d = EnsureRefs user org d0 in
       and_then (from_option ErrFolderNotFound (find_visible_folder org fid d)) (\<lambda>f.
       and_then (ensureNoActiveDeletionForPaths org [fd_path f] d) (\<lambda>_.
       and_then (new_name inp f) (\<lambda>name.
       if name \<noteq> fd_name f
          \<and> sql_exists (\<lambda>g. sibling_named org (butlast (fd_path f)) name g \<and> fd_id g \<noteq> fd_id f) (c_folders d)
       then Inl ErrFolderConflict
       else
         let f1 = renamed_folder user name inp f in
         and_then (on_conflict ErrFolderConflict (save_folder f1 d)) (\<lambda>d1. Inr (f1, d1))))))"

text \<open>The path of a moved row: the new path of the root, then what followed the old one.\<close>

definition moved_path :: "ltree \<Rightarrow> ltree \<Rightarrow> ltree \<Rightarrow> ltree" where
  "moved_path old new p = (if p = old then new else new @ drop (length old) p)"

definition move_rows :: "string \<Rightarrow> string \<Rightarrow> ltree \<Rightarrow> ltree \<Rightarrow> folder list \<Rightarrow> folder list" where
  "move_rows org user old new =
     sql_update (\<lambda>f. fd_org f = org \<and> below (fd_path f) old)
       (\<lambda>f. f\<lparr>fd_path := moved_path old new (fd_path f), fd_updated_by := Some user\<rparr>)"

definition move_target :: "string \<Rightarrow> string option \<Rightarrow> folder \<Rightarrow> catalog \<Rightarrow> ltree reply" where
  "move_target org dest f d =
     (case dest of
        None \<Rightarrow> Inr []
      | Some did \<Rightarrow>
          if did = [] then Inr []
          else
            and_then (from_option ErrFolderNotFound (find_visible_folder org did d)) (\<lambda>g.
            if fd_id g = fd_id f \<or> below (fd_path g) (fd_path f) then Inl ErrCycleDetected
            else and_then (ensureNoActiveDeletionForPaths org [fd_path g] d) (\<lambda>_. Inr (fd_path g))))"

definition MoveFolder :: "string \<Rightarrow> string \<Rightarrow> string \<Rightarrow> string option \<Rightarrow> catalog \<Rightarrow> (folder \<times> bool) reply \<times> catalog" where
  "MoveFolder org user fid dest =
     transaction (\<lambda>d0. let d = EnsureRefs user org d0 in
       and_then (from_option ErrFolderNotFound (find_visible_folder org fid d)) (\<lambda>f.
       and_then (ensureNoActiveDeletionForPaths org [fd_path f] d) (\<lambda>_.
       and_then (move_target org dest f d) (\<lambda>destPath.
       let newPath = destPath @ [segment_of (fd_id f)] in
       if fd_path f = newPath then Inr ((f, False), d)
       else if sql_exists (\<lambda>g. sibling_named org destPath (fd_name f) g \<and> fd_id g \<noteq> fd_id f) (c_folders d)
       then Inl ErrFolderConflict
       else
         and_then (on_conflict ErrFolderConflict (on_folders (move_rows org user (fd_path f) newPath) d)) (\<lambda>d1.
         and_then (from_option ErrNoRecord (find (\<lambda>g. fd_id g = fd_id f \<and> fd_org g = org \<and> folder_active g) (c_folders d1)))
           (\<lambda>g. Inr ((g, True), d1)))))))"

definition not_empty :: "string \<Rightarrow> folder \<Rightarrow> catalog \<Rightarrow> bool" where
  "not_empty org f d \<longleftrightarrow>
     sql_exists (\<lambda>g. fd_org g = org \<and> below (fd_path g) (fd_path f) \<and> fd_id g \<noteq> fd_id f \<and> folder_active g) (c_folders d)
     \<or> sql_exists (\<lambda>x. item_below d org (fd_path f) x \<and> item_active x) (c_items d)"

definition DeleteFolder ::
  "string \<Rightarrow> instant \<Rightarrow> instant \<Rightarrow> string \<Rightarrow> string \<Rightarrow> string \<Rightarrow> catalog \<Rightarrow> unit reply \<times> catalog" where
  "DeleteFolder uid now tnow org user fid =
     transaction (\<lambda>d.
       and_then (from_option ErrFolderNotFound (find_visible_folder org fid d)) (\<lambda>f.
       and_then (ensureNoActiveDeletionForPaths org [fd_path f] d) (\<lambda>_.
       if not_empty org f d then Inl ErrFolderNotEmpty
       else
         and_then (createDeletedLifecycleUnit uid org user LifecycleResourceFolder (fd_id f) (fd_path f)
                     (lifecycleParentPath (fd_path f)) None now tnow d) (\<lambda>d1.
         let mine = (\<lambda>g. fd_id g = fd_id f \<and> fd_org g = org \<and> folder_active g \<and> fd_unit g = None) in
         and_then (on_folders (sql_update mine
                     (\<lambda>g. g\<lparr>fd_deleted_at := Some now, fd_updated_by := Some user, fd_unit := Some uid\<rparr>)) d1) (\<lambda>d2.
         if rows_affected mine (c_folders d1) \<noteq> 1 then Inl ErrFolderNotFound else Inr ((), d2))))))"

section \<open>Metadata items\<close>

definition GetMetadataItemsByFolder :: "string \<Rightarrow> string \<Rightarrow> catalog \<Rightarrow> item list reply" where
  "GetMetadataItemsByFolder org fid d =
     and_then (from_option ErrFolderNotFound (find_visible_folder org fid d)) (\<lambda>_.
     Inr (order_by (\<lambda>x. (- it_created_at x, it_id x))
       (filter (\<lambda>x. it_folder x = fid \<and> item_in_org d org x \<and> visible_item d x) (c_items d))))"

definition GetMetadataItemByID :: "string \<Rightarrow> string \<Rightarrow> catalog \<Rightarrow> item reply" where
  "GetMetadataItemByID org iid d = from_option ErrMetadataNotFound (find_visible_item org iid d)"

record create_item_input =
  ci_folder :: string
  ci_title :: string
  ci_description :: "string option"
  ci_labels :: "string list"
  ci_category :: "string option"
  ci_external_source :: "string option"
  ci_external_id :: "string option"
  ci_source_url :: "string option"
  ci_thumbnail_url :: "string option"
  ci_license :: "string option"
  ci_author :: "string option"
  ci_json :: string
  ci_notes :: "string option"

definition new_item_row :: "string \<Rightarrow> instant \<Rightarrow> string \<Rightarrow> create_item_input \<Rightarrow> item" where
  "new_item_row iid now user inp =
     \<lparr>it_id = iid, it_folder = ci_folder inp, it_title = ci_title inp, it_description = ci_description inp,
      it_labels = ci_labels inp, it_category = ci_category inp, it_external_source = ci_external_source inp,
      it_external_id = ci_external_id inp, it_source_url = ci_source_url inp, it_thumbnail_url = ci_thumbnail_url inp,
      it_license = ci_license inp, it_author = ci_author inp, it_json = ci_json inp, it_notes = ci_notes inp,
      it_created_by = user, it_updated_by = None, it_created_at = now, it_updated_at = now, it_deleted_at = None,
      it_unit = None\<rparr>"

definition CreateMetadataItem ::
  "string \<Rightarrow> instant \<Rightarrow> string \<Rightarrow> string \<Rightarrow> create_item_input \<Rightarrow> catalog \<Rightarrow> item reply \<times> catalog" where
  "CreateMetadataItem iid now org user inp =
     transaction (\<lambda>d0. let d = EnsureRefs user org d0 in
       and_then (from_option ErrFolderNotFound (find_visible_folder org (ci_folder inp) d)) (\<lambda>p.
       and_then (ensureNoActiveDeletionForPaths org [fd_path p] d) (\<lambda>_.
       let x = new_item_row iid now user inp in
       and_then (on_conflict ErrMetadataConflict (on_items (\<lambda>xs. xs @ [x]) d)) (\<lambda>d1. Inr (x, d1)))))"

text \<open>A sparse update: \<open>None\<close> leaves a field alone, \<open>Some v\<close> is a field that was present with the value \<open>v\<close>.\<close>

record update_item_input =
  ui_title :: "string option option"
  ui_description :: "string option option"
  ui_labels :: "string list option option"
  ui_category :: "string option option"
  ui_external_source :: "string option option"
  ui_external_id :: "string option option"
  ui_source_url :: "string option option"
  ui_thumbnail_url :: "string option option"
  ui_license :: "string option option"
  ui_author :: "string option option"
  ui_json :: "string option option"
  ui_notes :: "string option option"

definition set_when :: "'a option \<Rightarrow> 'a \<Rightarrow> 'a" where
  "set_when new old = (case new of None \<Rightarrow> old | Some v \<Rightarrow> v)"

definition updated_item :: "update_item_input \<Rightarrow> item \<Rightarrow> item" where
  "updated_item inp x =
     x\<lparr>it_title := (case ui_title inp of Some (Some t) \<Rightarrow> t | _ \<Rightarrow> it_title x),
       it_description := set_when (ui_description inp) (it_description x),
       it_labels := (case ui_labels inp of None \<Rightarrow> it_labels x | Some None \<Rightarrow> [] | Some (Some ls) \<Rightarrow> ls),
       it_category := set_when (ui_category inp) (it_category x),
       it_external_source := set_when (ui_external_source inp) (it_external_source x),
       it_external_id := set_when (ui_external_id inp) (it_external_id x),
       it_source_url := set_when (ui_source_url inp) (it_source_url x),
       it_thumbnail_url := set_when (ui_thumbnail_url inp) (it_thumbnail_url x),
       it_license := set_when (ui_license inp) (it_license x),
       it_author := set_when (ui_author inp) (it_author x),
       it_json := (case ui_json inp of None \<Rightarrow> it_json x | Some None \<Rightarrow> ''{}'' | Some (Some j) \<Rightarrow> j),
       it_notes := set_when (ui_notes inp) (it_notes x)\<rparr>"

definition present_text :: "string option \<Rightarrow> bool" where
  "present_text v \<longleftrightarrow> (case v of None \<Rightarrow> False | Some s \<Rightarrow> trim_space s \<noteq> [])"

text \<open>The row is saved with the time of the transaction (trigger), the reply carries the time of the service.\<close>

definition save_item :: "instant \<Rightarrow> item \<Rightarrow> catalog \<Rightarrow> catalog reply" where
  "save_item tnow x =
     on_items (sql_update (\<lambda>y. it_id y = it_id x \<and> item_active y) (\<lambda>y. x\<lparr>it_updated_at := tnow, it_unit := it_unit y\<rparr>))"

definition UpdateMetadataItem ::
  "instant \<Rightarrow> instant \<Rightarrow> string \<Rightarrow> string \<Rightarrow> string \<Rightarrow> update_item_input \<Rightarrow> catalog \<Rightarrow> item reply \<times> catalog" where
  "UpdateMetadataItem now tnow org user iid inp =
     transaction (\<lambda>d0. let d = EnsureRefs user org d0 in
       and_then (from_option ErrMetadataNotFound (find_visible_item org iid d)) (\<lambda>x.
       and_then (from_option ErrNoRecord (find_visible_folder org (it_folder x) d)) (\<lambda>p.
       and_then (ensureNoActiveDeletionForPaths org [fd_path p] d) (\<lambda>_.
       let x1 = updated_item inp x in
       if present_text (it_external_source x1) \<noteq> present_text (it_external_id x1) then Inl ErrInvalidInput
       else
         let x2 = x1\<lparr>it_updated_by := Some user, it_updated_at := now\<rparr> in
         and_then (on_conflict ErrMetadataConflict (save_item tnow x2 d)) (\<lambda>d1. Inr (x2, d1))))))"

definition DeleteMetadataItem ::
  "string \<Rightarrow> instant \<Rightarrow> instant \<Rightarrow> string \<Rightarrow> string \<Rightarrow> string \<Rightarrow> catalog \<Rightarrow> unit reply \<times> catalog" where
  "DeleteMetadataItem uid now tnow org user iid =
     transaction (\<lambda>d.
       and_then (from_option ErrMetadataNotFound (find_visible_item org iid d)) (\<lambda>x.
       and_then (from_option ErrMetadataNotFound (find_visible_folder org (it_folder x) d)) (\<lambda>p.
       and_then (ensureNoActiveDeletionForPaths org [fd_path p] d) (\<lambda>_.
       and_then (createDeletedLifecycleUnit uid org user LifecycleResourceMetadata (it_id x) (fd_path p) None
                   (Some (fd_id p)) now tnow d) (\<lambda>d1.
       let mine = (\<lambda>y. it_id y = it_id x \<and> item_active y \<and> it_unit y = None) in
       and_then (on_items (sql_update mine
                   (\<lambda>y. y\<lparr>it_deleted_at := Some now, it_updated_by := Some user, it_unit := Some uid\<rparr>)) d1) (\<lambda>d2.
       if rows_affected mine (c_items d1) \<noteq> 1 then Inl ErrMetadataNotFound else Inr ((), d2)))))))"

section \<open>Search\<close>

text \<open>The escapes of \<open>escapeLike\<close>, applied one after the other.\<close>

definition escape_char :: "nat \<Rightarrow> nat list \<Rightarrow> nat list" where
  "escape_char c s = concat (map (\<lambda>x. if x = c then [92, c] else [x]) s)"

definition escapeLike :: "nat list \<Rightarrow> nat list" where
  "escapeLike s = escape_char 95 (escape_char 37 (escape_char 92 s))"

text \<open>
  \<open>LIKE\<close> on runes: \<open>%\<close> stands for any text, \<open>_\<close> for one character, a backslash makes the next character literal; a
  pattern that ends with a backslash is an error, which counts as no match here.
\<close>

fun like :: "nat list \<Rightarrow> nat list \<Rightarrow> bool" where
  "like [] s = (s = [])"
| "like (p # ps) s =
     (if p = 37 then like ps s \<or> (case s of [] \<Rightarrow> False | _ # t \<Rightarrow> like (p # ps) t)
      else if p = 92 then
        (case ps of [] \<Rightarrow> False | q # qs \<Rightarrow> (case s of [] \<Rightarrow> False | c # t \<Rightarrow> c = q \<and> like qs t))
      else (case s of [] \<Rightarrow> False | c # t \<Rightarrow> (p = 95 \<or> c = p) \<and> like ps t))"

text \<open>\<open>ILIKE\<close> compares after the case casing of the database's locale, a parameter.\<close>

definition ilike :: "(nat \<Rightarrow> nat) \<Rightarrow> nat list \<Rightarrow> string \<Rightarrow> bool" where
  "ilike casing pat s = like (map casing pat) (map casing (string_runes s))"

definition ilike_opt :: "(nat \<Rightarrow> nat) \<Rightarrow> nat list \<Rightarrow> string option \<Rightarrow> bool" where
  "ilike_opt casing pat v \<longleftrightarrow> (case v of None \<Rightarrow> False | Some s \<Rightarrow> ilike casing pat s)"

definition search_term :: "string \<Rightarrow> nat list" where
  "search_term q = [37] @ escapeLike (string_runes q) @ [37]"

record search_filter =
  sf_folder :: "string option"
  sf_query :: "string option"
  sf_labels :: "string list"
  sf_category :: "string option"
  sf_external_source :: "string option"
  sf_limit :: int
  sf_offset :: int
  sf_keyset :: bool
  sf_after_updated :: "instant option"
  sf_after_id :: "string option"

definition search_matches :: "(nat \<Rightarrow> nat) \<Rightarrow> string \<Rightarrow> search_filter \<Rightarrow> catalog \<Rightarrow> item \<Rightarrow> bool" where
  "search_matches casing org flt d x \<longleftrightarrow> item_in_org d org x \<and> visible_item d x
     \<and> (case sf_folder flt of None \<Rightarrow> True | Some fid \<Rightarrow> it_folder x = fid)
     \<and> (case sf_query flt of None \<Rightarrow> True
        | Some q \<Rightarrow> q = [] \<or> ilike casing (search_term q) (it_title x) \<or> ilike_opt casing (search_term q) (it_description x)
            \<or> ilike_opt casing (search_term q) (it_notes x))
     \<and> list_all (\<lambda>l. l \<in> set (it_labels x)) (sf_labels flt)
     \<and> (case sf_category flt of None \<Rightarrow> True | Some c \<Rightarrow> it_category x = Some c)
     \<and> (case sf_external_source flt of None \<Rightarrow> True | Some s \<Rightarrow> it_external_source x = Some s)"

definition item_order :: "item \<Rightarrow> int \<times> string" where
  "item_order x = (- it_updated_at x, it_id x)"

text \<open>
  The cursor must name a row that is still visible in the folder with that very time. The keyset page is the merge of
  the two ranges behind the cursor. (The page is returned as \<open>items\<close> while the call beside it fills \<open>items\<close>; the model
  follows the compiler, which makes the call first.)
\<close>

definition SearchMetadataItems :: "(nat \<Rightarrow> nat) \<Rightarrow> string \<Rightarrow> search_filter \<Rightarrow> catalog \<Rightarrow> item list reply" where
  "SearchMetadataItems casing org flt d =
     (let rows = filter (search_matches casing org flt d) (c_items d) in
      case (if sf_keyset flt then (sf_after_updated flt, sf_after_id flt) else (None, None)) of
        (Some t, Some i) \<Rightarrow>
          (case sf_folder flt of
             None \<Rightarrow> Inl (ErrMessage ''nil pointer dereference'')
           | Some fid \<Rightarrow>
               if \<not> sql_exists (\<lambda>x. it_id x = i \<and> it_updated_at x = t \<and> it_folder x = fid \<and> item_in_org d org x
                      \<and> visible_item d x) (c_items d)
               then Inl ErrCursorInvalid
               else Inr (take (nat (sf_limit flt)) (order_by item_order
                      (filter (\<lambda>x. it_updated_at x = t \<and> i < it_id x) rows @ filter (\<lambda>x. it_updated_at x < t) rows))))
      | _ \<Rightarrow> Inr (take (nat (sf_limit flt))
               (drop (if sf_keyset flt then 0 else nat (sf_offset flt)) (order_by item_order rows))))"

end
