(* ===== verification/Batch_Loop.thy ===== *)
theory Batch_Loop
  imports Prelude
begin

text \<open>
  The endless loop of a worker that repeats a bounded transaction until it reports an error or that nothing is left
  (\<open>for { done, err := batch(); ... }\<close>), shared by recursive deletion, restoration and purge. Round \<open>i\<close> is given its
  number, by which the callers hand it its clock readings and what other processes did before it.
\<close>

partial_function (option) run_batches ::
  "(nat \<Rightarrow> 's \<Rightarrow> ('e + bool) \<times> 's) \<Rightarrow> nat \<Rightarrow> 's \<Rightarrow> (('e + unit) \<times> 's) option" where
  "run_batches round i s =
     (case round i s of
        (Inl e, s') \<Rightarrow> Some (Inl e, s')
      | (Inr fin, s') \<Rightarrow> if fin then Some (Inr (), s') else run_batches round (Suc i) s')"

declare run_batches.simps [code]

lemma run_batches_error: "round i s = (Inl e, s') \<Longrightarrow> run_batches round i s = Some (Inl e, s')"
  by (subst run_batches.simps) simp

lemma run_batches_last: "round i s = (Inr True, s') \<Longrightarrow> run_batches round i s = Some (Inr (), s')"
  by (subst run_batches.simps) simp

lemma run_batches_next: "round i s = (Inr False, s') \<Longrightarrow> run_batches round i s = run_batches round (Suc i) s'"
  by (subst run_batches.simps) simp

text \<open>
  The contract under which the loop returns: a round that is not the last leaves less to do, and the last one
  reaches the goal.
\<close>

locale bounded_batches =
  fixes round :: "nat \<Rightarrow> 's \<Rightarrow> ('e + bool) \<times> 's"
    and ready :: "nat \<Rightarrow> 's \<Rightarrow> bool"
    and todo :: "'s \<Rightarrow> nat"
    and goal :: "'s \<Rightarrow> bool"
  assumes round_ok: "ready i s \<Longrightarrow> \<exists>fin s'. round i s = (Inr fin, s')"
    and round_next: "ready i s \<Longrightarrow> round i s = (Inr False, s') \<Longrightarrow> ready (Suc i) s' \<and> todo s' < todo s"
    and round_last: "ready i s \<Longrightarrow> round i s = (Inr True, s') \<Longrightarrow> goal s'"
begin

lemma returns: "ready i s \<Longrightarrow> \<exists>s'. run_batches round i s = Some (Inr (), s') \<and> goal s'"
proof (induction "todo s" arbitrary: i s rule: less_induct)
  case less
  obtain fin s' where r: "round i s = (Inr fin, s')" using round_ok less.prems by blast
  show ?case
  proof (cases fin)
    case True
    with r show ?thesis using round_last less.prems by (auto simp: run_batches_last)
  next
    case False
    with r have n: "ready (Suc i) s'" "todo s' < todo s" using round_next less.prems by auto
    show ?thesis using less.hyps [OF n(2,1)] r False by (simp add: run_batches_next)
  qed
qed

end

text \<open>What every round keeps holds after the loop, however it ends.\<close>

lemma run_batches_keeps:
  fixes Q :: "'s \<Rightarrow> bool" and round :: "nat \<Rightarrow> 's \<Rightarrow> ('e + bool) \<times> 's"
  assumes keep: "\<And>i s. Q s \<Longrightarrow> Q (snd (round i s))"
    and res: "run_batches round i s = Some y" and "Q s"
  shows "Q (snd y)"
proof -
  have "(\<forall>i s. Q s \<longrightarrow> Q (snd (round i s))) \<longrightarrow> Q s \<longrightarrow> Q (snd y)"
  proof (rule run_batches.raw_induct [OF _ res], intro impI)
    fix f :: "(nat \<Rightarrow> 's \<Rightarrow> ('e + bool) \<times> 's) \<Rightarrow> nat \<Rightarrow> 's \<Rightarrow> (('e + unit) \<times> 's) option"
      and r :: "nat \<Rightarrow> 's \<Rightarrow> ('e + bool) \<times> 's" and i s and y :: "('e + unit) \<times> 's"
    assume ih: "\<And>round i s y. f round i s = Some y \<Longrightarrow> (\<forall>i s. Q s \<longrightarrow> Q (snd (round i s))) \<longrightarrow> Q s \<longrightarrow> Q (snd y)"
      and eq: "(case r i s of (Inl e, s') \<Rightarrow> Some (Inl e, s')
        | (Inr fin, s') \<Rightarrow> if fin then Some (Inr (), s') else f r (Suc i) s') = Some y"
      and k: "\<forall>i s. Q s \<longrightarrow> Q (snd (r i s))" and q: "Q s"
    have "Q (snd (r i s))" using k q by blast
    then show "Q (snd y)" using ih [of r "Suc i" "snd (r i s)" y] eq k
      by (cases "r i s") (auto split: sum.splits if_splits)
  qed
  with keep \<open>Q s\<close> show ?thesis by blast
qed

end
