(* ===== verification/Folder_Deletion.thy ===== *)
theory Folder_Deletion
  imports Catalog_Facts Batch_Loop
begin

text \<open>
  Recursive soft deletion of a folder (\<open>internal/repository/folder_deletion_repository.go\<close>): preview, confirmation,
  cancellation and retry of a deletion job, its claim by a worker, the bounded batches that tombstone the subtree, and
  the settlement of a failed run. Identifiers, random bytes and the readings of the clocks are arguments
  (\<open>now\<close> of the service, \<open>tnow\<close> of the database transaction); the Redis notifications that follow a committed change
  are left out, the flag that triggers them is part of the result.
\<close>

section \<open>Rows of a subtree\<close>

definition base64_raw_url :: "nat list \<Rightarrow> string" where
  "base64_raw_url bs = map (\<lambda>c. if c = CHR ''+'' then CHR ''-'' else if c = CHR ''/'' then CHR ''_'' else c)
     (filter (\<lambda>c. c \<noteq> CHR ''='') (base64_encode bs))"

definition newConfirmationToken :: "(string \<Rightarrow> nat list) \<Rightarrow> nat list \<Rightarrow> string \<times> nat list" where
  "newConfirmationToken sha256 rnd = (let token = base64_raw_url rnd in (token, sha256 token))"

definition subtree_folder :: "string \<Rightarrow> ltree \<Rightarrow> folder \<Rightarrow> bool" where
  "subtree_folder org root f \<longleftrightarrow> fd_org f = org \<and> below (fd_path f) root"

definition countFolderDeletionRows :: "string \<Rightarrow> ltree \<Rightarrow> catalog \<Rightarrow> int \<times> int \<times> int \<times> int" where
  "countFolderDeletionRows org root d =
     (int (rows_affected (\<lambda>f. subtree_folder org root f \<and> folder_active f) (c_folders d)),
      int (rows_affected (\<lambda>x. item_below d org root x \<and> item_active x) (c_items d)),
      int (rows_affected (\<lambda>f. subtree_folder org root f \<and> \<not> folder_active f) (c_folders d)),
      int (rows_affected (\<lambda>x. item_below d org root x \<and> \<not> item_active x) (c_items d)))"

section \<open>Preview\<close>

record deletion_preview =
  pv_id :: string
  pv_root :: string
  pv_active_folders :: int
  pv_active_metadata :: int
  pv_tombstone_folders :: int
  pv_tombstone_metadata :: int
  pv_total :: int
  pv_token :: string
  pv_expires :: instant

definition previewFromJob :: "deletion_job \<Rightarrow> string \<Rightarrow> deletion_preview" where
  "previewFromJob j token = \<lparr>pv_id = dj_id j, pv_root = dj_root j, pv_active_folders = dj_active_folders j,
     pv_active_metadata = dj_active_metadata j, pv_tombstone_folders = dj_tombstone_folders j,
     pv_tombstone_metadata = dj_tombstone_metadata j, pv_total = TotalRows j, pv_token = token,
     pv_expires = (case dj_preview_expires j of None \<Rightarrow> 0 | Some t \<Rightarrow> t)\<rparr>"

text \<open>The ORM's default scope hides tombstoned rows, but not active rows below a tombstone.\<close>

definition find_active_folder :: "string \<Rightarrow> string \<Rightarrow> catalog \<Rightarrow> folder option" where
  "find_active_folder org fid d = find (\<lambda>f. fd_id f = fid \<and> fd_org f = org \<and> folder_active f) (c_folders d)"

definition previewed_job :: "string \<Rightarrow> string \<Rightarrow> string \<Rightarrow> nat list \<Rightarrow> instant \<Rightarrow> instant \<Rightarrow> folder \<Rightarrow> int \<times> int \<times> int \<times> int
    \<Rightarrow> deletion_job" where
  "previewed_job jid org user hash expires tnow f counts =
     (case counts of (af, am, tf, tm) \<Rightarrow>
       \<lparr>dj_id = jid, dj_org = org, dj_root = fd_id f, dj_path = fd_path f, dj_requested_by = user,
        dj_status = FolderDeletionPreviewed, dj_token_hash = Some hash, dj_preview_expires = Some expires,
        dj_active_folders = af, dj_active_metadata = am, dj_tombstone_folders = tf, dj_tombstone_metadata = tm,
        dj_deleted_folders = 0, dj_deleted_metadata = 0, dj_attempts = 0, dj_manual_retries = 0,
        dj_next_run = None, dj_lease_owner = None, dj_lease_expires = None, dj_last_error = None,
        dj_queued_at = None, dj_started_at = None, dj_completed_at = None, dj_cancelled_at = None,
        dj_created_at = tnow\<rparr>)"

definition PreviewFolderDeletion ::
  "(string \<Rightarrow> nat list) \<Rightarrow> nat list \<Rightarrow> string \<Rightarrow> instant \<Rightarrow> instant \<Rightarrow> string \<Rightarrow> string \<Rightarrow> string \<Rightarrow> catalog
   \<Rightarrow> deletion_preview reply \<times> catalog" where
  "PreviewFolderDeletion sha256 rnd jid now tnow org user fid =
     transaction (\<lambda>d.
       and_then (from_option ErrFolderNotFound (find_active_folder org fid d)) (\<lambda>f.
       and_then (ensureNoActiveDeletionForPaths org [fd_path f] d) (\<lambda>_.
       let (token, hash) = newConfirmationToken sha256 rnd;
           j = previewed_job jid org user hash (now + FolderDeletionPreviewTTL) tnow f
                 (countFolderDeletionRows org (fd_path f) d)
       in and_then (on_djobs (\<lambda>js. js @ [j]) d) (\<lambda>d1. Inr (previewFromJob j token, d1)))))"

section \<open>The visibility gate\<close>

definition newest_deleting_unit :: "string \<Rightarrow> string \<Rightarrow> catalog \<Rightarrow> unit_row option" where
  "newest_deleting_unit org root d =
     (case order_by (\<lambda>u. (- lu_created_at u, lu_id u)) (filter (deleting_unit org root) (c_units d)) of
        [] \<Rightarrow> None | u # _ \<Rightarrow> Some u)"

definition ensureFolderDeletionLifecycleUnit ::
  "deletion_job \<Rightarrow> string \<Rightarrow> instant \<Rightarrow> catalog \<Rightarrow> (string \<times> catalog) reply" where
  "ensureFolderDeletionLifecycleUnit j uid tnow d =
     and_then (case newest_deleting_unit (dj_org j) (dj_root j) d of
                 Some u \<Rightarrow> Inr (lu_id u, d)
               | None \<Rightarrow>
                   and_then (createDeletingLifecycleUnit uid (dj_org j) (dj_requested_by j) (dj_root j) (dj_path j)
                               (lifecycleParentPath (dj_path j)) tnow d) (\<lambda>d1. Inr (uid, d1))) (\<lambda>(unit, d1).
     let root = (\<lambda>f. fd_id f = dj_root j \<and> fd_org f = dj_org j \<and> \<not> folder_active f) in
     and_then (on_folders (sql_update root (\<lambda>f. f\<lparr>fd_unit := Some unit\<rparr>)) d1) (\<lambda>d2.
     if rows_affected root (c_folders d1) \<noteq> 1 then Inl (ErrMessage ''lifecycle deletion root is missing or active'')
     else Inr (unit, d2)))"

definition closeFolderDeletionVisibilityGate ::
  "deletion_job \<Rightarrow> instant \<Rightarrow> string \<Rightarrow> instant \<Rightarrow> catalog \<Rightarrow> ((string \<times> bool) \<times> catalog) reply" where
  "closeFolderDeletionVisibilityGate j now uid tnow d =
     (let root = (\<lambda>f. fd_id f = dj_root j \<and> fd_org f = dj_org j \<and> folder_active f) in
      and_then (on_folders (sql_update root
                  (\<lambda>f. f\<lparr>fd_deleted_at := Some now, fd_updated_by := Some (dj_requested_by j)\<rparr>)) d) (\<lambda>d1.
      and_then (ensureFolderDeletionLifecycleUnit j uid tnow d1) (\<lambda>(unit, d2).
      Inr ((unit, rows_affected root (c_folders d) = 1), d2))))"

definition createFolderDeletionLifecycleJob ::
  "deletion_job \<Rightarrow> string \<Rightarrow> instant \<Rightarrow> string \<Rightarrow> instant \<Rightarrow> catalog \<Rightarrow> catalog reply" where
  "createFolderDeletionLifecycleJob j unit now jid tnow d =
     on_jobs (\<lambda>js. js @ [\<lparr>lj_id = jid, lj_org = dj_org j, lj_unit = Some unit, lj_legacy = Some (dj_id j),
        lj_type = LifecycleResourceFolder, lj_root = dj_root j, lj_root_folder = dj_root j, lj_path = dj_path j,
        lj_initiator = LifecycleJobInitiatorUser, lj_requested_by = Some (dj_requested_by j),
        lj_operation = LifecycleJobDelete, lj_status = LifecycleJobQueued,
        lj_checkpoint = empty_checkpoint\<lparr>cp_root_closed := True, cp_folder_rows := dj_deleted_folders j\<rparr>,
        lj_attempts = dj_attempts j, lj_next_run = Some now, lj_lease_owner = None, lj_lease_expires = None,
        lj_failure_code = None, lj_queued_at = Some now, lj_started_at = None, lj_completed_at = None,
        lj_created_at = tnow\<rparr>]) d"

section \<open>Confirmation\<close>

definition delete_djob :: "deletion_job \<Rightarrow> catalog \<Rightarrow> catalog reply" where
  "delete_djob j d = on_djobs (sql_delete (\<lambda>r. dj_id r = dj_id j)) d"

definition preview_valid :: "(string \<Rightarrow> nat list) \<Rightarrow> string \<Rightarrow> string \<Rightarrow> instant \<Rightarrow> deletion_job \<Rightarrow> bool" where
  "preview_valid sha256 fid token now j \<longleftrightarrow>
     (case dj_preview_expires j of None \<Rightarrow> False | Some t \<Rightarrow> now < t)
     \<and> dj_token_hash j = Some (sha256 token) \<and> dj_root j = fid"

definition confirm_overlap :: "deletion_job \<Rightarrow> string \<Rightarrow> ltree \<Rightarrow> deletion_job \<Rightarrow> bool" where
  "confirm_overlap j org p k \<longleftrightarrow> dj_id k \<noteq> dj_id j \<and> deletion_overlaps org p k"

definition confirm_work ::
  "(string \<Rightarrow> nat list) \<Rightarrow> string \<Rightarrow> string \<Rightarrow> instant \<Rightarrow> instant \<Rightarrow> string \<Rightarrow> string \<Rightarrow> string \<Rightarrow> string \<Rightarrow> string \<Rightarrow> catalog
   \<Rightarrow> ((deletion_job \<times> bool) \<times> catalog) reply" where
  "confirm_work sha256 uid jid now tnow org user fid pid token d =
     and_then (from_option ErrDeletionPreviewStale
        (find (\<lambda>j. dj_id j = pid \<and> dj_org j = org \<and> dj_requested_by j = user \<and> dj_status j = FolderDeletionPreviewed)
           (c_djobs d))) (\<lambda>j.
     if \<not> preview_valid sha256 fid token now j
     then and_then (delete_djob j d) (\<lambda>_. Inl ErrDeletionPreviewStale)
     else and_then (from_option ErrDeletionPreviewStale (find_active_folder org fid d)) (\<lambda>f.
     if fd_path f \<noteq> dj_path j then Inl ErrDeletionPreviewStale
     else if sql_exists (confirm_overlap j org (fd_path f)) (c_djobs d) then Inl ErrFolderDeletionInProgress
     else if countFolderDeletionRows org (fd_path f) d
               \<noteq> (dj_active_folders j, dj_active_metadata j, dj_tombstone_folders j, dj_tombstone_metadata j)
     then and_then (delete_djob j d) (\<lambda>_. Inl ErrDeletionPreviewStale)
     else
       let j1 = j\<lparr>dj_status := FolderDeletionQueued, dj_token_hash := None, dj_preview_expires := None,
                  dj_queued_at := Some now, dj_next_run := Some now\<rparr> in
       and_then (closeFolderDeletionVisibilityGate j1 now uid tnow d) (\<lambda>((unit, closed), d1).
       let j2 = (if closed then j1\<lparr>dj_deleted_folders := dj_deleted_folders j1 + 1\<rparr> else j1) in
       and_then (save_djob j2 d1) (\<lambda>d2.
       and_then (createFolderDeletionLifecycleJob j2 unit now jid tnow d2) (\<lambda>d3.
       Inr ((j2, closed), d3))))))"

definition ConfirmFolderDeletion ::
  "(string \<Rightarrow> nat list) \<Rightarrow> string \<Rightarrow> string \<Rightarrow> instant \<Rightarrow> instant \<Rightarrow> string \<Rightarrow> string \<Rightarrow> string \<Rightarrow> string \<Rightarrow> string \<Rightarrow> catalog
   \<Rightarrow> (deletion_job \<times> bool) reply \<times> catalog" where
  "ConfirmFolderDeletion sha256 uid jid now tnow org user fid pid token =
     transaction (confirm_work sha256 uid jid now tnow org user fid pid token)"

section \<open>Reading, cancelling and retrying a job\<close>

definition authorizeFolderDeletionJob :: "deletion_job \<Rightarrow> string \<Rightarrow> bool \<Rightarrow> unit reply" where
  "authorizeFolderDeletionJob j actor admin = require (dj_requested_by j = actor \<or> admin) ErrDeletionJobNotFound"

definition getAuthorizedJob :: "string \<Rightarrow> string \<Rightarrow> string \<Rightarrow> bool \<Rightarrow> catalog \<Rightarrow> deletion_job reply" where
  "getAuthorizedJob org actor jid admin d =
     and_then (from_option ErrDeletionJobNotFound
        (find (\<lambda>j. dj_id j = jid \<and> dj_org j = org \<and> dj_status j \<noteq> FolderDeletionPreviewed) (c_djobs d))) (\<lambda>j.
     and_then (authorizeFolderDeletionJob j actor admin) (\<lambda>_. Inr j))"

definition GetFolderDeletionJob :: "string \<Rightarrow> string \<Rightarrow> string \<Rightarrow> bool \<Rightarrow> catalog \<Rightarrow> deletion_job reply" where
  "GetFolderDeletionJob org actor jid admin d = getAuthorizedJob org actor jid admin d"

definition findLifecycleJobForFolderDeletion :: "string \<Rightarrow> catalog \<Rightarrow> lifecycle_job option" where
  "findLifecycleJobForFolderDeletion did d = find (\<lambda>j. lj_legacy j = Some did) (c_jobs d)"

definition cancel_reopen :: "deletion_job \<Rightarrow> catalog \<Rightarrow> (bool \<times> catalog) reply" where
  "cancel_reopen j d =
     (case find (deleting_unit (dj_org j) (dj_root j)) (c_units d) of
        None \<Rightarrow> Inr (False, d)
      | Some u \<Rightarrow>
          (let root = (\<lambda>f. fd_id f = dj_root j \<and> fd_org f = dj_org j \<and> fd_unit f = Some (lu_id u) \<and> \<not> folder_active f) in
           and_then (on_folders (sql_update root (\<lambda>f. f\<lparr>fd_deleted_at := None, fd_unit := None\<rparr>)) d) (\<lambda>d1.
           if rows_affected root (c_folders d) \<noteq> 1
           then Inl (ErrMessage ''lifecycle deletion root is not safely cancellable'')
           else and_then (on_units (sql_update (\<lambda>r. lu_id r = lu_id u) (\<lambda>r. r\<lparr>lu_state := LifecycleRestored\<rparr>)) d1)
                  (\<lambda>d2. Inr (True, d2)))))"

definition CancelFolderDeletionJob ::
  "instant \<Rightarrow> string \<Rightarrow> string \<Rightarrow> string \<Rightarrow> bool \<Rightarrow> catalog \<Rightarrow> (deletion_job \<times> bool) reply \<times> catalog" where
  "CancelFolderDeletionJob now org actor jid admin =
     transaction (\<lambda>d.
       and_then (getAuthorizedJob org actor jid admin d) (\<lambda>j.
       let l = findLifecycleJobForFolderDeletion (dj_id j) d in
       if dj_status j \<noteq> FolderDeletionQueued \<or> (\<exists>lj\<in>set_option l. lj_status lj \<noteq> LifecycleJobQueued)
       then Inl ErrDeletionJobNotCancellable
       else
         and_then (cancel_reopen j d) (\<lambda>(reopened, d1).
         and_then (case l of None \<Rightarrow> Inr d1
                   | Some lj \<Rightarrow> save_job (lj\<lparr>lj_status := LifecycleJobSuppressed, lj_next_run := None,
                                          lj_completed_at := Some now\<rparr>) d1) (\<lambda>d2.
         let j1 = j\<lparr>dj_status := FolderDeletionCancelled, dj_cancelled_at := Some now, dj_next_run := None\<rparr> in
         and_then (save_djob j1 d2) (\<lambda>d3. Inr ((j1, reopened), d3))))))"

definition RetryFolderDeletionJob ::
  "instant \<Rightarrow> string \<Rightarrow> string \<Rightarrow> string \<Rightarrow> bool \<Rightarrow> catalog \<Rightarrow> deletion_job reply \<times> catalog" where
  "RetryFolderDeletionJob now org actor jid admin =
     transaction (\<lambda>d.
       and_then (getAuthorizedJob org actor jid admin d) (\<lambda>j.
       let l = findLifecycleJobForFolderDeletion (dj_id j) d in
       if dj_status j \<noteq> FolderDeletionFailed \<or> (\<exists>lj\<in>set_option l. lj_status lj \<noteq> LifecycleJobFailed)
       then Inl ErrDeletionJobNotCancellable
       else
         and_then (case l of None \<Rightarrow> Inr d
                   | Some lj \<Rightarrow> save_job (lj\<lparr>lj_status := LifecycleJobQueued, lj_attempts := 0,
                        lj_next_run := Some now, lj_lease_owner := None, lj_lease_expires := None,
                        lj_failure_code := None, lj_completed_at := None\<rparr>) d) (\<lambda>d1.
         let j1 = j\<lparr>dj_status := FolderDeletionQueued, dj_manual_retries := dj_manual_retries j + 1,
                    dj_attempts := 0, dj_next_run := Some now, dj_lease_owner := None, dj_lease_expires := None,
                    dj_last_error := None\<rparr> in
         and_then (save_djob j1 d1) (\<lambda>d2. Inr (j1, d2)))))"

section \<open>Claiming a job\<close>

text \<open>\<open>ORDER BY queued_at ASC NULLS LAST, created_at ASC\<close>.\<close>

definition nulls_last :: "instant option \<Rightarrow> int \<times> instant" where
  "nulls_last x = (case x of None \<Rightarrow> (1, 0) | Some t \<Rightarrow> (0, t))"

definition first_row :: "('r \<Rightarrow> 'k::linorder) \<Rightarrow> ('r \<Rightarrow> bool) \<Rightarrow> 'r list \<Rightarrow> 'r option" where
  "first_row k c rs = (case order_by k (filter c rs) of [] \<Rightarrow> None | r # _ \<Rightarrow> Some r)"

lemma first_row_SomeD:
  assumes "first_row k c rs = Some r"
  shows "r \<in> set rs \<and> c r"
proof -
  have "r \<in> set (order_by k (filter c rs))"
    using assms by (cases "order_by k (filter c rs)") (auto simp: first_row_def)
  then show ?thesis by (simp add: order_by_def)
qed

lemma first_row_None: "first_row k c rs = None \<longleftrightarrow> (\<forall>r\<in>set rs. \<not> c r)"
proof -
  have "first_row k c rs = None \<longleftrightarrow> order_by k (filter c rs) = []" by (auto simp: first_row_def split: list.splits)
  also have "\<dots> \<longleftrightarrow> set (filter c rs) = {}" by (metis order_by_set(1) set_empty)
  finally show ?thesis by auto
qed

definition due :: "instant \<Rightarrow> instant option \<Rightarrow> bool" where
  "due now t \<longleftrightarrow> (case t of None \<Rightarrow> True | Some x \<Rightarrow> x \<le> now)"

definition lease_over :: "instant \<Rightarrow> instant option \<Rightarrow> bool" where
  "lease_over now t \<longleftrightarrow> (case t of None \<Rightarrow> False | Some x \<Rightarrow> x < now)"

definition adoptable :: "catalog \<Rightarrow> instant \<Rightarrow> deletion_job \<Rightarrow> bool" where
  "adoptable d now j \<longleftrightarrow>
     ((dj_status j = FolderDeletionQueued \<and> due now (dj_next_run j))
      \<or> (dj_status j = FolderDeletionRunning \<and> lease_over now (dj_lease_expires j)))
     \<and> \<not> sql_exists (\<lambda>l. lj_legacy l = Some (dj_id j)) (c_jobs d)"

definition adoptNextLegacyFolderDeletionJob ::
  "instant \<Rightarrow> string \<Rightarrow> string \<Rightarrow> instant \<Rightarrow> catalog \<Rightarrow> ((deletion_job \<times> bool) option \<times> catalog) reply" where
  "adoptNextLegacyFolderDeletionJob now uid jid tnow d =
     (case first_row (\<lambda>j. (nulls_last (dj_queued_at j), dj_created_at j)) (adoptable d now) (c_djobs d) of
        None \<Rightarrow> Inr (None, d)
      | Some j \<Rightarrow>
          and_then (closeFolderDeletionVisibilityGate j now uid tnow d) (\<lambda>((unit, closed), d1).
          let j1 = (if closed then j\<lparr>dj_deleted_folders := dj_deleted_folders j + 1\<rparr> else j)
                     \<lparr>dj_status := FolderDeletionQueued, dj_next_run := Some now, dj_lease_owner := None,
                      dj_lease_expires := None\<rparr> in
          and_then (save_djob j1 d1) (\<lambda>d2.
          and_then (createFolderDeletionLifecycleJob j1 unit now jid tnow d2) (\<lambda>d3.
          Inr (Some (j1, closed), d3)))))"

text \<open>Which jobs a worker may take: queued ones that are due and running ones whose lease is over.\<close>

definition job_claimable :: "instant \<Rightarrow> lifecycle_job \<Rightarrow> bool" where
  "job_claimable now j \<longleftrightarrow>
     (lj_status j = LifecycleJobQueued \<and> due now (lj_next_run j))
     \<or> (lj_status j = LifecycleJobRunning \<and> lease_over now (lj_lease_expires j))"

definition job_order :: "lifecycle_job \<Rightarrow> (int \<times> instant) \<times> instant" where
  "job_order j = (nulls_last (lj_queued_at j), lj_created_at j)"

definition internal_error :: string where
  "internal_error = ''INTERNAL_ERROR''"

definition started :: "instant \<Rightarrow> instant option \<Rightarrow> instant option" where
  "started now t = (case t of None \<Rightarrow> Some now | Some x \<Rightarrow> Some x)"

definition leased_job :: "string \<Rightarrow> instant \<Rightarrow> lifecycle_job \<Rightarrow> lifecycle_job" where
  "leased_job worker now j =
     j\<lparr>lj_status := LifecycleJobRunning, lj_attempts := lj_attempts j + 1, lj_lease_owner := Some worker,
       lj_lease_expires := Some (now + FolderDeletionLeaseDuration), lj_next_run := None,
       lj_started_at := started now (lj_started_at j)\<rparr>"

text \<open>The compatibility row follows the claimed job.\<close>

definition leased_djob :: "string \<Rightarrow> instant \<Rightarrow> lifecycle_job \<Rightarrow> deletion_job \<Rightarrow> deletion_job" where
  "leased_djob worker now j1 k =
     k\<lparr>dj_status := FolderDeletionRunning, dj_attempts := lj_attempts j1, dj_lease_owner := Some worker,
       dj_lease_expires := Some (now + FolderDeletionLeaseDuration), dj_next_run := None,
       dj_started_at := started now (dj_started_at k)\<rparr>"

definition failed_job :: "instant \<Rightarrow> lifecycle_job \<Rightarrow> lifecycle_job" where
  "failed_job now j =
     j\<lparr>lj_status := LifecycleJobFailed, lj_next_run := None, lj_lease_owner := None, lj_lease_expires := None,
       lj_failure_code := Some internal_error, lj_completed_at := Some now\<rparr>"

definition failed_djob :: "lifecycle_job \<Rightarrow> deletion_job \<Rightarrow> deletion_job" where
  "failed_djob j k =
     k\<lparr>dj_status := FolderDeletionFailed, dj_attempts := lj_attempts j, dj_next_run := None, dj_lease_owner := None,
       dj_lease_expires := None, dj_last_error := Some internal_error\<rparr>"

definition find_djob :: "string option \<Rightarrow> string \<Rightarrow> catalog \<Rightarrow> deletion_job option" where
  "find_djob did org d = find (\<lambda>k. did = Some (dj_id k) \<and> dj_org k = org) (c_djobs d)"

definition ClaimNextFolderDeletionJob ::
  "instant \<Rightarrow> string \<Rightarrow> string \<Rightarrow> instant \<Rightarrow> string \<Rightarrow> catalog \<Rightarrow> deletion_job option reply \<times> catalog" where
  "ClaimNextFolderDeletionJob now uid jid tnow worker =
     transaction (\<lambda>d.
       and_then (adoptNextLegacyFolderDeletionJob now uid jid tnow d) (\<lambda>(adopted, d1).
       case first_row job_order (\<lambda>j. lj_operation j = LifecycleJobDelete \<and> lj_legacy j \<noteq> None \<and> job_claimable now j)
              (c_jobs d1) of
         None \<Rightarrow> Inr (None, d1)
       | Some j \<Rightarrow>
           and_then (from_option ErrNoRecord (find_djob (lj_legacy j) (lj_org j) d1)) (\<lambda>k.
           if FolderDeletionMaxAttempts \<le> lj_attempts j
           then and_then (save_job (failed_job now j) d1) (\<lambda>d2.
                and_then (save_djob (failed_djob j k) d2) (\<lambda>d3. Inr (None, d3)))
           else
             let j1 = leased_job worker now j; k1 = leased_djob worker now j1 k in
             and_then (save_job j1 d1) (\<lambda>d2.
             and_then (save_djob k1 d2) (\<lambda>d3. Inr (Some k1, d3))))))"

section \<open>One batch\<close>

text \<open>
  The clock readings of a batch in their order, the identifier of a unit it may have to create, and the rows that
  other transactions hold locked at that moment (\<open>SKIP LOCKED\<close>).
\<close>

record batch_env =
  be_gate_now :: instant
  be_unit_id :: string
  be_tnow :: instant
  be_items_now :: instant
  be_now :: instant
  be_folders_now :: instant
  be_done_now :: instant
  be_locked_items :: "string list"
  be_locked_folders :: "string list"

definition deletion_items :: "batch_env \<Rightarrow> string \<Rightarrow> ltree \<Rightarrow> catalog \<Rightarrow> item list" where
  "deletion_items e org root d =
     take FolderDeletionMetadataBatchSize (order_by it_id
       (filter (\<lambda>x. item_below d org root x \<and> item_active x \<and> it_id x \<notin> set (be_locked_items e)) (c_items d)))"

text \<open>\<open>ORDER BY nlevel(path) DESC, path DESC\<close>: the deepest folders first.\<close>

definition deletion_folders :: "batch_env \<Rightarrow> string \<Rightarrow> ltree \<Rightarrow> catalog \<Rightarrow> folder list" where
  "deletion_folders e org root d =
     take FolderDeletionFolderBatchSize (rev (order_by (\<lambda>f. (length (fd_path f), fd_path f))
       (filter (\<lambda>f. subtree_folder org root f \<and> folder_active f \<and> fd_id f \<notin> set (be_locked_folders e)) (c_folders d))))"

definition tombstone_items :: "instant \<Rightarrow> string \<Rightarrow> string \<Rightarrow> string list \<Rightarrow> catalog \<Rightarrow> catalog reply" where
  "tombstone_items now user unit ids =
     on_items (sql_update (\<lambda>x. it_id x \<in> set ids)
       (\<lambda>x. x\<lparr>it_deleted_at := Some now, it_updated_by := Some user, it_unit := Some unit\<rparr>))"

definition tombstone_folders :: "instant \<Rightarrow> string \<Rightarrow> string \<Rightarrow> string list \<Rightarrow> catalog \<Rightarrow> catalog reply" where
  "tombstone_folders now user unit ids =
     on_folders (sql_update (\<lambda>f. fd_id f \<in> set ids)
       (\<lambda>f. f\<lparr>fd_deleted_at := Some now, fd_updated_by := Some user, fd_unit := Some unit\<rparr>))"

definition saveRunningFolderDeletionProgress ::
  "lifecycle_job \<Rightarrow> deletion_job \<Rightarrow> checkpoint \<Rightarrow> instant \<Rightarrow> catalog \<Rightarrow> catalog reply" where
  "saveRunningFolderDeletionProgress j k cp now d =
     and_then (save_job (j\<lparr>lj_checkpoint := cp, lj_lease_expires := Some (now + FolderDeletionLeaseDuration)\<rparr>) d)
       (save_djob (k\<lparr>dj_lease_expires := Some (now + FolderDeletionLeaseDuration)\<rparr>))"

definition owned_by :: "string \<Rightarrow> lifecycle_job \<Rightarrow> bool" where
  "owned_by worker j \<longleftrightarrow> lj_status j = LifecycleJobRunning \<and> lj_lease_owner j = Some worker"

definition find_running_djob :: "string \<Rightarrow> string \<Rightarrow> catalog \<Rightarrow> deletion_job option" where
  "find_running_djob did worker d =
     find (\<lambda>k. dj_id k = did \<and> dj_status k = FolderDeletionRunning \<and> dj_lease_owner k = Some worker) (c_djobs d)"

text \<open>Both rows of the job of a worker that still holds it.\<close>

definition held_deletion :: "string \<Rightarrow> string \<Rightarrow> catalog \<Rightarrow> (lifecycle_job \<times> deletion_job) reply" where
  "held_deletion did worker d =
     (case findLifecycleJobForFolderDeletion did d of
        None \<Rightarrow> Inl (ErrMessage ''lifecycle deletion job claim was lost'')
      | Some j \<Rightarrow>
          if \<not> owned_by worker j then Inl (ErrMessage ''lifecycle deletion job claim was lost'')
          else and_then (from_option (ErrMessage ''folder deletion compatibility job claim was lost'')
                           (find_running_djob did worker d)) (\<lambda>k. Inr (j, k)))"

definition complete_deletion ::
  "batch_env \<Rightarrow> lifecycle_job \<Rightarrow> deletion_job \<Rightarrow> checkpoint \<Rightarrow> catalog \<Rightarrow> catalog reply" where
  "complete_deletion e j k cp d =
     and_then (completeDeletingLifecycleUnit (dj_org k) (dj_root k) (be_done_now e) d) (\<lambda>d1.
     and_then (save_job (j\<lparr>lj_status := LifecycleJobSucceeded, lj_checkpoint := cp, lj_lease_owner := None,
                 lj_lease_expires := None, lj_completed_at := Some (be_done_now e)\<rparr>) d1)
       (save_djob (k\<lparr>dj_status := FolderDeletionSucceeded, dj_lease_owner := None, dj_lease_expires := None,
          dj_completed_at := Some (be_done_now e)\<rparr>)))"

definition deletion_batch ::
  "batch_env \<Rightarrow> lifecycle_job \<Rightarrow> deletion_job \<Rightarrow> string \<Rightarrow> checkpoint \<Rightarrow> catalog \<Rightarrow> (bool \<times> catalog) reply" where
  "deletion_batch e j k unit cp d =
     (let xs = deletion_items e (dj_org k) (dj_path k) d in
      and_then (tombstone_items (be_items_now e) (dj_requested_by k) unit (map it_id xs) d) (\<lambda>d1.
      if xs \<noteq> []
      then and_then (saveRunningFolderDeletionProgress j
                       (k\<lparr>dj_deleted_metadata := dj_deleted_metadata k + int (length xs)\<rparr>)
                       (cp\<lparr>cp_metadata_batches := cp_metadata_batches cp + 1,
                           cp_metadata_rows := cp_metadata_rows cp + int (length xs)\<rparr>) (be_now e) d1)
             (\<lambda>d2. Inr (False, d2))
      else
        let fs = deletion_folders e (dj_org k) (dj_path k) d1 in
        and_then (tombstone_folders (be_folders_now e) (dj_requested_by k) unit (map fd_id fs) d1) (\<lambda>d2.
        if fs \<noteq> []
        then and_then (saveRunningFolderDeletionProgress j
                         (k\<lparr>dj_deleted_folders := dj_deleted_folders k + int (length fs)\<rparr>)
                         (cp\<lparr>cp_folder_batches := cp_folder_batches cp + 1,
                             cp_folder_rows := cp_folder_rows cp + int (length fs)\<rparr>) (be_now e) d2)
               (\<lambda>d3. Inr (False, d3))
        else and_then (complete_deletion e j k cp d2) (\<lambda>d3. Inr (True, d3)))))"

definition batch_work :: "batch_env \<Rightarrow> string \<Rightarrow> string \<Rightarrow> catalog \<Rightarrow> ((bool \<times> bool) \<times> catalog) reply" where
  "batch_work e did worker d =
     and_then (held_deletion did worker d) (\<lambda>(j, k).
     case lj_unit j of
       None \<Rightarrow> Inl (ErrMessage ''lifecycle deletion job has no unit'')
     | Some unit \<Rightarrow>
         and_then (closeFolderDeletionVisibilityGate k (be_gate_now e) (be_unit_id e) (be_tnow e) d) (\<lambda>((u, closed), d1).
         if u \<noteq> unit then Inl (ErrMessage ''lifecycle deletion job is linked to the wrong unit'')
         else
           let cp = (lj_checkpoint j)\<lparr>cp_root_closed := True\<rparr>;
               k1 = (if closed then k\<lparr>dj_deleted_folders := dj_deleted_folders k + 1\<rparr> else k);
               cp1 = (if closed then cp\<lparr>cp_folder_rows := cp_folder_rows cp + 1\<rparr> else cp) in
           and_then (deletion_batch e j k1 unit cp1 d1) (\<lambda>(fin, d2). Inr ((fin, closed), d2))))"

definition processFolderDeletionBatch ::
  "batch_env \<Rightarrow> string \<Rightarrow> string \<Rightarrow> catalog \<Rightarrow> (bool \<times> bool) reply \<times> catalog" where
  "processFolderDeletionBatch e did worker = transaction (batch_work e did worker)"

section \<open>The run and its failure\<close>

text \<open>
  The worker repeats batches; batch \<open>i\<close> runs with its own clock readings, after whatever other processes did before
  it. When a batch closed the gate, the row is read again for the notification.
\<close>

definition deletion_round ::
  "(nat \<Rightarrow> batch_env) \<Rightarrow> (nat \<Rightarrow> catalog \<Rightarrow> catalog) \<Rightarrow> string \<Rightarrow> string \<Rightarrow> nat \<Rightarrow> catalog \<Rightarrow> bool reply \<times> catalog" where
  "deletion_round env others did worker i d =
     (case processFolderDeletionBatch (env i) did worker (others i d) of
        (Inl e, d1) \<Rightarrow> (Inl e, d1)
      | (Inr (fin, closed), d1) \<Rightarrow>
          if closed \<and> \<not> sql_exists (\<lambda>k. dj_id k = did) (c_djobs d1) then (Inl ErrNoRecord, d1) else (Inr fin, d1))"

definition ProcessFolderDeletionJob ::
  "(nat \<Rightarrow> batch_env) \<Rightarrow> (nat \<Rightarrow> catalog \<Rightarrow> catalog) \<Rightarrow> string \<Rightarrow> string \<Rightarrow> catalog \<Rightarrow> (unit reply \<times> catalog) option" where
  "ProcessFolderDeletionJob env others did worker = run_batches (deletion_round env others did worker) 0"

definition automaticRetryDelay :: "int \<Rightarrow> duration" where
  "automaticRetryDelay attempt =
     (if attempt = 1 then 5 * second else if attempt = 2 then 30 * second else 2 * minute)"

definition FailFolderDeletionJob :: "instant \<Rightarrow> string \<Rightarrow> string \<Rightarrow> catalog \<Rightarrow> unit reply \<times> catalog" where
  "FailFolderDeletionJob now did worker =
     transaction (\<lambda>d.
       and_then (map_error (\<lambda>e. if e = ErrMessage ''folder deletion compatibility job claim was lost'' then ErrNoRecord else e)
                   (held_deletion did worker d)) (\<lambda>(j, k).
       let j1 = j\<lparr>lj_failure_code := Some internal_error, lj_lease_owner := None, lj_lease_expires := None\<rparr>;
           k1 = k\<lparr>dj_last_error := Some internal_error, dj_lease_owner := None, dj_lease_expires := None\<rparr> in
       if FolderDeletionMaxAttempts \<le> dj_attempts k
       then and_then (save_job (j1\<lparr>lj_status := LifecycleJobFailed, lj_next_run := None, lj_completed_at := Some now\<rparr>) d)
              (\<lambda>d1. and_then (save_djob (k1\<lparr>dj_status := FolderDeletionFailed, dj_next_run := None\<rparr>) d1)
              (\<lambda>d2. Inr ((), d2)))
       else
         let next_run = now + automaticRetryDelay (dj_attempts k) in
         and_then (save_job (j1\<lparr>lj_status := LifecycleJobQueued, lj_next_run := Some next_run\<rparr>) d) (\<lambda>d1.
         and_then (save_djob (k1\<lparr>dj_status := FolderDeletionQueued, dj_next_run := Some next_run\<rparr>) d1) (\<lambda>d2.
         Inr ((), d2)))))"

end
