(* ===== verification/Lifecycle_Restore.thy ===== *)
theory Lifecycle_Restore
  imports Folder_Deletion
begin

text \<open>
  Restoration from the recycle bin: the direct restore of one folder or item
  (\<open>internal/repository/asset_repository_restore.go\<close>), the queued restore of a whole lifecycle unit, and the claim,
  batches and failures of lifecycle jobs (\<open>internal/repository/lifecycle_restore_repository.go\<close>). Notifications that
  follow a commit are left out.
\<close>

section \<open>Names that are free\<close>

definition display_candidate :: "string \<Rightarrow> nat \<Rightarrow> string" where
  "display_candidate base n = base @ '' ('' @ format_int (int n) @ '')''"

lemma display_candidate_inj: "display_candidate base m = display_candidate base n \<Longrightarrow> m = n"
  by (auto simp: display_candidate_def dest: format_int_inj)

function next_suffix :: "string \<Rightarrow> string list \<Rightarrow> nat \<Rightarrow> string" where
  "next_suffix base used n =
     (let c = display_candidate base n in if c \<in> set used then next_suffix base used (Suc n) else c)"
  by pat_completeness auto

text \<open>Each used candidate is met once, so the search ends.\<close>

termination
proof (relation "measure (\<lambda>(base, used, n). card {k. n \<le> k \<and> display_candidate base k \<in> set used})")
  fix base used n c
  assume c: "c = display_candidate base n" "c \<in> set used"
  let ?S = "\<lambda>n. {k. n \<le> k \<and> display_candidate base k \<in> set used}"
  have "finite (display_candidate base ` ?S n)" by (rule finite_subset [of _ "set used"]) auto
  then have "finite (?S n)"
    by (rule finite_imageD) (auto simp: inj_on_def dest: display_candidate_inj)
  moreover have "?S (Suc n) \<subset> ?S n" using c by (auto simp: psubset_eq set_eq_iff dest: Suc_leD) (metis Suc_n_not_le_n order_refl)
  ultimately show "((base, used, Suc n), base, used, n)
      \<in> measure (\<lambda>(base, used, n). card {k. n \<le> k \<and> display_candidate base k \<in> set used})"
    by (simp add: psubset_card_mono)
qed simp

declare next_suffix.simps [simp del]

definition nextAvailableDisplayValue :: "string \<Rightarrow> string list \<Rightarrow> string" where
  "nextAvailableDisplayValue base used = (if base \<notin> set used then base else next_suffix base used 1)"

lemma next_suffix_fresh: "next_suffix base used n \<notin> set used"
  by (induction base used n rule: next_suffix.induct) (subst next_suffix.simps, auto simp: Let_def)

lemma nextAvailableDisplayValue_fresh: "nextAvailableDisplayValue base used \<notin> set used"
  by (simp add: nextAvailableDisplayValue_def next_suffix_fresh)

section \<open>Direct restore\<close>

definition sibling_of :: "string \<Rightarrow> ltree \<Rightarrow> folder \<Rightarrow> bool" where
  "sibling_of org parent f \<longleftrightarrow> fd_org f = org
     \<and> (if parent = [] then length (fd_path f) = 1
        else below (fd_path f) parent \<and> length (fd_path f) = length parent + 1)"

definition lockedVisibleParent :: "string \<Rightarrow> ltree \<Rightarrow> catalog \<Rightarrow> folder reply" where
  "lockedVisibleParent org p d = from_option ErrFolderParentDeleted (find_visible_path org p d)"

definition lockedVisibleParentByID :: "string \<Rightarrow> string \<Rightarrow> catalog \<Rightarrow> folder reply" where
  "lockedVisibleParentByID org fid d = from_option ErrFolderParentDeleted (find_visible_folder org fid d)"

definition activeSiblingFolderNames :: "string \<Rightarrow> ltree \<Rightarrow> string \<Rightarrow> catalog \<Rightarrow> string list" where
  "activeSiblingFolderNames org parent exclude d =
     map fd_name (filter (\<lambda>f. fd_id f \<noteq> exclude \<and> visible_folder d f \<and> sibling_of org parent f) (c_folders d))"

definition activeMetadataTitles :: "string \<Rightarrow> string \<Rightarrow> string \<Rightarrow> catalog \<Rightarrow> string list" where
  "activeMetadataTitles org fid exclude d =
     map it_title (filter (\<lambda>x. it_folder x = fid \<and> it_id x \<noteq> exclude \<and> item_in_org d org x \<and> visible_item d x) (c_items d))"

definition restored_folder :: "string \<Rightarrow> string option \<Rightarrow> folder \<Rightarrow> folder" where
  "restored_folder name user f = f\<lparr>fd_deleted_at := None, fd_unit := None, fd_name := name, fd_updated_by := user\<rparr>"

definition restored_item :: "string \<Rightarrow> string option \<Rightarrow> instant \<Rightarrow> item \<Rightarrow> item" where
  "restored_item title user tnow x =
     x\<lparr>it_deleted_at := None, it_unit := None, it_title := title, it_updated_by := user, it_updated_at := tnow\<rparr>"

definition RestoreFolder :: "string \<Rightarrow> string \<Rightarrow> string \<Rightarrow> catalog \<Rightarrow> folder reply \<times> catalog" where
  "RestoreFolder org user fid =
     transaction (\<lambda>d0. let d = ensure_user user d0 in
       and_then (from_option ErrFolderNotFound (find (\<lambda>f. fd_id f = fid \<and> fd_org f = org) (c_folders d))) (\<lambda>f.
       if folder_active f then Inl ErrFolderNotDeleted
       else
         let parent = (if length (fd_path f) \<le> 1 then [] else butlast (fd_path f)) in
         and_then (if length (fd_path f) \<le> 1 then Inr () else and_then (lockedVisibleParent org parent d) (\<lambda>_. Inr ())) (\<lambda>_.
         and_then (ensureNoActiveDeletionForPaths org [fd_path f] d) (\<lambda>_.
         let name = nextAvailableDisplayValue (fd_name f) (activeSiblingFolderNames org parent (fd_id f) d) in
         and_then (on_folders (sql_update (\<lambda>g. fd_id g = fd_id f \<and> fd_org g = org \<and> \<not> folder_active g)
                     (restored_folder name (Some user))) d) (\<lambda>d1.
         and_then (completeLifecycleRestore org LifecycleResourceFolder (fd_id f) d1) (\<lambda>d2.
         and_then (from_option ErrNoRecord (find_visible_folder org (fd_id f) d2)) (\<lambda>g. Inr (g, d2))))))))"

definition external_conflict :: "item \<Rightarrow> item \<Rightarrow> bool" where
  "external_conflict x y \<longleftrightarrow> it_id y \<noteq> it_id x \<and> it_external_source y = it_external_source x \<and> it_external_id y = it_external_id x"

definition has_external_identity :: "item \<Rightarrow> bool" where
  "has_external_identity x \<longleftrightarrow> it_external_source x \<noteq> None \<and> it_external_id x \<noteq> None"

definition RestoreMetadataItem :: "instant \<Rightarrow> string \<Rightarrow> string \<Rightarrow> string \<Rightarrow> catalog \<Rightarrow> item reply \<times> catalog" where
  "RestoreMetadataItem tnow org user iid =
     transaction (\<lambda>d0. let d = ensure_user user d0 in
       and_then (from_option ErrMetadataNotFound (find (\<lambda>x. it_id x = iid \<and> item_in_org d org x) (c_items d))) (\<lambda>x.
       if item_active x then Inl ErrMetadataNotDeleted
       else
         and_then (map_error (\<lambda>e. if e = ErrFolderParentDeleted then ErrMetadataFolderDeleted else e)
                     (lockedVisibleParentByID org (it_folder x) d)) (\<lambda>parent.
         and_then (ensureNoActiveDeletionForPaths org [fd_path parent] d) (\<lambda>_.
         if has_external_identity x
            \<and> sql_exists (\<lambda>y. external_conflict x y \<and> item_in_org d org y \<and> visible_item d y) (c_items d)
         then Inl ErrMetadataConflict
         else
           let title = nextAvailableDisplayValue (it_title x) (activeMetadataTitles org (it_folder x) (it_id x) d) in
           and_then (on_items (sql_update (\<lambda>y. it_id y = it_id x \<and> \<not> item_active y) (restored_item title (Some user) tnow)) d) (\<lambda>d1.
           and_then (completeLifecycleRestore org LifecycleResourceMetadata (it_id x) d1) (\<lambda>d2.
           and_then (from_option ErrNoRecord (find_visible_item org (it_id x) d2)) (\<lambda>y. Inr (y, d2))))))))"

section \<open>Facts for the authorization of a restore\<close>

definition GetFolderRestoreAuthorizationFact :: "string \<Rightarrow> string \<Rightarrow> catalog \<Rightarrow> (string \<times> ltree) reply" where
  "GetFolderRestoreAuthorizationFact org fid d =
     and_then (from_option ErrFolderNotFound (find (\<lambda>f. fd_id f = fid \<and> fd_org f = org) (c_folders d)))
       (\<lambda>f. Inr (fd_id f, fd_path f))"

definition GetMetadataRestoreAuthorizationFact :: "string \<Rightarrow> string \<Rightarrow> catalog \<Rightarrow> (string \<times> string \<times> ltree) reply" where
  "GetMetadataRestoreAuthorizationFact org iid d =
     (case find (\<lambda>x. it_id x = iid \<and> item_in_org d org x) (c_items d) of
        None \<Rightarrow> Inl ErrMetadataNotFound
      | Some x \<Rightarrow> and_then (from_option ErrMetadataNotFound (folder_of d x)) (\<lambda>f. Inr (it_id x, it_folder x, fd_path f)))"

record restore_fact =
  rf_unit :: string
  rf_type :: resource_type
  rf_root :: string
  rf_folder :: string
  rf_path :: ltree

definition unit_root_folder :: "unit_row \<Rightarrow> catalog \<Rightarrow> folder option" where
  "unit_root_folder u d =
     find (\<lambda>f. fd_id f = lu_root u \<and> fd_org f = lu_org u \<and> fd_unit f = Some (lu_id u)) (c_folders d)"

definition unit_root_item :: "unit_row \<Rightarrow> catalog \<Rightarrow> item option" where
  "unit_root_item u d =
     find (\<lambda>x. it_id x = lu_root u \<and> item_in_org d (lu_org u) x \<and> it_unit x = Some (lu_id u)) (c_items d)"

definition GetLifecycleRestoreAuthorizationFact :: "string \<Rightarrow> string \<Rightarrow> catalog \<Rightarrow> restore_fact reply" where
  "GetLifecycleRestoreAuthorizationFact org uid d =
     and_then (from_option ErrLifecycleUnitNotFound
       (find (\<lambda>u. lu_id u = uid \<and> lu_org u = org
          \<and> lu_state u \<in> {LifecycleDeleted, LifecycleRestoreQueued, LifecycleRestoring}) (c_units d))) (\<lambda>u.
     let fact = (\<lambda>fid p. \<lparr>rf_unit = lu_id u, rf_type = lu_type u, rf_root = lu_root u, rf_folder = fid, rf_path = p\<rparr>) in
     case lu_type u of
       LifecycleResourceFolder \<Rightarrow>
         and_then (from_option ErrLifecycleUnitNotFound (find (\<lambda>f. fd_id f = lu_root u \<and> fd_org f = org
              \<and> fd_unit f = Some (lu_id u) \<and> \<not> folder_active f) (c_folders d)))
           (\<lambda>f. Inr (fact (fd_id f) (fd_path f)))
     | LifecycleResourceMetadata \<Rightarrow>
         and_then (from_option ErrLifecycleUnitNotFound (find (\<lambda>x. it_id x = lu_root u \<and> item_in_org d org x
              \<and> it_unit x = Some (lu_id u) \<and> \<not> item_active x) (c_items d))) (\<lambda>x.
         and_then (from_option ErrLifecycleUnitNotFound (folder_of d x)) (\<lambda>f.
         if it_folder x = [] \<or> fd_path f = [] then Inl ErrLifecycleUnitNotFound
         else Inr (fact (it_folder x) (fd_path f)))))"

definition GetLifecycleJob :: "string \<Rightarrow> string \<Rightarrow> catalog \<Rightarrow> lifecycle_job reply" where
  "GetLifecycleJob org jid d =
     from_option ErrLifecycleJobNotFound (find (\<lambda>j. lj_id j = jid \<and> lj_org j = org) (c_jobs d))"

section \<open>Queueing the restore of a unit\<close>

definition parent_deleted :: "catalog_error \<Rightarrow> catalog_error" where
  "parent_deleted e = (if e = ErrFolderParentDeleted then ErrRestoreParentDeleted else e)"

definition assertLifecycleRestoreRootAndParent :: "unit_row \<Rightarrow> catalog \<Rightarrow> unit reply" where
  "assertLifecycleRestoreRootAndParent u d =
     (case lu_type u of
        LifecycleResourceFolder \<Rightarrow>
          and_then (from_option ErrLifecycleUnitNotRestorable (unit_root_folder u d)) (\<lambda>f.
          if folder_active f then Inl ErrLifecycleUnitNotRestorable
          else case lu_parent_path u of
                 None \<Rightarrow> Inr ()
               | Some p \<Rightarrow> and_then (map_error parent_deleted (lockedVisibleParent (lu_org u) p d)) (\<lambda>_. Inr ()))
      | LifecycleResourceMetadata \<Rightarrow>
          and_then (from_option ErrLifecycleUnitNotRestorable (unit_root_item u d)) (\<lambda>x.
          case lu_folder u of
            None \<Rightarrow> Inl ErrLifecycleUnitNotRestorable
          | Some fid \<Rightarrow>
              if item_active x then Inl ErrLifecycleUnitNotRestorable
              else and_then (map_error parent_deleted (lockedVisibleParentByID (lu_org u) fid d)) (\<lambda>_. Inr ())))"

definition set_unit_state :: "(unit_row \<Rightarrow> bool) \<Rightarrow> unit_state \<Rightarrow> catalog \<Rightarrow> catalog reply" where
  "set_unit_state c st = on_units (sql_update c (\<lambda>u. u\<lparr>lu_state := st\<rparr>))"

definition open_restore_job :: "string \<Rightarrow> catalog \<Rightarrow> lifecycle_job option" where
  "open_restore_job uid d =
     first_row (\<lambda>j. (- lj_created_at j, lj_id j))
       (\<lambda>j. lj_unit j = Some uid \<and> lj_operation j = LifecycleJobRestore \<and> job_open j) (c_jobs d)"

definition restore_job :: "string \<Rightarrow> string \<Rightarrow> string \<Rightarrow> instant \<Rightarrow> instant \<Rightarrow> string \<Rightarrow> unit_row \<Rightarrow> lifecycle_job" where
  "restore_job jid org user now tnow rootFolder u =
     \<lparr>lj_id = jid, lj_org = org, lj_unit = Some (lu_id u), lj_legacy = None, lj_type = lu_type u, lj_root = lu_root u,
      lj_root_folder = rootFolder, lj_path = lu_path u, lj_initiator = LifecycleJobInitiatorUser,
      lj_requested_by = Some user, lj_operation = LifecycleJobRestore, lj_status = LifecycleJobQueued,
      lj_checkpoint = empty_checkpoint, lj_attempts = 0, lj_next_run = Some now, lj_lease_owner = None,
      lj_lease_expires = None, lj_failure_code = None, lj_queued_at = Some now, lj_started_at = None,
      lj_completed_at = None, lj_created_at = tnow\<rparr>"

definition QueueLifecycleRestore ::
  "string \<Rightarrow> instant \<Rightarrow> instant \<Rightarrow> string \<Rightarrow> string \<Rightarrow> string \<Rightarrow> catalog \<Rightarrow> lifecycle_job reply \<times> catalog" where
  "QueueLifecycleRestore jid now tnow org user uid =
     transaction (\<lambda>d0. let d = ensure_user user d0 in
       and_then (from_option ErrLifecycleUnitNotFound (find (\<lambda>u. lu_id u = uid \<and> lu_org u = org) (c_units d))) (\<lambda>u.
       if lu_state u = LifecycleRestoreQueued \<or> lu_state u = LifecycleRestoring
       then and_then (from_option (ErrMessage ''lifecycle unit is restoring without an active restore job'')
                        (open_restore_job (lu_id u) d)) (\<lambda>j. Inr (j, d))
       else if lu_state u \<noteq> LifecycleDeleted then Inl ErrLifecycleUnitNotRestorable
       else
         and_then (assertLifecycleRestoreRootAndParent u d) (\<lambda>_.
         and_then (if lu_type u = LifecycleResourceMetadata then from_option ErrLifecycleUnitNotRestorable (lu_folder u)
                   else Inr (lu_root u)) (\<lambda>rootFolder.
         let j = restore_job jid org user now tnow rootFolder u in
         and_then (on_jobs (\<lambda>js. js @ [j]) d) (\<lambda>d1.
         and_then (set_unit_state (\<lambda>r. lu_id r = lu_id u) LifecycleRestoreQueued d1) (\<lambda>d2. Inr (j, d2)))))))"

section \<open>Claiming a lifecycle job\<close>

definition failing_states :: "lifecycle_operation \<Rightarrow> unit_state list" where
  "failing_states opn =
     (case opn of LifecycleJobRestore \<Rightarrow> [LifecycleRestoreQueued, LifecycleRestoring]
                | LifecycleJobPurge \<Rightarrow> [LifecyclePurgeQueued, LifecyclePurging] | LifecycleJobDelete \<Rightarrow> [])"

definition failClaimedLifecycleJob ::
  "lifecycle_job \<Rightarrow> deletion_job option \<Rightarrow> instant \<Rightarrow> catalog \<Rightarrow> catalog reply" where
  "failClaimedLifecycleJob j k now d =
     and_then (save_job (failed_job now j) d) (\<lambda>d1.
     and_then (if lj_unit j \<noteq> None \<and> failing_states (lj_operation j) \<noteq> []
               then set_unit_state (\<lambda>u. lj_unit j = Some (lu_id u) \<and> lu_org u = lj_org j
                      \<and> lu_state u \<in> set (failing_states (lj_operation j))) LifecycleFailed d1
               else Inr d1) (\<lambda>d2.
     case k of None \<Rightarrow> Inr d2 | Some r \<Rightarrow> save_djob ((failed_djob j r)\<lparr>dj_completed_at := Some now\<rparr>) d2))"

definition claim_unit :: "lifecycle_job \<Rightarrow> string \<Rightarrow> catalog \<Rightarrow> catalog reply" where
  "claim_unit j unit d =
     (case lj_operation j of
        LifecycleJobDelete \<Rightarrow> Inr d
      | LifecycleJobRestore \<Rightarrow>
          and_then (from_option ErrNoRecord (find (\<lambda>u. lu_id u = unit \<and> lu_org u = lj_org j
             \<and> lu_state u \<in> {LifecycleRestoreQueued, LifecycleRestoring}) (c_units d))) (\<lambda>u.
          and_then (assertLifecycleRestoreRootAndParent u d) (\<lambda>_.
          set_unit_state (\<lambda>r. lu_id r = lu_id u) LifecycleRestoring d))
      | LifecycleJobPurge \<Rightarrow>
          (let mine = (\<lambda>u. lu_id u = unit \<and> lu_org u = lj_org j \<and> lu_state u \<in> {LifecyclePurgeQueued, LifecyclePurging}) in
           and_then (set_unit_state mine LifecyclePurging d) (\<lambda>d1.
           if rows_affected mine (c_units d) \<noteq> 1
           then Inl (ErrMessage ''purge lifecycle job does not own a purgeable unit'') else Inr d1)))"

definition claim_next :: "instant \<Rightarrow> string \<Rightarrow> catalog \<Rightarrow> (lifecycle_job option \<times> catalog) reply" where
  "claim_next now worker d =
     (case first_row job_order (job_claimable now) (c_jobs d) of
        None \<Rightarrow> Inr (None, d)
      | Some j \<Rightarrow>
          (case lj_unit j of
             None \<Rightarrow> Inl (ErrMessage ''lifecycle job has no unit'')
           | Some unit \<Rightarrow>
               and_then (if lj_operation j \<noteq> LifecycleJobDelete then Inr None
                         else if lj_legacy j = None then Inl (ErrMessage ''delete lifecycle job has no legacy compatibility row'')
                         else and_then (from_option ErrNoRecord (find_djob (lj_legacy j) (lj_org j) d)) (\<lambda>k. Inr (Some k))) (\<lambda>k.
               if FolderDeletionMaxAttempts \<le> lj_attempts j
               then and_then (failClaimedLifecycleJob j k now d) (\<lambda>d1. Inr (None, d1))
               else
                 and_then (claim_unit j unit d) (\<lambda>d1.
                 let j1 = leased_job worker now j in
                 and_then (save_job j1 d1) (\<lambda>d2.
                 and_then (case k of None \<Rightarrow> Inr d2 | Some r \<Rightarrow> save_djob (leased_djob worker now j1 r) d2) (\<lambda>d3.
                 Inr (Some j1, d3)))))))"

definition ClaimNextLifecycleJob ::
  "instant \<Rightarrow> string \<Rightarrow> string \<Rightarrow> instant \<Rightarrow> string \<Rightarrow> catalog \<Rightarrow> lifecycle_job option reply \<times> catalog" where
  "ClaimNextLifecycleJob now uid jid tnow worker =
     transaction (\<lambda>d. and_then (adoptNextLegacyFolderDeletionJob now uid jid tnow d)
       (\<lambda>(adopted, d1). claim_next now worker d1))"

definition purge_lease_held :: "string \<Rightarrow> string \<Rightarrow> instant \<Rightarrow> instant \<Rightarrow> lifecycle_job \<Rightarrow> bool" where
  "purge_lease_held jid worker expected now j \<longleftrightarrow> lj_id j = jid \<and> lj_operation j = LifecycleJobPurge
     \<and> owned_by worker j \<and> lj_lease_expires j = Some expected \<and> now < expected"

definition RenewLifecyclePurgeLease ::
  "instant \<Rightarrow> string \<Rightarrow> string \<Rightarrow> instant \<Rightarrow> catalog \<Rightarrow> instant reply \<times> catalog" where
  "RenewLifecyclePurgeLease now jid worker expected =
     transaction (\<lambda>d.
       and_then (on_jobs (sql_update (purge_lease_held jid worker expected now)
                   (\<lambda>j. j\<lparr>lj_lease_expires := Some (now + FolderDeletionLeaseDuration)\<rparr>)) d) (\<lambda>d1.
       if rows_affected (purge_lease_held jid worker expected now) (c_jobs d) \<noteq> 1
       then Inl (ErrMessage ''lifecycle purge lease was not held'')
       else Inr (now + FolderDeletionLeaseDuration, d1)))"

section \<open>Restore batches\<close>

definition lifecycleRestoreFolderBatchSize :: nat where "lifecycleRestoreFolderBatchSize = 100"
definition lifecycleRestoreMetadataBatchSize :: nat where "lifecycleRestoreMetadataBatchSize = 1000"

text \<open>The clock readings of a batch (\<open>tnow\<close> is what the trigger writes) and the rows locked by other transactions.\<close>

record restore_env =
  re_tnow :: instant
  re_now :: instant
  re_locked_items :: "string list"
  re_locked_folders :: "string list"

definition activeStoredSiblingFolderNames :: "string \<Rightarrow> ltree \<Rightarrow> string \<Rightarrow> catalog \<Rightarrow> string list" where
  "activeStoredSiblingFolderNames org parent exclude d =
     map fd_name (filter (\<lambda>f. fd_id f \<noteq> exclude \<and> folder_active f \<and> sibling_of org parent f) (c_folders d))"

definition activeStoredMetadataTitles :: "string \<Rightarrow> string \<Rightarrow> string \<Rightarrow> catalog \<Rightarrow> string list" where
  "activeStoredMetadataTitles org fid exclude d =
     map it_title (filter (\<lambda>x. it_folder x = fid \<and> it_id x \<noteq> exclude \<and> item_in_org d org x \<and> item_active x) (c_items d))"

definition ensureNoStoredExternalIdentityConflict :: "string \<Rightarrow> item \<Rightarrow> catalog \<Rightarrow> unit reply" where
  "ensureNoStoredExternalIdentityConflict org x d =
     require (\<not> (has_external_identity x
        \<and> sql_exists (\<lambda>y. external_conflict x y \<and> item_in_org d org y \<and> item_active y) (c_items d))) ErrMetadataConflict"

definition saveRestoreProgress :: "lifecycle_job \<Rightarrow> checkpoint \<Rightarrow> instant \<Rightarrow> catalog \<Rightarrow> catalog reply" where
  "saveRestoreProgress j cp now =
     save_job (j\<lparr>lj_checkpoint := cp, lj_lease_expires := Some (now + FolderDeletionLeaseDuration)\<rparr>)"

text \<open>Writing one restored row; the row must still be the tombstone of this unit.\<close>

definition write_restored_folder ::
  "string \<Rightarrow> string \<Rightarrow> string \<Rightarrow> string \<Rightarrow> string option \<Rightarrow> catalog \<Rightarrow> catalog reply" where
  "write_restored_folder org unit fid name user d =
     (let mine = (\<lambda>f. fd_id f = fid \<and> fd_org f = org \<and> fd_unit f = Some unit \<and> \<not> folder_active f) in
      and_then (on_folders (sql_update mine (restored_folder name user)) d) (\<lambda>d1.
      if rows_affected mine (c_folders d) \<noteq> 1 then Inl (ErrMessage ''restore lifecycle folder lost its ownership'')
      else Inr d1))"

definition write_restored_item ::
  "string \<Rightarrow> string \<Rightarrow> string \<Rightarrow> string option \<Rightarrow> instant \<Rightarrow> catalog \<Rightarrow> catalog reply" where
  "write_restored_item unit iid title user tnow d =
     (let mine = (\<lambda>x. it_id x = iid \<and> it_unit x = Some unit \<and> \<not> item_active x) in
      and_then (on_items (sql_update mine (restored_item title user tnow)) d) (\<lambda>d1.
      if rows_affected mine (c_items d) \<noteq> 1 then Inl (ErrMessage ''restore lifecycle metadata lost its ownership'')
      else Inr d1))"

definition path_or_root :: "ltree option \<Rightarrow> ltree" where
  "path_or_root p = (case p of None \<Rightarrow> [] | Some q \<Rightarrow> q)"

definition restore_member_folder :: "lifecycle_job \<Rightarrow> unit_row \<Rightarrow> folder \<Rightarrow> catalog \<Rightarrow> catalog reply" where
  "restore_member_folder j u f d =
     (let name = nextAvailableDisplayValue (fd_name f)
          (activeStoredSiblingFolderNames (lj_org j) (path_or_root (lifecycleParentPath (fd_path f))) (fd_id f) d) in
      write_restored_folder (lj_org j) (lu_id u) (fd_id f) name (lj_requested_by j) d)"

definition restore_one_item :: "instant \<Rightarrow> string \<Rightarrow> lifecycle_job \<Rightarrow> unit_row \<Rightarrow> item \<Rightarrow> catalog \<Rightarrow> catalog reply" where
  "restore_one_item tnow org j u x d =
     and_then (ensureNoStoredExternalIdentityConflict org x d) (\<lambda>_.
     let title = nextAvailableDisplayValue (it_title x) (activeStoredMetadataTitles org (it_folder x) (it_id x) d) in
     write_restored_item (lu_id u) (it_id x) title (lj_requested_by j) tnow d)"

fun each_row :: "('r \<Rightarrow> catalog \<Rightarrow> catalog reply) \<Rightarrow> 'r list \<Rightarrow> catalog \<Rightarrow> catalog reply" where
  "each_row step [] d = Inr d"
| "each_row step (r # rs) d = and_then (step r d) (each_row step rs)"

definition restore_folders :: "restore_env \<Rightarrow> lifecycle_job \<Rightarrow> unit_row \<Rightarrow> catalog \<Rightarrow> folder list" where
  "restore_folders e j u d =
     take lifecycleRestoreFolderBatchSize (order_by (\<lambda>f. (length (fd_path f), fd_path f))
       (filter (\<lambda>f. fd_org f = lj_org j \<and> fd_unit f = Some (lu_id u) \<and> fd_id f \<noteq> lu_root u \<and> \<not> folder_active f
          \<and> fd_id f \<notin> set (re_locked_folders e)) (c_folders d)))"

definition restore_items :: "restore_env \<Rightarrow> lifecycle_job \<Rightarrow> unit_row \<Rightarrow> catalog \<Rightarrow> item list" where
  "restore_items e j u d =
     take lifecycleRestoreMetadataBatchSize (order_by it_id
       (filter (\<lambda>x. item_in_org d (lj_org j) x \<and> it_unit x = Some (lu_id u) \<and> \<not> item_active x
          \<and> it_id x \<notin> set (re_locked_items e)) (c_items d)))"

definition restoreFolderMemberBatch ::
  "restore_env \<Rightarrow> lifecycle_job \<Rightarrow> unit_row \<Rightarrow> checkpoint \<Rightarrow> catalog \<Rightarrow> (bool \<times> catalog) reply" where
  "restoreFolderMemberBatch e j u cp d =
     (let fs = restore_folders e j u d in
      if fs = [] then Inr (False, d)
      else and_then (each_row (restore_member_folder j u) fs d) (\<lambda>d1.
           and_then (saveRestoreProgress j (cp\<lparr>cp_folder_batches := cp_folder_batches cp + 1,
                       cp_folder_rows := cp_folder_rows cp + int (length fs)\<rparr>) (re_now e) d1) (\<lambda>d2. Inr (True, d2))))"

definition restoreMetadataMemberBatch ::
  "restore_env \<Rightarrow> lifecycle_job \<Rightarrow> unit_row \<Rightarrow> checkpoint \<Rightarrow> catalog \<Rightarrow> (bool \<times> catalog) reply" where
  "restoreMetadataMemberBatch e j u cp d =
     (let xs = restore_items e j u d in
      if xs = [] then Inr (False, d)
      else and_then (each_row (restore_one_item (re_tnow e) (lj_org j) j u) xs d) (\<lambda>d1.
           and_then (saveRestoreProgress j (cp\<lparr>cp_metadata_batches := cp_metadata_batches cp + 1,
                       cp_metadata_rows := cp_metadata_rows cp + int (length xs)\<rparr>) (re_now e) d1) (\<lambda>d2. Inr (True, d2))))"

definition completeRestoreJob :: "lifecycle_job \<Rightarrow> unit_row \<Rightarrow> checkpoint \<Rightarrow> instant \<Rightarrow> catalog \<Rightarrow> catalog reply" where
  "completeRestoreJob j u cp now d =
     and_then (save_job (j\<lparr>lj_status := LifecycleJobSucceeded, lj_checkpoint := cp, lj_next_run := None,
                 lj_lease_owner := None, lj_lease_expires := None, lj_completed_at := Some now\<rparr>) d)
       (set_unit_state (\<lambda>r. lu_id r = lu_id u \<and> lu_org r = lu_org u \<and> lu_state r = LifecycleRestoring) LifecycleRestored)"

definition restoreFolderRoot :: "restore_env \<Rightarrow> lifecycle_job \<Rightarrow> unit_row \<Rightarrow> checkpoint \<Rightarrow> catalog \<Rightarrow> catalog reply" where
  "restoreFolderRoot e j u cp d =
     and_then (from_option ErrNoRecord (find (\<lambda>f. fd_id f = lu_root u \<and> fd_org f = lu_org u \<and> fd_unit f = Some (lu_id u)
         \<and> \<not> folder_active f) (c_folders d))) (\<lambda>f.
     let name = nextAvailableDisplayValue (fd_name f)
          (activeStoredSiblingFolderNames (lu_org u) (path_or_root (lu_parent_path u)) (fd_id f) d) in
     and_then (write_restored_folder (lu_org u) (lu_id u) (fd_id f) name (lj_requested_by j) d)
       (completeRestoreJob j u cp (re_now e)))"

definition restoreMetadataRoot :: "restore_env \<Rightarrow> lifecycle_job \<Rightarrow> unit_row \<Rightarrow> checkpoint \<Rightarrow> catalog \<Rightarrow> catalog reply" where
  "restoreMetadataRoot e j u cp d =
     and_then (from_option ErrNoRecord (find (\<lambda>x. it_id x = lu_root u \<and> item_in_org d (lu_org u) x
         \<and> it_unit x = Some (lu_id u) \<and> \<not> item_active x) (c_items d))) (\<lambda>x.
     and_then (restore_one_item (re_tnow e) (lu_org u) j u x d)
       (completeRestoreJob j u (cp\<lparr>cp_metadata_batches := cp_metadata_batches cp + 1,
          cp_metadata_rows := cp_metadata_rows cp + 1\<rparr>) (re_now e)))"

definition restore_work :: "restore_env \<Rightarrow> string \<Rightarrow> string \<Rightarrow> catalog \<Rightarrow> (bool \<times> catalog) reply" where
  "restore_work e jid worker d =
     and_then (from_option ErrNoRecord (find (\<lambda>j. lj_id j = jid \<and> lj_operation j = LifecycleJobRestore
         \<and> owned_by worker j) (c_jobs d))) (\<lambda>j.
     case lj_unit j of
       None \<Rightarrow> Inl (ErrMessage ''restore lifecycle job has no unit'')
     | Some unit \<Rightarrow>
         and_then (from_option ErrNoRecord (find (\<lambda>u. lu_id u = unit \<and> lu_org u = lj_org j
             \<and> lu_state u = LifecycleRestoring) (c_units d))) (\<lambda>u.
         and_then (assertLifecycleRestoreRootAndParent u d) (\<lambda>_.
         let cp = lj_checkpoint j in
         if lu_type u = LifecycleResourceMetadata
         then and_then (restoreMetadataRoot e j u cp d) (\<lambda>d1. Inr (True, d1))
         else
           and_then (restoreFolderMemberBatch e j u cp d) (\<lambda>(changed, d1).
           if changed then Inr (False, d1)
           else
             and_then (restoreMetadataMemberBatch e j u cp d1) (\<lambda>(changed, d2).
             if changed then Inr (False, d2)
             else and_then (restoreFolderRoot e j u cp d2) (\<lambda>d3. Inr (True, d3)))))))"

definition processLifecycleRestoreBatch :: "restore_env \<Rightarrow> string \<Rightarrow> string \<Rightarrow> catalog \<Rightarrow> bool reply \<times> catalog" where
  "processLifecycleRestoreBatch e jid worker = transaction (restore_work e jid worker)"

definition restore_round ::
  "(nat \<Rightarrow> restore_env) \<Rightarrow> (nat \<Rightarrow> catalog \<Rightarrow> catalog) \<Rightarrow> string \<Rightarrow> string \<Rightarrow> nat \<Rightarrow> catalog \<Rightarrow> bool reply \<times> catalog" where
  "restore_round env others jid worker i d = processLifecycleRestoreBatch (env i) jid worker (others i d)"

definition processLifecycleRestoreJob ::
  "(nat \<Rightarrow> restore_env) \<Rightarrow> (nat \<Rightarrow> catalog \<Rightarrow> catalog) \<Rightarrow> string \<Rightarrow> string \<Rightarrow> catalog \<Rightarrow> (unit reply \<times> catalog) option" where
  "processLifecycleRestoreJob env others jid worker = run_batches (restore_round env others jid worker) 0"

section \<open>Running and failing a lifecycle job\<close>

definition ProcessLifecycleJob ::
  "(nat \<Rightarrow> batch_env) \<Rightarrow> (nat \<Rightarrow> restore_env) \<Rightarrow> (nat \<Rightarrow> catalog \<Rightarrow> catalog) \<Rightarrow> string \<Rightarrow> string \<Rightarrow> catalog
   \<Rightarrow> (unit reply \<times> catalog) option" where
  "ProcessLifecycleJob denv renv others jid worker d =
     (case find (\<lambda>j. lj_id j = jid) (c_jobs d) of
        None \<Rightarrow> Some (Inl ErrNoRecord, d)
      | Some j \<Rightarrow>
          (case lj_operation j of
             LifecycleJobDelete \<Rightarrow>
               (case lj_legacy j of
                  None \<Rightarrow> Some (Inl (ErrMessage ''delete lifecycle job has no legacy compatibility row''), d)
                | Some did \<Rightarrow> ProcessFolderDeletionJob denv others did worker d)
           | LifecycleJobRestore \<Rightarrow> processLifecycleRestoreJob renv others jid worker d
           | LifecycleJobPurge \<Rightarrow> Some (Inl (ErrMessage ''unsupported lifecycle operation''), d)))"

definition fail_native :: "instant \<Rightarrow> lifecycle_operation \<Rightarrow> string \<Rightarrow> string \<Rightarrow> catalog \<Rightarrow> (unit \<times> catalog) reply" where
  "fail_native now opn jid worker d =
     and_then (from_option ErrNoRecord (find (\<lambda>j. lj_id j = jid \<and> lj_operation j = opn \<and> owned_by worker j) (c_jobs d))) (\<lambda>j.
     if lj_unit j = None then Inl (ErrMessage ''lifecycle job has no unit'')
     else
       let j1 = j\<lparr>lj_failure_code := Some internal_error, lj_lease_owner := None, lj_lease_expires := None\<rparr>;
           purging = (opn = LifecycleJobPurge);
           mine = (\<lambda>u. lj_unit j = Some (lu_id u) \<and> lu_org u = lj_org j
                    \<and> lu_state u = (if purging then LifecyclePurging else LifecycleRestoring)) in
       if FolderDeletionMaxAttempts \<le> lj_attempts j
       then and_then (save_job (j1\<lparr>lj_status := LifecycleJobFailed, lj_next_run := None, lj_completed_at := Some now\<rparr>) d)
              (\<lambda>d1. and_then (set_unit_state mine LifecycleFailed d1) (\<lambda>d2. Inr ((), d2)))
       else and_then (save_job (j1\<lparr>lj_status := LifecycleJobQueued,
                        lj_next_run := Some (now + automaticRetryDelay (lj_attempts j))\<rparr>) d)
              (\<lambda>d1. and_then (set_unit_state mine (if purging then LifecyclePurgeQueued else LifecycleRestoreQueued) d1)
                (\<lambda>d2. Inr ((), d2))))"

definition FailLifecycleJob :: "instant \<Rightarrow> string \<Rightarrow> string \<Rightarrow> catalog \<Rightarrow> unit reply \<times> catalog" where
  "FailLifecycleJob now jid worker d =
     (case find (\<lambda>j. lj_id j = jid) (c_jobs d) of
        None \<Rightarrow> (Inl ErrNoRecord, d)
      | Some j \<Rightarrow>
          (case lj_operation j of
             LifecycleJobDelete \<Rightarrow>
               (case lj_legacy j of
                  None \<Rightarrow> (Inl (ErrMessage ''delete lifecycle job has no legacy compatibility row''), d)
                | Some did \<Rightarrow> FailFolderDeletionJob now did worker d)
           | opn \<Rightarrow> transaction (fail_native now opn jid worker) d))"

end
