(* ===== verification/Deletion_Run.thy ===== *)
theory Deletion_Run
  imports Folder_Deletion
begin

text \<open>
  What the batches of a recursive deletion do: they touch only the subtree, no batch changes what normal reads see once
  the root is hidden, and with its claim in place a batch makes progress or is the last one, after which the whole
  subtree is in the recycle bin.
\<close>

section \<open>Hiding rows keeps the constraints\<close>

definition hides_folder :: "catalog \<Rightarrow> (folder \<Rightarrow> folder) \<Rightarrow> bool" where
  "hides_folder d g \<longleftrightarrow> tree_map g \<and>
     (\<forall>f. fd_name (g f) = fd_name f \<and> fd_created_by (g f) = fd_created_by f \<and> (folder_active (g f) \<longrightarrow> folder_active f)
        \<and> (in_opt (fd_updated_by f) (c_users d) \<longrightarrow> in_opt (fd_updated_by (g f)) (c_users d))
        \<and> (in_opt (fd_unit f) (map lu_id (c_units d)) \<longrightarrow> in_opt (fd_unit (g f)) (map lu_id (c_units d))))"

lemma hides_folder_ok:
  assumes "catalog_ok d" "hides_folder d g"
  shows "catalog_ok (d\<lparr>c_folders := map g (c_folders d)\<rparr>)"
proof (rule ok_folders [OF assms(1)])
  show "map fd_id (map g (c_folders d)) = map fd_id (c_folders d)"
    using assms(2) by (simp add: hides_folder_def tree_map_def)
  show "rows_unique folder_conflict (map g (c_folders d))"
    using catalog_okD(1) [OF assms(1)]
    by (rule rows_unique_map) (use assms(2) in \<open>auto simp: folder_conflict_def hides_folder_def tree_map_def\<close>)
  fix f assume "f \<in> set (map g (c_folders d))"
  then obtain f0 where f0: "f0 \<in> set (c_folders d)" "f = g f0" by auto
  then show "folder_check f \<and> folder_refs d f"
    using catalog_ok_checks(1) [OF assms(1) f0(1)] catalog_ok_refs(1) [OF assms(1) f0(1)] assms(2)
    by (auto simp: folder_check_def folder_refs_def hides_folder_def tree_map_def)
qed

definition hides_item :: "catalog \<Rightarrow> (item \<Rightarrow> item) \<Rightarrow> bool" where
  "hides_item d h \<longleftrightarrow>
     (\<forall>x. it_id (h x) = it_id x \<and> it_folder (h x) = it_folder x \<and> it_created_by (h x) = it_created_by x
        \<and> item_check (h x) = item_check x
        \<and> it_external_source (h x) = it_external_source x \<and> it_external_id (h x) = it_external_id x
        \<and> (item_active (h x) \<longrightarrow> item_active x)
        \<and> (in_opt (it_updated_by x) (c_users d) \<longrightarrow> in_opt (it_updated_by (h x)) (c_users d))
        \<and> (in_opt (it_unit x) (map lu_id (c_units d)) \<longrightarrow> in_opt (it_unit (h x)) (map lu_id (c_units d))))"

lemma hides_item_ok:
  assumes "catalog_ok d" "hides_item d h"
  shows "catalog_ok (d\<lparr>c_items := map h (c_items d)\<rparr>)"
proof (rule ok_items [OF assms(1)])
  show "rows_unique item_conflict (map h (c_items d))"
    using catalog_okD(2) [OF assms(1)]
    by (rule rows_unique_map) (use assms(2) in \<open>auto simp: item_conflict_def hides_item_def simp del: not_None_eq\<close>)
  fix x assume "x \<in> set (map h (c_items d))"
  then obtain x0 where x0: "x0 \<in> set (c_items d)" "x = h x0" by auto
  then show "item_check x \<and> item_refs d x"
    using catalog_ok_checks(2) [OF assms(1) x0(1)] catalog_ok_refs(2) [OF assms(1) x0(1)] assms(2)
    by (auto simp: item_refs_def hides_item_def)
qed

section \<open>What the gate writes\<close>

text \<open>The root row after the gate: a tombstone that belongs to the unit.\<close>

definition gate_row :: "deletion_job \<Rightarrow> instant \<Rightarrow> string \<Rightarrow> folder \<Rightarrow> folder" where
  "gate_row k now unit f =
     (if fd_id f = dj_root k \<and> fd_org f = dj_org k
      then (if folder_active f then f\<lparr>fd_deleted_at := Some now, fd_updated_by := Some (dj_requested_by k)\<rparr> else f)
             \<lparr>fd_unit := Some unit\<rparr>
      else f)"

lemma gate_row_simps [simp]:
  "fd_id (gate_row k now unit f) = fd_id f" "fd_org (gate_row k now unit f) = fd_org f"
  "fd_path (gate_row k now unit f) = fd_path f" "fd_name (gate_row k now unit f) = fd_name f"
  "fd_description (gate_row k now unit f) = fd_description f"
  "fd_created_by (gate_row k now unit f) = fd_created_by f"
  by (simp_all add: gate_row_def)

lemma tree_map_gate_row [simp]: "tree_map (gate_row k now unit)"
  by (simp add: tree_map_def)

lemma folder_active_gate_row:
  "folder_active (gate_row k now unit f) \<longleftrightarrow> folder_active f \<and> \<not> (fd_id f = dj_root k \<and> fd_org f = dj_org k)"
  by (simp add: gate_row_def folder_active_def)

lemma gate_updates:
  "sql_update (\<lambda>f. fd_id f = dj_root k \<and> fd_org f = dj_org k \<and> \<not> folder_active f) (\<lambda>f. f\<lparr>fd_unit := Some unit\<rparr>)
     (sql_update (\<lambda>f. fd_id f = dj_root k \<and> fd_org f = dj_org k \<and> folder_active f)
        (\<lambda>f. f\<lparr>fd_deleted_at := Some now, fd_updated_by := Some (dj_requested_by k)\<rparr>) fs)
   = map (gate_row k now unit) fs"
  by (induction fs) (auto simp: gate_row_def folder_active_def)

text \<open>
  The gate leaves the other tables alone, except that it may add the unit; the folders change by \<open>gate_row\<close>.
\<close>

lemma gate_Inr:
  assumes "closeFolderDeletionVisibilityGate k now uid tnow d = Inr ((unit, closed), d1)"
  shows "c_folders d1 = map (gate_row k now unit) (c_folders d)" "c_items d1 = c_items d" "c_jobs d1 = c_jobs d"
    "c_djobs d1 = c_djobs d" "c_orgs d1 = c_orgs d" "c_users d1 = c_users d" "catalog_ok d1"
    "c_units d1 = c_units d \<or> (\<exists>u. c_units d1 = c_units d @ [u] \<and> unit = uid \<and> deleting_unit (dj_org k) (dj_root k) u
        \<and> lu_id u = uid \<and> lu_path u = dj_path k)"
    "closed \<longleftrightarrow> rows_affected (\<lambda>f. fd_id f = dj_root k \<and> fd_org f = dj_org k \<and> folder_active f) (c_folders d) = 1"
    "rows_affected (\<lambda>f. fd_id f = dj_root k \<and> fd_org f = dj_org k) (c_folders d) = 1"
proof -
  have rows: "rows_affected (\<lambda>f. fd_id f = dj_root k \<and> fd_org f = dj_org k \<and> \<not> folder_active f)
      (sql_update (\<lambda>f. fd_id f = dj_root k \<and> fd_org f = dj_org k \<and> folder_active f)
        (\<lambda>f. f\<lparr>fd_deleted_at := Some now, fd_updated_by := Some (dj_requested_by k)\<rparr>) fs)
      = rows_affected (\<lambda>f. fd_id f = dj_root k \<and> fd_org f = dj_org k) fs" for fs
    by (induction fs) (auto simp: rows_affected_def folder_active_def)
  note s = assms [unfolded closeFolderDeletionVisibilityGate_def ensureFolderDeletionLifecycleUnit_def Let_def
      createDeletingLifecycleUnit_def]
  show "c_folders d1 = map (gate_row k now unit) (c_folders d)" "c_items d1 = c_items d" "c_jobs d1 = c_jobs d"
    "c_djobs d1 = c_djobs d" "c_orgs d1 = c_orgs d" "c_users d1 = c_users d" "catalog_ok d1"
    "c_units d1 = c_units d \<or> (\<exists>u. c_units d1 = c_units d @ [u] \<and> unit = uid \<and> deleting_unit (dj_org k) (dj_root k) u
        \<and> lu_id u = uid \<and> lu_path u = dj_path k)"
    "closed \<longleftrightarrow> rows_affected (\<lambda>f. fd_id f = dj_root k \<and> fd_org f = dj_org k \<and> folder_active f) (c_folders d) = 1"
    "rows_affected (\<lambda>f. fd_id f = dj_root k \<and> fd_org f = dj_org k) (c_folders d) = 1"
    using s by (auto simp: gate_updates rows deleting_unit_def split: option.splits if_splits)
qed

section \<open>What a batch writes\<close>

definition is_root :: "deletion_job \<Rightarrow> folder \<Rightarrow> bool" where
  "is_root k f \<longleftrightarrow> fd_id f = dj_root k \<and> fd_org f = dj_org k"

text \<open>A row put into the recycle bin by a run of the job \<open>k\<close> of the unit.\<close>

definition binned_folder :: "deletion_job \<Rightarrow> string \<Rightarrow> folder \<Rightarrow> folder \<Rightarrow> bool" where
  "binned_folder k unit f f' \<longleftrightarrow> (is_root k f \<or> subtree_folder (dj_org k) (dj_path k) f \<and> folder_active f) \<and>
     (\<exists>now. f' = (if folder_active f then f\<lparr>fd_deleted_at := Some now, fd_updated_by := Some (dj_requested_by k)\<rparr> else f)
                    \<lparr>fd_unit := Some unit\<rparr>)"

definition binned_item :: "catalog \<Rightarrow> deletion_job \<Rightarrow> string \<Rightarrow> item \<Rightarrow> item \<Rightarrow> bool" where
  "binned_item d k unit x x' \<longleftrightarrow> item_below d (dj_org k) (dj_path k) x \<and> item_active x \<and>
     (\<exists>now. x' = x\<lparr>it_deleted_at := Some now, it_updated_by := Some (dj_requested_by k), it_unit := Some unit\<rparr>)"

lemma gate_row_binned: "gate_row k now unit f = f \<or> binned_folder k unit f (gate_row k now unit f)"
  by (auto simp: gate_row_def binned_folder_def is_root_def)

lemma selected_folder:
  assumes "catalog_ok d" "f \<in> set (c_folders d)" "fd_id f \<in> set (map fd_id (deletion_folders e org p d))"
  shows "subtree_folder org p f \<and> folder_active f"
proof -
  obtain g where g: "g \<in> set (deletion_folders e org p d)" "fd_id g = fd_id f" using assms(3) by auto
  then have "g \<in> set (c_folders d) \<and> subtree_folder org p g \<and> folder_active g"
    by (auto simp: deletion_folders_def order_by_def dest!: in_set_takeD)
  with same_row(1) [OF assms(1) _ assms(2)] g(2) show ?thesis by blast
qed

lemma selected_item:
  assumes "catalog_ok d" "x \<in> set (c_items d)" "it_id x \<in> set (map it_id (deletion_items e org p d))"
  shows "item_below d org p x \<and> item_active x"
proof -
  obtain y where y: "y \<in> set (deletion_items e org p d)" "it_id y = it_id x" using assms(3) by auto
  then have "y \<in> set (c_items d) \<and> item_below d org p y \<and> item_active y"
    by (auto simp: deletion_items_def order_by_def dest!: in_set_takeD)
  with same_row(2) [OF assms(1) _ assms(2)] y(2) show ?thesis by blast
qed

lemma sql_update_no_ids: "sql_update (\<lambda>r. key r \<in> set []) g rs = rs"
  by (simp add: sql_update_none)

definition bin_folders :: "instant \<Rightarrow> string \<Rightarrow> string \<Rightarrow> string list \<Rightarrow> folder \<Rightarrow> folder" where
  "bin_folders now user unit ids f =
     (if fd_id f \<in> set ids then f\<lparr>fd_deleted_at := Some now, fd_updated_by := Some user, fd_unit := Some unit\<rparr> else f)"

definition bin_items :: "instant \<Rightarrow> string \<Rightarrow> string \<Rightarrow> string list \<Rightarrow> item \<Rightarrow> item" where
  "bin_items now user unit ids x =
     (if it_id x \<in> set ids then x\<lparr>it_deleted_at := Some now, it_updated_by := Some user, it_unit := Some unit\<rparr> else x)"

lemma bin_simps [simp]:
  "fd_id (bin_folders now user unit ids f) = fd_id f" "fd_org (bin_folders now user unit ids f) = fd_org f"
  "fd_path (bin_folders now user unit ids f) = fd_path f" "fd_name (bin_folders now user unit ids f) = fd_name f"
  "fd_created_by (bin_folders now user unit ids f) = fd_created_by f"
  "it_id (bin_items now user unit ids x) = it_id x" "it_folder (bin_items now user unit ids x) = it_folder x"
  by (simp_all add: bin_folders_def bin_items_def)

lemma tree_map_bin [simp]: "tree_map (bin_folders now user unit ids)"
  by (simp add: tree_map_def)

lemma tree_map_comp: "tree_map g \<Longrightarrow> tree_map h \<Longrightarrow> tree_map (\<lambda>f. g (h f))"
  by (simp add: tree_map_def)

lemma tree_map_id [simp]: "tree_map (\<lambda>f. f)"
  by (simp add: tree_map_def)

lemma tombstone_Inr:
  "tombstone_items now user unit ids d = Inr d' \<longleftrightarrow>
     d' = d\<lparr>c_items := map (bin_items now user unit ids) (c_items d)\<rparr> \<and> catalog_ok d'"
  "tombstone_folders now user unit ids d = Inr d' \<longleftrightarrow>
     d' = d\<lparr>c_folders := map (bin_folders now user unit ids) (c_folders d)\<rparr> \<and> catalog_ok d'"
  by (auto simp: tombstone_items_def tombstone_folders_def sql_update_as_map bin_items_def bin_folders_def)

lemma tombstone_none [simp]:
  "tombstone_items now user unit [] d = Inr d' \<longleftrightarrow> d' = d \<and> catalog_ok d"
  "tombstone_folders now user unit [] d = Inr d' \<longleftrightarrow> d' = d \<and> catalog_ok d"
  by (auto simp: tombstone_Inr bin_items_def bin_folders_def map_idI)

text \<open>The three outcomes of the batch proper.\<close>

definition item_progress :: "batch_env \<Rightarrow> deletion_job \<Rightarrow> string \<Rightarrow> catalog \<Rightarrow> catalog \<Rightarrow> bool" where
  "item_progress e k unit d d' \<longleftrightarrow> (let ids = map it_id (deletion_items e (dj_org k) (dj_path k) d) in
     ids \<noteq> [] \<and> c_folders d' = c_folders d \<and> c_units d' = c_units d
     \<and> c_items d' = map (bin_items (be_items_now e) (dj_requested_by k) unit ids) (c_items d))"

definition folder_progress :: "batch_env \<Rightarrow> deletion_job \<Rightarrow> string \<Rightarrow> catalog \<Rightarrow> catalog \<Rightarrow> bool" where
  "folder_progress e k unit d d' \<longleftrightarrow> (let ids = map fd_id (deletion_folders e (dj_org k) (dj_path k) d) in
     ids \<noteq> [] \<and> c_items d' = c_items d \<and> c_units d' = c_units d
     \<and> c_folders d' = map (bin_folders (be_folders_now e) (dj_requested_by k) unit ids) (c_folders d))"

definition deletion_finished :: "batch_env \<Rightarrow> deletion_job \<Rightarrow> catalog \<Rightarrow> catalog \<Rightarrow> bool" where
  "deletion_finished e k d d' \<longleftrightarrow>
     deletion_items e (dj_org k) (dj_path k) d = [] \<and> deletion_folders e (dj_org k) (dj_path k) d = []
     \<and> c_folders d' = c_folders d \<and> c_items d' = c_items d
     \<and> rows_affected (deleting_unit (dj_org k) (dj_root k)) (c_units d) = 1"

lemma bin_nothing [simp]:
  "map (bin_items now user unit []) xs = xs" "map (bin_folders now user unit []) fs = fs"
  by (simp_all add: bin_items_def bin_folders_def map_idI)

lemma progress_saved_Inr:
  "saveRunningFolderDeletionProgress j k cp now d = Inr d' \<Longrightarrow>
     catalog_ok d' \<and> c_folders d' = c_folders d \<and> c_items d' = c_items d \<and> c_units d' = c_units d
     \<and> c_orgs d' = c_orgs d \<and> c_users d' = c_users d"
  by (auto simp: saveRunningFolderDeletionProgress_def)

lemma complete_deletion_Inr:
  "complete_deletion e j k cp d = Inr d' \<Longrightarrow>
     catalog_ok d' \<and> c_folders d' = c_folders d \<and> c_items d' = c_items d
     \<and> c_orgs d' = c_orgs d \<and> c_users d' = c_users d
     \<and> rows_affected (deleting_unit (dj_org k) (dj_root k)) (c_units d) = 1"
  by (auto simp: complete_deletion_def completeDeletingLifecycleUnit_def split: if_splits)

lemma deletion_batch_cases:
  assumes b: "deletion_batch e j k unit cp d = Inr (fin, d')"
  shows "catalog_ok d' \<and> c_orgs d' = c_orgs d \<and> c_users d' = c_users d
    \<and> (\<not> fin \<and> (item_progress e k unit d d' \<or> folder_progress e k unit d d') \<or> fin \<and> deletion_finished e k d d')"
proof (cases "deletion_items e (dj_org k) (dj_path k) d = []")
  case False
  from b obtain d1 j1 k1 cp1 where "\<not> fin"
    "tombstone_items (be_items_now e) (dj_requested_by k) unit (map it_id (deletion_items e (dj_org k) (dj_path k) d)) d = Inr d1"
    "saveRunningFolderDeletionProgress j1 k1 cp1 (be_now e) d1 = Inr d'"
    unfolding deletion_batch_def Let_def using False by auto
  then show ?thesis using False progress_saved_Inr [of j1 k1 cp1 "be_now e" d1 d']
    by (auto simp: tombstone_Inr item_progress_def Let_def)
next
  case items: True
  show ?thesis
  proof (cases "deletion_folders e (dj_org k) (dj_path k) d = []")
    case False
    from b obtain d1 j1 k1 cp1 where "\<not> fin"
      "tombstone_folders (be_folders_now e) (dj_requested_by k) unit (map fd_id (deletion_folders e (dj_org k) (dj_path k) d)) d = Inr d1"
      "saveRunningFolderDeletionProgress j1 k1 cp1 (be_now e) d1 = Inr d'"
      unfolding deletion_batch_def Let_def using items False by auto
    then show ?thesis using False progress_saved_Inr [of j1 k1 cp1 "be_now e" d1 d']
      by (auto simp: tombstone_Inr folder_progress_def Let_def)
  next
    case True
    from b have "fin \<and> (\<exists>d1. tombstone_folders (be_folders_now e) (dj_requested_by k) unit [] d = Inr d1
        \<and> complete_deletion e j k cp d1 = Inr d')"
      unfolding deletion_batch_def Let_def using items True by auto
    then show ?thesis using items True complete_deletion_Inr [of e j k cp d d']
      by (auto simp: tombstone_Inr deletion_finished_def)
  qed
qed

text \<open>The rows after a batch, by a map for each table.\<close>

definition batch_wrote ::
  "string \<Rightarrow> string \<Rightarrow> catalog \<Rightarrow> catalog \<Rightarrow> lifecycle_job \<Rightarrow> deletion_job \<Rightarrow> string
   \<Rightarrow> (folder \<Rightarrow> folder) \<Rightarrow> (item \<Rightarrow> item) \<Rightarrow> bool" where
  "batch_wrote did worker d d' j k unit g h \<longleftrightarrow>
     held_deletion did worker d = Inr (j, k) \<and> lj_unit j = Some unit \<and> tree_map g
     \<and> c_folders d' = map g (c_folders d) \<and> c_items d' = map h (c_items d) \<and> catalog_ok d'
     \<and> (\<forall>f\<in>set (c_folders d). g f = f \<or> binned_folder k unit f (g f))
     \<and> (\<forall>x\<in>set (c_items d). h x = x \<or> binned_item d k unit x (h x))
     \<and> (\<forall>x. it_folder (h x) = it_folder x \<and> it_id (h x) = it_id x)
     \<and> (\<forall>f\<in>set (c_folders d). is_root k f \<longrightarrow> binned_folder k unit f (g f))"

lemma batch_rows:
  assumes ok: "catalog_ok d" and b: "batch_work e did worker d = Inr ((fin, closed), d')"
  shows "\<exists>j k unit g h. batch_wrote did worker d d' j k unit g h"
proof -
  from b obtain j k unit d1 k1 cp where hd: "held_deletion did worker d = Inr (j, k)" "lj_unit j = Some unit"
    and gate: "closeFolderDeletionVisibilityGate k (be_gate_now e) (be_unit_id e) (be_tnow e) d = Inr ((unit, closed), d1)"
    and bt: "deletion_batch e j k1 unit cp d1 = Inr (fin, d')"
    and k1: "dj_org k1 = dj_org k" "dj_path k1 = dj_path k" "dj_requested_by k1 = dj_requested_by k"
    by (auto simp: batch_work_def Let_def split: option.splits if_splits)
  note d1 = gate_Inr [OF gate]
  note c = deletion_batch_cases [OF bt]
  let ?g = "gate_row k (be_gate_now e) unit"
  have below1: "item_below d1 org p x = item_below d org p x" for org p x
    by (rule item_below_map(1) [OF tree_map_gate_row d1(1)]) simp
  have rooted: "binned_folder k unit f (?g f)" if "is_root k f" for f
    using that by (auto simp: gate_row_def binned_folder_def is_root_def)
  consider (items) ids where "c_folders d' = c_folders d1" "ids = map it_id (deletion_items e (dj_org k) (dj_path k) d1)"
      "c_items d' = map (bin_items (be_items_now e) (dj_requested_by k) unit ids) (c_items d1)"
    | (folders) ids where "c_items d' = c_items d1" "ids = map fd_id (deletion_folders e (dj_org k) (dj_path k) d1)"
      "c_folders d' = map (bin_folders (be_folders_now e) (dj_requested_by k) unit ids) (c_folders d1)"
    | (last) "c_folders d' = c_folders d1" "c_items d' = c_items d1"
    using c k1 by (auto simp: item_progress_def folder_progress_def deletion_finished_def Let_def)
  then show ?thesis
  proof cases
    case items
    have "bin_items (be_items_now e) (dj_requested_by k) unit ids x = x
        \<or> binned_item d k unit x (bin_items (be_items_now e) (dj_requested_by k) unit ids x)"
      if "x \<in> set (c_items d)" for x
      using selected_item [OF d1(7), of x e "dj_org k" "dj_path k"] that items(2) d1(2) below1
      by (auto simp: bin_items_def binned_item_def)
    then have "batch_wrote did worker d d' j k unit ?g (bin_items (be_items_now e) (dj_requested_by k) unit ids)"
      unfolding batch_wrote_def using hd items d1(1,2) c gate_row_binned rooted by simp
    then show ?thesis by blast
  next
    case folders
    let ?b = "bin_folders (be_folders_now e) (dj_requested_by k) unit ids"
    have sel: "subtree_folder (dj_org k) (dj_path k) f \<and> folder_active (?g f)"
      if "f \<in> set (c_folders d)" "fd_id f \<in> set ids" for f
      using selected_folder [OF d1(7), of "?g f" e "dj_org k" "dj_path k"] that folders(2) d1(1)
      by (auto simp: subtree_folder_def)
    have bg: "?b (?g f) = ?g f" if "f \<in> set (c_folders d)" "is_root k f" for f
      using sel [OF that(1)] that(2) by (auto simp: bin_folders_def folder_active_gate_row is_root_def)
    have "?b (?g f) = f \<or> binned_folder k unit f (?b (?g f))" if "f \<in> set (c_folders d)" for f
    proof (cases "is_root k f")
      case True
      with bg that rooted show ?thesis by simp
    next
      case False
      then have "?g f = f" by (auto simp: gate_row_def is_root_def)
      with sel [OF that] show ?thesis by (auto simp: bin_folders_def binned_folder_def)
    qed
    then have "batch_wrote did worker d d' j k unit (\<lambda>f. ?b (?g f)) (\<lambda>x. x)"
      unfolding batch_wrote_def using hd folders d1(1,2) c bg rooted by (simp add: tree_map_comp comp_def)
    then show ?thesis by blast
  next
    case last
    then have "batch_wrote did worker d d' j k unit ?g (\<lambda>x. x)"
      unfolding batch_wrote_def using hd d1(1,2) c gate_row_binned rooted by simp
    then show ?thesis by blast
  qed
qed

section \<open>Batches are invisible\<close>

lemma filter_map_same:
  assumes "\<And>x. x \<in> set xs \<Longrightarrow> P (g x) = Q x" "\<And>x. x \<in> set xs \<Longrightarrow> Q x \<Longrightarrow> g x = x"
  shows "filter P (map g xs) = filter Q xs"
  using assms by (induction xs) auto

lemma binned_folderD:
  "binned_folder k unit f f' \<Longrightarrow> \<not> folder_active f' \<and> fd_unit f' = Some unit \<and> fd_id f' = fd_id f \<and> fd_path f' = fd_path f"
  by (auto simp: binned_folder_def folder_active_def)

lemma binned_itemD: "binned_item d k unit x x' \<Longrightarrow> \<not> item_active x' \<and> it_unit x' = Some unit"
  by (auto simp: binned_item_def item_active_def)

lemma held_deletionD:
  "held_deletion did worker d = Inr (j, k) \<Longrightarrow>
     findLifecycleJobForFolderDeletion did d = Some j \<and> owned_by worker j \<and> find_running_djob did worker d = Some k"
  by (auto simp: held_deletion_def split: option.splits if_splits)

text \<open>The rows that normal reads return.\<close>

definition visible_rows :: "catalog \<Rightarrow> folder list \<times> item list" where
  "visible_rows d = (filter (visible_folder d) (c_folders d), filter (visible_item d) (c_items d))"

text \<open>The root of the job of a worker is a tombstone at the path of the job.\<close>

definition root_hidden :: "deletion_job \<Rightarrow> catalog \<Rightarrow> bool" where
  "root_hidden k d \<longleftrightarrow> sql_exists (\<lambda>f. is_root k f \<and> fd_path f = dj_path k \<and> \<not> folder_active f) (c_folders d)"

lemma hidden_rows_same:
  assumes g: "tree_map g" and r: "r \<in> set (c_folders d)" "\<not> folder_active r" "\<not> folder_active (g r)"
    and d': "c_folders d' = map g (c_folders d)" "c_items d' = map h (c_items d)"
    and gf: "\<And>f. f \<in> set (c_folders d) \<Longrightarrow> g f = f \<or> fd_org f = fd_org r \<and> below (fd_path f) (fd_path r)"
    and hx: "\<And>x. x \<in> set (c_items d) \<Longrightarrow> h x = x \<or> item_below d (fd_org r) (fd_path r) x"
    and hf: "\<And>x. it_folder (h x) = it_folder x"
  shows "visible_rows d' = visible_rows d"
proof -
  have ch: "changes_below r g (c_folders d)" using gf by (fastforce simp: changes_below_def)
  have fv: "visible_folder d' (g f) = visible_folder d f" if "f \<in> set (c_folders d)" for f
    by (rule hidden_change_invisible [OF g r ch that d'(1)])
  have fs: "g f = f" if "f \<in> set (c_folders d)" "visible_folder d f" for f
    using gf [OF that(1)] that(2) below_tombstone_invisible [OF r(1,2), of f] by blast
  have iv: "visible_item d' (h x) = visible_item d x" if "x \<in> set (c_items d)" for x
    using hidden_item_change_invisible [OF g r ch d'(1) hf [of x]] hx [OF that] by auto
  have ix: "h x = x" if "x \<in> set (c_items d)" "visible_item d x" for x
  proof (rule ccontr)
    assume "h x \<noteq> x"
    then have b: "item_below d (fd_org r) (fd_path r) x" using hx [OF that(1)] by blast
    from that(2) obtain f where f: "folder_of d x = Some f" "visible_folder d f"
      by (auto simp: visible_item_def split: option.splits)
    then have "fd_org f = fd_org r" "below (fd_path f) (fd_path r)" using b by (simp_all add: item_below_def)
    with f(2) show False using below_tombstone_invisible [OF r(1,2)] by blast
  qed
  show ?thesis
    unfolding visible_rows_def d' using fv fs iv ix by (simp add: filter_map_same)
qed

text \<open>C10: Once the root of a recursive deletion is hidden, its batches are invisible: however many rows a batch moves
  into the recycle bin, normal reads return exactly the rows they returned before it.
\<close>

theorem deletion_batches_are_invisible:
  assumes ok: "catalog_ok d" and k: "find_running_djob did worker d = Some k" and root: "root_hidden k d"
    and run: "processFolderDeletionBatch e did worker d = (r, d')"
  shows "visible_rows d' = visible_rows d"
proof (cases r)
  case (Inl err)
  with run show ?thesis by (auto simp: processFolderDeletionBatch_def dest: transaction_Inl)
next
  case (Inr v)
  then obtain fin closed where "batch_work e did worker d = Inr ((fin, closed), d')"
    using transaction_Inr [of "batch_work e did worker" d v d'] run
    by (cases v) (auto simp: processFolderDeletionBatch_def)
  from batch_rows [OF ok this] obtain j k' unit g h where b: "batch_wrote did worker d d' j k' unit g h" by blast
  note w = b [unfolded batch_wrote_def]
  have kk: "k' = k" using held_deletionD [of did worker d j k'] w k by simp
  obtain f0 where f0: "f0 \<in> set (c_folders d)" "is_root k f0" "fd_path f0 = dj_path k" "\<not> folder_active f0"
    using root by (auto simp: root_hidden_def sql_exists_iff)
  have same: "f = f0" if "f \<in> set (c_folders d)" "is_root k f" for f
    using same_row(1) [OF ok that(1) f0(1)] that(2) f0(2) by (simp add: is_root_def)
  show ?thesis
  proof (rule hidden_rows_same [of g f0 d d' h])
    show "\<not> folder_active (g f0)" using w f0(1,2) kk binned_folderD by blast
    show "g f = f \<or> fd_org f = fd_org f0 \<and> below (fd_path f) (fd_path f0)" if "f \<in> set (c_folders d)" for f
      proof (cases "g f = f")
      case False
      then have "binned_folder k unit f (g f)" using w that kk by blast
      then show ?thesis using same [OF that] f0 by (auto simp: binned_folder_def subtree_folder_def is_root_def)
    qed simp
    show "h x = x \<or> item_below d (fd_org f0) (fd_path f0) x" if "x \<in> set (c_items d)" for x
      proof (cases "h x = x")
      case False
      then have "binned_item d k unit x (h x)" using w that kk by blast
      then show ?thesis using f0 by (auto simp: binned_item_def is_root_def)
    qed simp
    show "it_folder (h x) = it_folder x" for x using w by blast
  qed (use w f0 in blast)+
qed

section \<open>A run that holds its claim succeeds\<close>

lemma rows_affected_one:
  assumes "distinct (map key rs)" "r \<in> set rs" "c r" "\<And>s. s \<in> set rs \<Longrightarrow> c s \<Longrightarrow> key s = key r"
  shows "rows_affected c rs = 1"
proof -
  have "c s \<longleftrightarrow> key s = key r" if "s \<in> set rs" for s
    using assms(3,4) distinct_map_eq [OF assms(1) that assms(2)] that by blast
  then have "filter c rs = filter (\<lambda>s. key s = key r) rs"
    by (metis (mono_tags, lifting) filter_cong)
  with filter_singleton_key [OF assms(1,2)] show ?thesis by (simp add: rows_affected_def)
qed

lemma find_replaced:
  assumes "find P rs = Some r" "c r" "\<And>s. s \<in> set rs \<Longrightarrow> c s \<Longrightarrow> s = r" "P r'"
  shows "find P (sql_update c (\<lambda>_. r') rs) = Some r'"
  using assms(1,3)
proof (induction rs)
  case (Cons a rs)
  show ?case
  proof (cases "P a")
    case True
    with Cons.prems(1) assms(2,4) show ?thesis by simp
  next
    case False
    then have "\<not> c a" using Cons.prems find_SomeD [of P rs r] by fastforce
    with False Cons.prems Cons.IH show ?thesis by simp
  qed
qed simp

definition deletion_of :: "string \<Rightarrow> string \<Rightarrow> lifecycle_job \<Rightarrow> deletion_job \<Rightarrow> unit_row \<Rightarrow> catalog \<Rightarrow> bool" where
  "deletion_of did worker j k u d \<longleftrightarrow>
     catalog_ok d \<and> held_deletion did worker d = Inr (j, k) \<and> u \<in> set (c_units d) \<and> lj_unit j = Some (lu_id u)
     \<and> deleting_unit (dj_org k) (dj_root k) u
     \<and> (\<exists>f\<in>set (c_folders d). is_root k f \<and> fd_path f = dj_path k)"

lemma held_deletion_rows:
  assumes "held_deletion did worker d = Inr (j, k)"
  shows "j \<in> set (c_jobs d)" "lj_legacy j = Some did" "owned_by worker j" "k \<in> set (c_djobs d)" "dj_id k = did"
    "dj_status k = FolderDeletionRunning" "dj_lease_owner k = Some worker"
  using held_deletionD [OF assms]
  by (auto simp: findLifecycleJobForFolderDeletion_def find_running_djob_def dest!: find_SomeD)

lemma newest_deleting_unit_eq:
  assumes "catalog_ok d" "u \<in> set (c_units d)" "deleting_unit org r u"
  shows "newest_deleting_unit org r d = Some u"
proof -
  have all: "set (filter (deleting_unit org r) (c_units d)) = {u}"
    unfolding set_filter using assms(2,3) one_deleting_unit [OF assms(1) _ assms(2) _ assms(3)] by blast
  let ?us = "order_by (\<lambda>u. (- lu_created_at u, lu_id u)) (filter (deleting_unit org r) (c_units d))"
  have us: "set ?us = {u}" unfolding order_by_def set_sort all by simp
  show ?thesis
  proof (cases ?us)
    case Nil
    with us show ?thesis by simp
  next
    case (Cons v vs)
    then have "v \<in> set ?us" by simp
    then have "v = u" unfolding us by blast
    with Cons show ?thesis by (simp add: newest_deleting_unit_def)
  qed
qed

lemma gate_ok:
  assumes dl: "deletion_of did worker j k u d"
  shows "closeFolderDeletionVisibilityGate k now uid tnow d =
    Inr ((lu_id u, rows_affected (\<lambda>f. fd_id f = dj_root k \<and> fd_org f = dj_org k \<and> folder_active f) (c_folders d) = 1),
         d\<lparr>c_folders := map (gate_row k now (lu_id u)) (c_folders d)\<rparr>)"
proof -
  note D = dl [unfolded deletion_of_def]
  have ok: "catalog_ok d" using D by blast
  have req: "dj_requested_by k \<in> set (c_users d)"
    using catalog_ok_refs(5) [OF ok, of k] held_deletion_rows(4) [of did worker d j k] D by (simp add: deletion_job_refs_def)
  have un: "lu_id u \<in> lu_id ` set (c_units d)" using D by blast
  let ?a = "\<lambda>f. if fd_id f = dj_root k \<and> fd_org f = dj_org k \<and> folder_active f
      then f\<lparr>fd_deleted_at := Some now, fd_updated_by := Some (dj_requested_by k)\<rparr> else f"
  have a: "hides_folder d ?a" using req by (auto simp: hides_folder_def tree_map_def in_opt_def folder_active_def)
  have g: "hides_folder d (gate_row k now (lu_id u))"
    using req un by (auto simp: hides_folder_def in_opt_def folder_active_gate_row) (auto simp: gate_row_def)
  let ?d1 = "d\<lparr>c_folders := map ?a (c_folders d)\<rparr>" and ?d2 = "d\<lparr>c_folders := map (gate_row k now (lu_id u)) (c_folders d)\<rparr>"
  have ok1: "catalog_ok ?d1" by (rule hides_folder_ok [OF ok a])
  have ok2: "catalog_ok ?d2" by (rule hides_folder_ok [OF ok g])
  obtain f where f: "f \<in> set (c_folders d)" "is_root k f" using D by blast
  let ?root = "\<lambda>f. fd_id f = dj_root k \<and> fd_org f = dj_org k \<and> \<not> folder_active f"
  have one: "rows_affected ?root (c_folders ?d1) = 1"
  proof (rule rows_affected_one [OF distinct_ids(1) [OF ok1]])
    show "?a f \<in> set (c_folders ?d1)" using f(1) by simp
    show "?root (?a f)" using f(2) by (simp add: is_root_def folder_active_def)
    show "fd_id s = fd_id (?a f)" if "?root s" for s using that f(2) by (simp add: is_root_def)
  qed
  have u1: "newest_deleting_unit (dj_org k) (dj_root k) ?d1 = Some u"
    by (rule newest_deleting_unit_eq [OF ok1]) (use D in simp_all)
  have s1: "on_folders (sql_update (\<lambda>f. fd_id f = dj_root k \<and> fd_org f = dj_org k \<and> folder_active f)
      (\<lambda>f. f\<lparr>fd_deleted_at := Some now, fd_updated_by := Some (dj_requested_by k)\<rparr>)) d = Inr ?d1"
    using ok1 by (simp add: sql_update_as_map)
  have s2: "on_folders (sql_update ?root (\<lambda>f. f\<lparr>fd_unit := Some (lu_id u)\<rparr>)) ?d1 = Inr ?d2"
    using ok2 gate_updates [of k "lu_id u" now "c_folders d"] by (simp add: sql_update_as_map)
  show ?thesis
    unfolding closeFolderDeletionVisibilityGate_def ensureFolderDeletionLifecycleUnit_def Let_def s1 and_then_simps(2)
      u1 option.case prod.case s2 one by simp
qed

text \<open>What is left to do for a subtree.\<close>

definition deletion_todo :: "string \<Rightarrow> ltree \<Rightarrow> catalog \<Rightarrow> nat" where
  "deletion_todo org p d =
     rows_affected (\<lambda>f. subtree_folder org p f \<and> folder_active f) (c_folders d)
     + rows_affected (\<lambda>x. item_below d org p x \<and> item_active x) (c_items d)"

text \<open>Two rows of the job saved with new progress: the job is still held.\<close>

definition job_saved :: "lifecycle_job \<Rightarrow> deletion_job \<Rightarrow> catalog \<Rightarrow> catalog" where
  "job_saved j k d = d\<lparr>c_jobs := sql_update (\<lambda>r. lj_id r = lj_id j) (\<lambda>_. j) (c_jobs d),
     c_djobs := sql_update (\<lambda>r. dj_id r = dj_id k) (\<lambda>_. k) (c_djobs d)\<rparr>"

definition same_claim :: "lifecycle_job \<Rightarrow> lifecycle_job \<Rightarrow> deletion_job \<Rightarrow> deletion_job \<Rightarrow> bool" where
  "same_claim j0 j k0 k \<longleftrightarrow>
     (\<exists>cp t. j = j0\<lparr>lj_checkpoint := cp, lj_lease_expires := Some t\<rparr>)
     \<and> (\<exists>m n t. k = k0\<lparr>dj_deleted_metadata := m, dj_deleted_folders := n, dj_lease_expires := t\<rparr> \<and> 0 \<le> m \<and> 0 \<le> n)"

lemma saved_progress:
  assumes ok: "catalog_ok d" and held: "held_deletion did worker d = Inr (j0, k0)" and c: "same_claim j0 j k0 k"
  shows "and_then (save_job j d) (save_djob k) = Inr (job_saved j k d)" "catalog_ok (job_saved j k d)"
    "held_deletion did worker (job_saved j k d) = Inr (j, k)"
proof -
  note r = held_deletion_rows [OF held]
  note hd = held_deletionD [OF held]
  have jc: "lifecycle_job_check j" using catalog_ok_checks(4) [OF ok r(1)] c r(3)
    by (auto simp: lifecycle_job_check_def same_claim_def owned_by_def)
  have kc: "deletion_job_check k" using catalog_ok_checks(5) [OF ok r(4)] c
    by (auto simp: deletion_job_check_def same_claim_def)
  have js: "save_job j d = Inr (d\<lparr>c_jobs := sql_update (\<lambda>r. lj_id r = lj_id j) (\<lambda>_. j) (c_jobs d)\<rparr>)"
    by (rule save_job_ok [OF ok r(1)]) (use c jc in \<open>auto simp: same_claim_def job_open_def\<close>)
  let ?d1 = "d\<lparr>c_jobs := sql_update (\<lambda>r. lj_id r = lj_id j) (\<lambda>_. j) (c_jobs d)\<rparr>"
  have ok1: "catalog_ok ?d1" using js by simp
  have ks: "save_djob k ?d1 = Inr (job_saved j k d)"
    unfolding job_saved_def using save_djob_ok [OF ok1, of k0 k] r(4) c kc by (auto simp: same_claim_def)
  show "and_then (save_job j d) (save_djob k) = Inr (job_saved j k d)" using js ks by (simp only: and_then_simps)
  show "catalog_ok (job_saved j k d)" using ks unfolding save_Inr by blast
  have ids: "lj_id j = lj_id j0" "dj_id k = dj_id k0" using c by (auto simp: same_claim_def)
  have "find (\<lambda>j. lj_legacy j = Some did) (sql_update (\<lambda>r. lj_id r = lj_id j) (\<lambda>_. j) (c_jobs d)) = Some j"
  proof (rule find_replaced [of _ _ j0])
    show "find (\<lambda>j. lj_legacy j = Some did) (c_jobs d) = Some j0"
      using hd by (simp add: findLifecycleJobForFolderDeletion_def)
    show "s = j0" if "s \<in> set (c_jobs d)" "lj_id s = lj_id j" for s
      by (rule same_row(4) [OF ok that(1) r(1)]) (simp add: that(2) ids)
  qed (use r c ids in \<open>auto simp: same_claim_def\<close>)
  moreover have "find (\<lambda>k. dj_id k = did \<and> dj_status k = FolderDeletionRunning \<and> dj_lease_owner k = Some worker)
      (sql_update (\<lambda>r. dj_id r = dj_id k) (\<lambda>_. k) (c_djobs d)) = Some k"
  proof (rule find_replaced [of _ _ k0])
    show "find (\<lambda>k. dj_id k = did \<and> dj_status k = FolderDeletionRunning \<and> dj_lease_owner k = Some worker) (c_djobs d)
        = Some k0"
      using hd by (simp add: find_running_djob_def)
    show "s = k0" if "s \<in> set (c_djobs d)" "dj_id s = dj_id k" for s
      by (rule same_row(5) [OF ok that(1) r(4)]) (simp add: that(2) ids)
  qed (use r c ids in \<open>auto simp: same_claim_def\<close>)
  moreover have "owned_by worker j" using r(3) c by (auto simp: owned_by_def same_claim_def)
  ultimately show "held_deletion did worker (job_saved j k d) = Inr (j, k)"
    by (simp add: held_deletion_def findLifecycleJobForFolderDeletion_def find_running_djob_def job_saved_def)
qed

lemma rows_affected_map_le:
  "(\<And>r. r \<in> set rs \<Longrightarrow> c (g r) \<Longrightarrow> c r) \<Longrightarrow> rows_affected c (map g rs) \<le> rows_affected c rs"
  by (induction rs) (auto simp: rows_affected_def)

lemma rows_affected_map_less:
  assumes "\<And>r. r \<in> set rs \<Longrightarrow> c (g r) \<Longrightarrow> c r" "r \<in> set rs" "c r" "\<not> c (g r)"
  shows "rows_affected c (map g rs) < rows_affected c rs"
  using assms
proof (induction rs)
  case (Cons a rs)
  have le: "rows_affected c (map g rs) \<le> rows_affected c rs" using Cons.prems(1) by (intro rows_affected_map_le) auto
  show ?case
  proof (cases "r = a")
    case True
    with le Cons.prems(3,4) show ?thesis by (simp add: rows_affected_def)
  next
    case False
    then have "rows_affected c (map g rs) < rows_affected c rs" using Cons by simp
    then show ?thesis using Cons.prems(1) [of a] by (auto simp: rows_affected_def)
  qed
qed simp

lemma rows_affected_cong: "(\<And>r. r \<in> set rs \<Longrightarrow> c r = c' r) \<Longrightarrow> rows_affected c rs = rows_affected c' rs"
  by (auto simp: rows_affected_def intro: arg_cong [where f = length] filter_cong)

text \<open>No row is locked by another transaction.\<close>

definition unlocked :: "batch_env \<Rightarrow> bool" where
  "unlocked e \<longleftrightarrow> be_locked_items e = [] \<and> be_locked_folders e = []"

lemma order_by_Nil [simp]: "order_by k rs = [] \<longleftrightarrow> rs = []"
  by (metis length_0_conv length_sort order_by_def)

lemma deletion_items_empty:
  "unlocked e \<Longrightarrow> deletion_items e org p d = [] \<longleftrightarrow> (\<forall>x\<in>set (c_items d). \<not> (item_below d org p x \<and> item_active x))"
  by (simp add: unlocked_def deletion_items_def FolderDeletionMetadataBatchSize_def filter_empty_conv)

lemma deletion_folders_empty:
  "unlocked e \<Longrightarrow> deletion_folders e org p d = [] \<longleftrightarrow>
     (\<forall>f\<in>set (c_folders d). \<not> (subtree_folder org p f \<and> folder_active f))"
  by (simp add: unlocked_def deletion_folders_def FolderDeletionFolderBatchSize_def filter_empty_conv)

lemma held_deletion_cong:
  assumes "c_jobs d' = c_jobs d" "c_djobs d' = c_djobs d"
  shows "held_deletion did worker d' = held_deletion did worker d"
  unfolding held_deletion_def findLifecycleJobForFolderDeletion_def find_running_djob_def assms ..

lemma deletion_of_gate:
  assumes "deletion_of did worker j k u d"
  shows "deletion_of did worker j k u (d\<lparr>c_folders := map (gate_row k now (lu_id u)) (c_folders d)\<rparr>)"
proof -
  have "catalog_ok (d\<lparr>c_folders := map (gate_row k now (lu_id u)) (c_folders d)\<rparr>)"
    using gate_Inr(7) [OF gate_ok [OF assms]] by blast
  with assms show ?thesis
    using held_deletion_cong [of "d\<lparr>c_folders := map (gate_row k now (lu_id u)) (c_folders d)\<rparr>" d did worker]
    by (auto simp: deletion_of_def is_root_def)
qed

text \<open>The end of a run: nothing of the subtree is active, both rows of the job succeeded, the unit is in the bin.\<close>

definition deletion_settled :: "string \<Rightarrow> ltree \<Rightarrow> string \<Rightarrow> string \<Rightarrow> catalog \<Rightarrow> bool" where
  "deletion_settled org p root did d \<longleftrightarrow>
     (\<forall>f\<in>set (c_folders d). subtree_folder org p f \<longrightarrow> \<not> folder_active f)
     \<and> (\<forall>x\<in>set (c_items d). item_below d org p x \<longrightarrow> \<not> item_active x)
     \<and> (\<exists>k\<in>set (c_djobs d). dj_id k = did \<and> dj_status k = FolderDeletionSucceeded)
     \<and> (\<exists>j\<in>set (c_jobs d). lj_legacy j = Some did \<and> lj_status j = LifecycleJobSucceeded)
     \<and> (\<exists>u\<in>set (c_units d). lu_org u = org \<and> lu_root u = root \<and> lu_state u = LifecycleDeleted
          \<and> lu_retention_until u \<noteq> None)"

definition same_deletion :: "deletion_job \<Rightarrow> deletion_job \<Rightarrow> bool" where
  "same_deletion k k' \<longleftrightarrow> dj_org k' = dj_org k \<and> dj_path k' = dj_path k \<and> dj_root k' = dj_root k"

lemma saved_deletion_of:
  assumes "deletion_of did worker j k u d" "same_claim j j' k k'" "catalog_ok d'"
    and d': "c_jobs d' = c_jobs d" "c_djobs d' = c_djobs d" "c_units d' = c_units d" "c_users d' = c_users d"
      "c_folders d' = map g (c_folders d)" "tree_map g"
  shows "and_then (save_job j' d') (save_djob k') = Inr (job_saved j' k' d')"
    "deletion_of did worker j' k' u (job_saved j' k' d')"
proof -
  note D = assms(1) [unfolded deletion_of_def]
  have held: "held_deletion did worker d' = Inr (j, k)"
    using held_deletion_cong [of d' d did worker] d' D by simp
  note sp = saved_progress [OF assms(3) held assms(2)]
  show "and_then (save_job j' d') (save_djob k') = Inr (job_saved j' k' d')" by (rule sp(1))
  have "\<exists>f\<in>set (c_folders d'). is_root k f \<and> fd_path f = dj_path k"
    using D d'(5) tree_mapD [OF d'(6)] by (auto simp: is_root_def)
  then show "deletion_of did worker j' k' u (job_saved j' k' d')"
    using D sp(2,3) assms(2) d' by (auto simp: deletion_of_def job_saved_def same_claim_def is_root_def)
qed

lemma item_batch_step:
  assumes dl: "deletion_of did worker j k u d" and c: "same_claim j j' k k'"
    and ids: "ids = map it_id (deletion_items e (dj_org k) (dj_path k) d)" "ids \<noteq> []"
    and d2: "d2 = d\<lparr>c_items := map (bin_items now (dj_requested_by k) (lu_id u) ids) (c_items d)\<rparr>"
  shows "tombstone_items now (dj_requested_by k) (lu_id u) ids d = Inr d2"
    "and_then (save_job j' d2) (save_djob k') = Inr (job_saved j' k' d2)"
    "deletion_of did worker j' k' u (job_saved j' k' d2)"
    "deletion_todo (dj_org k) (dj_path k) (job_saved j' k' d2) < deletion_todo (dj_org k) (dj_path k) d"
proof -
  note D = dl [unfolded deletion_of_def]
  have ok: "catalog_ok d" using D by blast
  have req: "dj_requested_by k \<in> set (c_users d)"
    using catalog_ok_refs(5) [OF ok, of k] held_deletion_rows(4) [of did worker d j k] D by (simp add: deletion_job_refs_def)
  have un: "lu_id u \<in> lu_id ` set (c_units d)" using D by blast
  have "hides_item d (bin_items now (dj_requested_by k) (lu_id u) ids)"
    using req un by (auto simp: hides_item_def in_opt_def bin_items_def item_active_def item_check_def)
  then have ok2: "catalog_ok d2" unfolding d2 by (rule hides_item_ok [OF ok])
  then show t: "tombstone_items now (dj_requested_by k) (lu_id u) ids d = Inr d2" by (simp add: tombstone_Inr d2)
  note sv = saved_deletion_of [OF dl c ok2, of "\<lambda>f. f"]
  show "and_then (save_job j' d2) (save_djob k') = Inr (job_saved j' k' d2)"
    by (rule sv(1)) (simp_all add: d2)
  show "deletion_of did worker j' k' u (job_saved j' k' d2)"
    by (rule sv(2)) (simp_all add: d2)
  let ?c = "\<lambda>x. item_below d (dj_org k) (dj_path k) x \<and> item_active x"
  have below2: "item_below (job_saved j' k' d2) org p x = item_below d org p x" for org p x
    by (simp add: item_below_def folder_of_def job_saved_def d2 cong: option.case_cong)
  obtain x where x: "x \<in> set (deletion_items e (dj_org k) (dj_path k) d)" using ids
    by (cases "deletion_items e (dj_org k) (dj_path k) d") auto
  then have xd: "x \<in> set (c_items d)" by (auto simp: deletion_items_def order_by_def dest!: in_set_takeD)
  have xi: "it_id x \<in> set ids" using x ids(1) by simp
  have xc: "?c x" using selected_item [OF ok xd] xi ids(1) by simp
  have bf: "item_below d org p (bin_items now (dj_requested_by k) (lu_id u) ids y) = item_below d org p y" for org p y
    by (simp add: item_below_def folder_of_def)
  have "rows_affected ?c (map (bin_items now (dj_requested_by k) (lu_id u) ids) (c_items d)) < rows_affected ?c (c_items d)"
  proof (rule rows_affected_map_less [where c = ?c, OF _ xd xc])
    show "\<not> ?c (bin_items now (dj_requested_by k) (lu_id u) ids x)" using xi by (simp add: bin_items_def item_active_def)
    show "?c y" if "?c (bin_items now (dj_requested_by k) (lu_id u) ids y)" for y
      using that bf by (auto simp: bin_items_def item_active_def split: if_splits)
  qed
  then show "deletion_todo (dj_org k) (dj_path k) (job_saved j' k' d2) < deletion_todo (dj_org k) (dj_path k) d"
    by (simp add: deletion_todo_def below2) (simp add: job_saved_def d2)
qed

lemma folder_batch_step:
  assumes dl: "deletion_of did worker j k u d" and c: "same_claim j j' k k'"
    and ids: "ids = map fd_id (deletion_folders e (dj_org k) (dj_path k) d)" "ids \<noteq> []"
    and d2: "d2 = d\<lparr>c_folders := map (bin_folders now (dj_requested_by k) (lu_id u) ids) (c_folders d)\<rparr>"
  shows "tombstone_folders now (dj_requested_by k) (lu_id u) ids d = Inr d2"
    "and_then (save_job j' d2) (save_djob k') = Inr (job_saved j' k' d2)"
    "deletion_of did worker j' k' u (job_saved j' k' d2)"
    "deletion_todo (dj_org k) (dj_path k) (job_saved j' k' d2) < deletion_todo (dj_org k) (dj_path k) d"
proof -
  note D = dl [unfolded deletion_of_def]
  have ok: "catalog_ok d" using D by blast
  have req: "dj_requested_by k \<in> set (c_users d)"
    using catalog_ok_refs(5) [OF ok, of k] held_deletion_rows(4) [of did worker d j k] D by (simp add: deletion_job_refs_def)
  have un: "lu_id u \<in> lu_id ` set (c_units d)" using D by blast
  let ?b = "bin_folders now (dj_requested_by k) (lu_id u) ids"
  have "hides_folder d ?b"
    using req un by (auto simp: hides_folder_def in_opt_def bin_folders_def tree_map_def folder_active_def)
  then have ok2: "catalog_ok d2" unfolding d2 by (rule hides_folder_ok [OF ok])
  then show t: "tombstone_folders now (dj_requested_by k) (lu_id u) ids d = Inr d2" by (simp add: tombstone_Inr d2)
  note sv = saved_deletion_of [OF dl c ok2, of ?b]
  show "and_then (save_job j' d2) (save_djob k') = Inr (job_saved j' k' d2)"
    by (rule sv(1)) (simp_all add: d2)
  show "deletion_of did worker j' k' u (job_saved j' k' d2)"
    by (rule sv(2)) (simp_all add: d2)
  let ?c = "\<lambda>f. subtree_folder (dj_org k) (dj_path k) f \<and> folder_active f"
  have below2: "item_below (job_saved j' k' d2) org p x = item_below d org p x" for org p x
    by (rule item_below_map(1) [of ?b]) (simp_all add: job_saved_def d2)
  obtain f where f: "f \<in> set (deletion_folders e (dj_org k) (dj_path k) d)" using ids
    by (cases "deletion_folders e (dj_org k) (dj_path k) d") auto
  then have fd: "f \<in> set (c_folders d)" by (auto simp: deletion_folders_def order_by_def dest!: in_set_takeD)
  have fi: "fd_id f \<in> set ids" using f ids(1) by simp
  have fc: "?c f" using selected_folder [OF ok fd] fi ids(1) by simp
  have "rows_affected ?c (map ?b (c_folders d)) < rows_affected ?c (c_folders d)"
  proof (rule rows_affected_map_less [where c = ?c, OF _ fd fc])
    show "\<not> ?c (?b f)" using fi by (simp add: bin_folders_def folder_active_def)
    show "?c g" if "?c (?b g)" for g
      using that by (auto simp: bin_folders_def folder_active_def subtree_folder_def split: if_splits)
  qed
  then show "deletion_todo (dj_org k) (dj_path k) (job_saved j' k' d2) < deletion_todo (dj_org k) (dj_path k) d"
    by (simp add: deletion_todo_def below2) (simp add: job_saved_def d2)
qed

lemma complete_batch_step:
  assumes dl: "deletion_of did worker j k u d" and c: "same_claim j j k k'"
    and none: "\<forall>f\<in>set (c_folders d). \<not> (subtree_folder (dj_org k) (dj_path k) f \<and> folder_active f)"
      "\<forall>x\<in>set (c_items d). \<not> (item_below d (dj_org k) (dj_path k) x \<and> item_active x)"
  shows "\<exists>d'. complete_deletion e j k' cp d = Inr d' \<and> deletion_settled (dj_org k) (dj_path k) (dj_root k) did d'"
proof -
  note D = dl [unfolded deletion_of_def]
  have ok: "catalog_ok d" using D by blast
  have held: "held_deletion did worker d = Inr (j, k)" using D by blast
  note r = held_deletion_rows [OF held]
  have ku: "dj_org k' = dj_org k" "dj_root k' = dj_root k" using c by (auto simp: same_claim_def)
  let ?del = "deleting_unit (dj_org k) (dj_root k)" and ?now = "be_done_now e"
  let ?done = "\<lambda>v. v\<lparr>lu_state := LifecycleDeleted, lu_delete_completed_at := Some ?now,
      lu_retention_until := Some (retention_from ?now)\<rparr>"
  let ?d1 = "d\<lparr>c_units := sql_update ?del ?done (c_units d)\<rparr>"
  have one: "rows_affected ?del (c_units d) = 1"
    by (rule rows_affected_one [OF distinct_ids(3) [OF ok], of u]) (use D one_deleting_unit [OF ok] in blast)+
  have ok1: "catalog_ok ?d1"
  proof (rule ok_units [OF ok, of _ "[]"])
    show "map (\<lambda>v. (lu_id v, lu_org v)) (sql_update ?del ?done (c_units d)) = map (\<lambda>v. (lu_id v, lu_org v)) (c_units d) @ []"
      by (simp add: sql_update_def)
    show "rows_unique unit_conflict (sql_update ?del ?done (c_units d))"
      using catalog_okD(3) [OF ok] unfolding sql_update_as_map
      by (rule rows_unique_map) (auto simp: unit_conflict_def unit_live_def deleting_unit_def split: if_splits)
    show "unit_check v \<and> unit_refs d v" if "v \<in> set (sql_update ?del ?done (c_units d))" for v
      using that catalog_ok_checks(3) [OF ok] catalog_ok_refs(3) [OF ok]
      by (auto simp: unit_check_def unit_refs_def)
  qed
  let ?j = "j\<lparr>lj_status := LifecycleJobSucceeded, lj_checkpoint := cp, lj_lease_owner := None,
      lj_lease_expires := None, lj_completed_at := Some ?now\<rparr>"
  let ?k = "k'\<lparr>dj_status := FolderDeletionSucceeded, dj_lease_owner := None, dj_lease_expires := None,
      dj_completed_at := Some ?now\<rparr>"
  have js: "save_job ?j ?d1 = Inr (?d1\<lparr>c_jobs := sql_update (\<lambda>x. lj_id x = lj_id ?j) (\<lambda>_. ?j) (c_jobs ?d1)\<rparr>)"
    by (rule save_job_ok [OF ok1, of j])
      (use r catalog_ok_checks(4) [OF ok r(1)] in \<open>auto simp: job_open_def lifecycle_job_check_def\<close>)
  let ?d2 = "?d1\<lparr>c_jobs := sql_update (\<lambda>x. lj_id x = lj_id ?j) (\<lambda>_. ?j) (c_jobs ?d1)\<rparr>"
  have ok2: "catalog_ok ?d2" using js unfolding save_Inr by blast
  have ks: "save_djob ?k ?d2 = Inr (?d2\<lparr>c_djobs := sql_update (\<lambda>x. dj_id x = dj_id ?k) (\<lambda>_. ?k) (c_djobs ?d2)\<rparr>)"
    by (rule save_djob_ok [OF ok2, of k])
      (use r c catalog_ok_checks(5) [OF ok r(4)] in \<open>auto simp: deletion_job_check_def same_claim_def\<close>)
  let ?d3 = "?d2\<lparr>c_djobs := sql_update (\<lambda>x. dj_id x = dj_id ?k) (\<lambda>_. ?k) (c_djobs ?d2)\<rparr>"
  have us: "on_units (sql_update ?del ?done) d = Inr ?d1" using ok1 by simp
  have "complete_deletion e j k' cp d = Inr ?d3"
    unfolding complete_deletion_def completeDeletingLifecycleUnit_def ku using one us js ks
    by (simp only: and_then_simps refl if_False not_True_eq_False)
  moreover have "deletion_settled (dj_org k) (dj_path k) (dj_root k) did ?d3"
  proof -
    have mem: "?k \<in> set (c_djobs ?d3)" "?j \<in> set (c_jobs ?d3)" "?done u \<in> set (c_units ?d3)"
      using sql_update_memI1 [OF r(4), of "\<lambda>x. dj_id x = dj_id ?k" "\<lambda>_. ?k"] c
        sql_update_memI1 [OF r(1), of "\<lambda>x. lj_id x = lj_id ?j" "\<lambda>_. ?j"]
        sql_update_memI1 [of u "c_units d" ?del ?done] D by (auto simp: same_claim_def)
    have below3: "item_below ?d3 (dj_org k) (dj_path k) x = item_below d (dj_org k) (dj_path k) x" for x
      by (simp add: item_below_def folder_of_def cong: option.case_cong)
    have facts: "dj_id k' = did" "lu_org u = dj_org k" "lu_root u = dj_root k"
      using c r D by (auto simp: same_claim_def deleting_unit_def)
    show ?thesis
      unfolding deletion_settled_def below3
    proof (intro conjI)
      show "\<exists>x\<in>set (c_djobs ?d3). dj_id x = did \<and> dj_status x = FolderDeletionSucceeded"
        by (rule bexI [OF _ mem(1)]) (simp add: facts)
      show "\<exists>x\<in>set (c_jobs ?d3). lj_legacy x = Some did \<and> lj_status x = LifecycleJobSucceeded"
        by (rule bexI [OF _ mem(2)]) (simp add: r(2))
      show "\<exists>x\<in>set (c_units ?d3). lu_org x = dj_org k \<and> lu_root x = dj_root k \<and> lu_state x = LifecycleDeleted
          \<and> lu_retention_until x \<noteq> None"
        by (rule bexI [OF _ mem(3)]) (simp add: facts)
    qed (use none in simp_all)
  qed
  ultimately show ?thesis by blast
qed

lemma same_claim_self:
  assumes "catalog_ok d" "held_deletion did worker d = Inr (j, k)" "0 \<le> n"
  shows "same_claim j j k (k\<lparr>dj_deleted_folders := n\<rparr>)"
proof -
  note r = held_deletion_rows [OF assms(2)]
  obtain t where t: "lj_lease_expires j = Some t"
    using catalog_ok_checks(4) [OF assms(1) r(1)] r(3) by (auto simp: lifecycle_job_check_def owned_by_def)
  have "0 \<le> dj_deleted_metadata k" using catalog_ok_checks(5) [OF assms(1) r(4)] by (simp add: deletion_job_check_def)
  moreover have "j = j\<lparr>lj_checkpoint := lj_checkpoint j, lj_lease_expires := Some t\<rparr>" by (simp add: t [symmetric])
  moreover have "k\<lparr>dj_deleted_folders := n\<rparr> = k\<lparr>dj_deleted_metadata := dj_deleted_metadata k, dj_deleted_folders := n,
      dj_lease_expires := dj_lease_expires k\<rparr>" by simp
  ultimately show ?thesis unfolding same_claim_def using assms(3) by blast
qed

lemma same_claim_progress:
  assumes "same_claim j j k k1" "0 \<le> m" "0 \<le> n"
  shows "same_claim j (j\<lparr>lj_checkpoint := cp, lj_lease_expires := Some t\<rparr>) k
           (k1\<lparr>dj_deleted_metadata := m, dj_lease_expires := Some t\<rparr>)"
    "same_claim j (j\<lparr>lj_checkpoint := cp, lj_lease_expires := Some t\<rparr>) k
           (k1\<lparr>dj_deleted_folders := n, dj_lease_expires := Some t\<rparr>)"
proof -
  obtain m0 n0 t0 where k1: "k1 = k\<lparr>dj_deleted_metadata := m0, dj_deleted_folders := n0, dj_lease_expires := t0\<rparr>"
    "0 \<le> m0" "0 \<le> n0" using assms(1) by (auto simp: same_claim_def)
  have "k1\<lparr>dj_deleted_metadata := m, dj_lease_expires := Some t\<rparr>
      = k\<lparr>dj_deleted_metadata := m, dj_deleted_folders := n0, dj_lease_expires := Some t\<rparr>"
    "k1\<lparr>dj_deleted_folders := n, dj_lease_expires := Some t\<rparr>
      = k\<lparr>dj_deleted_metadata := m0, dj_deleted_folders := n, dj_lease_expires := Some t\<rparr>"
    by (simp_all add: k1(1))
  then show "same_claim j (j\<lparr>lj_checkpoint := cp, lj_lease_expires := Some t\<rparr>) k
           (k1\<lparr>dj_deleted_metadata := m, dj_lease_expires := Some t\<rparr>)"
    "same_claim j (j\<lparr>lj_checkpoint := cp, lj_lease_expires := Some t\<rparr>) k
           (k1\<lparr>dj_deleted_folders := n, dj_lease_expires := Some t\<rparr>)"
    unfolding same_claim_def using assms(2,3) k1(2,3) by blast+
qed

definition round_result :: "deletion_job \<Rightarrow> string \<Rightarrow> string \<Rightarrow> unit_row \<Rightarrow> nat \<Rightarrow> bool \<Rightarrow> catalog \<Rightarrow> bool" where
  "round_result k did worker u todo fin d' \<longleftrightarrow>
     (if fin then deletion_settled (dj_org k) (dj_path k) (dj_root k) did d'
      else \<exists>j' k'. deletion_of did worker j' k' u d' \<and> same_deletion k k' \<and> deletion_todo (dj_org k) (dj_path k) d' < todo)"

lemma deletion_batch_step:
  assumes dl: "deletion_of did worker j k u d" and un: "unlocked e" and c: "same_claim j j k k1"
  shows "\<exists>fin d'. deletion_batch e j k1 (lu_id u) cp d = Inr (fin, d')
           \<and> round_result k did worker u (deletion_todo (dj_org k) (dj_path k) d) fin d'"
proof -
  have k1: "dj_org k1 = dj_org k" "dj_path k1 = dj_path k" "dj_requested_by k1 = dj_requested_by k"
    "0 \<le> dj_deleted_metadata k1" "0 \<le> dj_deleted_folders k1"
    using c by (auto simp: same_claim_def)
  have sd: "same_claim j j' k k' \<Longrightarrow> same_deletion k k'" for j' k' by (auto simp: same_claim_def same_deletion_def)
  let ?xs = "deletion_items e (dj_org k) (dj_path k) d" and ?fs = "deletion_folders e (dj_org k) (dj_path k) d"
  let ?t = "Some (be_now e + FolderDeletionLeaseDuration)"
  show ?thesis
  proof (cases "?xs = []")
    case False
    define j' k' where "j' = j\<lparr>lj_checkpoint := cp\<lparr>cp_metadata_batches := cp_metadata_batches cp + 1,
        cp_metadata_rows := cp_metadata_rows cp + int (length ?xs)\<rparr>, lj_lease_expires := ?t\<rparr>"
      and "k' = k1\<lparr>dj_deleted_metadata := dj_deleted_metadata k1 + int (length ?xs), dj_lease_expires := ?t\<rparr>"
    have sc: "same_claim j j' k k'" unfolding j'_def k'_def by (rule same_claim_progress(1) [OF c]) (use k1 in auto)
    note st = item_batch_step [OF dl sc refl _ refl, where now = "be_items_now e" and e = e]
    show ?thesis
      using st False sd [OF sc]
      by (auto simp: deletion_batch_def k1 Let_def saveRunningFolderDeletionProgress_def j'_def k'_def round_result_def
          intro!: exI [of _ False])
  next
    case items: True
    have t1: "tombstone_items (be_items_now e) (dj_requested_by k) (lu_id u) [] d = Inr d"
      using dl by (simp add: deletion_of_def)
    show ?thesis
    proof (cases "?fs = []")
      case False
      define j' k' where "j' = j\<lparr>lj_checkpoint := cp\<lparr>cp_folder_batches := cp_folder_batches cp + 1,
          cp_folder_rows := cp_folder_rows cp + int (length ?fs)\<rparr>, lj_lease_expires := ?t\<rparr>"
        and "k' = k1\<lparr>dj_deleted_folders := dj_deleted_folders k1 + int (length ?fs), dj_lease_expires := ?t\<rparr>"
      have sc: "same_claim j j' k k'" unfolding j'_def k'_def by (rule same_claim_progress(2) [OF c]) (use k1 in auto)
      note st = folder_batch_step [OF dl sc refl _ refl, where now = "be_folders_now e" and e = e]
      show ?thesis
        using st False items t1 sd [OF sc]
        by (auto simp: deletion_batch_def k1 Let_def saveRunningFolderDeletionProgress_def j'_def k'_def round_result_def
            intro!: exI [of _ False])
    next
      case True
      have t2: "tombstone_folders (be_folders_now e) (dj_requested_by k) (lu_id u) [] d = Inr d"
        using dl by (simp add: deletion_of_def)
      obtain d' where "complete_deletion e j k1 cp d = Inr d'" "deletion_settled (dj_org k) (dj_path k) (dj_root k) did d'"
        using complete_batch_step [OF dl c] items True deletion_items_empty [OF un] deletion_folders_empty [OF un] by blast
      then show ?thesis using items True t1 t2
        by (auto simp: deletion_batch_def k1 Let_def round_result_def intro!: exI [of _ True])
    qed
  qed
qed

lemma deletion_todo_gate:
  "deletion_todo org p (d\<lparr>c_folders := map (gate_row k now unit) (c_folders d)\<rparr>) \<le> deletion_todo org p d"
proof -
  let ?d1 = "d\<lparr>c_folders := map (gate_row k now unit) (c_folders d)\<rparr>"
  have "item_below ?d1 org p x = item_below d org p x" for x
    by (rule item_below_map(1) [OF tree_map_gate_row [of k now unit]]) simp_all
  then have "rows_affected (\<lambda>x. item_below ?d1 org p x \<and> item_active x) (c_items ?d1)
      = rows_affected (\<lambda>x. item_below d org p x \<and> item_active x) (c_items d)" by simp
  moreover have "rows_affected (\<lambda>f. subtree_folder org p f \<and> folder_active f) (c_folders ?d1)
      \<le> rows_affected (\<lambda>f. subtree_folder org p f \<and> folder_active f) (c_folders d)"
    by (simp, rule rows_affected_map_le) (simp add: subtree_folder_def folder_active_gate_row)
  ultimately show ?thesis by (simp add: deletion_todo_def)
qed

lemma round_result_mono: "round_result k did worker u n fin d \<Longrightarrow> n \<le> m \<Longrightarrow> round_result k did worker u m fin d"
  by (fastforce simp: round_result_def)

lemma batch_step:
  assumes dl: "deletion_of did worker j k u d" and un: "unlocked e"
  shows "\<exists>fin closed d'. processFolderDeletionBatch e did worker d = (Inr (fin, closed), d')
           \<and> round_result k did worker u (deletion_todo (dj_org k) (dj_path k) d) fin d'"
proof -
  note D = dl [unfolded deletion_of_def]
  let ?d1 = "d\<lparr>c_folders := map (gate_row k (be_gate_now e) (lu_id u)) (c_folders d)\<rparr>"
  define closed where "closed \<longleftrightarrow>
    rows_affected (\<lambda>f. fd_id f = dj_root k \<and> fd_org f = dj_org k \<and> folder_active f) (c_folders d) = 1"
  note gate = gate_ok [OF dl, of "be_gate_now e" "be_unit_id e" "be_tnow e", folded closed_def]
  define k1 where "k1 = (if closed then k\<lparr>dj_deleted_folders := dj_deleted_folders k + 1\<rparr> else k)"
  define cp where "cp = (if closed then (lj_checkpoint j)\<lparr>cp_root_closed := True\<rparr>
      \<lparr>cp_folder_rows := cp_folder_rows ((lj_checkpoint j)\<lparr>cp_root_closed := True\<rparr>) + 1\<rparr>
    else (lj_checkpoint j)\<lparr>cp_root_closed := True\<rparr>)"
  have held: "held_deletion did worker d = Inr (j, k)" and ok: "catalog_ok d" using D by blast+
  have "0 \<le> dj_deleted_folders k"
    using catalog_ok_checks(5) [OF ok held_deletion_rows(4) [OF held]] by (simp add: deletion_job_check_def)
  then have c: "same_claim j j k k1"
    using same_claim_self [OF ok held, of "dj_deleted_folders k + 1"] same_claim_self [OF ok held, of "dj_deleted_folders k"]
    by (simp add: k1_def)
  obtain fin d' where b: "deletion_batch e j k1 (lu_id u) cp ?d1 = Inr (fin, d')"
    "round_result k did worker u (deletion_todo (dj_org k) (dj_path k) ?d1) fin d'"
    using deletion_batch_step [OF deletion_of_gate [OF dl] un c] by blast
  have "batch_work e did worker d = Inr ((fin, closed), d')"
    unfolding batch_work_def held and_then_simps prod.case using D gate b(1)
    by (simp add: Let_def k1_def cp_def)
  then show ?thesis
    using round_result_mono [OF b(2) deletion_todo_gate] by (auto simp: processFolderDeletionBatch_def transaction_def)
qed

section \<open>A run ends with the subtree in the recycle bin\<close>

text \<open>The worker holds the job: both rows, the unit it belongs to, and the root it was queued for.\<close>

definition claim_held :: "string \<Rightarrow> string \<Rightarrow> string \<Rightarrow> ltree \<Rightarrow> string \<Rightarrow> catalog \<Rightarrow> bool" where
  "claim_held did worker org p root d \<longleftrightarrow>
     (\<exists>j k u. deletion_of did worker j k u d \<and> dj_org k = org \<and> dj_path k = p \<and> dj_root k = root)"

lemma deletion_round_step:
  assumes un: "unlocked (env i)" and c1: "claim_held did worker org p root (others i d)"
  shows "\<exists>fin d'. deletion_round env others did worker i d = (Inr fin, d')
    \<and> (if fin then deletion_settled org p root did d'
       else claim_held did worker org p root d' \<and> deletion_todo org p d' < deletion_todo org p (others i d))"
proof -
  from c1 obtain j k u where dl: "deletion_of did worker j k u (others i d)"
    and k: "dj_org k = org" "dj_path k = p" "dj_root k = root" by (auto simp: claim_held_def)
  obtain fin closed d' where b: "processFolderDeletionBatch (env i) did worker (others i d) = (Inr (fin, closed), d')"
    and res: "round_result k did worker u (deletion_todo org p (others i d)) fin d'"
    using batch_step [OF dl un] k by blast
  have ex: "sql_exists (\<lambda>k. dj_id k = did) (c_djobs d')"
  proof (cases fin)
    case True
    with res show ?thesis by (auto simp: round_result_def deletion_settled_def sql_exists_iff)
  next
    case False
    with res obtain j' k' where "deletion_of did worker j' k' u d'" by (auto simp: round_result_def)
    then show ?thesis
      using held_deletion_rows(4,5) [of did worker d' j' k'] by (auto simp: deletion_of_def sql_exists_iff)
  qed
  have "deletion_round env others did worker i d = (Inr fin, d')"
    using b ex by (simp add: deletion_round_def)
  moreover have "claim_held did worker org p root d' \<and> deletion_todo org p d' < deletion_todo org p (others i d)" if "\<not> fin"
    using res that k by (fastforce simp: round_result_def claim_held_def same_deletion_def)
  ultimately show ?thesis using res k by (auto simp: round_result_def)
qed

lemma deletion_round_batch:
  assumes "deletion_round env others did worker i d = (Inr fin, d')"
  obtains closed where "batch_work (env i) did worker (others i d) = Inr ((fin, closed), d')"
  using assms
  by (auto simp: deletion_round_def processFolderDeletionBatch_def split: sum.splits prod.splits if_splits dest!: transaction_Inr)

section \<open>An example catalogue\<close>

text \<open>
  An organization with a folder under deletion (\<open>a\<close>, its root already hidden, with a folder and an item below it) and
  a folder next to it.
\<close>

definition demo_folder :: "string \<Rightarrow> ltree \<Rightarrow> instant option \<Rightarrow> string option \<Rightarrow> folder" where
  "demo_folder i p del unit = \<lparr>fd_id = i, fd_org = ''org'', fd_path = p, fd_name = i, fd_description = None,
     fd_created_by = ''ann'', fd_updated_by = None, fd_deleted_at = del, fd_unit = unit\<rparr>"

definition demo_item :: "string \<Rightarrow> string \<Rightarrow> item" where
  "demo_item i fid = \<lparr>it_id = i, it_folder = fid, it_title = i, it_description = None, it_labels = [], it_category = None,
     it_external_source = None, it_external_id = None, it_source_url = None, it_thumbnail_url = None, it_license = None,
     it_author = None, it_json = ''{}'', it_notes = None, it_created_by = ''ann'', it_updated_by = None,
     it_created_at = 1, it_updated_at = 1, it_deleted_at = None, it_unit = None\<rparr>"

definition demo_unit :: unit_row where
  "demo_unit = \<lparr>lu_id = ''unit'', lu_org = ''org'', lu_type = LifecycleResourceFolder, lu_root = ''a'', lu_path = [''a''],
     lu_parent_path = None, lu_folder = None, lu_state = LifecycleDeleting, lu_requested_by = ''ann'',
     lu_delete_completed_at = None, lu_retention_until = None, lu_created_at = 1\<rparr>"

definition demo_job :: lifecycle_job where
  "demo_job = \<lparr>lj_id = ''job'', lj_org = ''org'', lj_unit = Some ''unit'', lj_legacy = Some ''del'',
     lj_type = LifecycleResourceFolder, lj_root = ''a'', lj_root_folder = ''a'', lj_path = [''a''],
     lj_initiator = LifecycleJobInitiatorUser, lj_requested_by = Some ''ann'', lj_operation = LifecycleJobDelete,
     lj_status = LifecycleJobRunning, lj_checkpoint = empty_checkpoint, lj_attempts = 1, lj_next_run = None,
     lj_lease_owner = Some ''w1'', lj_lease_expires = Some 30, lj_failure_code = None, lj_queued_at = Some 1,
     lj_started_at = Some 2, lj_completed_at = None, lj_created_at = 1\<rparr>"

definition demo_djob :: deletion_job where
  "demo_djob = \<lparr>dj_id = ''del'', dj_org = ''org'', dj_root = ''a'', dj_path = [''a''], dj_requested_by = ''ann'',
     dj_status = FolderDeletionRunning, dj_token_hash = None, dj_preview_expires = None, dj_active_folders = 2,
     dj_active_metadata = 1, dj_tombstone_folders = 0, dj_tombstone_metadata = 0, dj_deleted_folders = 1,
     dj_deleted_metadata = 0, dj_attempts = 1, dj_manual_retries = 0, dj_next_run = None, dj_lease_owner = Some ''w1'',
     dj_lease_expires = Some 30, dj_last_error = None, dj_queued_at = Some 1, dj_started_at = Some 2,
     dj_completed_at = None, dj_cancelled_at = None, dj_created_at = 1\<rparr>"

definition demo_catalog :: catalog where
  "demo_catalog = \<lparr>c_orgs = [''org''], c_users = [''ann''],
     c_folders = [demo_folder ''a'' [''a''] (Some 1) (Some ''unit''), demo_folder ''b'' [''a'', ''b''] None None,
                  demo_folder ''z'' [''z''] None None],
     c_items = [demo_item ''x'' ''b'', demo_item ''y'' ''z''],
     c_units = [demo_unit], c_jobs = [demo_job], c_djobs = [demo_djob]\<rparr>"

definition demo_env :: batch_env where
  "demo_env = \<lparr>be_gate_now = 3, be_unit_id = ''unused'', be_tnow = 3, be_items_now = 4, be_now = 5, be_folders_now = 6,
     be_done_now = 7, be_locked_items = [], be_locked_folders = []\<rparr>"

lemma demo_catalog_ok: "catalog_ok demo_catalog" by code_simp

lemma demo_held: "held_deletion ''del'' ''w1'' demo_catalog = Inr (demo_job, demo_djob)"
  by code_simp

lemma demo_claim: "claim_held ''del'' ''w1'' ''org'' [''a''] ''a'' demo_catalog"
  unfolding claim_held_def deletion_of_def
  by (intro exI [of _ demo_job] exI [of _ demo_djob] exI [of _ demo_unit] conjI demo_catalog_ok demo_held)
    (simp_all add: demo_catalog_def demo_job_def demo_djob_def demo_unit_def deleting_unit_def is_root_def demo_folder_def)

lemma deletion_batches_are_invisible_witness:
  "visible_rows (snd (processFolderDeletionBatch demo_env ''del'' ''w1'' demo_catalog)) = visible_rows demo_catalog"
  by (rule deletion_batches_are_invisible [OF demo_catalog_ok, of "''del''" "''w1''" demo_djob demo_env
        "fst (processFolderDeletionBatch demo_env ''del'' ''w1'' demo_catalog)"])
    (code_simp, code_simp, simp)

end
