(* ===== verification/Folder_Tree.thy ===== *)
theory Folder_Tree
  imports Asset_Repository Lifecycle_Restore Deletion_Run
begin

text \<open>
  The folders as a forest: every path ends with the label of its folder and starts with the path of its parent, so the
  paths are a materialised parent map. A move is then the change of one entry of that map.
\<close>

section \<open>The forest\<close>

definition parent_path_exists :: "folder list \<Rightarrow> folder \<Rightarrow> bool" where
  "parent_path_exists fs f \<longleftrightarrow>
     butlast (fd_path f) = [] \<or> list_ex (\<lambda>g. fd_org g = fd_org f \<and> fd_path g = butlast (fd_path f)) fs"

definition forest_rows :: "folder list \<Rightarrow> bool" where
  "forest_rows fs \<longleftrightarrow>
     list_all (\<lambda>f. fd_path f \<noteq> [] \<and> last (fd_path f) = segment_of (fd_id f) \<and> parent_path_exists fs f) fs
     \<and> distinct (map (\<lambda>f. segment_of (fd_id f)) fs)"

definition forest :: "catalog \<Rightarrow> bool" where
  "forest d \<longleftrightarrow> forest_rows (c_folders d)"

text \<open>The abstract view: the identifier of the parent of each folder.\<close>

definition parent_id :: "folder list \<Rightarrow> folder \<Rightarrow> string option" where
  "parent_id fs f =
     (if butlast (fd_path f) = [] then None
      else map_option fd_id (find (\<lambda>g. fd_org g = fd_org f \<and> fd_path g = butlast (fd_path f)) fs))"

definition parents :: "catalog \<Rightarrow> string \<Rightarrow> string option option" where
  "parents d = map_of (map (\<lambda>f. (fd_id f, parent_id (c_folders d) f)) (c_folders d))"

lemma forest_rowsD:
  assumes "forest_rows fs" "f \<in> set fs"
  shows "fd_path f \<noteq> []" "last (fd_path f) = segment_of (fd_id f)"
    "butlast (fd_path f) = [] \<or> (\<exists>g\<in>set fs. fd_org g = fd_org f \<and> fd_path g = butlast (fd_path f))"
  using assms by (auto simp: forest_rows_def list_all_iff parent_path_exists_def list_ex_iff)

lemma forest_same_path:
  assumes "forest_rows fs" "f \<in> set fs" "g \<in> set fs" "fd_path f = fd_path g"
  shows "f = g"
proof -
  have "segment_of (fd_id f) = segment_of (fd_id g)"
    using forest_rowsD(2) [OF assms(1,2)] forest_rowsD(2) [OF assms(1,3)] assms(4) by simp
  then show ?thesis using assms(1-3) distinct_map_eq [of "\<lambda>f. segment_of (fd_id f)" fs f g]
    by (auto simp: forest_rows_def)
qed

lemma parent_id_eq:
  assumes "forest_rows fs" "g \<in> set fs" "fd_org g = fd_org f" "fd_path g = butlast (fd_path f)"
  shows "parent_id fs f = Some (fd_id g)"
proof -
  have "butlast (fd_path f) \<noteq> []" using forest_rowsD(1) [OF assms(1,2)] assms(4) by simp
  moreover obtain h where h: "find (\<lambda>h. fd_org h = fd_org f \<and> fd_path h = butlast (fd_path f)) fs = Some h"
    using assms(2-4) by (cases "find (\<lambda>h. fd_org h = fd_org f \<and> fd_path h = butlast (fd_path f)) fs")
      (auto dest: find_NoneD)
  moreover have "h = g" using find_SomeD [OF h] forest_same_path [OF assms(1) _ assms(2)] assms(4) by auto
  ultimately show ?thesis by (simp add: parent_id_def)
qed

lemma parent_id_root: "butlast (fd_path f) = [] \<Longrightarrow> parent_id fs f = None"
  by (simp add: parent_id_def)

lemma segment_ids_distinct: "forest_rows fs \<Longrightarrow> distinct (map fd_id fs)"
proof -
  assume "forest_rows fs"
  then have "distinct (map segment_of (map fd_id fs))" by (simp add: forest_rows_def comp_def)
  then show ?thesis unfolding distinct_map [of segment_of] by blast
qed

lemma parents_lookup: "forest d \<Longrightarrow> f \<in> set (c_folders d) \<Longrightarrow> parents d (fd_id f) = Some (parent_id (c_folders d) f)"
  unfolding parents_def
  by (rule map_of_is_SomeI) (auto simp: comp_def forest_def dest: segment_ids_distinct)

lemma parents_None: "i \<notin> fd_id ` set (c_folders d) \<Longrightarrow> parents d i = None"
  by (auto simp: parents_def map_of_eq_None_iff image_iff)

section \<open>Updates that keep the tree\<close>

text \<open>Every statement that leaves identifier, organization and path of the rows alone keeps the forest.\<close>

definition shape :: "catalog \<Rightarrow> (string \<times> string \<times> ltree) list" where
  "shape d = map (\<lambda>f. (fd_id f, fd_org f, fd_path f)) (c_folders d)"

lemma shape_set: "shape d' = shape d \<Longrightarrow>
  (\<lambda>f. (fd_id f, fd_org f, fd_path f)) ` set (c_folders d') = (\<lambda>f. (fd_id f, fd_org f, fd_path f)) ` set (c_folders d)"
  by (drule arg_cong [where f = set]) (simp add: shape_def)

lemma forest_rows_alt:
  "forest_rows fs \<longleftrightarrow> (let rs = map (\<lambda>f. (fd_id f, fd_org f, fd_path f)) fs in
     (\<forall>(i, org, p)\<in>set rs. p \<noteq> [] \<and> last p = segment_of i \<and> (butlast p = [] \<or> (\<exists>(j, o2, q)\<in>set rs. o2 = org \<and> q = butlast p)))
     \<and> distinct (map (\<lambda>(i, org, p). segment_of i) rs))"
  by (simp add: forest_rows_def list_all_iff list_ex_iff parent_path_exists_def Let_def comp_def)

lemma forest_shape: "shape d' = shape d \<Longrightarrow> forest d' = forest d"
  unfolding forest_def forest_rows_alt shape_def by (simp only:)

lemma parents_shape: 
  assumes "shape d' = shape d" "forest d"
  shows "parents d' = parents d"
proof
  have f': "forest d'" using assms forest_shape by blast
  fix i show "parents d' i = parents d i"
  proof (cases "i \<in> fd_id ` set (c_folders d)")
    case True
    then obtain f where f: "f \<in> set (c_folders d)" "fd_id f = i" by blast
    have set: "(\<lambda>f. (fd_id f, fd_org f, fd_path f)) ` set (c_folders d')
        = (\<lambda>f. (fd_id f, fd_org f, fd_path f)) ` set (c_folders d)" by (rule shape_set [OF assms(1)])
    have move: "\<exists>g'\<in>set (c_folders d'). fd_id g' = fd_id g \<and> fd_org g' = fd_org g \<and> fd_path g' = fd_path g"
      if "g \<in> set (c_folders d)" for g
    proof -
      have "(fd_id g, fd_org g, fd_path g) \<in> (\<lambda>f. (fd_id f, fd_org f, fd_path f)) ` set (c_folders d')"
        unfolding set using that by blast
      then show ?thesis by auto
    qed
    from move [OF f(1)] obtain f1 where f1: "f1 \<in> set (c_folders d')" "fd_id f1 = fd_id f" "fd_org f1 = fd_org f"
      "fd_path f1 = fd_path f" by blast
    have "parent_id (c_folders d') f1 = parent_id (c_folders d) f"
    proof (cases "butlast (fd_path f) = []")
      case True
      with f1 show ?thesis by (simp add: parent_id_root)
    next
      case False
      then obtain g where g: "g \<in> set (c_folders d)" "fd_org g = fd_org f" "fd_path g = butlast (fd_path f)"
        using forest_rowsD(3) [OF assms(2) [unfolded forest_def] f(1)] by blast
      from move [OF g(1)] obtain g1 where g1: "g1 \<in> set (c_folders d')" "fd_id g1 = fd_id g" "fd_org g1 = fd_org g"
        "fd_path g1 = fd_path g" by blast
      show ?thesis
        using parent_id_eq [OF assms(2) [unfolded forest_def] g] parent_id_eq [OF f' [unfolded forest_def] g1(1), of f1] g1 f1 g
        by simp
    qed
    then show ?thesis using parents_lookup [OF f' f1(1)] parents_lookup [OF assms(2) f(1)] f1(2) f(2) by simp
  next
    case False
    have "fd_id ` set (c_folders d') = fd_id ` set (c_folders d)"
      using shape_set [OF assms(1)] by (metis (no_types, lifting) fst_conv image_cong image_image)
    with False show ?thesis by (simp add: parents_None)
  qed
qed

section \<open>A move changes one parent\<close>

definition move_row :: "string \<Rightarrow> string \<Rightarrow> ltree \<Rightarrow> ltree \<Rightarrow> folder \<Rightarrow> folder" where
  "move_row org user old new f =
     (if fd_org f = org \<and> below (fd_path f) old
      then f\<lparr>fd_path := moved_path old new (fd_path f), fd_updated_by := Some user\<rparr> else f)"

lemma move_rows_map: "move_rows org user old new = map (move_row org user old new)"
  by (simp add: move_rows_def move_row_def sql_update_def fun_eq_iff)

lemma move_row_simps [simp]:
  "fd_id (move_row org user old new f) = fd_id f" "fd_org (move_row org user old new f) = fd_org f"
  "fd_deleted_at (move_row org user old new f) = fd_deleted_at f"
  by (simp_all add: move_row_def)

lemma moved_path_append: "moved_path old new (old @ rest) = new @ rest"
  by (simp add: moved_path_def)

lemma fd_path_move_row:
  "fd_path (move_row org user old new f) =
     (if fd_org f = org \<and> below (fd_path f) old then new @ drop (length old) (fd_path f) else fd_path f)"
  by (auto simp: move_row_def moved_path_def)

lemma below_iff: "below p q \<longleftrightarrow> (\<exists>r. p = q @ r)"
  by (auto simp: below_def prefix_def)

lemma forest_move:
  assumes fr: "forest_rows fs" and f: "f \<in> set fs" "fd_org f = org"
    and dest: "dest = [] \<or> (\<exists>g\<in>set fs. fd_org g = org \<and> fd_path g = dest \<and> \<not> below dest (fd_path f))"
  shows "forest_rows (map (move_row org user (fd_path f) (dest @ [segment_of (fd_id f)])) fs)"
    "\<And>g h. g \<in> set fs \<Longrightarrow> h \<in> set fs \<Longrightarrow> fd_org h = fd_org g \<Longrightarrow> fd_path h = butlast (fd_path g) \<Longrightarrow> g \<noteq> f \<Longrightarrow>
       fd_path (move_row org user (fd_path f) (dest @ [segment_of (fd_id f)]) h)
       = butlast (fd_path (move_row org user (fd_path f) (dest @ [segment_of (fd_id f)]) g))"
proof -
  let ?old = "fd_path f" and ?new = "dest @ [segment_of (fd_id f)]"
  let ?m = "move_row org user ?old ?new"
  have old: "?old \<noteq> []" "last ?old = segment_of (fd_id f)" using forest_rowsD [OF fr f(1)] by blast+
  have keep: "fd_path (?m h) = butlast (fd_path (?m g))"
    if g: "g \<in> set fs" and h: "h \<in> set fs" "fd_org h = fd_org g" "fd_path h = butlast (fd_path g)" and ne: "g \<noteq> f" for g h
  proof (cases "fd_org g = org \<and> below (fd_path g) ?old")
    case True
    then obtain r where r: "fd_path g = ?old @ r" by (auto simp: below_iff)
    have "r \<noteq> []" using forest_same_path [OF fr g f(1)] r ne by auto
    then have "butlast (fd_path g) = ?old @ butlast r" by (simp add: r butlast_append)
    with True h r \<open>r \<noteq> []\<close> show ?thesis by (simp add: fd_path_move_row below_iff butlast_append)
  next
    case False
    have "\<not> (fd_org h = org \<and> below (fd_path h) ?old)"
    proof
      assume c: "fd_org h = org \<and> below (fd_path h) ?old"
      then obtain r where "butlast (fd_path g) = ?old @ r" using h by (auto simp: below_iff)
      then have "fd_path g = ?old @ (r @ [last (fd_path g)])"
        using forest_rowsD(1) [OF fr g] by (metis append_assoc append_butlast_last_id)
      with False c h show False by (auto simp: below_iff)
    qed
    then have "fd_path (?m h) = fd_path h" unfolding fd_path_move_row by (rule if_not_P)
    moreover have "fd_path (?m g) = fd_path g" unfolding fd_path_move_row by (rule if_not_P) (rule False)
    ultimately show ?thesis using h(3) by simp
  qed
  show "fd_path (?m h) = butlast (fd_path (?m g))"
    if "g \<in> set fs" "h \<in> set fs" "fd_org h = fd_org g" "fd_path h = butlast (fd_path g)" "g \<noteq> f" for g h
    using keep [OF that] .
  have row: "fd_path (?m g) \<noteq> [] \<and> last (fd_path (?m g)) = segment_of (fd_id g)
      \<and> (butlast (fd_path (?m g)) = [] \<or> (\<exists>h\<in>set fs. fd_org h = fd_org g \<and> fd_path (?m h) = butlast (fd_path (?m g))))"
    if g: "g \<in> set fs" for g
  proof (cases "g = f")
    case True
    have "\<not> below dest ?old \<Longrightarrow> h \<in> set fs \<Longrightarrow> fd_path h = dest \<Longrightarrow> fd_path (?m h) = dest" for h
      by (simp add: fd_path_move_row)
    with True dest f(2) show ?thesis by (auto simp: fd_path_move_row)
  next
    case False
    note p = forest_rowsD [OF fr g]
    have ne: "fd_path (?m g) \<noteq> [] \<and> last (fd_path (?m g)) = segment_of (fd_id g)"
    proof (cases "fd_org g = org \<and> below (fd_path g) ?old")
      case True
      then obtain r where r: "fd_path g = ?old @ r" by (auto simp: below_iff)
      have "r \<noteq> []" using forest_same_path [OF fr g f(1)] r False by auto
      with True r p(2) show ?thesis by (simp add: fd_path_move_row)
    next
      case out: False
      have "fd_path (?m g) = fd_path g" unfolding fd_path_move_row by (rule if_not_P) (rule out)
      with p(1,2) show ?thesis by simp
    qed
    from p(3) show ?thesis
    proof
      assume top: "butlast (fd_path g) = []"
      have "\<not> below (fd_path g) ?old"
      proof
        assume "below (fd_path g) ?old"
        then obtain r where r: "fd_path g = ?old @ r" by (auto simp: below_iff)
        then have "r \<noteq> []" using forest_same_path [OF fr g f(1)] False by auto
        with r top old(1) show False by (simp add: butlast_append)
      qed
      with ne top show ?thesis by (simp add: fd_path_move_row)
    next
      assume "\<exists>h\<in>set fs. fd_org h = fd_org g \<and> fd_path h = butlast (fd_path g)"
      with keep [OF g _ _ _ False] ne show ?thesis by blast
    qed
  qed
  show "forest_rows (map ?m fs)"
    using row fr by (auto simp: forest_rows_def list_all_iff list_ex_iff parent_path_exists_def comp_def)
qed

lemma find_visible_folderD:
  "find_visible_folder org i d = Some f \<Longrightarrow> f \<in> set (c_folders d) \<and> fd_id f = i \<and> fd_org f = org \<and> visible_folder d f"
  unfolding find_visible_folder_def by (auto dest: find_SomeD)

lemma EnsureRefs_folders [simp]: "c_folders (EnsureRefs user org d) = c_folders d"
  by (simp add: EnsureRefs_def ensure_user_def ensure_org_def)

definition destination :: "string option \<Rightarrow> string option" where
  "destination dest = (if dest = Some [] then None else dest)"

lemma move_target_Inr:
  assumes "forest d" "move_target org dest f d = Inr p"
  shows "p = [] \<and> destination dest = None
    \<or> (\<exists>g\<in>set (c_folders d). fd_org g = org \<and> fd_path g = p \<and> p \<noteq> [] \<and> \<not> below p (fd_path f)
          \<and> destination dest = Some (fd_id g))"
  using assms
  by (auto simp: move_target_def destination_def forest_def dest!: find_visible_folderD dest: forest_rowsD(1)
      split: option.splits if_splits)

lemma parents_move:
  assumes fr: "forest_rows fs" and f: "f \<in> set fs" "fd_org f = org"
    and dest: "dest = [] \<and> to = None \<or> (\<exists>g\<in>set fs. fd_org g = org \<and> fd_path g = dest \<and> dest \<noteq> []
        \<and> \<not> below dest (fd_path f) \<and> to = Some (fd_id g))"
    and g: "g \<in> set fs"
  shows "parent_id (map (move_row org user (fd_path f) (dest @ [segment_of (fd_id f)])) fs)
      (move_row org user (fd_path f) (dest @ [segment_of (fd_id f)]) g) = (if g = f then to else parent_id fs g)"
proof -
  let ?m = "move_row org user (fd_path f) (dest @ [segment_of (fd_id f)])"
  have d1: "dest = [] \<or> (\<exists>g\<in>set fs. fd_org g = org \<and> fd_path g = dest \<and> \<not> below dest (fd_path f))" using dest by blast
  note fm = forest_move [OF fr f d1]
  show ?thesis
  proof (cases "g = f")
    case True
    have new: "fd_path (?m f) = dest @ [segment_of (fd_id f)]" using f(2) by (simp add: fd_path_move_row)
    from dest show ?thesis
    proof (elim disjE conjE bexE)
      assume "dest = []" "to = None"
      with True new show ?thesis by (simp add: parent_id_root)
    next
      fix h assume h: "h \<in> set fs" "fd_org h = org" "fd_path h = dest" "dest \<noteq> []" "\<not> below dest (fd_path f)" "to = Some (fd_id h)"
      have "parent_id (map ?m fs) (?m f) = Some (fd_id (?m h))"
      proof (rule parent_id_eq [OF fm(1)])
        show "fd_path (?m h) = butlast (fd_path (?m f))" unfolding new using h by (simp add: fd_path_move_row)
      qed (use h f in simp_all)
      with True h show ?thesis by simp
    qed
  next
    case False
    from forest_rowsD(3) [OF fr g] show ?thesis
    proof
      assume top: "butlast (fd_path g) = []"
      have "\<not> below (fd_path g) (fd_path f)"
      proof
        assume "below (fd_path g) (fd_path f)"
        then obtain r where r: "fd_path g = fd_path f @ r" by (auto simp: below_iff)
        then have "r \<noteq> []" using forest_same_path [OF fr g f(1)] False by auto
        with r top forest_rowsD(1) [OF fr f(1)] show False by (simp add: butlast_append)
      qed
      with top False show ?thesis by (simp add: parent_id_root fd_path_move_row)
    next
      assume "\<exists>h\<in>set fs. fd_org h = fd_org g \<and> fd_path h = butlast (fd_path g)"
      then obtain h where h: "h \<in> set fs" "fd_org h = fd_org g" "fd_path h = butlast (fd_path g)" by blast
      have "parent_id (map ?m fs) (?m g) = Some (fd_id (?m h))"
        by (rule parent_id_eq [OF fm(1)]) (use h fm(2) [OF g h False] in simp_all)
      with False parent_id_eq [OF fr h] show ?thesis by simp
    qed
  qed
qed

definition row_rest :: "folder \<Rightarrow> folder" where
  "row_rest f = f\<lparr>fd_path := [], fd_updated_by := None\<rparr>"

text \<open>What a reparenting leaves alone: every other column and every other table.\<close>

definition only_paths_changed :: "catalog \<Rightarrow> catalog \<Rightarrow> bool" where
  "only_paths_changed d d' \<longleftrightarrow> map row_rest (c_folders d') = map row_rest (c_folders d) \<and> c_items d' = c_items d
     \<and> c_units d' = c_units d \<and> c_jobs d' = c_jobs d \<and> c_djobs d' = c_djobs d"

lemma EnsureRefs_simps [simp]:
  "c_items (EnsureRefs user org d) = c_items d" "c_units (EnsureRefs user org d) = c_units d"
  "c_jobs (EnsureRefs user org d) = c_jobs d" "c_djobs (EnsureRefs user org d) = c_djobs d"
  by (simp_all add: EnsureRefs_def ensure_user_def ensure_org_def)

lemma forest_EnsureRefs [simp]: "forest (EnsureRefs user org d) = forest d"
  by (simp add: forest_def)

lemma MoveFolder_Inr:
  assumes run: "MoveFolder org user fid dest d = (Inr (f', moved), d')"
  obtains f p where "find_visible_folder org fid (EnsureRefs user org d) = Some f"
    "move_target org dest f (EnsureRefs user org d) = Inr p"
    "moved \<longleftrightarrow> fd_path f \<noteq> p @ [segment_of fid]"
    "c_folders d' = (if moved then map (move_row org user (fd_path f) (p @ [segment_of fid])) (c_folders d) else c_folders d)"
    "only_paths_changed d d'" "moved \<Longrightarrow> catalog_ok d'"
proof -
  from transaction_Inr [OF run [unfolded MoveFolder_def]] obtain f p where
    f: "find_visible_folder org fid (EnsureRefs user org d) = Some f"
    and p: "move_target org dest f (EnsureRefs user org d) = Inr p"
    and rest: "(if fd_path f = p @ [segment_of (fd_id f)] then Inr ((f, False), EnsureRefs user org d)
       else if sql_exists (\<lambda>g. sibling_named org p (fd_name f) g \<and> fd_id g \<noteq> fd_id f) (c_folders (EnsureRefs user org d))
       then Inl ErrFolderConflict
       else and_then (on_conflict ErrFolderConflict (on_folders (move_rows org user (fd_path f) (p @ [segment_of (fd_id f)])) (EnsureRefs user org d)))
         (\<lambda>d1. and_then (from_option ErrNoRecord (find (\<lambda>g. fd_id g = fd_id f \<and> fd_org g = org \<and> folder_active g) (c_folders d1)))
           (\<lambda>g. Inr ((g, True), d1)))) = Inr ((f', moved), d')"
    by (auto simp: Let_def)
  have id: "fd_id f = fid" using find_visible_folderD [OF f] by blast
  show ?thesis
  proof (rule that [OF f p])
    show "moved \<longleftrightarrow> fd_path f \<noteq> p @ [segment_of fid]" using rest id by (auto split: if_splits)
    show "c_folders d' = (if moved then map (move_row org user (fd_path f) (p @ [segment_of fid])) (c_folders d) else c_folders d)"
      using rest id by (auto split: if_splits simp: on_conflict_def move_rows_map)
    show "only_paths_changed d d'"
      using rest by (auto split: if_splits simp: on_conflict_def only_paths_changed_def move_rows_map row_rest_def move_row_def)
    show "moved \<Longrightarrow> catalog_ok d'" using rest by (auto split: if_splits simp: on_conflict_def)
  qed
qed

text \<open>C11: A move changes the parent of the moved folder and nothing else: in the parent map that the stored paths
  materialise, exactly the entry of the folder becomes the destination, the paths stay a forest (no cycle, no orphan),
  and no other column and no other table changes.
\<close>

theorem move_changes_one_parent:
  assumes "catalog_ok d" "forest d" "MoveFolder org user fid dest d = (Inr (f', moved), d')"
  shows "forest d' \<and> parents d' = (parents d)(fid \<mapsto> destination dest) \<and> only_paths_changed d d'"
proof -
  let ?d = "EnsureRefs user org d"
  from MoveFolder_Inr [OF assms(3)] obtain f p where f: "find_visible_folder org fid ?d = Some f"
    and p: "move_target org dest f ?d = Inr p" and mv: "moved \<longleftrightarrow> fd_path f \<noteq> p @ [segment_of fid]"
    and rows: "c_folders d' = (if moved then map (move_row org user (fd_path f) (p @ [segment_of fid])) (c_folders d) else c_folders d)"
    and only: "only_paths_changed d d'" by metis
  have fr: "forest_rows (c_folders d)" using assms(2) by (simp add: forest_def)
  note F = find_visible_folderD [OF f, simplified]
  have to: "p = [] \<and> destination dest = None \<or> (\<exists>g\<in>set (c_folders d). fd_org g = org \<and> fd_path g = p \<and> p \<noteq> []
      \<and> \<not> below p (fd_path f) \<and> destination dest = Some (fd_id g))"
    using move_target_Inr [OF _ p] assms(2) by auto
  show ?thesis
  proof (cases moved)
    case False
    then have old: "fd_path f = p @ [segment_of fid]" using mv by simp
    have "parent_id (c_folders d) f = destination dest"
      using to parent_id_eq [OF fr, of _ f] F old by (auto simp: parent_id_root)
    then have "parents d fid = Some (destination dest)" using parents_lookup [OF assms(2), of f] F by simp
    moreover have "parents d' = parents d" using rows False by (simp add: parents_def)
    ultimately show ?thesis using rows False only assms(2) by (auto simp: forest_def)
  next
    case True
    let ?m = "move_row org user (fd_path f) (p @ [segment_of (fd_id f)])"
    have rows': "c_folders d' = map ?m (c_folders d)" using rows True F by simp
    have frs: "forest_rows (map ?m (c_folders d))" by (rule forest_move(1) [OF fr]) (use F to in auto)
    have "parents d' i = ((parents d)(fid \<mapsto> destination dest)) i" for i
    proof (cases "i \<in> fd_id ` set (c_folders d)")
      case True
      then obtain g where g: "g \<in> set (c_folders d)" "fd_id g = i" by blast
      have same: "g = f \<longleftrightarrow> i = fid" using same_row(1) [OF assms(1) g(1), of f] F g(2) by auto
      have "parents d' i = Some (parent_id (c_folders d') (?m g))"
        using parents_lookup [of d' "?m g"] frs rows' g by (simp add: forest_def)
      also have "\<dots> = Some (if g = f then destination dest else parent_id (c_folders d) g)"
        unfolding rows' using parents_move [OF fr _ _ to g(1)] F by simp
      finally show ?thesis using parents_lookup [OF assms(2) g(1)] g(2) same by auto
    next
      case False
      then show ?thesis using F rows' by (auto simp: parents_None image_image)
    qed
    then show ?thesis using frs rows' only by (auto simp: forest_def)
  qed
qed

section \<open>Deleting a folder and restoring it\<close>

lemma in_opt_append: "in_opt x us \<Longrightarrow> in_opt x (us @ vs)"
  by (simp add: in_opt_def split: option.splits)

lemma catalog_ok_ensure_user:
  assumes "catalog_ok d"
  shows "catalog_ok (ensure_user user d)"
proof -
  let ?d = "d\<lparr>c_users := c_users d @ [user]\<rparr>"
  have "folder_refs d f \<Longrightarrow> folder_refs ?d f" "item_refs d x \<Longrightarrow> item_refs ?d x" "unit_refs d u \<Longrightarrow> unit_refs ?d u"
    "lifecycle_job_refs d j \<Longrightarrow> lifecycle_job_refs ?d j" "deletion_job_refs d k \<Longrightarrow> deletion_job_refs ?d k" for f x u j k
    by (simp_all add: folder_refs_def item_refs_def unit_refs_def lifecycle_job_refs_def deletion_job_refs_def in_opt_append
        split: option.splits)
  then have "references_ok d \<Longrightarrow> references_ok ?d" by (simp add: references_ok_def list_all_iff)
  then have "catalog_ok ?d" using assms by (simp add: catalog_ok_def unique_ok_def checks_ok_def)
  with assms show ?thesis by (simp add: ensure_user_def)
qed

lemma catalog_ok_ensure_org:
  assumes "catalog_ok d"
  shows "catalog_ok (ensure_org org d)"
proof -
  let ?d = "d\<lparr>c_orgs := c_orgs d @ [org]\<rparr>"
  have "folder_refs d f \<Longrightarrow> folder_refs ?d f" "item_refs d x \<Longrightarrow> item_refs ?d x" "unit_refs d u \<Longrightarrow> unit_refs ?d u"
    "lifecycle_job_refs d j \<Longrightarrow> lifecycle_job_refs ?d j" "deletion_job_refs d k \<Longrightarrow> deletion_job_refs ?d k" for f x u j k
    by (simp_all add: folder_refs_def item_refs_def unit_refs_def lifecycle_job_refs_def deletion_job_refs_def
        split: option.splits)
  then have "references_ok d \<Longrightarrow> references_ok ?d" by (simp add: references_ok_def list_all_iff)
  then have "catalog_ok ?d" using assms by (simp add: catalog_ok_def unique_ok_def checks_ok_def)
  with assms show ?thesis by (simp add: ensure_org_def)
qed

lemma catalog_ok_EnsureRefs: "catalog_ok d \<Longrightarrow> catalog_ok (EnsureRefs user org d)"
  by (simp add: EnsureRefs_def catalog_ok_ensure_org catalog_ok_ensure_user)

lemma ensure_user_simps [simp]:
  "c_folders (ensure_user user d) = c_folders d" "c_items (ensure_user user d) = c_items d"
  "c_units (ensure_user user d) = c_units d" "c_jobs (ensure_user user d) = c_jobs d"
  "c_djobs (ensure_user user d) = c_djobs d" "c_orgs (ensure_user user d) = c_orgs d"
  "user \<in> set (c_users (ensure_user user d))"
  by (simp_all add: ensure_user_def)

lemma fence_cong: "c_djobs d' = c_djobs d \<Longrightarrow> ensureNoActiveDeletionForPaths org ps d' = ensureNoActiveDeletionForPaths org ps d"
  by (induction org ps d rule: ensureNoActiveDeletionForPaths.induct) auto

definition touched :: "string \<Rightarrow> string \<Rightarrow> folder \<Rightarrow> folder" where
  "touched fid user f = (if fd_id f = fid then f\<lparr>fd_updated_by := Some user\<rparr> else f)"

definition binned_row :: "string \<Rightarrow> instant \<Rightarrow> string \<Rightarrow> string \<Rightarrow> folder \<Rightarrow> folder" where
  "binned_row fid now user uid f =
     (if fd_id f = fid then f\<lparr>fd_deleted_at := Some now, fd_updated_by := Some user, fd_unit := Some uid\<rparr> else f)"

lemma DeleteFolder_Inr:
  assumes ok: "catalog_ok d" and run: "DeleteFolder uid now tnow org user fid d = (Inr (), d1)"
  obtains f u where "f \<in> set (c_folders d)" "fd_id f = fid" "fd_org f = org" "visible_folder d f" "fd_unit f = None"
    "ensureNoActiveDeletionForPaths org [fd_path f] d = Inr ()" "\<not> not_empty org f d"
    "c_folders d1 = map (binned_row fid now user uid) (c_folders d)" "c_units d1 = c_units d @ [u]"
    "lu_id u = uid" "lu_org u = org" "lu_type u = LifecycleResourceFolder" "lu_root u = fid" "lu_state u = LifecycleDeleted"
    "c_items d1 = c_items d" "c_jobs d1 = c_jobs d" "c_djobs d1 = c_djobs d" "c_users d1 = c_users d" "c_orgs d1 = c_orgs d"
    "catalog_ok d1"
proof -
  from transaction_Inr [OF run [unfolded DeleteFolder_def]] obtain f d0 where
    f: "find_visible_folder org fid d = Some f"
    and fence: "ensureNoActiveDeletionForPaths org [fd_path f] d = Inr ()" and empty: "\<not> not_empty org f d"
    and unit: "createDeletedLifecycleUnit uid org user LifecycleResourceFolder (fd_id f) (fd_path f)
        (lifecycleParentPath (fd_path f)) None now tnow d = Inr d0"
    and upd: "on_folders (sql_update (\<lambda>g. fd_id g = fd_id f \<and> fd_org g = org \<and> folder_active g \<and> fd_unit g = None)
        (\<lambda>g. g\<lparr>fd_deleted_at := Some now, fd_updated_by := Some user, fd_unit := Some uid\<rparr>)) d0 = Inr d1"
    and one: "rows_affected (\<lambda>g. fd_id g = fd_id f \<and> fd_org g = org \<and> folder_active g \<and> fd_unit g = None) (c_folders d0) = 1"
    by (auto simp: Let_def split: if_splits)
  note F = find_visible_folderD [OF f]
  have fs: "c_folders d0 = c_folders d" using unit by (auto simp: createDeletedLifecycleUnit_def)
  have eq: "g = f" if "g \<in> set (c_folders d)" "fd_id g = fd_id f" for g using same_row(1) [OF ok that(1) _ that(2)] F by blast
  have un: "fd_unit f = None" using rows_affected_1D [of _ "c_folders d0"] one eq fs by fastforce
  have act: "folder_active f" using F by (simp add: visible_folder_def)
  have rows: "c_folders d1 = map (binned_row fid now user uid) (c_folders d)"
  proof -
    have "(fd_id r = fd_id f \<and> fd_org r = org \<and> folder_active r \<and> fd_unit r = None) = (fd_id r = fid)"
      if "r \<in> set (c_folders d)" for r
    proof (cases "fd_id r = fid")
      case True
      then have "r = f" using eq [OF that] F by simp
      with F un act show ?thesis by simp
    qed (use F in simp)
    then show ?thesis using upd fs by (simp add: sql_update_as_map binned_row_def)
  qed
  show ?thesis
    by (rule that [OF _ _ _ _ un fence empty rows]) (use F unit upd in \<open>auto simp: createDeletedLifecycleUnit_def\<close>)
qed

lemma deleted_ancestor_binned:
  assumes f: "f \<in> set (c_folders d)" "fd_id f = fid" "folder_active f" and ok: "catalog_ok d"
    and rows: "c_folders d1 = map (binned_row fid now user uid) (c_folders d)"
    and g: "fd_org g = fd_org f \<Longrightarrow> \<not> below (fd_path g) (fd_path f)"
  shows "deleted_ancestor (c_folders d1) g = deleted_ancestor (c_folders d) g"
proof -
  have "(fd_org (binned_row fid now user uid a) = fd_org g \<and> \<not> folder_active (binned_row fid now user uid a)
        \<and> below (fd_path g) (fd_path (binned_row fid now user uid a)))
      = (fd_org a = fd_org g \<and> \<not> folder_active a \<and> below (fd_path g) (fd_path a))"
    if "a \<in> set (c_folders d)" for a
  proof (cases "a = f")
    case True
    with f g show ?thesis by (auto simp: binned_row_def)
  next
    case False
    then have "fd_id a \<noteq> fid" using same_row(1) [OF ok that f(1)] f(2) by auto
    then show ?thesis by (simp add: binned_row_def)
  qed
  then show ?thesis unfolding deleted_ancestor_iff rows by simp
qed

lemma touched_simps [simp]:
  "fd_id (touched fid user f) = fd_id f" "fd_org (touched fid user f) = fd_org f" "fd_path (touched fid user f) = fd_path f"
  "fd_name (touched fid user f) = fd_name f" "fd_deleted_at (touched fid user f) = fd_deleted_at f"
  "fd_created_by (touched fid user f) = fd_created_by f" "fd_unit (touched fid user f) = fd_unit f"
  "folder_active (touched fid user f) = folder_active f"
  by (simp_all add: touched_def folder_active_def)

lemma visible_touched:
  "c_folders d2 = map (touched fid user) (c_folders d) \<Longrightarrow> visible_folder d2 (touched fid user f) = visible_folder d f"
  by (simp add: visible_folder_def deleted_ancestor_iff)

text \<open>The parent of a visible folder is visible, also after the folder itself became a tombstone.\<close>

lemma visible_parent:
  assumes ok: "catalog_ok d" and fr: "forest d" and f: "f \<in> set (c_folders d)" "visible_folder d f" "fd_id f = fid"
    and deep: "\<not> length (fd_path f) \<le> 1"
    and rows: "c_folders d1 = map (binned_row fid now user uid) (c_folders d)"
  shows "find_visible_path (fd_org f) (butlast (fd_path f)) d1 \<noteq> None"
proof -
  have fr': "forest_rows (c_folders d)" using fr by (simp add: forest_def)
  have ne: "fd_path f \<noteq> []" using forest_rowsD(1) [OF fr' f(1)] .
  have "butlast (fd_path f) \<noteq> []" using deep by (cases "fd_path f" rule: rev_cases) auto
  then obtain g where g: "g \<in> set (c_folders d)" "fd_org g = fd_org f" "fd_path g = butlast (fd_path f)"
    using forest_rowsD(3) [OF fr' f(1)] by blast
  have up: "below (fd_path f) (fd_path g)" unfolding g(3) below_iff using append_butlast_last_id [OF ne] by metis
  have nb: "\<not> below (fd_path g) (fd_path f)"
    using ne unfolding g(3) below_iff by (metis length_append length_butlast add_lessD1 diff_less length_greater_0_conv less_irrefl less_numeral_extra(1))
  have act: "folder_active f" using f(2) by (simp add: visible_folder_def)
  have na: "\<not> deleted_ancestor (c_folders d) g"
    using f(2) up below_trans unfolding visible_folder_def deleted_ancestor_iff g(2) by blast
  have ga: "folder_active g" using na unfolding deleted_ancestor_iff using g(1) by auto
  have ng: "fd_id g \<noteq> fid" using same_row(1) [OF ok g(1) f(1)] f(3) nb by auto
  have "visible_folder d1 g"
    using deleted_ancestor_binned [OF f(1,3) act ok rows, of g] nb na ga by (simp add: visible_folder_def)
  moreover have "g \<in> set (c_folders d1)" using g(1) ng unfolding rows by (force simp: binned_row_def)
  ultimately show ?thesis using g(2,3) unfolding find_visible_path_def by (auto simp: find_None_iff simp del: not_None_eq)
qed

lemma sibling_butlast:
  "sibling_of org parent f \<Longrightarrow> fd_org f = org \<and> butlast (fd_path f) = parent"
  by (cases "fd_path f" rule: rev_cases) (auto simp: sibling_of_def below_iff split: if_splits)

lemma activeSiblingFolderNames_iff:
  "n \<in> set (activeSiblingFolderNames org p i d) \<longleftrightarrow>
     (\<exists>h\<in>set (c_folders d). fd_id h \<noteq> i \<and> visible_folder d h \<and> sibling_of org p h \<and> fd_name h = n)"
  by (auto simp: activeSiblingFolderNames_def)

lemma restored_rows:
  assumes ok: "catalog_ok d" and f: "f \<in> set (c_folders d)" "fd_id f = fid" "fd_org f = org" "folder_active f" "fd_unit f = None"
    and r: "r \<in> set (c_folders d)"
  shows "(let g = binned_row fid now user uid r in
     if fd_id g = fid \<and> fd_org g = org \<and> \<not> folder_active g then restored_folder (fd_name f) (Some user2) g else g)
     = touched fid user2 r"
proof (cases "fd_id r = fid")
  case True
  then have "r = f" using same_row(1) [OF ok r f(1)] f(2) by simp
  with f show ?thesis by (simp add: binned_row_def restored_folder_def touched_def folder_active_def Let_def)
next
  case False
  then show ?thesis by (simp add: binned_row_def touched_def Let_def)
qed

text \<open>The folders of an earlier catalogue, with one row touched, fit the tables of a later one.\<close>

lemma touched_ok:
  assumes ok: "catalog_ok d" and ok1: "catalog_ok d1" and ids: "map fd_id (c_folders d1) = map fd_id (c_folders d)"
    and users: "set (c_users d) \<subseteq> set (c_users d1)" "user \<in> set (c_users d1)" and orgs: "c_orgs d1 = c_orgs d"
    and units: "set (map lu_id (c_units d)) \<subseteq> set (map lu_id (c_units d1))"
  shows "catalog_ok (d1\<lparr>c_folders := map (touched fid user) (c_folders d)\<rparr>)"
proof (rule ok_folders [OF ok1])
  show "map fd_id (map (touched fid user) (c_folders d)) = map fd_id (c_folders d1)" using ids by (simp add: comp_def)
  show "rows_unique folder_conflict (map (touched fid user) (c_folders d))"
    using catalog_okD(1) [OF ok] by (rule rows_unique_map) (simp add: folder_conflict_def)
  fix g assume "g \<in> set (map (touched fid user) (c_folders d))"
  then obtain r where r: "r \<in> set (c_folders d)" "g = touched fid user r" by auto
  have "folder_refs d r" "folder_check r" using catalog_ok_refs(1) [OF ok r(1)] catalog_ok_checks(1) [OF ok r(1)] by blast+
  then show "folder_check g \<and> folder_refs d1 g"
    using users units orgs unfolding r(2) folder_refs_def folder_check_def
    by (auto simp: in_opt_def touched_def split: option.splits)
qed

text \<open>The unit that a restore closes is the only one of its root in the bin.\<close>

lemma restore_unit_ok:
  assumes ok: "catalog_ok d"
  shows "\<exists>d'. completeLifecycleRestore org ty res d = Inr d' \<and> c_folders d' = c_folders d \<and> c_items d' = c_items d
    \<and> c_units d' = sql_update (\<lambda>u. lu_org u = org \<and> lu_type u = ty \<and> lu_root u = res \<and> lu_state u = LifecycleDeleted)
         (\<lambda>u. u\<lparr>lu_state := LifecycleRestored\<rparr>) (c_units d) \<and> catalog_ok d'"
proof -
  let ?us = "sql_update (\<lambda>u. lu_org u = org \<and> lu_type u = ty \<and> lu_root u = res \<and> lu_state u = LifecycleDeleted)
         (\<lambda>u. u\<lparr>lu_state := LifecycleRestored\<rparr>) (c_units d)"
  have "catalog_ok (d\<lparr>c_units := ?us\<rparr>)"
  proof (rule ok_units [OF ok, of _ "[]"])
    show "map (\<lambda>u. (lu_id u, lu_org u)) ?us = map (\<lambda>u. (lu_id u, lu_org u)) (c_units d) @ []"
      by (simp add: sql_update_def)
    show "rows_unique unit_conflict ?us"
      using catalog_okD(3) [OF ok] unfolding sql_update_as_map
      by (rule rows_unique_map) (auto simp: unit_conflict_def unit_live_def split: if_splits)
    show "unit_check u \<and> unit_refs d u" if "u \<in> set ?us" for u
      using that catalog_ok_checks(3) [OF ok] catalog_ok_refs(3) [OF ok] by (auto simp: unit_check_def unit_refs_def)
  qed
  then show ?thesis by (auto simp: completeLifecycleRestore_def)
qed

lemma find_binned_row:
  assumes "catalog_ok e" and "c_folders e = map (binned_row fid now user uid) (c_folders d)"
    and f: "f \<in> set (c_folders d)" "fd_id f = fid" "fd_org f = org"
  shows "find (\<lambda>g. fd_id g = fid \<and> fd_org g = org) (c_folders e) = Some (binned_row fid now user uid f)"
proof -
  let ?f = "binned_row fid now user uid f"
  have mem: "?f \<in> set (c_folders e)" and ff: "fd_id ?f = fid" "fd_org ?f = org"
    using f assms(2) by (simp_all add: binned_row_def)
  then obtain g where g: "find (\<lambda>g. fd_id g = fid \<and> fd_org g = org) (c_folders e) = Some g"
    by (cases "find (\<lambda>g. fd_id g = fid \<and> fd_org g = org) (c_folders e)") (auto simp: find_None_iff)
  then have "g \<in> set (c_folders e) \<and> fd_id g = fid" by (auto dest: find_SomeD)
  then have "g = ?f" using same_row(1) [OF assms(1) _ mem] ff by simp
  with g show ?thesis by simp
qed

text \<open>Nothing took the name of the folder while it was in the bin.\<close>

lemma kept_name:
  assumes "catalog_ok d" and f: "f \<in> set (c_folders d)" "fd_id f = fid" "fd_org f = org" "folder_active f"
    and rows: "c_folders e = map (binned_row fid now user uid) (c_folders d)"
  shows "nextAvailableDisplayValue (fd_name f) (activeSiblingFolderNames org (butlast (fd_path f)) fid e) = fd_name f"
proof -
  have "fd_name h \<noteq> fd_name f"
    if h: "h \<in> set (c_folders e)" "fd_id h \<noteq> fid" "visible_folder e h" "sibling_of org (butlast (fd_path f)) h" for h
  proof
    assume "fd_name h = fd_name f"
    obtain r where r: "r \<in> set (c_folders d)" "h = binned_row fid now user uid r" using h(1) rows by auto
    then have hr: "h = r" using h(2) by (auto simp: binned_row_def split: if_splits)
    have "folder_conflict f r"
      using sibling_butlast [OF h(4)] h(3) \<open>fd_name h = fd_name f\<close> f(3,4) hr
      by (simp add: folder_conflict_def visible_folder_def)
    then show False
      using folder_conflict_free [OF catalog_okD(1) [OF assms(1)] f(1) r(1)] h(2) hr f(2) by auto
  qed
  then have "fd_name f \<notin> set (activeSiblingFolderNames org (butlast (fd_path f)) fid e)"
    using activeSiblingFolderNames_iff by blast
  then show ?thesis by (simp add: nextAvailableDisplayValue_def)
qed

text \<open>The restore closes exactly the unit of the deletion.\<close>

lemma closed_unit:
  assumes "rows_unique unit_conflict (us @ [u])"
    and "lu_org u = org" "lu_type u = ty" "lu_root u = res" "lu_state u = LifecycleDeleted"
  shows "sql_update (\<lambda>u. lu_org u = org \<and> lu_type u = ty \<and> lu_root u = res \<and> lu_state u = LifecycleDeleted)
      (\<lambda>u. u\<lparr>lu_state := LifecycleRestored\<rparr>) (us @ [u]) = us @ [u\<lparr>lu_state := LifecycleRestored\<rparr>]"
proof -
  have "\<not> (lu_org v = org \<and> lu_type v = ty \<and> lu_root v = res \<and> lu_state v = LifecycleDeleted)" if "v \<in> set us" for v
  proof
    assume v: "lu_org v = org \<and> lu_type v = ty \<and> lu_root v = res \<and> lu_state v = LifecycleDeleted"
    have "\<not> unit_conflict v u" using assms(1) that by (simp add: rows_unique_append)
    with v assms(2-5) show False by (simp add: unit_conflict_def unit_live_def)
  qed
  then show ?thesis using assms(2-5) by (simp add: sql_update_none)
qed

text \<open>C12: Deleting an empty folder and restoring it at once is undone completely: the restore succeeds, the folder keeps its
  name, place and description, every other row is as before (only the last editor of the folder is recorded), and the
  recycle bin entry of the deletion is closed.
\<close>

theorem deleted_folder_restores:
  assumes "catalog_ok d" "forest d" "DeleteFolder uid now tnow org user fid d = (Inr (), d1)"
  shows "\<exists>g d2. RestoreFolder org user2 fid d1 = (Inr g, d2) \<and> c_folders d2 = map (touched fid user2) (c_folders d)
    \<and> c_items d2 = c_items d \<and> (\<exists>u. c_units d2 = c_units d @ [u] \<and> lu_id u = uid \<and> lu_state u = LifecycleRestored)"
proof -
  from DeleteFolder_Inr [OF assms(1,3)] obtain f u where f: "f \<in> set (c_folders d)" "fd_id f = fid" "fd_org f = org"
      "visible_folder d f" "fd_unit f = None"
    and fence: "ensureNoActiveDeletionForPaths org [fd_path f] d = Inr ()"
    and rows: "c_folders d1 = map (binned_row fid now user uid) (c_folders d)" and us: "c_units d1 = c_units d @ [u]"
    and u: "lu_id u = uid" "lu_org u = org" "lu_type u = LifecycleResourceFolder" "lu_root u = fid" "lu_state u = LifecycleDeleted"
    and same: "c_items d1 = c_items d" "c_djobs d1 = c_djobs d" "c_users d1 = c_users d" "c_orgs d1 = c_orgs d"
    and ok1: "catalog_ok d1" by metis
  have act: "folder_active f" using f(4) by (simp add: visible_folder_def)
  let ?e = "ensure_user user2 d1" and ?f = "binned_row fid now user uid f"
  have ok2: "catalog_ok ?e" by (rule catalog_ok_ensure_user [OF ok1])
  have ff: "fd_org ?f = org" "fd_id ?f = fid" "fd_path ?f = fd_path f" "fd_name ?f = fd_name f" "\<not> folder_active ?f"
    using f by (simp_all add: binned_row_def folder_active_def)
  have found: "find (\<lambda>g. fd_id g = fid \<and> fd_org g = org) (c_folders ?e) = Some ?f"
    by (rule find_binned_row [OF ok2 _ f(1-3)]) (simp add: rows)
  have vis: "visible_folder (ensure_user user2 d1) h = visible_folder d1 h" for h by (simp add: visible_folder_def)
  have parent: "\<not> length (fd_path f) \<le> 1 \<Longrightarrow> \<exists>p. lockedVisibleParent org (butlast (fd_path f)) ?e = Inr p"
    using visible_parent [OF assms(1,2) f(1,4,2) _ rows] f(3)
    by (auto simp: lockedVisibleParent_def find_visible_path_def vis)
  have fence2: "ensureNoActiveDeletionForPaths org [fd_path f] ?e = Inr ()"
    using fence fence_cong [of ?e d] same by simp
  let ?parent = "if length (fd_path f) \<le> 1 then [] else butlast (fd_path f)"
  have pb: "?parent = butlast (fd_path f)" by (cases "fd_path f" rule: rev_cases) auto
  have name: "nextAvailableDisplayValue (fd_name f) (activeSiblingFolderNames org ?parent fid ?e) = fd_name f"
    unfolding pb
    by (rule kept_name [OF assms(1) f(1-3) act, where now = now and user = user and uid = uid]) (simp add: rows)
  let ?d2 = "?e\<lparr>c_folders := map (touched fid user2) (c_folders d)\<rparr>"
  have okd2: "catalog_ok ?d2"
  proof (rule touched_ok [OF assms(1) ok2])
    show "map fd_id (c_folders ?e) = map fd_id (c_folders d)" by (simp add: rows comp_def binned_row_def)
  qed (use same us in \<open>auto simp: ensure_user_def\<close>)
  have upd: "on_folders (sql_update (\<lambda>g. fd_id g = fid \<and> fd_org g = org \<and> \<not> folder_active g)
      (restored_folder (fd_name f) (Some user2))) ?e = Inr ?d2"
  proof -
    have "sql_update (\<lambda>g. fd_id g = fid \<and> fd_org g = org \<and> \<not> folder_active g) (restored_folder (fd_name f) (Some user2)) (c_folders ?e)
        = map (touched fid user2) (c_folders d)"
      using restored_rows [OF assms(1) f(1-3) act f(5), of _ now user uid user2]
      by (simp add: sql_update_as_map rows Let_def)
    with okd2 show ?thesis by simp
  qed
  obtain d3 where d3: "completeLifecycleRestore org LifecycleResourceFolder fid ?d2 = Inr d3" "c_folders d3 = c_folders ?d2"
    "c_items d3 = c_items ?d2" "c_units d3 = sql_update (\<lambda>u. lu_org u = org \<and> lu_type u = LifecycleResourceFolder \<and> lu_root u = fid
        \<and> lu_state u = LifecycleDeleted) (\<lambda>u. u\<lparr>lu_state := LifecycleRestored\<rparr>) (c_units ?d2)" "catalog_ok d3"
    using restore_unit_ok [OF okd2] by blast
  have units: "c_units d3 = c_units d @ [u\<lparr>lu_state := LifecycleRestored\<rparr>]"
    unfolding d3(4) using closed_unit [OF _ u(2-5)] catalog_okD(3) [OF ok1] by (simp add: us)
  have mem3: "touched fid user2 f \<in> set (c_folders d3)" using f(1) d3(2) by simp
  have vis3: "visible_folder d3 (touched fid user2 f)"
    using visible_touched [of d3 fid user2 d f] d3(2) f(4) by simp
  obtain g where g: "find_visible_folder org fid d3 = Some g"
    using mem3 vis3 f unfolding find_visible_folder_def
    by (cases "find (\<lambda>f. fd_id f = fid \<and> fd_org f = org \<and> visible_folder d3 f) (c_folders d3)") (auto simp: find_None_iff)
  have lock: "(if length (fd_path f) \<le> 1 then Inr () else and_then (lockedVisibleParent org (butlast (fd_path f)) ?e) (\<lambda>_. Inr ()))
      = Inr ()" using parent by auto
  have parent_if: "(if length (fd_path f) \<le> 1 then Inr () else and_then (lockedVisibleParent org ?parent ?e) (\<lambda>_. Inr ()))
      = Inr ()" using lock unfolding pb .
  have "RestoreFolder org user2 fid d1 = (Inr g, d3)"
    unfolding RestoreFolder_def transaction_def Let_def
    by (simp only: found ff parent_if fence2 name upd d3(1) g from_option_simps and_then_simps if_False sum.case prod.case)
  then show ?thesis using d3(2,3) units same u(1) by auto
qed

section \<open>Examples\<close>

text \<open>The example catalogue with a folder \<open>s\<close> inside \<open>z\<close> and an empty folder \<open>t\<close>.\<close>

definition tree_demo :: catalog where
  "tree_demo = demo_catalog\<lparr>c_folders := c_folders demo_catalog
     @ [demo_folder ''s'' [''z'', ''s''] None None, demo_folder ''t'' [''t''] None None]\<rparr>"

lemma tree_demo_ok: "catalog_ok tree_demo" "forest tree_demo"
  by code_simp+

definition demo_move :: "(folder \<times> bool) reply \<times> catalog" where
  "demo_move = MoveFolder ''org'' ''ann'' ''z'' (Some ''t'') tree_demo"

lemma move_changes_one_parent_witness:
  "\<exists>f d'. demo_move = (Inr (f, True), d') \<and> parents d' = (parents tree_demo)(''z'' \<mapsto> Some ''t'') \<and> forest d'"
proof -
  have "case fst demo_move of Inl _ \<Rightarrow> False | Inr (f, moved) \<Rightarrow> moved" by code_simp
  then obtain f d' where m: "demo_move = (Inr (f, True), d')"
    by (cases "fst demo_move") (auto simp: prod_eq_iff)
  have "destination (Some ''t'') = Some ''t''" by (simp add: destination_def)
  with move_changes_one_parent [OF tree_demo_ok m [unfolded demo_move_def]] m show ?thesis by auto
qed

definition demo_delete :: "unit reply \<times> catalog" where
  "demo_delete = DeleteFolder ''u2'' 9 9 ''org'' ''ann'' ''t'' tree_demo"

lemma deleted_folder_restores_witness:
  "\<exists>g d2. RestoreFolder ''org'' ''ann'' ''t'' (snd demo_delete) = (Inr g, d2)
     \<and> c_folders d2 = map (touched ''t'' ''ann'') (c_folders tree_demo)"
proof -
  have "is_ok (fst demo_delete)" by code_simp
  then have "DeleteFolder ''u2'' 9 9 ''org'' ''ann'' ''t'' tree_demo = (Inr (), snd demo_delete)"
    unfolding demo_delete_def is_ok_iff by (auto simp: prod_eq_iff)
  from deleted_folder_restores [OF tree_demo_ok this] show ?thesis by blast
qed

end
