(* ===== verification/Deletion_Fence.thy ===== *)
theory Deletion_Fence
  imports Folder_Tree
begin

text \<open>
  A recursive deletion among the other requests of the service: the deletion fence
  (\<open>internal/repository/deletion_fence.go\<close>) keeps every direct write of folders and items
  (\<open>asset_repository.go\<close>, \<open>asset_repository_restore.go\<close>) out of the subtree under deletion, so the run of
  \<open>ProcessFolderDeletionJob\<close> ends however many of them come in between. The import is the one write that does
  not ask the fence; it and the steps of other workers are covered by a condition on what they leave.
\<close>

section \<open>What the fence refuses\<close>

text \<open>
  The state the run relies on: the claim is held, the paths are a forest, and every folder has one of the given
  identifiers, no two of which share a label (UUIDs in their canonical spelling).
\<close>

definition fence_state ::
  "string set \<Rightarrow> string \<Rightarrow> string \<Rightarrow> string \<Rightarrow> ltree \<Rightarrow> string \<Rightarrow> catalog \<Rightarrow> bool" where
  "fence_state ids did worker org p root d \<longleftrightarrow>
     claim_held did worker org p root d \<and> forest d \<and> fd_id ` set (c_folders d) \<subseteq> ids"

lemma claim_heldD:
  assumes "claim_held did worker org p root d"
  shows "catalog_ok d"
    "\<exists>k\<in>set (c_djobs d). dj_org k = org \<and> dj_path k = p \<and> deletion_active k"
    "\<exists>f\<in>set (c_folders d). fd_id f = root \<and> fd_org f = org \<and> fd_path f = p"
  using assms held_deletion_rows(4,6)
  by (fastforce simp: claim_held_def deletion_of_def deletion_active_def is_root_def)+

lemma fence_refuses:
  assumes "claim_held did worker org p root d" "c_djobs d' = c_djobs d"
    and "ensureNoActiveDeletionForPaths org [q] d' = Inr ()" "q \<noteq> []"
  shows "\<not> below q p" "\<not> below p q"
  using claim_heldD(2) [OF assms(1)] assms(2-4)
  by (auto simp: sql_exists_iff deletion_overlaps_def split: if_splits)

text \<open>A write that leaves the jobs and the deleting units alone and keeps the root where it is keeps the claim.\<close>

lemma claim_held_kept:
  assumes "claim_held did worker org p root d" "catalog_ok d'" "c_jobs d' = c_jobs d" "c_djobs d' = c_djobs d"
    and "\<And>u. u \<in> set (c_units d) \<Longrightarrow> lu_state u = LifecycleDeleting \<Longrightarrow> u \<in> set (c_units d')"
    and "\<And>f. f \<in> set (c_folders d) \<Longrightarrow> fd_id f = root \<Longrightarrow> fd_org f = org \<Longrightarrow> fd_path f = p \<Longrightarrow>
          \<exists>g\<in>set (c_folders d'). fd_id g = root \<and> fd_org g = org \<and> fd_path g = p"
  shows "claim_held did worker org p root d'"
proof -
  from assms(1) obtain j k u f where h: "held_deletion did worker d = Inr (j, k)" "u \<in> set (c_units d)"
    "lj_unit j = Some (lu_id u)" "deleting_unit (dj_org k) (dj_root k) u" "f \<in> set (c_folders d)"
    "is_root k f" "fd_path f = dj_path k" and k: "dj_org k = org" "dj_path k = p" "dj_root k = root"
    unfolding claim_held_def deletion_of_def by blast
  have "held_deletion did worker d' = Inr (j, k)"
    using h(1) held_deletion_cong [OF assms(3,4)] by simp
  moreover have "u \<in> set (c_units d')" using assms(5) h(2,4) by (simp add: deleting_unit_def)
  moreover have "\<exists>g\<in>set (c_folders d'). is_root k g \<and> fd_path g = dj_path k"
    using assms(6) [OF h(5)] h(6,7) k by (simp add: is_root_def)
  ultimately have "deletion_of did worker j k u d'" unfolding deletion_of_def using assms(2) h(3,4) by blast
  with k show ?thesis unfolding claim_held_def by blast
qed

section \<open>Counting what is left\<close>

lemma rows_affected_append: "rows_affected c (rs @ ss) = rows_affected c rs + rows_affected c ss"
  by (simp add: rows_affected_def)

lemma rows_affected_map_mono:
  "(\<And>r. r \<in> set rs \<Longrightarrow> c' (g r) \<Longrightarrow> c r) \<Longrightarrow> rows_affected c' (map g rs) \<le> rows_affected c rs"
  by (induction rs) (auto simp: rows_affected_def)

text \<open>A write that rewrites the rows one by one and appends others, none of it active below the root where it was not.\<close>

lemma deletion_todo_le:
  assumes ok: "catalog_ok d" "catalog_ok d'"
    and fs: "c_folders d' = map g (c_folders d) @ nf" and xs: "c_items d' = map h (c_items d) @ ni"
    and g: "\<And>f. f \<in> set (c_folders d) \<Longrightarrow> fd_id (g f) = fd_id f"
      "\<And>f. f \<in> set (c_folders d) \<Longrightarrow> subtree_folder org p (g f) \<Longrightarrow> subtree_folder org p f"
      "\<And>f. f \<in> set (c_folders d) \<Longrightarrow> subtree_folder org p (g f) \<Longrightarrow> folder_active (g f) \<Longrightarrow> folder_active f"
      "\<And>f. f \<in> set nf \<Longrightarrow> \<not> subtree_folder org p f"
    and h: "\<And>x. x \<in> set (c_items d) \<Longrightarrow> it_folder (h x) = it_folder x"
      "\<And>x. x \<in> set (c_items d) \<Longrightarrow> item_active (h x) \<Longrightarrow> item_below d org p x \<Longrightarrow> item_active x"
      "\<And>x. x \<in> set ni \<Longrightarrow> \<not> item_below d' org p x"
  shows "deletion_todo org p d' \<le> deletion_todo org p d"
proof -
  have "rows_affected (\<lambda>f. subtree_folder org p f \<and> folder_active f) (map g (c_folders d))
      \<le> rows_affected (\<lambda>f. subtree_folder org p f \<and> folder_active f) (c_folders d)"
    by (rule rows_affected_map_le) (use g in blast)
  moreover have "rows_affected (\<lambda>f. subtree_folder org p f \<and> folder_active f) nf = 0" using g(4) by simp
  moreover have below: "item_below d org p x" if x: "x \<in> set (c_items d)" and b: "item_below d' org p (h x)" for x
  proof -
    obtain f where f: "folder_of d x = Some f" "f \<in> set (c_folders d)" "fd_id f = it_folder x"
      by (rule item_has_folder [OF ok(1) x])
    have "folder_of d' (h x) = Some (g f)"
      by (rule folder_of_eq [OF ok(2)]) (use f g(1) h(1) [OF x] fs in auto)
    then show ?thesis using b f g(2) [OF f(2)] by (simp add: item_below_def subtree_folder_def)
  qed
  moreover have "rows_affected (\<lambda>x. item_below d' org p x \<and> item_active x) (map h (c_items d))
      \<le> rows_affected (\<lambda>x. item_below d org p x \<and> item_active x) (c_items d)"
  proof (rule rows_affected_map_mono)
    fix x assume x: "x \<in> set (c_items d)" and b: "item_below d' org p (h x) \<and> item_active (h x)"
    have "item_below d org p x" using below [OF x] b by blast
    then show "item_below d org p x \<and> item_active x" using h(2) [OF x] b by blast
  qed
  moreover have "rows_affected (\<lambda>x. item_below d' org p x \<and> item_active x) ni = 0" using h(3) by simp
  ultimately show ?thesis unfolding deletion_todo_def fs xs rows_affected_append by linarith
qed

section \<open>Writes beside a deletion\<close>

definition quiet_step ::
  "string set \<Rightarrow> string \<Rightarrow> string \<Rightarrow> string \<Rightarrow> ltree \<Rightarrow> string \<Rightarrow> catalog \<Rightarrow> catalog \<Rightarrow> bool" where
  "quiet_step ids did worker org p root d d' \<longleftrightarrow>
     (fence_state ids did worker org p root d \<longrightarrow>
        fence_state ids did worker org p root d' \<and> deletion_todo org p d' \<le> deletion_todo org p d)"

lemma quiet_refl [simp]: "quiet_step ids did worker org p root d d"
  by (simp add: quiet_step_def)

lemma quiet_trans:
  "quiet_step ids did worker org p root a b \<Longrightarrow> quiet_step ids did worker org p root b c
     \<Longrightarrow> quiet_step ids did worker org p root a c"
  by (auto simp: quiet_step_def)

text \<open>A write that leaves the tree alone: rows are rewritten in place, items may be added.\<close>

lemma quiet_in_place:
  assumes st: "fence_state ids did worker org p root d" and ok: "catalog_ok d'"
    and js: "c_jobs d' = c_jobs d" "c_djobs d' = c_djobs d"
    and us: "\<And>u. u \<in> set (c_units d) \<Longrightarrow> lu_state u = LifecycleDeleting \<Longrightarrow> u \<in> set (c_units d')"
    and fs: "c_folders d' = map g (c_folders d)"
      "\<And>f. f \<in> set (c_folders d) \<Longrightarrow> fd_id (g f) = fd_id f \<and> fd_org (g f) = fd_org f \<and> fd_path (g f) = fd_path f"
      "\<And>f. f \<in> set (c_folders d) \<Longrightarrow> subtree_folder org p f \<Longrightarrow> folder_active (g f) \<Longrightarrow> folder_active f"
    and xs: "c_items d' = map h (c_items d) @ ni"
      "\<And>x. x \<in> set (c_items d) \<Longrightarrow> it_folder (h x) = it_folder x"
      "\<And>x. x \<in> set (c_items d) \<Longrightarrow> item_active (h x) \<Longrightarrow> item_below d org p x \<Longrightarrow> item_active x"
      "\<And>x. x \<in> set ni \<Longrightarrow> \<not> item_below d' org p x"
  shows "fence_state ids did worker org p root d' \<and> deletion_todo org p d' \<le> deletion_todo org p d"
proof -
  have cl: "claim_held did worker org p root d" and fo: "forest d" and id: "fd_id ` set (c_folders d) \<subseteq> ids"
    using st by (auto simp: fence_state_def)
  have sub: "subtree_folder org p (g f) = subtree_folder org p f" if "f \<in> set (c_folders d)" for f
    using fs(2) [OF that] by (simp add: subtree_folder_def)
  have "claim_held did worker org p root d'"
    by (rule claim_held_kept [OF cl ok js us]) (use fs in force)+
  moreover have "shape d' = shape d" using fs(1,2) by (simp add: shape_def)
  then have "forest d'" using fo forest_shape by blast
  moreover have "fd_id ` set (c_folders d') \<subseteq> ids" using fs(1,2) id by auto
  moreover have "deletion_todo org p d' \<le> deletion_todo org p d"
    by (rule deletion_todo_le [OF claim_heldD(1) [OF cl] ok, of g "[]" h ni]) (use fs xs sub in auto)
  ultimately show ?thesis by (simp add: fence_state_def)
qed

lemmas fence_stateD = fence_state_def [THEN iffD1, THEN conjunct1]
  fence_state_def [THEN iffD1, THEN conjunct2, THEN conjunct1]
  fence_state_def [THEN iffD1, THEN conjunct2, THEN conjunct2]

lemma quiet_transaction:
  assumes "\<And>r d'. fence_state ids did worker org p root d \<Longrightarrow> work d = Inr (r, d') \<Longrightarrow>
      fence_state ids did worker org p root d' \<and> deletion_todo org p d' \<le> deletion_todo org p d"
  shows "quiet_step ids did worker org p root d (snd (transaction work d))"
  using assms by (auto simp: quiet_step_def transaction_def split: sum.splits prod.splits)

lemma renamed_folder_simps [simp]:
  "fd_id (renamed_folder user name inp f) = fd_id f" "fd_org (renamed_folder user name inp f) = fd_org f"
  "fd_path (renamed_folder user name inp f) = fd_path f" "fd_deleted_at (renamed_folder user name inp f) = fd_deleted_at f"
  by (simp_all add: renamed_folder_def)

lemma quiet_UpdateFolder: "quiet_step ids did worker org p root d (snd (UpdateFolder o' user fid inp d))"
  unfolding UpdateFolder_def
proof (rule quiet_transaction)
  fix r d' let ?e = "EnsureRefs user o' d"
  assume st: "fence_state ids did worker org p root d"
    and w: "(let d = ?e in
       and_then (from_option ErrFolderNotFound (find_visible_folder o' fid d)) (\<lambda>f.
       and_then (ensureNoActiveDeletionForPaths o' [fd_path f] d) (\<lambda>_.
       and_then (new_name inp f) (\<lambda>name.
       if name \<noteq> fd_name f
          \<and> sql_exists (\<lambda>g. sibling_named o' (butlast (fd_path f)) name g \<and> fd_id g \<noteq> fd_id f) (c_folders d)
       then Inl ErrFolderConflict
       else
         let f1 = renamed_folder user name inp f in
         and_then (on_conflict ErrFolderConflict (save_folder f1 d)) (\<lambda>d1. Inr (f1, d1)))))) = Inr (r, d')"
  obtain f name where f: "find_visible_folder o' fid ?e = Some f"
    and d': "save_folder (renamed_folder user name inp f) ?e = Inr d'"
    using w by (auto simp: Let_def on_conflict_def split: if_splits)
  note F = find_visible_folderD [OF f, simplified]
  let ?g = "\<lambda>g. if fd_id g = fd_id f \<and> folder_active g then (renamed_folder user name inp f)\<lparr>fd_unit := fd_unit g\<rparr> else g"
  have ok: "catalog_ok d" using claim_heldD(1) [OF fence_stateD(1) [OF st]] .
  have one: "g = f" if "g \<in> set (c_folders d)" "fd_id g = fd_id f" for g using same_row(1) [OF ok that(1) _ that(2)] F by blast
  have act: "folder_active f" using F by (simp add: visible_folder_def)
  have rows: "d' = ?e\<lparr>c_folders := map ?g (c_folders d)\<rparr>" "catalog_ok d'"
    using d' by (auto simp: save_folder_def sql_update_def)
  show "fence_state ids did worker org p root d' \<and> deletion_todo org p d' \<le> deletion_todo org p d"
    by (rule quiet_in_place [OF st rows(2), of ?g "\<lambda>x. x" "[]"])
      (use one act in \<open>auto simp: rows(1) folder_active_def split: if_splits\<close>)
qed

lemma quiet_DeleteFolder: "quiet_step ids did worker org p root d (snd (DeleteFolder uid now tnow o' user fid d))"
proof (cases "DeleteFolder uid now tnow o' user fid d")
  case (Pair r d')
  show ?thesis
  proof (cases r)
    case (Inl e)
    then show ?thesis using Pair transaction_Inl by (fastforce simp: DeleteFolder_def)
  next
    case (Inr u)
    show ?thesis unfolding quiet_step_def
    proof
      assume st: "fence_state ids did worker org p root d"
      have ok: "catalog_ok d" using claim_heldD(1) [OF fence_stateD(1) [OF st]] .
      from Pair Inr have run: "DeleteFolder uid now tnow o' user fid d = (Inr (), d')" by simp
      obtain u where r: "c_folders d' = map (binned_row fid now user uid) (c_folders d)" "c_units d' = c_units d @ [u]"
        "c_items d' = c_items d" "c_jobs d' = c_jobs d" "c_djobs d' = c_djobs d" "catalog_ok d'"
        by (rule DeleteFolder_Inr [OF ok run])
      show "fence_state ids did worker org p root (snd (DeleteFolder uid now tnow o' user fid d))
        \<and> deletion_todo org p (snd (DeleteFolder uid now tnow o' user fid d)) \<le> deletion_todo org p d"
        unfolding Pair snd_conv
        by (rule quiet_in_place [OF st r(6), of "binned_row fid now user uid" "\<lambda>x. x" "[]"])
          (use r in \<open>auto simp: binned_row_def folder_active_def split: if_splits\<close>)
    qed
  qed
qed

text \<open>A restored folder is not below the root: the fence was asked for its path, and no stored path is empty.\<close>

lemma fence_outside:
  assumes st: "fence_state ids did worker org p root d" and "f \<in> set (c_folders d)" "c_djobs d' = c_djobs d"
    and "ensureNoActiveDeletionForPaths (fd_org f) [fd_path f] d' = Inr ()"
  shows "\<not> subtree_folder org p f" "fd_org f = org \<Longrightarrow> \<not> below p (fd_path f)"
proof -
  have "fd_path f \<noteq> []" using fence_stateD(2) [OF st] assms(2) by (auto simp: forest_def dest: forest_rowsD(1))
  then show "\<not> subtree_folder org p f" "fd_org f = org \<Longrightarrow> \<not> below p (fd_path f)"
    using fence_refuses [OF fence_stateD(1) [OF st] assms(3)] assms(4) by (auto simp: subtree_folder_def)
qed

lemma quiet_RestoreFolder: "quiet_step ids did worker org p root d (snd (RestoreFolder o' user fid d))"
  unfolding RestoreFolder_def
proof (rule quiet_transaction)
  fix r d' let ?e = "ensure_user user d"
  assume st: "fence_state ids did worker org p root d"
    and w: "(let d = ?e in
       and_then (from_option ErrFolderNotFound (find (\<lambda>f. fd_id f = fid \<and> fd_org f = o') (c_folders d))) (\<lambda>f.
       if folder_active f then Inl ErrFolderNotDeleted
       else
         let parent = (if length (fd_path f) \<le> 1 then [] else butlast (fd_path f)) in
         and_then (if length (fd_path f) \<le> 1 then Inr () else and_then (lockedVisibleParent o' parent d) (\<lambda>_. Inr ())) (\<lambda>_.
         and_then (ensureNoActiveDeletionForPaths o' [fd_path f] d) (\<lambda>_.
         let name = nextAvailableDisplayValue (fd_name f) (activeSiblingFolderNames o' parent (fd_id f) d) in
         and_then (on_folders (sql_update (\<lambda>g. fd_id g = fd_id f \<and> fd_org g = o' \<and> \<not> folder_active g)
                     (restored_folder name (Some user))) d) (\<lambda>d1.
         and_then (completeLifecycleRestore o' LifecycleResourceFolder (fd_id f) d1) (\<lambda>d2.
         and_then (from_option ErrNoRecord (find_visible_folder o' (fd_id f) d2)) (\<lambda>g. Inr (g, d2)))))))) = Inr (r, d')"
  obtain f name d1 where f: "find (\<lambda>f. fd_id f = fid \<and> fd_org f = o') (c_folders ?e) = Some f"
    and fence: "ensureNoActiveDeletionForPaths o' [fd_path f] ?e = Inr ()"
    and d1: "on_folders (sql_update (\<lambda>g. fd_id g = fd_id f \<and> fd_org g = o' \<and> \<not> folder_active g) (restored_folder name (Some user))) ?e = Inr d1"
    and d2: "completeLifecycleRestore o' LifecycleResourceFolder (fd_id f) d1 = Inr d'"
    using w by (auto simp: Let_def simp del: on_table_Inr ensureNoActiveDeletionForPaths.simps split: if_splits)
  have F: "f \<in> set (c_folders d)" "fd_org f = o'" using find_SomeD [OF f] by auto
  have ok: "catalog_ok d" using claim_heldD(1) [OF fence_stateD(1) [OF st]] .
  have one: "g = f" if "g \<in> set (c_folders d)" "fd_id g = fd_id f" for g using same_row(1) [OF ok that(1) _ that(2)] F by blast
  have out: "\<not> subtree_folder org p f"
    by (rule fence_outside(1) [OF st F(1), of ?e]) (use fence F in simp_all)
  let ?g = "\<lambda>g. if fd_id g = fd_id f \<and> fd_org g = o' \<and> \<not> folder_active g then restored_folder name (Some user) g else g"
  have rows: "c_folders d' = map ?g (c_folders d)" "c_items d' = c_items d" "c_jobs d' = c_jobs d" "c_djobs d' = c_djobs d"
    "c_units d' = sql_update (\<lambda>u. lu_org u = o' \<and> lu_type u = LifecycleResourceFolder \<and> lu_root u = fd_id f
        \<and> lu_state u = LifecycleDeleted) (\<lambda>u. u\<lparr>lu_state := LifecycleRestored\<rparr>) (c_units d)" "catalog_ok d'"
    using d1 d2 by (auto simp: completeLifecycleRestore_def sql_update_def)
  show "fence_state ids did worker org p root d' \<and> deletion_todo org p d' \<le> deletion_todo org p d"
    by (rule quiet_in_place [OF st rows(6,3,4) _ rows(1), of "\<lambda>x. x" "[]"])
      (use one out in \<open>auto simp: rows(2,5) restored_folder_def sql_update_def image_iff split: if_splits\<close>)
qed

lemma item_visible_folder:
  assumes "fence_state ids did worker org p root d" and x: "x \<in> set (c_items d)"
    and f: "f \<in> set (c_folders d)" "fd_id f = it_folder x" "\<not> subtree_folder org p f"
  shows "\<not> item_below d org p x"
proof -
  have "folder_of d x = Some f" by (rule folder_of_eq [OF _ f(1,2)]) (rule claim_heldD(1) [OF fence_stateD(1) [OF assms(1)]])
  then show ?thesis using f(3) by (simp add: item_below_def subtree_folder_def)
qed

lemma quiet_CreateMetadataItem: "quiet_step ids did worker org p root d (snd (CreateMetadataItem iid now o' user inp d))"
  unfolding CreateMetadataItem_def
proof (rule quiet_transaction)
  fix r d' let ?e = "EnsureRefs user o' d"
  assume st: "fence_state ids did worker org p root d"
    and w: "(let d = ?e in
       and_then (from_option ErrFolderNotFound (find_visible_folder o' (ci_folder inp) d)) (\<lambda>p.
       and_then (ensureNoActiveDeletionForPaths o' [fd_path p] d) (\<lambda>_.
       let x = new_item_row iid now user inp in
       and_then (on_conflict ErrMetadataConflict (on_items (\<lambda>xs. xs @ [x]) d)) (\<lambda>d1. Inr (x, d1))))) = Inr (r, d')"
  let ?x = "new_item_row iid now user inp"
  obtain f where f: "find_visible_folder o' (ci_folder inp) ?e = Some f"
    and fence: "ensureNoActiveDeletionForPaths o' [fd_path f] ?e = Inr ()"
    and d': "d' = ?e\<lparr>c_items := c_items d @ [?x]\<rparr>" "catalog_ok d'"
    using w by (auto simp: Let_def on_conflict_def simp del: ensureNoActiveDeletionForPaths.simps split: if_splits)
  note F = find_visible_folderD [OF f, simplified]
  have out: "\<not> subtree_folder org p f"
    by (rule fence_outside(1) [OF st, of _ ?e]) (use fence F in simp_all)
  have "folder_of d' ?x = Some f"
    by (rule folder_of_eq [OF d'(2)]) (use F in \<open>simp_all add: d'(1) new_item_row_def\<close>)
  then have nb: "\<not> item_below d' org p ?x" using out by (simp add: item_below_def subtree_folder_def)
  show "fence_state ids did worker org p root d' \<and> deletion_todo org p d' \<le> deletion_todo org p d"
    by (rule quiet_in_place [OF st d'(2), of "\<lambda>f. f" "\<lambda>x. x" "[?x]"]) (use nb in \<open>auto simp: d'(1)\<close>)
qed

lemma updated_item_simps [simp]:
  "it_id (updated_item inp x) = it_id x" "it_folder (updated_item inp x) = it_folder x"
  "it_deleted_at (updated_item inp x) = it_deleted_at x"
  by (simp_all add: updated_item_def)

lemma quiet_UpdateMetadataItem:
  "quiet_step ids did worker org p root d (snd (UpdateMetadataItem now tnow o' user iid inp d))"
  unfolding UpdateMetadataItem_def
proof (rule quiet_transaction)
  fix r d' let ?e = "EnsureRefs user o' d"
  assume st: "fence_state ids did worker org p root d"
    and w: "(let d = ?e in
       and_then (from_option ErrMetadataNotFound (find_visible_item o' iid d)) (\<lambda>x.
       and_then (from_option ErrNoRecord (find_visible_folder o' (it_folder x) d)) (\<lambda>p.
       and_then (ensureNoActiveDeletionForPaths o' [fd_path p] d) (\<lambda>_.
       let x1 = updated_item inp x in
       if present_text (it_external_source x1) \<noteq> present_text (it_external_id x1) then Inl ErrInvalidInput
       else
         let x2 = x1\<lparr>it_updated_by := Some user, it_updated_at := now\<rparr> in
         and_then (on_conflict ErrMetadataConflict (save_item tnow x2 d)) (\<lambda>d1. Inr (x2, d1)))))) = Inr (r, d')"
  obtain x where x: "find_visible_item o' iid ?e = Some x"
    and s: "save_item tnow ((updated_item inp x)\<lparr>it_updated_by := Some user, it_updated_at := now\<rparr>) ?e = Inr d'"
    using w by (auto simp: Let_def on_conflict_def simp del: ensureNoActiveDeletionForPaths.simps split: if_splits)
  have X: "x \<in> set (c_items d)" "item_active x"
    using x by (auto simp: find_visible_item_def visible_item_def dest!: find_SomeD)
  have ok: "catalog_ok d" using claim_heldD(1) [OF fence_stateD(1) [OF st]] .
  have one: "y = x" if "y \<in> set (c_items d)" "it_id y = it_id x" for y using same_row(2) [OF ok that(1) X(1) that(2)] .
  let ?h = "\<lambda>y. if it_id y = it_id x \<and> item_active y
    then (updated_item inp x)\<lparr>it_updated_by := Some user, it_updated_at := tnow, it_unit := it_unit y\<rparr> else y"
  have rows: "d' = ?e\<lparr>c_items := map ?h (c_items d)\<rparr>" "catalog_ok d'"
    using s by (auto simp: save_item_def sql_update_def)
  show "fence_state ids did worker org p root d' \<and> deletion_todo org p d' \<le> deletion_todo org p d"
    by (rule quiet_in_place [OF st rows(2), of "\<lambda>f. f" ?h "[]"])
      (use one X in \<open>auto simp: rows(1) item_active_def split: if_splits\<close>)
qed

lemma quiet_DeleteMetadataItem:
  "quiet_step ids did worker org p root d (snd (DeleteMetadataItem uid now tnow o' user iid d))"
  unfolding DeleteMetadataItem_def
proof (rule quiet_transaction)
  fix r d'
  assume st: "fence_state ids did worker org p root d"
    and w: "and_then (from_option ErrMetadataNotFound (find_visible_item o' iid d)) (\<lambda>x.
       and_then (from_option ErrMetadataNotFound (find_visible_folder o' (it_folder x) d)) (\<lambda>p.
       and_then (ensureNoActiveDeletionForPaths o' [fd_path p] d) (\<lambda>_.
       and_then (createDeletedLifecycleUnit uid o' user LifecycleResourceMetadata (it_id x) (fd_path p) None
                   (Some (fd_id p)) now tnow d) (\<lambda>d1.
       let mine = (\<lambda>y. it_id y = it_id x \<and> item_active y \<and> it_unit y = None) in
       and_then (on_items (sql_update mine
                   (\<lambda>y. y\<lparr>it_deleted_at := Some now, it_updated_by := Some user, it_unit := Some uid\<rparr>)) d1) (\<lambda>d2.
       if rows_affected mine (c_items d1) \<noteq> 1 then Inl ErrMetadataNotFound else Inr ((), d2)))))) = Inr (r, d')"
  obtain x :: item and f :: folder and d1 where u: "createDeletedLifecycleUnit uid o' user LifecycleResourceMetadata (it_id x) (fd_path f) None
        (Some (fd_id f)) now tnow d = Inr d1"
    and i: "on_items (sql_update (\<lambda>y. it_id y = it_id x \<and> item_active y \<and> it_unit y = None)
              (\<lambda>y. y\<lparr>it_deleted_at := Some now, it_updated_by := Some user, it_unit := Some uid\<rparr>)) d1 = Inr d'"
    using w by (auto simp: Let_def simp del: ensureNoActiveDeletionForPaths.simps on_table_Inr split: if_splits)
  let ?h = "\<lambda>y. if it_id y = it_id x \<and> item_active y \<and> it_unit y = None
    then y\<lparr>it_deleted_at := Some now, it_updated_by := Some user, it_unit := Some uid\<rparr> else y"
  obtain v where rows: "c_folders d' = map (\<lambda>f. f) (c_folders d)" "c_items d' = map ?h (c_items d) @ []"
    "c_units d' = c_units d @ [v]" "c_jobs d' = c_jobs d" "c_djobs d' = c_djobs d" "catalog_ok d'"
    using u i by (auto simp: createDeletedLifecycleUnit_def sql_update_def)
  show "fence_state ids did worker org p root d' \<and> deletion_todo org p d' \<le> deletion_todo org p d"
    by (rule quiet_in_place [OF st rows(6,4,5) _ rows(1) _ _ rows(2)])
      (auto simp: rows(3) item_active_def split: if_splits)
qed

lemma quiet_RestoreMetadataItem:
  "quiet_step ids did worker org p root d (snd (RestoreMetadataItem tnow o' user iid d))"
  unfolding RestoreMetadataItem_def
proof (rule quiet_transaction)
  fix r d' let ?e = "ensure_user user d"
  assume st: "fence_state ids did worker org p root d"
    and w: "(let d = ?e in
       and_then (from_option ErrMetadataNotFound (find (\<lambda>x. it_id x = iid \<and> item_in_org d o' x) (c_items d))) (\<lambda>x.
       if item_active x then Inl ErrMetadataNotDeleted
       else
         and_then (map_error (\<lambda>e. if e = ErrFolderParentDeleted then ErrMetadataFolderDeleted else e)
                     (lockedVisibleParentByID o' (it_folder x) d)) (\<lambda>parent.
         and_then (ensureNoActiveDeletionForPaths o' [fd_path parent] d) (\<lambda>_.
         if has_external_identity x
            \<and> sql_exists (\<lambda>y. external_conflict x y \<and> item_in_org d o' y \<and> visible_item d y) (c_items d)
         then Inl ErrMetadataConflict
         else
           let title = nextAvailableDisplayValue (it_title x) (activeMetadataTitles o' (it_folder x) (it_id x) d) in
           and_then (on_items (sql_update (\<lambda>y. it_id y = it_id x \<and> \<not> item_active y) (restored_item title (Some user) tnow)) d) (\<lambda>d1.
           and_then (completeLifecycleRestore o' LifecycleResourceMetadata (it_id x) d1) (\<lambda>d2.
           and_then (from_option ErrNoRecord (find_visible_item o' (it_id x) d2)) (\<lambda>y. Inr (y, d2)))))))) = Inr (r, d')"
  obtain x f title d1 where x: "find (\<lambda>x. it_id x = iid \<and> item_in_org ?e o' x) (c_items ?e) = Some x"
    and f: "find_visible_folder o' (it_folder x) ?e = Some f"
    and fence: "ensureNoActiveDeletionForPaths o' [fd_path f] ?e = Inr ()"
    and d1: "on_items (sql_update (\<lambda>y. it_id y = it_id x \<and> \<not> item_active y) (restored_item title (Some user) tnow)) ?e = Inr d1"
    and d2: "completeLifecycleRestore o' LifecycleResourceMetadata (it_id x) d1 = Inr d'"
    using w by (auto simp: Let_def lockedVisibleParentByID_def
        simp del: on_table_Inr ensureNoActiveDeletionForPaths.simps split: if_splits)
  have X: "x \<in> set (c_items d)" using find_SomeD [OF x] by auto
  note F = find_visible_folderD [OF f, simplified]
  have ok: "catalog_ok d" using claim_heldD(1) [OF fence_stateD(1) [OF st]] .
  have one: "y = x" if "y \<in> set (c_items d)" "it_id y = it_id x" for y using same_row(2) [OF ok that(1) X that(2)] .
  have out: "\<not> subtree_folder org p f"
    by (rule fence_outside(1) [OF st, of _ ?e]) (use fence F in simp_all)
  have nb: "\<not> item_below d org p x" by (rule item_visible_folder [OF st X _ _ out]) (use F in simp_all)
  let ?h = "\<lambda>y. if it_id y = it_id x \<and> \<not> item_active y then restored_item title (Some user) tnow y else y"
  have rows: "c_folders d' = map (\<lambda>f. f) (c_folders d)" "c_items d' = map ?h (c_items d) @ []"
    "c_units d' = sql_update (\<lambda>u. lu_org u = o' \<and> lu_type u = LifecycleResourceMetadata \<and> lu_root u = it_id x
        \<and> lu_state u = LifecycleDeleted) (\<lambda>u. u\<lparr>lu_state := LifecycleRestored\<rparr>) (c_units d)"
    "c_jobs d' = c_jobs d" "c_djobs d' = c_djobs d" "catalog_ok d'"
    using d1 d2 by (auto simp: completeLifecycleRestore_def sql_update_def)
  show "fence_state ids did worker org p root d' \<and> deletion_todo org p d' \<le> deletion_todo org p d"
    by (rule quiet_in_place [OF st rows(6,4,5) _ rows(1) _ _ rows(2)])
      (use one nb in \<open>auto simp: rows(3) restored_item_def sql_update_def image_iff split: if_splits\<close>)
qed

text \<open>In a forest every prefix of a stored path is the path of a folder.\<close>

lemma forest_prefix:
  assumes "forest_rows fs"
  shows "f \<in> set fs \<Longrightarrow> fd_path f = q @ r \<Longrightarrow> q \<noteq> [] \<Longrightarrow> \<exists>g\<in>set fs. fd_org g = fd_org f \<and> fd_path g = q"
proof (induction r arbitrary: f rule: rev_induct)
  case (snoc x r)
  then have b: "butlast (fd_path f) = q @ r" by (simp add: butlast_append)
  then obtain g where g: "g \<in> set fs" "fd_org g = fd_org f" "fd_path g = q @ r"
    using forest_rowsD(3) [OF assms snoc.prems(1)] snoc.prems(3) by auto
  then show ?case using snoc.IH [OF g(1,3) snoc.prems(3)] by simp
qed auto

lemma quiet_CreateFolder:
  assumes inj: "inj_on segment_of ids" and fid: "fid \<in> ids"
  shows "quiet_step ids did worker org p root d (snd (CreateFolder fid o' user inp d))"
  unfolding CreateFolder_def
proof (rule quiet_transaction)
  fix r d' let ?e = "EnsureRefs user o' d"
  assume st: "fence_state ids did worker org p root d"
    and w: "(let d = ?e in
       and_then (ltree_of (case cf_parent_path inp of None \<Rightarrow> [] | Some p \<Rightarrow> p)) (\<lambda>parent.
       and_then (if parent = [] then Inr ()
                 else and_then (from_option ErrFolderNotFound (find_visible_path o' parent d)) (\<lambda>_. Inr ())) (\<lambda>_.
       and_then (ensureNoActiveDeletionForPaths o' [parent] d) (\<lambda>_.
       if sql_exists (sibling_named o' parent (cf_name inp)) (c_folders d) then Inl ErrFolderConflict
       else
         let f = new_folder_row fid o' user parent inp in
         and_then (on_conflict ErrFolderConflict (on_folders (\<lambda>fs. fs @ [f]) d)) (\<lambda>d1. Inr (f, d1)))))) = Inr (r, d')"
  obtain q where q: "q = [] \<or> (\<exists>f\<in>set (c_folders d). fd_org f = o' \<and> fd_path f = q)"
    and fence: "ensureNoActiveDeletionForPaths o' [q] ?e = Inr ()"
    and d': "d' = ?e\<lparr>c_folders := c_folders d @ [new_folder_row fid o' user q inp]\<rparr>" "catalog_ok d'"
    using w
    by (auto simp: Let_def on_conflict_def find_visible_path_def simp del: ensureNoActiveDeletionForPaths.simps
        split: if_splits dest!: find_SomeD)
  let ?f = "new_folder_row fid o' user q inp"
  have ok: "catalog_ok d" using claim_heldD(1) [OF fence_stateD(1) [OF st]] .
  have fr: "forest_rows (c_folders d)" using fence_stateD(2) [OF st] by (simp add: forest_def)
  have F: "fd_id ?f = fid" "fd_org ?f = o'" "fd_path ?f = q @ [segment_of fid]" by (simp_all add: new_folder_row_def)
  have new: "fid \<notin> fd_id ` set (c_folders d)" using distinct_ids(1) [OF d'(2)] by (simp add: d'(1) F)
  have ids: "fd_id ` set (c_folders d) \<subseteq> ids" by (rule fence_stateD(3) [OF st])
  then have lab: "segment_of fid \<notin> (\<lambda>f. segment_of (fd_id f)) ` set (c_folders d)"
    using new inj fid unfolding inj_on_def by blast
  have root: "\<exists>f\<in>set (c_folders d). fd_id f = root \<and> fd_org f = org \<and> fd_path f = p"
    by (rule claim_heldD(3) [OF fence_stateD(1) [OF st]])
  then have p: "p \<noteq> []" "last p \<noteq> segment_of fid" using forest_rowsD(1,2) [OF fr] lab by (blast, metis image_eqI)
  have out: "\<not> subtree_folder org p ?f"
  proof
    assume sub: "subtree_folder org p ?f"
    then have o': "o' = org" and "below (q @ [segment_of fid]) p" by (simp_all add: subtree_folder_def F)
    then have "below q p" using p by (auto simp: below_def)
    moreover from this have "q \<noteq> []" using p(1) by (auto simp: below_def)
    ultimately show False using fence_refuses(1) [OF fence_stateD(1) [OF st] _ fence [unfolded o']] o' by simp
  qed
  have "claim_held did worker org p root d'"
    by (rule claim_held_kept [OF fence_stateD(1) [OF st] d'(2)]) (auto simp: d'(1))
  moreover have "forest d'"
  proof -
    have "parent_path_exists (c_folders d @ [?f]) f" if "parent_path_exists (c_folders d) f" for f
      using that by (auto simp: parent_path_exists_def list_ex_iff)
    moreover have "parent_path_exists (c_folders d @ [?f]) ?f"
      using q by (auto simp: parent_path_exists_def list_ex_iff F)
    ultimately show ?thesis using fr lab by (auto simp: forest_def forest_rows_def list_all_iff d'(1) F)
  qed
  moreover have "fd_id ` set (c_folders d') \<subseteq> ids" using ids fid by (auto simp: d'(1) F)
  moreover have "deletion_todo org p d' \<le> deletion_todo org p d"
    by (rule deletion_todo_le [OF ok d'(2), of "\<lambda>f. f" "[?f]" "\<lambda>x. x" "[]"]) (use out in \<open>auto simp: d'(1)\<close>)
  ultimately show "fence_state ids did worker org p root d' \<and> deletion_todo org p d' \<le> deletion_todo org p d"
    by (simp add: fence_state_def)
qed

text \<open>Neither the moved folder nor its destination overlaps the root, so no row comes to lie below it.\<close>

lemma quiet_MoveFolder: "quiet_step ids did worker org p root d (snd (MoveFolder o' user fid dest d))"
  unfolding MoveFolder_def
proof (rule quiet_transaction)
  fix r d' let ?e = "EnsureRefs user o' d"
  assume st: "fence_state ids did worker org p root d"
    and w: "(let d = ?e in
       and_then (from_option ErrFolderNotFound (find_visible_folder o' fid d)) (\<lambda>f.
       and_then (ensureNoActiveDeletionForPaths o' [fd_path f] d) (\<lambda>_.
       and_then (move_target o' dest f d) (\<lambda>destPath.
       let newPath = destPath @ [segment_of (fd_id f)] in
       if fd_path f = newPath then Inr ((f, False), d)
       else if sql_exists (\<lambda>g. sibling_named o' destPath (fd_name f) g \<and> fd_id g \<noteq> fd_id f) (c_folders d)
       then Inl ErrFolderConflict
       else
         and_then (on_conflict ErrFolderConflict (on_folders (move_rows o' user (fd_path f) newPath) d)) (\<lambda>d1.
         and_then (from_option ErrNoRecord (find (\<lambda>g. fd_id g = fd_id f \<and> fd_org g = o' \<and> folder_active g) (c_folders d1)))
           (\<lambda>g. Inr ((g, True), d1))))))) = Inr (r, d')"
  obtain f q where f: "find_visible_folder o' fid ?e = Some f"
    and fence: "ensureNoActiveDeletionForPaths o' [fd_path f] ?e = Inr ()"
    and q: "move_target o' dest f ?e = Inr q"
    and res: "d' = ?e \<or> fd_path f \<noteq> q @ [segment_of (fd_id f)]
      \<and> on_folders (move_rows o' user (fd_path f) (q @ [segment_of (fd_id f)])) ?e = Inr d'"
    using w by (auto simp: Let_def on_conflict_def simp del: ensureNoActiveDeletionForPaths.simps on_table_Inr split: if_splits)
  note F = find_visible_folderD [OF f, simplified]
  have cl: "claim_held did worker org p root d" and fo: "forest d" by (rule fence_stateD [OF st])+
  have ok: "catalog_ok d" by (rule claim_heldD(1) [OF cl])
  have fr: "forest_rows (c_folders d)" using fo by (simp add: forest_def)
  from res show "fence_state ids did worker org p root d' \<and> deletion_todo org p d' \<le> deletion_todo org p d"
  proof
    assume "d' = ?e"
    moreover have "catalog_ok ?e" by (rule catalog_ok_EnsureRefs [OF ok])
    ultimately show ?thesis
      by (intro quiet_in_place [OF st, of d' "\<lambda>f. f" "\<lambda>x. x" "[]"]) simp_all
  next
    assume mv: "fd_path f \<noteq> q @ [segment_of (fd_id f)]
      \<and> on_folders (move_rows o' user (fd_path f) (q @ [segment_of (fd_id f)])) ?e = Inr d'"
    let ?new = "q @ [segment_of (fd_id f)]"
    let ?m = "move_row o' user (fd_path f) ?new"
    have rows: "d' = ?e\<lparr>c_folders := map ?m (c_folders d)\<rparr>" "catalog_ok d'" using mv by (auto simp: move_rows_map)
    have out: "\<not> subtree_folder org p f" "fd_org f = org \<Longrightarrow> \<not> below p (fd_path f)"
      by (rule fence_outside [OF st, of _ ?e], use fence F in simp_all)+
    have to: "q = [] \<or> (\<exists>g\<in>set (c_folders d). fd_org g = o' \<and> fd_path g = q \<and> q \<noteq> [] \<and> \<not> below q (fd_path f))"
      using move_target_Inr [OF _ q] fo by auto
    have dest: "ensureNoActiveDeletionForPaths o' [q] ?e = Inr ()" if "q \<noteq> []"
      using q that by (auto simp: move_target_def simp del: ensureNoActiveDeletionForPaths.simps split: option.splits if_splits)
    obtain t where t: "t \<in> set (c_folders d)" "fd_id t = root" "fd_org t = org" "fd_path t = p"
      using claim_heldD(3) [OF cl] by blast
    have p: "p \<noteq> []" using forest_rowsD(1) [OF fr t(1)] t(4) by simp
    have apart: "\<not> below (?new @ s) p" if o': "o' = org" for s
    proof
      assume b: "below (?new @ s) p"
      show False
      proof (cases "q = []")
        case True
        then obtain p' where "p = [segment_of (fd_id f)] @ p'" using b p by (cases p) (auto simp: below_def)
        then obtain g where g: "g \<in> set (c_folders d)" "fd_path g = [segment_of (fd_id f)]"
          using forest_prefix [OF fr t(1), of "[segment_of (fd_id f)]" p'] t(4) by auto
        then have "segment_of (fd_id g) = segment_of (fd_id f)" using forest_rowsD(2) [OF fr g(1)] by simp
        then have "g = f" using g(1) F fr distinct_map_eq [of "\<lambda>f. segment_of (fd_id f)" "c_folders d" g f]
          by (auto simp: forest_rows_def)
        with g(2) mv True show False by simp
      next
        case False
        then have "below q p \<or> below p q" using b by (auto simp: below_def prefix_append)
        moreover have "\<not> below q p" "\<not> below p q"
          using fence_refuses [OF cl _ dest [OF False, unfolded o'] False] o' by simp_all
        ultimately show False by blast
      qed
    qed
    have sub: "subtree_folder org p g" if "subtree_folder org p (?m g)" for g
    proof (cases "fd_org g = o' \<and> below (fd_path g) (fd_path f)")
      case True
      then have "fd_path (?m g) = ?new @ drop (length (fd_path f)) (fd_path g)" unfolding fd_path_move_row by (rule if_P)
      with that True apart show ?thesis by (auto simp: subtree_folder_def)
    next
      case False
      then have "?m g = g" by (auto simp: move_row_def)
      with that show ?thesis by simp
    qed
    have root: "?m g = g" if "g \<in> set (c_folders d)" "fd_org g = org" "fd_path g = p" for g
      using out(2) that F by (auto simp: move_row_def)
    have "claim_held did worker org p root d'"
    proof (rule claim_held_kept [OF cl rows(2)])
      fix g assume "g \<in> set (c_folders d)" "fd_id g = root" "fd_org g = org" "fd_path g = p"
      then show "\<exists>h\<in>set (c_folders d'). fd_id h = root \<and> fd_org h = org \<and> fd_path h = p"
        using root [of g] by (intro bexI [of _ g]) (simp_all add: rows(1), metis image_eqI)
    qed (simp_all add: rows(1))
    moreover have "forest d'"
      using forest_move(1) [OF fr, of f o' q user] F to by (auto simp: forest_def rows(1))
    moreover have "fd_id ` set (c_folders d') \<subseteq> ids" using fence_stateD(3) [OF st] by (auto simp: rows(1))
    moreover have "deletion_todo org p d' \<le> deletion_todo org p d"
      by (rule deletion_todo_le [OF ok rows(2), of ?m "[]" "\<lambda>x. x" "[]"]) (use sub in \<open>auto simp: rows(1) folder_active_def\<close>)
    ultimately show ?thesis by (simp add: fence_state_def)
  qed
qed

text \<open>The direct writes of the service, with any arguments; a new folder gets one of the identifiers.\<close>

inductive request_write :: "string set \<Rightarrow> catalog \<Rightarrow> catalog \<Rightarrow> bool" for ids where
  create_folder: "fid \<in> ids \<Longrightarrow> request_write ids d (snd (CreateFolder fid o' user inp d))"
| update_folder: "request_write ids d (snd (UpdateFolder o' user fid upd d))"
| move_folder: "request_write ids d (snd (MoveFolder o' user fid dest d))"
| delete_folder: "request_write ids d (snd (DeleteFolder uid now tnow o' user fid d))"
| restore_folder: "request_write ids d (snd (RestoreFolder o' user fid d))"
| create_item: "request_write ids d (snd (CreateMetadataItem iid now o' user new d))"
| update_item: "request_write ids d (snd (UpdateMetadataItem now tnow o' user iid change d))"
| delete_item: "request_write ids d (snd (DeleteMetadataItem uid now tnow o' user iid d))"
| restore_item: "request_write ids d (snd (RestoreMetadataItem tnow o' user iid d))"

lemma request_write_quiet:
  assumes "inj_on segment_of ids" "request_write ids d d'"
  shows "quiet_step ids did worker org p root d d'"
  using assms(2)
  by cases (simp_all only: quiet_CreateFolder [OF assms(1)] quiet_UpdateFolder quiet_MoveFolder quiet_DeleteFolder
      quiet_RestoreFolder quiet_CreateMetadataItem quiet_UpdateMetadataItem quiet_DeleteMetadataItem quiet_RestoreMetadataItem)

section \<open>The run among other requests\<close>

text \<open>What other processes do between two batches: any number of direct writes and of other quiet steps.\<close>

definition fenced_others ::
  "string set \<Rightarrow> (nat \<Rightarrow> catalog \<Rightarrow> catalog) \<Rightarrow> string \<Rightarrow> string \<Rightarrow> string \<Rightarrow> ltree \<Rightarrow> string \<Rightarrow> bool" where
  "fenced_others ids others did worker org p root \<longleftrightarrow>
     (\<forall>i d. (\<lambda>a b. request_write ids a b \<or> quiet_step ids did worker org p root a b)\<^sup>*\<^sup>* d (others i d))"

lemma fenced_others_quiet:
  assumes "inj_on segment_of ids" "fenced_others ids others did worker org p root"
  shows "quiet_step ids did worker org p root d (others i d)"
proof -
  have "(\<lambda>a b. request_write ids a b \<or> quiet_step ids did worker org p root a b)\<^sup>*\<^sup>* d (others i d)"
    using assms(2) by (simp add: fenced_others_def)
  then show ?thesis
  proof (induction rule: rtranclp_induct)
    case (step b c)
    then show ?case using quiet_trans request_write_quiet [OF assms(1)] by blast
  qed simp
qed

lemma round_shape:
  assumes "catalog_ok (others i d)" "deletion_round env others did worker i d = (Inr fin, d')"
  shows "shape d' = shape (others i d)"
proof -
  obtain closed where "batch_work (env i) did worker (others i d) = Inr ((fin, closed), d')"
    by (rule deletion_round_batch [OF assms(2)])
  from batch_rows [OF assms(1) this] obtain j k unit g h where
    "batch_wrote did worker (others i d) d' j k unit g h" by blast
  then have "tree_map g" "c_folders d' = map g (c_folders (others i d))" by (auto simp: batch_wrote_def)
  then show ?thesis by (simp add: shape_def tree_mapD)
qed

lemma fenced_round:
  assumes inj: "inj_on segment_of ids" and un: "unlocked (env i)" and q: "fenced_others ids others did worker org p root"
    and st: "fence_state ids did worker org p root d"
  shows "\<exists>fin d'. deletion_round env others did worker i d = (Inr fin, d')
    \<and> (if fin then deletion_settled org p root did d'
       else fence_state ids did worker org p root d' \<and> deletion_todo org p d' < deletion_todo org p d)"
proof -
  have s1: "fence_state ids did worker org p root (others i d)" and le: "deletion_todo org p (others i d) \<le> deletion_todo org p d"
    using fenced_others_quiet [OF inj q, of d i] st by (simp_all add: quiet_step_def)
  obtain fin d' where r: "deletion_round env others did worker i d = (Inr fin, d')"
    and res: "if fin then deletion_settled org p root did d'
       else claim_held did worker org p root d' \<and> deletion_todo org p d' < deletion_todo org p (others i d)"
    using deletion_round_step [where env = env and others = others and i = i and d = d, OF un fence_stateD(1) [OF s1]] by blast
  note sh = round_shape [OF claim_heldD(1) [OF fence_stateD(1) [OF s1]] r]
  have "fd_id ` set (c_folders d') = fd_id ` set (c_folders (others i d))"
    using shape_set [OF sh] by (metis (mono_tags, lifting) fst_conv image_cong image_image)
  then have "forest d'" "fd_id ` set (c_folders d') \<subseteq> ids"
    using fence_stateD(2,3) [OF s1] forest_shape [OF sh] by simp_all
  then show ?thesis using r res le by (auto simp: fence_state_def)
qed

interpretation deletion_run: bounded_batches "deletion_round env others did worker"
  "\<lambda>i d. inj_on segment_of ids \<and> (\<forall>n. unlocked (env n)) \<and> fenced_others ids others did worker org p root
     \<and> fence_state ids did worker org p root d"
  "deletion_todo org p" "deletion_settled org p root did"
  for env others did worker org p root ids
proof
  fix i d
  assume r: "inj_on segment_of ids \<and> (\<forall>n. unlocked (env n)) \<and> fenced_others ids others did worker org p root
     \<and> fence_state ids did worker org p root d"
  note st = fenced_round [of ids env i others did worker org p root d]
  show "\<exists>fin d'. deletion_round env others did worker i d = (Inr fin, d')" using st r by blast
  show "(inj_on segment_of ids \<and> (\<forall>n. unlocked (env n)) \<and> fenced_others ids others did worker org p root
      \<and> fence_state ids did worker org p root d') \<and> deletion_todo org p d' < deletion_todo org p d"
    if "deletion_round env others did worker i d = (Inr False, d')" for d'
    using st r that by auto
  show "deletion_settled org p root did d'" if "deletion_round env others did worker i d = (Inr True, d')" for d'
    using st r that by auto
qed

text \<open>C9: A worker that holds its claim finishes: with no row locked by others, the endless loop of
  \<open>ProcessFolderDeletionJob\<close> returns without an error, and then no folder and no item of the subtree is active,
  both rows of the job say SUCCEEDED and the unit is in the recycle bin with a retention limit. Between two batches
  any number of requests may create, rename, move, delete and restore folders and items with any arguments: the
  fence keeps them out of the subtree. Other processes may also take any further step that leaves the claim and
  the tree alone and adds no active row below the root (the import is the one write of the service that may).
  Stored paths form a forest, and no two identifiers share a label, as UUIDs do.
\<close>

theorem deletion_run_completes:
  assumes "\<forall>n. unlocked (env n)" "inj_on segment_of ids" "fenced_others ids others did worker org p root"
    and "fence_state ids did worker org p root d"
  shows "\<exists>d'. ProcessFolderDeletionJob env others did worker d = Some (Inr (), d') \<and> deletion_settled org p root did d'"
  unfolding ProcessFolderDeletionJob_def by (rule deletion_run.returns) (use assms in blast)

text \<open>Between the batches somebody tries to create a folder below the root and creates another one beside it.\<close>

definition demo_new_folder :: "string \<Rightarrow> create_folder_input" where
  "demo_new_folder parent = \<lparr>cf_parent_path = Some parent, cf_name = ''new'', cf_description = None\<rparr>"

definition demo_requests :: "nat \<Rightarrow> catalog \<Rightarrow> catalog" where
  "demo_requests i d =
     snd (CreateFolder ''n'' ''org'' ''ann'' (demo_new_folder ''z'') (snd (CreateFolder ''m'' ''org'' ''ann'' (demo_new_folder ''a.b'') d)))"

lemma two_steps: "R a b \<Longrightarrow> R b c \<Longrightarrow> R\<^sup>*\<^sup>* a c"
  by (rule rtranclp.rtrancl_into_rtrancl [OF r_into_rtranclp])

lemma demo_fence_state: "fence_state {''a'', ''b'', ''z'', ''n'', ''m''} ''del'' ''w1'' ''org'' [''a''] ''a'' demo_catalog"
proof -
  have "forest demo_catalog" by code_simp
  then show ?thesis using demo_claim by (simp add: fence_state_def) (simp add: demo_catalog_def demo_folder_def)
qed

lemma deletion_run_completes_witness:
  "fst (CreateFolder ''m'' ''org'' ''ann'' (demo_new_folder ''a.b'') demo_catalog) \<noteq> fst (CreateFolder ''n'' ''org'' ''ann'' (demo_new_folder ''z'') demo_catalog)
   \<and> length (c_folders (demo_requests 0 demo_catalog)) = 4
   \<and> (\<exists>d'. ProcessFolderDeletionJob (\<lambda>_. demo_env) demo_requests ''del'' ''w1'' demo_catalog = Some (Inr (), d')
        \<and> deletion_settled ''org'' [''a''] ''a'' ''del'' d')"
proof -
  let ?ids = "{''a'', ''b'', ''z'', ''n'', ''m''}"
  have inj: "inj_on segment_of ?ids" by (simp add: segment_of_def)
  have oth: "fenced_others ?ids demo_requests ''del'' ''w1'' ''org'' [''a''] ''a''"
    unfolding fenced_others_def
  proof (intro allI)
    fix i :: nat and d
    let ?R = "\<lambda>a b. request_write ?ids a b \<or> quiet_step ?ids ''del'' ''w1'' ''org'' [''a''] ''a'' a b"
    let ?b = "snd (CreateFolder ''m'' ''org'' ''ann'' (demo_new_folder ''a.b'') d)"
    show "?R\<^sup>*\<^sup>* d (demo_requests i d)"
    proof (rule two_steps [where R = ?R and b = ?b])
      show "request_write ?ids d ?b \<or> quiet_step ?ids ''del'' ''w1'' ''org'' [''a''] ''a'' d ?b"
        by (rule disjI1, rule create_folder) simp
      show "request_write ?ids ?b (demo_requests i d) \<or> quiet_step ?ids ''del'' ''w1'' ''org'' [''a''] ''a'' ?b (demo_requests i d)"
        unfolding demo_requests_def by (rule disjI1, rule create_folder) simp
    qed
  qed
  have "\<exists>d'. ProcessFolderDeletionJob (\<lambda>_. demo_env) demo_requests ''del'' ''w1'' demo_catalog = Some (Inr (), d')
      \<and> deletion_settled ''org'' [''a''] ''a'' ''del'' d'"
    by (rule deletion_run_completes [OF _ inj oth demo_fence_state]) (simp add: unlocked_def demo_env_def)
  moreover have "case fst (CreateFolder ''m'' ''org'' ''ann'' (demo_new_folder ''a.b'') demo_catalog) of Inl _ \<Rightarrow> True | Inr _ \<Rightarrow> False"
    by code_simp
  moreover have "case fst (CreateFolder ''n'' ''org'' ''ann'' (demo_new_folder ''z'') demo_catalog) of Inl _ \<Rightarrow> False | Inr _ \<Rightarrow> True"
    by code_simp
  moreover have "length (c_folders (demo_requests 0 demo_catalog)) = 4"
    by code_simp
  ultimately show ?thesis by (auto split: sum.splits)
qed

end
