(* ===== verification/Outbox_Relay.thy ===== *)
theory Outbox_Relay
  imports Job_Store
begin

text \<open>
  The transactional outbox: the media outbox store (\<open>internal/repository/media_outbox_store.go\<close>) and
  the relay that publishes its rows (\<open>internal/eventing/outbox/relay.go\<close>), with the operator's replay
  entry point (\<open>outbox/replay.go\<close>). The relay is a function of the store's operations, whose contract
  is the locale \<open>outbox_contract\<close>, interpreted below on the media store. The broker is the list of the
  records that reached it; a publication that fails may have reached it all the same. Clock readings
  and what other processes do to the broker and the database between the relay's calls are arguments.
\<close>

section \<open>The store\<close>

record outbox_record =
  rec_event :: string
  rec_topic :: string
  rec_key :: string
  rec_payload :: json
  rec_attempts :: int
  rec_enqueued_at :: instant

record outbox_lease =
  ol_owner :: string
  ol_expires :: instant

record outbox_store =
  os_topic :: string
  os_ttl :: duration

definition defaultMediaOutboxLeaseTTL :: duration where
  "defaultMediaOutboxLeaseTTL = 30 * second"

definition NewMediaOutboxStore :: "string \<Rightarrow> duration \<Rightarrow> outbox_store result" where
  "NewMediaOutboxStore topic ttl =
     (if topic = [] then Inl (ErrOther ''media outbox topic is required'')
      else Inr \<lparr>os_topic = topic, os_ttl = (if ttl \<le> 0 then defaultMediaOutboxLeaseTTL else ttl)\<rparr>)"

definition outbox_claimable :: "instant \<Rightarrow> outbox_row \<Rightarrow> bool" where
  "outbox_claimable now x \<longleftrightarrow> unpublished x \<and> x_next_attempt x \<le> now
     \<and> (case x_lease_expires x of None \<Rightarrow> True | Some t \<Rightarrow> t \<le> now)"

definition claimed_ids :: "(string \<Rightarrow> bool) \<Rightarrow> nat \<Rightarrow> instant \<Rightarrow> db \<Rightarrow> string list" where
  "claimed_ids locked limit now db =
     map x_id (take limit (order_by (\<lambda>x. (x_created_at x, x_id x))
       (filter (\<lambda>x. outbox_claimable now x \<and> \<not> locked (x_id x)) (outbox db))))"

definition publishing_row :: "outbox_store \<Rightarrow> string \<Rightarrow> instant \<Rightarrow> outbox_row \<Rightarrow> outbox_row" where
  "publishing_row st owner now x =
     x\<lparr>x_status := OutboxPublishing, x_lease_owner := Some owner, x_lease_expires := Some (now + os_ttl st)\<rparr>"

definition record_of :: "outbox_store \<Rightarrow> outbox_row \<Rightarrow> outbox_record" where
  "record_of st x = \<lparr>rec_event = x_id x, rec_topic = os_topic st, rec_key = x_job x, rec_payload = x_payload x,
                    rec_attempts = x_attempts x, rec_enqueued_at = x_created_at x\<rparr>"

text \<open>A batch: its records (in table order) and the lease they share.\<close>

definition Claim ::
  "outbox_store \<Rightarrow> (string \<Rightarrow> bool) \<Rightarrow> (string \<Rightarrow> bool) \<Rightarrow> instant \<Rightarrow> string \<Rightarrow> int \<Rightarrow> db
   \<Rightarrow> (outbox_record list \<times> outbox_lease) result \<times> db"
where
  "Claim st isUUID locked now owner limit db =
     (if owner = [] then (Inl (ErrOther ''media outbox claim requires a lease owner''), db)
      else if limit \<le> 0 then (Inr ([], \<lparr>ol_owner = [], ol_expires = 0\<rparr>), db)
      else
        let ids = claimed_ids locked (nat limit) now db;
            db' = db\<lparr>outbox := sql_update (\<lambda>x. x_id x \<in> set ids) (publishing_row st owner now) (outbox db)\<rparr>;
            rows = filter (\<lambda>x. x_id x \<in> set ids) (outbox db') in
        if rows = [] then (Inr ([], \<lparr>ol_owner = [], ol_expires = 0\<rparr>), db')
        else if \<not> list_all (\<lambda>x. isUUID (x_id x)) rows
          then (Inl (ErrOther ''media outbox row has an unusable event ID''), db')
        else (Inr (map (record_of st) rows, \<lparr>ol_owner = owner, ol_expires = now + os_ttl st\<rparr>), db'))"

definition holds_outbox :: "string \<Rightarrow> outbox_lease \<Rightarrow> instant \<Rightarrow> outbox_row \<Rightarrow> bool" where
  "holds_outbox event lease now x \<longleftrightarrow> x_id x = event \<and> x_status x = OutboxPublishing
     \<and> x_lease_owner x = Some (ol_owner lease) \<and> x_lease_expires x = Some (ol_expires lease)
     \<and> now < ol_expires lease"

definition published_row :: "instant \<Rightarrow> outbox_row \<Rightarrow> outbox_row" where
  "published_row at x =
     x\<lparr>x_status := OutboxPublished, x_published_at := Some at, x_lease_owner := None, x_lease_expires := None\<rparr>"

definition MarkPublished :: "string \<Rightarrow> outbox_lease \<Rightarrow> instant \<Rightarrow> instant \<Rightarrow> db \<Rightarrow> bool result \<times> db" where
  "MarkPublished event lease at now db =
     (Inr (rows_affected (holds_outbox event lease now) (outbox db) = 1),
      db\<lparr>outbox := sql_update (holds_outbox event lease now) (published_row at) (outbox db)\<rparr>)"

definition maxErrorCodeLength :: nat where "maxErrorCodeLength = 64"

definition truncateErrorCode :: "string \<Rightarrow> string" where
  "truncateErrorCode code = take maxErrorCodeLength code"

definition rescheduled_row :: "instant \<Rightarrow> int \<Rightarrow> string \<Rightarrow> outbox_row \<Rightarrow> outbox_row" where
  "rescheduled_row due attempts code x =
     x\<lparr>x_status := OutboxPending, x_next_attempt := due, x_attempts := attempts,
       x_last_error := Some (truncateErrorCode code), x_lease_owner := None, x_lease_expires := None\<rparr>"

definition Reschedule ::
  "string \<Rightarrow> outbox_lease \<Rightarrow> instant \<Rightarrow> int \<Rightarrow> string \<Rightarrow> instant \<Rightarrow> db \<Rightarrow> bool result \<times> db"
where
  "Reschedule event lease due attempts code now db =
     (let c = holds_outbox event lease now in
      if \<not> list_all (\<lambda>x. c x \<longrightarrow> outbox_check (rescheduled_row due attempts code x)) (outbox db)
      then (Inl check_violation, db)
      else (Inr (rows_affected c (outbox db) = 1),
            db\<lparr>outbox := sql_update c (rescheduled_row due attempts code) (outbox db)\<rparr>))"

section \<open>The relay\<close>

record relay_options =
  ro_owner :: string
  ro_batch :: int
  ro_base_backoff :: duration
  ro_max_backoff :: duration
  ro_lease_margin :: duration

definition withDefaults :: "relay_options \<Rightarrow> relay_options" where
  "withDefaults o' =
     o'\<lparr>ro_batch := (if ro_batch o' \<le> 0 then 50 else ro_batch o'),
       ro_base_backoff := (if ro_base_backoff o' \<le> 0 then 250 * millisecond else ro_base_backoff o'),
       ro_max_backoff := (if ro_max_backoff o' \<le> 0 then 30 * second else ro_max_backoff o'),
       ro_lease_margin := (if ro_lease_margin o' \<le> 0 then 5 * second else ro_lease_margin o')\<rparr>"

text \<open>The loop of \<open>backoffFor\<close>, then its cap, before the jitter is applied.\<close>

fun backoff_loop :: "nat \<Rightarrow> duration \<Rightarrow> duration \<Rightarrow> duration" where
  "backoff_loop 0 maxBackoff backoff = backoff"
| "backoff_loop (Suc n) maxBackoff backoff =
     (if backoff < maxBackoff then backoff_loop n maxBackoff (wrap64 (backoff * 2)) else backoff)"

definition raw_backoff :: "relay_options \<Rightarrow> int \<Rightarrow> duration" where
  "raw_backoff opts attemptCount =
     min (backoff_loop (nat attemptCount) (ro_max_backoff opts) (ro_base_backoff opts)) (ro_max_backoff opts)"

text \<open>The default jitter: half the backoff and a random part of at most the other half.\<close>

definition jitter :: "(duration \<Rightarrow> duration) \<Rightarrow> duration \<Rightarrow> duration" where
  "jitter rand backoff = backoff div 2 + rand (backoff div 2 + 1)"

definition backoffFor :: "relay_options \<Rightarrow> (duration \<Rightarrow> duration) \<Rightarrow> int \<Rightarrow> duration" where
  "backoffFor opts rand attemptCount = jitter rand (raw_backoff opts attemptCount)"

definition leaseTooShort :: "relay_options \<Rightarrow> instant \<Rightarrow> instant \<Rightarrow> bool" where
  "leaseTooShort opts now expires =
     (if is_zero_time expires then False else \<not> now + ro_lease_margin opts < expires)"

datatype publish_failure = DeadlineExceeded | Canceled | OtherFailure

datatype publish_outcome = Acknowledged | NotAcknowledged publish_failure bool

fun transportErrorCode :: "publish_failure \<Rightarrow> string" where
  "transportErrorCode DeadlineExceeded = ''PUBLISH_TIMEOUT''"
| "transportErrorCode Canceled = ''PUBLISH_CANCELED''"
| "transportErrorCode OtherFailure = ''PUBLISH_FAILED''"

text \<open>
  What the relay observes while it handles one record of a batch, with what other processes (further
  relays among them) do to the broker and to the database before its publication and between the
  publication and its own next write.
\<close>

record 's tick =
  tk_check :: instant
  tk_now :: instant
  tk_db_now :: instant
  tk_rand :: "duration \<Rightarrow> duration"
  tk_publish :: publish_outcome
  tk_before :: "outbox_record list \<times> 's \<Rightarrow> outbox_record list \<times> 's"
  tk_between :: "outbox_record list \<times> 's \<Rightarrow> outbox_record list \<times> 's"

type_synonym 's mark_op = "string \<Rightarrow> outbox_lease \<Rightarrow> instant \<Rightarrow> instant \<Rightarrow> 's \<Rightarrow> bool result \<times> 's"
type_synonym 's reschedule_op =
  "string \<Rightarrow> outbox_lease \<Rightarrow> instant \<Rightarrow> int \<Rightarrow> string \<Rightarrow> instant \<Rightarrow> 's \<Rightarrow> bool result \<times> 's"

definition reached_broker :: "publish_outcome \<Rightarrow> bool" where
  "reached_broker p = (case p of Acknowledged \<Rightarrow> True | NotAcknowledged _ b \<Rightarrow> b)"

fun drain_loop ::
  "'s mark_op \<Rightarrow> 's reschedule_op \<Rightarrow> relay_options \<Rightarrow> (nat \<Rightarrow> 's tick) \<Rightarrow> outbox_lease \<Rightarrow> nat
   \<Rightarrow> outbox_record list \<Rightarrow> nat \<Rightarrow> outbox_record list \<Rightarrow> 's
   \<Rightarrow> (nat \<times> media_error option) \<times> outbox_record list \<times> 's"
where
  "drain_loop mark resched opts tick lease i [] settled broker s = ((settled, None), broker, s)"
| "drain_loop mark resched opts tick lease i (r # rs) settled broker s =
     (let k = tick i in
      if leaseTooShort opts (tk_check k) (ol_expires lease) then ((settled, None), broker, s)
      else
        let (b0, s0) = tk_before k (broker, s);
            b1 = (if reached_broker (tk_publish k) then b0 @ [r] else b0);
            (broker', s1) = tk_between k (b1, s0) in
        (case tk_publish k of
           NotAcknowledged why _ \<Rightarrow>
             (case resched (rec_event r) lease (tk_now k + backoffFor opts (tk_rand k) (rec_attempts r))
                     (rec_attempts r + 1) (transportErrorCode why) (tk_db_now k) s1 of
                (Inl e, s') \<Rightarrow> ((settled, Some e), broker', s')
              | (Inr updated, s') \<Rightarrow>
                  if \<not> updated then ((settled, Some ErrLeaseLost), broker', s')
                  else drain_loop mark resched opts tick lease (Suc i) rs settled broker' s')
         | Acknowledged \<Rightarrow>
             (case mark (rec_event r) lease (tk_now k) (tk_db_now k) s1 of
                (Inl e, s') \<Rightarrow> ((settled, Some (ErrOther ''outbox row not updated after broker acknowledgement'')), broker', s')
              | (Inr updated, s') \<Rightarrow>
                  if \<not> updated then ((settled, Some ErrLeaseLost), broker', s')
                  else drain_loop mark resched opts tick lease (Suc i) rs (settled + 1) broker' s')))"

text \<open>One drain over the claim of the store.\<close>

definition DrainOnce ::
  "'s mark_op \<Rightarrow> 's reschedule_op \<Rightarrow> (string \<Rightarrow> int \<Rightarrow> 's \<Rightarrow> (outbox_record list \<times> outbox_lease) result \<times> 's)
   \<Rightarrow> relay_options \<Rightarrow> (nat \<Rightarrow> 's tick) \<Rightarrow> outbox_record list \<Rightarrow> 's
   \<Rightarrow> (nat \<times> media_error option) \<times> outbox_record list \<times> 's"
where
  "DrainOnce mark resched claim opts tick broker s =
     (case claim (ro_owner opts) (ro_batch opts) s of
        (Inl e, s') \<Rightarrow> ((0, Some e), broker, s')
      | (Inr (rs, lease), s') \<Rightarrow>
          if rs \<noteq> [] \<and> is_zero_time (ol_expires lease)
            then ((0, Some (ErrOther ''claimed outbox batch has no lease expiry'')), broker, s')
          else if rs \<noteq> [] \<and> ol_owner lease \<noteq> ro_owner opts
            then ((0, Some (ErrOther ''claimed outbox batch belongs to a different lease owner'')), broker, s')
          else drain_loop mark resched opts tick lease 0 rs 0 broker s')"

section \<open>The contract of a store\<close>

text \<open>
  A step of anybody on the broker and a store is fair when it only adds records to the broker and
  records as published no event whose record has not reached the broker. A relay that has published a
  record earlier may mark it now, and rows may be removed.
\<close>

definition relay_fair ::
  "('s \<Rightarrow> bool) \<Rightarrow> ('s \<Rightarrow> string set) \<Rightarrow> outbox_record list \<times> 's \<Rightarrow> outbox_record list \<times> 's \<Rightarrow> bool"
where
  "relay_fair ok published w w' \<longleftrightarrow> (ok (snd w) \<longrightarrow> ok (snd w') \<and> (\<exists>new. fst w' = fst w @ new)
     \<and> published (snd w') \<subseteq> published (snd w) \<union> rec_event ` set (fst w'))"

text \<open>A step that never takes an event back that is recorded as published.\<close>

definition keeps_event ::
  "('s \<Rightarrow> bool) \<Rightarrow> ('s \<Rightarrow> string set) \<Rightarrow> string \<Rightarrow> (outbox_record list \<times> 's \<Rightarrow> outbox_record list \<times> 's) \<Rightarrow> bool"
where
  "keeps_event ok published ev f \<longleftrightarrow>
     (\<forall>w. ok (snd w) \<and> ev \<in> published (snd w) \<longrightarrow> ev \<in> published (snd (f w)))"

text \<open>The records of the batch that a claim answered.\<close>

definition claimed_batch :: "(outbox_record list \<times> outbox_lease) result \<Rightarrow> outbox_record list" where
  "claimed_batch r = (case r of Inl _ \<Rightarrow> [] | Inr (rs, _) \<Rightarrow> rs)"

lemma relay_fair_refl [simp]: "relay_fair ok published w w"
  by (simp add: relay_fair_def)

lemma relay_fair_trans:
  "relay_fair ok published u v \<Longrightarrow> relay_fair ok published v w \<Longrightarrow> relay_fair ok published u w"
  by (clarsimp simp: relay_fair_def) blast

text \<open>Fair steps only add to what the broker has of any set of records.\<close>

lemma relay_fair_count:
  assumes "relay_fair ok published w w'" "ok (snd w)"
  shows "length (filter P (fst w)) \<le> length (filter P (fst w'))"
  using assms by (auto simp: relay_fair_def)

locale outbox_contract =
  fixes ok :: "'s \<Rightarrow> bool"
    and published :: "'s \<Rightarrow> string set"
    and mark :: "'s mark_op"
    and resched :: "'s reschedule_op"
    and claim :: "string \<Rightarrow> int \<Rightarrow> 's \<Rightarrow> (outbox_record list \<times> outbox_lease) result \<times> 's"
  assumes mark_applied: "ok s \<Longrightarrow> mark e l at now s = (Inr True, s') \<Longrightarrow> published s' = insert e (published s)"
    and mark_refused: "ok s \<Longrightarrow> mark e l at now s = (r, s') \<Longrightarrow> r \<noteq> Inr True \<Longrightarrow> published s' = published s"
    and resched_keeps: "ok s \<Longrightarrow> published (snd (resched e l due n c now s)) = published s"
    and claim_keeps: "ok s \<Longrightarrow> published (snd (claim owner limit s)) = published s"
    and mark_ok: "ok s \<Longrightarrow> ok (snd (mark e l at now s))"
    and resched_ok: "ok s \<Longrightarrow> ok (snd (resched e l due n c now s))"
    and claim_ok: "ok s \<Longrightarrow> ok (snd (claim owner limit s))"
begin

lemma fair_publish [simp]: "relay_fair ok published (b, s) (b @ new, s)"
  by (auto simp: relay_fair_def)

lemma fair_mark: "ok s \<Longrightarrow> e \<in> rec_event ` set b \<Longrightarrow> relay_fair ok published (b, s) (b, snd (mark e l at now s))"
proof (cases "mark e l at now s")
  fix r s' assume "ok s" "e \<in> rec_event ` set b" and m: "mark e l at now s = (r, s')"
  moreover have "published s' = insert e (published s) \<or> published s' = published s"
    using mark_applied [OF \<open>ok s\<close>] mark_refused [OF \<open>ok s\<close> m] m by (cases "r = Inr True") auto
  moreover have "ok s'" using mark_ok [OF \<open>ok s\<close>] m by (metis snd_conv)
  ultimately show ?thesis by (auto simp: relay_fair_def)
qed

lemma fair_resched: "relay_fair ok published (b, s) (b, snd (resched e l due n c now s))"
  using resched_keeps resched_ok by (auto simp: relay_fair_def)

lemma fair_claim: "relay_fair ok published (b, s) (b, snd (claim owner limit s))"
  using claim_keeps claim_ok by (auto simp: relay_fair_def)

lemma mark_keeps_published: "ok s \<Longrightarrow> published s \<subseteq> published (snd (mark e l at now s))"
proof (cases "mark e l at now s")
  fix r s' assume "ok s" and m: "mark e l at now s = (r, s')"
  then show ?thesis using mark_applied [OF \<open>ok s\<close>] mark_refused [OF \<open>ok s\<close> m]
    by (cases "r = Inr True") auto
qed

text \<open>
  A drain is itself a fair step when all the steps of the others in between are, takes no published
  event back unless they do, and settles no more records than the broker got of its batch.
\<close>

lemma drain_loop_sound:
  assumes before: "\<And>i w. relay_fair ok published w (tk_before (tick i) w)"
    and between: "\<And>i w. relay_fair ok published w (tk_between (tick i) w)"
  shows "ok s \<Longrightarrow> drain_loop mark resched opts tick lease i rs settled broker s = ((n, e), broker', s')
    \<Longrightarrow> (\<And>r. r \<in> set rs \<Longrightarrow> P r)
    \<Longrightarrow> relay_fair ok published (broker, s) (broker', s')
      \<and> n + length (filter P broker) \<le> settled + length (filter P broker')
      \<and> (\<forall>ev. (\<forall>i. keeps_event ok published ev (tk_before (tick i)) \<and> keeps_event ok published ev (tk_between (tick i)))
           \<longrightarrow> ev \<in> published s \<longrightarrow> ev \<in> published s')"
proof (induction rs arbitrary: i settled broker s)
  case (Cons r rs)
  let ?k = "tick i"
  show ?case
  proof (cases "leaseTooShort opts (tk_check ?k) (ol_expires lease)")
    case True
    with Cons.prems show ?thesis by auto
  next
    case live: False
    obtain b0 s0 where w0: "tk_before ?k (broker, s) = (b0, s0)" by fastforce
    define b1 where "b1 = (if reached_broker (tk_publish ?k) then b0 @ [r] else b0)"
    obtain b2 s1 where w1: "tk_between ?k (b1, s0) = (b2, s1)" by fastforce
    have f0: "relay_fair ok published (broker, s) (b0, s0)" using before [where w = "(broker, s)"] w0 by metis
    have k0: "ok s0" using f0 Cons.prems(1) by (simp add: relay_fair_def)
    have f1: "relay_fair ok published (b0, s0) (b1, s0)" by (simp add: b1_def)
    have f2: "relay_fair ok published (b1, s0) (b2, s1)" using between [where w = "(b1, s0)"] w1 by metis
    have k1: "ok s1" using f2 k0 by (simp add: relay_fair_def)
    have f: "relay_fair ok published (broker, s) (b2, s1)" by (rule relay_fair_trans [OF f0 relay_fair_trans [OF f1 f2]])
    have c: "length (filter P broker) \<le> length (filter P b2)" using relay_fair_count [OF f] Cons.prems(1) by simp
    have ev: "ev \<in> published s1"
      if "\<forall>i. keeps_event ok published ev (tk_before (tick i)) \<and> keeps_event ok published ev (tk_between (tick i))"
        "ev \<in> published s" for ev
    proof -
      have "ev \<in> published s0" using that Cons.prems(1) w0 unfolding keeps_event_def by (metis snd_conv)
      then show ?thesis using that(1) k0 w1 unfolding keeps_event_def by (metis snd_conv)
    qed
    show ?thesis
    proof (cases "tk_publish ?k")
      case Acknowledged
      have b1: "b1 = b0 @ [r]" using Acknowledged by (simp add: b1_def reached_broker_def)
      have r: "rec_event r \<in> rec_event ` set b2" using f2 k0 by (auto simp: relay_fair_def b1)
      have "length (filter P broker) \<le> length (filter P b0)" using relay_fair_count [OF f0] Cons.prems(1) by simp
      moreover have "length (filter P b1) \<le> length (filter P b2)" using relay_fair_count [OF f2] k0 by simp
      ultimately have c1: "Suc (length (filter P broker)) \<le> length (filter P b2)" using Cons.prems(3) [of r] by (simp add: b1)
      obtain res s2 where m: "mark (rec_event r) lease (tk_now ?k) (tk_db_now ?k) s1 = (res, s2)"
        by (cases "mark (rec_event r) lease (tk_now ?k) (tk_db_now ?k) s1")
      have fm: "relay_fair ok published (broker, s) (b2, s2)"
        using relay_fair_trans [OF f fair_mark [OF k1 r, of lease "tk_now ?k" "tk_db_now ?k"]] m by simp
      have k2: "ok s2" using mark_ok [OF k1] m by (metis snd_conv)
      have p2: "published s1 \<subseteq> published s2" using mark_keeps_published [OF k1] m by (metis snd_conv)
      show ?thesis
      proof (cases "res = Inr True")
        case True
        have "drain_loop mark resched opts tick lease (Suc i) rs (settled + 1) b2 s2 = ((n, e), broker', s')"
          using Cons.prems(2) live Acknowledged m True w0 w1 by (simp add: Let_def b1_def)
        from Cons.IH [OF k2 this Cons.prems(3)] have ih: "relay_fair ok published (b2, s2) (broker', s')"
          "n + length (filter P b2) \<le> settled + 1 + length (filter P broker')"
          "\<forall>ev. (\<forall>i. keeps_event ok published ev (tk_before (tick i)) \<and> keeps_event ok published ev (tk_between (tick i)))
             \<longrightarrow> ev \<in> published s2 \<longrightarrow> ev \<in> published s'"
          by auto
        show ?thesis using relay_fair_trans [OF fm ih(1)] ih(2) c1 ih(3) ev p2 by force
      next
        case False
        then have "broker' = b2 \<and> s' = s2 \<and> n = settled"
          using Cons.prems(2) live Acknowledged m w0 w1 by (auto simp: Let_def b1_def split: sum.splits if_splits)
        then show ?thesis using fm c ev p2 by auto
      qed
    next
      case (NotAcknowledged why reached)
      let ?bk = "backoffFor opts (tk_rand ?k) (rec_attempts r)"
      obtain res s2 where m: "resched (rec_event r) lease (tk_now ?k + ?bk) (rec_attempts r + 1)
          (transportErrorCode why) (tk_db_now ?k) s1 = (res, s2)"
        by (cases "resched (rec_event r) lease (tk_now ?k + ?bk) (rec_attempts r + 1)
          (transportErrorCode why) (tk_db_now ?k) s1")
      have p2: "published s2 = published s1" "ok s2"
        using resched_keeps [OF k1] resched_ok [OF k1] m by (metis snd_conv)+
      have fm: "relay_fair ok published (broker, s) (b2, s2)" using f p2 by (auto simp: relay_fair_def)
      show ?thesis
      proof (cases "res = Inr True")
        case True
        have "drain_loop mark resched opts tick lease (Suc i) rs settled b2 s2 = ((n, e), broker', s')"
          using Cons.prems(2) live NotAcknowledged m True w0 w1 by (simp add: Let_def b1_def)
        from Cons.IH [OF p2(2) this Cons.prems(3)] have ih: "relay_fair ok published (b2, s2) (broker', s')"
          "n + length (filter P b2) \<le> settled + length (filter P broker')"
          "\<forall>ev. (\<forall>i. keeps_event ok published ev (tk_before (tick i)) \<and> keeps_event ok published ev (tk_between (tick i)))
             \<longrightarrow> ev \<in> published s2 \<longrightarrow> ev \<in> published s'"
          by auto
        show ?thesis using relay_fair_trans [OF fm ih(1)] ih(2) c ih(3) ev p2 by force
      next
        case False
        then have "broker' = b2 \<and> s' = s2 \<and> n = settled"
          using Cons.prems(2) live NotAcknowledged m w0 w1 by (auto simp: Let_def b1_def split: sum.splits if_splits)
        then show ?thesis using fm c ev p2 by auto
      qed
    qed
  qed
qed auto

lemma DrainOnce_sound:
  assumes "\<And>i w. relay_fair ok published w (tk_before (tick i) w)"
    and "\<And>i w. relay_fair ok published w (tk_between (tick i) w)"
    and "ok s" and "DrainOnce mark resched claim opts tick broker s = ((n, e), broker', s')"
  shows "relay_fair ok published (broker, s) (broker', s')
      \<and> n + length (filter (\<lambda>r. r \<in> set (claimed_batch (fst (claim (ro_owner opts) (ro_batch opts) s)))) broker)
          \<le> length (filter (\<lambda>r. r \<in> set (claimed_batch (fst (claim (ro_owner opts) (ro_batch opts) s)))) broker')
      \<and> (\<forall>ev. (\<forall>i. keeps_event ok published ev (tk_before (tick i)) \<and> keeps_event ok published ev (tk_between (tick i)))
           \<longrightarrow> ev \<in> published s \<longrightarrow> ev \<in> published s')"
proof -
  obtain res s1 where c: "claim (ro_owner opts) (ro_batch opts) s = (res, s1)"
    by (cases "claim (ro_owner opts) (ro_batch opts) s")
  have f: "relay_fair ok published (broker, s) (broker, s1)" using fair_claim c by (metis snd_conv)
  have p1: "published s1 = published s" "ok s1" using claim_keeps claim_ok assms(3) c by (metis snd_conv)+
  consider "n = 0" "broker' = broker" "s' = s1"
    | rs lease where "res = Inr (rs, lease)" "drain_loop mark resched opts tick lease 0 rs 0 broker s1 = ((n, e), broker', s')"
    using assms(4) c by (auto simp: DrainOnce_def split: sum.splits prod.splits if_splits)
  then show ?thesis
  proof cases
    case 1
    then show ?thesis using p1 f by simp
  next
    case 2
    from drain_loop_sound [OF assms(1,2) p1(2) 2(2), of "\<lambda>r. r \<in> set rs"] relay_fair_trans [OF f] p1(1) 2(1) c
    show ?thesis by (auto simp: claimed_batch_def)
  qed
qed

end

section \<open>The media store meets the contract\<close>

definition published_events :: "db \<Rightarrow> string set" where
  "published_events db = x_id ` {x \<in> set (outbox db). x_status x = OutboxPublished}"

lemma published_events_update:
  assumes "\<And>x. c x \<Longrightarrow> x_status x \<noteq> OutboxPublished" "\<And>x. x_status (f x) \<noteq> OutboxPublished"
  shows "published_events (db\<lparr>outbox := sql_update c f (outbox db)\<rparr>) = published_events db"
proof -
  have "{x \<in> set (sql_update c f (outbox db)). x_status x = OutboxPublished}
      = {x \<in> set (outbox db). x_status x = OutboxPublished}"
    using assms by (auto elim!: sql_update_memE intro: sql_update_memI2)
  then show ?thesis by (simp add: published_events_def)
qed

lemma rows_affected_holds:
  assumes "tables_ok db"
  shows "rows_affected (holds_outbox e l now) (outbox db) \<le> 1"
  by (rule rows_affected_le_1 [OF tables_ok_distinct(7) [OF assms]]) (simp add: holds_outbox_def)

lemma tables_ok_mark: "tables_ok db \<Longrightarrow> tables_ok (snd (MarkPublished e l at now db))"
  unfolding MarkPublished_def snd_conv
  by (rule tables_ok_update_outbox) (simp_all add: published_row_def unpublished_def outbox_check_def)

text \<open>Rows go back to pending only from publishing, so the index of unpublished rows is kept.\<close>

lemma tables_ok_outbox_requeue:
  assumes "tables_ok db"
    and "\<And>x. x_id (f x) = x_id x" "\<And>x. x_job (f x) = x_job x" "\<And>x. c x \<Longrightarrow> unpublished x"
    and "\<And>x. x \<in> set (outbox db) \<Longrightarrow> c x \<Longrightarrow> outbox_check (f x)"
  shows "tables_ok (db\<lparr>outbox := sql_update c f (outbox db)\<rparr>)"
proof -
  have "no_conflict outbox_conflict (sql_update c f (outbox db))"
    using assms(1) by (intro no_conflict_update)
      (auto simp: tables_ok_def outbox_conflict_def assms(2,3) split: if_splits dest: assms(4))
  moreover have "list_all outbox_check (sql_update c f (outbox db))"
    using assms(1,5) by (intro list_all_sql_update) (auto simp: tables_ok_def)
  ultimately show ?thesis using assms(1) by (simp add: tables_ok_def)
qed

lemma tables_ok_resched: "tables_ok db \<Longrightarrow> tables_ok (snd (Reschedule e l due n c now db))"
  by (auto simp: Reschedule_def Let_def list_all_iff holds_outbox_def rescheduled_row_def unpublished_def
      intro!: tables_ok_outbox_requeue)

lemma claimed_ids_claimable:
  assumes "tables_ok db" "x \<in> set (outbox db)" "x_id x \<in> set (claimed_ids locked limit now db)"
  shows "outbox_claimable now x"
proof -
  obtain y where "y \<in> set (outbox db)" "outbox_claimable now y" "x_id y = x_id x"
    using assms(3) by (auto simp: claimed_ids_def order_by_def dest!: in_set_takeD)
  then show ?thesis using distinct_map_eq [OF tables_ok_distinct(7) [OF assms(1)] assms(2)] by metis
qed

text \<open>The database after a claim: the claimed rows, all unpublished, are publishing.\<close>

lemma snd_Claim:
  "snd (Claim st isUUID locked now owner limit db) = db \<or>
   snd (Claim st isUUID locked now owner limit db)
     = db\<lparr>outbox := sql_update (\<lambda>x. x_id x \<in> set (claimed_ids locked (nat limit) now db))
                     (publishing_row st owner now) (outbox db)\<rparr>"
  by (simp add: Claim_def Let_def)

lemma claim_update_restricted:
  assumes "tables_ok db"
  shows "sql_update (\<lambda>x. x_id x \<in> set (claimed_ids locked limit now db)) f (outbox db)
    = sql_update (\<lambda>x. x_id x \<in> set (claimed_ids locked limit now db) \<and> outbox_claimable now x) f (outbox db)"
  unfolding sql_update_def using claimed_ids_claimable [OF assms] by (intro map_cong) auto

lemma publishing_row_keys [simp]:
  "x_id (publishing_row st owner now x) = x_id x" "x_job (publishing_row st owner now x) = x_job x"
  "outbox_check (publishing_row st owner now x) = outbox_check x"
  "x_status (publishing_row st owner now x) = OutboxPublishing"
  by (simp_all add: publishing_row_def outbox_check_def)

lemma tables_ok_Claim:
  assumes "tables_ok db"
  shows "tables_ok (snd (Claim st isUUID locked now owner limit db))"
proof -
  have "tables_ok (db\<lparr>outbox := sql_update
      (\<lambda>x. x_id x \<in> set (claimed_ids locked (nat limit) now db) \<and> outbox_claimable now x)
      (publishing_row st owner now) (outbox db)\<rparr>)"
    by (rule tables_ok_outbox_requeue [OF assms])
      (simp_all add: outbox_claimable_def tables_ok_checks(5) [OF assms])
  then show ?thesis
    using snd_Claim [of st isUUID locked now owner limit db] assms
    by (auto simp: claim_update_restricted)
qed

lemma published_Claim:
  assumes "tables_ok db"
  shows "published_events (snd (Claim st isUUID locked now owner limit db)) = published_events db"
  using snd_Claim [of st isUUID locked now owner limit db]
proof
  assume "snd (Claim st isUUID locked now owner limit db)
     = db\<lparr>outbox := sql_update (\<lambda>x. x_id x \<in> set (claimed_ids locked (nat limit) now db))
                     (publishing_row st owner now) (outbox db)\<rparr>"
  then have "snd (Claim st isUUID locked now owner limit db)
     = db\<lparr>outbox := sql_update (\<lambda>x. x_id x \<in> set (claimed_ids locked (nat limit) now db) \<and> outbox_claimable now x)
                     (publishing_row st owner now) (outbox db)\<rparr>"
    unfolding claim_update_restricted [OF assms] .
  moreover have "published_events (db\<lparr>outbox := sql_update
      (\<lambda>x. x_id x \<in> set (claimed_ids locked (nat limit) now db) \<and> outbox_claimable now x)
      (publishing_row st owner now) (outbox db)\<rparr>) = published_events db"
    by (rule published_events_update) (simp_all add: outbox_claimable_def unpublished_def)
  ultimately show ?thesis by simp
qed simp

lemma published_MarkPublished:
  assumes "tables_ok db" and "MarkPublished e l at now db = (r, db')"
  shows "published_events db' = (if r = Inr True then insert e (published_events db) else published_events db)"
proof -
  let ?c = "holds_outbox e l now"
  have db': "db' = db\<lparr>outbox := sql_update ?c (published_row at) (outbox db)\<rparr>"
    and r: "r = Inr (rows_affected ?c (outbox db) = 1)" using assms(2) by (auto simp: MarkPublished_def)
  show ?thesis
  proof (cases "rows_affected ?c (outbox db) = 1")
    case True
    then obtain x where x: "x \<in> set (outbox db)" "?c x" using rows_affected_1D by auto
    have st: "x_status (published_row at y) = OutboxPublished" "x_id (published_row at y) = x_id y" for y
      by (simp_all add: published_row_def)
    have "published_events db' = insert e (published_events db)"
    proof (intro equalityI subsetI)
      fix i assume "i \<in> published_events db'"
      then obtain y where y: "y \<in> set (sql_update ?c (published_row at) (outbox db))"
        "x_status y = OutboxPublished" "i = x_id y"
        by (auto simp: published_events_def db')
      from y(1) show "i \<in> insert e (published_events db)"
        by (rule sql_update_memE) (use y st in \<open>auto simp: published_events_def holds_outbox_def\<close>)
    next
      fix i assume i: "i \<in> insert e (published_events db)"
      show "i \<in> published_events db'"
      proof (cases "i = e")
        case True
        have m: "published_row at x \<in> set (outbox db')"
          unfolding db' using sql_update_memI1 [of x "outbox db" ?c "published_row at"] x by simp
        have "x_id x = e" using x(2) by (simp add: holds_outbox_def)
        then show ?thesis unfolding published_events_def using m st [of x] True
          by (intro image_eqI [of _ _ "published_row at x"]) simp_all
      next
        case False
        then obtain y where "y \<in> set (outbox db)" "x_status y = OutboxPublished" "i = x_id y"
          using i by (auto simp: published_events_def)
        then show ?thesis
          using sql_update_memI2 [of y "outbox db" ?c "published_row at"]
          unfolding published_events_def db'
          by (intro image_eqI [of _ _ y]) (simp_all add: holds_outbox_def)
      qed
    qed
    then show ?thesis using r True by simp
  next
    case False
    then have "rows_affected ?c (outbox db) = 0" using rows_affected_holds [OF assms(1), of e l now] by linarith
    then have "sql_update ?c (published_row at) (outbox db) = outbox db" by (intro sql_update_none) simp
    then show ?thesis using r False by (simp add: db')
  qed
qed

interpretation media: outbox_contract tables_ok published_events MarkPublished Reschedule
    "Claim st isUUID locked now" for st isUUID locked now
proof
  fix s e l at now' r s'
  assume ok: "tables_ok s"
  show "MarkPublished e l at now' s = (Inr True, s') \<Longrightarrow> published_events s' = insert e (published_events s)"
    using published_MarkPublished [OF ok] by fastforce
  show "MarkPublished e l at now' s = (r, s') \<Longrightarrow> r \<noteq> Inr True \<Longrightarrow> published_events s' = published_events s"
    using published_MarkPublished [OF ok] by fastforce
  show "tables_ok (snd (MarkPublished e l at now' s))" by (rule tables_ok_mark [OF ok])
next
  fix s e l due n c now'
  assume ok: "tables_ok s"
  show "published_events (snd (Reschedule e l due n c now' s)) = published_events s"
  proof -
    have "published_events (s\<lparr>outbox := sql_update (holds_outbox e l now') (rescheduled_row due n c) (outbox s)\<rparr>)
        = published_events s"
      by (rule published_events_update) (simp_all add: holds_outbox_def rescheduled_row_def)
    then show ?thesis by (simp add: Reschedule_def Let_def)
  qed
  show "tables_ok (snd (Reschedule e l due n c now' s))" by (rule tables_ok_resched [OF ok])
next
  fix s owner limit
  assume ok: "tables_ok s"
  show "published_events (snd (Claim st isUUID locked now owner limit s)) = published_events s"
    by (rule published_Claim [OF ok])
  show "tables_ok (snd (Claim st isUUID locked now owner limit s))" by (rule tables_ok_Claim [OF ok])
qed

section \<open>Properties of the relay\<close>

text \<open>C6: The outbox is at-least-once and never loses an event: a drain of the media outbox records an
  event as published only when its record has reached the broker, unmarks none itself, and settles no
  more records than the broker got of its own batch. Clock readings and publication outcomes are
  arbitrary. Other processes may act on the broker and the tables before every publication and between
  it and the relay's next write, as long as they keep the tables well formed, take nothing back from the
  broker and record an event as published only when its record has reached the broker. The drain itself
  is such a step, so any number of relays may drain the same outbox concurrently.
\<close>
theorem drain_publishes_before_marking:
  assumes "tables_ok db"
    and "\<And>i w. relay_fair tables_ok published_events w (tk_before (tick i) w)"
    and "\<And>i w. relay_fair tables_ok published_events w (tk_between (tick i) w)"
    and "DrainOnce MarkPublished Reschedule (Claim st isUUID locked now) opts tick broker db = ((n, e), broker', db')"
  shows "relay_fair tables_ok published_events (broker, db) (broker', db')
    \<and> (\<exists>new. broker' = broker @ new \<and> tables_ok db'
        \<and> published_events db' \<subseteq> published_events db \<union> rec_event ` set (broker @ new)
        \<and> n \<le> length (filter (\<lambda>r. r \<in> set (claimed_batch
              (fst (Claim st isUUID locked now (ro_owner opts) (ro_batch opts) db)))) new))
    \<and> (\<forall>ev \<in> published_events db.
        (\<forall>i. keeps_event tables_ok published_events ev (tk_before (tick i))
           \<and> keeps_event tables_ok published_events ev (tk_between (tick i))) \<longrightarrow> ev \<in> published_events db')"
proof -
  note d = media.DrainOnce_sound [OF assms(2,3,1,4)]
  then have f: "relay_fair tables_ok published_events (broker, db) (broker', db')" by blast
  then obtain new where new: "broker' = broker @ new" using assms(1) by (auto simp: relay_fair_def)
  have "n \<le> length (filter (\<lambda>r. r \<in> set (claimed_batch
      (fst (Claim st isUUID locked now (ro_owner opts) (ro_batch opts) db)))) new)"
    using d by (simp add: new)
  moreover have "tables_ok db'" "published_events db' \<subseteq> published_events db \<union> rec_event ` set (broker @ new)"
    using f assms(1) by (simp_all add: relay_fair_def new)
  ultimately show ?thesis using f new d by blast
qed

text \<open>A claimed outbox row belongs to one relay while the lease lasts: a second claim, by whatever
  owner and at whatever batch size, whose clock reading falls before the first lease expires returns
  none of the rows of the first.
\<close>
theorem outbox_claims_are_disjoint:
  assumes "tables_ok db"
    and "Claim st isUUID locked now owner limit db = (Inr (rs, lease), db')"
    and "Claim st' isUUID' locked' now' owner' limit' db' = (Inr (rs', lease'), db'')"
    and "now' < now + os_ttl st"
  shows "rec_event ` set rs \<inter> rec_event ` set rs' = {}"
proof -
  let ?ids = "set (claimed_ids locked (nat limit) now db)"
  let ?ids' = "set (claimed_ids locked' (nat limit') now' db')"
  have rs: "rec_event ` set rs \<subseteq> ?ids" "rs \<noteq> [] \<Longrightarrow> db' = db\<lparr>outbox := sql_update (\<lambda>x. x_id x \<in> ?ids)
      (publishing_row st owner now) (outbox db)\<rparr>"
    using assms(2) by (auto simp: Claim_def Let_def record_of_def split: if_splits)
  have rs': "rec_event ` set rs' \<subseteq> ?ids'"
    using assms(3) by (auto simp: Claim_def Let_def record_of_def split: if_splits)
  have ok': "tables_ok db'" using tables_ok_Claim [OF assms(1)] assms(2) by (metis snd_conv)
  show ?thesis
  proof (rule ccontr)
    assume "rec_event ` set rs \<inter> rec_event ` set rs' \<noteq> {}"
    then obtain i where i0: "i \<in> rec_event ` set rs" "i \<in> rec_event ` set rs'" by blast
    have i: "i \<in> ?ids" "i \<in> ?ids'" using i0 rs(1) rs' by (blast, blast)
    have ne: "rs \<noteq> []" using i0 by auto
    obtain y where y: "y \<in> set (outbox db')" "x_id y = i" "outbox_claimable now' y"
      using i(2) by (auto simp: claimed_ids_def order_by_def dest!: in_set_takeD)
    from y(1) have "x_lease_expires y = Some (now + os_ttl st)"
      unfolding rs(2) [OF ne] using i(1) y(2)
      by (auto simp: publishing_row_def elim!: sql_update_memE)
    with y(3) assms(4) show False by (simp add: outbox_claimable_def)
  qed
qed

lemma backoff_loop_value:
  "0 < b \<Longrightarrow> m \<le> 4611686018427387904 \<Longrightarrow> min (backoff_loop n m b) m = min (b * 2 ^ n) m"
proof (induction n arbitrary: b)
  case (Suc n)
  show ?case
  proof (cases "b < m")
    case True
    have "wrap64 (b * 2) = b * 2" by (rule wrap64_id) (use Suc.prems True in auto)
    then show ?thesis using True Suc.IH [of "b * 2"] Suc.prems by (simp add: mult.assoc)
  next
    case False
    have "(1 :: int) \<le> 2 ^ Suc n" by (rule one_le_power) simp
    then have "b * 1 \<le> b * 2 ^ Suc n" using Suc.prems(1) by (intro mult_left_mono) auto
    then have "m \<le> b * 2 ^ Suc n" using False by linarith
    then show ?thesis using False by simp
  qed
qed simp

text \<open>The relay's retry delay grows exponentially up to its cap and never overflows: before jitter it
  is the base delay doubled once per previous attempt, capped at the maximum, and the default jitter
  keeps it between half of that and all of it, never negative.
\<close>
theorem relay_backoff_is_capped_exponential:
  assumes "0 < ro_base_backoff opts" "0 < ro_max_backoff opts" "ro_max_backoff opts \<le> 4611686018427387904"
    and "0 \<le> attempts" "\<And>k. 0 < k \<Longrightarrow> 0 \<le> rand k \<and> rand k < k"
  shows "raw_backoff opts attempts = min (ro_base_backoff opts * 2 ^ nat attempts) (ro_max_backoff opts)
    \<and> raw_backoff opts attempts div 2 \<le> backoffFor opts rand attempts
    \<and> backoffFor opts rand attempts \<le> raw_backoff opts attempts
    \<and> 0 \<le> backoffFor opts rand attempts"
proof -
  let ?b = "raw_backoff opts attempts"
  have b: "?b = min (ro_base_backoff opts * 2 ^ nat attempts) (ro_max_backoff opts)"
    unfolding raw_backoff_def by (rule backoff_loop_value [OF assms(1,3)])
  then have "0 < ?b" using assms(1,2) by simp
  then have "0 < ?b div 2 + 1" by simp
  from assms(5) [OF this] have "0 \<le> rand (?b div 2 + 1)" "rand (?b div 2 + 1) \<le> ?b div 2" by auto
  then have "?b div 2 \<le> backoffFor opts rand attempts" "backoffFor opts rand attempts \<le> ?b"
    "0 \<le> backoffFor opts rand attempts"
    using \<open>0 < ?b\<close> unfolding backoffFor_def jitter_def by linarith+
  with b show ?thesis by blast
qed

text \<open>The operator's replay: the identity of the quarantined record is checked, then the job is replayed.\<close>

definition Replay ::
  "codec \<Rightarrow> string \<Rightarrow> string \<Rightarrow> string \<Rightarrow> string \<Rightarrow> instant \<Rightarrow> db \<Rightarrow> string result \<times> db"
where
  "Replay cd quarantineID jobID operator eventID now db =
     (if operator = [] then (Inl (ErrOther ''replay requires an operator identity''), db)
      else if jobID = [] then (Inl (ErrOther ''replay requires a correlated job identity''), db)
      else if length quarantineID \<noteq> 64 \<or> quarantineID \<noteq> to_lower quarantineID \<or> hex_decode quarantineID = None
        then (Inl (ErrOther ''replay requires a 64-character lowercase hexadecimal quarantine identity''), db)
      else (case RebuildAndEnqueue cd jobID operator eventID now db of
              (Inl e, db') \<Rightarrow> (Inl e, db')
            | (Inr ev, db') \<Rightarrow>
                if ev = [] then (Inl (ErrOther ''replay transaction returned no event ID''), db') else (Inr ev, db')))"

definition demo_outbox_store :: outbox_store where
  "demo_outbox_store = \<lparr>os_topic = ''t'', os_ttl = 30\<rparr>"

text \<open>A second relay that drains the same rows once the lease of the first has run out, with nobody else.\<close>

definition demo_late_tick :: "nat \<Rightarrow> db tick" where
  "demo_late_tick i = \<lparr>tk_check = 60, tk_now = 60, tk_db_now = 60, tk_rand = (\<lambda>_. 0), tk_publish = Acknowledged,
     tk_before = (\<lambda>w. w), tk_between = (\<lambda>w. w)\<rparr>"

definition demo_relay :: relay_options where
  "demo_relay = \<lparr>ro_owner = ''r'', ro_batch = 50, ro_base_backoff = 4, ro_max_backoff = 100, ro_lease_margin = 5\<rparr>"

definition demo_late_relay :: "outbox_record list \<times> db \<Rightarrow> outbox_record list \<times> db" where
  "demo_late_relay w =
     snd (DrainOnce MarkPublished Reschedule (Claim demo_outbox_store (\<lambda>_. True) (\<lambda>_. False) 60)
           (demo_relay\<lparr>ro_owner := ''q''\<rparr>) demo_late_tick (fst w) (snd w))"

text \<open>The first relay is overtaken between its publication and its write.\<close>

definition demo_tick :: "nat \<Rightarrow> db tick" where
  "demo_tick i = \<lparr>tk_check = 20, tk_now = 61, tk_db_now = 61, tk_rand = (\<lambda>_. 0), tk_publish = Acknowledged,
     tk_before = (\<lambda>w. w), tk_between = demo_late_relay\<rparr>"

definition demo_overtaken :: "(nat \<times> media_error option) \<times> outbox_record list \<times> db" where
  "demo_overtaken = DrainOnce MarkPublished Reschedule (Claim demo_outbox_store (\<lambda>_. True) (\<lambda>_. False) 20) demo_relay
     demo_tick [] demo_committed_db"

theorem drain_publishes_before_marking_witness:
  "fst (fst demo_overtaken) = 0 \<and> snd (fst demo_overtaken) = Some ErrLeaseLost
   \<and> length (fst (snd demo_overtaken)) = 2 \<and> published_events (snd (snd demo_overtaken)) \<noteq> {}
   \<and> published_events (snd (snd demo_overtaken))
       \<subseteq> published_events demo_committed_db \<union> rec_event ` set (fst (snd demo_overtaken))"
proof -
  have late: "relay_fair tables_ok published_events w (demo_late_relay w)" for w
  proof (cases "tables_ok (snd w)")
    case True
    let ?d = "DrainOnce MarkPublished Reschedule (Claim demo_outbox_store (\<lambda>_. True) (\<lambda>_. False) 60)
      (demo_relay\<lparr>ro_owner := ''q''\<rparr>) demo_late_tick (fst w) (snd w)"
    have "relay_fair tables_ok published_events (fst w, snd w) (fst (snd ?d), snd (snd ?d))"
      using drain_publishes_before_marking [of "snd w" demo_late_tick demo_outbox_store "\<lambda>_. True" "\<lambda>_. False" 60
          "demo_relay\<lparr>ro_owner := ''q''\<rparr>" "fst w" "fst (fst ?d)" "snd (fst ?d)" "fst (snd ?d)" "snd (snd ?d)"] True
      by (simp add: demo_late_tick_def)
    then show ?thesis by (simp add: demo_late_relay_def)
  qed (simp add: relay_fair_def)
  obtain n e broker' db' where r: "demo_overtaken = ((n, e), broker', db')" by (metis prod.collapse)
  have "fst (fst demo_overtaken) = 0 \<and> (case snd (fst demo_overtaken) of Some ErrLeaseLost \<Rightarrow> True | _ \<Rightarrow> False)
      \<and> length (fst (snd demo_overtaken)) = 2
      \<and> list_ex (\<lambda>x. x_status x = OutboxPublished) (outbox (snd (snd demo_overtaken)))"
    by code_simp
  then have n: "n = 0" "e = Some ErrLeaseLost" "length broker' = 2" "published_events db' \<noteq> {}"
    unfolding r by (auto simp: published_events_def list_ex_iff split: option.splits media_error.splits)
  have t: "relay_fair tables_ok published_events w (tk_before (demo_tick i) w)"
    "relay_fair tables_ok published_events w (tk_between (demo_tick i) w)" for i w
    using late by (simp_all add: demo_tick_def)
  from drain_publishes_before_marking [OF demo_committed_ok(1) t r [unfolded demo_overtaken_def]]
  have "published_events db' \<subseteq> published_events demo_committed_db \<union> rec_event ` set broker'" by auto
  then show ?thesis unfolding r using n by simp
qed

definition demo_outbox_claim :: "(outbox_record list \<times> outbox_lease) result \<times> db" where
  "demo_outbox_claim = Claim demo_outbox_store (\<lambda>_. True) (\<lambda>_. False) 20 ''r'' 50 demo_committed_db"

theorem outbox_claims_are_disjoint_witness:
  "\<exists>rs rs' lease lease' db'. demo_outbox_claim = (Inr (rs, lease), snd demo_outbox_claim) \<and> rs \<noteq> []
     \<and> Claim demo_outbox_store (\<lambda>_. True) (\<lambda>_. False) 40 ''q'' 50 (snd demo_outbox_claim) = (Inr (rs', lease'), db')
     \<and> rec_event ` set rs \<inter> rec_event ` set rs' = {}"
proof -
  have "case fst demo_outbox_claim of Inr (rs, _) \<Rightarrow> length rs = 1 | _ \<Rightarrow> False" by code_simp
  then obtain rs lease where "fst demo_outbox_claim = Inr (rs, lease)" "length rs = 1"
    by (cases "fst demo_outbox_claim") auto
  note cl = this
  have c: "demo_outbox_claim = (Inr (rs, lease), snd demo_outbox_claim)" using cl(1) by (metis prod.collapse)
  have ne: "rs \<noteq> []" using cl(2) by (cases rs) simp_all
  let ?d = "Claim demo_outbox_store (\<lambda>_. True) (\<lambda>_. False) 40 ''q'' 50 (snd demo_outbox_claim)"
  have "case fst ?d of Inr _ \<Rightarrow> True | _ \<Rightarrow> False" by code_simp
  then obtain rs' lease' where "fst ?d = Inr (rs', lease')" by (cases "fst ?d") auto
  then have d: "?d = (Inr (rs', lease'), snd ?d)" by (metis prod.collapse)
  have lt: "40 < 20 + os_ttl demo_outbox_store" by (simp add: demo_outbox_store_def)
  have c': "Claim demo_outbox_store (\<lambda>_. True) (\<lambda>_. False) 20 ''r'' 50 demo_committed_db
      = (Inr (rs, lease), snd demo_outbox_claim)"
    by (subst demo_outbox_claim_def [symmetric]) (rule c)
  have "rec_event ` set rs \<inter> rec_event ` set rs' = {}"
    by (rule outbox_claims_are_disjoint [OF demo_committed_ok(1) c' d lt])
  then show ?thesis using c d ne by blast
qed

theorem relay_backoff_is_capped_exponential_witness:
  "raw_backoff demo_relay 3 = 32 \<and> backoffFor demo_relay (\<lambda>k. k - 1) 3 \<le> 32"
proof -
  have "0 < ro_base_backoff demo_relay" "0 < ro_max_backoff demo_relay" "ro_max_backoff demo_relay \<le> 4611686018427387904"
    "(0 :: int) \<le> 3" "\<And>k :: int. 0 < k \<Longrightarrow> 0 \<le> k - 1 \<and> k - 1 < k"
    by (simp_all add: demo_relay_def)
  from relay_backoff_is_capped_exponential [OF this] show ?thesis by (auto simp: demo_relay_def)
qed

end
