(* ===== verification/Media_Links.thy ===== *)
theory Media_Links
  imports Job_Invariant Outbox_Relay
begin

text \<open>
  What ties the rows of different tables together (no constraint of the database says it) and that every
  operation of the repositories keeps it: a version belongs to a committed session and to one job whose
  status agrees with it; an asset's pending pointer is exactly its open version and its active one a
  completed version with both outputs; every job has had an event.
\<close>

section \<open>Links between the tables\<close>

definition agree :: "job_row \<Rightarrow> version_row \<Rightarrow> bool" where
  "agree j v \<longleftrightarrow> v_id v = j_version j \<and> v_org v = j_org j \<and> v_asset v = j_asset j
     \<and> (v_status v = MediaVersionCompleted \<longrightarrow> j_status j = ProcessingJobCompleted)
     \<and> (v_status v = MediaVersionFailed \<longrightarrow> j_status j = ProcessingJobFailed \<and> j_isolated_at j = None)
     \<and> (open_version v \<longrightarrow> active_status j \<or> isolated_job j)"

definition origin :: "session_row \<Rightarrow> version_row \<Rightarrow> bool" where
  "origin s v \<longleftrightarrow> s_id s = v_upload v \<and> s_state s = UploadSessionCommitted \<and> s_org s = v_org v
     \<and> s_asset s = v_asset v \<and> s_size s = v_size v \<and> s_raw_key s = v_raw_key v
     \<and> (v_raw_retained v \<longleftrightarrow> s_purged_at s = None)"

definition sessions_link :: "db \<Rightarrow> bool" where
  "sessions_link db \<longleftrightarrow>
     (\<forall>v\<in>set (versions db). v_id v \<noteq> [] \<and> (\<exists>s\<in>set (sessions db). origin s v))
     \<and> (\<forall>s\<in>set (sessions db). s_state s = UploadSessionCreated \<longrightarrow> s_purged_at s = None)"

definition jobs_link :: "db \<Rightarrow> bool" where
  "jobs_link db \<longleftrightarrow>
     (\<forall>v\<in>set (versions db). \<exists>j\<in>set (jobs db). j_version j = v_id v)
     \<and> (\<forall>j\<in>set (jobs db). \<exists>v\<in>set (versions db). agree j v)"

definition assets_link :: "db \<Rightarrow> bool" where
  "assets_link db \<longleftrightarrow>
     (\<forall>a\<in>set (assets db). \<forall>i. a_pending a = Some i \<longrightarrow>
        (\<exists>v\<in>set (versions db). v_id v = i \<and> v_asset v = a_id a \<and> open_version v))
     \<and> (\<forall>v\<in>set (versions db). open_version v \<longrightarrow>
        (\<exists>a\<in>set (assets db). a_id a = v_asset v \<and> a_pending a = Some (v_id v)))
     \<and> (\<forall>a\<in>set (assets db). \<forall>i. a_active a = Some i \<longrightarrow>
        (\<exists>v\<in>set (versions db). v_id v = i \<and> v_asset v = a_id a \<and> v_status v = MediaVersionCompleted))"

definition outputs_link :: "db \<Rightarrow> bool" where
  "outputs_link db \<longleftrightarrow>
     (\<forall>v\<in>set (versions db). v_status v = MediaVersionCompleted \<longrightarrow>
        (\<exists>m\<in>set (outputs db). m_version m = v_id v \<and> m_kind m = MediaOutputThumbnail)
        \<and> (\<exists>m\<in>set (outputs db). m_version m = v_id v \<and> m_kind m = MediaOutputWeb))"

definition dispatched :: "outbox_row \<Rightarrow> bool" where
  "dispatched x \<longleftrightarrow> unpublished x \<or> x_published_at x \<noteq> None"

definition events_link :: "db \<Rightarrow> bool" where
  "events_link db \<longleftrightarrow> (\<forall>j\<in>set (jobs db). \<exists>x\<in>set (outbox db). x_job x = j_id j \<and> dispatched x)"

definition linked :: "db \<Rightarrow> bool" where
  "linked db \<longleftrightarrow> sessions_link db \<and> jobs_link db \<and> assets_link db \<and> outputs_link db \<and> events_link db"

lemmas link_defs = sessions_link_def jobs_link_def assets_link_def outputs_link_def events_link_def

section \<open>Kinds of change that keep the links\<close>

lemma linked_sessions:
  assumes "linked db"
    and "versions db' = versions db" "jobs db' = jobs db" "assets db' = assets db" "outputs db' = outputs db"
      "outbox db' = outbox db"
    and "\<And>s. s \<in> set (sessions db) \<Longrightarrow> s_state s = UploadSessionCommitted \<Longrightarrow> s \<in> set (sessions db')"
    and "\<And>s. s \<in> set (sessions db') \<Longrightarrow> s_state s = UploadSessionCreated \<Longrightarrow> s_purged_at s = None"
  shows "linked db'"
proof -
  have "\<exists>s\<in>set (sessions db'). origin s v" if v: "v \<in> set (versions db)" for v
  proof -
    obtain s where "s \<in> set (sessions db)" "origin s v" using assms(1) v by (auto simp: linked_def sessions_link_def)
    then show ?thesis using assms(7) by (auto simp: origin_def)
  qed
  then have "sessions_link db'" using assms(1,2,8) by (simp add: linked_def sessions_link_def)
  then show ?thesis using assms(1-6) by (simp add: linked_def link_defs)
qed

lemma events_mono:
  assumes "events_link db" and "\<And>j. j \<in> set (jobs db') \<Longrightarrow> \<exists>k\<in>set (jobs db). j_id k = j_id j"
    and "\<And>x. x \<in> set (outbox db) \<Longrightarrow> dispatched x \<Longrightarrow> \<exists>y\<in>set (outbox db'). x_job y = x_job x \<and> dispatched y"
  shows "events_link db'"
  using assms unfolding events_link_def by metis

lemma events_append:
  "events_link db \<Longrightarrow> map j_id (jobs db') = map j_id (jobs db) \<Longrightarrow> set (outbox db) \<subseteq> set (outbox db') \<Longrightarrow> events_link db'"
proof (rule events_mono)
  assume m: "map j_id (jobs db') = map j_id (jobs db)"
  fix j assume "j \<in> set (jobs db')"
  then have "j_id j \<in> set (map j_id (jobs db))" using m by (metis image_eqI list.set_map)
  then show "\<exists>k\<in>set (jobs db). j_id k = j_id j" by (metis imageE list.set_map)
qed auto

lemma jobs_link_update:
  assumes "jobs_link db" and "jobs db' = sql_update c f (jobs db)" "versions db' = versions db"
    and "\<And>j. j_version (f j) = j_version j"
    and "\<And>j v. j \<in> set (jobs db) \<Longrightarrow> c j \<Longrightarrow> v \<in> set (versions db) \<Longrightarrow> agree j v \<Longrightarrow> agree (f j) v"
  shows "jobs_link db'"
proof -
  have "\<exists>j\<in>set (jobs db'). j_version j = v_id v" if v: "v \<in> set (versions db)" for v
  proof -
    obtain j where j: "j \<in> set (jobs db)" "j_version j = v_id v"
      using assms(1) [unfolded jobs_link_def, THEN conjunct1] v by metis
    show ?thesis
    proof (cases "c j")
      case True
      have "f j \<in> set (jobs db')" unfolding assms(2) using j(1) True by (rule sql_update_memI1)
      then show ?thesis using j(2) assms(4) [of j] by metis
    next
      case False
      have "j \<in> set (jobs db')" unfolding assms(2) using j(1) False by (rule sql_update_memI2)
      then show ?thesis using j(2) by metis
    qed
  qed
  moreover have "\<exists>v\<in>set (versions db). agree j v" if "j \<in> set (jobs db')" for j
    using that unfolding assms(2)
  proof (rule sql_update_memE)
    fix r assume r: "r \<in> set (jobs db)" "c r" "j = f r"
    obtain v where "v \<in> set (versions db)" "agree r v"
      using assms(1) [unfolded jobs_link_def, THEN conjunct2] r(1) by metis
    then show ?thesis using assms(5) [OF r(1,2)] r(3) by blast
  next
    assume "j \<in> set (jobs db)"
    then show ?thesis using assms(1) by (simp add: jobs_link_def)
  qed
  ultimately show ?thesis by (simp add: jobs_link_def assms(3))
qed

text \<open>A change of job rows, with events added.\<close>

lemma linked_jobs:
  assumes "linked db" and "jobs db' = sql_update c f (jobs db)"
    and "versions db' = versions db" "assets db' = assets db" "outputs db' = outputs db" "sessions db' = sessions db"
      "set (outbox db) \<subseteq> set (outbox db')"
    and "\<And>j. j_version (f j) = j_version j" "\<And>j. j_id (f j) = j_id j"
    and "\<And>j v. j \<in> set (jobs db) \<Longrightarrow> c j \<Longrightarrow> v \<in> set (versions db) \<Longrightarrow> agree j v \<Longrightarrow> agree (f j) v"
  shows "linked db'"
proof -
  have "jobs_link db'" using jobs_link_update [OF _ assms(2,3,8,10)] assms(1) by (simp add: linked_def)
  moreover have "events_link db'"
    by (rule events_append [of db]) (use assms(1,2,7,9) in \<open>simp_all add: linked_def\<close>)
  ultimately show ?thesis using assms(1,3-6) by (simp add: linked_def sessions_link_def assets_link_def outputs_link_def)
qed

text \<open>A change of the outbox alone.\<close>

lemma linked_outbox:
  assumes "linked db" and "jobs db' = jobs db" "versions db' = versions db" "assets db' = assets db"
      "outputs db' = outputs db" "sessions db' = sessions db"
    and "\<And>x. x \<in> set (outbox db) \<Longrightarrow> dispatched x \<Longrightarrow> \<exists>y\<in>set (outbox db'). x_job y = x_job x \<and> dispatched y"
  shows "linked db'"
proof -
  have "events_link db'" by (rule events_mono [of db]) (use assms in \<open>auto simp: linked_def\<close>)
  then show ?thesis using assms(1-6) by (simp add: linked_def link_defs)
qed

section \<open>Jobs and versions go together\<close>

lemma agree_version_unique:
  "tables_ok db \<Longrightarrow> v \<in> set (versions db) \<Longrightarrow> w \<in> set (versions db) \<Longrightarrow> v_id v = v_id w \<Longrightarrow> v = w"
  using tables_ok_distinct(2) distinct_map_eq by metis

lemma job_version_unique:
  "tables_ok db \<Longrightarrow> j \<in> set (jobs db) \<Longrightarrow> k \<in> set (jobs db) \<Longrightarrow> j_version j = j_version k \<Longrightarrow> j = k"
  using tables_ok_distinct(5) distinct_map_eq by metis

text \<open>The version of an active job is open.\<close>

lemma active_open:
  assumes "linked db" "j \<in> set (jobs db)" "active_status j"
  obtains v where "v \<in> set (versions db)" "agree j v" "open_version v"
proof -
  obtain v where v: "v \<in> set (versions db)" "agree j v" using assms(1,2) by (auto simp: linked_def jobs_link_def)
  then have "open_version v"
    using assms(3) by (cases "v_status v") (auto simp: agree_def active_status_def open_version_def)
  with v that show thesis by blast
qed

text \<open>Failing an active job and its version together.\<close>

lemma linked_failMediaVersion:
  assumes "tables_ok db" "linked db" and "failMediaVersion fl t1 t2 db = Inr db'"
    and "j \<in> set (jobs db)" "active_status j"
    and "fl_job fl = j_id j" "fl_version fl = j_version j" "fl_org fl = j_org j" "fl_asset fl = j_asset j"
  shows "linked db'"
proof -
  let ?cv = "\<lambda>v. v_id v = fl_version fl \<and> v_org v = fl_org fl"
  let ?ca = "\<lambda>a. a_id a = fl_asset fl \<and> a_pending a = Some (fl_version fl)"
  let ?fj = "fail_job_row (fl_code fl) t2" and ?fv = "fail_version_row (fl_code fl) t1"
  have d: "versions db' = sql_update ?cv ?fv (versions db)"
    "assets db' = sql_update ?ca (\<lambda>a. a\<lparr>a_pending := None\<rparr>) (assets db)"
    "jobs db' = sql_update (\<lambda>k. j_id k = fl_job fl) ?fj (jobs db)"
    "sessions db' = sessions db" "outputs db' = outputs db" "outbox db' = outbox db"
    using failMediaVersion_InrD [OF assms(3)] by auto
  obtain v where v: "v \<in> set (versions db)" "agree j v" "open_version v"
    using active_open [OF assms(2,4,5)] by blast
  have iso: "j_isolated_at j = None"
    using tables_ok_checks(4) [OF assms(1,4)] assms(5) by (auto simp: job_check_def active_status_def)
  have cv: "?cv w \<longleftrightarrow> w = v" if "w \<in> set (versions db)" for w
    using that v agree_version_unique [OF assms(1) that v(1)] assms(7,8) by (auto simp: agree_def)
  have cj: "j_id k = fl_job fl \<longleftrightarrow> k = j" if "k \<in> set (jobs db)" for k
    using that assms(6) job_id_unique [OF assms(1) that assms(4)] by auto
  have L: "sessions_link db" "jobs_link db" "assets_link db" "outputs_link db" "events_link db"
    using assms(2) by (simp_all add: linked_def)
  have fv: "v_id (?fv w) = v_id w" "v_asset (?fv w) = v_asset w" "\<not> open_version (?fv w)" "v_status (?fv w) = MediaVersionFailed"
    "origin s (?fv w) = origin s w" for s w
    by (simp_all add: fail_version_row_def open_version_def origin_def)
  have vs: "set (versions db') = insert (?fv v) (set (versions db) - {v})"
    using v(1) cv unfolding d(1) set_sql_update by auto
  have js: "set (jobs db') = insert (?fj j) (set (jobs db) - {j})"
    using assms(4) cj unfolding d(3) set_sql_update by auto
  have "sessions_link db'" using L(1) v(1) fv by (auto simp: sessions_link_def vs d(4))
  moreover have "jobs_link db'"
  proof -
    have a: "agree (?fj j) (?fv v)"
      using v(2) iso by (simp add: agree_def fail_job_row_def fail_version_row_def open_version_def)
    have b: "\<exists>w\<in>set (versions db) - {v}. agree k w" if k: "k \<in> set (jobs db)" "k \<noteq> j" for k
    proof -
      obtain w where w: "w \<in> set (versions db)" "agree k w" using L(2) k(1) by (auto simp: jobs_link_def)
      moreover have "w \<noteq> v" using job_version_unique [OF assms(1) k(1) assms(4)] k(2) w(2) v(2) by (auto simp: agree_def)
      ultimately show ?thesis by blast
    qed
    have c: "\<exists>k\<in>set (jobs db) - {j}. j_version k = v_id w" if w: "w \<in> set (versions db)" "w \<noteq> v" for w
    proof -
      obtain k where k: "k \<in> set (jobs db)" "j_version k = v_id w" using L(2) w(1) by (auto simp: jobs_link_def)
      moreover have "k \<noteq> j" using k(2) v agree_version_unique [OF assms(1) w(1) v(1)] w(2) by (auto simp: agree_def)
      ultimately show ?thesis by blast
    qed
    have e: "j_version (?fj j) = v_id (?fv v)" using v(2) by (simp add: agree_def fail_job_row_def fail_version_row_def)
    show ?thesis unfolding jobs_link_def vs js using a b c e by blast
  qed
  moreover have "assets_link db'"
  proof -
    have keep: "a \<in> set (assets db')" if "a \<in> set (assets db)" "\<not> ?ca a" for a
      using that by (simp add: d(2) sql_update_memI2)
    have from_old: "\<exists>b\<in>set (assets db). a_id b = a_id a \<and> a_active b = a_active a
        \<and> (a_pending a \<noteq> None \<longrightarrow> b = a \<and> \<not> ?ca a)" if "a \<in> set (assets db')" for a
      using that unfolding d(2) by (auto elim!: sql_update_memE)
    have "\<exists>w\<in>set (versions db'). v_id w = i \<and> v_asset w = a_id a \<and> open_version w"
      if a: "a \<in> set (assets db')" "a_pending a = Some i" for a i
    proof -
      have "a \<in> set (assets db)" "\<not> ?ca a" using from_old [OF a(1)] a(2) by auto
      then obtain w where w: "w \<in> set (versions db)" "v_id w = i" "v_asset w = a_id a" "open_version w"
        using L(3) a(2) by (auto simp: assets_link_def)
      moreover have "w \<noteq> v" using \<open>\<not> ?ca a\<close> w(2,3) a(2) v(2) assms(7,9) by (auto simp: agree_def)
      ultimately show ?thesis by (auto simp: vs)
    qed
    moreover have "\<exists>a\<in>set (assets db'). a_id a = v_asset w \<and> a_pending a = Some (v_id w)"
      if w: "w \<in> set (versions db')" "open_version w" for w
    proof -
      have "w \<noteq> ?fv v" using w(2) fv(3) by metis
      then have w': "w \<in> set (versions db)" "w \<noteq> v" using w(1) by (simp_all add: vs)
      then obtain a where a: "a \<in> set (assets db)" "a_id a = v_asset w" "a_pending a = Some (v_id w)"
        using L(3) w(2) by (auto simp: assets_link_def)
      have "v_id w \<noteq> v_id v" using agree_version_unique [OF assms(1) w'(1) v(1)] w'(2) by blast
      then have "\<not> ?ca a" using a(3) v(2) assms(7) by (auto simp: agree_def)
      then show ?thesis using a keep by blast
    qed
    moreover have "\<exists>w\<in>set (versions db'). v_id w = i \<and> v_asset w = a_id a \<and> v_status w = MediaVersionCompleted"
      if a: "a \<in> set (assets db')" "a_active a = Some i" for a i
    proof -
      obtain b where "b \<in> set (assets db)" "a_id b = a_id a" "a_active b = Some i"
        using from_old [OF a(1)] a(2) by auto
      then obtain w where w: "w \<in> set (versions db)" "v_id w = i" "v_asset w = a_id a" "v_status w = MediaVersionCompleted"
        using L(3) unfolding assets_link_def by metis
      moreover have "w \<noteq> v" using w(4) v(3) by (auto simp: open_version_def)
      ultimately show ?thesis by (auto simp: vs)
    qed
    ultimately show ?thesis by (simp add: assets_link_def)
  qed
  moreover have "outputs_link db'" using L(4) fv(4) by (auto simp: outputs_link_def vs d(5))
  moreover have "events_link db'"
    by (rule events_append [OF L(5)]) (simp_all add: d(3,6) fail_job_row_def)
  ultimately show ?thesis by (simp add: linked_def)
qed

section \<open>The operations of the job store\<close>

lemma active_not_isolated: "tables_ok db \<Longrightarrow> j \<in> set (jobs db) \<Longrightarrow> active_status j \<Longrightarrow> j_isolated_at j = None"
  using tables_ok_checks(4) by (fastforce simp: job_check_def active_status_def)

lemma agree_active:
  assumes "agree j v" "active_status j" "active_status (f j)"
    and "j_version (f j) = j_version j" "j_org (f j) = j_org j" "j_asset (f j) = j_asset j"
  shows "agree (f j) v"
  using assms by (auto simp: agree_def active_status_def)

lemma transaction_keeps:
  "P db \<Longrightarrow> (\<And>a db'. work db = Inr (a, db') \<Longrightarrow> P db') \<Longrightarrow> P (snd (transaction work db))"
  by (rule transaction_inv)

lemma linked_update_jobs:
  assumes "linked db" and "update_jobs c f db = Inr db'"
    and "\<And>j. j_version (f j) = j_version j" "\<And>j. j_id (f j) = j_id j"
    and "\<And>j v. j \<in> set (jobs db) \<Longrightarrow> c j \<Longrightarrow> v \<in> set (versions db) \<Longrightarrow> agree j v \<Longrightarrow> agree (f j) v"
  shows "linked db'"
  using update_jobs_InrD [OF assms(2)] assms(3-5)
  by (intro linked_jobs [OF assms(1), of db' c f]) auto

lemma linked_ClaimJob:
  assumes "tables_ok db" "linked db"
  shows "linked (snd (ClaimJob st jid owner now now2 t1 t2 now3 db))"
proof -
  have "linked (snd (transaction (claim_work st jid owner now now2 t1 t2 now3) db))"
  proof (rule transaction_keeps [where P = linked, OF assms(2)])
    fix r db' assume "claim_work st jid owner now now2 t1 t2 now3 db = Inr (r, db')"
    then show "linked db'"
    proof (cases rule: claim_work_InrD)
      case (1 j)
      show ?thesis
        by (rule linked_update_jobs [OF assms(2) 1(3)])
          (auto simp: claim_row_def claimable_def active_status_def agree_def)
    next
      case (2 j db1)
      let ?f = "\<lambda>r. r\<lparr>j_lease_owner := Some owner, j_lease_expires := Some (now2 + js_expiry st)\<rparr>"
      have l1: "linked db1"
        by (rule linked_update_jobs [OF assms(2) 2(4)])
          (auto simp: exhausted_def active_status_def agree_def isolated_job_def)
      have ok1: "tables_ok db1" by (rule tables_ok_update_jobs [OF assms(1) 2(4)]) simp_all
      have m: "?f j \<in> set (jobs db1)" using update_jobs_InrD [OF 2(4)] 2(2,3) by (auto intro: sql_update_memI1)
      show ?thesis
        by (rule linked_failMediaVersion [OF ok1 l1 2(5) [unfolded failExhaustedMediaJob_def] m])
          (use 2(3) in \<open>simp_all add: exhausted_def active_status_def\<close>)
    qed
  qed
  then show ?thesis using assms(2)
    by (auto simp: ClaimJob_def split: prod.splits sum.splits option.splits)
qed

lemma linked_RenewLease:
  assumes "linked db"
  shows "linked (snd (RenewLease st jid held now db))"
proof (cases "update_jobs (holds_lease jid held now) (\<lambda>j. j\<lparr>j_lease_expires := Some (now + js_expiry st)\<rparr>) db")
  case (Inr db')
  have "linked db'"
    by (rule linked_update_jobs [OF assms Inr]) (auto simp: agree_def active_status_def isolated_job_def)
  then show ?thesis using Inr by (simp add: RenewLease_def)
qed (simp add: RenewLease_def assms)

lemma linked_IsolateNotification:
  assumes "linked db"
  shows "linked (snd (IsolateNotification jid now db))"
proof (cases "update_jobs (isolatable jid) (isolate_row now) db")
  case (Inr db')
  have "linked db'"
    by (rule linked_update_jobs [OF assms Inr])
      (auto simp: agree_def active_status_def isolated_job_def isolatable_def isolate_row_def)
  then show ?thesis using Inr by (simp add: IsolateNotification_def)
qed (simp add: IsolateNotification_def assms)

lemma linked_insert_outbox:
  assumes "linked db" "insert_outbox x db = Inr db'"
  shows "linked db'"
  using insert_outbox_InrD [OF assms(2)] by (intro linked_outbox [OF assms(1)]) auto

lemma linked_SettleExecutionFailure:
  assumes "tables_ok db" "linked db"
  shows "linked (snd (SettleExecutionFailure st cd e tp job held now t1 t2 db))"
  unfolding SettleExecutionFailure_def
proof (rule transaction_keeps [where P = linked, OF assms(2)])
  fix b db' assume w: "settle_work st cd e tp job held now t1 t2 db = Inr (b, db')"
  show "linked db'"
  proof (cases b)
    case True
    then have "settle_work st cd e tp job held now t1 t2 db = Inr (True, db')" using w by simp
    then show ?thesis
    proof (cases rule: settle_work_InrD)
      case (1 cur)
      show ?thesis
        by (rule linked_failMediaVersion [OF assms 1(5) [unfolded failExhaustedMediaJob_def] 1(1)])
          (use 1(2) in \<open>simp_all add: holds_lease_def active_status_def\<close>)
    next
      case (2 cur doc db1)
      have "k = cur" if "k \<in> set (jobs db)" "j_id k = j_id cur" for k
        using job_id_unique [OF assms(1) that(1) 2(1)] that(2) by simp
      then have "linked db1"
        using 2(2) by (intro linked_update_jobs [OF assms(2) 2(6)])
          (auto simp: retry_job_row_def holds_lease_def active_status_def agree_def)
      then show ?thesis using 2(7) by (rule linked_insert_outbox)
    qed
  next
    case False
    then have "db' = db" using w settle_work_False by simp
    then show ?thesis using assms(2) by simp
  qed
qed

lemma linked_FailVersion:
  assumes "tables_ok db" "linked db" and "j \<in> set (jobs db)"
    and "fl_job fl = j_id j" "fl_version fl = j_version j" "fl_org fl = j_org j" "fl_asset fl = j_asset j"
  shows "linked (snd (FailVersion fl held now t1 t2 db))"
  unfolding FailVersion_def
proof (rule transaction_keeps [where P = linked, OF assms(2)])
  fix b db' assume w: "fail_work fl held now t1 t2 db = Inr (b, db')"
  show "linked db'"
  proof (cases "lockLeasedJob (fl_job fl) held now db")
    case None
    then show ?thesis using w assms(2) by (simp add: fail_work_def)
  next
    case (Some k)
    then have "k \<in> set (jobs db)" "holds_lease (fl_job fl) held now k" by (auto simp: lockLeasedJob_def dest: find_SomeD)
    then have "active_status j" using job_id_unique [OF assms(1) _ assms(3)] assms(4)
      by (auto simp: holds_lease_def active_status_def)
    moreover have "failMediaVersion fl t1 t2 db = Inr db'" using w Some by (auto simp: fail_work_def)
    ultimately show ?thesis using linked_failMediaVersion [OF assms(1,2) _ assms(3)] assms(4-7) by blast
  qed
qed

lemma linked_RebuildAndEnqueue:
  assumes "tables_ok db" "linked db"
  shows "linked (snd (RebuildAndEnqueue cd jid operator e now db))"
proof (cases "is_ok (fst (RebuildAndEnqueue cd jid operator e now db))")
  case True
  then obtain ev db' where r: "RebuildAndEnqueue cd jid operator e now db = (Inr ev, db')"
    by (metis is_ok_iff prod.collapse)
  then obtain job doc where d: "db' = db\<lparr>jobs := sql_update (\<lambda>j. j_id j = jid \<and> isolated_job j) (restore_row now) (jobs db),
             outbox := outbox db @ [pending_outbox e jid doc now now]\<rparr>"
    by (rule RebuildAndEnqueue_InrD)
  have "agree (restore_row now j) v" if "j \<in> set (jobs db)" "isolated_job j" "agree j v" for j v
  proof -
    have "j_isolated_at j \<noteq> None" "j_status j = ProcessingJobFailed"
      using that(2) tables_ok_checks(4) [OF assms(1) that(1)] by (auto simp: isolated_job_def job_check_def)
    then show ?thesis using that(3) by (auto simp: agree_def restore_row_def active_status_def)
  qed
  then have "linked db'"
    by (intro linked_jobs [OF assms(2), of db' "\<lambda>j. j_id j = jid \<and> isolated_job j" "restore_row now"])
      (auto simp: d restore_row_def)
  then show ?thesis using r by simp
next
  case False
  then show ?thesis using assms
    by (auto simp: RebuildAndEnqueue_def transaction_def split: if_splits sum.splits prod.splits)
qed

lemma insertReconciliation_linked:
  "insertReconciliationOutbox x db = Inr (b, db') \<Longrightarrow> linked db \<Longrightarrow> linked db'"
  by (auto simp: insertReconciliationOutbox_def split: if_splits dest: linked_insert_outbox)

lemma reconcile_all_linked:
  "reconcile_all cd now cs n db = Inr (m, db') \<Longrightarrow> linked db \<Longrightarrow> linked db'"
  by (induction cd now cs n db rule: reconcile_all.induct)
    (auto dest: insertReconciliation_linked)

lemma linked_ReconcileStaleDispatches:
  assumes "linked db"
  shows "linked (snd (ReconcileStaleDispatches cd locked n age ids now db))"
proof -
  have "linked (snd (transaction (reconcile_all cd now cs 0) db))" for cs
    by (rule transaction_keeps [where P = linked, OF assms]) (rule reconcile_all_linked [OF _ assms])
  then show ?thesis using assms by (simp add: ReconcileStaleDispatches_def Let_def)
qed

text \<open>Promotion: the version, its job and its asset change together.\<close>

lemma linked_complete_work:
  assumes "tables_ok db" "linked db" and "complete_work cm held now t1 t2 db = Inr (True, db')"
    and "k \<in> set (jobs db)" "cm_job cm = j_id k" "cm_version cm = j_version k" "cm_org cm = j_org k" "cm_asset cm = j_asset k"
  shows "linked db'"
proof -
  obtain j ns db1 db2 db3 where c:
    "j \<in> set (jobs db)" "holds_lease (cm_job cm) held now j"
    "insert_outputs (cm_outputs cm) db = Inr db1" "db1 = db\<lparr>outputs := outputs db @ ns\<rparr>"
    "requireTwoStoredOutputs (cm_version cm) db1 = Inr ()"
    "update_versions
      (\<lambda>v. v_id v = cm_version cm \<and> v_org v = cm_org cm \<and> open_version v \<and> asset_visible (v_asset v) db1)
      (complete_version_row cm t1) db1 = Inr db2"
    "promoteActiveVersion cm db2 = Inr db3"
    "update_jobs (\<lambda>j. j_id j = cm_job cm) (complete_job_row t2) db3 = Inr db'"
    by (rule complete_work_InrD [OF assms(3)])
  have jk: "j = k" using job_id_unique [OF assms(1) c(1) assms(4)] c(2) assms(5) by (simp add: holds_lease_def)
  have act: "active_status k" using c(2) jk by (simp add: holds_lease_def active_status_def)
  obtain v where v: "v \<in> set (versions db)" "agree k v" "open_version v"
    using active_open [OF assms(2,4) act] by blast
  note u1 = update_versions_InrD [OF c(6)] and u2 = promoteActiveVersion_InrD [OF c(7)] and u3 = update_jobs_InrD [OF c(8)]
  let ?fv = "complete_version_row cm t1" and ?fj = "complete_job_row t2"
  let ?fa = "\<lambda>a. a\<lparr>a_active := Some (cm_version cm), a_pending := None\<rparr>"
  let ?cv = "\<lambda>v. v_id v = cm_version cm \<and> v_org v = cm_org cm \<and> open_version v \<and> asset_visible (v_asset v) db1"
  have d: "versions db' = sql_update ?cv ?fv (versions db)" "assets db' = sql_update (promotable cm) ?fa (assets db)"
    "jobs db' = sql_update (\<lambda>j. j_id j = cm_job cm) ?fj (jobs db)" "sessions db' = sessions db"
    "outputs db' = outputs db1" "outbox db' = outbox db"
    using u1 u2 u3 c(4) by auto
  obtain a where a: "a \<in> set (assets db)" "promotable cm a" using u1 u2 c(4) by auto
  have ca: "promotable cm b \<longleftrightarrow> b = a" if "b \<in> set (assets db)" for b
    using that a distinct_map_eq [OF tables_ok_distinct(9) [OF assms(1)] that a(1)] by (auto simp: promotable_def)
  have vis: "asset_visible (v_asset v) db1"
    using a v(2) assms(8) c(4) by (auto simp: asset_visible_def sql_exists_iff promotable_def agree_def)
  have cv: "?cv w \<longleftrightarrow> w = v" if "w \<in> set (versions db)" for w
    using that v vis agree_version_unique [OF assms(1) that v(1)] assms(6,7) by (auto simp: agree_def)
  have cj: "j_id i = cm_job cm \<longleftrightarrow> i = k" if "i \<in> set (jobs db)" for i
    using that assms(5) job_id_unique [OF assms(1) that assms(4)] by auto
  have vs: "set (versions db') = insert (?fv v) (set (versions db) - {v})"
    using v(1) cv unfolding d(1) set_sql_update by auto
  have js: "set (jobs db') = insert (?fj k) (set (jobs db) - {k})"
    using assms(4) cj unfolding d(3) set_sql_update by auto
  have as: "set (assets db') = insert (?fa a) (set (assets db) - {a})"
    using a(1) ca unfolding d(2) set_sql_update by auto
  have L: "sessions_link db" "jobs_link db" "assets_link db" "outputs_link db" "events_link db"
    using assms(2) by (simp_all add: linked_def)
  have fv: "v_id (?fv w) = v_id w" "v_asset (?fv w) = v_asset w" "\<not> open_version (?fv w)" "v_status (?fv w) = MediaVersionCompleted"
    "origin s (?fv w) = origin s w" for s w
    by (simp_all add: complete_version_row_def open_version_def origin_def)
  have id: "v_id v = cm_version cm" "v_asset v = cm_asset cm" using v(2) assms(6,8) by (simp_all add: agree_def)
  have "sessions_link db'" using L(1) v(1) fv by (auto simp: sessions_link_def vs d(4))
  moreover have "jobs_link db'"
  proof -
    have x: "agree (?fj k) (?fv v)"
      using v(2) by (simp add: agree_def complete_job_row_def complete_version_row_def open_version_def)
    have b: "\<exists>w\<in>set (versions db) - {v}. agree i w" if i: "i \<in> set (jobs db)" "i \<noteq> k" for i
    proof -
      obtain w where w: "w \<in> set (versions db)" "agree i w" using L(2) i(1) by (auto simp: jobs_link_def)
      moreover have "w \<noteq> v" using job_version_unique [OF assms(1) i(1) assms(4)] i(2) w(2) v(2) by (auto simp: agree_def)
      ultimately show ?thesis by blast
    qed
    have y: "\<exists>i\<in>set (jobs db) - {k}. j_version i = v_id w" if w: "w \<in> set (versions db)" "w \<noteq> v" for w
    proof -
      obtain i where i: "i \<in> set (jobs db)" "j_version i = v_id w" using L(2) w(1) by (auto simp: jobs_link_def)
      moreover have "i \<noteq> k" using i(2) v agree_version_unique [OF assms(1) w(1) v(1)] w(2) by (auto simp: agree_def)
      ultimately show ?thesis by blast
    qed
    have e: "j_version (?fj k) = v_id (?fv v)" using v(2) by (simp add: agree_def complete_job_row_def complete_version_row_def)
    show ?thesis unfolding jobs_link_def vs js using x b y e by blast
  qed
  moreover have "assets_link db'"
  proof -
    have "\<exists>w\<in>set (versions db'). v_id w = i \<and> v_asset w = a_id b \<and> open_version w"
      if b: "b \<in> set (assets db')" "a_pending b = Some i" for b i
    proof -
      have "a_pending (?fa a) = None" by simp
      then have "b \<noteq> ?fa a" using b(2) by (metis option.distinct(1))
      then have b': "b \<in> set (assets db)" "b \<noteq> a" using b(1) by (simp_all add: as)
      then obtain w where w: "w \<in> set (versions db)" "v_id w = i" "v_asset w = a_id b" "open_version w"
        using L(3) b(2) by (auto simp: assets_link_def)
      moreover have "w \<noteq> v" using w(3) id a(2) ca [OF b'(1)] b' b(2)
          distinct_map_eq [OF tables_ok_distinct(9) [OF assms(1)] b'(1) a(1)] by (auto simp: promotable_def)
      ultimately show ?thesis by (auto simp: vs)
    qed
    moreover have "\<exists>b\<in>set (assets db'). a_id b = v_asset w \<and> a_pending b = Some (v_id w)"
      if w: "w \<in> set (versions db')" "open_version w" for w
    proof -
      have "w \<noteq> ?fv v" using w(2) fv(3) by metis
      then have w': "w \<in> set (versions db)" "w \<noteq> v" using w(1) by (simp_all add: vs)
      then obtain b where b: "b \<in> set (assets db)" "a_id b = v_asset w" "a_pending b = Some (v_id w)"
        using L(3) w(2) by (auto simp: assets_link_def)
      have "v_id w \<noteq> v_id v" using agree_version_unique [OF assms(1) w'(1) v(1)] w'(2) by blast
      then have "b \<noteq> a" using b(3) a(2) id(1) by (auto simp: promotable_def)
      then show ?thesis using b by (auto simp: as)
    qed
    moreover have "\<exists>w\<in>set (versions db'). v_id w = i \<and> v_asset w = a_id b \<and> v_status w = MediaVersionCompleted"
      if b: "b \<in> set (assets db')" "a_active b = Some i" for b i
    proof (cases "b = ?fa a")
      case True
      then show ?thesis using b(2) id a(2) fv by (auto simp: vs promotable_def)
    next
      case False
      then have "b \<in> set (assets db)" using b(1) by (simp add: as)
      then obtain w where w: "w \<in> set (versions db)" "v_id w = i" "v_asset w = a_id b" "v_status w = MediaVersionCompleted"
        using L(3) b(2) unfolding assets_link_def by metis
      moreover have "w \<noteq> v" using w(4) v(3) by (auto simp: open_version_def)
      ultimately show ?thesis by (auto simp: vs)
    qed
    ultimately show ?thesis by (simp add: assets_link_def)
  qed
  moreover have "outputs_link db'"
  proof -
    have ok1: "tables_ok db1" using insert_outputs_InrD [OF c(3)] assms(1) by blast
    have sub: "set (outputs db) \<subseteq> set (outputs db')" using c(4) by (simp add: d(5))
    have "\<exists>m\<in>set (outputs db'). m_version m = v_id w \<and> m_kind m = kind"
      if w: "w \<in> set (versions db')" "v_status w = MediaVersionCompleted" and kind: "kind = MediaOutputThumbnail \<or> kind = MediaOutputWeb"
      for w kind
    proof (cases "w = ?fv v")
      case True
      then have "v_id w = cm_version cm" using id(1) fv(1) by metis
      then show ?thesis using stored_kinds [OF ok1 c(5) kind] by (simp add: d(5))
    next
      case False
      then have "w \<in> set (versions db)" using w(1) by (simp add: vs)
      then have "\<exists>m\<in>set (outputs db). m_version m = v_id w \<and> m_kind m = kind"
        using L(4) w(2) kind unfolding outputs_link_def by metis
      then show ?thesis using sub by blast
    qed
    then show ?thesis unfolding outputs_link_def by metis
  qed
  moreover have "events_link db'"
    by (rule events_append [OF L(5)]) (simp_all add: d(3,6) complete_job_row_def)
  ultimately show ?thesis by (simp add: linked_def)
qed

lemma linked_CompleteAndPromote:
  assumes "tables_ok db" "linked db"
    and "k \<in> set (jobs db)" "cm_job cm = j_id k" "cm_version cm = j_version k" "cm_org cm = j_org k" "cm_asset cm = j_asset k"
  shows "linked (snd (CompleteAndPromote cm held now t1 t2 db))"
proof -
  have "linked (snd (transaction (complete_work cm held now t1 t2) db))"
  proof (rule transaction_keeps [where P = linked, OF assms(2)])
    fix b db' assume w: "complete_work cm held now t1 t2 db = Inr (b, db')"
    show "linked db'"
    proof (cases b)
      case True
      then show ?thesis using w linked_complete_work [OF assms(1,2) _ assms(3-7)] by simp
    next
      case False
      then have "db' = db" using w complete_work_False by simp
      then show ?thesis using assms(2) by simp
    qed
  qed
  then show ?thesis using assms(2) by (auto simp: CompleteAndPromote_def split: sum.splits)
qed

section \<open>The operations on sessions\<close>

text \<open>What every operation on open sessions does to the tables: sessions that are not open stay as they are.\<close>

definition session_frame :: "db \<Rightarrow> db \<Rightarrow> bool" where
  "session_frame db db' \<longleftrightarrow>
     versions db' = versions db \<and> jobs db' = jobs db \<and> assets db' = assets db \<and> outputs db' = outputs db
     \<and> outbox db' = outbox db
     \<and> (\<forall>s\<in>set (sessions db). s_state s \<noteq> UploadSessionCreated \<longrightarrow> s \<in> set (sessions db'))
     \<and> (\<forall>s\<in>set (sessions db). \<exists>t\<in>set (sessions db'). s_id t = s_id s \<and> s_org t = s_org s \<and> s_size t = s_size s)
     \<and> (\<forall>s\<in>set (sessions db'). s_state s = UploadSessionCreated \<longrightarrow>
          s_purged_at s = None \<or> (\<exists>t\<in>set (sessions db). s_state t = UploadSessionCreated \<and> s_purged_at t = s_purged_at s))"

lemma session_frame_refl: "session_frame db db"
  by (auto simp: session_frame_def)

lemma session_frame_trans:
  assumes "session_frame a b" "session_frame b c"
  shows "session_frame a c"
proof -
  have f: "\<forall>s\<in>set (sessions x). \<exists>t\<in>set (sessions y). s_id t = s_id s \<and> s_org t = s_org s \<and> s_size t = s_size s"
    "\<forall>s\<in>set (sessions y). s_state s = UploadSessionCreated \<longrightarrow>
       s_purged_at s = None \<or> (\<exists>t\<in>set (sessions x). s_state t = UploadSessionCreated \<and> s_purged_at t = s_purged_at s)"
    if "session_frame x y" for x y using that by (simp_all add: session_frame_def)
  have "\<exists>t\<in>set (sessions c). s_id t = s_id s \<and> s_org t = s_org s \<and> s_size t = s_size s"
    if "s \<in> set (sessions a)" for s
    using f(1) [OF assms(1)] f(1) [OF assms(2)] that by metis
  moreover have "s_purged_at s = None
      \<or> (\<exists>t\<in>set (sessions a). s_state t = UploadSessionCreated \<and> s_purged_at t = s_purged_at s)"
    if "s \<in> set (sessions c)" "s_state s = UploadSessionCreated" for s
    using f(2) [OF assms(1)] f(2) [OF assms(2)] that by metis
  ultimately show ?thesis using assms by (simp add: session_frame_def)
qed

lemma linked_session_frame:
  assumes "linked db" "session_frame db db'"
  shows "linked db'"
proof (rule linked_sessions [OF assms(1)])
  show "s_purged_at s = None" if "s \<in> set (sessions db')" "s_state s = UploadSessionCreated" for s
  proof -
    have "\<forall>t\<in>set (sessions db). s_state t = UploadSessionCreated \<longrightarrow> s_purged_at t = None"
      using assms(1) by (simp add: linked_def sessions_link_def)
    then show ?thesis using assms(2) that unfolding session_frame_def by metis
  qed
qed (use assms(2) in \<open>auto simp: session_frame_def\<close>)

lemma session_frame_update:
  assumes "sessions db' = sql_update c f (sessions db)" "versions db' = versions db" "jobs db' = jobs db"
      "assets db' = assets db" "outputs db' = outputs db" "outbox db' = outbox db"
    and "\<And>s. s \<in> set (sessions db) \<Longrightarrow> c s \<Longrightarrow> s_state s = UploadSessionCreated"
    and "\<And>s. s_purged_at (f s) = s_purged_at s"
    and "\<And>s. s_id (f s) = s_id s \<and> s_org (f s) = s_org s \<and> s_size (f s) = s_size s"
  shows "session_frame db db'"
proof -
  have "\<exists>t\<in>set (sessions db'). s_id t = s_id s \<and> s_org t = s_org s \<and> s_size t = s_size s"
    if s: "s \<in> set (sessions db)" for s
  proof (cases "c s")
    case True
    have "f s \<in> set (sessions db')" unfolding assms(1) using s True by (rule sql_update_memI1)
    then show ?thesis using assms(9) by blast
  next
    case False
    have "s \<in> set (sessions db')" unfolding assms(1) using s False by (rule sql_update_memI2)
    then show ?thesis by blast
  qed
  moreover
  have "s \<in> set (sessions db')" if "s \<in> set (sessions db)" "s_state s \<noteq> UploadSessionCreated" for s
    using that assms(7) unfolding assms(1) by (intro sql_update_memI2) auto
  moreover have "s_purged_at s = None \<or> (\<exists>t\<in>set (sessions db). s_state t = UploadSessionCreated \<and> s_purged_at t = s_purged_at s)"
    if "s \<in> set (sessions db')" "s_state s = UploadSessionCreated" for s
    using that(1) unfolding assms(1)
  proof (rule sql_update_memE)
    fix r assume "r \<in> set (sessions db)" "c r" "s = f r"
    then show ?thesis using assms(7,8) by (metis)
  next
    assume "s \<in> set (sessions db)"
    then show ?thesis using that(2) by metis
  qed
  ultimately show ?thesis using assms(2-6) by (simp add: session_frame_def)
qed

lemma session_frame_reclaim: "reclaimExpiredSessions og asset now db = Inr db' \<Longrightarrow> session_frame db db'"
  by (rule session_frame_update [where c = "reclaimable og asset now"
        and f = "\<lambda>s. s\<lparr>s_state := UploadSessionExpired, s_expired_at := Some now\<rparr>"])
    (auto simp: reclaimExpiredSessions_def Let_def releaseReservation_def reclaimable_def split: if_splits
      dest!: update_usage_InrD)

lemma session_frame_usage: "session_frame db (db\<lparr>usage := us\<rparr>)"
  by (auto simp: session_frame_def)

lemma session_frame_create:
  assumes "create_session_work sha256 r opt ext now1 now2 db = Inr ((s, replayed), db')"
  shows "session_frame db db'"
  using assms
proof (cases rule: create_session_work_InrD)
  case (1 u asset db1)
  then show ?thesis using lockOrganizationUsageRow_InrD [OF 1(1)] session_frame_refl session_frame_usage by blast
next
  case (2 u asset db1)
  have f1: "session_frame db db1"
    using lockOrganizationUsageRow_InrD [OF 2(1)] session_frame_refl session_frame_usage by blast
  obtain db2 db3 where o: "reclaimExpiredSessions (req_org r) (req_asset r) now1 db1 = Inr db2"
    "reserveQuota (req_org r) (req_size r) db2 = Inr db3" "insert_session s db3 = Inr db'"
    and s: "s = new_session sha256 r opt ext now2"
    using open_session_InrD [OF 2(5)] by blast
  have "s_purged_at s = None" by (simp add: s new_session_def)
  then have "session_frame db2 db'"
    using reserveQuota_InrD [OF o(2)] insert_session_InrD [OF o(3)] by (auto simp: session_frame_def)
  then show ?thesis using f1 session_frame_reclaim [OF o(1)] session_frame_trans by blast
qed

lemma session_frame_CreateUploadSession:
  "session_frame db (snd (CreateUploadSession sha256 r opt t1 t2 db))"
proof -
  have "session_frame db (snd (transaction (create_session_work sha256 r opt ext t1 t2) db))" for ext
    by (rule transaction_keeps [where P = "session_frame db", OF session_frame_refl]) (auto intro: session_frame_create)
  then show ?thesis by (simp add: CreateUploadSession_def session_frame_refl split: option.split)
qed

lemma session_frame_RefreshUploadSession:
  "session_frame db (snd (RefreshUploadSession scope ce now db))"
  unfolding RefreshUploadSession_def
proof (rule transaction_keeps [where P = "session_frame db", OF session_frame_refl])
  fix a db' assume w: "refresh_work scope ce now db = Inr (a, db')"
  obtain i where "db' = db\<lparr>sessions := sql_update (open_with_id i) (\<lambda>r. r\<lparr>s_credential_expires := ce\<rparr>) (sessions db)\<rparr>"
    using w by (auto simp: refresh_work_def split: if_splits)
  then show "session_frame db db'"
    by (intro session_frame_update [where c = "open_with_id i" and f = "\<lambda>r. r\<lparr>s_credential_expires := ce\<rparr>"])
      (auto simp: open_with_id_def)
qed

lemma session_frame_transition:
  "session_frame db (snd (transitionOpenUploadSession scope target now db))"
proof -
  have "session_frame db (snd (transaction (transition_work scope target now) db))"
  proof (rule transaction_keeps [where P = "session_frame db", OF session_frame_refl])
    fix a db' assume "transition_work scope target now db = Inr (a, db')"
    from transition_work_InrD [OF this] show "session_frame db db'"
    proof
      assume "\<exists>s db1. s \<in> set (sessions db) \<and> s_state s = UploadSessionCreated
        \<and> releaseReservation (s_org s) (s_size s) db = Inr db1
        \<and> db' = db1\<lparr>sessions := sql_update (open_with_id (s_id s)) (close_session target now) (sessions db1)\<rparr>"
      then obtain s db1 where "s \<in> set (sessions db)" "s_state s = UploadSessionCreated"
        and d: "releaseReservation (s_org s) (s_size s) db = Inr db1"
        "db' = db1\<lparr>sessions := sql_update (open_with_id (s_id s)) (close_session target now) (sessions db1)\<rparr>" by blast
      show ?thesis
        by (rule session_frame_update [where c = "open_with_id (s_id s)" and f = "close_session target now"])
          (use d in \<open>auto simp: open_with_id_def close_session_def releaseReservation_def dest!: update_usage_InrD\<close>)
    qed (simp add: session_frame_refl)
  qed
  then show ?thesis by (simp add: transitionOpenUploadSession_def session_frame_refl)
qed

lemma expire_one_work_InrD:
  assumes "expire_one_work c now db = Inr (b, db')"
  shows "db' = db \<or> releaseReservation (s_org c) (s_size c)
      (db\<lparr>sessions := sql_update (\<lambda>s. s_id s = s_id c \<and> s_org s = s_org c \<and> expirable now s)
          (\<lambda>s. s\<lparr>s_state := UploadSessionExpired, s_expired_at := Some now\<rparr>) (sessions db)\<rparr>) = Inr db'
      \<and> (\<exists>s\<in>set (sessions db). s_id s = s_id c \<and> s_org s = s_org c \<and> expirable now s)"
  using assms by (auto simp: expire_one_work_def Let_def split: if_splits)

lemma session_frame_expire_one: "session_frame db (snd (expire_one c now db))"
  unfolding expire_one_def
proof (rule transaction_keeps [where P = "session_frame db", OF session_frame_refl])
  fix b db' assume "expire_one_work c now db = Inr (b, db')"
  from expire_one_work_InrD [OF this] show "session_frame db db'"
  proof
    assume r: "releaseReservation (s_org c) (s_size c)
      (db\<lparr>sessions := sql_update (\<lambda>s. s_id s = s_id c \<and> s_org s = s_org c \<and> expirable now s)
          (\<lambda>s. s\<lparr>s_state := UploadSessionExpired, s_expired_at := Some now\<rparr>) (sessions db)\<rparr>) = Inr db'
      \<and> (\<exists>s\<in>set (sessions db). s_id s = s_id c \<and> s_org s = s_org c \<and> expirable now s)"
    show ?thesis
      by (rule session_frame_update [where c = "\<lambda>s. s_id s = s_id c \<and> s_org s = s_org c \<and> expirable now s"
            and f = "\<lambda>s. s\<lparr>s_state := UploadSessionExpired, s_expired_at := Some now\<rparr>"])
        (use r in \<open>auto simp: expirable_def releaseReservation_def dest!: update_usage_InrD\<close>)
  qed (simp add: session_frame_refl)
qed

section \<open>Commits\<close>

lemma linked_commit_rows:
  assumes "tables_ok db" "linked db" and "commit_rows cd s attributes ids tp now db = Inr db'"
    and "s \<in> set (sessions db)" "s_state s = UploadSessionCreated" "verifyStoredObject s attributes = Inr ()"
    and "new_version ids \<noteq> []"
  shows "linked db'"
proof -
  let ?close = "\<lambda>r. r\<lparr>s_state := UploadSessionCommitted, s_committed_at := Some now\<rparr>"
  let ?v = "new_version_row s attributes (new_version ids) now"
  let ?j = "new_job_row s (new_version ids) (new_job ids) now"
  note fr = commit_frame [OF assms(3)]
  have L: "sessions_link db" "jobs_link db" "assets_link db" "outputs_link db" "events_link db"
    using assms(2) by (simp_all add: linked_def)
  have ok': "tables_ok db'" by (rule tables_ok_commit_rows [OF assms(1,3)])
  obtain g where g: "assets db' = sql_update g (\<lambda>a. a\<lparr>a_pending := Some (new_version ids)\<rparr>) (assets db)"
    "\<forall>a. g a \<longrightarrow> a_id a = s_asset s \<and> a_pending a = None" "\<exists>a\<in>set (assets db). g a"
    using fr(6) by blast
  obtain doc where x: "outbox db' = outbox db @ [pending_outbox (new_outbox ids) (new_job ids) doc now now]" using fr(7) by blast
  have op: "open_version ?v" "v_id ?v = new_version ids" "v_asset ?v = s_asset s"
    by (simp_all add: new_version_row_def open_version_def)
  have keep: "t \<in> set (sessions db')" if "t \<in> set (sessions db)" "s_state t = UploadSessionCommitted" for t
    using that unfolding fr(3) by (intro sql_update_memI2) (auto simp: open_with_id_def)
  have "s_purged_at s = None" using L(1) assms(4,5) by (simp add: sessions_link_def)
  then have sv: "origin (?close s) ?v"
    using assms(6) by (simp add: origin_def new_version_row_def verifyStoredObject_Inr)
  have sin: "?close s \<in> set (sessions db')"
    unfolding fr(3) using assms(4) by (rule sql_update_memI1) (simp add: open_with_id_def assms(5))
  have "sessions_link db'"
  proof -
    have "\<exists>t\<in>set (sessions db'). origin t w" if w: "w \<in> set (versions db)" for w
    proof -
      obtain t where "t \<in> set (sessions db)" "origin t w" using L(1) w by (auto simp: sessions_link_def)
      then show ?thesis using keep by (auto simp: origin_def)
    qed
    moreover have "s_purged_at t = None" if t: "t \<in> set (sessions db')" "s_state t = UploadSessionCreated" for t
      using t(1) unfolding fr(3)
    proof (rule sql_update_memE)
      fix r assume "t = ?close r"
      then show ?thesis using t(2) by simp
    next
      assume "t \<in> set (sessions db)"
      then show ?thesis using L(1) t(2) by (simp add: sessions_link_def)
    qed
    ultimately show ?thesis using L(1) sv sin op(2) assms(7) by (auto simp: sessions_link_def fr(4))
  qed
  moreover have "jobs_link db'"
  proof -
    have "agree ?j ?v" by (simp add: agree_def new_job_row_def new_version_row_def open_version_def active_status_def)
    moreover have "j_version ?j = v_id ?v" by (simp add: new_job_row_def new_version_row_def)
    ultimately show ?thesis using L(2) unfolding jobs_link_def fr(4,5) by (auto 0 3)
  qed
  moreover have "assets_link db'"
  proof -
    let ?f = "\<lambda>a. a\<lparr>a_pending := Some (new_version ids)\<rparr>"
    have old: "\<exists>w\<in>set (versions db). v_id w = i \<and> v_asset w = a_id a \<and> open_version w"
      if "a \<in> set (assets db)" "a_pending a = Some i" for a i
      using L(3) that unfolding assets_link_def by metis
    have act: "\<exists>w\<in>set (versions db). v_id w = i \<and> v_asset w = a_id a \<and> v_status w = MediaVersionCompleted"
      if "a \<in> set (assets db)" "a_active a = Some i" for a i
      using L(3) that unfolding assets_link_def by metis
    have "\<exists>w\<in>set (versions db'). v_id w = i \<and> v_asset w = a_id a \<and> open_version w"
      if a: "a \<in> set (assets db')" "a_pending a = Some i" for a i
      using a(1) unfolding g(1)
    proof (rule sql_update_memE)
      fix r assume "r \<in> set (assets db)" "g r" "a = ?f r"
      then show ?thesis using g(2) a(2) op by (auto simp: fr(4))
    next
      assume "a \<in> set (assets db)"
      then show ?thesis using old a(2) by (auto simp: fr(4))
    qed
    moreover have "\<exists>a\<in>set (assets db'). a_id a = v_asset w \<and> a_pending a = Some (v_id w)"
      if w: "w \<in> set (versions db')" "open_version w" for w
    proof (cases "w = ?v")
      case True
      obtain a where a: "a \<in> set (assets db)" "g a" using g(3) by blast
      then have "?f a \<in> set (assets db')" unfolding g(1) by (rule sql_update_memI1)
      moreover have "a_id a = s_asset s" using g(2) a(2) by blast
      ultimately show ?thesis using True op by (intro bexI [of _ "?f a"]) simp_all
    next
      case False
      then have "w \<in> set (versions db)" using w(1) by (simp add: fr(4))
      then obtain a where a: "a \<in> set (assets db)" "a_id a = v_asset w" "a_pending a = Some (v_id w)"
        using L(3) w(2) unfolding assets_link_def by metis
      then have "\<not> g a" using g(2) by auto
      then have "a \<in> set (assets db')" unfolding g(1) using a(1) by (intro sql_update_memI2)
      then show ?thesis using a by blast
    qed
    moreover have "\<exists>w\<in>set (versions db'). v_id w = i \<and> v_asset w = a_id a \<and> v_status w = MediaVersionCompleted"
      if a: "a \<in> set (assets db')" "a_active a = Some i" for a i
      using a(1) unfolding g(1)
    proof (rule sql_update_memE)
      fix r assume "r \<in> set (assets db)" "a = ?f r"
      then show ?thesis using act [of r i] a(2) by (auto simp: fr(4))
    next
      assume "a \<in> set (assets db)"
      then show ?thesis using act a(2) by (auto simp: fr(4))
    qed
    ultimately show ?thesis unfolding assets_link_def by blast
  qed
  moreover have "outputs_link db'"
    using L(4) op(1) by (auto simp: outputs_link_def fr(4,8) open_version_def)
  moreover have "events_link db'"
    using L(5) by (auto simp: events_link_def fr(5) x new_job_row_def pending_outbox_def dispatched_def unpublished_def)
  ultimately show ?thesis by (simp add: linked_def)
qed

lemma linked_commit_transaction:
  assumes "tables_ok db" "linked db" and "new_version ids \<noteq> []"
  shows "linked (snd (commit_transaction cd r attributes ids tp now1 now2 db))"
  unfolding commit_transaction_def
proof (rule transaction_keeps [where P = linked, OF assms(2)])
  fix a db' assume w: "commit_work cd r attributes ids tp now1 now2 db = Inr (a, db')"
  then obtain acc replayed where a: "a = (acc, replayed)" by (cases a)
  show "linked db'"
    using w unfolding a
    by (cases rule: commit_work_InrD) (use assms(2) linked_commit_rows [OF assms(1,2)] assms(3) in blast)+
qed

section \<open>The relay\<close>

lemma linked_outbox_update:
  assumes "linked db" and "\<And>x. x_job (f x) = x_job x" "\<And>x. c x \<Longrightarrow> dispatched x \<Longrightarrow> dispatched (f x)"
  shows "linked (db\<lparr>outbox := sql_update c f (outbox db)\<rparr>)"
proof (rule linked_outbox [OF assms(1)])
  fix x assume x: "x \<in> set (outbox db)" "dispatched x"
  show "\<exists>y\<in>set (outbox (db\<lparr>outbox := sql_update c f (outbox db)\<rparr>)). x_job y = x_job x \<and> dispatched y"
  proof (cases "c x")
    case True
    then have "f x \<in> set (sql_update c f (outbox db))" using x(1) by (intro sql_update_memI1)
    then show ?thesis using assms(2,3) True x(2) by auto
  next
    case False
    then have "x \<in> set (sql_update c f (outbox db))" using x(1) by (intro sql_update_memI2)
    then show ?thesis using x(2) by auto
  qed
qed simp_all

lemma linked_MarkPublished: "linked db \<Longrightarrow> linked (snd (MarkPublished e l at now db))"
  by (auto simp: MarkPublished_def published_row_def dispatched_def intro!: linked_outbox_update)

lemma linked_Reschedule: "linked db \<Longrightarrow> linked (snd (Reschedule e l due n c now db))"
  by (auto simp: Reschedule_def Let_def rescheduled_row_def dispatched_def unpublished_def intro!: linked_outbox_update)

lemma linked_Claim: "linked db \<Longrightarrow> linked (snd (Claim st isUUID locked now owner limit db))"
proof -
  assume l: "linked db"
  have "linked (db\<lparr>outbox := sql_update (\<lambda>x. x_id x \<in> set ids) (publishing_row st owner now) (outbox db)\<rparr>)" for ids
    by (rule linked_outbox_update [OF l]) (auto simp: publishing_row_def dispatched_def unpublished_def)
  then show ?thesis using l by (simp add: Claim_def Let_def)
qed

section \<open>Purging\<close>

text \<open>
  What a claimed batch says, as long as the tables only move forward: its session is closed and has no
  version, or its version is a failed one of that size.
\<close>

definition batch_ok :: "db \<Rightarrow> purgeable \<Rightarrow> bool" where
  "batch_ok db b \<longleftrightarrow>
     (if pg_version b = []
      then \<exists>s\<in>set (sessions db). s_id s = pg_upload b \<and> s_state s \<noteq> UploadSessionCreated
             \<and> s_state s \<noteq> UploadSessionCommitted
      else \<exists>v\<in>set (versions db). v_id v = pg_version b \<and> v_upload v = pg_upload b \<and> v_org v = pg_org b
             \<and> v_size v = pg_stored b \<and> v_status v = MediaVersionFailed)"

lemma claimed_batch_ok:
  assumes "tables_ok db" "linked db" and "ClaimPurgeableMediaObjects quarantine limit now db = Inr bs" "b \<in> set bs"
  shows "batch_ok db b"
proof -
  have col: "collect f xs = Inr ys \<Longrightarrow> y \<in> set ys \<Longrightarrow> \<exists>x\<in>set xs. f x = Inr y"
    for f :: "session_row \<Rightarrow> purgeable result" and xs ys y
    by (induction xs arbitrary: ys) auto
  obtain s where s: "s \<in> set (sessions db)" "purge_due quarantine now db s" "purge_batch db s = Inr b"
    using assms(3,4)
    by (auto simp: ClaimPurgeableMediaObjects_def order_by_def split: if_splits dest!: col in_set_takeD)
  show ?thesis
  proof (cases "version_of_session s db")
    case None
    then show ?thesis using s by (auto simp: purge_batch_def batch_ok_def purge_due_def)
  next
    case (Some v)
    then have v: "v \<in> set (versions db)" "v_upload v = s_id s"
      by (auto simp: version_of_session_def dest: find_SomeD)
    then obtain t where t: "t \<in> set (sessions db)" "origin t v" "v_id v \<noteq> []"
      using assms(2) by (auto simp: linked_def sessions_link_def)
    have "t = s" using distinct_map_eq [OF tables_ok_distinct(1) [OF assms(1)] t(1) s(1)] t(2) v(2)
      by (simp add: origin_def)
    then show ?thesis using t v s Some by (auto simp: purge_batch_def purge_due_def batch_ok_def origin_def)
  qed
qed

lemma sessions_unique:
  "tables_ok db \<Longrightarrow> s \<in> set (sessions db) \<Longrightarrow> t \<in> set (sessions db) \<Longrightarrow> s_id s = s_id t \<Longrightarrow> s = t"
  using tables_ok_distinct(1) distinct_map_eq by metis

text \<open>Marking a claimed batch keeps the links, and the ledger exact.\<close>

lemma mark_purged_links:
  assumes ok: "tables_ok db" and l: "linked db" and b: "batch_ok db b" and w: "mark_purged_work b now db = Inr (u, db')"
  shows "linked db'"
  using w
proof (cases rule: mark_purged_work_InrD)
  case marked
  let ?c = "\<lambda>s. s_id s = pg_upload b \<and> s_org s = pg_org b \<and> s_purged_at s = None"
  let ?f = "\<lambda>s. s\<lparr>s_purged_at := Some now\<rparr>"
  have L: "sessions_link db" "jobs_link db" "assets_link db" "outputs_link db" "events_link db"
    using l by (simp_all add: linked_def)
  have created: "s_state s \<noteq> UploadSessionCreated" if s: "s \<in> set (sessions db)" "?c s" for s
  proof (cases "pg_version b = []")
    case True
    then obtain t where "t \<in> set (sessions db)" "s_id t = pg_upload b" "s_state t \<noteq> UploadSessionCreated"
      using b by (auto simp: batch_ok_def)
    then show ?thesis using sessions_unique [OF ok s(1), of t] s(2) by simp
  next
    case False
    then obtain v where v: "v \<in> set (versions db)" "v_upload v = pg_upload b" using b by (auto simp: batch_ok_def)
    then obtain t where "t \<in> set (sessions db)" "origin t v" using L(1) by (auto simp: sessions_link_def)
    then show ?thesis using sessions_unique [OF ok s(1), of t] s(2) v(2) by (auto simp: origin_def)
  qed
  have purged: "s_purged_at s = None" if s: "s \<in> set (sessions db')" "s_state s = UploadSessionCreated" for s
    using s(1) unfolding marked(1)
  proof (rule sql_update_memE)
    fix r assume "r \<in> set (sessions db)" "?c r" "s = ?f r"
    then show ?thesis using created s(2) by auto
  next
    assume "s \<in> set (sessions db)"
    then show ?thesis using L(1) s(2) by (simp add: sessions_link_def)
  qed
  show ?thesis
  proof (cases "pg_version b = []")
    case True
    then have d: "outputs db' = outputs db" "versions db' = versions db" using marked(3) by auto
    obtain t where t: "t \<in> set (sessions db)" "s_id t = pg_upload b" "s_state t \<noteq> UploadSessionCommitted"
      using b True by (auto simp: batch_ok_def)
    show ?thesis
    proof (rule linked_sessions [OF l d(2) marked(4,6) d(1) marked(5) _ purged])
      fix s assume s: "s \<in> set (sessions db)" "s_state s = UploadSessionCommitted"
      then have "\<not> ?c s" using sessions_unique [OF ok s(1) t(1)] t(2,3) by auto
      then show "s \<in> set (sessions db')" unfolding marked(1) using s(1) by (intro sql_update_memI2)
    qed
  next
    case False
    let ?fv = "\<lambda>v. v\<lparr>v_raw_retained := False\<rparr>"
    have d: "outputs db' = sql_delete (\<lambda>m. m_version m = pg_version b) (outputs db)"
      "versions db' = sql_update (\<lambda>v. v_id v = pg_version b) ?fv (versions db)" using marked(3) False by auto
    obtain v where v: "v \<in> set (versions db)" "v_id v = pg_version b" "v_upload v = pg_upload b"
      "v_status v = MediaVersionFailed" using b False by (auto simp: batch_ok_def)
    have only: "w = v" if "w \<in> set (versions db)" "v_id w = pg_version b" for w
      using agree_version_unique [OF ok that(1) v(1)] that(2) v(2) by simp
    have fr: "v_id (?fv w) = v_id w" "v_asset (?fv w) = v_asset w" "v_status (?fv w) = v_status w"
      "open_version (?fv w) = open_version w" "agree j (?fv w) = agree j w" for w j
      by (simp_all add: agree_def open_version_def)
    have old_of: "\<exists>w'\<in>set (versions db). w = (if v_id w' = pg_version b then ?fv w' else w')"
      if "w \<in> set (versions db')" for w using that unfolding d(2) set_sql_update by blast
    have new_of: "(if v_id w = pg_version b then ?fv w else w) \<in> set (versions db')"
      if "w \<in> set (versions db)" for w using that unfolding d(2) set_sql_update by blast
    have new_of': "\<exists>w'\<in>set (versions db'). v_id w' = v_id w \<and> v_asset w' = v_asset w \<and> v_status w' = v_status w
        \<and> open_version w' = open_version w \<and> (\<forall>j. agree j w' = agree j w)" if "w \<in> set (versions db)" for w
      by (rule bexI [OF _ new_of [OF that]]) (simp add: fr)
    have old_of': "\<exists>w'\<in>set (versions db). v_id w' = v_id w \<and> v_asset w' = v_asset w \<and> v_status w' = v_status w
        \<and> open_version w' = open_version w" if "w \<in> set (versions db')" for w
      using old_of [OF that] fr by (auto split: if_splits)
    have "sessions_link db'"
    proof -
      have "v_id w \<noteq> [] \<and> (\<exists>s\<in>set (sessions db'). origin s w)" if w: "w \<in> set (versions db')" for w
      proof -
        obtain x where x: "x \<in> set (versions db)" "w = (if v_id x = pg_version b then ?fv x else x)"
          using old_of [OF w] by blast
        obtain s where s: "s \<in> set (sessions db)" "origin s x" "v_id x \<noteq> []"
          using L(1) x(1) by (auto simp: sessions_link_def)
        show ?thesis
        proof (cases "v_id x = pg_version b")
          case True
          then have xv: "x = v" using only x(1) by blast
          obtain r where r: "r \<in> set (sessions db)" "?c r" using marked(2) by blast
          have "r = s" using sessions_unique [OF ok r(1) s(1)] r(2) s(2) xv v(3) by (auto simp: origin_def)
          then have "?f s \<in> set (sessions db')" unfolding marked(1) using r by (auto intro: sql_update_memI1)
          moreover have "origin (?f s) w" using s(2) x(2) True by (simp add: origin_def)
          ultimately show ?thesis using s(3) x(2) True by auto
        next
          case False
          have "\<not> ?c s"
          proof
            assume "?c s"
            obtain t where t: "t \<in> set (sessions db)" "origin t v" using L(1) v(1) by (auto simp: sessions_link_def)
            then have "s = t" using sessions_unique [OF ok s(1) t(1)] \<open>?c s\<close> v(3) by (simp add: origin_def)
            then have "v_upload x = v_upload v" using s(2) t(2) by (simp add: origin_def)
            then have "x = v" using distinct_map_eq [OF tables_ok_distinct(3) [OF ok] x(1) v(1)] by simp
            then show False using False v(2) by simp
          qed
          then have "s \<in> set (sessions db')" unfolding marked(1) using s(1) by (intro sql_update_memI2)
          then show ?thesis using s x(2) False by auto
        qed
      qed
      then show ?thesis using purged by (simp add: sessions_link_def)
    qed
    moreover have "jobs_link db'"
    proof -
      have "\<exists>j\<in>set (jobs db). j_version j = v_id w" if w: "w \<in> set (versions db')" for w
      proof -
        obtain x where "x \<in> set (versions db)" "v_id x = v_id w" using old_of' [OF w] by blast
        then show ?thesis using L(2) unfolding jobs_link_def by metis
      qed
      moreover have "\<exists>w\<in>set (versions db'). agree j w" if j: "j \<in> set (jobs db)" for j
      proof -
        obtain x where "x \<in> set (versions db)" "agree j x" using L(2) j unfolding jobs_link_def by metis
        then show ?thesis using new_of' by blast
      qed
      ultimately show ?thesis by (simp add: jobs_link_def marked(4))
    qed
    moreover have "assets_link db'"
    proof -
      have "\<exists>w\<in>set (versions db'). v_id w = i \<and> v_asset w = a_id a \<and> open_version w"
        if a: "a \<in> set (assets db)" "a_pending a = Some i" for a i
      proof -
        obtain x where "x \<in> set (versions db)" "v_id x = i" "v_asset x = a_id a" "open_version x"
          using L(3) a unfolding assets_link_def by metis
        then show ?thesis using new_of' [of x] by auto
      qed
      moreover have "\<exists>w\<in>set (versions db'). v_id w = i \<and> v_asset w = a_id a \<and> v_status w = MediaVersionCompleted"
        if a: "a \<in> set (assets db)" "a_active a = Some i" for a i
      proof -
        obtain x where "x \<in> set (versions db)" "v_id x = i" "v_asset x = a_id a" "v_status x = MediaVersionCompleted"
          using L(3) a unfolding assets_link_def by metis
        then show ?thesis using new_of' [of x] by auto
      qed
      moreover have "\<exists>a\<in>set (assets db). a_id a = v_asset w \<and> a_pending a = Some (v_id w)"
        if w: "w \<in> set (versions db')" "open_version w" for w
      proof -
        obtain x where "x \<in> set (versions db)" "v_id x = v_id w" "v_asset x = v_asset w" "open_version x"
          using old_of' [OF w(1)] w(2) by auto
        then show ?thesis using L(3) unfolding assets_link_def by metis
      qed
      ultimately show ?thesis by (simp add: assets_link_def marked(6))
    qed
    moreover have "outputs_link db'"
    proof -
      have "\<exists>m\<in>set (outputs db'). m_version m = v_id w \<and> m_kind m = kind"
        if w: "w \<in> set (versions db')" "v_status w = MediaVersionCompleted"
          and kind: "kind = MediaOutputThumbnail \<or> kind = MediaOutputWeb" for w kind
      proof -
        obtain x where x: "x \<in> set (versions db)" "v_id x = v_id w" "v_status x = MediaVersionCompleted"
          using old_of' [OF w(1)] w(2) by auto
        then have "v_id w \<noteq> pg_version b" using only [of x] v(4) by auto
        moreover obtain m where "m \<in> set (outputs db)" "m_version m = v_id w" "m_kind m = kind"
          using L(4) x kind unfolding outputs_link_def by metis
        ultimately show ?thesis unfolding d(1) by auto
      qed
      then show ?thesis unfolding outputs_link_def by metis
    qed
    moreover have "events_link db'" using L(5) by (simp add: events_link_def marked(4,5))
    ultimately show ?thesis by (simp add: linked_def)
  qed
qed (use l in simp)

lemma mark_purged_ledger:
  assumes ok: "tables_ok db" and l: "linked db" and lg: "ledger_ok db" and b: "batch_ok db b"
    and w: "mark_purged_work b now db = Inr (u, db')"
  shows "ledger_ok db'"
  using w
proof (cases rule: mark_purged_work_InrD)
  case marked
  have ss: "reserved_total og db' = reserved_total og db" for og
    unfolding reserved_total_def marked(1) by (rule sql_sum_update_same) (simp add: reserved_weight_def)
  have so: "s_org ` set (sessions db') = s_org ` set (sessions db)"
    unfolding marked(1) by (rule orgs_sql_update) simp
  show ?thesis
  proof (cases "pg_version b = []")
    case True
    then have "versions db' = versions db" "usage db' = usage db" using marked(3) by auto
    moreover have "\<forall>s\<in>set (sessions db'). s_org s \<in> us_org ` set (usage db)"
    proof
      fix s assume "s \<in> set (sessions db')"
      then have "s_org s \<in> s_org ` set (sessions db)" unfolding so [symmetric] by (rule imageI)
      then show "s_org s \<in> us_org ` set (usage db)" using lg by (auto simp: ledger_ok_def)
    qed
    ultimately show ?thesis using lg ss by (simp add: ledger_ok_def stored_total_def)
  next
    case False
    let ?fv = "\<lambda>v. v\<lparr>v_raw_retained := False\<rparr>"
    let ?n = "pg_stored b"
    obtain v where v: "v \<in> set (versions db)" "v_id v = pg_version b" "v_upload v = pg_upload b" "v_org v = pg_org b"
      "v_size v = ?n" using b False by (auto simp: batch_ok_def)
    have n: "0 < ?n" using tables_ok_checks(2) [OF ok v(1)] v(5) by (simp add: version_check_def)
    have vs: "versions db' = sql_update (\<lambda>v. v_id v = pg_version b) ?fv (versions db)"
      and us: "usage db' = sql_update (\<lambda>u. us_org u = pg_org b) (\<lambda>u. u\<lparr>us_stored := max (us_stored u - ?n) 0\<rparr>) (usage db)"
      and ck: "\<And>u. u \<in> set (usage db) \<Longrightarrow> us_org u = pg_org b \<Longrightarrow> usage_check (u\<lparr>us_stored := max (us_stored u - ?n) 0\<rparr>)"
      using marked(3) False n by auto
    obtain s where s: "s \<in> set (sessions db)" "s_id s = pg_upload b" "s_purged_at s = None" using marked(2) by blast
    obtain t where "t \<in> set (sessions db)" "origin t v" using l v(1) by (auto simp: linked_def sessions_link_def)
    then have ret: "v_raw_retained v"
      using sessions_unique [OF ok s(1), of t] s(2,3) v(3) by (auto simp: origin_def)
    have st: "stored_total og db' = stored_total og db - (if og = pg_org b then ?n else 0)" for og
    proof -
      have "stored_total og db' = stored_total og db - stored_weight og v + stored_weight og (?fv v)"
        unfolding stored_total_def vs
        by (rule sql_sum_update_one [OF tables_ok_distinct(2) [OF ok] v(1)]) (simp_all add: v(2))
      then show ?thesis using ret v(4,5) by (auto simp: stored_weight_def)
    qed
    have nn: "0 \<le> stored_total (pg_org b) db - ?n"
    proof -
      have "stored_weight (pg_org b) v \<le> stored_total (pg_org b) db" unfolding stored_total_def
        by (rule sql_sum_member_le [OF v(1)]) (simp add: stored_weight_nonneg tables_ok_checks(2) [OF ok])
      then show ?thesis using ret v(4,5) by (simp add: stored_weight_def)
    qed
    show ?thesis
    proof (rule ledger_step [OF lg us])
      show "us_reserved (u\<lparr>us_stored := max (us_stored u - ?n) 0\<rparr>) = reserved_total (us_org u) db'
        \<and> us_stored (u\<lparr>us_stored := max (us_stored u - ?n) 0\<rparr>) = stored_total (us_org u) db'"
        if "u \<in> set (usage db)" "us_org u = pg_org b" for u
        using lg that nn ss st by (auto simp: ledger_ok_def)
      show "s_org ` set (sessions db') \<subseteq> us_org ` set (usage db)" using lg so by (auto simp: ledger_ok_def)
      have "v_org ` set (versions db') = v_org ` set (versions db)" unfolding vs by (rule orgs_sql_update) simp
      then show "v_org ` set (versions db') \<subseteq> us_org ` set (usage db)" using lg by (auto simp: ledger_ok_def)
    qed (use ck ss st in auto)
  qed
qed (use lg in simp)

section \<open>The expiry sweep\<close>

lemma expire_one_keeps:
  assumes "tables_ok db" "ledger_ok db"
    and "s \<in> set (sessions db)" "s_id s = s_id c" "s_org s = s_org c" "s_size s = s_size c"
  shows "tables_ok (snd (expire_one c now db)) \<and> ledger_ok (snd (expire_one c now db))"
  unfolding expire_one_def
proof (rule transaction_keeps [where P = "\<lambda>d. tables_ok d \<and> ledger_ok d"])
  show "tables_ok db \<and> ledger_ok db" using assms(1,2) by simp
  fix b db' assume "expire_one_work c now db = Inr (b, db')"
  from expire_one_work_InrD [OF this] show "tables_ok db' \<and> ledger_ok db'"
  proof
    let ?c = "\<lambda>s. s_id s = s_id c \<and> s_org s = s_org c \<and> expirable now s"
    let ?f = "\<lambda>s. s\<lparr>s_state := UploadSessionExpired, s_expired_at := Some now\<rparr>"
    let ?ss = "sql_update ?c ?f (sessions db)"
    assume r: "releaseReservation (s_org c) (s_size c) (db\<lparr>sessions := ?ss\<rparr>) = Inr db' \<and> (\<exists>s\<in>set (sessions db). ?c s)"
    have "tables_ok (db\<lparr>sessions := ?ss\<rparr>)"
      by (rule tables_ok_update_sessions [OF assms(1)]) (simp_all add: session_check_def)
    then have ok: "tables_ok db'" using r by (auto simp: releaseReservation_def dest!: update_usage_InrD)
    have cs: "?c t \<longleftrightarrow> t = s" if t: "t \<in> set (sessions db)" for t
    proof -
      have "t = s" if "s_id t = s_id c" using that sessions_unique [OF assms(1) t assms(3)] assms(4) by simp
      then show ?thesis using r assms(4,5) sessions_unique [OF assms(1) _ assms(3)] by metis
    qed
    have cr: "s_state s = UploadSessionCreated" using cs [OF assms(3)] by (simp add: expirable_def)
    have "sql_sum (reserved_weight og) ?ss = sql_sum (reserved_weight og) (sessions db) - reserved_weight og s + reserved_weight og (?f s)"
      for og
      by (rule sql_sum_update_one [OF tables_ok_distinct(1) [OF assms(1)] assms(3)]) (use cs [OF assms(3)] assms(4) in auto)
    then have w: "sql_sum (reserved_weight og) ?ss = reserved_total og db - (if og = s_org c then s_size c else 0)" for og
      using cr assms(5,6) by (auto simp: reserved_weight_def reserved_total_def)
    have "0 \<le> s_size c" using tables_ok_checks(1) [OF assms(1,3)] assms(6) by (simp add: session_check_def)
    moreover have "s_org ` set ?ss \<subseteq> s_org ` set (sessions db)"
      using orgs_sql_update [of s_org ?f ?c "sessions db"] by simp
    ultimately show ?thesis using ledger_release [OF assms(2) ok _ conjunct1 [OF r] w] ok by blast
  qed (use assms(1,2) in simp)
qed

end
