(* ===== verification/Media_Lifecycle.thy ===== *)
theory Media_Lifecycle
  imports Media_Links
begin

text \<open>
  What the media subsystem promises about versions, without sessions, jobs, events or leases: an asset
  shows at most one version and has at most one in progress; a version is admitted once, and then accepted
  or rejected once. The abstraction of a database, and the abstract step of each change the repositories
  make to versions and asset pointers.
\<close>

section \<open>The abstract library\<close>

datatype verdict = Undecided | Accepted | Rejected

record library =
  lib_verdict :: "string \<rightharpoonup> verdict"
  lib_active :: "string \<rightharpoonup> string"
  lib_pending :: "string \<rightharpoonup> string"

inductive life_step :: "library \<Rightarrow> library \<Rightarrow> bool" where
  admit: "lib_pending L a = None \<Longrightarrow> lib_verdict L v = None \<Longrightarrow>
     life_step L (L\<lparr>lib_verdict := (lib_verdict L)(v \<mapsto> Undecided), lib_pending := (lib_pending L)(a \<mapsto> v)\<rparr>)"
| accept: "lib_pending L a = Some v \<Longrightarrow> lib_verdict L v = Some Undecided \<Longrightarrow>
     life_step L (L\<lparr>lib_verdict := (lib_verdict L)(v \<mapsto> Accepted), lib_active := (lib_active L)(a \<mapsto> v),
       lib_pending := (lib_pending L)(a := None)\<rparr>)"
| reject: "lib_pending L a = Some v \<Longrightarrow> lib_verdict L v = Some Undecided \<Longrightarrow>
     life_step L (L\<lparr>lib_verdict := (lib_verdict L)(v \<mapsto> Rejected), lib_pending := (lib_pending L)(a := None)\<rparr>)"

inductive_cases life_stepE: "life_step L M"

lemma verdict_once:
  assumes "life_step L M" "lib_verdict L v = Some d" "d \<noteq> Undecided"
  shows "lib_verdict M v = Some d"
  using assms(1) by (rule life_stepE) (use assms(2,3) in auto)

section \<open>The abstraction\<close>

text \<open>A column as a map on the key.\<close>

definition lookup :: "('r \<Rightarrow> 'k) \<Rightarrow> ('r \<Rightarrow> 'v) \<Rightarrow> 'r list \<Rightarrow> 'k \<rightharpoonup> 'v" where
  "lookup key val rs = map_of (map (\<lambda>r. (key r, val r)) rs)"

definition verdict_of :: "media_version_status \<Rightarrow> verdict" where
  "verdict_of st = (if st = MediaVersionCompleted then Accepted else if st = MediaVersionFailed then Rejected else Undecided)"

definition pointers :: "(asset_row \<Rightarrow> string option) \<Rightarrow> asset_row list \<Rightarrow> string \<rightharpoonup> string" where
  "pointers val rs = (\<lambda>a. Option.bind (lookup a_id val rs a) (\<lambda>x. x))"

definition library_of :: "db \<Rightarrow> library" where
  "library_of db = \<lparr>lib_verdict = lookup v_id (\<lambda>v. verdict_of (v_status v)) (versions db),
     lib_active = pointers a_active (assets db), lib_pending = pointers a_pending (assets db)\<rparr>"

lemma lookup_Some: "distinct (map key rs) \<Longrightarrow> r \<in> set rs \<Longrightarrow> lookup key val rs (key r) = Some (val r)"
  unfolding lookup_def by (rule map_of_is_SomeI) (auto simp: comp_def)

lemma lookup_None: "k \<notin> key ` set rs \<Longrightarrow> lookup key val rs k = None"
  by (force simp: lookup_def map_of_eq_None_iff)

lemma lookup_snoc: "key r \<notin> key ` set rs \<Longrightarrow> lookup key val (rs @ [r]) = (lookup key val rs)(key r \<mapsto> val r)"
  by (induction rs) (auto simp: lookup_def)

lemma lookup_update_same:
  "(\<And>r. r \<in> set rs \<Longrightarrow> c r \<Longrightarrow> key (f r) = key r \<and> val (f r) = val r) \<Longrightarrow>
     lookup key val (sql_update c f rs) = lookup key val rs"
  unfolding lookup_def sql_update_def by (rule arg_cong [where f = map_of]) simp

lemma lookup_update_one:
  assumes "distinct (map key rs)" "r \<in> set rs" "\<And>x. x \<in> set rs \<Longrightarrow> c x \<longleftrightarrow> x = r" "key (f r) = key r"
  shows "lookup key val (sql_update c f rs) = (lookup key val rs)(key r \<mapsto> val (f r))"
  using assms(1-3)
proof (induction rs)
  case (Cons a rs)
  show ?case
  proof (cases "a = r")
    case True
    then have "key a \<notin> key ` set rs" "r \<notin> set rs" using Cons.prems(1) by auto
    then have "lookup key val (sql_update c f rs) = lookup key val rs"
      using Cons.prems(3) by (intro lookup_update_same) auto
    then show ?thesis using True Cons.prems(3) [of a] assms(4) by (auto simp: lookup_def fun_eq_iff)
  next
    case False
    then have "lookup key val (sql_update c f rs) = (lookup key val rs)(key r \<mapsto> val (f r))"
      using Cons by auto
    moreover have "key a \<noteq> key r" "\<not> c a" using Cons.prems False by auto
    ultimately show ?thesis by (auto simp: lookup_def fun_eq_iff)
  qed
qed simp

lemma pointers_same:
  "(\<And>a. a \<in> set rs \<Longrightarrow> c a \<Longrightarrow> a_id (f a) = a_id a \<and> val (f a) = val a) \<Longrightarrow> pointers val (sql_update c f rs) = pointers val rs"
  by (simp add: pointers_def lookup_update_same)

lemma pointers_one:
  assumes "distinct (map a_id rs)" "a \<in> set rs" "\<And>x. x \<in> set rs \<Longrightarrow> c x \<longleftrightarrow> x = a" "a_id (f a) = a_id a"
  shows "pointers val (sql_update c f rs) = (pointers val rs)(a_id a := val (f a))"
  using lookup_update_one [of a_id rs a c f val, OF assms] by (auto simp: pointers_def)

lemma pointers_row: "distinct (map a_id rs) \<Longrightarrow> a \<in> set rs \<Longrightarrow> pointers val rs (a_id a) = val a"
  by (simp add: pointers_def lookup_Some)

lemma library_same:
  "versions db' = versions db \<Longrightarrow> assets db' = assets db \<Longrightarrow> library_of db' = library_of db"
  by (simp add: library_of_def)

section \<open>The concrete changes\<close>

text \<open>An asset's pending version is the one open version of the asset, and there is a row for it.\<close>

lemma open_pending_row:
  assumes "tables_ok db" "linked db" and "v \<in> set (versions db)" "open_version v"
  obtains a where "a \<in> set (assets db)" "a_id a = v_asset v" "a_pending a = Some (v_id v)"
    "lib_pending (library_of db) (v_asset v) = Some (v_id v)" "lib_verdict (library_of db) (v_id v) = Some Undecided"
proof -
  obtain a where a: "a \<in> set (assets db)" "a_id a = v_asset v" "a_pending a = Some (v_id v)"
    using assms(2-4) unfolding linked_def assets_link_def by blast
  have "lib_pending (library_of db) (v_asset v) = Some (v_id v)"
    using pointers_row [OF tables_ok_distinct(9) [OF assms(1)] a(1), of a_pending] a by (simp add: library_of_def)
  moreover have "lib_verdict (library_of db) (v_id v) = Some Undecided"
    using lookup_Some [OF tables_ok_distinct(2) [OF assms(1)] assms(3), of "\<lambda>v. verdict_of (v_status v)"] assms(4)
    by (auto simp: library_of_def verdict_of_def open_version_def)
  ultimately show thesis using a that by blast
qed

lemma library_reject:
  assumes "tables_ok db" "linked db" and "v \<in> set (versions db)" "open_version v"
    and "versions db' = sql_update (\<lambda>w. v_id w = v_id v \<and> v_org w = v_org v) (fail_version_row code t) (versions db)"
    and "assets db' = sql_update (\<lambda>a. a_id a = v_asset v \<and> a_pending a = Some (v_id v)) (\<lambda>a. a\<lparr>a_pending := None\<rparr>) (assets db)"
  shows "life_step (library_of db) (library_of db')"
proof -
  obtain a where a: "a \<in> set (assets db)" "a_id a = v_asset v" "a_pending a = Some (v_id v)"
    and l: "lib_pending (library_of db) (v_asset v) = Some (v_id v)" "lib_verdict (library_of db) (v_id v) = Some Undecided"
    by (rule open_pending_row [OF assms(1-4)])
  note d = tables_ok_distinct [OF assms(1)]
  have "lookup v_id (\<lambda>v. verdict_of (v_status v)) (versions db') = (lib_verdict (library_of db))(v_id v \<mapsto> Rejected)"
  proof -
    have "v_id w = v_id v \<and> v_org w = v_org v \<longleftrightarrow> w = v" if "w \<in> set (versions db)" for w
      using agree_version_unique [OF assms(1) that assms(3)] by auto
    then show ?thesis
      using lookup_update_one [OF d(2) assms(3), of "\<lambda>w. v_id w = v_id v \<and> v_org w = v_org v"
          "fail_version_row code t" "\<lambda>v. verdict_of (v_status v)"]
      by (simp add: assms(5) library_of_def fail_version_row_def) (simp add: verdict_of_def)
  qed
  moreover have "pointers a_pending (assets db') = (lib_pending (library_of db))(v_asset v := None)"
  proof -
    have "a_id b = v_asset v \<and> a_pending b = Some (v_id v) \<longleftrightarrow> b = a" if "b \<in> set (assets db)" for b
      using distinct_map_eq [OF d(9) that a(1)] a(2,3) by auto
    then show ?thesis
      using pointers_one [OF d(9) a(1), of "\<lambda>a. a_id a = v_asset v \<and> a_pending a = Some (v_id v)"
          "\<lambda>a. a\<lparr>a_pending := None\<rparr>" a_pending] a(2) by (simp add: assms(6) library_of_def)
  qed
  moreover have "pointers a_active (assets db') = lib_active (library_of db)"
    by (simp add: assms(6) library_of_def pointers_same)
  ultimately have "library_of db' = (library_of db)\<lparr>lib_verdict := (lib_verdict (library_of db))(v_id v \<mapsto> Rejected),
      lib_pending := (lib_pending (library_of db))(v_asset v := None)\<rparr>"
    by (simp add: library_of_def [of db'] library_of_def [of db])
  then show ?thesis using life_step.reject [OF l] by simp
qed

lemma library_accept:
  assumes "tables_ok db" "linked db" and "v \<in> set (versions db)" "open_version v"
    and "\<And>w. w \<in> set (versions db) \<Longrightarrow> cv w \<longleftrightarrow> w = v" "versions db' = sql_update cv (complete_version_row cm t) (versions db)"
    and "a \<in> set (assets db)" "a_id a = v_asset v" "\<And>b. b \<in> set (assets db) \<Longrightarrow> ca b \<longleftrightarrow> b = a"
    and "assets db' = sql_update ca (\<lambda>a. a\<lparr>a_active := Some (v_id v), a_pending := None\<rparr>) (assets db)"
  shows "life_step (library_of db) (library_of db')"
proof -
  have l: "lib_pending (library_of db) (v_asset v) = Some (v_id v)" "lib_verdict (library_of db) (v_id v) = Some Undecided"
    using open_pending_row [OF assms(1-4)] by metis+
  note d = tables_ok_distinct [OF assms(1)]
  have "lookup v_id (\<lambda>v. verdict_of (v_status v)) (versions db') = (lib_verdict (library_of db))(v_id v \<mapsto> Accepted)"
    using lookup_update_one [OF d(2) assms(3,5), of "complete_version_row cm t" "\<lambda>v. verdict_of (v_status v)"]
    by (simp add: assms(6) library_of_def complete_version_row_def) (simp add: verdict_of_def)
  moreover have "pointers a_pending (assets db') = (lib_pending (library_of db))(v_asset v := None)"
    "pointers a_active (assets db') = (lib_active (library_of db))(v_asset v \<mapsto> v_id v)"
    using pointers_one [OF d(9) assms(7,9)] by (simp_all add: assms(8,10) library_of_def)
  ultimately have "library_of db' = (library_of db)\<lparr>lib_verdict := (lib_verdict (library_of db))(v_id v \<mapsto> Accepted),
      lib_active := (lib_active (library_of db))(v_asset v \<mapsto> v_id v),
      lib_pending := (lib_pending (library_of db))(v_asset v := None)\<rparr>"
    by (simp add: library_of_def [of db'] library_of_def [of db])
  then show ?thesis using life_step.accept [OF l] by simp
qed

lemma library_admit:
  assumes "tables_ok db" and "versions db' = versions db @ [v]" "open_version v" "v_id v \<notin> v_id ` set (versions db)"
    and "a \<in> set (assets db)" "a_pending a = None" "\<And>b. b \<in> set (assets db) \<Longrightarrow> ca b \<longleftrightarrow> b = a"
    and "assets db' = sql_update ca (\<lambda>a. a\<lparr>a_pending := Some (v_id v)\<rparr>) (assets db)"
  shows "life_step (library_of db) (library_of db')"
proof -
  note d = tables_ok_distinct [OF assms(1)]
  have l: "lib_pending (library_of db) (a_id a) = None" "lib_verdict (library_of db) (v_id v) = None"
    using pointers_row [OF d(9) assms(5), of a_pending] lookup_None [OF assms(4)] assms(6) by (simp_all add: library_of_def)
  have "lookup v_id (\<lambda>v. verdict_of (v_status v)) (versions db') = (lib_verdict (library_of db))(v_id v \<mapsto> Undecided)"
    using assms(3) by (auto simp: assms(2) lookup_snoc [OF assms(4)] library_of_def verdict_of_def open_version_def)
  moreover have "pointers a_pending (assets db') = (lib_pending (library_of db))(a_id a \<mapsto> v_id v)"
    using pointers_one [OF d(9) assms(5,7)] by (simp add: assms(8) library_of_def)
  moreover have "pointers a_active (assets db') = lib_active (library_of db)"
    by (simp add: assms(8) library_of_def pointers_same)
  ultimately have "library_of db' = (library_of db)\<lparr>lib_verdict := (lib_verdict (library_of db))(v_id v \<mapsto> Undecided),
      lib_pending := (lib_pending (library_of db))(a_id a \<mapsto> v_id v)\<rparr>"
    by (simp add: library_of_def [of db'] library_of_def [of db])
  then show ?thesis using life_step.admit [OF l] by simp
qed

end
