(* ===== verification/Media_System.thy ===== *)
theory Media_System
  imports Media_Lifecycle Rendition_Executor
begin

text \<open>
  The whole pipeline as one transition system: the state is the database together with what the
  processes have read from it and still act upon (claimed jobs, the sources of their runs, batches
  to purge, sessions to expire); a step is one transaction of any repository by any process, with
  arbitrary arguments and clock readings, or a change of assets and folders by the rest of the
  service short of their permanent deletion. The reachable states keep the constraints, the ledger and the links of \<open>Media_Links\<close>,
  and the system refines an abstract life cycle of versions.
\<close>

section \<open>Rows only move forward\<close>

text \<open>What a later state still says about a row somebody has read.\<close>

definition rows_forward :: "('r \<Rightarrow> 'r \<Rightarrow> bool) \<Rightarrow> 'r list \<Rightarrow> 'r list \<Rightarrow> bool" where
  "rows_forward R xs ys \<longleftrightarrow> (\<forall>x\<in>set xs. \<exists>y\<in>set ys. R x y)"

definition job_forward :: "job_row \<Rightarrow> job_row \<Rightarrow> bool" where
  "job_forward j k \<longleftrightarrow> j_id k = j_id j \<and> j_version k = j_version j \<and> j_org k = j_org j \<and> j_asset k = j_asset j"

definition session_forward :: "session_row \<Rightarrow> session_row \<Rightarrow> bool" where
  "session_forward s t \<longleftrightarrow> s_id t = s_id s \<and> s_org t = s_org s \<and> s_size t = s_size s
     \<and> (s_state s \<noteq> UploadSessionCreated \<longrightarrow> s_state t = s_state s)"

definition version_forward :: "version_row \<Rightarrow> version_row \<Rightarrow> bool" where
  "version_forward v w \<longleftrightarrow> v_id w = v_id v \<and> v_upload w = v_upload v \<and> v_org w = v_org v \<and> v_asset w = v_asset v
     \<and> v_size w = v_size v \<and> (\<not> open_version v \<longrightarrow> v_status w = v_status v)"

definition forward :: "db \<Rightarrow> db \<Rightarrow> bool" where
  "forward db db' \<longleftrightarrow> rows_forward job_forward (jobs db) (jobs db')
     \<and> rows_forward session_forward (sessions db) (sessions db')
     \<and> rows_forward version_forward (versions db) (versions db')"

named_theorems row_forward \<open>reflexivity and updates of the row relations\<close>

lemma row_forward_refl [row_forward]: "job_forward j j" "session_forward s s" "version_forward v v"
  by (simp_all add: job_forward_def session_forward_def version_forward_def)

lemma rows_forward_subset: "set xs \<subseteq> set ys \<Longrightarrow> (\<And>x. R x x) \<Longrightarrow> rows_forward R xs ys"
  by (auto simp: rows_forward_def)

lemma rows_forward_update:
  assumes "\<And>x. x \<in> set xs \<Longrightarrow> c x \<Longrightarrow> R x (f x)" "\<And>x. R x x"
  shows "rows_forward R xs (sql_update c f xs)"
  unfolding rows_forward_def
proof
  fix x assume x: "x \<in> set xs"
  show "\<exists>y\<in>set (sql_update c f xs). R x y"
  proof (cases "c x")
    case True
    then show ?thesis using x assms(1) by (auto intro: sql_update_memI1)
  next
    case False
    then show ?thesis using x assms(2) by (auto intro: sql_update_memI2)
  qed
qed

lemma rows_forward_trans:
  assumes "rows_forward R xs ys" "rows_forward R ys zs" "\<And>x y z. R x y \<Longrightarrow> R y z \<Longrightarrow> R x z"
  shows "rows_forward R xs zs"
  using assms unfolding rows_forward_def by metis

lemma version_forward_trans: "version_forward u v \<Longrightarrow> version_forward v w \<Longrightarrow> version_forward u w"
  by (auto simp: version_forward_def open_version_def)

lemma forward_refl: "forward db db"
  by (simp add: forward_def rows_forward_subset row_forward)

lemma forward_trans: "forward a b \<Longrightarrow> forward b c \<Longrightarrow> forward a c"
  unfolding forward_def
  by (auto elim!: rows_forward_trans simp: job_forward_def session_forward_def intro: version_forward_trans)

lemma forward_same:
  "jobs db' = jobs db \<Longrightarrow> sessions db' = sessions db \<Longrightarrow> versions db' = versions db \<Longrightarrow> forward db db'"
  by (simp add: forward_def rows_forward_subset row_forward)

lemma forward_jobs:
  assumes "jobs db' = sql_update c f (jobs db)" "sessions db' = sessions db" "versions db' = versions db"
    and "\<And>j. job_forward j (f j)"
  shows "forward db db'"
  using assms by (simp add: forward_def rows_forward_subset rows_forward_update row_forward)

lemma forward_session_frame:
  assumes "tables_ok db" "tables_ok db'" "session_frame db db'"
  shows "forward db db'"
proof -
  have "\<exists>t\<in>set (sessions db'). session_forward s t" if s: "s \<in> set (sessions db)" for s
  proof (cases "s_state s = UploadSessionCreated")
    case True
    then show ?thesis using assms(3) s by (simp add: session_frame_def session_forward_def)
  next
    case False
    then show ?thesis using assms(3) s row_forward(2) unfolding session_frame_def by blast
  qed
  then have "rows_forward session_forward (sessions db) (sessions db')" by (simp add: rows_forward_def)
  then show ?thesis using assms(3)
    by (simp add: forward_def session_frame_def rows_forward_subset row_forward)
qed

section \<open>Well-formed databases\<close>

definition db_ok :: "db \<Rightarrow> bool" where
  "db_ok db \<longleftrightarrow> tables_ok db \<and> ledger_ok db \<and> linked db"

text \<open>
  Every operation keeps a database well formed, moves it forward, and is at most one step of the life cycle.
\<close>

definition advances :: "db \<Rightarrow> db \<Rightarrow> bool" where
  "advances db db' \<longleftrightarrow> db_ok db' \<and> forward db db' \<and> life_step\<^sup>=\<^sup>= (library_of db) (library_of db')"

definition quiet :: "db \<Rightarrow> db \<Rightarrow> bool" where
  "quiet db db' \<longleftrightarrow> db_ok db' \<and> forward db db' \<and> library_of db' = library_of db"

lemma quiet_advances: "quiet db db' \<Longrightarrow> advances db db'"
  by (simp add: quiet_def advances_def)

lemma quiet_then_advances: "quiet db db1 \<Longrightarrow> advances db1 db' \<Longrightarrow> advances db db'"
  using forward_trans by (auto simp: quiet_def advances_def)

lemma advances_refl: "db_ok db \<Longrightarrow> advances db db"
  by (simp add: advances_def forward_refl)

lemma ledger_versions:
  assumes "ledger_ok db" and "usage db' = usage db" "sessions db' = sessions db" "versions db' = sql_update c f (versions db)"
    and "\<And>v. v_org (f v) = v_org v \<and> v_size (f v) = v_size v \<and> v_raw_retained (f v) = v_raw_retained v"
  shows "ledger_ok db'"
proof -
  have "stored_total og db' = stored_total og db" for og
    unfolding stored_total_def assms(4)
    by (rule sql_sum_update_same) (use assms(5) in \<open>simp add: stored_weight_def\<close>)
  moreover have "v_org ` set (versions db') = v_org ` set (versions db)"
    unfolding assms(4) by (rule orgs_sql_update) (use assms(5) in simp)
  then have "v_org v \<in> us_org ` set (usage db)" if "v \<in> set (versions db')" for v
  proof -
    assume e: "v_org ` set (versions db') = v_org ` set (versions db)"
    have "v_org v \<in> v_org ` set (versions db)" using that e by (metis imageI)
    then show ?thesis using assms(1) by (auto simp: ledger_ok_def)
  qed
  ultimately show ?thesis using assms(1-3) by (simp add: ledger_ok_def reserved_total_def)
qed

lemma fail_forward:
  assumes "tables_ok db" "linked db" and "failMediaVersion fl t1 t2 db = Inr db'"
    and "j \<in> set (jobs db)" "active_status j" "fl_version fl = j_version j"
  shows "forward db db'"
proof -
  obtain v where v: "v \<in> set (versions db)" "agree j v" "open_version v"
    using active_open [OF assms(2,4,5)] by blast
  have o: "open_version w" if "w \<in> set (versions db)" "v_id w = fl_version fl" for w
    using agree_version_unique [OF assms(1) that(1) v(1)] that(2) v(2,3) assms(6) by (simp add: agree_def)
  have d: "jobs db' = sql_update (\<lambda>j. j_id j = fl_job fl) (fail_job_row (fl_code fl) t2) (jobs db)"
    "versions db' = sql_update (\<lambda>v. v_id v = fl_version fl \<and> v_org v = fl_org fl) (fail_version_row (fl_code fl) t1) (versions db)"
    "sessions db' = sessions db"
    using failMediaVersion_InrD [OF assms(3)] by auto
  have "rows_forward job_forward (jobs db) (jobs db')"
    unfolding d(1) by (rule rows_forward_update) (simp_all add: job_forward_def fail_job_row_def)
  moreover have "rows_forward version_forward (versions db) (versions db')"
    unfolding d(2) by (rule rows_forward_update) (auto simp: version_forward_def fail_version_row_def dest: o)
  ultimately show ?thesis by (simp add: forward_def d(3) rows_forward_subset row_forward)
qed

lemma fail_advances:
  assumes "db_ok db" and "failMediaVersion fl t1 t2 db = Inr db'"
    and "j \<in> set (jobs db)" "active_status j"
    and "fl_job fl = j_id j" "fl_version fl = j_version j" "fl_org fl = j_org j" "fl_asset fl = j_asset j"
  shows "advances db db'"
proof -
  have k: "tables_ok db" "ledger_ok db" "linked db" using assms(1) by (simp_all add: db_ok_def)
  have "ledger_ok db'"
    by (rule ledger_versions [OF k(2), where c = "\<lambda>v. v_id v = fl_version fl \<and> v_org v = fl_org fl"
          and f = "fail_version_row (fl_code fl) t1"])
      (use failMediaVersion_InrD [OF assms(2)] in \<open>auto simp: fail_version_row_def\<close>)
  then have "db_ok db'"
    using tables_ok_failMediaVersion [OF k(1) assms(2)] linked_failMediaVersion [OF k(1,3) assms(2-8)]
    by (simp add: db_ok_def)
  moreover obtain v where v: "v \<in> set (versions db)" "agree j v" "open_version v"
    using active_open [OF k(3) assms(3,4)] by blast
  have "life_step (library_of db) (library_of db')"
    by (rule library_reject [OF k(1,3) v(1,3), of _ "fl_code fl" t1])
      (use failMediaVersion_InrD [OF assms(2)] v(2) assms(6-8) in \<open>simp_all add: agree_def\<close>)
  ultimately show ?thesis using fail_forward [OF k(1,3) assms(2-4,6)] by (simp add: advances_def)
qed

text \<open>A change of job rows (with events), outbox rows or outputs alone.\<close>

lemma jobs_advance:
  assumes "db_ok db" and "tables_ok db'" "linked db'"
    and "jobs db' = sql_update c f (jobs db)" "\<And>j. job_forward j (f j)"
    and "usage db' = usage db" "sessions db' = sessions db" "versions db' = versions db" "assets db' = assets db"
  shows "quiet db db'"
  using assms(1) ledger_ok_cong [OF assms(6-8)] forward_jobs [OF assms(4,7,8,5)] assms(2,3) library_same [OF assms(8,9)]
  by (simp add: quiet_def db_ok_def)

lemmas jobs_advances = quiet_advances [OF jobs_advance]

lemma sql_update_id: "sql_update (\<lambda>_. False) f rs = rs"
  by (induction rs) simp_all

lemma outbox_advance:
  assumes "db_ok db" and "tables_ok db'" "linked db'" and "jobs db' = jobs db" "usage db' = usage db"
    "sessions db' = sessions db" "versions db' = versions db" "assets db' = assets db"
  shows "advances db db'"
  by (rule jobs_advances [OF assms(1-3), where c = "\<lambda>_. False" and f = id])
    (use assms in \<open>simp_all add: sql_update_id row_forward\<close>)

lemma session_advance:
  assumes "db_ok db" and "tables_ok db'" "ledger_ok db'" "session_frame db db'"
  shows "advances db db'"
proof -
  have k: "tables_ok db" "linked db" using assms(1) by (simp_all add: db_ok_def)
  have "library_of db' = library_of db" using assms(4) by (intro library_same) (simp_all add: session_frame_def)
  then show ?thesis
    using assms(2,3) linked_session_frame [OF k(2) assms(4)] forward_session_frame [OF k(1) assms(2,4)]
    by (simp add: advances_def db_ok_def)
qed

section \<open>Every operation advances the database\<close>

lemma session_operations_advance:
  assumes "db_ok db"
  shows "advances db (snd (CreateUploadSession sha256 r opt t1 t2 db))"
    "advances db (snd (RefreshUploadSession scope ce t1 db))"
    "advances db (snd (transitionOpenUploadSession scope target t1 db))"
proof -
  have b: "balanced db" using assms by (simp add: db_ok_def balanced_def)
  note k = balanced_CreateUploadSession [OF b] balanced_RefreshUploadSession [OF b] balanced_transition [OF b]
  show "advances db (snd (CreateUploadSession sha256 r opt t1 t2 db))"
    using session_advance [OF assms] k(1) session_frame_CreateUploadSession by (simp add: balanced_def)
  show "advances db (snd (RefreshUploadSession scope ce t1 db))"
    using session_advance [OF assms] k(2) session_frame_RefreshUploadSession by (simp add: balanced_def)
  show "advances db (snd (transitionOpenUploadSession scope target t1 db))"
    using session_advance [OF assms] k(3) session_frame_transition by (simp add: balanced_def)
qed

lemma expire_one_advances:
  assumes "db_ok db" and "s \<in> set (sessions db)" "session_forward c s"
  shows "advances db (snd (expire_one c now db))"
proof -
  have "tables_ok (snd (expire_one c now db)) \<and> ledger_ok (snd (expire_one c now db))"
    by (rule expire_one_keeps [OF _ _ assms(2)]) (use assms(1,3) in \<open>simp_all add: db_ok_def session_forward_def\<close>)
  then show ?thesis using session_advance [OF assms(1)] session_frame_expire_one by blast
qed

lemma commit_library:
  assumes "tables_ok db" and "commit_rows cd s attributes ids tp now db = Inr db'"
  shows "life_step (library_of db) (library_of db')"
proof -
  note fr = commit_frame [OF assms(2)]
  obtain c a where c: "assets db' = sql_update c (\<lambda>a. a\<lparr>a_pending := Some (new_version ids)\<rparr>) (assets db)"
    "\<And>a. c a \<Longrightarrow> a_id a = s_asset s \<and> a_pending a = None" "a \<in> set (assets db)" "c a"
    using fr(6) by blast
  have "c b \<longleftrightarrow> b = a" if "b \<in> set (assets db)" for b
    using that c(2-4) distinct_map_eq [OF tables_ok_distinct(9) [OF assms(1)] that c(3)] by metis
  moreover have "new_version ids \<notin> v_id ` set (versions db)"
    using tables_ok_distinct(2) [OF tables_ok_commit_rows [OF assms]] by (simp add: fr(4) new_version_row_def)
  ultimately show ?thesis
    using c library_admit [OF assms(1) fr(4) _ _ c(3), of c] by (simp add: new_version_row_def open_version_def)
qed

lemma commit_advances:
  assumes "db_ok db" and "new_version ids \<noteq> []"
  shows "advances db (snd (commit_transaction cd r attributes ids tp now1 now2 db))"
proof -
  have k: "tables_ok db" "linked db" "balanced db" using assms(1) by (simp_all add: db_ok_def balanced_def)
  have "forward db (snd (commit_transaction cd r attributes ids tp now1 now2 db))
      \<and> life_step\<^sup>=\<^sup>= (library_of db) (library_of (snd (commit_transaction cd r attributes ids tp now1 now2 db)))"
    unfolding commit_transaction_def
  proof (rule transaction_keeps [where P = "\<lambda>d. forward db d \<and> life_step\<^sup>=\<^sup>= (library_of db) (library_of d)"])
    show "forward db db \<and> life_step\<^sup>=\<^sup>= (library_of db) (library_of db)" by (simp add: forward_refl)
  next
    fix a db' assume w: "commit_work cd r attributes ids tp now1 now2 db = Inr (a, db')"
    then obtain acc replayed where a: "a = (acc, replayed)" by (cases a)
    show "forward db db' \<and> life_step\<^sup>=\<^sup>= (library_of db) (library_of db')" using w unfolding a
    proof (cases rule: commit_work_InrD)
      case (2 s)
      note fr = commit_frame [OF 2(7)]
      have "rows_forward session_forward (sessions db) (sessions db')"
        unfolding fr(3) by (rule rows_forward_update) (auto simp: session_forward_def open_with_id_def)
      then have "forward db db'" by (simp add: forward_def fr(4,5) rows_forward_subset row_forward subset_insertI)
      then show ?thesis using commit_library [OF k(1) 2(7)] by simp
    qed (simp add: forward_refl)
  qed
  then show ?thesis
    using balanced_commit_transaction [OF k(3)] linked_commit_transaction [OF k(1,2) assms(2)]
    by (simp add: advances_def db_ok_def balanced_def)
qed

lemma exhausted_settled_advances:
  assumes "db_ok db" and "j \<in> set (jobs db)" "exhausted st jid now j"
    and u: "update_jobs (exhausted st jid now)
          (\<lambda>r. r\<lparr>j_lease_owner := Some owner, j_lease_expires := Some until\<rparr>) db = Inr db1"
    and f: "failExhaustedMediaJob j t1 t2 db1 = Inr db'"
  shows "advances db db'"
proof -
  let ?f = "\<lambda>r. r\<lparr>j_lease_owner := Some owner, j_lease_expires := Some until\<rparr>"
  have k: "tables_ok db" "linked db" using assms(1) by (simp_all add: db_ok_def)
  have l1: "linked db1"
    by (rule linked_update_jobs [OF k(2) u]) (auto simp: exhausted_def active_status_def agree_def isolated_job_def)
  have ok1: "tables_ok db1" by (rule tables_ok_update_jobs [OF k(1) u]) simp_all
  have a1: "quiet db db1"
    by (rule jobs_advance [OF assms(1) ok1 l1, where c = "exhausted st jid now" and f = ?f])
      (use update_jobs_InrD [OF u] in \<open>simp_all add: job_forward_def\<close>)
  have m: "?f j \<in> set (jobs db1)" using update_jobs_InrD [OF u] assms(2,3) by (auto intro: sql_update_memI1)
  have "advances db1 db'"
    by (rule fail_advances [OF _ f [unfolded failExhaustedMediaJob_def] m])
      (use a1 assms(3) in \<open>simp_all add: quiet_def exhausted_def active_status_def\<close>)
  then show ?thesis by (rule quiet_then_advances [OF a1])
qed

lemma ClaimJob_advances:
  assumes "db_ok db"
  shows "advances db (snd (ClaimJob st jid owner now now2 t1 t2 now3 db))"
proof -
  have k: "tables_ok db" "linked db" using assms by (simp_all add: db_ok_def)
  have "advances db (snd (transaction (claim_work st jid owner now now2 t1 t2 now3) db))"
  proof (rule transaction_keeps [where P = "advances db", OF advances_refl [OF assms]])
    fix r db' assume w: "claim_work st jid owner now now2 t1 t2 now3 db = Inr (r, db')"
    then show "advances db db'"
    proof (cases rule: claim_work_InrD)
      case (1 j)
      have "tables_ok db'" by (rule tables_ok_update_jobs [OF k(1) 1(3)]) (simp_all add: claim_row_def)
      moreover have "linked db'"
        by (rule linked_update_jobs [OF k(2) 1(3)]) (auto simp: claim_row_def claimable_def active_status_def agree_def)
      ultimately show ?thesis
        by (rule jobs_advances [OF assms, where c = "claimable st jid now db" and f = "claim_row st owner now"])
          (use update_jobs_InrD [OF 1(3)] in \<open>simp_all add: job_forward_def claim_row_def\<close>)
    next
      case (2 j db1)
      then show ?thesis using exhausted_settled_advances [OF assms] by blast
    qed
  qed
  then show ?thesis using advances_refl [OF assms]
    by (auto simp: ClaimJob_def split: prod.splits sum.splits option.splits)
qed

lemma SettleExecutionFailure_advances:
  assumes "db_ok db"
  shows "advances db (snd (SettleExecutionFailure st cd e tp job held now t1 t2 db))"
  unfolding SettleExecutionFailure_def
proof (rule transaction_keeps [where P = "advances db", OF advances_refl [OF assms]])
  fix b db' assume w: "settle_work st cd e tp job held now t1 t2 db = Inr (b, db')"
  have k: "tables_ok db" "linked db" using assms by (simp_all add: db_ok_def)
  show "advances db db'"
  proof (cases b)
    case True
    then have "settle_work st cd e tp job held now t1 t2 db = Inr (True, db')" using w by simp
    then show ?thesis
    proof (cases rule: settle_work_InrD)
      case (1 cur)
      show ?thesis
        by (rule fail_advances [OF assms 1(5) [unfolded failExhaustedMediaJob_def] 1(1)])
          (use 1(2) in \<open>simp_all add: holds_lease_def active_status_def\<close>)
    next
      case (2 cur doc db1)
      let ?due = "t1 + js_delays st ! nat (j_attempts cur - 1)"
      have "snd (transaction (settle_work st cd e tp job held now t1 t2) db) = db'" using w by (simp add: transaction_def)
      then have "tables_ok db'" "linked db'"
        using tables_ok_SettleExecutionFailure [OF k(1), of st cd e tp job held now t1 t2]
          linked_SettleExecutionFailure [OF k, of st cd e tp job held now t1 t2]
        by (simp_all add: SettleExecutionFailure_def)
      then show ?thesis
        by (rule jobs_advances [OF assms, where c = "\<lambda>j. j_id j = j_id cur" and f = "retry_job_row ?due"])
          (use update_jobs_InrD [OF 2(6)] insert_outbox_InrD [OF 2(7)] in \<open>simp_all add: job_forward_def retry_job_row_def\<close>)
    qed
  next
    case False
    then have "db' = db" using w settle_work_False by simp
    then show ?thesis using advances_refl [OF assms] by simp
  qed
qed

lemma FailVersion_advances:
  assumes "db_ok db" and "j \<in> set (jobs db)"
    and "fl_job fl = j_id j" "fl_version fl = j_version j" "fl_org fl = j_org j" "fl_asset fl = j_asset j"
  shows "advances db (snd (FailVersion fl held now t1 t2 db))"
  unfolding FailVersion_def
proof (rule transaction_keeps [where P = "advances db", OF advances_refl [OF assms(1)]])
  fix b db' assume w: "fail_work fl held now t1 t2 db = Inr (b, db')"
  have ok: "tables_ok db" using assms(1) by (simp add: db_ok_def)
  show "advances db db'"
  proof (cases "lockLeasedJob (fl_job fl) held now db")
    case None
    then show ?thesis using w advances_refl [OF assms(1)] by (simp add: fail_work_def)
  next
    case (Some k)
    then have "k \<in> set (jobs db)" "holds_lease (fl_job fl) held now k" by (auto simp: lockLeasedJob_def dest: find_SomeD)
    then have "active_status j" using job_id_unique [OF ok _ assms(2)] assms(3)
      by (auto simp: holds_lease_def active_status_def)
    moreover have "failMediaVersion fl t1 t2 db = Inr db'" using w Some by (auto simp: fail_work_def)
    ultimately show ?thesis using fail_advances [OF assms(1) _ assms(2)] assms(3-6) by blast
  qed
qed

lemma complete_library:
  assumes "tables_ok db" "linked db" and "complete_work cm held now t1 t2 db = Inr (True, db')"
    and "k \<in> set (jobs db)" "cm_job cm = j_id k" "cm_version cm = j_version k" "cm_org cm = j_org k" "cm_asset cm = j_asset k"
  shows "life_step (library_of db) (library_of db')"
proof -
  obtain j ns db1 db2 db3 where c: "j \<in> set (jobs db)" "holds_lease (cm_job cm) held now j"
    "db1 = db\<lparr>outputs := outputs db @ ns\<rparr>"
    "update_versions
      (\<lambda>v. v_id v = cm_version cm \<and> v_org v = cm_org cm \<and> open_version v \<and> asset_visible (v_asset v) db1)
      (complete_version_row cm t1) db1 = Inr db2"
    "promoteActiveVersion cm db2 = Inr db3" "update_jobs (\<lambda>j. j_id j = cm_job cm) (complete_job_row t2) db3 = Inr db'"
    by (rule complete_work_InrD [OF assms(3)]) blast
  note u1 = update_versions_InrD [OF c(4)] and u2 = promoteActiveVersion_InrD [OF c(5)] and u3 = update_jobs_InrD [OF c(6)]
  have "j = k" using job_id_unique [OF assms(1) c(1) assms(4)] c(2) assms(5) by (simp add: holds_lease_def)
  then have "active_status k" using c(2) by (simp add: holds_lease_def active_status_def)
  then obtain v where v: "v \<in> set (versions db)" "agree k v" "open_version v"
    using active_open [OF assms(2,4)] by blast
  obtain a where a: "a \<in> set (assets db)" "promotable cm a" using u1 u2 c(3) by auto
  have ca: "promotable cm b \<longleftrightarrow> b = a" if "b \<in> set (assets db)" for b
    using that a distinct_map_eq [OF tables_ok_distinct(9) [OF assms(1)] that a(1)] by (auto simp: promotable_def)
  have "asset_visible (v_asset v) db1"
    using a v(2) assms(8) c(3) by (auto simp: asset_visible_def sql_exists_iff promotable_def agree_def)
  then have cv: "v_id w = cm_version cm \<and> v_org w = cm_org cm \<and> open_version w \<and> asset_visible (v_asset w) db1 \<longleftrightarrow> w = v"
    if "w \<in> set (versions db)" for w
    using that v agree_version_unique [OF assms(1) that v(1)] assms(6,7) by (auto simp: agree_def)
  show ?thesis
    by (rule library_accept [OF assms(1,2) v(1,3) cv _ a(1) _ ca, of _ cm t1])
      (use u1 u2 u3 c(3) v(2) assms(6,8) a(2) [unfolded promotable_def] in \<open>simp_all add: agree_def\<close>)
qed

lemma CompleteAndPromote_advances:
  assumes "db_ok db" and "j \<in> set (jobs db)"
    and "cm_job cm = j_id j" "cm_version cm = j_version j" "cm_org cm = j_org j" "cm_asset cm = j_asset j"
  shows "advances db (snd (CompleteAndPromote cm held now t1 t2 db))"
proof -
  have k: "tables_ok db" "ledger_ok db" "linked db" using assms(1) by (simp_all add: db_ok_def)
  have "advances db (snd (transaction (complete_work cm held now t1 t2) db))"
  proof (rule transaction_keeps [where P = "advances db", OF advances_refl [OF assms(1)]])
    fix b db' assume w: "complete_work cm held now t1 t2 db = Inr (b, db')"
    show "advances db db'"
    proof (cases b)
      case False
      then have "db' = db" using w complete_work_False by simp
      then show ?thesis using advances_refl [OF assms(1)] by simp
    next
      case True
      then have w': "complete_work cm held now t1 t2 db = Inr (True, db')" using w by simp
      obtain i ns db1 db2 db3 where c: "i \<in> set (jobs db)" "db1 = db\<lparr>outputs := outputs db @ ns\<rparr>"
        "update_versions
          (\<lambda>v. v_id v = cm_version cm \<and> v_org v = cm_org cm \<and> open_version v \<and> asset_visible (v_asset v) db1)
          (complete_version_row cm t1) db1 = Inr db2"
        "promoteActiveVersion cm db2 = Inr db3" "update_jobs (\<lambda>j. j_id j = cm_job cm) (complete_job_row t2) db3 = Inr db'"
        by (rule complete_work_InrD [OF w']) blast
      let ?cv = "\<lambda>v. v_id v = cm_version cm \<and> v_org v = cm_org cm \<and> open_version v \<and> asset_visible (v_asset v) db1"
      have d: "versions db' = sql_update ?cv (complete_version_row cm t1) (versions db)"
        "jobs db' = sql_update (\<lambda>j. j_id j = cm_job cm) (complete_job_row t2) (jobs db)" "sessions db' = sessions db"
        "usage db' = usage db"
        using update_versions_InrD [OF c(3)] promoteActiveVersion_InrD [OF c(4)] update_jobs_InrD [OF c(5)] c(2) by auto
      have "rows_forward version_forward (versions db) (versions db')"
        unfolding d(1) by (rule rows_forward_update) (auto simp: version_forward_def complete_version_row_def)
      moreover have "rows_forward job_forward (jobs db) (jobs db')"
        unfolding d(2) by (rule rows_forward_update) (simp_all add: job_forward_def complete_job_row_def)
      ultimately have "forward db db'" by (simp add: forward_def d(3) rows_forward_subset row_forward)
      moreover have "ledger_ok db'"
        by (rule ledger_versions [OF k(2) d(4,3,1)]) (simp add: complete_version_row_def)
      moreover have "life_step (library_of db) (library_of db')" by (rule complete_library [OF k(1,3) w' assms(2-6)])
      ultimately show ?thesis
        using tables_ok_complete [OF k(1) w'] linked_complete_work [OF k(1,3) w' assms(2-6)]
        by (simp add: advances_def db_ok_def)
    qed
  qed
  then show ?thesis using advances_refl [OF assms(1)] by (auto simp: CompleteAndPromote_def split: sum.splits)
qed

lemma RenewLease_advances:
  assumes "db_ok db"
  shows "advances db (snd (RenewLease st jid held now db))"
proof -
  let ?f = "\<lambda>j. j\<lparr>j_lease_expires := Some (now + js_expiry st)\<rparr>"
  have k: "tables_ok (snd (RenewLease st jid held now db))" "linked (snd (RenewLease st jid held now db))"
    using assms tables_ok_RenewLease linked_RenewLease by (simp_all add: db_ok_def)
  show ?thesis
  proof (cases "update_jobs (holds_lease jid held now) ?f db")
    case (Inl e)
    then show ?thesis using advances_refl [OF assms] by (simp add: RenewLease_def)
  next
    case (Inr db')
    show ?thesis
      by (rule jobs_advances [OF assms k, where c = "holds_lease jid held now" and f = ?f])
        (use update_jobs_InrD [OF Inr] Inr in \<open>simp_all add: RenewLease_def job_forward_def\<close>)
  qed
qed

lemma IsolateNotification_advances:
  assumes "db_ok db"
  shows "advances db (snd (IsolateNotification jid now db))"
proof -
  have k: "tables_ok (snd (IsolateNotification jid now db))" "linked (snd (IsolateNotification jid now db))"
    using assms tables_ok_IsolateNotification linked_IsolateNotification by (simp_all add: db_ok_def)
  show ?thesis
  proof (cases "update_jobs (isolatable jid) (isolate_row now) db")
    case (Inl e)
    then show ?thesis using advances_refl [OF assms] by (simp add: IsolateNotification_def)
  next
    case (Inr db')
    show ?thesis
      by (rule jobs_advances [OF assms k, where c = "isolatable jid" and f = "isolate_row now"])
        (use update_jobs_InrD [OF Inr] Inr in \<open>simp_all add: IsolateNotification_def job_forward_def isolate_row_def\<close>)
  qed
qed

lemma RebuildAndEnqueue_advances:
  assumes "db_ok db"
  shows "advances db (snd (RebuildAndEnqueue cd jid operator e now db))"
proof (cases "is_ok (fst (RebuildAndEnqueue cd jid operator e now db))")
  case True
  then obtain ev db' where r: "RebuildAndEnqueue cd jid operator e now db = (Inr ev, db')"
    by (metis is_ok_iff prod.collapse)
  then obtain doc where d: "db' = db\<lparr>jobs := sql_update (\<lambda>j. j_id j = jid \<and> isolated_job j) (restore_row now) (jobs db),
             outbox := outbox db @ [pending_outbox e jid doc now now]\<rparr>"
    by (rule RebuildAndEnqueue_InrD)
  have k: "tables_ok db'" "linked db'"
    using assms r tables_ok_RebuildAndEnqueue [of db cd jid operator e now] linked_RebuildAndEnqueue [of db cd jid operator e now]
    by (simp_all add: db_ok_def)
  have "advances db db'"
    by (rule jobs_advances [OF assms k, where c = "\<lambda>j. j_id j = jid \<and> isolated_job j" and f = "restore_row now"])
      (simp_all add: d job_forward_def restore_row_def)
  then show ?thesis using r by simp
next
  case False
  then show ?thesis using advances_refl [OF assms]
    by (auto simp: RebuildAndEnqueue_def transaction_def split: if_splits sum.splits prod.splits)
qed

lemma reconcile_all_frame:
  "reconcile_all cd now cs n db = Inr (m, db') \<Longrightarrow>
     jobs db' = jobs db \<and> usage db' = usage db \<and> sessions db' = sessions db \<and> versions db' = versions db
       \<and> assets db' = assets db"
proof (induction cd now cs n db rule: reconcile_all.induct)
  case (2 cd now j eventID cs inserted db)
  then obtain doc created db1 where
    i: "insertReconciliationOutbox (pending_outbox eventID (j_id j) doc now now) db = Inr (created, db1)"
    and r: "reconcile_all cd now cs (if created then inserted + 1 else inserted) db1 = Inr (m, db')"
    by auto
  have "jobs db1 = jobs db \<and> usage db1 = usage db \<and> sessions db1 = sessions db \<and> versions db1 = versions db
      \<and> assets db1 = assets db"
    using i by (auto simp: insertReconciliationOutbox_def split: if_splits dest!: insert_outbox_InrD)
  then show ?case using "2.IH" i r by (metis)
qed simp

lemma outbox_operations_advance:
  assumes "db_ok db"
  shows "advances db (snd (ReconcileStaleDispatches cd locked n age eids now db))"
    "advances db (snd (Claim os isUUID locked now owner limit db))"
    "advances db (snd (MarkPublished e l published now db))"
    "advances db (snd (Reschedule e l due k code now db))"
proof -
  have k: "tables_ok db" "linked db" using assms by (simp_all add: db_ok_def)
  note a = outbox_advance [OF assms]
  have "jobs (snd (transaction (reconcile_all cd now cs 0) db)) = jobs db
      \<and> usage (snd (transaction (reconcile_all cd now cs 0) db)) = usage db
      \<and> sessions (snd (transaction (reconcile_all cd now cs 0) db)) = sessions db
      \<and> versions (snd (transaction (reconcile_all cd now cs 0) db)) = versions db
      \<and> assets (snd (transaction (reconcile_all cd now cs 0) db)) = assets db" for cs
    using reconcile_all_frame by (auto simp: transaction_def split: sum.splits)
  then show "advances db (snd (ReconcileStaleDispatches cd locked n age eids now db))"
    by (intro a tables_ok_ReconcileStaleDispatches [OF k(1)] linked_ReconcileStaleDispatches [OF k(2)])
      (simp_all add: ReconcileStaleDispatches_def Let_def)
  show "advances db (snd (Claim os isUUID locked now owner limit db))"
    by (intro a tables_ok_Claim [OF k(1)] linked_Claim [OF k(2)]) (simp_all add: Claim_def Let_def)
  show "advances db (snd (MarkPublished e l published now db))"
    by (intro a tables_ok_mark [OF k(1)] linked_MarkPublished [OF k(2)]) (simp_all add: MarkPublished_def)
  show "advances db (snd (Reschedule e l due k code now db))"
    by (intro a tables_ok_resched [OF k(1)] linked_Reschedule [OF k(2)]) (simp_all add: Reschedule_def Let_def)
qed

lemma MarkMediaObjectsPurged_advances:
  assumes "db_ok db" and "batch_ok db b"
  shows "advances db (snd (MarkMediaObjectsPurged b now db))"
proof -
  have k: "tables_ok db" "ledger_ok db" "linked db" using assms(1) by (simp_all add: db_ok_def)
  have "linked (snd (MarkMediaObjectsPurged b now db)) \<and> ledger_ok (snd (MarkMediaObjectsPurged b now db))
      \<and> forward db (snd (MarkMediaObjectsPurged b now db))
      \<and> library_of (snd (MarkMediaObjectsPurged b now db)) = library_of db"
    unfolding MarkMediaObjectsPurged_def
  proof (rule transaction_keeps [where P = "\<lambda>d. linked d \<and> ledger_ok d \<and> forward db d \<and> library_of d = library_of db"])
    show "linked db \<and> ledger_ok db \<and> forward db db \<and> library_of db = library_of db" using k forward_refl by simp
    fix u db' assume w: "mark_purged_work b now db = Inr (u, db')"
    then have "forward db db' \<and> library_of db' = library_of db"
    proof (cases rule: mark_purged_work_InrD)
      case marked
      have "rows_forward session_forward (sessions db) (sessions db')"
        unfolding marked(1) by (rule rows_forward_update) (simp_all add: session_forward_def)
      moreover have "rows_forward version_forward (versions db) (versions db')"
        using marked(3) rows_forward_update [of "versions db" "\<lambda>v. v_id v = pg_version b" version_forward
            "\<lambda>v. v\<lparr>v_raw_retained := False\<rparr>"]
        by (auto simp: rows_forward_subset row_forward version_forward_def)
      moreover have "library_of db' = library_of db"
        using marked(3) by (auto simp: library_of_def marked(6) lookup_update_same)
      ultimately show ?thesis by (simp add: forward_def marked(4) rows_forward_subset row_forward)
    qed (simp add: forward_refl)
    then show "linked db' \<and> ledger_ok db' \<and> forward db db' \<and> library_of db' = library_of db"
      using mark_purged_links [OF k(1,3) assms(2) w] mark_purged_ledger [OF k(1,3,2) assms(2) w] by simp
  qed
  then show ?thesis using tables_ok_MarkMediaObjectsPurged [OF k(1)] by (simp add: advances_def db_ok_def)
qed

end
