(* ===== verification/Media_Pipeline.thy ===== *)
theory Media_Pipeline
  imports Media_System
begin

text \<open>
  The whole pipeline as one transition system: the state is the database together with what the
  processes have read from it and still act upon (claimed jobs, the sources of their runs, batches
  to purge, sessions to expire). A step is one transaction of a repository by any process, with
  arbitrary arguments and clock readings, or a change of assets and folders by the rest of the
  service (not their permanent deletion). Every reachable state keeps the constraints, the ledger and the
  links between the tables, every step is at most one step of the life cycle, and no unsettled job is stuck.
\<close>

section \<open>States and steps\<close>

record pipeline =
  p_db :: db
  p_claimed :: "job_row set"
  p_runs :: "(job_row \<times> processing_source) set"
  p_batches :: "purgeable set"
  p_stale :: "session_row set"

text \<open>Assets may be created, renamed, moved, deleted softly and restored by the rest of the service.\<close>

definition pointers_row :: "asset_row \<Rightarrow> string \<times> string option \<times> string option" where
  "pointers_row a = (a_id a, a_active a, a_pending a)"

definition catalogue_change :: "db \<Rightarrow> db \<Rightarrow> bool" where
  "catalogue_change db db' \<longleftrightarrow>
     usage db' = usage db \<and> sessions db' = sessions db \<and> versions db' = versions db \<and> outputs db' = outputs db
     \<and> jobs db' = jobs db \<and> outbox db' = outbox db
     \<and> distinct (map f_id (folders db')) \<and> distinct (map a_id (assets db'))
     \<and> (\<exists>new. map pointers_row (assets db') = map pointers_row (assets db) @ map (\<lambda>i. (i, None, None)) new)"

definition purges :: "purgeable list result \<Rightarrow> purgeable set" where
  "purges r = (case r of Inl e \<Rightarrow> {} | Inr bs \<Rightarrow> set bs)"

definition claims :: "(claimed_job \<times> job_lease) result \<Rightarrow> job_row set" where
  "claims r = (case r of Inl e \<Rightarrow> {} | Inr (c, l) \<Rightarrow> {cl_job c})"

inductive media_step :: "pipeline \<Rightarrow> pipeline \<Rightarrow> bool" where
  create: "media_step p (p\<lparr>p_db := snd (CreateUploadSession sha256 r opt t1 t2 (p_db p))\<rparr>)"
| refresh: "media_step p (p\<lparr>p_db := snd (RefreshUploadSession scope until t1 (p_db p))\<rparr>)"
| close: "media_step p (p\<lparr>p_db := snd (transitionOpenUploadSession scope target t1 (p_db p))\<rparr>)"
| commit: "new_version ids \<noteq> [] \<Longrightarrow>
     media_step p (p\<lparr>p_db := snd (commit_transaction cd r attributes ids tp t1 t2 (p_db p))\<rparr>)"
| sweep: "media_step p (p\<lparr>p_stale := p_stale p \<union> set (expiry_candidates updated n t1 (p_db p))\<rparr>)"
| expire: "c \<in> p_stale p \<Longrightarrow> media_step p (p\<lparr>p_db := snd (expire_one c t1 (p_db p))\<rparr>)"
| claim: "ClaimJob st jid owner t1 t2 t3 t4 t5 (p_db p) = (r, db') \<Longrightarrow>
     media_step p (p\<lparr>p_db := db', p_claimed := p_claimed p \<union> claims r\<rparr>)"
| renew: "media_step p (p\<lparr>p_db := snd (RenewLease st jid held t1 (p_db p))\<rparr>)"
| load: "j \<in> p_claimed p \<Longrightarrow> LoadProcessingSource (j_version j) (p_db p) = Inr src \<Longrightarrow>
     media_step p (p\<lparr>p_runs := insert (j, src) (p_runs p)\<rparr>)"
| complete: "(j, src) \<in> p_runs p \<Longrightarrow>
     media_step p (p\<lparr>p_db := snd (CompleteAndPromote (completion_of src j out dg outs) held t1 t2 t3 (p_db p))\<rparr>)"
| fail: "(j, src) \<in> p_runs p \<Longrightarrow>
     media_step p (p\<lparr>p_db := snd (FailVersion \<lparr>fl_job = j_id j, fl_version = src_version src, fl_org = src_org src,
       fl_asset = src_asset src, fl_code = code\<rparr> held t1 t2 t3 (p_db p))\<rparr>)"
| settle: "media_step p (p\<lparr>p_db := snd (SettleExecutionFailure st cd e tp j held t1 t2 t3 (p_db p))\<rparr>)"
| isolate: "media_step p (p\<lparr>p_db := snd (IsolateNotification jid t1 (p_db p))\<rparr>)"
| replay: "media_step p (p\<lparr>p_db := snd (RebuildAndEnqueue cd jid operator e t1 (p_db p))\<rparr>)"
| reconcile: "media_step p (p\<lparr>p_db := snd (ReconcileStaleDispatches cd locked k age eids t1 (p_db p))\<rparr>)"
| relay_claim: "media_step p (p\<lparr>p_db := snd (Claim os isUUID locked t1 owner k (p_db p))\<rparr>)"
| relay_mark: "media_step p (p\<lparr>p_db := snd (MarkPublished e lease due t1 (p_db p))\<rparr>)"
| relay_reschedule: "media_step p (p\<lparr>p_db := snd (Reschedule e lease due k code t1 (p_db p))\<rparr>)"
| purge_claim: "media_step p (p\<lparr>p_batches := p_batches p \<union> purges (ClaimPurgeableMediaObjects quarantine k t1 (p_db p))\<rparr>)"
| purge_mark: "b \<in> p_batches p \<Longrightarrow> media_step p (p\<lparr>p_db := snd (MarkMediaObjectsPurged b t1 (p_db p))\<rparr>)"
| catalogue: "catalogue_change (p_db p) db' \<Longrightarrow> media_step p (p\<lparr>p_db := db'\<rparr>)"

section \<open>What stays true of what was read\<close>

definition names_job :: "db \<Rightarrow> job_row \<Rightarrow> processing_source \<Rightarrow> bool" where
  "names_job db j src \<longleftrightarrow> (\<exists>k\<in>set (jobs db). job_forward j k \<and> src_version src = j_version k
     \<and> src_org src = j_org k \<and> src_asset src = j_asset k)"

definition pipeline_ok :: "pipeline \<Rightarrow> bool" where
  "pipeline_ok p \<longleftrightarrow> db_ok (p_db p)
     \<and> (\<forall>j\<in>p_claimed p. \<exists>k\<in>set (jobs (p_db p)). job_forward j k)
     \<and> (\<forall>(j, src)\<in>p_runs p. names_job (p_db p) j src)
     \<and> (\<forall>b\<in>p_batches p. batch_ok (p_db p) b)
     \<and> (\<forall>c\<in>p_stale p. \<exists>s\<in>set (sessions (p_db p)). session_forward c s)"

lemma rows_forwardD: "rows_forward R xs ys \<Longrightarrow> x \<in> set xs \<Longrightarrow> \<exists>y\<in>set ys. R x y"
  by (simp add: rows_forward_def)

lemma forwardD:
  assumes "forward db db'"
  shows "j \<in> set (jobs db) \<Longrightarrow> \<exists>k\<in>set (jobs db'). job_forward j k"
    "s \<in> set (sessions db) \<Longrightarrow> \<exists>t\<in>set (sessions db'). session_forward s t"
    "v \<in> set (versions db) \<Longrightarrow> \<exists>w\<in>set (versions db'). version_forward v w"
  using assms by (auto simp: forward_def dest: rows_forwardD)

lemma job_forward_trans: "job_forward i j \<Longrightarrow> job_forward j k \<Longrightarrow> job_forward i k"
  by (simp add: job_forward_def)

lemma session_forward_trans: "session_forward r s \<Longrightarrow> session_forward s t \<Longrightarrow> session_forward r t"
  by (auto simp: session_forward_def)

lemma names_job_forward:
  assumes "names_job db j src" "forward db db'"
  shows "names_job db' j src"
proof -
  obtain k where k: "k \<in> set (jobs db)" "job_forward j k" "src_version src = j_version k"
    "src_org src = j_org k" "src_asset src = j_asset k" using assms(1) by (auto simp: names_job_def)
  obtain i where "i \<in> set (jobs db')" "job_forward k i" using forwardD(1) [OF assms(2) k(1)] by blast
  then show ?thesis using k(2-5) unfolding names_job_def by (intro bexI [of _ i]) (simp_all add: job_forward_def)
qed

lemma batch_forward:
  assumes "batch_ok db b" "forward db db'"
  shows "batch_ok db' b"
proof (cases "pg_version b = []")
  case True
  then obtain s where s: "s \<in> set (sessions db)" "s_id s = pg_upload b" "s_state s \<noteq> UploadSessionCreated"
      "s_state s \<noteq> UploadSessionCommitted"
    using assms(1) by (auto simp: batch_ok_def)
  then show ?thesis using forwardD(2) [OF assms(2) s(1)] True by (force simp: batch_ok_def session_forward_def)
next
  case False
  then obtain v where v: "v \<in> set (versions db)" "v_id v = pg_version b" "v_upload v = pg_upload b" "v_org v = pg_org b"
      "v_size v = pg_stored b" "v_status v = MediaVersionFailed"
    using assms(1) by (auto simp: batch_ok_def)
  then have "\<not> open_version v" by (simp add: open_version_def)
  then show ?thesis using forwardD(3) [OF assms(2) v(1)] v False by (force simp: batch_ok_def version_forward_def)
qed

lemma reads_forward:
  assumes "pipeline_ok p" "db_ok db'" "forward (p_db p) db'"
  shows "pipeline_ok (p\<lparr>p_db := db'\<rparr>)"
proof -
  have "\<exists>k\<in>set (jobs db'). job_forward j k" if j: "j \<in> p_claimed p" for j
  proof -
    obtain k where "k \<in> set (jobs (p_db p))" "job_forward j k" using assms(1) j by (auto simp: pipeline_ok_def)
    then show ?thesis using forwardD(1) [OF assms(3)] job_forward_trans by blast
  qed
  moreover have "\<exists>t\<in>set (sessions db'). session_forward c t" if c: "c \<in> p_stale p" for c
  proof -
    obtain s where "s \<in> set (sessions (p_db p))" "session_forward c s" using assms(1) c by (auto simp: pipeline_ok_def)
    then show ?thesis using forwardD(2) [OF assms(3)] session_forward_trans by blast
  qed
  moreover have "names_job db' j src" if "(j, src) \<in> p_runs p" for j src
    using assms(1) that names_job_forward [OF _ assms(3)] by (auto simp: pipeline_ok_def)
  moreover have "batch_ok db' b" if "b \<in> p_batches p" for b
    using assms(1) that batch_forward [OF _ assms(3)] by (auto simp: pipeline_ok_def)
  ultimately show ?thesis using assms(2) by (auto simp: pipeline_ok_def)
qed

section \<open>The catalogue\<close>

lemma pointers_rows:
  "pointers a_active rs = (\<lambda>a. Option.bind (map_of (map pointers_row rs) a) fst)"
  "pointers a_pending rs = (\<lambda>a. Option.bind (map_of (map pointers_row rs) a) snd)"
  by (induction rs) (auto simp: pointers_def lookup_def pointers_row_def fun_eq_iff)

lemma map_of_none: "map_of (map (\<lambda>i. (i, x)) new) a = (if a \<in> set new then Some x else None)"
  by (induction new) auto

lemma catalogue_quiet:
  assumes "db_ok db" "catalogue_change db db'"
  shows "quiet db db'"
proof -
  obtain new where m: "map pointers_row (assets db') = map pointers_row (assets db) @ map (\<lambda>i. (i, None, None)) new"
    using assms(2) by (auto simp: catalogue_change_def)
  have e: "usage db' = usage db" "sessions db' = sessions db" "versions db' = versions db" "outputs db' = outputs db"
    "jobs db' = jobs db" "outbox db' = outbox db" "distinct (map f_id (folders db'))" "distinct (map a_id (assets db'))"
    using assms(2) by (auto simp: catalogue_change_def)
  have d: "distinct (map fst (map pointers_row (assets db')))" using e(8) by (simp add: comp_def pointers_row_def)
  have s: "set (map pointers_row (assets db')) = pointers_row ` set (assets db) \<union> (\<lambda>i. (i, None, None)) ` set new"
    using m by simp
  have old: "\<exists>b\<in>set (assets db). pointers_row b = pointers_row a" if "a \<in> set (assets db')" "a_active a \<noteq> None \<or> a_pending a \<noteq> None" for a
  proof -
    have "pointers_row a \<in> pointers_row ` set (assets db) \<union> (\<lambda>i. (i, None, None)) ` set new"
      using s that(1) by (metis image_eqI list.set_map)
    then show ?thesis using that(2) by (auto simp: pointers_row_def)
  qed
  have keep: "\<exists>b\<in>set (assets db'). pointers_row b = pointers_row a" if "a \<in> set (assets db)" for a
  proof -
    have "pointers_row a \<in> set (map pointers_row (assets db'))" using s that by simp
    then show ?thesis by auto
  qed
  have l: "assets_link db" "sessions_link db" "jobs_link db" "outputs_link db" "events_link db"
    using assms(1) by (simp_all add: db_ok_def linked_def)
  have "assets_link db'" unfolding assets_link_def e(3)
  proof (intro conjI ballI allI impI)
    fix a i assume a: "a \<in> set (assets db')" "a_pending a = Some i"
    then obtain b where "b \<in> set (assets db)" "a_id b = a_id a" "a_pending b = Some i"
      using old [OF a(1)] by (auto simp: pointers_row_def)
    then show "\<exists>v\<in>set (versions db). v_id v = i \<and> v_asset v = a_id a \<and> open_version v"
      using l(1) [unfolded assets_link_def, THEN conjunct1] by metis
  next
    fix a i assume a: "a \<in> set (assets db')" "a_active a = Some i"
    then obtain b where "b \<in> set (assets db)" "a_id b = a_id a" "a_active b = Some i"
      using old [OF a(1)] by (auto simp: pointers_row_def)
    then show "\<exists>v\<in>set (versions db). v_id v = i \<and> v_asset v = a_id a \<and> v_status v = MediaVersionCompleted"
      using l(1) [unfolded assets_link_def, THEN conjunct2, THEN conjunct2] by metis
  next
    fix v assume "v \<in> set (versions db)" "open_version v"
    then obtain a where a: "a \<in> set (assets db)" "a_id a = v_asset v" "a_pending a = Some (v_id v)"
      using l(1) unfolding assets_link_def by blast
    then show "\<exists>a\<in>set (assets db'). a_id a = v_asset v \<and> a_pending a = Some (v_id v)"
      using keep [OF a(1)] by (auto simp: pointers_row_def)
  qed
  then have "linked db'" using l e by (simp add: linked_def sessions_link_def jobs_link_def outputs_link_def events_link_def)
  moreover have "tables_ok db'" using assms(1) e by (simp add: db_ok_def tables_ok_def)
  moreover have "ledger_ok db'" using assms(1) ledger_ok_cong [OF e(1-3)] by (simp add: db_ok_def)
  moreover have "library_of db' = library_of db"
  proof -
    have "Option.bind (map_of (map pointers_row (assets db')) a) g = Option.bind (map_of (map pointers_row (assets db)) a) g"
      if "g (None, None) = None" for a and g :: "string option \<times> string option \<Rightarrow> string option"
      unfolding m using that by (auto simp: map_add_def map_of_none split: option.splits)
    then show ?thesis by (simp add: library_of_def e(3) pointers_rows)
  qed
  ultimately show ?thesis using forward_same [OF e(5,2,3)] by (simp add: quiet_def db_ok_def)
qed

section \<open>Every step\<close>

inductive_cases media_stepE: "media_step p q"

text \<open>A state that only reads more, and one whose database advances.\<close>

lemma reads_more:
  assumes "pipeline_ok p" "p_db q = p_db p" "pipeline_ok q"
  shows "pipeline_ok q \<and> advances (p_db p) (p_db q)"
  using assms advances_refl by (simp add: pipeline_ok_def)

lemma writes:
  assumes "pipeline_ok p" "advances (p_db p) db'"
  shows "pipeline_ok (p\<lparr>p_db := db'\<rparr>) \<and> advances (p_db p) (p_db (p\<lparr>p_db := db'\<rparr>))"
  using reads_forward [OF assms(1)] assms(2) by (simp add: advances_def)

lemma loaded_names_job:
  assumes "pipeline_ok p" "j \<in> p_claimed p" "LoadProcessingSource (j_version j) (p_db p) = Inr src"
  shows "names_job (p_db p) j src"
proof -
  have ok: "tables_ok (p_db p)" "linked (p_db p)" using assms(1) by (simp_all add: pipeline_ok_def db_ok_def)
  obtain k where k: "k \<in> set (jobs (p_db p))" "job_forward j k" using assms(1,2) by (auto simp: pipeline_ok_def)
  obtain v where v: "v \<in> set (versions (p_db p))" "agree k v"
    using ok(2) [unfolded linked_def jobs_link_def] k(1) by metis
  obtain w where w: "w \<in> set (versions (p_db p))" "v_id w = j_version j" "src_org src = v_org w" "src_asset src = v_asset w"
      "src_version src = v_id w"
    using assms(3) by (auto simp: LoadProcessingSource_def split: option.splits dest!: find_SomeD)
  have "w = v" using agree_version_unique [OF ok(1) w(1) v(1)] w(2) v(2) k(2) by (simp add: agree_def job_forward_def)
  then show ?thesis using k v(2) w(3-5) by (auto simp: names_job_def agree_def)
qed

lemma claimed_known:
  assumes "ClaimJob st jid owner t1 t2 t3 t4 t5 db = (r, db')" "j \<in> claims r"
  shows "\<exists>k\<in>set (jobs db'). job_forward j k"
proof -
  obtain c l where r: "r = Inr (c, l)" "j = cl_job c" using assms(2) by (auto simp: claims_def split: sum.splits)
  obtain i where i: "i \<in> set (jobs db)" "claimable st jid t1 db i"
      "update_jobs (claimable st jid t1 db) (claim_row st owner t1) db = Inr db'"
      "c = claimed_of t1 i (claim_row st owner t1 i)"
    by (rule ClaimJob_InrD [OF assms(1) [unfolded r]])
  have "j = claim_row st owner t1 i" using r(2) i(4) by (auto simp: claimed_of_def split: option.splits bool.splits)
  moreover have "claim_row st owner t1 i \<in> set (jobs db')"
    using update_jobs_InrD [OF i(3)] i(1,2) by (auto intro: sql_update_memI1)
  ultimately show ?thesis using row_forward(1) by blast
qed

theorem media_step_advances:
  assumes "media_step p q" "pipeline_ok p"
  shows "pipeline_ok q \<and> advances (p_db p) (p_db q)"
proof -
  have ok: "db_ok (p_db p)" using assms(2) by (simp add: pipeline_ok_def)
  note w = writes [OF assms(2)]
  have run: "\<exists>k. k \<in> set (jobs (p_db p)) \<and> j_id j = j_id k \<and> src_version src = j_version k \<and> src_org src = j_org k
      \<and> src_asset src = j_asset k" if "(j, src) \<in> p_runs p" for j src
    using assms(2) that by (fastforce simp: pipeline_ok_def names_job_def job_forward_def)
  show ?thesis using assms(1)
  proof cases
    case (expire c t1)
    obtain s where "s \<in> set (sessions (p_db p))" "session_forward c s" using assms(2) expire by (auto simp: pipeline_ok_def)
    then show ?thesis unfolding expire(1) by (intro w expire_one_advances [OF ok])
  next
    case (claim st jid owner t1 t2 t3 t4 t5 r db')
    have "advances (p_db p) db'" using ClaimJob_advances [OF ok, of st jid owner t1 t2 t3 t4 t5] claim(2) by simp
    then have "pipeline_ok (p\<lparr>p_db := db'\<rparr>)" "advances (p_db p) db'" using w by auto
    then show ?thesis unfolding claim(1) using claimed_known [OF claim(2)] by (auto simp: pipeline_ok_def)
  next
    case (load j src)
    show ?thesis
      by (rule reads_more [OF assms(2)]) (use load loaded_names_job [OF assms(2) load(2,3)] assms(2) in \<open>auto simp: pipeline_ok_def\<close>)
  next
    case (complete j src out dg outs held t1 t2 t3)
    obtain k where k: "k \<in> set (jobs (p_db p))" "j_id j = j_id k" "src_version src = j_version k" "src_org src = j_org k"
      "src_asset src = j_asset k" using run [OF complete(2)] by blast
    show ?thesis unfolding complete(1)
      by (intro w CompleteAndPromote_advances [OF ok k(1)]) (simp_all add: completion_of_def k)
  next
    case (fail j src code held t1 t2 t3)
    obtain k where k: "k \<in> set (jobs (p_db p))" "j_id j = j_id k" "src_version src = j_version k" "src_org src = j_org k"
      "src_asset src = j_asset k" using run [OF fail(2)] by blast
    show ?thesis unfolding fail(1) by (intro w FailVersion_advances [OF ok k(1)]) (simp_all add: k)
  next
    case (purge_claim quarantine k t1)
    have t: "tables_ok (p_db p)" "linked (p_db p)" using ok by (simp_all add: db_ok_def)
    have "batch_ok (p_db p) b" if "b \<in> purges (ClaimPurgeableMediaObjects quarantine k t1 (p_db p))" for b
      using that claimed_batch_ok [OF t] by (auto simp: purges_def split: sum.splits)
    then show ?thesis
      by (intro reads_more [OF assms(2)]) (use purge_claim assms(2) in \<open>auto simp: pipeline_ok_def\<close>)
  next
    case (purge_mark b t1)
    have "batch_ok (p_db p) b" using assms(2) purge_mark by (auto simp: pipeline_ok_def)
    then show ?thesis unfolding purge_mark(1) by (intro w MarkMediaObjectsPurged_advances [OF ok])
  next
    case (sweep updated n t1)
    have "s \<in> set (sessions (p_db p))" if "s \<in> set (expiry_candidates updated n t1 (p_db p))" for s
      using that by (auto simp: expiry_candidates_def order_by_def dest!: in_set_takeD)
    then show ?thesis
      by (intro reads_more [OF assms(2)]) (use sweep assms(2) row_forward(2) in \<open>fastforce simp: pipeline_ok_def\<close>)+
  next
    case (catalogue db')
    then show ?thesis using w quiet_advances [OF catalogue_quiet [OF ok]] by simp
  qed (simp_all only: w session_operations_advance [OF ok] commit_advances [OF ok] RenewLease_advances [OF ok]
      SettleExecutionFailure_advances [OF ok] IsolateNotification_advances [OF ok] RebuildAndEnqueue_advances [OF ok]
      outbox_operations_advance [OF ok] not_False_eq_True simp_thms)
qed

section \<open>Reachable states\<close>

definition starting :: "pipeline \<Rightarrow> bool" where
  "starting p \<longleftrightarrow> (let db = p_db p in
     usage db = [] \<and> sessions db = [] \<and> versions db = [] \<and> outputs db = [] \<and> jobs db = [] \<and> outbox db = []
     \<and> distinct (map f_id (folders db)) \<and> distinct (map a_id (assets db))
     \<and> list_all (\<lambda>a. a_active a = None \<and> a_pending a = None) (assets db)
     \<and> p_claimed p = {} \<and> p_runs p = {} \<and> p_batches p = {} \<and> p_stale p = {})"

inductive reachable :: "pipeline \<Rightarrow> bool" where
  init: "starting p \<Longrightarrow> reachable p"
| move: "reachable p \<Longrightarrow> media_step p q \<Longrightarrow> reachable q"

inductive_simps reachable_iff: "reachable p"

lemma starting_ok: "starting p \<Longrightarrow> pipeline_ok p"
  by (auto simp: starting_def Let_def pipeline_ok_def db_ok_def tables_ok_def no_conflict_def ledger_ok_def linked_def
      link_defs list_all_iff)

lemma reachable_ok: "reachable p \<Longrightarrow> pipeline_ok p"
  by (induction rule: reachable.induct) (use starting_ok media_step_advances in blast)+

lemma steps_ok:
  assumes "media_step\<^sup>*\<^sup>* p q" "pipeline_ok p"
  shows "pipeline_ok q \<and> forward (p_db p) (p_db q)"
  using assms
proof (induction rule: rtranclp_induct)
  case (step q r)
  then have "pipeline_ok q" "forward (p_db p) (p_db q)" by simp_all
  then show ?case using media_step_advances [OF step(2)] forward_trans by (auto simp: advances_def)
qed (simp add: forward_refl)

text \<open>C1: In every state that the media processes reach (uploads, workers, relay, sweeps, replay and reconciliation, among
  any changes of folders and assets short of the permanent deletion by the lifecycle purge) the tables satisfy their constraints, each organization's ledger is the sum of
  what its sessions reserve and its retained originals occupy, an asset's active version is a completed one with both
  renditions stored, its pending version is exactly its unsettled one, and every job has an event.\<close>

theorem pipeline_invariant:
  assumes "reachable p"
  shows "tables_ok (p_db p) \<and> ledger_ok (p_db p) \<and> linked (p_db p)"
  using reachable_ok [OF assms] by (simp add: pipeline_ok_def db_ok_def)

text \<open>C2: Every step of a media process, and every change of folders and assets short of the permanent deletion by the
  lifecycle purge, in any interleaving, is a step of the abstract life cycle of versions
  (a version admitted to an asset without one in progress, accepted and shown, or rejected) or changes nothing in it.\<close>

theorem media_step_refines_life_cycle:
  assumes "reachable p" "media_step p q"
  shows "library_of (p_db q) = library_of (p_db p) \<or> life_step (library_of (p_db p)) (library_of (p_db q))"
  using media_step_advances [OF assms(2) reachable_ok [OF assms(1)]] by (auto simp: advances_def)

text \<open>A verdict is final: a version that completed or failed keeps that status through any later steps.\<close>

theorem verdict_is_final:
  assumes "reachable p" "media_step\<^sup>*\<^sup>* p q" "v \<in> set (versions (p_db p))" "\<not> open_version v"
  shows "\<exists>w\<in>set (versions (p_db q)). v_id w = v_id v \<and> v_asset w = v_asset v \<and> v_status w = v_status v"
proof -
  have "forward (p_db p) (p_db q)" using steps_ok [OF assms(2) reachable_ok [OF assms(1)]] by simp
  then show ?thesis using forwardD(3) [OF _ assms(3)] assms(4) by (force simp: version_forward_def)
qed

section \<open>No unsettled job is stuck\<close>

lemma load_succeeds:
  assumes "linked db" "j \<in> set (jobs db)"
  shows "\<exists>src. LoadProcessingSource (j_version j) db = Inr src"
proof -
  obtain v where v: "v \<in> set (versions db)" "v_id v = j_version j"
    using assms unfolding linked_def jobs_link_def agree_def by blast
  have ex: "\<exists>s\<in>set (sessions db). s_id s = v_upload w" if "w \<in> set (versions db)" for w
    using assms(1) that unfolding linked_def sessions_link_def origin_def by blast
  have "find (\<lambda>v. v_id v = j_version j \<and> sql_exists (\<lambda>s. s_id s = v_upload v) (sessions db)) (versions db) \<noteq> None"
    using v ex [OF v(1)] by (auto simp: find_None_iff sql_exists_iff)
  then obtain w where w: "find (\<lambda>v. v_id v = j_version j \<and> sql_exists (\<lambda>s. s_id s = v_upload v) (sessions db)) (versions db) = Some w"
    by blast
  then have "find (\<lambda>s. s_id s = v_upload w) (sessions db) \<noteq> None"
    using ex by (auto simp: find_None_iff dest!: find_SomeD)
  then show ?thesis using w by (auto simp: LoadProcessingSource_def)
qed

lemma claim_succeeds:
  assumes "tables_ok db" "j \<in> set (jobs db)" "claimable st (j_id j) now db j" "owner \<noteq> []" "js_attempts st \<le> 3"
  shows "\<exists>c. ClaimJob st (j_id j) owner now t1 t2 t3 t4 db
      = (Inr (c, \<lparr>lease_holder = owner, lease_until = now + js_expiry st\<rparr>),
         db\<lparr>jobs := sql_update (claimable st (j_id j) now db) (claim_row st owner now) (jobs db)\<rparr>)
    \<and> cl_job c = claim_row st owner now j"
proof -
  have f: "find (claimable st (j_id j) now db) (jobs db) = Some j"
  proof (cases "find (claimable st (j_id j) now db) (jobs db)")
    case None
    then show ?thesis using assms(2,3) by (auto simp: find_None_iff)
  next
    case (Some k)
    then have "k = j" using job_id_unique [OF assms(1) _ assms(2)] by (auto simp: claimable_def dest!: find_SomeD)
    then show ?thesis using Some by simp
  qed
  have "job_check (claim_row st owner now k)" if "k \<in> set (jobs db)" "claimable st (j_id j) now db k" for k
    using that assms(5) tables_ok_checks(4) [OF assms(1) that(1)] by (auto simp: job_check_def claim_row_def claimable_def)
  then have "update_jobs (claimable st (j_id j) now db) (claim_row st owner now) db
      = Inr (db\<lparr>jobs := sql_update (claimable st (j_id j) now db) (claim_row st owner now) (jobs db)\<rparr>)"
    by (simp add: update_jobs_def list_all_iff)
  moreover have "cl_job (claimed_of now j (claim_row st owner now j)) = claim_row st owner now j"
    by (simp add: claimed_of_def split: option.split bool.split)
  ultimately show ?thesis
    using assms(4) f by (simp add: ClaimJob_def claim_work_def transaction_def lease_of_def claim_row_def)
qed

lemma fail_succeeds:
  assumes "tables_ok db" "k \<in> set (jobs db)" "holds_lease (j_id k) held now k" "fl_job fl = j_id k"
  shows "\<exists>db'. FailVersion fl held now t1 t2 db = (Inr True, db') \<and> failMediaVersion fl t1 t2 db = Inr db'"
proof -
  have "lockLeasedJob (fl_job fl) held now db \<noteq> None"
    using assms(2-4) by (auto simp: lockLeasedJob_def find_None_iff)
  moreover have "version_check (fail_version_row c t v)" if "v \<in> set (versions db)" for c t v
    using tables_ok_checks(2) [OF assms(1) that] by (simp add: version_check_def fail_version_row_def)
  moreover have "job_check (fail_job_row c t i)" if "i \<in> set (jobs db)" "j_id i = fl_job fl" for c t i
  proof -
    have "i = k" using job_id_unique [OF assms(1) that(1) assms(2)] that(2) assms(4) by simp
    then show ?thesis using tables_ok_checks(4) [OF assms(1,2)] assms(3)
      by (auto simp: job_check_def fail_job_row_def holds_lease_def)
  qed
  ultimately show ?thesis
    by (auto simp: FailVersion_def fail_work_def transaction_def failMediaVersion_def update_versions_def update_jobs_def
        clearPendingMediaVersion_def list_all_iff)
qed

lemma fail_leaves:
  assumes "failMediaVersion fl t1 t2 db = Inr db'" "i \<in> set (jobs db)" "LoadProcessingSource (j_version i) db = Inr src"
    and "fl_job fl = j_id i" "fl_version fl = src_version src" "fl_org fl = src_org src"
  shows "(\<exists>k\<in>set (jobs db'). j_id k = j_id i \<and> j_status k = ProcessingJobFailed)
    \<and> (\<exists>v\<in>set (versions db'). v_id v = j_version i \<and> v_status v = MediaVersionFailed)"
proof
  have "fail_job_row (fl_code fl) t2 i \<in> set (jobs db')"
    using failMediaVersion_InrD [OF assms(1)] assms(2,4) by (auto intro: sql_update_memI1)
  then show "\<exists>k\<in>set (jobs db'). j_id k = j_id i \<and> j_status k = ProcessingJobFailed"
    by (intro bexI) (simp_all add: fail_job_row_def)
  obtain w where w: "w \<in> set (versions db)" "v_id w = j_version i" "src_org src = v_org w" "src_version src = v_id w"
    using assms(3) by (auto simp: LoadProcessingSource_def split: option.splits dest!: find_SomeD)
  then have "fail_version_row (fl_code fl) t1 w \<in> set (versions db')"
    using failMediaVersion_InrD [OF assms(1)] assms(5,6) by (auto intro: sql_update_memI1)
  then show "\<exists>v\<in>set (versions db'). v_id v = j_version i \<and> v_status v = MediaVersionFailed"
    using w(2) by (intro bexI) (simp_all add: fail_version_row_def)
qed

text \<open>C36: An active job with an attempt left whose asset is visible is never stuck: from any reachable state some
  steps of a worker (claim, load, fail) settle it and its version.\<close>

theorem unsettled_job_can_be_settled:
  assumes "reachable p" "j \<in> set (jobs (p_db p))" "active_status j" "asset_visible (j_asset j) (p_db p)"
    and "j_attempts j < js_attempts st" "js_attempts st \<le> 3" "0 < js_expiry st"
  shows "\<exists>q. media_step\<^sup>*\<^sup>* p q \<and> (\<exists>k\<in>set (jobs (p_db q)). j_id k = j_id j \<and> j_status k = ProcessingJobFailed)
    \<and> (\<exists>v\<in>set (versions (p_db q)). v_id v = j_version j \<and> v_status v = MediaVersionFailed)"
proof -
  have ok: "tables_ok (p_db p)" using reachable_ok [OF assms(1)] by (simp add: pipeline_ok_def db_ok_def)
  define now where "now = max (j_next_attempt j) (case j_lease_expires j of None \<Rightarrow> 0 | Some t \<Rightarrow> t)"
  define db1 where "db1 = (p_db p)\<lparr>jobs := sql_update (claimable st (j_id j) now (p_db p)) (claim_row st ''w'' now) (jobs (p_db p))\<rparr>"
  define i where "i = claim_row st ''w'' now j"
  let ?held = "\<lparr>lease_holder = ''w'', lease_until = now + js_expiry st\<rparr>"
  have "j_isolated_at j = None" using tables_ok_checks(4) [OF ok assms(2)] assms(3) by (auto simp: job_check_def active_status_def)
  then have cl: "claimable st (j_id j) now (p_db p) j"
    using assms(3-5) by (auto simp: claimable_def now_def lease_free_def split: option.splits)
  obtain c where c: "ClaimJob st (j_id j) ''w'' now now now now now (p_db p) = (Inr (c, ?held), db1)" "cl_job c = i"
    using claim_succeeds [OF ok assms(2) cl _ assms(6), of "''w''" now now now now] unfolding db1_def i_def by auto
  define p1 where "p1 = p\<lparr>p_db := db1, p_claimed := insert i (p_claimed p)\<rparr>"
  have s1: "media_step p p1" using media_step.claim [OF c(1)] c(2) by (simp add: p1_def claims_def)
  then have ok1: "tables_ok db1" "linked db1" "pipeline_ok p1"
    using media_step_advances [OF s1 reachable_ok [OF assms(1)]] by (simp_all add: p1_def pipeline_ok_def db_ok_def)
  have "i \<in> set (jobs db1)" 
    unfolding i_def db1_def using assms(2) cl by (simp add: sql_update_memI1)
  moreover have "holds_lease (j_id i) ?held now i" "j_id i = j_id j" "j_version i = j_version j"
    using assms(7) by (simp_all add: i_def holds_lease_def claim_row_def)
  ultimately have i: "i \<in> set (jobs db1)" "holds_lease (j_id i) ?held now i" "j_id i = j_id j" "j_version i = j_version j"
    by blast+
  obtain src where src: "LoadProcessingSource (j_version i) db1 = Inr src" using load_succeeds [OF ok1(2) i(1)] by blast
  define p2 where "p2 = p1\<lparr>p_runs := insert (i, src) (p_runs p1)\<rparr>"
  have s2: "media_step p1 p2" using media_step.load [of i p1 src] src by (simp add: p1_def p2_def)
  let ?fl = "\<lparr>fl_job = j_id i, fl_version = src_version src, fl_org = src_org src, fl_asset = src_asset src, fl_code = ''X''\<rparr>"
  obtain db3 where f: "FailVersion ?fl ?held now now now db1 = (Inr True, db3)" "failMediaVersion ?fl now now db1 = Inr db3"
    using fail_succeeds [OF ok1(1) i(1,2), of ?fl] by auto
  define p3 where "p3 = p2\<lparr>p_db := db3\<rparr>"
  have s3: "media_step p2 p3" using media_step.fail [of i src p2 "''X''" ?held now now now] f(1) by (simp add: p1_def p2_def p3_def)
  have "(\<exists>k\<in>set (jobs db3). j_id k = j_id j \<and> j_status k = ProcessingJobFailed)
      \<and> (\<exists>v\<in>set (versions db3). v_id v = j_version j \<and> v_status v = MediaVersionFailed)"
    using fail_leaves [OF f(2) i(1) src] i(3,4) by simp
  moreover have "media_step\<^sup>*\<^sup>* p p3" using s1 s2 s3 by (meson converse_rtranclp_into_rtranclp r_into_rtranclp)
  ultimately show ?thesis unfolding p3_def by (intro exI [of _ p3]) (simp add: p3_def)
qed

section \<open>A concrete run\<close>

text \<open>A session is opened and committed, its job claimed, loaded and completed.\<close>

definition demo_start :: pipeline where
  "demo_start = \<lparr>p_db = demo_db, p_claimed = {}, p_runs = {}, p_batches = {}, p_stale = {}\<rparr>"

definition demo_loaded :: processing_source where
  "demo_loaded = \<lparr>src_org = ''o'', src_asset = ''a'', src_version = ''v'', src_upload = ''s'',
     src_raw_key = ''raw/o/a/s/original.png'', src_declared = ''image/png'', src_admitted_sha256 = demo_digest,
     src_size = 10\<rparr>"

definition demo_rendered :: proc_outcome where
  "demo_rendered = \<lparr>po_detected = ''image/png'', po_width = 10, po_height = 20, po_source_sha256 = demo_digest, po_artifacts = []\<rparr>"

definition demo_complete :: "bool result \<times> db" where
  "demo_complete = CompleteAndPromote (completion_of demo_loaded demo_job demo_rendered demo_digest
     [demo_output ''m1'' ''thumbnail'', demo_output ''m2'' ''web'']) demo_lease 30 31 32 demo_claimed_db"

definition demo_committed :: pipeline where
  "demo_committed = demo_start\<lparr>p_db := demo_committed_db\<rparr>"

definition demo_working :: pipeline where
  "demo_working = \<lparr>p_db = demo_claimed_db, p_claimed = {demo_job}, p_runs = {(demo_job, demo_loaded)},
     p_batches = {}, p_stale = {}\<rparr>"

definition demo_done :: pipeline where
  "demo_done = demo_working\<lparr>p_db := snd demo_complete\<rparr>"

lemma demo_opened_reachable: "reachable (demo_start\<lparr>p_db := demo_opened_db\<rparr>)"
proof -
  have "starting demo_start" by (simp add: starting_def Let_def demo_start_def demo_db_def)
  then have 0: "reachable demo_start" by (rule reachable.init)
  have 1: "media_step demo_start (demo_start\<lparr>p_db := demo_opened_db\<rparr>)"
    using media_step.create [of demo_start "\<lambda>_. demo_digest" demo_request demo_options 5 6]
    by (simp add: demo_start_def demo_opened_db_def demo_open_def)
  show ?thesis by (rule reachable.move [OF 0 1])
qed

lemma demo_committed_reachable: "reachable demo_committed"
proof -
  have 2: "media_step (demo_start\<lparr>p_db := demo_opened_db\<rparr>) demo_committed"
    using media_step.commit [of demo_ids "demo_start\<lparr>p_db := demo_opened_db\<rparr>" "demo_codec JNull" demo_commit_request
        demo_attributes "[]" 10 11]
    by (simp add: demo_committed_def demo_committed_db_def demo_commit_def demo_ids_def)
  show ?thesis by (rule reachable.move [OF demo_opened_reachable 2])
qed

lemma demo_working_reachable: "reachable demo_working"
proof -
  obtain c where c: "ClaimJob demo_store ''j'' ''w'' 20 20 20 20 20 demo_committed_db = (Inr (c, demo_lease), demo_claimed_db)"
    by (rule demo_claim_eq)
  have "case fst demo_claim of Inr (c, l) \<Rightarrow> cl_job c = demo_job | _ \<Rightarrow> False" by code_simp
  then have j: "cl_job c = demo_job" using c by (simp add: demo_claim_def)
  have 1: "media_step demo_committed (demo_committed\<lparr>p_db := demo_claimed_db, p_claimed := {demo_job}\<rparr>)"
    using media_step.claim [of demo_store "''j''" "''w''" 20 20 20 20 20 demo_committed, unfolded demo_committed_def] c j
    by (simp add: demo_committed_def demo_start_def claims_def)
  have "LoadProcessingSource (j_version demo_job) demo_claimed_db = Inr demo_loaded" by code_simp
  then have 2: "media_step (demo_committed\<lparr>p_db := demo_claimed_db, p_claimed := {demo_job}\<rparr>) demo_working"
    using media_step.load [of demo_job "demo_committed\<lparr>p_db := demo_claimed_db, p_claimed := {demo_job}\<rparr>" demo_loaded]
    by (simp add: demo_committed_def demo_start_def demo_working_def)
  show ?thesis using reachable.move [OF reachable.move [OF demo_committed_reachable 1] 2] .
qed

lemma demo_completes: "media_step demo_working demo_done"
  using media_step.complete [of demo_job demo_loaded demo_working demo_rendered demo_digest
      "[demo_output ''m1'' ''thumbnail'', demo_output ''m2'' ''web'']" demo_lease 30 31 32]
  by (simp add: demo_working_def demo_done_def demo_complete_def)

theorem pipeline_invariant_witness:
  "linked (p_db demo_done) \<and> list_all (\<lambda>a. a_active a = Some ''v'' \<and> a_pending a = None) (assets (p_db demo_done))"
proof -
  have "list_all (\<lambda>a. a_active a = Some ''v'' \<and> a_pending a = None) (assets (snd demo_complete))" by code_simp
  then show ?thesis
    using pipeline_invariant [OF reachable.move [OF demo_working_reachable demo_completes]] by (simp add: demo_done_def)
qed

theorem media_step_refines_life_cycle_witness:
  "life_step (library_of demo_claimed_db) (library_of (snd demo_complete))"
proof -
  have "lib_verdict (library_of demo_claimed_db) ''v'' \<noteq> lib_verdict (library_of (snd demo_complete)) ''v''" by code_simp
  then have "library_of demo_claimed_db \<noteq> library_of (snd demo_complete)" by auto
  then show ?thesis
    using media_step_refines_life_cycle [OF demo_working_reachable demo_completes]
    by (simp add: demo_working_def demo_done_def)
qed

theorem verdict_is_final_witness:
  "\<exists>w\<in>set (versions (snd (IsolateNotification ''j'' 90 (snd demo_complete)))). v_id w = ''v'' \<and> v_status w = MediaVersionCompleted"
proof -
  have "list_ex (\<lambda>v. v_id v = ''v'' \<and> v_status v = MediaVersionCompleted) (versions (snd demo_complete))" by code_simp
  then obtain v where v: "v \<in> set (versions (p_db demo_done))" "v_id v = ''v''" "v_status v = MediaVersionCompleted"
    by (auto simp: list_ex_iff demo_done_def)
  then have o: "\<not> open_version v" by (simp add: open_version_def)
  have "media_step\<^sup>*\<^sup>* demo_done (demo_done\<lparr>p_db := snd (IsolateNotification ''j'' 90 (p_db demo_done))\<rparr>)"
    by (rule r_into_rtranclp, rule media_step.isolate)
  from verdict_is_final [OF reachable.move [OF demo_working_reachable demo_completes] this v(1) o]
  show ?thesis using v(2,3) by (auto simp: demo_done_def)
qed

theorem unsettled_job_can_be_settled_witness:
  "\<exists>q. media_step\<^sup>*\<^sup>* demo_committed q \<and> (\<exists>v\<in>set (versions (p_db q)). v_id v = ''v'' \<and> v_status v = MediaVersionFailed)"
proof -
  have "list_ex (\<lambda>j. active_status j \<and> j_version j = ''v'' \<and> asset_visible (j_asset j) demo_committed_db
      \<and> j_attempts j < js_attempts demo_store) (jobs demo_committed_db)" by code_simp
  then obtain j where j: "j \<in> set (jobs (p_db demo_committed))" "active_status j" "asset_visible (j_asset j) (p_db demo_committed)"
      "j_attempts j < js_attempts demo_store" "j_version j = ''v''"
    by (auto simp: list_ex_iff demo_committed_def)
  have "js_attempts demo_store \<le> 3" "0 < js_expiry demo_store" by (simp_all add: demo_store_def js_attempts_def)
  from unsettled_job_can_be_settled [OF demo_committed_reachable j(1-4) this] show ?thesis using j(5) by auto
qed

end
