(* ===== verification/Media_Config.thy ===== *)
theory Media_Config
  imports Media_Domain
begin

text \<open>
  \<open>internal/domain/media_config.go\<close>: the media configuration read from the environment and its
  validation. The environment is a lookup function, \<open>os.TempDir\<close> a value, and \<open>net/url\<close>'s parser a
  function to the scheme and host. Durations are products of 64-bit integers, which wrap.
\<close>

section \<open>Configuration records\<close>

record media_limits =
  lim_MinUploadSizeBytes :: int
  lim_MaxUploadSizeBytes :: int
  lim_MaxImageSidePx :: int
  lim_MaxImagePixels :: int
  lim_CredentialTTL :: duration
  lim_SessionTTL :: duration
  lim_OutputDownloadTTL :: duration
  lim_AbandonedQuarantine :: duration
  lim_DefaultRawQuotaBytes :: int
  lim_MaxProcessingAttempts :: int

definition AdmitsUploadSize :: "media_limits \<Rightarrow> int \<Rightarrow> bool" where
  "AdmitsUploadSize l sizeBytes \<longleftrightarrow>
     lim_MinUploadSizeBytes l \<le> sizeBytes \<and> sizeBytes \<le> lim_MaxUploadSizeBytes l"

record media_lease_policy =
  lease_RenewalInterval :: duration
  lease_Expiry :: duration

record media_reconciliation_policy =
  rec_ScanInterval :: duration
  rec_BatchSize :: int
  rec_StaleDispatchAfter :: duration
  rec_ProcessorHardDeadline :: duration

record media_processor_config =
  proc_ExecutablePath :: string
  proc_ScratchRoot :: string
  proc_UID :: int
  proc_GID :: int
  proc_Validation :: duration
  proc_Transform :: duration
  proc_HardDeadline :: duration
  proc_SweepInterval :: duration
  proc_SweepBatchSize :: int

record media_storage_config =
  sto_Bucket :: string
  sto_Region :: string
  sto_InternalEndpoint :: string
  sto_PublicEndpoint :: string
  sto_AccessKeyID :: string
  sto_SecretAccessKey :: string
  sto_UsePathStyle :: bool
  sto_ChecksumSupported :: bool

record media_kafka_config =
  kaf_Brokers :: "string list"
  kaf_Topic :: string
  kaf_DeadLetterTopic :: string
  kaf_ConsumerGroup :: string
  kaf_SecurityProtocol :: string
  kaf_SASLMechanism :: string
  kaf_SASLUsername :: string
  kaf_SASLPassword :: string

record media_config =
  cfg_Limits :: media_limits
  cfg_RetryDelays :: "duration list"
  cfg_Lease :: media_lease_policy
  cfg_Reconciliation :: media_reconciliation_policy
  cfg_Processor :: media_processor_config
  cfg_Storage :: media_storage_config
  cfg_Kafka :: media_kafka_config
  cfg_RequireHTTPS :: bool

section \<open>Reading the environment\<close>

text \<open>
  A reader yields the value to use and whether the text was unusable; the Go reader records the
  first unusable key and the load fails after every field was read.
\<close>

type_synonym lookup_env = "string \<Rightarrow> string option"

definition env_string :: "lookup_env \<Rightarrow> string \<Rightarrow> string \<Rightarrow> string" where
  "env_string lookup key fallback =
     (case lookup key of
        None \<Rightarrow> fallback
      | Some value \<Rightarrow> if trim_space value = [] then fallback else trim_space value)"

definition env_int64 :: "lookup_env \<Rightarrow> string \<Rightarrow> int \<Rightarrow> int \<times> bool" where
  "env_int64 lookup key fallback =
     (case lookup key of
        None \<Rightarrow> (fallback, False)
      | Some value \<Rightarrow>
          if trim_space value = [] then (fallback, False)
          else (case parse_int64 (trim_space value) of
                  None \<Rightarrow> (fallback, True)
                | Some parsed \<Rightarrow> if parsed \<le> 0 then (fallback, True) else (parsed, False)))"

definition env_duration :: "lookup_env \<Rightarrow> string \<Rightarrow> duration \<Rightarrow> int \<Rightarrow> duration \<times> bool" where
  "env_duration lookup key unit fallbackUnits =
     (wrap64 (fst (env_int64 lookup key fallbackUnits) * unit), snd (env_int64 lookup key fallbackUnits))"

definition env_bool :: "lookup_env \<Rightarrow> string \<Rightarrow> bool \<Rightarrow> bool \<times> bool" where
  "env_bool lookup key fallback =
     (case lookup key of
        None \<Rightarrow> (fallback, False)
      | Some value \<Rightarrow>
          if trim_space value = [] then (fallback, False)
          else (case parse_bool (trim_space value) of
                  None \<Rightarrow> (fallback, True)
                | Some parsed \<Rightarrow> (parsed, False)))"

definition splitBrokers :: "string \<Rightarrow> string list" where
  "splitBrokers value =
     filter (\<lambda>b. b \<noteq> []) (map trim_space (split_on (CHR '','') value))"

section \<open>Validation\<close>

datatype config_error =
    UnusableValue string
  | UploadRange | ImageLimits | RawQuota | AttemptsNotPositive | CredentialNotShorter
  | RetryDelayCount | LeaseExpiry | ReconcileBatch
  | ProcessorBudgets | StageBudgets | SweepBudgets | ProcessorPaths | ProcessorIdentityPair
  | ProcessorIdentityRequired
  | BucketRequired | BadEndpoint | CredentialsRequired | BrokersRequired | KafkaNameRequired

type_synonym url_parser = "string \<Rightarrow> (string \<times> string) option"

definition validateEndpoint :: "url_parser \<Rightarrow> bool \<Rightarrow> string \<Rightarrow> bool" where
  "validateEndpoint parse_url requireHTTPS endpoint =
     (case parse_url endpoint of
        None \<Rightarrow> False
      | Some (scheme, host) \<Rightarrow>
          host \<noteq> [] \<and> (scheme = ''http'' \<or> scheme = ''https'')
          \<and> \<not> (requireHTTPS \<and> scheme \<noteq> ''https''))"

definition validate :: "url_parser \<Rightarrow> media_config \<Rightarrow> config_error option" where
  "validate parse_url config =
     (let limits = cfg_Limits config; processor = cfg_Processor config;
          storage = cfg_Storage config; kafka = cfg_Kafka config in
      if lim_MaxUploadSizeBytes limits < lim_MinUploadSizeBytes limits then Some UploadRange
      else if lim_MaxImageSidePx limits \<le> 0 \<or> lim_MaxImagePixels limits \<le> 0 then Some ImageLimits
      else if lim_DefaultRawQuotaBytes limits \<le> 0 then Some RawQuota
      else if lim_MaxProcessingAttempts limits \<le> 0 then Some AttemptsNotPositive
      else if lim_SessionTTL limits \<le> lim_CredentialTTL limits then Some CredentialNotShorter
      else if int (length (cfg_RetryDelays config)) \<noteq> lim_MaxProcessingAttempts limits - 1
        then Some RetryDelayCount
      else if lease_Expiry (cfg_Lease config) \<le> lease_RenewalInterval (cfg_Lease config)
        then Some LeaseExpiry
      else if rec_BatchSize (cfg_Reconciliation config) \<le> 0 then Some ReconcileBatch
      else if proc_Validation processor \<le> 0 \<or> proc_Transform processor \<le> 0
              \<or> proc_HardDeadline processor \<le> 0 then Some ProcessorBudgets
      else if proc_HardDeadline processor < proc_Validation processor
              \<or> proc_HardDeadline processor < proc_Transform processor then Some StageBudgets
      else if proc_SweepInterval processor \<le> 0 \<or> proc_SweepBatchSize processor \<le> 0
        then Some SweepBudgets
      else if trim_space (proc_ExecutablePath processor) = []
              \<or> trim_space (proc_ScratchRoot processor) = [] then Some ProcessorPaths
      else if (proc_UID processor = 0) \<noteq> (proc_GID processor = 0) then Some ProcessorIdentityPair
      else if cfg_RequireHTTPS config \<and> proc_UID processor = 0 then Some ProcessorIdentityRequired
      else if trim_space (sto_Bucket storage) = [] then Some BucketRequired
      else if \<not> (validateEndpoint parse_url (cfg_RequireHTTPS config) (sto_InternalEndpoint storage)
                \<and> validateEndpoint parse_url (cfg_RequireHTTPS config) (sto_PublicEndpoint storage))
        then Some BadEndpoint
      else if sto_AccessKeyID storage = [] \<or> sto_SecretAccessKey storage = []
        then Some CredentialsRequired
      else if kaf_Brokers kafka = [] then Some BrokersRequired
      else if trim_space (kaf_Topic kafka) = [] \<or> trim_space (kaf_DeadLetterTopic kafka) = []
              \<or> trim_space (kaf_ConsumerGroup kafka) = [] then Some KafkaNameRequired
      else None)"

section \<open>Loading\<close>

definition read_limits :: "lookup_env \<Rightarrow> media_limits" where
  "read_limits lk =
     \<lparr>lim_MinUploadSizeBytes = MinUploadSizeBytes,
      lim_MaxUploadSizeBytes = fst (env_int64 lk ''ASSET_MEDIA_MAX_UPLOAD_BYTES'' MaxUploadSizeBytes),
      lim_MaxImageSidePx = fst (env_int64 lk ''ASSET_MEDIA_MAX_IMAGE_SIDE_PX'' 20000),
      lim_MaxImagePixels = fst (env_int64 lk ''ASSET_MEDIA_MAX_IMAGE_PIXELS'' 50000000),
      lim_CredentialTTL = fst (env_duration lk ''ASSET_MEDIA_CREDENTIAL_TTL_MINUTES'' minute 60),
      lim_SessionTTL = fst (env_duration lk ''ASSET_MEDIA_SESSION_TTL_HOURS'' hour 24),
      lim_OutputDownloadTTL = fst (env_duration lk ''ASSET_MEDIA_OUTPUT_LINK_TTL_MINUTES'' minute 15),
      lim_AbandonedQuarantine = fst (env_duration lk ''ASSET_MEDIA_CLEANUP_QUARANTINE_HOURS'' hour 24),
      lim_DefaultRawQuotaBytes = fst (env_int64 lk ''ASSET_MEDIA_DEFAULT_RAW_QUOTA_BYTES'' 10737418240),
      lim_MaxProcessingAttempts = fst (env_int64 lk ''ASSET_MEDIA_MAX_PROCESSING_ATTEMPTS'' 3)\<rparr>"

definition read_retry :: "lookup_env \<Rightarrow> duration list" where
  "read_retry lk =
     [fst (env_duration lk ''ASSET_MEDIA_RETRY_DELAY_1_SECONDS'' second 2),
      fst (env_duration lk ''ASSET_MEDIA_RETRY_DELAY_2_SECONDS'' second 10)]"

definition read_lease :: "lookup_env \<Rightarrow> media_lease_policy" where
  "read_lease lk =
     \<lparr>lease_RenewalInterval = fst (env_duration lk ''ASSET_MEDIA_LEASE_RENEWAL_SECONDS'' second 10),
      lease_Expiry = fst (env_duration lk ''ASSET_MEDIA_LEASE_EXPIRY_SECONDS'' second 40)\<rparr>"

definition read_reconciliation :: "lookup_env \<Rightarrow> media_reconciliation_policy" where
  "read_reconciliation lk =
     \<lparr>rec_ScanInterval = fst (env_duration lk ''ASSET_MEDIA_RECONCILE_INTERVAL_SECONDS'' second 30),
      rec_BatchSize = fst (env_int64 lk ''ASSET_MEDIA_RECONCILE_BATCH_SIZE'' 50),
      rec_StaleDispatchAfter = fst (env_duration lk ''ASSET_MEDIA_RECONCILE_STALE_SECONDS'' second 60),
      rec_ProcessorHardDeadline = fst (env_duration lk ''ASSET_MEDIA_PROCESSOR_DEADLINE_SECONDS'' second 90)\<rparr>"

definition read_processor :: "lookup_env \<Rightarrow> string \<Rightarrow> media_processor_config" where
  "read_processor lk tempDir =
     \<lparr>proc_ExecutablePath = env_string lk ''ASSET_MEDIA_PROCESSOR_PATH'' ''/usr/local/bin/media-processor'',
      proc_ScratchRoot = env_string lk ''ASSET_MEDIA_SCRATCH_DIR'' tempDir,
      proc_UID = fst (env_int64 lk ''ASSET_MEDIA_PROCESSOR_UID'' 0),
      proc_GID = fst (env_int64 lk ''ASSET_MEDIA_PROCESSOR_GID'' 0),
      proc_Validation = fst (env_duration lk ''ASSET_MEDIA_PROCESSOR_VALIDATION_SECONDS'' second 15),
      proc_Transform = fst (env_duration lk ''ASSET_MEDIA_PROCESSOR_TRANSFORM_SECONDS'' second 60),
      proc_HardDeadline = fst (env_duration lk ''ASSET_MEDIA_PROCESSOR_DEADLINE_SECONDS'' second 90),
      proc_SweepInterval = fst (env_duration lk ''ASSET_MEDIA_SWEEP_INTERVAL_MINUTES'' minute 15),
      proc_SweepBatchSize = fst (env_int64 lk ''ASSET_MEDIA_SWEEP_BATCH_SIZE'' 50)\<rparr>"

definition read_storage :: "lookup_env \<Rightarrow> media_storage_config" where
  "read_storage lk =
     \<lparr>sto_Bucket = env_string lk ''ASSET_MEDIA_BUCKET'' ''seta-media'',
      sto_Region = env_string lk ''ASSET_MEDIA_S3_REGION'' ''us-east-1'',
      sto_InternalEndpoint = env_string lk ''ASSET_MEDIA_S3_INTERNAL_ENDPOINT'' ''http://minio:9000'',
      sto_PublicEndpoint = env_string lk ''ASSET_MEDIA_S3_PUBLIC_ENDPOINT'' ''http://localhost:9000'',
      sto_AccessKeyID = env_string lk ''ASSET_MEDIA_S3_ACCESS_KEY_ID'' [],
      sto_SecretAccessKey = env_string lk ''ASSET_MEDIA_S3_SECRET_ACCESS_KEY'' [],
      sto_UsePathStyle = fst (env_bool lk ''ASSET_MEDIA_S3_USE_PATH_STYLE'' True),
      sto_ChecksumSupported = fst (env_bool lk ''ASSET_MEDIA_S3_CHECKSUM_SUPPORTED'' True)\<rparr>"

definition read_kafka :: "lookup_env \<Rightarrow> media_kafka_config" where
  "read_kafka lk =
     \<lparr>kaf_Brokers = splitBrokers (env_string lk ''ASSET_KAFKA_BROKERS'' ''localhost:29092''),
      kaf_Topic = env_string lk ''ASSET_KAFKA_MEDIA_TOPIC'' ''media-processing.v1'',
      kaf_DeadLetterTopic = env_string lk ''ASSET_KAFKA_MEDIA_DLQ_TOPIC'' ''media-processing-dlq.v1'',
      kaf_ConsumerGroup = env_string lk ''ASSET_KAFKA_MEDIA_GROUP_ID'' ''media-workers-v1'',
      kaf_SecurityProtocol = env_string lk ''ASSET_KAFKA_SECURITY_PROTOCOL'' ''PLAINTEXT'',
      kaf_SASLMechanism = env_string lk ''ASSET_KAFKA_SASL_MECHANISM'' [],
      kaf_SASLUsername = env_string lk ''ASSET_KAFKA_SASL_USERNAME'' [],
      kaf_SASLPassword = env_string lk ''ASSET_KAFKA_SASL_PASSWORD'' []\<rparr>"

text \<open>The numeric and boolean keys in the order the composite literal reads them.\<close>

definition int_keys_before_storage :: "string list" where
  "int_keys_before_storage =
     [''ASSET_MEDIA_MAX_UPLOAD_BYTES'', ''ASSET_MEDIA_MAX_IMAGE_SIDE_PX'',
      ''ASSET_MEDIA_MAX_IMAGE_PIXELS'', ''ASSET_MEDIA_CREDENTIAL_TTL_MINUTES'',
      ''ASSET_MEDIA_SESSION_TTL_HOURS'', ''ASSET_MEDIA_OUTPUT_LINK_TTL_MINUTES'',
      ''ASSET_MEDIA_CLEANUP_QUARANTINE_HOURS'', ''ASSET_MEDIA_DEFAULT_RAW_QUOTA_BYTES'',
      ''ASSET_MEDIA_MAX_PROCESSING_ATTEMPTS'',
      ''ASSET_MEDIA_RETRY_DELAY_1_SECONDS'', ''ASSET_MEDIA_RETRY_DELAY_2_SECONDS'',
      ''ASSET_MEDIA_LEASE_RENEWAL_SECONDS'', ''ASSET_MEDIA_LEASE_EXPIRY_SECONDS'',
      ''ASSET_MEDIA_RECONCILE_INTERVAL_SECONDS'', ''ASSET_MEDIA_RECONCILE_BATCH_SIZE'',
      ''ASSET_MEDIA_RECONCILE_STALE_SECONDS'', ''ASSET_MEDIA_PROCESSOR_DEADLINE_SECONDS'',
      ''ASSET_MEDIA_PROCESSOR_UID'', ''ASSET_MEDIA_PROCESSOR_GID'',
      ''ASSET_MEDIA_PROCESSOR_VALIDATION_SECONDS'', ''ASSET_MEDIA_PROCESSOR_TRANSFORM_SECONDS'',
      ''ASSET_MEDIA_SWEEP_INTERVAL_MINUTES'', ''ASSET_MEDIA_SWEEP_BATCH_SIZE'']"

definition bool_keys :: "string list" where
  "bool_keys =
     [''ASSET_MEDIA_S3_USE_PATH_STYLE'', ''ASSET_MEDIA_S3_CHECKSUM_SUPPORTED'',
      ''ASSET_MEDIA_REQUIRE_HTTPS'']"

definition first_unusable_key :: "lookup_env \<Rightarrow> string option" where
  "first_unusable_key lk =
     (case find (\<lambda>k. snd (env_int64 lk k 0)) int_keys_before_storage of
        Some k \<Rightarrow> Some k
      | None \<Rightarrow> find (\<lambda>k. snd (env_bool lk k True)) bool_keys)"

definition read_media_config :: "lookup_env \<Rightarrow> string \<Rightarrow> media_config" where
  "read_media_config lk tempDir =
     \<lparr>cfg_Limits = read_limits lk, cfg_RetryDelays = read_retry lk, cfg_Lease = read_lease lk,
      cfg_Reconciliation = read_reconciliation lk, cfg_Processor = read_processor lk tempDir,
      cfg_Storage = read_storage lk, cfg_Kafka = read_kafka lk,
      cfg_RequireHTTPS = fst (env_bool lk ''ASSET_MEDIA_REQUIRE_HTTPS'' True)\<rparr>"

definition LoadMediaConfig ::
  "url_parser \<Rightarrow> lookup_env \<Rightarrow> string \<Rightarrow> config_error + media_config" where
  "LoadMediaConfig parse_url lk tempDir =
     (case first_unusable_key lk of
        Some key \<Rightarrow> Inl (UnusableValue key)
      | None \<Rightarrow>
         (case validate parse_url (read_media_config lk tempDir) of
            Some e \<Rightarrow> Inl e
          | None \<Rightarrow> Inr (read_media_config lk tempDir)))"

section \<open>Facts\<close>

lemma env_int64_failure_independent: "snd (env_int64 lk k a) = snd (env_int64 lk k b)"
  by (simp add: env_int64_def split: option.splits)

lemma LoadMediaConfig_InrD:
  "LoadMediaConfig pu lk tmp = Inr c \<Longrightarrow>
     first_unusable_key lk = None \<and> c = read_media_config lk tmp \<and> validate pu c = None"
  by (auto simp: LoadMediaConfig_def split: option.splits)

lemma validate_NoneD:
  assumes "validate pu c = None"
  shows "lim_MinUploadSizeBytes (cfg_Limits c) \<le> lim_MaxUploadSizeBytes (cfg_Limits c)"
    "0 < lim_MaxImageSidePx (cfg_Limits c)" "0 < lim_MaxImagePixels (cfg_Limits c)"
    "0 < lim_DefaultRawQuotaBytes (cfg_Limits c)"
    "lim_CredentialTTL (cfg_Limits c) < lim_SessionTTL (cfg_Limits c)"
    "int (length (cfg_RetryDelays c)) = lim_MaxProcessingAttempts (cfg_Limits c) - 1"
    "lease_RenewalInterval (cfg_Lease c) < lease_Expiry (cfg_Lease c)"
    "0 < rec_BatchSize (cfg_Reconciliation c)"
    "0 < proc_Validation (cfg_Processor c)" "0 < proc_Transform (cfg_Processor c)"
    "proc_Validation (cfg_Processor c) \<le> proc_HardDeadline (cfg_Processor c)"
    "proc_Transform (cfg_Processor c) \<le> proc_HardDeadline (cfg_Processor c)"
    "(proc_UID (cfg_Processor c) = 0) = (proc_GID (cfg_Processor c) = 0)"
    "cfg_RequireHTTPS c \<Longrightarrow> proc_UID (cfg_Processor c) \<noteq> 0"
    "validateEndpoint pu (cfg_RequireHTTPS c) (sto_InternalEndpoint (cfg_Storage c))"
    "validateEndpoint pu (cfg_RequireHTTPS c) (sto_PublicEndpoint (cfg_Storage c))"
    "kaf_Brokers (cfg_Kafka c) \<noteq> []"
  using assms unfolding validate_def Let_def by (simp_all split: if_splits)

lemma usable_key_value:
  assumes "first_unusable_key lk = None" and "k \<in> set int_keys_before_storage" and "0 < fb"
  shows "0 < fst (env_int64 lk k fb)"
proof -
  have "\<not> snd (env_int64 lk k 0)"
    using assms(1,2) by (auto simp: first_unusable_key_def split: option.splits dest: find_NoneD)
  with assms(3) show ?thesis
    by (auto simp: env_int64_def split: option.splits if_splits)
qed

text \<open>What an accepted configuration guarantees to the rest of the service: exactly three
  processing attempts with one retry delay between consecutive attempts (so the attempt limit of
  the job table is the configured one), a credential that dies before its session, a lease that
  outlives its renewal interval, processor stages that fit in the hard deadline, and, when HTTPS is
  required, an unprivileged processor identity and HTTPS endpoints.
\<close>
theorem loaded_config_sound:
  assumes "LoadMediaConfig pu lk tmp = Inr c"
  shows "lim_MaxProcessingAttempts (cfg_Limits c) = 3 \<and> length (cfg_RetryDelays c) = 2
    \<and> lim_MinUploadSizeBytes (cfg_Limits c) = 1 \<and> 1 \<le> lim_MaxUploadSizeBytes (cfg_Limits c)
    \<and> lim_CredentialTTL (cfg_Limits c) < lim_SessionTTL (cfg_Limits c)
    \<and> lease_RenewalInterval (cfg_Lease c) < lease_Expiry (cfg_Lease c)
    \<and> 0 < proc_Validation (cfg_Processor c) \<and> 0 < proc_Transform (cfg_Processor c)
    \<and> max (proc_Validation (cfg_Processor c)) (proc_Transform (cfg_Processor c))
        \<le> proc_HardDeadline (cfg_Processor c)
    \<and> rec_ProcessorHardDeadline (cfg_Reconciliation c) = proc_HardDeadline (cfg_Processor c)
    \<and> (if cfg_RequireHTTPS c
       then proc_UID (cfg_Processor c) \<noteq> 0 \<and> proc_GID (cfg_Processor c) \<noteq> 0
         \<and> validateEndpoint pu True (sto_InternalEndpoint (cfg_Storage c))
         \<and> validateEndpoint pu True (sto_PublicEndpoint (cfg_Storage c))
       else True)"
proof -
  note d = LoadMediaConfig_InrD [OF assms]
  have v: "validate pu c = None" using d by blast
  note n = validate_NoneD [OF v]
  have len: "length (cfg_RetryDelays c) = 2"
    using d by (simp add: read_media_config_def read_retry_def)
  have min: "lim_MinUploadSizeBytes (cfg_Limits c) = 1"
    using d by (simp add: read_media_config_def read_limits_def MinUploadSizeBytes_def)
  have dl: "rec_ProcessorHardDeadline (cfg_Reconciliation c) = proc_HardDeadline (cfg_Processor c)"
    using d by (simp add: read_media_config_def read_reconciliation_def read_processor_def)
  have https: "if cfg_RequireHTTPS c
       then proc_UID (cfg_Processor c) \<noteq> 0 \<and> proc_GID (cfg_Processor c) \<noteq> 0
         \<and> validateEndpoint pu True (sto_InternalEndpoint (cfg_Storage c))
         \<and> validateEndpoint pu True (sto_PublicEndpoint (cfg_Storage c))
       else True"
    using n(13-16) by (cases "cfg_RequireHTTPS c") auto
  show ?thesis using n(1,5,6,7,9-12) len min dl https by simp
qed

definition demo_env :: lookup_env where
  "demo_env k =
     (if k = ''ASSET_MEDIA_S3_ACCESS_KEY_ID'' then Some ''key''
      else if k = ''ASSET_MEDIA_S3_SECRET_ACCESS_KEY'' then Some ''secret''
      else if k = ''ASSET_MEDIA_REQUIRE_HTTPS'' then Some ''false''
      else None)"

definition demo_url :: url_parser where
  "demo_url s = (if has_prefix ''http://'' s then Some (''http'', drop 7 s) else None)"

lemma demo_config_loads: "is_ok (LoadMediaConfig demo_url demo_env ''/tmp'')"
  by code_simp

theorem loaded_config_sound_witness:
  "\<exists>c. LoadMediaConfig demo_url demo_env ''/tmp'' = Inr c
     \<and> lim_MaxProcessingAttempts (cfg_Limits c) = 3"
proof -
  obtain c where c: "LoadMediaConfig demo_url demo_env ''/tmp'' = Inr c"
    using demo_config_loads by (auto simp: is_ok_iff)
  show ?thesis using c loaded_config_sound [OF c] by blast
qed

text \<open>Duration settings are multiplied into nanoseconds without an overflow check, so a large
  value wraps: the environment below sets a credential lifetime of 153722868 minutes, the
  configuration is accepted, and the loaded lifetime is negative (every credential is born expired).
\<close>
theorem config_duration_wraps:
  "\<exists>lk c. LoadMediaConfig demo_url lk ''/tmp'' = Inr c
     \<and> lk ''ASSET_MEDIA_CREDENTIAL_TTL_MINUTES'' = Some ''153722868''
     \<and> lim_CredentialTTL (cfg_Limits c) < 0"
proof -
  let ?lk = "demo_env(''ASSET_MEDIA_CREDENTIAL_TTL_MINUTES'' := Some ''153722868'')"
  have "is_ok (LoadMediaConfig demo_url ?lk ''/tmp'')" by code_simp
  then obtain c where c: "LoadMediaConfig demo_url ?lk ''/tmp'' = Inr c" by (auto simp: is_ok_iff)
  have "lim_CredentialTTL (read_limits ?lk) < 0" by code_simp
  then have "lim_CredentialTTL (cfg_Limits c) < 0"
    using LoadMediaConfig_InrD [OF c] by (simp add: read_media_config_def)
  with c show ?thesis by (intro exI [of _ ?lk] exI [of _ c]) simp
qed

end
