(* ===== verification/Media_Filename.thy ===== *)
theory Media_Filename
  imports Media_Domain
begin

text \<open>
  \<open>internal/domain/media_filename.go\<close>: admission of the display name of an uploaded file.
  Unicode normalisation (\<open>golang.org/x/text/unicode/norm\<close>) is a parameter \<open>nfc\<close>; the rune
  classes are those of Go's \<open>unicode\<close> package.
\<close>

datatype filename_error =
    FilenameNotUTF8 | FilenameEmpty | FilenameTooLong
  | FilenameHasNUL | FilenameHasControl | FilenameHasSeparator | FilenameHasDirection
  | FilenameHasFormatting
  | FilenameOnlyDots | FilenameNoStem | FilenameTraversal | FilenameDeviceSeparator

definition maxDisplayFilenameRunes :: nat where
  "maxDisplayFilenameRunes = 255"

definition separatorRunes :: "nat list" where
  "separatorRunes = [0x2F, 0x5C, 0x2044, 0x2215, 0xFF0F, 0xFF3C, 0x29F5, 0x2216, 0xFE68]"

definition directionRunes :: "nat list" where
  "directionRunes =
     [0x200E, 0x200F, 0x202A, 0x202B, 0x202C, 0x202D, 0x202E, 0x2066, 0x2067, 0x2068, 0x2069]"

text \<open>\<open>unicode.IsControl\<close> is category Cc; \<open>unicode.Cf\<close>, \<open>unicode.Co\<close> and \<open>unicode.Cs\<close> are ranges.\<close>

definition is_control :: "nat \<Rightarrow> bool" where
  "is_control r \<longleftrightarrow> r \<le> 0x1F \<or> (0x7F \<le> r \<and> r \<le> 0x9F)"

definition in_ranges :: "(nat \<times> nat) list \<Rightarrow> nat \<Rightarrow> bool" where
  "in_ranges rs r \<longleftrightarrow> list_ex (\<lambda>(lo, hi). lo \<le> r \<and> r \<le> hi) rs"

definition unicode_Cf :: "(nat \<times> nat) list" where
  "unicode_Cf =
     [(0xAD, 0xAD), (0x600, 0x605), (0x61C, 0x61C), (0x6DD, 0x6DD), (0x70F, 0x70F),
      (0x890, 0x891), (0x8E2, 0x8E2), (0x180E, 0x180E), (0x200B, 0x200F), (0x202A, 0x202E),
      (0x2060, 0x2064), (0x2066, 0x206F), (0xFEFF, 0xFEFF), (0xFFF9, 0xFFFB),
      (0x110BD, 0x110BD), (0x110CD, 0x110CD), (0x13430, 0x1343F), (0x1BCA0, 0x1BCA3),
      (0x1D173, 0x1D17A), (0xE0001, 0xE0001), (0xE0020, 0xE007F)]"

definition unicode_Co :: "(nat \<times> nat) list" where
  "unicode_Co = [(0xE000, 0xF8FF), (0xF0000, 0xFFFFD), (0x100000, 0x10FFFD)]"

definition unicode_Cs :: "(nat \<times> nat) list" where
  "unicode_Cs = [(0xD800, 0xDFFF)]"

fun containsRune :: "nat list \<Rightarrow> nat \<Rightarrow> bool" where
  "containsRune [] character = False"
| "containsRune (candidate # rest) character =
     (if candidate = character then True else containsRune rest character)"

definition admitFilenameRune :: "nat \<Rightarrow> filename_error option" where
  "admitFilenameRune r =
     (if r = 0 then Some FilenameHasNUL
      else if is_control r then Some FilenameHasControl
      else if containsRune separatorRunes r then Some FilenameHasSeparator
      else if containsRune directionRunes r then Some FilenameHasDirection
      else if in_ranges unicode_Cf r \<or> in_ranges unicode_Co r \<or> in_ranges unicode_Cs r
        then Some FilenameHasFormatting
      else None)"

fun admit_runes :: "nat list \<Rightarrow> filename_error option" where
  "admit_runes [] = None"
| "admit_runes (r # rs) =
     (case admitFilenameRune r of Some e \<Rightarrow> Some e | None \<Rightarrow> admit_runes rs)"

text \<open>\<open>strings.Trim(s, ".")\<close> is empty exactly when every byte is a dot.\<close>

definition trim_dots :: "string \<Rightarrow> string" where
  "trim_dots s = rev (dropWhile (\<lambda>c. c = CHR ''.'') (rev (dropWhile (\<lambda>c. c = CHR ''.'') s)))"

definition admitFilenameShape :: "string \<Rightarrow> filename_error option" where
  "admitFilenameShape s =
     (if trim_dots s = [] then Some FilenameOnlyDots
      else if has_prefix ''.'' s then Some FilenameNoStem
      else if contains_sub ''..'' s then Some FilenameTraversal
      else if CHR '':'' \<in> set s then Some FilenameDeviceSeparator
      else None)"

definition ValidateDisplayFilename ::
  "(string \<Rightarrow> string) \<Rightarrow> string \<Rightarrow> filename_error + string" where
  "ValidateDisplayFilename nfc filename =
     (if \<not> valid_string filename then Inl FilenameNotUTF8
      else let normalized = trim_space (nfc filename) in
        if normalized = [] then Inl FilenameEmpty
        else if maxDisplayFilenameRunes < length (string_runes normalized) then Inl FilenameTooLong
        else (case admit_runes (string_runes normalized) of
                Some e \<Rightarrow> Inl e
              | None \<Rightarrow>
                 (case admitFilenameShape normalized of
                    Some e \<Rightarrow> Inl e
                  | None \<Rightarrow> Inr normalized)))"

section \<open>Facts\<close>

lemma containsRune_iff [simp]: "containsRune rs r \<longleftrightarrow> r \<in> set rs"
  by (induction rs) auto

lemma admit_runes_None: "admit_runes rs = None \<longleftrightarrow> (\<forall>r\<in>set rs. admitFilenameRune r = None)"
  by (induction rs) (auto split: option.splits)

lemma admitFilenameRune_NoneD:
  assumes "admitFilenameRune r = None"
  shows "\<not> is_control r \<and> r \<notin> set separatorRunes \<and> r \<notin> set directionRunes"
  using assms by (auto simp: admitFilenameRune_def split: if_splits)

text \<open>
  An ASCII byte of a text is a rune of it: no multi-byte encoding has a byte below 128, so a
  check on runes sees every ASCII byte, also in invalid text.
\<close>

lemma decode_rune_ascii:
  assumes "decode_rune bs = Some (r, n)" and "b \<in> set (take n bs)" and "b < 128"
  shows "b = r"
  using assms
  by (cases bs rule: decode_rune.cases)
    (auto simp: cont_byte_def take_Cons' split: if_splits list.splits)

lemma ascii_byte_is_rune: "b \<in> set bs \<Longrightarrow> b < 128 \<Longrightarrow> b \<in> set (runes_of bs)"
proof (induction bs rule: runes_of.induct)
  case (1 bs)
  then have ne: "bs \<noteq> []" by auto
  show ?case
  proof (cases "decode_rune bs")
    case None
    with ne obtain a as where bs: "bs = a # as" by (cases bs) auto
    with None have "\<not> a < 128" by (auto split: if_splits)
    with "1.prems" bs have "b \<in> set (drop 1 bs)" by auto
    with "1.IH"(1) [OF ne None] "1.prems" ne None show ?thesis
      by (simp add: runes_of.simps [of bs])
  next
    case (Some rn)
    obtain r n where rn: "rn = (r, n)" by force
    have "b \<in> set (take n bs) \<or> b \<in> set (drop n bs)"
      using "1.prems"(1) by (metis Un_iff append_take_drop_id set_append)
    then show ?thesis
      using "1.IH"(2) [OF ne Some rn [symmetric]] "1.prems"(2) ne Some rn
        decode_rune_ascii [of bs r n b]
      by (auto simp: runes_of.simps [of bs])
  qed
qed

lemma ascii_char_is_rune:
  "c \<in> set s \<Longrightarrow> byte_of c < 128 \<Longrightarrow> byte_of c \<in> set (string_runes s)"
  by (auto simp: string_runes_def intro!: ascii_byte_is_rune)

lemma has_prefix_dot: "has_prefix ''.'' (c # s) \<longleftrightarrow> c = CHR ''.''"
  by (auto simp: has_prefix_def)

lemma ValidateDisplayFilename_InrD:
  assumes "ValidateDisplayFilename nfc f = Inr n"
  shows "valid_string f" "n = trim_space (nfc f)" "n \<noteq> []"
    "length (string_runes n) \<le> maxDisplayFilenameRunes"
    "admit_runes (string_runes n) = None" "admitFilenameShape n = None"
  using assms by (auto simp: ValidateDisplayFilename_def Let_def split: if_splits option.splits)

lemma admitted_ascii:
  assumes "admit_runes (string_runes n) = None" and "c \<in> set n" and "byte_of c < 128"
  shows "\<not> is_control (byte_of c) \<and> byte_of c \<notin> set separatorRunes"
  using ascii_char_is_rune [OF assms(2,3)] assms(1) admitFilenameRune_NoneD
  by (auto simp: admit_runes_None)

text \<open>An accepted display filename is safe to use as one path element. It is not empty, has at
  most 255 runes, holds no ASCII control byte, no slash, backslash or colon, no two dots in a row,
  and does not begin with a dot; none of its runes is a path separator look-alike or a direction
  override, whatever the normaliser returned.
\<close>
theorem accepted_filename_is_safe:
  assumes "ValidateDisplayFilename nfc f = Inr n"
  shows "n \<noteq> [] \<and> length (string_runes n) \<le> 255
    \<and> CHR ''/'' \<notin> set n \<and> CHR 0x5C \<notin> set n \<and> CHR '':'' \<notin> set n
    \<and> \<not> contains_sub ''..'' n \<and> hd n \<noteq> CHR ''.''
    \<and> list_all (\<lambda>c. \<not> byte_of c < 32) n
    \<and> list_all (\<lambda>r. r \<notin> set separatorRunes \<and> r \<notin> set directionRunes \<and> \<not> is_control r)
        (string_runes n)"
proof -
  note d = ValidateDisplayFilename_InrD [OF assms]
  have ctl: "\<not> byte_of c < 32" if "c \<in> set n" for c
    using admitted_ascii [OF d(5) that] by (auto simp: is_control_def)
  have slash: "CHR ''/'' \<notin> set n"
    using admitted_ascii [OF d(5), of "CHR ''/''"] by (auto simp: byte_of_def separatorRunes_def)
  have bslash: "CHR 0x5C \<notin> set n"
    using admitted_ascii [OF d(5), of "CHR 0x5C"] by (auto simp: byte_of_def separatorRunes_def)
  have shape: "\<not> has_prefix ''.'' n" "\<not> contains_sub ''..'' n" "CHR '':'' \<notin> set n"
    using d(6) by (auto simp: admitFilenameShape_def split: if_splits)
  have "hd n \<noteq> CHR ''.''" using shape(1) d(3) by (cases n) (auto simp: has_prefix_dot)
  moreover have "list_all (\<lambda>r. r \<notin> set separatorRunes \<and> r \<notin> set directionRunes \<and> \<not> is_control r)
        (string_runes n)"
    using d(5) admitFilenameRune_NoneD by (auto simp: admit_runes_None list_all_iff)
  ultimately show ?thesis
    using d(3,4) slash bslash shape ctl by (simp add: maxDisplayFilenameRunes_def list_all_iff)
qed

theorem accepted_filename_is_safe_witness:
  "ValidateDisplayFilename id '' cat.png '' = Inr ''cat.png'' \<and> CHR ''/'' \<notin> set ''cat.png''"
proof -
  have h: "ValidateDisplayFilename id '' cat.png '' = Inr ''cat.png''" by code_simp
  show ?thesis using h accepted_filename_is_safe [OF h] by simp
qed

text \<open>Validation is stable: an accepted name that the normaliser leaves alone, and that is still
  valid UTF-8, is accepted again and unchanged, so a stored name can be validated once more.
\<close>
theorem validate_filename_stable:
  assumes "ValidateDisplayFilename nfc f = Inr n" and "nfc n = n" and "valid_string n"
  shows "ValidateDisplayFilename nfc n = Inr n"
proof -
  note d = ValidateDisplayFilename_InrD [OF assms(1)]
  have "trim_space (nfc n) = n" using assms(2) d(2) trim_space_idem by simp
  then show ?thesis using assms(3) d(3-6) by (simp add: ValidateDisplayFilename_def Let_def)
qed

theorem validate_filename_stable_witness:
  "ValidateDisplayFilename id '' cat.png '' = Inr ''cat.png''
   \<and> ValidateDisplayFilename id ''cat.png'' = Inr ''cat.png''"
proof -
  have h: "ValidateDisplayFilename id '' cat.png '' = Inr ''cat.png''" by code_simp
  have v: "valid_string ''cat.png''" by code_simp
  show ?thesis using h validate_filename_stable [OF h _ v] by simp
qed

end
