(* ===== verification/Media_Usecase.thy ===== *)
theory Media_Usecase
  imports Media_Pipeline Media_Worker Media_Config Media_Filename
begin

text \<open>
  The use cases behind the media endpoints (\<open>internal/usecase/media_usecase.go\<close>): admission of a request,
  the upload session with its presigned authority, refresh, commit of a stored object, and the status query
  with its signed links. The repository is the model of \<open>Upload_Repository\<close> and \<open>Job_Store\<close>; storage and the
  signer are arguments. What other processes do between two calls is the argument \<open>ue_between\<close>.
  The functions that share a name with a repository operation carry the prefix \<open>usecase_\<close>. A difference of
  times is not saturated at Go's 292 years.
\<close>

section \<open>What a use case works with\<close>

record 's media_backend =
  mb_objects :: "'s object_store"
  mb_presign_put :: "put_authority \<Rightarrow> instant \<Rightarrow> media_error + upload_descriptor"
  mb_presign_get :: "object_key \<Rightarrow> duration \<Rightarrow> instant \<Rightarrow> media_error + download_descriptor"

definition minio_backend :: "'s s3_client \<Rightarrow> minio_config \<Rightarrow> 's media_backend" where
  "minio_backend cl c = \<lparr>mb_objects = minio_store cl c, mb_presign_put = PresignPut cl c, mb_presign_get = PresignGet cl\<rparr>"

lemma minio_backend_simps [simp]:
  "mb_objects (minio_backend cl c) = minio_store cl c" "mb_presign_put (minio_backend cl c) = PresignPut cl c"
  "mb_presign_get (minio_backend cl c) = PresignGet cl"
  by (simp_all add: minio_backend_def)

text \<open>The clock readings of the use case, of the repository and of the signer, new identifiers, and other processes.\<close>

record 's usecase_env =
  ue_now :: "nat \<Rightarrow> instant"
  ue_repo :: "nat \<Rightarrow> instant"
  ue_signed :: "nat \<Rightarrow> instant"
  ue_ids :: "nat \<Rightarrow> string"
  ue_between :: "nat \<Rightarrow> 's world \<Rightarrow> 's world"

record upload_result =
  ur_session :: session_row
  ur_replayed :: bool
  ur_descriptor :: "upload_descriptor option"

record commit_result =
  co_asset :: string
  co_upload :: string
  co_version :: string
  co_job :: string
  co_status :: processing_job_status
  co_filename :: string
  co_content_type :: media_content_type
  co_size :: int
  co_accepted_at :: instant
  co_replayed :: bool

section \<open>Admission\<close>

definition validateAdmission :: "(string \<Rightarrow> string) \<Rightarrow> media_limits \<Rightarrow> create_session_request \<Rightarrow> string result" where
  "validateAdmission nfc limits r =
     (if \<not> AdmitsUploadSize limits (req_size r) then Inl ErrInvalidMediaSize
      else if length (req_checksum r) \<noteq> ChecksumByteLength then Inl ErrInvalidMediaChecksum
      else (case FileExtension (req_content_type r) of
              None \<Rightarrow> Inl ErrUnsupportedMediaType
            | Some extension \<Rightarrow>
               (case ValidateDisplayFilename nfc (req_filename r) of
                  Inl e \<Rightarrow> Inl ErrInvalidMediaFilename
                | Inr filename \<Rightarrow>
                    let actual = trim_prefix ''.'' (to_lower (path_ext filename)) in
                    if req_content_type r = MediaContentTypeJPEG \<and> actual = ''jpeg'' then Inr filename
                    else if actual \<noteq> extension then Inl ErrUnsupportedMediaType
                    else Inr filename)))"

section \<open>Upload sessions\<close>

definition credentialIsSignable :: "session_row \<Rightarrow> instant \<Rightarrow> bool" where
  "credentialIsSignable s now \<longleftrightarrow> second \<le> s_credential_expires s - now"

definition session_authority :: "session_row \<Rightarrow> duration \<Rightarrow> put_authority" where
  "session_authority s ttl =
     \<lparr>auth_key = s_raw_key s, auth_content_type = s_content_type s, auth_expected_size = s_size s,
      auth_checksum = s_checksum s, auth_expires_in = ttl\<rparr>"

definition presignSession :: "'s media_backend \<Rightarrow> session_row \<Rightarrow> instant \<Rightarrow> instant \<Rightarrow> upload_descriptor result" where
  "presignSession be s now signedAt =
     (let ttl = s_credential_expires s - now in
      if ttl < second then Inl ErrUploadSessionExpired
      else mb_presign_put be (session_authority s ttl) signedAt)"

text \<open>The common end of create and get: an open session whose credential still lasts takes a descriptor.\<close>

definition with_descriptor :: "'s media_backend \<Rightarrow> 's usecase_env \<Rightarrow> nat \<Rightarrow> session_row \<Rightarrow> bool \<Rightarrow> upload_result result" where
  "with_descriptor be env i s replayed =
     (if s_state s = UploadSessionCreated \<and> credentialIsSignable s (ue_now env i)
      then and_then (presignSession be s (ue_now env (i + 1)) (ue_signed env 0))
             (\<lambda>d. Inr \<lparr>ur_session = s, ur_replayed = replayed, ur_descriptor = Some d\<rparr>)
      else Inr \<lparr>ur_session = s, ur_replayed = replayed, ur_descriptor = None\<rparr>)"

definition create_options :: "media_limits \<Rightarrow> string \<Rightarrow> object_key \<Rightarrow> instant \<Rightarrow> create_session_options" where
  "create_options limits uploadID key now =
     \<lparr>opt_upload_id = uploadID, opt_raw_key = key, opt_default_quota = lim_DefaultRawQuotaBytes limits,
      opt_credential_expires = now + lim_CredentialTTL limits, opt_session_expires = now + lim_SessionTTL limits\<rparr>"

definition usecase_CreateUploadSession ::
  "(string \<Rightarrow> string) \<Rightarrow> (string \<Rightarrow> nat list) \<Rightarrow> 's media_backend \<Rightarrow> media_limits \<Rightarrow> 's usecase_env \<Rightarrow> create_session_request
   \<Rightarrow> 's world \<Rightarrow> upload_result result \<times> 's world"
where
  "usecase_CreateUploadSession nfc fsha be limits env r w =
     (case validateAdmission nfc limits r of
        Inl e \<Rightarrow> (Inl e, w)
      | Inr filename \<Rightarrow>
         (case RawObjectKey (req_org r) (req_asset r) (ue_ids env 0) (req_content_type r) of
            Inl e \<Rightarrow> (Inl e, w)
          | Inr key \<Rightarrow>
             (case on_db (CreateUploadSession fsha (r\<lparr>req_filename := filename\<rparr>)
                     (create_options limits (ue_ids env 0) key (truncate_time (ue_now env 0) microsecond))
                     (ue_repo env 0) (ue_repo env 1)) w of
                (Inl e, w') \<Rightarrow> (Inl e, w')
              | (Inr (s, replayed), w') \<Rightarrow> (with_descriptor be env 1 s replayed, w'))))"

definition usecase_GetUploadSession ::
  "'s media_backend \<Rightarrow> 's usecase_env \<Rightarrow> session_scope \<Rightarrow> 's world \<Rightarrow> upload_result result"
where
  "usecase_GetUploadSession be env scope w =
     and_then (GetUploadSession scope (ue_repo env 0) (w_db w)) (\<lambda>s.
       if \<not> IsPublished (s_state s) then Inl ErrUploadNotFound
       else with_descriptor be env 0 s False)"

text \<open>
  The check of a stored object against its session: by the checksum storage reports, or else by reading
  at most one byte more than declared. The object is read after the head.
\<close>

definition usecase_verifyStoredObject ::
  "'s object_store \<Rightarrow> (byte list \<Rightarrow> nat list) \<Rightarrow> session_row \<Rightarrow> object_attributes \<Rightarrow> 's \<Rightarrow> object_attributes result"
where
  "usecase_verifyStoredObject st sha256 s atts store =
     (if attr_size atts \<noteq> s_size s \<or> attr_content_type atts \<noteq> s_content_type s then Inl ErrMediaObjectMismatch
      else if attr_checksum atts \<noteq> []
      then (if attr_checksum atts \<noteq> s_checksum s then Inl ErrMediaObjectMismatch else Inr atts)
      else (case ob_get st (s_raw_key s) store of
              Inl e \<Rightarrow> Inl e
            | Inr body \<Rightarrow>
                let data = take (nat (s_size s + 1)) body in
                if int (length data) \<noteq> s_size s \<or> sha256 data \<noteq> s_checksum s then Inl ErrMediaObjectMismatch
                else Inr (atts\<lparr>attr_checksum := sha256 data\<rparr>)))"

definition usecase_RefreshUploadSession ::
  "'s media_backend \<Rightarrow> (byte list \<Rightarrow> nat list) \<Rightarrow> media_limits \<Rightarrow> 's usecase_env \<Rightarrow> session_scope \<Rightarrow> 's world
   \<Rightarrow> upload_result result \<times> 's world"
where
  "usecase_RefreshUploadSession be sha256 limits env scope w =
     (case GetUploadSession scope (ue_repo env 0) (w_db w) of
        Inl e \<Rightarrow> (Inl e, w)
      | Inr s \<Rightarrow>
         if s_state s \<noteq> UploadSessionCreated then (Inl ErrUploadStateConflict, w)
         else let w1 = ue_between env 0 w in
         (case ob_head (mb_objects be) (s_raw_key s) (w_store w1) of
            Inr atts \<Rightarrow>
              let w2 = ue_between env 1 w1 in
              (case usecase_verifyStoredObject (mb_objects be) sha256 s atts (w_store w2) of
                 Inl e \<Rightarrow> (Inl e, w2)
               | Inr _ \<Rightarrow> (Inl ErrUploadStateConflict, w2))
          | Inl e \<Rightarrow>
              if e \<noteq> ErrObjectNotFound then (Inl e, w1)
              else let until = truncate_time (ue_now env 0) microsecond + lim_CredentialTTL limits;
                       credential = (if s_session_expires s < until then s_session_expires s else until) in
              (case on_db (RefreshUploadSession scope credential (ue_repo env 1)) (ue_between env 1 w1) of
                 (Inl e, w2) \<Rightarrow> (Inl e, w2)
               | (Inr s', w2) \<Rightarrow>
                  (case presignSession be s' (ue_now env 1) (ue_signed env 0) of
                     Inl e \<Rightarrow> (Inl e, w2)
                   | Inr d \<Rightarrow> (Inr \<lparr>ur_session = s', ur_replayed = False, ur_descriptor = Some d\<rparr>, w2)))))"

definition usecase_CancelUploadSession :: "session_scope \<Rightarrow> 's usecase_env \<Rightarrow> 's world \<Rightarrow> unit result \<times> 's world" where
  "usecase_CancelUploadSession scope env w = on_db (CancelUploadSession scope (ue_repo env 0)) w"

section \<open>Commit\<close>

definition no_attributes :: object_attributes where
  "no_attributes = \<lparr>attr_size = 0, attr_content_type = [], attr_checksum = [], attr_etag = []\<rparr>"

definition commit_evidence ::
  "'s media_backend \<Rightarrow> (byte list \<Rightarrow> nat list) \<Rightarrow> 's usecase_env \<Rightarrow> session_row \<Rightarrow> 's world
   \<Rightarrow> (object_attributes \<times> commit_ids) result \<times> 's world"
where
  "commit_evidence be sha256 env s w =
     (if s_state s = UploadSessionCommitted
      then (Inr (no_attributes, \<lparr>new_version = [], new_job = [], new_outbox = []\<rparr>), w)
      else let w1 = ue_between env 0 w in
      (case ob_head (mb_objects be) (s_raw_key s) (w_store w1) of
         Inl e \<Rightarrow> (Inl e, w1)
       | Inr atts \<Rightarrow>
          let w2 = ue_between env 1 w1 in
          (case usecase_verifyStoredObject (mb_objects be) sha256 s atts (w_store w2) of
             Inl e \<Rightarrow> (Inl e, w2)
           | Inr atts' \<Rightarrow>
              (Inr (atts', \<lparr>new_version = ue_ids env 0, new_job = ue_ids env 1, new_outbox = ue_ids env 2\<rparr>), w2))))"

definition usecase_CommitUpload ::
  "codec \<Rightarrow> string \<Rightarrow> 's media_backend \<Rightarrow> (byte list \<Rightarrow> nat list) \<Rightarrow> 's usecase_env \<Rightarrow> commit_request \<Rightarrow> 's world
   \<Rightarrow> commit_result result \<times> 's world"
where
  "usecase_CommitUpload cd tp be sha256 env r w =
     (case GetUploadSession (commit_scope r) (ue_repo env 0) (w_db w) of
        Inl e \<Rightarrow> (Inl e, w)
      | Inr s \<Rightarrow>
         (case commit_evidence be sha256 env s w of
            (Inl e, w1) \<Rightarrow> (Inl e, w1)
          | (Inr (atts, ids), w1) \<Rightarrow>
             (case on_db (CommitUpload cd r atts ids tp (ue_repo env 1) (ue_repo env 2) (ue_repo env 3)) (ue_between env 2 w1) of
                (Inl e, w2) \<Rightarrow> (Inl e, w2)
              | (Inr (acc, replayed), w2) \<Rightarrow>
                 (Inr \<lparr>co_asset = cr_asset r, co_upload = cr_upload r, co_version = acc_version acc, co_job = acc_job acc,
                       co_status = acc_status acc, co_filename = s_filename s, co_content_type = s_content_type s,
                       co_size = s_size s, co_accepted_at = acc_at acc, co_replayed = replayed\<rparr>, w2))))"

section \<open>Status\<close>

record status_error =
  se_code :: string
  se_message :: string

record status_original =
  so_filename :: string
  so_declared :: media_content_type
  so_detected :: "media_content_type option"
  so_size :: int
  so_sha256 :: "string option"

record status_output =
  mo_url :: string
  mo_width :: int
  mo_height :: int
  mo_size :: int
  mo_content_type :: media_content_type

record status_outputs =
  ms_thumbnail :: status_output
  ms_web :: status_output
  ms_expires_at :: instant

record status_result =
  sr_asset :: string
  sr_upload :: string
  sr_job :: string
  sr_status :: processing_job_status
  sr_attempts :: int
  sr_stage :: "processing_stage option"
  sr_original :: status_original
  sr_accepted_at :: instant
  sr_started_at :: "instant option"
  sr_completed_at :: "instant option"
  sr_failed_at :: "instant option"
  sr_error :: "status_error option"
  sr_outputs :: "status_outputs option"

definition mediaStatusLinkTTL :: duration where
  "mediaStatusLinkTTL = 15 * minute"

definition safe_codes :: "(string \<times> status_error) list" where
  "safe_codes =
    [(''INVALID_IMAGE'', \<lparr>se_code = ''INVALID_IMAGE'', se_message = ''File is not a valid image''\<rparr>),
     (''IMAGE_DIMENSIONS_EXCEEDED'',
        \<lparr>se_code = ''IMAGE_DIMENSIONS_EXCEEDED'', se_message = ''Image dimensions exceed the maximum allowed''\<rparr>),
     (''PROCESSING_TIMEOUT'', \<lparr>se_code = ''PROCESSING_TIMEOUT'', se_message = ''Media processing exceeded its time limit''\<rparr>),
     (''MEDIA_PROCESSING_TIMEOUT'',
        \<lparr>se_code = ''PROCESSING_TIMEOUT'', se_message = ''Media processing exceeded its time limit''\<rparr>),
     (''MEDIA_STORAGE_UNAVAILABLE'',
        \<lparr>se_code = ''MEDIA_STORAGE_UNAVAILABLE'', se_message = ''Media storage is temporarily unavailable''\<rparr>),
     (''MEDIA_PROCESSING_FAILED'', \<lparr>se_code = ''MEDIA_PROCESSING_FAILED'', se_message = ''Media processing failed''\<rparr>)]"

definition safeMediaStatusError :: "string \<Rightarrow> status_error" where
  "safeMediaStatusError internalCode =
     (case map_of safe_codes internalCode of
        Some e \<Rightarrow> e
      | None \<Rightarrow> \<lparr>se_code = ''MEDIA_PROCESSING_FAILED'', se_message = ''Media processing failed''\<rparr>)"

definition mediaStatusOutput :: "output_row \<Rightarrow> string \<Rightarrow> status_output" where
  "mediaStatusOutput m url =
     \<lparr>mo_url = url, mo_width = m_width m, mo_height = m_height m, mo_size = m_size m, mo_content_type = m_content_type m\<rparr>"

definition status_error_of :: "media_status_record \<Rightarrow> status_error option" where
  "status_error_of rec =
     (if j_status (st_job rec) = ProcessingJobFailed
      then Some (safeMediaStatusError
             (case j_last_error (st_job rec) of
                Some c \<Rightarrow> c
              | None \<Rightarrow> (case v_failure_code (st_version rec) of Some c \<Rightarrow> c | None \<Rightarrow> [])))
      else None)"

definition status_summary :: "media_status_record \<Rightarrow> status_result" where
  "status_summary rec =
     (let j = st_job rec; v = st_version rec in
      \<lparr>sr_asset = j_asset j, sr_upload = v_upload v, sr_job = j_id j, sr_status = j_status j, sr_attempts = j_attempts j,
       sr_stage = j_stage j,
       sr_original = \<lparr>so_filename = s_filename (st_session rec), so_declared = v_declared v, so_detected = v_detected v,
         so_size = v_size v,
         so_sha256 = (case v_sha256 v of
            None \<Rightarrow> None
          | Some d \<Rightarrow> if length d = ChecksumByteLength then Some (hex_encode d) else None)\<rparr>,
       sr_accepted_at = j_queued_at j, sr_started_at = j_started_at j, sr_completed_at = j_completed_at j,
       sr_failed_at = j_failed_at j, sr_error = status_error_of rec, sr_outputs = None\<rparr>)"

text \<open>The last output of each of the two kinds; a raw key ends the query.\<close>

fun published_outputs :: "output_row list \<Rightarrow> (media_output_kind \<rightharpoonup> output_row) \<Rightarrow> (media_output_kind \<rightharpoonup> output_row) result" where
  "published_outputs [] found = Inr found"
| "published_outputs (m # ms) found =
     (if m_kind m \<noteq> MediaOutputThumbnail \<and> m_kind m \<noteq> MediaOutputWeb then published_outputs ms found
      else if IsRaw (m_key m) then Inl ErrRawKeyNotPresignable
      else published_outputs ms (found(m_kind m \<mapsto> m)))"

definition signed_outputs :: "'s media_backend \<Rightarrow> 's usecase_env \<Rightarrow> output_row \<Rightarrow> output_row \<Rightarrow> status_outputs result" where
  "signed_outputs be env thumbnail web =
     and_then (mb_presign_get be (m_key thumbnail) mediaStatusLinkTTL (ue_signed env 0)) (\<lambda>t.
     and_then (mb_presign_get be (m_key web) mediaStatusLinkTTL (ue_signed env 1)) (\<lambda>l.
       Inr \<lparr>ms_thumbnail = mediaStatusOutput thumbnail (down_url t), ms_web = mediaStatusOutput web (down_url l),
            ms_expires_at = (if down_expires_at l < down_expires_at t then down_expires_at l else down_expires_at t)\<rparr>))"

definition GetMediaStatus :: "'s media_backend \<Rightarrow> 's usecase_env \<Rightarrow> string \<Rightarrow> string \<Rightarrow> db \<Rightarrow> status_result result" where
  "GetMediaStatus be env og asset db =
     and_then (GetLatestMediaStatus og asset db) (\<lambda>rec.
       if j_status (st_job rec) \<noteq> ProcessingJobCompleted then Inr (status_summary rec)
       else and_then (published_outputs (st_outputs rec) Map.empty) (\<lambda>found.
         case (found MediaOutputThumbnail, found MediaOutputWeb) of
           (Some thumbnail, Some web) \<Rightarrow>
             and_then (signed_outputs be env thumbnail web) (\<lambda>os. Inr ((status_summary rec)\<lparr>sr_outputs := Some os\<rparr>))
         | _ \<Rightarrow> Inl ErrIncompleteOutputSet))"

section \<open>What a created session is\<close>

lemma validateAdmission_InrD:
  assumes "validateAdmission nfc limits r = Inr filename"
  shows "AdmitsUploadSize limits (req_size r)" "length (req_checksum r) = ChecksumByteLength"
    "ValidateDisplayFilename nfc (req_filename r) = Inr filename"
    "\<exists>ext. FileExtension (req_content_type r) = Some ext"
  using assms by (auto simp: validateAdmission_def Let_def split: if_splits option.splits sum.splits)

lemma CreateUploadSession_new:
  assumes "CreateUploadSession fsha r opt now1 now2 db = (Inr (s, False), db')"
  shows "s \<in> set (sessions db') \<and> (\<exists>ext. s = new_session fsha r opt ext now2)"
proof -
  obtain ext where "create_session_work fsha r opt ext now1 now2 db = Inr ((s, False), db')"
    using assms by (auto simp: CreateUploadSession_def split: option.splits if_splits dest: transaction_Inr)
  then show ?thesis
    by (cases rule: create_session_work_InrD) (auto dest!: open_session_InrD insert_session_InrD)
qed

lemma with_descriptor_InrD:
  assumes "with_descriptor be env i s replayed = Inr u"
  shows "ur_session u = s" "ur_replayed u = replayed"
    "ur_descriptor u = Some d \<Longrightarrow> \<exists>ttl signedAt. second \<le> ttl \<and> ttl = s_credential_expires s - ue_now env (i + 1)
       \<and> s_state s = UploadSessionCreated \<and> mb_presign_put be (session_authority s ttl) signedAt = Inr d"
  using assms by (auto simp: with_descriptor_def presignSession_def Let_def split: if_splits)

text \<open>A newly created upload session holds what was admitted: a size within the limits, a 32-byte checksum, the
  validated filename, the raw key of its own identifiers and both lifetimes counted from the same microsecond; and its
  descriptor is a signature over exactly this session for at least a second and at most what is left of its credential.\<close>

theorem created_session_is_admitted:
  assumes "usecase_CreateUploadSession nfc fsha (minio_backend cl c) limits env r w = (Inr u, w')" and "\<not> ur_replayed u"
  shows "let s = ur_session u in s \<in> set (sessions (w_db w')) \<and> s_state s = UploadSessionCreated
    \<and> s_size s = req_size r \<and> lim_MinUploadSizeBytes limits \<le> s_size s \<and> s_size s \<le> lim_MaxUploadSizeBytes limits
    \<and> s_checksum s = req_checksum r \<and> length (s_checksum s) = ChecksumByteLength
    \<and> ValidateDisplayFilename nfc (req_filename r) = Inr (s_filename s)
    \<and> RawObjectKey (s_org s) (s_asset s) (s_id s) (s_content_type s) = Inr (s_raw_key s)
    \<and> s_session_expires s - s_credential_expires s = lim_SessionTTL limits - lim_CredentialTTL limits
    \<and> (\<forall>d. ur_descriptor u = Some d \<longrightarrow> (\<exists>ttl t. second \<le> ttl \<and> ttl = s_credential_expires s - ue_now env 2
          \<and> PresignPut cl c (session_authority s ttl) t = Inr d))"
proof -
  obtain filename key s w1 replayed where a: "validateAdmission nfc limits r = Inr filename"
    "RawObjectKey (req_org r) (req_asset r) (ue_ids env 0) (req_content_type r) = Inr key"
    and cr: "on_db (CreateUploadSession fsha (r\<lparr>req_filename := filename\<rparr>)
       (create_options limits (ue_ids env 0) key (truncate_time (ue_now env 0) microsecond))
       (ue_repo env 0) (ue_repo env 1)) w = (Inr (s, replayed), w1)"
    and d: "with_descriptor (minio_backend cl c) env 1 s replayed = Inr u" "w' = w1"
    using assms(1) by (auto simp: usecase_CreateUploadSession_def split: sum.splits prod.splits)
  have new: "\<not> replayed" using with_descriptor_InrD(2) [OF d(1)] assms(2) by simp
  obtain ext where s: "s \<in> set (sessions (w_db w1))" "s = new_session fsha (r\<lparr>req_filename := filename\<rparr>)
      (create_options limits (ue_ids env 0) key (truncate_time (ue_now env 0) microsecond)) ext (ue_repo env 1)"
    using on_db_eqD [OF cr, THEN conjunct1] new by (auto dest!: CreateUploadSession_new)
  have f: "s_state s = UploadSessionCreated" "s_size s = req_size r" "s_checksum s = req_checksum r" "s_filename s = filename"
    "s_org s = req_org r" "s_asset s = req_asset r" "s_id s = ue_ids env 0" "s_content_type s = req_content_type r"
    "s_raw_key s = key" "s_session_expires s - s_credential_expires s = lim_SessionTTL limits - lim_CredentialTTL limits"
    by (simp_all add: s(2) new_session_def create_options_def)
  have "\<exists>ttl t. second \<le> ttl \<and> ttl = s_credential_expires s - ue_now env 2
      \<and> PresignPut cl c (session_authority s ttl) t = Inr dd" if "ur_descriptor u = Some dd" for dd
    using with_descriptor_InrD(3) [OF d(1) that] by (auto simp: numeral_2_eq_2)
  then show ?thesis
    using s(1) f validateAdmission_InrD [OF a(1)] a(2) d(2) with_descriptor_InrD(1) [OF d(1)]
    by (simp add: Let_def AdmitsUploadSize_def)
qed

section \<open>What a commit rests on\<close>

text \<open>
  What another process may do around the commit of the upload \<open>i\<close> with the raw key \<open>k\<close>: when its session is open
  afterwards, it was open before, and the object under its key, if there was one, is still there. Any other object may be
  stored or removed, any other row may change, and the session itself may be closed or deleted.
\<close>

definition upload_open :: "string \<Rightarrow> 's world \<Rightarrow> bool" where
  "upload_open i u \<longleftrightarrow> (\<exists>t\<in>set (sessions (w_db u)). s_id t = i \<and> s_state t = UploadSessionCreated)"

definition upload_key :: "string \<Rightarrow> object_key \<Rightarrow> 's world \<Rightarrow> bool" where
  "upload_key i k u \<longleftrightarrow> (\<forall>t\<in>set (sessions (w_db u)). s_id t = i \<longrightarrow> s_raw_key t = k)"

definition spares_open_upload :: "('s \<Rightarrow> bucket) \<Rightarrow> string \<Rightarrow> object_key \<Rightarrow> 's world \<Rightarrow> 's world \<Rightarrow> bool" where
  "spares_open_upload contents i k u u' \<longleftrightarrow> upload_key i k u'
     \<and> (upload_open i u' \<longrightarrow> upload_open i u
          \<and> (\<forall>x. contents (w_store u) k = Some x \<longrightarrow> contents (w_store u') k = Some x))"

context object_storage begin

lemma verified_object:
  assumes "ob_head st (s_raw_key s) s1 = Inr atts" and "usecase_verifyStoredObject st sha256 s atts s2 = Inr atts'"
    and "\<And>x. contents s1 (s_raw_key s) = Some x \<Longrightarrow> contents s2 (s_raw_key s) = Some x"
  shows "\<exists>body. contents s2 (s_raw_key s) = Some (body, attr_content_type atts') \<and> attr_size atts' = int (length body)
    \<and> attr_checksum atts' = sha256 body"
proof -
  obtain b where b: "contents s1 (s_raw_key s) = Some (b, attr_content_type atts)" "attr_size atts = int (length b)"
    "attr_checksum atts = [] \<or> attr_checksum atts = sha256 b"
    using head_ok [OF assms(1)] by blast
  have c: "contents s2 (s_raw_key s) = Some (b, attr_content_type atts)" using assms(3) b(1) .
  show ?thesis
  proof (cases "attr_checksum atts = []")
    case False
    then show ?thesis using assms(2) b(2,3) c by (auto simp: usecase_verifyStoredObject_def split: if_splits)
  next
    case True
    then obtain body where body: "ob_get st (s_raw_key s) s2 = Inr body"
      and v: "attr_size atts = s_size s" "int (length (take (nat (s_size s + 1)) body)) = s_size s"
        "atts' = atts\<lparr>attr_checksum := sha256 (take (nat (s_size s + 1)) body)\<rparr>"
      using assms(2) by (auto simp: usecase_verifyStoredObject_def Let_def split: if_splits sum.splits)
    have "body = b" using get_ok [OF body] c by simp
    then show ?thesis using v c b(2) by (intro exI [of _ b]) auto
  qed
qed

end

lemma usecase_CommitUpload_InrD:
  assumes "usecase_CommitUpload cd tp be sha256 env r w = (Inr res, w')"
  obtains s atts ids w1 acc where
    "GetUploadSession (commit_scope r) (ue_repo env 0) (w_db w) = Inr s"
    "commit_evidence be sha256 env s w = (Inr (atts, ids), w1)"
    "CommitUpload cd r atts ids tp (ue_repo env 1) (ue_repo env 2) (ue_repo env 3) (w_db (ue_between env 2 w1))
       = (Inr (acc, co_replayed res), w_db w')"
    "w_store w' = w_store (ue_between env 2 w1)" "co_version res = acc_version acc"
  using assms that
  by (auto simp: usecase_CommitUpload_def on_db_def split: sum.splits prod.splits)

lemma CommitUpload_new:
  assumes "CommitUpload cd r atts ids tp t0 t1 t2 db = (Inr (acc, False), db')"
  obtains s where "s \<in> set (sessions db)" "session_in_scope (commit_scope r) s" "s_state s = UploadSessionCreated"
    "verifyStoredObject s atts = Inr ()" "commit_rows cd s atts ids tp t2 db = Inr db'" "acc_version acc = new_version ids"
proof -
  have "commit_transaction cd r atts ids tp t1 t2 db = (Inr (acc, False), db')"
    using assms by (auto simp: CommitUpload_def split: sum.splits)
  then show thesis by (rule commit_transaction_InrD) (use that in auto)
qed


section \<open>What the status discloses\<close>

lemma published_outputs_InlD: "published_outputs ms found = Inl e \<Longrightarrow> e = ErrRawKeyNotPresignable"
  by (induction ms found rule: published_outputs.induct) (auto split: if_splits)

lemma published_outputs_keeps: "published_outputs ms found = Inr found' \<Longrightarrow> found k \<noteq> None \<Longrightarrow> found' k \<noteq> None"
  by (induction ms found rule: published_outputs.induct) (auto split: if_splits)

lemma published_outputs_finds:
  assumes "published_outputs ms found = Inr found'" "m \<in> set ms" "m_kind m = MediaOutputThumbnail \<or> m_kind m = MediaOutputWeb"
  shows "found' (m_kind m) \<noteq> None"
  using assms
proof (induction ms found rule: published_outputs.induct)
  case (2 a ms found)
  have "published_outputs ms (found(m_kind a \<mapsto> a)) = Inr found' \<Longrightarrow> found' (m_kind a) \<noteq> None"
    using published_outputs_keeps by fastforce
  then show ?case using 2 by (auto simp del: fun_upd_apply split: if_splits)
qed simp

lemma safe_code_published:
  "se_code (safeMediaStatusError code) \<in> {''INVALID_IMAGE'', ''IMAGE_DIMENSIONS_EXCEEDED'', ''PROCESSING_TIMEOUT'',
     ''MEDIA_STORAGE_UNAVAILABLE'', ''MEDIA_PROCESSING_FAILED''}"
  by (auto simp: safeMediaStatusError_def safe_codes_def split: option.splits if_splits)

lemma PresignGet_errors: "PresignGet cl key ttl now = Inl e \<Longrightarrow> e \<noteq> ErrIncompleteOutputSet"
  by (auto simp: PresignGet_def split: if_splits option.splits)

lemma signed_outputs_errors: "signed_outputs (minio_backend cl c) env t l = Inl e \<Longrightarrow> e \<noteq> ErrIncompleteOutputSet"
  by (auto simp: signed_outputs_def and_then_Inl dest: PresignGet_errors)

text \<open>In a linked database the outputs of a completed job's version include both kinds.\<close>

lemma latest_job_row: "latest_job og asset db = Some j \<Longrightarrow> j \<in> set (jobs db)"
proof -
  assume a: "latest_job og asset db = Some j"
  define js where "js = filter (\<lambda>j. j_org j = og \<and> j_asset j = asset
      \<and> sql_exists (\<lambda>a. a_id a = asset \<and> a_deleted_at a = None \<and> in_active_folder og a db) (assets db)) (jobs db)"
  have "js \<noteq> []" "j = last (order_by (\<lambda>j. (j_created_at j, j_id j)) js)"
    using a unfolding latest_job_def js_def [symmetric] Let_def by (auto split: if_splits)
  moreover have "order_by (\<lambda>j. (j_created_at j, j_id j)) js \<noteq> []" using calculation(1)
    by (metis length_0_conv length_sort order_by_def)
  ultimately have "j \<in> set (order_by (\<lambda>j. (j_created_at j, j_id j)) js)" by simp
  then show ?thesis by (simp add: order_by_def js_def)
qed

lemma completed_job_outputs:
  assumes "tables_ok db" "linked db" "GetLatestMediaStatus og asset db = Inr rec" "j_status (st_job rec) = ProcessingJobCompleted"
    and "kind = MediaOutputThumbnail \<or> kind = MediaOutputWeb"
  shows "\<exists>m\<in>set (st_outputs rec). m_kind m = kind"
proof -
  obtain j v where l: "latest_job og asset db = Some j" "st_job rec = j" and v: "v \<in> set (versions db)" "v_id v = j_version j"
    and o: "st_outputs rec = order_by m_kind (filter (\<lambda>m. m_version m = v_id v) (outputs db))"
    using assms(3) by (auto simp: GetLatestMediaStatus_def dest!: find_SomeD)
  have j: "j \<in> set (jobs db)" "st_job rec = j" using latest_job_row [OF l(1)] l(2) by simp_all
  obtain w where w: "w \<in> set (versions db)" "agree j w" using assms(2) j(1) unfolding linked_def jobs_link_def by blast
  have "w = v" using agree_version_unique [OF assms(1) w(1) v(1)] w(2) v(2) by (simp add: agree_def)
  then have "v_status v = MediaVersionCompleted"
    using w(2) assms(4) j(2) tables_ok_checks(4) [OF assms(1) j(1)]
    by (cases "v_status v") (auto simp: agree_def open_version_def active_status_def isolated_job_def job_check_def)
  then obtain m where "m \<in> set (outputs db)" "m_version m = v_id v" "m_kind m = kind"
    using assms(2,5) v(1) unfolding linked_def outputs_link_def by blast
  then show ?thesis by (auto simp: o order_by_def)
qed

text \<open>C27: The status of any asset in any reachable state is consistent: it carries links exactly when the job is
  completed, an error exactly when it failed, that error is one of five public codes whatever was recorded internally,
  and a completed job never lacks a rendition.\<close>

theorem status_is_consistent:
  assumes "reachable p"
  shows "(case GetMediaStatus (minio_backend cl c) env og asset (p_db p) of
      Inl e \<Rightarrow> e \<noteq> ErrIncompleteOutputSet
    | Inr res \<Rightarrow> (sr_outputs res \<noteq> None \<longleftrightarrow> sr_status res = ProcessingJobCompleted)
        \<and> (sr_error res \<noteq> None \<longleftrightarrow> sr_status res = ProcessingJobFailed)
        \<and> (\<forall>e. sr_error res = Some e \<longrightarrow> se_code e \<in> {''INVALID_IMAGE'', ''IMAGE_DIMENSIONS_EXCEEDED'',
             ''PROCESSING_TIMEOUT'', ''MEDIA_STORAGE_UNAVAILABLE'', ''MEDIA_PROCESSING_FAILED''}))"
proof -
  have ok: "tables_ok (p_db p)" "linked (p_db p)" using reachable_ok [OF assms] by (simp_all add: pipeline_ok_def db_ok_def)
  have sum: "sr_outputs (status_summary rec) = None" "sr_status (status_summary rec) = j_status (st_job rec)"
    "sr_error (status_summary rec) = status_error_of rec" for rec
    by (simp_all add: status_summary_def Let_def)
  have err: "(status_error_of rec \<noteq> None \<longleftrightarrow> j_status (st_job rec) = ProcessingJobFailed)"
    "status_error_of rec = Some e \<Longrightarrow> \<exists>code. e = safeMediaStatusError code" for rec e
    by (auto simp: status_error_of_def split: if_splits)
  show ?thesis
  proof (cases "GetLatestMediaStatus og asset (p_db p)")
    case (Inl e)
    then have "e = ErrMediaStatusNotFound"
      by (auto simp: GetLatestMediaStatus_def and_then_Inl from_option_def split: option.splits)
    then show ?thesis using Inl by (simp add: GetMediaStatus_def)
  next
    case (Inr rec)
    show ?thesis
    proof (cases "j_status (st_job rec) = ProcessingJobCompleted")
      case False
      then show ?thesis using Inr err safe_code_published sum by (fastforce simp: GetMediaStatus_def)
    next
      case True
      note outs = completed_job_outputs [OF ok Inr True]
      show ?thesis
      proof (cases "published_outputs (st_outputs rec) Map.empty")
        case (Inl e)
        then show ?thesis using \<open>GetLatestMediaStatus og asset (p_db p) = Inr rec\<close> True published_outputs_InlD [OF Inl]
          by (simp add: GetMediaStatus_def)
      next
        case (Inr found)
        then obtain t l where f: "found MediaOutputThumbnail = Some t" "found MediaOutputWeb = Some l"
          using published_outputs_finds [OF Inr] outs by (metis option.exhaust)
        show ?thesis
          using \<open>GetLatestMediaStatus og asset (p_db p) = Inr rec\<close> True Inr f sum err(1) [of rec]
            signed_outputs_errors [of cl c env t l]
          by (cases "signed_outputs (minio_backend cl c) env t l") (auto simp: GetMediaStatus_def)
      qed
    qed
  qed
qed

section \<open>A concrete run\<close>

definition demo_backend :: "bucket media_backend" where
  "demo_backend = minio_backend (memory_client short_digest) demo_minio"

definition demo_limits :: media_limits where
  "demo_limits = \<lparr>lim_MinUploadSizeBytes = 1, lim_MaxUploadSizeBytes = 50000000, lim_MaxImageSidePx = 10, lim_MaxImagePixels = 100,
     lim_CredentialTTL = 10 * minute, lim_SessionTTL = 60 * minute, lim_OutputDownloadTTL = minute,
     lim_AbandonedQuarantine = minute, lim_DefaultRawQuotaBytes = 100, lim_MaxProcessingAttempts = 3\<rparr>"

definition demo_usecase_env :: "bucket usecase_env" where
  "demo_usecase_env = \<lparr>ue_now = (\<lambda>_. 5), ue_repo = (\<lambda>_. 6), ue_signed = (\<lambda>_. 7),
     ue_ids = (\<lambda>i. if i = 0 then ''v'' else if i = 1 then ''j'' else ''x''), ue_between = (\<lambda>_ w. w)\<rparr>"

definition demo_empty_world :: "bucket world" where
  "demo_empty_world = \<lparr>w_db = demo_db, w_store = Map.empty, w_dead_letters = []\<rparr>"

definition demo_created :: "upload_result result \<times> bucket world" where
  "demo_created = usecase_CreateUploadSession (\<lambda>s. s) (\<lambda>_. demo_digest) demo_backend demo_limits demo_usecase_env demo_request
     demo_empty_world"

theorem created_session_is_admitted_witness:
  "case fst demo_created of
     Inr u \<Rightarrow> s_raw_key (ur_session u) = ''raw/o/a/v/original.png'' \<and> ur_descriptor u \<noteq> None
       \<and> s_session_expires (ur_session u) - s_credential_expires (ur_session u) = 50 * minute
   | _ \<Rightarrow> False"
proof -
  have "case fst demo_created of Inr u \<Rightarrow> \<not> ur_replayed u \<and> ur_descriptor u \<noteq> None \<and> s_id (ur_session u) = ''v''
      \<and> s_org (ur_session u) = ''o'' \<and> s_asset (ur_session u) = ''a'' \<and> s_content_type (ur_session u) = ''image/png''
    | _ \<Rightarrow> False" by code_simp
  then obtain u where u: "fst demo_created = Inr u" "\<not> ur_replayed u" "ur_descriptor u \<noteq> None" "s_id (ur_session u) = ''v''"
    "s_org (ur_session u) = ''o''" "s_asset (ur_session u) = ''a''" "s_content_type (ur_session u) = ''image/png''"
    by (auto split: sum.splits)
  then have "usecase_CreateUploadSession (\<lambda>s. s) (\<lambda>_. demo_digest) (minio_backend (memory_client short_digest) demo_minio)
      demo_limits demo_usecase_env demo_request demo_empty_world = (Inr u, snd demo_created)"
    by (cases demo_created) (simp add: demo_created_def demo_backend_def)
  from created_session_is_admitted [OF this u(2)] show ?thesis
    using u by (simp add: Let_def RawObjectKey_def FileExtension_def media_constants rawKeyPrefix_def demo_limits_def minute_def)
qed

definition demo_uploaded_world :: "bucket world" where
  "demo_uploaded_world = demo_world\<lparr>w_db := demo_opened_db\<rparr>"

text \<open>Between its calls the object of another upload is removed and a third one is stored.\<close>

definition demo_racing_env :: "bucket usecase_env" where
  "demo_racing_env = demo_usecase_env\<lparr>ue_between := (\<lambda>_ u. u\<lparr>w_store := (w_store u)
     (''raw/o/a/t/original.png'' := None, ''raw/o/a/u/original.png'' := Some ([7], ''image/png''))\<rparr>)\<rparr>"

definition demo_committing :: "commit_result result \<times> bucket world" where
  "demo_committing = usecase_CommitUpload (demo_codec JNull) [] demo_backend short_digest demo_racing_env demo_commit_request
     demo_uploaded_world"


definition demo_signed_status :: "status_result result" where
  "demo_signed_status = GetMediaStatus (minio_backend (memory_client short_digest) demo_minio) demo_usecase_env ''o'' ''a'' (p_db demo_working)"

theorem status_is_consistent_witness:
  "case demo_signed_status of Inr res \<Rightarrow> sr_outputs res = None \<and> sr_error res = None | _ \<Rightarrow> False"
proof -
  have "case demo_signed_status of Inr res \<Rightarrow> sr_status res = ProcessingJobProcessing | _ \<Rightarrow> False" by code_simp
  then show ?thesis
    using status_is_consistent [OF demo_working_reachable, of "memory_client short_digest" demo_minio demo_usecase_env "''o''" "''a''"]
    by (auto simp: demo_signed_status_def split: sum.splits)
qed

end
