(* ===== verification/Media_Purge.thy ===== *)
theory Media_Purge
  imports Media_Pipeline
begin

text \<open>
  The sweep that reclaims storage (\<open>internal/usecase/media_purge.go\<close>): it expires abandoned sessions, claims
  a batch of sessions whose objects nothing references, deletes each batch's objects and only then marks it.
  What other processes do before each batch is an argument. Metrics, logging and the ticker are left out.
\<close>

section \<open>The sweep\<close>

record purge_options =
  po_quarantine :: duration
  po_batch_size :: int

definition NewMediaObjectPurger :: "purge_options \<Rightarrow> purge_options" where
  "NewMediaObjectPurger opts = (if po_batch_size opts \<le> 0 then opts\<lparr>po_batch_size := 50\<rparr> else opts)"

record 's purge_env =
  pe_expire_now :: instant
  pe_expire_each :: "nat \<Rightarrow> instant"
  pe_claim_now :: instant
  pe_mark_now :: "nat \<Rightarrow> instant"
  pe_between :: "nat \<Rightarrow> 's world \<Rightarrow> 's world"

text \<open>An object that is already absent counts as deleted.\<close>

definition deleteObject :: "'s object_store \<Rightarrow> object_key \<Rightarrow> 's \<Rightarrow> unit result \<times> 's" where
  "deleteObject st key s =
     (case ob_delete st key s of
        (Inr _, s') \<Rightarrow> (Inr (), s')
      | (Inl e, s') \<Rightarrow> if e = ErrObjectNotFound then (Inr (), s') else (Inl e, s'))"

fun delete_keys :: "'s object_store \<Rightarrow> object_key list \<Rightarrow> 's \<Rightarrow> unit result \<times> 's" where
  "delete_keys st [] s = (Inr (), s)"
| "delete_keys st (k # ks) s =
     (case deleteObject st k s of (Inl e, s') \<Rightarrow> (Inl e, s') | (Inr _, s') \<Rightarrow> delete_keys st ks s')"

definition batch_keys :: "purgeable \<Rightarrow> object_key list" where
  "batch_keys b = pg_processed_keys b @ (if pg_raw_key b \<noteq> [] then [pg_raw_key b] else [])"

definition purgeBatch :: "'s object_store \<Rightarrow> purgeable \<Rightarrow> instant \<Rightarrow> 's world \<Rightarrow> unit result \<times> 's world" where
  "purgeBatch st b now w =
     (case on_store (delete_keys st (batch_keys b)) w of
        (Inl e, w') \<Rightarrow> (Inl e, w')
      | (Inr _, w') \<Rightarrow> on_db (MarkMediaObjectsPurged b now) w')"

fun purge_loop :: "'s object_store \<Rightarrow> 's purge_env \<Rightarrow> nat \<Rightarrow> purgeable list \<Rightarrow> nat \<Rightarrow> 's world \<Rightarrow> nat \<times> 's world" where
  "purge_loop st env i [] purged w = (purged, w)"
| "purge_loop st env i (b # bs) purged w =
     (case purgeBatch st b (pe_mark_now env i) (pe_between env i w) of
        (Inl e, w') \<Rightarrow> purge_loop st env (i + 1) bs purged w'
      | (Inr _, w') \<Rightarrow> purge_loop st env (i + 1) bs (purged + 1) w')"

text \<open>The timestamps by which expiry candidates are ordered are carried along; failures to expire are only logged.\<close>

definition PurgeOnce ::
  "'s object_store \<Rightarrow> purge_options \<Rightarrow> 's purge_env \<Rightarrow> (string \<Rightarrow> instant) \<Rightarrow> 's world
   \<Rightarrow> nat result \<times> (string \<Rightarrow> instant) \<times> 's world"
where
  "PurgeOnce st opts env updated w =
     (case ExpireUploadSessions (po_batch_size opts) (pe_expire_now env) (pe_expire_each env) updated (w_db w) of
        (_, updated', db1) \<Rightarrow>
          let w1 = w\<lparr>w_db := db1\<rparr> in
          (case ClaimPurgeableMediaObjects (po_quarantine opts) (po_batch_size opts) (pe_claim_now env) db1 of
             Inl e \<Rightarrow> (Inl e, updated', w1)
           | Inr batches \<Rightarrow> (case purge_loop st env 0 batches 0 w1 of (n, w') \<Rightarrow> (Inr n, updated', w'))))"

section \<open>Storage that reports an absent object truthfully\<close>

locale purgeable_storage = object_storage st contents sha256
  for st :: "'s object_store" and contents :: "'s \<Rightarrow> bucket" and sha256 :: "byte list \<Rightarrow> nat list" +
  assumes delete_missing: "ob_delete st k s = (Inl ErrObjectNotFound, s') \<Longrightarrow> contents s' k = None"
begin

lemma deleteObject_gone: "deleteObject st k s = (Inr u, s') \<Longrightarrow> contents s' k = None"
  by (auto simp: deleteObject_def split: prod.splits sum.splits if_splits dest: delete_ok delete_missing)

lemma deleteObject_other: "deleteObject st k s = (r, s') \<Longrightarrow> contents s q = None \<Longrightarrow> contents s' q = None"
  using delete_failed [of k s] delete_ok [of k s]
  by (auto simp: deleteObject_def split: prod.splits sum.splits if_splits)

lemma delete_keys_absent:
  "delete_keys st ks s = (r, s') \<Longrightarrow> contents s q = None \<Longrightarrow> contents s' q = None"
proof (induction ks arbitrary: s)
  case (Cons k ks)
  obtain r1 s1 where d: "deleteObject st k s = (r1, s1)" by (metis prod.exhaust)
  have "contents s1 q = None" using deleteObject_other [OF d Cons.prems(2)] .
  then show ?case using Cons d by (auto split: sum.splits)
qed simp

lemma delete_keys_gone:
  "delete_keys st ks s = (Inr u, s') \<Longrightarrow> q \<in> set ks \<Longrightarrow> contents s' q = None"
proof (induction ks arbitrary: s)
  case (Cons k ks)
  obtain r1 s1 where d: "deleteObject st k s = (r1, s1)" by (metis prod.exhaust)
  then obtain v where r: "r1 = Inr v" "delete_keys st ks s1 = (Inr u, s')"
    using Cons.prems(1) by (auto split: sum.splits)
  show ?case
  proof (cases "q = k")
    case True
    then show ?thesis using deleteObject_gone [OF d [unfolded r(1)]] delete_keys_absent [OF r(2)] by simp
  next
    case False
    then show ?thesis using Cons.IH [OF r(2)] Cons.prems(2) by simp
  qed
qed simp

end

text \<open>S3 answers a delete with a missing-key code only when there is no such object.\<close>

locale s3_delete = s3_bucket cl c contents sha256
  for cl :: "'s s3_client" and c :: minio_config and contents :: "'s \<Rightarrow> bucket" and sha256 :: "byte list \<Rightarrow> nat list" +
  assumes s3_delete_missing: "c_delete cl k s = (Some (ApiError code), s') \<Longrightarrow> code \<in> {''NoSuchKey'', ''NotFound''} \<Longrightarrow>
    contents s' k = None"

sublocale s3_delete \<subseteq> purge: purgeable_storage "minio_store cl c" contents sha256
proof
  fix k s s'
  assume "ob_delete (minio_store cl c) k s = (Inl ErrObjectNotFound, s')"
  then obtain e where e: "c_delete cl k s = (Some e, s')" "mapObjectError e = ErrObjectNotFound"
    by (auto simp: Delete_def split: option.splits prod.splits)
  then obtain code where "e = ApiError code" "code \<in> {''NoSuchKey'', ''NotFound''}"
    by (cases e) (auto split: if_splits)
  then show "contents s' k = None" using s3_delete_missing e(1) by blast
qed

context s3_delete begin

lemma purgeable: "purgeable_storage (minio_store cl c) contents sha256"
  by unfold_locales

end

interpretation memory_delete: s3_delete "memory_client short_digest" demo_minio id short_digest
  by unfold_locales (simp add: memory_client_def)

section \<open>Deleted before marked\<close>

definition purged :: "db \<Rightarrow> string \<Rightarrow> bool" where
  "purged db i \<longleftrightarrow> (\<exists>s\<in>set (sessions db). s_id s = i \<and> s_purged_at s \<noteq> None)"

lemma purged_update:
  assumes "sessions db' = sql_update c f (sessions db)" "\<And>s. s_id (f s) = s_id s" "\<And>s. s_purged_at (f s) = s_purged_at s"
    and "purged db' i"
  shows "purged db i"
proof -
  obtain s where s: "s \<in> set (sql_update c f (sessions db))" "s_id s = i" "s_purged_at s \<noteq> None"
    using assms(1,4) by (auto simp: purged_def)
  from s(1) show ?thesis by (rule sql_update_memE) (use s(2,3) assms(2,3) in \<open>auto simp: purged_def\<close>)
qed

lemma expire_one_purged: "purged (snd (expire_one c now db)) i \<Longrightarrow> purged db i"
  unfolding expire_one_def
proof (rule transaction_keeps [where P = "\<lambda>d. purged d i \<longrightarrow> purged db i", rule_format])
  fix b db' assume w: "expire_one_work c now db = Inr (b, db')" and p: "purged db' i"
  from expire_one_work_InrD [OF w] show "purged db i"
  proof
    assume "releaseReservation (s_org c) (s_size c)
      (db\<lparr>sessions := sql_update (\<lambda>s. s_id s = s_id c \<and> s_org s = s_org c \<and> expirable now s)
          (\<lambda>s. s\<lparr>s_state := UploadSessionExpired, s_expired_at := Some now\<rparr>) (sessions db)\<rparr>) = Inr db'
      \<and> (\<exists>s\<in>set (sessions db). s_id s = s_id c \<and> s_org s = s_org c \<and> expirable now s)"
    then have "sessions db' = sql_update (\<lambda>s. s_id s = s_id c \<and> s_org s = s_org c \<and> expirable now s)
          (\<lambda>s. s\<lparr>s_state := UploadSessionExpired, s_expired_at := Some now\<rparr>) (sessions db)"
      by (auto simp: releaseReservation_def dest!: update_usage_InrD)
    then show ?thesis by (rule purged_update [OF _ _ _ p]) simp_all
  qed (use p in simp)
qed

lemma expire_all_purged:
  "expire_all cs n fs upd db = (r, upd', db') \<Longrightarrow> purged db' i \<Longrightarrow> purged db i"
proof (induction cs n fs upd db rule: expire_all.induct)
  case (2 s now cs n fs upd db)
  obtain q db1 where q: "expire_one s now db = (q, db1)" by (metis prod.exhaust)
  then have "purged db1 i \<Longrightarrow> purged db i" using expire_one_purged [of s now db i] by simp
  then show ?case using 2 q by (cases q) (auto split: if_splits)
qed simp

lemma expire_all_ok:
  "expire_all cs n fs upd db = (r, upd', db') \<Longrightarrow> db_ok db
   \<Longrightarrow> \<forall>c\<in>set cs. \<exists>s\<in>set (sessions db). session_forward (fst c) s \<Longrightarrow> db_ok db'"
proof (induction cs n fs upd db rule: expire_all.induct)
  case (2 s now cs n fs upd db)
  obtain q db1 where q: "expire_one s now db = (q, db1)" by (metis prod.exhaust)
  obtain t where "t \<in> set (sessions db)" "session_forward s t" using "2.prems"(3) by auto
  then have adv: "db_ok db1" "forward db db1"
    using expire_one_advances [OF "2.prems"(2), of t s now] q by (simp_all add: advances_def)
  have "\<forall>c\<in>set cs. \<exists>s\<in>set (sessions db1). session_forward (fst c) s"
    using "2.prems"(3) forwardD(2) [OF adv(2)] session_forward_trans by fastforce
  then show ?case using 2 q adv(1) by (cases q) (auto split: if_splits)
qed simp

lemma ExpireUploadSessions_ok:
  assumes "db_ok db"
  shows "db_ok (snd (snd (ExpireUploadSessions limit now clock upd db)))"
proof -
  let ?cs = "expiry_candidates upd (nat limit) now db"
  have "\<forall>c\<in>set (zip ?cs (map clock [0..<length ?cs])). \<exists>s\<in>set (sessions db). session_forward (fst c) s"
    using row_forward(2) by (force simp: expiry_candidates_def order_by_def dest!: set_zip_leftD in_set_takeD)
  then show ?thesis
    using expire_all_ok [of "zip ?cs (map clock [0..<length ?cs])" 0 "[]" upd db] assms
    by (auto simp: ExpireUploadSessions_def Let_def prod_eq_iff)
qed

lemma mark_purged: "purged (snd (MarkMediaObjectsPurged b now db)) i \<Longrightarrow> purged db i \<or> i = pg_upload b"
proof -
  assume p: "purged (snd (MarkMediaObjectsPurged b now db)) i"
  have "purged db' i \<longrightarrow> purged db i \<or> i = pg_upload b" if "mark_purged_work b now db = Inr (u, db')" for u db'
    using that
  proof (cases rule: mark_purged_work_InrD)
    case marked
    then show ?thesis by (auto simp: purged_def)
  qed simp
  then show ?thesis using p by (auto simp: MarkMediaObjectsPurged_def transaction_def split: sum.splits)
qed

text \<open>
  The objects that belong to an upload: its raw original, and the two renditions of its version under the keys that
  the media worker stores them with.
\<close>

definition rendition_keys :: "version_row \<Rightarrow> object_key set" where
  "rendition_keys v = {k. ProcessedObjectKey (v_org v) (v_asset v) (v_id v) MediaOutputThumbnail (v_declared v) = Inr k
     \<or> ProcessedObjectKey (v_org v) (v_asset v) (v_id v) MediaOutputWeb (v_declared v) = Inr k}"

definition upload_objects :: "db \<Rightarrow> string \<Rightarrow> object_key set" where
  "upload_objects db i = {k. k \<noteq> [] \<and> (\<exists>s\<in>set (sessions db). s_id s = i \<and> s_raw_key s = k)}
     \<union> (\<Union>v\<in>{v \<in> set (versions db). v_upload v = i}. rendition_keys v)"

definition objects_gone :: "('s \<Rightarrow> bucket) \<Rightarrow> 's world \<Rightarrow> string \<Rightarrow> bool" where
  "objects_gone contents u i \<longleftrightarrow> (\<forall>k\<in>upload_objects (w_db u) i. contents (w_store u) k = None)"

lemma upload_objects_mono:
  assumes "\<And>t. t \<in> set (sessions db') \<Longrightarrow> \<exists>s\<in>set (sessions db). s_id s = s_id t \<and> s_raw_key s = s_raw_key t"
    and "\<And>w. w \<in> set (versions db') \<Longrightarrow> \<exists>v\<in>set (versions db). v_upload v = v_upload w \<and> rendition_keys v = rendition_keys w"
  shows "upload_objects db' i \<subseteq> upload_objects db i"
proof
  fix k assume "k \<in> upload_objects db' i"
  then consider t where "k \<noteq> []" "t \<in> set (sessions db')" "s_id t = i" "s_raw_key t = k"
    | w where "w \<in> set (versions db')" "v_upload w = i" "k \<in> rendition_keys w"
    by (auto simp: upload_objects_def)
  then show "k \<in> upload_objects db i"
  proof cases
    case 1
    then show ?thesis using assms(1) by (auto simp: upload_objects_def)
  next
    case 2
    then show ?thesis using assms(2) by (fastforce simp: upload_objects_def)
  qed
qed

text \<open>Marking changes no key.\<close>

lemma mark_upload_objects: "upload_objects (snd (MarkMediaObjectsPurged b now db)) i \<subseteq> upload_objects db i"
proof -
  have "upload_objects db' i \<subseteq> upload_objects db i" if "mark_purged_work b now db = Inr (u, db')" for u db'
    using that
  proof (cases rule: mark_purged_work_InrD)
    case marked
    show ?thesis
    proof (rule upload_objects_mono)
      fix t assume "t \<in> set (sessions db')"
      then show "\<exists>s\<in>set (sessions db). s_id s = s_id t \<and> s_raw_key s = s_raw_key t"
        unfolding marked(1) by (auto elim!: sql_update_memE)
    next
      fix w assume "w \<in> set (versions db')"
      then obtain v where v: "v \<in> set (versions db)" "w = v \<or> w = v\<lparr>v_raw_retained := False\<rparr>"
        using marked(3) by (auto elim!: sql_update_memE)
      then show "\<exists>v\<in>set (versions db). v_upload v = v_upload w \<and> rendition_keys v = rendition_keys w"
        by (intro bexI [OF _ v(1)]) (auto simp: rendition_keys_def)
    qed
  qed simp
  then show ?thesis by (auto simp: MarkMediaObjectsPurged_def transaction_def split: sum.splits)
qed

text \<open>The keys of a claimed batch are those of its upload.\<close>

lemma processed_keys_manifest:
  assumes "processed_keys og asset i ct MediaOutputManifest = Inr ks"
  shows "ProcessedObjectKey og asset i MediaOutputThumbnail ct = Inr k \<or> ProcessedObjectKey og asset i MediaOutputWeb ct = Inr k
    \<Longrightarrow> k \<in> set ks"
  using assms by (auto simp: MediaOutputManifest_def)

lemma claimed_keys:
  assumes "tables_ok db" "linked db" "ClaimPurgeableMediaObjects quarantine limit now db = Inr bs" "b \<in> set bs"
  shows "upload_objects db (pg_upload b) \<subseteq> set (batch_keys b)"
proof -
  have col: "collect f xs = Inr ys \<Longrightarrow> y \<in> set ys \<Longrightarrow> \<exists>x\<in>set xs. f x = Inr y"
    for f :: "session_row \<Rightarrow> purgeable result" and xs ys y
    by (induction xs arbitrary: ys) auto
  obtain s where s: "s \<in> set (sessions db)" "purge_batch db s = Inr b"
    using assms(3,4)
    by (auto simp: ClaimPurgeableMediaObjects_def order_by_def split: if_splits dest!: col in_set_takeD)
  then have b: "pg_upload b = s_id s" "pg_raw_key b = s_raw_key s"
    by (auto simp: purge_batch_def split: option.splits)
  have raw: "t = s" if "t \<in> set (sessions db)" "s_id t = s_id s" for t
    using sessions_unique [OF assms(1) that(1) s(1) that(2)] .
  have rend: "rendition_keys v \<subseteq> set (batch_keys b)" if v: "v \<in> set (versions db)" "v_upload v = s_id s" for v
  proof -
    have one: "w = v" if "w \<in> set (versions db)" "v_upload w = s_id s" for w
      using distinct_map_eq [OF tables_ok_distinct(3) [OF assms(1)] that(1) v(1)] that(2) v(2) by simp
    have "version_of_session s db \<noteq> None" using v by (auto simp: version_of_session_def find_None_iff)
    then obtain w where w: "version_of_session s db = Some w" by blast
    then have "w = v" using one by (auto simp: version_of_session_def dest!: find_SomeD)
    then obtain ks where ks: "processed_keys (s_org s) (s_asset s) (v_id v) (v_declared v) MediaOutputManifest = Inr ks"
      "pg_processed_keys b = ks" using s(2) w by (auto simp: purge_batch_def)
    obtain t where t: "t \<in> set (sessions db)" "origin t v" using assms(2) v(1) by (auto simp: linked_def sessions_link_def)
    then have "t = s" using raw v(2) by (simp add: origin_def)
    then have "v_org v = s_org s" "v_asset v = s_asset s" using t(2) by (simp_all add: origin_def)
    then show ?thesis using processed_keys_manifest [OF ks(1)] ks(2) by (auto simp: rendition_keys_def batch_keys_def)
  qed
  show ?thesis using raw rend b by (auto simp: upload_objects_def batch_keys_def)
qed

text \<open>
  What other processes may do, replicas of the sweep included. A session that they mark has lost its objects. For the
  uploads of this sweep and those already marked they name no further object and store none that is absent.
\<close>

definition leaves_uploads :: "('s \<Rightarrow> bucket) \<Rightarrow> string set \<Rightarrow> 's world \<Rightarrow> 's world \<Rightarrow> bool" where
  "leaves_uploads contents I u u' \<longleftrightarrow>
     (\<forall>i. purged (w_db u') i \<longrightarrow> purged (w_db u) i \<or> objects_gone contents u' i)
     \<and> (\<forall>i. i \<in> I \<or> purged (w_db u) i \<longrightarrow> upload_objects (w_db u') i \<subseteq> upload_objects (w_db u) i
          \<and> (\<forall>k\<in>upload_objects (w_db u) i. contents (w_store u) k = None \<longrightarrow> contents (w_store u') k = None))"

text \<open>The uploads of the sweep name no object that they did not name when they were claimed.\<close>

definition named_since :: "string set \<Rightarrow> db \<Rightarrow> 's world \<Rightarrow> bool" where
  "named_since I d u \<longleftrightarrow> (\<forall>i\<in>I. upload_objects (w_db u) i \<subseteq> upload_objects d i)"

definition swept :: "('s \<Rightarrow> bucket) \<Rightarrow> purgeable list \<Rightarrow> db \<Rightarrow> db \<Rightarrow> 's world \<Rightarrow> bool" where
  "swept contents bs db0 d u \<longleftrightarrow> (\<forall>i. purged (w_db u) i \<longrightarrow> purged db0 i \<or> objects_gone contents u i)
     \<and> named_since (pg_upload ` set bs) d u"

lemma swept_leaves:
  assumes "swept contents bs db0 d u" "leaves_uploads contents (pg_upload ` set bs) u u'"
  shows "swept contents bs db0 d u'"
proof -
  have "purged db0 i \<or> objects_gone contents u' i" if p: "purged (w_db u') i" for i
  proof (cases "purged (w_db u) i")
    case True
    have k: "upload_objects (w_db u') i \<subseteq> upload_objects (w_db u) i"
      "\<forall>k\<in>upload_objects (w_db u) i. contents (w_store u) k = None \<longrightarrow> contents (w_store u') k = None"
      using assms(2) True by (simp_all add: leaves_uploads_def)
    have "objects_gone contents u i \<Longrightarrow> objects_gone contents u' i" using k unfolding objects_gone_def by blast
    then show ?thesis using assms(1) True by (auto simp: swept_def)
  next
    case False
    then show ?thesis using assms(2) p by (auto simp: leaves_uploads_def)
  qed
  moreover have "upload_objects (w_db u') i \<subseteq> upload_objects d i" if "i \<in> pg_upload ` set bs" for i
  proof (rule subset_trans)
    show "upload_objects (w_db u') i \<subseteq> upload_objects (w_db u) i" using assms(2) that by (simp add: leaves_uploads_def)
    show "upload_objects (w_db u) i \<subseteq> upload_objects d i" using assms(1) that by (auto simp: swept_def named_since_def)
  qed
  then have "named_since (pg_upload ` set bs) d u'" by (simp add: named_since_def)
  ultimately show ?thesis by (simp add: swept_def)
qed

context purgeable_storage begin

lemma purgeBatch_swept:
  assumes "swept contents bs db0 d u" "b \<in> set bs" "purgeBatch st b now u = (r, u')"
    and keys: "upload_objects d (pg_upload b) \<subseteq> set (batch_keys b)"
  shows "swept contents bs db0 d u'"
proof -
  obtain q s' where del: "delete_keys st (batch_keys b) (w_store u) = (q, s')" by (metis prod.exhaust)
  have absent: "contents s' k = None" if "contents (w_store u) k = None" for k
    using delete_keys_absent [OF del that] .
  show ?thesis
  proof (cases q)
    case (Inl e)
    then have u': "w_store u' = s'" "w_db u' = w_db u" using assms(3) del by (auto simp: purgeBatch_def on_store_def)
    show ?thesis using assms(1) absent unfolding swept_def named_since_def objects_gone_def u' by blast
  next
    case (Inr v)
    have gone: "\<forall>k\<in>set (batch_keys b). contents s' k = None" using delete_keys_gone [OF del [unfolded Inr]] by blast
    have u': "w_store u' = s'" "w_db u' = snd (MarkMediaObjectsPurged b now (w_db u))"
      using assms(3) del Inr by (auto simp: purgeBatch_def on_store_def on_db_def split: prod.splits)
    have fewer: "upload_objects (w_db u') i \<subseteq> upload_objects (w_db u) i" for i
      unfolding u'(2) by (rule mark_upload_objects)
    have "upload_objects (w_db u) (pg_upload b) \<subseteq> set (batch_keys b)"
      using assms(1,2) keys unfolding swept_def named_since_def by blast
    then have own: "objects_gone contents u' (pg_upload b)"
      using fewer gone unfolding objects_gone_def u'(1) by blast
    have "purged db0 i \<or> objects_gone contents u' i" if p: "purged (w_db u') i" for i
    proof (cases "i = pg_upload b")
      case False
      then have "purged (w_db u) i" using mark_purged p u'(2) by auto
      then have "purged db0 i \<or> objects_gone contents u i" using assms(1) by (simp add: swept_def)
      then show ?thesis using fewer absent unfolding objects_gone_def u'(1) by blast
    qed (simp add: own)
    moreover have "named_since (pg_upload ` set bs) d u'"
      using assms(1) fewer unfolding swept_def named_since_def by blast
    ultimately show ?thesis by (simp add: swept_def)
  qed
qed

text \<open>A replica that works on a batch it has claimed is such a process.\<close>

lemma purgeBatch_leaves:
  assumes "purgeBatch st b now u = (r, u')" "upload_objects (w_db u) (pg_upload b) \<subseteq> set (batch_keys b)"
  shows "leaves_uploads contents I u u'"
proof -
  obtain q s' where del: "delete_keys st (batch_keys b) (w_store u) = (q, s')" by (metis prod.exhaust)
  have st: "w_store u' = s'" using assms(1) del by (auto simp: purgeBatch_def on_store_def on_db_def split: sum.splits prod.splits)
  have absent: "contents (w_store u') k = None" if "contents (w_store u) k = None" for k
    using delete_keys_absent [OF del that] st by simp
  have fewer: "upload_objects (w_db u') i \<subseteq> upload_objects (w_db u) i" for i
    using assms(1) del mark_upload_objects [of b now "w_db u" i]
    by (auto simp: purgeBatch_def on_store_def on_db_def split: sum.splits prod.splits)
  have "purged (w_db u) i \<or> objects_gone contents u' i" if p: "purged (w_db u') i" for i
  proof (cases q)
    case (Inl e)
    then show ?thesis using assms(1) del p by (auto simp: purgeBatch_def on_store_def)
  next
    case (Inr v)
    then have "w_db u' = snd (MarkMediaObjectsPurged b now (w_db u))"
      using assms(1) del by (auto simp: purgeBatch_def on_store_def on_db_def split: prod.splits)
    moreover have "objects_gone contents u' (pg_upload b)"
      using delete_keys_gone [OF del [unfolded Inr]] assms(2) fewer st unfolding objects_gone_def by blast
    ultimately show ?thesis using mark_purged p by auto
  qed
  then show ?thesis using absent fewer unfolding leaves_uploads_def by blast
qed

lemma purge_loop_swept:
  assumes "\<And>i u. named_since (pg_upload ` set bs) d u \<Longrightarrow> leaves_uploads contents (pg_upload ` set bs) u (pe_between env i u)"
    and keys: "\<And>b. b \<in> set bs \<Longrightarrow> upload_objects d (pg_upload b) \<subseteq> set (batch_keys b)"
  shows "purge_loop st env i cs n u = (m, u') \<Longrightarrow> set cs \<subseteq> set bs \<Longrightarrow> swept contents bs db0 d u
    \<Longrightarrow> swept contents bs db0 d u'"
proof (induction cs arbitrary: i n u)
  case (Cons b cs)
  obtain r u1 where b: "purgeBatch st b (pe_mark_now env i) (pe_between env i u) = (r, u1)" by (metis prod.exhaust)
  have "named_since (pg_upload ` set bs) d u" using Cons.prems(3) by (simp add: swept_def)
  then have "swept contents bs db0 d (pe_between env i u)" by (rule swept_leaves [OF Cons.prems(3) assms(1)])
  then have "swept contents bs db0 d u1"
    by (rule purgeBatch_swept [OF _ _ b keys]) (use Cons.prems(2) in simp_all)
  then show ?case using Cons.IH Cons.prems(1,2) b by (auto split: sum.splits)
qed simp

lemma PurgeOnce_swept:
  assumes "PurgeOnce st opts env upd w = (Inr n, upd', w')"
    and "d = snd (snd (ExpireUploadSessions (po_batch_size opts) (pe_expire_now env) (pe_expire_each env) upd (w_db w)))"
    and ok: "db_ok (w_db w)"
    and "\<And>bs i u. ClaimPurgeableMediaObjects (po_quarantine opts) (po_batch_size opts) (pe_claim_now env) d = Inr bs \<Longrightarrow>
      named_since (pg_upload ` set bs) d u \<Longrightarrow> leaves_uploads contents (pg_upload ` set bs) u (pe_between env i u)"
  shows "purged (w_db w') i \<longrightarrow> purged (w_db w) i \<or> objects_gone contents w' i"
proof -
  obtain q upd1 where e: "ExpireUploadSessions (po_batch_size opts) (pe_expire_now env) (pe_expire_each env) upd (w_db w)
      = (q, upd1, d)"
    using assms(2) by (metis prod.collapse)
  obtain bs where bs: "ClaimPurgeableMediaObjects (po_quarantine opts) (po_batch_size opts) (pe_claim_now env) d = Inr bs"
    and l: "purge_loop st env 0 bs 0 (w\<lparr>w_db := d\<rparr>) = (n, w')"
    using assms(1) e by (auto simp: PurgeOnce_def Let_def split: sum.splits prod.splits)
  have "purged d i \<Longrightarrow> purged (w_db w) i" for i
    using e by (auto simp: ExpireUploadSessions_def Let_def split: if_splits dest: expire_all_purged)
  then have start: "swept contents bs (w_db w) d (w\<lparr>w_db := d\<rparr>)" by (simp add: swept_def named_since_def)
  have d: "tables_ok d" "linked d" using ExpireUploadSessions_ok [OF ok] unfolding assms(2) by (simp_all add: db_ok_def)
  have "swept contents bs (w_db w) d w'"
    by (rule purge_loop_swept [OF assms(4) [OF bs] claimed_keys [OF d bs] l _ start]) simp_all
  then show ?thesis by (simp add: swept_def)
qed

end

text \<open>C26: Whenever a sweep ends, every session that was marked as purged since its start, by it or by a replica, has
  none of its objects left in storage: not its raw original, and not a rendition of its version under the key the worker
  uses, whatever deletions fail on the way. Other processes may work on the tables and the bucket between the batches,
  other sweeps included, as long as they too mark only sessions whose objects are gone, and store no object again for an
  upload that this sweep has claimed or that is marked.\<close>

theorem sweep_deletes_before_marking:
  assumes "s3_delete cl contents sha256"
    and "PurgeOnce (minio_store cl c) opts env upd w = (Inr n, upd', w')"
    and "d = snd (snd (ExpireUploadSessions (po_batch_size opts) (pe_expire_now env) (pe_expire_each env) upd (w_db w)))"
    and "db_ok (w_db w)"
    and "\<And>bs i u. ClaimPurgeableMediaObjects (po_quarantine opts) (po_batch_size opts) (pe_claim_now env) d = Inr bs \<Longrightarrow>
      named_since (pg_upload ` set bs) d u \<Longrightarrow> leaves_uploads contents (pg_upload ` set bs) u (pe_between env i u)"
    and "s \<in> set (sessions (w_db w'))" "s_purged_at s \<noteq> None"
    and "\<And>t. t \<in> set (sessions (w_db w)) \<Longrightarrow> s_id t = s_id s \<Longrightarrow> s_purged_at t = None"
  shows "(s_raw_key s \<noteq> [] \<longrightarrow> contents (w_store w') (s_raw_key s) = None)
    \<and> (\<forall>v\<in>set (versions (w_db w')). v_upload v = s_id s \<longrightarrow> (\<forall>k\<in>rendition_keys v. contents (w_store w') k = None))"
proof -
  have "purged (w_db w') (s_id s)" "\<not> purged (w_db w) (s_id s)" using assms(6-8) by (auto simp: purged_def)
  then have "objects_gone contents w' (s_id s)"
    using purgeable_storage.PurgeOnce_swept [OF s3_delete.purgeable [OF assms(1)] assms(2-5)] by blast
  then show ?thesis using assms(6) by (auto simp: objects_gone_def upload_objects_def)
qed

text \<open>A cancelled upload whose object was stored is swept.\<close>

definition demo_cancelled_world :: "bucket world" where
  "demo_cancelled_world = \<lparr>w_db = snd (CancelUploadSession (commit_scope demo_commit_request) 20 demo_opened_db),
     w_store = [''raw/o/a/s/original.png'' \<mapsto> (demo_raw, ''image/png'')], w_dead_letters = []\<rparr>"

definition demo_batch :: purgeable where
  "demo_batch = \<lparr>pg_upload = ''s'', pg_version = [], pg_org = ''o'', pg_raw_key = ''raw/o/a/s/original.png'',
     pg_processed_keys = [], pg_stored = 0\<rparr>"

text \<open>Before each of its batches a replica that has claimed the same upload deletes and marks it.\<close>

definition demo_purge_env :: "bucket purge_env" where
  "demo_purge_env = \<lparr>pe_expire_now = 90, pe_expire_each = (\<lambda>_. 90), pe_claim_now = 91, pe_mark_now = (\<lambda>_. 92),
     pe_between = (\<lambda>_ w. snd (purgeBatch (minio_store (memory_client short_digest) demo_minio) demo_batch 91 w))\<rparr>"

definition demo_purge_options :: purge_options where
  "demo_purge_options = NewMediaObjectPurger \<lparr>po_quarantine = 30, po_batch_size = 0\<rparr>"

definition demo_sweep :: "nat result \<times> (string \<Rightarrow> instant) \<times> bucket world" where
  "demo_sweep = PurgeOnce (minio_store (memory_client short_digest) demo_minio) demo_purge_options demo_purge_env (\<lambda>_. 0)
     demo_cancelled_world"

theorem sweep_deletes_before_marking_witness:
  "w_store (snd (snd demo_sweep)) ''raw/o/a/s/original.png'' = None"
proof -
  define d where "d = snd (snd (ExpireUploadSessions (po_batch_size demo_purge_options) (pe_expire_now demo_purge_env)
      (pe_expire_each demo_purge_env) (\<lambda>_. 0) (w_db demo_cancelled_world)))"
  have "case demo_sweep of (r, _, w) \<Rightarrow> r = Inr 1 \<and> list_all (\<lambda>s. s_purged_at s \<noteq> None \<and> s_raw_key s = ''raw/o/a/s/original.png'')
      (sessions (w_db w)) \<and> sessions (w_db w) \<noteq> []" by code_simp
  then have sweep: "fst demo_sweep = Inr 1" "\<forall>s\<in>set (sessions (w_db (snd (snd demo_sweep)))). s_purged_at s \<noteq> None
      \<and> s_raw_key s = ''raw/o/a/s/original.png''" "sessions (w_db (snd (snd demo_sweep))) \<noteq> []"
    by (auto simp: case_prod_beta list_all_iff)
  have r: "PurgeOnce (minio_store (memory_client short_digest) demo_minio) demo_purge_options demo_purge_env (\<lambda>_. 0)
      demo_cancelled_world = (Inr 1, fst (snd demo_sweep), snd (snd demo_sweep))"
    using sweep(1) by (simp add: demo_sweep_def prod_eq_iff)
  obtain s where s: "s \<in> set (sessions (w_db (snd (snd demo_sweep))))" using sweep(3) by (meson list.set_sel(1))
  have "list_all (\<lambda>t. s_purged_at t = None) (sessions (w_db demo_cancelled_world))" by code_simp
  then have fresh: "s_purged_at t = None" if "t \<in> set (sessions (w_db demo_cancelled_world))" for t
    using that by (simp add: list_all_iff)
  have ok: "db_ok (w_db demo_cancelled_world)"
    using reachable_ok [OF reachable.move [OF demo_opened_reachable media_step.close [of _ "commit_scope demo_commit_request"
        UploadSessionCancelled 20]]]
    by (simp add: pipeline_ok_def demo_cancelled_world_def CancelUploadSession_def)
  then have d: "tables_ok d" "linked d" using ExpireUploadSessions_ok unfolding d_def by (simp_all add: db_ok_def)
  have claim: "ClaimPurgeableMediaObjects (po_quarantine demo_purge_options) (po_batch_size demo_purge_options)
      (pe_claim_now demo_purge_env) d = Inr [demo_batch]" unfolding d_def by code_simp
  have l: "leaves_uploads id (pg_upload ` set bs) u (pe_between demo_purge_env i u)"
    if "ClaimPurgeableMediaObjects (po_quarantine demo_purge_options) (po_batch_size demo_purge_options)
      (pe_claim_now demo_purge_env) d = Inr bs" "named_since (pg_upload ` set bs) d u" for bs i u
  proof -
    have "upload_objects (w_db u) (pg_upload demo_batch) \<subseteq> set (batch_keys demo_batch)"
    proof (rule subset_trans)
      have "bs = [demo_batch]" using that(1) claim by simp
      then show "upload_objects (w_db u) (pg_upload demo_batch) \<subseteq> upload_objects d (pg_upload demo_batch)"
        using that(2) by (simp add: named_since_def)
      show "upload_objects d (pg_upload demo_batch) \<subseteq> set (batch_keys demo_batch)"
        by (rule claimed_keys [OF d claim]) simp
    qed
    moreover have "purgeBatch (minio_store (memory_client short_digest) demo_minio) demo_batch 91 u
        = (fst (purgeBatch (minio_store (memory_client short_digest) demo_minio) demo_batch 91 u), pe_between demo_purge_env i u)"
      by (simp add: demo_purge_env_def)
    ultimately show ?thesis using memory_delete.purge.purgeBatch_leaves by blast
  qed
  show ?thesis
    using sweep_deletes_before_marking [OF memory_delete.s3_delete_axioms r d_def ok l s _ fresh] sweep(2) s by auto
qed

end
