(* ===== verification/Lifecycle_Purge.thy ===== *)
theory Lifecycle_Purge
  imports Lifecycle_Restore Media_Purge
begin

text \<open>
  The physical purge of an expired recycle bin entry (\<open>internal/repository/lifecycle_purge_repository.go\<close>,
  \<open>internal/usecase/lifecycle_purger.go\<close> and the step of \<open>cmd/asset-delete-worker\<close>). It works on the folders and
  items of the catalogue and on the media tables of the same database, which share the tables of folders and of
  metadata items: a row of those is deleted in both views. The manifest of objects is a table of its own.
\<close>

section \<open>Tables\<close>

record purge_object =
  po_job :: string
  po_org :: string
  po_asset :: string
  po_key :: object_key
  po_deleted_at :: "instant option"

record archive =
  ar_catalog :: catalog
  ar_media :: db
  ar_objects :: "purge_object list"

record purge_asset =
  pa_job :: string
  pa_org :: string
  pa_unit :: string
  pa_asset :: string
  pa_keys :: "object_key list"

text \<open>The clock readings and identifiers of one call, and the rows that other transactions hold locked.\<close>

record purge_call =
  pc_now :: instant
  pc_done :: instant
  pc_locked_items :: "string list"
  pc_locked_folders :: "string list"

section \<open>The claim\<close>

text \<open>The job must still be leased to the worker, by the clock of the database, and its unit must be purging.\<close>

definition lockRunningPurgeJob :: "instant \<Rightarrow> string \<Rightarrow> string \<Rightarrow> catalog \<Rightarrow> (lifecycle_job \<times> unit_row) reply" where
  "lockRunningPurgeJob now jid worker d =
     and_then (from_option ErrNoRecord (find (\<lambda>j. lj_id j = jid \<and> lj_operation j = LifecycleJobPurge \<and> owned_by worker j
        \<and> (case lj_lease_expires j of None \<Rightarrow> False | Some t \<Rightarrow> now < t)) (c_jobs d))) (\<lambda>j.
     case lj_unit j of
       None \<Rightarrow> Inl (ErrMessage ''purge job has no lifecycle unit'')
     | Some unit \<Rightarrow>
         and_then (from_option ErrNoRecord (find (\<lambda>u. lu_id u = unit \<and> lu_org u = lj_org j
            \<and> lu_state u = LifecyclePurging) (c_units d))) (\<lambda>u. Inr (j, u)))"

section \<open>The next asset and its manifest\<close>

definition purge_candidate :: "lifecycle_job \<Rightarrow> unit_row \<Rightarrow> catalog \<Rightarrow> item \<Rightarrow> bool" where
  "purge_candidate j u d x \<longleftrightarrow> item_in_org d (lj_org j) x \<and> it_unit x = Some (lu_id u) \<and> \<not> item_active x
     \<and> (if lu_type u = LifecycleResourceMetadata then it_id x = lu_root u
        else item_below d (lj_org j) (lu_path u) x)"

definition nextPurgeAssetID :: "purge_call \<Rightarrow> lifecycle_job \<Rightarrow> unit_row \<Rightarrow> catalog \<Rightarrow> string option" where
  "nextPurgeAssetID pc j u d =
     map_option it_id (first_row it_id (\<lambda>x. purge_candidate j u d x \<and> it_id x \<notin> set (pc_locked_items pc)) (c_items d))"

text \<open>\<open>INSERT ... ON CONFLICT (lifecycle_job_id, object_key) DO NOTHING\<close>.\<close>

fun add_objects :: "string \<Rightarrow> string \<Rightarrow> string \<Rightarrow> object_key list \<Rightarrow> purge_object list \<Rightarrow> purge_object list" where
  "add_objects jid org aid [] ps = ps"
| "add_objects jid org aid (k # ks) ps =
     add_objects jid org aid ks
       (if sql_exists (\<lambda>p. po_job p = jid \<and> po_key p = k) ps then ps
        else ps @ [\<lparr>po_job = jid, po_org = org, po_asset = aid, po_key = k, po_deleted_at = None\<rparr>])"

definition raw_keys :: "string \<Rightarrow> db \<Rightarrow> object_key list" where
  "raw_keys aid m = map v_raw_key (filter (\<lambda>v. v_asset v = aid) (versions m))"

definition output_keys :: "string \<Rightarrow> db \<Rightarrow> object_key list" where
  "output_keys aid m =
     concat (map (\<lambda>v. map m_key (filter (\<lambda>q. m_version q = v_id v) (outputs m))) (filter (\<lambda>v. v_asset v = aid) (versions m)))"

definition session_keys :: "string \<Rightarrow> string \<Rightarrow> db \<Rightarrow> object_key list" where
  "session_keys org aid m =
     map s_raw_key (filter (\<lambda>s. s_org s = org \<and> s_asset s = aid \<and> s_raw_key s \<noteq> []) (sessions m))"

definition createPurgeObjectManifest :: "string \<Rightarrow> string \<Rightarrow> string \<Rightarrow> archive \<Rightarrow> archive" where
  "createPurgeObjectManifest jid org aid ar =
     ar\<lparr>ar_objects := add_objects jid org aid (session_keys org aid (ar_media ar))
        (add_objects jid org aid (output_keys aid (ar_media ar))
           (add_objects jid org aid (raw_keys aid (ar_media ar)) (ar_objects ar)))\<rparr>"

definition pending_object :: "string \<Rightarrow> string \<Rightarrow> purge_object \<Rightarrow> bool" where
  "pending_object jid aid p \<longleftrightarrow> po_job p = jid \<and> po_asset p = aid \<and> po_deleted_at p = None"

definition NextLifecyclePurgeAsset ::
  "purge_call \<Rightarrow> string \<Rightarrow> string \<Rightarrow> archive \<Rightarrow> purge_asset option reply \<times> archive" where
  "NextLifecyclePurgeAsset pc jid worker =
     transaction (\<lambda>ar.
       and_then (lockRunningPurgeJob (pc_now pc) jid worker (ar_catalog ar)) (\<lambda>(j, u).
       case nextPurgeAssetID pc j u (ar_catalog ar) of
         None \<Rightarrow> Inr (None, ar)
       | Some aid \<Rightarrow>
           let ar1 = createPurgeObjectManifest (lj_id j) (lj_org j) aid ar;
               keys = order_by id (map po_key (filter (pending_object (lj_id j) aid) (ar_objects ar1)))
           in Inr (Some \<lparr>pa_job = lj_id j, pa_org = lj_org j, pa_unit = lu_id u, pa_asset = aid, pa_keys = keys\<rparr>, ar1)))"

definition MarkLifecyclePurgeObjectsDeleted ::
  "purge_call \<Rightarrow> string \<Rightarrow> string \<Rightarrow> string \<Rightarrow> object_key list \<Rightarrow> archive \<Rightarrow> unit reply \<times> archive" where
  "MarkLifecyclePurgeObjectsDeleted pc jid worker aid keys ar =
     (if keys = [] then (Inr (), ar)
      else transaction (\<lambda>ar.
        and_then (lockRunningPurgeJob (pc_now pc) jid worker (ar_catalog ar)) (\<lambda>_.
        Inr ((), ar\<lparr>ar_objects := sql_update (\<lambda>p. pending_object jid aid p \<and> po_key p \<in> set keys)
                     (\<lambda>p. p\<lparr>po_deleted_at := Some (pc_now pc)\<rparr>) (ar_objects ar)\<rparr>))) ar)"

section \<open>Tearing an asset down\<close>

text \<open>
  The statements in their order. A row that another row still references cannot be deleted (\<open>ON DELETE RESTRICT\<close>).
\<close>

definition clear_media_pointers :: "string \<Rightarrow> archive \<Rightarrow> archive" where
  "clear_media_pointers aid ar =
     ar\<lparr>ar_media := (ar_media ar)\<lparr>assets := sql_update (\<lambda>a. a_id a = aid)
        (\<lambda>a. a\<lparr>a_active := None, a_pending := None\<rparr>) (assets (ar_media ar))\<rparr>\<rparr>"

definition delete_outbox :: "string \<Rightarrow> archive \<Rightarrow> archive" where
  "delete_outbox aid ar =
     ar\<lparr>ar_media := (ar_media ar)\<lparr>outbox := sql_delete
        (\<lambda>x. sql_exists (\<lambda>j. j_asset j = aid \<and> j_id j = x_job x) (jobs (ar_media ar))) (outbox (ar_media ar))\<rparr>\<rparr>"

definition delete_media_jobs :: "string \<Rightarrow> archive \<Rightarrow> archive reply" where
  "delete_media_jobs aid ar =
     (let m = ar_media ar in
      if sql_exists (\<lambda>j. j_asset j = aid \<and> sql_exists (\<lambda>x. x_job x = j_id j) (outbox m)) (jobs m)
      then Inl ErrForeignKeyViolation
      else Inr (ar\<lparr>ar_media := m\<lparr>jobs := sql_delete (\<lambda>j. j_asset j = aid) (jobs m)\<rparr>\<rparr>))"

definition delete_outputs :: "string \<Rightarrow> archive \<Rightarrow> archive" where
  "delete_outputs aid ar =
     (let m = ar_media ar in
      ar\<lparr>ar_media := m\<lparr>outputs := sql_delete
        (\<lambda>q. sql_exists (\<lambda>v. v_asset v = aid \<and> v_id v = m_version q) (versions m)) (outputs m)\<rparr>\<rparr>)"

definition version_referenced :: "db \<Rightarrow> version_row \<Rightarrow> bool" where
  "version_referenced m v \<longleftrightarrow> sql_exists (\<lambda>q. m_version q = v_id v) (outputs m) \<or> sql_exists (\<lambda>j. j_version j = v_id v) (jobs m)
     \<or> sql_exists (\<lambda>a. a_active a = Some (v_id v) \<or> a_pending a = Some (v_id v)) (assets m)"

definition delete_versions :: "string \<Rightarrow> archive \<Rightarrow> archive reply" where
  "delete_versions aid ar =
     (let m = ar_media ar in
      if sql_exists (\<lambda>v. v_asset v = aid \<and> version_referenced m v) (versions m) then Inl ErrForeignKeyViolation
      else Inr (ar\<lparr>ar_media := m\<lparr>versions := sql_delete (\<lambda>v. v_asset v = aid) (versions m)\<rparr>\<rparr>))"

definition delete_sessions :: "string \<Rightarrow> archive \<Rightarrow> archive reply" where
  "delete_sessions aid ar =
     (let m = ar_media ar in
      if sql_exists (\<lambda>s. s_asset s = aid \<and> sql_exists (\<lambda>v. v_upload v = s_id s) (versions m)) (sessions m)
      then Inl ErrForeignKeyViolation
      else Inr (ar\<lparr>ar_media := m\<lparr>sessions := sql_delete (\<lambda>s. s_asset s = aid) (sessions m)\<rparr>\<rparr>))"

definition asset_referenced :: "db \<Rightarrow> string \<Rightarrow> bool" where
  "asset_referenced m aid \<longleftrightarrow> sql_exists (\<lambda>s. s_asset s = aid) (sessions m) \<or> sql_exists (\<lambda>v. v_asset v = aid) (versions m)
     \<or> sql_exists (\<lambda>j. j_asset j = aid) (jobs m)"

definition purged_item :: "string \<Rightarrow> string \<Rightarrow> item \<Rightarrow> bool" where
  "purged_item unit aid x \<longleftrightarrow> it_id x = aid \<and> it_unit x = Some unit \<and> \<not> item_active x"

definition delete_item :: "string \<Rightarrow> string \<Rightarrow> archive \<Rightarrow> archive reply" where
  "delete_item unit aid ar =
     (if \<not> sql_exists (purged_item unit aid) (c_items (ar_catalog ar)) then Inr ar
      else if asset_referenced (ar_media ar) aid then Inl ErrForeignKeyViolation
      else and_then (on_items (sql_delete (purged_item unit aid)) (ar_catalog ar)) (\<lambda>d.
           Inr (ar\<lparr>ar_catalog := d, ar_media := (ar_media ar)\<lparr>assets := sql_delete (\<lambda>a. a_id a = aid) (assets (ar_media ar))\<rparr>\<rparr>)))"

definition teardown :: "string \<Rightarrow> string \<Rightarrow> archive \<Rightarrow> archive reply" where
  "teardown unit aid ar =
     and_then (delete_media_jobs aid (delete_outbox aid (clear_media_pointers aid ar))) (\<lambda>ar1.
     and_then (delete_versions aid (delete_outputs aid ar1)) (\<lambda>ar2.
     and_then (delete_sessions aid ar2) (delete_item unit aid)))"

definition asset_stored :: "string \<Rightarrow> db \<Rightarrow> int" where
  "asset_stored aid m = sql_sum (\<lambda>v. if v_asset v = aid \<and> v_raw_retained v then v_size v else 0) (versions m)"

definition asset_reserved :: "string \<Rightarrow> string \<Rightarrow> db \<Rightarrow> int" where
  "asset_reserved org aid m =
     sql_sum (\<lambda>s. if s_org s = org \<and> s_asset s = aid \<and> s_state s = UploadSessionCreated then s_size s else 0) (sessions m)"

definition release_quota :: "string \<Rightarrow> int \<Rightarrow> int \<Rightarrow> archive \<Rightarrow> archive reply" where
  "release_quota org stored reserved ar =
     (if 0 < stored \<or> 0 < reserved
      then map_error (\<lambda>_. ErrCheckViolation)
             (map_sum id (\<lambda>m. ar\<lparr>ar_media := m\<rparr>)
                (update_usage (\<lambda>u. us_org u = org)
                   (\<lambda>u. u\<lparr>us_stored := max (us_stored u - stored) 0, us_reserved := max (us_reserved u - reserved) 0\<rparr>)
                   (ar_media ar)))
      else Inr ar)"

definition finalize_asset_work :: "purge_call \<Rightarrow> string \<Rightarrow> string \<Rightarrow> string \<Rightarrow> archive \<Rightarrow> (unit \<times> archive) reply" where
  "finalize_asset_work pc jid worker aid ar =
     and_then (lockRunningPurgeJob (pc_now pc) jid worker (ar_catalog ar)) (\<lambda>(j, u).
     if sql_exists (pending_object (lj_id j) aid) (ar_objects ar)
     then Inl (ErrMessage ''asset still has purge objects'')
     else
       let stored = asset_stored aid (ar_media ar); reserved = asset_reserved (lj_org j) aid (ar_media ar) in
       if (0 < stored \<or> 0 < reserved) \<and> \<not> sql_exists (\<lambda>u. us_org u = lj_org j) (usage (ar_media ar))
       then Inl (ErrMessage ''media quota ledger is missing'')
       else and_then (teardown (lu_id u) aid ar) (\<lambda>ar1.
            and_then (release_quota (lj_org j) stored reserved ar1) (\<lambda>ar2. Inr ((), ar2))))"

definition FinalizeLifecyclePurgeAsset ::
  "purge_call \<Rightarrow> string \<Rightarrow> string \<Rightarrow> string \<Rightarrow> archive \<Rightarrow> unit reply \<times> archive" where
  "FinalizeLifecyclePurgeAsset pc jid worker aid = transaction (finalize_asset_work pc jid worker aid)"

section \<open>Folders and the end of the job\<close>

definition purgeable_leaf :: "lifecycle_job \<Rightarrow> unit_row \<Rightarrow> catalog \<Rightarrow> folder \<Rightarrow> bool" where
  "purgeable_leaf j u d f \<longleftrightarrow> fd_org f = lj_org j \<and> fd_unit f = Some (lu_id u) \<and> \<not> folder_active f
     \<and> below (fd_path f) (lu_path u)
     \<and> \<not> sql_exists (\<lambda>x. it_folder x = fd_id f) (c_items d)
     \<and> \<not> sql_exists (\<lambda>c. fd_org c = fd_org f \<and> fd_unit c = fd_unit f \<and> fd_id c \<noteq> fd_id f \<and> below (fd_path c) (fd_path f))
          (c_folders d)"

definition next_leaf :: "purge_call \<Rightarrow> lifecycle_job \<Rightarrow> unit_row \<Rightarrow> catalog \<Rightarrow> folder option" where
  "next_leaf pc j u d =
     (case rev (order_by (\<lambda>f. (length (fd_path f), fd_path f))
        (filter (\<lambda>f. purgeable_leaf j u d f \<and> fd_id f \<notin> set (pc_locked_folders pc)) (c_folders d))) of
        [] \<Rightarrow> None | f # _ \<Rightarrow> Some f)"

definition delete_folder :: "string \<Rightarrow> string \<Rightarrow> string \<Rightarrow> archive \<Rightarrow> archive reply" where
  "delete_folder fid org unit ar =
     and_then (on_folders (sql_delete (\<lambda>f. fd_id f = fid \<and> fd_org f = org \<and> fd_unit f = Some unit \<and> \<not> folder_active f))
                 (ar_catalog ar)) (\<lambda>d.
     Inr (ar\<lparr>ar_catalog := d, ar_media := (ar_media ar)\<lparr>folders := sql_delete (\<lambda>f. f_id f = fid) (folders (ar_media ar))\<rparr>\<rparr>))"

definition remaining_items :: "lifecycle_job \<Rightarrow> unit_row \<Rightarrow> catalog \<Rightarrow> nat" where
  "remaining_items j u d =
     rows_affected (\<lambda>x. item_below d (lj_org j) (lu_path u) x \<and> it_unit x = Some (lu_id u) \<and> \<not> item_active x) (c_items d)"

definition finalize_job_work :: "purge_call \<Rightarrow> string \<Rightarrow> string \<Rightarrow> archive \<Rightarrow> (bool \<times> archive) reply" where
  "finalize_job_work pc jid worker ar =
     and_then (lockRunningPurgeJob (pc_now pc) jid worker (ar_catalog ar)) (\<lambda>(j, u).
     case next_leaf pc j u (ar_catalog ar) of
       Some f \<Rightarrow> and_then (delete_folder (fd_id f) (lj_org j) (lu_id u) ar) (\<lambda>ar1. Inr (False, ar1))
     | None \<Rightarrow>
         if remaining_items j u (ar_catalog ar) \<noteq> 0
         then Inl (ErrMessage ''purge job has metadata rows without a selectable root'')
         else
           and_then (save_job (j\<lparr>lj_status := LifecycleJobSucceeded, lj_lease_owner := None, lj_lease_expires := None,
                       lj_completed_at := Some (pc_done pc)\<rparr>) (ar_catalog ar)) (\<lambda>d1.
           and_then (set_unit_state (\<lambda>r. lu_id r = lu_id u \<and> lu_state r = LifecyclePurging) LifecyclePurged d1) (\<lambda>d2.
           Inr (True, ar\<lparr>ar_catalog := d2\<rparr>))))"

definition FinalizeLifecyclePurgeJob :: "purge_call \<Rightarrow> string \<Rightarrow> string \<Rightarrow> archive \<Rightarrow> bool reply \<times> archive" where
  "FinalizeLifecyclePurgeJob pc jid worker = transaction (finalize_job_work pc jid worker)"

section \<open>The purger\<close>

record 's purge_world =
  pw_archive :: archive
  pw_store :: 's

text \<open>
  What surrounds round \<open>i\<close>: whether its context is cancelled at the loop head and why, whether the keeper has lost the
  lease by the end of the round, the clock readings of its three calls, which of them the database cannot complete
  (a lost connection or a cancelled context), and what other processes do before each of its steps. The keeper itself,
  which calls \<open>RenewLifecyclePurgeLease\<close> at every tick, is one of those processes.
\<close>

datatype purge_cause = LeaseLost | Cancelled

record 's purge_round =
  pr_cancelled :: "purge_cause option"
  pr_lost :: bool
  pr_call :: "nat \<Rightarrow> purge_call"
  pr_fails :: "nat \<Rightarrow> bool"
  pr_between :: "nat \<Rightarrow> 's purge_world \<Rightarrow> 's purge_world"

definition ErrLifecyclePurgeLeaseLost :: catalog_error where
  "ErrLifecyclePurgeLeaseLost = ErrMessage ''lifecycle purge job lease was lost''"

definition lifecyclePurgeContextError :: "'s purge_round \<Rightarrow> unit reply" where
  "lifecyclePurgeContextError r =
     (case pr_cancelled r of
        None \<Rightarrow> Inr () | Some LeaseLost \<Rightarrow> Inl ErrLifecyclePurgeLeaseLost | Some Cancelled \<Rightarrow> Inl (ErrMessage ''context canceled''))"

definition lifecyclePurgeResult :: "'s purge_round \<Rightarrow> 'a reply \<Rightarrow> 'a reply" where
  "lifecyclePurgeResult r res = (if pr_lost r then Inl ErrLifecyclePurgeLeaseLost else res)"

definition archive_call :: "'s purge_round \<Rightarrow> nat \<Rightarrow> (archive \<Rightarrow> 'a reply \<times> archive) \<Rightarrow> 's purge_world \<Rightarrow> 'a reply \<times> 's purge_world" where
  "archive_call r n f w =
     (let w1 = pr_between r n w in
      if pr_fails r n then (Inl (ErrMessage ''database call failed''), w1)
      else case f (pw_archive w1) of (x, ar) \<Rightarrow> (x, w1\<lparr>pw_archive := ar\<rparr>))"

definition purge_asset_step ::
  "'s object_store \<Rightarrow> 's purge_round \<Rightarrow> string \<Rightarrow> purge_asset \<Rightarrow> 's purge_world \<Rightarrow> bool reply \<times> 's purge_world" where
  "purge_asset_step st r worker a w =
     (let w1 = pr_between r 1 w in
      case delete_keys st (pa_keys a) (pw_store w1) of
        (Inl _, s) \<Rightarrow> (lifecyclePurgeResult r (Inl (ErrMessage ''delete purge object'')), w1\<lparr>pw_store := s\<rparr>)
      | (Inr _, s) \<Rightarrow>
          (case archive_call r 2 (MarkLifecyclePurgeObjectsDeleted (pr_call r 2) (pa_job a) worker (pa_asset a) (pa_keys a))
                  (w1\<lparr>pw_store := s\<rparr>) of
             (Inl e, w2) \<Rightarrow> (lifecyclePurgeResult r (Inl e), w2)
           | (Inr _, w2) \<Rightarrow>
               (case archive_call r 3 (FinalizeLifecyclePurgeAsset (pr_call r 3) (pa_job a) worker (pa_asset a)) w2 of
                  (Inl e, w3) \<Rightarrow> (lifecyclePurgeResult r (Inl e), w3)
                | (Inr _, w3) \<Rightarrow> (Inr False, w3))))"

definition purge_round_step ::
  "'s object_store \<Rightarrow> (nat \<Rightarrow> 's purge_round) \<Rightarrow> string \<Rightarrow> string \<Rightarrow> nat \<Rightarrow> 's purge_world \<Rightarrow> bool reply \<times> 's purge_world" where
  "purge_round_step st env jid worker i w =
     (let r = env i in
      case lifecyclePurgeContextError r of
        Inl e \<Rightarrow> (Inl e, w)
      | Inr _ \<Rightarrow>
          (case archive_call r 0 (NextLifecyclePurgeAsset (pr_call r 0) jid worker) w of
             (Inl e, w1) \<Rightarrow> (lifecyclePurgeResult r (Inl e), w1)
           | (Inr (Some a), w1) \<Rightarrow> purge_asset_step st r worker a w1
           | (Inr None, w1) \<Rightarrow>
               (case archive_call r 4 (FinalizeLifecyclePurgeJob (pr_call r 4) jid worker) w1 of
                  (Inl e, w2) \<Rightarrow> (lifecyclePurgeResult r (Inl e), w2)
                | (Inr fin, w2) \<Rightarrow> if fin then (lifecyclePurgeResult r (Inr True), w2) else (Inr False, w2))))"

definition purger_Process ::
  "'s object_store \<Rightarrow> (nat \<Rightarrow> 's purge_round) \<Rightarrow> string \<Rightarrow> string \<Rightarrow> 's purge_world \<Rightarrow> (unit reply \<times> 's purge_world) option" where
  "purger_Process st env jid worker = run_batches (purge_round_step st env jid worker) 0"

section \<open>The step of the worker\<close>

definition on_catalog :: "(catalog \<Rightarrow> 'a \<times> catalog) \<Rightarrow> 's purge_world \<Rightarrow> 'a \<times> 's purge_world" where
  "on_catalog f w =
     (case f (ar_catalog (pw_archive w)) of (x, d) \<Rightarrow> (x, w\<lparr>pw_archive := (pw_archive w)\<lparr>ar_catalog := d\<rparr>\<rparr>))"

text \<open>One tick of the keeper of the lease, which runs beside the rounds; a failed renewal ends the run as a lost lease.\<close>

definition keeper_tick :: "instant \<Rightarrow> string \<Rightarrow> string \<Rightarrow> instant \<Rightarrow> 's purge_world \<Rightarrow> 's purge_world" where
  "keeper_tick now jid worker expected w = snd (on_catalog (RenewLifecyclePurgeLease now jid worker expected) w)"

record 's worker_env =
  we_now :: instant
  we_unit :: string
  we_job :: string
  we_tnow :: instant
  we_fail_now :: instant
  we_denv :: "nat \<Rightarrow> batch_env"
  we_renv :: "nat \<Rightarrow> restore_env"
  we_others :: "nat \<Rightarrow> catalog \<Rightarrow> catalog"
  we_penv :: "nat \<Rightarrow> 's purge_round"

text \<open>
  One poll of the worker; \<open>None\<close> is a poll that never ends. A job whose run failed is settled by \<open>FailLifecycleJob\<close>,
  unless its lease was lost, when another worker owns it. Errors are only logged.
\<close>

definition run_claimed ::
  "'s object_store \<Rightarrow> 's worker_env \<Rightarrow> string \<Rightarrow> lifecycle_job \<Rightarrow> 's purge_world \<Rightarrow> (unit reply \<times> 's purge_world) option" where
  "run_claimed st e worker j w =
     (if lj_operation j = LifecycleJobPurge
      then if lj_lease_expires j = None
           then Some (Inl (ErrMessage ''purge lifecycle job was claimed without a lease expiry''), w)
           else purger_Process st (we_penv e) (lj_id j) worker w
      else (case ProcessLifecycleJob (we_denv e) (we_renv e) (we_others e) (lj_id j) worker (ar_catalog (pw_archive w)) of
              None \<Rightarrow> None
            | Some (r, d) \<Rightarrow> Some (r, w\<lparr>pw_archive := (pw_archive w)\<lparr>ar_catalog := d\<rparr>\<rparr>)))"

definition processNext :: "'s object_store \<Rightarrow> 's worker_env \<Rightarrow> string \<Rightarrow> 's purge_world \<Rightarrow> 's purge_world option" where
  "processNext st e worker w =
     (case on_catalog (ClaimNextLifecycleJob (we_now e) (we_unit e) (we_job e) (we_tnow e) worker) w of
        (Inl _, w1) \<Rightarrow> Some w1
      | (Inr None, w1) \<Rightarrow> Some w1
      | (Inr (Some j), w1) \<Rightarrow>
          (case run_claimed st e worker j w1 of
             None \<Rightarrow> None
           | Some (Inr _, w2) \<Rightarrow> Some w2
           | Some (Inl err, w2) \<Rightarrow>
               if err = ErrLifecyclePurgeLeaseLost then Some w2
               else Some (snd (on_catalog (FailLifecycleJob (we_fail_now e) (lj_id j) worker) w2))))"

end
