(* ===== verification/Lifecycle_Cleanup.thy ===== *)
theory Lifecycle_Cleanup
  imports Lifecycle_Purge
begin

text \<open>
  Retention: the daily scheduler (\<open>cmd/asset-retention-scheduler\<close>,
  \<open>internal/repository/lifecycle_cleanup_scheduler_repository.go\<close>) that records one cleanup run per calendar date,
  and the batches of such a run (\<open>lifecycle_cleanup_worker_repository.go\<close>) that queue a purge job for every recycle
  bin entry past its retention.
\<close>

section \<open>Tables\<close>

record scheduler_lease =
  sl_name :: string
  sl_owner :: "string option"
  sl_expires :: "instant option"

datatype cleanup_status = LifecycleCleanupRunQueued | LifecycleCleanupRunRunning | LifecycleCleanupRunSucceeded
  | LifecycleCleanupRunFailed

record cleanup_checkpoint =
  cc_last_org :: string
  cc_last_unit :: string
  cc_queued :: nat

text \<open>A date is kept as its ISO text, which orders as the dates do.\<close>

record cleanup_run =
  rn_id :: string
  rn_scheduler :: string
  rn_date :: string
  rn_timezone :: string
  rn_status :: cleanup_status
  rn_checkpoint :: "cleanup_checkpoint option"
  rn_failure_code :: "string option"
  rn_started_at :: "instant option"
  rn_completed_at :: "instant option"
  rn_created_at :: instant

record retention =
  rt_leases :: "scheduler_lease list"
  rt_runs :: "cleanup_run list"
  rt_catalog :: catalog

section \<open>The daily run\<close>

record acquire_result =
  aq_run :: "cleanup_run option"
  aq_lease_acquired :: bool
  aq_created :: bool

definition lifecycleCleanupSchedulerLeaseSeconds :: duration where
  "lifecycleCleanupSchedulerLeaseSeconds = 120 * second"

definition free_lease :: "instant \<Rightarrow> string \<Rightarrow> string \<Rightarrow> scheduler_lease \<Rightarrow> bool" where
  "free_lease now name worker l \<longleftrightarrow> sl_name l = name
     \<and> (sl_owner l = None \<or> (case sl_expires l of None \<Rightarrow> False | Some t \<Rightarrow> t \<le> now) \<or> sl_owner l = Some worker)"

definition ensure_lease :: "string \<Rightarrow> scheduler_lease list \<Rightarrow> scheduler_lease list" where
  "ensure_lease name ls =
     (if sql_exists (\<lambda>l. sl_name l = name) ls then ls else ls @ [\<lparr>sl_name = name, sl_owner = None, sl_expires = None\<rparr>])"

definition queued_run :: "string \<Rightarrow> string \<Rightarrow> string \<Rightarrow> string \<Rightarrow> instant \<Rightarrow> cleanup_run" where
  "queued_run rid name date tz tnow =
     \<lparr>rn_id = rid, rn_scheduler = name, rn_date = date, rn_timezone = tz, rn_status = LifecycleCleanupRunQueued,
      rn_checkpoint = None, rn_failure_code = None, rn_started_at = None, rn_completed_at = None, rn_created_at = tnow\<rparr>"

definition day_run :: "string \<Rightarrow> string \<Rightarrow> cleanup_run \<Rightarrow> bool" where
  "day_run name date r \<longleftrightarrow> rn_scheduler r = name \<and> rn_date r = date"

definition no_lease :: acquire_result where
  "no_lease = \<lparr>aq_run = None, aq_lease_acquired = False, aq_created = False\<rparr>"

text \<open>\<open>rid\<close> is the identifier that the database draws for a new run, \<open>tnow\<close> the start of its transaction.\<close>

definition acquire_work ::
  "string \<Rightarrow> instant \<Rightarrow> instant \<Rightarrow> string \<Rightarrow> string \<Rightarrow> string \<Rightarrow> string \<Rightarrow> retention \<Rightarrow> (acquire_result \<times> retention) reply" where
  "acquire_work rid tnow now name worker date tz rt =
     (if \<not> varchar 64 name then Inl ErrCheckViolation
      else
        let ls = ensure_lease name (rt_leases rt) in
        if \<not> sql_exists (free_lease now name worker) ls then Inr (no_lease, rt\<lparr>rt_leases := ls\<rparr>)
        else
          let ls1 = sql_update (free_lease now name worker)
                (\<lambda>l. l\<lparr>sl_owner := Some worker, sl_expires := Some (now + lifecycleCleanupSchedulerLeaseSeconds)\<rparr>) ls in
          if \<not> varchar 64 tz then Inl ErrCheckViolation
          else
            (case find (day_run name date) (rt_runs rt) of
               None \<Rightarrow> let r = queued_run rid name date tz tnow in
                 Inr (\<lparr>aq_run = Some r, aq_lease_acquired = True, aq_created = True\<rparr>,
                      rt\<lparr>rt_leases := ls1, rt_runs := rt_runs rt @ [r]\<rparr>)
             | Some r \<Rightarrow> Inr (\<lparr>aq_run = Some r, aq_lease_acquired = True, aq_created = False\<rparr>, rt\<lparr>rt_leases := ls1\<rparr>)))"

text \<open>\<open>runDate\<close> is given with its date in its own location.\<close>

definition AcquireDailyCleanupRun ::
  "string \<Rightarrow> instant \<Rightarrow> instant \<Rightarrow> string \<Rightarrow> string \<Rightarrow> instant \<Rightarrow> string \<Rightarrow> string \<Rightarrow> retention
   \<Rightarrow> acquire_result reply \<times> retention" where
  "AcquireDailyCleanupRun rid tnow now name worker runDate date tz rt =
     (if trim_space name = [] then (Inl (ErrMessage ''lifecycle cleanup scheduler name is required''), rt)
      else if trim_space worker = [] then (Inl (ErrMessage ''lifecycle cleanup scheduler worker ID is required''), rt)
      else if is_zero_time runDate then (Inl (ErrMessage ''lifecycle cleanup run date is required''), rt)
      else if trim_space tz = [] then (Inl (ErrMessage ''lifecycle cleanup timezone is required''), rt)
      else transaction (acquire_work rid tnow now name worker date tz) rt)"

section \<open>The scheduler process\<close>

text \<open>The civil time of an instant in the configured location, from the time zone data of the standard library.\<close>

record civil_time =
  ct_date :: string
  ct_hour :: int

definition retentionSchedulerName :: string where "retentionSchedulerName = ''daily-retention-cleanup''"
definition retentionSchedulerHour :: int where "retentionSchedulerHour = 2"

definition getenv :: "(string \<Rightarrow> string) \<Rightarrow> string \<Rightarrow> string \<Rightarrow> string" where
  "getenv env key fallback = (if env key \<noteq> [] then env key else fallback)"

definition retentionCleanupLocationFromEnv :: "(string \<Rightarrow> 'l option) \<Rightarrow> (string \<Rightarrow> string) \<Rightarrow> 'l reply" where
  "retentionCleanupLocationFromEnv loadLocation env =
     from_option (ErrMessage ''load asset retention cleanup timezone'')
       (loadLocation (trim_space (getenv env ''ASSET_RETENTION_CLEANUP_TIMEZONE'' ''Asia/Bangkok'')))"

definition retentionSchedulerWorkerID :: "(string \<Rightarrow> string) \<Rightarrow> string \<Rightarrow> string" where
  "retentionSchedulerWorkerID env pid =
     (let workerID = trim_space (env ''ASSET_RETENTION_SCHEDULER_ID'') in
      if workerID \<noteq> [] then workerID
      else
        let host = trim_space (env ''HOSTNAME'') in
        ''asset-retention-scheduler-'' @ (if host = [] then ''unknown-host'' else host) @ ''-'' @ pid)"

definition runRetentionCleanupTick ::
  "(instant \<Rightarrow> civil_time) \<Rightarrow> string \<Rightarrow> string \<Rightarrow> instant \<Rightarrow> instant \<Rightarrow> string \<Rightarrow> instant \<Rightarrow> retention \<Rightarrow> (acquire_result reply \<times> bool) \<times> retention" where
  "runRetentionCleanupTick local location rid tnow dbnow worker now rt =
     (if ct_hour (local now) \<noteq> retentionSchedulerHour then ((Inr no_lease, False), rt)
      else case AcquireDailyCleanupRun rid tnow dbnow retentionSchedulerName worker now (ct_date (local now)) location rt of
             (r, rt') \<Rightarrow> ((r, True), rt'))"

section \<open>A batch of purge jobs\<close>

definition lifecycleCleanupUnitBatchSize :: nat where "lifecycleCleanupUnitBatchSize = 100"

text \<open>The clock readings, new identifiers and locked rows of one call.\<close>

record cleanup_env =
  ce_now :: instant
  ce_tnow :: instant
  ce_pick :: instant
  ce_list :: instant
  ce_ids :: "nat \<Rightarrow> string"
  ce_locked_runs :: "string list"
  ce_locked_units :: "string list"

record cleanup_result =
  cl_run :: string
  cl_queued :: nat
  cl_completed :: bool

definition dependent_unit :: "unit_row \<Rightarrow> unit_row \<Rightarrow> bool" where
  "dependent_unit u v \<longleftrightarrow> lu_org v = lu_org u \<and> lu_id v \<noteq> lu_id u \<and> lu_state v \<notin> {LifecycleRestored, LifecyclePurged}
     \<and> below (lu_path v) (lu_path u)"

definition cleanup_eligible :: "instant \<Rightarrow> catalog \<Rightarrow> unit_row \<Rightarrow> bool" where
  "cleanup_eligible now d u \<longleftrightarrow> lu_state u = LifecycleDeleted
     \<and> (case lu_retention_until u of None \<Rightarrow> False | Some t \<Rightarrow> t \<le> now)
     \<and> (lu_type u = LifecycleResourceMetadata \<or> \<not> sql_exists (dependent_unit u) (c_units d))"

definition retention_of :: "unit_row \<Rightarrow> instant" where
  "retention_of u = (case lu_retention_until u of None \<Rightarrow> 0 | Some t \<Rightarrow> t)"

definition next_cleanup_run :: "cleanup_env \<Rightarrow> cleanup_run list \<Rightarrow> cleanup_run option" where
  "next_cleanup_run e rs =
     first_row (\<lambda>r. (rn_date r, rn_created_at r, rn_id r))
       (\<lambda>r. rn_status r \<in> {LifecycleCleanupRunQueued, LifecycleCleanupRunRunning} \<and> rn_id r \<notin> set (ce_locked_runs e)) rs"

definition purge_job :: "string \<Rightarrow> instant \<Rightarrow> instant \<Rightarrow> string \<Rightarrow> unit_row \<Rightarrow> lifecycle_job" where
  "purge_job jid now tnow rootFolder u =
     \<lparr>lj_id = jid, lj_org = lu_org u, lj_unit = Some (lu_id u), lj_legacy = None, lj_type = lu_type u, lj_root = lu_root u,
      lj_root_folder = rootFolder, lj_path = lu_path u, lj_initiator = LifecycleJobInitiatorSystem,
      lj_requested_by = None, lj_operation = LifecycleJobPurge, lj_status = LifecycleJobQueued,
      lj_checkpoint = empty_checkpoint, lj_attempts = 0, lj_next_run = Some now, lj_lease_owner = None,
      lj_lease_expires = None, lj_failure_code = None, lj_queued_at = Some now, lj_started_at = None,
      lj_completed_at = None, lj_created_at = tnow\<rparr>"

definition queue_purge :: "cleanup_env \<Rightarrow> string \<Rightarrow> unit_row \<Rightarrow> catalog \<Rightarrow> catalog reply" where
  "queue_purge e jid u d =
     and_then (if lu_type u = LifecycleResourceMetadata
               then from_option (ErrMessage ''metadata lifecycle unit has no original folder'') (lu_folder u)
               else Inr (lu_root u)) (\<lambda>rootFolder.
     and_then (on_jobs (\<lambda>js. js @ [purge_job jid (ce_now e) (ce_tnow e) rootFolder u]) d)
       (set_unit_state (\<lambda>r. lu_id r = lu_id u \<and> lu_org r = lu_org u \<and> lu_state r = LifecycleDeleted) LifecyclePurgeQueued))"

fun queue_purges :: "cleanup_env \<Rightarrow> nat \<Rightarrow> unit_row list \<Rightarrow> catalog \<Rightarrow> catalog reply" where
  "queue_purges e n [] d = Inr d"
| "queue_purges e n (u # us) d = and_then (queue_purge e (ce_ids e n) u d) (queue_purges e (Suc n) us)"

definition cleanup_units :: "cleanup_env \<Rightarrow> string \<Rightarrow> catalog \<Rightarrow> unit_row list" where
  "cleanup_units e org d =
     take lifecycleCleanupUnitBatchSize (order_by (\<lambda>u. (retention_of u, lu_id u))
       (filter (\<lambda>u. lu_org u = org \<and> cleanup_eligible (ce_list e) d u \<and> lu_id u \<notin> set (ce_locked_units e)) (c_units d)))"

definition save_run :: "cleanup_run \<Rightarrow> cleanup_run list \<Rightarrow> cleanup_run list" where
  "save_run r = sql_update (\<lambda>x. rn_id x = rn_id r) (\<lambda>_. r)"

definition started_run :: "cleanup_env \<Rightarrow> cleanup_run \<Rightarrow> cleanup_run" where
  "started_run e r =
     (if rn_status r = LifecycleCleanupRunQueued
      then r\<lparr>rn_status := LifecycleCleanupRunRunning, rn_started_at := Some (ce_now e)\<rparr> else r)"

definition cleanup_work :: "cleanup_env \<Rightarrow> retention \<Rightarrow> (cleanup_result option \<times> retention) reply" where
  "cleanup_work e rt =
     (case next_cleanup_run e (rt_runs rt) of
        None \<Rightarrow> Inr (None, rt)
      | Some r0 \<Rightarrow>
          let r = started_run e r0; d = rt_catalog rt in
          (case first_row (\<lambda>u. (retention_of u, lu_org u, lu_id u)) (cleanup_eligible (ce_pick e) d) (c_units d) of
             None \<Rightarrow>
               let r1 = r\<lparr>rn_status := LifecycleCleanupRunSucceeded, rn_completed_at := Some (ce_now e)\<rparr> in
               Inr (Some \<lparr>cl_run = rn_id r1, cl_queued = 0, cl_completed = True\<rparr>, rt\<lparr>rt_runs := save_run r1 (rt_runs rt)\<rparr>)
           | Some u0 \<Rightarrow>
               let org = lu_org u0; us = cleanup_units e org d in
               if us = [] then Inl (ErrMessage ''eligible lifecycle cleanup organization had no lockable roots'')
               else
                 and_then (queue_purges e 0 us d) (\<lambda>d1.
                 let r1 = r\<lparr>rn_checkpoint := Some \<lparr>cc_last_org = org, cc_last_unit = lu_id (last us), cc_queued = length us\<rparr>,
                            rn_status := LifecycleCleanupRunRunning\<rparr> in
                 Inr (Some \<lparr>cl_run = rn_id r1, cl_queued = length us, cl_completed = False\<rparr>,
                      rt\<lparr>rt_runs := save_run r1 (rt_runs rt), rt_catalog := d1\<rparr>))))"

definition ProcessNextLifecycleCleanupBatch :: "cleanup_env \<Rightarrow> retention \<Rightarrow> cleanup_result option reply \<times> retention" where
  "ProcessNextLifecycleCleanupBatch e = transaction (cleanup_work e)"

section \<open>The loop of the worker process\<close>

record 's worker_world =
  ww_leases :: "scheduler_lease list"
  ww_runs :: "cleanup_run list"
  ww_purge :: "'s purge_world"

definition on_retention :: "(retention \<Rightarrow> 'a \<times> retention) \<Rightarrow> 's worker_world \<Rightarrow> 'a \<times> 's worker_world" where
  "on_retention f w =
     (let p = ww_purge w in
      case f \<lparr>rt_leases = ww_leases w, rt_runs = ww_runs w, rt_catalog = ar_catalog (pw_archive p)\<rparr> of
        (x, rt) \<Rightarrow> (x, \<lparr>ww_leases = rt_leases rt, ww_runs = rt_runs rt,
          ww_purge = p\<lparr>pw_archive := (pw_archive p)\<lparr>ar_catalog := rt_catalog rt\<rparr>\<rparr>\<rparr>))"

text \<open>One turn: a cleanup batch, whose error is only logged, and then one lifecycle job.\<close>

definition processNextRetentionCleanup :: "cleanup_env \<Rightarrow> 's worker_world \<Rightarrow> 's worker_world" where
  "processNextRetentionCleanup e w = snd (on_retention (ProcessNextLifecycleCleanupBatch e) w)"

definition worker_turn ::
  "'s object_store \<Rightarrow> cleanup_env \<Rightarrow> 's worker_env \<Rightarrow> string \<Rightarrow> 's worker_world \<Rightarrow> 's worker_world option" where
  "worker_turn st ce e worker w =
     (let w1 = processNextRetentionCleanup ce w in
      map_option (\<lambda>p. w1\<lparr>ww_purge := p\<rparr>) (processNext st e worker (ww_purge w1)))"

end
