(* ===== verification/Purge_Run.thy ===== *)
theory Purge_Run
  imports Lifecycle_Purge Folder_Tree
begin

text \<open>
  What a purge guarantees: the media ledger stays exact when an asset is torn down, and no row that names a stored
  object disappears before the object does.
\<close>

section \<open>What a teardown removes\<close>

lemma sql_delete_filter: "sql_delete c rs = filter (\<lambda>r. \<not> c r) rs"
  by (simp add: sql_delete_def)

lemma teardown_Inr:
  assumes "teardown unit aid ar = Inr ar'"
  shows "versions (ar_media ar') = sql_delete (\<lambda>v. v_asset v = aid) (versions (ar_media ar))"
    "sessions (ar_media ar') = sql_delete (\<lambda>s. s_asset s = aid) (sessions (ar_media ar))"
    "jobs (ar_media ar') = sql_delete (\<lambda>j. j_asset j = aid) (jobs (ar_media ar))"
    "outputs (ar_media ar') = sql_delete (\<lambda>q. sql_exists (\<lambda>v. v_asset v = aid \<and> v_id v = m_version q)
        (versions (ar_media ar))) (outputs (ar_media ar))"
    "outbox (ar_media ar') = sql_delete (\<lambda>x. sql_exists (\<lambda>j. j_asset j = aid \<and> j_id j = x_job x) (jobs (ar_media ar)))
        (outbox (ar_media ar))"
    "usage (ar_media ar') = usage (ar_media ar)" "folders (ar_media ar') = folders (ar_media ar)"
    "\<exists>keep. map a_id (assets (ar_media ar')) = filter keep (map a_id (assets (ar_media ar)))"
    "ar_objects ar' = ar_objects ar"
    "ar_catalog ar' = ar_catalog ar \<or> catalog_ok (ar_catalog ar') \<and>
       ar_catalog ar' = (ar_catalog ar)\<lparr>c_items := sql_delete (purged_item unit aid) (c_items (ar_catalog ar))\<rparr>"
proof -
  have keep: "\<exists>keep. map a_id (assets m) = filter keep (map a_id (assets m))" for m
    by (rule exI [of _ "\<lambda>_. True"]) simp
  have drop: "\<exists>keep. map a_id (sql_delete (\<lambda>a. a_id a = aid) rs) = filter keep (map a_id rs)" for rs
    by (rule exI [of _ "\<lambda>i. i \<noteq> aid"]) (simp add: sql_delete_def filter_map comp_def)
  note s = assms [unfolded teardown_def Let_def delete_media_jobs_def delete_versions_def delete_sessions_def delete_item_def]
  have ids: "map a_id (sql_update (\<lambda>a. a_id a = aid) (\<lambda>a. a\<lparr>a_active := None, a_pending := None\<rparr>) rs) = map a_id rs" for rs
    by (simp add: sql_update_def)
  show "\<exists>keep. map a_id (assets (ar_media ar')) = filter keep (map a_id (assets (ar_media ar)))"
  proof -
    have "assets (ar_media ar') = sql_update (\<lambda>a. a_id a = aid) (\<lambda>a. a\<lparr>a_active := None, a_pending := None\<rparr>) (assets (ar_media ar))
      \<or> assets (ar_media ar') = sql_delete (\<lambda>a. a_id a = aid)
          (sql_update (\<lambda>a. a_id a = aid) (\<lambda>a. a\<lparr>a_active := None, a_pending := None\<rparr>) (assets (ar_media ar)))"
      using s by (auto simp: clear_media_pointers_def delete_outbox_def delete_outputs_def Let_def split: if_splits)
    then show ?thesis using keep drop by (metis ids)
  qed
qed (use assms in \<open>auto simp: teardown_def delete_media_jobs_def delete_versions_def delete_sessions_def delete_item_def
    clear_media_pointers_def delete_outbox_def delete_outputs_def Let_def split: if_splits\<close>)

section \<open>The ledger\<close>

lemma sql_sum_delete:
  "sql_sum w (sql_delete c rs) = sql_sum w rs - sql_sum (\<lambda>r. if c r then w r else 0) rs"
  by (induction rs) (auto simp: sql_delete_def)

lemma no_conflict_delete: "no_conflict k rs \<Longrightarrow> no_conflict k (sql_delete c rs)"
  by (simp add: no_conflict_def sql_delete_def sorted_wrt_filter)

lemma list_all_delete: "list_all P rs \<Longrightarrow> list_all P (sql_delete c rs)"
  by (simp add: list_all_iff)

lemma teardown_tables_ok:
  assumes "tables_ok (ar_media ar)" "teardown unit aid ar = Inr ar'"
  shows "tables_ok (ar_media ar')"
proof -
  note t = teardown_Inr [OF assms(2)]
  obtain keep where "map a_id (assets (ar_media ar')) = filter keep (map a_id (assets (ar_media ar)))" using t(8) by blast
  then have "distinct (map a_id (assets (ar_media ar')))" using assms(1) by (simp add: tables_ok_def)
  then show ?thesis using assms(1)
    unfolding tables_ok_def t(1-5,7) by (simp add: no_conflict_delete list_all_delete)
qed

text \<open>Every media row of an asset belongs to the organization of the asset.\<close>

definition media_of_org :: "string \<Rightarrow> string \<Rightarrow> db \<Rightarrow> bool" where
  "media_of_org org aid m \<longleftrightarrow>
     (\<forall>v\<in>set (versions m). v_asset v = aid \<longrightarrow> v_org v = org) \<and> (\<forall>s\<in>set (sessions m). s_asset s = aid \<longrightarrow> s_org s = org)"

lemma totals_after:
  assumes "teardown unit aid ar = Inr ar'" "media_of_org org aid (ar_media ar)"
  shows "stored_total og (ar_media ar') = stored_total og (ar_media ar) - (if og = org then asset_stored aid (ar_media ar) else 0)"
    "reserved_total og (ar_media ar')
      = reserved_total og (ar_media ar) - (if og = org then asset_reserved org aid (ar_media ar) else 0)"
proof -
  have v: "sql_sum (\<lambda>v. if v_asset v = aid then stored_weight og v else 0) (versions (ar_media ar))
      = (if og = org then asset_stored aid (ar_media ar) else 0)"
  proof (cases "og = org")
    case True
    with assms(2) show ?thesis unfolding asset_stored_def media_of_org_def
      by (auto intro!: sql_sum_cong simp: stored_weight_def)
  next
    case False
    with assms(2) show ?thesis unfolding media_of_org_def by (auto intro!: sql_sum_0 simp: stored_weight_def)
  qed
  have s: "sql_sum (\<lambda>s. if s_asset s = aid then reserved_weight og s else 0) (sessions (ar_media ar))
      = (if og = org then asset_reserved org aid (ar_media ar) else 0)"
  proof (cases "og = org")
    case True
    with assms(2) show ?thesis unfolding asset_reserved_def media_of_org_def
      by (auto intro!: sql_sum_cong simp: reserved_weight_def)
  next
    case False
    with assms(2) show ?thesis unfolding media_of_org_def by (auto intro!: sql_sum_0 simp: reserved_weight_def)
  qed
  show "stored_total og (ar_media ar') = stored_total og (ar_media ar) - (if og = org then asset_stored aid (ar_media ar) else 0)"
    unfolding stored_total_def teardown_Inr(1) [OF assms(1)] sql_sum_delete v ..
  show "reserved_total og (ar_media ar')
      = reserved_total og (ar_media ar) - (if og = org then asset_reserved org aid (ar_media ar) else 0)"
    unfolding reserved_total_def teardown_Inr(2) [OF assms(1)] sql_sum_delete s ..
qed

lemma parts_nonneg:
  assumes "tables_ok m" "media_of_org org aid m"
  shows "0 \<le> asset_stored aid m" "asset_stored aid m \<le> stored_total org m"
    "0 \<le> asset_reserved org aid m" "asset_reserved org aid m \<le> reserved_total org m"
proof -
  have vs: "0 \<le> v_size v" if "v \<in> set (versions m)" for v
    using tables_ok_checks(2) [OF assms(1) that] by (simp add: version_check_def)
  have ss: "0 \<le> s_size s" if "s \<in> set (sessions m)" for s
    using tables_ok_checks(1) [OF assms(1) that] by (simp add: session_check_def)
  show "0 \<le> asset_stored aid m" "0 \<le> asset_reserved org aid m"
    unfolding asset_stored_def asset_reserved_def by (auto intro!: sql_sum_nonneg simp: vs ss)
  have "0 \<le> sql_sum (stored_weight org) (sql_delete (\<lambda>v. v_asset v = aid) (versions m))"
    by (rule sql_sum_nonneg) (auto simp: stored_weight_def vs)
  moreover have "sql_sum (\<lambda>v. if v_asset v = aid then stored_weight org v else 0) (versions m) = asset_stored aid m"
    using assms(2) unfolding asset_stored_def media_of_org_def by (auto intro!: sql_sum_cong simp: stored_weight_def)
  ultimately show "asset_stored aid m \<le> stored_total org m" by (simp add: sql_sum_delete stored_total_def)
  have "0 \<le> sql_sum (reserved_weight org) (sql_delete (\<lambda>s. s_asset s = aid) (sessions m))"
    by (rule sql_sum_nonneg) (auto simp: reserved_weight_def ss)
  moreover have "sql_sum (\<lambda>s. if s_asset s = aid then reserved_weight org s else 0) (sessions m) = asset_reserved org aid m"
    using assms(2) unfolding asset_reserved_def media_of_org_def by (auto intro!: sql_sum_cong simp: reserved_weight_def)
  ultimately show "asset_reserved org aid m \<le> reserved_total org m" by (simp add: sql_sum_delete reserved_total_def)
qed

lemma release_quota_Inr:
  assumes "release_quota org stored reserved ar = Inr ar'"
  shows "if 0 < stored \<or> 0 < reserved
    then ar' = ar\<lparr>ar_media := (ar_media ar)\<lparr>usage := sql_update (\<lambda>u. us_org u = org)
           (\<lambda>u. u\<lparr>us_stored := max (us_stored u - stored) 0, us_reserved := max (us_reserved u - reserved) 0\<rparr>) (usage (ar_media ar))\<rparr>\<rparr>
      \<and> (\<forall>u\<in>set (usage (ar_media ar)). us_org u = org \<longrightarrow>
           usage_check (u\<lparr>us_stored := max (us_stored u - stored) 0, us_reserved := max (us_reserved u - reserved) 0\<rparr>))
    else ar' = ar"
proof (cases "0 < stored \<or> 0 < reserved")
  case True
  let ?f = "\<lambda>u. u\<lparr>us_stored := max (us_stored u - stored) 0, us_reserved := max (us_reserved u - reserved) 0\<rparr>"
  from assms True obtain m where m: "update_usage (\<lambda>u. us_org u = org) ?f (ar_media ar) = Inr m" "ar' = ar\<lparr>ar_media := m\<rparr>"
    unfolding release_quota_def by (cases "update_usage (\<lambda>u. us_org u = org) ?f (ar_media ar)") auto
  with True update_usage_InrD [OF m(1)] show ?thesis by simp
qed (use assms in \<open>simp add: release_quota_def\<close>)

lemma finalize_asset_Inr:
  assumes "finalize_asset_work pc jid worker aid ar = Inr (v, ar')"
  obtains j u ar1 where "lockRunningPurgeJob (pc_now pc) jid worker (ar_catalog ar) = Inr (j, u)"
    "\<not> sql_exists (pending_object (lj_id j) aid) (ar_objects ar)" "teardown (lu_id u) aid ar = Inr ar1"
    "release_quota (lj_org j) (asset_stored aid (ar_media ar)) (asset_reserved (lj_org j) aid (ar_media ar)) ar1 = Inr ar'"
  using assms unfolding finalize_asset_work_def Let_def
  by (cases "lockRunningPurgeJob (pc_now pc) jid worker (ar_catalog ar)") (auto split: if_splits prod.splits)

lemma teardown_keeps_ledger:
  assumes "tables_ok (ar_media ar)" "ledger_ok (ar_media ar)" and org: "media_of_org og aid (ar_media ar)"
    and td: "teardown unit aid ar = Inr ar1"
    and rel: "release_quota og (asset_stored aid (ar_media ar)) (asset_reserved og aid (ar_media ar)) ar1 = Inr ar'"
  shows "tables_ok (ar_media ar') \<and> ledger_ok (ar_media ar')"
proof -
  let ?m = "ar_media ar" and ?og = og
  let ?st = "asset_stored aid ?m" and ?re = "asset_reserved ?og aid ?m"
  note t = teardown_Inr [OF td]
  note tot = totals_after [OF td org] and nn = parts_nonneg [OF assms(1) org]
  note rq = release_quota_Inr [OF rel]
  have tabs: "versions (ar_media ar') = versions (ar_media ar1)" "sessions (ar_media ar') = sessions (ar_media ar1)"
    using rq by (auto split: if_splits)
  have ok: "tables_ok (ar_media ar')" using rq teardown_tables_ok [OF assms(1) td] by (auto split: if_splits)
  define f :: "usage_row \<Rightarrow> usage_row" where "f = (\<lambda>u. if us_org u = ?og then u\<lparr>us_stored := us_stored u - ?st, us_reserved := us_reserved u - ?re\<rparr> else u)"
  have led: "us_stored u = stored_total (us_org u) ?m \<and> us_reserved u = reserved_total (us_org u) ?m \<and> usage_check u"
    if "u \<in> set (usage ?m)" for u using assms(2) that by (auto simp: ledger_ok_def)
  have us: "usage (ar_media ar') = map f (usage ?m)"
  proof (cases "0 < ?st \<or> 0 < ?re")
    case True
    have "(if us_org u = ?og then u\<lparr>us_stored := max (us_stored u - ?st) 0, us_reserved := max (us_reserved u - ?re) 0\<rparr> else u) = f u"
      if "u \<in> set (usage ?m)" for u using led [OF that] nn by (simp add: f_def max_def)
    with True rq t(6) show ?thesis by (simp add: sql_update_as_map)
  next
    case False
    with nn have "?st = 0" "?re = 0" by auto
    then have "f = id" by (auto simp: f_def)
    with False rq t(6) show ?thesis by simp
  qed
  have chk: "usage_check (f u)" if "u \<in> set (usage ?m)" for u
    using led [OF that] nn by (auto simp: f_def usage_check_def)
  have fo: "us_org (f u) = us_org u" for u by (simp add: f_def)
  have "ledger_ok (ar_media ar')"
    unfolding ledger_ok_def us
  proof (intro conjI ballI)
    show "distinct (map us_org (map f (usage ?m)))" using assms(2) by (simp add: ledger_ok_def comp_def fo)
    fix x assume "x \<in> set (map f (usage ?m))"
    then obtain u where u: "u \<in> set (usage ?m)" "x = f u" by auto
    show "usage_check x" using chk u by simp
    show "us_reserved x = reserved_total (us_org x) (ar_media ar')" "us_stored x = stored_total (us_org x) (ar_media ar')"
      using led [OF u(1)] tot [of "us_org u"] tabs u(2) by (auto simp: f_def reserved_total_def stored_total_def)
  next
    have orgs: "us_org ` set (map f (usage ?m)) = us_org ` set (usage ?m)" by (simp add: image_image fo)
    show "s_org s \<in> us_org ` set (map f (usage ?m))" if "s \<in> set (sessions (ar_media ar'))" for s
      using that assms(2) unfolding orgs tabs t(2) by (auto simp: ledger_ok_def)
    show "v_org v \<in> us_org ` set (map f (usage ?m))" if "v \<in> set (versions (ar_media ar'))" for v
      using that assms(2) unfolding orgs tabs t(1) by (auto simp: ledger_ok_def)
  qed
  with ok show ?thesis by blast
qed

text \<open>C23: Tearing an asset down keeps the quota ledger exact: whatever the outcome, afterwards the reserved and the stored
  bytes of every organization are again the sums over its open sessions and retained originals, within the quota, and
  the media tables satisfy their constraints.
\<close>

theorem purge_keeps_ledger:
  assumes "tables_ok (ar_media ar)" "ledger_ok (ar_media ar)"
    and "\<And>j u. lockRunningPurgeJob (pc_now pc) jid worker (ar_catalog ar) = Inr (j, u) \<Longrightarrow> media_of_org (lj_org j) aid (ar_media ar)"
    and run: "FinalizeLifecyclePurgeAsset pc jid worker aid ar = (res, ar')"
  shows "tables_ok (ar_media ar') \<and> ledger_ok (ar_media ar')"
proof (cases res)
  case (Inl e)
  with run assms(1,2) show ?thesis by (auto simp: FinalizeLifecyclePurgeAsset_def dest: transaction_Inl)
next
  case (Inr v)
  then have "finalize_asset_work pc jid worker aid ar = Inr (v, ar')"
    using run by (auto simp: FinalizeLifecyclePurgeAsset_def dest: transaction_Inr)
  then obtain j u ar1 where lk: "lockRunningPurgeJob (pc_now pc) jid worker (ar_catalog ar) = Inr (j, u)"
    and td: "teardown (lu_id u) aid ar = Inr ar1"
    and rel: "release_quota (lj_org j) (asset_stored aid (ar_media ar)) (asset_reserved (lj_org j) aid (ar_media ar)) ar1 = Inr ar'"
    by (rule finalize_asset_Inr)
  show ?thesis by (rule teardown_keeps_ledger [OF assms(1,2) assms(3) [OF lk] td rel])
qed

section \<open>Objects go before rows\<close>

text \<open>The object keys that the media rows of an asset name.\<close>

definition named_keys :: "string \<Rightarrow> db \<Rightarrow> object_key set" where
  "named_keys aid m = v_raw_key ` {v \<in> set (versions m). v_asset v = aid}
     \<union> m_key ` {q \<in> set (outputs m). \<exists>v\<in>set (versions m). v_asset v = aid \<and> v_id v = m_version q}
     \<union> s_raw_key ` {s \<in> set (sessions m). s_asset s = aid \<and> s_raw_key s \<noteq> []}"

definition media_names :: "db \<Rightarrow> object_key \<Rightarrow> bool" where
  "media_names m k \<longleftrightarrow> k \<in> v_raw_key ` set (versions m) \<or> k \<in> m_key ` set (outputs m)
     \<or> (\<exists>s\<in>set (sessions m). s_raw_key s = k \<and> k \<noteq> [])"

text \<open>Keys contain the identifier of their asset: no key belongs to two.\<close>

definition one_owner :: "db \<Rightarrow> bool" where
  "one_owner m \<longleftrightarrow> (\<forall>k a b. k \<in> named_keys a m \<longrightarrow> k \<in> named_keys b m \<longrightarrow> a = b)"

definition sessions_fit :: "archive \<Rightarrow> bool" where
  "sessions_fit ar \<longleftrightarrow> (\<forall>x\<in>set (c_items (ar_catalog ar)). \<forall>s\<in>set (sessions (ar_media ar)). s_asset s = it_id x \<longrightarrow>
     item_in_org (ar_catalog ar) (s_org s) x)"

text \<open>The keys in the manifest of a job, and the assets that its unit still owns.\<close>

definition listed :: "string \<Rightarrow> archive \<Rightarrow> object_key set" where
  "listed jid ar = po_key ` {p \<in> set (ar_objects ar). po_job p = jid}"

definition targets :: "string \<Rightarrow> string set \<Rightarrow> catalog \<Rightarrow> bool" where
  "targets jid T d \<longleftrightarrow> (\<forall>j\<in>set (c_jobs d). \<forall>x\<in>set (c_items d).
     lj_id j = jid \<and> it_unit x \<noteq> None \<and> lj_unit j = it_unit x \<longrightarrow> it_id x \<in> T)"

definition covered :: "string \<Rightarrow> string \<Rightarrow> archive \<Rightarrow> bool" where
  "covered jid aid ar \<longleftrightarrow> named_keys aid (ar_media ar) \<subseteq> listed jid ar"

text \<open>An entry of a named key belongs to its asset, and a deleted entry is gone from storage.\<close>

definition manifest_ok :: "('s \<Rightarrow> bucket) \<Rightarrow> string \<Rightarrow> 's purge_world \<Rightarrow> bool" where
  "manifest_ok contents jid w \<longleftrightarrow> (\<forall>p\<in>set (ar_objects (pw_archive w)). po_job p = jid \<longrightarrow>
     (\<forall>a. po_key p \<in> named_keys a (ar_media (pw_archive w)) \<longrightarrow> po_asset p = a)
     \<and> (po_deleted_at p \<noteq> None \<longrightarrow> contents (pw_store w) (po_key p) = None))"

definition purge_sound :: "('s \<Rightarrow> bucket) \<Rightarrow> string \<Rightarrow> string set \<Rightarrow> 's purge_world \<Rightarrow> bool" where
  "purge_sound contents jid T w \<longleftrightarrow> catalog_ok (ar_catalog (pw_archive w)) \<and> one_owner (ar_media (pw_archive w))
     \<and> sessions_fit (pw_archive w) \<and> manifest_ok contents jid w \<and> targets jid T (ar_catalog (pw_archive w))"

text \<open>
  Other processes (the keeper of the lease included) may do anything that keeps the data sound, except: remove a media
  row whose object is still there, add a media row to an asset of the unit, take an entry out of the manifest, or
  create an object that was named at the start or stands in the manifest.
\<close>

definition purge_quiet :: "('s \<Rightarrow> bucket) \<Rightarrow> string \<Rightarrow> string set \<Rightarrow> db \<Rightarrow> ('s purge_world \<Rightarrow> 's purge_world) \<Rightarrow> bool" where
  "purge_quiet contents jid T m0 f \<longleftrightarrow> (\<forall>w. purge_sound contents jid T w \<longrightarrow>
     purge_sound contents jid T (f w)
     \<and> listed jid (pw_archive w) \<subseteq> listed jid (pw_archive (f w))
     \<and> (\<forall>a\<in>T. covered jid a (pw_archive w) \<longrightarrow> covered jid a (pw_archive (f w)))
     \<and> (\<forall>k. media_names (ar_media (pw_archive w)) k \<longrightarrow>
          media_names (ar_media (pw_archive (f w))) k \<or> contents (pw_store (f w)) k = None)
     \<and> (\<forall>k. media_names m0 k \<or> k \<in> listed jid (pw_archive w) \<longrightarrow> contents (pw_store w) k = None \<longrightarrow>
          contents (pw_store (f w)) k = None))"

lemma add_objects_rows:
  "p \<in> set (add_objects jid org aid ks ps) \<longleftrightarrow>
     p \<in> set ps \<or> (\<exists>k\<in>set ks. p = \<lparr>po_job = jid, po_org = org, po_asset = aid, po_key = k, po_deleted_at = None\<rparr>
        \<and> \<not> (\<exists>q\<in>set ps. po_job q = jid \<and> po_key q = k))"
proof (induction jid org aid ks ps rule: add_objects.induct)
  case (2 jid org aid k ks ps)
  then show ?case by (auto simp: sql_exists_iff)
qed simp

lemma add_objects_keep:
  "\<exists>p\<in>set ps. po_job p = jid \<and> po_key p = k \<Longrightarrow> \<exists>p\<in>set (add_objects jid org aid ks ps). po_job p = jid \<and> po_key p = k"
  by (auto simp: add_objects_rows)

lemma add_objects_covers: "k \<in> set ks \<Longrightarrow> \<exists>p\<in>set (add_objects jid org aid ks ps). po_job p = jid \<and> po_key p = k"
proof (cases "\<exists>q\<in>set ps. po_job q = jid \<and> po_key q = k")
  case False
  assume "k \<in> set ks"
  with False have "\<lparr>po_job = jid, po_org = org, po_asset = aid, po_key = k, po_deleted_at = None\<rparr> \<in> set (add_objects jid org aid ks ps)"
    by (auto simp: add_objects_rows)
  then show ?thesis by (rule rev_bexI) simp
qed (rule add_objects_keep)

lemma key_lists:
  "set (raw_keys aid m) = v_raw_key ` {v \<in> set (versions m). v_asset v = aid}"
  "set (output_keys aid m) = m_key ` {q \<in> set (outputs m). \<exists>v\<in>set (versions m). v_asset v = aid \<and> v_id v = m_version q}"
  "set (session_keys org aid m) = s_raw_key ` {s \<in> set (sessions m). s_org s = org \<and> s_asset s = aid \<and> s_raw_key s \<noteq> []}"
proof -
  show "set (output_keys aid m) = m_key ` {q \<in> set (outputs m). \<exists>v\<in>set (versions m). v_asset v = aid \<and> v_id v = m_version q}"
    unfolding output_keys_def by (simp, fastforce)
qed (auto simp: raw_keys_def session_keys_def)

lemma manifest_rows:
  assumes "p \<in> set (ar_objects (createPurgeObjectManifest jid org aid ar))"
  shows "p \<in> set (ar_objects ar) \<or> p = \<lparr>po_job = jid, po_org = org, po_asset = aid, po_key = po_key p, po_deleted_at = None\<rparr>
       \<and> po_key p \<in> named_keys aid (ar_media ar)"
proof -
  have "p \<in> set (ar_objects ar) \<or> p = \<lparr>po_job = jid, po_org = org, po_asset = aid, po_key = po_key p, po_deleted_at = None\<rparr>
       \<and> (po_key p \<in> set (raw_keys aid (ar_media ar)) \<or> po_key p \<in> set (output_keys aid (ar_media ar))
          \<or> po_key p \<in> set (session_keys org aid (ar_media ar)))"
    using assms unfolding createPurgeObjectManifest_def by (auto simp: add_objects_rows)
  then show ?thesis unfolding key_lists named_keys_def by blast
qed

lemma manifest_covers:
  assumes "\<And>s. s \<in> set (sessions (ar_media ar)) \<Longrightarrow> s_asset s = aid \<Longrightarrow> s_org s = org" "k \<in> named_keys aid (ar_media ar)"
  shows "k \<in> listed jid (createPurgeObjectManifest jid org aid ar)"
proof -
  have "k \<in> set (raw_keys aid (ar_media ar)) \<or> k \<in> set (output_keys aid (ar_media ar)) \<or> k \<in> set (session_keys org aid (ar_media ar))"
    using assms unfolding key_lists named_keys_def by blast
  then have "\<exists>p\<in>set (ar_objects (createPurgeObjectManifest jid org aid ar)). po_job p = jid \<and> po_key p = k"
    unfolding createPurgeObjectManifest_def by (auto intro: add_objects_keep add_objects_covers)
  then show ?thesis by (auto simp: listed_def)
qed

lemma lockRunningPurgeJob_InrD:
  assumes "lockRunningPurgeJob now jid worker d = Inr (j, u)"
  shows "lj_id j = jid" "j \<in> set (c_jobs d)" "lj_unit j = Some (lu_id u)"
proof -
  have found: "\<exists>a. x = Some a \<and> f a = Inr y" if "and_then (from_option e x) f = Inr y" for e x f y
    using that by (cases x) auto
  from found [OF assms [unfolded lockRunningPurgeJob_def]] obtain j0 where
    f: "find (\<lambda>j. lj_id j = jid \<and> lj_operation j = LifecycleJobPurge \<and> owned_by worker j
        \<and> (case lj_lease_expires j of None \<Rightarrow> False | Some t \<Rightarrow> now < t)) (c_jobs d) = Some j0"
    "(case lj_unit j0 of None \<Rightarrow> Inl (ErrMessage ''purge job has no lifecycle unit'') | Some unit \<Rightarrow>
       and_then (from_option ErrNoRecord (find (\<lambda>u. lu_id u = unit \<and> lu_org u = lj_org j0
            \<and> lu_state u = LifecyclePurging) (c_units d))) (\<lambda>u. Inr (j0, u))) = Inr (j, u)" by blast
  from f(2) obtain unit where g: "lj_unit j0 = Some unit"
    "and_then (from_option ErrNoRecord (find (\<lambda>u. lu_id u = unit \<and> lu_org u = lj_org j0
            \<and> lu_state u = LifecyclePurging) (c_units d))) (\<lambda>u. Inr (j0, u)) = Inr (j, u)"
    by (cases "lj_unit j0") auto
  from found [OF g(2)] have h: "find (\<lambda>u. lu_id u = unit \<and> lu_org u = lj_org j0 \<and> lu_state u = LifecyclePurging) (c_units d) = Some u"
    "j0 = j" by auto
  from find_SomeD [OF f(1)] h(2) show "lj_id j = jid" "j \<in> set (c_jobs d)" by auto
  from find_SomeD [OF h(1)] g(1) h(2) show "lj_unit j = Some (lu_id u)" by simp
qed

lemma NextLifecyclePurgeAsset_step:
  assumes "NextLifecyclePurgeAsset pc jid worker ar = (Inr (Some a), ar')" "sessions_fit ar" "targets jid T (ar_catalog ar)"
  shows "ar_catalog ar' = ar_catalog ar" "ar_media ar' = ar_media ar" "pa_job a = jid" "covered jid (pa_asset a) ar'"
    "\<And>p. p \<in> set (ar_objects ar') \<Longrightarrow> p \<in> set (ar_objects ar) \<or> po_deleted_at p = None \<and> po_asset p = pa_asset a
        \<and> po_key p \<in> named_keys (pa_asset a) (ar_media ar)"
    "set (pa_keys a) \<subseteq> listed jid ar'" "pa_asset a \<in> T"
proof -
  from transaction_Inr [OF assms(1) [unfolded NextLifecyclePurgeAsset_def]] obtain j u aid where
    lk: "lockRunningPurgeJob (pc_now pc) jid worker (ar_catalog ar) = Inr (j, u)"
    and nx: "nextPurgeAssetID pc j u (ar_catalog ar) = Some aid"
    and a: "a = \<lparr>pa_job = lj_id j, pa_org = lj_org j, pa_unit = lu_id u, pa_asset = aid,
       pa_keys = order_by id (map po_key (filter (pending_object (lj_id j) aid) (ar_objects ar')))\<rparr>"
    and ar': "ar' = createPurgeObjectManifest (lj_id j) (lj_org j) aid ar"
    by (auto simp: Let_def split: prod.splits option.splits)
  note id = lockRunningPurgeJob_InrD [OF lk]
  obtain x where x: "x \<in> set (c_items (ar_catalog ar))" "it_id x = aid" "item_in_org (ar_catalog ar) (lj_org j) x"
    "it_unit x = Some (lu_id u)"
    using nx by (auto simp: nextPurgeAssetID_def purge_candidate_def dest!: first_row_SomeD)
  have org: "s_org s = lj_org j" if "s \<in> set (sessions (ar_media ar))" "s_asset s = aid" for s
  proof -
    have "item_in_org (ar_catalog ar) (s_org s) x" using assms(2) x that by (auto simp: sessions_fit_def)
    with x(3) show ?thesis by (auto simp: item_in_org_def split: option.splits)
  qed
  show same: "ar_catalog ar' = ar_catalog ar" "ar_media ar' = ar_media ar"
    using ar' by (simp_all add: createPurgeObjectManifest_def)
  show "pa_job a = jid" using a id by simp
  show "covered jid (pa_asset a) ar'"
    unfolding covered_def same(2) using manifest_covers [OF org] a ar' id by auto
  show "p \<in> set (ar_objects ar) \<or> po_deleted_at p = None \<and> po_asset p = pa_asset a \<and> po_key p \<in> named_keys (pa_asset a) (ar_media ar)"
    if "p \<in> set (ar_objects ar')" for p
    using manifest_rows [OF that [unfolded ar']] a by (cases p) auto
  show "set (pa_keys a) \<subseteq> listed jid ar'"
    using a id by (auto simp: order_by_def listed_def pending_object_def)
  show "pa_asset a \<in> T" using assms(3) id x a unfolding targets_def by force
qed

lemma named_keys_teardown:
  assumes "teardown unit aid ar = Inr ar'"
  shows "named_keys b (ar_media ar') \<subseteq> named_keys b (ar_media ar)"
    "media_names (ar_media ar) k \<Longrightarrow> media_names (ar_media ar') k \<or> k \<in> named_keys aid (ar_media ar)"
proof -
  let ?m = "ar_media ar" and ?m' = "ar_media ar'"
  have rows: "set (versions ?m') = {v \<in> set (versions ?m). v_asset v \<noteq> aid}"
    "set (sessions ?m') = {s \<in> set (sessions ?m). s_asset s \<noteq> aid}"
    "set (outputs ?m') = {q \<in> set (outputs ?m). \<not> (\<exists>v\<in>set (versions ?m). v_asset v = aid \<and> v_id v = m_version q)}"
    unfolding teardown_Inr(1,2,4) [OF assms] by (simp_all add: sql_delete_def sql_exists_iff)
  show "named_keys b ?m' \<subseteq> named_keys b ?m" unfolding named_keys_def rows by blast
  show "media_names ?m' k \<or> k \<in> named_keys aid ?m" if "media_names ?m k"
  proof -
    have v: ?thesis if "v \<in> set (versions ?m)" "k = v_raw_key v" for v
      using that by (cases "v_asset v = aid") (auto simp: media_names_def named_keys_def rows)
    have q: ?thesis if "q \<in> set (outputs ?m)" "k = m_key q" for q
      using that unfolding media_names_def named_keys_def rows by blast
    have s: ?thesis if "s \<in> set (sessions ?m)" "s_raw_key s = k" "k \<noteq> []" for s
      using that by (cases "s_asset s = aid") (auto simp: media_names_def named_keys_def rows)
    from that v q s show ?thesis unfolding media_names_def [of ?m] by blast
  qed
qed

lemma item_in_org_folders: "c_folders d' = c_folders d \<Longrightarrow> item_in_org d' org x = item_in_org d org x"
  by (simp add: item_in_org_def folder_of_def)

definition left_behind :: "('s \<Rightarrow> bucket) \<Rightarrow> db \<Rightarrow> 's purge_world \<Rightarrow> bool" where
  "left_behind contents m0 w \<longleftrightarrow>
     (\<forall>k. media_names m0 k \<longrightarrow> media_names (ar_media (pw_archive w)) k \<or> contents (pw_store w) k = None)"

definition purge_inv :: "('s \<Rightarrow> bucket) \<Rightarrow> string \<Rightarrow> string set \<Rightarrow> db \<Rightarrow> 's purge_world \<Rightarrow> bool" where
  "purge_inv contents jid T m0 w \<longleftrightarrow> purge_sound contents jid T w \<and> left_behind contents m0 w"

lemma quiet_inv:
  assumes "purge_quiet contents jid T m0 f" "purge_inv contents jid T m0 w"
  shows "purge_inv contents jid T m0 (f w)" "listed jid (pw_archive w) \<subseteq> listed jid (pw_archive (f w))"
    "a \<in> T \<Longrightarrow> covered jid a (pw_archive w) \<Longrightarrow> covered jid a (pw_archive (f w))"
    "k \<in> listed jid (pw_archive w) \<Longrightarrow> contents (pw_store w) k = None \<Longrightarrow> contents (pw_store (f w)) k = None"
  using assms unfolding purge_inv_def purge_quiet_def left_behind_def by metis+

lemma next_asset_inv:
  assumes "NextLifecyclePurgeAsset pc jid worker (pw_archive w) = (res, ar')" "purge_inv contents jid T m0 w"
  shows "purge_inv contents jid T m0 (w\<lparr>pw_archive := ar'\<rparr>)"
proof -
  note D = assms(2) [unfolded purge_inv_def purge_sound_def]
  have nochange: "ar' = pw_archive w \<Longrightarrow> ?thesis" using assms(2) by simp
  show ?thesis
  proof (cases res)
    case (Inl e)
    then show ?thesis using assms(1) nochange by (auto simp: NextLifecyclePurgeAsset_def dest: transaction_Inl)
  next
    case (Inr x)
    show ?thesis
    proof (cases x)
      case None
      have "ar' = pw_archive w"
        using transaction_Inr [OF assms(1) [unfolded NextLifecyclePurgeAsset_def Inr None]]
        by (auto simp: Let_def split: option.splits prod.splits)
      then show ?thesis by (rule nochange)
    next
      case (Some a)
      have fit: "sessions_fit (pw_archive w)" "targets jid T (ar_catalog (pw_archive w))" using D by blast+
      note n = NextLifecyclePurgeAsset_step [OF assms(1) [unfolded Inr Some] fit]
      have rows: "po_key p \<in> named_keys b (ar_media (pw_archive w)) \<longrightarrow> po_asset p = b"
        and gone: "po_deleted_at p \<noteq> None \<longrightarrow> contents (pw_store w) (po_key p) = None"
        if "p \<in> set (ar_objects ar')" "po_job p = jid" for p b
      proof -
        from n(5) [OF that(1)] have "(po_key p \<in> named_keys b (ar_media (pw_archive w)) \<longrightarrow> po_asset p = b)
          \<and> (po_deleted_at p \<noteq> None \<longrightarrow> contents (pw_store w) (po_key p) = None)"
        proof
          assume "p \<in> set (ar_objects (pw_archive w))"
          with D that(2) show ?thesis unfolding manifest_ok_def by blast
        next
          assume "po_deleted_at p = None \<and> po_asset p = pa_asset a \<and> po_key p \<in> named_keys (pa_asset a) (ar_media (pw_archive w))"
          moreover from D have "po_key p \<in> named_keys (pa_asset a) m \<Longrightarrow> po_key p \<in> named_keys b m \<Longrightarrow> pa_asset a = b"
            if "m = ar_media (pw_archive w)" for m unfolding one_owner_def that by blast
          ultimately show ?thesis by simp
        qed
        then show "po_key p \<in> named_keys b (ar_media (pw_archive w)) \<longrightarrow> po_asset p = b"
          "po_deleted_at p \<noteq> None \<longrightarrow> contents (pw_store w) (po_key p) = None" by blast+
      qed
      show ?thesis
        using D n(1,2) rows gone
        by (auto simp: purge_inv_def purge_sound_def manifest_ok_def left_behind_def sessions_fit_def)
    qed
  qed
qed

lemma mark_inv:
  assumes "MarkLifecyclePurgeObjectsDeleted pc jid worker aid keys (pw_archive w) = (res, ar')" "purge_inv contents jid T m0 w"
    and "\<And>k. k \<in> set keys \<Longrightarrow> contents (pw_store w) k = None"
  shows "purge_inv contents jid T m0 (w\<lparr>pw_archive := ar'\<rparr>)" "ar_media ar' = ar_media (pw_archive w)"
    "listed jid ar' = listed jid (pw_archive w)" "covered jid b (pw_archive w) \<Longrightarrow> covered jid b ar'"
proof -
  have c: "ar' = pw_archive w \<or> ar' = (pw_archive w)\<lparr>ar_objects := sql_update (\<lambda>p. pending_object jid aid p \<and> po_key p \<in> set keys)
        (\<lambda>p. p\<lparr>po_deleted_at := Some (pc_now pc)\<rparr>) (ar_objects (pw_archive w))\<rparr>"
    using assms(1)
    by (cases res) (auto simp: MarkLifecyclePurgeObjectsDeleted_def split: if_splits dest!: transaction_Inl transaction_Inr)
  then show "ar_media ar' = ar_media (pw_archive w)" by auto
  have l: "listed jid ar' = listed jid (pw_archive w)"
    using c
  proof
    let ?c = "\<lambda>p. pending_object jid aid p \<and> po_key p \<in> set keys" and ?f = "\<lambda>p. p\<lparr>po_deleted_at := Some (pc_now pc)\<rparr>"
    assume e: "ar' = (pw_archive w)\<lparr>ar_objects := sql_update ?c ?f (ar_objects (pw_archive w))\<rparr>"
    have objs: "ar_objects ar' = sql_update ?c ?f (ar_objects (pw_archive w))" using e by simp
    have "map (\<lambda>p. (po_job p, po_key p)) (sql_update ?c ?f ps) = map (\<lambda>p. (po_job p, po_key p)) ps" for ps
      by (simp add: sql_update_def)
    moreover have "listed jid ar = {k. (jid, k) \<in> set (map (\<lambda>p. (po_job p, po_key p)) (ar_objects ar))}" for ar
      by (auto simp: listed_def)
    ultimately show ?thesis by (simp only: objs)
  qed simp
  then show "listed jid ar' = listed jid (pw_archive w)" .
  show "covered jid b (pw_archive w) \<Longrightarrow> covered jid b ar'" using l c by (auto simp: covered_def)
  show "purge_inv contents jid T m0 (w\<lparr>pw_archive := ar'\<rparr>)"
    using c
  proof
    assume e: "ar' = (pw_archive w)\<lparr>ar_objects := sql_update (\<lambda>p. pending_object jid aid p \<and> po_key p \<in> set keys)
        (\<lambda>p. p\<lparr>po_deleted_at := Some (pc_now pc)\<rparr>) (ar_objects (pw_archive w))\<rparr>"
    have "manifest_ok contents jid (w\<lparr>pw_archive := ar'\<rparr>)"
      using assms(2,3) unfolding purge_inv_def purge_sound_def manifest_ok_def e
      by (auto simp: set_sql_update split: if_splits)
    then show ?thesis using assms(2) e by (auto simp: purge_inv_def purge_sound_def left_behind_def sessions_fit_def)
  qed (use assms(2) in simp)
qed

lemma finalize_asset_inv:
  assumes "FinalizeLifecyclePurgeAsset pc jid worker aid (pw_archive w) = (res, ar')" "purge_inv contents jid T m0 w"
    and cov: "covered jid aid (pw_archive w)"
  shows "purge_inv contents jid T m0 (w\<lparr>pw_archive := ar'\<rparr>)"
proof (cases res)
  case (Inl e)
  then show ?thesis using assms(1,2) by (auto simp: FinalizeLifecyclePurgeAsset_def dest: transaction_Inl)
next
  case (Inr v)
  note D = assms(2) [unfolded purge_inv_def purge_sound_def]
  let ?ar = "pw_archive w"
  have "finalize_asset_work pc jid worker aid ?ar = Inr (v, ar')"
    using assms(1) Inr by (auto simp: FinalizeLifecyclePurgeAsset_def dest: transaction_Inr)
  then obtain j u ar1 where lk: "lockRunningPurgeJob (pc_now pc) jid worker (ar_catalog ?ar) = Inr (j, u)"
    and np: "\<not> sql_exists (pending_object (lj_id j) aid) (ar_objects ?ar)" and td: "teardown (lu_id u) aid ?ar = Inr ar1"
    and rel: "release_quota (lj_org j) (asset_stored aid (ar_media ?ar)) (asset_reserved (lj_org j) aid (ar_media ?ar)) ar1 = Inr ar'"
    by (rule finalize_asset_Inr)
  have gone: "contents (pw_store w) k = None" if k: "k \<in> named_keys aid (ar_media ?ar)" for k
  proof -
    obtain p where p: "p \<in> set (ar_objects ?ar)" "po_job p = jid" "po_key p = k" using cov k by (auto simp: covered_def listed_def)
    then have "po_asset p = aid" using D k unfolding manifest_ok_def by blast
    then have "po_deleted_at p \<noteq> None"
      using np p lockRunningPurgeJob_InrD(1) [OF lk] by (auto simp: sql_exists_iff pending_object_def)
    then have "contents (pw_store w) (po_key p) = None" using D p(1,2) unfolding manifest_ok_def by blast
    then show ?thesis using p(3) by simp
  qed
  have same: "ar_catalog ar' = ar_catalog ar1" "ar_objects ar' = ar_objects ar1" "versions (ar_media ar') = versions (ar_media ar1)"
    "outputs (ar_media ar') = outputs (ar_media ar1)" "sessions (ar_media ar') = sessions (ar_media ar1)"
    using release_quota_Inr [OF rel] by (auto split: if_splits)
  have keys: "named_keys b (ar_media ar') = named_keys b (ar_media ar1)" "media_names (ar_media ar') k = media_names (ar_media ar1) k"
    for b k using same by (simp_all add: named_keys_def media_names_def)
  note t = teardown_Inr [OF td] and nk = named_keys_teardown [OF td]
  have cat: "catalog_ok (ar_catalog ar1)" "set (c_items (ar_catalog ar1)) \<subseteq> set (c_items (ar_catalog ?ar))"
    "c_folders (ar_catalog ar1) = c_folders (ar_catalog ?ar)"
    using t(10) D by auto
  have own: "one_owner (ar_media ar')" using D nk(1) unfolding one_owner_def keys by blast
  have sess: "set (sessions (ar_media ar1)) \<subseteq> set (sessions (ar_media ?ar))" using t(2) by auto
  have fit: "sessions_fit ar'"
    using D cat(2) sess item_in_org_folders [OF cat(3)] unfolding sessions_fit_def same by blast
  have jobs: "c_jobs (ar_catalog ar1) = c_jobs (ar_catalog ?ar)" using t(10) by auto
  have tgt: "targets jid T (ar_catalog ar1)" using D cat(2) unfolding targets_def jobs by blast
  have man: "manifest_ok contents jid (w\<lparr>pw_archive := ar'\<rparr>)"
    unfolding manifest_ok_def
  proof (intro ballI impI conjI allI)
    fix p assume p: "p \<in> set (ar_objects (pw_archive (w\<lparr>pw_archive := ar'\<rparr>)))" "po_job p = jid"
    then have old: "p \<in> set (ar_objects ?ar)" by (simp add: same t(9))
    have E: "\<forall>b. po_key p \<in> named_keys b (ar_media ?ar) \<longrightarrow> po_asset p = b"
      "po_deleted_at p \<noteq> None \<longrightarrow> contents (pw_store w) (po_key p) = None"
      using D p(2) old unfolding manifest_ok_def by blast+
    show "po_asset p = b" if "po_key p \<in> named_keys b (ar_media (pw_archive (w\<lparr>pw_archive := ar'\<rparr>)))" for b
      using that E(1) nk(1) keys(1) by auto
    show "contents (pw_store (w\<lparr>pw_archive := ar'\<rparr>)) (po_key p) = None" if "po_deleted_at p \<noteq> None" using E(2) that by simp
  qed
  have left: "left_behind contents m0 (w\<lparr>pw_archive := ar'\<rparr>)"
    unfolding left_behind_def
  proof (intro allI impI)
    fix k assume "media_names m0 k"
    with D have "media_names (ar_media ?ar) k \<or> contents (pw_store w) k = None" by (simp add: left_behind_def)
    then have "media_names (ar_media ar1) k \<or> contents (pw_store w) k = None" using nk(2) [of k] gone [of k] by argo
    then show "media_names (ar_media (pw_archive (w\<lparr>pw_archive := ar'\<rparr>))) k
        \<or> contents (pw_store (w\<lparr>pw_archive := ar'\<rparr>)) k = None" by (simp add: keys)
  qed
  show ?thesis using own fit man left cat(1) tgt same(1) by (simp add: purge_inv_def purge_sound_def)
qed

section \<open>The end of the job\<close>

lemma find_filter_same:
  assumes "\<And>r. r \<in> set rs \<Longrightarrow> p r \<Longrightarrow> c r"
  shows "find p (filter c rs) = find p rs"
  using assms by (induction rs) auto

lemma sound_catalog:
  assumes "purge_inv contents jid T m0 w" "catalog_ok d" "c_items d = c_items (ar_catalog (pw_archive w))"
    and "\<And>org x. x \<in> set (c_items d) \<Longrightarrow> item_in_org (ar_catalog (pw_archive w)) org x \<Longrightarrow> item_in_org d org x"
    and "\<And>j. j \<in> set (c_jobs d) \<Longrightarrow> lj_id j = jid \<Longrightarrow> \<exists>j'\<in>set (c_jobs (ar_catalog (pw_archive w))). lj_id j' = jid \<and> lj_unit j' = lj_unit j"
    and "ar_catalog ar' = d" "ar_objects ar' = ar_objects (pw_archive w)"
    "versions (ar_media ar') = versions (ar_media (pw_archive w))" "outputs (ar_media ar') = outputs (ar_media (pw_archive w))"
    "sessions (ar_media ar') = sessions (ar_media (pw_archive w))"
  shows "purge_inv contents jid T m0 (w\<lparr>pw_archive := ar'\<rparr>)"
proof -
  note D = assms(1) [unfolded purge_inv_def purge_sound_def]
  have keys: "named_keys b (ar_media ar') = named_keys b (ar_media (pw_archive w))"
    "media_names (ar_media ar') k = media_names (ar_media (pw_archive w)) k" for b k
    using assms(8-10) by (simp_all add: named_keys_def media_names_def)
  have "targets jid T d" using D assms(3,5) unfolding targets_def by metis
  moreover have "sessions_fit ar'" using D assms(3,4,6,10) unfolding sessions_fit_def by simp
  ultimately show ?thesis
    using D assms(2,6,7) by (simp add: purge_inv_def purge_sound_def one_owner_def manifest_ok_def left_behind_def keys)
qed

lemma finalize_job_inv:
  assumes "FinalizeLifecyclePurgeJob pc jid worker (pw_archive w) = (res, ar')" "purge_inv contents jid T m0 w"
  shows "purge_inv contents jid T m0 (w\<lparr>pw_archive := ar'\<rparr>)"
proof (cases res)
  case (Inl e)
  then show ?thesis using assms by (auto simp: FinalizeLifecyclePurgeJob_def dest: transaction_Inl)
next
  case (Inr v)
  let ?d = "ar_catalog (pw_archive w)"
  have "finalize_job_work pc jid worker (pw_archive w) = Inr (v, ar')"
    using assms(1) Inr by (auto simp: FinalizeLifecyclePurgeJob_def dest: transaction_Inr)
  then obtain j u where lk: "lockRunningPurgeJob (pc_now pc) jid worker ?d = Inr (j, u)"
    and run: "(case next_leaf pc j u ?d of
       Some f \<Rightarrow> and_then (delete_folder (fd_id f) (lj_org j) (lu_id u) (pw_archive w)) (\<lambda>ar1. Inr (False, ar1))
     | None \<Rightarrow> if remaining_items j u ?d \<noteq> 0 then Inl (ErrMessage ''purge job has metadata rows without a selectable root'')
         else and_then (save_job (j\<lparr>lj_status := LifecycleJobSucceeded, lj_lease_owner := None, lj_lease_expires := None,
                       lj_completed_at := Some (pc_done pc)\<rparr>) ?d) (\<lambda>d1.
           and_then (set_unit_state (\<lambda>r. lu_id r = lu_id u \<and> lu_state r = LifecyclePurging) LifecyclePurged d1) (\<lambda>d2.
           Inr (True, (pw_archive w)\<lparr>ar_catalog := d2\<rparr>)))) = Inr (v, ar')"
    unfolding finalize_job_work_def by (cases "lockRunningPurgeJob (pc_now pc) jid worker ?d") auto
  note id = lockRunningPurgeJob_InrD [OF lk]
  show ?thesis
  proof (cases "next_leaf pc j u ?d")
    case (Some f)
    let ?gone = "\<lambda>g. fd_id g = fd_id f \<and> fd_org g = lj_org j \<and> fd_unit g = Some (lu_id u) \<and> \<not> folder_active g"
    from run Some obtain d where d: "on_folders (sql_delete ?gone) ?d = Inr d"
      and ar': "ar' = (pw_archive w)\<lparr>ar_catalog := d, ar_media := (ar_media (pw_archive w))\<lparr>folders := sql_delete (\<lambda>g. f_id g = fd_id f)
           (folders (ar_media (pw_archive w)))\<rparr>\<rparr>"
      unfolding delete_folder_def by (cases "on_folders (sql_delete ?gone) ?d") auto
    have d': "d = ?d\<lparr>c_folders := sql_delete ?gone (c_folders ?d)\<rparr>" "catalog_ok d" using d by auto
    have "f \<in> set (filter (\<lambda>f. purgeable_leaf j u ?d f \<and> fd_id f \<notin> set (pc_locked_folders pc)) (c_folders ?d))"
    proof -
      let ?fs = "filter (\<lambda>f. purgeable_leaf j u ?d f \<and> fd_id f \<notin> set (pc_locked_folders pc)) (c_folders ?d)"
      have "f \<in> set (rev (order_by (\<lambda>f. (length (fd_path f), fd_path f)) ?fs))"
        using Some unfolding next_leaf_def by (auto split: list.splits)
      then show ?thesis by (simp add: order_by_def)
    qed
    then have leaf: "purgeable_leaf j u ?d f" by simp
    show ?thesis
    proof (rule sound_catalog [OF assms(2) d'(2)])
      show "item_in_org d org x" if "x \<in> set (c_items d)" "item_in_org ?d org x" for org x
      proof -
        have "it_folder x \<noteq> fd_id f" using leaf that(1) d'(1) by (auto simp: purgeable_leaf_def sql_exists_iff)
        then have "folder_of d x = folder_of ?d x"
          using d'(1) by (auto simp: folder_of_def sql_delete_def intro!: find_filter_same)
        with that(2) show ?thesis by (simp add: item_in_org_def)
      qed
    qed (use ar' d' in auto)
  next
    case None
    let ?j = "j\<lparr>lj_status := LifecycleJobSucceeded, lj_lease_owner := None, lj_lease_expires := None, lj_completed_at := Some (pc_done pc)\<rparr>"
    from run None obtain d1 d2 where d1: "save_job ?j ?d = Inr d1"
      and d2: "set_unit_state (\<lambda>r. lu_id r = lu_id u \<and> lu_state r = LifecyclePurging) LifecyclePurged d1 = Inr d2"
      and ar': "ar' = (pw_archive w)\<lparr>ar_catalog := d2\<rparr>"
      by (auto split: if_splits simp: and_then_Inr)
    have e: "c_folders d2 = c_folders ?d" "c_items d2 = c_items ?d" "catalog_ok d2"
      "c_jobs d2 = sql_update (\<lambda>r. lj_id r = lj_id j) (\<lambda>_. ?j) (c_jobs ?d)"
      using d1 d2 by (auto simp: set_unit_state_def save_job_def)
    show ?thesis
    proof (rule sound_catalog [OF assms(2) e(3)])
      show "\<exists>j'\<in>set (c_jobs ?d). lj_id j' = jid \<and> lj_unit j' = lj_unit k" if "k \<in> set (c_jobs d2)" "lj_id k = jid" for k
        using that id(1,2) unfolding e(4) by (auto simp: set_sql_update split: if_splits)
    qed (use ar' e(1,2) in \<open>simp_all add: item_in_org_folders [OF e(1)]\<close>)
  qed
qed

text \<open>The keeper of the lease stays within the bounds set for other processes.\<close>

lemma keeper_is_quiet: "purge_quiet contents jid T m0 (keeper_tick now jid' worker expected)"
  unfolding purge_quiet_def
proof (intro allI impI)
  fix w assume sound: "purge_sound contents jid T w"
  let ?d = "ar_catalog (pw_archive w)" and ?w' = "keeper_tick now jid' worker expected w"
  let ?row = "purge_lease_held jid' worker expected now" and ?f = "\<lambda>j. j\<lparr>lj_lease_expires := Some (now + FolderDeletionLeaseDuration)\<rparr>"
  obtain r d where r: "RenewLifecyclePurgeLease now jid' worker expected ?d = (r, d)" by (metis prod.exhaust)
  then have w': "?w' = w\<lparr>pw_archive := (pw_archive w)\<lparr>ar_catalog := d\<rparr>\<rparr>" by (simp add: keeper_tick_def on_catalog_def)
  have d: "d = ?d \<or> d = ?d\<lparr>c_jobs := sql_update ?row ?f (c_jobs ?d)\<rparr> \<and> catalog_ok d"
    using r by (cases r) (auto simp: RenewLifecyclePurgeLease_def Let_def split: if_splits dest!: transaction_Inl transaction_Inr)
  have "purge_inv contents jid T (ar_media (pw_archive w)) w" using sound by (simp add: purge_inv_def left_behind_def)
  then have "purge_inv contents jid T (ar_media (pw_archive w)) (w\<lparr>pw_archive := (pw_archive w)\<lparr>ar_catalog := d\<rparr>\<rparr>)"
  proof (rule sound_catalog)
    show "\<exists>j'\<in>set (c_jobs ?d). lj_id j' = jid \<and> lj_unit j' = lj_unit j" if j: "j \<in> set (c_jobs d)" "lj_id j = jid" for j
    proof -
      have "\<exists>x\<in>set (c_jobs ?d). j = x \<or> j = ?f x" using d j(1) by (elim disjE) (auto elim!: sql_update_memE)
      then obtain x where x: "x \<in> set (c_jobs ?d)" "j = x \<or> j = ?f x" by blast
      from x(2) j(2) show ?thesis by (intro bexI [OF _ x(1)]) auto
    qed
    show "catalog_ok d" using d sound by (auto simp: purge_sound_def)
  qed (use d in \<open>auto simp: item_in_org_def folder_of_def\<close>)
  then have "purge_sound contents jid T ?w'" by (simp add: w' purge_inv_def)
  then show "purge_sound contents jid T ?w' \<and> listed jid (pw_archive w) \<subseteq> listed jid (pw_archive ?w')
     \<and> (\<forall>a\<in>T. covered jid a (pw_archive w) \<longrightarrow> covered jid a (pw_archive ?w'))
     \<and> (\<forall>k. media_names (ar_media (pw_archive w)) k \<longrightarrow>
          media_names (ar_media (pw_archive ?w')) k \<or> contents (pw_store ?w') k = None)
     \<and> (\<forall>k. media_names m0 k \<or> k \<in> listed jid (pw_archive w) \<longrightarrow> contents (pw_store w) k = None \<longrightarrow>
          contents (pw_store ?w') k = None)"
    by (simp add: w' listed_def covered_def)
qed

section \<open>The loop\<close>

lemma store_inv:
  assumes "purge_inv contents jid T m0 w" "\<And>k. contents (pw_store w) k = None \<Longrightarrow> contents s k = None"
  shows "purge_inv contents jid T m0 (w\<lparr>pw_store := s\<rparr>)"
  using assms unfolding purge_inv_def purge_sound_def manifest_ok_def left_behind_def by fastforce

context purgeable_storage begin

lemma purge_asset_inv:
  assumes quiet: "\<And>n. purge_quiet contents jid T m0 (pr_between r n)"
    and inv: "purge_inv contents jid T m0 w" and a: "pa_job a = jid" "pa_asset a \<in> T"
    and cov: "covered jid (pa_asset a) (pw_archive w)" and keys: "set (pa_keys a) \<subseteq> listed jid (pw_archive w)"
  shows "purge_inv contents jid T m0 (snd (purge_asset_step st r worker a w))"
proof -
  let ?w1 = "pr_between r 1 w"
  note q1 = quiet_inv [OF quiet [of 1] inv]
  obtain res s where del: "delete_keys st (pa_keys a) (pw_store ?w1) = (res, s)" by (metis prod.exhaust)
  define w2 where "w2 = ?w1\<lparr>pw_store := s\<rparr>"
  have inv2: "purge_inv contents jid T m0 w2"
    unfolding w2_def by (rule store_inv [OF q1(1)]) (rule delete_keys_absent [OF del])
  show ?thesis
  proof (cases res)
    case (Inl e)
    then show ?thesis using del inv2 by (simp add: purge_asset_step_def w2_def)
  next
    case (Inr v)
    let ?w3 = "pr_between r 2 w2"
    note q2 = quiet_inv [OF quiet [of 2] inv2]
    have gone2: "contents (pw_store w2) k = None" if "k \<in> set (pa_keys a)" for k
      using delete_keys_gone [OF del [unfolded Inr] that] by (simp add: w2_def)
    have gone3: "contents (pw_store ?w3) k = None" if "k \<in> set (pa_keys a)" for k
      using q2(4) [of k] gone2 [OF that] that keys q1(2) by (auto simp: w2_def)
    have cov3: "covered jid (pa_asset a) (pw_archive ?w3)"
      using q2(3) [OF a(2)] q1(3) [OF a(2) cov] by (simp add: w2_def)
    define m where "m = archive_call r 2 (MarkLifecyclePurgeObjectsDeleted (pr_call r 2) (pa_job a) worker (pa_asset a) (pa_keys a)) w2"
    have m: "purge_inv contents jid T m0 (snd m)" "covered jid (pa_asset a) (pw_archive (snd m))"
    proof -
      obtain x ar where c: "MarkLifecyclePurgeObjectsDeleted (pr_call r 2) jid worker (pa_asset a) (pa_keys a) (pw_archive ?w3) = (x, ar)"
        by (metis prod.exhaust)
      note k = mark_inv [OF c q2(1) gone3]
      show "purge_inv contents jid T m0 (snd m)" "covered jid (pa_asset a) (pw_archive (snd m))"
        using k(1) k(4) [OF _ cov3] q2(1) cov3 c by (auto simp: m_def archive_call_def Let_def a(1))
    qed
    have eq: "purge_asset_step st r worker a w = (case m of
         (Inl e, w2) \<Rightarrow> (lifecyclePurgeResult r (Inl e), w2)
       | (Inr _, w2) \<Rightarrow>
           (case archive_call r 3 (FinalizeLifecyclePurgeAsset (pr_call r 3) (pa_job a) worker (pa_asset a)) w2 of
              (Inl e, w3) \<Rightarrow> (lifecyclePurgeResult r (Inl e), w3) | (Inr _, w3) \<Rightarrow> (Inr False, w3)))"
      unfolding purge_asset_step_def Let_def del m_def w2_def Inr by (simp only: prod.case sum.case)
    obtain x3 w3 where m3: "m = (x3, w3)" by (cases m)
    let ?w5 = "pr_between r 3 w3"
    have m': "purge_inv contents jid T m0 w3" "covered jid (pa_asset a) (pw_archive w3)" using m by (simp_all add: m3)
    note q3 = quiet_inv [OF quiet [of 3] m'(1)]
    obtain x ar where c: "FinalizeLifecyclePurgeAsset (pr_call r 3) jid worker (pa_asset a) (pw_archive ?w5) = (x, ar)"
      by (metis prod.exhaust)
    have "purge_inv contents jid T m0 (snd (archive_call r 3 (FinalizeLifecyclePurgeAsset (pr_call r 3) jid worker (pa_asset a)) w3))"
      using finalize_asset_inv [OF c q3(1) q3(3) [OF a(2) m'(2)]] q3(1) c by (simp add: archive_call_def Let_def)
    then show ?thesis unfolding eq m3 a(1) using m'(1) by (auto split: sum.split prod.split)
  qed
qed

lemma purge_round_inv:
  assumes quiet: "\<And>i n. purge_quiet contents jid T m0 (pr_between (env i) n)"
    and inv: "purge_inv contents jid T m0 w"
  shows "purge_inv contents jid T m0 (snd (purge_round_step st env jid worker i w))"
proof (cases "lifecyclePurgeContextError (env i)")
  case (Inl e)
  then show ?thesis using inv by (simp add: purge_round_step_def)
next
  case (Inr v)
  let ?r = "env i"
  let ?w1 = "pr_between ?r 0 w"
  note q = quiet_inv [OF quiet [of i 0] inv]
  obtain x ar where c: "NextLifecyclePurgeAsset (pr_call ?r 0) jid worker (pw_archive ?w1) = (x, ar)" by (metis prod.exhaust)
  define m where "m = archive_call ?r 0 (NextLifecyclePurgeAsset (pr_call ?r 0) jid worker) w"
  have m: "purge_inv contents jid T m0 (snd m)"
    using next_asset_inv [OF c q(1)] q(1) c by (simp add: m_def archive_call_def Let_def)
  have eq: "purge_round_step st env jid worker i w = (case m of
       (Inl e, w1) \<Rightarrow> (lifecyclePurgeResult ?r (Inl e), w1)
     | (Inr (Some a), w1) \<Rightarrow> purge_asset_step st ?r worker a w1
     | (Inr None, w1) \<Rightarrow>
         (case archive_call ?r 4 (FinalizeLifecyclePurgeJob (pr_call ?r 4) jid worker) w1 of
            (Inl e, w2) \<Rightarrow> (lifecyclePurgeResult ?r (Inl e), w2)
          | (Inr fin, w2) \<Rightarrow> if fin then (lifecyclePurgeResult ?r (Inr True), w2) else (Inr False, w2)))"
    unfolding purge_round_step_def Let_def Inr m_def by (simp only: sum.case)
  obtain x1 w1 where m1: "m = (x1, w1)" by (cases m)
  have inv1: "purge_inv contents jid T m0 w1" using m by (simp add: m1)
  consider (failed) e where "x1 = Inl e" | (finish) "x1 = Inr None" | (asset) a where "x1 = Inr (Some a)"
    by (cases x1) (auto intro: option.exhaust)
  then show ?thesis
  proof cases
    case failed
    then show ?thesis using inv1 by (simp add: eq m1)
  next
    case finish
    let ?w2 = "pr_between ?r 4 w1"
    note q4 = quiet_inv [OF quiet [of i 4] inv1]
    obtain y br where f: "FinalizeLifecyclePurgeJob (pr_call ?r 4) jid worker (pw_archive ?w2) = (y, br)" by (metis prod.exhaust)
    have "purge_inv contents jid T m0 (snd (archive_call ?r 4 (FinalizeLifecyclePurgeJob (pr_call ?r 4) jid worker) w1))"
      using finalize_job_inv [OF f q4(1)] q4(1) f by (simp add: archive_call_def Let_def)
    then show ?thesis unfolding eq m1 finish by (auto split: prod.split sum.split)
  next
    case asset
    have ok: "x = Inr (Some a)" "w1 = ?w1\<lparr>pw_archive := ar\<rparr>"
      using asset c m1 by (auto simp: m_def archive_call_def Let_def split: if_splits)
    have fit: "sessions_fit (pw_archive ?w1)" "targets jid T (ar_catalog (pw_archive ?w1))"
      using q(1) by (simp_all add: purge_inv_def purge_sound_def)
    note n = NextLifecyclePurgeAsset_step [OF c [unfolded ok(1)] fit]
    have "purge_inv contents jid T m0 (snd (purge_asset_step st ?r worker a w1))"
      by (rule purge_asset_inv [OF quiet inv1]) (use n ok(2) in simp_all)
    then show ?thesis by (simp add: eq m1 asset)
  qed
qed

lemma purger_Process_inv:
  assumes "\<And>i n. purge_quiet contents jid T m0 (pr_between (env i) n)" "purge_inv contents jid T m0 w"
    and "purger_Process st env jid worker w = Some y"
  shows "purge_inv contents jid T m0 (snd y)"
  by (rule run_batches_keeps [OF purge_round_inv assms(3) [unfolded purger_Process_def] assms(2)]) (rule assms(1))

end

text \<open>C13: A purge never loses track of a stored object: of every key that a media row named when it started, either a
  media row still names it when the purge stops, or the object is gone from storage. That holds however the purge
  ends (finished, cancelled, lease lost, a failed call of the database or of storage at any step) and whatever other
  processes do in between within the bounds of \<^term>\<open>purge_quiet\<close>.
\<close>

theorem purge_deletes_objects_first:
  assumes "s3_delete cl contents sha256"
    and "purge_sound contents jid T w"
    and "\<And>i n. purge_quiet contents jid T (ar_media (pw_archive w)) (pr_between (env i) n)"
    and "purger_Process (minio_store cl c) env jid worker w = Some (res, w')"
    and "media_names (ar_media (pw_archive w)) k"
  shows "media_names (ar_media (pw_archive w')) k \<or> contents (pw_store w') k = None"
proof -
  have "purge_inv contents jid T (ar_media (pw_archive w)) w"
    using assms(2) by (simp add: purge_inv_def left_behind_def)
  from purgeable_storage.purger_Process_inv [OF s3_delete.purgeable [OF assms(1)] assms(3) this assms(4)] assms(5)
  show ?thesis by (simp add: purge_inv_def left_behind_def)
qed

section \<open>A purge in full\<close>

text \<open>Folder \<open>f\<close> with the item \<open>a\<close>, whose original is stored, is past its retention and leased for purge.\<close>

definition purge_demo_catalog :: catalog where
  "purge_demo_catalog = \<lparr>c_orgs = [''o''], c_users = [''ann''],
     c_folders = [(demo_folder ''f'' [''f''] (Some 1) (Some ''unit''))\<lparr>fd_org := ''o''\<rparr>],
     c_items = [(demo_item ''a'' ''f'')\<lparr>it_deleted_at := Some 1, it_unit := Some ''unit''\<rparr>],
     c_units = [demo_unit\<lparr>lu_org := ''o'', lu_root := ''f'', lu_path := [''f''], lu_state := LifecyclePurging\<rparr>],
     c_jobs = [demo_job\<lparr>lj_org := ''o'', lj_legacy := None, lj_root := ''f'', lj_root_folder := ''f'', lj_path := [''f''],
                 lj_initiator := LifecycleJobInitiatorSystem, lj_requested_by := None, lj_operation := LifecycleJobPurge\<rparr>],
     c_djobs = []\<rparr>"

definition purge_demo_archive :: archive where
  "purge_demo_archive = \<lparr>ar_catalog = purge_demo_catalog, ar_media = demo_committed_db, ar_objects = []\<rparr>"

definition purge_demo_world :: "bucket purge_world" where
  "purge_demo_world = \<lparr>pw_archive = purge_demo_archive, pw_store = [''raw/o/a/s/original.png'' \<mapsto> (demo_raw, ''image/png'')]\<rparr>"

definition purge_demo_call :: purge_call where
  "purge_demo_call = \<lparr>pc_now = 20, pc_done = 21, pc_locked_items = [], pc_locked_folders = []\<rparr>"

text \<open>The keeper reports the lease lost before the second round.\<close>

definition purge_demo_env :: "nat \<Rightarrow> bucket purge_round" where
  "purge_demo_env i = \<lparr>pr_cancelled = (if i = 0 then None else Some LeaseLost), pr_lost = False,
     pr_call = (\<lambda>_. purge_demo_call), pr_fails = (\<lambda>_. False), pr_between = (\<lambda>_ w. w)\<rparr>"

definition purge_demo_store :: "bucket object_store" where
  "purge_demo_store = minio_store (memory_client short_digest) demo_minio"

definition demo_purge_run :: "(unit reply \<times> bucket purge_world) option" where
  "demo_purge_run = purger_Process purge_demo_store purge_demo_env ''job'' ''w1'' purge_demo_world"

definition purge_demo_next :: "purge_asset option reply \<times> archive" where
  "purge_demo_next = NextLifecyclePurgeAsset purge_demo_call ''job'' ''w1'' purge_demo_archive"

definition purge_demo_mark :: "unit reply \<times> archive" where
  "purge_demo_mark = MarkLifecyclePurgeObjectsDeleted purge_demo_call ''job'' ''w1'' ''a'' [''raw/o/a/s/original.png'']
     (snd purge_demo_next)"

definition purge_demo_finalize :: "unit reply \<times> archive" where
  "purge_demo_finalize = FinalizeLifecyclePurgeAsset purge_demo_call ''job'' ''w1'' ''a'' (snd purge_demo_mark)"

lemma purge_demo_sound: "purge_sound id ''job'' {''a''} purge_demo_world"
proof -
  have own: "b = ''a''" if "k \<in> named_keys b demo_committed_db" for k b
  proof -
    have "list_all (\<lambda>v. v_asset v = ''a'') (versions demo_committed_db) \<and> list_all (\<lambda>s. s_asset s = ''a'') (sessions demo_committed_db)"
      by code_simp
    with that show ?thesis by (auto simp: named_keys_def list_all_iff)
  qed
  have "one_owner demo_committed_db" unfolding one_owner_def using own by metis
  moreover have "catalog_ok purge_demo_catalog" by code_simp
  moreover have "list_all (\<lambda>x. list_all (\<lambda>s. s_asset s = it_id x \<longrightarrow> item_in_org purge_demo_catalog (s_org s) x)
      (sessions demo_committed_db)) (c_items purge_demo_catalog)" by code_simp
  moreover have "list_all (\<lambda>j. list_all (\<lambda>x. it_id x = ''a'') (c_items purge_demo_catalog)) (c_jobs purge_demo_catalog)" by code_simp
  ultimately show ?thesis
    by (auto simp: purge_sound_def purge_demo_world_def purge_demo_archive_def sessions_fit_def manifest_ok_def
        targets_def list_all_iff)
qed

theorem purge_keeps_ledger_witness:
  "\<exists>ar'. FinalizeLifecyclePurgeAsset purge_demo_call ''job'' ''w1'' ''a'' purge_demo_archive = (Inr (), ar')
     \<and> ledger_ok (ar_media ar') \<and> sessions (ar_media ar') = []"
proof -
  let ?f = "FinalizeLifecyclePurgeAsset purge_demo_call ''job'' ''w1'' ''a'' purge_demo_archive"
  have e: "is_ok (fst ?f) \<and> sessions (ar_media (snd ?f)) = []" by code_simp
  have org: "media_of_org (lj_org j) ''a'' (ar_media purge_demo_archive)"
    if "lockRunningPurgeJob (pc_now purge_demo_call) ''job'' ''w1'' (ar_catalog purge_demo_archive) = Inr (j, u)" for j u
  proof -
    have "list_all (\<lambda>j. lj_org j = ''o'') (c_jobs purge_demo_catalog)
      \<and> list_all (\<lambda>v. v_org v = ''o'') (versions demo_committed_db) \<and> list_all (\<lambda>s. s_org s = ''o'') (sessions demo_committed_db)"
      by code_simp
    with lockRunningPurgeJob_InrD(2) [OF that] show ?thesis
      by (auto simp: media_of_org_def purge_demo_archive_def list_all_iff)
  qed
  have ok: "tables_ok (ar_media purge_demo_archive)" "ledger_ok (ar_media purge_demo_archive)"
    by (simp_all add: purge_demo_archive_def demo_committed_ok)
  from e obtain ar' where r: "?f = (Inr (), ar')" "sessions (ar_media ar') = []"
    by (cases ?f) (auto simp: is_ok_iff)
  from purge_keeps_ledger [OF ok org r(1)] r show ?thesis by auto
qed

theorem purge_deletes_objects_first_witness:
  "\<exists>w'. demo_purge_run = Some (Inl ErrLifecyclePurgeLeaseLost, w') \<and> c_items (ar_catalog (pw_archive w')) = []
     \<and> pw_store w' ''raw/o/a/s/original.png'' = None"
proof -
  let ?k = "''raw/o/a/s/original.png''"
  have "case fst purge_demo_next of Inr (Some x) \<Rightarrow> pa_job x = ''job'' \<and> pa_asset x = ''a'' \<and> pa_keys x = [?k] | _ \<Rightarrow> False" by code_simp
  then obtain x n where x: "purge_demo_next = (Inr (Some x), n)" "pa_job x = ''job''" "pa_asset x = ''a''" "pa_keys x = [?k]"
    by (auto simp: prod_eq_iff split: sum.splits option.splits)
  have "is_ok (fst (delete_keys purge_demo_store [?k] (pw_store purge_demo_world)))" by code_simp
  then obtain s where d: "delete_keys purge_demo_store [?k] (pw_store purge_demo_world) = (Inr (), s)"
    by (cases "delete_keys purge_demo_store [?k] (pw_store purge_demo_world)") (auto simp: is_ok_iff)
  have "is_ok (fst purge_demo_mark)" by code_simp
  then obtain m where m: "purge_demo_mark = (Inr (), m)" by (auto simp: is_ok_iff prod_eq_iff)
  have "is_ok (fst purge_demo_finalize) \<and> c_items (ar_catalog (snd purge_demo_finalize)) = []
      \<and> versions (ar_media (snd purge_demo_finalize)) = [] \<and> outputs (ar_media (snd purge_demo_finalize)) = []
      \<and> sessions (ar_media (snd purge_demo_finalize)) = []" by code_simp
  then obtain f where f: "purge_demo_finalize = (Inr (), f)" and e: "c_items (ar_catalog f) = []"
    "versions (ar_media f) = []" "outputs (ar_media f) = []" "sessions (ar_media f) = []"
    by (auto simp: is_ok_iff prod_eq_iff)
  let ?w' = "\<lparr>pw_archive = f, pw_store = s\<rparr>" and ?r = "purge_demo_env 0" and ?w1 = "purge_demo_world\<lparr>pw_archive := n\<rparr>"
  have c0: "archive_call ?r 0 (NextLifecyclePurgeAsset (pr_call ?r 0) ''job'' ''w1'') purge_demo_world = (Inr (Some x), ?w1)"
    using x(1) by (simp add: archive_call_def Let_def purge_demo_env_def purge_demo_world_def purge_demo_next_def)
  have c2: "archive_call ?r 2 (MarkLifecyclePurgeObjectsDeleted (pr_call ?r 2) ''job'' ''w1'' ''a'' [?k]) (?w1\<lparr>pw_store := s\<rparr>)
      = (Inr (), ?w1\<lparr>pw_store := s, pw_archive := m\<rparr>)"
    using m [unfolded purge_demo_mark_def x(1) snd_conv]
    by (simp add: archive_call_def Let_def purge_demo_env_def purge_demo_world_def)
  have c3: "archive_call ?r 3 (FinalizeLifecyclePurgeAsset (pr_call ?r 3) ''job'' ''w1'' ''a'') (?w1\<lparr>pw_store := s, pw_archive := m\<rparr>)
      = (Inr (), ?w')"
    using f [unfolded purge_demo_finalize_def m snd_conv]
    by (simp add: archive_call_def Let_def purge_demo_env_def purge_demo_world_def)
  have st: "pw_store ?w1 = pw_store purge_demo_world" by simp
  have b1: "pr_between ?r 1 ?w1 = ?w1" and ok: "lifecyclePurgeContextError ?r = Inr ()"
    by (simp_all add: purge_demo_env_def lifecyclePurgeContextError_def)
  have "purge_asset_step purge_demo_store ?r ''w1'' x ?w1 = (Inr False, ?w')"
    unfolding purge_asset_step_def Let_def b1 x(2-4) by (simp only: st d c2 c3 prod.case sum.case)
  then have "purge_round_step purge_demo_store purge_demo_env ''job'' ''w1'' 0 purge_demo_world = (Inr False, ?w')"
    unfolding purge_round_step_def Let_def by (simp only: ok c0 prod.case sum.case option.case)
  moreover have "purge_round_step purge_demo_store purge_demo_env ''job'' ''w1'' 1 ?w' = (Inl ErrLifecyclePurgeLeaseLost, ?w')"
    by (simp add: purge_round_step_def lifecyclePurgeContextError_def purge_demo_env_def)
  ultimately have r: "demo_purge_run = Some (Inl ErrLifecyclePurgeLeaseLost, ?w')"
    unfolding demo_purge_run_def purger_Process_def by (simp add: run_batches_next run_batches_error)
  have quiet: "purge_quiet id ''job'' {''a''} (ar_media (pw_archive purge_demo_world)) (pr_between (purge_demo_env i) n)" for i n
    by (simp add: purge_quiet_def purge_demo_env_def)
  have "list_ex (\<lambda>v. v_raw_key v = ''raw/o/a/s/original.png'') (versions demo_committed_db)" by code_simp
  then have named: "media_names (ar_media (pw_archive purge_demo_world)) ''raw/o/a/s/original.png''"
    by (force simp: media_names_def purge_demo_world_def purge_demo_archive_def list_ex_iff)
  from purge_deletes_objects_first [OF memory_delete.s3_delete_axioms purge_demo_sound quiet r [unfolded demo_purge_run_def purge_demo_store_def] named] r e
  show ?thesis by (auto simp: media_names_def)
qed

end
