(* ===== verification/Retention_Run.thy ===== *)
theory Retention_Run
  imports Lifecycle_Cleanup Purge_Run
begin

text \<open>
  What retention guarantees: one run per date, whichever scheduler gets there first, and a run that ends has queued
  exactly one purge job for every recycle bin entry that was past its retention.
\<close>

section \<open>One run per date\<close>

text \<open>The primary key of the leases and the unique key of the runs.\<close>

definition retention_keys :: "retention \<Rightarrow> bool" where
  "retention_keys rt \<longleftrightarrow> distinct (map sl_name (rt_leases rt)) \<and> distinct (map (\<lambda>r. (rn_scheduler r, rn_date r)) (rt_runs rt))"

lemma ensure_lease_facts:
  "set (ensure_lease name ls) = set ls \<union> (if sql_exists (\<lambda>l. sl_name l = name) ls then {} else {\<lparr>sl_name = name, sl_owner = None, sl_expires = None\<rparr>})"
  "distinct (map sl_name ls) \<Longrightarrow> distinct (map sl_name (ensure_lease name ls))"
  by (auto simp: ensure_lease_def sql_exists_iff)

lemma acquire_Inr:
  assumes "AcquireDailyCleanupRun rid tnow now name worker runDate date tz rt = (Inr res, rt')"
  shows "acquire_work rid tnow now name worker date tz rt = Inr (res, rt')"
  using assms unfolding AcquireDailyCleanupRun_def by (auto split: if_splits dest: transaction_Inr)

lemma acquire_cases:
  assumes "AcquireDailyCleanupRun rid tnow now name worker runDate date tz rt = (Inr res, rt')"
  obtains (held) "\<forall>l\<in>set (ensure_lease name (rt_leases rt)). \<not> free_lease now name worker l" "res = no_lease"
      "rt' = rt\<lparr>rt_leases := ensure_lease name (rt_leases rt)\<rparr>"
  | (old) r where "find (day_run name date) (rt_runs rt) = Some r" "res = \<lparr>aq_run = Some r, aq_lease_acquired = True, aq_created = False\<rparr>"
      "rt_runs rt' = rt_runs rt" "rt_catalog rt' = rt_catalog rt"
      "rt_leases rt' = sql_update (free_lease now name worker)
         (\<lambda>l. l\<lparr>sl_owner := Some worker, sl_expires := Some (now + lifecycleCleanupSchedulerLeaseSeconds)\<rparr>) (ensure_lease name (rt_leases rt))"
      "\<exists>l\<in>set (ensure_lease name (rt_leases rt)). free_lease now name worker l"
  | (new) r where "\<forall>x\<in>set (rt_runs rt). \<not> day_run name date x" "r = queued_run rid name date tz tnow"
      "res = \<lparr>aq_run = Some r, aq_lease_acquired = True, aq_created = True\<rparr>" "rt_runs rt' = rt_runs rt @ [r]"
      "rt_catalog rt' = rt_catalog rt"
      "rt_leases rt' = sql_update (free_lease now name worker)
         (\<lambda>l. l\<lparr>sl_owner := Some worker, sl_expires := Some (now + lifecycleCleanupSchedulerLeaseSeconds)\<rparr>) (ensure_lease name (rt_leases rt))"
      "\<exists>l\<in>set (ensure_lease name (rt_leases rt)). free_lease now name worker l"
proof (cases "sql_exists (free_lease now name worker) (ensure_lease name (rt_leases rt))")
  case False
  with acquire_Inr [OF assms] show ?thesis
    by (intro held) (auto simp: acquire_work_def Let_def sql_exists_iff split: if_splits)
next
  case True
  note w = acquire_Inr [OF assms, unfolded acquire_work_def Let_def]
  show ?thesis
  proof (cases "find (day_run name date) (rt_runs rt)")
    case None
    from True w None find_NoneD [OF None] show ?thesis
      by (intro new [of "queued_run rid name date tz tnow"]) (auto simp: sql_exists_iff split: if_splits)
  next
    case (Some r)
    from True w Some show ?thesis
      by (intro old [OF Some]) (auto simp: sql_exists_iff split: if_splits)
  qed
qed

lemma acquire_keys:
  assumes "AcquireDailyCleanupRun rid tnow now name worker runDate date tz rt = (res, rt')" "retention_keys rt"
  shows "retention_keys rt'"
proof (cases res)
  case (Inl e)
  with assms show ?thesis
    by (auto simp: AcquireDailyCleanupRun_def dest: transaction_Inl split: if_splits)
next
  case (Inr x)
  have ids: "map sl_name (sql_update (free_lease now name worker)
         (\<lambda>l. l\<lparr>sl_owner := Some worker, sl_expires := Some (now + lifecycleCleanupSchedulerLeaseSeconds)\<rparr>) ls) = map sl_name ls" for ls
    by (simp add: sql_update_def)
  from assms(1) [unfolded Inr] show ?thesis
  proof (cases rule: acquire_cases)
    case held
    with assms(2) ensure_lease_facts(2) show ?thesis by (simp add: retention_keys_def)
  next
    case old
    with assms(2) ensure_lease_facts(2) show ?thesis by (simp add: retention_keys_def ids)
  next
    case new
    with assms(2) ensure_lease_facts(2) show ?thesis
      by (auto simp: retention_keys_def ids queued_run_def day_run_def)
  qed
qed

text \<open>C24: A daily tick that gets the scheduler lease returns the one run of that date: it creates it exactly when none is
  recorded, every other tick finds the recorded one, and while the lease of 120 seconds lasts any other scheduler is
  turned away and leaves every table as it is. Keys stay unique, so no date ever has two runs.
\<close>

theorem daily_run_is_created_once:
  assumes "retention_keys rt"
    and "AcquireDailyCleanupRun rid tnow now name worker runDate date tz rt = (Inr res, rt')" "aq_lease_acquired res"
  shows "retention_keys rt' \<and> (\<exists>r. aq_run res = Some r \<and> filter (day_run name date) (rt_runs rt') = [r]
      \<and> (aq_created res \<longleftrightarrow> \<not> sql_exists (day_run name date) (rt_runs rt))
      \<and> (aq_created res \<longrightarrow> rt_runs rt' = rt_runs rt @ [r]) \<and> (\<not> aq_created res \<longrightarrow> rt_runs rt' = rt_runs rt))
    \<and> (other \<noteq> worker \<longrightarrow> now' < now + lifecycleCleanupSchedulerLeaseSeconds \<longrightarrow>
         AcquireDailyCleanupRun rid' tnow' now' name other runDate' date' tz' rt' = (res', rt'') \<longrightarrow>
         rt'' = rt' \<and> (case res' of Inl _ \<Rightarrow> True | Inr a \<Rightarrow> \<not> aq_lease_acquired a))"
proof -
  have keys: "retention_keys rt'" by (rule acquire_keys [OF assms(2,1)])
  have one: "filter (day_run name date) rs = [r]"
    if "distinct (map (\<lambda>r. (rn_scheduler r, rn_date r)) rs)" "r \<in> set rs" "day_run name date r" for rs r
    using that
  proof (induction rs)
    case (Cons x xs)
    then show ?case by (auto simp: day_run_def image_iff filter_empty_conv)
  qed simp
  let ?take = "\<lambda>l. l\<lparr>sl_owner := Some worker, sl_expires := Some (now + lifecycleCleanupSchedulerLeaseSeconds)\<rparr>"
  have lease: "rt_leases rt' = sql_update (free_lease now name worker) ?take (ensure_lease name (rt_leases rt))
      \<and> (\<exists>l\<in>set (ensure_lease name (rt_leases rt)). free_lease now name worker l)"
    using assms(2,3) by (cases rule: acquire_cases) (auto simp: no_lease_def)
  then obtain l where l: "l \<in> set (ensure_lease name (rt_leases rt))" "free_lease now name worker l" by blast
  have taken: "?take l \<in> set (rt_leases rt')" using lease l by (auto intro: rev_image_eqI simp: set_sql_update)
  have only: "x = ?take l" if "x \<in> set (rt_leases rt')" "sl_name x = name" for x
    using keys that taken l(2) by (auto simp: retention_keys_def free_lease_def dest: distinct_map_eq)
  have blocked: "\<not> free_lease now' name other x" if "x \<in> set (rt_leases rt')" "other \<noteq> worker"
      "now' < now + lifecycleCleanupSchedulerLeaseSeconds" for x
    using only [OF that(1)] that(2,3) by (auto simp: free_lease_def)
  have here: "ensure_lease name (rt_leases rt') = rt_leases rt'"
    using bexI [OF _ taken, of "\<lambda>r. sl_name r = name"] l(2) by (auto simp: ensure_lease_def sql_exists_iff free_lease_def)
  have other: "rt'' = rt' \<and> (case res' of Inl _ \<Rightarrow> True | Inr a \<Rightarrow> \<not> aq_lease_acquired a)"
    if "other \<noteq> worker" "now' < now + lifecycleCleanupSchedulerLeaseSeconds"
      and run: "AcquireDailyCleanupRun rid' tnow' now' name other runDate' date' tz' rt' = (res', rt'')"
  proof (cases res')
    case (Inl e)
    with run show ?thesis by (auto simp: AcquireDailyCleanupRun_def dest: transaction_Inl split: if_splits)
  next
    case (Inr a)
    from run [unfolded Inr] show ?thesis
      by (cases rule: acquire_cases) (use blocked [OF _ that(1,2)] here Inr in \<open>auto simp: no_lease_def\<close>)
  qed
  have "\<exists>r. aq_run res = Some r \<and> filter (day_run name date) (rt_runs rt') = [r]
      \<and> (aq_created res \<longleftrightarrow> \<not> sql_exists (day_run name date) (rt_runs rt))
      \<and> (aq_created res \<longrightarrow> rt_runs rt' = rt_runs rt @ [r]) \<and> (\<not> aq_created res \<longrightarrow> rt_runs rt' = rt_runs rt)"
    using assms(2)
  proof (cases rule: acquire_cases)
    case held
    with assms(3) show ?thesis by (simp add: no_lease_def)
  next
    case (old r)
    have "r \<in> set (rt_runs rt)" "day_run name date r" using find_SomeD [OF old(1)] by auto
    with old one [of "rt_runs rt'" r] keys show ?thesis by (auto simp: retention_keys_def sql_exists_iff)
  next
    case (new r)
    have "day_run name date r" using new(2) by (simp add: day_run_def queued_run_def)
    with new one [of "rt_runs rt'" r] keys show ?thesis by (auto simp: retention_keys_def sql_exists_iff)
  qed
  with keys other show ?thesis by blast
qed

definition demo_retention :: retention where
  "demo_retention = \<lparr>rt_leases = [], rt_runs = [], rt_catalog = demo_catalog\<rparr>"

definition demo_day_tick :: "(acquire_result reply \<times> bool) \<times> retention" where
  "demo_day_tick = runRetentionCleanupTick (\<lambda>_. \<lparr>ct_date = ''2026-01-02'', ct_hour = 2\<rparr>) ''Asia/Bangkok'' ''run'' 10 10 ''w1'' 10 demo_retention"

theorem daily_run_is_created_once_witness:
  "\<exists>r rt'. demo_day_tick = ((Inr \<lparr>aq_run = Some r, aq_lease_acquired = True, aq_created = True\<rparr>, True), rt') \<and> rt_runs rt' = [r]"
proof -
  have c: "case fst (fst demo_day_tick) of Inr a \<Rightarrow> aq_lease_acquired a \<and> aq_created a \<and> snd (fst demo_day_tick) | _ \<Rightarrow> False" by code_simp
  then obtain a rt' where a: "demo_day_tick = ((Inr a, True), rt')" "aq_lease_acquired a" "aq_created a"
    by (auto simp: prod_eq_iff split: sum.splits)
  have "AcquireDailyCleanupRun ''run'' 10 10 retentionSchedulerName ''w1'' 10 ''2026-01-02'' ''Asia/Bangkok'' demo_retention = (Inr a, rt')"
    using a(1) by (auto simp: demo_day_tick_def runRetentionCleanupTick_def retentionSchedulerHour_def split: prod.splits)
  note made = this
  have k: "retention_keys demo_retention" by (simp add: demo_retention_def retention_keys_def)
  from daily_run_is_created_once [OF k made a(2), THEN conjunct2, THEN conjunct1] a(3)
  obtain r where "aq_run a = Some r" "rt_runs rt' = [r]" by (auto simp: demo_retention_def)
  with a show ?thesis by (intro exI [of _ r] exI [of _ rt']) (cases a, simp)
qed

section \<open>A cleanup run\<close>

definition no_open_job :: "catalog \<Rightarrow> unit_row \<Rightarrow> bool" where
  "no_open_job d u \<longleftrightarrow> (\<forall>j\<in>set (c_jobs d). lj_unit j = Some (lu_id u) \<longrightarrow> \<not> job_open j)"

lemma purge_job_row:
  assumes "catalog_ok d" "u \<in> set (c_units d)"
  shows "lifecycle_job_check (purge_job jid now tnow rf u) \<and> lifecycle_job_refs d (purge_job jid now tnow rf u)"
  using catalog_ok_refs(3) [OF assms] assms(2)
  by (auto simp: lifecycle_job_check_def lifecycle_job_refs_def purge_job_def unit_refs_def in_opt_def image_iff)

lemma purge_queued_units_ok:
  assumes "catalog_ok d" "u \<in> set (c_units d)" "lu_state u = LifecycleDeleted"
  shows "catalog_ok (d\<lparr>c_units := sql_update (\<lambda>r. lu_id r = lu_id u \<and> lu_org r = lu_org u \<and> lu_state r = LifecycleDeleted)
      (\<lambda>r. r\<lparr>lu_state := LifecyclePurgeQueued\<rparr>) (c_units d)\<rparr>)"
proof (rule ok_units [OF assms(1), where new = "[]"])
  show "rows_unique unit_conflict (sql_update (\<lambda>r. lu_id r = lu_id u \<and> lu_org r = lu_org u \<and> lu_state r = LifecycleDeleted)
      (\<lambda>r. r\<lparr>lu_state := LifecyclePurgeQueued\<rparr>) (c_units d))"
    using catalog_okD(3) [OF assms(1)]
    by (rule rows_unique_update) (auto simp: unit_conflict_def unit_live_def split: if_splits)
  fix r
  assume "r \<in> set (sql_update (\<lambda>r. lu_id r = lu_id u \<and> lu_org r = lu_org u \<and> lu_state r = LifecycleDeleted)
      (\<lambda>r. r\<lparr>lu_state := LifecyclePurgeQueued\<rparr>) (c_units d))"
  then obtain x where x: "x \<in> set (c_units d)" "r = x \<or> r = x\<lparr>lu_state := LifecyclePurgeQueued\<rparr>" by auto
  from x(2) catalog_ok_checks(3) [OF assms(1) x(1)] catalog_ok_refs(3) [OF assms(1) x(1)]
  show "unit_check r \<and> unit_refs d r" by (auto simp: unit_check_def unit_refs_def)
qed (simp add: sql_update_def)

text \<open>Queueing the purge of one entry cannot fail when the entry has no open job and the identifier is new.\<close>

lemma queue_purge_ok:
  assumes "catalog_ok d" "u \<in> set (c_units d)" "lu_state u = LifecycleDeleted" "no_open_job d u" "jid \<notin> lj_id ` set (c_jobs d)"
  obtains rf where "queue_purge e jid u d = Inr (d\<lparr>c_jobs := c_jobs d @ [purge_job jid (ce_now e) (ce_tnow e) rf u],
      c_units := map (\<lambda>r. if lu_id r = lu_id u then r\<lparr>lu_state := LifecyclePurgeQueued\<rparr> else r) (c_units d)\<rparr>)"
    "catalog_ok (d\<lparr>c_jobs := c_jobs d @ [purge_job jid (ce_now e) (ce_tnow e) rf u],
      c_units := map (\<lambda>r. if lu_id r = lu_id u then r\<lparr>lu_state := LifecyclePurgeQueued\<rparr> else r) (c_units d)\<rparr>)"
proof -
  have "unit_check u" by (rule catalog_ok_checks(3) [OF assms(1,2)])
  then obtain rf where rf: "(if lu_type u = LifecycleResourceMetadata
      then from_option (ErrMessage ''metadata lifecycle unit has no original folder'') (lu_folder u) else Inr (lu_root u)) = Inr rf"
    by (cases "lu_type u"; cases "lu_folder u") (auto simp: unit_check_def)
  define j where "j = purge_job jid (ce_now e) (ce_tnow e) rf u"
  have jobs: "catalog_ok (d\<lparr>c_jobs := c_jobs d @ [j]\<rparr>)"
  proof (rule ok_jobs [OF assms(1)])
    show "rows_unique lifecycle_job_conflict (c_jobs d @ [j])"
      using catalog_okD(4) [OF assms(1)] assms(4,5)
      by (auto simp: rows_unique_append lifecycle_job_conflict_def j_def purge_job_def no_open_job_def)
    show "lifecycle_job_check r \<and> lifecycle_job_refs d r" if "r \<in> set (c_jobs d @ [j])" for r
      using that purge_job_row [OF assms(1,2)] catalog_ok_checks(4) [OF assms(1)] catalog_ok_refs(4) [OF assms(1)]
      by (auto simp: j_def)
  qed
  have same: "sql_update (\<lambda>r. lu_id r = lu_id u \<and> lu_org r = lu_org u \<and> lu_state r = LifecycleDeleted)
      (\<lambda>r. r\<lparr>lu_state := LifecyclePurgeQueued\<rparr>) (c_units d)
    = map (\<lambda>r. if lu_id r = lu_id u then r\<lparr>lu_state := LifecyclePurgeQueued\<rparr> else r) (c_units d)"
    unfolding sql_update_as_map using same_row(3) [OF assms(1) _ assms(2)] assms(3) by auto
  have units: "catalog_ok (d\<lparr>c_jobs := c_jobs d @ [j],
      c_units := map (\<lambda>r. if lu_id r = lu_id u then r\<lparr>lu_state := LifecyclePurgeQueued\<rparr> else r) (c_units d)\<rparr>)"
    using purge_queued_units_ok [OF jobs, of u] assms(2,3) by (simp add: same)
  then have "queue_purge e jid u d = Inr (d\<lparr>c_jobs := c_jobs d @ [j],
      c_units := map (\<lambda>r. if lu_id r = lu_id u then r\<lparr>lu_state := LifecyclePurgeQueued\<rparr> else r) (c_units d)\<rparr>)"
    unfolding queue_purge_def rf using jobs by (auto simp: set_unit_state_def same j_def)
  with units that show ?thesis unfolding j_def by blast
qed

definition to_purge :: "string set \<Rightarrow> unit_row \<Rightarrow> unit_row" where
  "to_purge ids r = (if lu_id r \<in> ids then r\<lparr>lu_state := LifecyclePurgeQueued\<rparr> else r)"

lemma to_purge_simps [simp]:
  "lu_id (to_purge ids r) = lu_id r" "lu_org (to_purge ids r) = lu_org r" "lu_path (to_purge ids r) = lu_path r"
  "lu_type (to_purge ids r) = lu_type r" "lu_retention_until (to_purge ids r) = lu_retention_until r"
  by (simp_all add: to_purge_def)

lemma to_purge_empty [simp]: "to_purge {} = id"
  by (auto simp: to_purge_def)

lemma to_purge_twice: "to_purge A (to_purge B r) = to_purge (A \<union> B) r"
  by (simp add: to_purge_def)

text \<open>The job that a batch queues for an entry.\<close>

definition queued_for :: "unit_row \<Rightarrow> lifecycle_job \<Rightarrow> bool" where
  "queued_for u j \<longleftrightarrow> lj_unit j = Some (lu_id u) \<and> lj_org j = lu_org u \<and> lj_type j = lu_type u \<and> lj_root j = lu_root u
     \<and> lj_path j = lu_path u \<and> lj_operation j = LifecycleJobPurge \<and> lj_status j = LifecycleJobQueued
     \<and> lj_initiator j = LifecycleJobInitiatorSystem \<and> lj_lease_owner j = None"

lemma queued_for_to_purge [simp]: "queued_for (to_purge ids u) j = queued_for u j"
  by (simp add: queued_for_def to_purge_def)

definition purge_jobs_for :: "unit_row list \<Rightarrow> string set \<Rightarrow> lifecycle_job list \<Rightarrow> bool" where
  "purge_jobs_for us ids js \<longleftrightarrow> map lj_unit js = map (\<lambda>u. Some (lu_id u)) us \<and> lj_id ` set js \<subseteq> ids
     \<and> (\<forall>j\<in>set js. \<exists>u\<in>set us. queued_for u j)"

lemma queue_purges_ok:
  assumes "catalog_ok d" "set us \<subseteq> set (c_units d)" "distinct (map lu_id us)"
    "\<And>u. u \<in> set us \<Longrightarrow> lu_state u = LifecycleDeleted \<and> no_open_job d u"
    "\<And>k. n \<le> k \<Longrightarrow> ce_ids e k \<notin> lj_id ` set (c_jobs d)" "inj (ce_ids e)"
  shows "\<exists>js. queue_purges e n us d = Inr (d\<lparr>c_jobs := c_jobs d @ js, c_units := map (to_purge (lu_id ` set us)) (c_units d)\<rparr>)
     \<and> catalog_ok (d\<lparr>c_jobs := c_jobs d @ js, c_units := map (to_purge (lu_id ` set us)) (c_units d)\<rparr>)
     \<and> purge_jobs_for us (ce_ids e ` {n..}) js"
  using assms(1-5)
proof (induction us arbitrary: n d)
  case Nil
  then show ?case by (intro exI [of _ "[]"]) (simp add: purge_jobs_for_def)
next
  case (Cons u us)
  obtain rf where q: "queue_purge e (ce_ids e n) u d = Inr (d\<lparr>c_jobs := c_jobs d @ [purge_job (ce_ids e n) (ce_now e) (ce_tnow e) rf u],
      c_units := map (\<lambda>r. if lu_id r = lu_id u then r\<lparr>lu_state := LifecyclePurgeQueued\<rparr> else r) (c_units d)\<rparr>)"
    "catalog_ok (d\<lparr>c_jobs := c_jobs d @ [purge_job (ce_ids e n) (ce_now e) (ce_tnow e) rf u],
      c_units := map (\<lambda>r. if lu_id r = lu_id u then r\<lparr>lu_state := LifecyclePurgeQueued\<rparr> else r) (c_units d)\<rparr>)"
    by (rule queue_purge_ok [OF Cons.prems(1), of u "ce_ids e n"]) (use Cons.prems in auto)
  define j where "j = purge_job (ce_ids e n) (ce_now e) (ce_tnow e) rf u"
  have j: "lj_id j = ce_ids e n" "lj_unit j = Some (lu_id u)" "queued_for u j"
    by (simp_all add: j_def purge_job_def queued_for_def)
  have f: "(\<lambda>r. if lu_id r = lu_id u then r\<lparr>lu_state := LifecyclePurgeQueued\<rparr> else r) = to_purge {lu_id u}"
    by (auto simp: to_purge_def)
  define d1 where "d1 = d\<lparr>c_jobs := c_jobs d @ [j], c_units := map (to_purge {lu_id u}) (c_units d)\<rparr>"
  note q1 = q [folded j_def, unfolded f, folded d1_def]
  have tail: "v \<in> set (c_units d1)" if "v \<in> set us" for v
  proof -
    have "lu_id v \<noteq> lu_id u" using Cons.prems(3) that by (auto simp: image_iff)
    then have "to_purge {lu_id u} v = v" by (simp add: to_purge_def)
    moreover have "v \<in> set (c_units d)" using Cons.prems(2) that by auto
    ultimately show ?thesis unfolding d1_def by (auto intro: rev_image_eqI)
  qed
  have "\<exists>js. queue_purges e (Suc n) us d1 = Inr (d1\<lparr>c_jobs := c_jobs d1 @ js, c_units := map (to_purge (lu_id ` set us)) (c_units d1)\<rparr>)
     \<and> catalog_ok (d1\<lparr>c_jobs := c_jobs d1 @ js, c_units := map (to_purge (lu_id ` set us)) (c_units d1)\<rparr>)
     \<and> purge_jobs_for us (ce_ids e ` {Suc n..}) js"
  proof (rule Cons.IH [OF q1(2)])
    show "set us \<subseteq> set (c_units d1)" using tail by blast
    show "distinct (map lu_id us)" using Cons.prems(3) by simp
    show "lu_state v = LifecycleDeleted \<and> no_open_job d1 v" if "v \<in> set us" for v
    proof -
      have "lu_id v \<noteq> lu_id u" using Cons.prems(3) that by (auto simp: image_iff)
      with Cons.prems(4) [of v] that j(2) show ?thesis by (auto simp: no_open_job_def d1_def)
    qed
    show "ce_ids e k \<notin> lj_id ` set (c_jobs d1)" if "Suc n \<le> k" for k
      using Cons.prems(5) [of k] that assms(6) j(1) by (auto simp: d1_def inj_eq)
  qed
  then obtain js where js: "queue_purges e (Suc n) us d1 = Inr (d1\<lparr>c_jobs := c_jobs d1 @ js, c_units := map (to_purge (lu_id ` set us)) (c_units d1)\<rparr>)"
    "catalog_ok (d1\<lparr>c_jobs := c_jobs d1 @ js, c_units := map (to_purge (lu_id ` set us)) (c_units d1)\<rparr>)"
    "purge_jobs_for us (ce_ids e ` {Suc n..}) js" by blast
  have e: "d1\<lparr>c_jobs := c_jobs d1 @ js, c_units := map (to_purge (lu_id ` set us)) (c_units d1)\<rparr>
      = d\<lparr>c_jobs := c_jobs d @ (j # js), c_units := map (to_purge (lu_id ` set (u # us))) (c_units d)\<rparr>"
    by (simp add: d1_def comp_def to_purge_twice)
  have "purge_jobs_for (u # us) (ce_ids e ` {n..}) (j # js)"
    using js(3) j by (auto simp: purge_jobs_for_def)
  with js(1,2) q1(1) show ?case unfolding e by (intro exI [of _ "j # js"]) simp
qed

text \<open>Repeated polls of a worker until the run is settled.\<close>

definition cleanup_round :: "(nat \<Rightarrow> cleanup_env) \<Rightarrow> nat \<Rightarrow> retention \<Rightarrow> bool reply \<times> retention" where
  "cleanup_round env i rt =
     (case ProcessNextLifecycleCleanupBatch (env i) rt of
        (Inl err, rt') \<Rightarrow> (Inl err, rt')
      | (Inr None, rt') \<Rightarrow> (Inr True, rt')
      | (Inr (Some r), rt') \<Rightarrow> (Inr (cl_completed r), rt'))"

text \<open>
  What retention asks for, apart from how a batch selects its rows: an entry of the bin is due when its retention is
  over, unless it is a folder with another entry of the organization below its path that is neither restored nor purged.
\<close>

definition past_retention :: "instant \<Rightarrow> unit_row \<Rightarrow> bool" where
  "past_retention now u \<longleftrightarrow> lu_state u = LifecycleDeleted \<and> (\<exists>r. lu_retention_until u = Some r \<and> r \<le> now)"

definition live_entry_below :: "catalog \<Rightarrow> unit_row \<Rightarrow> bool" where
  "live_entry_below d u \<longleftrightarrow> (\<exists>v\<in>set (c_units d). lu_id v \<noteq> lu_id u \<and> lu_org v = lu_org u
     \<and> lu_state v \<noteq> LifecycleRestored \<and> lu_state v \<noteq> LifecyclePurged \<and> (\<exists>rest. lu_path v = lu_path u @ rest))"

definition due_for_purge :: "instant \<Rightarrow> catalog \<Rightarrow> unit_row \<Rightarrow> bool" where
  "due_for_purge now d u \<longleftrightarrow> past_retention now u \<and> (lu_type u = LifecycleResourceFolder \<longrightarrow> \<not> live_entry_below d u)"

lemma cleanup_eligible_due: "cleanup_eligible now d u = due_for_purge now d u"
  by (cases "lu_type u")
    (auto simp: cleanup_eligible_def due_for_purge_def past_retention_def live_entry_below_def dependent_unit_def
      sql_exists_iff below_iff split: option.splits)

text \<open>
  \<open>bin_progress\<close>: from the catalogue \<open>d0\<close> at the start to \<open>d\<close>, some entries that were due by the instant \<open>until\<close> have
  been queued for purge, each with one new purge job, and nothing else has changed. \<open>cleanup_ready\<close>: the catalogue is
  sound, the run named \<open>rid\<close> is the oldest open one, no entry in the bin has an open job, identifiers of later rounds are new.
\<close>

definition bin_progress :: "instant \<Rightarrow> catalog \<Rightarrow> catalog \<Rightarrow> bool" where
  "bin_progress until d0 d \<longleftrightarrow> (\<exists>ids js. d = d0\<lparr>c_units := map (to_purge ids) (c_units d0), c_jobs := c_jobs d0 @ js\<rparr>
     \<and> (\<forall>u\<in>set (c_units d0). lu_id u \<in> ids \<longrightarrow> due_for_purge until d0 u)
     \<and> distinct (map lj_unit js) \<and> lj_unit ` set js = Some ` ids
     \<and> (\<forall>j\<in>set js. \<exists>u\<in>set (c_units d0). lu_id u \<in> ids \<and> queued_for u j))"

definition cleanup_ready :: "instant \<Rightarrow> catalog \<Rightarrow> string \<Rightarrow> (nat \<Rightarrow> cleanup_env) \<Rightarrow> nat \<Rightarrow> retention \<Rightarrow> bool" where
  "cleanup_ready until d0 rid env i rt \<longleftrightarrow> catalog_ok (rt_catalog rt) \<and> bin_progress until d0 (rt_catalog rt)
     \<and> (\<forall>u\<in>set (c_units (rt_catalog rt)). lu_state u = LifecycleDeleted \<longrightarrow> no_open_job (rt_catalog rt) u)
     \<and> distinct (map rn_id (rt_runs rt))
     \<and> (\<exists>r. first_row (\<lambda>r. (rn_date r, rn_created_at r, rn_id r))
          (\<lambda>r. rn_status r \<in> {LifecycleCleanupRunQueued, LifecycleCleanupRunRunning}) (rt_runs rt) = Some r \<and> rn_id r = rid)
     \<and> (\<forall>k\<ge>i. \<forall>n. ce_ids (env k) n \<notin> lj_id ` set (c_jobs (rt_catalog rt)))"

text \<open>
  Nothing is locked, identifiers are never drawn twice, and both statements of a round read the clock in order, between
  \<open>t\<close> and \<open>until\<close>.
\<close>

definition cleanup_alone :: "instant \<Rightarrow> instant \<Rightarrow> (nat \<Rightarrow> cleanup_env) \<Rightarrow> bool" where
  "cleanup_alone t until env \<longleftrightarrow> (\<forall>i. ce_locked_runs (env i) = [] \<and> ce_locked_units (env i) = []
     \<and> t \<le> ce_pick (env i) \<and> ce_pick (env i) \<le> ce_list (env i) \<and> ce_list (env i) \<le> until \<and> inj (ce_ids (env i))
     \<and> (\<forall>k>i. \<forall>m n. ce_ids (env i) m \<noteq> ce_ids (env k) n))"

definition bin_size :: "retention \<Rightarrow> nat" where
  "bin_size rt = length (filter (\<lambda>u. lu_state u = LifecycleDeleted) (c_units (rt_catalog rt)))"

definition cleanup_settled :: "instant \<Rightarrow> instant \<Rightarrow> catalog \<Rightarrow> string \<Rightarrow> retention \<Rightarrow> bool" where
  "cleanup_settled t until d0 rid rt \<longleftrightarrow>
     (\<exists>r\<in>set (rt_runs rt). rn_id r = rid \<and> rn_status r = LifecycleCleanupRunSucceeded)
     \<and> bin_progress until d0 (rt_catalog rt) \<and> catalog_ok (rt_catalog rt)
     \<and> \<not> sql_exists (cleanup_eligible t (rt_catalog rt)) (c_units (rt_catalog rt))"

lemma eligible_later:
  "cleanup_eligible t d u \<Longrightarrow> t \<le> t' \<Longrightarrow> cleanup_eligible t' d u"
  by (auto simp: cleanup_eligible_def split: option.splits)

declare order_by_set [simp]

lemma insort_key_map:
  "(\<And>x. x \<in> set (a # xs) \<Longrightarrow> k (f x) = k x) \<Longrightarrow> insort_key k (f a) (map f xs) = map f (insort_key k a xs)"
  by (induction xs) auto

lemma order_by_map:
  assumes "\<And>x. x \<in> set xs \<Longrightarrow> k (f x) = k x"
  shows "order_by k (map f xs) = map f (order_by k xs)"
  using assms unfolding order_by_def
proof (induction xs)
  case (Cons a xs)
  have "insort_key k (f a) (map f (sort_key k xs)) = map f (insort_key k a (sort_key k xs))"
    by (rule insort_key_map) (use Cons.prems in auto)
  with Cons show ?case by simp
qed simp

lemma first_row_map:
  assumes "\<And>x. x \<in> set xs \<Longrightarrow> k (f x) = k x \<and> c (f x) = c x"
  shows "first_row k c (map f xs) = map_option f (first_row k c xs)"
proof -
  have "filter c (map f xs) = map f (filter c xs)" using assms by (induction xs) auto
  then have "order_by k (filter c (map f xs)) = map f (order_by k (filter c xs))"
    using order_by_map [of "filter c xs" k f] assms by simp
  then show ?thesis by (simp add: first_row_def split: list.split)
qed

lemma eligible_same:
  assumes "\<forall>u\<in>set us0. lu_id u \<in> ids \<longrightarrow> lu_state u = LifecycleDeleted" "c_units d0 = us0" "c_units d = map (to_purge ids) us0"
    and "lu_id u \<notin> ids"
  shows "cleanup_eligible t d u = cleanup_eligible t d0 u"
proof -
  have "dependent_unit u (to_purge ids v) = dependent_unit u v" if "v \<in> set us0" for v
    using assms(1) that by (auto simp: dependent_unit_def to_purge_def)
  then have "sql_exists (dependent_unit u) (c_units d) = sql_exists (dependent_unit u) (c_units d0)"
    using assms(2,3) by (auto simp: sql_exists_iff)
  then show ?thesis by (simp add: cleanup_eligible_def)
qed

lemma bin_progress_step:
  assumes prog: "bin_progress until d0 d" and ok: "catalog_ok d"
    and us: "\<And>u. u \<in> set us \<Longrightarrow> u \<in> set (c_units d) \<and> due_for_purge until d u" and dist: "distinct (map lu_id us)"
    and js: "purge_jobs_for us new js"
  shows "bin_progress until d0 (d\<lparr>c_jobs := c_jobs d @ js, c_units := map (to_purge (lu_id ` set us)) (c_units d)\<rparr>)"
proof -
  obtain ids ks where d: "d = d0\<lparr>c_units := map (to_purge ids) (c_units d0), c_jobs := c_jobs d0 @ ks\<rparr>"
    and ids: "\<forall>u\<in>set (c_units d0). lu_id u \<in> ids \<longrightarrow> due_for_purge until d0 u"
    and ks: "distinct (map lj_unit ks)" "lj_unit ` set ks = Some ` ids"
      "\<forall>j\<in>set ks. \<exists>u\<in>set (c_units d0). lu_id u \<in> ids \<and> queued_for u j"
    using prog by (auto simp: bin_progress_def)
  have old: "u \<in> set (c_units d0) \<and> lu_id u \<notin> ids \<and> due_for_purge until d0 u" if u: "u \<in> set us" for u
  proof -
    obtain v where v: "v \<in> set (c_units d0)" "u = to_purge ids v" using us [OF u] d by auto
    moreover have "lu_state u = LifecycleDeleted" using us [OF u] by (simp add: due_for_purge_def past_retention_def)
    ultimately have n: "lu_id u \<notin> ids" "u = v" by (auto simp: to_purge_def split: if_splits)
    have "cleanup_eligible until d u = cleanup_eligible until d0 u"
      using ids by (intro eligible_same [of "c_units d0" ids d0 d, OF _ refl])
        (auto simp: due_for_purge_def past_retention_def d n(1))
    then show ?thesis using us [OF u] v n by (simp add: cleanup_eligible_due)
  qed
  have lj: "map lj_unit js = map Some (map lu_id us)" using js by (simp add: purge_jobs_for_def)
  then have units: "lj_unit ` set js = Some ` lu_id ` set us" by (metis list.set_map)
  have "distinct (map lj_unit js)" unfolding lj using dist by (auto simp: distinct_map inj_on_def)
  moreover have "Some ` ids \<inter> Some ` lu_id ` set us = {}" using old by auto
  ultimately have "distinct (map lj_unit (ks @ js))" using ks(1,2) units by simp
  moreover have "lj_unit ` set (ks @ js) = Some ` (lu_id ` set us \<union> ids)" using ks(2) units by (auto simp: image_Un)
  moreover have "due_for_purge until d0 u" if u: "u \<in> set (c_units d0)" "lu_id u \<in> lu_id ` set us \<union> ids" for u
  proof (cases "lu_id u \<in> ids")
    case False
    then obtain v where v: "v \<in> set us" "lu_id v = lu_id u" using u(2) by auto
    have "to_purge ids u \<in> set (c_units d)" "to_purge ids v \<in> set (c_units d)" using u(1) old [OF v(1)] by (simp_all add: d)
    then have "v = u" using same_row(3) [OF ok] v(2) old [OF v(1)] False by (auto simp: to_purge_def)
    then show ?thesis using old [OF v(1)] by simp
  qed (use ids u(1) in blast)
  moreover have "\<exists>u\<in>set (c_units d0). lu_id u \<in> lu_id ` set us \<union> ids \<and> queued_for u j" if "j \<in> set (ks @ js)" for j
    using that ks(3) js old by (auto simp: purge_jobs_for_def) blast+
  moreover have "d\<lparr>c_jobs := c_jobs d @ js, c_units := map (to_purge (lu_id ` set us)) (c_units d)\<rparr>
      = d0\<lparr>c_units := map (to_purge (lu_id ` set us \<union> ids)) (c_units d0), c_jobs := c_jobs d0 @ (ks @ js)\<rparr>"
    by (simp add: d comp_def to_purge_twice)
  ultimately show ?thesis unfolding bin_progress_def
    by (intro exI [of _ "lu_id ` set us \<union> ids"] exI [of _ "ks @ js"]) blast
qed

lemma length_filter_strict:
  assumes "\<And>x. x \<in> set xs \<Longrightarrow> Q x \<Longrightarrow> P x" "y \<in> set xs" "P y" "\<not> Q y"
  shows "length (filter Q xs) < length (filter P xs)"
proof -
  have "filter Q xs = filter Q (filter P xs)" using assms(1) by (induction xs) auto
  moreover have "length (filter Q (filter P xs)) < length (filter P xs)"
    by (rule length_filter_less [of y]) (use assms(2-4) in auto)
  ultimately show ?thesis by simp
qed

lemma cleanup_round_effect:
  assumes "cleanup_ready until d0 rid env i rt" "cleanup_alone t until env"
  shows "(\<exists>rt'. cleanup_round env i rt = (Inr True, rt') \<and> cleanup_settled t until d0 rid rt')
    \<or> (\<exists>rt'. cleanup_round env i rt = (Inr False, rt') \<and> cleanup_ready until d0 rid env (Suc i) rt' \<and> bin_size rt' < bin_size rt)"
proof -
  let ?d = "rt_catalog rt" and ?e = "env i"
  let ?open = "\<lambda>r. rn_status r \<in> {LifecycleCleanupRunQueued, LifecycleCleanupRunRunning}"
  note R = assms(1) [unfolded cleanup_ready_def] and A = assms(2) [unfolded cleanup_alone_def, rule_format, of i]
  have ok: "catalog_ok ?d" and prog: "bin_progress until d0 ?d" and runs: "distinct (map rn_id (rt_runs rt))"
    and idle: "\<And>u. u \<in> set (c_units ?d) \<Longrightarrow> lu_state u = LifecycleDeleted \<Longrightarrow> no_open_job ?d u"
    and fresh: "\<And>k n. i \<le> k \<Longrightarrow> ce_ids (env k) n \<notin> lj_id ` set (c_jobs ?d)"
    using R by blast+
  obtain r0 where r0: "first_row (\<lambda>r. (rn_date r, rn_created_at r, rn_id r)) ?open (rt_runs rt) = Some r0" "rn_id r0 = rid" using R by blast
  have nx: "next_cleanup_run ?e (rt_runs rt) = Some r0" using r0(1) A by (simp add: next_cleanup_run_def)
  have in0: "r0 \<in> set (rt_runs rt)" using first_row_SomeD [OF r0(1)] by simp
  define r where "r = started_run ?e r0"
  have r: "rn_id r = rid" "rn_date r = rn_date r0" "rn_created_at r = rn_created_at r0" "rn_status r = LifecycleCleanupRunRunning"
    using first_row_SomeD [OF r0(1)] r0(2) by (auto simp: r_def started_run_def)
  show ?thesis
  proof (cases "first_row (\<lambda>u. (retention_of u, lu_org u, lu_id u)) (cleanup_eligible (ce_pick ?e) ?d) (c_units ?d)")
    case None
    let ?r1 = "r\<lparr>rn_status := LifecycleCleanupRunSucceeded, rn_completed_at := Some (ce_now ?e)\<rparr>"
    have "ProcessNextLifecycleCleanupBatch ?e rt
        = (Inr (Some \<lparr>cl_run = rn_id ?r1, cl_queued = 0, cl_completed = True\<rparr>), rt\<lparr>rt_runs := save_run ?r1 (rt_runs rt)\<rparr>)"
      by (simp add: ProcessNextLifecycleCleanupBatch_def transaction_def cleanup_work_def nx None Let_def r_def [symmetric])
    moreover have "cleanup_settled t until d0 rid (rt\<lparr>rt_runs := save_run ?r1 (rt_runs rt)\<rparr>)"
    proof -
      have "?r1 \<in> set (save_run ?r1 (rt_runs rt))"
        using in0 r(1) r0(2) by (auto simp: save_run_def set_sql_update intro!: rev_image_eqI [of r0])
      then have "\<exists>x\<in>set (save_run ?r1 (rt_runs rt)). rn_id x = rid \<and> rn_status x = LifecycleCleanupRunSucceeded"
        by (rule rev_bexI) (simp add: r(1))
      moreover have "\<not> cleanup_eligible t ?d u" if "u \<in> set (c_units ?d)" for u
        using None that A eligible_later [of t ?d u "ce_pick ?e"] by (auto simp: first_row_None)
      ultimately show ?thesis using ok prog by (auto simp: cleanup_settled_def sql_exists_iff)
    qed
    ultimately show ?thesis by (simp add: cleanup_round_def)
  next
    case (Some u0)
    define us where "us = cleanup_units ?e (lu_org u0) ?d"
    let ?sel = "filter (\<lambda>u. lu_org u = lu_org u0 \<and> cleanup_eligible (ce_list ?e) ?d u) (c_units ?d)"
    have us: "us = take lifecycleCleanupUnitBatchSize (order_by (\<lambda>u. (retention_of u, lu_id u)) ?sel)"
      using A by (simp add: us_def cleanup_units_def)
    have "u0 \<in> set ?sel" using first_row_SomeD [OF Some] A eligible_later by auto
    then have "order_by (\<lambda>u. (retention_of u, lu_id u)) ?sel \<noteq> []" by (rule order_by_nonempty)
    then have ne: "us \<noteq> []" by (simp add: us lifecycleCleanupUnitBatchSize_def)
    have due: "u \<in> set (c_units ?d) \<and> due_for_purge until ?d u" if "u \<in> set us" for u
    proof -
      have "u \<in> set (order_by (\<lambda>u. (retention_of u, lu_id u)) ?sel)" using that us by (metis in_set_takeD)
      then have "u \<in> set (c_units ?d)" "cleanup_eligible until ?d u" using A eligible_later by auto
      then show ?thesis by (simp add: cleanup_eligible_due)
    qed
    then have mem: "u \<in> set (c_units ?d) \<and> lu_state u = LifecycleDeleted" if "u \<in> set us" for u
      using that by (auto simp: due_for_purge_def past_retention_def)
    have "distinct (map lu_id ?sel)" using distinct_ids(3) [OF ok] by (simp add: distinct_map_filter)
    then have "distinct (map lu_id (order_by (\<lambda>u. (retention_of u, lu_id u)) ?sel))"
      by (simp add: order_by_def distinct_map)
    then have dist: "distinct (map lu_id us)" unfolding us take_map [symmetric] by (rule distinct_take)
    obtain js where js: "queue_purges ?e 0 us ?d = Inr (?d\<lparr>c_jobs := c_jobs ?d @ js, c_units := map (to_purge (lu_id ` set us)) (c_units ?d)\<rparr>)"
      "catalog_ok (?d\<lparr>c_jobs := c_jobs ?d @ js, c_units := map (to_purge (lu_id ` set us)) (c_units ?d)\<rparr>)"
      "purge_jobs_for us (ce_ids ?e ` {0..}) js"
      using queue_purges_ok [OF ok, of us 0 ?e] mem idle fresh [of i] dist A by blast
    define d1 where "d1 = ?d\<lparr>c_jobs := c_jobs ?d @ js, c_units := map (to_purge (lu_id ` set us)) (c_units ?d)\<rparr>"
    define r1 where "r1 = r\<lparr>rn_checkpoint := Some \<lparr>cc_last_org = lu_org u0, cc_last_unit = lu_id (last us), cc_queued = length us\<rparr>,
                            rn_status := LifecycleCleanupRunRunning\<rparr>"
    let ?rt = "rt\<lparr>rt_runs := save_run r1 (rt_runs rt), rt_catalog := d1\<rparr>"
    have "ProcessNextLifecycleCleanupBatch ?e rt = (Inr (Some \<lparr>cl_run = rn_id r1, cl_queued = length us, cl_completed = False\<rparr>), ?rt)"
      using ne js(1)
      by (simp add: ProcessNextLifecycleCleanupBatch_def transaction_def cleanup_work_def nx Some Let_def r_def [symmetric]
          us_def [symmetric] d1_def r1_def)
    moreover have "cleanup_ready until d0 rid env (Suc i) ?rt"
    proof -
      have "no_open_job d1 u" if u: "u \<in> set (c_units d1)" "lu_state u = LifecycleDeleted" for u
      proof -
        obtain v where v: "v \<in> set (c_units ?d)" "u = to_purge (lu_id ` set us) v" using u(1) by (auto simp: d1_def)
        with u(2) have out: "lu_id v \<notin> lu_id ` set us" by (auto simp: to_purge_def)
        then have "u = v" using v(2) by (simp add: to_purge_def)
        moreover have "lj_unit j \<noteq> Some (lu_id v)" if "j \<in> set js" for j
        proof -
          have "lj_unit j \<in> set (map lj_unit js)" using that by simp
          also have "map lj_unit js = map (\<lambda>u. Some (lu_id u)) us" using js(3) by (simp add: purge_jobs_for_def)
          finally show ?thesis using out by auto
        qed
        ultimately show ?thesis using idle [OF v(1)] u(2) by (auto simp: no_open_job_def d1_def)
      qed
      moreover have "bin_progress until d0 d1" unfolding d1_def by (rule bin_progress_step [OF prog ok due dist js(3)])
      moreover have "map rn_id (save_run r1 rs) = map rn_id rs" for rs by (simp add: save_run_def sql_update_def)
      then have "distinct (map rn_id (save_run r1 (rt_runs rt)))" using runs by simp
      moreover have "first_row (\<lambda>r. (rn_date r, rn_created_at r, rn_id r)) ?open (save_run r1 (rt_runs rt)) = Some r1"
      proof -
        have "save_run r1 (rt_runs rt) = map (\<lambda>x. if rn_id x = rid then r1 else x) (rt_runs rt)"
          by (simp add: save_run_def sql_update_as_map r1_def r(1))
        moreover have "x = r0" if "x \<in> set (rt_runs rt)" "rn_id x = rid" for x
          using runs in0 r0(2) that by (metis distinct_map_eq)
        then have "first_row (\<lambda>r. (rn_date r, rn_created_at r, rn_id r)) ?open (map (\<lambda>x. if rn_id x = rid then r1 else x) (rt_runs rt))
            = map_option (\<lambda>x. if rn_id x = rid then r1 else x) (first_row (\<lambda>r. (rn_date r, rn_created_at r, rn_id r)) ?open (rt_runs rt))"
          using first_row_SomeD [OF r0(1)] by (intro first_row_map) (auto simp: r1_def r)
        ultimately show ?thesis using r0 by simp
      qed
      moreover have "ce_ids (env k) n \<notin> lj_id ` set (c_jobs d1)" if "Suc i \<le> k" for k n
      proof -
        have "ce_ids (env k) n \<notin> lj_id ` set js"
        proof
          assume "ce_ids (env k) n \<in> lj_id ` set js"
          then obtain m where "ce_ids (env k) n = ce_ids ?e m" using js(3) by (auto simp: purge_jobs_for_def)
          moreover have "ce_ids ?e m \<noteq> ce_ids (env k) n" using A that by auto
          ultimately show False by simp
        qed
        with fresh [of k n] that show ?thesis by (auto simp: d1_def)
      qed
      ultimately show ?thesis using js(2) r(1) unfolding cleanup_ready_def by (simp add: d1_def [symmetric] r1_def)
    qed
    moreover have "bin_size ?rt < bin_size rt"
    proof -
      have h: "hd us \<in> set (c_units ?d) \<and> lu_state (hd us) = LifecycleDeleted" using mem ne by simp
      have "length (filter (\<lambda>u. lu_state (to_purge (lu_id ` set us) u) = LifecycleDeleted) (c_units ?d))
          < length (filter (\<lambda>u. lu_state u = LifecycleDeleted) (c_units ?d))"
        by (rule length_filter_strict [of _ _ _ "hd us"]) (use h ne in \<open>auto simp: to_purge_def split: if_splits\<close>)
      then show ?thesis by (simp add: bin_size_def d1_def filter_map comp_def)
    qed
    ultimately show ?thesis by (simp add: cleanup_round_def)
  qed
qed

interpretation cleanup_run: bounded_batches "cleanup_round env" "\<lambda>i rt. cleanup_alone t until env \<and> cleanup_ready until d0 rid env i rt"
  bin_size "cleanup_settled t until d0 rid" for env t until d0 rid
proof
  fix i rt
  assume "cleanup_alone t until env \<and> cleanup_ready until d0 rid env i rt"
  then show "\<exists>fin rt'. cleanup_round env i rt = (Inr fin, rt')" using cleanup_round_effect by blast
next
  fix i rt rt'
  assume r: "cleanup_alone t until env \<and> cleanup_ready until d0 rid env i rt"
  then show "cleanup_round env i rt = (Inr False, rt') \<Longrightarrow>
      (cleanup_alone t until env \<and> cleanup_ready until d0 rid env (Suc i) rt') \<and> bin_size rt' < bin_size rt"
    using cleanup_round_effect [of until d0 rid env i rt t] by auto
  from r show "cleanup_round env i rt = (Inr True, rt') \<Longrightarrow> cleanup_settled t until d0 rid rt'"
    using cleanup_round_effect [of until d0 rid env i rt t] by auto
qed


text \<open>Two folders in the bin: the retention of the first was over at 5, that of the other lasts until 50.\<close>

definition expired_retention :: retention where
  "expired_retention = \<lparr>rt_leases = [], rt_runs = [queued_run ''run'' retentionSchedulerName ''2026-01-02'' ''Asia/Bangkok'' 10],
     rt_catalog = purge_demo_catalog\<lparr>c_units := [demo_unit\<lparr>lu_org := ''o'', lu_root := ''f'', lu_path := [''f''],
       lu_state := LifecycleDeleted, lu_retention_until := Some 5\<rparr>,
       demo_unit\<lparr>lu_id := ''late'', lu_org := ''o'', lu_root := ''z'', lu_path := [''z''],
       lu_state := LifecycleDeleted, lu_retention_until := Some 50\<rparr>], c_jobs := []\<rparr>\<rparr>"

definition demo_cleanup_env :: "nat \<Rightarrow> cleanup_env" where
  "demo_cleanup_env i = \<lparr>ce_now = 11, ce_tnow = 11, ce_pick = 11, ce_list = 12,
     ce_ids = (\<lambda>n. replicate i (CHR ''a'') @ replicate (Suc n) (CHR ''b'')), ce_locked_runs = [], ce_locked_units = []\<rparr>"

lemma demo_cleanup_alone: "cleanup_alone 11 12 demo_cleanup_env"
proof -
  have count: "length (filter (\<lambda>c. c = CHR ''a'') (ce_ids (demo_cleanup_env i) n)) = i" for i n
    by (simp add: demo_cleanup_env_def)
  have "ce_ids (demo_cleanup_env i) m \<noteq> ce_ids (demo_cleanup_env k) n" if "i < k" for i k m n
    using count [of i m] count [of k n] that by auto
  moreover have "inj (ce_ids (demo_cleanup_env i))" for i
    by (rule injI) (auto simp: demo_cleanup_env_def dest: arg_cong [of _ _ length])
  ultimately show ?thesis by (auto simp: cleanup_alone_def demo_cleanup_env_def)
qed


section \<open>A restore during a purge\<close>


text \<open>Item \<open>a\<close> in the visible folder \<open>f\<close>, in the bin by itself and leased for purge.\<close>

definition race_archive :: archive where
  "race_archive = purge_demo_archive\<lparr>ar_catalog := purge_demo_catalog\<lparr>
     c_folders := [(demo_folder ''f'' [''f''] None None)\<lparr>fd_org := ''o''\<rparr>],
     c_units := [demo_unit\<lparr>lu_org := ''o'', lu_type := LifecycleResourceMetadata, lu_root := ''a'', lu_path := [''f''],
       lu_folder := Some ''f'', lu_state := LifecyclePurging\<rparr>]\<rparr>\<rparr>"

definition race_selected :: "purge_asset option reply \<times> archive" where
  "race_selected = NextLifecyclePurgeAsset purge_demo_call ''job'' ''w1'' race_archive"

definition race_restored :: "item reply \<times> catalog" where
  "race_restored = RestoreMetadataItem 20 ''o'' ''ann'' ''a'' (ar_catalog (snd race_selected))"

definition race_marked :: "unit reply \<times> archive" where
  "race_marked = MarkLifecyclePurgeObjectsDeleted purge_demo_call ''job'' ''w1'' ''a'' [''raw/o/a/s/original.png'']
     ((snd race_selected)\<lparr>ar_catalog := snd race_restored\<rparr>)"

definition race_torn_down :: "unit reply \<times> archive" where
  "race_torn_down = FinalizeLifecyclePurgeAsset purge_demo_call ''job'' ''w1'' ''a'' (snd race_marked)"


end
