(* ===== verification/Asset_Usecase.thy ===== *)
theory Asset_Usecase
  imports Asset_Repository Lifecycle_Restore Folder_Deletion Event_Envelope
begin

text \<open>
  The use cases in front of the folder and item repositories (\<open>internal/usecase/asset_usecase.go\<close> and
  \<open>folder_deletion_usecase.go\<close>): trimming, limits, normalization of labels and external identities, and the
  shape of search and recycle bin requests. A use case that shares its name with the repository operation it calls
  carries the prefix \<open>usecase_\<close>. The JSON parser is the one of the \<open>codec\<close>.
\<close>

section \<open>Folders\<close>

definition maxCursorDatabaseFetchLimit :: int where "maxCursorDatabaseFetchLimit = 102"

text \<open>\<open>ltreePathPattern\<close>: labels of ASCII letters, digits and underscores, separated by dots.\<close>

definition path_char :: "char \<Rightarrow> bool" where
  "path_char c \<longleftrightarrow> (let b = byte_of c in
     (48 \<le> b \<and> b \<le> 57) \<or> (65 \<le> b \<and> b \<le> 90) \<or> (97 \<le> b \<and> b \<le> 122) \<or> b = 95)"

definition ltreePathPattern :: "string \<Rightarrow> bool" where
  "ltreePathPattern s \<longleftrightarrow> list_all (\<lambda>l. l \<noteq> [] \<and> list_all path_char l) (split_on (CHR ''.'') s)"

definition rune_count :: "string \<Rightarrow> nat" where
  "rune_count s = length (string_runes s)"

definition trimmed_parent :: "string option \<Rightarrow> string option reply" where
  "trimmed_parent p =
     (case p of
        None \<Rightarrow> Inr None
      | Some s \<Rightarrow>
          let t = trim_space s in
          if t \<noteq> [] \<and> \<not> ltreePathPattern t then Inl ErrInvalidInput else Inr (Some t))"

definition create_folder_request :: "create_folder_input \<Rightarrow> create_folder_input reply" where
  "create_folder_request inp =
     (let name = trim_space (cf_name inp) in
      if name = [] then Inl ErrInvalidInput
      else if 255 < rune_count name then Inl ErrInvalidInput
      else and_then (trimmed_parent (cf_parent_path inp)) (\<lambda>p. Inr (inp\<lparr>cf_name := name, cf_parent_path := p\<rparr>)))"

text \<open>A request that is refused never reaches the repository.\<close>

definition after_validation :: "'i reply \<Rightarrow> ('i \<Rightarrow> catalog \<Rightarrow> 'a reply \<times> catalog) \<Rightarrow> catalog \<Rightarrow> 'a reply \<times> catalog" where
  "after_validation v call d = (case v of Inl e \<Rightarrow> (Inl e, d) | Inr inp \<Rightarrow> call inp d)"

definition usecase_CreateFolder ::
  "string \<Rightarrow> string \<Rightarrow> string \<Rightarrow> create_folder_input \<Rightarrow> catalog \<Rightarrow> folder reply \<times> catalog" where
  "usecase_CreateFolder fid org user inp = after_validation (create_folder_request inp) (CreateFolder fid org user)"

definition update_folder_request :: "update_folder_input \<Rightarrow> update_folder_input reply" where
  "update_folder_request inp =
     and_then
       (if uf_name_set inp then
          (case uf_name inp of
             None \<Rightarrow> Inl ErrInvalidInput
           | Some s \<Rightarrow>
               let t = trim_space s in
               if t = [] \<or> 255 < rune_count t then Inl ErrInvalidInput else Inr (inp\<lparr>uf_name := Some t\<rparr>))
        else Inr inp)
     (\<lambda>inp1. if \<not> uf_name_set inp1 \<and> \<not> uf_description_set inp1 then Inl ErrInvalidInput else Inr inp1)"

definition usecase_UpdateFolder ::
  "string \<Rightarrow> string \<Rightarrow> string \<Rightarrow> update_folder_input \<Rightarrow> catalog \<Rightarrow> folder reply \<times> catalog" where
  "usecase_UpdateFolder org user fid inp = after_validation (update_folder_request inp) (UpdateFolder org user fid)"

section \<open>Fields of an item\<close>

fun label_loop :: "string list \<Rightarrow> string list \<Rightarrow> string list reply" where
  "label_loop [] result = Inr result"
| "label_loop (l # ls) result =
     (let n = trim_space l in
      if n = [] then Inl ErrInvalidInput
      else label_loop ls (if n \<in> set result then result else result @ [n]))"

definition normalizeLabels :: "string list \<Rightarrow> string list reply" where
  "normalizeLabels ls = label_loop ls []"

definition validateJSONObject :: "codec \<Rightarrow> string \<Rightarrow> unit reply" where
  "validateJSONObject cd s = (case json_parse cd s of Some (JObj _) \<Rightarrow> Inr () | _ \<Rightarrow> Inl ErrInvalidInput)"

definition normalizeExternalIdentity :: "string option \<Rightarrow> string option reply" where
  "normalizeExternalIdentity v =
     (case v of
        None \<Rightarrow> Inr None
      | Some s \<Rightarrow> let n = trim_space s in if n = [] then Inl ErrInvalidInput else Inr (Some n))"

definition exceedsRuneLimit :: "string option \<Rightarrow> nat \<Rightarrow> bool" where
  "exceedsRuneLimit v limit \<longleftrightarrow> (case v of None \<Rightarrow> False | Some s \<Rightarrow> limit < rune_count s)"

definition validateMetadataItemTextLimits ::
  "string option \<Rightarrow> string option \<Rightarrow> string option \<Rightarrow> string option \<Rightarrow> string option \<Rightarrow> string option \<Rightarrow> string option
   \<Rightarrow> unit reply" where
  "validateMetadataItemTextLimits description category sourceURL thumbnailURL license author notes =
     (if exceedsRuneLimit description 5000 \<or> exceedsRuneLimit category 100 \<or> exceedsRuneLimit sourceURL 2048
         \<or> exceedsRuneLimit thumbnailURL 2048 \<or> exceedsRuneLimit license 255 \<or> exceedsRuneLimit author 255
         \<or> exceedsRuneLimit notes 5000
      then Inl ErrInvalidInput else Inr ())"

text \<open>\<open>valueWhenSet\<close>: a field that is omitted has no value to check.\<close>

definition valueWhenSet :: "'a option option \<Rightarrow> 'a option" where
  "valueWhenSet v = (case v of None \<Rightarrow> None | Some x \<Rightarrow> x)"

definition stored_json :: "codec \<Rightarrow> string \<Rightarrow> string reply" where
  "stored_json cd s =
     (let t = trim_space s in
      if t = [] \<or> t = ''null'' then Inr ''{}'' else and_then (validateJSONObject cd t) (\<lambda>_. Inr t))"

section \<open>Items\<close>

definition create_item_request :: "codec \<Rightarrow> create_item_input \<Rightarrow> create_item_input reply" where
  "create_item_request cd inp =
     (let fid = trim_space (ci_folder inp); title = trim_space (ci_title inp) in
      if fid = [] then Inl ErrInvalidInput
      else if title = [] \<or> 255 < rune_count title then Inl ErrInvalidInput
      else if exceedsRuneLimit (ci_external_source inp) 100 then Inl ErrInvalidInput
      else if exceedsRuneLimit (ci_external_id inp) 255 then Inl ErrInvalidInput
      else
        and_then (validateMetadataItemTextLimits (ci_description inp) (ci_category inp) (ci_source_url inp)
                    (ci_thumbnail_url inp) (ci_license inp) (ci_author inp) (ci_notes inp)) (\<lambda>_.
        and_then (normalizeExternalIdentity (ci_external_source inp)) (\<lambda>src.
        and_then (normalizeExternalIdentity (ci_external_id inp)) (\<lambda>eid.
        if (src = None) \<noteq> (eid = None) then Inl ErrInvalidInput
        else
          and_then (normalizeLabels (ci_labels inp)) (\<lambda>labels.
          and_then (stored_json cd (ci_json inp)) (\<lambda>json.
          Inr (inp\<lparr>ci_folder := fid, ci_title := title, ci_external_source := src, ci_external_id := eid,
                   ci_labels := labels, ci_json := json\<rparr>)))))))"

definition usecase_CreateMetadataItem ::
  "codec \<Rightarrow> string \<Rightarrow> instant \<Rightarrow> string \<Rightarrow> string \<Rightarrow> create_item_input \<Rightarrow> catalog \<Rightarrow> item reply \<times> catalog" where
  "usecase_CreateMetadataItem cd iid now org user inp =
     after_validation (create_item_request cd inp) (CreateMetadataItem iid now org user)"

definition something_set :: "update_item_input \<Rightarrow> bool" where
  "something_set inp \<longleftrightarrow> ui_title inp \<noteq> None \<or> ui_description inp \<noteq> None \<or> ui_labels inp \<noteq> None
     \<or> ui_category inp \<noteq> None \<or> ui_external_source inp \<noteq> None \<or> ui_external_id inp \<noteq> None
     \<or> ui_source_url inp \<noteq> None \<or> ui_thumbnail_url inp \<noteq> None \<or> ui_license inp \<noteq> None
     \<or> ui_author inp \<noteq> None \<or> ui_json inp \<noteq> None \<or> ui_notes inp \<noteq> None"

definition updated_title :: "string option option \<Rightarrow> string option option reply" where
  "updated_title v =
     (case v of
        None \<Rightarrow> Inr None
      | Some None \<Rightarrow> Inl ErrInvalidInput
      | Some (Some s) \<Rightarrow>
          let t = trim_space s in
          if t = [] \<or> 255 < rune_count t then Inl ErrInvalidInput else Inr (Some (Some t)))"

definition updated_labels :: "string list option option \<Rightarrow> string list option option reply" where
  "updated_labels v =
     (case v of
        None \<Rightarrow> Inr None
      | Some None \<Rightarrow> Inr (Some (Some []))
      | Some (Some ls) \<Rightarrow> and_then (normalizeLabels ls) (\<lambda>n. Inr (Some (Some n))))"

definition updated_json :: "codec \<Rightarrow> string option option \<Rightarrow> string option option reply" where
  "updated_json cd v =
     (case v of
        None \<Rightarrow> Inr None
      | Some None \<Rightarrow> Inr (Some (Some ''{}''))
      | Some (Some s) \<Rightarrow>
          let t = trim_space s in
          if t = ''null'' then Inl ErrInvalidInput
          else and_then (validateJSONObject cd t) (\<lambda>_. Inr (Some (Some t))))"

definition updated_identity :: "string option option \<Rightarrow> string option option reply" where
  "updated_identity v =
     (case v of None \<Rightarrow> Inr None | Some x \<Rightarrow> and_then (normalizeExternalIdentity x) (\<lambda>n. Inr (Some n)))"

definition update_item_request :: "codec \<Rightarrow> update_item_input \<Rightarrow> update_item_input reply" where
  "update_item_request cd inp =
     (if \<not> something_set inp then Inl ErrInvalidInput
      else
        and_then (updated_title (ui_title inp)) (\<lambda>title.
        if exceedsRuneLimit (valueWhenSet (ui_external_source inp)) 100 then Inl ErrInvalidInput
        else if exceedsRuneLimit (valueWhenSet (ui_external_id inp)) 255 then Inl ErrInvalidInput
        else
          and_then (validateMetadataItemTextLimits (valueWhenSet (ui_description inp)) (valueWhenSet (ui_category inp))
                      (valueWhenSet (ui_source_url inp)) (valueWhenSet (ui_thumbnail_url inp))
                      (valueWhenSet (ui_license inp)) (valueWhenSet (ui_author inp)) (valueWhenSet (ui_notes inp))) (\<lambda>_.
          and_then (updated_labels (ui_labels inp)) (\<lambda>labels.
          and_then (updated_json cd (ui_json inp)) (\<lambda>json.
          and_then (updated_identity (ui_external_source inp)) (\<lambda>src.
          and_then (updated_identity (ui_external_id inp)) (\<lambda>eid.
          Inr (inp\<lparr>ui_title := title, ui_labels := labels, ui_json := json, ui_external_source := src,
                   ui_external_id := eid\<rparr>))))))))"

definition usecase_UpdateMetadataItem ::
  "codec \<Rightarrow> instant \<Rightarrow> instant \<Rightarrow> string \<Rightarrow> string \<Rightarrow> string \<Rightarrow> update_item_input \<Rightarrow> catalog \<Rightarrow> item reply \<times> catalog" where
  "usecase_UpdateMetadataItem cd now tnow org user iid inp =
     after_validation (update_item_request cd inp) (UpdateMetadataItem now tnow org user iid)"

section \<open>Listings\<close>

definition usecase_ListRecycleBinEntries :: "string \<Rightarrow> bin_filter \<Rightarrow> catalog \<Rightarrow> bin_entry list reply" where
  "usecase_ListRecycleBinEntries org flt d =
     (if bf_limit flt \<le> 0 \<or> maxCursorDatabaseFetchLimit < bf_limit flt then Inl ErrInvalidInput
      else if (bf_after_deleted flt = None) \<noteq> (bf_after_unit flt = None) then Inl ErrCursorInvalid
      else ListRecycleBinEntries org flt d)"

text \<open>A text filter is trimmed; one that is blank is dropped.\<close>

definition trimmed_filter :: "string option \<Rightarrow> string option" where
  "trimmed_filter v =
     (case v of None \<Rightarrow> None | Some s \<Rightarrow> let t = trim_space s in if t = [] then None else Some t)"

definition trimmed_query :: "string option \<Rightarrow> string option reply" where
  "trimmed_query v =
     (case v of
        None \<Rightarrow> Inr None
      | Some s \<Rightarrow>
          let t = trim_space s in
          if rune_count t < 2 \<or> 200 < rune_count t then Inl ErrInvalidInput else Inr (Some t))"

definition keyset_request :: "search_filter \<Rightarrow> unit reply" where
  "keyset_request flt =
     (if \<not> sf_keyset flt then Inr ()
      else if trimmed_filter (sf_folder flt) = None \<or> sf_offset flt \<noteq> 0 then Inl ErrInvalidInput
      else if (sf_after_updated flt = None) \<noteq> (sf_after_id flt = None) then Inl ErrCursorInvalid
      else Inr ())"

definition search_request :: "search_filter \<Rightarrow> search_filter reply" where
  "search_request flt =
     (let maxLimit = (if sf_keyset flt then maxCursorDatabaseFetchLimit else 100) in
      if sf_limit flt \<le> 0 \<or> maxLimit < sf_limit flt then Inl ErrInvalidInput
      else if sf_offset flt < 0 then Inl ErrInvalidInput
      else
        and_then (keyset_request flt) (\<lambda>_.
        and_then (trimmed_query (sf_query flt)) (\<lambda>query.
        and_then (normalizeLabels (sf_labels flt)) (\<lambda>labels.
        let flt1 = flt\<lparr>sf_folder := trimmed_filter (sf_folder flt), sf_query := query, sf_labels := labels,
              sf_category := trimmed_filter (sf_category flt),
              sf_external_source := trimmed_filter (sf_external_source flt)\<rparr> in
        if sf_folder flt1 = None \<and> query = None \<and> labels = [] \<and> sf_category flt1 = None
           \<and> sf_external_source flt1 = None
        then Inl ErrInvalidInput else Inr flt1))))"

definition usecase_SearchMetadataItems ::
  "(nat \<Rightarrow> nat) \<Rightarrow> string \<Rightarrow> search_filter \<Rightarrow> catalog \<Rightarrow> item list reply" where
  "usecase_SearchMetadataItems casing org flt d =
     and_then (search_request flt) (\<lambda>flt1. SearchMetadataItems casing org flt1 d)"

end
