(* ===== verification/Request_Types.thy ===== *)
theory Request_Types
  imports Asset_Usecase Folder_Tree
begin

text \<open>
  What the use cases guarantee to the tables: trimming never lengthens a text, a trimmed text that is not empty is
  not blank for the database, and a request that passed validation gives a row that satisfies every check.
\<close>

section \<open>Trimming and runes\<close>

lemma decode_rune_append:
  assumes "a \<noteq> []" and "b = [] \<or> \<not> cont_byte (hd b)"
  shows "decode_rune (a @ b) = decode_rune a"
proof (cases "b = []")
  case False
  then obtain h t where b: "b = h # t" by (cases b) auto
  with assms(2) have h: "\<not> cont_byte h" by simp
  from assms(1) obtain x xs where a: "a = x # xs" by (cases a) auto
  consider "xs = []" | y where "xs = [y]" | y z where "xs = [y, z]" | y z w ws where "xs = y # z # w # ws"
    by (cases xs rule: remdups_adj.cases) (metis list.exhaust)+
  then show ?thesis
    by cases (use h in \<open>auto simp: a b cont_byte_def split: list.splits\<close>)
qed simp

lemma runes_of_append:
  assumes "b = [] \<or> \<not> cont_byte (hd b)"
  shows "runes_of (a @ b) = runes_of a @ runes_of b"
  using assms
proof (induction a rule: runes_of.induct)
  case (1 a)
  show ?case
  proof (cases "a = []")
    case True
    then show ?thesis by (simp add: runes_of.simps [of "[]"])
  next
    case False
    have d: "decode_rune (a @ b) = decode_rune a" using False 1(3) by (rule decode_rune_append)
    show ?thesis
    proof (cases "decode_rune a")
      case None
      have "drop 1 (a @ b) = drop 1 a @ b" using False by (cases a) auto
      then have "runes_of (a @ b) = 65533 # runes_of (drop 1 a @ b)"
        using False None d by (simp add: runes_of.simps [of "a @ b"])
      moreover have "runes_of a = 65533 # runes_of (drop 1 a)"
        using False None by (simp add: runes_of.simps [of a])
      ultimately show ?thesis using 1(1) [OF False None] 1(3) by simp
    next
      case (Some p)
      obtain r n where p: "p = (r, n)" by (cases p)
      then have "n \<le> length a" using Some decode_rune_width by blast
      then have "runes_of (a @ b) = r # runes_of (drop n a @ b)"
        using False Some d p by (simp add: runes_of.simps [of "a @ b"])
      moreover have "runes_of a = r # runes_of (drop n a)"
        using False Some p by (simp add: runes_of.simps [of a])
      ultimately show ?thesis using 1(2) [OF False Some p [symmetric]] 1(3) by simp
    qed
  qed
qed

definition rune_start :: "string \<Rightarrow> bool" where
  "rune_start e \<longleftrightarrow> e \<noteq> [] \<and> \<not> cont_byte (byte_of (hd e))"

lemma space_encodings_start: "\<forall>e\<in>set space_encodings. rune_start e"
  by code_simp

lemma rune_count_append:
  assumes "rune_start e"
  shows "rune_count (s @ e) = rune_count s + rune_count e"
  using assms runes_of_append [of "map byte_of e" "map byte_of s"]
  by (simp add: rune_count_def string_runes_def rune_start_def hd_map)

text \<open>What is stripped, from either end, is a sequence of space encodings.\<close>

lemma trim_with_split: "\<exists>es. set es \<subseteq> set encs \<and> s = concat es @ trim_with encs s"
proof (induction encs s rule: trim_with.induct)
  case (1 encs s)
  show ?case
  proof (cases "find (\<lambda>e. e \<noteq> [] \<and> has_prefix e s) encs")
    case None
    then have "s = concat [] @ trim_with encs s" by (simp add: trim_with.simps [of encs s])
    then show ?thesis by (metis empty_set empty_subsetI)
  next
    case (Some e)
    then have e: "e \<in> set encs" "has_prefix e s" by (auto dest: find_SomeD)
    obtain es where es: "set es \<subseteq> set encs" "drop (length e) s = concat es @ trim_with encs (drop (length e) s)"
      using "1.IH" [OF Some] by blast
    have "s = e @ drop (length e) s" using e(2) has_prefixD by fastforce
    then have "s = concat (e # es) @ trim_with encs s"
      using es(2) Some by (simp add: trim_with.simps [of encs s])
    then show ?thesis using es(1) e(1) by (metis insert_subset list.set(2))
  qed
qed

lemma rune_count_concat_le: "(\<forall>e\<in>set es. rune_start e) \<Longrightarrow> rune_count s \<le> rune_count (s @ concat es)"
proof (induction es rule: rev_induct)
  case (snoc e es)
  then show ?case using rune_count_append [of e "s @ concat es"] by simp
qed simp

lemma decode_rune_prefix:
  assumes "decode_rune a = Some (r, length a)"
  shows "decode_rune (a @ t) = Some (r, length a)"
proof -
  have "a \<noteq> []" using assms by auto
  then obtain x xs where a: "a = x # xs" by (cases a) auto
  consider "xs = []" | y where "xs = [y]" | y z where "xs = [y, z]" | y z w ws where "xs = y # z # w # ws"
    by (cases xs rule: remdups_adj.cases) (metis list.exhaust)+
  then show ?thesis
    by cases (use assms in \<open>simp_all add: a split: if_split_asm\<close>)
qed

lemma space_encodings_decode:
  "\<forall>e\<in>set space_encodings. map_option snd (decode_rune (map byte_of e)) = Some (length (map byte_of e))"
  by code_simp

lemma rune_count_after_space: "e \<in> set space_encodings \<Longrightarrow> rune_count (e @ t) = Suc (rune_count t)"
proof -
  assume e: "e \<in> set space_encodings"
  then obtain r where "decode_rune (map byte_of e) = Some (r, length (map byte_of e))"
    using space_encodings_decode by (auto simp: map_option_eq_Some)
  then have "decode_rune (map byte_of e @ map byte_of t) = Some (r, length (map byte_of e))"
    by (rule decode_rune_prefix)
  moreover have "e \<noteq> []" using e space_encodings_start by (auto simp: rune_start_def)
  ultimately show ?thesis
    by (simp add: rune_count_def string_runes_def runes_of.simps [of "map byte_of e @ map byte_of t"])
qed

lemma rune_count_trim_left: "rune_count (trim_left s) \<le> rune_count s"
proof -
  obtain es where es: "set es \<subseteq> set space_encodings" "s = concat es @ trim_left s"
    using trim_with_split [of space_encodings s] by (auto simp: trim_left_def)
  have "rune_count t \<le> rune_count (concat es @ t)" for t
    using es(1) by (induction es) (auto simp: rune_count_after_space le_SucI)
  then show ?thesis using es(2) by metis
qed

lemma rune_count_trim_right: "rune_count (trim_right s) \<le> rune_count s"
proof -
  obtain es where es: "set es \<subseteq> rev ` set space_encodings"
      "rev s = concat es @ trim_with (map rev space_encodings) (rev s)"
    using trim_with_split [of "map rev space_encodings" "rev s"] by auto
  have "rev (rev s) = rev (concat es @ trim_with (map rev space_encodings) (rev s))"
    using es(2) by (rule arg_cong [of _ _ rev])
  then have "s = trim_right s @ concat (map rev (rev es))"
    by (simp add: trim_right_def rev_concat)
  moreover have "\<forall>e\<in>set (map rev (rev es)). rune_start e"
    using es(1) space_encodings_start by auto
  ultimately show ?thesis using rune_count_concat_le by metis
qed

lemma rune_count_trim: "rune_count (trim_space s) \<le> rune_count s"
  by (metis le_trans rune_count_trim_left rune_count_trim_right trim_space_def)

lemma space_is_encoding: "[CHR '' ''] \<in> set space_encodings"
  by code_simp

lemma trimmed_nonblank: "trim_space s \<noteq> [] \<Longrightarrow> nonblank (trim_space s)"
proof -
  assume ne: "trim_space s \<noteq> []"
  let ?t = "trim_with (map rev space_encodings) (rev (trim_left s))"
  have t: "trim_space s = rev ?t" by (simp add: trim_space_def trim_right_def)
  then obtain c u where c: "?t = c # u" using ne by (cases ?t) auto
  have "c \<noteq> CHR '' ''"
  proof
    assume "c = CHR '' ''"
    then have "has_prefix (rev [CHR '' '']) ?t" using c by (simp add: has_prefix_def)
    moreover have "[CHR '' ''] \<in> set (map rev space_encodings)"
      using imageI [OF space_is_encoding, of rev] by simp
    ultimately show False
      using find_NoneD [OF trim_with_no_space [of "map rev space_encodings" "rev (trim_left s)"]]
      by (metis not_Cons_self2 rev_singleton_conv)
  qed
  then show ?thesis using c by (simp add: nonblank_def t list_ex_iff)
qed

lemma varchar_trimmed: "rune_count s \<le> n \<Longrightarrow> varchar n (trim_space s)"
  using rune_count_trim [of s] by (simp add: varchar_def rune_count_def)

lemma varchar_limit: "\<not> exceedsRuneLimit v n \<longleftrightarrow> varchar_opt n v"
  by (auto simp: exceedsRuneLimit_def varchar_opt_def varchar_def rune_count_def not_less split: option.splits)

section \<open>Labels\<close>

text \<open>The loop of \<open>normalizeLabels\<close> keeps the first occurrence of every trimmed label.\<close>

lemma label_loop_Inr:
  "label_loop ls acc = Inr res \<Longrightarrow> distinct acc \<Longrightarrow> (\<forall>l\<in>set acc. l \<noteq> [] \<and> trim_space l = l)
   \<Longrightarrow> distinct res \<and> set res = set acc \<union> trim_space ` set ls \<and> (\<forall>l\<in>set res. l \<noteq> [] \<and> trim_space l = l)"
proof (induction ls arbitrary: acc)
  case (Cons l ls)
  let ?n = "trim_space l"
  have n: "?n \<noteq> []" and r: "label_loop ls (if ?n \<in> set acc then acc else acc @ [?n]) = Inr res"
    using Cons(2) by (auto simp: Let_def split: if_splits)
  have acc: "distinct (if ?n \<in> set acc then acc else acc @ [?n])"
      "\<forall>k\<in>set (if ?n \<in> set acc then acc else acc @ [?n]). k \<noteq> [] \<and> trim_space k = k"
    using Cons(3,4) n by (auto simp: trim_space_idem)
  have eq: "set (if ?n \<in> set acc then acc else acc @ [?n]) \<union> trim_space ` set ls = set acc \<union> trim_space ` set (l # ls)"
    by auto
  show ?case unfolding eq [symmetric] by (rule Cons.IH [OF r acc])
qed simp

lemma label_loop_fixed:
  "distinct (acc @ ls) \<Longrightarrow> (\<forall>l\<in>set ls. l \<noteq> [] \<and> trim_space l = l) \<Longrightarrow> label_loop ls acc = Inr (acc @ ls)"
proof (induction ls arbitrary: acc)
  case (Cons l ls)
  have "label_loop ls (acc @ [l]) = Inr ((acc @ [l]) @ ls)"
  proof (rule Cons.IH)
    show "distinct ((acc @ [l]) @ ls)" using Cons(2) by simp
    show "\<forall>l\<in>set ls. l \<noteq> [] \<and> trim_space l = l" using Cons(3) by (meson list.set_intros(2))
  qed
  moreover have "trim_space l = l" "l \<noteq> []" using bspec [OF Cons(3), of l] by (simp, blast?)+
  moreover have "l \<notin> set acc" using Cons(2) by auto
  ultimately show ?case by (simp only: label_loop.simps Let_def if_False append_assoc append_Cons append_Nil)
qed simp

lemma normalizeLabels_Inr:
  assumes "normalizeLabels ls = Inr res"
  shows "distinct res" "set res = trim_space ` set ls" "\<forall>l\<in>set res. l \<noteq> [] \<and> trim_space l = l"
    "normalizeLabels res = Inr res"
proof -
  have r: "distinct res \<and> set res = set [] \<union> trim_space ` set ls \<and> (\<forall>l\<in>set res. l \<noteq> [] \<and> trim_space l = l)"
    by (rule label_loop_Inr [OF assms [unfolded normalizeLabels_def]]) simp_all
  then show "distinct res" "\<forall>l\<in>set res. l \<noteq> [] \<and> trim_space l = l" by blast+
  show "set res = trim_space ` set ls" using r by (simp only: list.set Un_empty_left)
  have "label_loop res [] = Inr ([] @ res)" by (rule label_loop_fixed) (use r in \<open>simp, blast\<close>)
  then show "normalizeLabels res = Inr res" by (simp add: normalizeLabels_def)
qed

section \<open>Rows that satisfy the checks\<close>

definition named_identity :: "item \<Rightarrow> bool" where
  "named_identity x \<longleftrightarrow> present_text (it_external_source x) = (it_external_source x \<noteq> None)
     \<and> present_text (it_external_id x) = (it_external_id x \<noteq> None)"

definition labels_normal :: "item \<Rightarrow> bool" where
  "labels_normal x \<longleftrightarrow> distinct (it_labels x) \<and> (\<forall>l\<in>set (it_labels x). l \<noteq> [] \<and> trim_space l = l)"

text \<open>What every item written through the use cases satisfies beyond the checks of the table.\<close>

definition items_normal :: "catalog \<Rightarrow> bool" where
  "items_normal d \<longleftrightarrow> (\<forall>x\<in>set (c_items d). named_identity x \<and> labels_normal x)"

definition well_typed :: "'a reply \<times> catalog \<Rightarrow> bool" where
  "well_typed r \<longleftrightarrow> fst r \<noteq> Inl ErrCheckViolation \<and> catalog_ok (snd r) \<and> items_normal (snd r)"

text \<open>A reply that is not the database's complaint about a check.\<close>

definition no_check :: "'a reply \<Rightarrow> bool" where
  "no_check r \<longleftrightarrow> r \<noteq> Inl ErrCheckViolation"

lemma no_check_intros:
  "no_check (Inr x)" "e \<noteq> ErrCheckViolation \<Longrightarrow> no_check (Inl e :: 'a reply)"
  "(c \<Longrightarrow> no_check r) \<Longrightarrow> (\<not> c \<Longrightarrow> no_check s) \<Longrightarrow> no_check (if c then r else s)"
  "no_check (f y) \<Longrightarrow> no_check (Let y f)"
  "no_check t \<Longrightarrow> (\<And>z. t = Inr z \<Longrightarrow> no_check (k z)) \<Longrightarrow> no_check (and_then t k)"
  "checks_ok d \<Longrightarrow> no_check (commit_write d)"
  "e \<noteq> ErrCheckViolation \<Longrightarrow> no_check v \<Longrightarrow> no_check (on_conflict e v)"
  "e \<noteq> ErrCheckViolation \<Longrightarrow> no_check (from_option e opt)"
  by (auto simp: no_check_def and_then_Inl commit_write_def on_conflict_def map_error_def Let_def split: sum.splits;
      cases opt; auto)+

lemma no_check_fence: "no_check (ensureNoActiveDeletionForPaths org ps d)"
  by (induction org ps d rule: ensureNoActiveDeletionForPaths.induct) (auto simp: no_check_def)

lemma no_check_ltree: "no_check (ltree_of s)"
  by (simp add: ltree_of_def Let_def no_check_def)

lemma transaction_typed:
  assumes "catalog_ok d" "items_normal d" and "no_check (work d)"
    and "\<And>a d'. work d = Inr (a, d') \<Longrightarrow> catalog_ok d' \<and> items_normal d'"
  shows "well_typed (transaction work d)"
  using assms by (auto simp: well_typed_def no_check_def transaction_def split: sum.splits)

lemma validated_typed:
  assumes "catalog_ok d" "items_normal d" "no_check v"
    and "\<And>inp. v = Inr inp \<Longrightarrow> well_typed (call inp d)"
  shows "well_typed (after_validation v call d)"
  using assms by (auto simp: well_typed_def no_check_def after_validation_def split: sum.splits)

lemma checks_ok_parts [simp]:
  "checks_ok (EnsureRefs user org d) = checks_ok d"
  by (simp add: checks_ok_def)

lemma items_normal_EnsureRefs [simp]: "items_normal (EnsureRefs user org d) = items_normal d"
  by (simp add: items_normal_def)

lemma folders_no_check:
  "checks_ok d \<Longrightarrow> (\<And>f. f \<in> set (g (c_folders d)) \<Longrightarrow> folder_check f) \<Longrightarrow> no_check (on_folders g d)"
  unfolding on_folders_def by (rule no_check_intros) (auto simp: checks_ok_def list_all_iff)

lemma items_no_check:
  "checks_ok d \<Longrightarrow> (\<And>x. x \<in> set (g (c_items d)) \<Longrightarrow> item_check x) \<Longrightarrow> no_check (on_items g d)"
  unfolding on_items_def by (rule no_check_intros) (auto simp: checks_ok_def list_all_iff)

lemma create_folder_request_Inr:
  "create_folder_request inp = Inr r \<Longrightarrow> nonblank (cf_name r) \<and> varchar 255 (cf_name r)"
  by (auto simp: create_folder_request_def Let_def trimmed_nonblank varchar_def rune_count_def not_less split: if_splits)

lemma validation_no_check:
  "no_check (create_folder_request inp)" "no_check (update_folder_request uinp)"
  by (auto simp: create_folder_request_def trimmed_parent_def update_folder_request_def Let_def no_check_def and_then_Inl
      split: option.splits if_splits)

lemma create_folder_typed:
  assumes ok: "catalog_ok d" "items_normal d"
  shows "well_typed (usecase_CreateFolder fid org user inp d)"
  unfolding usecase_CreateFolder_def
proof (rule validated_typed [OF ok validation_no_check(1)])
  fix r assume "create_folder_request inp = Inr r"
  then have row: "folder_check (new_folder_row fid org user p r)" for p
    using create_folder_request_Inr by (simp add: folder_check_def new_folder_row_def)
  have chk: "checks_ok d" using ok(1) by (simp add: catalog_ok_def)
  have fs: "f \<in> set (c_folders d) \<Longrightarrow> folder_check f" for f using ok(1) by (rule catalog_ok_checks)
  show "well_typed (CreateFolder fid org user r d)"
    unfolding CreateFolder_def
  proof (rule transaction_typed [OF ok], goal_cases)
    case 1
    show ?case
      by (intro no_check_intros no_check_fence no_check_ltree folders_no_check catalog_error.distinct)
         (use row chk fs in auto)
  qed (use ok(2) in \<open>auto simp: Let_def items_normal_def on_conflict_def split: if_splits\<close>)
qed

lemma update_folder_request_Inr:
  "update_folder_request inp = Inr r \<Longrightarrow> uf_name_set r
   \<Longrightarrow> \<exists>t. uf_name r = Some t \<and> nonblank t \<and> varchar 255 t"
  by (auto simp: update_folder_request_def Let_def trimmed_nonblank varchar_def rune_count_def not_less
      split: if_splits option.splits)

lemma update_folder_typed:
  assumes ok: "catalog_ok d" "items_normal d"
  shows "well_typed (usecase_UpdateFolder org user fid inp d)"
  unfolding usecase_UpdateFolder_def
proof (rule validated_typed [OF ok validation_no_check(2)])
  fix r assume r: "update_folder_request inp = Inr r"
  have chk: "checks_ok d" using ok(1) by (simp add: catalog_ok_def)
  have fs: "f \<in> set (c_folders d) \<Longrightarrow> folder_check f" for f using ok(1) by (rule catalog_ok_checks)
  have named: "folder_check (renamed_folder user name r f)"
    if "new_name r f = Inr name" and "f \<in> set (c_folders d)" for name f
    using that fs [of f] update_folder_request_Inr [OF r]
    by (auto simp: folder_check_def renamed_folder_def new_name_def split: if_splits)
  show "well_typed (UpdateFolder org user fid r d)"
    unfolding UpdateFolder_def
  proof (rule transaction_typed [OF ok], goal_cases)
    case 1
    have save: "no_check (save_folder (renamed_folder user name r f) (EnsureRefs user org d))"
      if "new_name r f = Inr name" and "find_visible_folder org fid (EnsureRefs user org d) = Some f" for name f
    proof -
      have "folder_check (renamed_folder user name r f)"
        using named [OF that(1)] find_visible_folderD [OF that(2)] by simp
      then show ?thesis unfolding save_folder_def
        by (intro folders_no_check) (use chk fs in \<open>auto simp: folder_check_def elim!: sql_update_memE\<close>)
    qed
    show ?case
      by (intro no_check_intros no_check_fence catalog_error.distinct)
         (auto simp: new_name_def intro!: no_check_intros save)
  qed (use ok(2) in \<open>auto simp: Let_def items_normal_def on_conflict_def save_folder_def split: if_splits\<close>)
qed

section \<open>Items\<close>

lemma normalizeExternalIdentity_Inr:
  assumes "normalizeExternalIdentity v = Inr w" and "\<not> exceedsRuneLimit v n"
  shows "varchar_opt n w \<and> present_text w = (w \<noteq> None)"
  using assms
  by (auto simp: normalizeExternalIdentity_def exceedsRuneLimit_def varchar_opt_def present_text_def Let_def
      varchar_trimmed trim_space_idem split: option.splits if_splits)

lemma text_limits_Inr:
  "validateMetadataItemTextLimits a b c e f g h = Inr u
   \<Longrightarrow> varchar_opt 100 b \<and> varchar_opt 255 f \<and> varchar_opt 255 g"
  by (auto simp: validateMetadataItemTextLimits_def simp flip: varchar_limit split: if_splits)

lemma create_item_request_Inr:
  assumes "create_item_request cd inp = Inr r"
  shows "item_check (new_item_row iid now user r) \<and> named_identity (new_item_row iid now user r)
    \<and> labels_normal (new_item_row iid now user r)"
proof -
  let ?title = "trim_space (ci_title inp)"
  obtain src eid labels json u where
    c: "?title \<noteq> []" "rune_count ?title \<le> 255" "\<not> exceedsRuneLimit (ci_external_source inp) 100"
      "\<not> exceedsRuneLimit (ci_external_id inp) 255" "src = None \<longleftrightarrow> eid = None"
      "normalizeExternalIdentity (ci_external_source inp) = Inr src"
      "normalizeExternalIdentity (ci_external_id inp) = Inr eid" "normalizeLabels (ci_labels inp) = Inr labels"
      "validateMetadataItemTextLimits (ci_description inp) (ci_category inp) (ci_source_url inp)
                    (ci_thumbnail_url inp) (ci_license inp) (ci_author inp) (ci_notes inp) = Inr u"
    and r: "r = inp\<lparr>ci_folder := trim_space (ci_folder inp), ci_title := ?title, ci_external_source := src,
      ci_external_id := eid, ci_labels := labels, ci_json := json\<rparr>"
    using assms by (auto simp: create_item_request_def Let_def not_less split: if_splits)
  show ?thesis
    using normalizeExternalIdentity_Inr [OF c(6,3)] normalizeExternalIdentity_Inr [OF c(7,4)] text_limits_Inr [OF c(9)]
      normalizeLabels_Inr(1,3) [OF c(8)] trimmed_nonblank [OF c(1)] c(2,5)
    by (simp add: r new_item_row_def item_check_def named_identity_def labels_normal_def varchar_def rune_count_def)
qed

lemma label_loop_no_check: "no_check (label_loop ls acc)"
  unfolding no_check_def by (induction ls arbitrary: acc) (simp_all add: Let_def)

lemma item_validation_no_check: "no_check (create_item_request cd inp)" "no_check (update_item_request cd uinp)"
proof -
  have parts: "no_check (normalizeExternalIdentity v)"
    "no_check (validateMetadataItemTextLimits a b c e f g h)" "no_check (validateJSONObject cd s)"
    "no_check (updated_title w)" for v a b c e f g h s w
    by (auto simp: no_check_def normalizeExternalIdentity_def validateMetadataItemTextLimits_def validateJSONObject_def
        updated_title_def Let_def split: option.splits json.splits)
  show "no_check (create_item_request cd inp)"
    unfolding create_item_request_def stored_json_def normalizeLabels_def
    by (intro no_check_intros label_loop_no_check parts catalog_error.distinct)
  have more: "no_check (updated_labels v)" "no_check (updated_json cd w)" "no_check (updated_identity w)" for v w
    unfolding updated_labels_def updated_json_def updated_identity_def normalizeLabels_def
    by (auto split: option.splits intro!: no_check_intros label_loop_no_check parts)
  show "no_check (update_item_request cd uinp)"
    unfolding update_item_request_def by (intro no_check_intros label_loop_no_check parts more catalog_error.distinct)
qed

lemma create_item_typed:
  assumes ok: "catalog_ok d" "items_normal d"
  shows "well_typed (usecase_CreateMetadataItem cd iid now org user inp d)"
  unfolding usecase_CreateMetadataItem_def
proof (rule validated_typed [OF ok item_validation_no_check(1)])
  fix r assume "create_item_request cd inp = Inr r"
  note row = create_item_request_Inr [OF this, of iid now user]
  have chk: "checks_ok d" using ok(1) by (simp add: catalog_ok_def)
  have xs: "x \<in> set (c_items d) \<Longrightarrow> item_check x" for x using ok(1) by (rule catalog_ok_checks)
  show "well_typed (CreateMetadataItem iid now org user r d)"
    unfolding CreateMetadataItem_def
  proof (rule transaction_typed [OF ok], goal_cases)
    case 1
    show ?case
      by (intro no_check_intros no_check_fence items_no_check catalog_error.distinct) (use row chk xs in auto)
  qed (use ok(2) row in \<open>auto simp: Let_def items_normal_def on_conflict_def split: if_splits\<close>)
qed

lemma update_item_request_Inr:
  assumes req: "update_item_request cd inp = Inr r"
    and x: "item_check x" "named_identity x" "labels_normal x"
    and pair: "present_text (it_external_source (updated_item r x)) = present_text (it_external_id (updated_item r x))"
  shows "item_check (updated_item r x) \<and> named_identity (updated_item r x) \<and> labels_normal (updated_item r x)"
proof -
  obtain title labels json src eid u where
    c: "updated_title (ui_title inp) = Inr title" "\<not> exceedsRuneLimit (valueWhenSet (ui_external_source inp)) 100"
      "\<not> exceedsRuneLimit (valueWhenSet (ui_external_id inp)) 255" "updated_labels (ui_labels inp) = Inr labels"
      "updated_identity (ui_external_source inp) = Inr src" "updated_identity (ui_external_id inp) = Inr eid"
      "validateMetadataItemTextLimits (valueWhenSet (ui_description inp)) (valueWhenSet (ui_category inp))
                      (valueWhenSet (ui_source_url inp)) (valueWhenSet (ui_thumbnail_url inp))
                      (valueWhenSet (ui_license inp)) (valueWhenSet (ui_author inp)) (valueWhenSet (ui_notes inp)) = Inr u"
    and r: "r = inp\<lparr>ui_title := title, ui_labels := labels, ui_json := json, ui_external_source := src,
                   ui_external_id := eid\<rparr>"
    using req by (auto simp: update_item_request_def split: if_splits)
  have title: "nonblank (it_title (updated_item r x)) \<and> varchar 255 (it_title (updated_item r x))"
    using c(1) x(1)
    by (auto simp: r updated_item_def updated_title_def item_check_def Let_def trimmed_nonblank varchar_def rune_count_def
        not_less split: option.splits if_splits)
  have identity: "varchar_opt n (set_when w old) \<and> present_text (set_when w old) = (set_when w old \<noteq> None)"
    if "updated_identity v = Inr w" "\<not> exceedsRuneLimit (valueWhenSet v) n" "varchar_opt n old"
      "present_text old = (old \<noteq> None)" for v w n old
    using that normalizeExternalIdentity_Inr
    by (cases v) (auto simp: updated_identity_def valueWhenSet_def set_when_def)
  have src: "varchar_opt 100 (it_external_source (updated_item r x))"
      "present_text (it_external_source (updated_item r x)) = (it_external_source (updated_item r x) \<noteq> None)"
    using identity [OF c(5,2), of "it_external_source x"] x by (auto simp: r updated_item_def item_check_def named_identity_def)
  have eid: "varchar_opt 255 (it_external_id (updated_item r x))"
      "present_text (it_external_id (updated_item r x)) = (it_external_id (updated_item r x) \<noteq> None)"
    using identity [OF c(6,3), of "it_external_id x"] x by (auto simp: r updated_item_def item_check_def named_identity_def)
  have plain: "varchar_opt n (set_when v old)" if "varchar_opt n (valueWhenSet v)" "varchar_opt n old" for v n old
    using that by (auto simp: set_when_def valueWhenSet_def split: option.splits)
  have texts: "varchar_opt 100 (it_category (updated_item r x))" "varchar_opt 255 (it_license (updated_item r x))"
      "varchar_opt 255 (it_author (updated_item r x))"
    using text_limits_Inr [OF c(7)] x(1) by (auto simp: r updated_item_def item_check_def intro!: plain)
  have "labels_normal (updated_item r x)"
    using c(4) x(3) by (auto simp: r updated_item_def labels_normal_def updated_labels_def split: option.splits
        dest: normalizeLabels_Inr(1,3))
  then show ?thesis using title src eid texts pair by (auto simp: item_check_def named_identity_def)
qed

lemma update_item_typed:
  assumes ok: "catalog_ok d" "items_normal d"
  shows "well_typed (usecase_UpdateMetadataItem cd now tnow org user iid inp d)"
  unfolding usecase_UpdateMetadataItem_def
proof (rule validated_typed [OF ok item_validation_no_check(2)])
  fix r assume r: "update_item_request cd inp = Inr r"
  let ?new = "\<lambda>x. updated_item r x\<lparr>it_updated_by := Some user, it_updated_at := now\<rparr>"
  have chk: "checks_ok d" using ok(1) by (simp add: catalog_ok_def)
  have xs: "x \<in> set (c_items d) \<Longrightarrow> item_check x" for x using ok(1) by (rule catalog_ok_checks)
  have new: "item_check (updated_item r x) \<and> named_identity (updated_item r x) \<and> labels_normal (updated_item r x)"
    if "find_visible_item org iid (EnsureRefs user org d) = Some x"
      "present_text (it_external_source (updated_item r x)) = present_text (it_external_id (updated_item r x))" for x
  proof -
    have "x \<in> set (c_items d)" using that(1) by (auto simp: find_visible_item_def dest!: find_SomeD)
    then show ?thesis using update_item_request_Inr [OF r _ _ _ that(2)] xs ok(2) by (auto simp: items_normal_def)
  qed
  have row:
    "item_check (x\<lparr>it_updated_by := ub\<rparr>) = item_check x" "item_check (x\<lparr>it_updated_at := t\<rparr>) = item_check x"
    "item_check (x\<lparr>it_unit := un\<rparr>) = item_check x"
    "named_identity (x\<lparr>it_updated_by := ub\<rparr>) = named_identity x" "named_identity (x\<lparr>it_updated_at := t\<rparr>) = named_identity x"
    "named_identity (x\<lparr>it_unit := un\<rparr>) = named_identity x"
    "labels_normal (x\<lparr>it_updated_by := ub\<rparr>) = labels_normal x" "labels_normal (x\<lparr>it_updated_at := t\<rparr>) = labels_normal x"
    "labels_normal (x\<lparr>it_unit := un\<rparr>) = labels_normal x" for x t un ub
    by (simp_all add: item_check_def named_identity_def labels_normal_def)
  show "well_typed (UpdateMetadataItem now tnow org user iid r d)"
    unfolding UpdateMetadataItem_def
  proof (rule transaction_typed [OF ok], goal_cases)
    case 1
    have save: "no_check (save_item tnow (?new x) (EnsureRefs user org d))"
      if "find_visible_item org iid (EnsureRefs user org d) = Some x"
        "present_text (it_external_source (updated_item r x)) = present_text (it_external_id (updated_item r x))" for x
      unfolding save_item_def
      by (intro items_no_check) (use chk xs new [OF that] in \<open>auto simp: row elim!: sql_update_memE\<close>)
    show ?case
      by (intro no_check_intros no_check_fence catalog_error.distinct) (auto intro: save)
  next
    case (2 x d')
    then obtain x0 where x0: "find_visible_item org iid (EnsureRefs user org d) = Some x0"
        "present_text (it_external_source (updated_item r x0)) = present_text (it_external_id (updated_item r x0))"
      and d': "save_item tnow (?new x0) (EnsureRefs user org d) = Inr d'"
      by (auto simp: Let_def on_conflict_def split: if_splits)
    have "items_normal d'" using d' ok(2) new [OF x0]
      by (auto simp: save_item_def items_normal_def row elim!: sql_update_memE)
    moreover have "catalog_ok d'" using d' by (auto simp: save_item_def)
    ultimately show ?case by simp
  qed
qed

text \<open>C17: A request that passes the validation of the use cases writes rows of the right shape: creating or updating
a folder or an item never runs into a check of the database (lengths, blank names, an external identity with one half
missing), and the tables keep their constraints, with trimmed distinct labels and external identities that are not
blank, as long as they started out so.\<close>

theorem accepted_requests_are_well_typed:
  assumes "catalog_ok d" and "items_normal d"
  shows "well_typed (usecase_CreateFolder fid org user folder_input d)
    \<and> well_typed (usecase_UpdateFolder org user fid folder_change d)
    \<and> well_typed (usecase_CreateMetadataItem cd iid now org user item_input d)
    \<and> well_typed (usecase_UpdateMetadataItem cd now tnow org user iid item_change d)"
  by (intro conjI create_folder_typed update_folder_typed create_item_typed update_item_typed assms)

definition demo_folder_input :: create_folder_input where
  "demo_folder_input = \<lparr>cf_parent_path = Some ''t'', cf_name = '' new folder '', cf_description = None\<rparr>"

lemma tree_demo_normal: "items_normal tree_demo" unfolding items_normal_def by code_simp

lemma accepted_requests_are_well_typed_witness:
  "well_typed (usecase_CreateFolder ''n-1'' ''org'' ''ann'' demo_folder_input tree_demo)
   \<and> map fd_name (filter (\<lambda>f. fd_path f = [''t'', ''n1''])
       (c_folders (snd (usecase_CreateFolder ''n-1'' ''org'' ''ann'' demo_folder_input tree_demo)))) = [''new folder'']"
proof
  show "well_typed (usecase_CreateFolder ''n-1'' ''org'' ''ann'' demo_folder_input tree_demo)"
    using accepted_requests_are_well_typed [OF tree_demo_ok(1) tree_demo_normal] by blast
  show "map fd_name (filter (\<lambda>f. fd_path f = [''t'', ''n1''])
       (c_folders (snd (usecase_CreateFolder ''n-1'' ''org'' ''ann'' demo_folder_input tree_demo)))) = [''new folder'']"
    by code_simp
qed

end
