(* ===== verification/Http_Reply.thy ===== *)
theory Http_Reply
  imports Event_Envelope
begin

text \<open>
  What the handlers of \<open>internal/delivery/http\<close> share: requests and responses, the table of error codes
  (\<open>errorcodes.go\<close>), the middleware (\<open>middleware.go\<close>) and the strict decoding of a JSON body into a struct. A request
  is what the handlers read of it: the cleaned path, the header lookup, the decoded query pairs in order, the path
  values of the route and the body.
\<close>

section \<open>Requests and responses\<close>

record request =
  rq_method :: string
  rq_path :: string
  rq_header :: "string \<Rightarrow> string"
  rq_query :: "(string \<times> string) list"
  rq_values :: "string \<Rightarrow> string"
  rq_body :: string

text \<open>\<open>url.Values\<close>: \<open>Get\<close> is the first value or the empty text, \<open>Has\<close> is presence, indexing gives all values.\<close>

definition query_all :: "request \<Rightarrow> string \<Rightarrow> string list" where
  "query_all rq k = map snd (filter (\<lambda>p. fst p = k) (rq_query rq))"

definition query_has :: "request \<Rightarrow> string \<Rightarrow> bool" where
  "query_has rq k \<longleftrightarrow> query_all rq k \<noteq> []"

definition query_get :: "request \<Rightarrow> string \<Rightarrow> string" where
  "query_get rq k = (case query_all rq k of [] \<Rightarrow> [] | v # _ \<Rightarrow> v)"

record actor =
  ac_user :: string
  ac_org :: string
  ac_admin :: bool

record error_code =
  ec_code :: string
  ec_number :: int
  ec_message :: string

datatype 'p reply_body = ErrorBody error_code | Body 'p | NoBody

record 'p response =
  rs_status :: int
  rs_body :: "'p reply_body"

definition StatusOK :: int where "StatusOK = 200"
definition StatusCreated :: int where "StatusCreated = 201"
definition StatusAccepted :: int where "StatusAccepted = 202"
definition StatusNoContent :: int where "StatusNoContent = 204"
definition StatusBadRequest :: int where "StatusBadRequest = 400"
definition StatusUnauthorized :: int where "StatusUnauthorized = 401"
definition StatusForbidden :: int where "StatusForbidden = 403"
definition StatusNotFound :: int where "StatusNotFound = 404"
definition StatusMethodNotAllowed :: int where "StatusMethodNotAllowed = 405"
definition StatusConflict :: int where "StatusConflict = 409"
definition StatusGone :: int where "StatusGone = 410"
definition StatusRequestEntityTooLarge :: int where "StatusRequestEntityTooLarge = 413"
definition StatusUnsupportedMediaType :: int where "StatusUnsupportedMediaType = 415"
definition StatusInternalServerError :: int where "StatusInternalServerError = 500"
definition StatusServiceUnavailable :: int where "StatusServiceUnavailable = 503"

lemmas status_codes = StatusOK_def StatusCreated_def StatusAccepted_def StatusNoContent_def StatusBadRequest_def
  StatusUnauthorized_def StatusForbidden_def StatusNotFound_def StatusMethodNotAllowed_def StatusConflict_def
  StatusGone_def StatusRequestEntityTooLarge_def StatusUnsupportedMediaType_def StatusInternalServerError_def
  StatusServiceUnavailable_def

section \<open>Error codes\<close>

definition error_entry :: "string \<Rightarrow> int \<Rightarrow> string \<Rightarrow> error_code" where
  "error_entry code number message = \<lparr>ec_code = code, ec_number = number, ec_message = message\<rparr>"

definition errorCodes :: "error_code list" where
  "errorCodes =
    [error_entry ''INTERNAL_ERROR'' 1000 ''Internal server error, please try again'',
     error_entry ''BAD_REQUEST'' 1001 ''Malformed request body or parameters'',
     error_entry ''METHOD_NOT_ALLOWED'' 1002 ''HTTP method not allowed on this endpoint'',
     error_entry ''CURSOR_INVALID'' 1003 ''Pagination cursor is malformed or stale'',
     error_entry ''UNAUTHENTICATED'' 2001 ''Missing or invalid actor identity'',
     error_entry ''NO_ORG_CONTEXT'' 2002 ''Organization context is required'',
     error_entry ''FORBIDDEN'' 2003 ''The requested action is not permitted'',
     error_entry ''USER_NOT_FOUND'' 2004 ''User not found or inactive'',
     error_entry ''UNKNOWN_ACTION'' 2005 ''Requested permission action is not recognized'',
     error_entry ''TRAINER_BYPASS_DISABLED'' 2006 ''Trainer bypass is disabled'',
     error_entry ''TRAINER_BYPASS_EXPIRED'' 2007 ''Trainer bypass has expired'',
     error_entry ''RESERVED_ROLE_CODE'' 2008 ''Role code is reserved and cannot be modified'',
     error_entry ''FOLDER_NOT_FOUND'' 3001 ''Folder not found'',
     error_entry ''FOLDER_ORG_MISMATCH'' 3002 ''Folder not found'',
     error_entry ''FOLDER_NAME_CONFLICT'' 3003 ''A folder with this name already exists at this location'',
     error_entry ''FOLDER_NOT_EMPTY'' 3004 ''Folder contains active descendants or metadata'',
     error_entry ''FOLDER_CYCLE_DETECTED'' 3005 ''Move would create a cycle'',
     error_entry ''FOLDER_PARENT_DELETED'' 3006 ''Parent folder is deleted or missing'',
     error_entry ''FOLDER_ROOT_PROTECTED'' 3007 ''Cannot perform this action on the root folder'',
     error_entry ''DELETION_PREVIEW_STALE'' 3008 ''Folder deletion preview is stale; request a new preview'',
     error_entry ''FOLDER_DELETION_IN_PROGRESS'' 3009 ''Folder deletion is already in progress'',
     error_entry ''DELETION_JOB_NOT_FOUND'' 3010 ''Folder deletion job not found'',
     error_entry ''DELETION_JOB_NOT_CANCELLABLE'' 3011 ''Folder deletion job cannot be cancelled or retried in its current state'',
     error_entry ''FOLDER_NOT_DELETED'' 3012 ''Folder is already active'',
     error_entry ''RESTORE_PARENT_DELETED'' 3013 ''Restore the parent folder before restoring this item'',
     error_entry ''LIFECYCLE_UNIT_NOT_FOUND'' 3014 ''Lifecycle unit not found'',
     error_entry ''LIFECYCLE_UNIT_NOT_RESTORABLE'' 3015 ''Lifecycle unit cannot be restored in its current state'',
     error_entry ''LIFECYCLE_JOB_NOT_FOUND'' 3016 ''Lifecycle job not found'',
     error_entry ''METADATA_NOT_FOUND'' 4001 ''Metadata item not found'',
     error_entry ''METADATA_IDENTITY_CONFLICT'' 4002 ''External identity already exists on an active item'',
     error_entry ''METADATA_VALIDATION_ERROR'' 4003 ''Metadata field validation failed'',
     error_entry ''METADATA_FOLDER_DELETED'' 4004 ''Containing folder is deleted'',
     error_entry ''METADATA_NOT_DELETED'' 4005 ''Metadata item is already active'',
     error_entry ''GRANT_NOT_FOUND'' 5001 ''Object permission not found'',
     error_entry ''GRANT_INVALID_TARGET'' 5002 ''Grant must target exactly one of user or role'',
     error_entry ''MEDIA_UPLOAD_NOT_FOUND'' 6001 ''Media upload not found'',
     error_entry ''MEDIA_UPLOAD_IN_PROGRESS'' 6002 ''A media upload is already in progress for this asset'',
     error_entry ''IDEMPOTENCY_KEY_REUSED'' 6003 ''Idempotency key was already used with different request data'',
     error_entry ''UPLOAD_SESSION_EXPIRED'' 6004 ''Upload session has expired'',
     error_entry ''MEDIA_PAYLOAD_TOO_LARGE'' 6005 ''Media file exceeds the maximum allowed size'',
     error_entry ''MEDIA_TYPE_UNSUPPORTED'' 6006 ''Media type is not supported'',
     error_entry ''MEDIA_OBJECT_MISMATCH'' 6007 ''Stored object does not match the upload session'',
     error_entry ''INVALID_IMAGE'' 6008 ''File is not a valid image'',
     error_entry ''IMAGE_DIMENSIONS_EXCEEDED'' 6009 ''Image dimensions exceed the maximum allowed'',
     error_entry ''PROCESSING_TIMEOUT'' 6010 ''Media processing exceeded its time limit'',
     error_entry ''MEDIA_STORAGE_UNAVAILABLE'' 6011 ''Media storage is temporarily unavailable'',
     error_entry ''MEDIA_PROCESSING_FAILED'' 6012 ''Media processing failed'',
     error_entry ''MEDIA_QUOTA_EXCEEDED'' 6013 ''Organization media storage quota exceeded'',
     error_entry ''MEDIA_RATE_LIMITED'' 6014 ''Too many upload requests, please retry later'',
     error_entry ''MEDIA_UPLOAD_STATE_CONFLICT'' 6015 ''Operation is not valid for the current upload state'']"

definition error_code_of :: "string \<Rightarrow> error_code option" where
  "error_code_of code = find (\<lambda>e. ec_code e = code) errorCodes"

definition internalMediaErrorCodes :: "(string \<times> string) list" where
  "internalMediaErrorCodes = [(''MEDIA_NOTIFICATION_ISOLATED'', ''MEDIA_PROCESSING_FAILED'')]"

definition publicMediaErrorCode :: "string \<Rightarrow> string" where
  "publicMediaErrorCode internalCode =
     (case map_of internalMediaErrorCodes internalCode of
        Some public \<Rightarrow> public
      | None \<Rightarrow> if error_code_of internalCode \<noteq> None then internalCode else ''MEDIA_PROCESSING_FAILED'')"

definition lookupErrorCode :: "string \<Rightarrow> error_code" where
  "lookupErrorCode code =
     (case error_code_of code of
        Some e \<Rightarrow> e
      | None \<Rightarrow> (case error_code_of ''INTERNAL_ERROR'' of Some e \<Rightarrow> e | None \<Rightarrow> error_entry [] 0 []))"

definition writeError :: "int \<Rightarrow> string \<Rightarrow> 'p response" where
  "writeError status code = \<lparr>rs_status = status, rs_body = ErrorBody (lookupErrorCode code)\<rparr>"

definition legacy_code :: "string \<Rightarrow> int \<Rightarrow> string" where
  "legacy_code message status =
     (if message = ''Method not allowed'' then ''METHOD_NOT_ALLOWED''
      else if message = ''invalid internal service credential'' \<or> message = ''missing X-User-Id or X-Org-Id header''
      then ''UNAUTHENTICATED''
      else if message = ''Organization context mismatch'' then ''FORBIDDEN''
      else if message = ''Folder not found'' then ''FOLDER_NOT_FOUND''
      else if message = ''Invalid input'' then ''BAD_REQUEST''
      else if status = StatusBadRequest then ''BAD_REQUEST''
      else ''INTERNAL_ERROR'')"

definition writeLegacyError :: "string \<Rightarrow> int \<Rightarrow> 'p response" where
  "writeLegacyError message status = writeError status (legacy_code message status)"

definition writeJSON :: "int \<Rightarrow> 'p \<Rightarrow> 'p response" where
  "writeJSON status payload = \<lparr>rs_status = status, rs_body = Body payload\<rparr>"

definition no_content :: "'p response" where
  "no_content = \<lparr>rs_status = StatusNoContent, rs_body = NoBody\<rparr>"

section \<open>Middleware\<close>

text \<open>\<open>requestIDPattern\<close>: a letter or digit, then at most 127 of letters, digits and \<open>. _ : -\<close>.\<close>

definition alnum_char :: "char \<Rightarrow> bool" where
  "alnum_char c \<longleftrightarrow> (let b = byte_of c in (48 \<le> b \<and> b \<le> 57) \<or> (65 \<le> b \<and> b \<le> 90) \<or> (97 \<le> b \<and> b \<le> 122))"

definition requestIDPattern :: "string \<Rightarrow> bool" where
  "requestIDPattern s \<longleftrightarrow> (case s of
       [] \<Rightarrow> False
     | c # cs \<Rightarrow> alnum_char c \<and> length cs \<le> 127
         \<and> list_all (\<lambda>x. alnum_char x \<or> x \<in> set [CHR ''.'', CHR ''_'', CHR '':'', CHR ''-'']) cs)"

record log_entry =
  le_trace :: string
  le_request :: string
  le_status :: int
  le_result :: string
  le_code :: string
  le_number :: int

text \<open>The correlation of a request; a missing or malformed identifier is replaced by a fresh one.\<close>

definition correlation_ids :: "(nat \<Rightarrow> string) \<Rightarrow> request \<Rightarrow> string \<times> string" where
  "correlation_ids fresh rq =
     ((case ParseTraceparent (rq_header rq ''traceparent'') of Some t \<Rightarrow> t | None \<Rightarrow> fresh 0),
      (let r = trim_space (rq_header rq ''X-Request-Id'') in if requestIDPattern r then r else fresh 1))"

definition recorded_error :: "'p response \<Rightarrow> string \<times> int" where
  "recorded_error rs = (case rs_body rs of ErrorBody e \<Rightarrow> (ec_code e, ec_number e) | _ \<Rightarrow> ([], 0))"

definition request_result :: "string \<Rightarrow> int \<Rightarrow> string" where
  "request_result code status =
     (if code = ''INTERNAL_ERROR'' \<or> StatusInternalServerError \<le> status then ''failure''
      else if code \<noteq> [] \<or> StatusBadRequest \<le> status then ''denied''
      else ''success'')"

definition WithRequestCorrelation ::
  "(nat \<Rightarrow> string) \<Rightarrow> (request \<Rightarrow> 'd \<Rightarrow> 'p response \<times> 'd) \<Rightarrow> request \<Rightarrow> 'd \<Rightarrow> ('p response \<times> log_entry) \<times> 'd" where
  "WithRequestCorrelation fresh next rq d =
     (let (rs, d1) = next rq d; (code, number) = recorded_error rs; (trace, rid) = correlation_ids fresh rq in
      ((rs, \<lparr>le_trace = trace, le_request = rid, le_status = rs_status rs,
             le_result = request_result code (rs_status rs), le_code = code, le_number = number\<rparr>), d1))"

definition RequireInternalAPI ::
  "string \<Rightarrow> (request \<Rightarrow> 'd \<Rightarrow> 'p response \<times> 'd) \<Rightarrow> request \<Rightarrow> 'd \<Rightarrow> 'p response \<times> 'd" where
  "RequireInternalAPI expectedToken next rq d =
     (if \<not> has_prefix ''/internal/api/'' (rq_path rq) then next rq d
      else
        let authorization = rq_header rq ''Authorization''; token = drop 7 authorization in
        if \<not> has_prefix ''Bearer '' authorization \<or> token = [] \<or> token \<noteq> expectedToken
        then (writeLegacyError ''invalid internal service credential'' StatusUnauthorized, d)
        else next rq d)"

definition RequireActor ::
  "(string \<Rightarrow> bool) \<Rightarrow> (actor option \<Rightarrow> request \<Rightarrow> 'd \<Rightarrow> 'p response \<times> 'd) \<Rightarrow> request \<Rightarrow> 'd \<Rightarrow> 'p response \<times> 'd" where
  "RequireActor valid_uuid next rq d =
     (let user = rq_header rq ''X-User-Id''; org = rq_header rq ''X-Org-Id'';
          admin = trim_space (rq_header rq ''X-Org-Admin'') in
      if user = [] \<or> org = [] then (writeLegacyError ''missing X-User-Id or X-Org-Id header'' StatusUnauthorized, d)
      else if \<not> valid_uuid user then (writeLegacyError ''malformed X-User-Id'' StatusBadRequest, d)
      else if \<not> valid_uuid org then (writeLegacyError ''malformed X-Org-Id'' StatusBadRequest, d)
      else if admin \<noteq> [] \<and> admin \<noteq> ''true'' \<and> admin \<noteq> ''false''
      then (writeLegacyError ''malformed X-Org-Admin'' StatusBadRequest, d)
      else next (Some \<lparr>ac_user = user, ac_org = org, ac_admin = (admin = ''true'')\<rparr>) rq d)"

section \<open>Strict JSON bodies\<close>

text \<open>
  A body is exactly one JSON value; decoded into a struct it is an object all of whose members are fields, or \<open>null\<close>,
  which sets nothing. The members of a pointer field: \<open>null\<close> resets it. The raw text of a member is the text of its
  tree.
\<close>

definition decodeJSONBody :: "codec \<Rightarrow> string list \<Rightarrow> string \<Rightarrow> (string \<times> json) list option" where
  "decodeJSONBody cd known body =
     (case document_fields cd body of
        None \<Rightarrow> None
      | Some fs \<Rightarrow> if list_all (\<lambda>m. list_ex (\<lambda>f. fold_name f = fold_name (fst m)) known) fs then Some fs else None)"

fun pointer_field :: "string \<Rightarrow> (string \<times> json) list \<Rightarrow> string option \<Rightarrow> string option option" where
  "pointer_field name [] acc = Some acc"
| "pointer_field name ((k, v) # fs) acc =
     (if fold_name k \<noteq> fold_name name then pointer_field name fs acc
      else (case v of JNull \<Rightarrow> pointer_field name fs None
                    | JStr s \<Rightarrow> pointer_field name fs (Some s)
                    | _ \<Rightarrow> None))"

text \<open>An element \<open>null\<close> of an array of texts reads as the empty text.\<close>

fun text_elements :: "json list \<Rightarrow> string list option" where
  "text_elements [] = Some []"
| "text_elements (v # vs) =
     (case v of JNull \<Rightarrow> map_option (\<lambda>xs. [] # xs) (text_elements vs)
              | JStr s \<Rightarrow> map_option (\<lambda>xs. s # xs) (text_elements vs)
              | _ \<Rightarrow> None)"

fun texts_field :: "string \<Rightarrow> (string \<times> json) list \<Rightarrow> string list \<Rightarrow> string list option" where
  "texts_field name [] acc = Some acc"
| "texts_field name ((k, v) # fs) acc =
     (if fold_name k \<noteq> fold_name name then texts_field name fs acc
      else (case v of JNull \<Rightarrow> texts_field name fs []
                    | JArr vs \<Rightarrow> (case text_elements vs of None \<Rightarrow> None | Some xs \<Rightarrow> texts_field name fs xs)
                    | _ \<Rightarrow> None))"

fun raw_field :: "codec \<Rightarrow> string \<Rightarrow> (string \<times> json) list \<Rightarrow> string \<Rightarrow> string" where
  "raw_field cd name [] acc = acc"
| "raw_field cd name ((k, v) # fs) acc =
     raw_field cd name fs (if fold_name k = fold_name name then json_text cd v else acc)"

text \<open>The three sparse field types: \<open>None\<close> is an omitted field, \<open>Some None\<close> an explicit \<open>null\<close>.\<close>

fun optional_field :: "(json \<Rightarrow> 'a option) \<Rightarrow> string \<Rightarrow> (string \<times> json) list \<Rightarrow> 'a option option \<Rightarrow> 'a option option option" where
  "optional_field dec name [] acc = Some acc"
| "optional_field dec name ((k, v) # fs) acc =
     (if fold_name k \<noteq> fold_name name then optional_field dec name fs acc
      else if v = JNull then optional_field dec name fs (Some None)
      else (case dec v of None \<Rightarrow> None | Some x \<Rightarrow> optional_field dec name fs (Some (Some x))))"

definition optionalString :: "json \<Rightarrow> string option" where
  "optionalString v = (case v of JStr s \<Rightarrow> Some s | _ \<Rightarrow> None)"

definition optionalStringArray :: "json \<Rightarrow> string list option" where
  "optionalStringArray v = (case v of JArr vs \<Rightarrow> text_elements vs | _ \<Rightarrow> None)"

definition optionalRawMessage :: "codec \<Rightarrow> json \<Rightarrow> string option" where
  "optionalRawMessage cd v = Some (json_text cd v)"

section \<open>Decoding base64\<close>

text \<open>Both decoders of \<open>encoding/base64\<close> skip line breaks; the strict one wants padding and zero spare bits.\<close>

definition sextet_of :: "char \<Rightarrow> char \<Rightarrow> char \<Rightarrow> nat option" where
  "sextet_of c62 c63 c =
     (let b = byte_of c in
      if 65 \<le> b \<and> b \<le> 90 then Some (b - 65)
      else if 97 \<le> b \<and> b \<le> 122 then Some (b - 71)
      else if 48 \<le> b \<and> b \<le> 57 then Some (b + 4)
      else if c = c62 then Some 62 else if c = c63 then Some 63 else None)"

fun raw_sextets :: "nat list \<Rightarrow> nat list option" where
  "raw_sextets [] = Some []"
| "raw_sextets [a] = None"
| "raw_sextets [a, b] = Some [a * 4 + b div 16]"
| "raw_sextets [a, b, c] = Some [a * 4 + b div 16, b mod 16 * 16 + c div 4]"
| "raw_sextets (a # b # c # e # rest) =
     map_option (\<lambda>bs. (a * 4 + b div 16) # (b mod 16 * 16 + c div 4) # (c mod 4 * 64 + e) # bs) (raw_sextets rest)"

definition no_breaks :: "string \<Rightarrow> string" where
  "no_breaks s = filter (\<lambda>c. byte_of c \<noteq> 10 \<and> byte_of c \<noteq> 13) s"

fun all_some :: "'a option list \<Rightarrow> 'a list option" where
  "all_some [] = Some []"
| "all_some (x # xs) = (case x of None \<Rightarrow> None | Some y \<Rightarrow> map_option (\<lambda>ys. y # ys) (all_some xs))"

definition raw_url_decode :: "string \<Rightarrow> nat list option" where
  "raw_url_decode s =
     (case all_some (map (sextet_of (CHR ''-'') (CHR ''_'')) (no_breaks s)) of
        None \<Rightarrow> None | Some vs \<Rightarrow> raw_sextets vs)"

fun strict_groups :: "string \<Rightarrow> nat list option" where
  "strict_groups [] = Some []"
| "strict_groups (p # q # r # t # rest) =
     (let v = sextet_of (CHR ''+'') (CHR ''/'') in
      case (v p, v q) of
        (Some a, Some b) \<Rightarrow>
          (if r = CHR ''='' \<and> t = CHR ''='' \<and> rest = [] then
             (if b mod 16 = 0 then Some [a * 4 + b div 16] else None)
           else (case v r of
                   None \<Rightarrow> None
                 | Some c \<Rightarrow>
                     if t = CHR ''='' \<and> rest = [] then
                       (if c mod 4 = 0 then Some [a * 4 + b div 16, b mod 16 * 16 + c div 4] else None)
                     else (case v t of
                             None \<Rightarrow> None
                           | Some e \<Rightarrow> map_option (\<lambda>bs. (a * 4 + b div 16) # (b mod 16 * 16 + c div 4)
                                                     # (c mod 4 * 64 + e) # bs) (strict_groups rest))))
      | _ \<Rightarrow> None)"
| "strict_groups _ = None"

definition std_strict_decode :: "string \<Rightarrow> nat list option" where
  "std_strict_decode s = strict_groups (no_breaks s)"

section \<open>Facts\<close>

lemma lookupErrorCode_listed: "lookupErrorCode code \<in> set errorCodes"
proof -
  have "error_code_of ''INTERNAL_ERROR'' \<noteq> None" by code_simp
  then show ?thesis
    unfolding lookupErrorCode_def error_code_of_def by (auto split: option.splits dest: find_SomeD)
qed

end
