(* ===== verification/Asset_Handler.thy ===== *)
theory Asset_Handler
  imports Asset_Usecase Http_Reply
begin

text \<open>
  The asset endpoints (\<open>internal/delivery/http/asset_handler.go\<close>): for every route the checks of the request in the
  order of the code, the decoding of its parameters and body, the use case it calls, and the reply. The parser of
  query times, the UUID parser, new identifiers, clocks and randomness are fields of \<open>handler_env\<close>. The payload of a
  reply is the value that is encoded; its JSON text is left out.
\<close>

section \<open>What a handler works with\<close>

record handler_env =
  he_codec :: codec
  he_parse_time :: "string \<Rightarrow> instant option"
  he_casing :: "nat \<Rightarrow> nat"
  he_sha256 :: "string \<Rightarrow> nat list"
  he_random :: "nat list"
  he_ids :: "nat \<Rightarrow> string"
  he_now :: instant
  he_tnow :: instant
  he_deletion :: bool
  he_db :: bool

definition valid_uuid :: "handler_env \<Rightarrow> string \<Rightarrow> bool" where
  "valid_uuid he s \<longleftrightarrow> uuid_valid (he_codec he) s"

datatype asset_payload =
    FolderReply folder
  | FoldersReply "int option" "folder list"
  | FolderFact string string
  | ItemReply item
  | ItemsReply "item list" "bool option"
  | EntriesReply "bin_entry list" bool
  | FolderRestoreFact "string \<times> ltree"
  | MetadataRestoreFact "string \<times> string \<times> ltree"
  | UnitRestoreFact restore_fact
  | LifecycleJobReply lifecycle_job
  | PreviewReply deletion_preview
  | DeletionJobReply deletion_job
  | HealthReply string bool

type_synonym asset_response = "asset_payload response"
type_synonym handler = "actor option \<Rightarrow> request \<Rightarrow> catalog \<Rightarrow> asset_response \<times> catalog"

definition internalCursorMode :: string where "internalCursorMode = ''true''"
definition maxCursorCandidateBatchSize :: int where "maxCursorCandidateBatchSize = 101"
definition cursorDatabaseLookaheadRowCount :: int where "cursorDatabaseLookaheadRowCount = 1"

definition mapDomainError :: "catalog_error \<Rightarrow> string \<Rightarrow> asset_response" where
  "mapDomainError err invalidInputCode =
     (case err of
        ErrFolderNotFound \<Rightarrow> writeError StatusNotFound ''FOLDER_NOT_FOUND''
      | ErrMetadataNotFound \<Rightarrow> writeError StatusNotFound ''METADATA_NOT_FOUND''
      | ErrFolderConflict \<Rightarrow> writeError StatusConflict ''FOLDER_NAME_CONFLICT''
      | ErrFolderNotEmpty \<Rightarrow> writeError StatusConflict ''FOLDER_NOT_EMPTY''
      | ErrFolderNotDeleted \<Rightarrow> writeError StatusConflict ''FOLDER_NOT_DELETED''
      | ErrRestoreParentDeleted \<Rightarrow> writeError StatusConflict ''RESTORE_PARENT_DELETED''
      | ErrLifecycleUnitNotFound \<Rightarrow> writeError StatusNotFound ''LIFECYCLE_UNIT_NOT_FOUND''
      | ErrLifecycleUnitNotRestorable \<Rightarrow> writeError StatusConflict ''LIFECYCLE_UNIT_NOT_RESTORABLE''
      | ErrLifecycleJobNotFound \<Rightarrow> writeError StatusNotFound ''LIFECYCLE_JOB_NOT_FOUND''
      | ErrFolderParentDeleted \<Rightarrow> writeError StatusConflict ''FOLDER_PARENT_DELETED''
      | ErrCycleDetected \<Rightarrow> writeError StatusConflict ''FOLDER_CYCLE_DETECTED''
      | ErrMetadataConflict \<Rightarrow> writeError StatusConflict ''METADATA_IDENTITY_CONFLICT''
      | ErrMetadataNotDeleted \<Rightarrow> writeError StatusConflict ''METADATA_NOT_DELETED''
      | ErrMetadataFolderDeleted \<Rightarrow> writeError StatusConflict ''METADATA_FOLDER_DELETED''
      | ErrCursorInvalid \<Rightarrow> writeError StatusBadRequest ''CURSOR_INVALID''
      | ErrDeletionPreviewStale \<Rightarrow> writeError StatusConflict ''DELETION_PREVIEW_STALE''
      | ErrFolderDeletionInProgress \<Rightarrow> writeError StatusConflict ''FOLDER_DELETION_IN_PROGRESS''
      | ErrDeletionJobNotFound \<Rightarrow> writeError StatusNotFound ''DELETION_JOB_NOT_FOUND''
      | ErrDeletionJobNotCancellable \<Rightarrow> writeError StatusConflict ''DELETION_JOB_NOT_CANCELLABLE''
      | ErrInvalidInput \<Rightarrow> writeError StatusBadRequest invalidInputCode
      | _ \<Rightarrow> writeError StatusInternalServerError ''INTERNAL_ERROR'')"

text \<open>The tail of a handler: the result of its use case becomes a reply.\<close>

definition replied :: "(catalog_error \<Rightarrow> asset_response) \<Rightarrow> ('a \<Rightarrow> asset_response) \<Rightarrow> 'a reply \<times> catalog \<Rightarrow> asset_response \<times> catalog" where
  "replied failed done_with r = (case fst r of Inl e \<Rightarrow> failed e | Inr x \<Rightarrow> done_with x, snd r)"

definition database_error :: "catalog_error \<Rightarrow> asset_response" where
  "database_error e = writeLegacyError ''Database error'' StatusInternalServerError"

definition missing_actor :: asset_response where
  "missing_actor = writeLegacyError ''Missing actor context'' StatusInternalServerError"

definition wrong_method :: asset_response where
  "wrong_method = writeLegacyError ''Method not allowed'' StatusMethodNotAllowed"

definition wrong_org :: asset_response where
  "wrong_org = writeLegacyError ''Organization context mismatch'' StatusForbidden"

text \<open>The guards, each with the early return of the code.\<close>

definition with_actor :: "actor option \<Rightarrow> (actor \<Rightarrow> catalog \<Rightarrow> asset_response \<times> catalog) \<Rightarrow> catalog \<Rightarrow> asset_response \<times> catalog" where
  "with_actor a k d = (case a of None \<Rightarrow> (missing_actor, d) | Some ac \<Rightarrow> k ac d)"

definition refuse_when :: "bool \<Rightarrow> asset_response \<Rightarrow> (catalog \<Rightarrow> asset_response \<times> catalog) \<Rightarrow> catalog \<Rightarrow> asset_response \<times> catalog" where
  "refuse_when c rs k d = (if c then (rs, d) else k d)"

definition bad_request :: asset_response where
  "bad_request = writeError StatusBadRequest ''BAD_REQUEST''"

definition cursor_invalid :: asset_response where
  "cursor_invalid = writeError StatusBadRequest ''CURSOR_INVALID''"

definition legacy_bad :: "string \<Rightarrow> asset_response" where
  "legacy_bad message = writeLegacyError message StatusBadRequest"

text \<open>The organization of the query must be given and be the actor's.\<close>

definition own_org :: "actor \<Rightarrow> request \<Rightarrow> (string \<Rightarrow> catalog \<Rightarrow> asset_response \<times> catalog) \<Rightarrow> catalog \<Rightarrow> asset_response \<times> catalog" where
  "own_org ac rq k =
     (let org = query_get rq ''orgId'' in
      refuse_when (org = []) (legacy_bad ''Missing orgId'') (refuse_when (org \<noteq> ac_org ac) wrong_org (k org)))"

section \<open>The recycle bin\<close>

text \<open>The page of a reply: the rows but the one fetched beyond the page, and whether there was one.\<close>

definition page_of :: "int \<Rightarrow> 'r list \<Rightarrow> 'r list \<times> bool" where
  "page_of limit rows =
     (let more = limit < int (length rows) in (if more then take (nat limit) rows else rows, more))"

definition bin_limit :: "request \<Rightarrow> int option" where
  "bin_limit rq =
     (if \<not> query_has rq ''limit'' then Some 50
      else (case parse_int64 (query_get rq ''limit'') of
              None \<Rightarrow> None
            | Some n \<Rightarrow> if n < 1 \<or> maxCursorCandidateBatchSize < n then None else Some n))"

text \<open>A cursor is both of its halves, both well formed, or neither.\<close>

definition cursor_of :: "handler_env \<Rightarrow> string \<Rightarrow> request \<Rightarrow> (instant \<times> string) option option" where
  "cursor_of he timeKey rq =
     (if query_has rq timeKey \<noteq> query_has rq ''afterId'' then None
      else if \<not> query_has rq timeKey then Some None
      else (case he_parse_time he (query_get rq timeKey) of
              None \<Rightarrow> None
            | Some t \<Rightarrow> if valid_uuid he (query_get rq ''afterId'') then Some (Some (t, query_get rq ''afterId'')) else None))"

definition bin_reply :: "int \<Rightarrow> bin_entry list \<Rightarrow> asset_response" where
  "bin_reply limit rows = (let (page, more) = page_of limit rows in writeJSON StatusOK (EntriesReply page more))"

definition HandleRecycleBin :: "handler_env \<Rightarrow> handler" where
  "HandleRecycleBin he a rq =
     with_actor a (\<lambda>ac.
     refuse_when (rq_method rq \<noteq> ''GET'') wrong_method (
     own_org ac rq (\<lambda>org d.
       case bin_limit rq of
         None \<Rightarrow> (cursor_invalid, d)
       | Some limit \<Rightarrow>
           (case cursor_of he ''afterDeletedAt'' rq of
              None \<Rightarrow> (cursor_invalid, d)
            | Some after \<Rightarrow>
                replied (\<lambda>e. mapDomainError e ''INTERNAL_ERROR'') (bin_reply limit)
                  (usecase_ListRecycleBinEntries org \<lparr>bf_limit = limit + cursorDatabaseLookaheadRowCount,
                     bf_after_deleted = map_option fst after, bf_after_unit = map_option snd after\<rparr> d, d)))))"

definition HandleHealth :: "handler_env \<Rightarrow> request \<Rightarrow> asset_response" where
  "HandleHealth he rq =
     (if rq_method rq \<noteq> ''GET'' then wrong_method
      else writeJSON StatusOK (HealthReply (if he_db he then ''ok'' else ''degraded'') (he_db he)))"

section \<open>Recursive deletion\<close>

definition folderDeletionActor ::
  "handler_env \<Rightarrow> actor option \<Rightarrow> (actor \<Rightarrow> catalog \<Rightarrow> asset_response \<times> catalog) \<Rightarrow> catalog \<Rightarrow> asset_response \<times> catalog" where
  "folderDeletionActor he a k =
     with_actor a (\<lambda>ac. refuse_when (\<not> he_deletion he) (writeError StatusInternalServerError ''INTERNAL_ERROR'') (k ac))"

definition requireDeletionOrgAndID ::
  "handler_env \<Rightarrow> request \<Rightarrow> actor \<Rightarrow> string \<Rightarrow> (string \<Rightarrow> string \<Rightarrow> catalog \<Rightarrow> asset_response \<times> catalog) \<Rightarrow> catalog
   \<Rightarrow> asset_response \<times> catalog" where
  "requireDeletionOrgAndID he rq ac idKey k =
     (let org = query_get rq ''orgId''; i = query_get rq idKey in
      refuse_when (org = [] \<or> org \<noteq> ac_org ac) wrong_org (
      refuse_when (\<not> valid_uuid he i) bad_request (k org i)))"

definition validConfirmationToken :: "string \<Rightarrow> bool" where
  "validConfirmationToken token \<longleftrightarrow> (case raw_url_decode token of None \<Rightarrow> False | Some bs \<Rightarrow> length bs = 32)"

definition domain_error :: "catalog_error \<Rightarrow> asset_response" where
  "domain_error e = mapDomainError e ''BAD_REQUEST''"

definition metadata_error :: "catalog_error \<Rightarrow> asset_response" where
  "metadata_error e = mapDomainError e ''METADATA_VALIDATION_ERROR''"

definition HandleFolderDeletionPreview :: "handler_env \<Rightarrow> handler" where
  "HandleFolderDeletionPreview he a rq =
     refuse_when (rq_method rq \<noteq> ''POST'') wrong_method (
     folderDeletionActor he a (\<lambda>ac.
     requireDeletionOrgAndID he rq ac ''folderId'' (\<lambda>org fid d.
       replied domain_error (\<lambda>p. writeJSON StatusOK (PreviewReply p))
         (PreviewFolderDeletion (he_sha256 he) (he_random he) (he_ids he 0) (he_now he) (he_tnow he) org (ac_user ac) fid d))))"

definition decode_confirm :: "codec \<Rightarrow> string \<Rightarrow> (string \<times> string) option" where
  "decode_confirm cd body =
     (case decodeJSONBody cd [''preview_id'', ''confirmation_token''] body of
        None \<Rightarrow> None
      | Some fs \<Rightarrow>
          (case (string_field ''preview_id'' fs [], string_field ''confirmation_token'' fs []) of
             (Some p, Some t) \<Rightarrow> Some (p, t) | _ \<Rightarrow> None))"

definition HandleFolderDeletionConfirm :: "handler_env \<Rightarrow> handler" where
  "HandleFolderDeletionConfirm he a rq =
     refuse_when (rq_method rq \<noteq> ''POST'') wrong_method (
     folderDeletionActor he a (\<lambda>ac.
     requireDeletionOrgAndID he rq ac ''folderId'' (\<lambda>org fid d.
       case decode_confirm (he_codec he) (rq_body rq) of
         None \<Rightarrow> (bad_request, d)
       | Some (pid, token) \<Rightarrow>
           if \<not> valid_uuid he pid \<or> \<not> validConfirmationToken token then (bad_request, d)
           else replied domain_error (\<lambda>(j, _). writeJSON StatusAccepted (DeletionJobReply j))
                  (ConfirmFolderDeletion (he_sha256 he) (he_ids he 0) (he_ids he 1) (he_now he) (he_tnow he)
                     org (ac_user ac) fid pid token d))))"

definition HandleFolderDeletionJob :: "handler_env \<Rightarrow> handler" where
  "HandleFolderDeletionJob he a rq =
     refuse_when (rq_method rq \<noteq> ''GET'') wrong_method (
     folderDeletionActor he a (\<lambda>ac.
     requireDeletionOrgAndID he rq ac ''id'' (\<lambda>org jid d.
       replied domain_error (\<lambda>j. writeJSON StatusOK (DeletionJobReply j))
         (GetFolderDeletionJob org (ac_user ac) jid (ac_admin ac) d, d))))"

definition mutateFolderDeletionJob :: "handler_env \<Rightarrow> bool \<Rightarrow> handler" where
  "mutateFolderDeletionJob he retry a rq =
     refuse_when (rq_method rq \<noteq> ''POST'') wrong_method (
     folderDeletionActor he a (\<lambda>ac.
     requireDeletionOrgAndID he rq ac ''id'' (\<lambda>org jid d.
       if retry
       then replied domain_error (\<lambda>j. writeJSON StatusOK (DeletionJobReply j))
              (RetryFolderDeletionJob (he_now he) org (ac_user ac) jid (ac_admin ac) d)
       else replied domain_error (\<lambda>(j, _). writeJSON StatusOK (DeletionJobReply j))
              (CancelFolderDeletionJob (he_now he) org (ac_user ac) jid (ac_admin ac) d))))"

section \<open>Folders\<close>

definition folder_reply :: "folder \<Rightarrow> asset_response" where
  "folder_reply f = writeJSON StatusOK (FolderReply f)"

definition folders_reply :: "folder list \<Rightarrow> asset_response" where
  "folders_reply fs = writeJSON StatusOK (FoldersReply (Some (int (length fs))) fs)"

definition no_record :: "catalog_error list \<Rightarrow> catalog_error \<Rightarrow> asset_response" where
  "no_record missing e = (if e \<in> set missing then writeLegacyError ''Folder not found'' StatusNotFound else database_error e)"

definition list_folders :: "request \<Rightarrow> string \<Rightarrow> catalog \<Rightarrow> asset_response \<times> catalog" where
  "list_folders rq org d =
     (let rootPath = query_get rq ''rootPath'' in
      if query_get rq ''children'' = ''true'' then
        (if rootPath = [] then (legacy_bad ''rootPath is required when children=true'', d)
         else replied database_error folders_reply (GetFolderChildren org rootPath d, d))
      else if rootPath \<noteq> [] \<or> query_get rq ''tree'' = ''true''
      then replied database_error folders_reply (GetFolderTree org rootPath d, d)
      else (folders_reply (GetRootFolders org d), d))"

definition handleGetFolders :: "handler_env \<Rightarrow> actor \<Rightarrow> request \<Rightarrow> catalog \<Rightarrow> asset_response \<times> catalog" where
  "handleGetFolders he ac rq =
     (let ids = query_all rq ''id''; org = query_get rq ''orgId'' in
      refuse_when (org \<noteq> [] \<and> org \<noteq> ac_org ac) wrong_org (\<lambda>d.
        case ids of
          _ # _ # _ \<Rightarrow>
            if list_ex (\<lambda>i. \<not> valid_uuid he i) ids then (legacy_bad ''Invalid folder id format'', d)
            else (writeJSON StatusOK (FoldersReply None (GetFoldersByIDs (ac_org ac) ids d)), d)
        | [fid] \<Rightarrow>
            if \<not> valid_uuid he fid then (legacy_bad ''Invalid folder id format'', d)
            else replied (no_record [ErrNoRecord]) folder_reply (GetFolderByID (ac_org ac) fid d, d)
        | [] \<Rightarrow> if org = [] then (legacy_bad ''Missing orgId'', d) else list_folders rq org d))"

definition decode_create_folder :: "codec \<Rightarrow> string \<Rightarrow> create_folder_input option" where
  "decode_create_folder cd body =
     (case decodeJSONBody cd [''parent_path'', ''name'', ''description''] body of
        None \<Rightarrow> None
      | Some fs \<Rightarrow>
          (case (pointer_field ''parent_path'' fs None, string_field ''name'' fs [], pointer_field ''description'' fs None) of
             (Some p, Some n, Some ds) \<Rightarrow> Some \<lparr>cf_parent_path = p, cf_name = n, cf_description = ds\<rparr> | _ \<Rightarrow> None))"

definition handleCreateFolder :: "handler_env \<Rightarrow> actor \<Rightarrow> request \<Rightarrow> catalog \<Rightarrow> asset_response \<times> catalog" where
  "handleCreateFolder he ac rq =
     own_org ac rq (\<lambda>org d.
       case decode_create_folder (he_codec he) (rq_body rq) of
         None \<Rightarrow> (legacy_bad ''Invalid body'', d)
       | Some inp \<Rightarrow>
           replied domain_error (\<lambda>f. writeJSON StatusCreated (FolderReply f))
             (usecase_CreateFolder (he_ids he 0) org (ac_user ac) inp d))"

text \<open>The checks shared by the handlers that change one row: both parameters, a UUID, the actor's organization.\<close>

definition row_of_request ::
  "handler_env \<Rightarrow> string \<Rightarrow> actor \<Rightarrow> request \<Rightarrow> (string \<Rightarrow> string \<Rightarrow> catalog \<Rightarrow> asset_response \<times> catalog) \<Rightarrow> catalog
   \<Rightarrow> asset_response \<times> catalog" where
  "row_of_request he message ac rq k =
     (let i = query_get rq ''id''; org = query_get rq ''orgId'' in
      refuse_when (i = [] \<or> org = []) (legacy_bad ''Missing id or orgId'') (
      refuse_when (\<not> valid_uuid he i) (legacy_bad message) (
      refuse_when (org \<noteq> ac_org ac) wrong_org (k org i))))"

definition decode_update_folder :: "codec \<Rightarrow> string \<Rightarrow> update_folder_input option" where
  "decode_update_folder cd body =
     (case decodeJSONBody cd [''name'', ''description''] body of
        None \<Rightarrow> None
      | Some fs \<Rightarrow>
          (case (optional_field optionalString ''name'' fs None, optional_field optionalString ''description'' fs None) of
             (Some n, Some ds) \<Rightarrow>
               Some \<lparr>uf_name = valueWhenSet n, uf_name_set = (n \<noteq> None),
                     uf_description = valueWhenSet ds, uf_description_set = (ds \<noteq> None)\<rparr>
           | _ \<Rightarrow> None))"

definition handleUpdateFolder :: "handler_env \<Rightarrow> actor \<Rightarrow> request \<Rightarrow> catalog \<Rightarrow> asset_response \<times> catalog" where
  "handleUpdateFolder he ac rq =
     row_of_request he ''Invalid folder id format'' ac rq (\<lambda>org fid d.
       case decode_update_folder (he_codec he) (rq_body rq) of
         None \<Rightarrow> (legacy_bad ''Invalid body'', d)
       | Some inp \<Rightarrow> replied domain_error folder_reply (usecase_UpdateFolder org (ac_user ac) fid inp d))"

definition handleDeleteFolder :: "handler_env \<Rightarrow> actor \<Rightarrow> request \<Rightarrow> catalog \<Rightarrow> asset_response \<times> catalog" where
  "handleDeleteFolder he ac rq =
     row_of_request he ''Invalid folder id format'' ac rq (\<lambda>org fid d.
       replied domain_error (\<lambda>_. no_content)
         (DeleteFolder (he_ids he 0) (he_now he) (he_tnow he) org (ac_user ac) fid d))"

definition HandleFolders :: "handler_env \<Rightarrow> handler" where
  "HandleFolders he a rq =
     with_actor a (\<lambda>ac d.
       if rq_method rq = ''GET'' then handleGetFolders he ac rq d
       else if rq_method rq = ''POST'' then handleCreateFolder he ac rq d
       else if rq_method rq = ''PATCH'' then handleUpdateFolder he ac rq d
       else if rq_method rq = ''DELETE'' then handleDeleteFolder he ac rq d
       else (wrong_method, d))"

text \<open>A restore in a foreign organization is answered like a row that does not exist.\<close>

definition restore_request ::
  "handler_env \<Rightarrow> string \<Rightarrow> actor option \<Rightarrow> request \<Rightarrow> (string \<Rightarrow> string \<Rightarrow> string \<Rightarrow> catalog \<Rightarrow> asset_response \<times> catalog)
   \<Rightarrow> catalog \<Rightarrow> asset_response \<times> catalog" where
  "restore_request he notFound a rq k =
     refuse_when (rq_method rq \<noteq> ''POST'') wrong_method (
     with_actor a (\<lambda>ac.
       let i = query_get rq ''id''; org = query_get rq ''orgId'' in
       refuse_when (i = [] \<or> org = [] \<or> \<not> valid_uuid he i) bad_request (
       refuse_when (org \<noteq> ac_org ac) (writeError StatusNotFound notFound) (k org (ac_user ac) i))))"

definition HandleRestoreFolder :: "handler_env \<Rightarrow> handler" where
  "HandleRestoreFolder he a rq =
     restore_request he ''FOLDER_NOT_FOUND'' a rq (\<lambda>org user fid d.
       replied domain_error folder_reply (RestoreFolder org user fid d))"

definition decode_move :: "codec \<Rightarrow> string \<Rightarrow> string option option" where
  "decode_move cd body =
     (case decodeJSONBody cd [''destination_parent_id''] body of
        None \<Rightarrow> None | Some fs \<Rightarrow> pointer_field ''destination_parent_id'' fs None)"

definition HandleMoveFolder :: "handler_env \<Rightarrow> handler" where
  "HandleMoveFolder he a rq =
     with_actor a (\<lambda>ac.
     refuse_when (rq_method rq \<noteq> ''PATCH'') wrong_method (
     row_of_request he ''Invalid folder id format'' ac rq (\<lambda>org fid d.
       case decode_move (he_codec he) (rq_body rq) of
         None \<Rightarrow> (legacy_bad ''Invalid body'', d)
       | Some dest \<Rightarrow>
           if (case dest of None \<Rightarrow> False | Some i \<Rightarrow> i = [] \<or> \<not> valid_uuid he i)
           then (legacy_bad ''Invalid destination parent id format'', d)
           else replied domain_error (\<lambda>(f, _). folder_reply f) (MoveFolder org (ac_user ac) fid dest d))))"

section \<open>Items\<close>

definition item_reply :: "item \<Rightarrow> asset_response" where
  "item_reply x = writeJSON StatusOK (ItemReply x)"

definition handleGetMetadataItems :: "handler_env \<Rightarrow> actor \<Rightarrow> request \<Rightarrow> catalog \<Rightarrow> asset_response \<times> catalog" where
  "handleGetMetadataItems he ac rq =
     own_org ac rq (\<lambda>org d.
       let i = query_get rq ''id''; fid = query_get rq ''folderId'' in
       if i \<noteq> [] \<and> fid \<noteq> [] then (legacy_bad ''Provide either id or folderId, not both'', d)
       else if i \<noteq> [] then
         (if \<not> valid_uuid he i then (legacy_bad ''Invalid id format'', d)
          else replied metadata_error item_reply (GetMetadataItemByID org i d, d))
       else if fid \<noteq> [] then
         (if \<not> valid_uuid he fid then (legacy_bad ''Invalid folderId format'', d)
          else replied metadata_error (\<lambda>xs. writeJSON StatusOK (ItemsReply xs None)) (GetMetadataItemsByFolder org fid d, d))
       else (legacy_bad ''Missing id or folderId'', d))"

definition item_fields :: "string list" where
  "item_fields = [''title'', ''description'', ''labels'', ''category'', ''external_source'', ''external_id'', ''source_url'',
     ''thumbnail_url'', ''license'', ''author'', ''metadata_json'', ''notes'']"

definition decode_create_item :: "codec \<Rightarrow> string \<Rightarrow> create_item_input option" where
  "decode_create_item cd body =
     (case decodeJSONBody cd (''folder_id'' # item_fields) body of
        None \<Rightarrow> None
      | Some fs \<Rightarrow>
          (let p = (\<lambda>name. pointer_field name fs None) in
           case (string_field ''folder_id'' fs [], string_field ''title'' fs [], texts_field ''labels'' fs []) of
             (Some fid, Some title, Some labels) \<Rightarrow>
               (case (p ''description'', p ''category'', p ''external_source'', p ''external_id'', p ''source_url'',
                      p ''thumbnail_url'', p ''license'', p ''author'', p ''notes'') of
                  (Some ds, Some ca, Some es, Some ei, Some su, Some tu, Some li, Some au, Some no) \<Rightarrow>
                    Some \<lparr>ci_folder = fid, ci_title = title, ci_description = ds, ci_labels = labels, ci_category = ca,
                          ci_external_source = es, ci_external_id = ei, ci_source_url = su, ci_thumbnail_url = tu,
                          ci_license = li, ci_author = au, ci_json = raw_field cd ''metadata_json'' fs [], ci_notes = no\<rparr>
                | _ \<Rightarrow> None)
           | _ \<Rightarrow> None))"

definition handleCreateMetadataItem :: "handler_env \<Rightarrow> actor \<Rightarrow> request \<Rightarrow> catalog \<Rightarrow> asset_response \<times> catalog" where
  "handleCreateMetadataItem he ac rq =
     own_org ac rq (\<lambda>org d.
       case decode_create_item (he_codec he) (rq_body rq) of
         None \<Rightarrow> (legacy_bad ''Invalid body'', d)
       | Some inp \<Rightarrow>
           if \<not> valid_uuid he (ci_folder inp) then (legacy_bad ''Invalid folder_id format'', d)
           else replied metadata_error (\<lambda>x. writeJSON StatusCreated (ItemReply x))
                  (usecase_CreateMetadataItem (he_codec he) (he_ids he 0) (he_now he) org (ac_user ac) inp d))"

text \<open>Labels that are set to \<open>null\<close> become the empty list before the use case sees them.\<close>

definition decode_update_item :: "codec \<Rightarrow> string \<Rightarrow> update_item_input option" where
  "decode_update_item cd body =
     (case decodeJSONBody cd item_fields body of
        None \<Rightarrow> None
      | Some fs \<Rightarrow>
          (let opt = (\<lambda>name. optional_field optionalString name fs None) in
           case (optional_field optionalStringArray ''labels'' fs None,
                 optional_field (optionalRawMessage cd) ''metadata_json'' fs None) of
             (Some labels, Some json) \<Rightarrow>
               (case (opt ''title'', opt ''description'', opt ''category'', opt ''external_source'', opt ''external_id'',
                      opt ''source_url'', opt ''thumbnail_url'', opt ''license'', opt ''author'', opt ''notes'') of
                  (Some ti, Some ds, Some ca, Some es, Some ei, Some su, Some tu, Some li, Some au, Some no) \<Rightarrow>
                    Some \<lparr>ui_title = ti, ui_description = ds,
                          ui_labels = map_option (\<lambda>v. Some (case v of None \<Rightarrow> [] | Some ls \<Rightarrow> ls)) labels,
                          ui_category = ca, ui_external_source = es, ui_external_id = ei, ui_source_url = su,
                          ui_thumbnail_url = tu, ui_license = li, ui_author = au, ui_json = json, ui_notes = no\<rparr>
                | _ \<Rightarrow> None)
           | _ \<Rightarrow> None))"

definition handleUpdateMetadataItem :: "handler_env \<Rightarrow> actor \<Rightarrow> request \<Rightarrow> catalog \<Rightarrow> asset_response \<times> catalog" where
  "handleUpdateMetadataItem he ac rq =
     row_of_request he ''Invalid metadata id format'' ac rq (\<lambda>org iid d.
       case decode_update_item (he_codec he) (rq_body rq) of
         None \<Rightarrow> (legacy_bad ''Invalid body'', d)
       | Some inp \<Rightarrow>
           replied metadata_error item_reply
             (usecase_UpdateMetadataItem (he_codec he) (he_now he) (he_tnow he) org (ac_user ac) iid inp d))"

definition handleDeleteMetadataItem :: "handler_env \<Rightarrow> actor \<Rightarrow> request \<Rightarrow> catalog \<Rightarrow> asset_response \<times> catalog" where
  "handleDeleteMetadataItem he ac rq =
     row_of_request he ''Invalid metadata id format'' ac rq (\<lambda>org iid d.
       replied metadata_error (\<lambda>_. no_content)
         (DeleteMetadataItem (he_ids he 0) (he_now he) (he_tnow he) org (ac_user ac) iid d))"

definition HandleMetadataItems :: "handler_env \<Rightarrow> handler" where
  "HandleMetadataItems he a rq =
     with_actor a (\<lambda>ac d.
       if rq_method rq = ''GET'' then handleGetMetadataItems he ac rq d
       else if rq_method rq = ''POST'' then handleCreateMetadataItem he ac rq d
       else if rq_method rq = ''PATCH'' then handleUpdateMetadataItem he ac rq d
       else if rq_method rq = ''DELETE'' then handleDeleteMetadataItem he ac rq d
       else (wrong_method, d))"

definition HandleRestoreMetadataItem :: "handler_env \<Rightarrow> handler" where
  "HandleRestoreMetadataItem he a rq =
     restore_request he ''METADATA_NOT_FOUND'' a rq (\<lambda>org user iid d.
       replied metadata_error item_reply (RestoreMetadataItem (he_tnow he) org user iid d))"

section \<open>Search\<close>

text \<open>\<open>q.Has(k)\<close> followed by \<open>q.Get(k)\<close>: a filter that is present, possibly empty.\<close>

definition query_opt :: "request \<Rightarrow> string \<Rightarrow> string option" where
  "query_opt rq k = (if query_has rq k then Some (query_get rq k) else None)"

definition query_int :: "request \<Rightarrow> string \<Rightarrow> int \<Rightarrow> int option" where
  "query_int rq k fallback = (if query_get rq k = [] then Some fallback else parse_int64 (query_get rq k))"

definition search_reply :: "bool \<Rightarrow> int \<Rightarrow> item list \<Rightarrow> asset_response" where
  "search_reply keyset limit rows =
     (if keyset then (let (page, more) = page_of limit rows in writeJSON StatusOK (ItemsReply page (Some more)))
      else writeJSON StatusOK (ItemsReply rows None))"

definition run_search :: "handler_env \<Rightarrow> string \<Rightarrow> search_filter \<Rightarrow> int \<Rightarrow> catalog \<Rightarrow> asset_response \<times> catalog" where
  "run_search he org flt limit d =
     replied metadata_error (search_reply (sf_keyset flt) limit) (usecase_SearchMetadataItems (he_casing he) org flt d, d)"

definition search_filter_of :: "request \<Rightarrow> int \<Rightarrow> int \<Rightarrow> search_filter" where
  "search_filter_of rq limit offset =
     \<lparr>sf_folder = query_opt rq ''folderId'', sf_query = query_opt rq ''query'', sf_labels = query_all rq ''label'',
      sf_category = query_opt rq ''category'', sf_external_source = query_opt rq ''externalSource'',
      sf_limit = limit, sf_offset = offset, sf_keyset = (query_get rq ''cursor'' = internalCursorMode),
      sf_after_updated = None, sf_after_id = None\<rparr>"

definition HandleSearchMetadataItems :: "handler_env \<Rightarrow> handler" where
  "HandleSearchMetadataItems he a rq =
     with_actor a (\<lambda>ac.
     refuse_when (rq_method rq \<noteq> ''GET'') wrong_method (
     own_org ac rq (\<lambda>org.
     let fid = query_get rq ''folderId'' in
     refuse_when (fid \<noteq> [] \<and> \<not> valid_uuid he fid) (legacy_bad ''Invalid folderId format'') (\<lambda>d.
       case query_int rq ''limit'' 50 of
         None \<Rightarrow> (legacy_bad ''Invalid limit format'', d)
       | Some limit \<Rightarrow>
           (case query_int rq ''offset'' 0 of
              None \<Rightarrow> (legacy_bad ''Invalid offset format'', d)
            | Some offset \<Rightarrow>
                let flt = search_filter_of rq limit offset in
                if \<not> sf_keyset flt then run_search he org flt limit d
                else if fid = [] \<or> offset \<noteq> 0 \<or> limit < 1 \<or> maxCursorCandidateBatchSize < limit then (cursor_invalid, d)
                else (case cursor_of he ''afterUpdatedAt'' rq of
                        None \<Rightarrow> (cursor_invalid, d)
                      | Some after \<Rightarrow>
                          run_search he org (flt\<lparr>sf_after_updated := map_option fst after,
                            sf_after_id := map_option snd after,
                            sf_limit := limit + cursorDatabaseLookaheadRowCount\<rparr>) limit d))))))"

section \<open>Facts and lifecycle units\<close>

definition HandleFolderFacts :: "handler_env \<Rightarrow> handler" where
  "HandleFolderFacts he a rq =
     with_actor a (\<lambda>ac.
     refuse_when (rq_method rq \<noteq> ''GET'') wrong_method (
     own_org ac rq (\<lambda>org.
     let fid = query_get rq ''id'' in
     refuse_when (fid = []) (legacy_bad ''Missing id'') (
     refuse_when (\<not> valid_uuid he fid) (legacy_bad ''Invalid folder id format'') (\<lambda>d.
       replied (no_record [ErrNoRecord, ErrFolderNotFound]) (\<lambda>f. writeJSON StatusOK (FolderFact (fd_id f) (fd_org f)))
         (GetFolderByID (ac_org ac) fid d, d))))))"

text \<open>The remaining endpoints: a method, the actor, the organization with one identifier, one call.\<close>

definition unit_request ::
  "handler_env \<Rightarrow> string \<Rightarrow> string \<Rightarrow> actor option \<Rightarrow> request \<Rightarrow> (string \<Rightarrow> string \<Rightarrow> string \<Rightarrow> catalog \<Rightarrow> asset_response \<times> catalog)
   \<Rightarrow> catalog \<Rightarrow> asset_response \<times> catalog" where
  "unit_request he meth idKey a rq k =
     refuse_when (rq_method rq \<noteq> meth) wrong_method (
     with_actor a (\<lambda>ac. requireDeletionOrgAndID he rq ac idKey (\<lambda>org i. k org (ac_user ac) i)))"

definition HandleFolderRestoreAuthorizationFact :: "handler_env \<Rightarrow> handler" where
  "HandleFolderRestoreAuthorizationFact he a rq =
     unit_request he ''GET'' ''id'' a rq (\<lambda>org user i d.
       replied domain_error (\<lambda>f. writeJSON StatusOK (FolderRestoreFact f)) (GetFolderRestoreAuthorizationFact org i d, d))"

definition HandleMetadataRestoreAuthorizationFact :: "handler_env \<Rightarrow> handler" where
  "HandleMetadataRestoreAuthorizationFact he a rq =
     unit_request he ''GET'' ''id'' a rq (\<lambda>org user i d.
       replied metadata_error (\<lambda>f. writeJSON StatusOK (MetadataRestoreFact f)) (GetMetadataRestoreAuthorizationFact org i d, d))"

definition HandleLifecycleRestoreAuthorizationFact :: "handler_env \<Rightarrow> handler" where
  "HandleLifecycleRestoreAuthorizationFact he a rq =
     unit_request he ''GET'' ''unitId'' a rq (\<lambda>org user i d.
       replied domain_error (\<lambda>f. writeJSON StatusOK (UnitRestoreFact f)) (GetLifecycleRestoreAuthorizationFact org i d, d))"

definition HandleQueueLifecycleRestore :: "handler_env \<Rightarrow> handler" where
  "HandleQueueLifecycleRestore he a rq =
     unit_request he ''POST'' ''unitId'' a rq (\<lambda>org user i d.
       replied domain_error (\<lambda>j. writeJSON StatusAccepted (LifecycleJobReply j))
         (QueueLifecycleRestore (he_ids he 0) (he_now he) (he_tnow he) org user i d))"

definition HandleLifecycleJob :: "handler_env \<Rightarrow> handler" where
  "HandleLifecycleJob he a rq =
     unit_request he ''GET'' ''id'' a rq (\<lambda>org user i d.
       replied domain_error (\<lambda>j. writeJSON StatusOK (LifecycleJobReply j)) (GetLifecycleJob org i d, d))"

section \<open>Routes\<close>

definition asset_routes :: "handler_env \<Rightarrow> (string \<times> handler) list" where
  "asset_routes he =
     [(''/internal/api/v1/folders'', HandleFolders he),
      (''/internal/api/v1/folders/move'', HandleMoveFolder he),
      (''/internal/api/v1/folders/restore'', HandleRestoreFolder he),
      (''/internal/api/v1/facts/folders'', HandleFolderFacts he),
      (''/internal/api/v1/restore-facts/folders'', HandleFolderRestoreAuthorizationFact he),
      (''/internal/api/v1/lifecycle-units/restore-facts'', HandleLifecycleRestoreAuthorizationFact he),
      (''/internal/api/v1/lifecycle-units/restore'', HandleQueueLifecycleRestore he),
      (''/internal/api/v1/lifecycle-jobs'', HandleLifecycleJob he),
      (''/internal/api/v1/folder-deletions/preview'', HandleFolderDeletionPreview he),
      (''/internal/api/v1/folder-deletions/confirm'', HandleFolderDeletionConfirm he),
      (''/internal/api/v1/folder-deletions/jobs'', HandleFolderDeletionJob he),
      (''/internal/api/v1/folder-deletions/jobs/cancel'', mutateFolderDeletionJob he False),
      (''/internal/api/v1/folder-deletions/jobs/retry'', mutateFolderDeletionJob he True),
      (''/internal/api/v1/recycle-bin'', HandleRecycleBin he),
      (''/internal/api/v1/metadata-items'', HandleMetadataItems he),
      (''/internal/api/v1/metadata-items/restore'', HandleRestoreMetadataItem he),
      (''/internal/api/v1/restore-facts/metadata-items'', HandleMetadataRestoreAuthorizationFact he),
      (''/internal/api/v1/metadata-items/search'', HandleSearchMetadataItems he)]"

text \<open>The mux over these routes; a path of another handler set is its argument.\<close>

definition NewAssetHandler ::
  "handler_env \<Rightarrow> (request \<Rightarrow> catalog \<Rightarrow> asset_response \<times> catalog) \<Rightarrow> request \<Rightarrow> catalog \<Rightarrow> asset_response \<times> catalog" where
  "NewAssetHandler he others rq d =
     (if rq_path rq = ''/healthz'' then (HandleHealth he rq, d)
      else (case map_of (asset_routes he) (rq_path rq) of
              None \<Rightarrow> others rq d
            | Some h \<Rightarrow> RequireActor (valid_uuid he) h rq d))"

definition asset_service ::
  "handler_env \<Rightarrow> string \<Rightarrow> (request \<Rightarrow> catalog \<Rightarrow> asset_response \<times> catalog) \<Rightarrow> request \<Rightarrow> catalog \<Rightarrow> asset_response \<times> catalog" where
  "asset_service he token others = RequireInternalAPI token (NewAssetHandler he others)"

end
