(* ===== verification/Tenant_Isolation.thy ===== *)
theory Tenant_Isolation
  imports Asset_Handler Folder_Tree
begin

text \<open>
  No request of one organization touches the rows of another: every writing operation behind the asset endpoints
  keeps the folders, items, lifecycle units and jobs of all other organizations, and so does the whole service.
\<close>

text \<open>In this theory a statement stays a statement: it is taken apart by the lemmas below.\<close>

declare on_table_Inr [simp del] save_Inr [simp del] ensureNoActiveDeletionForPaths.simps [simp del]

section \<open>The rows of other organizations\<close>

definition foreign_folders :: "string \<Rightarrow> catalog \<Rightarrow> folder list" where
  "foreign_folders org d = filter (\<lambda>f. fd_org f \<noteq> org) (c_folders d)"

definition in_foreign :: "string \<Rightarrow> catalog \<Rightarrow> item \<Rightarrow> bool" where
  "in_foreign org d x \<longleftrightarrow> sql_exists (\<lambda>f. fd_id f = it_folder x) (foreign_folders org d)"

definition foreign_rows ::
  "string \<Rightarrow> catalog \<Rightarrow> folder list \<times> item list \<times> unit_row list \<times> lifecycle_job list \<times> deletion_job list" where
  "foreign_rows org d =
     (foreign_folders org d, filter (in_foreign org d) (c_items d), filter (\<lambda>u. lu_org u \<noteq> org) (c_units d),
      filter (\<lambda>j. lj_org j \<noteq> org) (c_jobs d), filter (\<lambda>j. dj_org j \<noteq> org) (c_djobs d))"

definition keeps :: "string \<Rightarrow> catalog \<Rightarrow> catalog \<Rightarrow> bool" where
  "keeps org d d' \<longleftrightarrow> foreign_rows org d' = foreign_rows org d"

lemma keeps_refl [simp]: "keeps org d d"
  by (simp add: keeps_def)

lemma keeps_trans [trans]: "keeps org d d1 \<Longrightarrow> keeps org d1 d2 \<Longrightarrow> keeps org d d2"
  by (simp add: keeps_def)

lemma keeps_refs [simp]:
  "keeps org d (EnsureRefs user g d) = True" "keeps org d (ensure_user user d) = True"
  by (simp_all add: keeps_def foreign_rows_def foreign_folders_def in_foreign_def [abs_def])

lemma keeps_after_refs:
  "keeps org (EnsureRefs user g d) d' \<Longrightarrow> keeps org d d'" "keeps org (ensure_user user d) d' \<Longrightarrow> keeps org d d'"
  by (meson keeps_trans keeps_refs)+

lemma filter_sql_update_other:
  "(\<And>r. r \<in> set rs \<Longrightarrow> c r \<Longrightarrow> \<not> P r \<and> \<not> P (g r)) \<Longrightarrow> filter P (sql_update c g rs) = filter P rs"
  by (induction rs) auto

lemma filter_sql_delete_other:
  "(\<And>r. r \<in> set rs \<Longrightarrow> c r \<Longrightarrow> \<not> P r) \<Longrightarrow> filter P (sql_delete c rs) = filter P rs"
  by (induction rs) (auto simp: sql_delete_def)

section \<open>Statements\<close>

lemma keeps_folders:
  assumes "on_folders g d = Inr d'" and "filter (\<lambda>f. fd_org f \<noteq> org) (g (c_folders d)) = filter (\<lambda>f. fd_org f \<noteq> org) (c_folders d)"
  shows "keeps org d d'"
  using assms by (simp add: on_table_Inr keeps_def foreign_rows_def foreign_folders_def in_foreign_def [abs_def])

lemma keeps_items:
  assumes "on_items g d = Inr d'" and "filter (in_foreign org d) (g (c_items d)) = filter (in_foreign org d) (c_items d)"
  shows "keeps org d d'"
  using assms by (simp add: on_table_Inr keeps_def foreign_rows_def foreign_folders_def in_foreign_def [abs_def])

lemma keeps_units:
  assumes "on_units g d = Inr d'" and "filter (\<lambda>u. lu_org u \<noteq> org) (g (c_units d)) = filter (\<lambda>u. lu_org u \<noteq> org) (c_units d)"
  shows "keeps org d d'"
  using assms by (simp add: on_table_Inr keeps_def foreign_rows_def foreign_folders_def in_foreign_def [abs_def])

lemma keeps_jobs:
  assumes "on_jobs g d = Inr d'" and "filter (\<lambda>j. lj_org j \<noteq> org) (g (c_jobs d)) = filter (\<lambda>j. lj_org j \<noteq> org) (c_jobs d)"
  shows "keeps org d d'"
  using assms by (simp add: on_table_Inr keeps_def foreign_rows_def foreign_folders_def in_foreign_def [abs_def])

lemma keeps_djobs:
  assumes "on_djobs g d = Inr d'" and "filter (\<lambda>j. dj_org j \<noteq> org) (g (c_djobs d)) = filter (\<lambda>j. dj_org j \<noteq> org) (c_djobs d)"
  shows "keeps org d d'"
  using assms by (simp add: on_table_Inr keeps_def foreign_rows_def foreign_folders_def in_foreign_def [abs_def])

lemma keeps_transaction:
  "(\<And>a d'. work d = Inr (a, d') \<Longrightarrow> keeps org d d') \<Longrightarrow> keeps org d (snd (transaction work d))"
  by (auto simp: transaction_def split: sum.splits)

lemma on_conflict_Inr [simp]: "on_conflict e r = Inr x \<longleftrightarrow> r = Inr x"
  by (simp add: on_conflict_def)

text \<open>An item of a visible folder of the organization is not an item of another one.\<close>

lemma own_item:
  assumes ok: "catalog_ok d" and f: "f \<in> set (c_folders d)" "fd_id f = it_folder x" "fd_org f = org"
  shows "\<not> in_foreign org d x"
proof
  assume "in_foreign org d x"
  then obtain g where "g \<in> set (c_folders d)" "fd_id g = fd_id f" "fd_org g \<noteq> org"
    using f by (auto simp: in_foreign_def foreign_folders_def sql_exists_iff)
  then show False using same_row(1) [OF ok _ f(1)] f(3) by blast
qed

lemma item_in_org_own:
  assumes "catalog_ok d" and "item_in_org d org x"
  shows "\<not> in_foreign org d x"
proof -
  obtain f where "folder_of d x = Some f" "fd_org f = org" using assms(2) by (auto simp: item_in_org_def split: option.splits)
  then show ?thesis using own_item [OF assms(1)] folder_of_SomeD by blast
qed

lemma in_foreign_cong: "it_folder y = it_folder x \<Longrightarrow> in_foreign org d y = in_foreign org d x"
  by (simp add: in_foreign_def)

lemma find_visible_itemD:
  "find_visible_item org i d = Some x \<Longrightarrow> x \<in> set (c_items d) \<and> it_id x = i \<and> item_in_org d org x"
  by (auto simp: find_visible_item_def dest!: find_SomeD)

text \<open>The tables after \<open>EnsureRefs\<close> have the same rows.\<close>

lemma same_tables_refs [simp]:
  "in_foreign org (EnsureRefs user g d) = in_foreign org d" "in_foreign org (ensure_user user d) = in_foreign org d"
  "item_in_org (EnsureRefs user g d) = item_in_org d" "item_in_org (ensure_user user d) = item_in_org d"
  by (simp_all add: in_foreign_def [abs_def] foreign_folders_def item_in_org_def [abs_def] folder_of_def [abs_def])

section \<open>Folders\<close>

lemma CreateFolder_keeps: "keeps org d (snd (CreateFolder fid org user inp d))"
  unfolding CreateFolder_def
proof (rule keeps_transaction, goal_cases)
  case (1 a d')
  then obtain r :: folder where "on_folders (\<lambda>fs. fs @ [r]) (EnsureRefs user org d) = Inr d'" "fd_org r = org"
    by (auto simp: Let_def new_folder_row_def split: if_splits)
  then have "keeps org (EnsureRefs user org d) d'" by (auto elim!: keeps_folders)
  then show ?case by (rule keeps_after_refs)
qed

lemma UpdateFolder_keeps:
  assumes ok: "catalog_ok d"
  shows "keeps org d (snd (UpdateFolder org user fid inp d))"
  unfolding UpdateFolder_def
proof (rule keeps_transaction, goal_cases)
  case (1 a d')
  then obtain f :: folder and name where f: "find_visible_folder org fid (EnsureRefs user org d) = Some f"
    and s: "save_folder (renamed_folder user name inp f) (EnsureRefs user org d) = Inr d'"
    by (auto simp: Let_def split: if_splits)
  have mem: "f \<in> set (c_folders d)" "fd_org f = org" using find_visible_folderD [OF f] by simp_all
  have "keeps org (EnsureRefs user org d) d'"
    by (rule keeps_folders [OF s [unfolded save_folder_def]])
       (use mem same_row(1) [OF ok] in \<open>auto intro!: filter_sql_update_other simp: renamed_folder_def\<close>)
  then show ?case by (rule keeps_after_refs)
qed

lemma MoveFolder_keeps: "keeps org d (snd (MoveFolder org user fid dest d))"
  unfolding MoveFolder_def
proof (rule keeps_transaction, goal_cases)
  case (1 a d')
  then consider "d' = EnsureRefs user org d"
    | old new where "on_folders (move_rows org user old new) (EnsureRefs user org d) = Inr d'"
    by (auto simp: Let_def split: if_splits)
  then show ?case
  proof cases
    case 2
    then have "keeps org (EnsureRefs user org d) d'"
      by (auto elim!: keeps_folders intro!: filter_sql_update_other simp: move_rows_def)
    then show ?thesis by (rule keeps_after_refs)
  qed simp
qed

lemma createDeletedLifecycleUnit_keeps:
  "createDeletedLifecycleUnit uid org user ty res p parent fo now tnow d = Inr d' \<Longrightarrow> keeps org d d'"
  unfolding createDeletedLifecycleUnit_def by (auto elim!: keeps_units)

lemma DeleteFolder_keeps: "keeps org d (snd (DeleteFolder uid now tnow org user fid d))"
  unfolding DeleteFolder_def
proof (rule keeps_transaction, goal_cases)
  case (1 a d')
  then obtain f :: folder and d1 where
    u: "createDeletedLifecycleUnit uid org user LifecycleResourceFolder (fd_id f) (fd_path f)
          (lifecycleParentPath (fd_path f)) None now tnow d = Inr d1"
    and s: "on_folders (sql_update (\<lambda>g. fd_id g = fd_id f \<and> fd_org g = org \<and> folder_active g \<and> fd_unit g = None)
          (\<lambda>g. g\<lparr>fd_deleted_at := Some now, fd_updated_by := Some user, fd_unit := Some uid\<rparr>)) d1 = Inr d'"
    by (auto simp: Let_def split: if_splits)
  note createDeletedLifecycleUnit_keeps [OF u]
  also have "keeps org d1 d'" by (rule keeps_folders [OF s]) (auto intro!: filter_sql_update_other)
  finally show ?case .
qed

lemma completeLifecycleRestore_keeps: "completeLifecycleRestore org ty res d = Inr d' \<Longrightarrow> keeps org d d'"
  unfolding completeLifecycleRestore_def by (erule keeps_units) (auto intro!: filter_sql_update_other)

lemma RestoreFolder_keeps: "keeps org d (snd (RestoreFolder org user fid d))"
  unfolding RestoreFolder_def
proof (rule keeps_transaction, goal_cases)
  case (1 a d')
  then obtain f :: folder and name d1 where
    s: "on_folders (sql_update (\<lambda>g. fd_id g = fd_id f \<and> fd_org g = org \<and> \<not> folder_active g)
                     (restored_folder name (Some user))) (ensure_user user d) = Inr d1"
    and c: "completeLifecycleRestore org LifecycleResourceFolder (fd_id f) d1 = Inr d'"
    by (auto simp: Let_def split: if_splits)
  have "keeps org (ensure_user user d) d1"
    by (rule keeps_folders [OF s]) (auto intro!: filter_sql_update_other simp: restored_folder_def)
  also note completeLifecycleRestore_keeps [OF c]
  finally show ?case by (rule keeps_after_refs)
qed

section \<open>Items\<close>

lemma own_rows_updated:
  assumes ok: "catalog_ok d" and x: "x \<in> set (c_items d)" "item_in_org d org x"
    and c: "\<And>y. c y \<Longrightarrow> it_id y = it_id x" and g: "\<And>y. c y \<Longrightarrow> it_folder (g y) = it_folder x"
  shows "filter (in_foreign org d) (sql_update c g (c_items d)) = filter (in_foreign org d) (c_items d)"
proof (rule filter_sql_update_other)
  fix y assume y: "y \<in> set (c_items d)" "c y"
  then have "y = x" using same_row(2) [OF ok y(1) x(1)] c by blast
  then show "\<not> in_foreign org d y \<and> \<not> in_foreign org d (g y)"
    using item_in_org_own [OF ok x(2)] g [OF y(2)] in_foreign_cong by metis
qed

lemma CreateMetadataItem_keeps:
  assumes ok: "catalog_ok d"
  shows "keeps org d (snd (CreateMetadataItem iid now org user inp d))"
  unfolding CreateMetadataItem_def
proof (rule keeps_transaction, goal_cases)
  case (1 a d')
  then obtain p :: folder where p: "find_visible_folder org (ci_folder inp) (EnsureRefs user org d) = Some p"
    and s: "on_items (\<lambda>xs. xs @ [new_item_row iid now user inp]) (EnsureRefs user org d) = Inr d'"
    by (auto simp: Let_def split: if_splits)
  have "\<not> in_foreign org d (new_item_row iid now user inp)"
    using find_visible_folderD [OF p] by (intro own_item [OF ok, of p]) (simp_all add: new_item_row_def)
  then have "keeps org (EnsureRefs user org d) d'" by (intro keeps_items [OF s]) simp
  then show ?case by (rule keeps_after_refs)
qed

lemma UpdateMetadataItem_keeps:
  assumes ok: "catalog_ok d"
  shows "keeps org d (snd (UpdateMetadataItem now tnow org user iid inp d))"
  unfolding UpdateMetadataItem_def
proof (rule keeps_transaction, goal_cases)
  case (1 a d')
  then obtain x :: item where x: "find_visible_item org iid (EnsureRefs user org d) = Some x"
    and s: "save_item tnow (updated_item inp x\<lparr>it_updated_by := Some user, it_updated_at := now\<rparr>) (EnsureRefs user org d) = Inr d'"
    by (auto simp: Let_def split: if_splits)
  have "keeps org (EnsureRefs user org d) d'"
    by (rule keeps_items [OF s [unfolded save_item_def]])
       (use find_visible_itemD [OF x] in \<open>auto intro!: own_rows_updated [OF ok, of x] simp: updated_item_def\<close>)
  then show ?case by (rule keeps_after_refs)
qed

lemma DeleteMetadataItem_keeps:
  assumes ok: "catalog_ok d"
  shows "keeps org d (snd (DeleteMetadataItem uid now tnow org user iid d))"
  unfolding DeleteMetadataItem_def
proof (rule keeps_transaction, goal_cases)
  case (1 a d')
  then obtain x :: item and p :: folder and d1 where x: "find_visible_item org iid d = Some x"
    and u: "createDeletedLifecycleUnit uid org user LifecycleResourceMetadata (it_id x) (fd_path p) None
              (Some (fd_id p)) now tnow d = Inr d1"
    and s: "on_items (sql_update (\<lambda>y. it_id y = it_id x \<and> item_active y \<and> it_unit y = None)
              (\<lambda>y. y\<lparr>it_deleted_at := Some now, it_updated_by := Some user, it_unit := Some uid\<rparr>)) d1 = Inr d'"
    by (auto simp: Let_def split: if_splits)
  have d1: "d1 = d\<lparr>c_units := c_units d1\<rparr>" "catalog_ok d1" using u by (auto simp: createDeletedLifecycleUnit_def on_table_Inr)
  have rows: "c_items d1 = c_items d" "c_folders d1 = c_folders d" by (subst d1(1), simp)+
  then have own: "x \<in> set (c_items d1)" "item_in_org d1 org x"
    using find_visible_itemD [OF x] by (simp_all add: item_in_org_def folder_of_def)
  note createDeletedLifecycleUnit_keeps [OF u]
  also have "keeps org d1 d'"
  proof (rule keeps_items [OF s], rule filter_sql_update_other)
    fix y assume y: "y \<in> set (c_items d1)" "it_id y = it_id x \<and> item_active y \<and> it_unit y = None"
    then have "y = x" using same_row(2) [OF d1(2) y(1) own(1)] by blast
    then show "\<not> in_foreign org d1 y
        \<and> \<not> in_foreign org d1 (y\<lparr>it_deleted_at := Some now, it_updated_by := Some user, it_unit := Some uid\<rparr>)"
      using item_in_org_own [OF d1(2) own(2)] by (simp add: in_foreign_def)
  qed
  finally show ?case .
qed

lemma RestoreMetadataItem_keeps:
  assumes ok: "catalog_ok d"
  shows "keeps org d (snd (RestoreMetadataItem tnow org user iid d))"
  unfolding RestoreMetadataItem_def
proof (rule keeps_transaction, goal_cases)
  case (1 a d')
  then obtain x :: item and title d1 where x: "find (\<lambda>x. it_id x = iid \<and> item_in_org d org x) (c_items d) = Some x"
    and s: "on_items (sql_update (\<lambda>y. it_id y = it_id x \<and> \<not> item_active y) (restored_item title (Some user) tnow))
              (ensure_user user d) = Inr d1"
    and c: "completeLifecycleRestore org LifecycleResourceMetadata (it_id x) d1 = Inr d'"
    by (auto simp: Let_def split: if_splits)
  have own: "x \<in> set (c_items d)" "item_in_org d org x" using find_SomeD [OF x] by simp_all
  have "keeps org (ensure_user user d) d1"
  proof (rule keeps_items [OF s], simp, rule filter_sql_update_other)
    fix y assume y: "y \<in> set (c_items d)" "it_id y = it_id x \<and> \<not> item_active y"
    then have "y = x" using same_row(2) [OF ok y(1) own(1)] by blast
    then show "\<not> in_foreign org d y \<and> \<not> in_foreign org d (restored_item title (Some user) tnow y)"
      using item_in_org_own [OF ok own(2)] by (simp add: in_foreign_def restored_item_def)
  qed
  also note completeLifecycleRestore_keeps [OF c]
  finally show ?case by (rule keeps_after_refs)
qed

section \<open>Jobs\<close>

text \<open>The lifecycle job that mirrors a recursive deletion belongs to its organization; a confirmation writes it so.\<close>

definition same_tenant :: "catalog \<Rightarrow> bool" where
  "same_tenant d \<longleftrightarrow> (\<forall>j\<in>set (c_jobs d). \<forall>k\<in>set (c_djobs d). lj_legacy j = Some (dj_id k) \<longrightarrow> lj_org j = dj_org k)"

lemma save_djob_keeps:
  assumes "save_djob k d = Inr d'" and "dj_org k = org"
    and "\<And>r. r \<in> set (c_djobs d) \<Longrightarrow> dj_id r = dj_id k \<Longrightarrow> dj_org r = org"
  shows "keeps org d d'"
  using assms(1) unfolding save_djob_def
  by (rule keeps_djobs) (use assms(2,3) in \<open>auto intro!: filter_sql_update_other\<close>)

lemma save_job_keeps:
  assumes "save_job j d = Inr d'" and "lj_org j = org"
    and "\<And>r. r \<in> set (c_jobs d) \<Longrightarrow> lj_id r = lj_id j \<Longrightarrow> lj_org r = org"
  shows "keeps org d d'"
  using assms(1) unfolding save_job_def
  by (rule keeps_jobs) (use assms(2,3) in \<open>auto intro!: filter_sql_update_other\<close>)

lemma one_unit_keeps:
  assumes ok: "catalog_ok d" and u: "u \<in> set (c_units d)" "lu_org u = org"
    and s: "on_units (sql_update (\<lambda>r. lu_id r = lu_id u) (\<lambda>r. r\<lparr>lu_state := st\<rparr>)) d1 = Inr d'" and "c_units d1 = c_units d"
  shows "keeps org d1 d'"
proof (rule keeps_units [OF s], rule filter_sql_update_other)
  fix r assume "r \<in> set (c_units d1)" "lu_id r = lu_id u"
  then have "r = u" using same_row(3) [OF ok _ u(1)] assms(5) by simp
  then show "\<not> lu_org r \<noteq> org \<and> \<not> lu_org (r\<lparr>lu_state := st\<rparr>) \<noteq> org" using u(2) by simp
qed

lemma QueueLifecycleRestore_keeps:
  assumes ok: "catalog_ok d"
  shows "keeps org d (snd (QueueLifecycleRestore jid now tnow org user uid d))"
  unfolding QueueLifecycleRestore_def
proof (rule keeps_transaction, goal_cases)
  case (1 a d')
  then obtain u :: unit_row where u: "find (\<lambda>u. lu_id u = uid \<and> lu_org u = org) (c_units d) = Some u"
    and rest: "d' = ensure_user user d \<or> (\<exists>fo d1. on_jobs (\<lambda>js. js @ [restore_job jid org user now tnow fo u]) (ensure_user user d) = Inr d1
        \<and> set_unit_state (\<lambda>r. lu_id r = lu_id u) LifecycleRestoreQueued d1 = Inr d')"
    by (auto simp: Let_def split: if_splits)
  have mem: "u \<in> set (c_units d)" "lu_org u = org" using find_SomeD [OF u] by simp_all
  from rest show ?case
  proof (elim disjE exE conjE)
    fix fo d1
    assume j: "on_jobs (\<lambda>js. js @ [restore_job jid org user now tnow fo u]) (ensure_user user d) = Inr d1"
      and s: "set_unit_state (\<lambda>r. lu_id r = lu_id u) LifecycleRestoreQueued d1 = Inr d'"
    have "keeps org (ensure_user user d) d1" by (rule keeps_jobs [OF j]) (simp add: restore_job_def)
    also have "keeps org d1 d'"
      by (rule one_unit_keeps [OF ok mem s [unfolded set_unit_state_def]]) (use j in \<open>simp add: on_table_Inr\<close>)
    finally show ?thesis by (rule keeps_after_refs)
  qed simp
qed

lemma dj_org_previewed [simp]: "dj_org (previewed_job jid org user hash ex tnow f counts) = org"
  by (simp add: previewed_job_def split: prod.split)

lemma PreviewFolderDeletion_keeps: "keeps org d (snd (PreviewFolderDeletion sha256 rnd jid now tnow org user fid d))"
  unfolding PreviewFolderDeletion_def
proof (rule keeps_transaction, goal_cases)
  case (1 a d')
  then obtain j :: deletion_job where "on_djobs (\<lambda>js. js @ [j]) d = Inr d'" "dj_org j = org"
    by (auto simp: Let_def newConfirmationToken_def)
  then show ?case by (auto elim!: keeps_djobs)
qed

lemma gate_keeps:
  assumes "closeFolderDeletionVisibilityGate j now uid tnow d = Inr (x, d')"
  shows "keeps (dj_org j) d d'" "c_djobs d' = c_djobs d" "c_jobs d' = c_jobs d"
proof -
  let ?live = "\<lambda>f. fd_id f = dj_root j \<and> fd_org f = dj_org j \<and> folder_active f"
  let ?dead = "\<lambda>f. fd_id f = dj_root j \<and> fd_org f = dj_org j \<and> \<not> folder_active f"
  obtain d1 unit d2 where
    a: "on_folders (sql_update ?live (\<lambda>f. f\<lparr>fd_deleted_at := Some now, fd_updated_by := Some (dj_requested_by j)\<rparr>)) d = Inr d1"
    and b: "d2 = d1 \<or> createDeletingLifecycleUnit uid (dj_org j) (dj_requested_by j) (dj_root j) (dj_path j)
                (lifecycleParentPath (dj_path j)) tnow d1 = Inr d2"
    and c: "on_folders (sql_update ?dead (\<lambda>f. f\<lparr>fd_unit := Some unit\<rparr>)) d2 = Inr d'"
    using assms
    by (auto simp: closeFolderDeletionVisibilityGate_def ensureFolderDeletionLifecycleUnit_def Let_def
        split: option.splits if_splits prod.splits)
  have "keeps (dj_org j) d d1" by (rule keeps_folders [OF a]) (auto intro!: filter_sql_update_other)
  also have "keeps (dj_org j) d1 d2" using b by (auto simp: createDeletingLifecycleUnit_def elim!: keeps_units)
  also have "keeps (dj_org j) d2 d'" by (rule keeps_folders [OF c]) (auto intro!: filter_sql_update_other)
  finally show "keeps (dj_org j) d d'" .
  show "c_djobs d' = c_djobs d" "c_jobs d' = c_jobs d"
    using a b c by (auto simp: on_table_Inr createDeletingLifecycleUnit_def)
qed

lemma own_djob_saved:
  assumes "catalog_ok d" and "j \<in> set (c_djobs d)" "dj_org j = org" and "save_djob k d1 = Inr d'"
    and "dj_id k = dj_id j" "dj_org k = dj_org j" and "c_djobs d1 = c_djobs d"
  shows "keeps org d1 d'"
  using assms(4) by (rule save_djob_keeps) (use assms same_row(5) [OF assms(1) _ assms(2)] in auto)

definition queued_job :: "instant \<Rightarrow> bool \<Rightarrow> deletion_job \<Rightarrow> deletion_job" where
  "queued_job now closed j =
     (let j1 = j\<lparr>dj_status := FolderDeletionQueued, dj_token_hash := None, dj_preview_expires := None,
                 dj_queued_at := Some now, dj_next_run := Some now\<rparr> in
      if closed then j1\<lparr>dj_deleted_folders := dj_deleted_folders j1 + 1\<rparr> else j1)"

definition queued_row :: "instant \<Rightarrow> deletion_job \<Rightarrow> deletion_job" where
  "queued_row now j = j\<lparr>dj_status := FolderDeletionQueued, dj_token_hash := None, dj_preview_expires := None,
                 dj_queued_at := Some now, dj_next_run := Some now\<rparr>"

lemma confirm_work_Inr:
  assumes "confirm_work sha256 uid jid now tnow org user fid pid token d = Inr ((a, c), d')"
  obtains j unit closed d1 d2 where
    "find (\<lambda>j. dj_id j = pid \<and> dj_org j = org \<and> dj_requested_by j = user \<and> dj_status j = FolderDeletionPreviewed)
       (c_djobs d) = Some j"
    "closeFolderDeletionVisibilityGate (queued_row now j) now uid tnow d = Inr ((unit, closed), d1)"
    "save_djob (queued_job now closed j) d1 = Inr d2" "a = queued_job now closed j"
    "createFolderDeletionLifecycleJob (queued_job now closed j) unit now jid tnow d2 = Inr d'"
proof -
  obtain j where j: "find (\<lambda>j. dj_id j = pid \<and> dj_org j = org \<and> dj_requested_by j = user \<and> dj_status j = FolderDeletionPreviewed)
       (c_djobs d) = Some j"
    using assms by (auto simp: confirm_work_def)
  obtain f where v: "preview_valid sha256 fid token now j" and f: "find_active_folder org fid d = Some f"
    using assms unfolding confirm_work_def j
    by (auto simp: and_then_def split: if_split_asm sum.split_asm option.split_asm)
  have "and_then (closeFolderDeletionVisibilityGate (queued_row now j) now uid tnow d) (\<lambda>((unit, closed), d1).
       and_then (save_djob (queued_job now closed j) d1) (\<lambda>d2.
       and_then (createFolderDeletionLifecycleJob (queued_job now closed j) unit now jid tnow d2) (\<lambda>d3.
       Inr ((queued_job now closed j, closed), d3)))) = Inr ((a, c), d')"
    using assms unfolding confirm_work_def j f from_option_simps and_then_simps Let_def queued_job_def queued_row_def
    by (simp only: v not_True_eq_False if_False if_True and_then_simps split: if_split_asm) (auto simp: and_then_Inr)
  then show thesis by (auto split: prod.splits intro: that [OF j])
qed

lemma ConfirmFolderDeletion_keeps:
  assumes ok: "catalog_ok d"
  shows "keeps org d (snd (ConfirmFolderDeletion sha256 uid jid now tnow org user fid pid token d))"
  unfolding ConfirmFolderDeletion_def
proof (rule keeps_transaction, goal_cases)
  case (1 a d')
  then obtain j unit closed d1 d2 where
    j: "find (\<lambda>j. dj_id j = pid \<and> dj_org j = org \<and> dj_requested_by j = user \<and> dj_status j = FolderDeletionPreviewed)
       (c_djobs d) = Some j"
    and g: "closeFolderDeletionVisibilityGate (queued_row now j) now uid tnow d = Inr ((unit, closed), d1)"
    and s: "save_djob (queued_job now closed j) d1 = Inr d2"
    and c: "createFolderDeletionLifecycleJob (queued_job now closed j) unit now jid tnow d2 = Inr d'"
    by (cases a) (auto elim: confirm_work_Inr)
  have k: "dj_id (queued_job now closed j) = dj_id j" "dj_org (queued_job now closed j) = dj_org j"
    by (simp_all add: queued_job_def Let_def)
  have mem: "j \<in> set (c_djobs d)" "dj_org j = org" using find_SomeD [OF j] by simp_all
  have "keeps org d d1" using gate_keeps(1) [OF g] mem by (simp add: queued_row_def)
  also have "keeps org d1 d2" by (rule own_djob_saved [OF ok mem s k]) (use gate_keeps(2) [OF g] in simp)
  also have "keeps org d2 d'"
    using c unfolding createFolderDeletionLifecycleJob_def by (rule keeps_jobs) (simp add: k mem)
  finally show ?case .
qed

lemma authorized_job: "getAuthorizedJob org actor jid admin d = Inr j \<Longrightarrow> j \<in> set (c_djobs d) \<and> dj_org j = org \<and> dj_id j = jid"
  by (auto simp: getAuthorizedJob_def dest: find_SomeD)

lemma legacy_job:
  assumes ten: "same_tenant d" and "findLifecycleJobForFolderDeletion (dj_id j) d = Some lj" and "j \<in> set (c_djobs d)"
  shows "lj \<in> set (c_jobs d) \<and> lj_org lj = dj_org j"
  using assms by (auto simp: findLifecycleJobForFolderDeletion_def same_tenant_def dest!: find_SomeD)

lemma mirror_saved:
  assumes ok: "catalog_ok d" and ten: "same_tenant d" and j: "j \<in> set (c_djobs d)" "dj_org j = org"
    and s: "(case findLifecycleJobForFolderDeletion (dj_id j) d of None \<Rightarrow> Inr d1 | Some lj \<Rightarrow> save_job (g lj) d1) = Inr d2"
    and g: "\<And>lj. lj_id (g lj) = lj_id lj \<and> lj_org (g lj) = lj_org lj"
    and same: "c_jobs d1 = c_jobs d" "c_djobs d1 = c_djobs d"
  shows "keeps org d1 d2 \<and> c_djobs d2 = c_djobs d"
proof (cases "findLifecycleJobForFolderDeletion (dj_id j) d")
  case None
  then show ?thesis using s same by simp
next
  case (Some lj)
  then have lj: "lj \<in> set (c_jobs d)" "lj_org lj = org" using legacy_job [OF ten Some j(1)] j(2) by auto
  have sv: "save_job (g lj) d1 = Inr d2" using s Some by simp
  have "keeps org d1 d2"
    by (rule save_job_keeps [OF sv]) (use lj g same(1) same_row(4) [OF ok _ lj(1)] in auto)
  then show ?thesis using sv same by (auto simp: save_job_def on_table_Inr)
qed

lemma RetryFolderDeletionJob_keeps:
  assumes ok: "catalog_ok d" and ten: "same_tenant d"
  shows "keeps org d (snd (RetryFolderDeletionJob now org actor jid admin d))"
  unfolding RetryFolderDeletionJob_def
proof (rule keeps_transaction, goal_cases)
  case (1 a d')
  then obtain j :: deletion_job and d1 where j: "getAuthorizedJob org actor jid admin d = Inr j"
    and m: "(case findLifecycleJobForFolderDeletion (dj_id j) d of None \<Rightarrow> Inr d
                   | Some lj \<Rightarrow> save_job (lj\<lparr>lj_status := LifecycleJobQueued, lj_attempts := 0,
                        lj_next_run := Some now, lj_lease_owner := None, lj_lease_expires := None,
                        lj_failure_code := None, lj_completed_at := None\<rparr>) d) = Inr d1"
    and s: "save_djob (j\<lparr>dj_status := FolderDeletionQueued, dj_manual_retries := dj_manual_retries j + 1,
                    dj_attempts := 0, dj_next_run := Some now, dj_lease_owner := None, dj_lease_expires := None,
                    dj_last_error := None\<rparr>) d1 = Inr d'"
    by (auto simp: Let_def split: if_splits)
  from authorized_job [OF j] have mem: "j \<in> set (c_djobs d)" "dj_org j = org" by auto
  have d1: "keeps org d d1 \<and> c_djobs d1 = c_djobs d" by (rule mirror_saved [OF ok ten mem m]) simp_all
  have "keeps org d1 d'" by (rule own_djob_saved [OF ok mem s]) (simp_all add: d1)
  with d1 show ?case by (blast intro: keeps_trans)
qed

lemma CancelFolderDeletionJob_keeps:
  assumes ok: "catalog_ok d" and ten: "same_tenant d"
  shows "keeps org d (snd (CancelFolderDeletionJob now org actor jid admin d))"
  unfolding CancelFolderDeletionJob_def
proof (rule keeps_transaction, goal_cases)
  case (1 a d')
  then obtain j :: deletion_job and reopened d1 d2 where j: "getAuthorizedJob org actor jid admin d = Inr j"
    and r: "cancel_reopen j d = Inr (reopened, d1)"
    and m: "(case findLifecycleJobForFolderDeletion (dj_id j) d of None \<Rightarrow> Inr d1
                   | Some lj \<Rightarrow> save_job (lj\<lparr>lj_status := LifecycleJobSuppressed, lj_next_run := None,
                                          lj_completed_at := Some now\<rparr>) d1) = Inr d2"
    and s: "save_djob (j\<lparr>dj_status := FolderDeletionCancelled, dj_cancelled_at := Some now, dj_next_run := None\<rparr>) d2 = Inr d'"
    by (auto simp: Let_def split: if_splits)
  from authorized_job [OF j] have mem: "j \<in> set (c_djobs d)" "dj_org j = org" by auto
  have d1: "keeps org d d1 \<and> c_djobs d1 = c_djobs d \<and> c_jobs d1 = c_jobs d"
  proof (cases "find (deleting_unit (dj_org j) (dj_root j)) (c_units d)")
    case None
    then show ?thesis using r by (simp add: cancel_reopen_def)
  next
    case (Some u)
    have u: "u \<in> set (c_units d)" "lu_org u = org" using find_SomeD [OF Some] mem by (simp_all add: deleting_unit_def)
    obtain d0 where
      f: "on_folders (sql_update (\<lambda>f. fd_id f = dj_root j \<and> fd_org f = dj_org j \<and> fd_unit f = Some (lu_id u) \<and> \<not> folder_active f)
              (\<lambda>f. f\<lparr>fd_deleted_at := None, fd_unit := None\<rparr>)) d = Inr d0"
      and n: "on_units (sql_update (\<lambda>r. lu_id r = lu_id u) (\<lambda>r. r\<lparr>lu_state := LifecycleRestored\<rparr>)) d0 = Inr d1"
      using r Some by (auto simp: cancel_reopen_def Let_def split: if_splits)
    have "keeps org d d0" by (rule keeps_folders [OF f]) (use mem in \<open>auto intro!: filter_sql_update_other\<close>)
    also have "keeps org d0 d1" by (rule one_unit_keeps [OF ok u n]) (use f in \<open>simp add: on_table_Inr\<close>)
    finally show ?thesis using f n by (simp add: on_table_Inr)
  qed
  have d2: "keeps org d1 d2 \<and> c_djobs d2 = c_djobs d" by (rule mirror_saved [OF ok ten mem m]) (simp_all add: d1)
  have "keeps org d2 d'" by (rule own_djob_saved [OF ok mem s]) (simp_all add: d2)
  with d1 d2 show ?case by (blast intro: keeps_trans)
qed

declare on_table_Inr [simp] save_Inr [simp] ensureNoActiveDeletionForPaths.simps [simp]

end
