(* ===== verification/Tenant_Requests.thy ===== *)
theory Tenant_Requests
  imports Tenant_Isolation
begin

text \<open>
  The asset endpoints as a whole: a request answered by the service changes no row of another organization, and what a
  reply carries are rows of the organization the request was made for.
\<close>

section \<open>What a reply may carry\<close>

definition payload_within :: "string \<Rightarrow> catalog \<Rightarrow> asset_payload \<Rightarrow> bool" where
  "payload_within org d p =
     (case p of
        FolderReply f \<Rightarrow> fd_org f = org
      | FoldersReply _ fs \<Rightarrow> list_all (\<lambda>f. fd_org f = org) fs
      | FolderFact _ g \<Rightarrow> g = org
      | ItemReply x \<Rightarrow> item_in_org d org x
      | ItemsReply xs _ \<Rightarrow> list_all (item_in_org d org) xs
      | EntriesReply es _ \<Rightarrow> list_all (\<lambda>b. sql_exists (\<lambda>u. lu_id u = be_unit b \<and> lu_org u = org) (c_units d)) es
      | FolderRestoreFact (i, _) \<Rightarrow> sql_exists (\<lambda>f. fd_id f = i \<and> fd_org f = org) (c_folders d)
      | MetadataRestoreFact (i, _) \<Rightarrow> sql_exists (\<lambda>x. it_id x = i \<and> item_in_org d org x) (c_items d)
      | UnitRestoreFact r \<Rightarrow> sql_exists (\<lambda>u. lu_id u = rf_unit r \<and> lu_org u = org) (c_units d)
      | LifecycleJobReply j \<Rightarrow> lj_org j = org
      | PreviewReply v \<Rightarrow> sql_exists (\<lambda>f. fd_id f = pv_root v \<and> fd_org f = org) (c_folders d)
      | DeletionJobReply j \<Rightarrow> dj_org j = org
      | HealthReply _ _ \<Rightarrow> True)"

definition answers_within :: "string \<Rightarrow> catalog \<Rightarrow> asset_response \<times> catalog \<Rightarrow> bool" where
  "answers_within org d r \<longleftrightarrow> keeps org d (snd r) \<and> (\<forall>p. rs_body (fst r) = Body p \<longrightarrow> payload_within org (snd r) p)"

text \<open>A continuation that is safe for an organization, from any tables that satisfy their constraints.\<close>

definition safe :: "string \<Rightarrow> (catalog \<Rightarrow> asset_response \<times> catalog) \<Rightarrow> bool" where
  "safe org k \<longleftrightarrow> (\<forall>d. catalog_ok d \<and> same_tenant d \<longrightarrow> answers_within org d (k d))"

definition bodiless :: "asset_response \<Rightarrow> bool" where
  "bodiless rs \<longleftrightarrow> (\<forall>p. rs_body rs \<noteq> Body p)"

lemma error_is_bodiless [simp]:
  "bodiless (writeError st c)" "bodiless (writeLegacyError m st)" "bodiless missing_actor" "bodiless wrong_method"
  "bodiless wrong_org" "bodiless bad_request" "bodiless cursor_invalid" "bodiless (legacy_bad m)"
  "bodiless (database_error e)" "bodiless (no_record es e)" "bodiless no_content"
  by (simp_all add: bodiless_def writeError_def writeLegacyError_def missing_actor_def wrong_method_def wrong_org_def
      bad_request_def cursor_invalid_def legacy_bad_def database_error_def no_record_def no_content_def)

lemma mapped_is_bodiless [simp]: "bodiless (mapDomainError e c)" "bodiless (domain_error e)" "bodiless (metadata_error e)"
  by (simp_all add: mapDomainError_def domain_error_def metadata_error_def split: catalog_error.split)

lemmas no_body [simp] = error_is_bodiless [unfolded bodiless_def, rule_format]
  mapped_is_bodiless [unfolded bodiless_def, rule_format]

lemma bodiless_within: "bodiless rs \<Longrightarrow> answers_within org d (rs, d)"
  by (simp add: answers_within_def bodiless_def)

lemma safe_refuse: "bodiless rs \<Longrightarrow> safe org k \<Longrightarrow> safe org (refuse_when c rs k)"
  by (simp add: safe_def refuse_when_def bodiless_within)

lemma safe_own_org: "safe (ac_org ac) (k (ac_org ac)) \<Longrightarrow> safe (ac_org ac) (own_org ac rq k)"
  by (simp add: safe_def own_org_def refuse_when_def Let_def bodiless_within)

lemma safe_row: "(\<And>i. safe (ac_org ac) (k (ac_org ac) i)) \<Longrightarrow> safe (ac_org ac) (row_of_request he m ac rq k)"
  by (simp add: safe_def row_of_request_def refuse_when_def Let_def bodiless_within)

lemma safe_deletion_row:
  "(\<And>i. safe (ac_org ac) (k (ac_org ac) i)) \<Longrightarrow> safe (ac_org ac) (requireDeletionOrgAndID he rq ac key k)"
  by (simp add: safe_def requireDeletionOrgAndID_def refuse_when_def Let_def bodiless_within)

lemma safe_actor: "safe org (k ac) \<Longrightarrow> safe org (with_actor (Some ac) k)"
  by (simp add: safe_def with_actor_def)

lemma safe_restore:
  "(\<And>u i. safe (ac_org ac) (k (ac_org ac) u i)) \<Longrightarrow> safe (ac_org ac) (restore_request he m (Some ac) rq k)"
  by (simp add: safe_def restore_request_def with_actor_def refuse_when_def Let_def bodiless_within)

lemma safe_unit:
  "(\<And>u i. safe (ac_org ac) (k (ac_org ac) u i)) \<Longrightarrow> safe (ac_org ac) (unit_request he m key (Some ac) rq k)"
  unfolding unit_request_def by (intro safe_refuse safe_actor safe_deletion_row) simp_all

lemma safe_deletion_actor: "safe org (k ac) \<Longrightarrow> safe org (folderDeletionActor he (Some ac) k)"
  unfolding folderDeletionActor_def by (intro safe_actor safe_refuse) simp_all

text \<open>The tail of a handler.\<close>

definition op_within :: "string \<Rightarrow> catalog \<Rightarrow> ('a \<Rightarrow> asset_response) \<Rightarrow> 'a reply \<times> catalog \<Rightarrow> bool" where
  "op_within org d ok r \<longleftrightarrow> keeps org d (snd r)
     \<and> (\<forall>x p. fst r = Inr x \<longrightarrow> rs_body (ok x) = Body p \<longrightarrow> payload_within org (snd r) p)"

lemma replied_within:
  "op_within org d ok r \<Longrightarrow> (\<And>e. bodiless (failed e)) \<Longrightarrow> answers_within org d (replied failed ok r)"
  by (auto simp: op_within_def answers_within_def replied_def bodiless_def split: sum.splits)

lemma read_within:
  "(\<And>x p. r = Inr x \<Longrightarrow> rs_body (ok x) = Body p \<Longrightarrow> payload_within org d p) \<Longrightarrow> op_within org d ok (r, d)"
  by (simp add: op_within_def)

lemma write_within:
  "keeps org d (snd r) \<Longrightarrow> (\<And>x p d'. r = (Inr x, d') \<Longrightarrow> rs_body (ok x) = Body p \<Longrightarrow> payload_within org d' p)
   \<Longrightarrow> op_within org d ok r"
  by (cases r) (auto simp: op_within_def)

lemma bodies [simp]:
  "rs_body (writeJSON st q) = Body p \<longleftrightarrow> p = q" "rs_body (folder_reply f) = Body p \<longleftrightarrow> p = FolderReply f"
  "rs_body (folders_reply fs) = Body p \<longleftrightarrow> p = FoldersReply (Some (int (length fs))) fs"
  "rs_body (item_reply x) = Body p \<longleftrightarrow> p = ItemReply x" "rs_body no_content \<noteq> Body p"
  by (auto simp: writeJSON_def folder_reply_def folders_reply_def item_reply_def no_content_def)

lemma payloads [simp]:
  "payload_within org d (FolderReply f) \<longleftrightarrow> fd_org f = org" "payload_within org d (ItemReply x) \<longleftrightarrow> item_in_org d org x"
  "payload_within org d (FoldersReply c fs) \<longleftrightarrow> (\<forall>f\<in>set fs. fd_org f = org)"
  "payload_within org d (ItemsReply xs c') \<longleftrightarrow> (\<forall>x\<in>set xs. item_in_org d org x)"
  "payload_within org d (LifecycleJobReply j) \<longleftrightarrow> lj_org j = org"
  "payload_within org d (DeletionJobReply k) \<longleftrightarrow> dj_org k = org"
  by (auto simp: payload_within_def list_all_iff)

section \<open>What the operations return\<close>

lemma CreateFolder_result: "CreateFolder fid org user inp d = (Inr f, d') \<Longrightarrow> fd_org f = org"
  unfolding CreateFolder_def
  by (drule transaction_Inr) (auto simp: Let_def new_folder_row_def split: if_splits)

lemma UpdateFolder_result: "UpdateFolder org user fid inp d = (Inr f, d') \<Longrightarrow> fd_org f = org"
  unfolding UpdateFolder_def
  by (drule transaction_Inr) (auto simp: Let_def renamed_folder_def split: if_splits dest!: find_visible_folderD)

lemma MoveFolder_result: "MoveFolder org user fid dest d = (Inr (f, m), d') \<Longrightarrow> fd_org f = org"
  unfolding MoveFolder_def
  by (drule transaction_Inr) (auto simp: Let_def split: if_splits dest!: find_visible_folderD find_SomeD)

lemma RestoreFolder_result: "RestoreFolder org user fid d = (Inr f, d') \<Longrightarrow> fd_org f = org"
  unfolding RestoreFolder_def
  by (drule transaction_Inr) (auto simp: Let_def split: if_splits dest!: find_visible_folderD)

lemma CreateMetadataItem_result: "CreateMetadataItem iid now org user inp d = (Inr x, d') \<Longrightarrow> item_in_org d' org x"
proof -
  assume "CreateMetadataItem iid now org user inp d = (Inr x, d')"
  then obtain p :: folder where p: "find_visible_folder org (ci_folder inp) (EnsureRefs user org d) = Some p"
    and d': "on_items (\<lambda>xs. xs @ [x]) (EnsureRefs user org d) = Inr d'" and x: "it_folder x = ci_folder inp"
    unfolding CreateMetadataItem_def
    by (auto simp: Let_def new_item_row_def simp del: on_table_Inr split: if_splits dest!: transaction_Inr)
  have rows: "c_folders d' = c_folders d" "catalog_ok d'" using d' by auto
  have "folder_of d' x = Some p"
    by (rule folder_of_eq [OF rows(2)]) (use find_visible_folderD [OF p] rows(1) x in simp_all)
  then show ?thesis using find_visible_folderD [OF p] by (simp add: item_in_org_def)
qed

lemma item_in_org_cong: "c_folders d' = c_folders d \<Longrightarrow> it_folder y = it_folder x \<Longrightarrow> item_in_org d' org y = item_in_org d org x"
  by (simp add: item_in_org_def folder_of_def)

lemma UpdateMetadataItem_result: "UpdateMetadataItem now tnow org user iid inp d = (Inr x, d') \<Longrightarrow> item_in_org d' org x"
proof -
  assume "UpdateMetadataItem now tnow org user iid inp d = (Inr x, d')"
  then obtain y :: item where y: "find_visible_item org iid (EnsureRefs user org d) = Some y"
    and d': "save_item tnow x (EnsureRefs user org d) = Inr d'"
      "x = updated_item inp y\<lparr>it_updated_by := Some user, it_updated_at := now\<rparr>"
    unfolding UpdateMetadataItem_def by (auto simp: Let_def split: if_splits dest!: transaction_Inr)
  have "item_in_org d org y" using find_visible_itemD [OF y] by simp
  moreover have "c_folders d' = c_folders d" using d'(1) by (auto simp: save_item_def)
  moreover have "it_folder x = it_folder y" using d'(2) by (simp add: updated_item_def)
  ultimately show ?thesis using item_in_org_cong by metis
qed

lemma RestoreMetadataItem_result: "RestoreMetadataItem tnow org user iid d = (Inr x, d') \<Longrightarrow> item_in_org d' org x"
  unfolding RestoreMetadataItem_def
  by (drule transaction_Inr) (auto simp: Let_def split: if_splits dest!: find_visible_itemD)

lemma unit_job_org:
  assumes ok: "catalog_ok d" and j: "j \<in> set (c_jobs d)" "lj_unit j = Some (lu_id u)" and u: "u \<in> set (c_units d)"
  shows "lj_org j = lu_org u"
proof -
  have "(lu_id u, lj_org j) \<in> set (map (\<lambda>r. (lu_id r, lu_org r)) (c_units d))"
    using catalog_ok_refs(4) [OF ok j(1)] j(2) by (simp add: lifecycle_job_refs_def)
  then show ?thesis using same_row(3) [OF ok _ u] by auto
qed

lemma QueueLifecycleRestore_result:
  assumes ok: "catalog_ok d" and run: "QueueLifecycleRestore jid now tnow org user uid d = (Inr j, d')"
  shows "lj_org j = org"
proof -
  obtain u :: unit_row where u: "find (\<lambda>u. lu_id u = uid \<and> lu_org u = org) (c_units d) = Some u"
    and c: "open_restore_job (lu_id u) (ensure_user user d) = Some j \<or> lj_org j = org"
    using run unfolding QueueLifecycleRestore_def
    by (auto simp: Let_def restore_job_def split: if_splits dest!: transaction_Inr)
  have mem: "u \<in> set (c_units d)" "lu_org u = org" using find_SomeD [OF u] by simp_all
  from c show ?thesis
  proof
    assume "open_restore_job (lu_id u) (ensure_user user d) = Some j"
    then have "j \<in> set (c_jobs d)" "lj_unit j = Some (lu_id u)"
      by (auto simp: open_restore_job_def first_row_def order_by_def split: list.splits dest!: arg_cong [of _ _ set])
    then show ?thesis using unit_job_org [OF ok _ _ mem(1)] mem(2) by simp
  qed
qed

lemma dj_root_previewed [simp]: "dj_root (previewed_job jid org user hash ex tnow f counts) = fd_id f"
  by (simp add: previewed_job_def split: prod.split)

lemma PreviewFolderDeletion_result:
  assumes "PreviewFolderDeletion sha256 rnd jid now tnow org user fid d = (Inr v, d')"
  shows "sql_exists (\<lambda>f. fd_id f = pv_root v \<and> fd_org f = org) (c_folders d')"
proof -
  let ?row = "\<lambda>f. previewed_job jid org user (sha256 (base64_raw_url rnd)) (now + FolderDeletionPreviewTTL) tnow f
      (countFolderDeletionRows org (fd_path f) d)"
  obtain f where f: "find_active_folder org fid d = Some f" and v: "v = previewFromJob (?row f) (base64_raw_url rnd)"
    and d': "on_djobs (\<lambda>js. js @ [?row f]) d = Inr d'"
    using assms unfolding PreviewFolderDeletion_def
    by (auto simp: Let_def newConfirmationToken_def
        simp del: on_table_Inr ensureNoActiveDeletionForPaths.simps dest!: transaction_Inr)
  have "f \<in> set (c_folders d)" "fd_org f = org" using f by (auto simp: find_active_folder_def dest!: find_SomeD)
  moreover have "c_folders d' = c_folders d" using d' by auto
  ultimately show ?thesis using v by (auto simp: sql_exists_iff previewFromJob_def)
qed

lemma ConfirmFolderDeletion_result:
  assumes "ConfirmFolderDeletion sha256 uid jid now tnow org user fid pid token d = (Inr (j, c), d')"
  shows "dj_org j = org"
proof -
  have "confirm_work sha256 uid jid now tnow org user fid pid token d = Inr ((j, c), d')"
    using assms unfolding ConfirmFolderDeletion_def by (rule transaction_Inr)
  then show ?thesis
    by (elim confirm_work_Inr) (auto simp: queued_job_def Let_def dest!: find_SomeD)
qed

lemma RetryFolderDeletionJob_result: "RetryFolderDeletionJob now org actor jid admin d = (Inr j, d') \<Longrightarrow> dj_org j = org"
  unfolding RetryFolderDeletionJob_def
  by (drule transaction_Inr) (auto simp: Let_def split: if_splits dest!: authorized_job)

lemma CancelFolderDeletionJob_result: "CancelFolderDeletionJob now org actor jid admin d = (Inr (j, r), d') \<Longrightarrow> dj_org j = org"
  unfolding CancelFolderDeletionJob_def
  by (drule transaction_Inr) (auto simp: Let_def split: if_splits dest!: authorized_job)

declare order_by_set [simp]

lemma page_mem: "r \<in> set (fst (page_of n rows)) \<Longrightarrow> r \<in> set rows"
  by (auto simp: page_of_def Let_def split: if_splits dest: in_set_takeD)

lemma SearchMetadataItems_result:
  assumes "SearchMetadataItems casing org flt d = Inr xs" and "x \<in> set xs"
  shows "x \<in> set (filter (search_matches casing org flt d) (c_items d))"
proof -
  let ?rows = "filter (search_matches casing org flt d) (c_items d)"
  have "set xs \<subseteq> set ?rows"
    using assms(1) unfolding SearchMetadataItems_def Let_def
    by (cases "sf_keyset flt"; cases "sf_after_updated flt"; cases "sf_after_id flt"; cases "sf_folder flt")
       (auto split: if_split_asm dest!: in_set_takeD in_set_dropD)
  then show ?thesis using assms(2) by blast
qed

lemma search_result:
  assumes "usecase_SearchMetadataItems casing org flt d = Inr xs" and "x \<in> set xs"
  shows "item_in_org d org x"
proof -
  obtain flt1 where "SearchMetadataItems casing org flt1 d = Inr xs"
    using assms(1) unfolding usecase_SearchMetadataItems_def by auto
  from SearchMetadataItems_result [OF this assms(2)] show ?thesis by (simp add: search_matches_def)
qed

lemma candidate_org: "recycleBinCandidate org d u = Some b \<Longrightarrow> be_unit b = lu_id u \<and> lu_org u = org"
  by (auto simp: recycleBinCandidate_def Let_def split: if_splits option.splits)

lemma bin_result:
  assumes "usecase_ListRecycleBinEntries org flt d = Inr bs" and "b \<in> set bs"
  shows "sql_exists (\<lambda>u. lu_id u = be_unit b \<and> lu_org u = org) (c_units d)"
proof -
  have "b \<in> set (bin_candidates org d)"
    using assms by (auto simp: usecase_ListRecycleBinEntries_def ListRecycleBinEntries_def Let_def
        split: option.splits if_splits dest!: in_set_takeD)
  then obtain u where "u \<in> set (c_units d)" "recycleBinCandidate org d u = Some b"
    by (auto simp: bin_candidates_def List.map_filter_def)
  then show ?thesis using candidate_org by (fastforce simp: sql_exists_iff)
qed

section \<open>The handlers\<close>

lemma validated_within:
  assumes "\<And>r. v = Inr r \<Longrightarrow> op_within org d ok (call r d)"
  shows "op_within org d ok (after_validation v call d)"
  using assms by (auto simp: after_validation_def op_within_def split: sum.splits)

lemma safeI: "(\<And>d. catalog_ok d \<Longrightarrow> same_tenant d \<Longrightarrow> answers_within org d (k d)) \<Longrightarrow> safe org k"
  by (simp add: safe_def)

lemma within_cases:
  "(c \<Longrightarrow> answers_within org d r) \<Longrightarrow> (\<not> c \<Longrightarrow> answers_within org d s) \<Longrightarrow> answers_within org d (if c then r else s)"
  "(v = None \<Longrightarrow> answers_within org d r) \<Longrightarrow> (\<And>x. v = Some x \<Longrightarrow> answers_within org d (f x))
   \<Longrightarrow> answers_within org d (case v of None \<Rightarrow> r | Some x \<Rightarrow> f x)"
  "answers_within org d (g y) \<Longrightarrow> answers_within org d (Let y g)"
  "(\<And>a b. q = (a, b) \<Longrightarrow> answers_within org d (h a b)) \<Longrightarrow> answers_within org d (case q of (a, b) \<Rightarrow> h a b)"
  by (auto split: option.split prod.split)

lemma safe_if: "safe org (k :: catalog \<Rightarrow> asset_response \<times> catalog) \<Longrightarrow> safe org l \<Longrightarrow> safe org (\<lambda>d. if c then k d else l d)"
  by (simp add: safe_def)

lemma body_within: "(\<And>p. rs_body rs = Body p \<Longrightarrow> payload_within org d p) \<Longrightarrow> answers_within org d (rs, d)"
  by (simp add: answers_within_def)

lemma folder_reads:
  "GetFolderChildren org p d = Inr fs \<Longrightarrow> f \<in> set fs \<Longrightarrow> fd_org f = org"
  "GetFolderTree org p d = Inr fs \<Longrightarrow> f \<in> set fs \<Longrightarrow> fd_org f = org"
  "f \<in> set (GetRootFolders org d) \<Longrightarrow> fd_org f = org" "f \<in> set (GetFoldersByIDs org ids d) \<Longrightarrow> fd_org f = org"
  "GetFolderByID org i d = Inr f \<Longrightarrow> fd_org f = org"
  by (auto simp: GetFolderChildren_def GetFolderTree_def GetRootFolders_def GetFoldersByIDs_def GetFolderByID_def
      split: if_splits dest!: find_visible_folderD)

lemma list_folders_within: "answers_within org d (list_folders rq org d)"
  unfolding list_folders_def
  by (intro within_cases replied_within read_within body_within) (auto dest: folder_reads)

lemma folders_safe: "safe (ac_org ac) (HandleFolders he (Some ac) rq)"
proof -
  have get: "safe (ac_org ac) (handleGetFolders he ac rq)"
  proof (rule safeI)
    fix d
    show "answers_within (ac_org ac) d (handleGetFolders he ac rq d)"
      using list_folders_within [of "ac_org ac" d rq]
      by (auto simp: handleGetFolders_def refuse_when_def Let_def split: list.split
          intro!: replied_within read_within body_within dest: folder_reads)
  qed
  have post: "safe (ac_org ac) (handleCreateFolder he ac rq)"
    unfolding handleCreateFolder_def usecase_CreateFolder_def
    by (intro safe_own_org safeI within_cases body_within replied_within validated_within write_within CreateFolder_keeps)
       (auto dest: CreateFolder_result)
  have patch: "safe (ac_org ac) (handleUpdateFolder he ac rq)"
    unfolding handleUpdateFolder_def usecase_UpdateFolder_def
    by (intro safe_row safeI within_cases body_within replied_within validated_within write_within UpdateFolder_keeps)
       (auto dest: UpdateFolder_result)
  have delete: "safe (ac_org ac) (handleDeleteFolder he ac rq)"
    unfolding handleDeleteFolder_def
    by (intro safe_row safeI replied_within write_within DeleteFolder_keeps) auto
  have none: "safe (ac_org ac) (\<lambda>d. (wrong_method, d))" by (intro safeI bodiless_within) simp
  show ?thesis
    unfolding HandleFolders_def by (intro safe_actor safe_if get post patch delete none)
qed

lemma items_safe: "safe (ac_org ac) (HandleMetadataItems he (Some ac) rq)"
proof -
  have reads: "GetMetadataItemByID org i d = Inr x \<Longrightarrow> item_in_org d org x"
    "GetMetadataItemsByFolder org i d = Inr xs \<Longrightarrow> y \<in> set xs \<Longrightarrow> item_in_org d org y" for org i d x xs y
    by (auto simp: GetMetadataItemByID_def GetMetadataItemsByFolder_def dest!: find_visible_itemD)
  have get: "safe (ac_org ac) (handleGetMetadataItems he ac rq)"
    unfolding handleGetMetadataItems_def
    by (intro safe_own_org safeI within_cases body_within replied_within read_within) (auto dest: reads)
  have post: "safe (ac_org ac) (handleCreateMetadataItem he ac rq)"
    unfolding handleCreateMetadataItem_def usecase_CreateMetadataItem_def
    by (intro safe_own_org safeI within_cases body_within replied_within validated_within write_within CreateMetadataItem_keeps)
       (auto dest: CreateMetadataItem_result)
  have patch: "safe (ac_org ac) (handleUpdateMetadataItem he ac rq)"
    unfolding handleUpdateMetadataItem_def usecase_UpdateMetadataItem_def
    by (intro safe_row safeI within_cases body_within replied_within validated_within write_within UpdateMetadataItem_keeps)
       (auto dest: UpdateMetadataItem_result)
  have delete: "safe (ac_org ac) (handleDeleteMetadataItem he ac rq)"
    unfolding handleDeleteMetadataItem_def
    by (intro safe_row safeI replied_within write_within DeleteMetadataItem_keeps) auto
  have none: "safe (ac_org ac) (\<lambda>d. (wrong_method, d))" by (intro safeI bodiless_within) simp
  show ?thesis
    unfolding HandleMetadataItems_def by (intro safe_actor safe_if get post patch delete none)
qed

lemma job_handlers_safe:
  "safe (ac_org ac) (HandleFolderDeletionPreview he (Some ac) rq)"
  "safe (ac_org ac) (HandleFolderDeletionConfirm he (Some ac) rq)"
  "safe (ac_org ac) (HandleFolderDeletionJob he (Some ac) rq)"
  "safe (ac_org ac) (mutateFolderDeletionJob he retry (Some ac) rq)"
proof -
  show "safe (ac_org ac) (HandleFolderDeletionPreview he (Some ac) rq)"
    unfolding HandleFolderDeletionPreview_def
    by (intro safe_refuse safe_deletion_actor safe_deletion_row safeI replied_within write_within PreviewFolderDeletion_keeps)
       (auto simp: payload_within_def dest: PreviewFolderDeletion_result)
  show "safe (ac_org ac) (HandleFolderDeletionConfirm he (Some ac) rq)"
    unfolding HandleFolderDeletionConfirm_def
    by (intro safe_refuse safe_deletion_actor safe_deletion_row safeI within_cases body_within replied_within write_within
          ConfirmFolderDeletion_keeps)
       (auto dest: ConfirmFolderDeletion_result)
  show "safe (ac_org ac) (HandleFolderDeletionJob he (Some ac) rq)"
    unfolding HandleFolderDeletionJob_def
    by (intro safe_refuse safe_deletion_actor safe_deletion_row safeI replied_within read_within)
       (auto simp: GetFolderDeletionJob_def dest: authorized_job)
  show "safe (ac_org ac) (mutateFolderDeletionJob he retry (Some ac) rq)"
    unfolding mutateFolderDeletionJob_def
    by (intro safe_refuse safe_deletion_actor safe_deletion_row safeI within_cases replied_within write_within
          RetryFolderDeletionJob_keeps CancelFolderDeletionJob_keeps)
       (auto dest: RetryFolderDeletionJob_result CancelFolderDeletionJob_result)
qed

lemma folder_handlers_safe:
  "safe (ac_org ac) (HandleRestoreFolder he (Some ac) rq)"
  "safe (ac_org ac) (HandleMoveFolder he (Some ac) rq)"
  "safe (ac_org ac) (HandleFolderFacts he (Some ac) rq)"
  "safe (ac_org ac) (HandleFolderRestoreAuthorizationFact he (Some ac) rq)"
proof -
  show "safe (ac_org ac) (HandleRestoreFolder he (Some ac) rq)"
    unfolding HandleRestoreFolder_def
    by (intro safe_restore safeI replied_within write_within RestoreFolder_keeps) (auto dest: RestoreFolder_result)
  show "safe (ac_org ac) (HandleMoveFolder he (Some ac) rq)"
    unfolding HandleMoveFolder_def
    by (intro safe_actor safe_refuse safe_row safeI within_cases body_within replied_within write_within MoveFolder_keeps)
       (auto dest: MoveFolder_result)
  show "safe (ac_org ac) (HandleFolderFacts he (Some ac) rq)"
    unfolding HandleFolderFacts_def Let_def
    by (intro safe_actor safe_refuse safe_own_org safeI replied_within read_within)
       (auto simp: payload_within_def dest: folder_reads(5))
  show "safe (ac_org ac) (HandleFolderRestoreAuthorizationFact he (Some ac) rq)"
    unfolding HandleFolderRestoreAuthorizationFact_def
    by (intro safe_unit safeI replied_within read_within)
       (auto simp: payload_within_def GetFolderRestoreAuthorizationFact_def sql_exists_iff dest!: find_SomeD)
qed

lemma item_handlers_safe:
  "safe (ac_org ac) (HandleRestoreMetadataItem he (Some ac) rq)"
  "safe (ac_org ac) (HandleSearchMetadataItems he (Some ac) rq)"
  "safe (ac_org ac) (HandleMetadataRestoreAuthorizationFact he (Some ac) rq)"
proof -
  show "safe (ac_org ac) (HandleRestoreMetadataItem he (Some ac) rq)"
    unfolding HandleRestoreMetadataItem_def
    by (intro safe_restore safeI replied_within write_within RestoreMetadataItem_keeps) (auto dest: RestoreMetadataItem_result)
  have run: "answers_within org d (run_search he org flt limit d)" for org flt limit d
    unfolding run_search_def
    by (intro replied_within read_within)
       (auto simp: search_reply_def Let_def split: if_splits prod.splits dest: search_result
          dest!: arg_cong [of _ _ fst] page_mem)
  show "safe (ac_org ac) (HandleSearchMetadataItems he (Some ac) rq)"
    unfolding HandleSearchMetadataItems_def Let_def
    by (intro safe_actor safe_refuse safe_own_org safeI within_cases body_within run) auto
  show "safe (ac_org ac) (HandleMetadataRestoreAuthorizationFact he (Some ac) rq)"
    unfolding HandleMetadataRestoreAuthorizationFact_def
    by (intro safe_unit safeI replied_within read_within)
       (auto simp: payload_within_def GetMetadataRestoreAuthorizationFact_def sql_exists_iff split: option.splits dest!: find_SomeD)
qed

lemma unit_fact_result:
  assumes "GetLifecycleRestoreAuthorizationFact org i d = Inr r"
  shows "sql_exists (\<lambda>u. lu_id u = rf_unit r \<and> lu_org u = org) (c_units d)"
proof -
  obtain u :: unit_row where u: "u \<in> set (c_units d)" "lu_org u = org" and "rf_unit r = lu_id u"
  proof -
    from assms obtain u where
      f: "find (\<lambda>u. lu_id u = i \<and> lu_org u = org \<and> lu_state u \<in> {LifecycleDeleted, LifecycleRestoreQueued, LifecycleRestoring})
            (c_units d) = Some u"
      unfolding GetLifecycleRestoreAuthorizationFact_def by auto
    have "rf_unit r = lu_id u"
      using assms f unfolding GetLifecycleRestoreAuthorizationFact_def
      by (cases "lu_type u") (auto simp: Let_def split: if_split_asm)
    then show thesis using that find_SomeD [OF f] by blast
  qed
  then show ?thesis by (auto simp: sql_exists_iff)
qed

lemma unit_handlers_safe:
  "safe (ac_org ac) (HandleRecycleBin he (Some ac) rq)"
  "safe (ac_org ac) (HandleLifecycleRestoreAuthorizationFact he (Some ac) rq)"
  "safe (ac_org ac) (HandleQueueLifecycleRestore he (Some ac) rq)"
  "safe (ac_org ac) (HandleLifecycleJob he (Some ac) rq)"
proof -
  show "safe (ac_org ac) (HandleRecycleBin he (Some ac) rq)"
    unfolding HandleRecycleBin_def
    by (intro safe_actor safe_refuse safe_own_org safeI within_cases body_within replied_within read_within)
       (auto simp: bin_reply_def payload_within_def list_all_iff split: prod.splits
          dest!: arg_cong [of _ _ fst] page_mem intro: bin_result)
  show "safe (ac_org ac) (HandleLifecycleRestoreAuthorizationFact he (Some ac) rq)"
    unfolding HandleLifecycleRestoreAuthorizationFact_def
    by (intro safe_unit safeI replied_within read_within)
       (auto simp: payload_within_def dest: unit_fact_result)
  show "safe (ac_org ac) (HandleQueueLifecycleRestore he (Some ac) rq)"
    unfolding HandleQueueLifecycleRestore_def
    by (intro safe_unit safeI replied_within write_within QueueLifecycleRestore_keeps)
       (auto dest: QueueLifecycleRestore_result)
  show "safe (ac_org ac) (HandleLifecycleJob he (Some ac) rq)"
    unfolding HandleLifecycleJob_def
    by (intro safe_unit safeI replied_within read_within) (auto simp: GetLifecycleJob_def dest!: find_SomeD)
qed

section \<open>The service\<close>

lemmas handlers_safe = folders_safe items_safe job_handlers_safe folder_handlers_safe item_handlers_safe unit_handlers_safe

lemma routes_safe: "(p, h) \<in> set (asset_routes he) \<Longrightarrow> safe (ac_org ac) (h (Some ac) rq)"
  using handlers_safe by (auto simp: asset_routes_def)

lemma route_prefix: "list_all (\<lambda>r. has_prefix ''/internal/api/'' (fst r)) (asset_routes he)"
  by (simp add: asset_routes_def has_prefix_def)

lemma actor_within:
  assumes "catalog_ok d" "same_tenant d" and "\<And>ac. safe (ac_org ac) (h (Some ac) rq)"
  shows "answers_within (rq_header rq ''X-Org-Id'') d (RequireActor valid h rq d)"
  using assms(1,2) assms(3) [of "\<lparr>ac_user = rq_header rq ''X-User-Id'', ac_org = rq_header rq ''X-Org-Id'', ac_admin = True\<rparr>"]
    assms(3) [of "\<lparr>ac_user = rq_header rq ''X-User-Id'', ac_org = rq_header rq ''X-Org-Id'', ac_admin = False\<rparr>"]
  by (auto simp: RequireActor_def Let_def safe_def bodiless_within)

text \<open>C15: A request to any asset endpoint is refused without change unless it carries the credential of the internal
API. Whatever it does otherwise, it leaves every folder, item, lifecycle unit and job of the organizations other than
the one in its header exactly as they were, and its reply carries only rows of that organization.\<close>

theorem requests_stay_in_their_organization:
  assumes "catalog_ok d" and "same_tenant d" and "map_of (asset_routes he) (rq_path rq) = Some h"
  shows "answers_within (rq_header rq ''X-Org-Id'') d (asset_service he token others rq d)
    \<and> (rq_header rq ''Authorization'' \<noteq> ''Bearer '' @ token \<longrightarrow>
         asset_service he token others rq d = (writeError StatusUnauthorized ''UNAUTHENTICATED'', d))"
proof -
  have mem: "(rq_path rq, h) \<in> set (asset_routes he)" using assms(3) by (rule map_of_SomeD)
  then have pre: "has_prefix ''/internal/api/'' (rq_path rq)" using route_prefix [of he] by (auto simp: list_all_iff)
  then have path: "rq_path rq \<noteq> ''/healthz''" by (auto simp: has_prefix_def)
  have inner: "answers_within (rq_header rq ''X-Org-Id'') d (NewAssetHandler he others rq d)"
    using path assms(3) actor_within [OF assms(1,2), of h rq] routes_safe [OF mem] by (simp add: NewAssetHandler_def)
  have prefix: "has_prefix ''Bearer '' s \<Longrightarrow> s = ''Bearer '' @ drop 7 s" for s
    by (auto dest!: has_prefixD)
  show ?thesis
    using inner pre prefix [of "rq_header rq ''Authorization''"]
    by (auto simp: asset_service_def RequireInternalAPI_def Let_def bodiless_within writeLegacyError_def legacy_code_def)
qed

definition demo_codec :: codec where
  "demo_codec = \<lparr>json_text = (\<lambda>_. ''{}''), json_parse = (\<lambda>_. Some (JObj [(''name'', JStr ''new folder'')])),
     time_text = (\<lambda>_. None), time_parse = (\<lambda>_. None), uuid_valid = (\<lambda>s. s \<noteq> [])\<rparr>"

definition demo_handler_env :: handler_env where
  "demo_handler_env = \<lparr>he_codec = demo_codec, he_parse_time = (\<lambda>_. None), he_casing = (\<lambda>c. c), he_sha256 = (\<lambda>_. []),
     he_random = [], he_ids = (\<lambda>_. ''n-1''), he_now = 9, he_tnow = 9, he_deletion = True, he_db = True\<rparr>"

definition demo_request :: request where
  "demo_request = \<lparr>rq_method = ''POST'', rq_path = ''/internal/api/v1/folders'',
     rq_header = (\<lambda>h. if h = ''Authorization'' then ''Bearer secret'' else if h = ''X-User-Id'' then ''ann''
                      else if h = ''X-Org-Id'' then ''org'' else []),
     rq_query = [(''orgId'', ''org'')], rq_values = (\<lambda>_. []), rq_body = ''{}''\<rparr>"

definition demo_no_route :: "request \<Rightarrow> catalog \<Rightarrow> asset_response \<times> catalog" where
  "demo_no_route rq d = (writeError StatusNotFound ''BAD_REQUEST'', d)"

lemma tree_demo_tenant: "same_tenant tree_demo" unfolding same_tenant_def by code_simp

lemma requests_stay_in_their_organization_witness:
  "rs_status (fst (asset_service demo_handler_env ''secret'' demo_no_route demo_request tree_demo)) = 201
   \<and> answers_within ''org'' tree_demo (asset_service demo_handler_env ''secret'' demo_no_route demo_request tree_demo)"
proof
  show "rs_status (fst (asset_service demo_handler_env ''secret'' demo_no_route demo_request tree_demo)) = 201"
    by code_simp
  have "map_of (asset_routes demo_handler_env) (rq_path demo_request) = Some (HandleFolders demo_handler_env)"
    by (simp add: asset_routes_def demo_request_def)
  from requests_stay_in_their_organization [OF tree_demo_ok(1) tree_demo_tenant this, of "''secret''" demo_no_route]
  show "answers_within ''org'' tree_demo (asset_service demo_handler_env ''secret'' demo_no_route demo_request tree_demo)"
    by (simp add: demo_request_def)
qed

end
