(* ===== verification/Listing_Pages.thy ===== *)
theory Listing_Pages
  imports Tenant_Requests
begin

text \<open>
  Paging through a listing with a keyset cursor. A client that keeps asking for the page behind the last row it has
  seen, while nothing changes, gets every row of the listing exactly once and in order, whatever page size it uses;
  the search endpoint and the recycle bin endpoint both satisfy the contract.
\<close>

section \<open>The client of a paged listing\<close>

text \<open>One call gives the rows of a page and whether there are more; the next cursor is the last row.\<close>

fun walk_pages :: "('r option \<Rightarrow> ('r list \<times> bool) option) \<Rightarrow> nat \<Rightarrow> 'r option \<Rightarrow> 'r list option" where
  "walk_pages next 0 c = None"
| "walk_pages next (Suc k) c =
     (case next c of
        None \<Rightarrow> None
      | Some (rows, again) \<Rightarrow>
          if \<not> again then Some rows
          else if rows = [] then None
          else map_option (\<lambda>rest. rows @ rest) (walk_pages next k (Some (last rows))))"

lemma order_by_unique:
  assumes "distinct (map k xs)" and "set ys = set xs" and "distinct (map k ys)"
  shows "order_by k ys = order_by k xs"
proof -
  have "sorted (map k (sort_key k ys))" "sorted (map k (sort_key k xs))" by simp_all
  moreover have "distinct (map k (sort_key k ys))" "distinct (map k (sort_key k xs))"
    using assms(1,3) by (simp_all add: distinct_map)
  moreover have "set (map k (sort_key k ys)) = set (map k (sort_key k xs))" using assms(2) by simp
  ultimately have "map k (sort_key k ys) = map k (sort_key k xs)" by (intro sorted_distinct_set_unique)
  moreover have "inj_on k (set (sort_key k ys) \<union> set (sort_key k xs))"
    using assms(1,2) by (simp add: distinct_map)
  ultimately show ?thesis unfolding order_by_def by (metis map_inj_on)
qed

lemma order_by_strict:
  assumes "distinct (map k xs)"
  shows "sorted_wrt (\<lambda>x y. k x < k y) (order_by k xs)"
proof -
  have "sorted (map k (order_by k xs))" "distinct (map k (order_by k xs))"
    using assms by (simp_all add: order_by_def distinct_map)
  then have "sorted_wrt (<) (map k (order_by k xs))" by (simp add: strict_sorted_iff)
  then show ?thesis by (simp add: sorted_wrt_map)
qed

text \<open>What follows the last row of a page in a strictly sorted listing is the rest of the listing.\<close>

lemma rest_of_sorted:
  assumes "sorted_wrt (\<lambda>x y. (k x :: 'k::linorder) < k y) (front @ [r] @ rest)"
  shows "filter (\<lambda>y. k r < k y) (front @ [r] @ rest) = rest"
proof -
  have "\<not> k r < k y" if "y \<in> set front" for y using assms that by (auto simp: sorted_wrt_append)
  moreover have "k r < k y" if "y \<in> set rest" for y using assms that by (auto simp: sorted_wrt_append)
  ultimately have "filter (\<lambda>y. k r < k y) front = []" "filter (\<lambda>y. k r < k y) rest = rest"
    by (simp_all add: filter_empty_conv filter_id_conv)
  then show ?thesis by simp
qed

lemma page_of_take: "0 \<le> n \<Longrightarrow> page_of n (take (nat (n + 1)) rows) = (take (nat n) rows, n < int (length rows))"
  by (auto simp: page_of_def Let_def min_def nat_add_distrib)

section \<open>The contract of a paged endpoint\<close>

locale paged_listing =
  fixes rows :: "'r list" and key :: "'r \<Rightarrow> 'k::linorder" and page :: "'r option \<Rightarrow> int \<Rightarrow> ('r list \<times> bool) option"
    and largest :: int and usable :: bool
  assumes distinct_keys: "usable \<Longrightarrow> distinct (map key rows)"
    and first_page: "usable \<Longrightarrow> 0 < n \<Longrightarrow> n \<le> largest \<Longrightarrow> page None n = Some (page_of n (take (nat (n + 1)) (order_by key rows)))"
    and next_page: "usable \<Longrightarrow> 0 < n \<Longrightarrow> n \<le> largest \<Longrightarrow> r \<in> set rows
      \<Longrightarrow> page (Some r) n = Some (page_of n (take (nat (n + 1)) (filter (\<lambda>y. key r < key y) (order_by key rows))))"
begin

lemma walk_rest:
  assumes usable and n: "0 < n" "n \<le> largest" and split: "order_by key rows = front @ rest"
    and page: "page c n = Some (page_of n (take (nat (n + 1)) rest))" and fuel: "length rest < k"
  shows "walk_pages (\<lambda>c. page c n) k c = Some rest"
  using split page fuel
proof (induction k arbitrary: c front rest)
  case (Suc k)
  note page = Suc.prems(2) [unfolded page_of_take [OF less_imp_le [OF n(1)]]]
  show ?case
  proof (cases "n < int (length rest)")
    case False
    then show ?thesis using page by simp
  next
    case True
    let ?m = "nat n"
    have m: "0 < ?m" "?m < length rest" using n(1) True by auto
    define r where "r = rest ! (?m - 1)"
    have "take ?m rest = take (?m - 1) rest @ [r]"
      using m unfolding r_def by (metis Suc_diff_1 Suc_lessD Suc_pred' take_Suc_conv_app_nth less_imp_diff_less)
    note front = this
    then have last: "last (take ?m rest) = r" "take ?m rest \<noteq> []" by simp_all
    have "rest = take (?m - 1) rest @ [r] @ drop ?m rest"
      using front append_take_drop_id [of ?m rest] by (metis append.assoc)
    then have pieces: "order_by key rows = (front @ take (?m - 1) rest) @ [r] @ drop ?m rest"
      using Suc.prems(1) by (metis append.assoc)
    have mem: "r \<in> set rows" using arg_cong [OF pieces, of set] by (auto simp: order_by_def)
    have "filter (\<lambda>y. key r < key y) (order_by key rows) = drop ?m rest"
      using rest_of_sorted [of key "front @ take (?m - 1) rest" r "drop ?m rest"] order_by_strict [OF distinct_keys [OF assms(1)]] pieces
      by simp
    then have "page (Some r) n = Some (page_of n (take (nat (n + 1)) (drop ?m rest)))"
      using next_page [OF assms(1) n mem] by simp
    then have "walk_pages (\<lambda>c. page c n) k (Some r) = Some (drop ?m rest)"
      using pieces Suc.prems(3) m by (intro Suc.IH [of "front @ take (?m - 1) rest @ [r]"]) simp_all
    then show ?thesis using page True last by simp
  qed
qed simp

lemma walk_all:
  assumes usable and "0 < n" "n \<le> largest" and "length rows < k"
  shows "walk_pages (\<lambda>c. page c n) k None = Some (order_by key rows)"
  by (rule walk_rest [of n "[]" "order_by key rows"]) (use assms first_page in \<open>simp_all add: order_by_def\<close>)

end

section \<open>Query texts\<close>

lemma parse_format_nonneg:
  assumes "0 \<le> n" and "n \<le> 9223372036854775807"
  shows "parse_int64 (format_int n) = Some n"
proof -
  obtain c s where s: "digits_of (nat n) = c # s" by (cases "digits_of (nat n)") (auto simp: digits_of.simps [of "nat n"] split: if_splits)
  then have "digit_value c \<noteq> None" using digits_of_chars [of c "nat n"] by simp
  then have "c \<noteq> CHR ''-''" "c \<noteq> CHR ''+''" by (auto simp: digit_value_def byte_of_def)
  then show ?thesis
    using assms s parse_digits_of [of "nat n"] by (simp add: parse_int64_def format_int_def)
qed

lemma format_nonempty [simp]: "format_int n \<noteq> []"
  by (auto simp: format_int_def digits_of.simps [of "nat n"])

section \<open>The recycle bin\<close>

text \<open>What a client sends: the organization, a page size and, behind the first page, the cursor of the last entry.\<close>

definition bin_page_query :: "(instant \<Rightarrow> string) \<Rightarrow> string \<Rightarrow> bin_entry option \<Rightarrow> int \<Rightarrow> request" where
  "bin_page_query tt org c n =
     \<lparr>rq_method = ''GET'', rq_path = ''/internal/api/v1/recycle-bin'', rq_header = (\<lambda>_. []),
      rq_query = [(''orgId'', org), (''limit'', format_int n)]
        @ (case c of None \<Rightarrow> []
           | Some b \<Rightarrow> [(''afterDeletedAt'', tt (be_deleted_at b)), (''afterId'', be_unit b)]),
      rq_values = (\<lambda>_. []), rq_body = []\<rparr>"

definition bin_page ::
  "handler_env \<Rightarrow> (instant \<Rightarrow> string) \<Rightarrow> actor \<Rightarrow> catalog \<Rightarrow> bin_entry option \<Rightarrow> int \<Rightarrow> (bin_entry list \<times> bool) option" where
  "bin_page he tt ac d c n =
     (case rs_body (fst (HandleRecycleBin he (Some ac) (bin_page_query tt (ac_org ac) c n) d)) of
        Body (EntriesReply es again) \<Rightarrow> Some (es, again) | _ \<Rightarrow> None)"

text \<open>Times travel as texts that the service reads back, and unit identifiers are UUIDs.\<close>

definition bin_usable :: "handler_env \<Rightarrow> (instant \<Rightarrow> string) \<Rightarrow> actor \<Rightarrow> catalog \<Rightarrow> bool" where
  "bin_usable he tt ac d \<longleftrightarrow> catalog_ok d \<and> ac_org ac \<noteq> []
     \<and> (\<forall>b\<in>set (bin_candidates (ac_org ac) d).
          he_parse_time he (tt (be_deleted_at b)) = Some (be_deleted_at b) \<and> valid_uuid he (be_unit b))"

lemma query_simps [simp]:
  "query_all (rq\<lparr>rq_query := q\<rparr>) k = map snd (filter (\<lambda>p. fst p = k) q)"
  by (simp add: query_all_def)

lemma bin_queries:
  "query_get (bin_page_query tt org c n) ''orgId'' = org" "query_has (bin_page_query tt org c n) ''limit''"
  "query_get (bin_page_query tt org c n) ''limit'' = format_int n" "rq_method (bin_page_query tt org c n) = ''GET''"
  "query_has (bin_page_query tt org c n) ''afterDeletedAt'' \<longleftrightarrow> c \<noteq> None"
  "query_has (bin_page_query tt org c n) ''afterId'' \<longleftrightarrow> c \<noteq> None"
  "query_get (bin_page_query tt org (Some b) n) ''afterDeletedAt'' = tt (be_deleted_at b)"
  "query_get (bin_page_query tt org (Some b) n) ''afterId'' = be_unit b"
  by (auto simp: bin_page_query_def query_get_def query_has_def query_all_def split: option.splits)

lemma bin_page_eq:
  assumes "0 < n" "n \<le> 101" and "ac_org ac \<noteq> []"
    and "case c of None \<Rightarrow> True | Some b \<Rightarrow> he_parse_time he (tt (be_deleted_at b)) = Some (be_deleted_at b) \<and> valid_uuid he (be_unit b)"
    and "ListRecycleBinEntries (ac_org ac) \<lparr>bf_limit = n + 1, bf_after_deleted = map_option be_deleted_at c,
           bf_after_unit = map_option be_unit c\<rparr> d = Inr es"
  shows "bin_page he tt ac d c n = Some (page_of n es)"
proof -
  let ?rq = "bin_page_query tt (ac_org ac) c n"
  have limit: "bin_limit ?rq = Some n"
    using assms(1,2) by (simp add: bin_limit_def bin_queries parse_format_nonneg maxCursorCandidateBatchSize_def)
  have cursor: "cursor_of he ''afterDeletedAt'' ?rq = Some (map_option (\<lambda>b. (be_deleted_at b, be_unit b)) c)"
    using assms(4) by (cases c) (simp_all add: cursor_of_def bin_queries)
  have "usecase_ListRecycleBinEntries (ac_org ac) \<lparr>bf_limit = n + 1,
      bf_after_deleted = map_option fst (map_option (\<lambda>b. (be_deleted_at b, be_unit b)) c),
      bf_after_unit = map_option snd (map_option (\<lambda>b. (be_deleted_at b, be_unit b)) c)\<rparr> d = Inr es"
    using assms(1,2,5) by (simp add: usecase_ListRecycleBinEntries_def maxCursorDatabaseFetchLimit_def option.map_comp comp_def)
  then show ?thesis
    using assms(3) limit cursor
    by (simp add: bin_page_def HandleRecycleBin_def with_actor_def refuse_when_def own_org_def bin_queries Let_def
        cursorDatabaseLookaheadRowCount_def replied_def bin_reply_def writeJSON_def split: prod.split)
qed

lemma distinct_units:
  assumes "catalog_ok d"
  shows "distinct (map be_unit (bin_candidates org d))"
proof -
  have "map be_unit (List.map_filter (recycleBinCandidate org d) us) = map lu_id (filter (\<lambda>u. recycleBinCandidate org d u \<noteq> None) us)" for us
    by (induction us) (auto simp: List.map_filter_simps split: option.split dest: candidate_org)
  then show ?thesis using distinct_ids(3) [OF assms] by (simp add: bin_candidates_def distinct_map_filter)
qed

lemma distinct_candidates:
  assumes "catalog_ok d"
  shows "distinct (map bin_order (bin_candidates org d))"
proof -
  have "be_unit = snd \<circ> bin_order" by (auto simp: bin_order_def)
  then show ?thesis using distinct_units [OF assms] by (metis distinct_map map_map)
qed

lemma candidate_unit:
  assumes "b \<in> set (bin_candidates org d)"
  shows "sql_exists (\<lambda>u. lu_id u = be_unit b \<and> lu_org u = org \<and> lu_state u = LifecycleDeleted
           \<and> lu_delete_completed_at u = Some (be_deleted_at b)) (c_units d)"
proof -
  obtain u where u: "u \<in> set (c_units d)" "recycleBinCandidate org d u = Some b"
    using assms by (auto simp: bin_candidates_def List.map_filter_def)
  have "lu_id u = be_unit b \<and> lu_org u = org \<and> lu_state u = LifecycleDeleted \<and> lu_delete_completed_at u = Some (be_deleted_at b)"
    using u(2) by (auto simp: recycleBinCandidate_def Let_def split: if_splits option.splits)
  then show ?thesis using u(1) unfolding sql_exists_iff by blast
qed

lemma order_by_filter: "order_by k (filter P xs) = filter P (order_by k xs)"
  by (simp add: order_by_def filter_sort)

text \<open>The two ranges behind a cursor, merged, are what follows the cursor in the order of the listing.\<close>

lemma merged_ranges:
  fixes t :: "'r \<Rightarrow> int" and i :: "'r \<Rightarrow> string"
  assumes "distinct (map (\<lambda>r. (- t r, i r)) rows)"
  shows "order_by (\<lambda>r. (- t r, i r)) (filter (\<lambda>y. t y = t x \<and> i x < i y) rows @ filter (\<lambda>y. t y < t x) rows)
    = filter (\<lambda>y. (- t x, i x) < (- t y, i y)) (order_by (\<lambda>r. (- t r, i r)) rows)"
proof -
  let ?k = "\<lambda>r. (- t r, i r)"
  have "order_by ?k (filter (\<lambda>y. t y = t x \<and> i x < i y) rows @ filter (\<lambda>y. t y < t x) rows)
      = order_by ?k (filter (\<lambda>y. ?k x < ?k y) rows)"
  proof (rule order_by_unique)
    have d: "distinct (map ?k (filter P rows))" for P using assms by (rule distinct_map_filter)
    show "distinct (map ?k (filter (\<lambda>y. ?k x < ?k y) rows))" by (rule d)
    show "distinct (map ?k (filter (\<lambda>y. t y = t x \<and> i x < i y) rows @ filter (\<lambda>y. t y < t x) rows))"
      using d by auto
    show "set (filter (\<lambda>y. t y = t x \<and> i x < i y) rows @ filter (\<lambda>y. t y < t x) rows)
        = set (filter (\<lambda>y. ?k x < ?k y) rows)" by auto
  qed
  then show ?thesis by (simp only: order_by_filter)
qed

interpretation bin: paged_listing "bin_candidates (ac_org ac) d" bin_order "bin_page he tt ac d" 101 "bin_usable he tt ac d"
  for he tt ac d
proof
  let ?rows = "bin_candidates (ac_org ac) d"
  assume "bin_usable he tt ac d"
  then have ok: "catalog_ok d" and org: "ac_org ac \<noteq> []"
    and texts: "\<And>b. b \<in> set ?rows \<Longrightarrow> he_parse_time he (tt (be_deleted_at b)) = Some (be_deleted_at b) \<and> valid_uuid he (be_unit b)"
    by (auto simp: bin_usable_def)
  show "distinct (map bin_order ?rows)" by (rule distinct_candidates [OF ok])
  fix n :: int
  assume n: "0 < n" "n \<le> 101"
  show "bin_page he tt ac d None n = Some (page_of n (take (nat (n + 1)) (order_by bin_order ?rows)))"
    by (rule bin_page_eq [OF n org]) (simp_all add: ListRecycleBinEntries_def)
  fix b assume b: "b \<in> set ?rows"
  have "ListRecycleBinEntries (ac_org ac) \<lparr>bf_limit = n + 1, bf_after_deleted = map_option be_deleted_at (Some b),
           bf_after_unit = map_option be_unit (Some b)\<rparr> d
      = Inr (take (nat (n + 1)) (filter (\<lambda>y. bin_order b < bin_order y) (order_by bin_order ?rows)))"
    using candidate_unit [OF b] merged_ranges [of be_deleted_at be_unit ?rows b] distinct_candidates [OF ok]
    by (simp add: ListRecycleBinEntries_def bin_order_def [abs_def] Let_def)
  then show "bin_page he tt ac d (Some b) n
      = Some (page_of n (take (nat (n + 1)) (filter (\<lambda>y. bin_order b < bin_order y) (order_by bin_order ?rows))))"
    by (rule bin_page_eq [OF n org, rotated]) (use texts [OF b] in simp)
qed

text \<open>C18: A client that follows the pages of the recycle bin endpoint, with any page size from 1 to 101 and while the
tables do not change, receives every recycle bin entry of its organization exactly once, newest deletion first.\<close>

theorem recycle_bin_pages_are_complete:
  assumes "bin_usable he tt ac d" and "0 < n" "n \<le> 101" and "length (bin_candidates (ac_org ac) d) < k"
  shows "walk_pages (\<lambda>c. bin_page he tt ac d c n) k None = Some (order_by bin_order (bin_candidates (ac_org ac) d))
    \<and> distinct (map be_unit (order_by bin_order (bin_candidates (ac_org ac) d)))"
proof
  show "walk_pages (\<lambda>c. bin_page he tt ac d c n) k None = Some (order_by bin_order (bin_candidates (ac_org ac) d))"
    by (rule bin.walk_all [OF assms])
  have "catalog_ok d" using assms(1) by (simp add: bin_usable_def)
  then have "distinct (map be_unit (bin_candidates (ac_org ac) d))" by (rule distinct_units)
  then show "distinct (map be_unit (order_by bin_order (bin_candidates (ac_org ac) d)))"
    by (simp add: order_by_def distinct_map)
qed

section \<open>Keyset search\<close>

definition search_page_query :: "(instant \<Rightarrow> string) \<Rightarrow> string \<Rightarrow> string \<Rightarrow> item option \<Rightarrow> int \<Rightarrow> request" where
  "search_page_query tt org fid c n =
     \<lparr>rq_method = ''GET'', rq_path = ''/internal/api/v1/metadata-items/search'', rq_header = (\<lambda>_. []),
      rq_query = [(''orgId'', org), (''folderId'', fid), (''cursor'', ''true''), (''limit'', format_int n)]
        @ (case c of None \<Rightarrow> []
           | Some x \<Rightarrow> [(''afterUpdatedAt'', tt (it_updated_at x)), (''afterId'', it_id x)]),
      rq_values = (\<lambda>_. []), rq_body = []\<rparr>"

definition search_page ::
  "handler_env \<Rightarrow> (instant \<Rightarrow> string) \<Rightarrow> actor \<Rightarrow> string \<Rightarrow> catalog \<Rightarrow> item option \<Rightarrow> int \<Rightarrow> (item list \<times> bool) option" where
  "search_page he tt ac fid d c n =
     (case rs_body (fst (HandleSearchMetadataItems he (Some ac) (search_page_query tt (ac_org ac) fid c n) d)) of
        Body (ItemsReply xs (Some again)) \<Rightarrow> Some (xs, again) | _ \<Rightarrow> None)"

text \<open>The listing: the visible items of the folder.\<close>

definition folder_listing :: "string \<Rightarrow> string \<Rightarrow> catalog \<Rightarrow> item list" where
  "folder_listing org fid d = filter (\<lambda>x. item_in_org d org x \<and> visible_item d x \<and> it_folder x = fid) (c_items d)"

definition search_usable :: "handler_env \<Rightarrow> (instant \<Rightarrow> string) \<Rightarrow> actor \<Rightarrow> string \<Rightarrow> catalog \<Rightarrow> bool" where
  "search_usable he tt ac fid d \<longleftrightarrow> catalog_ok d \<and> ac_org ac \<noteq> [] \<and> fid \<noteq> [] \<and> trim_space fid = fid \<and> valid_uuid he fid
     \<and> (\<forall>x\<in>set (folder_listing (ac_org ac) fid d).
          he_parse_time he (tt (it_updated_at x)) = Some (it_updated_at x) \<and> valid_uuid he (it_id x))"

lemma search_queries:
  "query_get (search_page_query tt org fid c n) ''orgId'' = org" "query_get (search_page_query tt org fid c n) ''folderId'' = fid"
  "query_has (search_page_query tt org fid c n) ''folderId''" "query_get (search_page_query tt org fid c n) ''cursor'' = ''true''"
  "query_get (search_page_query tt org fid c n) ''limit'' = format_int n" "query_get (search_page_query tt org fid c n) ''offset'' = []"
  "\<not> query_has (search_page_query tt org fid c n) ''query''" "\<not> query_has (search_page_query tt org fid c n) ''category''"
  "\<not> query_has (search_page_query tt org fid c n) ''externalSource''" "query_all (search_page_query tt org fid c n) ''label'' = []"
  "rq_method (search_page_query tt org fid c n) = ''GET''"
  "query_has (search_page_query tt org fid c n) ''afterUpdatedAt'' \<longleftrightarrow> c \<noteq> None"
  "query_has (search_page_query tt org fid c n) ''afterId'' \<longleftrightarrow> c \<noteq> None"
  "query_get (search_page_query tt org fid (Some x) n) ''afterUpdatedAt'' = tt (it_updated_at x)"
  "query_get (search_page_query tt org fid (Some x) n) ''afterId'' = it_id x"
  by (auto simp: search_page_query_def query_get_def query_has_def query_all_def split: option.splits)

definition page_filter :: "string \<Rightarrow> item option \<Rightarrow> int \<Rightarrow> search_filter" where
  "page_filter fid c n =
     \<lparr>sf_folder = Some fid, sf_query = None, sf_labels = [], sf_category = None, sf_external_source = None,
      sf_limit = n + 1, sf_offset = 0, sf_keyset = True, sf_after_updated = map_option it_updated_at c,
      sf_after_id = map_option it_id c\<rparr>"

lemma page_filter_accepted:
  assumes "0 < n" "n \<le> 101" "fid \<noteq> []" "trim_space fid = fid"
  shows "search_request (page_filter fid c n) = Inr (page_filter fid c n)"
  using assms
  by (cases c) (simp_all add: search_request_def page_filter_def keyset_request_def trimmed_filter_def trimmed_query_def
      normalizeLabels_def maxCursorDatabaseFetchLimit_def)

lemma page_filter_matches:
  "filter (search_matches casing org (page_filter fid c n) d) (c_items d) = folder_listing org fid d"
  by (simp add: folder_listing_def search_matches_def [abs_def] page_filter_def cong: filter_cong)

lemma search_page_eq:
  assumes "0 < n" "n \<le> 101" and "ac_org ac \<noteq> []" "fid \<noteq> []" "trim_space fid = fid" "valid_uuid he fid"
    and "case c of None \<Rightarrow> True | Some x \<Rightarrow> he_parse_time he (tt (it_updated_at x)) = Some (it_updated_at x) \<and> valid_uuid he (it_id x)"
    and "SearchMetadataItems (he_casing he) (ac_org ac) (page_filter fid c n) d = Inr xs"
  shows "search_page he tt ac fid d c n = Some (page_of n xs)"
proof -
  let ?rq = "search_page_query tt (ac_org ac) fid c n"
  have cursor: "cursor_of he ''afterUpdatedAt'' ?rq = Some (map_option (\<lambda>x. (it_updated_at x, it_id x)) c)"
    using assms(7) by (cases c) (simp_all add: cursor_of_def search_queries)
  have numbers: "query_int ?rq ''limit'' 50 = Some n" "query_int ?rq ''offset'' 0 = Some 0"
    using assms(1,2) by (simp_all add: query_int_def search_queries parse_format_nonneg)
  have flt: "search_filter_of ?rq n 0\<lparr>sf_after_updated := map_option fst (map_option (\<lambda>x. (it_updated_at x, it_id x)) c),
      sf_after_id := map_option snd (map_option (\<lambda>x. (it_updated_at x, it_id x)) c), sf_limit := n + 1\<rparr> = page_filter fid c n"
    by (simp add: search_filter_of_def page_filter_def query_opt_def search_queries internalCursorMode_def option.map_comp comp_def)
  have mode: "sf_keyset (search_filter_of ?rq n 0)" "sf_keyset (page_filter fid c n)"
    by (simp_all add: search_filter_of_def page_filter_def search_queries internalCursorMode_def)
  have run: "usecase_SearchMetadataItems (he_casing he) (ac_org ac) (page_filter fid c n) d = Inr xs"
    using page_filter_accepted [OF assms(1,2,4,5)] assms(8) by (simp add: usecase_SearchMetadataItems_def)
  have "HandleSearchMetadataItems he (Some ac) ?rq d = run_search he (ac_org ac) (page_filter fid c n) n d"
    using assms(1-4,6) cursor numbers mode(1) flt
    by (simp add: HandleSearchMetadataItems_def with_actor_def refuse_when_def own_org_def search_queries Let_def
        maxCursorCandidateBatchSize_def cursorDatabaseLookaheadRowCount_def)
  then show ?thesis
    using run mode(2)
    by (simp add: search_page_def run_search_def replied_def search_reply_def writeJSON_def Let_def split: prod.split)
qed

lemma distinct_listing:
  assumes "catalog_ok d"
  shows "distinct (map it_id (folder_listing org fid d))" "distinct (map item_order (folder_listing org fid d))"
proof -
  show ids: "distinct (map it_id (folder_listing org fid d))"
    using distinct_ids(2) [OF assms] by (simp add: folder_listing_def distinct_map_filter)
  have "it_id = snd \<circ> item_order" by (auto simp: item_order_def)
  then show "distinct (map item_order (folder_listing org fid d))" using ids by (metis distinct_map map_map)
qed

interpretation search: paged_listing "folder_listing (ac_org ac) fid d" item_order "search_page he tt ac fid d" 101
    "search_usable he tt ac fid d"
  for he tt ac fid d
proof
  let ?rows = "folder_listing (ac_org ac) fid d"
  assume "search_usable he tt ac fid d"
  then have ok: "catalog_ok d" and org: "ac_org ac \<noteq> []" "fid \<noteq> []" "trim_space fid = fid" "valid_uuid he fid"
    and texts: "\<And>x. x \<in> set ?rows \<Longrightarrow> he_parse_time he (tt (it_updated_at x)) = Some (it_updated_at x) \<and> valid_uuid he (it_id x)"
    by (auto simp: search_usable_def)
  show dist: "distinct (map item_order ?rows)" by (rule distinct_listing [OF ok])
  fix n :: int
  assume n: "0 < n" "n \<le> 101"
  show "search_page he tt ac fid d None n = Some (page_of n (take (nat (n + 1)) (order_by item_order ?rows)))"
    by (rule search_page_eq [OF n org])
       (simp_all add: SearchMetadataItems_def Let_def page_filter_matches, simp add: page_filter_def)
  fix x assume x: "x \<in> set ?rows"
  have "sql_exists (\<lambda>y. it_id y = it_id x \<and> it_updated_at y = it_updated_at x \<and> it_folder y = fid
      \<and> item_in_org d (ac_org ac) y \<and> visible_item d y) (c_items d)"
    using x by (auto simp: folder_listing_def sql_exists_iff)
  then have "SearchMetadataItems (he_casing he) (ac_org ac) (page_filter fid (Some x) n) d
      = Inr (take (nat (n + 1)) (filter (\<lambda>y. item_order x < item_order y) (order_by item_order ?rows)))"
    using merged_ranges [of it_updated_at it_id ?rows x] dist
    by (simp add: SearchMetadataItems_def Let_def page_filter_matches) (simp add: page_filter_def item_order_def [abs_def])
  then show "search_page he tt ac fid d (Some x) n
      = Some (page_of n (take (nat (n + 1)) (filter (\<lambda>y. item_order x < item_order y) (order_by item_order ?rows))))"
    by (rule search_page_eq [OF n org, rotated]) (use texts [OF x] in simp)
qed

text \<open>C19: A client that follows the keyset pages of the search endpoint through a folder, with any page size from 1 to
101 and while the tables do not change, receives every visible item of the folder exactly once, latest change first.\<close>

theorem search_pages_are_complete:
  assumes "search_usable he tt ac fid d" and "0 < n" "n \<le> 101" and "length (folder_listing (ac_org ac) fid d) < k"
  shows "walk_pages (\<lambda>c. search_page he tt ac fid d c n) k None = Some (order_by item_order (folder_listing (ac_org ac) fid d))
    \<and> distinct (map it_id (order_by item_order (folder_listing (ac_org ac) fid d)))"
proof
  show "walk_pages (\<lambda>c. search_page he tt ac fid d c n) k None = Some (order_by item_order (folder_listing (ac_org ac) fid d))"
    by (rule search.walk_all [OF assms])
  have "catalog_ok d" using assms(1) by (simp add: search_usable_def)
  then show "distinct (map it_id (order_by item_order (folder_listing (ac_org ac) fid d)))"
    using distinct_listing(1) [of d "ac_org ac" fid] by (simp add: order_by_def distinct_map)
qed

section \<open>Concrete listings\<close>

definition demo_actor :: actor where
  "demo_actor = \<lparr>ac_user = ''ann'', ac_org = ''org'', ac_admin = False\<rparr>"

definition demo_time_env :: handler_env where
  "demo_time_env = demo_handler_env\<lparr>he_parse_time := parse_int64\<rparr>"

definition demo_bin_catalog :: catalog where
  "demo_bin_catalog = snd (DeleteFolder ''u3'' 8 8 ''org'' ''ann'' ''s'' (snd demo_delete))"

lemma demo_bin_usable: "bin_usable demo_time_env format_int demo_actor demo_bin_catalog"
  unfolding bin_usable_def by (intro conjI; code_simp)

lemma recycle_bin_pages_are_complete_witness:
  "map_option (map be_resource) (walk_pages (\<lambda>c. bin_page demo_time_env format_int demo_actor demo_bin_catalog c 1) 3 None)
     = Some [''t'', ''s'']"
proof -
  have "length (bin_candidates (ac_org demo_actor) demo_bin_catalog) < 3" by code_simp
  then have "walk_pages (\<lambda>c. bin_page demo_time_env format_int demo_actor demo_bin_catalog c 1) 3 None
      = Some (order_by bin_order (bin_candidates (ac_org demo_actor) demo_bin_catalog))"
    using recycle_bin_pages_are_complete [OF demo_bin_usable, of 1 3] by simp
  moreover have "map be_resource (order_by bin_order (bin_candidates (ac_org demo_actor) demo_bin_catalog)) = [''t'', ''s'']"
    by code_simp
  ultimately show ?thesis by simp
qed

definition demo_item_row :: "string \<Rightarrow> instant \<Rightarrow> item" where
  "demo_item_row i t = new_item_row i t ''ann''
     \<lparr>ci_folder = ''t'', ci_title = ''picture'', ci_description = None, ci_labels = [], ci_category = None,
      ci_external_source = None, ci_external_id = None, ci_source_url = None, ci_thumbnail_url = None,
      ci_license = None, ci_author = None, ci_json = ''{}'', ci_notes = None\<rparr>"

definition demo_search_catalog :: catalog where
  "demo_search_catalog = tree_demo\<lparr>c_items := [demo_item_row ''p'' 5, demo_item_row ''q'' 5, demo_item_row ''r'' 7]\<rparr>"

lemma demo_search_usable: "search_usable demo_time_env format_int demo_actor ''t'' demo_search_catalog"
  unfolding search_usable_def by (intro conjI; code_simp)

lemma search_pages_are_complete_witness:
  "map_option (map it_id) (walk_pages (\<lambda>c. search_page demo_time_env format_int demo_actor ''t'' demo_search_catalog c 1) 4 None)
     = Some [''r'', ''p'', ''q'']"
proof -
  have "length (folder_listing (ac_org demo_actor) ''t'' demo_search_catalog) < 4" by code_simp
  then have "walk_pages (\<lambda>c. search_page demo_time_env format_int demo_actor ''t'' demo_search_catalog c 1) 4 None
      = Some (order_by item_order (folder_listing (ac_org demo_actor) ''t'' demo_search_catalog))"
    using search_pages_are_complete [OF demo_search_usable, of 1 4] by simp
  moreover have "map it_id (order_by item_order (folder_listing (ac_org demo_actor) ''t'' demo_search_catalog)) = [''r'', ''p'', ''q'']"
    by code_simp
  ultimately show ?thesis by simp
qed

end
