(* ===== verification/Reply_Contract.thy ===== *)
theory Reply_Contract
  imports Tenant_Requests
begin

text \<open>
  The shape of every reply of the asset endpoints: an error body is an entry of the shared table under an error
  status, and a request that is answered with an error has changed nothing.
\<close>

definition error_reply :: "asset_response \<Rightarrow> bool" where
  "error_reply rs \<longleftrightarrow> (\<exists>e\<in>set errorCodes. rs_body rs = ErrorBody e) \<and> 400 \<le> rs_status rs \<and> rs_status rs \<le> 599"

definition success_reply :: "asset_response \<Rightarrow> bool" where
  "success_reply rs \<longleftrightarrow> (\<forall>e. rs_body rs \<noteq> ErrorBody e) \<and> rs_status rs \<in> {200, 201, 202, 204}"

definition sound_reply :: "catalog \<Rightarrow> asset_response \<times> catalog \<Rightarrow> bool" where
  "sound_reply d r \<longleftrightarrow> error_reply (fst r) \<and> snd r = d \<or> success_reply (fst r)"

lemma error_replies [simp]:
  "400 \<le> st \<Longrightarrow> st \<le> 599 \<Longrightarrow> error_reply (writeError st c)" "400 \<le> st \<Longrightarrow> st \<le> 599 \<Longrightarrow> error_reply (writeLegacyError m st)"
  "error_reply missing_actor" "error_reply wrong_method" "error_reply wrong_org" "error_reply bad_request"
  "error_reply cursor_invalid" "error_reply (legacy_bad m)" "error_reply (database_error e)" "error_reply (no_record es e)"
  by (simp_all add: error_reply_def writeError_def writeLegacyError_def missing_actor_def wrong_method_def wrong_org_def
      bad_request_def cursor_invalid_def legacy_bad_def database_error_def no_record_def status_codes lookupErrorCode_listed)

lemma domain_error_replies [simp]:
  "error_reply (mapDomainError e c)" "error_reply (domain_error e)" "error_reply (metadata_error e)"
  by (simp_all add: mapDomainError_def domain_error_def metadata_error_def status_codes split: catalog_error.split)

lemma success_replies [simp]:
  "success_reply (writeJSON StatusOK p)" "success_reply (writeJSON StatusCreated p)" "success_reply (writeJSON StatusAccepted p)"
  "success_reply no_content" "success_reply (folder_reply f)" "success_reply (folders_reply fs)" "success_reply (item_reply x)"
  "success_reply (search_reply ks n xs)" "success_reply (bin_reply n bs)"
  by (simp_all add: success_reply_def writeJSON_def no_content_def folder_reply_def folders_reply_def item_reply_def
      search_reply_def bin_reply_def status_codes Let_def split: prod.split)

text \<open>An operation that fails leaves the tables alone.\<close>

definition atomic :: "catalog \<Rightarrow> 'a reply \<times> catalog \<Rightarrow> bool" where
  "atomic d r \<longleftrightarrow> (\<forall>e. fst r = Inl e \<longrightarrow> snd r = d)"

lemma atomic_intros:
  "atomic d (transaction work d)" "atomic d (r, d)"
  "(\<And>i. v = Inr i \<Longrightarrow> atomic d (call i d)) \<Longrightarrow> atomic d (after_validation v call d)"
  by (auto simp: atomic_def transaction_def after_validation_def split: sum.splits)

lemma sound_replied:
  "atomic d r \<Longrightarrow> (\<And>e. error_reply (failed e)) \<Longrightarrow> (\<And>x. success_reply (ok x)) \<Longrightarrow> sound_reply d (replied failed ok r)"
  by (auto simp: sound_reply_def atomic_def replied_def split: sum.split)

lemma sound_cases:
  "(c \<Longrightarrow> sound_reply d r) \<Longrightarrow> (\<not> c \<Longrightarrow> sound_reply d s) \<Longrightarrow> sound_reply d (if c then r else s)"
  "sound_reply d r \<Longrightarrow> (\<And>x. sound_reply d (f x)) \<Longrightarrow> sound_reply d (case v of None \<Rightarrow> r | Some x \<Rightarrow> f x)"
  "sound_reply d (g y) \<Longrightarrow> sound_reply d (Let y g)"
  "(\<And>a b. sound_reply d (h a b)) \<Longrightarrow> sound_reply d (case q of (a, b) \<Rightarrow> h a b)"
  by (auto split: option.split prod.split)

lemma sound_leaves: "error_reply rs \<Longrightarrow> sound_reply d (rs, d)" "success_reply rs \<Longrightarrow> sound_reply d (rs, d)"
  by (simp_all add: sound_reply_def)

lemma sound_guards:
  "error_reply rs \<Longrightarrow> sound_reply d (k d) \<Longrightarrow> sound_reply d (refuse_when c rs k d)"
  "(\<And>ac. sound_reply d (k' ac d)) \<Longrightarrow> sound_reply d (with_actor a k' d)"
  by (auto simp: refuse_when_def with_actor_def sound_reply_def split: option.split)

lemma sound_requests:
  "(\<And>g. sound_reply d (k g d)) \<Longrightarrow> sound_reply d (own_org ac rq k d)"
  "(\<And>g i. sound_reply d (k2 g i d)) \<Longrightarrow> sound_reply d (row_of_request he m ac rq k2 d)"
  "(\<And>g i. sound_reply d (k2 g i d)) \<Longrightarrow> sound_reply d (requireDeletionOrgAndID he rq ac key k2 d)"
  "(\<And>ac. sound_reply d (k1 ac d)) \<Longrightarrow> sound_reply d (folderDeletionActor he a k1 d)"
  "(\<And>g u i. sound_reply d (k3 g u i d)) \<Longrightarrow> sound_reply d (restore_request he m a rq k3 d)"
  "(\<And>g u i. sound_reply d (k3 g u i d)) \<Longrightarrow> sound_reply d (unit_request he m key a rq k3 d)"
  by (simp_all add: own_org_def row_of_request_def requireDeletionOrgAndID_def folderDeletionActor_def restore_request_def
      unit_request_def Let_def sound_guards status_codes)

lemmas sound_intros = sound_requests sound_guards sound_cases sound_replied atomic_intros

lemma folder_endpoints_sound:
  "sound_reply d (handleGetFolders he ac rq d)" "sound_reply d (handleCreateFolder he ac rq d)"
  "sound_reply d (handleUpdateFolder he ac rq d)" "sound_reply d (handleDeleteFolder he ac rq d)"
  "sound_reply d (HandleRestoreFolder he a rq d)" "sound_reply d (HandleMoveFolder he a rq d)"
  "sound_reply d (HandleFolderFacts he a rq d)" "sound_reply d (HandleFolderRestoreAuthorizationFact he a rq d)"
proof -
  have list: "sound_reply d (list_folders rq org d)" for org
    unfolding list_folders_def by (intro sound_intros) (simp_all add: sound_leaves)
  show "sound_reply d (handleGetFolders he ac rq d)"
    unfolding handleGetFolders_def Let_def
    by (rule sound_guards) (auto split: list.split intro!: sound_intros list simp: sound_leaves)
  show "sound_reply d (handleCreateFolder he ac rq d)"
    unfolding handleCreateFolder_def usecase_CreateFolder_def CreateFolder_def
    by (intro sound_intros) (simp_all add: sound_leaves)
  show "sound_reply d (handleUpdateFolder he ac rq d)"
    unfolding handleUpdateFolder_def usecase_UpdateFolder_def UpdateFolder_def
    by (intro sound_intros) (simp_all add: sound_leaves)
  show "sound_reply d (handleDeleteFolder he ac rq d)"
    unfolding handleDeleteFolder_def DeleteFolder_def by (intro sound_intros) (simp_all add: sound_leaves)
  show "sound_reply d (HandleRestoreFolder he a rq d)"
    unfolding HandleRestoreFolder_def RestoreFolder_def by (intro sound_intros) (simp_all add: sound_leaves)
  show "sound_reply d (HandleMoveFolder he a rq d)"
    unfolding HandleMoveFolder_def MoveFolder_def by (intro sound_intros) (simp_all add: sound_leaves split: prod.split)
  show "sound_reply d (HandleFolderFacts he a rq d)"
    unfolding HandleFolderFacts_def Let_def by (intro sound_intros) (simp_all add: sound_leaves)
  show "sound_reply d (HandleFolderRestoreAuthorizationFact he a rq d)"
    unfolding HandleFolderRestoreAuthorizationFact_def by (intro sound_intros) (simp_all add: sound_leaves)
qed

lemma item_endpoints_sound:
  "sound_reply d (handleGetMetadataItems he ac rq d)" "sound_reply d (handleCreateMetadataItem he ac rq d)"
  "sound_reply d (handleUpdateMetadataItem he ac rq d)" "sound_reply d (handleDeleteMetadataItem he ac rq d)"
  "sound_reply d (HandleRestoreMetadataItem he a rq d)" "sound_reply d (HandleSearchMetadataItems he a rq d)"
  "sound_reply d (HandleMetadataRestoreAuthorizationFact he a rq d)"
proof -
  show "sound_reply d (handleGetMetadataItems he ac rq d)"
    unfolding handleGetMetadataItems_def by (intro sound_intros) (simp_all add: sound_leaves)
  show "sound_reply d (handleCreateMetadataItem he ac rq d)"
    unfolding handleCreateMetadataItem_def usecase_CreateMetadataItem_def CreateMetadataItem_def
    by (intro sound_intros) (simp_all add: sound_leaves)
  show "sound_reply d (handleUpdateMetadataItem he ac rq d)"
    unfolding handleUpdateMetadataItem_def usecase_UpdateMetadataItem_def UpdateMetadataItem_def
    by (intro sound_intros) (simp_all add: sound_leaves)
  show "sound_reply d (handleDeleteMetadataItem he ac rq d)"
    unfolding handleDeleteMetadataItem_def DeleteMetadataItem_def by (intro sound_intros) (simp_all add: sound_leaves)
  show "sound_reply d (HandleRestoreMetadataItem he a rq d)"
    unfolding HandleRestoreMetadataItem_def RestoreMetadataItem_def by (intro sound_intros) (simp_all add: sound_leaves)
  show "sound_reply d (HandleSearchMetadataItems he a rq d)"
    unfolding HandleSearchMetadataItems_def run_search_def Let_def by (intro sound_intros) (simp_all add: sound_leaves)
  show "sound_reply d (HandleMetadataRestoreAuthorizationFact he a rq d)"
    unfolding HandleMetadataRestoreAuthorizationFact_def by (intro sound_intros) (simp_all add: sound_leaves)
qed

lemma unit_endpoints_sound:
  "sound_reply d (HandleRecycleBin he a rq d)" "sound_reply d (HandleLifecycleRestoreAuthorizationFact he a rq d)"
  "sound_reply d (HandleQueueLifecycleRestore he a rq d)" "sound_reply d (HandleLifecycleJob he a rq d)"
  "sound_reply d (HandleFolderDeletionPreview he a rq d)" "sound_reply d (HandleFolderDeletionConfirm he a rq d)"
  "sound_reply d (HandleFolderDeletionJob he a rq d)" "sound_reply d (mutateFolderDeletionJob he retry a rq d)"
proof -
  show "sound_reply d (HandleRecycleBin he a rq d)"
    unfolding HandleRecycleBin_def by (intro sound_intros) (simp_all add: sound_leaves)
  show "sound_reply d (HandleLifecycleRestoreAuthorizationFact he a rq d)"
    unfolding HandleLifecycleRestoreAuthorizationFact_def by (intro sound_intros) (simp_all add: sound_leaves)
  show "sound_reply d (HandleQueueLifecycleRestore he a rq d)"
    unfolding HandleQueueLifecycleRestore_def QueueLifecycleRestore_def by (intro sound_intros) (simp_all add: sound_leaves)
  show "sound_reply d (HandleLifecycleJob he a rq d)"
    unfolding HandleLifecycleJob_def by (intro sound_intros) (simp_all add: sound_leaves)
  show "sound_reply d (HandleFolderDeletionPreview he a rq d)"
    unfolding HandleFolderDeletionPreview_def PreviewFolderDeletion_def by (intro sound_intros) (simp_all add: sound_leaves)
  show "sound_reply d (HandleFolderDeletionConfirm he a rq d)"
    unfolding HandleFolderDeletionConfirm_def ConfirmFolderDeletion_def
    by (intro sound_intros) (simp_all add: sound_leaves split: prod.split)
  show "sound_reply d (HandleFolderDeletionJob he a rq d)"
    unfolding HandleFolderDeletionJob_def by (intro sound_intros) (simp_all add: sound_leaves)
  show "sound_reply d (mutateFolderDeletionJob he retry a rq d)"
    unfolding mutateFolderDeletionJob_def RetryFolderDeletionJob_def CancelFolderDeletionJob_def
    by (intro sound_intros) (simp_all add: sound_leaves split: prod.split)
qed

lemma dispatch_sound: "sound_reply d (HandleFolders he a rq d)" "sound_reply d (HandleMetadataItems he a rq d)"
  unfolding HandleFolders_def HandleMetadataItems_def
  by (intro sound_intros folder_endpoints_sound item_endpoints_sound; simp add: sound_leaves)+

lemmas endpoints_sound = folder_endpoints_sound item_endpoints_sound unit_endpoints_sound dispatch_sound

lemma routes_sound: "(p, h) \<in> set (asset_routes he) \<Longrightarrow> sound_reply d (h a rq d)"
  by (auto simp: asset_routes_def endpoints_sound)

text \<open>C16: Whatever a client sends to an asset endpoint or the health check, the reply is either a success (200, 201, 202
or 204, without an error body), or an error status whose body is an entry of the table of error codes, and then the
tables are exactly as they were before the request.\<close>

theorem errors_are_listed_and_change_nothing:
  assumes "rq_path rq = ''/healthz'' \<or> rq_path rq \<in> fst ` set (asset_routes he)"
  shows "sound_reply d (asset_service he token others rq d)"
proof -
  have inner: "sound_reply d (NewAssetHandler he others rq d)"
  proof (cases "rq_path rq = ''/healthz''")
    case True
    then show ?thesis by (simp add: NewAssetHandler_def HandleHealth_def sound_leaves)
  next
    case False
    then obtain h where h: "map_of (asset_routes he) (rq_path rq) = Some h"
      using assms by (metis domIff dom_map_of_conv_image_fst not_None_eq)
    show ?thesis
      using False routes_sound [OF map_of_SomeD [OF h]]
      by (simp add: NewAssetHandler_def h RequireActor_def Let_def sound_leaves status_codes)
  qed
  then show ?thesis
    by (simp add: asset_service_def RequireInternalAPI_def Let_def sound_leaves status_codes)
qed

lemma errors_are_listed_and_change_nothing_witness:
  "sound_reply tree_demo (asset_service demo_handler_env ''other'' demo_no_route demo_request tree_demo)
   \<and> rs_status (fst (asset_service demo_handler_env ''other'' demo_no_route demo_request tree_demo)) = 401"
proof
  have "rq_path demo_request \<in> fst ` set (asset_routes demo_handler_env)" by (simp add: demo_request_def asset_routes_def)
  then show "sound_reply tree_demo (asset_service demo_handler_env ''other'' demo_no_route demo_request tree_demo)"
    by (intro errors_are_listed_and_change_nothing disjI2)
  show "rs_status (fst (asset_service demo_handler_env ''other'' demo_no_route demo_request tree_demo)) = 401" by code_simp
qed

end
