(* ===== verification/Search_Terms.thy ===== *)
theory Search_Terms
  imports Asset_Usecase
begin

text \<open>
  The text a user searches for is matched as text: whatever wildcards or backslashes it holds, the pattern that
  \<open>escapeLike\<close> builds from it selects exactly the values that contain it.
\<close>

definition special :: "nat \<Rightarrow> bool" where
  "special c \<longleftrightarrow> c = 37 \<or> c = 92 \<or> c = 95"

definition escaped :: "nat \<Rightarrow> nat list" where
  "escaped c = (if special c then [92, c] else [c])"

lemma escape_char_append: "escape_char c (s @ t) = escape_char c s @ escape_char c t"
  by (simp add: escape_char_def)

text \<open>The three replacements, made one after the other, escape each special character once.\<close>

lemma escapeLike_escaped: "escapeLike s = concat (map escaped s)"
proof (induction s)
  case (Cons c s)
  have "escapeLike (c # s) = escapeLike [c] @ escapeLike s"
    using escape_char_append [of 92 "[c]" s] by (simp add: escapeLike_def escape_char_append)
  moreover have "escapeLike [c] = escaped c"
    by (simp add: escapeLike_def escape_char_def escaped_def special_def)
  ultimately show ?case using Cons by simp
qed (simp add: escapeLike_def escape_char_def)

text \<open>A folding of case that leaves the special characters alone and makes no other character one of them.\<close>

definition keeps_special :: "(nat \<Rightarrow> nat) \<Rightarrow> bool" where
  "keeps_special casing \<longleftrightarrow> (\<forall>c. (special c \<longrightarrow> casing c = c) \<and> (special (casing c) \<longrightarrow> special c))"

lemma map_escaped: "keeps_special casing \<Longrightarrow> map casing (concat (map escaped s)) = concat (map escaped (map casing s))"
proof (induction s)
  case (Cons c s)
  have "casing 92 = 92" using Cons.prems by (simp add: keeps_special_def special_def)
  moreover have "special (casing c) = special c" "special c \<Longrightarrow> casing c = c"
    using Cons.prems by (metis keeps_special_def)+
  ultimately show ?case using Cons by (auto simp: escaped_def)
qed simp

lemma like_percent: "like (37 # ps) s \<longleftrightarrow> (\<exists>pre t. s = pre @ t \<and> like ps t)"
proof (induction s)
  case (Cons c s)
  have "like (37 # ps) (c # s) \<longleftrightarrow> like ps (c # s) \<or> like (37 # ps) s" by simp
  also have "\<dots> \<longleftrightarrow> (\<exists>pre t. c # s = pre @ t \<and> like ps t)"
    unfolding Cons.IH by (metis append_Cons append_Nil neq_Nil_conv list.inject)
  finally show ?case .
qed simp

lemma like_escaped: "like (concat (map escaped u) @ [37]) s \<longleftrightarrow> (\<exists>post. s = u @ post)"
proof (induction u arbitrary: s)
  case Nil
  have "\<exists>pre t. s = pre @ t \<and> like [] t" by simp
  then show ?case using like_percent [of "[]" s] by simp
next
  case (Cons c u)
  have "like (escaped c @ ps) s \<longleftrightarrow> (\<exists>t. s = c # t \<and> like ps t)" for ps
    by (cases s) (auto simp: escaped_def special_def)
  from this [of "concat (map escaped u) @ [37]"] show ?case using Cons.IH by (auto simp: Cons_eq_append_conv)
qed

text \<open>C20: The pattern that a search builds from the user's text matches exactly the values that contain this text up to
case: no percent sign, underscore or backslash in it acts as a wildcard or escape.\<close>

theorem search_term_is_literal:
  assumes "keeps_special casing"
  shows "ilike casing (search_term q) s
    \<longleftrightarrow> (\<exists>pre post. map casing (string_runes s) = pre @ map casing (string_runes q) @ post)"
proof -
  have "casing 37 = 37" using assms by (simp add: keeps_special_def special_def)
  then have "map casing (search_term q) = 37 # concat (map escaped (map casing (string_runes q))) @ [37]"
    using map_escaped [OF assms] by (simp add: search_term_def escapeLike_escaped)
  then show ?thesis
    unfolding ilike_def by (simp only: like_percent like_escaped) auto
qed

lemma search_term_is_literal_witness:
  "ilike id (search_term ''50%'') ''at 50% off'' \<and> \<not> ilike id (search_term ''50%'') ''at 500 off''"
proof -
  have k: "keeps_special id" by (simp add: keeps_special_def)
  have a: "string_runes ''at 50% off'' = [97, 116, 32] @ string_runes ''50%'' @ [32, 111, 102, 102]" by code_simp
  have b: "\<not> sublist (string_runes ''50%'') (string_runes ''at 500 off'')" by code_simp
  have "ilike id (search_term ''50%'') ''at 50% off''"
    unfolding search_term_is_literal [OF k] using a by (intro exI [of _ "[97, 116, 32]"] exI [of _ "[32, 111, 102, 102]"]) simp
  moreover have "\<not> ilike id (search_term ''50%'') ''at 500 off''"
    unfolding search_term_is_literal [OF k] using b by (simp add: sublist_def)
  ultimately show ?thesis by simp
qed

end
