(* ===== verification/Media_Handler.thy ===== *)
theory Media_Handler
  imports Media_Usecase Http_Reply
begin

text \<open>
  The media endpoints (\<open>internal/delivery/http/media_handler.go\<close>): upload sessions, the commit of an upload and the
  status query, with the checks of the handlers, the strict body, the mapping of errors and the routes. The payload of
  a reply is the result of the use case; its JSON text and the counters are left out.
\<close>

section \<open>Requests\<close>

record 's media_env =
  mh_codec :: codec
  mh_nfc :: "string \<Rightarrow> string"
  mh_fingerprint :: "string \<Rightarrow> nat list"
  mh_sha256 :: "byte list \<Rightarrow> nat list"
  mh_backend :: "'s media_backend"
  mh_limits :: media_limits
  mh_usecase :: "'s usecase_env"
  mh_traceparent :: string

datatype media_payload =
    UploadSessionReply upload_result
  | CommitReply commit_result
  | StatusReply status_result

type_synonym media_response = "media_payload response"

definition bad_media_request :: media_response where
  "bad_media_request = writeError StatusBadRequest ''BAD_REQUEST''"

definition mediaActorAndAsset ::
  "'s media_env \<Rightarrow> actor option \<Rightarrow> request \<Rightarrow> (actor \<Rightarrow> string \<Rightarrow> 's world \<Rightarrow> media_response \<times> 's world) \<Rightarrow> 's world
   \<Rightarrow> media_response \<times> 's world" where
  "mediaActorAndAsset he a rq k w =
     (case a of
        None \<Rightarrow> (writeError StatusUnauthorized ''UNAUTHENTICATED'', w)
      | Some ac \<Rightarrow>
          let asset = rq_values rq ''assetId'' in
          if \<not> uuid_valid (mh_codec he) asset then (bad_media_request, w) else k ac asset w)"

text \<open>A body is read up to 32 KiB; a longer one is an error.\<close>

definition maxMediaBody :: nat where "maxMediaBody = 32 * 1024"

definition decodeStrictMediaJSON :: "codec \<Rightarrow> string list \<Rightarrow> string \<Rightarrow> (string \<times> json) list option" where
  "decodeStrictMediaJSON cd known body = (if maxMediaBody < length body then None else decodeJSONBody cd known body)"

record create_media_body =
  cm_filename :: string
  cm_content_type :: string
  cm_size :: int
  cm_checksum :: string

definition decode_create_media :: "codec \<Rightarrow> string \<Rightarrow> create_media_body option" where
  "decode_create_media cd body =
     (case decodeStrictMediaJSON cd [''filename'', ''content_type'', ''size_bytes'', ''checksum_sha256''] body of
        None \<Rightarrow> None
      | Some fs \<Rightarrow>
          (case (string_field ''filename'' fs [], string_field ''content_type'' fs [], int_field ''size_bytes'' fs 0,
                 string_field ''checksum_sha256'' fs []) of
             (Some f, Some c, Some n, Some h) \<Rightarrow>
               Some \<lparr>cm_filename = f, cm_content_type = c, cm_size = n, cm_checksum = h\<rparr>
           | _ \<Rightarrow> None))"

definition decode_commit_media :: "codec \<Rightarrow> string \<Rightarrow> string option" where
  "decode_commit_media cd body =
     (case decodeStrictMediaJSON cd [''upload_id''] body of None \<Rightarrow> None | Some fs \<Rightarrow> string_field ''upload_id'' fs [])"

section \<open>Errors\<close>

definition writeMediaError :: "media_error \<Rightarrow> media_response" where
  "writeMediaError err =
     (if err = ErrUploadNotFound \<or> err = ErrAssetNotAvailable \<or> err = ErrMediaStatusNotFound
      then writeError StatusNotFound ''MEDIA_UPLOAD_NOT_FOUND''
      else if err = ErrUploadInProgress then writeError StatusConflict ''MEDIA_UPLOAD_IN_PROGRESS''
      else if err = ErrIdempotencyConflict then writeError StatusConflict ''IDEMPOTENCY_KEY_REUSED''
      else if err = ErrUploadSessionExpired then writeError StatusGone ''UPLOAD_SESSION_EXPIRED''
      else if err = ErrQuotaExceeded then writeError StatusRequestEntityTooLarge ''MEDIA_QUOTA_EXCEEDED''
      else if err = ErrMediaObjectMismatch \<or> err = ErrObjectNotFound then writeError StatusConflict ''MEDIA_OBJECT_MISMATCH''
      else if err = ErrUploadStateConflict then writeError StatusConflict ''MEDIA_UPLOAD_STATE_CONFLICT''
      else if err = ErrUnsupportedMediaType then writeError StatusUnsupportedMediaType ''MEDIA_TYPE_UNSUPPORTED''
      else if err = ErrInvalidMediaSize then writeError StatusRequestEntityTooLarge ''MEDIA_PAYLOAD_TOO_LARGE''
      else if err = ErrInvalidMediaFilename \<or> err = ErrInvalidMediaChecksum then writeError StatusBadRequest ''BAD_REQUEST''
      else writeError StatusServiceUnavailable ''MEDIA_STORAGE_UNAVAILABLE'')"

definition media_replied :: "('a \<Rightarrow> media_response) \<Rightarrow> 'a result \<times> 's world \<Rightarrow> media_response \<times> 's world" where
  "media_replied ok r = (case fst r of Inl e \<Rightarrow> writeMediaError e | Inr x \<Rightarrow> ok x, snd r)"

section \<open>Upload sessions\<close>

definition session_reply :: "int \<Rightarrow> upload_result \<Rightarrow> media_response" where
  "session_reply status r = writeJSON status (UploadSessionReply r)"

text \<open>The request of the use case, or the reply that refuses it, in the order of the checks.\<close>

definition create_media_request :: "codec \<Rightarrow> actor \<Rightarrow> string \<Rightarrow> request \<Rightarrow> media_response + create_session_request" where
  "create_media_request cd ac asset rq =
     (let retryKey = trim_space (rq_header rq ''Idempotency-Key'') in
      if \<not> uuid_valid cd retryKey then Inl bad_media_request
      else (case decode_create_media cd (rq_body rq) of
              None \<Rightarrow> Inl bad_media_request
            | Some b \<Rightarrow>
                if cm_size b < MinUploadSizeBytes then Inl bad_media_request
                else if MaxUploadSizeBytes < cm_size b
                then Inl (writeError StatusRequestEntityTooLarge ''MEDIA_PAYLOAD_TOO_LARGE'')
                else if FileExtension (cm_content_type b) = None
                then Inl (writeError StatusUnsupportedMediaType ''MEDIA_TYPE_UNSUPPORTED'')
                else (case std_strict_decode (cm_checksum b) of
                        None \<Rightarrow> Inl bad_media_request
                      | Some h \<Rightarrow>
                          if length h \<noteq> ChecksumByteLength then Inl bad_media_request
                          else Inr \<lparr>req_org = ac_org ac, req_asset = asset, req_requested_by = ac_user ac,
                                 req_idempotency_key = retryKey, req_filename = cm_filename b,
                                 req_content_type = cm_content_type b, req_size = cm_size b, req_checksum = h\<rparr>)))"

definition handler_createUploadSession ::
  "'s media_env \<Rightarrow> actor option \<Rightarrow> request \<Rightarrow> 's world \<Rightarrow> media_response \<times> 's world" where
  "handler_createUploadSession he a rq =
     mediaActorAndAsset he a rq (\<lambda>ac asset w.
       case create_media_request (mh_codec he) ac asset rq of
         Inl rs \<Rightarrow> (rs, w)
       | Inr r \<Rightarrow>
           media_replied (\<lambda>u. session_reply (if ur_replayed u then StatusOK else StatusCreated) u)
             (usecase_CreateUploadSession (mh_nfc he) (mh_fingerprint he) (mh_backend he) (mh_limits he) (mh_usecase he) r w))"

definition upload_scope :: "actor \<Rightarrow> string \<Rightarrow> request \<Rightarrow> session_scope" where
  "upload_scope ac asset rq =
     \<lparr>sc_org = ac_org ac, sc_asset = asset, sc_upload = rq_values rq ''uploadId'', sc_requested_by = ac_user ac\<rparr>"

definition handler_getUploadSession ::
  "'s media_env \<Rightarrow> actor option \<Rightarrow> request \<Rightarrow> 's world \<Rightarrow> media_response \<times> 's world" where
  "handler_getUploadSession he a rq =
     mediaActorAndAsset he a rq (\<lambda>ac asset w.
       if \<not> uuid_valid (mh_codec he) (rq_values rq ''uploadId'') then (bad_media_request, w)
       else media_replied (session_reply StatusOK)
              (usecase_GetUploadSession (mh_backend he) (mh_usecase he) (upload_scope ac asset rq) w, w))"

text \<open>A refresh has no body (\<open>ContentLength\<close> is zero).\<close>

definition handler_refreshUploadSession ::
  "'s media_env \<Rightarrow> actor option \<Rightarrow> request \<Rightarrow> 's world \<Rightarrow> media_response \<times> 's world" where
  "handler_refreshUploadSession he a rq =
     mediaActorAndAsset he a rq (\<lambda>ac asset w.
       if \<not> uuid_valid (mh_codec he) (rq_values rq ''uploadId'') \<or> rq_body rq \<noteq> [] then (bad_media_request, w)
       else media_replied (session_reply StatusOK)
              (usecase_RefreshUploadSession (mh_backend he) (mh_sha256 he) (mh_limits he) (mh_usecase he)
                 (upload_scope ac asset rq) w))"

definition handler_cancelUploadSession ::
  "'s media_env \<Rightarrow> actor option \<Rightarrow> request \<Rightarrow> 's world \<Rightarrow> media_response \<times> 's world" where
  "handler_cancelUploadSession he a rq =
     mediaActorAndAsset he a rq (\<lambda>ac asset w.
       if \<not> uuid_valid (mh_codec he) (rq_values rq ''uploadId'') then (bad_media_request, w)
       else media_replied (\<lambda>_. no_content)
              (usecase_CancelUploadSession (upload_scope ac asset rq) (mh_usecase he) w))"

section \<open>Commit and status\<close>

definition handler_commitUpload ::
  "'s media_env \<Rightarrow> actor option \<Rightarrow> request \<Rightarrow> 's world \<Rightarrow> media_response \<times> 's world" where
  "handler_commitUpload he a rq =
     mediaActorAndAsset he a rq (\<lambda>ac asset w.
       case decode_commit_media (mh_codec he) (rq_body rq) of
         None \<Rightarrow> (bad_media_request, w)
       | Some uploadID \<Rightarrow>
           if \<not> uuid_valid (mh_codec he) uploadID then (bad_media_request, w)
           else media_replied (\<lambda>c. writeJSON (if co_replayed c then StatusOK else StatusAccepted) (CommitReply c))
                  (usecase_CommitUpload (mh_codec he) (mh_traceparent he) (mh_backend he) (mh_sha256 he) (mh_usecase he)
                     \<lparr>cr_org = ac_org ac, cr_asset = asset, cr_requested_by = ac_user ac, cr_upload = uploadID\<rparr> w))"

definition handler_getMediaStatus ::
  "'s media_env \<Rightarrow> actor option \<Rightarrow> request \<Rightarrow> 's world \<Rightarrow> media_response \<times> 's world" where
  "handler_getMediaStatus he a rq =
     mediaActorAndAsset he a rq (\<lambda>ac asset w.
       media_replied (\<lambda>s. writeJSON StatusOK (StatusReply s))
         (GetMediaStatus (mh_backend he) (mh_usecase he) (ac_org ac) asset (w_db w), w))"

section \<open>Routes\<close>

text \<open>A pattern is a method and its segments; \<open>None\<close> in a segment is a wildcard, which matches any non-empty one.\<close>

definition segments_match :: "string option list \<Rightarrow> string list \<Rightarrow> bool" where
  "segments_match ps ss \<longleftrightarrow> list_all2 (\<lambda>p s. case p of None \<Rightarrow> s \<noteq> [] | Some l \<Rightarrow> s = l) ps ss"

definition media_prefix :: "string option list" where
  "media_prefix = [Some [], Some ''internal'', Some ''api'', Some ''v1'', Some ''metadata-items'', None, Some ''media'']"

definition media_routes ::
  "'s media_env \<Rightarrow> (string \<times> string option list \<times> (actor option \<Rightarrow> request \<Rightarrow> 's world \<Rightarrow> media_response \<times> 's world)) list" where
  "media_routes he =
     [(''POST'', media_prefix @ [Some ''uploads''], handler_createUploadSession he),
      (''GET'', media_prefix @ [Some ''uploads'', None], handler_getUploadSession he),
      (''POST'', media_prefix @ [Some ''uploads'', None, Some ''refresh''], handler_refreshUploadSession he),
      (''DELETE'', media_prefix @ [Some ''uploads'', None], handler_cancelUploadSession he),
      (''PUT'', media_prefix, handler_commitUpload he),
      (''GET'', media_prefix @ [Some ''status''], handler_getMediaStatus he)]"

definition path_values :: "string list \<Rightarrow> string \<Rightarrow> string" where
  "path_values ss name =
     (if name = ''assetId'' \<and> 5 < length ss then ss ! 5 else if name = ''uploadId'' \<and> 8 < length ss then ss ! 8 else [])"

text \<open>A path without a handler for its method is answered by the mux, an argument (404 or 405).\<close>

definition NewMediaHandler ::
  "'s media_env \<Rightarrow> (request \<Rightarrow> 's world \<Rightarrow> media_response \<times> 's world) \<Rightarrow> request \<Rightarrow> 's world \<Rightarrow> media_response \<times> 's world" where
  "NewMediaHandler he others rq w =
     (let ss = split_on (CHR ''/'') (rq_path rq) in
      case find (\<lambda>(m, ps, _). m = rq_method rq \<and> segments_match ps ss) (media_routes he) of
        None \<Rightarrow> others rq w
      | Some (_, _, h) \<Rightarrow>
          RequireActor (uuid_valid (mh_codec he)) h (rq\<lparr>rq_values := path_values ss\<rparr>) w)"

definition media_service ::
  "'s media_env \<Rightarrow> string \<Rightarrow> (request \<Rightarrow> 's world \<Rightarrow> media_response \<times> 's world) \<Rightarrow> request \<Rightarrow> 's world
   \<Rightarrow> media_response \<times> 's world" where
  "media_service he token others = RequireInternalAPI token (NewMediaHandler he others)"

end
