(* ===== verification/Folder_Order.thy ===== *)
theory Folder_Order
  imports Asset_Usecase "HOL-Library.Multiset"
begin

text \<open>
  The order in which an import creates its folders: Kahn's algorithm as \<open>topologicalSortFolders\<close> of
  \<open>internal/usecase/asset_usecase_import.go\<close> runs it, with the folders and errors of \<open>internal/domain/import.go\<close>. The
  map from a parent to its children is the list of edges it is filled from, the in-degrees are a function.
\<close>

section \<open>Folders of a data set\<close>

record import_folder =
  imf_key :: string
  imf_parent :: "string option"
  imf_name :: string
  imf_description :: "string option"

record import_error =
  ie_type :: string
  ie_message :: string
  ie_key :: string
  ie_index :: int

datatype import_failure = ImportError import_error | DatabaseFailure catalog_error | PlainFailure string

definition import_fault :: "string \<Rightarrow> string \<Rightarrow> string \<Rightarrow> nat \<Rightarrow> import_failure" where
  "import_fault kind message key index =
     ImportError \<lparr>ie_type = kind, ie_message = message, ie_key = key, ie_index = int index\<rparr>"

definition import_error_text :: "import_error \<Rightarrow> string" where
  "import_error_text e =
     (if ie_key e \<noteq> [] then ie_type e @ '' at key '' @ [CHR 0x27] @ ie_key e @ [CHR 0x27] @ '': '' @ ie_message e
      else if 0 \<le> ie_index e then ie_type e @ '' at index '' @ format_int (ie_index e) @ '': '' @ ie_message e
      else ie_type e @ '': '' @ ie_message e)"

definition quoted :: "string \<Rightarrow> string" where
  "quoted s = [CHR 0x27] @ s @ [CHR 0x27]"

section \<open>Sorting\<close>

type_synonym edges = "(string \<times> string) list"

definition children_of :: "edges \<Rightarrow> string \<Rightarrow> string list" where
  "children_of es p = map snd (filter (\<lambda>e. fst e = p) es)"

text \<open>The loop over the parents: one edge and one more incoming edge each; an unknown parent ends the sort.\<close>

fun link_folders ::
  "(string \<Rightarrow> bool) \<Rightarrow> import_folder list \<Rightarrow> edges \<Rightarrow> (string \<Rightarrow> int) \<Rightarrow> import_failure + edges \<times> (string \<Rightarrow> int)" where
  "link_folders valid [] es deg = Inr (es, deg)"
| "link_folders valid (f # fs) es deg =
     (case imf_parent f of
        None \<Rightarrow> link_folders valid fs es deg
      | Some p \<Rightarrow>
          if \<not> valid p then Inl (import_fault ''InvalidFolder'' (''unknown parent_key '' @ quoted p) (imf_key f) 0)
          else link_folders valid fs (es @ [(p, imf_key f)]) (deg(imf_key f := deg (imf_key f) + 1)))"

fun release_children :: "string list \<Rightarrow> (string \<Rightarrow> int) \<Rightarrow> string list \<Rightarrow> string list \<times> (string \<Rightarrow> int)" where
  "release_children [] deg queue = (queue, deg)"
| "release_children (c # cs) deg queue =
     (let deg1 = deg(c := deg c - 1) in release_children cs deg1 (if deg1 c = 0 then queue @ [c] else queue))"

text \<open>Every round takes one key off the queue, and a key enters it only when its in-degree drops to zero.\<close>

definition waiting :: "edges \<Rightarrow> (string \<Rightarrow> int) \<Rightarrow> string set" where
  "waiting es deg = {c \<in> snd ` set es. 0 < deg c}"

lemma finite_waiting [simp]: "finite (waiting es deg)" by (simp add: waiting_def)

lemma release_children_measure:
  "release_children cs deg q = (q', deg') \<Longrightarrow> set cs \<subseteq> snd ` set es
   \<Longrightarrow> card (waiting es deg') + length q' \<le> card (waiting es deg) + length q"
proof (induction cs deg q rule: release_children.induct)
  case (2 c cs deg q)
  let ?deg1 = "deg(c := deg c - 1)"
  let ?q1 = "if ?deg1 c = 0 then q @ [c] else q"
  have "card (waiting es ?deg1) + length ?q1 \<le> card (waiting es deg) + length q"
  proof (cases "deg c = 1")
    case True
    then have "waiting es ?deg1 = waiting es deg - {c}" "c \<in> waiting es deg"
      using 2(3) by (auto simp: waiting_def)
    then show ?thesis using True card_Suc_Diff1 [of "waiting es deg" c] by simp
  next
    case False
    have "waiting es ?deg1 \<subseteq> waiting es deg" by (auto simp: waiting_def)
    then show ?thesis using False card_mono [OF finite_waiting, of "waiting es ?deg1" es deg] by simp
  qed
  moreover have "card (waiting es deg') + length q' \<le> card (waiting es ?deg1) + length ?q1"
  proof (rule 2(1) [OF refl])
    show "release_children cs ?deg1 ?q1 = (q', deg')" using 2(2) by (simp add: Let_def)
    show "set cs \<subseteq> snd ` set es" using 2(3) by simp
  qed
  ultimately show ?case by linarith
qed simp

function kahn_loop ::
  "edges \<Rightarrow> (string \<Rightarrow> import_folder) \<Rightarrow> string list \<Rightarrow> (string \<Rightarrow> int) \<Rightarrow> import_folder list \<Rightarrow> import_folder list" where
  "kahn_loop es table queue deg ordered =
     (case queue of
        [] \<Rightarrow> ordered
      | current # rest \<Rightarrow>
          (case release_children (children_of es current) deg rest of
             (queue1, deg1) \<Rightarrow> kahn_loop es table queue1 deg1 (ordered @ [table current])))"
  by pat_completeness auto
termination
proof (relation "measure (\<lambda>(es, table, queue, deg, ordered). card (waiting es deg) + length queue)")
  fix es :: edges and table :: "string \<Rightarrow> import_folder" and queue deg ordered current rest q' deg'
  assume a: "queue = current # rest" "(q', deg') = release_children (children_of es current) deg rest"
  have "card (waiting es deg') + length q' \<le> card (waiting es deg) + length rest"
    by (rule release_children_measure [of "children_of es current"]) (use a in \<open>auto simp: children_of_def\<close>)
  then show "((es, table, q', deg', ordered @ [table current]), es, table, queue, deg, ordered)
      \<in> measure (\<lambda>(es, table, queue, deg, ordered). card (waiting es deg) + length queue)"
    using a by simp
qed simp

declare kahn_loop.simps [simp del]

text \<open>The zero value that a Go map returns for a key it does not hold.\<close>

definition no_folder :: import_folder where
  "no_folder = \<lparr>imf_key = [], imf_parent = None, imf_name = [], imf_description = None\<rparr>"

definition folder_table :: "import_folder list \<Rightarrow> string \<Rightarrow> import_folder" where
  "folder_table fs k = (case find (\<lambda>f. imf_key f = k) (rev fs) of None \<Rightarrow> no_folder | Some f \<Rightarrow> f)"

definition topologicalSortFolders :: "import_folder list \<Rightarrow> (string \<Rightarrow> bool) \<Rightarrow> import_failure + import_folder list" where
  "topologicalSortFolders fs valid =
     and_then (link_folders valid fs [] (\<lambda>_. 0)) (\<lambda>(es, deg).
     let roots = filter (\<lambda>k. deg k = 0) (map imf_key fs);
         ordered = kahn_loop es (folder_table fs) roots deg [] in
     if length ordered \<noteq> length fs then Inl (import_fault ''CyclicGraph'' ''folder graph contains cycles'' [] 0)
     else Inr ordered)"

section \<open>The order of a data set\<close>

text \<open>Specification: every parent stands before its children.\<close>

fun parents_first_from :: "string set \<Rightarrow> import_folder list \<Rightarrow> bool" where
  "parents_first_from seen [] \<longleftrightarrow> True"
| "parents_first_from seen (f # fs) \<longleftrightarrow>
     (case imf_parent f of None \<Rightarrow> True | Some p \<Rightarrow> p \<in> seen) \<and> parents_first_from (insert (imf_key f) seen) fs"

definition parents_first :: "import_folder list \<Rightarrow> bool" where
  "parents_first fs \<longleftrightarrow> parents_first_from {} fs"

lemma parents_first_append:
  "parents_first_from s (xs @ ys) \<longleftrightarrow> parents_first_from s xs \<and> parents_first_from (s \<union> imf_key ` set xs) ys"
  by (induction xs arbitrary: s) auto

section \<open>Correctness of the sort\<close>

definition has_key :: "string \<Rightarrow> import_folder \<Rightarrow> bool" where
  "has_key k f \<longleftrightarrow> imf_key f = k"

definition edges_of :: "import_folder list \<Rightarrow> edges" where
  "edges_of fs = map (\<lambda>f. (the (imf_parent f), imf_key f)) (filter (\<lambda>f. imf_parent f \<noteq> None) fs)"

lemma link_folders_Inr:
  "link_folders valid fs es deg = Inr (es', deg') \<Longrightarrow> es' = es @ edges_of fs
     \<and> (\<forall>k. deg' k = deg k + int (length (filter (\<lambda>f. imf_key f = k \<and> imf_parent f \<noteq> None) fs)))"
  by (induction valid fs es deg rule: link_folders.induct) (auto simp: edges_of_def split: option.splits if_splits)

lemma link_folders_Inl:
  "link_folders valid fs es deg = Inl e \<Longrightarrow> \<exists>f\<in>set fs. \<exists>p. imf_parent f = Some p \<and> \<not> valid p"
  by (induction valid fs es deg rule: link_folders.induct) (auto split: option.splits if_splits)

lemma children_of_edges:
  "children_of (edges_of fs) p = map imf_key (filter (\<lambda>f. imf_parent f = Some p) fs)"
  by (induction fs) (auto simp: children_of_def edges_of_def)

lemma release_children_all:
  "distinct cs \<Longrightarrow> (\<forall>c\<in>set cs. deg c = 1)
   \<Longrightarrow> release_children cs deg q = (q @ cs, \<lambda>k. if k \<in> set cs then 0 else deg k)"
proof (induction cs arbitrary: deg q)
  case (Cons c cs)
  then have "release_children cs (deg(c := 0)) (q @ [c])
      = ((q @ [c]) @ cs, \<lambda>k. if k \<in> set cs then 0 else (deg(c := 0)) k)"
    by (intro Cons.IH) auto
  then show ?case using Cons.prems by (auto simp: Let_def fun_eq_iff)
qed simp

lemma folder_table_key:
  assumes "distinct (map imf_key fs)" and "f \<in> set fs"
  shows "folder_table fs (imf_key f) = f"
proof -
  have "distinct (map imf_key (rev fs))" using assms(1) by (simp add: rev_map [symmetric])
  then have "find (\<lambda>g. imf_key g = imf_key f) (rev fs) = Some f" using assms(2) by (intro find_distinct) auto
  then show ?thesis by (simp add: folder_table_def)
qed

lemma folder_table_rows:
  "distinct (map imf_key fs) \<Longrightarrow> set gs \<subseteq> set fs \<Longrightarrow> map (folder_table fs) (map imf_key gs) = gs"
  by (induction gs) (auto simp: folder_table_key)

text \<open>
  The rows ordered or queued so far: the roots of the input, and the children of every ordered folder, each group in
  the order of the input.
\<close>

definition kahn_inv :: "import_folder list \<Rightarrow> string list \<Rightarrow> (string \<Rightarrow> int) \<Rightarrow> import_folder list \<Rightarrow> bool" where
  "kahn_inv fs queue deg ordered \<longleftrightarrow>
     (let seen = ordered @ map (folder_table fs) queue in
      distinct (map imf_key seen) \<and> set seen \<subseteq> set fs \<and> map imf_key (map (folder_table fs) queue) = queue
      \<and> parents_first ordered
      \<and> filter (\<lambda>f. imf_parent f = None) seen = filter (\<lambda>f. imf_parent f = None) fs
      \<and> (\<forall>p. filter (\<lambda>f. imf_parent f = Some p) seen
           = (if p \<in> imf_key ` set ordered then filter (\<lambda>f. imf_parent f = Some p) fs else []))
      \<and> (\<forall>f\<in>set fs. deg (imf_key f) = (if f \<in> set seen then 0 else 1)))"

lemma kahn_inv_start:
  assumes d: "distinct (map imf_key fs)" and l: "link_folders valid fs [] (\<lambda>_. 0) = Inr (es, deg)"
  shows "kahn_inv fs (filter (\<lambda>k. deg k = 0) (map imf_key fs)) deg []"
proof -
  have deg: "deg (imf_key f) = (if imf_parent f = None then 0 else 1)" if f: "f \<in> set fs" for f
  proof -
    have same: "(imf_key g = imf_key f \<and> imf_parent g \<noteq> None) = (g = f \<and> imf_parent f \<noteq> None)" if "g \<in> set fs" for g
      using that f d by (auto dest: distinct_map_eq)
    have "distinct fs" using d by (simp add: distinct_map)
    then have "length (filter (\<lambda>g. g = f) fs) = 1" using f by (induction fs) (auto simp: filter_empty_conv)
    then show ?thesis using link_folders_Inr [OF l] same
      by (cases "imf_parent f") (simp_all cong: filter_cong)
  qed
  let ?roots = "filter (\<lambda>f. imf_parent f = None) fs"
  have q: "filter (\<lambda>k. deg k = 0) (map imf_key fs) = map imf_key ?roots"
    unfolding filter_map comp_def by (intro arg_cong [where f = "map imf_key"] filter_cong) (auto simp: deg)
  have seen: "[] @ map (folder_table fs) (map imf_key ?roots) = ?roots"
    using folder_table_rows [OF d, of ?roots] by simp
  show ?thesis
    unfolding q kahn_inv_def Let_def seen
  proof (intro conjI allI ballI)
    show "distinct (map imf_key ?roots)" by (rule distinct_map_filter [OF d])
    show "map imf_key (map (folder_table fs) (map imf_key ?roots)) = map imf_key ?roots" using seen by simp
    show "filter (\<lambda>f. imf_parent f = Some p) ?roots
        = (if p \<in> imf_key ` set [] then filter (\<lambda>f. imf_parent f = Some p) fs else [])" for p
      by (auto simp: filter_empty_conv)
  qed (simp_all add: deg parents_first_def)
qed

lemma disjoint_image: "(\<And>g. g \<in> B \<Longrightarrow> h g \<notin> A) \<Longrightarrow> A \<inter> h ` B = {}" by auto

lemma kahn_inv_step:
  assumes d: "distinct (map imf_key fs)" and inv: "kahn_inv fs (current # rest) deg ordered"
    and r: "release_children (children_of (edges_of fs) current) deg rest = (queue1, deg1)"
  shows "kahn_inv fs queue1 deg1 (ordered @ [folder_table fs current])"
proof -
  let ?f = "folder_table fs current" and ?kids = "filter (\<lambda>f. imf_parent f = Some current) fs"
  let ?seen = "ordered @ map (folder_table fs) (current # rest)"
  have i: "distinct (map imf_key ?seen)" "set ?seen \<subseteq> set fs" "map imf_key (map (folder_table fs) (current # rest)) = current # rest"
      "parents_first ordered" "filter (\<lambda>f. imf_parent f = None) ?seen = filter (\<lambda>f. imf_parent f = None) fs"
      "\<And>p. filter (\<lambda>f. imf_parent f = Some p) ?seen
         = (if p \<in> imf_key ` set ordered then filter (\<lambda>f. imf_parent f = Some p) fs else [])"
      "\<And>f. f \<in> set fs \<Longrightarrow> deg (imf_key f) = (if f \<in> set ?seen then 0 else 1)"
    using inv by (simp_all only: kahn_inv_def Let_def)
  have key: "imf_key ?f = current" using i(3) by simp
  have new: "current \<notin> imf_key ` set ordered" using i(1) key by auto
  have fresh: "g \<notin> set ?seen" if "g \<in> set ?kids" for g
  proof
    assume "g \<in> set ?seen"
    then have "g \<in> set (filter (\<lambda>f. imf_parent f = Some current) ?seen)"
      using that by (simp only: set_filter mem_Collect_eq)
    then show False unfolding i(6) using new by simp
  qed
  have kids: "distinct (map imf_key ?kids)" using d by (simp add: distinct_map inj_on_def distinct_filter)
  have one: "\<forall>c\<in>set (map imf_key ?kids). deg c = 1"
  proof
    fix c assume "c \<in> set (map imf_key ?kids)"
    then obtain g where g: "g \<in> set ?kids" "c = imf_key g" by auto
    then show "deg c = 1" using i(7) [of g] fresh [OF g(1)] by simp
  qed
  have q: "queue1 = rest @ map imf_key ?kids" "deg1 = (\<lambda>k. if k \<in> set (map imf_key ?kids) then 0 else deg k)"
    using r release_children_all [OF kids one] by (simp_all add: children_of_edges)
  have seen: "(ordered @ [?f]) @ map (folder_table fs) queue1 = ?seen @ ?kids"
    using folder_table_rows [OF d, of ?kids] by (simp add: q)
  have pf: "parents_first (ordered @ [?f])"
  proof (cases "imf_parent ?f")
    case None
    then show ?thesis using i(4) by (simp add: parents_first_def parents_first_append)
  next
    case (Some p)
    have "?f \<in> set (filter (\<lambda>f. imf_parent f = Some p) ?seen)" using Some by simp
    then have "p \<in> imf_key ` set ordered" unfolding i(6) by (auto split: if_splits)
    then show ?thesis using Some i(4) by (simp add: parents_first_def parents_first_append)
  qed
  show ?thesis
    unfolding kahn_inv_def Let_def seen
  proof (intro conjI allI ballI)
    show "distinct (map imf_key (?seen @ ?kids))"
    proof -
      have "imf_key g \<notin> imf_key ` set ?seen" if g: "g \<in> set ?kids" for g
        using fresh [OF g] distinct_map_eq [OF d] i(2) g by (metis (no_types, lifting) filter_is_subset imageE subsetD)
      then have "imf_key ` set ?seen \<inter> imf_key ` set ?kids = {}" by (rule disjoint_image)
      then show ?thesis
        unfolding map_append [of imf_key ?seen ?kids] distinct_append set_map using i(1) kids by (intro conjI)
    qed
    show "set (?seen @ ?kids) \<subseteq> set fs" using i(2) by auto
    show "map imf_key (map (folder_table fs) queue1) = queue1"
      using i(3) by (auto simp: q folder_table_key [OF d])
    show "parents_first (ordered @ [?f])" by (rule pf)
    show "filter (\<lambda>f. imf_parent f = None) (?seen @ ?kids) = filter (\<lambda>f. imf_parent f = None) fs"
      unfolding filter_append [of _ ?seen ?kids] i(5) by (simp add: filter_empty_conv)
    show "filter (\<lambda>f. imf_parent f = Some p) (?seen @ ?kids)
        = (if p \<in> imf_key ` set (ordered @ [?f]) then filter (\<lambda>f. imf_parent f = Some p) fs else [])" for p
      unfolding filter_append [of _ ?seen ?kids] i(6) using new key by (cases "p = current") (auto simp: filter_empty_conv)
    show "deg1 (imf_key f) = (if f \<in> set (?seen @ ?kids) then 0 else 1)" if f: "f \<in> set fs" for f
    proof (cases "f \<in> set ?kids")
      case True
      then show ?thesis by (simp add: q)
    next
      case False
      then have "imf_key f \<notin> set (map imf_key ?kids)" using distinct_map_eq [OF d] f by auto
      then show ?thesis using i(7) [OF f] False by (simp only: q set_append Un_iff) simp
    qed
  qed
qed

lemma kahn_loop_inv:
  "distinct (map imf_key fs) \<Longrightarrow> kahn_inv fs queue deg ordered
   \<Longrightarrow> \<exists>deg'. kahn_inv fs [] deg' (kahn_loop (edges_of fs) (folder_table fs) queue deg ordered)"
proof (induction "edges_of fs" "folder_table fs" queue deg ordered rule: kahn_loop.induct)
  case (1 queue deg ordered)
  show ?case
  proof (cases queue)
    case Nil
    then show ?thesis using 1(3) by (auto simp: kahn_loop.simps [of _ _ "[]"])
  next
    case (Cons current rest)
    obtain q1 deg1 where r: "release_children (children_of (edges_of fs) current) deg rest = (q1, deg1)" by force
    show ?thesis
      using 1(1) [OF Cons r [symmetric] 1(2) kahn_inv_step [OF 1(2) 1(3) [unfolded Cons] r]]
      unfolding Cons by (subst kahn_loop.simps) (simp add: r)
  qed
qed

lemma kahn_inv_final:
  assumes "kahn_inv fs [] deg s"
  shows "distinct s \<and> set s \<subseteq> set fs \<and> parents_first s
    \<and> (\<forall>f\<in>set fs. (case imf_parent f of None \<Rightarrow> True | Some p \<Rightarrow> p \<in> imf_key ` set s) \<longrightarrow> f \<in> set s)
    \<and> (\<forall>p\<in>imf_key ` set s. filter (\<lambda>f. imf_parent f = Some p) s = filter (\<lambda>f. imf_parent f = Some p) fs)
    \<and> filter (\<lambda>f. imf_parent f = None) s = filter (\<lambda>f. imf_parent f = None) fs"
proof -
  have i: "distinct (map imf_key s)" "set s \<subseteq> set fs" "parents_first s"
      "filter (\<lambda>f. imf_parent f = None) s = filter (\<lambda>f. imf_parent f = None) fs"
      "\<And>p. filter (\<lambda>f. imf_parent f = Some p) s
         = (if p \<in> imf_key ` set s then filter (\<lambda>f. imf_parent f = Some p) fs else [])"
    using assms by (simp_all add: kahn_inv_def Let_def)
  have "f \<in> set s" if f: "f \<in> set fs" "case imf_parent f of None \<Rightarrow> True | Some p \<Rightarrow> p \<in> imf_key ` set s" for f
  proof -
    have "f \<in> set (filter (\<lambda>g. imf_parent g = imf_parent f) s)"
      using f i(4) i(5) [of "the (imf_parent f)"] by (cases "imf_parent f") simp_all
    then show ?thesis by simp
  qed
  then show ?thesis using i by (auto simp: distinct_map)
qed

text \<open>A set of keys that holds the roots and is closed under children holds every folder of a top-down order.\<close>

lemma parents_first_closed:
  assumes "parents_first_from A s" "A \<subseteq> V"
    and "\<And>f. f \<in> set s \<Longrightarrow> (case imf_parent f of None \<Rightarrow> True | Some p \<Rightarrow> p \<in> V) \<Longrightarrow> imf_key f \<in> V"
  shows "imf_key ` set s \<subseteq> V"
  using assms
proof (induction A s rule: parents_first_from.induct)
  case (2 A f fs)
  have "imf_key f \<in> V" using 2(2,3) by (intro 2(4)) (auto split: option.splits)
  moreover have "imf_key ` set fs \<subseteq> V" using 2(2,3,4) \<open>imf_key f \<in> V\<close> by (intro 2(1)) auto
  ultimately show ?case by simp
qed simp

lemma parents_first_known:
  "parents_first_from A s \<Longrightarrow> f \<in> set s \<Longrightarrow> imf_parent f = Some p \<Longrightarrow> p \<in> A \<union> imf_key ` set s"
  by (induction A s rule: parents_first_from.induct) auto

lemma topological_sort_correct:
  assumes "distinct (map imf_key fs)"
  shows "case topologicalSortFolders fs (\<lambda>k. k \<in> set (map imf_key fs)) of
     Inr s \<Rightarrow> mset s = mset fs \<and> parents_first s
       \<and> (\<forall>p. filter (\<lambda>f. imf_parent f = p) s = filter (\<lambda>f. imf_parent f = p) fs)
   | Inl e \<Rightarrow> \<not> (\<exists>s. mset s = mset fs \<and> parents_first s)"
proof (cases "link_folders (\<lambda>k. k \<in> set (map imf_key fs)) fs [] (\<lambda>_. 0)")
  case (Inl e)
  then obtain f p where f: "f \<in> set fs" "imf_parent f = Some p" "p \<notin> imf_key ` set fs"
    using link_folders_Inl by fastforce
  have "\<not> parents_first s" if "mset s = mset fs" for s
    using parents_first_known [of "{}" s f p] f mset_eq_setD [OF that] by (auto simp: parents_first_def)
  then show ?thesis using Inl by (auto simp: topologicalSortFolders_def)
next
  case (Inr ed)
  obtain es deg where l: "link_folders (\<lambda>k. k \<in> set (map imf_key fs)) fs [] (\<lambda>_. 0) = Inr (es, deg)"
    using Inr by (cases ed) auto
  have es: "es = edges_of fs" using link_folders_Inr [OF l] by simp
  let ?s = "kahn_loop es (folder_table fs) (filter (\<lambda>k. deg k = 0) (map imf_key fs)) deg []"
  obtain deg' where inv: "kahn_inv fs [] deg' ?s"
    using kahn_loop_inv [OF assms kahn_inv_start [OF assms l]] es by blast
  have s: "distinct ?s" "set ?s \<subseteq> set fs" "parents_first ?s"
      "\<forall>f\<in>set fs. (case imf_parent f of None \<Rightarrow> True | Some p \<Rightarrow> p \<in> imf_key ` set ?s) \<longrightarrow> f \<in> set ?s"
      "\<forall>p\<in>imf_key ` set ?s. filter (\<lambda>f. imf_parent f = Some p) ?s = filter (\<lambda>f. imf_parent f = Some p) fs"
      "filter (\<lambda>f. imf_parent f = None) ?s = filter (\<lambda>f. imf_parent f = None) fs"
    using kahn_inv_final [OF inv] by blast+
  show ?thesis
  proof (cases "length ?s = length fs")
    case True
    have "distinct fs" using assms by (simp add: distinct_map)
    then have "set ?s = set fs" using s(1,2) True by (metis card_subset_eq distinct_card finite_set)
    then have "mset ?s = mset fs" using s(1) assms by (metis distinct_map set_eq_iff_mset_eq_distinct)
    moreover have "filter (\<lambda>f. imf_parent f = p) ?s = filter (\<lambda>f. imf_parent f = p) fs" for p
    proof (cases p)
      case None
      then show ?thesis using s(6) by simp
    next
      case (Some k)
      show ?thesis
      proof (cases "k \<in> imf_key ` set ?s")
        case True
        then show ?thesis using bspec [OF s(5), of k] Some by blast
      next
        case False
        then have "imf_parent f \<noteq> Some k" if "f \<in> set ?s" for f
          using parents_first_known [of "{}" ?s f k] s(3) that by (auto simp: parents_first_def)
        then show ?thesis using Some \<open>set ?s = set fs\<close> by (simp add: filter_empty_conv cong: filter_cong)
      qed
    qed
    ultimately show ?thesis using l True s(3) by (simp add: topologicalSortFolders_def Let_def)
  next
    case False
    have "\<not> parents_first t" if t: "mset t = mset fs" for t
    proof
      assume "parents_first t"
      then have "imf_key ` set t \<subseteq> imf_key ` set ?s"
        unfolding parents_first_def by (rule parents_first_closed) (use s(4) mset_eq_setD [OF t] in auto)
      then have "imf_key ` set fs \<subseteq> imf_key ` set ?s" using mset_eq_setD [OF t] by simp
      then have "set fs \<subseteq> set ?s" using s(2) distinct_map_eq [OF assms] unfolding subset_iff image_iff by metis
      then have "set ?s = set fs" using s(2) by blast
      moreover have "distinct fs" using assms by (simp add: distinct_map)
      ultimately show False using False s(1) by (metis distinct_card)
    qed
    then show ?thesis using l False by (auto simp: topologicalSortFolders_def Let_def)
  qed
qed

text \<open>C22: The import sorts its folders completely: it returns a permutation of them in which every parent stands before
its children and siblings keep their order, and refuses the data set exactly when it has no such order, because a
parent is unknown or the folders form a cycle.\<close>

theorem import_order_is_topological:
  assumes "distinct (map imf_key fs)"
  shows "case topologicalSortFolders fs (\<lambda>k. k \<in> set (map imf_key fs)) of
     Inr s \<Rightarrow> mset s = mset fs \<and> parents_first s
       \<and> (\<forall>p. filter (\<lambda>f. imf_parent f = p) s = filter (\<lambda>f. imf_parent f = p) fs)
   | Inl e \<Rightarrow> \<not> (\<exists>s. mset s = mset fs \<and> parents_first s)"
  by (rule topological_sort_correct [OF assms])

definition demo_import_folders :: "import_folder list" where
  "demo_import_folders =
     [\<lparr>imf_key = ''cat'', imf_parent = Some ''pets'', imf_name = ''Cats'', imf_description = None\<rparr>,
      \<lparr>imf_key = ''pets'', imf_parent = None, imf_name = ''Pets'', imf_description = None\<rparr>,
      \<lparr>imf_key = ''dog'', imf_parent = Some ''pets'', imf_name = ''Dogs'', imf_description = Some ''all''\<rparr>]"

lemma import_order_is_topological_witness:
  "(case topologicalSortFolders demo_import_folders (\<lambda>k. k \<in> set (map imf_key demo_import_folders)) of
      Inr s \<Rightarrow> mset s = mset demo_import_folders \<and> parents_first s
        \<and> (\<forall>p. filter (\<lambda>f. imf_parent f = p) s = filter (\<lambda>f. imf_parent f = p) demo_import_folders)
    | Inl e \<Rightarrow> \<not> (\<exists>s. mset s = mset demo_import_folders \<and> parents_first s))
   \<and> map_sum id (map imf_key)
        (topologicalSortFolders demo_import_folders (\<lambda>k. k \<in> set (map imf_key demo_import_folders)))
      = Inr [''pets'', ''cat'', ''dog'']"
proof
  have d: "distinct (map imf_key demo_import_folders)" by (simp add: demo_import_folders_def)
  show "case topologicalSortFolders demo_import_folders (\<lambda>k. k \<in> set (map imf_key demo_import_folders)) of
      Inr s \<Rightarrow> mset s = mset demo_import_folders \<and> parents_first s
        \<and> (\<forall>p. filter (\<lambda>f. imf_parent f = p) s = filter (\<lambda>f. imf_parent f = p) demo_import_folders)
    | Inl e \<Rightarrow> \<not> (\<exists>s. mset s = mset demo_import_folders \<and> parents_first s)"
    by (rule import_order_is_topological [OF d])
  show "map_sum id (map imf_key)
        (topologicalSortFolders demo_import_folders (\<lambda>k. k \<in> set (map imf_key demo_import_folders)))
      = Inr [''pets'', ''cat'', ''dog'']" by code_simp
qed

end
