(* ===== verification/Asset_Import.thy ===== *)
theory Asset_Import
  imports Folder_Order Http_Reply
begin

text \<open>
  The sample import (\<open>internal/usecase/asset_usecase_import.go\<close>, \<open>internal/repository/asset_repository_import.go\<close>,
  \<open>internal/domain/import.go\<close>): the strict reading of a data set, its validation and normalization, and the one
  transaction that reuses or creates folders and creates, updates or reactivates items. Arguments: the codec, the
  first value of a JSON stream with the text after it, the text PostgreSQL prints for a stored JSON object, new
  identifiers and the clock. The message of the JSON decoder is left out (empty), and a repeated array member of the
  document counts with its last value.
\<close>

section \<open>The data set\<close>

record import_item =
  imi_folder :: string
  imi_external_id :: string
  imi_title :: string
  imi_description :: "string option"
  imi_labels :: "string list"
  imi_category :: "string option"
  imi_source_url :: "string option"
  imi_thumbnail_url :: "string option"
  imi_license :: "string option"
  imi_author :: "string option"
  imi_json :: string
  imi_notes :: "string option"

record import_dataset =
  ids_version :: int
  ids_source :: string
  ids_folders :: "import_folder list"
  ids_items :: "import_item list"

record import_summary =
  sm_status :: string
  sm_dry_run :: bool
  sm_folders_created :: nat
  sm_folders_reused :: nat
  sm_items_created :: nat
  sm_items_updated :: nat
  sm_items_unchanged :: nat

definition empty_summary :: import_summary where
  "empty_summary = \<lparr>sm_status = [], sm_dry_run = False, sm_folders_created = 0, sm_folders_reused = 0,
     sm_items_created = 0, sm_items_updated = 0, sm_items_unchanged = 0\<rparr>"

section \<open>Reading\<close>

text \<open>A struct inside the document: an object whose members are all fields, or \<open>null\<close>.\<close>

definition struct_fields :: "string list \<Rightarrow> json \<Rightarrow> (string \<times> json) list option" where
  "struct_fields known v =
     (case v of
        JNull \<Rightarrow> Some []
      | JObj fs \<Rightarrow> if list_all (\<lambda>m. list_ex (\<lambda>f. fold_name f = fold_name (fst m)) known) fs then Some fs else None
      | _ \<Rightarrow> None)"

fun array_field :: "(json \<Rightarrow> 'a option) \<Rightarrow> string \<Rightarrow> (string \<times> json) list \<Rightarrow> 'a list \<Rightarrow> 'a list option" where
  "array_field dec name [] acc = Some acc"
| "array_field dec name ((k, v) # fs) acc =
     (if fold_name k \<noteq> fold_name name then array_field dec name fs acc
      else (case v of JNull \<Rightarrow> array_field dec name fs []
                    | JArr vs \<Rightarrow> (case all_some (map dec vs) of None \<Rightarrow> None | Some xs \<Rightarrow> array_field dec name fs xs)
                    | _ \<Rightarrow> None))"

definition decode_import_folder :: "json \<Rightarrow> import_folder option" where
  "decode_import_folder v =
     (case struct_fields [''key'', ''parent_key'', ''name'', ''description''] v of
        None \<Rightarrow> None
      | Some fs \<Rightarrow>
          (case (string_field ''key'' fs [], pointer_field ''parent_key'' fs None, string_field ''name'' fs [],
                 pointer_field ''description'' fs None) of
             (Some k, Some p, Some n, Some ds) \<Rightarrow>
               Some \<lparr>imf_key = k, imf_parent = p, imf_name = n, imf_description = ds\<rparr>
           | _ \<Rightarrow> None))"

definition decode_import_item :: "codec \<Rightarrow> json \<Rightarrow> import_item option" where
  "decode_import_item cd v =
     (case struct_fields [''folder_key'', ''external_id'', ''title'', ''description'', ''labels'', ''category'',
             ''source_url'', ''thumbnail_url'', ''license'', ''author'', ''metadata_json'', ''notes''] v of
        None \<Rightarrow> None
      | Some fs \<Rightarrow>
          (let p = (\<lambda>name. pointer_field name fs None) in
           case (string_field ''folder_key'' fs [], string_field ''external_id'' fs [], string_field ''title'' fs [],
                 texts_field ''labels'' fs []) of
             (Some fk, Some ei, Some title, Some labels) \<Rightarrow>
               (case (p ''description'', p ''category'', p ''source_url'', p ''thumbnail_url'', p ''license'',
                      p ''author'', p ''notes'') of
                  (Some ds, Some ca, Some su, Some tu, Some li, Some au, Some no) \<Rightarrow>
                    Some \<lparr>imi_folder = fk, imi_external_id = ei, imi_title = title, imi_description = ds,
                          imi_labels = labels, imi_category = ca, imi_source_url = su, imi_thumbnail_url = tu,
                          imi_license = li, imi_author = au, imi_json = raw_field cd ''metadata_json'' fs [],
                          imi_notes = no\<rparr>
                | _ \<Rightarrow> None)
           | _ \<Rightarrow> None))"

definition decode_dataset :: "codec \<Rightarrow> json \<Rightarrow> import_dataset option" where
  "decode_dataset cd v =
     (case struct_fields [''version'', ''external_source'', ''folders'', ''metadata''] v of
        None \<Rightarrow> None
      | Some fs \<Rightarrow>
          (case (int_field ''version'' fs 0, string_field ''external_source'' fs [],
                 array_field decode_import_folder ''folders'' fs [],
                 array_field (decode_import_item cd) ''metadata'' fs []) of
             (Some n, Some s, Some folders, Some items) \<Rightarrow>
               Some \<lparr>ids_version = n, ids_source = s, ids_folders = folders, ids_items = items\<rparr>
           | _ \<Rightarrow> None))"

text \<open>\<open>dec.More\<close>: another element follows, which a closing bracket or brace is not.\<close>

definition json_space :: "char \<Rightarrow> bool" where
  "json_space c \<longleftrightarrow> byte_of c \<in> {32, 9, 13, 10}"

definition more_follows :: "string \<Rightarrow> bool" where
  "more_follows rest =
     (case dropWhile json_space rest of [] \<Rightarrow> False | c # _ \<Rightarrow> c \<noteq> CHR '']'' \<and> c \<noteq> CHR ''}'')"

type_synonym stream_decoder = "string \<Rightarrow> (json \<times> string) option"

definition read_dataset :: "codec \<Rightarrow> stream_decoder \<Rightarrow> string \<Rightarrow> import_failure + import_dataset" where
  "read_dataset cd first payload =
     (case first payload of
        None \<Rightarrow> Inl (import_fault ''InvalidSchema'' [] [] 0)
      | Some (v, rest) \<Rightarrow>
          (case decode_dataset cd v of
             None \<Rightarrow> Inl (import_fault ''InvalidSchema'' [] [] 0)
           | Some ds \<Rightarrow>
               if more_follows rest
               then Inl (import_fault ''InvalidSchema'' ''trailing garbage found after JSON document'' [] 0)
               else Inr ds))"

section \<open>Validation\<close>

definition MaxImportMetadataCount :: nat where "MaxImportMetadataCount = 10000"
definition MaxImportFolderCount :: nat where "MaxImportFolderCount = 1000"

definition allowedExternalSources :: "string list" where
  "allowedExternalSources = [''open_images_v7'', ''kaggle_open_images'']"

definition limit_fault :: "nat \<Rightarrow> string \<Rightarrow> import_failure" where
  "limit_fault n what = import_fault ''LimitExceeded'' (''max '' @ format_int (int n) @ '' '' @ what @ '' allowed'') [] 0"

text \<open>The loop over the folders, with the index and the keys seen so far.\<close>

fun validate_folders :: "nat \<Rightarrow> string list \<Rightarrow> import_folder list \<Rightarrow> import_failure + import_folder list" where
  "validate_folders i keys [] = Inr []"
| "validate_folders i keys (f # fs) =
     (let name = trim_space (imf_name f) in
      if imf_key f = [] then Inl (import_fault ''InvalidFolder'' ''folder key cannot be blank'' [] i)
      else if imf_key f \<in> set keys then Inl (import_fault ''DuplicateFolderKey'' ''folder keys must be unique'' (imf_key f) 0)
      else if name = [] \<or> 255 < rune_count name
      then Inl (import_fault ''InvalidFolder'' ''name must be non-blank and <= 255 runes'' (imf_key f) 0)
      else and_then (validate_folders (i + 1) (imf_key f # keys) fs)
             (\<lambda>rest. Inr (f\<lparr>imf_name := name, imf_description := trimmed_filter (imf_description f)\<rparr> # rest)))"

definition item_fault :: "nat \<Rightarrow> string \<Rightarrow> import_failure" where
  "item_fault i message = import_fault ''InvalidMetadata'' message [] i"

definition invalid_input_text :: string where "invalid_input_text = ''invalid input''"

definition normal_labels :: "nat \<Rightarrow> string list \<Rightarrow> import_failure + string list" where
  "normal_labels i ls = map_error (\<lambda>_. item_fault i invalid_input_text) (normalizeLabels ls)"

definition normal_json :: "codec \<Rightarrow> nat \<Rightarrow> string \<Rightarrow> import_failure + string" where
  "normal_json cd i s = map_error (\<lambda>_. item_fault i invalid_input_text) (stored_json cd s)"

definition text_limits :: "nat \<Rightarrow> import_item \<Rightarrow> import_failure + unit" where
  "text_limits i m =
     map_error (\<lambda>_. item_fault i ''field length limit exceeded'')
       (validateMetadataItemTextLimits (imi_description m) (imi_category m) (imi_source_url m) (imi_thumbnail_url m)
          (imi_license m) (imi_author m) (imi_notes m))"

fun validate_items ::
  "codec \<Rightarrow> string list \<Rightarrow> nat \<Rightarrow> string list \<Rightarrow> import_item list \<Rightarrow> import_failure + import_item list" where
  "validate_items cd keys i ids [] = Inr []"
| "validate_items cd keys i ids (m # ms) =
     (let eid = trim_space (imi_external_id m); title = trim_space (imi_title m) in
      if imi_folder m \<notin> set keys then Inl (item_fault i (''unknown folder_key '' @ quoted (imi_folder m)))
      else if eid = [] \<or> 255 < rune_count eid
      then Inl (item_fault i ''external_id must be non-blank and max 255 chars'')
      else if eid \<in> set ids
      then Inl (import_fault ''DuplicateExternalID'' (''external_id '' @ quoted eid @ '' is duplicated within file'') [] i)
      else if title = [] \<or> 255 < rune_count title
      then Inl (item_fault i ''title must be non-blank and <= 255 runes'')
      else
        and_then (normal_labels i (imi_labels m)) (\<lambda>labels.
        and_then (normal_json cd i (imi_json m)) (\<lambda>json.
        and_then (text_limits i m) (\<lambda>_.
        and_then (validate_items cd keys (i + 1) (eid # ids) ms) (\<lambda>rest.
        Inr (m\<lparr>imi_external_id := eid, imi_title := title, imi_labels := labels, imi_json := json\<rparr> # rest))))))"

definition validated_dataset :: "codec \<Rightarrow> stream_decoder \<Rightarrow> string \<Rightarrow> import_failure + import_dataset" where
  "validated_dataset cd first payload =
     and_then (read_dataset cd first payload) (\<lambda>ds.
     let source = trim_space (ids_source ds) in
     if ids_version ds \<noteq> 1 then Inl (import_fault ''InvalidVersion'' ''only version 1 is supported'' [] 0)
     else if source \<notin> set allowedExternalSources
     then Inl (import_fault ''InvalidSource'' ''unsupported or blank external_source'' [] 0)
     else if MaxImportFolderCount < length (ids_folders ds) then Inl (limit_fault MaxImportFolderCount ''folders'')
     else if MaxImportMetadataCount < length (ids_items ds) then Inl (limit_fault MaxImportMetadataCount ''metadata items'')
     else
       and_then (validate_folders 0 [] (ids_folders ds)) (\<lambda>folders.
       let keys = map imf_key folders in
       and_then (topologicalSortFolders folders (\<lambda>k. k \<in> set keys)) (\<lambda>ordered.
       and_then (validate_items cd keys 0 [] (ids_items ds)) (\<lambda>items.
       Inr (ds\<lparr>ids_source := source, ids_folders := ordered, ids_items := items\<rparr>)))))"

section \<open>The transaction\<close>

text \<open>What the closure of the transaction works with: the tables, the two key maps, the totals, fresh identifiers used.\<close>

record import_progress =
  ip_db :: catalog
  ip_paths :: "string \<Rightarrow> ltree"
  ip_ids :: "string \<Rightarrow> string"
  ip_sum :: import_summary
  ip_fresh :: nat

fun import_loop ::
  "('a \<Rightarrow> import_progress \<Rightarrow> import_progress \<times> import_failure option) \<Rightarrow> 'a list \<Rightarrow> import_progress
   \<Rightarrow> import_progress \<times> import_failure option" where
  "import_loop step [] st = (st, None)"
| "import_loop step (x # xs) st =
     (case step x st of (st1, Some e) \<Rightarrow> (st1, Some e) | (st1, None) \<Rightarrow> import_loop step xs st1)"

definition imported_folder_row :: "string \<Rightarrow> string \<Rightarrow> string \<Rightarrow> ltree \<Rightarrow> import_folder \<Rightarrow> folder" where
  "imported_folder_row fid org user parent f =
     \<lparr>fd_id = fid, fd_org = org, fd_path = parent @ [segment_of fid], fd_name = imf_name f,
      fd_description = imf_description f, fd_created_by = user, fd_updated_by = Some user, fd_deleted_at = None,
      fd_unit = None\<rparr>"

definition remember_folder :: "string \<Rightarrow> folder \<Rightarrow> import_progress \<Rightarrow> import_progress" where
  "remember_folder k f st = st\<lparr>ip_paths := (ip_paths st)(k := fd_path f), ip_ids := (ip_ids st)(k := fd_id f)\<rparr>"

definition import_folder_step ::
  "(nat \<Rightarrow> string) \<Rightarrow> string \<Rightarrow> string \<Rightarrow> import_folder \<Rightarrow> import_progress \<Rightarrow> import_progress \<times> import_failure option" where
  "import_folder_step ids org user f st =
     (let parent = (case imf_parent f of None \<Rightarrow> [] | Some k \<Rightarrow> ip_paths st k) in
      case first_row fd_id (sibling_named org parent (imf_name f)) (c_folders (ip_db st)) of
        Some g \<Rightarrow>
          ((remember_folder (imf_key f) g st)
             \<lparr>ip_sum := (ip_sum st)\<lparr>sm_folders_reused := sm_folders_reused (ip_sum st) + 1\<rparr>\<rparr>, None)
      | None \<Rightarrow>
          let g = imported_folder_row (ids (ip_fresh st)) org user parent f;
              st1 = st\<lparr>ip_fresh := ip_fresh st + 1\<rparr> in
          (case on_folders (\<lambda>fs. fs @ [g]) (ip_db st) of
             Inl e \<Rightarrow> (st1, Some (DatabaseFailure e))
           | Inr d1 \<Rightarrow>
               ((remember_folder (imf_key f) g st1)
                  \<lparr>ip_db := d1,
                   ip_sum := (ip_sum st)\<lparr>sm_folders_created := sm_folders_created (ip_sum st) + 1\<rparr>\<rparr>, None)))"

text \<open>\<open>jsonObjectsEqual\<close>: the members of both objects with their values (\<open>null\<close> is the nil map), else the texts.\<close>

definition object_members :: "codec \<Rightarrow> string \<Rightarrow> (string \<times> json) list option option" where
  "object_members cd s =
     (case json_parse cd s of
        Some (JObj fs) \<Rightarrow> Some (Some fs) | Some JNull \<Rightarrow> Some None | _ \<Rightarrow> None)"

definition same_members :: "codec \<Rightarrow> (string \<times> json) list \<Rightarrow> (string \<times> json) list \<Rightarrow> bool" where
  "same_members cd fs gs \<longleftrightarrow>
     list_all (\<lambda>k. map_option (json_text cd) (map_of (rev fs) k) = map_option (json_text cd) (map_of (rev gs) k))
       (map fst fs @ map fst gs)"

definition jsonObjectsEqual :: "codec \<Rightarrow> string \<Rightarrow> string \<Rightarrow> bool" where
  "jsonObjectsEqual cd a b =
     (case (object_members cd a, object_members cd b) of
        (Some (Some fs), Some (Some gs)) \<Rightarrow> same_members cd fs gs
      | (Some l, Some r) \<Rightarrow> (l = None) = (r = None)
      | _ \<Rightarrow> a = b)"

definition item_unchanged :: "codec \<Rightarrow> (string \<Rightarrow> string) \<Rightarrow> string \<Rightarrow> import_item \<Rightarrow> item \<Rightarrow> bool" where
  "item_unchanged cd printed fid m x \<longleftrightarrow>
     it_folder x = fid \<and> it_title x = imi_title m \<and> it_description x = imi_description m
     \<and> it_category x = imi_category m \<and> it_source_url x = imi_source_url m
     \<and> it_thumbnail_url x = imi_thumbnail_url m \<and> it_license x = imi_license m \<and> it_author x = imi_author m
     \<and> it_notes x = imi_notes m \<and> it_labels x = imi_labels m
     \<and> jsonObjectsEqual cd (printed (it_json x)) (imi_json m)"

definition has_identity :: "string \<Rightarrow> string \<Rightarrow> item \<Rightarrow> bool" where
  "has_identity source eid x \<longleftrightarrow> it_external_source x = Some source \<and> it_external_id x = Some eid"

text \<open>The active row of an identity, else a tombstoned one.\<close>

definition identity_row :: "string \<Rightarrow> string \<Rightarrow> catalog \<Rightarrow> item option" where
  "identity_row source eid d =
     (case first_row it_id (\<lambda>x. has_identity source eid x \<and> item_active x) (c_items d) of
        Some x \<Rightarrow> Some x
      | None \<Rightarrow> first_row it_id (\<lambda>x. has_identity source eid x \<and> \<not> item_active x) (c_items d))"

definition reimported_row :: "instant \<Rightarrow> string \<Rightarrow> string \<Rightarrow> import_item \<Rightarrow> item \<Rightarrow> item" where
  "reimported_row tnow user fid m x =
     x\<lparr>it_folder := fid, it_title := imi_title m, it_description := imi_description m, it_labels := imi_labels m,
       it_category := imi_category m, it_source_url := imi_source_url m, it_thumbnail_url := imi_thumbnail_url m,
       it_license := imi_license m, it_author := imi_author m, it_json := imi_json m, it_notes := imi_notes m,
       it_updated_by := Some user, it_updated_at := tnow, it_deleted_at := None,
       it_unit := (if item_active x then it_unit x else None)\<rparr>"

definition imported_item_row :: "string \<Rightarrow> instant \<Rightarrow> string \<Rightarrow> string \<Rightarrow> string \<Rightarrow> import_item \<Rightarrow> item" where
  "imported_item_row iid tnow user source fid m =
     \<lparr>it_id = iid, it_folder = fid, it_title = imi_title m, it_description = imi_description m,
      it_labels = imi_labels m, it_category = imi_category m, it_external_source = Some source,
      it_external_id = Some (imi_external_id m), it_source_url = imi_source_url m,
      it_thumbnail_url = imi_thumbnail_url m, it_license = imi_license m, it_author = imi_author m,
      it_json = imi_json m, it_notes = imi_notes m, it_created_by = user, it_updated_by = Some user,
      it_created_at = tnow, it_updated_at = tnow, it_deleted_at = None, it_unit = None\<rparr>"

definition update_item_work :: "instant \<Rightarrow> string \<Rightarrow> string \<Rightarrow> string \<Rightarrow> import_item \<Rightarrow> item \<Rightarrow> catalog \<Rightarrow> catalog reply" where
  "update_item_work tnow org user fid m x d =
     and_then (on_items (sql_update (\<lambda>y. it_id y = it_id x) (reimported_row tnow user fid m)) d) (\<lambda>d1.
     if item_active x then Inr d1 else completeLifecycleRestore org LifecycleResourceMetadata (it_id x) d1)"

definition written :: "import_progress \<Rightarrow> catalog reply \<Rightarrow> import_progress \<times> import_failure option" where
  "written st r = (case r of Inl e \<Rightarrow> (st, Some (DatabaseFailure e)) | Inr d1 \<Rightarrow> (st\<lparr>ip_db := d1\<rparr>, None))"

definition import_item_step ::
  "codec \<Rightarrow> (string \<Rightarrow> string) \<Rightarrow> (nat \<Rightarrow> string) \<Rightarrow> instant \<Rightarrow> string \<Rightarrow> string \<Rightarrow> string \<Rightarrow> import_item \<Rightarrow> import_progress
   \<Rightarrow> import_progress \<times> import_failure option" where
  "import_item_step cd printed ids tnow org user source m st =
     (let fid = ip_ids st (imi_folder m); sm = ip_sum st; d = ip_db st in
      case identity_row source (imi_external_id m) d of
        Some x \<Rightarrow>
          if \<not> item_in_org d org x
          then (st, Some (import_fault ''ConflictError'' ''identity belongs to another org'' (imi_external_id m) 0))
          else if item_active x \<and> item_unchanged cd printed fid m x
          then (st\<lparr>ip_sum := sm\<lparr>sm_items_unchanged := sm_items_unchanged sm + 1\<rparr>\<rparr>, None)
          else written (st\<lparr>ip_sum := sm\<lparr>sm_items_updated := sm_items_updated sm + 1\<rparr>\<rparr>)
                 (update_item_work tnow org user fid m x d)
      | None \<Rightarrow>
          let x = imported_item_row (ids (ip_fresh st)) tnow user source fid m;
              st1 = st\<lparr>ip_fresh := ip_fresh st + 1\<rparr> in
          (case on_items (\<lambda>xs. xs @ [x]) d of
             Inl e \<Rightarrow> (st1, Some (DatabaseFailure e))
           | Inr d1 \<Rightarrow> (st1\<lparr>ip_db := d1, ip_sum := sm\<lparr>sm_items_created := sm_items_created sm + 1\<rparr>\<rparr>, None)))"

definition import_start :: "string \<Rightarrow> string \<Rightarrow> bool \<Rightarrow> catalog \<Rightarrow> import_progress" where
  "import_start org user dry d =
     \<lparr>ip_db = EnsureRefs user org d, ip_paths = (\<lambda>_. []), ip_ids = (\<lambda>_. []),
      ip_sum = empty_summary\<lparr>sm_status := ''success'', sm_dry_run := dry\<rparr>, ip_fresh = 0\<rparr>"

definition import_work ::
  "codec \<Rightarrow> (string \<Rightarrow> string) \<Rightarrow> (nat \<Rightarrow> string) \<Rightarrow> instant \<Rightarrow> string \<Rightarrow> string \<Rightarrow> import_dataset \<Rightarrow> import_progress
   \<Rightarrow> import_progress \<times> import_failure option" where
  "import_work cd printed ids tnow org user ds st =
     (case import_loop (import_folder_step ids org user) (ids_folders ds) st of
        (st1, Some e) \<Rightarrow> (st1, Some e)
      | (st1, None) \<Rightarrow> import_loop (import_item_step cd printed ids tnow org user (ids_source ds)) (ids_items ds) st1)"

text \<open>A dry run ends with an error that rolls the transaction back, and still reports its totals.\<close>

definition ImportSampleTransaction ::
  "codec \<Rightarrow> (string \<Rightarrow> string) \<Rightarrow> (nat \<Rightarrow> string) \<Rightarrow> instant \<Rightarrow> string \<Rightarrow> string \<Rightarrow> import_dataset \<Rightarrow> bool \<Rightarrow> catalog
   \<Rightarrow> (import_summary \<times> import_failure option) \<times> catalog" where
  "ImportSampleTransaction cd printed ids tnow org user ds dry d =
     (case import_work cd printed ids tnow org user ds (import_start org user dry d) of
        (st, Some e) \<Rightarrow> (((ip_sum st)\<lparr>sm_status := ''error''\<rparr>, Some e), d)
      | (st, None) \<Rightarrow> ((ip_sum st, None), if dry then d else ip_db st))"

definition ImportSample ::
  "codec \<Rightarrow> stream_decoder \<Rightarrow> (string \<Rightarrow> string) \<Rightarrow> (nat \<Rightarrow> string) \<Rightarrow> instant \<Rightarrow> string \<Rightarrow> string \<Rightarrow> string \<Rightarrow> bool \<Rightarrow> catalog
   \<Rightarrow> (import_summary \<times> import_failure option) \<times> catalog" where
  "ImportSample cd first printed ids tnow org user payload dry d =
     (if org = [] then ((empty_summary, Some (PlainFailure ''orgID is required'')), d)
      else if user = [] then ((empty_summary, Some (PlainFailure ''userID is required'')), d)
      else (case validated_dataset cd first payload of
              Inl e \<Rightarrow> ((empty_summary, Some e), d)
            | Inr ds \<Rightarrow> ImportSampleTransaction cd printed ids tnow org user ds dry d))"

end
