(* ===== verification/Import_Runs.thy ===== *)
theory Import_Runs
  imports Asset_Import Folder_Tree
begin

text \<open>
  What an import leaves behind: every folder of the data set has its row, every item its active row with the content
  of the file. A second import finds all of them and writes nothing, and a dry run reports what a real one would do.
\<close>

section \<open>Rows found by name and by identity\<close>

lemma first_row_only:
  assumes "x \<in> set rs" "c x" "\<And>y. y \<in> set rs \<Longrightarrow> c y \<Longrightarrow> y = x"
  shows "first_row k c rs = Some x"
proof (cases "first_row k c rs")
  case None
  then show ?thesis using assms(1,2) by (simp add: first_row_None)
next
  case (Some y)
  then show ?thesis using first_row_SomeD [OF Some] assms(3) by blast
qed

lemma sibling_named_path: "sibling_named org p n f \<Longrightarrow> butlast (fd_path f) = p"
  by (cases "fd_path f" rule: rev_cases) (auto simp: sibling_named_def below_iff split: if_splits)

lemma sibling_named_unique:
  assumes "rows_unique folder_conflict fs" "f \<in> set fs" "g \<in> set fs" "sibling_named org p n f" "sibling_named org p n g"
  shows "f = g"
proof (rule ccontr)
  assume "f \<noteq> g"
  then have "\<not> folder_conflict f g" by (rule folder_conflict_free [OF assms(1-3)])
  moreover have "butlast (fd_path f) = butlast (fd_path g)"
    using sibling_named_path [OF assms(4)] sibling_named_path [OF assms(5)] by simp
  ultimately show False using assms(4,5) by (auto simp: folder_conflict_def sibling_named_def)
qed

lemma sibling_named_row: "sibling_named org p (imf_name f) (imported_folder_row fid org user p f)"
  by (simp add: sibling_named_def imported_folder_row_def folder_active_def below_iff)

lemma identity_row_SomeD:
  "identity_row source eid d = Some x \<Longrightarrow> x \<in> set (c_items d) \<and> has_identity source eid x"
  by (auto simp: identity_row_def split: option.splits dest: first_row_SomeD)

lemma identity_row_active:
  assumes "catalog_ok d" "x \<in> set (c_items d)" "has_identity source eid x" "item_active x"
  shows "identity_row source eid d = Some x"
proof -
  have one: "y = x" if "y \<in> set (c_items d)" "has_identity source eid y \<and> item_active y" for y
  proof (rule ccontr)
    assume "y \<noteq> x"
    then have "\<not> item_conflict y x" by (rule item_conflict_free [OF catalog_okD(2) [OF assms(1)] that(1) assms(2)])
    then show False using that(2) assms(3,4) by (simp add: item_conflict_def has_identity_def)
  qed
  have "first_row it_id (\<lambda>x. has_identity source eid x \<and> item_active x) (c_items d) = Some x"
    by (rule first_row_only [OF assms(2)]) (simp_all add: assms(3,4) one)
  then show ?thesis by (simp add: identity_row_def)
qed

section \<open>The folders\<close>

text \<open>What every step keeps of the tables.\<close>

definition frame :: "catalog \<Rightarrow> catalog \<Rightarrow> bool" where
  "frame d d' \<longleftrightarrow> catalog_ok d' \<and> c_users d' = c_users d \<and> c_orgs d' = c_orgs d
     \<and> set (c_folders d) \<subseteq> set (c_folders d')"

lemma frame_refl: "catalog_ok d \<Longrightarrow> frame d d" by (simp add: frame_def)

lemma frame_trans: "frame d d1 \<Longrightarrow> frame d1 d2 \<Longrightarrow> frame d d2" by (auto simp: frame_def)

definition parent_path :: "import_progress \<Rightarrow> import_folder \<Rightarrow> ltree" where
  "parent_path st f = (case imf_parent f of None \<Rightarrow> [] | Some k \<Rightarrow> ip_paths st k)"

lemma import_folder_step_None:
  assumes "catalog_ok (ip_db st)" and "import_folder_step ids org user f st = (st', None)"
  shows "\<exists>g\<in>set (c_folders (ip_db st')). sibling_named org (parent_path st f) (imf_name f) g
    \<and> ip_paths st' = (ip_paths st)(imf_key f := fd_path g) \<and> ip_ids st' = (ip_ids st)(imf_key f := fd_id g)
    \<and> frame (ip_db st) (ip_db st')"
proof (cases "first_row fd_id (sibling_named org (parent_path st f) (imf_name f)) (c_folders (ip_db st))")
  case None
  let ?g = "imported_folder_row (ids (ip_fresh st)) org user (parent_path st f) f"
  obtain d1 where "on_folders (\<lambda>fs. fs @ [?g]) (ip_db st) = Inr d1" "ip_db st' = d1"
      "ip_paths st' = (ip_paths st)(imf_key f := fd_path ?g)" "ip_ids st' = (ip_ids st)(imf_key f := fd_id ?g)"
    using assms(2) None
    by (auto simp: import_folder_step_def parent_path_def [symmetric] Let_def remember_folder_def simp del: on_table_Inr
        split: sum.splits)
  then show ?thesis by (intro bexI [of _ ?g]) (auto simp: frame_def sibling_named_row)
next
  case (Some g)
  then show ?thesis
    using assms first_row_SomeD [OF Some]
    by (auto simp: import_folder_step_def parent_path_def [symmetric] remember_folder_def frame_refl intro!: bexI [of _ g])
qed

lemma import_folder_step_found:
  assumes "catalog_ok (ip_db st)" "g \<in> set (c_folders (ip_db st))" "sibling_named org (parent_path st f) (imf_name f) g"
  shows "import_folder_step ids org user f st
    = ((remember_folder (imf_key f) g st)
         \<lparr>ip_sum := (ip_sum st)\<lparr>sm_folders_reused := sm_folders_reused (ip_sum st) + 1\<rparr>\<rparr>, None)"
proof -
  have "first_row fd_id (sibling_named org (parent_path st f) (imf_name f)) (c_folders (ip_db st)) = Some g"
    using assms sibling_named_unique [OF catalog_okD(1) [OF assms(1)]] by (intro first_row_only) blast+
  then show ?thesis by (simp add: import_folder_step_def parent_path_def [symmetric])
qed

lemma folders_frame:
  "import_loop (import_folder_step ids org user) fs st = (st', None) \<Longrightarrow> catalog_ok (ip_db st)
   \<Longrightarrow> frame (ip_db st) (ip_db st')"
proof (induction fs arbitrary: st)
  case (Cons f fs)
  obtain st1 where s: "import_folder_step ids org user f st = (st1, None)"
      and l: "import_loop (import_folder_step ids org user) fs st1 = (st', None)"
    using Cons.prems(1) by (auto split: prod.splits option.splits)
  have "frame (ip_db st) (ip_db st1)" using import_folder_step_None [OF Cons.prems(2) s] by blast
  moreover from this have "frame (ip_db st1) (ip_db st')" by (intro Cons.IH [OF l]) (simp add: frame_def)
  ultimately show ?case by (rule frame_trans)
qed (simp add: frame_refl)

text \<open>Every key that was processed names a folder of the organization.\<close>

definition known_keys :: "string \<Rightarrow> string set \<Rightarrow> import_progress \<Rightarrow> bool" where
  "known_keys org K st \<longleftrightarrow> (\<forall>k\<in>K. \<exists>g\<in>set (c_folders (ip_db st)). fd_org g = org \<and> fd_id g = ip_ids st k)"

lemma folders_known:
  "import_loop (import_folder_step ids org user) fs st = (st', None) \<Longrightarrow> catalog_ok (ip_db st) \<Longrightarrow> known_keys org K st
   \<Longrightarrow> known_keys org (K \<union> imf_key ` set fs) st'"
proof (induction fs arbitrary: st K)
  case (Cons f fs)
  obtain st1 where s: "import_folder_step ids org user f st = (st1, None)"
      and l: "import_loop (import_folder_step ids org user) fs st1 = (st', None)"
    using Cons.prems(1) by (auto split: prod.splits option.splits)
  obtain g where g: "g \<in> set (c_folders (ip_db st1))" "fd_org g = org" "ip_ids st1 = (ip_ids st)(imf_key f := fd_id g)"
      "frame (ip_db st) (ip_db st1)"
    using import_folder_step_None [OF Cons.prems(2) s] by (auto simp: sibling_named_def)
  have "known_keys org (insert (imf_key f) K) st1"
    using Cons.prems(3) g by (auto simp: known_keys_def frame_def)
  moreover have "catalog_ok (ip_db st1)" using g(4) by (simp add: frame_def)
  ultimately have "known_keys org (insert (imf_key f) K \<union> imf_key ` set fs) st'" by (intro Cons.IH [OF l])
  then show ?case by simp
qed simp

text \<open>Running the folders again on tables that hold their rows follows the same paths and only counts them as reused.\<close>

definition same_keys :: "import_progress \<Rightarrow> import_progress \<Rightarrow> bool" where
  "same_keys st t \<longleftrightarrow> ip_paths t = ip_paths st \<and> ip_ids t = ip_ids st"

lemma folders_again:
  "import_loop (import_folder_step ids org user) fs st = (st', None) \<Longrightarrow> catalog_ok (ip_db st)
   \<Longrightarrow> set (c_folders (ip_db st')) \<subseteq> set (c_folders (ip_db t)) \<Longrightarrow> catalog_ok (ip_db t) \<Longrightarrow> same_keys st t
   \<Longrightarrow> \<exists>t'. import_loop (import_folder_step ids' org user') fs t = (t', None) \<and> same_keys st' t' \<and> ip_db t' = ip_db t
     \<and> ip_sum t' = (ip_sum t)\<lparr>sm_folders_reused := sm_folders_reused (ip_sum t) + length fs\<rparr>"
proof (induction fs arbitrary: st t)
  case (Cons f fs)
  obtain st1 where s: "import_folder_step ids org user f st = (st1, None)"
      and l: "import_loop (import_folder_step ids org user) fs st1 = (st', None)"
    using Cons.prems(1) by (auto split: prod.splits option.splits)
  obtain g where g: "g \<in> set (c_folders (ip_db st1))" "sibling_named org (parent_path st f) (imf_name f) g"
      "ip_paths st1 = (ip_paths st)(imf_key f := fd_path g)" "ip_ids st1 = (ip_ids st)(imf_key f := fd_id g)"
      "frame (ip_db st) (ip_db st1)"
    using import_folder_step_None [OF Cons.prems(2) s] by blast
  have ok1: "catalog_ok (ip_db st1)" using g(5) by (simp add: frame_def)
  have mem: "g \<in> set (c_folders (ip_db t))"
    using g(1) folders_frame [OF l ok1] Cons.prems(3) by (auto simp: frame_def)
  let ?t1 = "(remember_folder (imf_key f) g t)
         \<lparr>ip_sum := (ip_sum t)\<lparr>sm_folders_reused := sm_folders_reused (ip_sum t) + 1\<rparr>\<rparr>"
  have "parent_path t f = parent_path st f" using Cons.prems(5) by (simp add: parent_path_def same_keys_def split: option.splits)
  then have step: "import_folder_step ids' org user' f t = (?t1, None)"
    using g(2) by (intro import_folder_step_found Cons.prems(4) mem) simp
  have "same_keys st1 ?t1" using Cons.prems(5) g(3,4) by (simp add: same_keys_def remember_folder_def)
  then obtain t' where "import_loop (import_folder_step ids' org user') fs ?t1 = (t', None)" "same_keys st' t'"
      "ip_db t' = ip_db ?t1"
      "ip_sum t' = (ip_sum ?t1)\<lparr>sm_folders_reused := sm_folders_reused (ip_sum ?t1) + length fs\<rparr>"
    using Cons.IH [OF l ok1, of ?t1] Cons.prems(3,4) by (auto simp: remember_folder_def)
  then show ?case using step by (intro exI [of _ t']) (simp add: remember_folder_def)
qed simp

section \<open>The items\<close>

text \<open>
  An item of the file is settled when its active row counts as unchanged, or has the content of the file to the
  letter. The two differ in the JSON object: PostgreSQL may print it in another form than the file has it.
\<close>

definition faithful_json :: "codec \<Rightarrow> (string \<Rightarrow> string) \<Rightarrow> import_item \<Rightarrow> bool" where
  "faithful_json cd printed m \<longleftrightarrow> jsonObjectsEqual cd (printed (imi_json m)) (imi_json m)"

definition as_file :: "string \<Rightarrow> import_item \<Rightarrow> item \<Rightarrow> bool" where
  "as_file fid m x \<longleftrightarrow>
     it_folder x = fid \<and> it_title x = imi_title m \<and> it_description x = imi_description m
     \<and> it_category x = imi_category m \<and> it_source_url x = imi_source_url m
     \<and> it_thumbnail_url x = imi_thumbnail_url m \<and> it_license x = imi_license m \<and> it_author x = imi_author m
     \<and> it_notes x = imi_notes m \<and> it_labels x = imi_labels m \<and> it_json x = imi_json m"

definition settled :: "codec \<Rightarrow> (string \<Rightarrow> string) \<Rightarrow> string \<Rightarrow> string \<Rightarrow> import_item \<Rightarrow> catalog \<Rightarrow> bool" where
  "settled cd printed source fid m d \<longleftrightarrow>
     (\<exists>x\<in>set (c_items d). item_active x \<and> has_identity source (imi_external_id m) x
        \<and> (item_unchanged cd printed fid m x \<or> as_file fid m x))"

lemma as_file_unchanged: "as_file fid m x \<Longrightarrow> item_unchanged cd printed fid m x = faithful_json cd printed m"
  by (simp add: as_file_def item_unchanged_def faithful_json_def)

text \<open>What a step for one item leaves alone: the keys, the folders, and the settled items of other identities.\<close>

definition item_frame :: "codec \<Rightarrow> (string \<Rightarrow> string) \<Rightarrow> string \<Rightarrow> string \<Rightarrow> import_progress \<Rightarrow> import_progress \<Rightarrow> bool" where
  "item_frame cd printed source eid st st' \<longleftrightarrow>
     ip_ids st' = ip_ids st \<and> catalog_ok (ip_db st') \<and> c_folders (ip_db st') = c_folders (ip_db st)
     \<and> c_users (ip_db st') = c_users (ip_db st) \<and> c_orgs (ip_db st') = c_orgs (ip_db st)
     \<and> (\<forall>n fid. imi_external_id n \<noteq> eid \<longrightarrow> settled cd printed source fid n (ip_db st)
           \<longrightarrow> settled cd printed source fid n (ip_db st'))"

lemma reimported_as_file [simp]:
  "as_file fid m (reimported_row tnow user fid m x)" "as_file fid m (imported_item_row iid tnow user source fid m)"
  by (simp_all add: as_file_def reimported_row_def imported_item_row_def)

lemma reimported_identity:
  "has_identity source eid (reimported_row tnow user fid m x) = has_identity source eid x"
  "item_active (reimported_row tnow user fid m x)"
  "has_identity source (imi_external_id m) (imported_item_row iid tnow user source fid m)"
  "item_active (imported_item_row iid tnow user source fid m)"
  by (simp_all add: has_identity_def reimported_row_def imported_item_row_def item_active_def)

lemma update_item_work_Inr:
  assumes "update_item_work tnow org user fid m x d = Inr d'"
  shows "catalog_ok d' \<and> c_items d' = sql_update (\<lambda>y. it_id y = it_id x) (reimported_row tnow user fid m) (c_items d)
    \<and> c_folders d' = c_folders d \<and> c_users d' = c_users d \<and> c_orgs d' = c_orgs d"
  using assms by (auto simp: update_item_work_def completeLifecycleRestore_def split: if_splits)

lemma updated_settled:
  assumes ok: "catalog_ok d" and x: "x \<in> set (c_items d)" "has_identity source (imi_external_id m) x"
    and rows: "c_items d' = sql_update (\<lambda>y. it_id y = it_id x) (reimported_row tnow user fid m) (c_items d)"
  shows "settled cd printed source fid m d'"
    and "imi_external_id n \<noteq> imi_external_id m \<Longrightarrow> settled cd printed source f n d \<Longrightarrow> settled cd printed source f n d'"
proof -
  have "reimported_row tnow user fid m x \<in> set (c_items d')"
    unfolding rows by (rule sql_update_memI1 [OF x(1)]) simp
  then show "settled cd printed source fid m d'"
    unfolding settled_def
    by (intro bexI [of _ "reimported_row tnow user fid m x"] conjI)
      (simp_all add: x(2) reimported_identity)
  assume n: "imi_external_id n \<noteq> imi_external_id m" and "settled cd printed source f n d"
  then obtain y where y: "y \<in> set (c_items d)" "item_active y" "has_identity source (imi_external_id n) y"
      "item_unchanged cd printed f n y \<or> as_file f n y" by (auto simp: settled_def)
  have "y \<noteq> x" using n x(2) y(3) by (auto simp: has_identity_def)
  then have "it_id y \<noteq> it_id x" using same_row(2) [OF ok y(1) x(1)] by blast
  then have "y \<in> set (c_items d')" unfolding rows by (intro sql_update_memI2 [OF y(1)])
  then show "settled cd printed source f n d'" using y by (auto simp: settled_def)
qed

lemma import_item_step_None:
  assumes ok: "catalog_ok (ip_db st)"
    and run: "import_item_step cd printed ids tnow org user source m st = (st', None)"
  shows "settled cd printed source (ip_ids st (imi_folder m)) m (ip_db st')
    \<and> item_frame cd printed source (imi_external_id m) st st'"
proof (cases "identity_row source (imi_external_id m) (ip_db st)")
  case None
  let ?x = "imported_item_row (ids (ip_fresh st)) tnow user source (ip_ids st (imi_folder m)) m"
  obtain d1 where "on_items (\<lambda>xs. xs @ [?x]) (ip_db st) = Inr d1" "ip_db st' = d1" "ip_ids st' = ip_ids st"
    using run None by (auto simp: import_item_step_def Let_def simp del: on_table_Inr split: sum.splits)
  then show ?thesis
    by (auto simp: item_frame_def settled_def reimported_identity)
next
  case (Some x)
  let ?fid = "ip_ids st (imi_folder m)"
  have x: "x \<in> set (c_items (ip_db st))" "has_identity source (imi_external_id m) x"
    using identity_row_SomeD [OF Some] by auto
  show ?thesis
  proof (cases "item_active x \<and> item_unchanged cd printed ?fid m x")
    case True
    then have "ip_db st' = ip_db st" "ip_ids st' = ip_ids st"
      using run Some by (auto simp: import_item_step_def Let_def split: if_splits)
    then show ?thesis using True x ok by (auto simp: settled_def item_frame_def)
  next
    case False
    then obtain d1 where d1: "update_item_work tnow org user ?fid m x (ip_db st) = Inr d1" "ip_db st' = d1" "ip_ids st' = ip_ids st"
      using run Some by (auto simp: import_item_step_def Let_def written_def split: if_splits sum.splits)
    then show ?thesis
      using update_item_work_Inr [OF d1(1)] updated_settled [OF ok x] by (auto simp: item_frame_def)
  qed
qed

lemma items_settled:
  "import_loop (import_item_step cd printed ids tnow org user source) ms st = (st', None) \<Longrightarrow> catalog_ok (ip_db st)
   \<Longrightarrow> distinct (map imi_external_id ms)
   \<Longrightarrow> (\<forall>m\<in>set ms. settled cd printed source (ip_ids st (imi_folder m)) m (ip_db st'))
     \<and> (\<forall>n fid. imi_external_id n \<notin> imi_external_id ` set ms \<longrightarrow> settled cd printed source fid n (ip_db st)
           \<longrightarrow> settled cd printed source fid n (ip_db st'))
     \<and> ip_ids st' = ip_ids st \<and> catalog_ok (ip_db st') \<and> c_folders (ip_db st') = c_folders (ip_db st)
     \<and> c_users (ip_db st') = c_users (ip_db st) \<and> c_orgs (ip_db st') = c_orgs (ip_db st)"
proof (induction ms arbitrary: st)
  case (Cons m ms)
  obtain st1 where s: "import_item_step cd printed ids tnow org user source m st = (st1, None)"
      and l: "import_loop (import_item_step cd printed ids tnow org user source) ms st1 = (st', None)"
    using Cons.prems(1) by (auto split: prod.splits option.splits)
  have one: "settled cd printed source (ip_ids st (imi_folder m)) m (ip_db st1)"
      "item_frame cd printed source (imi_external_id m) st st1"
    using import_item_step_None [OF Cons.prems(2) s] by auto
  have "catalog_ok (ip_db st1)" using one(2) by (simp add: item_frame_def)
  from Cons.IH [OF l this] Cons.prems(3) one show ?case by (auto simp: item_frame_def)
qed simp

text \<open>
  Running the items again on tables in which all of them are settled rewrites at most the rows whose JSON object is
  not printed as the file has it, and of these rows only who updated them and when.
\<close>

definition without_stamp :: "item \<Rightarrow> item" where
  "without_stamp x = x\<lparr>it_updated_by := None, it_updated_at := 0\<rparr>"

definition only_stamps :: "catalog \<Rightarrow> catalog \<Rightarrow> bool" where
  "only_stamps d d' \<longleftrightarrow> (\<exists>xs. d' = d\<lparr>c_items := xs\<rparr> \<and> map without_stamp xs = map without_stamp (c_items d))"

lemma only_stamps_refl [simp]: "only_stamps d d"
  by (auto simp: only_stamps_def intro!: exI [of _ "c_items d"])

lemma only_stamps_trans: "only_stamps a b \<Longrightarrow> only_stamps b c \<Longrightarrow> only_stamps a c"
  by (fastforce simp: only_stamps_def)

lemma restamped_row:
  "as_file fid m x \<Longrightarrow> item_active x
     \<Longrightarrow> reimported_row tnow user fid m x = x\<lparr>it_updated_by := Some user, it_updated_at := tnow\<rparr>"
  by (cases x) (simp add: as_file_def reimported_row_def item_active_def)

text \<open>The update of a row that has the content of the file always commits.\<close>

lemma restamp_commits:
  assumes ok: "catalog_ok d" and x: "x \<in> set (c_items d)" "as_file fid m x" "item_active x" and u: "user \<in> set (c_users d)"
  shows "\<exists>d'. update_item_work tnow org user fid m x d = Inr d' \<and> only_stamps d d' \<and> catalog_ok d'
    \<and> c_items d' = sql_update (\<lambda>y. it_id y = it_id x) (reimported_row tnow user fid m) (c_items d)"
proof -
  let ?g = "\<lambda>y. if it_id y = it_id x then reimported_row tnow user fid m y else y"
  let ?xs = "map ?g (c_items d)"
  have one: "y = x" if "y \<in> set (c_items d)" "it_id y = it_id x" for y using same_row(2) [OF ok that(1) x(1) that(2)] .
  have g: "?g y = (if y = x then x\<lparr>it_updated_by := Some user, it_updated_at := tnow\<rparr> else y)" if "y \<in> set (c_items d)" for y
    using one [OF that] restamped_row [OF x(2,3)] by auto
  have "catalog_ok (d\<lparr>c_items := ?xs\<rparr>)"
  proof (rule ok_items [OF ok])
    show "rows_unique item_conflict ?xs"
      by (rule rows_unique_map [OF catalog_okD(2) [OF ok]])
        (simp only: g, auto simp: item_conflict_def item_active_def split: if_splits)
    fix y assume "y \<in> set ?xs"
    then obtain z where z: "z \<in> set (c_items d)" "y = ?g z" by auto
    then have y: "y = (if z = x then x\<lparr>it_updated_by := Some user, it_updated_at := tnow\<rparr> else z)" using g [OF z(1)] by simp
    have "item_check z" "item_refs d z" using catalog_ok_checks(2) [OF ok z(1)] catalog_ok_refs(2) [OF ok z(1)] by blast+
    then show "item_check y \<and> item_refs d y" using u by (auto simp: y item_check_def item_refs_def in_opt_def)
  qed
  moreover have "map without_stamp ?xs = map without_stamp (c_items d)"
    by (simp add: g without_stamp_def cong: map_cong)
  ultimately show ?thesis using x(3) by (auto simp: update_item_work_def sql_update_def only_stamps_def)
qed

lemma items_again:
  "(\<forall>m\<in>set ms. settled cd printed source (ip_ids t (imi_folder m)) m (ip_db t)) \<Longrightarrow> catalog_ok (ip_db t)
   \<Longrightarrow> known_keys org (imi_folder ` set ms) t \<Longrightarrow> user \<in> set (c_users (ip_db t)) \<Longrightarrow> distinct (map imi_external_id ms)
   \<Longrightarrow> \<exists>k t'. import_loop (import_item_step cd printed ids tnow org user source) ms t = (t', None)
     \<and> ip_sum t' = (ip_sum t)\<lparr>sm_items_updated := sm_items_updated (ip_sum t) + k,
          sm_items_unchanged := sm_items_unchanged (ip_sum t) + (length ms - k)\<rparr>
     \<and> k \<le> length (filter (\<lambda>m. \<not> faithful_json cd printed m) ms)
     \<and> only_stamps (ip_db t) (ip_db t') \<and> (k = 0 \<longrightarrow> ip_db t' = ip_db t)"
proof (induction ms arbitrary: t)
  case (Cons m ms)
  let ?fid = "ip_ids t (imi_folder m)"
  obtain x where x: "x \<in> set (c_items (ip_db t))" "item_active x" "has_identity source (imi_external_id m) x"
      "item_unchanged cd printed ?fid m x \<or> as_file ?fid m x"
    using Cons.prems(1) by (auto simp: settled_def)
  obtain g :: folder where g: "g \<in> set (c_folders (ip_db t))" "fd_org g = org" "fd_id g = ?fid"
    using Cons.prems(3) by (auto simp: known_keys_def)
  have "folder_of (ip_db t) x = Some g"
    unfolding folder_of_def using x(4) g distinct_ids(1) [OF Cons.prems(2)]
    by (intro find_distinct) (auto simp: item_unchanged_def as_file_def)
  then have inorg: "item_in_org (ip_db t) org x" using g(2) by (simp add: item_in_org_def)
  note found = identity_row_active [OF Cons.prems(2) x(1,3,2)]
  show ?case
  proof (cases "item_unchanged cd printed ?fid m x")
    case True
    let ?t1 = "t\<lparr>ip_sum := (ip_sum t)\<lparr>sm_items_unchanged := sm_items_unchanged (ip_sum t) + 1\<rparr>\<rparr>"
    have step: "import_item_step cd printed ids tnow org user source m t = (?t1, None)"
      using found x True inorg by (simp add: import_item_step_def Let_def)
    have "known_keys org (imi_folder ` set ms) ?t1" using Cons.prems(3) by (auto simp: known_keys_def)
    from Cons.IH [of ?t1] Cons.prems(1,2,4,5) this obtain k t' where
      "import_loop (import_item_step cd printed ids tnow org user source) ms ?t1 = (t', None)"
      "ip_sum t' = (ip_sum ?t1)\<lparr>sm_items_updated := sm_items_updated (ip_sum ?t1) + k,
          sm_items_unchanged := sm_items_unchanged (ip_sum ?t1) + (length ms - k)\<rparr>"
      "k \<le> length (filter (\<lambda>m. \<not> faithful_json cd printed m) ms)"
      "only_stamps (ip_db t) (ip_db t')" "k = 0 \<longrightarrow> ip_db t' = ip_db t" by auto
    moreover from this(3) have "k \<le> length ms" using length_filter_le le_trans by blast
    ultimately show ?thesis using step by (intro exI [of _ k] exI [of _ t']) auto
  next
    case False
    then have af: "as_file ?fid m x" and nf: "\<not> faithful_json cd printed m"
      using x(4) as_file_unchanged [of ?fid m x cd printed] by auto
    obtain d1 where d1: "update_item_work tnow org user ?fid m x (ip_db t) = Inr d1" "only_stamps (ip_db t) d1" "catalog_ok d1"
      "c_items d1 = sql_update (\<lambda>y. it_id y = it_id x) (reimported_row tnow user ?fid m) (c_items (ip_db t))"
      using restamp_commits [OF Cons.prems(2) x(1) af x(2) Cons.prems(4)] by blast
    let ?t1 = "t\<lparr>ip_sum := (ip_sum t)\<lparr>sm_items_updated := sm_items_updated (ip_sum t) + 1\<rparr>, ip_db := d1\<rparr>"
    have step: "import_item_step cd printed ids tnow org user source m t = (?t1, None)"
      using found x False inorg d1(1) by (simp add: import_item_step_def Let_def written_def)
    have rest: "\<forall>n\<in>set ms. settled cd printed source (ip_ids ?t1 (imi_folder n)) n (ip_db ?t1)"
    proof
      fix n assume n: "n \<in> set ms"
      then have "imi_external_id n \<noteq> imi_external_id m" using Cons.prems(5) by (metis distinct.simps(2) image_eqI list.set_map list.simps(9))
      then show "settled cd printed source (ip_ids ?t1 (imi_folder n)) n (ip_db ?t1)"
        using updated_settled(2) [OF Cons.prems(2) x(1,3) d1(4)] Cons.prems(1) n by simp
    qed
    have "known_keys org (imi_folder ` set ms) ?t1" "user \<in> set (c_users d1)"
      using Cons.prems(3,4) d1(2) by (auto simp: known_keys_def only_stamps_def)
    from Cons.IH [OF rest] this d1(3) Cons.prems(5) obtain k t' where
      "import_loop (import_item_step cd printed ids tnow org user source) ms ?t1 = (t', None)"
      "ip_sum t' = (ip_sum ?t1)\<lparr>sm_items_updated := sm_items_updated (ip_sum ?t1) + k,
          sm_items_unchanged := sm_items_unchanged (ip_sum ?t1) + (length ms - k)\<rparr>"
      "k \<le> length (filter (\<lambda>m. \<not> faithful_json cd printed m) ms)"
      "only_stamps d1 (ip_db t')" by auto
    then show ?thesis using step nf only_stamps_trans [OF d1(2)]
      by (intro exI [of _ "Suc k"] exI [of _ t']) simp
  qed
qed (auto intro: exI [of _ 0])

section \<open>Dry runs\<close>

definition as_dry :: "import_progress \<Rightarrow> import_progress" where
  "as_dry st = st\<lparr>ip_sum := (ip_sum st)\<lparr>sm_dry_run := True\<rparr>\<rparr>"

lemma steps_dry:
  "import_folder_step ids org user f (as_dry st) = apfst as_dry (import_folder_step ids org user f st)"
  "import_item_step cd printed ids tnow org user source m (as_dry st)
     = apfst as_dry (import_item_step cd printed ids tnow org user source m st)"
  by (simp_all add: import_folder_step_def import_item_step_def as_dry_def Let_def remember_folder_def written_def
      del: on_table_Inr split: option.split sum.split)

lemma loop_dry:
  "(\<And>x st. step x (as_dry st) = apfst as_dry (step x st))
   \<Longrightarrow> import_loop step xs (as_dry st) = apfst as_dry (import_loop step xs st)"
  by (induction xs arbitrary: st) (simp_all split: prod.splits option.splits)

lemma work_dry:
  "import_work cd printed ids tnow org user ds (as_dry st) = apfst as_dry (import_work cd printed ids tnow org user ds st)"
  by (simp add: import_work_def loop_dry steps_dry split: prod.splits option.splits)

lemma start_dry: "import_start org user True d = as_dry (import_start org user False d)"
  by (simp add: import_start_def as_dry_def)

section \<open>What validation gives\<close>

lemma validate_folders_Inr:
  "validate_folders i keys fs = Inr gs \<Longrightarrow> distinct (map imf_key gs) \<and> imf_key ` set gs \<inter> set keys = {}"
proof (induction fs arbitrary: i keys gs)
  case (Cons f fs)
  obtain rest g where "validate_folders (i + 1) (imf_key f # keys) fs = Inr rest" "gs = g # rest" "imf_key g = imf_key f"
      "imf_key f \<notin> set keys"
    using Cons.prems by (auto simp: Let_def split: if_splits)
  with Cons.IH [OF this(1)] show ?case by auto
qed simp

lemma validate_items_Inr:
  "validate_items cd keys i eids ms = Inr ns
   \<Longrightarrow> distinct (map imi_external_id ns) \<and> imi_external_id ` set ns \<inter> set eids = {} \<and> imi_folder ` set ns \<subseteq> set keys"
proof (induction ms arbitrary: i eids ns)
  case (Cons m ms)
  let ?eid = "trim_space (imi_external_id m)"
  obtain rest n where "validate_items cd keys (i + 1) (?eid # eids) ms = Inr rest" "ns = n # rest"
      "imi_external_id n = ?eid" "imi_folder n = imi_folder m" "?eid \<notin> set eids" "imi_folder m \<in> set keys"
    using Cons.prems by (auto simp: Let_def split: if_splits)
  with Cons.IH [OF this(1)] show ?case by auto
qed simp

lemma validated_dataset_Inr:
  assumes "validated_dataset cd first payload = Inr ds"
  shows "distinct (map imi_external_id (ids_items ds)) \<and> imi_folder ` set (ids_items ds) \<subseteq> imf_key ` set (ids_folders ds)"
proof -
  have "\<exists>(ds0 :: import_dataset) folders ordered items. validate_folders 0 [] (ids_folders ds0) = Inr folders
      \<and> topologicalSortFolders folders (\<lambda>k. k \<in> set (map imf_key folders)) = Inr ordered
      \<and> validate_items cd (map imf_key folders) 0 [] (ids_items ds0) = Inr items
      \<and> ids_folders ds = ordered \<and> ids_items ds = items"
    using assms unfolding validated_dataset_def
    by (clarsimp simp: Let_def simp del: set_map validate_items.simps validate_folders.simps split: if_splits) blast
  then obtain ds0 :: import_dataset and folders ordered items where
    f: "validate_folders 0 [] (ids_folders ds0) = Inr folders"
    and p: "topologicalSortFolders folders (\<lambda>k. k \<in> set (map imf_key folders)) = Inr ordered"
    and i: "validate_items cd (map imf_key folders) 0 [] (ids_items ds0) = Inr items"
    and ds: "ids_folders ds = ordered" "ids_items ds = items"
    by blast
  have "mset ordered = mset folders"
    using topological_sort_correct [of folders] validate_folders_Inr [OF f] p by simp
  then have "set ordered = set folders" by (rule mset_eq_setD)
  then show ?thesis using validate_items_Inr [OF i] ds by simp
qed

section \<open>Repeating an import\<close>

lemma EnsureRefs_present:
  "user \<in> set (c_users d) \<Longrightarrow> org \<in> set (c_orgs d) \<Longrightarrow> EnsureRefs user org d = d"
  by (simp add: EnsureRefs_def ensure_user_def ensure_org_def)

lemma EnsureRefs_refs: "user \<in> set (c_users (EnsureRefs user org d))" "org \<in> set (c_orgs (EnsureRefs user org d))"
  by (simp_all add: EnsureRefs_def ensure_user_def ensure_org_def)

text \<open>A summary of a second run: nothing is created, every folder is reused, \<open>k\<close> items are written again.\<close>

definition rerun_summary :: "nat \<Rightarrow> bool \<Rightarrow> import_dataset \<Rightarrow> import_summary" where
  "rerun_summary k dry ds =
     \<lparr>sm_status = ''success'', sm_dry_run = dry, sm_folders_created = 0, sm_folders_reused = length (ids_folders ds),
      sm_items_created = 0, sm_items_updated = k, sm_items_unchanged = length (ids_items ds) - k\<rparr>"

lemma work_again:
  assumes ok: "catalog_ok d" and ds: "distinct (map imi_external_id (ids_items ds))"
      "imi_folder ` set (ids_items ds) \<subseteq> imf_key ` set (ids_folders ds)"
    and run: "import_work cd printed ids tnow org user ds (import_start org user False d) = (st, None)"
  shows "\<exists>k t. import_work cd printed ids' tnow' org user ds (import_start org user dry (ip_db st)) = (t, None)
    \<and> ip_sum t = rerun_summary k dry ds \<and> k \<le> length (filter (\<lambda>m. \<not> faithful_json cd printed m) (ids_items ds))
    \<and> only_stamps (ip_db st) (ip_db t) \<and> (k = 0 \<longrightarrow> ip_db t = ip_db st)"
proof -
  let ?s0 = "import_start org user False d" and ?t0 = "import_start org user dry (ip_db st)"
  obtain s1 where f: "import_loop (import_folder_step ids org user) (ids_folders ds) ?s0 = (s1, None)"
      and i: "import_loop (import_item_step cd printed ids tnow org user (ids_source ds)) (ids_items ds) s1 = (st, None)"
    using run by (auto simp: import_work_def split: prod.splits option.splits)
  have ok0: "catalog_ok (ip_db ?s0)" by (simp add: import_start_def catalog_ok_EnsureRefs [OF ok])
  have fr: "frame (ip_db ?s0) (ip_db s1)" by (rule folders_frame [OF f ok0])
  then have ok1: "catalog_ok (ip_db s1)" by (simp add: frame_def)
  note done_items = items_settled [OF i ok1 ds(1)]
  have user: "user \<in> set (c_users (ip_db st))" "org \<in> set (c_orgs (ip_db st))"
    using done_items fr by (simp_all add: frame_def import_start_def EnsureRefs_refs)
  have "EnsureRefs user org (ip_db st) = ip_db st" by (rule EnsureRefs_present [OF user])
  then have t0: "ip_db ?t0 = ip_db st" "same_keys ?s0 ?t0" by (simp_all add: import_start_def same_keys_def)
  obtain t1 where t1: "import_loop (import_folder_step ids' org user) (ids_folders ds) ?t0 = (t1, None)" "same_keys s1 t1"
      "ip_db t1 = ip_db ?t0"
      "ip_sum t1 = (ip_sum ?t0)\<lparr>sm_folders_reused := sm_folders_reused (ip_sum ?t0) + length (ids_folders ds)\<rparr>"
    using folders_again [OF f ok0 _ _ t0(2), of ids' user] done_items t0(1) by auto
  have "known_keys org ({} \<union> imf_key ` set (ids_folders ds)) s1"
    by (rule folders_known [OF f ok0]) (simp add: known_keys_def)
  then have known: "known_keys org (imi_folder ` set (ids_items ds)) t1"
    using ds(2) done_items t1(2,3) t0(1) by (auto simp: known_keys_def same_keys_def)
  have set: "\<forall>m\<in>set (ids_items ds). settled cd printed (ids_source ds) (ip_ids t1 (imi_folder m)) m (ip_db t1)"
    using done_items t1(2,3) t0(1) by (simp add: same_keys_def)
  obtain k t where kt: "import_loop (import_item_step cd printed ids' tnow' org user (ids_source ds)) (ids_items ds) t1 = (t, None)"
      "ip_sum t = (ip_sum t1)\<lparr>sm_items_updated := sm_items_updated (ip_sum t1) + k,
          sm_items_unchanged := sm_items_unchanged (ip_sum t1) + (length (ids_items ds) - k)\<rparr>"
      "k \<le> length (filter (\<lambda>m. \<not> faithful_json cd printed m) (ids_items ds))"
      "only_stamps (ip_db t1) (ip_db t)" "k = 0 \<longrightarrow> ip_db t = ip_db t1"
    using items_again [OF set _ known _ ds(1), of user ids' tnow'] done_items t1(3) t0(1) user(1) by auto
  then show ?thesis
    using t1 t0(1)
    by (intro exI [of _ k] exI [of _ t]) (auto simp: import_work_def import_start_def rerun_summary_def empty_summary_def)
qed


definition demo_import_codec :: codec where
  "demo_import_codec = \<lparr>json_text = (\<lambda>_. ''{}''), json_parse = (\<lambda>_. Some (JObj [])),
     time_text = (\<lambda>_. None), time_parse = (\<lambda>_. None), uuid_valid = (\<lambda>_. True)\<rparr>"

definition demo_stream :: stream_decoder where
  "demo_stream _ = Some
     (JObj [(''version'', JNum ''1''), (''external_source'', JStr ''open_images_v7''),
            (''folders'', JArr [JObj [(''key'', JStr ''cat''), (''parent_key'', JStr ''pets''), (''name'', JStr ''Cats'')],
                              JObj [(''key'', JStr ''pets''), (''name'', JStr '' Pets'')]]),
            (''metadata'', JArr [JObj [(''folder_key'', JStr ''cat''), (''external_id'', JStr ''0a1b''),
                                     (''title'', JStr ''Tabby''), (''labels'', JArr [JStr ''cat''])]])], [])"

definition demo_import_ids :: "nat \<Rightarrow> string" where
  "demo_import_ids n = ''n'' @ format_int (int n)"

definition demo_dataset :: import_dataset where
  "demo_dataset = \<lparr>ids_version = 1, ids_source = ''open_images_v7'',
     ids_folders = [\<lparr>imf_key = ''pets'', imf_parent = None, imf_name = ''Pets'', imf_description = None\<rparr>,
       \<lparr>imf_key = ''cat'', imf_parent = Some ''pets'', imf_name = ''Cats'', imf_description = None\<rparr>],
     ids_items = [\<lparr>imi_folder = ''cat'', imi_external_id = ''0a1b'', imi_title = ''Tabby'', imi_description = None,
       imi_labels = [''cat''], imi_category = None, imi_source_url = None, imi_thumbnail_url = None, imi_license = None,
       imi_author = None, imi_json = ''{}'', imi_notes = None\<rparr>]\<rparr>"

definition demo_import :: "bool \<Rightarrow> catalog \<Rightarrow> (import_summary \<times> import_failure option) \<times> catalog" where
  "demo_import = ImportSample demo_import_codec demo_stream id demo_import_ids 9 ''org'' ''ann'' ''file''"

definition demo_imported :: import_summary where
  "demo_imported = \<lparr>sm_status = ''success'', sm_dry_run = False, sm_folders_created = 2, sm_folders_reused = 0,
     sm_items_created = 1, sm_items_updated = 0, sm_items_unchanged = 0\<rparr>"

lemma demo_validated: "validated_dataset demo_import_codec demo_stream ''file'' = Inr demo_dataset"
  by code_simp

lemma demo_faithful: "list_all (faithful_json demo_import_codec id) (ids_items demo_dataset)"
  by code_simp

lemma demo_import_result: "fst (demo_import False tree_demo) = (demo_imported, None)"
proof -
  have "fst (ImportSampleTransaction demo_import_codec id demo_import_ids 9 ''org'' ''ann'' demo_dataset False tree_demo)
      = (demo_imported, None)"
    by code_simp
  then show ?thesis by (simp add: demo_import_def ImportSample_def demo_validated)
qed


end
