(* ===== verification/Spec2Isabelle.thy ===== *)
theory Spec2Isabelle
  imports Event_Consumer Media_Worker Deletion_Fence Media_Usecase Media_Purge Retention_Run Request_Types Listing_Pages Reply_Contract
    Search_Terms Media_Handler Import_Runs
begin

text \<open>
  Verification of the asset service (\<^verbatim>\<open>src/services/asset-core\<close>, in Go): its media pipeline, its catalogue
  of folders and items with the recycle bin, and the HTTP endpoints in front of both.

  THE PROGRAM. A client asks for an upload session; the service reserves quota and answers with a presigned
  upload to object storage. When the client commits, the service checks the stored object, turns the
  reservation into stored bytes, and records a media version with a processing job and an outbox event in one
  database transaction. A relay publishes the outbox rows to Kafka. Workers consume the notifications,
  claim the job under a lease, run a sandboxed child process that validates and renders the image, store the
  two renditions and promote the version, or settle the failure with a bounded number of retries; an event
  that can never be applied is isolated in a dead-letter topic, from which an operator may replay it.
  Items live in folders, whose place in the tree of an organization is a stored path. A folder or item that is
  deleted becomes a lifecycle unit in the recycle bin, from which it can be restored; a whole subtree is deleted
  by a worker in bounded batches after a previewed and confirmed request, and restored the same way. A daily
  scheduler starts a cleanup that queues entries past their retention for the purge, which deletes first the
  objects of their media and then the rows. A sample data set is imported in one transaction. Every request of the
  internal API carries a service credential and the organization it acts for.

  THE THEORIES, in import order (paths under \<^verbatim>\<open>internal/\<close> unless stated otherwise):
    \<^item> Prelude: result type, lists of rows as tables, generic lemmas, the collections of simp rules.
    \<^item> Go_Lib: the parts of the Go standard library the code uses (formatting and parsing of integers and
      hex, base64, UTF-8, wrapping 64-bit arithmetic).
    \<^item> Media_Domain (\<^verbatim>\<open>domain/media.go\<close>): types, states, object keys, the values exchanged with storage.
    \<^item> Media_Filename, Media_Config (\<^verbatim>\<open>domain/media_filename.go, media_config.go\<close>): validation of display
      names and of the configuration.
    \<^item> Image_Validation (\<^verbatim>\<open>media/validation/\<close>): container scans of PNG and JPEG, admission limits.
    \<^item> Rendition (\<^verbatim>\<open>media/rendition/rendition.go\<close>): geometry in rounded floating point, rendering.
    \<^item> Media_Processor (\<^verbatim>\<open>media/processing/, cmd/media-processor/main.go\<close>): child process and supervisor.
    \<^item> Event_Envelope (\<^verbatim>\<open>eventing/event/, eventing/media/events.go\<close>): envelopes, payloads, traceparents.
    \<^item> Asset_Tables: the rows of the database tables, their constraints and the quota ledger.
    \<^item> Upload_Repository (\<^verbatim>\<open>repository/media_repository.go\<close>): sessions and commits.
    \<^item> Job_Store (\<^verbatim>\<open>repository/media_job_store.go\<close> and its siblings): claims, leases, settlement, promotion,
      isolation, replay, reconciliation, purge marks, status queries.
    \<^item> Outbox_Relay (\<^verbatim>\<open>repository/media_outbox_store.go, eventing/outbox/\<close>): the relay.
    \<^item> Event_Consumer (\<^verbatim>\<open>eventing/consume/, eventing/kafka/reader.go\<close>): delivery of records.
    \<^item> Object_Storage (\<^verbatim>\<open>storage/minio_storage.go\<close>): the MinIO adapter and the contract of a store.
    \<^item> Rendition_Executor (\<^verbatim>\<open>usecase/media_rendition.go\<close>): one processing run.
    \<^item> Job_Invariant: every operation of the job store keeps the table constraints.
    \<^item> Media_Worker (\<^verbatim>\<open>usecase/media_worker.go, media_lease.go, cmd/media-worker/effect.go\<close>): a job run under a
      renewed lease, the effect of a notification, dead letters, the worker as a client of the consumer.
    \<^item> Media_Links: the links between rows of different tables that no constraint states, kept by every operation.
    \<^item> Media_Lifecycle, Media_System, Media_Pipeline: the abstract life cycle of versions, what each operation
      does to it, and all repositories and processes together as one transition system.
    \<^item> Media_Usecase, Media_Purge (\<^verbatim>\<open>usecase/media_usecase.go, media_purge.go\<close>): the operations behind the media
      endpoints with the storage they check and sign for, and the sweep over abandoned objects.
    \<^item> Catalog_Tables, Catalog_Facts (\<^verbatim>\<open>domain/asset.go, lifecycle.go, folder_deletion.go, repository/visibility.go\<close>):
      folders, items, lifecycle units and jobs with the constraints of the migrations, visibility and the fence.
    \<^item> Batch_Loop: the loop of a worker over batches, as a partial function with its termination rule.
    \<^item> Asset_Repository, Folder_Tree (\<^verbatim>\<open>repository/asset_repository.go\<close>): reads and writes of folders and items, and
      the forest that the paths encode.
    \<^item> Folder_Deletion, Deletion_Run (\<^verbatim>\<open>repository/folder_deletion_repository.go\<close>): recursive deletion.
    \<^item> Deletion_Fence (\<^verbatim>\<open>repository/deletion_fence.go\<close>): the run of a recursive deletion among other requests.
    \<^item> Lifecycle_Restore (\<^verbatim>\<open>repository/asset_repository_restore.go, lifecycle_restore_repository.go\<close>): restores.
    \<^item> Lifecycle_Purge, Purge_Run (\<^verbatim>\<open>repository/lifecycle_purge_repository.go, usecase/lifecycle_purger.go\<close>): the
      purge, with the lease keeper and steps of other processes.
    \<^item> Lifecycle_Cleanup, Retention_Run (\<^verbatim>\<open>repository/lifecycle_cleanup_*.go, cmd/asset-retention-scheduler\<close>): the
      daily run and its batches.
    \<^item> Asset_Usecase, Request_Types, Search_Terms (\<^verbatim>\<open>usecase/asset_usecase.go\<close>): validation and normalization in
      front of the repository, what they guarantee to the tables, and the pattern of a search.
    \<^item> Folder_Order, Asset_Import, Import_Runs (\<^verbatim>\<open>usecase/asset_usecase_import.go,
      repository/asset_repository_import.go, domain/import.go\<close>): the sample import.
    \<^item> Http_Reply (\<^verbatim>\<open>delivery/http/errorcodes.go, middleware.go\<close>), Asset_Handler, Media_Handler
      (\<^verbatim>\<open>asset_handler.go, media_handler.go\<close>): requests, replies, credentials, and every endpoint.
    \<^item> Tenant_Isolation, Tenant_Requests, Listing_Pages, Reply_Contract: what the endpoints guarantee as a whole.

  CONVENTIONS. A table is a list of rows and a transaction is a function from the database to a result and the
  next database, which is the old one whenever the code rolls back; errors are the left side of a sum.
  Row locks and statement atomicity are PostgreSQL's; operations that span several transactions or storage
  calls take functions that give what other processes do in between, and the theorems quantify over them.
  Time is an integer of nanoseconds. Integers of the code that can overflow are wrapped explicitly.
  External code (SHA-256, JSON text, URL parsing, image codecs, NFC, S3, Kafka, the operating
  system) is an argument, with what is assumed of it as a hypothesis or a locale.

  WHAT IS SHOWN. The quota ledger and every table constraint survive all upload operations; repeated requests
  and commits change nothing; a claim excludes others while its lease lasts and a stale lease writes nothing;
  a retry is bounded and each accepted outcome promotes exactly the two outputs; in every state the
  media processes reach the tables agree with each other, every step is at most one step of the abstract life cycle, a
  verdict is final and an unsettled job can be settled; offsets follow settlement; the relay marks only
  what the broker has; a run that ends well has stored what it recorded; scanners, geometry, names and
  configuration are sound; and several theorems of kind error state where the code strands or blocks work.
  A commit is accepted only with the verified original in storage, and the status of an asset is consistent.
  Of the catalogue: a move changes the parent of one folder and keeps a forest; deleting and restoring an empty
  folder gives back every row; a recursive deletion terminates with nothing of the subtree active, and no batch of it
  changes a visible read; a retention run terminates with exactly the entries queued that were due; a purge deletes objects before
  the rows that name them and keeps the quota ledger; the daily run is created once; the sweep deletes before it marks.
  Of the endpoints: accepted requests never violate a check of the database; a request touches and shows only rows
  of its own organization; every error reply is an entry of the table and changes nothing; following the pages of the
  recycle bin or of a keyset search yields every row once; a search text is matched literally. Of the import: the
  order of the folders is complete, a dry run changes nothing, and a repeated import changes at most update stamps.

  BOUNDS. The code is modelled without fuel: loops are structural over their input or carry a termination proof, and
  the loop over batches is a partial function whose value None means that it never returns; the theorems on runs show
  that it returns. Batches hold 1000 items or 100 folders, pages 1 to 101 rows, as in the code. The client that walks
  pages in Listing_Pages takes at most a given number of pages, which is enough when it exceeds the number of rows.

  NOT MODELLED. Metrics and logging beyond the request record, the Kafka and Redis clients and the notifications sent
  after a commit, process start-up and signals, the operating system's isolation of the child, and the JSON text of
  replies: they hold no state of their own or only call libraries. The command-line tools that download the Open Images
  data set and select its rows (\<^verbatim>\<open>openimages/\<close>) are beside the service; what they write passes the validation
  of the import. The access service (\<^verbatim>\<open>src/services/access-core\<close>, in TypeScript) is a client of these endpoints.
\<close>

end
